(* ===== verification/Prelude.thy ===== *)
theory Prelude
  imports Main "HOL-Library.Word" "HOL-Library.Monad_Syntax"
begin

text \<open>
  Shared vocabulary of the development: bytes and Go strings, the 64-bit arithmetic of Go's
  \<open>int\<close>, \<open>int64\<close> and \<open>time.Duration\<close>, Go's \<open>error\<close> values, and the parts of Go's standard
  library that several components use (\<open>encoding/hex\<close>, big-endian byte strings of
  \<open>math/big\<close>). The lemmas here are the facts on lists, words and bytes that the component
  theories share.
\<close>

unbundle bit_operations_syntax

named_theorems int64_simps \<open>rewriting of wrapped 64-bit arithmetic that does not overflow\<close>
named_theorems hex_simps \<open>encoding/hex: lengths and round trips\<close>

section \<open>Bytes and Go strings\<close>

type_synonym byte = "8 word"
type_synonym bytes = "8 word list"

text \<open>A Go string is a sequence of bytes, as is HOL's \<^typ>\<open>string\<close>; the conversions
  \<open>[]byte(s)\<close> and \<open>string(b)\<close> copy it.\<close>

definition bytes_of :: "string \<Rightarrow> bytes" where
  "bytes_of s = map of_char s"

definition string_of :: "bytes \<Rightarrow> string" where
  "string_of b = map (\<lambda>w. char_of (unat w)) b"

lemma length_bytes_of [simp]: "length (bytes_of s) = length s"
  by (simp add: bytes_of_def)

lemma length_string_of [simp]: "length (string_of b) = length b"
  by (simp add: string_of_def)

lemma byte_less: "unat (w :: byte) < 256"
  using unsigned_less [of w, where 'a = nat] by simp

lemma unat_of_nat_byte [simp]: "unat (of_nat n :: byte) = n mod 256"
  by (simp add: unsigned_of_nat take_bit_eq_mod)

lemma of_char_char_of_byte: "of_char (char_of (unat (w :: byte)) :: char) = w"
proof -
  have "unat w < 256" by (rule byte_less)
  have "of_char (char_of (unat w) :: char) = (of_nat (of_char (char_of (unat w) :: char)) :: byte)"
    by (simp only: of_nat_of_char)
  also have "\<dots> = of_nat (unat w)" using \<open>unat w < 256\<close> by simp
  finally show ?thesis by simp
qed

lemma bytes_of_string_of [simp]: "bytes_of (string_of b) = b"
  by (simp add: bytes_of_def string_of_def o_def of_char_char_of_byte)

lemma unat_of_char [simp]: "unat (of_char c :: byte) = of_char c"
  using unat_of_nat_byte [of "of_char c"] by (simp add: of_nat_of_char)

lemma string_of_bytes_of [simp]: "string_of (bytes_of s) = s"
  by (simp add: bytes_of_def string_of_def o_def)

text \<open>A \<open>[]byte\<close> that may be nil; a nil slice reads as the empty one.\<close>

type_synonym slice = "bytes option"

definition slice_bytes :: "slice \<Rightarrow> bytes" where
  "slice_bytes s = (case s of None \<Rightarrow> [] | Some b \<Rightarrow> b)"

lemma slice_bytes_simps [simp]: "slice_bytes (Some b) = b" "slice_bytes None = []"
  by (simp_all add: slice_bytes_def)

section \<open>Go's signed 64-bit integers\<close>

text \<open>\<open>int\<close>, \<open>int64\<close> and \<open>time.Duration\<close> wrap around on overflow. A value is kept as an
  \<^typ>\<open>int\<close> and every operation of the code that can overflow is wrapped.\<close>

definition wrap64 :: "int \<Rightarrow> int" where
  "wrap64 x = signed_take_bit 63 x"

definition in_int64 :: "int \<Rightarrow> bool" where
  "in_int64 x \<longleftrightarrow> - (2 ^ 63) \<le> x \<and> x < 2 ^ 63"

lemma wrap64_id [int64_simps]: "in_int64 x \<Longrightarrow> wrap64 x = x"
  by (simp add: wrap64_def in_int64_def signed_take_bit_int_eq_self)

lemma in_int64_wrap64 [simp]: "in_int64 (wrap64 x)"
  using signed_take_bit_int_greater_eq_minus_exp [of 63 x] signed_take_bit_int_less_exp [of 63 x]
  by (simp add: wrap64_def in_int64_def)

lemma wrap64_over: "2 ^ 63 \<le> x \<Longrightarrow> x < 3 * 2 ^ 63 \<Longrightarrow> wrap64 x = x - 2 ^ 64"
  using mod_pos_pos_trivial [of "x + 2 ^ 63 - 2 ^ 64" "2 ^ 64"] mod_add_self2 [of "x + 2 ^ 63 - 2 ^ 64" "2 ^ 64"]
  by (simp add: wrap64_def signed_take_bit_eq_take_bit_shift take_bit_eq_mod add.commute)

lemma wrap64_under: "x < - (2 ^ 63) \<Longrightarrow> - (3 * 2 ^ 63) \<le> x \<Longrightarrow> wrap64 x = x + 2 ^ 64"
  using mod_pos_pos_trivial [of "x + 2 ^ 63 + 2 ^ 64" "2 ^ 64"] mod_add_self2 [of "x + 2 ^ 63" "2 ^ 64"]
  by (simp add: wrap64_def signed_take_bit_eq_take_bit_shift take_bit_eq_mod add.commute)

section \<open>Go errors\<close>

text \<open>
  The dynamic type of an \<open>error\<close> decides what its callers do with it: \<open>defs.APIError\<close> carries
  an HTTP code and a detail, \<open>defs.ErrKVNotFound\<close> is compared by identity, the others are only
  passed on. \<open>Foreign\<close> is an error value made by code outside the repository. \<open>Errorf\<close> and
  \<open>Wrapf\<close> keep the format string of the message, not its formatted arguments.
\<close>

datatype gerr =
    Errorf string
  | Wrapf string gerr
  | KVNotFound
  | ApiError nat string "gerr option"
  | Foreign nat

type_synonym 'a res = "gerr + 'a"

definition is_ok :: "'a res \<Rightarrow> bool" where
  "is_ok r \<longleftrightarrow> (\<exists>x. r = Inr x)"

lemma is_ok_simps [simp]: "is_ok (Inr x)" "\<not> is_ok (Inl e)"
  by (simp_all add: is_ok_def)

section \<open>encoding/hex\<close>

definition hex_digit :: "nat \<Rightarrow> char" where
  "hex_digit n = ''0123456789abcdef'' ! n"

definition unhex :: "char \<Rightarrow> nat option" where
  "unhex c = (let n = of_char c in
     if 48 \<le> n \<and> n \<le> 57 then Some (n - 48)
     else if 97 \<le> n \<and> n \<le> 102 then Some (n - 87)
     else if 65 \<le> n \<and> n \<le> 70 then Some (n - 55)
     else None)"

fun hex_encode :: "bytes \<Rightarrow> string" where
  "hex_encode [] = []"
| "hex_encode (b # bs) = hex_digit (unat b div 16) # hex_digit (unat b mod 16) # hex_encode bs"

text \<open>\<open>hex.Decode\<close> reports the first invalid character before it reports an odd length.\<close>

fun hex_decode :: "string \<Rightarrow> bytes res" where
  "hex_decode [] = Inr []"
| "hex_decode [c] = (case unhex c of
       None \<Rightarrow> Inl (Errorf ''encoding/hex: invalid byte'')
     | Some _ \<Rightarrow> Inl (Errorf ''encoding/hex: odd length hex string''))"
| "hex_decode (p # q # cs) = (case unhex p of
       None \<Rightarrow> Inl (Errorf ''encoding/hex: invalid byte'')
     | Some a \<Rightarrow> (case unhex q of
         None \<Rightarrow> Inl (Errorf ''encoding/hex: invalid byte'')
       | Some b \<Rightarrow> (case hex_decode cs of
           Inl e \<Rightarrow> Inl e
         | Inr bs \<Rightarrow> Inr (of_nat (16 * a + b) # bs))))"

lemma unhex_hex_digit [simp]: "n < 16 \<Longrightarrow> unhex (hex_digit n) = Some n"
proof -
  assume "n < 16"
  then have "n \<in> set [0..<16]" by simp
  moreover have "list_all (\<lambda>n. unhex (hex_digit n) = Some n) [0..<16]"
    by code_simp
  ultimately show ?thesis by (simp add: list_all_iff)
qed

lemma length_hex_encode [simp, hex_simps]: "length (hex_encode b) = 2 * length b"
  by (induction b) auto

lemma hex_decode_encode [simp, hex_simps]: "hex_decode (hex_encode b) = Inr b"
proof (induction b)
  case Nil
  then show ?case by simp
next
  case (Cons w b)
  have "unat w < 256" by (rule byte_less)
  then have "unat w div 16 < 16" "unat w mod 16 < 16"
    and "16 * (unat w div 16) + unat w mod 16 = unat w" by auto
  with Cons show ?case by simp
qed

lemma hex_decode_length: "hex_decode s = Inr b \<Longrightarrow> length s = 2 * length b"
  by (induction s arbitrary: b rule: hex_decode.induct)
     (auto split: option.splits sum.splits)

lemma hex_encode_inj: "hex_encode a = hex_encode b \<longleftrightarrow> a = b"
  by (metis hex_decode_encode sum.inject(2))

section \<open>Big-endian byte strings (math/big)\<close>

text \<open>\<open>big.Int.SetBytes\<close> and \<open>big.Int.Bytes\<close>: the latter has no leading zero bytes.\<close>

definition be_nat :: "bytes \<Rightarrow> nat" where
  "be_nat bs = foldl (\<lambda>a b. a * 256 + unat b) 0 bs"

fun nat_be :: "nat \<Rightarrow> bytes" where
  "nat_be n = (if n = 0 then [] else nat_be (n div 256) @ [of_nat (n mod 256)])"

declare nat_be.simps [simp del]

lemma nat_be_0 [simp]: "nat_be 0 = []"
  by (simp add: nat_be.simps)

lemma be_nat_Nil [simp]: "be_nat [] = 0"
  by (simp add: be_nat_def)

lemma be_nat_snoc: "be_nat (bs @ [b]) = be_nat bs * 256 + unat b"
  by (simp add: be_nat_def)

lemma be_nat_append: "be_nat (xs @ ys) = be_nat xs * 256 ^ length ys + be_nat ys"
proof (induction ys rule: rev_induct)
  case Nil
  then show ?case by simp
next
  case (snoc y ys)
  then show ?case
    by (simp add: be_nat_snoc algebra_simps flip: append_assoc)
qed

lemma be_nat_replicate_0 [simp]: "be_nat (replicate n 0) = 0"
  by (induction n) (simp_all add: be_nat_snoc flip: replicate_append_same)

lemma be_nat_less: "be_nat bs < 256 ^ length bs"
proof (induction bs rule: rev_induct)
  case Nil
  then show ?case by simp
next
  case (snoc b bs)
  have "unat b < 256" by (rule byte_less)
  with snoc show ?case by (simp add: be_nat_snoc)
qed

lemma be_nat_nat_be [simp]: "be_nat (nat_be n) = n"
proof (induction n rule: nat_be.induct)
  case (1 n)
  show ?case
  proof (cases "n = 0")
    case False
    with 1 have "be_nat (nat_be (n div 256)) = n div 256" by simp
    with False show ?thesis
      by (subst nat_be.simps) (simp add: be_nat_snoc)
  qed simp
qed

lemma length_nat_be: "n < 256 ^ k \<Longrightarrow> length (nat_be n) \<le> k"
proof (induction n arbitrary: k rule: nat_be.induct)
  case (1 n)
  show ?case
  proof (cases "n = 0")
    case False
    with "1.prems" obtain k' where k: "k = Suc k'" by (cases k) auto
    with "1.prems" have "n div 256 < 256 ^ k'"
      by (simp add: div_less_iff_less_mult mult.commute)
    with "1.IH" False have "length (nat_be (n div 256)) \<le> k'" by simp
    with False k show ?thesis by (subst nat_be.simps) simp
  qed simp
qed

end
