(* ===== verification/Amcl.thy ===== *)
theory Amcl
  imports Prelude
begin

text \<open>
  The C side of the program as its headers declare it: the machine types of
  \<^verbatim>\<open>crypto/include/arch.h\<close>, the constants and structures of
  \<^verbatim>\<open>crypto/include/amcl.h\<close>, and the size and type configuration of the
  big numbers, fields and curves (\<^verbatim>\<open>config_*.h\<close>). The Go code reads these
  constants through cgo; the sizes of every octet it allocates come from here.

  The bodies of the library are not part of the repository. The lemmas show that the
  constants of the configuration fit together.
\<close>

named_theorems amcl_const \<open>values of the preprocessor constants\<close>

section \<open>arch.h: word types\<close>

text \<open>
  \<open>CHUNK\<close> is 64 whether or not \<open>CMAKE\<close> is defined. The type of a digit has \<open>CHUNK\<close> bits; the
  double-length type \<open>dchunk\<close> exists for 16 and 32 bits, and for 64 bits when the compiler is a
  C99 compiler with a 16-byte \<open>__int128\<close>. \<open>COMBA\<close> is defined exactly when \<open>dchunk\<close> is.
\<close>

(* crypto/include/arch.h:42-46 CHUNK *)
definition CHUNK :: nat where
  [amcl_const]: "CHUNK = 64"

(* crypto/include/arch.h:86-112 chunk *)
definition chunk_bits :: "nat \<Rightarrow> nat option" where
  "chunk_bits ch = (if ch = 16 then Some 16 else if ch = 32 then Some 32
     else if ch = 64 then Some 64 else None)"

(* crypto/include/arch.h:86-119 dchunk *)
definition dchunk_bits :: "bool \<Rightarrow> bool \<Rightarrow> nat \<Rightarrow> nat option" where
  "dchunk_bits c99 int128 ch =
     (if ch = 16 then Some 32
      else if ch = 32 then Some 64
      else if ch = 64 then (if c99 \<and> int128 then Some 128 else None)
      else None)"

(* crypto/include/arch.h:121-123 COMBA *)
definition COMBA :: "bool \<Rightarrow> bool \<Rightarrow> nat \<Rightarrow> bool" where
  "COMBA c99 int128 ch \<longleftrightarrow> dchunk_bits c99 int128 ch \<noteq> None"

text \<open>The fixed-width integer types, by width and signedness.\<close>

datatype c_int_type = Signed nat | Unsigned nat

(* crypto/include/arch.h:60-79 byte *)
fun c_type :: "string \<Rightarrow> c_int_type option" where
  "c_type n =
     (if n = ''byte'' then Some (Unsigned 8)
      else if n = ''uchar'' then Some (Unsigned 8)
      else if n = ''sign8'' then Some (Signed 8)
      else if n = ''sign16'' then Some (Signed 16)
      else if n = ''sign32'' then Some (Signed 32)
      else if n = ''sign64'' then Some (Signed 64)
      else if n = ''unsign32'' then Some (Unsigned 32)
      else if n = ''unsign64'' then Some (Unsigned 64)
      else None)"

text \<open>
  Signed arithmetic of \<open>w\<close> bits: the result when it is representable, \<open>None\<close> for the overflow
  that C leaves undefined.
\<close>

definition fits :: "nat \<Rightarrow> int \<Rightarrow> bool" where
  "fits w x \<longleftrightarrow> - (2 ^ (w - 1)) \<le> x \<and> x < 2 ^ (w - 1)"

definition chk :: "nat \<Rightarrow> int \<Rightarrow> int option" where
  "chk w x = (if fits w x then Some x else None)"

text \<open>A conversion to a narrower signed type keeps the low bits.\<close>

definition cast :: "nat \<Rightarrow> int \<Rightarrow> int" where
  "cast w x = signed_take_bit (w - 1) x"

lemma chk_Some: "fits w x \<Longrightarrow> chk w x = Some x"
  by (simp add: chk_def)

lemma cast_fits: "0 < w \<Longrightarrow> fits w x \<Longrightarrow> cast w x = x"
  by (simp add: cast_def fits_def signed_take_bit_int_eq_self)

section \<open>amcl.h: constants\<close>

(* crypto/include/amcl.h:39 NOT_SPECIAL *)
definition NOT_SPECIAL :: int where
  [amcl_const]: "NOT_SPECIAL = 0"

(* crypto/include/amcl.h:40 PSEUDO_MERSENNE *)
definition PSEUDO_MERSENNE :: int where
  [amcl_const]: "PSEUDO_MERSENNE = 1"

(* crypto/include/amcl.h:41 MONTGOMERY_FRIENDLY *)
definition MONTGOMERY_FRIENDLY :: int where
  [amcl_const]: "MONTGOMERY_FRIENDLY = 3"

(* crypto/include/amcl.h:42 GENERALISED_MERSENNE *)
definition GENERALISED_MERSENNE :: int where
  [amcl_const]: "GENERALISED_MERSENNE = 2"

(* crypto/include/amcl.h:47 WEIERSTRASS *)
definition WEIERSTRASS :: int where
  [amcl_const]: "WEIERSTRASS = 0"

(* crypto/include/amcl.h:48 EDWARDS *)
definition EDWARDS :: int where
  [amcl_const]: "EDWARDS = 1"

(* crypto/include/amcl.h:49 MONTGOMERY *)
definition MONTGOMERY :: int where
  [amcl_const]: "MONTGOMERY = 2"

(* crypto/include/amcl.h:53 NOT *)
definition PF_NOT :: int where
  [amcl_const]: "PF_NOT = 0"

(* crypto/include/amcl.h:54 BN *)
definition PF_BN :: int where
  [amcl_const]: "PF_BN = 1"

(* crypto/include/amcl.h:55 BLS *)
definition PF_BLS :: int where
  [amcl_const]: "PF_BLS = 2"

(* crypto/include/amcl.h:57 D_TYPE *)
definition D_TYPE :: int where
  [amcl_const]: "D_TYPE = 0"

(* crypto/include/amcl.h:58 M_TYPE *)
definition M_TYPE :: int where
  [amcl_const]: "M_TYPE = 1"

(* crypto/include/amcl.h:60 AMCL_FP_ZERO *)
definition AMCL_FP_ZERO :: int where
  [amcl_const]: "AMCL_FP_ZERO = 0"

(* crypto/include/amcl.h:61 AMCL_FP_UNITY *)
definition AMCL_FP_UNITY :: int where
  [amcl_const]: "AMCL_FP_UNITY = 1"

(* crypto/include/amcl.h:62 AMCL_FP_SPARSER *)
definition AMCL_FP_SPARSER :: int where
  [amcl_const]: "AMCL_FP_SPARSER = 2"

(* crypto/include/amcl.h:63 AMCL_FP_SPARSE *)
definition AMCL_FP_SPARSE :: int where
  [amcl_const]: "AMCL_FP_SPARSE = 3"

(* crypto/include/amcl.h:64 AMCL_FP_DENSE *)
definition AMCL_FP_DENSE :: int where
  [amcl_const]: "AMCL_FP_DENSE = 4"

(* crypto/include/amcl.h:101 SHA256 *)
definition SHA256 :: int where
  [amcl_const]: "SHA256 = 32"

(* crypto/include/amcl.h:102 SHA384 *)
definition SHA384 :: int where
  [amcl_const]: "SHA384 = 48"

(* crypto/include/amcl.h:103 SHA512 *)
definition SHA512 :: int where
  [amcl_const]: "SHA512 = 64"

(* crypto/include/amcl.h:105 SHA3_HASH224 *)
definition SHA3_HASH224 :: int where
  [amcl_const]: "SHA3_HASH224 = 28"

(* crypto/include/amcl.h:106 SHA3_HASH256 *)
definition SHA3_HASH256 :: int where
  [amcl_const]: "SHA3_HASH256 = 32"

(* crypto/include/amcl.h:107 SHA3_HASH384 *)
definition SHA3_HASH384 :: int where
  [amcl_const]: "SHA3_HASH384 = 48"

(* crypto/include/amcl.h:108 SHA3_HASH512 *)
definition SHA3_HASH512 :: int where
  [amcl_const]: "SHA3_HASH512 = 64"

(* crypto/include/amcl.h:110 SHAKE128 *)
definition SHAKE128 :: int where
  [amcl_const]: "SHAKE128 = 16"

(* crypto/include/amcl.h:111 SHAKE256 *)
definition SHAKE256 :: int where
  [amcl_const]: "SHAKE256 = 32"

(* crypto/include/amcl.h:118 RLWE_PRIME *)
definition RLWE_PRIME :: int where
  [amcl_const]: "RLWE_PRIME = 0x3001"

(* crypto/include/amcl.h:119 RLWE_LGN *)
definition RLWE_LGN :: int where
  [amcl_const]: "RLWE_LGN = 10"

(* crypto/include/amcl.h:120 RLWE_ND *)
definition RLWE_ND :: int where
  [amcl_const]: "RLWE_ND = 0xF7002FFF"

(* crypto/include/amcl.h:121 RLWE_ONE *)
definition RLWE_ONE :: int where
  [amcl_const]: "RLWE_ONE = 0x2AC8"

(* crypto/include/amcl.h:122 RLWE_R2MODP *)
definition RLWE_R2MODP :: int where
  [amcl_const]: "RLWE_R2MODP = 0x1620"

(* crypto/include/amcl.h:126 ECB *)
definition ECB :: int where
  [amcl_const]: "ECB = 0"

(* crypto/include/amcl.h:127 CBC *)
definition CBC :: int where
  [amcl_const]: "CBC = 1"

(* crypto/include/amcl.h:128 CFB1 *)
definition CFB1 :: int where
  [amcl_const]: "CFB1 = 2"

(* crypto/include/amcl.h:129 CFB2 *)
definition CFB2 :: int where
  [amcl_const]: "CFB2 = 3"

(* crypto/include/amcl.h:130 CFB4 *)
definition CFB4 :: int where
  [amcl_const]: "CFB4 = 5"

(* crypto/include/amcl.h:131 OFB1 *)
definition OFB1 :: int where
  [amcl_const]: "OFB1 = 14"

(* crypto/include/amcl.h:132 OFB2 *)
definition OFB2 :: int where
  [amcl_const]: "OFB2 = 15"

(* crypto/include/amcl.h:133 OFB4 *)
definition OFB4 :: int where
  [amcl_const]: "OFB4 = 17"

(* crypto/include/amcl.h:134 OFB8 *)
definition OFB8 :: int where
  [amcl_const]: "OFB8 = 21"

(* crypto/include/amcl.h:135 OFB16 *)
definition OFB16 :: int where
  [amcl_const]: "OFB16 = 29"

(* crypto/include/amcl.h:136 CTR1 *)
definition CTR1 :: int where
  [amcl_const]: "CTR1 = 30"

(* crypto/include/amcl.h:137 CTR2 *)
definition CTR2 :: int where
  [amcl_const]: "CTR2 = 31"

(* crypto/include/amcl.h:138 CTR4 *)
definition CTR4 :: int where
  [amcl_const]: "CTR4 = 33"

(* crypto/include/amcl.h:139 CTR8 *)
definition CTR8 :: int where
  [amcl_const]: "CTR8 = 37"

(* crypto/include/amcl.h:140 CTR16 *)
definition CTR16 :: int where
  [amcl_const]: "CTR16 = 45"

(* crypto/include/amcl.h:161 GCM_ACCEPTING_HEADER *)
definition GCM_ACCEPTING_HEADER :: int where
  [amcl_const]: "GCM_ACCEPTING_HEADER = 0"

(* crypto/include/amcl.h:162 GCM_ACCEPTING_CIPHER *)
definition GCM_ACCEPTING_CIPHER :: int where
  [amcl_const]: "GCM_ACCEPTING_CIPHER = 1"

(* crypto/include/amcl.h:163 GCM_NOT_ACCEPTING_MORE *)
definition GCM_NOT_ACCEPTING_MORE :: int where
  [amcl_const]: "GCM_NOT_ACCEPTING_MORE = 2"

(* crypto/include/amcl.h:164 GCM_FINISHED *)
definition GCM_FINISHED :: int where
  [amcl_const]: "GCM_FINISHED = 3"

(* crypto/include/amcl.h:165 GCM_ENCRYPTING *)
definition GCM_ENCRYPTING :: int where
  [amcl_const]: "GCM_ENCRYPTING = 0"

(* crypto/include/amcl.h:166 GCM_DECRYPTING *)
definition GCM_DECRYPTING :: int where
  [amcl_const]: "GCM_DECRYPTING = 1"

(* crypto/include/amcl.h:186 NK *)
definition PRNG_NK :: nat where
  [amcl_const]: "PRNG_NK = 21"

(* crypto/include/amcl.h:187 NJ *)
definition PRNG_NJ :: nat where
  [amcl_const]: "PRNG_NJ = 6"

(* crypto/include/amcl.h:188 NV *)
definition PRNG_NV :: nat where
  [amcl_const]: "PRNG_NV = 8"

section \<open>amcl.h: structures\<close>

text \<open>
  An array field is a list; the \<open>_wf\<close> predicates state the array sizes of the declaration.
  \<open>int\<close> fields are 32-bit.
\<close>

(* crypto/include/amcl.h:67-75 hash256 *)
record hash256 =
  h256_length :: "32 word list"
  h256_h :: "32 word list"
  h256_w :: "32 word list"
  h256_hlen :: int

definition hash256_wf :: "hash256 \<Rightarrow> bool" where
  "hash256_wf H \<longleftrightarrow> length (h256_length H) = 2 \<and> length (h256_h H) = 8
     \<and> length (h256_w H) = 80 \<and> fits 32 (h256_hlen H)"

(* crypto/include/amcl.h:77-85 hash512 *)
record hash512 =
  h512_length :: "64 word list"
  h512_h :: "64 word list"
  h512_w :: "64 word list"
  h512_hlen :: int

definition hash512_wf :: "hash512 \<Rightarrow> bool" where
  "hash512_wf H \<longleftrightarrow> length (h512_length H) = 2 \<and> length (h512_h H) = 8
     \<and> length (h512_w H) = 80 \<and> fits 32 (h512_hlen H)"

(* crypto/include/amcl.h:87-89 hash384 *)
type_synonym hash384 = hash512

(* crypto/include/amcl.h:91-99 sha3 *)
record sha3 =
  sha3_length :: "64 word"
  sha3_S :: "64 word list list"
  sha3_rate :: int
  sha3_len :: int

definition sha3_wf :: "sha3 \<Rightarrow> bool" where
  "sha3_wf H \<longleftrightarrow> length (sha3_S H) = 5 \<and> (\<forall>r \<in> set (sha3_S H). length r = 5)
     \<and> fits 32 (sha3_rate H) \<and> fits 32 (sha3_len H)"

(* crypto/include/amcl.h:144-157 amcl_aes *)
record amcl_aes =
  aes_Nk :: int
  aes_Nr :: int
  aes_mode :: int
  aes_fkey :: "32 word list"
  aes_rkey :: "32 word list"
  aes_f :: bytes

definition amcl_aes_wf :: "amcl_aes \<Rightarrow> bool" where
  "amcl_aes_wf A \<longleftrightarrow> length (aes_fkey A) = 60 \<and> length (aes_rkey A) = 60 \<and> length (aes_f A) = 16
     \<and> fits 32 (aes_Nk A) \<and> fits 32 (aes_Nr A) \<and> fits 32 (aes_mode A)"

(* crypto/include/amcl.h:169-182 gcm *)
record gcm =
  gcm_table :: "32 word list list"
  gcm_stateX :: bytes
  gcm_Y_0 :: bytes
  gcm_lenA :: "32 word list"
  gcm_lenC :: "32 word list"
  gcm_status :: int
  gcm_a :: amcl_aes

definition gcm_wf :: "gcm \<Rightarrow> bool" where
  "gcm_wf G \<longleftrightarrow> length (gcm_table G) = 128 \<and> (\<forall>r \<in> set (gcm_table G). length r = 4)
     \<and> length (gcm_stateX G) = 16 \<and> length (gcm_Y_0 G) = 16
     \<and> length (gcm_lenA G) = 2 \<and> length (gcm_lenC G) = 2
     \<and> gcm_status G \<in> {GCM_ACCEPTING_HEADER .. GCM_FINISHED} \<and> amcl_aes_wf (gcm_a G)"

(* crypto/include/amcl.h:191-202 csprng *)
record csprng =
  ira :: "32 word list"
  rndptr :: int
  borrow :: "32 word"
  pool_ptr :: int
  pool :: bytes

definition csprng_wf :: "csprng \<Rightarrow> bool" where
  "csprng_wf R \<longleftrightarrow> length (ira R) = PRNG_NK \<and> length (pool R) = 32
     \<and> 0 \<le> rndptr R \<and> rndptr R < int PRNG_NK \<and> 0 \<le> pool_ptr R \<and> pool_ptr R < 32"

text \<open>The zero value that Go gives \<open>var rand C.csprng\<close>.\<close>

definition csprng_zero :: csprng where
  "csprng_zero = \<lparr>ira = replicate PRNG_NK 0, rndptr = 0, borrow = 0, pool_ptr = 0,
     pool = replicate 32 0\<rparr>"

text \<open>An octet: two lengths and a pointer to its bytes. The code never copies the pointer from one
  octet to another, so the record holds the bytes of the block it points to.\<close>

(* crypto/include/amcl.h:205-214 octet *)
record octet =
  oct_len :: int
  oct_max :: int
  oct_val :: "8 word list"

lemma csprng_zero_wf: "csprng_wf csprng_zero"
  by (simp add: csprng_wf_def csprng_zero_def amcl_const)

section \<open>config_big, config_field, config_curve\<close>

(* crypto/include/config_big_256_56.h:34 MODBYTES_256_56 *)
definition MODBYTES_256_56 :: nat where
  [amcl_const]: "MODBYTES_256_56 = 32"

(* crypto/include/config_big_256_56.h:35 BASEBITS_256_56 *)
definition BASEBITS_256_56 :: nat where
  [amcl_const]: "BASEBITS_256_56 = 56"

(* crypto/include/config_big_384_58.h:34 MODBYTES_384_58 *)
definition MODBYTES_384_58 :: nat where
  [amcl_const]: "MODBYTES_384_58 = 48"

(* crypto/include/config_big_384_58.h:35 BASEBITS_384_58 *)
definition BASEBITS_384_58 :: nat where
  [amcl_const]: "BASEBITS_384_58 = 58"

(* crypto/include/config_field_BLS381.h:28 MBITS_BLS381 *)
definition MBITS_BLS381 :: nat where
  [amcl_const]: "MBITS_BLS381 = 381"

(* crypto/include/config_field_BLS381.h:29 MOD8_BLS381 *)
definition MOD8_BLS381 :: nat where
  [amcl_const]: "MOD8_BLS381 = 3"

(* crypto/include/config_field_BLS381.h:30 MODTYPE_BLS381 *)
definition MODTYPE_BLS381 :: int where
  [amcl_const]: "MODTYPE_BLS381 = NOT_SPECIAL"

(* crypto/include/config_field_BLS381.h:31 MAXXES_BLS381 *)
definition MAXXES_BLS381 :: nat where
  [amcl_const]: "MAXXES_BLS381 = 25"

(* crypto/include/config_field_SECP256K1.h:28 MBITS_SECP256K1 *)
definition MBITS_SECP256K1 :: nat where
  [amcl_const]: "MBITS_SECP256K1 = 256"

(* crypto/include/config_field_SECP256K1.h:29 MOD8_SECP256K1 *)
definition MOD8_SECP256K1 :: nat where
  [amcl_const]: "MOD8_SECP256K1 = 7"

(* crypto/include/config_field_SECP256K1.h:30 MODTYPE_SECP256K1 *)
definition MODTYPE_SECP256K1 :: int where
  [amcl_const]: "MODTYPE_SECP256K1 = NOT_SPECIAL"

(* crypto/include/config_field_SECP256K1.h:31 MAXXES_SECP256K1 *)
definition MAXXES_SECP256K1 :: nat where
  [amcl_const]: "MAXXES_SECP256K1 = 24"

(* crypto/include/config_curve_BLS381.h:28 CURVETYPE_BLS381 *)
definition CURVETYPE_BLS381 :: int where
  [amcl_const]: "CURVETYPE_BLS381 = WEIERSTRASS"

(* crypto/include/config_curve_BLS381.h:29 PAIRING_FRIENDLY_BLS381 *)
definition PAIRING_FRIENDLY_BLS381 :: int where
  [amcl_const]: "PAIRING_FRIENDLY_BLS381 = PF_BLS"

(* crypto/include/config_curve_BLS381.h:30 CURVE_SECURITY_BLS381 *)
definition CURVE_SECURITY_BLS381 :: nat where
  [amcl_const]: "CURVE_SECURITY_BLS381 = 128"

(* crypto/include/config_curve_BLS381.h:38 POSITIVEX *)
definition POSITIVEX :: int where
  [amcl_const]: "POSITIVEX = 0"

(* crypto/include/config_curve_BLS381.h:39 NEGATIVEX *)
definition NEGATIVEX :: int where
  [amcl_const]: "NEGATIVEX = 1"

(* crypto/include/config_curve_BLS381.h:33-46 SEXTIC_TWIST_BLS381 *)
definition SEXTIC_TWIST_BLS381 :: "int option" where
  [amcl_const]: "SEXTIC_TWIST_BLS381 =
     (if PAIRING_FRIENDLY_BLS381 \<noteq> PF_NOT then Some M_TYPE else None)"

(* crypto/include/config_curve_BLS381.h:33-46 SIGN_OF_X_BLS381 *)
definition SIGN_OF_X_BLS381 :: "int option" where
  [amcl_const]: "SIGN_OF_X_BLS381 =
     (if PAIRING_FRIENDLY_BLS381 \<noteq> PF_NOT then Some NEGATIVEX else None)"

(* crypto/include/config_curve_BLS381.h:48-61 AESKEY_BLS381 *)
definition AESKEY_BLS381_of :: "nat \<Rightarrow> nat option" where
  "AESKEY_BLS381_of security =
     (if security = 128 then Some 16 else if security = 192 then Some 24
      else if security = 256 then Some 32 else None)"

(* crypto/include/config_curve_BLS381.h:48-61 HASH_TYPE_BLS381 *)
definition HASH_TYPE_BLS381_of :: "nat \<Rightarrow> int option" where
  "HASH_TYPE_BLS381_of security =
     (if security = 128 then Some SHA256 else if security = 192 then Some SHA384
      else if security = 256 then Some SHA512 else None)"

(* crypto/include/config_curve_BLS381.h:48-51 AESKEY_BLS381 *)
definition AESKEY_BLS381 :: nat where
  [amcl_const]: "AESKEY_BLS381 = 16"

(* crypto/include/config_curve_BLS381.h:48-51 HASH_TYPE_BLS381 *)
definition HASH_TYPE_BLS381 :: int where
  [amcl_const]: "HASH_TYPE_BLS381 = SHA256"

(* crypto/include/config_curve_SECP256K1.h:28 CURVETYPE_SECP256K1 *)
definition CURVETYPE_SECP256K1 :: int where
  [amcl_const]: "CURVETYPE_SECP256K1 = WEIERSTRASS"

(* crypto/include/config_curve_SECP256K1.h:29 PAIRING_FRIENDLY_SECP256K1 *)
definition PAIRING_FRIENDLY_SECP256K1 :: int where
  [amcl_const]: "PAIRING_FRIENDLY_SECP256K1 = PF_NOT"

(* crypto/include/config_curve_SECP256K1.h:30 CURVE_SECURITY_SECP256K1 *)
definition CURVE_SECURITY_SECP256K1 :: nat where
  [amcl_const]: "CURVE_SECURITY_SECP256K1 = 128"

(* crypto/include/config_curve_SECP256K1.h:33-46 SEXTIC_TWIST_SECP256K1 *)
definition SEXTIC_TWIST_SECP256K1 :: "int option" where
  [amcl_const]: "SEXTIC_TWIST_SECP256K1 =
     (if PAIRING_FRIENDLY_SECP256K1 \<noteq> PF_NOT then None else None)"

(* crypto/include/config_curve_SECP256K1.h:33-46 SIGN_OF_X_SECP256K1 *)
definition SIGN_OF_X_SECP256K1 :: "int option" where
  [amcl_const]: "SIGN_OF_X_SECP256K1 =
     (if PAIRING_FRIENDLY_SECP256K1 \<noteq> PF_NOT then None else None)"

(* crypto/include/config_curve_SECP256K1.h:48-61 AESKEY_SECP256K1 *)
definition AESKEY_SECP256K1_of :: "nat \<Rightarrow> nat option" where
  "AESKEY_SECP256K1_of security =
     (if security = 128 then Some 16 else if security = 192 then Some 24
      else if security = 256 then Some 32 else None)"

(* crypto/include/config_curve_SECP256K1.h:48-61 HASH_TYPE_SECP256K1 *)
definition HASH_TYPE_SECP256K1_of :: "nat \<Rightarrow> int option" where
  "HASH_TYPE_SECP256K1_of security =
     (if security = 128 then Some SHA256 else if security = 192 then Some SHA384
      else if security = 256 then Some SHA512 else None)"

(* crypto/include/config_curve_SECP256K1.h:48-51 AESKEY_SECP256K1 *)
definition AESKEY_SECP256K1 :: nat where
  [amcl_const]: "AESKEY_SECP256K1 = 16"

(* crypto/include/config_curve_SECP256K1.h:48-51 HASH_TYPE_SECP256K1 *)
definition HASH_TYPE_SECP256K1 :: int where
  [amcl_const]: "HASH_TYPE_SECP256K1 = SHA256"

(* crypto/include/config_test.h:23 nTimePermitTests *)
definition nTimePermitTests :: int where
  [amcl_const]: "nTimePermitTests = 10"

(* crypto/include/config_test.h:24 nRandomTests *)
definition nRandomTests :: int where
  [amcl_const]: "nRandomTests = 5"

section \<open>Sizes the Go code allocates with\<close>

text \<open>\<^verbatim>\<open>bls_BLS381.h\<close>, \<^verbatim>\<open>mpin_BLS381.h\<close>, \<^verbatim>\<open>ecdh_*.h\<close>, \<^verbatim>\<open>pbc_support.h\<close>.\<close>

(* crypto/include/bls_BLS381.h:36 BGS_BLS381 *)
definition BGS_BLS381 :: int where
  [amcl_const]: "BGS_BLS381 = int MODBYTES_384_58"

(* crypto/include/bls_BLS381.h:37 BFS_BLS381 *)
definition BFS_BLS381 :: int where
  [amcl_const]: "BFS_BLS381 = int MODBYTES_384_58"

(* crypto/include/bls_BLS381.h:39 BLS_OK *)
definition BLS_OK :: int where
  [amcl_const]: "BLS_OK = 0"

(* crypto/include/bls_BLS381.h:40 BLS_FAIL *)
definition BLS_FAIL :: int where
  [amcl_const]: "BLS_FAIL = 41"

(* crypto/include/bls_BLS381.h:41 BLS_INVALID_G1 *)
definition BLS_INVALID_G1 :: int where
  [amcl_const]: "BLS_INVALID_G1 = 42"

(* crypto/include/bls_BLS381.h:42 BLS_INVALID_G2 *)
definition BLS_INVALID_G2 :: int where
  [amcl_const]: "BLS_INVALID_G2 = 43"

(* crypto/include/mpin_BLS381.h:36 PGS_BLS381 *)
definition PGS_BLS381 :: int where
  [amcl_const]: "PGS_BLS381 = int MODBYTES_384_58"

(* crypto/include/mpin_BLS381.h:37 PFS_BLS381 *)
definition PFS_BLS381 :: int where
  [amcl_const]: "PFS_BLS381 = int MODBYTES_384_58"

(* crypto/include/mpin_BLS381.h:40 MPIN_OK *)
definition MPIN_OK :: int where
  [amcl_const]: "MPIN_OK = 0"

(* crypto/include/mpin_BLS381.h:41 MPIN_INVALID_POINT *)
definition MPIN_INVALID_POINT :: int where
  [amcl_const]: "MPIN_INVALID_POINT = - 14"

(* crypto/include/mpin_BLS381.h:42 MPIN_BAD_PIN *)
definition MPIN_BAD_PIN :: int where
  [amcl_const]: "MPIN_BAD_PIN = - 19"

(* crypto/include/mpin_BLS381.h:44 MPIN_PAS *)
definition MPIN_PAS :: int where
  [amcl_const]: "MPIN_PAS = 16"

(* crypto/include/mpin_BLS381.h:45 MAXPIN *)
definition MAXPIN :: int where
  [amcl_const]: "MAXPIN = 10000"

(* crypto/include/mpin_BLS381.h:46 PBLEN *)
definition PBLEN :: int where
  [amcl_const]: "PBLEN = 14"

(* crypto/include/mpin_BLS381.h:50 MESSAGE_SIZE *)
definition MESSAGE_SIZE :: int where
  [amcl_const]: "MESSAGE_SIZE = 256"

(* crypto/include/mpin_BLS381.h:51 M_SIZE_BLS381 *)
definition M_SIZE_BLS381 :: int where
  [amcl_const]: "M_SIZE_BLS381 = MESSAGE_SIZE + 2 * PFS_BLS381 + 1"

(* crypto/include/ecdh_BLS381.h:42 EGS_BLS381 *)
definition EGS_BLS381 :: int where
  [amcl_const]: "EGS_BLS381 = int MODBYTES_384_58"

(* crypto/include/ecdh_BLS381.h:43 EFS_BLS381 *)
definition EFS_BLS381 :: int where
  [amcl_const]: "EFS_BLS381 = int MODBYTES_384_58"

(* crypto/include/ecdh_SECP256K1.h:42 EGS_SECP256K1 *)
definition EGS_SECP256K1 :: int where
  [amcl_const]: "EGS_SECP256K1 = int MODBYTES_256_56"

(* crypto/include/ecdh_SECP256K1.h:43 EFS_SECP256K1 *)
definition EFS_SECP256K1 :: int where
  [amcl_const]: "EFS_SECP256K1 = int MODBYTES_256_56"

(* crypto/include/ecdh_SECP256K1.h:45 ECDH_OK *)
definition ECDH_OK :: int where
  [amcl_const]: "ECDH_OK = 0"

(* crypto/include/ecdh_SECP256K1.h:47 ECDH_INVALID_PUBLIC_KEY *)
definition ECDH_INVALID_PUBLIC_KEY :: int where
  [amcl_const]: "ECDH_INVALID_PUBLIC_KEY = - 2"

(* crypto/include/ecdh_SECP256K1.h:48 ECDH_ERROR *)
definition ECDH_ERROR :: int where
  [amcl_const]: "ECDH_ERROR = - 3"

(* crypto/include/ecdh_SECP256K1.h:49 ECDH_INVALID *)
definition ECDH_INVALID :: int where
  [amcl_const]: "ECDH_INVALID = - 4"

(* crypto/include/pbc_support.h:33 TIME_SLOT_MINUTES *)
definition TIME_SLOT_MINUTES :: int where
  [amcl_const]: "TIME_SLOT_MINUTES = 1440"

section \<open>The constants fit together\<close>

lemma dchunk_doubles_chunk:
  "dchunk_bits c99 i128 ch = Some d \<Longrightarrow> \<exists>b. chunk_bits ch = Some b \<and> d = 2 * b"
  by (auto simp: dchunk_bits_def chunk_bits_def split: if_splits)

lemma COMBA_64_iff: "COMBA c99 i128 CHUNK \<longleftrightarrow> c99 \<and> i128"
  by (simp add: COMBA_def dchunk_bits_def amcl_const)

text \<open>The security level 128 selects the key size and hash type that the macros end up with.\<close>

lemma curve_security_selects:
  "AESKEY_BLS381_of CURVE_SECURITY_BLS381 = Some AESKEY_BLS381"
  "HASH_TYPE_BLS381_of CURVE_SECURITY_BLS381 = Some HASH_TYPE_BLS381"
  "AESKEY_SECP256K1_of CURVE_SECURITY_SECP256K1 = Some AESKEY_SECP256K1"
  "HASH_TYPE_SECP256K1_of CURVE_SECURITY_SECP256K1 = Some HASH_TYPE_SECP256K1"
  by (simp_all add: AESKEY_BLS381_of_def HASH_TYPE_BLS381_of_def AESKEY_SECP256K1_of_def
      HASH_TYPE_SECP256K1_of_def amcl_const)

text \<open>
  The ring parameters the comments of \<^verbatim>\<open>amcl.h\<close> describe, for \<open>R = 2 ^ 32\<close>: \<open>RLWE_ND\<close> is the
  inverse of \<open>R - q\<close> modulo \<open>R\<close>, \<open>RLWE_ONE\<close> is \<open>R mod q\<close>, \<open>RLWE_R2MODP\<close> is \<open>R\<^sup>2 mod q\<close>, and the
  ring of degree \<open>2 ^ RLWE_LGN\<close> has the roots of unity of a number-theoretic transform.
\<close>

lemma rlwe_constants:
  "(2 ^ 32 - RLWE_PRIME) * RLWE_ND mod 2 ^ 32 = 1"
  "RLWE_ONE = 2 ^ 32 mod RLWE_PRIME"
  "RLWE_R2MODP = (2 ^ 32) ^ 2 mod RLWE_PRIME"
  "(RLWE_PRIME - 1) mod (2 * 2 ^ nat RLWE_LGN) = 0"
  by (simp_all add: amcl_const)

lemma pin_fits_pblen: "MAXPIN \<le> 2 ^ nat PBLEN"
  by (simp add: amcl_const)

end
