(* ===== verification/Big.thy ===== *)
theory Big
  imports Amcl
begin

text \<open>
  The big-number representation of \<^verbatim>\<open>crypto/include/big_384_58.h\<close> and
  \<^verbatim>\<open>big_256_56.h\<close> and the field parameters of \<^verbatim>\<open>fp_BLS381.h\<close> and
  \<^verbatim>\<open>fp_SECP256K1.h\<close>: the macros, the types, and the one routine whose body a header
  holds, \<open>muladd\<close>, in both of its variants (with a double-length integer type and without).

  Digits are signed chunks; every intermediate result of the C code is checked against its
  type, so that \<open>Some\<close> also says that no signed overflow happens. The lemmas show that
  both variants compute \<open>x * y + c + r\<close> split at the number base, and that the macros
  describe a consistent representation.
\<close>

section \<open>Macros\<close>

(* crypto/include/big_384_58.h:39 BIGBITS_384_58 *)
definition BIGBITS_384_58 :: nat where
  [amcl_const]: "BIGBITS_384_58 = 8 * MODBYTES_384_58"

(* crypto/include/big_384_58.h:40 NLEN_384_58 *)
definition NLEN_384_58 :: nat where
  [amcl_const]: "NLEN_384_58 = 1 + (8 * MODBYTES_384_58 - 1) div BASEBITS_384_58"

(* crypto/include/big_384_58.h:41 DNLEN_384_58 *)
definition DNLEN_384_58 :: nat where
  [amcl_const]: "DNLEN_384_58 = 2 * NLEN_384_58"

(* crypto/include/big_384_58.h:42 BMASK_384_58 *)
definition BMASK_384_58 :: int where
  [amcl_const]: "BMASK_384_58 = push_bit BASEBITS_384_58 1 - 1"

(* crypto/include/big_384_58.h:43 NEXCESS_384_58 *)
definition NEXCESS_384_58 :: int where
  [amcl_const]: "NEXCESS_384_58 = push_bit (CHUNK - BASEBITS_384_58 - 1) 1"

(* crypto/include/big_384_58.h:45 HBITS_384_58 *)
definition HBITS_384_58 :: nat where
  [amcl_const]: "HBITS_384_58 = BASEBITS_384_58 div 2"

(* crypto/include/big_384_58.h:46 HMASK_384_58 *)
definition HMASK_384_58 :: int where
  [amcl_const]: "HMASK_384_58 = push_bit HBITS_384_58 1 - 1"

(* crypto/include/big_256_56.h:39 BIGBITS_256_56 *)
definition BIGBITS_256_56 :: nat where
  [amcl_const]: "BIGBITS_256_56 = 8 * MODBYTES_256_56"

(* crypto/include/big_256_56.h:40 NLEN_256_56 *)
definition NLEN_256_56 :: nat where
  [amcl_const]: "NLEN_256_56 = 1 + (8 * MODBYTES_256_56 - 1) div BASEBITS_256_56"

(* crypto/include/big_256_56.h:41 DNLEN_256_56 *)
definition DNLEN_256_56 :: nat where
  [amcl_const]: "DNLEN_256_56 = 2 * NLEN_256_56"

(* crypto/include/big_256_56.h:42 BMASK_256_56 *)
definition BMASK_256_56 :: int where
  [amcl_const]: "BMASK_256_56 = push_bit BASEBITS_256_56 1 - 1"

(* crypto/include/big_256_56.h:43 NEXCESS_256_56 *)
definition NEXCESS_256_56 :: int where
  [amcl_const]: "NEXCESS_256_56 = push_bit (CHUNK - BASEBITS_256_56 - 1) 1"

(* crypto/include/big_256_56.h:45 HBITS_256_56 *)
definition HBITS_256_56 :: nat where
  [amcl_const]: "HBITS_256_56 = BASEBITS_256_56 div 2"

(* crypto/include/big_256_56.h:46 HMASK_256_56 *)
definition HMASK_256_56 :: int where
  [amcl_const]: "HMASK_256_56 = push_bit HBITS_256_56 1 - 1"

(* crypto/include/fp_BLS381.h:51 MODBITS_BLS381 *)
definition MODBITS_BLS381 :: nat where
  [amcl_const]: "MODBITS_BLS381 = MBITS_BLS381"

(* crypto/include/fp_BLS381.h:52 TBITS_BLS381 *)
definition TBITS_BLS381 :: nat where
  [amcl_const]: "TBITS_BLS381 = MBITS_BLS381 mod BASEBITS_384_58"

(* crypto/include/fp_BLS381.h:53 TMASK_BLS381 *)
definition TMASK_BLS381 :: int where
  [amcl_const]: "TMASK_BLS381 = push_bit TBITS_BLS381 1 - 1"

(* crypto/include/fp_BLS381.h:54 FEXCESS_BLS381 *)
definition FEXCESS_BLS381 :: int where
  [amcl_const]: "FEXCESS_BLS381 = push_bit MAXXES_BLS381 1 - 1"

(* crypto/include/fp_BLS381.h:55 OMASK_BLS381 *)
definition OMASK_BLS381 :: int where
  [amcl_const]: "OMASK_BLS381 = - push_bit TBITS_BLS381 1"

(* crypto/include/fp_SECP256K1.h:51 MODBITS_SECP256K1 *)
definition MODBITS_SECP256K1 :: nat where
  [amcl_const]: "MODBITS_SECP256K1 = MBITS_SECP256K1"

(* crypto/include/fp_SECP256K1.h:52 TBITS_SECP256K1 *)
definition TBITS_SECP256K1 :: nat where
  [amcl_const]: "TBITS_SECP256K1 = MBITS_SECP256K1 mod BASEBITS_256_56"

(* crypto/include/fp_SECP256K1.h:53 TMASK_SECP256K1 *)
definition TMASK_SECP256K1 :: int where
  [amcl_const]: "TMASK_SECP256K1 = push_bit TBITS_SECP256K1 1 - 1"

(* crypto/include/fp_SECP256K1.h:54 FEXCESS_SECP256K1 *)
definition FEXCESS_SECP256K1 :: int where
  [amcl_const]: "FEXCESS_SECP256K1 = push_bit MAXXES_SECP256K1 1 - 1"

(* crypto/include/fp_SECP256K1.h:55 OMASK_SECP256K1 *)
definition OMASK_SECP256K1 :: int where
  [amcl_const]: "OMASK_SECP256K1 = - push_bit TBITS_SECP256K1 1"

section \<open>Types\<close>

text \<open>
  A \<open>BIG\<close> is an array of \<open>NLEN\<close> chunks, least significant first, a \<open>DBIG\<close> one of \<open>DNLEN\<close>;
  with \<open>DEBUG_NORM\<close> both have two more.
\<close>

type_synonym chunk = int

(* crypto/include/big_384_58.h:50-60 BIG_384_58 *)
definition BIG_384_58 :: "bool \<Rightarrow> chunk list \<Rightarrow> bool" where
  "BIG_384_58 debug_norm x \<longleftrightarrow>
     length x = (if debug_norm then NLEN_384_58 + 2 else NLEN_384_58) \<and> list_all (fits CHUNK) x"

(* crypto/include/big_384_58.h:50-60 DBIG_384_58 *)
definition DBIG_384_58 :: "bool \<Rightarrow> chunk list \<Rightarrow> bool" where
  "DBIG_384_58 debug_norm x \<longleftrightarrow>
     length x = (if debug_norm then DNLEN_384_58 + 2 else DNLEN_384_58) \<and> list_all (fits CHUNK) x"

(* crypto/include/big_256_56.h:50-60 BIG_256_56 *)
definition BIG_256_56 :: "bool \<Rightarrow> chunk list \<Rightarrow> bool" where
  "BIG_256_56 debug_norm x \<longleftrightarrow>
     length x = (if debug_norm then NLEN_256_56 + 2 else NLEN_256_56) \<and> list_all (fits CHUNK) x"

(* crypto/include/big_256_56.h:50-60 DBIG_256_56 *)
definition DBIG_256_56 :: "bool \<Rightarrow> chunk list \<Rightarrow> bool" where
  "DBIG_256_56 debug_norm x \<longleftrightarrow>
     length x = (if debug_norm then DNLEN_256_56 + 2 else DNLEN_256_56) \<and> list_all (fits CHUNK) x"

text \<open>The number a digit list stands for, and normalised digits.\<close>

fun big_val :: "nat \<Rightarrow> chunk list \<Rightarrow> int" where
  "big_val b [] = 0"
| "big_val b (d # ds) = d + 2 ^ b * big_val b ds"

definition normalised :: "nat \<Rightarrow> chunk list \<Rightarrow> bool" where
  "normalised b ds \<longleftrightarrow> (\<forall>d \<in> set ds. 0 \<le> d \<and> d < 2 ^ b)"

section \<open>muladd\<close>

text \<open>
  \<open>muladd\<close> returns the top half and stores the bottom half through \<open>r\<close>. The model returns both:
  \<open>(top, new value of *r)\<close>.
\<close>

(* crypto/include/big_384_58.h:576-582 muladd_384_58 *)
definition muladd_dchunk_384_58 :: "chunk \<Rightarrow> chunk \<Rightarrow> chunk \<Rightarrow> chunk \<Rightarrow> (chunk \<times> chunk) option" where
  "muladd_dchunk_384_58 x y c r = do {
     xy \<leftarrow> chk 128 (x * y);
     xyc \<leftarrow> chk 128 (xy + c);
     prod \<leftarrow> chk 128 (xyc + r);
     let r' = (cast CHUNK prod) AND BMASK_384_58;
     Some (cast CHUNK (drop_bit BASEBITS_384_58 prod), r')
   }"

(* crypto/include/big_384_58.h:589-613 muladd_384_58 *)
definition muladd_split_384_58 :: "chunk \<Rightarrow> chunk \<Rightarrow> chunk \<Rightarrow> chunk \<Rightarrow> (chunk \<times> chunk) option" where
  "muladd_split_384_58 x y c r = do {
     let x0 = x AND HMASK_384_58;
     let x1 = drop_bit HBITS_384_58 x;
     let y0 = y AND HMASK_384_58;
     let y1 = drop_bit HBITS_384_58 y;
     bot \<leftarrow> chk CHUNK (x0 * y0);
     top \<leftarrow> chk CHUNK (x1 * y1);
     m0 \<leftarrow> chk CHUNK (x0 * y1);
     m1 \<leftarrow> chk CHUNK (x1 * y0);
     mid \<leftarrow> chk CHUNK (m0 + m1);
     let x0 = mid AND HMASK_384_58;
     let x1 = drop_bit HBITS_384_58 mid;
     s \<leftarrow> chk CHUNK (push_bit HBITS_384_58 x0);
     bot \<leftarrow> chk CHUNK (bot + s);
     bot \<leftarrow> chk CHUNK (bot + r);
     bot \<leftarrow> chk CHUNK (bot + c);
     top \<leftarrow> chk CHUNK (top + x1);
     let carry = drop_bit BASEBITS_384_58 bot;
     let bot = bot AND BMASK_384_58;
     top \<leftarrow> chk CHUNK (top + carry);
     Some (top, bot)
   }"

(* crypto/include/big_256_56.h:576-582 muladd_256_56 *)
definition muladd_dchunk_256_56 :: "chunk \<Rightarrow> chunk \<Rightarrow> chunk \<Rightarrow> chunk \<Rightarrow> (chunk \<times> chunk) option" where
  "muladd_dchunk_256_56 x y c r = do {
     xy \<leftarrow> chk 128 (x * y);
     xyc \<leftarrow> chk 128 (xy + c);
     prod \<leftarrow> chk 128 (xyc + r);
     let r' = (cast CHUNK prod) AND BMASK_256_56;
     Some (cast CHUNK (drop_bit BASEBITS_256_56 prod), r')
   }"

(* crypto/include/big_256_56.h:589-613 muladd_256_56 *)
definition muladd_split_256_56 :: "chunk \<Rightarrow> chunk \<Rightarrow> chunk \<Rightarrow> chunk \<Rightarrow> (chunk \<times> chunk) option" where
  "muladd_split_256_56 x y c r = do {
     let x0 = x AND HMASK_256_56;
     let x1 = drop_bit HBITS_256_56 x;
     let y0 = y AND HMASK_256_56;
     let y1 = drop_bit HBITS_256_56 y;
     bot \<leftarrow> chk CHUNK (x0 * y0);
     top \<leftarrow> chk CHUNK (x1 * y1);
     m0 \<leftarrow> chk CHUNK (x0 * y1);
     m1 \<leftarrow> chk CHUNK (x1 * y0);
     mid \<leftarrow> chk CHUNK (m0 + m1);
     let x0 = mid AND HMASK_256_56;
     let x1 = drop_bit HBITS_256_56 mid;
     s \<leftarrow> chk CHUNK (push_bit HBITS_256_56 x0);
     bot \<leftarrow> chk CHUNK (bot + s);
     bot \<leftarrow> chk CHUNK (bot + r);
     bot \<leftarrow> chk CHUNK (bot + c);
     top \<leftarrow> chk CHUNK (top + x1);
     let carry = drop_bit BASEBITS_256_56 bot;
     let bot = bot AND BMASK_256_56;
     top \<leftarrow> chk CHUNK (top + carry);
     Some (top, bot)
   }"

section \<open>Correctness of muladd\<close>

text \<open>The bit operations of the header are division and remainder by powers of two.\<close>

lemma and_push_bit_mask: "x AND (push_bit n 1 - 1) = x mod 2 ^ n" for x :: int
proof -
  have "push_bit n 1 - 1 = (mask n :: int)"
    by (simp add: push_bit_eq_mult mask_eq_exp_minus_1)
  then show ?thesis by (simp add: take_bit_eq_mod flip: take_bit_eq_mask)
qed

lemma base_bits [simp]:
  "BASEBITS_384_58 = 58" "HBITS_384_58 = 29" "BASEBITS_256_56 = 56" "HBITS_256_56 = 28" "CHUNK = 64"
  by (simp_all add: amcl_const)

lemma and_masks [simp]:
  "x AND BMASK_384_58 = x mod 2 ^ 58" "x AND HMASK_384_58 = x mod 2 ^ 29"
  "x AND BMASK_256_56 = x mod 2 ^ 56" "x AND HMASK_256_56 = x mod 2 ^ 28"
  by (simp_all only: BMASK_384_58_def HMASK_384_58_def BMASK_256_56_def HMASK_256_56_def
      and_push_bit_mask base_bits)

text \<open>One statement of the split method for both sizes: \<open>h\<close> is half the number of base bits.\<close>

definition muladd_split :: "nat \<Rightarrow> chunk \<Rightarrow> chunk \<Rightarrow> chunk \<Rightarrow> chunk \<Rightarrow> (chunk \<times> chunk) option" where
  "muladd_split h x y c r = do {
     bot \<leftarrow> chk 64 ((x mod 2 ^ h) * (y mod 2 ^ h));
     top \<leftarrow> chk 64 ((x div 2 ^ h) * (y div 2 ^ h));
     m0 \<leftarrow> chk 64 ((x mod 2 ^ h) * (y div 2 ^ h));
     m1 \<leftarrow> chk 64 ((x div 2 ^ h) * (y mod 2 ^ h));
     mid \<leftarrow> chk 64 (m0 + m1);
     s \<leftarrow> chk 64 ((mid mod 2 ^ h) * 2 ^ h);
     bot \<leftarrow> chk 64 (bot + s);
     bot \<leftarrow> chk 64 (bot + r);
     bot \<leftarrow> chk 64 (bot + c);
     top \<leftarrow> chk 64 (top + mid div 2 ^ h);
     top \<leftarrow> chk 64 (top + bot div 2 ^ (2 * h));
     Some (top, bot mod 2 ^ (2 * h))
   }"

lemma muladd_split_384_58_eq: "muladd_split_384_58 x y c r = muladd_split 29 x y c r"
  by (simp add: muladd_split_384_58_def muladd_split_def drop_bit_eq_div push_bit_eq_mult Let_def)

lemma muladd_split_256_56_eq: "muladd_split_256_56 x y c r = muladd_split 28 x y c r"
  by (simp add: muladd_split_256_56_def muladd_split_def drop_bit_eq_div push_bit_eq_mult Let_def)

lemma split_identity:
  fixes x y H :: int
  shows "x * y = (x div H * (y div H)) * (H * H)
    + (x mod H * (y div H) + x div H * (y mod H)) * H + x mod H * (y mod H)"
proof -
  have "x * y = (x div H * H + x mod H) * (y div H * H + y mod H)"
    by (simp only: div_mult_mod_eq)
  then show ?thesis by (simp only: algebra_simps)
qed

lemma abs_div_le:
  fixes a k :: int
  assumes "0 < k"
  shows "\<bar>a div k\<bar> \<le> \<bar>a\<bar>"
proof (cases "0 \<le> a")
  case True
  with assms zdiv_mono2 [of a 1 k] show ?thesis by (simp add: pos_imp_zdiv_nonneg_iff)
next
  case False
  with assms zdiv_mono2_neg [of a 1 k] pos_imp_zdiv_neg_iff [of k a] show ?thesis by simp
qed

lemma div_less_square:
  fixes x H :: int
  assumes "0 < H" "0 \<le> x" "x < H * H"
  shows "0 \<le> x div H \<and> x div H < H"
proof -
  have "x div H * H \<le> x"
    using div_mult_mod_eq [of x H] pos_mod_sign [OF assms(1), of x] by linarith
  with assms(3) have "x div H * H < H * H" by simp
  with assms show ?thesis by (simp add: pos_imp_zdiv_nonneg_iff)
qed

lemma fits_64: "\<bar>x\<bar> < 2 ^ 63 \<Longrightarrow> fits 64 x"
  by (auto simp: fits_def)

lemma muladd_split_correct:
  assumes h: "1 \<le> h" "h \<le> 29"
    and x: "0 \<le> x" "x < 2 ^ (2 * h)" and y: "0 \<le> y" "y < 2 ^ (2 * h)"
    and c: "\<bar>c\<bar> \<le> 2 ^ 61" and r: "\<bar>r\<bar> \<le> 2 ^ 61"
  shows "muladd_split h x y c r
    = Some ((x * y + c + r) div 2 ^ (2 * h), (x * y + c + r) mod 2 ^ (2 * h))"
proof -
  define H :: int where "H = 2 ^ h"
  have H: "0 < H" "H \<le> 2 ^ 29" and HH: "H * H = 2 ^ (2 * h)"
    using h power_increasing [of h 29 "2 :: int"]
    by (simp_all add: H_def mult_2 power_add)
  have HH_le: "H * H \<le> 2 ^ 58"
    using mult_mono [OF H(2) H(2)] H(1) by simp
  define x0 x1 y0 y1 where xy: "x0 = x mod H" "x1 = x div H" "y0 = y mod H" "y1 = y div H"
  have "0 \<le> x0" "x0 < H" "0 \<le> y0" "y0 < H" using H by (simp_all add: xy)
  moreover have "0 \<le> x1" "x1 < H" "0 \<le> y1" "y1 < H"
    using div_less_square [of H x] div_less_square [of H y] x y H(1) by (simp_all add: xy HH)
  ultimately have nn: "0 \<le> x0 * y0" "0 \<le> x1 * y1" "0 \<le> x0 * y1" "0 \<le> x1 * y0"
    and le: "x0 * y0 \<le> H * H" "x1 * y1 \<le> H * H" "x0 * y1 \<le> H * H" "x1 * y0 \<le> H * H"
    by (auto intro!: mult_nonneg_nonneg mult_mono)
  define mid where "mid = x0 * y1 + x1 * y0"
  define s where "s = mid mod H * H"
  define bot where "bot = x0 * y0 + s + r + c"
  define top where "top = x1 * y1 + mid div H"
  have mid: "0 \<le> mid" "mid \<le> 2 * (H * H)" using nn le by (simp_all add: mid_def)
  have m_lo: "0 \<le> mid mod H" "mid mod H < H" using H by simp_all
  then have s: "0 \<le> s" "s \<le> H * H" using H mult_right_mono [OF less_imp_le, of "mid mod H" H H] by (simp_all add: s_def)
  have m_hi: "0 \<le> mid div H" "mid div H \<le> mid"
    using mid H abs_div_le [of H mid] by (simp_all add: pos_imp_zdiv_nonneg_iff)
  have b: "\<bar>bot\<bar> \<le> 2 ^ 62 + 2 * 2 ^ 58"
    using nn(1) le(1) s c r HH_le by (simp add: bot_def)
  have HH1: "1 \<le> H * H" using mult_mono [of 1 H 1 H] H(1) by simp
  have bd: "\<bar>bot div (H * H)\<bar> \<le> 2 ^ 62 + 2 * 2 ^ 58"
    using abs_div_le [of "H * H" bot] HH1 b by simp
  have "mid * H = (mid div H) * (H * H) + s"
    using div_mult_mod_eq [of mid H] by (simp add: s_def algebra_simps flip: distrib_left)
  then have eq: "x * y + c + r = bot + top * (H * H)"
    using split_identity [of x y H] by (simp add: top_def bot_def mid_def xy algebra_simps)
  have top: "0 \<le> top" "top \<le> 2 ^ 58 + 2 * 2 ^ 58"
    using nn le m_hi mid HH_le by (simp_all add: top_def)
  have f: "fits 64 (x0 * y0)" "fits 64 (x1 * y1)" "fits 64 (x0 * y1)" "fits 64 (x1 * y0)"
    "fits 64 mid" "fits 64 s" "fits 64 (x0 * y0 + s)" "fits 64 (x0 * y0 + s + r)" "fits 64 bot"
    "fits 64 top" "fits 64 (top + bot div (H * H))"
    using nn le mid s b bd top HH_le r by (auto simp: fits_def bot_def)
  have "muladd_split h x y c r = Some (top + bot div (H * H), bot mod (H * H))"
    unfolding muladd_split_def HH [symmetric] H_def [symmetric] xy [symmetric]
    using f by (simp add: chk_Some flip: mid_def s_def) (simp add: chk_Some flip: bot_def top_def)
  also have "\<dots> = Some ((x * y + c + r) div (H * H), (x * y + c + r) mod (H * H))"
    using H(1) by (simp add: eq)
  finally show ?thesis by (simp add: HH)
qed

lemma mult_chunks_fit:
  assumes "fits 64 x" "fits 64 y"
  shows "\<bar>x * y\<bar> \<le> 2 ^ 126"
proof -
  have "\<bar>x\<bar> * \<bar>y\<bar> \<le> 2 ^ 63 * 2 ^ 63"
    using assms by (intro mult_mono) (auto simp: fits_def)
  then show ?thesis by (simp add: abs_mult)
qed

text \<open>
  The double-length variant: no intermediate result overflows, whatever the four chunks are; the
  low bits of the product survive the conversion to \<open>chunk\<close> because the mask is shorter.
\<close>

lemma cast_mod: "n \<le> 63 \<Longrightarrow> cast 64 x mod 2 ^ n = x mod 2 ^ n"
  by (simp add: cast_def take_bit_signed_take_bit flip: take_bit_eq_mod)

lemma dchunk_prod_checks:
  assumes "fits 64 x" "fits 64 y" "fits 64 c" "fits 64 r"
  shows "chk 128 (x * y) = Some (x * y)" "chk 128 (x * y + c) = Some (x * y + c)"
    "chk 128 (x * y + c + r) = Some (x * y + c + r)"
proof -
  have "\<bar>x * y\<bar> \<le> 2 ^ 126" using mult_chunks_fit [OF assms(1,2)] .
  with assms(3,4) show "chk 128 (x * y) = Some (x * y)" "chk 128 (x * y + c) = Some (x * y + c)"
    "chk 128 (x * y + c + r) = Some (x * y + c + r)"
    by (auto simp: chk_def fits_def)
qed

lemma muladd_dchunk_384_58_eq:
  assumes "fits 64 x" "fits 64 y" "fits 64 c" "fits 64 r"
  shows "muladd_dchunk_384_58 x y c r
    = Some (cast 64 ((x * y + c + r) div 2 ^ 58), (x * y + c + r) mod 2 ^ 58)"
  using dchunk_prod_checks [OF assms] cast_mod [of 58 "x * y + c + r"]
  by (simp add: muladd_dchunk_384_58_def drop_bit_eq_div)

lemma muladd_dchunk_256_56_eq:
  assumes "fits 64 x" "fits 64 y" "fits 64 c" "fits 64 r"
  shows "muladd_dchunk_256_56 x y c r
    = Some (cast 64 ((x * y + c + r) div 2 ^ 56), (x * y + c + r) mod 2 ^ 56)"
  using dchunk_prod_checks [OF assms] cast_mod [of 56 "x * y + c + r"]
  by (simp add: muladd_dchunk_256_56_def drop_bit_eq_div)

lemma muladd_top_bound:
  fixes x y c r B :: int
  assumes "0 \<le> x" "x < B" "0 \<le> y" "y < B" "\<bar>c\<bar> \<le> K" "\<bar>r\<bar> \<le> K" "2 * K \<le> B * B"
  shows "\<bar>(x * y + c + r) div B\<bar> \<le> 2 * B"
proof -
  have B: "0 < B" using assms by linarith
  have "0 \<le> x * y" "x * y \<le> B * B"
    using assms by (simp_all add: mult_mono)
  with assms(5-7) have lo: "- (B * B) \<le> x * y + c + r" and hi: "x * y + c + r \<le> 2 * B * B"
    by linarith+
  from lo have "(- (B * B)) div B \<le> (x * y + c + r) div B" using B by (rule zdiv_mono1)
  moreover from hi have "(x * y + c + r) div B \<le> (2 * B * B) div B" using B by (rule zdiv_mono1)
  moreover have "(- (B * B)) div B = - B" "(2 * B * B) div B = 2 * B"
    using B nonzero_mult_div_cancel_right [of B "- B"] by simp_all
  ultimately show ?thesis using B by linarith
qed

section \<open>Properties\<close>

text \<open>
  C40. For digits in the range of the 58-bit number base and carries of at most 61 bits, both
  variants of \<open>muladd_384_58\<close> run without signed overflow and return the same pair: the quotient
  and the remainder of \<open>x * y + c + r\<close> by the number base.
\<close>

theorem muladd_384_58_variants_agree:
  assumes "0 \<le> x" "x < 2 ^ 58" "0 \<le> y" "y < 2 ^ 58" "\<bar>c\<bar> \<le> 2 ^ 61" "\<bar>r\<bar> \<le> 2 ^ 61"
  shows "muladd_split_384_58 x y c r = muladd_dchunk_384_58 x y c r
    \<and> (\<exists>top bot. muladd_dchunk_384_58 x y c r = Some (top, bot)
         \<and> top * 2 ^ 58 + bot = x * y + c + r \<and> 0 \<le> bot \<and> bot < 2 ^ 58)"
proof -
  have f: "fits 64 x" "fits 64 y" "fits 64 c" "fits 64 r"
    using assms by (auto simp: fits_def)
  have "fits 64 ((x * y + c + r) div 2 ^ 58)"
    using muladd_top_bound [of x "2 ^ 58" y c "2 ^ 61" r] assms
    by (simp add: fits_def abs_le_iff)
  then have "cast 64 ((x * y + c + r) div 2 ^ 58) = (x * y + c + r) div 2 ^ 58"
    by (simp add: cast_fits)
  then show ?thesis
    using muladd_split_correct [of 29 x y c r] muladd_dchunk_384_58_eq [OF f] assms
      div_mult_mod_eq [of "x * y + c + r" "2 ^ 58"]
    by (simp add: muladd_split_384_58_eq)
qed

theorem muladd_384_58_variants_agree_witness:
  "muladd_split_384_58 (2 ^ 58 - 1) 3 5 (- 7) = muladd_dchunk_384_58 (2 ^ 58 - 1) 3 5 (- 7)"
  using muladd_384_58_variants_agree [of "2 ^ 58 - 1" 3 5 "- 7"] by simp

text \<open>
  The same for \<open>muladd_256_56\<close>, whose number base has 56 bits.
\<close>

theorem muladd_256_56_variants_agree:
  assumes "0 \<le> x" "x < 2 ^ 56" "0 \<le> y" "y < 2 ^ 56" "\<bar>c\<bar> \<le> 2 ^ 61" "\<bar>r\<bar> \<le> 2 ^ 61"
  shows "muladd_split_256_56 x y c r = muladd_dchunk_256_56 x y c r
    \<and> (\<exists>top bot. muladd_dchunk_256_56 x y c r = Some (top, bot)
         \<and> top * 2 ^ 56 + bot = x * y + c + r \<and> 0 \<le> bot \<and> bot < 2 ^ 56)"
proof -
  have f: "fits 64 x" "fits 64 y" "fits 64 c" "fits 64 r"
    using assms by (auto simp: fits_def)
  have "fits 64 ((x * y + c + r) div 2 ^ 56)"
    using muladd_top_bound [of x "2 ^ 56" y c "2 ^ 61" r] assms
    by (simp add: fits_def abs_le_iff)
  then have "cast 64 ((x * y + c + r) div 2 ^ 56) = (x * y + c + r) div 2 ^ 56"
    by (simp add: cast_fits)
  then show ?thesis
    using muladd_split_correct [of 28 x y c r] muladd_dchunk_256_56_eq [OF f] assms
      div_mult_mod_eq [of "x * y + c + r" "2 ^ 56"]
    by (simp add: muladd_split_256_56_eq)
qed

theorem muladd_256_56_variants_agree_witness:
  "muladd_split_256_56 (2 ^ 56 - 1) 3 5 (- 7) = muladd_dchunk_256_56 (2 ^ 56 - 1) 3 5 (- 7)"
  using muladd_256_56_variants_agree [of "2 ^ 56 - 1" 3 5 "- 7"] by simp

text \<open>
  The macros of both configurations describe one consistent representation: \<open>NLEN\<close> is the
  least number of digits that holds the modulus bytes; the spare bits above the modulus are
  exactly \<open>MAXXES\<close>, as the comment at \<open>FEXCESS\<close> says; \<open>TBITS\<close> is the part of the modulus in the
  top digit and \<open>OMASK\<close> the complement of \<open>TMASK\<close>; a digit times \<open>NEXCESS\<close> still fits a chunk
  and one times more than that need not; and \<open>NLEN\<close> products of digits fit the double-length
  type that \<open>COMBA\<close> sums them in.
\<close>

theorem big_configuration_consistent:
  "(NLEN_384_58 - 1) * BASEBITS_384_58 < BIGBITS_384_58
   \<and> BIGBITS_384_58 \<le> NLEN_384_58 * BASEBITS_384_58
   \<and> BASEBITS_384_58 * NLEN_384_58 = MODBITS_BLS381 + MAXXES_BLS381
   \<and> FEXCESS_BLS381 = 2 ^ (BASEBITS_384_58 * NLEN_384_58 - MODBITS_BLS381) - 1
   \<and> MODBITS_BLS381 = (NLEN_384_58 - 1) * BASEBITS_384_58 + TBITS_BLS381
   \<and> OMASK_BLS381 = NOT TMASK_BLS381
   \<and> fits CHUNK (BMASK_384_58 * NEXCESS_384_58) \<and> \<not> fits CHUNK (BMASK_384_58 * (NEXCESS_384_58 + 1))
   \<and> fits 128 (int NLEN_384_58 * BMASK_384_58 ^ 2)
   \<and> (NLEN_256_56 - 1) * BASEBITS_256_56 < BIGBITS_256_56
   \<and> BIGBITS_256_56 \<le> NLEN_256_56 * BASEBITS_256_56
   \<and> BASEBITS_256_56 * NLEN_256_56 = MODBITS_SECP256K1 + MAXXES_SECP256K1
   \<and> FEXCESS_SECP256K1 = 2 ^ (BASEBITS_256_56 * NLEN_256_56 - MODBITS_SECP256K1) - 1
   \<and> MODBITS_SECP256K1 = (NLEN_256_56 - 1) * BASEBITS_256_56 + TBITS_SECP256K1
   \<and> OMASK_SECP256K1 = NOT TMASK_SECP256K1
   \<and> fits CHUNK (BMASK_256_56 * NEXCESS_256_56) \<and> \<not> fits CHUNK (BMASK_256_56 * (NEXCESS_256_56 + 1))
   \<and> fits 128 (int NLEN_256_56 * BMASK_256_56 ^ 2)"
  by (simp add: amcl_const fits_def push_bit_eq_mult)

end
