(* ===== verification/ChainHash.thy ===== *)
theory ChainHash
  imports Sha256
begin

text \<open>
  \<open>crypto/hash.go\<close>: the 32-byte hash type, its byte-reversed hexadecimal form, and the SHA-256
  helpers of the Merkle tree. A \<open>Hash\<close> is its list of bytes; that it has 32 of them is
  \<open>hash_wf\<close>. A \<open>*Hash\<close> that may be nil is an option.
\<close>

section \<open>The type\<close>

(* crypto/hash.go:12-12 HashSize *)
definition HashSize :: nat where
  "HashSize = 32"

(* crypto/hash.go:15-15 MaxHashStringSize *)
definition MaxHashStringSize :: nat where
  "MaxHashStringSize = HashSize * 2"

(* crypto/hash.go:19-19 ErrHashStrSize *)
definition ErrHashStrSize :: gerr where
  "ErrHashStrSize = Errorf ''max hash string length is %v bytes''"

(* crypto/hash.go:22-22 Hash *)
type_synonym Hash = bytes

definition hash_wf :: "Hash \<Rightarrow> bool" where
  "hash_wf h \<longleftrightarrow> length h = HashSize"

definition zero_hash :: Hash where
  "zero_hash = replicate HashSize 0"

lemma HashSize_32 [simp]: "HashSize = 32" and MaxHashStringSize_64 [simp]: "MaxHashStringSize = 64"
  by (simp_all add: HashSize_def MaxHashStringSize_def)

lemma hash_wf_iff: "hash_wf h \<longleftrightarrow> length h = 32"
  by (simp add: hash_wf_def)

text \<open>\<open>copy(dst, src)\<close> overwrites a prefix of \<open>dst\<close> and leaves its length alone.\<close>

definition copy_into :: "bytes \<Rightarrow> bytes \<Rightarrow> bytes" where
  "copy_into dst src = take (length dst) src @ drop (length src) dst"

lemma length_copy_into [simp]: "length (copy_into dst src) = length dst"
  by (simp add: copy_into_def)

lemma copy_into_same [simp]: "length src = length dst \<Longrightarrow> copy_into dst src = src"
  by (simp add: copy_into_def)

section \<open>Operations\<close>

text \<open>The loop swaps \<open>hash[i]\<close> and \<open>hash[HashSize-1-i]\<close> for \<open>i\<close> below \<open>HashSize/2\<close>.\<close>

(* crypto/hash.go:27-29 Hash.String, the loop *)
primrec swap_loop :: "nat \<Rightarrow> Hash \<Rightarrow> Hash" where
  "swap_loop 0 h = h"
| "swap_loop (Suc i) h =
     (let h' = swap_loop i h
      in h'[i := h' ! (HashSize - 1 - i), HashSize - 1 - i := h' ! i])"

(* crypto/hash.go:24-31 Hash.String *)
definition hash_String :: "Hash \<Rightarrow> string" where
  "hash_String h = hex_encode (swap_loop (HashSize div 2) h)"

(* crypto/hash.go:33-43 Hash.SetBytes *)
definition SetBytes :: "Hash \<Rightarrow> bytes \<Rightarrow> Hash res" where
  "SetBytes h newHash =
     (if length newHash \<noteq> HashSize then Inl (Errorf ''invalid hash length of %v, want %v'')
      else Inr (copy_into h newHash))"

(* crypto/hash.go:45-54 Hash.IsEqual *)
fun IsEqual :: "Hash option \<Rightarrow> Hash option \<Rightarrow> bool" where
  "IsEqual None None = True"
| "IsEqual (Some h) (Some t) = (h = t)"
| "IsEqual _ _ = False"

(* crypto/hash.go:56-65 NewHash *)
definition NewHash :: "bytes \<Rightarrow> Hash res" where
  "NewHash newHash = SetBytes zero_hash newHash"

text \<open>The destination of \<open>hex.Decode\<close> is the tail of a zeroed \<open>Hash\<close> that starts at
  \<open>HashSize - DecodedLen\<close>; the last loop copies it in reverse.\<close>

(* crypto/hash.go:90-98 Decode, padding of an odd number of digits *)
definition pad_even :: "string \<Rightarrow> string" where
  "pad_even src = (if even (length src) then src else CHR ''0'' # src)"

(* crypto/hash.go:108-110 Decode, the loop *)
primrec reverse_copy :: "nat \<Rightarrow> Hash \<Rightarrow> Hash \<Rightarrow> Hash" where
  "reverse_copy 0 rh dst = dst"
| "reverse_copy (Suc i) rh dst =
     (reverse_copy i rh dst)[i := rh ! (HashSize - 1 - i), HashSize - 1 - i := rh ! i]"

(* crypto/hash.go:80-113 Decode *)
definition Decode :: "Hash \<Rightarrow> string \<Rightarrow> Hash res" where
  "Decode dst src =
     (if MaxHashStringSize < length src then Inl ErrHashStrSize
      else (let srcBytes = pad_even src
            in case hex_decode srcBytes of
                 Inl e \<Rightarrow> Inl e
               | Inr b \<Rightarrow>
                   (let reversedHash = replicate (HashSize - length srcBytes div 2) 0 @ b
                    in Inr (reverse_copy (HashSize div 2) reversedHash dst))))"

(* crypto/hash.go:67-78 NewHashFromStr *)
definition NewHashFromStr :: "string \<Rightarrow> Hash res" where
  "NewHashFromStr s = Decode zero_hash s"

(* crypto/hash.go:117-121 HashB *)
definition HashB :: "bytes \<Rightarrow> bytes" where
  "HashB b = sha256_sum b"

(* crypto/hash.go:123-126 HashH *)
definition HashH :: "bytes \<Rightarrow> Hash" where
  "HashH b = sha256_sum b"

(* crypto/hash.go:128-133 DoubleHashB *)
definition DoubleHashB :: "bytes \<Rightarrow> bytes" where
  "DoubleHashB b = (let first = sha256_sum b; second = sha256_sum first in second)"

(* crypto/hash.go:135-140 DoubleHashH *)
definition DoubleHashH :: "bytes \<Rightarrow> Hash" where
  "DoubleHashH b = (let first = sha256_sum b in sha256_sum first)"

section \<open>Lemmas\<close>

lemma length_HashB [simp]: "length (HashB b) = 32"
  by (simp add: HashB_def)

lemma length_DoubleHashB [simp]: "length (DoubleHashB b) = 32"
  by (simp add: DoubleHashB_def)

lemma hash_wf_results [simp]: "hash_wf (HashH b)" "hash_wf (DoubleHashH b)" "hash_wf zero_hash"
  by (simp_all add: hash_wf_iff HashH_def DoubleHashH_def zero_hash_def Let_def)

lemma length_swap_loop [simp]: "length (swap_loop i h) = length h"
  by (induction i) (simp_all add: Let_def)

lemma nth_swap_loop:
  assumes "length h = 32" and "i \<le> 16" and "k < 32"
  shows "swap_loop i h ! k = (if k < i \<or> 32 \<le> k + i then h ! (31 - k) else h ! k)"
  using assms(2,3)
proof (induction i arbitrary: k)
  case (Suc i)
  then show ?case
    using assms(1) by (auto simp: Let_def nth_list_update less_Suc_eq) 
qed simp

lemma swap_loop_rev: "length h = 32 \<Longrightarrow> swap_loop 16 h = rev h"
  by (rule nth_equalityI) (auto simp: nth_swap_loop rev_nth)

lemma length_reverse_copy [simp]: "length (reverse_copy i rh dst) = length dst"
  by (induction i) simp_all

lemma nth_reverse_copy:
  assumes "length dst = 32" and "i \<le> 16" and "k < 32"
  shows "reverse_copy i rh dst ! k = (if k < i \<or> 32 \<le> k + i then rh ! (31 - k) else dst ! k)"
  using assms(2,3)
proof (induction i arbitrary: k)
  case (Suc i)
  then show ?case
    using assms(1) by (auto simp: nth_list_update less_Suc_eq)
qed simp

lemma reverse_copy_rev:
  "length rh = 32 \<Longrightarrow> length dst = 32 \<Longrightarrow> reverse_copy 16 rh dst = rev rh"
  by (rule nth_equalityI) (auto simp: nth_reverse_copy rev_nth)

lemma hash_String_rev: "hash_wf h \<Longrightarrow> hash_String h = hex_encode (rev h)"
  by (simp add: hash_String_def hash_wf_iff swap_loop_rev)

lemma even_length_pad_even [simp]: "even (length (pad_even s))"
  by (simp add: pad_even_def)

lemma length_pad_even_le: "length s \<le> 64 \<Longrightarrow> length (pad_even s) \<le> 64"
  unfolding pad_even_def by (cases "length s = 64") auto

lemma Decode_ok:
  assumes "hash_wf dst" and "length s \<le> 64" and "hex_decode (pad_even s) = Inr b"
  shows "Decode dst s = Inr (rev b @ replicate (32 - length b) 0)" and "length b \<le> 32"
proof -
  have len: "length (pad_even s) = 2 * length b"
    using assms(3) by (rule hex_decode_length)
  with length_pad_even_le [OF assms(2)] show le: "length b \<le> 32" by simp
  show "Decode dst s = Inr (rev b @ replicate (32 - length b) 0)"
    using assms le len by (simp add: Decode_def hash_wf_iff reverse_copy_rev)
qed

lemma Decode_error:
  "Decode dst s = Inl e \<longleftrightarrow>
     64 < length s \<and> e = ErrHashStrSize \<or> length s \<le> 64 \<and> hex_decode (pad_even s) = Inl e"
  by (auto simp: Decode_def Let_def split: sum.splits)

section \<open>Properties\<close>

text \<open>
  Printing a hash and parsing the printed string returns the hash, and parsing does not
  depend on what the destination held: \<open>String\<close> and \<open>NewHashFromStr\<close> are inverse on 32-byte
  hashes.
\<close>

theorem hash_string_roundtrip:
  assumes "hash_wf h"
  shows "NewHashFromStr (hash_String h) = Inr h"
proof -
  have "hex_decode (pad_even (hash_String h)) = Inr (rev h)"
    using assms by (simp add: hash_String_rev pad_even_def)
  moreover have "length (hash_String h) \<le> 64"
    using assms by (simp add: hash_String_rev hash_wf_iff)
  ultimately show ?thesis
    using assms Decode_ok(1) [of zero_hash "hash_String h" "rev h"]
    by (simp add: NewHashFromStr_def) (simp add: hash_wf_iff)
qed

theorem hash_string_roundtrip_witness:
  "NewHashFromStr (hash_String (replicate 31 0 @ [1])) = Inr (replicate 31 0 @ [1])"
  by (rule hash_string_roundtrip) (simp add: hash_wf_iff)

text \<open>
  \<open>NewHashFromStr\<close> on every input: a string of more than 64 characters is refused with
  \<open>ErrHashStrSize\<close>, a string with a character that is not a hexadecimal digit is refused with the
  decoder's error, and every other string gives a 32-byte hash, the reversed decoded bytes with
  the missing ones zero at the end. The decoder's odd-length error and the slice bounds are
  never hit.
\<close>

theorem NewHashFromStr_total:
  "NewHashFromStr s =
     (if 64 < length s then Inl ErrHashStrSize
      else case hex_decode (pad_even s) of
             Inl e \<Rightarrow> Inl e
           | Inr b \<Rightarrow> Inr (rev b @ replicate (32 - length b) 0))
   \<and> NewHashFromStr s \<noteq> Inl (Errorf ''encoding/hex: odd length hex string'')
   \<and> pred_sum (\<lambda>_. True) hash_wf (NewHashFromStr s)"
proof -
  have odd_err: "even (length t) \<Longrightarrow> hex_decode t \<noteq> Inl (Errorf ''encoding/hex: odd length hex string'')" for t
    by (induction t rule: hex_decode.induct) (auto split: option.splits sum.splits)
  show ?thesis
  proof (cases "64 < length s")
    case True
    then show ?thesis by (simp add: NewHashFromStr_def Decode_def ErrHashStrSize_def)
  next
    case False
    show ?thesis
    proof (cases "hex_decode (pad_even s)")
      case (Inl e)
      with False have "NewHashFromStr s = Inl e"
        by (simp add: NewHashFromStr_def Decode_error)
      with False Inl odd_err [of "pad_even s"] show ?thesis by auto
    next
      case (Inr b)
      with False Decode_ok [of zero_hash s b]
      have "NewHashFromStr s = Inr (rev b @ replicate (32 - length b) 0)" and "length b \<le> 32"
        by (simp_all add: NewHashFromStr_def)
      with False Inr show ?thesis by (simp add: hash_wf_iff)
    qed
  qed
qed

text \<open>
  \<open>NewHash\<close> accepts exactly the 32-byte slices and keeps them unchanged, and \<open>IsEqual\<close> on
  two accepted hashes is equality of the slices, a nil hash being equal only to nil.
\<close>

theorem NewHash_IsEqual:
  "(NewHash b = Inr h \<longleftrightarrow> length b = 32 \<and> h = b) \<and>
   (is_ok (NewHash b) \<longleftrightarrow> length b = 32) \<and>
   (IsEqual p q \<longleftrightarrow> p = q)"
  by (cases p; cases q) (auto simp: NewHash_def SetBytes_def zero_hash_def)

text \<open>
  C30. Every operation of \<open>hash.go\<close> respects the type \<open>[32]byte\<close> of a hash: \<open>SetBytes\<close>, \<open>NewHash\<close>, \<open>Decode\<close> and
  \<open>NewHashFromStr\<close> return an error or a value of 32 bytes, the hashing functions return one on every input, and a
  hash prints as exactly 64 digits of \<open>0123456789abcdef\<close>, which parse back to it, into any destination.
\<close>

theorem hash_operations_typed:
  assumes h: "hash_wf h"
  shows "pred_sum (\<lambda>_. True) hash_wf (SetBytes h b) \<and> pred_sum (\<lambda>_. True) hash_wf (NewHash b) \<and>
    pred_sum (\<lambda>_. True) hash_wf (Decode h s) \<and> pred_sum (\<lambda>_. True) hash_wf (NewHashFromStr s) \<and>
    hash_wf (HashH b) \<and> hash_wf (HashB b) \<and> hash_wf (DoubleHashH b) \<and> hash_wf (DoubleHashB b) \<and>
    length (hash_String h) = MaxHashStringSize \<and> set (hash_String h) \<subseteq> set ''0123456789abcdef'' \<and>
    (\<forall>dst. hash_wf dst \<longrightarrow> Decode dst (hash_String h) = Inr h)"
proof -
  have dec: "pred_sum (\<lambda>_. True) hash_wf (Decode d t)" if "hash_wf d" for d t
    using that by (simp add: Decode_def Let_def hash_wf_iff split: sum.split)
  have z: "hash_wf zero_hash" by simp
  have len: "length (hash_String h) = 64" using h by (simp add: hash_String_rev hash_wf_iff)
  have "hex_decode (pad_even (hash_String h)) = Inr (rev h)" using h by (simp add: hash_String_rev pad_even_def)
  then have rt: "Decode d (hash_String h) = Inr h" if "hash_wf d" for d
    using Decode_ok(1) [OF that, of "hash_String h" "rev h"] len h by (simp add: hash_wf_iff)
  define D where "D = set ''0123456789abcdef''"
  have digit: "hex_digit n \<in> D" if "n < 16" for n using that unfolding hex_digit_def D_def by (intro nth_mem) simp
  have "set (hex_encode bs) \<subseteq> D" for bs
  proof (induction bs)
    case (Cons w bs)
    have "unat w div 16 < 16" "unat w mod 16 < 16" using byte_less [of w] by auto
    then show ?case using Cons digit by simp
  qed simp
  then have "set (hash_String h) \<subseteq> D" by (simp add: hash_String_def)
  then show ?thesis
    using h dec [OF h] dec [OF z] rt len
    by (simp add: SetBytes_def NewHash_def NewHashFromStr_def hash_wf_iff HashB_def HashH_def DoubleHashB_def DoubleHashH_def zero_hash_def Let_def D_def)
qed

theorem hash_operations_typed_witness:
  "length (hash_String (replicate 31 0 @ [171])) = MaxHashStringSize \<and>
   Decode (replicate 32 7) (hash_String (replicate 31 0 @ [171])) = Inr (replicate 31 0 @ [171])"
  using hash_operations_typed [of "replicate 31 0 @ [171]"] by (simp add: hash_wf_iff)

end
