(* ===== verification/Merkle.thy ===== *)
theory Merkle
  imports ChainHash
begin

text \<open>
  \<open>crypto/merkle.go\<close>: the Merkle tree over asset hashes, the generation of membership proofs and
  their verification.

  The tree is a slice of pointers to byte slices, an empty node being the nil pointer, and
  \<open>GenerateProofFromTree\<close> compares a pointer with an element of the tree. So the model has a store:
  a list of slices, an address being an index of it, and allocation appends to it. A slice is
  an option, \<open>None\<close> being the nil slice. The outer option of a result is \<open>None\<close> when
  the code panics (index out of range, nil dereference).
\<close>

section \<open>Pointers and slices\<close>

type_synonym store = "slice list"
type_synonym addr = nat
type_synonym ptr = "addr option"

definition new :: "store \<Rightarrow> slice \<Rightarrow> ptr \<times> store" where
  "new st v = (Some (length st), st @ [v])"

definition deref :: "store \<Rightarrow> ptr \<Rightarrow> slice option" where
  "deref st p = (case p of None \<Rightarrow> None | Some a \<Rightarrow> if a < length st then Some (st ! a) else None)"

definition idx :: "'a list \<Rightarrow> nat \<Rightarrow> 'a option" where
  "idx xs i = (if i < length xs then Some (xs ! i) else None)"

definition upd :: "'a list \<Rightarrow> nat \<Rightarrow> 'a \<Rightarrow> 'a list option" where
  "upd xs i v = (if i < length xs then Some (xs[i := v]) else None)"

section \<open>Building the tree\<close>

text \<open>\<open>uint(math.Log2(float64(n)))\<close> is the floor of the binary logarithm: the conversion to
  \<open>float64\<close> and \<open>math.Log2\<close> are exact enough for every \<open>n\<close> below \<open>2^47\<close>, far above the
  number of slices a process can hold.\<close>

fun log2_floor :: "nat \<Rightarrow> nat" where
  "log2_floor n = (if n < 2 then 0 else Suc (log2_floor (n div 2)))"

declare log2_floor.simps [simp del]

(* crypto/merkle.go:59-71 nextPowerOfTwo *)
definition nextPowerOfTwo :: "nat \<Rightarrow> nat" where
  "nextPowerOfTwo n =
     (if n AND (n - 1) = 0 then n
      else (let exponent = log2_floor n + 1 in 2 ^ exponent))"

(* crypto/merkle.go:77-81 HashMerkleBranchesB, on the contents of the slices *)
definition branch_hash :: "bytes \<Rightarrow> bytes \<Rightarrow> bytes" where
  "branch_hash left right =
     DoubleHashB (copy_into (replicate HashSize 0) left @ copy_into (replicate HashSize 0) right)"

(* crypto/merkle.go:73-83 HashMerkleBranchesB *)
definition HashMerkleBranchesB :: "store \<Rightarrow> ptr \<Rightarrow> ptr \<Rightarrow> (ptr \<times> store) option" where
  "HashMerkleBranchesB st left right = do {
     l \<leftarrow> deref st left;
     r \<leftarrow> deref st right;
     Some (new st (Some (branch_hash (slice_bytes l) (slice_bytes r))))
   }"

text \<open>The leaf loop; \<open>assets\<close> is the list of the addresses of the elements of the slice.\<close>

(* crypto/merkle.go:106-115 BuildMerkleTreeStore, the leaves *)
fun leaf_loop :: "nat \<Rightarrow> addr list \<Rightarrow> store \<Rightarrow> ptr list \<Rightarrow> (store \<times> ptr list) res option" where
  "leaf_loop i [] st merkles = Some (Inr (st, merkles))"
| "leaf_loop i (a # as) st merkles = do {
     tx \<leftarrow> deref st (Some a);
     case tx of
       None \<Rightarrow> Some (Inl (Errorf ''Invalid leaf. Input must be a non-empty byte slice.''))
     | Some b \<Rightarrow> do {
         let (leafbytes, st') = new st (Some (HashB b));
         merkles' \<leftarrow> upd merkles i leafbytes;
         leaf_loop (i + 1) as st' merkles'
       }
   }"

text \<open>One iteration of the loop over the parents.\<close>

(* crypto/merkle.go:121-137 BuildMerkleTreeStore, one parent *)
definition parent_step :: "nat \<Rightarrow> nat \<Rightarrow> store \<Rightarrow> ptr list \<Rightarrow> (store \<times> ptr list) option" where
  "parent_step i offset st merkles = do {
     l \<leftarrow> idx merkles i;
     if l = None then do {
       m \<leftarrow> upd merkles offset None;
       Some (st, m)
     } else do {
       r \<leftarrow> idx merkles (i + 1);
       (newHash, st') \<leftarrow> (if r = None then HashMerkleBranchesB st l l else HashMerkleBranchesB st l r);
       m \<leftarrow> upd merkles offset newHash;
       Some (st', m)
     }
   }"

(* crypto/merkle.go:120-139 BuildMerkleTreeStore, the loop over the parents *)
function parent_loop :: "nat \<Rightarrow> nat \<Rightarrow> nat \<Rightarrow> store \<Rightarrow> ptr list \<Rightarrow> (store \<times> ptr list) option" where
  "parent_loop i offset arraySize st merkles =
     (if i < arraySize - 1
      then do {
        (st', merkles') \<leftarrow> parent_step i offset st merkles;
        parent_loop (i + 2) (offset + 1) arraySize st' merkles'
      }
      else Some (st, merkles))"
  by pat_completeness auto
termination by (relation "measure (\<lambda>(i, _, n, _, _). n - i)") auto

declare parent_loop.simps [simp del]

(* crypto/merkle.go:87-145 BuildMerkleTreeStore *)
definition BuildMerkleTreeStore :: "store \<Rightarrow> addr list \<Rightarrow> (store \<times> ptr list) res option" where
  "BuildMerkleTreeStore st assets =
     (if length assets = 0 then Some (Inl (Errorf ''Cannot build tree from empty array.''))
      else if length assets = 1 then do {
        a0 \<leftarrow> idx assets 0;
        s0 \<leftarrow> deref st (Some a0);
        let (rootbytes, st') = new st (Some (HashB (slice_bytes s0)));
        Some (Inr (st', [Some a0, rootbytes]))
      }
      else do {
        let nextPoT = nextPowerOfTwo (length assets);
        let arraySize = nextPoT * 2 - 1;
        r \<leftarrow> leaf_loop 0 assets st (replicate arraySize None);
        case r of
          Inl e \<Rightarrow> Some (Inl e)
        | Inr (st', merkles) \<Rightarrow> do {
            x \<leftarrow> parent_loop 0 nextPoT arraySize st' merkles;
            Some (Inr x)
          }
      })"

section \<open>Membership proofs\<close>

(* crypto/merkle.go:180-202 GenerateProofFromTree, the loop over the levels *)
fun proof_loop :: "nat \<Rightarrow> nat \<Rightarrow> nat \<Rightarrow> nat \<Rightarrow> ptr \<Rightarrow> ptr \<Rightarrow> ptr list \<Rightarrow> ptr list
    \<Rightarrow> (ptr list \<times> nat) option" where
  "proof_loop 0 pos c leafLength leftByte rightByte tree acc = Some (acc, pos + c)"
| "proof_loop (Suc levels) pos c leafLength leftByte rightByte tree acc = do {
     acc' \<leftarrow> (if pos mod 2 = 0 then do {
                nextpos \<leftarrow> idx tree (pos + 1 + c);
                sibling \<leftarrow> (if nextpos = None then idx tree (pos + c) else Some nextpos);
                Some (acc @ [rightByte, sibling])
              } else do {
                sibling \<leftarrow> idx tree (pos - 1 + c);
                Some (acc @ [leftByte, sibling])
              });
     proof_loop levels (pos div 2) (c + leafLength) (leafLength div 2) leftByte rightByte tree acc'
   }"

(* crypto/merkle.go:151-209 GenerateProofFromTree *)
definition GenerateProofFromTree ::
    "store \<Rightarrow> ptr \<Rightarrow> int \<Rightarrow> ptr list \<Rightarrow> (store \<times> ptr list) res option" where
  "GenerateProofFromTree st asset pos tree =
     (if length tree < 2
      then Some (Inl (Errorf ''Input Merkle tree must be non-empty hash array.''))
      else if pos < 0 then None
      else do {
        leaf \<leftarrow> idx tree (nat pos);
        if asset \<noteq> leaf
        then Some (Inl (Errorf ''Mismatch. Invalid Merkle tree for asset argument.''))
        else if length tree = 2 then do {
          t0 \<leftarrow> idx tree 0;
          t1 \<leftarrow> idx tree 1;
          Some (Inr (st, [t0, t1]))
        }
        else do {
          let (leftByte, st1) = new st (Some [0]);
          let (rightByte, st2) = new st1 (Some [1]);
          let leafLength = (length tree + 1) div 2;
          let nPoT = nextPowerOfTwo (length tree);
          let treeHeight = log2_floor nPoT;
          (acc, q) \<leftarrow> proof_loop (treeHeight - 1) (nat pos) 0 leafLength leftByte rightByte tree [leaf];
          r \<leftarrow> idx tree q;
          Some (Inr (st2, acc @ [r]))
        }
      })"

(* crypto/merkle.go:211-221 CopyProof *)
fun CopyProof :: "store \<Rightarrow> ptr list \<Rightarrow> slice list res option" where
  "CopyProof st [] = Some (Inr [])"
| "CopyProof st (p # ps) =
     (if p = None then Some (Inl (Errorf ''invalid input: %v .Contains nil pointers''))
      else do {
        item \<leftarrow> deref st p;
        r \<leftarrow> CopyProof st ps;
        case r of Inl e \<Rightarrow> Some (Inl e) | Inr c \<Rightarrow> Some (Inr (item # c))
      })"

section \<open>Verification\<close>

(* crypto/merkle.go:245-251 Verify, one step of the path *)
definition verify_step :: "bytes list \<Rightarrow> nat \<Rightarrow> bytes \<Rightarrow> bytes option" where
  "verify_step args i r = do {
     dir \<leftarrow> idx args (2 * i + 1);
     if dir = [0] then do { s \<leftarrow> idx args (2 * i + 2); Some (branch_hash s r) }
     else if dir = [1] then do { s \<leftarrow> idx args (2 * i + 2); Some (branch_hash r s) }
     else Some r
   }"

(* crypto/merkle.go:244-253 Verify, the loop *)
primrec verify_loop :: "nat list \<Rightarrow> bytes list \<Rightarrow> bytes \<Rightarrow> bytes option" where
  "verify_loop [] args r = Some r"
| "verify_loop (i # is) args r = do { r' \<leftarrow> verify_step args i r; verify_loop is args r' }"

(* crypto/merkle.go:223-260 Verify *)
definition Verify :: "bytes \<Rightarrow> bytes list \<Rightarrow> unit res option" where
  "Verify root args =
     (if args = [] then None
      else if root \<noteq> args ! (length args - 1)
      then Some (Inl (Errorf ''Root hash in proof doesn't match first argument: expected %+v but got %+v''))
      else if length args = 2
      then (let test = HashB (args ! 0)
            in if test = root then Some (Inr ())
               else Some (Inl (Errorf ''Incorrect Hash preimage..\<newline> Expected %+v \<newline> but got %+v'')))
      else do {
        r \<leftarrow> verify_loop [0..<length args div 2 - 1] args (args ! 0);
        if r \<noteq> root
        then Some (Inl (Errorf ''Merkle proof failed (invalid path).\<newline> Expected %+v \<newline> but got %+v''))
        else Some (Inr ())
      })"


section \<open>The abstract tree\<close>

text \<open>
  The specification of the tree over \<open>n\<close> leaf places: entry \<open>q\<close> of the array is a leaf for
  \<open>q < n\<close>, and the parent of the entries \<open>2 * (q - n)\<close> and \<open>2 * (q - n) + 1\<close> otherwise. The
  entries of level \<open>h\<close> start at \<open>level_off k h\<close>, for \<open>n = 2 ^ k\<close>.
\<close>

definition parent_val :: "bytes option \<Rightarrow> bytes option \<Rightarrow> bytes option" where
  "parent_val l r = map_option (\<lambda>a. branch_hash a (case r of None \<Rightarrow> a | Some b \<Rightarrow> b)) l"

function tree_val :: "nat \<Rightarrow> bytes option list \<Rightarrow> nat \<Rightarrow> bytes option" where
  "tree_val n L q =
     (if q < n then L ! q
      else if q < 2 * n - 1
      then parent_val (tree_val n L (2 * (q - n))) (tree_val n L (2 * (q - n) + 1))
      else None)"
  by pat_completeness auto
termination by (relation "measure (\<lambda>(_, _, q). q)") auto

declare tree_val.simps [simp del]

definition level_off :: "nat \<Rightarrow> nat \<Rightarrow> nat" where
  "level_off k h = (\<Sum>i<h. 2 ^ (k - i))"

definition leaves :: "bytes list \<Rightarrow> bytes option list" where
  "leaves as = map (\<lambda>a. Some (HashB a)) as @ replicate (nextPowerOfTwo (length as) - length as) None"

lemma level_off_0 [simp]: "level_off k 0 = 0"
  and level_off_Suc: "level_off k (Suc h) = level_off k h + 2 ^ (k - h)"
  by (simp_all add: level_off_def)

lemma level_off_closed: "h \<le> Suc k \<Longrightarrow> level_off k h + 2 ^ (Suc k - h) = 2 ^ Suc k"
proof (induction h)
  case (Suc h)
  then have "(2::nat) ^ (Suc k - h) = 2 * 2 ^ (k - h)"
    by (simp add: Suc_diff_le)
  with Suc show ?case by (simp add: level_off_Suc)
qed simp

lemma even_level_off: "h \<le> k \<Longrightarrow> even (level_off k h)"
proof -
  assume "h \<le> k"
  then have "level_off k h + 2 * 2 ^ (k - h) = 2 * 2 ^ k"
    using level_off_closed [of h k] by (simp add: Suc_diff_le)
  then show ?thesis by presburger
qed

lemma level_off_double: "h \<le> k \<Longrightarrow> 2 * (level_off k (Suc h) - 2 ^ k) = level_off k h \<and> 2 ^ k \<le> level_off k (Suc h)"
proof -
  assume "h \<le> k"
  then have "level_off k (Suc h) + 2 ^ (k - h) = 2 * 2 ^ k"
    and "level_off k h + 2 * 2 ^ (k - h) = 2 * 2 ^ k"
    using level_off_closed [of "Suc h" k] level_off_closed [of h k] by (simp_all add: Suc_diff_le)
  moreover have "(2::nat) ^ (k - h) \<le> 2 ^ k" by (simp add: power_increasing)
  ultimately show ?thesis by linarith
qed

lemma level_off_top: "level_off k k = 2 * 2 ^ k - 2"
  using level_off_closed [of k k] by simp

lemma tree_val_leaf: "q < n \<Longrightarrow> tree_val n L q = L ! q"
  by (simp add: tree_val.simps)

lemma level_bound:
  assumes "h \<le> k" and "j < 2 ^ (k - h)"
  shows "level_off k h + j < 2 * 2 ^ k - 1"
proof -
  have "level_off k h + 2 * 2 ^ (k - h) = 2 * 2 ^ k"
    using level_off_closed [of h k] assms(1) by (simp add: Suc_diff_le)
  moreover have "(1::nat) \<le> 2 ^ (k - h)" by simp
  ultimately show ?thesis using assms(2) by linarith
qed

lemma tree_val_level:
  assumes "h < k" and "j < 2 ^ (k - Suc h)"
  shows "tree_val (2 ^ k) L (level_off k (Suc h) + j) =
    parent_val (tree_val (2 ^ k) L (level_off k h + 2 * j)) (tree_val (2 ^ k) L (level_off k h + 2 * j + 1))"
proof -
  have 1: "2 * (level_off k (Suc h) - 2 ^ k) = level_off k h" "2 ^ k \<le> level_off k (Suc h)"
    using level_off_double [of h k] assms(1) by auto
  then have "2 * (level_off k (Suc h) + j - 2 ^ k) = level_off k h + 2 * j"
    by (metis Nat.add_diff_assoc2 add_mult_distrib2)
  moreover have "level_off k (Suc h) + j < 2 * 2 ^ k - 1"
    using level_bound [of "Suc h" k j] assms by simp
  ultimately show ?thesis
    using 1 by (subst tree_val.simps) simp
qed

text \<open>An entry is empty exactly when its leftmost leaf place is.\<close>

lemma tree_val_nonempty:
  assumes "h \<le> k" and "j < 2 ^ (k - h)"
    and "\<And>i. i < 2 ^ k \<Longrightarrow> L ! i = None \<longleftrightarrow> \<not> i < m"
  shows "tree_val (2 ^ k) L (level_off k h + j) = None \<longleftrightarrow> \<not> j * 2 ^ h < m"
  using assms(1,2)
proof (induction h arbitrary: j)
  case 0
  then show ?case by (simp add: tree_val_leaf assms(3))
next
  case (Suc h)
  have "2 * j < 2 ^ (k - h)"
    using Suc.prems by (metis Suc_diff_Suc Suc_le_lessD mult_less_cancel1 power_Suc zero_less_numeral)
  with Suc have "tree_val (2 ^ k) L (level_off k h + 2 * j) = None \<longleftrightarrow> \<not> (2 * j) * 2 ^ h < m"
    by simp
  moreover have "(2 * j) * 2 ^ h = j * 2 ^ Suc h" by simp
  ultimately show ?case
    using Suc.prems by (simp add: tree_val_level parent_val_def del: power_Suc)
qed

section \<open>Powers of two\<close>

lemma log2_floor_power [simp]: "log2_floor (2 ^ k) = k"
  by (induction k) (subst log2_floor.simps, simp)+

lemma log2_floor_bounds: "0 < n \<Longrightarrow> 2 ^ log2_floor n \<le> n \<and> n < 2 ^ Suc (log2_floor n)"
proof (induction n rule: log2_floor.induct)
  case (1 n)
  show ?case
  proof (cases "n < 2")
    case True
    with "1.prems" have "n = 1" by simp
    then show ?thesis by (simp add: log2_floor.simps)
  next
    case False
    with 1 have "2 ^ log2_floor (n div 2) \<le> n div 2" "n div 2 < 2 ^ Suc (log2_floor (n div 2))" by auto
    with False show ?thesis by (subst (1 2) log2_floor.simps) auto
  qed
qed

lemma and_pred_power: "2 ^ k AND (2 ^ k - 1 :: nat) = 0"
proof -
  have "2 ^ k AND (2 ^ k - 1 :: nat) = take_bit k (2 ^ k)"
    by (simp only: take_bit_eq_mask mask_eq_exp_minus_1)
  then show ?thesis by simp
qed

lemma and_pred_zero: "0 < n \<Longrightarrow> n AND (n - 1 :: nat) = 0 \<Longrightarrow> n = 2 ^ log2_floor n"
proof (rule ccontr)
  assume n: "0 < n" "n AND (n - 1) = 0" "n \<noteq> 2 ^ log2_floor n"
  define k where "k = log2_floor n"
  have "2 ^ k \<le> n" "n < 2 ^ Suc k" using log2_floor_bounds [OF n(1)] by (simp_all add: k_def)
  with n have b: "2 ^ k < n" "n < 2 * 2 ^ k" by (auto simp: k_def)
  then have "n div 2 ^ k = 1" "(n - 1) div 2 ^ k = 1"
    by (auto intro!: div_nat_eqI)
  then have "bit n k" "bit (n - 1) k" by (simp_all add: bit_iff_odd)
  then have "bit (n AND (n - 1)) k" by (simp add: bit_and_iff)
  with n show False by simp
qed

lemma nextPowerOfTwo_power [simp]: "nextPowerOfTwo (2 ^ k) = 2 ^ k"
  using and_pred_power [of k] by (simp add: nextPowerOfTwo_def)

lemma nextPowerOfTwo_spec:
  assumes "0 < n"
  obtains k where "nextPowerOfTwo n = 2 ^ k" and "n \<le> 2 ^ k" and "2 ^ k < 2 * n"
proof (cases "n AND (n - 1) = 0")
  case True
  then show ?thesis using that [of "log2_floor n"] assms and_pred_zero [of n]
    by (simp add: nextPowerOfTwo_def)
next
  case False
  have "n \<noteq> 2 ^ log2_floor n" using False and_pred_power [of "log2_floor n"] by metis
  then have "2 ^ log2_floor n < n" "n < 2 ^ Suc (log2_floor n)"
    using log2_floor_bounds [OF assms] by auto
  then show ?thesis using that [of "Suc (log2_floor n)"] False
    by (simp add: nextPowerOfTwo_def)
qed

lemma nextPowerOfTwo_array: "nextPowerOfTwo (2 * 2 ^ Suc k - 1) = 2 * 2 ^ Suc k"
proof -
  define n :: nat where "n = 2 * 2 ^ Suc k - 1"
  have "(1::nat) \<le> 2 ^ k" by simp
  moreover have "n + 1 = 4 * 2 ^ k" by (simp add: n_def)
  ultimately have n: "n + 1 = 4 * 2 ^ k" "0 < n" by linarith+
  obtain m where m: "nextPowerOfTwo n = 2 ^ m" "n \<le> 2 ^ m" "2 ^ m < 2 * n"
    using nextPowerOfTwo_spec [OF n(2)] by blast
  have "m = k + 2"
  proof (rule ccontr)
    assume "m \<noteq> k + 2"
    then have "m \<le> k + 1 \<or> k + 3 \<le> m" by linarith
    then have "(2::nat) ^ m \<le> 2 ^ (k + 1) \<or> (2::nat) ^ (k + 3) \<le> 2 ^ m"
      by (metis one_le_numeral power_increasing)
    moreover have "(2::nat) ^ (k + 1) = 2 * 2 ^ k" "(2::nat) ^ (k + 3) = 8 * 2 ^ k" "(1::nat) \<le> 2 ^ k"
      by (simp_all add: power_add)
    ultimately show False using m n by linarith
  qed
  then show ?thesis using m(1) by (simp add: n_def)
qed


section \<open>What the builder computes\<close>

definition ptr_ok :: "store \<Rightarrow> ptr \<Rightarrow> bool" where
  "ptr_ok st p \<longleftrightarrow> (case p of None \<Rightarrow> True | Some a \<Rightarrow> a < length st)"

definition pval :: "store \<Rightarrow> ptr \<Rightarrow> bytes option" where
  "pval st p = map_option (\<lambda>a. slice_bytes (st ! a)) p"

lemma ptr_ok_simps [simp]: "ptr_ok st None" "ptr_ok st (Some a) \<longleftrightarrow> a < length st"
  by (simp_all add: ptr_ok_def)

lemma pval_simps [simp]: "pval st None = None" "pval st (Some a) = Some (slice_bytes (st ! a))"
  by (simp_all add: pval_def)

lemma ptr_ok_append [simp]: "ptr_ok st p \<Longrightarrow> ptr_ok (st @ x) p"
  by (cases p) simp_all

lemma pval_append [simp]: "ptr_ok st p \<Longrightarrow> pval (st @ x) p = pval st p"
  by (cases p) (simp_all add: nth_append)

lemma HashMerkleBranchesB_ok:
  assumes "ptr_ok st l" "ptr_ok st r" "pval st l = Some a" "pval st r = Some b"
  shows "HashMerkleBranchesB st l r = Some (Some (length st), st @ [Some (branch_hash a b)])"
  using assms by (cases l; cases r) (auto simp: HashMerkleBranchesB_def deref_def new_def)

definition tree_inv :: "nat \<Rightarrow> bytes option list \<Rightarrow> nat \<Rightarrow> store \<Rightarrow> ptr list \<Rightarrow> bool" where
  "tree_inv n L offset st m \<longleftrightarrow> length m = 2 * n - 1 \<and> (\<forall>p\<in>set m. ptr_ok st p) \<and>
     (\<forall>q<offset. pval st (m ! q) = tree_val n L q)"

lemma tree_inv_update:
  assumes "tree_inv n L offset st m" and "offset < 2 * n - 1"
    and "ptr_ok (st @ x) p" and "pval (st @ x) p = tree_val n L offset"
  shows "tree_inv n L (offset + 1) (st @ x) (m[offset := p])"
  using assms
  by (auto simp: tree_inv_def nth_list_update less_Suc_eq dest!: set_update_subset_insert [THEN subsetD])

lemma parent_step_ok:
  assumes inv: "tree_inv n L offset st m" and o: "n \<le> offset" "offset < 2 * n - 1"
    and i: "i = 2 * (offset - n)"
  obtains x p where "parent_step i offset st m = Some (st @ x, m[offset := p])"
    and "tree_inv n L (offset + 1) (st @ x) (m[offset := p])"
proof -
  have len: "length m = 2 * n - 1" using inv by (simp add: tree_inv_def)
  have lt: "i < offset" "i + 1 < offset" using o i by auto
  then have in_m: "i < length m" "i + 1 < length m" using o len by auto
  have ok: "ptr_ok st (m ! i)" "ptr_ok st (m ! (i + 1))"
    using inv in_m by (auto simp: tree_inv_def)
  have v: "pval st (m ! i) = tree_val n L i" "pval st (m ! (i + 1)) = tree_val n L (i + 1)"
    using inv lt by (auto simp: tree_inv_def)
  have tv: "tree_val n L offset = parent_val (tree_val n L i) (tree_val n L (i + 1))"
    using o i by (subst tree_val.simps) simp
  show ?thesis
  proof (cases "m ! i")
    case None
    then have "tree_val n L offset = None" using v tv by (simp add: parent_val_def)
    then show ?thesis
      using that [of "[]" None] None in_m o len inv tree_inv_update [OF inv o(2), of "[]" None]
      by (simp add: parent_step_def idx_def upd_def)
  next
    case (Some a)
    define r where "r = (if m ! (i + 1) = None then m ! i else m ! (i + 1))"
    define b where "b = the (pval st r)"
    have r: "ptr_ok st r" "pval st r = Some b"
      using ok Some unfolding r_def b_def by (auto simp: pval_def)
    have a: "pval st (m ! i) = Some (slice_bytes (st ! a))" using Some by simp
    have tvb: "tree_val n L offset = Some (branch_hash (slice_bytes (st ! a)) b)"
      unfolding tv v [symmetric] a
      by (cases "m ! (i + 1)") (auto simp: parent_val_def r_def b_def Some)
    have "parent_step i offset st m =
        Some (st @ [Some (branch_hash (slice_bytes (st ! a)) b)], m[offset := Some (length st)])"
      using HashMerkleBranchesB_ok [OF ok(1) r(1) a r(2)] Some in_m o len
      by (auto simp: parent_step_def idx_def upd_def r_def split: if_splits)
    moreover have "tree_inv n L (offset + 1) (st @ [Some (branch_hash (slice_bytes (st ! a)) b)])
        (m[offset := Some (length st)])"
      by (rule tree_inv_update [OF inv o(2)]) (simp_all add: tvb nth_append)
    ultimately show ?thesis by (rule that)
  qed
qed

lemma parent_loop_ok:
  assumes "tree_inv n L offset st m" and "n \<le> offset" and "offset \<le> 2 * n - 1" and "0 < n"
  shows "\<exists>x m'. parent_loop (2 * (offset - n)) offset (2 * n - 1) st m = Some (st @ x, m')
           \<and> tree_inv n L (2 * n - 1) (st @ x) m' \<and> take n m' = take n m"
  using assms
proof (induction "2 * n - 1 - offset" arbitrary: offset st m)
  case 0
  then have "offset = 2 * n - 1" by simp
  with 0 show ?case by (subst parent_loop.simps) (auto intro: exI [of _ "[]"])
next
  case (Suc d)
  then have o: "offset < 2 * n - 1" by simp
  obtain x p where step: "parent_step (2 * (offset - n)) offset st m = Some (st @ x, m[offset := p])"
      "tree_inv n L (offset + 1) (st @ x) (m[offset := p])"
    by (rule parent_step_ok [OF Suc.prems(1,2) o refl])
  have "d = 2 * n - 1 - (offset + 1)" using Suc by simp
  from Suc.hyps(1) [OF this step(2)] Suc.prems o
  obtain y m' where "parent_loop (2 * (offset + 1 - n)) (offset + 1) (2 * n - 1) (st @ x) (m[offset := p])
      = Some ((st @ x) @ y, m')" "tree_inv n L (2 * n - 1) ((st @ x) @ y) m'"
      "take n m' = take n (m[offset := p])" by auto
  moreover have "2 * (offset + 1 - n) = 2 * (offset - n) + 2" using Suc.prems by simp
  ultimately show ?case
    using o step(1) Suc.prems by (subst parent_loop.simps) auto
qed

lemma leaf_loop_ok:
  assumes "\<And>a. a \<in> set as \<Longrightarrow> a < length st \<and> st ! a \<noteq> None"
    and "i + length as \<le> length m"
  shows "leaf_loop i as st m =
     Some (Inr (st @ map (\<lambda>a. Some (HashB (slice_bytes (st ! a)))) as,
       take i m @ map Some [length st..<length st + length as] @ drop (i + length as) m))"
  using assms
proof (induction as arbitrary: i st m)
  case (Cons a as)
  let ?st = "st @ [Some (HashB (slice_bytes (st ! a)))]"
  have a: "a < length st" "st ! a \<noteq> None" using Cons.prems(1) [of a] by auto
  have "leaf_loop (i + 1) as ?st (m[i := Some (length st)]) =
     Some (Inr (?st @ map (\<lambda>a. Some (HashB (slice_bytes (?st ! a)))) as,
       take (i + 1) (m[i := Some (length st)]) @ map Some [length ?st..<length ?st + length as]
         @ drop (i + 1 + length as) (m[i := Some (length st)])))"
    using Cons.prems by (intro Cons.IH) (force simp: nth_append)+
  moreover have "map (\<lambda>a. Some (HashB (slice_bytes (?st ! a)))) as
      = map (\<lambda>a. Some (HashB (slice_bytes (st ! a)))) as"
    using Cons.prems(1) by (auto simp: nth_append)
  moreover have "[length st..<length st + length (a # as)] = length st # [Suc (length st)..<length st + length (a # as)]"
    using upt_conv_Cons [of "length st" "length st + length (a # as)"] by (simp del: upt_Suc)
  ultimately show ?case
    using a Cons.prems(2)
    by (auto simp: deref_def new_def upd_def take_Suc_conv_app_nth Let_def)
qed simp

lemma leaf_loop_nil:
  assumes "\<And>a. a \<in> set as \<Longrightarrow> a < length st" and "\<exists>a\<in>set as. st ! a = None"
    and "i + length as \<le> length m"
  shows "leaf_loop i as st m =
    Some (Inl (Errorf ''Invalid leaf. Input must be a non-empty byte slice.''))"
  using assms
proof (induction as arbitrary: i st m)
  case (Cons a as)
  show ?case
  proof (cases "st ! a")
    case None
    then show ?thesis using Cons.prems by (simp add: deref_def)
  next
    case (Some b)
    let ?st = "st @ [Some (HashB b)]"
    have "leaf_loop (i + 1) as ?st (m[i := Some (length st)]) =
      Some (Inl (Errorf ''Invalid leaf. Input must be a non-empty byte slice.''))"
      using Cons.prems Some by (intro Cons.IH) (auto simp: nth_append intro: less_SucI)
    then show ?thesis using Cons.prems Some by (simp add: deref_def new_def upd_def)
  qed
qed simp


definition assets_ok :: "store \<Rightarrow> addr list \<Rightarrow> bool" where
  "assets_ok st as \<longleftrightarrow> list_all (\<lambda>a. a < length st \<and> st ! a \<noteq> None) as"

definition asset_vals :: "store \<Rightarrow> addr list \<Rightarrow> bytes list" where
  "asset_vals st as = map (\<lambda>a. slice_bytes (st ! a)) as"

lemma build_ok:
  assumes ok: "assets_ok st as" and len: "2 \<le> length as"
  obtains k x m where "nextPowerOfTwo (length as) = 2 ^ Suc k" and "length as \<le> 2 ^ Suc k"
    and "BuildMerkleTreeStore st as = Some (Inr (st @ x, m))"
    and "tree_inv (2 ^ Suc k) (leaves (asset_vals st as)) (2 * 2 ^ Suc k - 1) (st @ x) m"
proof -
  obtain k' where k': "nextPowerOfTwo (length as) = 2 ^ k'" "length as \<le> 2 ^ k'"
    by (rule nextPowerOfTwo_spec [of "length as"]) (use len in auto)
  obtain k where k: "k' = Suc k" using k'(2) len by (cases k') auto
  define n :: nat where "n = 2 ^ Suc k"
  have n: "nextPowerOfTwo (length as) = n" "length as \<le> n" "0 < n"
    using k k' by (simp_all add: n_def)
  let ?y = "map (\<lambda>a. Some (HashB (slice_bytes (st ! a)))) as"
  let ?m = "map Some [length st..<length st + length as] @ replicate (2 * n - 1 - length as) None"
  let ?L = "leaves (asset_vals st as)"
  have leaf: "leaf_loop 0 as st (replicate (2 * n - 1) None) = Some (Inr (st @ ?y, ?m))"
    using leaf_loop_ok [of as st 0 "replicate (2 * n - 1) None"] ok n
    by (simp add: assets_ok_def list_all_iff)
  have L: "?L = map (\<lambda>a. Some (HashB (slice_bytes (st ! a)))) as @ replicate (n - length as) None"
    using n by (simp add: leaves_def asset_vals_def)
  have "tree_inv n ?L n (st @ ?y) ?m"
    unfolding tree_inv_def
  proof (intro conjI ballI allI impI)
    fix q assume "q < n"
    then show "pval (st @ ?y) (?m ! q) = tree_val n ?L q"
      by (cases "q < length as") (simp_all add: tree_val_leaf L nth_append)
  qed (use n in \<open>auto simp: ptr_ok_def\<close>)
  moreover have "n \<le> 2 * n - 1" using n by linarith
  ultimately obtain x m where "parent_loop 0 n (2 * n - 1) (st @ ?y) ?m = Some ((st @ ?y) @ x, m)"
      "tree_inv n ?L (2 * n - 1) ((st @ ?y) @ x) m"
    using parent_loop_ok [of n ?L n "st @ ?y" ?m] \<open>0 < n\<close> by auto
  then have "BuildMerkleTreeStore st as = Some (Inr (st @ (?y @ x), m))"
      "tree_inv n ?L (2 * n - 1) (st @ (?y @ x)) m"
    using leaf len n by (auto simp: BuildMerkleTreeStore_def mult.commute)
  then show ?thesis using that [of k "?y @ x" m] n by (simp add: n_def)
qed

section \<open>What the prover emits\<close>

definition path_dir :: "nat \<Rightarrow> 'a \<Rightarrow> 'a \<Rightarrow> nat \<Rightarrow> 'a" where
  "path_dir pos l r i = (if even (pos div 2 ^ i) then r else l)"

definition path_sibling :: "nat \<Rightarrow> ptr list \<Rightarrow> nat \<Rightarrow> nat \<Rightarrow> ptr" where
  "path_sibling k tree pos i =
     (let q = level_off k i + pos div 2 ^ i
      in if even (pos div 2 ^ i) then (if tree ! (q + 1) = None then tree ! q else tree ! (q + 1))
         else tree ! (q - 1))"

lemma path_index:
  assumes "pos < (2::nat) ^ k" and "i < k"
  shows "pos div 2 ^ i < 2 ^ (k - i)"
    and "even (pos div 2 ^ i) \<Longrightarrow> pos div 2 ^ i + 1 < 2 ^ (k - i)"
proof -
  show *: "pos div 2 ^ i < 2 ^ (k - i)"
    using assms by (simp add: div_less_iff_less_mult flip: power_add)
  assume "even (pos div 2 ^ i)"
  moreover have "even ((2::nat) ^ (k - i))" using assms by simp
  moreover have "even a \<Longrightarrow> even b \<Longrightarrow> a < b \<Longrightarrow> a + 1 < b" for a b :: nat by presburger
  ultimately show "pos div 2 ^ i + 1 < 2 ^ (k - i)" using * by blast
qed

lemma path_in_range:
  assumes "pos < 2 ^ k" and "i < k"
  shows "level_off k i + pos div (2::nat) ^ i < 2 * 2 ^ k - 1"
    and "even (pos div 2 ^ i) \<Longrightarrow> level_off k i + pos div 2 ^ i + 1 < 2 * 2 ^ k - 1"
  using path_index [OF assms] level_bound [of i k "pos div 2 ^ i"] level_bound [of i k "pos div 2 ^ i + 1"] assms
  by auto

lemma proof_loop_ok:
  assumes "length tree = 2 * 2 ^ k - 1" and "pos < 2 ^ k" and "h \<le> k"
  shows "proof_loop (k - h) (pos div 2 ^ h) (level_off k h) (2 ^ (k - h)) lb rb tree acc =
    Some (acc @ concat (map (\<lambda>i. [path_dir pos lb rb i, path_sibling k tree pos i]) [h..<k]),
      2 * 2 ^ k - 2)"
  using assms(3)
proof (induction "k - h" arbitrary: h acc)
  case 0
  then show ?case using assms(2) by (simp add: level_off_top)
next
  case (Suc d)
  then have h: "h < k" "d = k - Suc h" by auto
  let ?e = "[path_dir pos lb rb h, path_sibling k tree pos h]"
  have ih: "proof_loop (k - Suc h) (pos div 2 ^ Suc h) (level_off k (Suc h)) (2 ^ (k - Suc h)) lb rb tree (acc @ ?e)
    = Some ((acc @ ?e) @ concat (map (\<lambda>i. [path_dir pos lb rb i, path_sibling k tree pos i]) [Suc h..<k]),
        2 * 2 ^ k - 2)"
    using h by (intro Suc.hyps) auto
  have e1: "pos div 2 ^ Suc h = pos div 2 ^ h div 2"
    by (metis div_exp_eq power_Suc2 power_one_right Suc_eq_plus1)
  have e5: "level_off k (Suc h) = level_off k h + 2 * 2 ^ (k - Suc h)"
    by (metis Suc_diff_Suc level_off_Suc power_Suc h(1))
  have e3: "k - h = Suc (k - Suc h)" using h by simp
  have e4: "[h..<k] = h # [Suc h..<k]" using h by (simp add: upt_conv_Cons)
  have st: "proof_loop (Suc (k - Suc h)) (pos div 2 ^ h) (level_off k h) (2 ^ Suc (k - Suc h)) lb rb tree acc =
      proof_loop (k - Suc h) (pos div 2 ^ h div 2) (level_off k (Suc h)) (2 ^ (k - Suc h)) lb rb tree (acc @ ?e)"
  proof (cases "even (pos div 2 ^ h)")
    case True
    then show ?thesis
      using path_in_range(2) [OF assms(2) h(1)] assms(1)
      by (simp add: idx_def path_dir_def path_sibling_def e5 Let_def add.commute)
  next
    case False
    then obtain p where p: "pos div 2 ^ h = Suc p" by (cases "pos div 2 ^ h") auto
    have "p + level_off k h < 2 * 2 ^ k - Suc 0" and "even p"
      using path_in_range(1) [OF assms(2) h(1)] False by (simp_all add: p)
    moreover have "Suc p mod 2 = Suc 0" using \<open>even p\<close> by presburger
    ultimately show ?thesis
      by (simp add: idx_def path_dir_def path_sibling_def e5 Let_def p assms(1)
          add.commute [of "level_off k h" p])
  qed
  show ?case
    unfolding e3 e4 st using ih unfolding e1 by simp
qed

lemma concat_pairs:
  "length (concat (map (\<lambda>i. [a i, b i]) [0..<k])) = 2 * k"
  "i < k \<Longrightarrow> concat (map (\<lambda>i. [a i, b i]) [0..<k]) ! (2 * i) = a i"
  "i < k \<Longrightarrow> concat (map (\<lambda>i. [a i, b i]) [0..<k]) ! (2 * i + 1) = b i"
proof -
  show len: "length (concat (map (\<lambda>i. [a i, b i]) [0..<k])) = 2 * k" for k
    by (induction k) auto
  show "i < k \<Longrightarrow> concat (map (\<lambda>i. [a i, b i]) [0..<k]) ! (2 * i) = a i"
    by (induction k) (auto simp: nth_append len less_Suc_eq)
  show "i < k \<Longrightarrow> concat (map (\<lambda>i. [a i, b i]) [0..<k]) ! (2 * i + 1) = b i"
    by (induction k) (auto simp: nth_append len less_Suc_eq)
qed

lemma CopyProof_ok:
  "list_all (\<lambda>p. p \<noteq> None \<and> ptr_ok st p) ps \<Longrightarrow>
   CopyProof st ps = Some (Inr (map (\<lambda>p. st ! the p) ps))"
  by (induction ps) (auto simp: deref_def)

section \<open>What the verifier folds\<close>

definition hash_up :: "bytes \<Rightarrow> bytes \<Rightarrow> bytes \<Rightarrow> bytes" where
  "hash_up d s r = (if d = [0] then branch_hash s r else if d = [1] then branch_hash r s else r)"

definition path_args :: "nat \<Rightarrow> bytes \<Rightarrow> (nat \<Rightarrow> bytes) \<Rightarrow> (nat \<Rightarrow> bytes) \<Rightarrow> bytes \<Rightarrow> bytes list" where
  "path_args k v d s root = v # concat (map (\<lambda>i. [d i, s i]) [0..<k]) @ [root]"

lemma length_path_args [simp]: "length (path_args k v d s root) = 2 * k + 2"
  by (simp add: path_args_def concat_pairs)

lemma nth_path_args:
  "path_args k v d s root ! 0 = v"
  "i < k \<Longrightarrow> path_args k v d s root ! (2 * i + 1) = d i"
  "i < k \<Longrightarrow> path_args k v d s root ! (2 * i + 2) = s i"
  "path_args k v d s root ! (2 * k + 1) = root"
  using concat_pairs [where k = k and a = d and b = s]
  by (auto simp: path_args_def nth_append)

lemma verify_loop_append:
  "verify_loop (is @ js) args r = (case verify_loop is args r of None \<Rightarrow> None | Some r' \<Rightarrow> verify_loop js args r')"
  by (induction "is" arbitrary: r) (auto split: Option.bind_split)

lemma verify_step_path:
  "i < k \<Longrightarrow> verify_step (path_args k v d s root) i r = Some (hash_up (d i) (s i) r)"
  using nth_path_args(2,3) [of i k v d s root]
  by (auto simp: verify_step_def idx_def hash_up_def)

lemma Verify_path:
  assumes "0 < k"
  shows "Verify root (path_args k v d s root) =
    Some (if fold (\<lambda>i. hash_up (d i) (s i)) [0..<k] v = root then Inr ()
          else Inl (Errorf ''Merkle proof failed (invalid path).\<newline> Expected %+v \<newline> but got %+v''))"
proof -
  have "verify_loop [0..<j] (path_args k v d s root) v = Some (fold (\<lambda>i. hash_up (d i) (s i)) [0..<j] v)"
    if "j \<le> k" for j
    using that by (induction j) (auto simp: verify_loop_append verify_step_path)
  from this [of k] show ?thesis
    using assms nth_path_args(1,4) [of k v d s root]
    by (simp add: Verify_def flip: length_greater_0_conv)
qed


section \<open>Soundness of a path\<close>

definition tree_inputs :: "nat \<Rightarrow> bytes option list \<Rightarrow> bytes set" where
  "tree_inputs n L = (\<Union>q\<in>{n..<2 * n - 1}.
     case tree_val n L (2 * (q - n)) of None \<Rightarrow> {}
     | Some a \<Rightarrow> {a @ (case tree_val n L (2 * (q - n) + 1) of None \<Rightarrow> a | Some b \<Rightarrow> b)})"

definition path_acc :: "bytes list \<Rightarrow> nat \<Rightarrow> bytes" where
  "path_acc args h = fold (\<lambda>i. hash_up (args ! (2 * i + 1)) (args ! (2 * i + 2))) [0..<h] (args ! 0)"

definition path_inputs :: "bytes list \<Rightarrow> nat \<Rightarrow> bytes set" where
  "path_inputs args k = (\<lambda>i. if args ! (2 * i + 1) = [0] then args ! (2 * i + 2) @ path_acc args i
                             else path_acc args i @ args ! (2 * i + 2)) ` {..<k}"

definition path_wf :: "bytes list \<Rightarrow> nat \<Rightarrow> bool" where
  "path_wf args k \<longleftrightarrow> length args = 2 * k + 2 \<and> length (args ! 0) = 32 \<and>
     list_all (\<lambda>i. args ! (2 * i + 1) \<in> {[0], [1]} \<and> length (args ! (2 * i + 2)) = 32) [0..<k]"

lemma path_acc_simps [simp]:
  "path_acc args 0 = args ! 0"
  "path_acc args (Suc h) = hash_up (args ! (2 * h + 1)) (args ! (2 * h + 2)) (path_acc args h)"
  by (simp_all add: path_acc_def)

lemma args_path_args:
  assumes "length args = 2 * k + 2"
  shows "args = path_args k (args ! 0) (\<lambda>i. args ! (2 * i + 1)) (\<lambda>i. args ! (2 * i + 2)) (args ! (2 * k + 1))"
    (is "_ = ?p")
proof (rule nth_equalityI)
  fix q assume "q < length args"
  with assms have "q = 0 \<or> q = 2 * k + 1 \<or> (\<exists>i<k. q = 2 * i + 1) \<or> (\<exists>i<k. q = 2 * i + 2)"
    by presburger
  then show "args ! q = ?p ! q"
    by (elim disjE exE conjE) (simp_all only: nth_path_args)
qed (simp add: assms)

lemma Verify_path_acc:
  assumes "0 < k" and "length args = 2 * k + 2"
  shows "Verify root args = Some (Inr ()) \<longleftrightarrow> args ! (2 * k + 1) = root \<and> path_acc args k = root"
proof (cases "args ! (2 * k + 1) = root")
  case True
  have "Verify root args =
      Verify root (path_args k (args ! 0) (\<lambda>i. args ! (2 * i + 1)) (\<lambda>i. args ! (2 * i + 2)) root)"
    using args_path_args [OF assms(2)] True by simp
  then show ?thesis
    using assms(1) True by (simp add: Verify_path path_acc_def)
next
  case False
  then show ?thesis using assms by (auto simp: Verify_def)
qed

lemma branch_hash_32 [simp]:
  "length a = 32 \<Longrightarrow> length b = 32 \<Longrightarrow> branch_hash a b = DoubleHashB (a @ b)"
  by (simp add: branch_hash_def)

lemma length_branch_hash [simp]: "length (branch_hash a b) = 32"
  by (simp add: branch_hash_def)

lemma length_tree_val:
  assumes "\<forall>i<n. \<forall>b. L ! i = Some b \<longrightarrow> length b = 32"
  shows "tree_val n L q = Some b \<Longrightarrow> length b = 32"
  by (subst (asm) tree_val.simps) (auto simp: assms parent_val_def split: if_splits)

lemma length_path_acc:
  "length (args ! 0) = 32 \<Longrightarrow> length (path_acc args h) = 32"
  by (induction h) (auto simp: hash_up_def)

text \<open>One step down: the accumulator is the value of the child the direction names, or of its
  sibling when that child is empty.\<close>

lemma path_step_down:
  assumes inj: "inj_on DoubleHashB (tree_inputs n L \<union> path_inputs args k)"
    and wf: "path_wf args k" and h: "h < k"
    and len: "\<forall>i<n. \<forall>b. L ! i = Some b \<longrightarrow> length b = 32"
    and q: "n \<le> q" "q < 2 * n - 1" "tree_val n L q = Some (path_acc args (Suc h))"
  shows "args ! (2 * h + 1) = [1] \<and> tree_val n L (2 * (q - n)) = Some (path_acc args h) \<or>
    args ! (2 * h + 1) = [0] \<and> (tree_val n L (2 * (q - n) + 1) = Some (path_acc args h) \<or>
      tree_val n L (2 * (q - n) + 1) = None \<and> tree_val n L (2 * (q - n)) = Some (path_acc args h))"
proof -
  let ?l = "tree_val n L (2 * (q - n))" and ?r = "tree_val n L (2 * (q - n) + 1)"
  let ?d = "args ! (2 * h + 1)" and ?s = "args ! (2 * h + 2)" and ?x = "path_acc args h"
  have d: "?d = [0] \<or> ?d = [1]" and s: "length ?s = 32" and x: "length ?x = 32"
    using wf h length_path_acc by (auto simp: path_wf_def list_all_iff)
  have "tree_val n L q = parent_val ?l ?r" using q(1,2) by (subst tree_val.simps) simp
  with q(3) obtain a where a: "?l = Some a"
    and up: "branch_hash a (case ?r of None \<Rightarrow> a | Some b \<Rightarrow> b) = hash_up ?d ?s ?x"
    by (auto simp: parent_val_def)
  define b where "b = (case ?r of None \<Rightarrow> a | Some b \<Rightarrow> b)"
  have len_ab: "length a = 32" "length b = 32"
    using a length_tree_val [where n = n and L = L, OF len] by (auto simp: b_def split: option.splits)
  define y where "y = (if ?d = [0] then ?s @ ?x else ?x @ ?s)"
  have in1: "a @ b \<in> tree_inputs n L"
    using q a unfolding tree_inputs_def b_def by (intro UN_I [of q]) auto
  have in2: "y \<in> path_inputs args k"
    using h unfolding path_inputs_def y_def by (intro image_eqI [of _ _ h]) auto
  have eq: "DoubleHashB (a @ b) = DoubleHashB y"
    using up [folded b_def] d len_ab s x by (auto simp: y_def hash_up_def)
  have "a @ b = y" using inj_onD [OF inj eq] in1 in2 by blast
  then have "if ?d = [0] then a = ?s \<and> b = ?x else a = ?x \<and> b = ?s"
    using len_ab s x by (auto simp: y_def)
  then show ?thesis using a d by (auto simp: b_def split: if_splits option.splits)
qed

lemma path_sound:
  assumes inj: "inj_on DoubleHashB (tree_inputs (2 ^ k) L \<union> path_inputs args k)"
    and wf: "path_wf args k"
    and len: "\<forall>i<2 ^ k. \<forall>b. L ! i = Some b \<longrightarrow> length b = 32"
    and root: "tree_val (2 ^ k) L (2 * 2 ^ k - 2) = Some (path_acc args k)"
  shows "\<exists>j<2 ^ k. L ! j = Some (args ! 0)"
proof -
  have "\<exists>j<2 ^ (k - h). tree_val (2 ^ k) L (level_off k h + j) = Some (path_acc args h)" if "h \<le> k" for h
    using that
  proof (induction "k - h" arbitrary: h)
    case 0
    then show ?case using root by (simp add: level_off_top)
  next
    case (Suc d)
    then have h: "h < k" and d: "d = k - Suc h" by auto
    from Suc.hyps(1) [OF d] h obtain j where j: "j < 2 ^ (k - Suc h)"
      and v: "tree_val (2 ^ k) L (level_off k (Suc h) + j) = Some (path_acc args (Suc h))" by auto
    have o: "2 * (level_off k (Suc h) - 2 ^ k) = level_off k h" "2 ^ k \<le> level_off k (Suc h)"
      using level_off_double [of h k] h by simp_all
    then have q: "2 ^ k \<le> level_off k (Suc h) + j" "level_off k (Suc h) + j < 2 * 2 ^ k - 1"
      using level_bound [of "Suc h" k j] h j by simp_all
    have q3: "2 * (level_off k (Suc h) + j - 2 ^ k) = level_off k h + 2 * j"
      using o by (metis Nat.add_diff_assoc2 add_mult_distrib2)
    have "(2::nat) ^ (k - h) = 2 * 2 ^ (k - Suc h)" using h by (metis Suc_diff_Suc power_Suc)
    then have "2 * j + 1 < 2 ^ (k - h)" using j by simp
    then have in_row: "2 * j < 2 ^ (k - h)" "2 * j + 1 < 2 ^ (k - h)" by auto
    let ?P = "\<lambda>i. tree_val (2 ^ k) L (level_off k h + i) = Some (path_acc args h)"
    have "?P (2 * j) \<or> ?P (2 * j + 1)"
      using path_step_down [OF inj wf h len q v] unfolding q3 by (auto simp: add.assoc)
    with in_row show ?case by blast
  qed
  from this [of 0] show ?thesis by (auto simp: tree_val_leaf)
qed


section \<open>Completeness of a generated path\<close>

lemma tree_inv_pval: "tree_inv n L off st m \<Longrightarrow> q < off \<Longrightarrow> pval st (m ! q) = tree_val n L q"
  by (simp add: tree_inv_def)

lemma leaves_nth:
  assumes "nextPowerOfTwo (length vs) = 2 ^ k" and "i < 2 ^ k"
  shows "leaves vs ! i = (if i < length vs then Some (HashB (vs ! i)) else None)"
  using assms by (auto simp: leaves_def nth_append)

lemma length_asset_vals [simp]: "length (asset_vals st as) = length as"
  by (simp add: asset_vals_def)

lemma div_pow_le: "(a :: nat) div 2 ^ i * 2 ^ i \<le> a" and div_pow_le': "((a :: nat) div 2 ^ i - 1) * 2 ^ i \<le> a"
proof -
  show "a div 2 ^ i * 2 ^ i \<le> a" by simp
  then show "(a div 2 ^ i - 1) * 2 ^ i \<le> a"
    by (meson diff_le_self le_trans mult_le_mono1)
qed

lemma pval_None [simp]: "pval st p = None \<longleftrightarrow> p = None"
  by (simp add: pval_def)

lemma pval_SomeD: "pval st p = Some v \<Longrightarrow> \<exists>a. p = Some a"
  by (auto simp: pval_def)

text \<open>The value of the node and of the sibling at level \<open>i\<close> of the path that starts at \<open>pos\<close>.\<close>

lemma path_level:
  assumes inv: "tree_inv (2 ^ k) L (2 * 2 ^ k - 1) st m"
    and L: "\<forall>i<2 ^ k. L ! i = None \<longleftrightarrow> \<not> i < c" and pos: "pos < c" "c \<le> 2 ^ k" and i: "i < k"
  shows "tree_val (2 ^ k) L (level_off k i + pos div 2 ^ i) \<noteq> None"
    and "path_sibling k m pos i \<noteq> None" and "ptr_ok st (path_sibling k m pos i)"
    and "tree_val (2 ^ k) L (level_off k (Suc i) + pos div 2 ^ Suc i) =
      Some (hash_up (path_dir pos [0] [1] i) (the (pval st (path_sibling k m pos i)))
        (the (tree_val (2 ^ k) L (level_off k i + pos div 2 ^ i))))"
proof -
  let ?j = "pos div 2 ^ i" and ?T = "tree_val (2 ^ k) L"
  let ?q = "level_off k i + ?j"
  have pk: "pos < 2 ^ k" using pos by simp
  have r: "?j < 2 ^ (k - i)" "even ?j \<Longrightarrow> ?j + 1 < 2 ^ (k - i)"
    using path_index [OF pk i] by auto
  have ne: "?T (level_off k i + j) = None \<longleftrightarrow> \<not> j * 2 ^ i < c" if "j < 2 ^ (k - i)" for j
    by (rule tree_val_nonempty) (use that i L in auto)
  have pv: "pval st (m ! q) = ?T q" "ptr_ok st (m ! q)" if "q < 2 * 2 ^ k - 1" for q
    using inv that by (auto simp: tree_inv_def)
  have j_c: "?j * 2 ^ i < c" using div_pow_le [of pos i] pos(1) by linarith
  show ne_q: "?T ?q \<noteq> None" using ne [OF r(1)] j_c by simp
  have up: "?T (level_off k (Suc i) + p) = parent_val (?T (level_off k i + 2 * p)) (?T (level_off k i + 2 * p + 1))"
    if "p < 2 ^ (k - Suc i)" for p using tree_val_level [OF i that] .
  have "(2::nat) ^ (k - i) = 2 * 2 ^ (k - Suc i)" using i by (metis Suc_diff_Suc power_Suc)
  then have p: "?j div 2 < 2 ^ (k - Suc i)" using r(1) by linarith
  have "pos div 2 ^ Suc i = ?j div 2"
    by (metis div_exp_eq power_Suc2 power_one_right Suc_eq_plus1)
  then have e1: "pos div 2 ^ Suc i = ?j div 2" "pos div (2 * 2 ^ i) = ?j div 2" by simp_all
  note rng = path_in_range [OF pk i]
  show "path_sibling k m pos i \<noteq> None" "ptr_ok st (path_sibling k m pos i)"
    "?T (level_off k (Suc i) + pos div 2 ^ Suc i) =
      Some (hash_up (path_dir pos [0] [1] i) (the (pval st (path_sibling k m pos i))) (the (?T ?q)))"
  proof (atomize (full), cases "even ?j")
    case True
    then have d: "2 * (?j div 2) = ?j" by simp
    have t1: "pval st (m ! ?q) = ?T ?q" "ptr_ok st (m ! ?q)" using pv rng(1) by auto
    have t2: "pval st (m ! (?q + 1)) = ?T (?q + 1)" "ptr_ok st (m ! (?q + 1))" using pv rng(2) [OF True] by auto
    obtain a where a: "?T ?q = Some a" using ne_q by auto
    have T: "?T (level_off k (Suc i) + ?j div 2) = parent_val (?T ?q) (?T (?q + 1))"
      using up [OF p] d by (simp only:)
    show "path_sibling k m pos i \<noteq> None \<and> ptr_ok st (path_sibling k m pos i) \<and>
      ?T (level_off k (Suc i) + pos div 2 ^ Suc i) =
      Some (hash_up (path_dir pos [0] [1] i) (the (pval st (path_sibling k m pos i))) (the (?T ?q)))"
    proof (cases "m ! (?q + 1)")
      case None
      then have "path_sibling k m pos i = m ! ?q" "?T (?q + 1) = None"
        using True t2 by (simp_all add: path_sibling_def)
      then show ?thesis using t1 a T True pval_None [of st "m ! ?q"]
        by (simp add: e1 parent_val_def hash_up_def path_dir_def del: pval_None)
    next
      case (Some b)
      then have "path_sibling k m pos i = m ! (?q + 1)" using True by (simp add: path_sibling_def)
      moreover have "?T (?q + 1) = Some (slice_bytes (st ! b))" using t2 Some by simp
      ultimately show ?thesis using t2 a T True Some
        by (simp add: e1 parent_val_def hash_up_def path_dir_def)
    qed
  next
    case False
    then obtain j' where j': "?j = Suc j'" "even j'" by (cases ?j) auto
    then have d: "2 * (?j div 2) = j'" by simp
    have sib: "path_sibling k m pos i = m ! (level_off k i + j')"
      using j' by (simp add: path_sibling_def)
    have lt: "level_off k i + j' < 2 * 2 ^ k - 1" using rng(1) j' by linarith
    have ne2: "?T (level_off k i + j') \<noteq> None"
      using ne [of j'] r(1) div_pow_le' [of pos i] pos(1) j' by auto
    then obtain b where b: "?T (level_off k i + j') = Some b" by auto
    obtain a where a: "?T ?q = Some a" using ne_q by auto
    have T: "?T (level_off k (Suc i) + ?j div 2) = parent_val (?T (level_off k i + j')) (?T ?q)"
      using up [OF p] unfolding d unfolding j'(1) by simp
    have "pval st (m ! (level_off k i + j')) = Some b" "ptr_ok st (m ! (level_off k i + j'))"
      using pv [OF lt] b by auto
    then show "path_sibling k m pos i \<noteq> None \<and> ptr_ok st (path_sibling k m pos i) \<and>
      ?T (level_off k (Suc i) + pos div 2 ^ Suc i) =
      Some (hash_up (path_dir pos [0] [1] i) (the (pval st (path_sibling k m pos i))) (the (?T ?q)))"
      using a b T False pval_None [of st "m ! (level_off k i + j')"]
      by (auto simp: sib e1 parent_val_def hash_up_def path_dir_def simp del: pval_None)
  qed
qed

lemma path_fold:
  assumes inv: "tree_inv (2 ^ k) L (2 * 2 ^ k - 1) st m"
    and L: "\<forall>i<2 ^ k. L ! i = None \<longleftrightarrow> \<not> i < c" and pos: "pos < c" "c \<le> 2 ^ k" and h: "h \<le> k"
  shows "fold (\<lambda>i. hash_up (path_dir pos [0] [1] i) (the (pval st (path_sibling k m pos i)))) [0..<h] (the (L ! pos))
    = the (tree_val (2 ^ k) L (level_off k h + pos div 2 ^ h))"
  using h
proof (induction h)
  case 0
  then show ?case using pos by (simp add: tree_val_leaf)
next
  case (Suc h)
  then show ?case using path_level(4) [OF inv L pos, of h] by simp
qed

lemma build_root:
  assumes "assets_ok st as" and "2 \<le> length as"
  obtains k x m where "nextPowerOfTwo (length as) = 2 ^ Suc k" and "length as \<le> 2 ^ Suc k"
    and "BuildMerkleTreeStore st as = Some (Inr (st @ x, m))"
    and "tree_inv (2 ^ Suc k) (leaves (asset_vals st as)) (2 * 2 ^ Suc k - 1) (st @ x) m"
    and "length m = 2 * 2 ^ Suc k - 1"
    and "pval (st @ x) (last m) = tree_val (2 ^ Suc k) (leaves (asset_vals st as)) (2 * 2 ^ Suc k - 2)"
proof -
  obtain k x m where b: "nextPowerOfTwo (length as) = 2 ^ Suc k" "length as \<le> 2 ^ Suc k"
    "BuildMerkleTreeStore st as = Some (Inr (st @ x, m))"
    "tree_inv (2 ^ Suc k) (leaves (asset_vals st as)) (2 * 2 ^ Suc k - 1) (st @ x) m"
    by (rule build_ok [OF assms])
  define n :: nat where "n = 2 ^ Suc k"
  have "2 \<le> n" by (simp add: n_def)
  then have n: "2 \<le> n" "2 * n - 2 < 2 * n - 1" by linarith+
  have len: "length m = 2 * n - 1" using b(4) by (simp add: tree_inv_def n_def)
  then have "m \<noteq> []" using n by auto
  then have "last m = m ! (2 * n - 2)" using len by (simp add: last_conv_nth numeral_2_eq_2)
  then show ?thesis
    using that [OF b] tree_inv_pval [OF b(4) [folded n_def] n(2)] len unfolding n_def by simp
qed

section \<open>Properties\<close>

text \<open>
  C21. The tree builder refines the abstract tree: from two assets on, the array it returns has
  \<open>2 * n - 1\<close> entries for the least power of two \<open>n\<close> that is at least the number of assets, entry
  \<open>q\<close> points to the abstract value of node \<open>q\<close> (or is nil when the node is empty), the root is the
  last entry and is not nil, and no slice that existed before is written.
\<close>

theorem BuildMerkleTreeStore_refines:
  assumes "assets_ok st as" and "2 \<le> length as"
  shows "\<exists>n x tree. nextPowerOfTwo (length as) = n \<and> length as \<le> n \<and> n < 2 * length as \<and>
    BuildMerkleTreeStore st as = Some (Inr (st @ x, tree)) \<and> length tree = 2 * n - 1 \<and>
    (\<forall>q<2 * n - 1. pval (st @ x) (tree ! q) = tree_val n (leaves (asset_vals st as)) q) \<and>
    last tree \<noteq> None"
proof -
  obtain k x m where b: "nextPowerOfTwo (length as) = 2 ^ Suc k" "length as \<le> 2 ^ Suc k"
    "BuildMerkleTreeStore st as = Some (Inr (st @ x, m))"
    "tree_inv (2 ^ Suc k) (leaves (asset_vals st as)) (2 * 2 ^ Suc k - 1) (st @ x) m"
    "length m = 2 * 2 ^ Suc k - 1"
    "pval (st @ x) (last m) = tree_val (2 ^ Suc k) (leaves (asset_vals st as)) (2 * 2 ^ Suc k - 2)"
    by (rule build_root [OF assms])
  have small: "2 ^ Suc k < 2 * length as"
    using nextPowerOfTwo_spec [of "length as"] assms(2) b(1) by (metis gr0I not_numeral_le_zero)
  have "tree_val (2 ^ Suc k) (leaves (asset_vals st as)) (level_off (Suc k) (Suc k) + 0) \<noteq> None"
    using tree_val_nonempty [of "Suc k" "Suc k" 0 "leaves (asset_vals st as)" "length as"]
      leaves_nth [of "asset_vals st as" "Suc k"] b(1) assms(2) by auto
  then have "last m \<noteq> None" using b(6) pval_None by (metis add_0_right level_off_top)
  then show ?thesis using b small tree_inv_pval [OF b(4)] by blast
qed

theorem BuildMerkleTreeStore_refines_witness:
  "\<exists>n x tree. nextPowerOfTwo (length [0, 1, 2 :: nat]) = n \<and> length [0, 1, 2 :: nat] \<le> n \<and> n < 2 * length [0, 1, 2 :: nat] \<and>
    BuildMerkleTreeStore [Some [1], Some [2], Some []] [0, 1, 2] = Some (Inr ([Some [1], Some [2], Some []] @ x, tree)) \<and>
    length tree = 2 * n - 1 \<and>
    (\<forall>q<2 * n - 1. pval ([Some [1], Some [2], Some []] @ x) (tree ! q) =
       tree_val n (leaves (asset_vals [Some [1], Some [2], Some []] [0, 1, 2])) q) \<and>
    last tree \<noteq> None"
  by (rule BuildMerkleTreeStore_refines) (simp_all add: assets_ok_def)

text \<open>
  The tree builder on its other inputs: no asset is an error, one asset gives the asset itself
  (no copy) and its hash and a nil asset is then accepted, and from two assets on a nil asset
  is an error. The builder never panics.
\<close>

theorem BuildMerkleTreeStore_edges:
  assumes "list_all (\<lambda>a. a < length st) as"
  shows "BuildMerkleTreeStore st as \<noteq> None \<and>
    (as = [] \<longrightarrow> BuildMerkleTreeStore st as = Some (Inl (Errorf ''Cannot build tree from empty array.''))) \<and>
    (\<forall>a. as = [a] \<longrightarrow> BuildMerkleTreeStore st as =
       Some (Inr (st @ [Some (HashB (slice_bytes (st ! a)))], [Some a, Some (length st)]))) \<and>
    (2 \<le> length as \<and> (\<exists>a\<in>set as. st ! a = None) \<longrightarrow> BuildMerkleTreeStore st as =
       Some (Inl (Errorf ''Invalid leaf. Input must be a non-empty byte slice.'')))"
proof -
  have nil: "BuildMerkleTreeStore st as =
       Some (Inl (Errorf ''Invalid leaf. Input must be a non-empty byte slice.''))"
    if l: "2 \<le> length as" "\<exists>a\<in>set as. st ! a = None"
  proof -
    obtain k where "nextPowerOfTwo (length as) = 2 ^ k" "length as \<le> 2 ^ k"
      by (rule nextPowerOfTwo_spec [of "length as"]) (use l in auto)
    then show ?thesis
      using leaf_loop_nil [of as st 0 "replicate (nextPowerOfTwo (length as) * 2 - 1) None"] assms l
      by (auto simp: BuildMerkleTreeStore_def list_all_iff)
  qed
  have one: "BuildMerkleTreeStore st as =
       Some (Inr (st @ [Some (HashB (slice_bytes (st ! a)))], [Some a, Some (length st)]))"
    if "as = [a]" for a
    using assms that by (simp add: BuildMerkleTreeStore_def idx_def deref_def new_def)
  have "BuildMerkleTreeStore st as \<noteq> None"
  proof (cases "2 \<le> length as \<and> assets_ok st as")
    case True
    then show ?thesis using build_ok [of st as] by blast
  next
    case False
    then consider "as = []" | a where "as = [a]" | "2 \<le> length as" "\<exists>a\<in>set as. st ! a = None"
      using assms by (cases as rule: remdups_adj.cases) (auto simp: assets_ok_def list_all_iff)
    then show ?thesis
    proof cases
      case 1
      then show ?thesis by (simp add: BuildMerkleTreeStore_def)
    next
      case 2
      then show ?thesis using one by simp
    next
      case 3
      then show ?thesis using nil by simp
    qed
  qed
  then show ?thesis using nil one by (auto simp: BuildMerkleTreeStore_def)
qed

theorem BuildMerkleTreeStore_edges_witness:
  "BuildMerkleTreeStore [None] [0] = Some (Inr ([None, Some (HashB [])], [Some 0, Some 1])) \<and>
   BuildMerkleTreeStore [None, Some [1]] [1, 0] =
     Some (Inl (Errorf ''Invalid leaf. Input must be a non-empty byte slice.''))"
  using BuildMerkleTreeStore_edges [of "[None]" "[0]"]
    BuildMerkleTreeStore_edges [of "[None, Some [1]]" "[1, 0]"]
  by (simp add: slice_bytes_def)


lemma generate_verifies:
  assumes inv: "tree_inv (2 ^ Suc k) L (2 * 2 ^ Suc k - 1) st m"
    and L: "\<forall>i<2 ^ Suc k. L ! i = None \<longleftrightarrow> \<not> i < c" and pos: "pos < c" "c \<le> 2 ^ Suc k"
  shows "\<exists>root st2 ptrs args. pval st (last m) = Some root \<and>
    GenerateProofFromTree st (m ! pos) (int pos) m = Some (Inr (st2, ptrs)) \<and>
    CopyProof st2 ptrs = Some (Inr args) \<and>
    Verify root (map slice_bytes args) = Some (Inr ()) \<and>
    length args = 2 * Suc k + 2 \<and> Some (slice_bytes (args ! 0)) = L ! pos"
proof -
  define K where "K = Suc k"
  define n :: nat where "n = 2 ^ K"
  note inv = inv [folded K_def, folded n_def] and L = L [folded K_def, folded n_def] and pos = pos [folded K_def, folded n_def]
  have n: "2 \<le> n" by (simp add: n_def K_def)
  have len: "length m = 2 * n - 1" using inv by (simp add: tree_inv_def)
  have pv: "pval st (m ! q) = tree_val n L q" "ptr_ok st (m ! q)" if "q < 2 * n - 1" for q
    using inv that by (auto simp: tree_inv_def)
  have pn: "pos < n" using pos by simp
  then have posm: "pos < 2 * n - 1" by linarith
  have "m \<noteq> []" using len n by auto
  then have last_m: "last m = m ! (2 * n - 2)" using len by (simp add: last_conv_nth numeral_2_eq_2)
  have leaf: "L ! pos \<noteq> None" using L pos pn by auto
  have m_pos: "pval st (m ! pos) = L ! pos" using pv [OF posm] pn by (simp add: tree_val_leaf)
  have root_lt: "2 * n - 2 < 2 * n - 1" using n by linarith
  have root_val: "tree_val n L (2 * n - 2) \<noteq> None"
    using tree_val_nonempty [of K K 0 L c] L pos by (auto simp: n_def level_off_top)
  then obtain root where root: "tree_val n L (2 * n - 2) = Some root" by auto
  let ?lb = "Some (length st)" and ?rb = "Some (Suc (length st))"
  define st2 where "st2 = st @ [Some [0], Some [1]]"
  define path where "path = concat (map (\<lambda>i. [path_dir pos ?lb ?rb i, path_sibling K m pos i]) [0..<K])"
  define ptrs where "ptrs = m ! pos # path @ [m ! (2 * n - 2)]"
  have "proof_loop K pos 0 n ?lb ?rb m [m ! pos] = Some ([m ! pos] @ path, 2 * n - 2)"
    using proof_loop_ok [of m K pos 0 ?lb ?rb "[m ! pos]"] len pn by (simp add: n_def path_def)
  moreover have "log2_floor (nextPowerOfTwo (2 * n - 1)) - 1 = K"
    using nextPowerOfTwo_array [of k] log2_floor_power [of "Suc K"] by (simp add: n_def K_def)
  moreover have "(2 * n - 1 + 1) div 2 = n" using n by simp
  moreover have "2 * n - 1 \<noteq> 2" "\<not> 2 * n - 1 < 2" using n by linarith+
  ultimately have gen: "GenerateProofFromTree st (m ! pos) (int pos) m = Some (Inr (st2, ptrs))"
    using len n posm root_lt
    by (simp add: GenerateProofFromTree_def idx_def new_def st2_def ptrs_def)
  note sib = path_level [OF inv [unfolded n_def] L [unfolded n_def] pos(1) pos(2) [unfolded n_def]]
  have "list_all (\<lambda>p. p \<noteq> None \<and> ptr_ok st2 p) path"
    using sib(2,3) by (auto simp: path_def list_all_iff path_dir_def st2_def)
  moreover have "m ! pos \<noteq> None \<and> ptr_ok st2 (m ! pos)"
    using leaf m_pos pv(2) [OF posm] by (auto simp: st2_def dest: pval_SomeD)
  moreover have "m ! (2 * n - 2) \<noteq> None \<and> ptr_ok st2 (m ! (2 * n - 2))"
    using root pv [OF root_lt] by (auto simp: st2_def dest: pval_SomeD)
  ultimately have copy: "CopyProof st2 ptrs = Some (Inr (map (\<lambda>p. st2 ! the p) ptrs))"
    by (intro CopyProof_ok) (simp add: ptrs_def)
  have val: "slice_bytes (st2 ! the p) = the (pval st p)" if "ptr_ok st p" "p \<noteq> None" for p
    using that by (auto simp: st2_def nth_append)
  have "map (\<lambda>p. slice_bytes (st2 ! the p)) path =
      concat (map (\<lambda>i. [path_dir pos [0] [1] i, the (pval st (path_sibling K m pos i))]) [0..<K])"
    unfolding path_def map_concat map_map
    by (intro arg_cong [where f = concat] map_cong)
       (use sib(2,3) val in \<open>auto simp: path_dir_def st2_def nth_append\<close>)
  moreover have "slice_bytes (st2 ! the (m ! pos)) = the (L ! pos)"
    using val pv(2) [OF posm] m_pos leaf by (metis pval_None)
  moreover have "slice_bytes (st2 ! the (m ! (2 * n - 2))) = root"
    using val pv [OF root_lt] root by (metis option.distinct(1) option.sel pval_None)
  ultimately have args: "map slice_bytes (map (\<lambda>p. st2 ! the p) ptrs) =
      path_args K (the (L ! pos)) (path_dir pos [0] [1]) (\<lambda>i. the (pval st (path_sibling K m pos i))) root"
    by (simp add: ptrs_def path_args_def comp_def)
  have "fold (\<lambda>i. hash_up (path_dir pos [0] [1] i) (the (pval st (path_sibling K m pos i)))) [0..<K] (the (L ! pos)) = root"
    using path_fold [OF inv [unfolded n_def] L [unfolded n_def] pos(1) pos(2) [unfolded n_def], of K] root pn
    by (simp add: level_off_top n_def)
  then have "Verify root (map slice_bytes (map (\<lambda>p. st2 ! the p) ptrs)) = Some (Inr ())"
    unfolding args by (subst Verify_path) (simp_all add: K_def)
  moreover have "pval st (last m) = Some root"
    unfolding last_m using pv [OF root_lt] root by simp
  moreover have "length (map (\<lambda>p. st2 ! the p) ptrs) = 2 * K + 2"
    using arg_cong [OF args, of length] by simp
  moreover have "Some (slice_bytes (map (\<lambda>p. st2 ! the p) ptrs ! 0)) = L ! pos"
    using arg_cong [OF args, of hd] leaf by (simp add: ptrs_def path_args_def)
  ultimately show ?thesis using gen copy unfolding K_def by blast
qed

text \<open>
  C3. Completeness: for every non-empty list of non-nil assets and every position of it, the tree
  is built, the proof generated for the tree's own entry at that position is copied without an
  error, and \<open>Verify\<close> accepts the copy against the root, the last entry of the tree. The proof
  starts with the hash of the asset (with the asset itself when it is the only one).
\<close>

theorem merkle_completeness:
  assumes "assets_ok st as" and "pos < length as"
  shows "\<exists>st1 tree root st2 ptrs args.
    BuildMerkleTreeStore st as = Some (Inr (st1, tree)) \<and> pval st1 (last tree) = Some root \<and>
    GenerateProofFromTree st1 (tree ! pos) (int pos) tree = Some (Inr (st2, ptrs)) \<and>
    CopyProof st2 ptrs = Some (Inr args) \<and>
    Verify root (map slice_bytes args) = Some (Inr ()) \<and>
    slice_bytes (args ! 0) =
      (if length as = 1 then asset_vals st as ! pos else HashB (asset_vals st as ! pos))"
proof (cases "2 \<le> length as")
  case True
  obtain k x m where b: "nextPowerOfTwo (length as) = 2 ^ Suc k" "length as \<le> 2 ^ Suc k"
    "BuildMerkleTreeStore st as = Some (Inr (st @ x, m))"
    "tree_inv (2 ^ Suc k) (leaves (asset_vals st as)) (2 * 2 ^ Suc k - 1) (st @ x) m"
    by (rule build_ok [OF assms(1) True])
  have L: "\<forall>i<2 ^ Suc k. leaves (asset_vals st as) ! i =
      (if i < length as then Some (HashB (asset_vals st as ! i)) else None)"
    using leaves_nth [of "asset_vals st as" "Suc k"] b(1) by simp
  then have "\<forall>i<2 ^ Suc k. leaves (asset_vals st as) ! i = None \<longleftrightarrow> \<not> i < length as" by simp
  from generate_verifies [OF b(4) this assms(2) b(2)] L assms(2) b(2,3) True show ?thesis
    by fastforce
next
  case False
  with assms(2) obtain a where a: "as = [a]" "pos = 0" by (cases as rule: remdups_adj.cases) auto
  with assms(1) obtain v where v: "a < length st" "st ! a = Some v"
    by (auto simp: assets_ok_def)
  let ?st1 = "st @ [Some (HashB v)]"
  have b: "BuildMerkleTreeStore st as = Some (Inr (?st1, [Some a, Some (length st)]))"
    using a v by (simp add: BuildMerkleTreeStore_def idx_def deref_def new_def)
  have g: "GenerateProofFromTree ?st1 (Some a) (int pos) [Some a, Some (length st)]
      = Some (Inr (?st1, [Some a, Some (length st)]))"
    using a by (simp add: GenerateProofFromTree_def idx_def)
  have c: "CopyProof ?st1 [Some a, Some (length st)] = Some (Inr [Some v, Some (HashB v)])"
    using v by (simp add: deref_def nth_append)
  have "Verify (HashB v) [v, HashB v] = Some (Inr ())" by (simp add: Verify_def)
  then show ?thesis using b g c a v by (auto simp: asset_vals_def)
qed

theorem merkle_completeness_witness:
  "\<exists>st1 tree root st2 ptrs args.
    BuildMerkleTreeStore [Some [1], Some [2], Some [3]] [0, 1, 2] = Some (Inr (st1, tree)) \<and>
    pval st1 (last tree) = Some root \<and>
    GenerateProofFromTree st1 (tree ! 2) (int 2) tree = Some (Inr (st2, ptrs)) \<and>
    CopyProof st2 ptrs = Some (Inr args) \<and>
    Verify root (map slice_bytes args) = Some (Inr ()) \<and>
    slice_bytes (args ! 0) =
      (if length [0, 1, 2 :: nat] = 1 then asset_vals [Some [1], Some [2], Some [3]] [0, 1, 2] ! 2
       else HashB (asset_vals [Some [1], Some [2], Some [3]] [0, 1, 2] ! 2))"
  by (rule merkle_completeness) (simp_all add: assets_ok_def)




lemma verify_loop_total:
  "\<forall>i\<in>set is. 2 * i + 2 < length args \<Longrightarrow> \<exists>r'. verify_loop is args r = Some r'"
  by (induction "is" arbitrary: r) (auto simp: verify_step_def idx_def)

text \<open>
  \<open>Verify\<close> is total on non-empty arguments and panics on an empty proof: no other slice index
  of the code can be out of range. Whatever it accepts ends with the expected root.
\<close>

theorem Verify_total:
  "(Verify root args = None \<longleftrightarrow> args = []) \<and>
   (Verify root args = Some (Inr ()) \<longrightarrow> args \<noteq> [] \<and> last args = root)"
proof -
  have "\<exists>r. verify_loop [0..<length args div 2 - 1] args (args ! 0) = Some r" if "args \<noteq> []"
    by (rule verify_loop_total) auto
  then show ?thesis
    by (auto simp: Verify_def Let_def last_conv_nth split: if_splits)
qed

theorem Verify_total_witness:
  "Verify [1] [[1]] = Some (Inr ()) \<and> last [[1]] = ([1] :: bytes)"
proof -
  have "Verify [1] [[1]] = Some (Inr ())" by (simp add: Verify_def)
  with Verify_total [of "[1]" "[[1]]"] show ?thesis by simp
qed

text \<open>
  Degenerate proofs are accepted: for every root, \<open>Verify\<close> accepts the proof that holds the root
  alone, the root twice with anything between, and the root with a path whose direction byte is
  neither \<open>0\<close> nor \<open>1\<close> (the step is skipped). None of them shows that anything is in the tree.
\<close>

theorem Verify_accepts_degenerate:
  "Verify root [root] = Some (Inr ()) \<and>
   Verify root [root, x, root] = Some (Inr ()) \<and>
   Verify root [root, [2], x, root] = Some (Inr ())"
  by (simp add: Verify_def verify_step_def idx_def)

text \<open>
  The depth of a proof is not bound: dropping the first step of an accepted proof of at least
  two steps gives an accepted proof whose first element is the inner node above it.
\<close>

theorem Verify_accepts_inner_node:
  assumes "Verify root (path_args (Suc (Suc k)) v d s root) = Some (Inr ())"
  shows "Verify root (path_args (Suc k) (hash_up (d 0) (s 0) v) (\<lambda>i. d (Suc i)) (\<lambda>i. s (Suc i)) root) = Some (Inr ())"
proof -
  have "fold (\<lambda>i. hash_up (d (Suc i)) (s (Suc i))) [0..<Suc k] w = fold (\<lambda>i. hash_up (d i) (s i)) [1..<Suc (Suc k)] w" for w
    unfolding map_Suc_upt [symmetric, of 0, unfolded One_nat_def [symmetric]] fold_map by (simp add: comp_def)
  moreover have "[0..<Suc (Suc k)] = 0 # [1..<Suc (Suc k)]" by (simp add: upt_conv_Cons)
  ultimately show ?thesis
    using assms by (simp add: Verify_path del: upt_Suc split: if_splits)
qed

theorem Verify_accepts_inner_node_witness:
  "Verify (branch_hash (branch_hash [] []) [])
     (path_args (Suc 0) (hash_up [1] [] []) (\<lambda>i. [1]) (\<lambda>i. []) (branch_hash (branch_hash [] []) [])) = Some (Inr ())"
  by (rule Verify_accepts_inner_node [where d = "\<lambda>i. [1]" and s = "\<lambda>i. []"])
     (simp add: Verify_path hash_up_def)

text \<open>
  The root does not bind the number of assets: repeating the last of three assets gives a tree
  with the same root, the empty place being hashed as a copy of its left neighbour.
\<close>

theorem merkle_root_duplicate_leaf:
  "\<exists>st1 t1 st2 t2 root.
     BuildMerkleTreeStore [Some a, Some b, Some c] [0, 1, 2] = Some (Inr (st1, t1)) \<and>
     BuildMerkleTreeStore [Some a, Some b, Some c] [0, 1, 2, 2] = Some (Inr (st2, t2)) \<and>
     pval st1 (last t1) = Some root \<and> pval st2 (last t2) = Some root"
proof -
  let ?st = "[Some a, Some b, Some c] :: store"
  have p: "nextPowerOfTwo 3 = 4" "nextPowerOfTwo 4 = 4" by code_simp+
  have root: "\<exists>st1 t1. BuildMerkleTreeStore ?st as = Some (Inr (st1, t1)) \<and>
      pval st1 (last t1) = tree_val 4 (leaves (asset_vals ?st as)) 6"
    if "as = [0, 1, 2] \<or> as = [0, 1, 2, 2]" for as
  proof -
    have ok: "assets_ok ?st as" "2 \<le> length as" and n: "nextPowerOfTwo (length as) = 4"
      using that p by (auto simp: assets_ok_def eval_nat_numeral)
    show ?thesis
      by (rule build_root [OF ok]) (use n in auto)
  qed
  have t: "tree_val 4 [w, x, y, z] 6 = parent_val (parent_val w x) (parent_val y z)" for w x y z
    by (simp add: tree_val.simps [of _ _ 6] tree_val.simps [of _ _ 5] tree_val.simps [of _ _ 4] tree_val_leaf)
  have l: "leaves (asset_vals ?st [0, 1, 2]) = [Some (HashB a), Some (HashB b), Some (HashB c), None]"
    "leaves (asset_vals ?st [0, 1, 2, 2]) = [Some (HashB a), Some (HashB b), Some (HashB c), Some (HashB c)]"
    using p by (simp_all add: leaves_def asset_vals_def eval_nat_numeral)
  have "tree_val 4 (leaves (asset_vals ?st [0, 1, 2])) 6 = tree_val 4 (leaves (asset_vals ?st [0, 1, 2, 2])) 6"
    unfolding l t by (simp add: parent_val_def)
  moreover have "tree_val 4 (leaves (asset_vals ?st [0, 1, 2])) 6 \<noteq> None"
    unfolding l t by (simp add: parent_val_def)
  ultimately show ?thesis using root [of "[0, 1, 2]"] root [of "[0, 1, 2, 2]"] by fastforce
qed

text \<open>
  The prover's guards: a tree of fewer than two entries is an error; a position outside the
  tree panics; and an asset that is not the very pointer the tree holds at the position is an
  error, whatever it points to.
\<close>

theorem GenerateProofFromTree_guards:
  "(length tree < 2 \<longrightarrow> GenerateProofFromTree st asset pos tree =
      Some (Inl (Errorf ''Input Merkle tree must be non-empty hash array.''))) \<and>
   (2 \<le> length tree \<and> (pos < 0 \<or> int (length tree) \<le> pos) \<longrightarrow> GenerateProofFromTree st asset pos tree = None) \<and>
   (2 \<le> length tree \<and> 0 \<le> pos \<and> pos < int (length tree) \<and> asset \<noteq> tree ! nat pos \<longrightarrow>
      GenerateProofFromTree st asset pos tree =
        Some (Inl (Errorf ''Mismatch. Invalid Merkle tree for asset argument.'')))"
  by (auto simp: GenerateProofFromTree_def idx_def)

theorem GenerateProofFromTree_guards_witness:
  "GenerateProofFromTree [Some [1], Some [1], Some [5]] (Some 1) 0 [Some 0, Some 2] =
     Some (Inl (Errorf ''Mismatch. Invalid Merkle tree for asset argument.''))"
  using GenerateProofFromTree_guards [of "[Some 0, Some 2]" "[Some [1], Some [1], Some [5]]" "Some 1" 0]
  by simp

end
