(* ===== verification/Wrap.thy ===== *)
theory Wrap
  imports Amcl Prelude
begin

text \<open>
  \<open>crypto/wrap.go\<close>: octets in C memory and the calls into the AMCL library.

  A slot is a variable of type \<open>*Octet\<close> together with the C block its octet points to: the octet
  (\<open>None\<close> for the nil pointer) and whether the block has been freed. The code never copies a
  \<open>*Octet\<close> variable that it later frees, so a handle is the index of a slot, and slots are added at
  the end. What the block held when it was freed stays in the slot: this is what remains readable
  in C memory. The result \<open>None\<close> stands for a panic of the Go code and for undefined behaviour of
  the C code (use after free, double free, a read outside the block).

  The functions of the library are parameters. A C function that takes octets by pointer is a
  function from their values to a return value and their new values; \<open>cfun_ok\<close> states that it
  keeps the blocks and capacities and leaves lengths within them.
\<close>

section \<open>Slots\<close>

datatype slot = Slot "octet option" bool

type_synonym cmem = "slot list"
type_synonym handle = "nat option"

definition slot_at :: "cmem \<Rightarrow> nat \<Rightarrow> octet option option" where
  "slot_at m i =
     (if i < length m
      then (case m ! i of Slot ov freed \<Rightarrow> if freed \<and> ov \<noteq> None then None else Some ov)
      else None)"

text \<open>The argument \<open>nil\<close> of a C call is the handle \<open>None\<close>.\<close>

definition load :: "cmem \<Rightarrow> handle \<Rightarrow> octet option option" where
  "load m h = (case h of None \<Rightarrow> Some None | Some i \<Rightarrow> slot_at m i)"

definition store :: "handle \<Rightarrow> octet option \<Rightarrow> cmem \<Rightarrow> cmem" where
  "store h ov m = (case h of None \<Rightarrow> m | Some i \<Rightarrow> m[i := Slot ov False])"

fun load_all :: "cmem \<Rightarrow> handle list \<Rightarrow> octet option list option" where
  "load_all m [] = Some []"
| "load_all m (h # hs) = do { ov \<leftarrow> load m h; os \<leftarrow> load_all m hs; Some (ov # os) }"

fun store_all :: "handle list \<Rightarrow> octet option list \<Rightarrow> nat \<Rightarrow> cmem \<Rightarrow> cmem" where
  "store_all [] os k m = m"
| "store_all (h # hs) os k m = store_all hs os (Suc k) (store h (os ! k) m)"

type_synonym 'r cfun = "octet option list \<Rightarrow> 'r \<times> octet option list"

definition c_call :: "'r cfun \<Rightarrow> handle list \<Rightarrow> cmem \<Rightarrow> ('r \<times> cmem) option" where
  "c_call f hs m = do {
     os \<leftarrow> load_all m hs;
     let (r, os') = f os;
     if length os' = length os then Some (r, store_all hs os' 0 m) else None
   }"

section \<open>The documented contract of the C functions\<close>

definition oct_wf :: "octet \<Rightarrow> bool" where
  "oct_wf c \<longleftrightarrow> 0 \<le> oct_len c \<and> oct_len c \<le> oct_max c \<and> oct_max c \<le> int (length (oct_val c))"

definition oct_step :: "octet \<Rightarrow> octet \<Rightarrow> bool" where
  "oct_step c c' \<longleftrightarrow> oct_max c' = oct_max c \<and> length (oct_val c') = length (oct_val c) \<and>
     0 \<le> oct_len c' \<and> oct_len c' \<le> oct_max c'"

definition cfun_ok :: "'r cfun \<Rightarrow> bool" where
  "cfun_ok f \<longleftrightarrow> (\<forall>os. list_all (pred_option oct_wf) os \<longrightarrow>
     list_all2 (rel_option oct_step) os (snd (f os)))"

text \<open>\<open>OCT_clear\<close>: ``wipe clean an octet''.\<close>

definition wiped :: "octet option \<Rightarrow> bool" where
  "wiped ov \<longleftrightarrow> (case ov of None \<Rightarrow> True
     | Some c \<Rightarrow> list_all (\<lambda>b. b = 0) (take (nat (oct_max c)) (oct_val c)))"

record core_api =
  OCT_clear :: "octet \<Rightarrow> octet"
  CREATE_CSPRNG :: "csprng \<Rightarrow> csprng cfun"
  RAND_byte :: "csprng \<Rightarrow> int \<times> csprng"

definition core_ok :: "core_api \<Rightarrow> bool" where
  "core_ok core \<longleftrightarrow> (\<forall>c. wiped (Some (OCT_clear core c))) \<and> (\<forall>R. cfun_ok (CREATE_CSPRNG core R))"

definition clear_opt :: "core_api \<Rightarrow> octet option \<Rightarrow> octet option" where
  "clear_opt core ov = map_option (OCT_clear core) ov"

text \<open>A library that changes nothing but what it must meets the contract.\<close>

lemma oct_step_refl: "oct_wf c \<Longrightarrow> oct_step c c"
  by (simp add: oct_wf_def oct_step_def)

lemma cfun_ok_same [simp]: "cfun_ok (\<lambda>os. (r, os))"
proof -
  have "rel_option oct_step ov ov" if "pred_option oct_wf ov" for ov
    using that by (cases ov) (simp_all add: oct_step_refl)
  then show ?thesis
    by (auto simp: cfun_ok_def list_all_iff intro: list.rel_refl_strong)
qed

definition idle_core :: core_api where
  "idle_core = \<lparr>OCT_clear = (\<lambda>c. c\<lparr>oct_len := 0, oct_val := map (\<lambda>_. 0) (oct_val c)\<rparr>),
     CREATE_CSPRNG = (\<lambda>R os. (R, os)), RAND_byte = (\<lambda>R. (0, R))\<rparr>"

lemma idle_core_ok: "core_ok idle_core"
  by (auto simp: core_ok_def idle_core_def wiped_def list_all_iff dest: in_set_takeD)

section \<open>wrap.go\<close>

definition cint :: "int \<Rightarrow> int" where
  "cint x = signed_take_bit 31 x"

lemma cint_id: "- (2 ^ 31) \<le> x \<Longrightarrow> x < 2 ^ 31 \<Longrightarrow> cint x = x"
  by (simp add: cint_def signed_take_bit_int_eq_self)

(* crypto/wrap.go:28-30 curveName *)
definition curveName :: string where
  "curveName = ''BLS381''"

(* crypto/wrap.go:32-33 amclOk *)
definition amclOk :: int where "amclOk = 0"
(* crypto/wrap.go:35 mpinInvalidPoint *)
definition mpinInvalidPoint :: int where "mpinInvalidPoint = - 14"
(* crypto/wrap.go:36 mpinInvalidPin *)
definition mpinInvalidPin :: int where "mpinInvalidPin = - 19"
(* crypto/wrap.go:38 blsFail *)
definition blsFail :: int where "blsFail = 41"
(* crypto/wrap.go:39 blsInvalidG1 *)
definition blsInvalidG1 :: int where "blsInvalidG1 = 42"
(* crypto/wrap.go:40-41 blsInvalidG2 *)
definition blsInvalidG2 :: int where "blsInvalidG2 = 43"

(* crypto/wrap.go:44-45 ErrInvalidPoint *)
definition ErrInvalidPoint :: gerr where "ErrInvalidPoint = Errorf ''Invalid point''"
(* crypto/wrap.go:46-47 ErrInvalidPin *)
definition ErrInvalidPin :: gerr where "ErrInvalidPin = Errorf ''Invalid PIN''"
(* crypto/wrap.go:48-49 ErrInvalidTime *)
definition ErrInvalidTime :: gerr where "ErrInvalidTime = Errorf ''Invalid time''"
(* crypto/wrap.go:50-51 ErrBlsFail *)
definition ErrBlsFail :: gerr where "ErrBlsFail = Errorf ''Invalid BLS signature''"
(* crypto/wrap.go:52-53 ErrInvalidG1 *)
definition ErrInvalidG1 :: gerr where "ErrInvalidG1 = Errorf ''Invalid G1 point''"
(* crypto/wrap.go:54-55 ErrInvalidG2 *)
definition ErrInvalidG2 :: gerr where "ErrInvalidG2 = Errorf ''Invalid G2 point''"

definition fresh_octet :: "int \<Rightarrow> octet" where
  "fresh_octet n = \<lparr>oct_len = cint 0, oct_max = cint n, oct_val = replicate (nat n) 0\<rparr>"

(* crypto/wrap.go:64-71 NewOctet *)
definition NewOctet :: "int \<Rightarrow> cmem \<Rightarrow> handle \<times> cmem" where
  "NewOctet maxSize m = (Some (length m), m @ [Slot (Some (fresh_octet maxSize)) False])"

text \<open>\<open>C.CString\<close> copies the bytes and appends a zero byte.\<close>

definition octet_of :: "bytes \<Rightarrow> octet" where
  "octet_of b = \<lparr>oct_len = cint (int (length b)), oct_max = cint (int (length b)), oct_val = b @ [0]\<rparr>"

(* crypto/wrap.go:73-84 CreateOctet *)
definition CreateOctet :: "slice \<Rightarrow> cmem \<Rightarrow> handle \<times> cmem" where
  "CreateOctet v m = (Some (length m), m @ [Slot (map_option octet_of v) False])"

(* crypto/wrap.go:86-93 Octet.Clear *)
definition Octet_Clear :: "core_api \<Rightarrow> handle \<Rightarrow> cmem \<Rightarrow> cmem option" where
  "Octet_Clear core h m = do { ov \<leftarrow> load m h; Some (store h (clear_opt core ov) m) }"

(* crypto/wrap.go:95-102 Octet.Free *)
definition Octet_Free :: "handle \<Rightarrow> cmem \<Rightarrow> cmem option" where
  "Octet_Free h m = do {
     ov \<leftarrow> load m h;
     case h of None \<Rightarrow> Some m | Some i \<Rightarrow> Some (m[i := Slot ov True])
   }"

(* crypto/wrap.go:104-107 Octet.ClearAndFree *)
definition ClearAndFree :: "core_api \<Rightarrow> handle \<Rightarrow> cmem \<Rightarrow> cmem option" where
  "ClearAndFree core h m = do { m \<leftarrow> Octet_Clear core h m; Octet_Free h m }"

definition GoBytes :: "octet option \<Rightarrow> bytes option" where
  "GoBytes ov = (case ov of None \<Rightarrow> None
     | Some c \<Rightarrow> if 0 \<le> oct_len c \<and> oct_len c \<le> int (length (oct_val c))
               then Some (take (nat (oct_len c)) (oct_val c)) else None)"

(* crypto/wrap.go:109-112 Octet.ToBytes *)
definition ToBytes :: "handle \<Rightarrow> cmem \<Rightarrow> bytes option" where
  "ToBytes h m = do { ov \<leftarrow> load m h; GoBytes ov }"

(* crypto/wrap.go:114-117 Octet.ToString *)
definition Octet_ToString :: "handle \<Rightarrow> cmem \<Rightarrow> string option" where
  "Octet_ToString h m = do { b \<leftarrow> ToBytes h m; Some (hex_encode b) }"

text \<open>A \<open>*Rand\<close> that may be nil. The state of the generator is passed on by every call that
  advances it.\<close>

(* crypto/wrap.go:119-120 Rand *)
type_synonym Rand = "csprng option"

(* crypto/wrap.go:122-133 NewRand *)
definition NewRand :: "core_api \<Rightarrow> slice \<Rightarrow> cmem \<Rightarrow> (Rand \<times> cmem) option" where
  "NewRand core seed m =
     (if seed = None then Some (None, m)
      else do {
        let (sOct, m) = CreateOctet seed m;
        let rand = csprng_zero;
        (rand, m) \<leftarrow> c_call (CREATE_CSPRNG core rand) [sOct] m;
        m \<leftarrow> ClearAndFree core sOct m;
        Some (Some rand, m)
      })"

(* crypto/wrap.go:135-139 Rand.GetByte *)
definition GetByte :: "core_api \<Rightarrow> Rand \<Rightarrow> (byte \<times> Rand) option" where
  "GetByte core rand = (case rand of None \<Rightarrow> None
     | Some R \<Rightarrow> (case RAND_byte core R of (r, R') \<Rightarrow> Some (of_int r, Some R')))"

(* crypto/wrap.go:145-147 intToC *)
definition intToC :: "int \<Rightarrow> int" where
  "intToC i = cint i"

(* crypto/wrap.go:149-166 codeToError *)
definition codeToError :: "int \<Rightarrow> gerr option" where
  "codeToError code =
     (if code = amclOk then None
      else if code = mpinInvalidPoint then Some ErrInvalidPoint
      else if code = mpinInvalidPin then Some ErrInvalidPin
      else if code = blsFail then Some ErrBlsFail
      else if code = blsInvalidG1 then Some ErrInvalidG1
      else if code = blsInvalidG2 then Some ErrInvalidG2
      else Some (Errorf ''AMCL error code %d''))"

section \<open>Evaluating a wrapper\<close>

named_theorems cgo \<open>evaluation of octet operations on a frame added to the memory\<close>

lemmas [cgo] = nth_append list_update_append Let_def case_prod_beta eval_nat_numeral

definition the_bytes :: "octet option \<Rightarrow> bytes" where
  "the_bytes ov = (case ov of None \<Rightarrow> [] | Some c \<Rightarrow> take (nat (oct_len c)) (oct_val c))"

lemma load_simps [cgo]:
  "load m None = Some None"
  "load m (Some i) = slot_at m i"
  by (simp_all add: load_def)

lemma slot_at_live [cgo]: "i < length m \<Longrightarrow> m ! i = Slot ov False \<Longrightarrow> slot_at m i = Some ov"
  by (simp add: slot_at_def)

lemma store_simps [cgo]:
  "store None ov m = m"
  "store (Some i) ov m = m[i := Slot ov False]"
  by (simp_all add: store_def)

lemma GoBytes_wf: "ov \<noteq> None \<Longrightarrow> pred_option oct_wf ov \<Longrightarrow> GoBytes ov = Some (the_bytes ov)"
  by (auto simp: GoBytes_def oct_wf_def the_bytes_def)

lemma GoBytes_None [cgo]: "GoBytes None = None"
  by (simp add: GoBytes_def)

lemma oct_wf_fresh: "0 \<le> n \<Longrightarrow> n < 2 ^ 31 \<Longrightarrow> oct_wf (fresh_octet n)"
  by (simp add: oct_wf_def fresh_octet_def cint_id)

definition small :: "slice \<Rightarrow> bool" where
  "small v \<longleftrightarrow> (case v of None \<Rightarrow> True | Some b \<Rightarrow> int (length b) < 2 ^ 31)"

lemma oct_wf_octet_of: "small v \<Longrightarrow> pred_option oct_wf (map_option octet_of v)"
  by (auto simp: small_def oct_wf_def octet_of_def cint_id split: option.splits)

lemma the_bytes_octet_of: "small v \<Longrightarrow> the_bytes (map_option octet_of v) = slice_bytes v"
  by (auto simp: small_def the_bytes_def octet_of_def cint_id split: option.splits)

text \<open>What a call promises for one of its arguments.\<close>

lemma cfun_ok_length:
  "cfun_ok f \<Longrightarrow> list_all (pred_option oct_wf) os \<Longrightarrow> length (snd (f os)) = length os"
  unfolding cfun_ok_def using list_all2_lengthD by fastforce

lemma cfun_ok_nth:
  assumes "cfun_ok f" "list_all (pred_option oct_wf) os" "i < length os"
  shows "(snd (f os) ! i = None \<longleftrightarrow> os ! i = None)" "pred_option oct_wf (snd (f os) ! i)"
proof -
  have *: "rel_option oct_step (os ! i) (snd (f os) ! i)"
    using assms unfolding cfun_ok_def by (metis list_all2_nthD)
  moreover have "pred_option oct_wf (os ! i)" using assms by (simp add: list_all_length)
  ultimately show "(snd (f os) ! i = None \<longleftrightarrow> os ! i = None)" "pred_option oct_wf (snd (f os) ! i)"
    by (auto simp: rel_option_iff oct_step_def oct_wf_def split: option.splits)
qed

lemma the_bytes_bound: "pred_option oct_wf ov \<Longrightarrow> (case ov of None \<Rightarrow> True | Some c \<Rightarrow> oct_max c \<le> n) \<Longrightarrow>
    0 \<le> n \<Longrightarrow> int (length (the_bytes ov)) \<le> n"
  by (auto simp: the_bytes_def oct_wf_def split: option.splits)

lemma cfun_ok_bytes:
  assumes "cfun_ok f" "list_all (pred_option oct_wf) os" "i < length os" "os ! i = Some c"
  shows "int (length (the_bytes (snd (f os) ! i))) \<le> oct_max c"
proof -
  have *: "rel_option oct_step (os ! i) (snd (f os) ! i)"
    using assms unfolding cfun_ok_def by (metis list_all2_nthD)
  have "oct_wf c" using assms(2,3,4) by (metis list_all_length option.pred_inject(2))
  with * assms(4) show ?thesis
    by (intro the_bytes_bound)
       (auto simp: rel_option_iff oct_step_def oct_wf_def split: option.splits)
qed

lemma c_call_frame:
  assumes "cfun_ok f" "load_all m hs = Some os" "list_all (pred_option oct_wf) os"
  shows "c_call f hs m = Some (fst (f os), store_all hs (snd (f os)) 0 m)"
  using cfun_ok_length [OF assms(1,3)] assms(2) by (simp add: c_call_def case_prod_beta)

lemma Octet_Free_live [cgo]:
  "i < length m \<Longrightarrow> m ! i = Slot ov False \<Longrightarrow> Octet_Free (Some i) m = Some (m[i := Slot ov True])"
  by (simp add: Octet_Free_def cgo)

lemma ClearAndFree_live [cgo]:
  "i < length m \<Longrightarrow> m ! i = Slot ov False \<Longrightarrow>
   ClearAndFree core (Some i) m = Some (m[i := Slot (clear_opt core ov) True])"
  by (simp add: ClearAndFree_def Octet_Clear_def Octet_Free_def cgo)

lemma ToBytes_live [cgo]:
  "i < length m \<Longrightarrow> m ! i = Slot ov False \<Longrightarrow> ToBytes (Some i) m = GoBytes ov"
  by (simp add: ToBytes_def cgo)

lemma wiped_clear_opt: "core_ok core \<Longrightarrow> wiped (clear_opt core ov)"
  by (cases ov) (auto simp: core_ok_def clear_opt_def wiped_def)

lemma codeToError_OK [simp]: "codeToError rc = None \<longleftrightarrow> rc = BLS_OK" "codeToError BLS_OK = None"
  by (simp_all add: codeToError_def amclOk_def BLS_OK_def)

section \<open>Functions that write octets\<close>

text \<open>Writing bytes into an octet with room for them, as the functions of a library do; for the witnesses.\<close>

definition put :: "bytes \<Rightarrow> octet option \<Rightarrow> octet option" where
  "put b ov = map_option (\<lambda>c. if int (length b) \<le> oct_max c \<and> oct_wf c
     then c\<lparr>oct_len := int (length b), oct_val := b @ drop (length b) (oct_val c)\<rparr> else c) ov"

lemma put_step: "pred_option oct_wf ov \<Longrightarrow> rel_option oct_step ov (put b ov)"
  by (cases ov) (auto simp: put_def oct_step_def oct_wf_def)

text \<open>A function that only writes octets keeps the contract, whatever it returns.\<close>

lemma cfun_ok_puts:
  assumes "\<And>os i. i < length os \<Longrightarrow> snd (f os) ! i = os ! i \<or> (\<exists>b. snd (f os) ! i = put b (os ! i))"
    and "\<And>os. length (snd (f os)) = length os"
  shows "cfun_ok f"
  unfolding cfun_ok_def list_all2_conv_all_nth
proof (intro allI impI conjI)
  fix os :: "octet option list" and i
  assume wf: "list_all (pred_option oct_wf) os" and i: "i < length os"
  then have w: "pred_option oct_wf (os ! i)" by (simp add: list_all_length)
  then have "rel_option oct_step (os ! i) (os ! i)" by (cases "os ! i") (simp_all add: oct_step_refl)
  then show "rel_option oct_step (os ! i) (snd (f os) ! i)" using assms(1) [OF i] put_step [OF w] by metis
qed (simp add: assms(2))

lemma cfun_ok_put: "cfun_ok (\<lambda>os. (r os, os[k := put (f os) (os ! k)]))"
  by (rule cfun_ok_puts) (metis nth_list_update_eq nth_list_update_neq snd_conv, simp)

lemma cfun_ok_put2: "cfun_ok (\<lambda>os. (r os, os[k := put (f os) (os ! k), l := put (g os) (os ! l)]))"
  by (rule cfun_ok_puts) (metis length_list_update nth_list_update_eq nth_list_update_neq snd_conv, simp)

lemma cfun_ok_result: "cfun_ok (\<lambda>os. (r os, os))"
  by (rule cfun_ok_puts) auto

lemma the_bytes_put_wf: "oct_wf c \<Longrightarrow> int (length b) \<le> oct_max c \<Longrightarrow> the_bytes (put b (Some c)) = b"
  by (simp add: put_def the_bytes_def)

lemma the_bytes_put: "oct_wf (fresh_octet n) \<Longrightarrow> int (length b) \<le> oct_max (fresh_octet n) \<Longrightarrow>
    the_bytes (put b (Some (fresh_octet n))) = b"
  by (rule the_bytes_put_wf)

section \<open>Memory discipline\<close>

text \<open>\<open>frees mem secrets mem'\<close>: a function that was called with the memory \<open>mem\<close> left the slots of
  its caller alone, freed every block it allocated, and the blocks of the slots \<open>secrets\<close>, counted
  from its first one, held only zero bytes when they were freed.\<close>

definition slot_freed :: "slot \<Rightarrow> bool" where
  "slot_freed s = (case s of Slot ov freed \<Rightarrow> freed)"

definition slot_wiped :: "slot \<Rightarrow> bool" where
  "slot_wiped s = (case s of Slot ov freed \<Rightarrow> wiped ov)"

definition frees :: "cmem \<Rightarrow> nat list \<Rightarrow> cmem \<Rightarrow> bool" where
  "frees mem secrets mem' \<longleftrightarrow> length mem \<le> length mem' \<and> take (length mem) mem' = mem \<and>
     list_all slot_freed (drop (length mem) mem') \<and>
     list_all (\<lambda>i. length mem + i < length mem' \<and> slot_wiped (mem' ! (length mem + i))) secrets"

lemma frees_refl [simp]: "frees mem [] mem"
  by (simp add: frees_def)

lemma frees_append: "frees mem secrets (mem @ fr) \<longleftrightarrow>
    list_all slot_freed fr \<and> list_all (\<lambda>i. i < length fr \<and> slot_wiped (fr ! i)) secrets"
  by (simp add: frees_def)

lemma frees_trans:
  assumes "frees m1 s1 m2" "frees m2 s2 m3"
  shows "frees m1 (s1 @ map (\<lambda>i. length m2 - length m1 + i) s2) m3"
proof -
  obtain f1 where f1: "m2 = m1 @ f1" using assms(1) by (metis append_take_drop_id frees_def)
  obtain f2 where f2: "m3 = m2 @ f2" using assms(2) by (metis append_take_drop_id frees_def)
  show ?thesis using assms unfolding f2 f1
    by (auto simp: frees_append nth_append list_all_iff simp flip: append_assoc)
       (auto simp: frees_append nth_append list_all_iff)
qed

lemma slot_simps [simp]: "slot_freed (Slot ov b) = b" "slot_wiped (Slot ov b) = wiped ov"
  by (simp_all add: slot_freed_def slot_wiped_def)

section \<open>Properties\<close>

text \<open>
  C27. The life of an octet: a slice put into C memory with \<open>CreateOctet\<close> is read back unchanged by
  \<open>ToBytes\<close> (a nil slice makes \<open>ToBytes\<close> panic), \<open>ClearAndFree\<close> leaves zero bytes behind, and
  after \<open>Free\<close> the octet can be neither read nor freed again.
\<close>

theorem octet_life_cycle:
  assumes core: "core_ok core" and small: "small v"
  shows "case CreateOctet v mem of (h, mem1) \<Rightarrow>
    ToBytes h mem1 = v \<and>
    (\<exists>mem2. ClearAndFree core h mem1 = Some mem2 \<and> frees mem [0] mem2) \<and>
    (\<exists>mem2. Octet_Free h mem1 = Some mem2 \<and> frees mem [] mem2 \<and>
       ToBytes h mem2 = None \<and> (v \<noteq> None \<longrightarrow> Octet_Free h mem2 = None))"
proof -
  let ?ov = "map_option octet_of v"
  have "GoBytes ?ov = v"
    using GoBytes_wf [OF _ oct_wf_octet_of [OF small]] the_bytes_octet_of [OF small]
    by (cases v) (simp_all add: cgo)
  moreover have "wiped (clear_opt core ?ov)" by (rule wiped_clear_opt [OF core])
  ultimately show ?thesis
    by (auto simp: CreateOctet_def cgo frees_append ToBytes_def Octet_Free_def slot_at_def load_def
        split: option.splits)
qed

theorem octet_life_cycle_witness:
  "case CreateOctet (Some [1, 2, 3]) [] of (h, mem1) \<Rightarrow>
    ToBytes h mem1 = Some [1, 2, 3] \<and>
    (\<exists>mem2. ClearAndFree idle_core h mem1 = Some mem2 \<and> frees [] [0] mem2) \<and>
    (\<exists>mem2. Octet_Free h mem1 = Some mem2 \<and> frees [] [] mem2 \<and>
       ToBytes h mem2 = None \<and> (Some [1, 2, 3 :: byte] \<noteq> None \<longrightarrow> Octet_Free h mem2 = None))"
  by (rule octet_life_cycle) (simp_all add: idle_core_ok small_def)

text \<open>
  The error codes: \<open>codeToError\<close> reports no error exactly for the code that both library headers
  call success, and the other constants of the Go code are the headers' constants, each with an
  error value of its own.
\<close>

theorem codeToError_headers:
  "(codeToError code = None \<longleftrightarrow> code = BLS_OK) \<and> BLS_OK = MPIN_OK \<and>
   codeToError MPIN_INVALID_POINT = Some ErrInvalidPoint \<and> codeToError MPIN_BAD_PIN = Some ErrInvalidPin \<and>
   codeToError BLS_FAIL = Some ErrBlsFail \<and> codeToError BLS_INVALID_G1 = Some ErrInvalidG1 \<and>
   codeToError BLS_INVALID_G2 = Some ErrInvalidG2 \<and>
   distinct [ErrInvalidPoint, ErrInvalidPin, ErrInvalidTime, ErrBlsFail, ErrInvalidG1, ErrInvalidG2] \<and>
   (code \<notin> {BLS_OK, MPIN_INVALID_POINT, MPIN_BAD_PIN, BLS_FAIL, BLS_INVALID_G1, BLS_INVALID_G2} \<longrightarrow>
      codeToError code = Some (Errorf ''AMCL error code %d''))"
  by (simp add: codeToError_def amcl_const amclOk_def mpinInvalidPoint_def mpinInvalidPin_def blsFail_def
      blsInvalidG1_def blsInvalidG2_def ErrInvalidPoint_def ErrInvalidPin_def ErrInvalidTime_def
      ErrBlsFail_def ErrInvalidG1_def ErrInvalidG2_def)

theorem codeToError_headers_witness:
  "codeToError 7 = Some (Errorf ''AMCL error code %d'')"
  using codeToError_headers [of 7] by (simp add: amcl_const)

end
