(* ===== verification/Blsv2.thy ===== *)
theory Blsv2
  imports Prelude
begin

text \<open>
  \<open>crypto/blsv2.go\<close>: derivation of a BLS secret key from a seed, and the byte conversions that
  carry it to the BLS library. HKDF is a package outside the repository: \<open>hkdf ikm salt n\<close> is what
  reading \<open>n\<close> bytes from \<open>hkdf.New(sha256.New, ikm, salt, nil)\<close> gives, the buffer, the count and
  the error. A result \<open>None\<close> is a panic.
\<close>

type_synonym hkdf_fun = "bytes \<Rightarrow> bytes \<Rightarrow> nat \<Rightarrow> bytes \<times> nat \<times> gerr option"

(* crypto/blsv2.go:32-33 RecommendedSeedLen *)
definition RecommendedSeedLen :: nat where
  "RecommendedSeedLen = 32"

(* crypto/blsv2.go:34 MinSeedBytes *)
definition MinSeedBytes :: nat where
  "MinSeedBytes = 16"

(* crypto/blsv2.go:35 MaxSeedBytes *)
definition MaxSeedBytes :: nat where
  "MaxSeedBytes = 64"

(* crypto/blsv2.go:36 salt *)
definition hkdf_salt :: bytes where
  "hkdf_salt = bytes_of ''BLS-SIG-KEYGEN-SALT-''"

(* crypto/blsv2.go:38-40 hkdf_mod_r_L *)
definition hkdf_mod_r_L :: nat where
  "hkdf_mod_r_L = 48"

(* crypto/blsv2.go:43-44 ErrInvalidSeedLen *)
definition ErrInvalidSeedLen :: gerr where
  "ErrInvalidSeedLen = Errorf ''seed length must be between %d and %d bits''"

(* crypto/blsv2.go:45-46 curveOrder *)
definition curveOrder :: nat where
  "curveOrder = 52435875175126190479447740508185965837690552500527637822603658699938581184513"

(* crypto/blsv2.go:57-71 hkdf_mod_r *)
definition hkdf_mod_r :: "hkdf_fun \<Rightarrow> bytes \<Rightarrow> nat res" where
  "hkdf_mod_r hkdf IKM =
     (case hkdf IKM hkdf_salt hkdf_mod_r_L of (okm, n, err) \<Rightarrow>
        (case err of
           Some e \<Rightarrow> Inl e
         | None \<Rightarrow> if n \<noteq> hkdf_mod_r_L then Inl (Errorf ''hkdf: entropy limit reached'')
                   else Inr (be_nat okm mod curveOrder)))"

(* crypto/blsv2.go:48-55 DeriveMasterSK *)
definition DeriveMasterSK :: "hkdf_fun \<Rightarrow> bytes \<Rightarrow> nat res" where
  "DeriveMasterSK hkdf seed =
     (if length seed < MinSeedBytes then Inl ErrInvalidSeedLen else hkdf_mod_r hkdf seed)"

(* crypto/blsv2.go:73-78 toBytes *)
definition toBytes :: "nat \<Rightarrow> nat \<Rightarrow> bytes option" where
  "toBytes b l =
     (let bs = nat_be b
      in if l < length bs then None else Some (replicate (l - length bs) 0 @ bs))"

(* crypto/blsv2.go:82-85 reverseBytes, the loop *)
primrec reverse_loop :: "nat \<Rightarrow> bytes \<Rightarrow> bytes \<Rightarrow> bytes" where
  "reverse_loop 0 a b = b"
| "reverse_loop (Suc i) a b =
     (let opp = length a - 1 - i
      in reverse_loop i a (b[i := a ! opp, opp := a ! i]))"

(* crypto/blsv2.go:80-87 reverseBytes *)
definition reverseBytes :: "bytes \<Rightarrow> bytes" where
  "reverseBytes a = reverse_loop (length a div 2) a (replicate (length a) 0)"

section \<open>Lemmas\<close>

lemma length_reverse_loop [simp]: "length (reverse_loop i a b) = length b"
  by (induction i arbitrary: b) (simp_all add: Let_def)

lemma nth_reverse_loop:
  "length b = length a \<Longrightarrow> i \<le> length a div 2 \<Longrightarrow> k < length a \<Longrightarrow>
   reverse_loop i a b ! k = (if k < i \<or> length a \<le> k + i then a ! (length a - 1 - k) else b ! k)"
proof (induction i arbitrary: b)
  case (Suc i)
  have ne: "i < length a" "length a - 1 - i < length a" "i \<noteq> length a - 1 - i" using Suc.prems by linarith+
  have "reverse_loop i a (b[i := a ! (length a - 1 - i), length a - 1 - i := a ! i]) ! k =
    (if k < i \<or> length a \<le> k + i then a ! (length a - 1 - k)
     else b[i := a ! (length a - 1 - i), length a - 1 - i := a ! i] ! k)"
    using Suc.prems by (intro Suc.IH) auto
  moreover have "k < Suc i \<longleftrightarrow> k < i \<or> k = i" by auto
  moreover have "length a \<le> k + Suc i \<longleftrightarrow> length a \<le> k + i \<or> k = length a - 1 - i"
    using Suc.prems by auto
  moreover have "length a - 1 - (length a - 1 - i) = i" using ne by simp
  ultimately show ?case
    using ne Suc.prems by (auto simp: Let_def nth_list_update)
qed simp

lemma reverseBytes_nth:
  "k < length a \<Longrightarrow> reverseBytes a ! k =
     (if odd (length a) \<and> k = length a div 2 then 0 else a ! (length a - 1 - k))"
  unfolding reverseBytes_def by (subst nth_reverse_loop) (auto, presburger+)

lemma length_reverseBytes [simp]: "length (reverseBytes a) = length a"
  by (simp add: reverseBytes_def)

lemma reverseBytes_even: "even (length a) \<Longrightarrow> reverseBytes a = rev a"
  by (rule nth_equalityI) (simp_all add: reverseBytes_nth rev_nth)

lemma toBytes_ok: "n < 256 ^ l \<Longrightarrow> \<exists>bs. toBytes n l = Some bs \<and> length bs = l \<and> be_nat bs = n"
  using length_nat_be [of n l] by (auto simp: toBytes_def be_nat_append Let_def)

lemma curveOrder_bound: "n < curveOrder \<Longrightarrow> n < 256 ^ RecommendedSeedLen"
  by (simp add: curveOrder_def RecommendedSeedLen_def)

lemma DeriveMasterSK_bound: "DeriveMasterSK hkdf seed = Inr n \<Longrightarrow> n < curveOrder"
  by (auto simp: DeriveMasterSK_def hkdf_mod_r_def curveOrder_def split: if_splits option.splits prod.splits)

section \<open>Properties\<close>

text \<open>
  \<open>toBytes\<close> returns exactly \<open>length\<close> big-endian bytes that denote the number, and panics exactly
  when the number does not fit.
\<close>

theorem toBytes_spec:
  "(toBytes n l = None \<longleftrightarrow> 256 ^ l \<le> n) \<and>
   pred_option (\<lambda>bs. length bs = l \<and> be_nat bs = n) (toBytes n l)"
proof (cases "n < 256 ^ l")
  case True
  then show ?thesis using toBytes_ok [OF True] by auto
next
  case False
  have "n < 256 ^ length (nat_be n)" using be_nat_less [of "nat_be n"] by simp
  have "l < length (nat_be n)"
  proof (rule ccontr)
    assume "\<not> ?thesis"
    then have "(256::nat) ^ length (nat_be n) \<le> 256 ^ l" by (intro power_increasing) simp_all
    with False \<open>n < 256 ^ length (nat_be n)\<close> show False by linarith
  qed
  with False show ?thesis by (simp add: toBytes_def Let_def)
qed

text \<open>
  \<open>reverseBytes\<close> reverses a slice of even length, the only ones the code gives it; for an odd
  length the middle byte is lost: the result is the reversed slice with a zero in the middle.
\<close>

theorem reverseBytes_spec:
  "reverseBytes a = (if even (length a) then rev a else (rev a)[length a div 2 := 0])"
  by (rule nth_equalityI) (auto simp: reverseBytes_nth rev_nth nth_list_update)

text \<open>
  \<open>DeriveMasterSK\<close> refuses exactly the seeds below 16 bytes with \<open>ErrInvalidSeedLen\<close>; there is no
  upper limit, and every key it returns is below the order of the group and is carried by
  \<open>toBytes\<close> and \<open>reverseBytes\<close> to the 32-byte little-endian string of the key without a panic.
\<close>

theorem DeriveMasterSK_spec:
  assumes hkdf_reads: "\<And>ikm. \<exists>okm. hkdf ikm hkdf_salt hkdf_mod_r_L = (okm, hkdf_mod_r_L, None)"
  shows "(length seed < 16 \<longleftrightarrow> DeriveMasterSK hkdf seed = Inl ErrInvalidSeedLen) \<and>
    (16 \<le> length seed \<longrightarrow> (\<exists>n bs. DeriveMasterSK hkdf seed = Inr n \<and> n < curveOrder \<and>
        n = be_nat (fst (hkdf seed hkdf_salt hkdf_mod_r_L)) mod curveOrder \<and>
        toBytes n RecommendedSeedLen = Some bs \<and> length (reverseBytes bs) = 32 \<and>
        be_nat (rev (reverseBytes bs)) = n))"
proof (cases "length seed < 16")
  case True
  then show ?thesis by (simp add: DeriveMasterSK_def MinSeedBytes_def)
next
  case False
  obtain okm where h: "hkdf seed hkdf_salt hkdf_mod_r_L = (okm, hkdf_mod_r_L, None)"
    using hkdf_reads by blast
  define n where "n = be_nat okm mod curveOrder"
  have d: "DeriveMasterSK hkdf seed = Inr n"
    using False h by (simp add: DeriveMasterSK_def MinSeedBytes_def hkdf_mod_r_def n_def)
  then have "n < curveOrder" by (rule DeriveMasterSK_bound)
  moreover from this obtain bs where "toBytes n RecommendedSeedLen = Some bs" "length bs = 32" "be_nat bs = n"
    using toBytes_ok [OF curveOrder_bound] by (auto simp: RecommendedSeedLen_def)
  moreover from this have "reverseBytes bs = rev bs" by (intro reverseBytes_even) simp
  ultimately show ?thesis using False d h by (auto simp: n_def)
qed

theorem DeriveMasterSK_spec_witness:
  "DeriveMasterSK (\<lambda>ikm s n. (replicate n 255, n, None)) [1, 2, 3] = Inl ErrInvalidSeedLen \<and>
   is_ok (DeriveMasterSK (\<lambda>ikm s n. (replicate n 255, n, None)) (replicate 100 7))"
  using DeriveMasterSK_spec [of "\<lambda>ikm s n. (replicate n 255, n, None)" "[1, 2, 3]"]
    DeriveMasterSK_spec [of "\<lambda>ikm s n. (replicate n 255, n, None)" "replicate 100 7"]
  by auto

end
