(* ===== verification/Bls.thy ===== *)
theory Bls
  imports Wrap Blsv2
begin

text \<open>
  \<open>crypto/bls.go\<close> and \<open>crypto/blswrapper.go\<close>: the Go wrappers of the BLS library and the
  generation of key pairs from a seed. The functions declared in
  \<^verbatim>\<open>crypto/include/bls_BLS381.h\<close> are the fields of \<open>bls_api\<close>; their octet arguments
  are listed in the order of the declaration.

  Each wrapper has one lemma that gives its result and the slots it adds to the memory exactly;
  the properties follow from them: nothing leaks, nothing is used after it is freed, and what is
  declared secret is wiped before its block is freed.
\<close>

section \<open>bls_BLS381.h\<close>

(* crypto/include/bls_BLS381.h:44-89 BLS_BLS381_KEY_PAIR_GENERATE, BLS_BLS381_SIGN, BLS_BLS381_VERIFY, BLS_BLS381_ADD_G1, BLS_BLS381_ADD_G2 *)
record bls_api =
  BLS_KEY_PAIR_GENERATE :: "csprng option \<Rightarrow> (int \<times> csprng option) cfun"
  BLS_SIGN :: "int cfun"
  BLS_VERIFY :: "int cfun"
  BLS_ADD_G1 :: "int cfun"
  BLS_ADD_G2 :: "int cfun"

definition bls_ok :: "bls_api \<Rightarrow> bool" where
  "bls_ok api \<longleftrightarrow> (\<forall>R. cfun_ok (BLS_KEY_PAIR_GENERATE api R)) \<and> cfun_ok (BLS_SIGN api) \<and>
     cfun_ok (BLS_VERIFY api) \<and> cfun_ok (BLS_ADD_G1 api) \<and> cfun_ok (BLS_ADD_G2 api)"

section \<open>bls.go\<close>

(* crypto/bls.go:40-41 G2Len *)
definition G2Len :: int where
  "G2Len = 4 * BFS_BLS381"

(* crypto/bls.go:42-43 SIGLen *)
definition SIGLen :: int where
  "SIGLen = BFS_BLS381 + 1"

(* crypto/bls.go:46-77 BLSKeys *)
definition BLSKeys :: "core_api \<Rightarrow> bls_api \<Rightarrow> Rand \<Rightarrow> slice \<Rightarrow> cmem
    \<Rightarrow> ((bytes \<times> bytes \<times> gerr option) \<times> Rand \<times> cmem) option" where
  "BLSKeys core api rand ski mem = do {
     let (ppk, mem) = NewOctet G2Len mem;
     let (sk, mem) = (if ski = None then NewOctet BGS_BLS381 mem else CreateOctet ski mem);
     (rc, mem) \<leftarrow> (if rand = None then c_call (BLS_KEY_PAIR_GENERATE api None) [sk, ppk] mem
                   else c_call (BLS_KEY_PAIR_GENERATE api rand) [sk, ppk] mem);
     pk \<leftarrow> ToBytes ppk mem;
     sko \<leftarrow> ToBytes sk mem;
     mem \<leftarrow> ClearAndFree core sk mem;
     mem \<leftarrow> Octet_Free ppk mem;
     Some ((pk, sko, codeToError (fst rc)), snd rc, mem)
   }"

(* crypto/bls.go:79-100 BLSSign *)
definition BLSSign :: "core_api \<Rightarrow> bls_api \<Rightarrow> slice \<Rightarrow> slice \<Rightarrow> cmem
    \<Rightarrow> ((bytes \<times> gerr option) \<times> cmem) option" where
  "BLSSign core api m sk mem = do {
     let (mo, mem) = CreateOctet m mem;
     let (sko, mem) = CreateOctet sk mem;
     let (sigo, mem) = NewOctet SIGLen mem;
     (rc, mem) \<leftarrow> c_call (BLS_SIGN api) [sigo, mo, sko] mem;
     s \<leftarrow> ToBytes sigo mem;
     mem \<leftarrow> Octet_Free sigo mem;
     mem \<leftarrow> ClearAndFree core sko mem;
     mem \<leftarrow> ClearAndFree core mo mem;
     Some ((s, codeToError rc), mem)
   }"

(* crypto/bls.go:102-121 BLSVerify *)
definition BLSVerify :: "core_api \<Rightarrow> bls_api \<Rightarrow> slice \<Rightarrow> slice \<Rightarrow> slice \<Rightarrow> cmem
    \<Rightarrow> (gerr option \<times> cmem) option" where
  "BLSVerify core api m pk s mem = do {
     let (mo, mem) = CreateOctet m mem;
     let (pko, mem) = CreateOctet pk mem;
     let (sigo, mem) = CreateOctet s mem;
     (rc, mem) \<leftarrow> c_call (BLS_VERIFY api) [sigo, mo, pko] mem;
     mem \<leftarrow> Octet_Free sigo mem;
     mem \<leftarrow> Octet_Free pko mem;
     mem \<leftarrow> ClearAndFree core mo mem;
     Some (codeToError rc, mem)
   }"

(* crypto/bls.go:123-143 BLSAddG1 *)
definition BLSAddG1 :: "bls_api \<Rightarrow> slice \<Rightarrow> slice \<Rightarrow> cmem \<Rightarrow> ((bytes \<times> gerr option) \<times> cmem) option" where
  "BLSAddG1 api R1 R2 mem = do {
     let (r1, mem) = CreateOctet R1 mem;
     let (r2, mem) = CreateOctet R2 mem;
     let (r, mem) = NewOctet SIGLen mem;
     (rc, mem) \<leftarrow> c_call (BLS_ADD_G1 api) [r1, r2, r] mem;
     b \<leftarrow> ToBytes r mem;
     mem \<leftarrow> Octet_Free r mem;
     mem \<leftarrow> Octet_Free r2 mem;
     mem \<leftarrow> Octet_Free r1 mem;
     Some ((b, codeToError rc), mem)
   }"

(* crypto/bls.go:145-165 BLSAddG2 *)
definition BLSAddG2 :: "bls_api \<Rightarrow> slice \<Rightarrow> slice \<Rightarrow> cmem \<Rightarrow> ((bytes \<times> gerr option) \<times> cmem) option" where
  "BLSAddG2 api R1 R2 mem = do {
     let (r1, mem) = CreateOctet R1 mem;
     let (r2, mem) = CreateOctet R2 mem;
     let (r, mem) = NewOctet G2Len mem;
     (rc, mem) \<leftarrow> c_call (BLS_ADD_G2 api) [r1, r2, r] mem;
     b \<leftarrow> ToBytes r mem;
     mem \<leftarrow> Octet_Free r mem;
     mem \<leftarrow> Octet_Free r2 mem;
     mem \<leftarrow> Octet_Free r1 mem;
     Some ((b, codeToError rc), mem)
   }"

section \<open>blswrapper.go\<close>

(* crypto/blswrapper.go:24-33 GenerateBLSKeys *)
definition GenerateBLSKeys :: "core_api \<Rightarrow> bls_api \<Rightarrow> slice \<Rightarrow> cmem
    \<Rightarrow> ((slice \<times> slice \<times> gerr option) \<times> cmem) option" where
  "GenerateBLSKeys core api seed mem =
     (if seed = None then Some ((None, None, Some (Errorf ''nil seed input'')), mem)
      else do {
        (rand, mem) \<leftarrow> NewRand core seed mem;
        ((pk, sk, err), _, mem) \<leftarrow> BLSKeys core api rand None mem;
        let err = (if err \<noteq> None then Some (Errorf ''failed to generate BLS keys: %v'') else err);
        Some ((Some pk, Some sk, err), mem)
      })"

(* crypto/blswrapper.go:35-52 GenerateBLSKeysV2 *)
definition GenerateBLSKeysV2 :: "hkdf_fun \<Rightarrow> core_api \<Rightarrow> bls_api \<Rightarrow> slice \<Rightarrow> cmem
    \<Rightarrow> ((slice \<times> slice \<times> gerr option) \<times> cmem) option" where
  "GenerateBLSKeysV2 hkdf core api seed mem =
     (case seed of
        None \<Rightarrow> Some ((None, None, Some (Errorf ''nil seed input'')), mem)
      | Some sd \<Rightarrow>
          (case DeriveMasterSK hkdf sd of
             Inl e \<Rightarrow> Some ((None, None, Some (Errorf ''DeriveMasterSK: %v'')), mem)
           | Inr masterKey \<Rightarrow> do {
               bs \<leftarrow> toBytes masterKey RecommendedSeedLen;
               ((pk, sk, err), _, mem) \<leftarrow> BLSKeys core api None (Some (reverseBytes bs)) mem;
               let err = (if err \<noteq> None then Some (Errorf ''failed to generate BLS keys: %v'') else err);
               Some ((Some pk, Some sk, err), mem)
             }))"

section \<open>What each wrapper does\<close>

lemma bls_sizes [simp]:
  "oct_wf (fresh_octet G2Len)" "oct_wf (fresh_octet SIGLen)" "oct_wf (fresh_octet BGS_BLS381)"
  by (intro oct_wf_fresh; simp add: G2Len_def SIGLen_def amcl_const)+

lemma bls_okD:
  assumes "bls_ok api"
  shows "cfun_ok (BLS_KEY_PAIR_GENERATE api R)" "cfun_ok (BLS_SIGN api)" "cfun_ok (BLS_VERIFY api)"
    "cfun_ok (BLS_ADD_G1 api)" "cfun_ok (BLS_ADD_G2 api)"
  using assms by (simp_all add: bls_ok_def)

definition keys_args :: "slice \<Rightarrow> octet option list" where
  "keys_args ski = [if ski = None then Some (fresh_octet BGS_BLS381) else map_option octet_of ski,
     Some (fresh_octet G2Len)]"

lemma BLSKeys_eq:
  assumes ok: "bls_ok api" and small: "small ski"
  shows "BLSKeys core api rand ski mem =
    (case BLS_KEY_PAIR_GENERATE api rand (keys_args ski) of ((rc, rand'), os) \<Rightarrow>
       Some ((the_bytes (os ! 1), the_bytes (os ! 0), codeToError rc), rand',
         mem @ [Slot (os ! 1) True, Slot (clear_opt core (os ! 0)) True]))"
proof -
  let ?f = "BLS_KEY_PAIR_GENERATE api rand" and ?os = "keys_args ski"
  have f: "cfun_ok ?f" by (rule bls_okD [OF ok])
  have wf: "list_all (pred_option oct_wf) ?os"
    using small by (simp add: keys_args_def oct_wf_fresh oct_wf_octet_of)
  note n = cfun_ok_nth [OF f wf]
  have b: "GoBytes (snd (?f ?os) ! 0) = Some (the_bytes (snd (?f ?os) ! 0))"
    "GoBytes (snd (?f ?os) ! Suc 0) = Some (the_bytes (snd (?f ?os) ! Suc 0))"
    using n [of 0] n [of 1] by (auto intro!: GoBytes_wf simp: keys_args_def)
  have r: "(if rand = None then c_call (BLS_KEY_PAIR_GENERATE api None) hs m else c_call ?f hs m) = c_call ?f hs m" for hs m
    by simp
  show ?thesis
    using b wf r by (cases ski)
      (simp_all add: BLSKeys_def CreateOctet_def NewOctet_def c_call_frame [OF f] keys_args_def cgo)
qed

lemma BLSSign_eq:
  assumes ok: "bls_ok api" and small: "small m" "small sk"
  defines "os \<equiv> [Some (fresh_octet SIGLen), map_option octet_of m, map_option octet_of sk]"
  shows "BLSSign core api m sk mem =
    (case BLS_SIGN api os of (rc, os') \<Rightarrow>
       Some ((the_bytes (os' ! 0), codeToError rc),
         mem @ [Slot (clear_opt core (os' ! 1)) True, Slot (clear_opt core (os' ! 2)) True, Slot (os' ! 0) True]))"
proof -
  have f: "cfun_ok (BLS_SIGN api)" by (rule bls_okD [OF ok])
  have wf: "list_all (pred_option oct_wf) os"
    using small by (simp add: os_def oct_wf_fresh oct_wf_octet_of)
  note n = cfun_ok_nth [OF f wf]
  have "GoBytes (snd (BLS_SIGN api os) ! 0) = Some (the_bytes (snd (BLS_SIGN api os) ! 0))"
    using n [of 0] by (simp add: GoBytes_wf os_def)
  then show ?thesis
    by (simp add: BLSSign_def CreateOctet_def NewOctet_def c_call_frame [OF f _ wf] os_def cgo)
qed

lemma BLSVerify_eq:
  assumes ok: "bls_ok api" and small: "small m" "small pk" "small s"
  defines "os \<equiv> [map_option octet_of s, map_option octet_of m, map_option octet_of pk]"
  shows "BLSVerify core api m pk s mem =
    (case BLS_VERIFY api os of (rc, os') \<Rightarrow>
       Some (codeToError rc,
         mem @ [Slot (clear_opt core (os' ! 1)) True, Slot (os' ! 2) True, Slot (os' ! 0) True]))"
proof -
  have f: "cfun_ok (BLS_VERIFY api)" by (rule bls_okD [OF ok])
  have wf: "list_all (pred_option oct_wf) os"
    using small by (simp add: os_def oct_wf_octet_of)
  show ?thesis
    by (simp add: BLSVerify_def CreateOctet_def c_call_frame [OF f _ wf] os_def cgo)
qed

lemma BLSAdd_eq:
  assumes ok: "bls_ok api" and small: "small R1" "small R2"
  defines "os n \<equiv> [map_option octet_of R1, map_option octet_of R2, Some (fresh_octet n)]"
  shows "BLSAddG1 api R1 R2 mem =
    (case BLS_ADD_G1 api (os SIGLen) of (rc, os') \<Rightarrow>
       Some ((the_bytes (os' ! 2), codeToError rc),
         mem @ [Slot (os' ! 0) True, Slot (os' ! 1) True, Slot (os' ! 2) True]))"
    and "BLSAddG2 api R1 R2 mem =
    (case BLS_ADD_G2 api (os G2Len) of (rc, os') \<Rightarrow>
       Some ((the_bytes (os' ! 2), codeToError rc),
         mem @ [Slot (os' ! 0) True, Slot (os' ! 1) True, Slot (os' ! 2) True]))"
proof -
  have f: "cfun_ok (BLS_ADD_G1 api)" "cfun_ok (BLS_ADD_G2 api)" using bls_okD [OF ok] by auto
  have wf: "list_all (pred_option oct_wf) (os SIGLen)" "list_all (pred_option oct_wf) (os G2Len)"
    using small by (simp_all add: os_def oct_wf_fresh oct_wf_octet_of)
  have "GoBytes (snd (BLS_ADD_G1 api (os SIGLen)) ! 2) = Some (the_bytes (snd (BLS_ADD_G1 api (os SIGLen)) ! 2))"
    using cfun_ok_nth [OF f(1) wf(1), of 2] by (simp add: GoBytes_wf os_def)
  then show "BLSAddG1 api R1 R2 mem =
    (case BLS_ADD_G1 api (os SIGLen) of (rc, os') \<Rightarrow>
       Some ((the_bytes (os' ! 2), codeToError rc),
         mem @ [Slot (os' ! 0) True, Slot (os' ! 1) True, Slot (os' ! 2) True]))"
    by (simp add: BLSAddG1_def CreateOctet_def NewOctet_def c_call_frame [OF f(1) _ wf(1)] os_def cgo)
  have "GoBytes (snd (BLS_ADD_G2 api (os G2Len)) ! 2) = Some (the_bytes (snd (BLS_ADD_G2 api (os G2Len)) ! 2))"
    using cfun_ok_nth [OF f(2) wf(2), of 2] by (simp add: GoBytes_wf os_def)
  then show "BLSAddG2 api R1 R2 mem =
    (case BLS_ADD_G2 api (os G2Len) of (rc, os') \<Rightarrow>
       Some ((the_bytes (os' ! 2), codeToError rc),
         mem @ [Slot (os' ! 0) True, Slot (os' ! 1) True, Slot (os' ! 2) True]))"
    by (simp add: BLSAddG2_def CreateOctet_def NewOctet_def c_call_frame [OF f(2) _ wf(2)] os_def cgo)
qed

lemma NewRand_eq:
  assumes core: "core_ok core" and small: "small seed" and seed: "seed \<noteq> None"
  defines "os \<equiv> [map_option octet_of seed]"
  shows "NewRand core seed mem =
    (case CREATE_CSPRNG core csprng_zero os of (R, os') \<Rightarrow>
       Some (Some R, mem @ [Slot (clear_opt core (os' ! 0)) True]))"
proof -
  have f: "cfun_ok (CREATE_CSPRNG core csprng_zero)" using core by (simp add: core_ok_def)
  have wf: "list_all (pred_option oct_wf) os"
    using small by (simp add: os_def oct_wf_octet_of)
  show ?thesis using seed
    by (auto simp add: NewRand_def CreateOctet_def c_call_frame [OF f _ wf] os_def cgo)
qed

section \<open>Properties\<close>

definition idle_bls :: bls_api where
  "idle_bls = \<lparr>BLS_KEY_PAIR_GENERATE = (\<lambda>R os. ((0, R), os)), BLS_SIGN = (\<lambda>os. (0, os)),
     BLS_VERIFY = (\<lambda>os. (BLS_FAIL, os)), BLS_ADD_G1 = (\<lambda>os. (0, os)), BLS_ADD_G2 = (\<lambda>os. (0, os))\<rparr>"

lemma idle_bls_ok: "bls_ok idle_bls"
  by (simp add: bls_ok_def idle_bls_def)

lemma frees_BLSKeys:
  "core_ok core \<Longrightarrow> frees mem [1] (mem @ [Slot ov True, Slot (clear_opt core ow) True])"
  by (simp add: frees_append wiped_clear_opt)

text \<open>
  Signing and verifying: for every message, key and signature, nil ones included, the wrappers
  call the library once on octets that hold the slices, return its signature bytes and the error of
  its return code (no error exactly for the library's success code), never touch freed memory,
  free every block they allocate, and the blocks of the message and of the secret key are zero when
  they are freed.
\<close>

theorem BLSSign_BLSVerify_spec:
  assumes "core_ok core" "bls_ok api" "small m" "small sk" "small pk" "small sg"
  shows "(case BLS_SIGN api [Some (fresh_octet SIGLen), map_option octet_of m, map_option octet_of sk] of (rc, os) \<Rightarrow>
      \<exists>mem'. BLSSign core api m sk mem = Some ((the_bytes (os ! 0), codeToError rc), mem') \<and> frees mem [0, 1] mem') \<and>
    (case BLS_VERIFY api [map_option octet_of sg, map_option octet_of m, map_option octet_of pk] of (rc, os) \<Rightarrow>
      \<exists>mem'. BLSVerify core api m pk sg mem = Some (codeToError rc, mem') \<and> frees mem [0] mem' \<and>
        (codeToError rc = None \<longleftrightarrow> rc = BLS_OK))"
  using assms
  by (auto simp: BLSSign_eq BLSVerify_eq frees_append wiped_clear_opt split: prod.splits)

theorem BLSSign_BLSVerify_spec_witness:
  "BLSVerify idle_core idle_bls (Some [1]) (Some [2]) None [] \<noteq> None"
  using BLSSign_BLSVerify_spec [OF idle_core_ok idle_bls_ok, of "Some [1]" None "Some [2]" None "[]"]
  by (auto simp: small_def idle_bls_def)

text \<open>
  Adding two points of a group: the result is the library's, every block is freed, nothing is
  used after it is freed.
\<close>

theorem BLSAdd_spec:
  assumes "bls_ok api" "small R1" "small R2"
  shows "(case BLS_ADD_G1 api [map_option octet_of R1, map_option octet_of R2, Some (fresh_octet SIGLen)] of (rc, os) \<Rightarrow>
      \<exists>mem'. BLSAddG1 api R1 R2 mem = Some ((the_bytes (os ! 2), codeToError rc), mem') \<and> frees mem [] mem') \<and>
    (case BLS_ADD_G2 api [map_option octet_of R1, map_option octet_of R2, Some (fresh_octet G2Len)] of (rc, os) \<Rightarrow>
      \<exists>mem'. BLSAddG2 api R1 R2 mem = Some ((the_bytes (os ! 2), codeToError rc), mem') \<and> frees mem [] mem')"
  using assms by (auto simp: BLSAdd_eq frees_append split: prod.splits)

theorem BLSAdd_spec_witness:
  "BLSAddG1 idle_bls (Some [1]) None [] \<noteq> None"
  using BLSAdd_spec [OF idle_bls_ok, of "Some [1]" None "[]"] by (auto simp: small_def idle_bls_def)

text \<open>
  Key generation, version 2: for every seed of at least 16 bytes the library is asked once, with no
  generator, for the public key of the little-endian form of the derived key; the call never
  panics, it frees every block and wipes the block of the secret key. A nil seed and a shorter one
  are refused before any C memory is allocated.
\<close>

theorem GenerateBLSKeysV2_spec:
  assumes core: "core_ok core" and api: "bls_ok api"
    and hkdf_reads: "\<And>ikm. \<exists>okm. hkdf ikm hkdf_salt hkdf_mod_r_L = (okm, hkdf_mod_r_L, None)"
  shows "GenerateBLSKeysV2 hkdf core api None mem = Some ((None, None, Some (Errorf ''nil seed input'')), mem) \<and>
    (length sd < 16 \<longrightarrow>
      GenerateBLSKeysV2 hkdf core api (Some sd) mem = Some ((None, None, Some (Errorf ''DeriveMasterSK: %v'')), mem)) \<and>
    (16 \<le> length sd \<longrightarrow> (\<exists>key rc rand os mem'.
       length key = 32 \<and> be_nat (rev key) = be_nat (fst (hkdf sd hkdf_salt hkdf_mod_r_L)) mod curveOrder \<and>
       BLS_KEY_PAIR_GENERATE api None [Some (octet_of key), Some (fresh_octet G2Len)] = ((rc, rand), os) \<and>
       GenerateBLSKeysV2 hkdf core api (Some sd) mem =
         Some ((Some (the_bytes (os ! 1)), Some (the_bytes (os ! 0)),
            if rc = BLS_OK then None else Some (Errorf ''failed to generate BLS keys: %v'')), mem') \<and>
       frees mem [1] mem'))"
proof (cases "length sd < 16")
  case True
  then show ?thesis by (simp add: GenerateBLSKeysV2_def DeriveMasterSK_def MinSeedBytes_def)
next
  case False
  obtain okm where h: "hkdf sd hkdf_salt hkdf_mod_r_L = (okm, hkdf_mod_r_L, None)"
    using hkdf_reads by blast
  define n where "n = be_nat okm mod curveOrder"
  have d: "DeriveMasterSK hkdf sd = Inr n"
    using False h by (simp add: DeriveMasterSK_def MinSeedBytes_def hkdf_mod_r_def n_def)
  obtain bs where bs: "toBytes n RecommendedSeedLen = Some bs" "length bs = 32" "be_nat bs = n"
    using toBytes_ok [OF curveOrder_bound [OF DeriveMasterSK_bound [OF d]]]
    by (auto simp: RecommendedSeedLen_def)
  define key where "key = reverseBytes bs"
  have key: "length key = 32" "be_nat (rev key) = n"
    using bs by (simp_all add: key_def reverseBytes_even)
  obtain rc rand os where call:
    "BLS_KEY_PAIR_GENERATE api None [Some (octet_of key), Some (fresh_octet G2Len)] = ((rc, rand), os)"
    by (metis prod.exhaust)
  have "small (Some key)" using key by (simp add: small_def)
  from BLSKeys_eq [OF api this, of core None mem] call
  have k: "BLSKeys core api None (Some key) mem = Some ((the_bytes (os ! 1), the_bytes (os ! 0), codeToError rc), rand,
      mem @ [Slot (os ! 1) True, Slot (clear_opt core (os ! 0)) True])"
    by (simp add: keys_args_def)
  from k have "GenerateBLSKeysV2 hkdf core api (Some sd) mem =
      Some ((Some (the_bytes (os ! 1)), Some (the_bytes (os ! 0)),
            if rc = BLS_OK then None else Some (Errorf ''failed to generate BLS keys: %v'')),
        mem @ [Slot (os ! 1) True, Slot (clear_opt core (os ! 0)) True])"
    using d bs(1) by (simp add: GenerateBLSKeysV2_def key_def [symmetric])
  with False key call frees_BLSKeys [OF core] show ?thesis
    by (auto simp: h n_def GenerateBLSKeysV2_def)
qed

theorem GenerateBLSKeysV2_spec_witness:
  "\<exists>pk sk err mem'. GenerateBLSKeysV2 (\<lambda>ikm s n. (replicate n 255, n, None)) idle_core idle_bls (Some (replicate 16 1)) [] =
     Some ((pk, sk, err), mem') \<and> frees [] [1] mem'"
  using GenerateBLSKeysV2_spec [OF idle_core_ok idle_bls_ok, of "\<lambda>ikm s n. (replicate n 255, n, None)" "[]" "replicate 16 1"]
  by auto

text \<open>
  Key generation from a generator seeded with the seed: the seed's block and the secret key's
  block are wiped and every block is freed; the keys are those the library writes.
\<close>

theorem GenerateBLSKeys_spec:
  assumes core: "core_ok core" and api: "bls_ok api" and small: "small seed"
  shows "(case seed of
      None \<Rightarrow> GenerateBLSKeys core api seed mem = Some ((None, None, Some (Errorf ''nil seed input'')), mem)
    | Some sd \<Rightarrow> (\<exists>R os1 rc rand os mem'.
        CREATE_CSPRNG core csprng_zero [Some (octet_of sd)] = (R, os1) \<and>
        BLS_KEY_PAIR_GENERATE api (Some R) [Some (fresh_octet BGS_BLS381), Some (fresh_octet G2Len)] = ((rc, rand), os) \<and>
        GenerateBLSKeys core api seed mem =
          Some ((Some (the_bytes (os ! 1)), Some (the_bytes (os ! 0)),
             if rc = BLS_OK then None else Some (Errorf ''failed to generate BLS keys: %v'')), mem') \<and>
        frees mem [0, 2] mem'))"
proof (cases seed)
  case None
  then show ?thesis by (simp add: GenerateBLSKeys_def)
next
  case (Some sd)
  obtain R os1 where c: "CREATE_CSPRNG core csprng_zero [Some (octet_of sd)] = (R, os1)"
    by (metis prod.exhaust)
  obtain rc rand os where call:
    "BLS_KEY_PAIR_GENERATE api (Some R) [Some (fresh_octet BGS_BLS381), Some (fresh_octet G2Len)] = ((rc, rand), os)"
    by (metis prod.exhaust)
  let ?m1 = "mem @ [Slot (clear_opt core (os1 ! 0)) True]"
  have r: "NewRand core seed mem = Some (Some R, ?m1)"
    using NewRand_eq [OF core small] c Some by simp
  have k: "BLSKeys core api (Some R) None ?m1 = Some ((the_bytes (os ! 1), the_bytes (os ! 0), codeToError rc), rand,
      ?m1 @ [Slot (os ! 1) True, Slot (clear_opt core (os ! 0)) True])"
    using BLSKeys_eq [OF api, of None core "Some R" ?m1] call by (simp add: keys_args_def small_def)
  from r k have "GenerateBLSKeys core api seed mem =
      Some ((Some (the_bytes (os ! 1)), Some (the_bytes (os ! 0)),
             if rc = BLS_OK then None else Some (Errorf ''failed to generate BLS keys: %v'')),
        ?m1 @ [Slot (os ! 1) True, Slot (clear_opt core (os ! 0)) True])"
    using Some by (simp add: GenerateBLSKeys_def)
  then show ?thesis using Some c call
    by (auto simp: frees_append wiped_clear_opt [OF core] numeral_2_eq_2)
qed

theorem GenerateBLSKeys_spec_witness:
  "\<exists>r mem'. GenerateBLSKeys idle_core idle_bls (Some []) [] = Some (r, mem') \<and> frees [] [0, 2] mem'"
  using GenerateBLSKeys_spec [OF idle_core_ok idle_bls_ok, of "Some []" "[]"] by (auto simp: small_def)

end
