(* ===== verification/Secp256k1.thy ===== *)
theory Secp256k1
  imports Bls
begin

text \<open>
  \<open>crypto/secp256k1.go\<close>: ECIES encryption and decryption of strings over the curve SECP256K1, with
  keys and results in hexadecimal. The functions of
  \<^verbatim>\<open>crypto/include/ecdh_SECP256K1.h\<close> are the fields of \<open>ecies_api\<close>: the key derivation
  and encoding parameters come first, the octets \<open>W, M, V, C, T\<close> or \<open>V, C, T, U, M\<close> follow in the
  order of the declaration.
\<close>

(* crypto/include/ecdh_SECP256K1.h:85-118 ECP_SECP256K1_ECIES_ENCRYPT, ECP_SECP256K1_ECIES_DECRYPT *)
record ecies_api =
  ECIES_ENCRYPT :: "int \<Rightarrow> octet \<Rightarrow> octet \<Rightarrow> csprng option \<Rightarrow> int \<Rightarrow> csprng option cfun"
  ECIES_DECRYPT :: "int \<Rightarrow> octet \<Rightarrow> octet \<Rightarrow> int cfun"

definition ecies_ok :: "ecies_api \<Rightarrow> bool" where
  "ecies_ok api \<longleftrightarrow> (\<forall>h p1 p2 R n. cfun_ok (ECIES_ENCRYPT api h p1 p2 R n)) \<and>
     (\<forall>h p1 p2. cfun_ok (ECIES_DECRYPT api h p1 p2))"

section \<open>Constants\<close>

(* crypto/secp256k1.go:38-43 EPSSECP256K1 *)
definition EPSSECP256K1 :: int where
  "EPSSECP256K1 = 2 * EFS_SECP256K1 + 1"

(* crypto/secp256k1.go:44 secpHashFunc *)
definition secpHashFunc :: int where
  "secpHashFunc = HASH_TYPE_SECP256K1"

(* crypto/secp256k1.go:45-46 secpAESKeySize *)
definition secpAESKeySize :: int where
  "secpAESKeySize = int AESKEY_SECP256K1"

(* crypto/secp256k1.go:48-49 paramP1 *)
definition paramP1 :: octet where
  "paramP1 = octet_of [0, 1, 2]"

(* crypto/secp256k1.go:50-51 paramP2 *)
definition paramP2 :: octet where
  "paramP2 = octet_of [0, 1, 2, 3]"

section \<open>Operations\<close>

text \<open>The state of a \<open>hexBatchDecoder\<close> is its first error.\<close>

(* crypto/secp256k1.go:115-118 hexBatchDecoder *)
type_synonym hexBatchDecoder = "gerr option"

(* crypto/secp256k1.go:120-132 hexBatchDecoder.decodeOctet *)
definition decodeOctet :: "hexBatchDecoder \<Rightarrow> string \<Rightarrow> cmem \<Rightarrow> handle \<times> hexBatchDecoder \<times> cmem" where
  "decodeOctet d s mem =
     (if d \<noteq> None then (let (h, mem) = CreateOctet None mem in (h, d, mem))
      else (case hex_decode s of
              Inl err \<Rightarrow> (let (h, mem) = CreateOctet None mem in (h, Some err, mem))
            | Inr b \<Rightarrow> (let (h, mem) = CreateOctet (Some b) mem in (h, d, mem))))"

text \<open>\<open>read_seed\<close> is what \<open>rand.Read\<close> of \<open>crypto/rand\<close> gives for the 32-byte seed.\<close>

(* crypto/secp256k1.go:53-84 Secp256k1Encrypt *)
definition Secp256k1Encrypt :: "bytes res \<Rightarrow> core_api \<Rightarrow> ecies_api \<Rightarrow> string \<Rightarrow> string \<Rightarrow> cmem
    \<Rightarrow> ((string \<times> string \<times> string \<times> gerr option) \<times> cmem) option" where
  "Secp256k1Encrypt read_seed core api message publicKey mem = do {
     let (wOctet, dec, mem) = decodeOctet None publicKey mem;
     if dec \<noteq> None then do {
       mem \<leftarrow> Octet_Free wOctet mem;
       Some ((''''  , '''', '''', dec), mem)
     } else (case read_seed of
       Inl err \<Rightarrow> do {
         mem \<leftarrow> Octet_Free wOctet mem;
         Some (('''', '''', '''', Some err), mem)
       }
     | Inr seed \<Rightarrow> do {
         (rng, mem) \<leftarrow> NewRand core (Some seed) mem;
         let (mOctet, mem) = CreateOctet (Some (bytes_of message)) mem;
         let (vPtr, mem) = NewOctet EPSSECP256K1 mem;
         let (hmacPtr, mem) = NewOctet secpHashFunc mem;
         let l = int (length message);
         let (cypherPtr, mem) = NewOctet (l + secpAESKeySize - l mod secpAESKeySize) mem;
         (rng, mem) \<leftarrow> c_call (ECIES_ENCRYPT api secpHashFunc paramP1 paramP2 rng 12)
                         [wOctet, mOctet, vPtr, cypherPtr, hmacPtr] mem;
         c \<leftarrow> ToBytes cypherPtr mem;
         v \<leftarrow> ToBytes vPtr mem;
         t \<leftarrow> ToBytes hmacPtr mem;
         mem \<leftarrow> Octet_Free cypherPtr mem;
         mem \<leftarrow> Octet_Free hmacPtr mem;
         mem \<leftarrow> Octet_Free vPtr mem;
         mem \<leftarrow> ClearAndFree core mOctet mem;
         mem \<leftarrow> Octet_Free wOctet mem;
         Some ((hex_encode c, hex_encode v, hex_encode t, None), mem)
       })
   }"

(* crypto/secp256k1.go:86-113 Secp256k1Decrypt *)
definition Secp256k1Decrypt :: "core_api \<Rightarrow> ecies_api \<Rightarrow> string \<Rightarrow> string \<Rightarrow> string \<Rightarrow> string \<Rightarrow> cmem
    \<Rightarrow> ((string \<times> gerr option) \<times> cmem) option" where
  "Secp256k1Decrypt core api C V T sK mem = do {
     let (cOct, dec, mem) = decodeOctet None C mem;
     let (vOct, dec, mem) = decodeOctet dec V mem;
     let (tOct, dec, mem) = decodeOctet dec T mem;
     let (uOct, dec, mem) = decodeOctet dec sK mem;
     (r, mem) \<leftarrow> (if dec \<noteq> None then Some (('''', dec), mem) else do {
       let l = int (length C);
       let (mOct, mem) = NewOctet (l + 16 - l mod 16) mem;
       (rc, mem) \<leftarrow> c_call (ECIES_DECRYPT api secpHashFunc paramP1 paramP2) [vOct, cOct, tOct, uOct, mOct] mem;
       r \<leftarrow> (if rc \<noteq> 1 then Some ('''', Some (Errorf ''Cannot decrypt cipherText''))
            else do { b \<leftarrow> ToBytes mOct mem; Some (string_of b, None) });
       mem \<leftarrow> ClearAndFree core mOct mem;
       Some (r, mem)
     });
     mem \<leftarrow> Octet_Free uOct mem;
     mem \<leftarrow> Octet_Free tOct mem;
     mem \<leftarrow> Octet_Free vOct mem;
     mem \<leftarrow> Octet_Free cOct mem;
     Some (r, mem)
   }"

section \<open>What each operation does\<close>

text \<open>The slice and the error that a \<open>decodeOctet\<close> leaves.\<close>

definition dec_val :: "gerr option \<Rightarrow> string \<Rightarrow> slice" where
  "dec_val d s = (if d \<noteq> None then None else case hex_decode s of Inl _ \<Rightarrow> None | Inr b \<Rightarrow> Some b)"

definition dec_err :: "gerr option \<Rightarrow> string \<Rightarrow> gerr option" where
  "dec_err d s = (if d \<noteq> None then d else case hex_decode s of Inl e \<Rightarrow> Some e | Inr _ \<Rightarrow> None)"

lemma decodeOctet_eq:
  "decodeOctet d s mem = (Some (length mem), dec_err d s, mem @ [Slot (map_option octet_of (dec_val d s)) False])"
  by (auto simp: decodeOctet_def dec_val_def dec_err_def CreateOctet_def split: sum.splits)

lemma dec_ok: "dec_err d s = None \<Longrightarrow> d = None \<and> hex_decode s = Inr (slice_bytes (dec_val d s)) \<and> dec_val d s \<noteq> None"
  by (auto simp: dec_err_def dec_val_def split: if_splits sum.splits)

lemma dec_Inr: "hex_decode s = Inr b \<Longrightarrow> dec_err None s = None \<and> dec_val None s = Some b"
  by (simp add: dec_err_def dec_val_def)

lemma dec_Inl: "hex_decode s = Inl e \<Longrightarrow> dec_err None s = Some e"
  by (simp add: dec_err_def)

lemma secp_sizes:
  "secpAESKeySize = 16" "secpHashFunc = 32" "EPSSECP256K1 = 65"
  by (simp_all add: secpAESKeySize_def secpHashFunc_def EPSSECP256K1_def amcl_const)

lemma fits_fresh: "int n < 2 ^ 31 - 16 \<Longrightarrow> oct_wf (fresh_octet (int n + 16 - int n mod 16))"
proof -
  assume n: "int n < 2 ^ 31 - 16"
  have "int n mod 16 < 16" "0 \<le> int n mod 16" by simp_all
  with n have "0 \<le> int n + 16 - int n mod 16" "int n + 16 - int n mod 16 < 2 ^ 31" by linarith+
  then show ?thesis by (rule oct_wf_fresh)
qed

definition pad16 :: "nat \<Rightarrow> int" where
  "pad16 n = int n + 16 - int n mod 16"

definition encrypt_args :: "bytes \<Rightarrow> bytes \<Rightarrow> octet option list" where
  "encrypt_args w b = [Some (octet_of w), Some (octet_of b), Some (fresh_octet 65),
     Some (fresh_octet (pad16 (length b))), Some (fresh_octet 32)]"

lemma Secp256k1Encrypt_eq:
  assumes core: "core_ok core" and api: "ecies_ok api" and seed: "small (Some seed)"
    and w: "hex_decode pk = Inr w" "small (Some w)" and msg: "int (length msg) < 2 ^ 31 - 16"
  shows "Secp256k1Encrypt (Inr seed) core api msg pk mem =
    (case CREATE_CSPRNG core csprng_zero [Some (octet_of seed)] of (R, os1) \<Rightarrow>
     case ECIES_ENCRYPT api 32 paramP1 paramP2 (Some R) 12 (encrypt_args w (bytes_of msg)) of (R', os) \<Rightarrow>
       Some ((hex_encode (the_bytes (os ! 3)), hex_encode (the_bytes (os ! 2)), hex_encode (the_bytes (os ! 4)), None),
         mem @ [Slot (os ! 0) True, Slot (clear_opt core (os1 ! 0)) True, Slot (clear_opt core (os ! 1)) True,
           Slot (os ! 2) True, Slot (os ! 4) True, Slot (os ! 3) True]))"
proof -
  obtain R os1 where c: "CREATE_CSPRNG core csprng_zero [Some (octet_of seed)] = (R, os1)"
    by (metis prod.exhaust)
  let ?f = "ECIES_ENCRYPT api 32 paramP1 paramP2 (Some R) 12" and ?os = "encrypt_args w (bytes_of msg)"
  have f: "cfun_ok ?f" using api by (simp add: ecies_ok_def)
  have "oct_wf (octet_of w)" "oct_wf (octet_of (bytes_of msg))"
    using oct_wf_octet_of [OF w(2)] oct_wf_octet_of [of "Some (bytes_of msg)"] msg by (simp_all add: small_def)
  moreover have "oct_wf (fresh_octet 65)" "oct_wf (fresh_octet 32)" by (intro oct_wf_fresh; simp)+
  ultimately have wf: "list_all (pred_option oct_wf) ?os"
    using fits_fresh [OF msg] by (simp add: encrypt_args_def pad16_def)
  note n = cfun_ok_nth [OF f wf]
  have b: "GoBytes (snd (?f ?os) ! i) = Some (the_bytes (snd (?f ?os) ! i))" if "i \<in> {2, 3, 4}" for i
    using n [of i] that by (intro GoBytes_wf) (auto simp: encrypt_args_def)
  have rnd: "NewRand core (Some seed) m = Some (Some R, m @ [Slot (clear_opt core (os1 ! 0)) True])" for m
    using NewRand_eq [OF core seed] c by simp
  show ?thesis
    using b [of 2] b [of 3] b [of 4] wf w(1)
    by (simp add: Secp256k1Encrypt_def decodeOctet_eq dec_Inr CreateOctet_def NewOctet_def rnd c
        secp_sizes c_call_frame [OF f] encrypt_args_def pad16_def cgo)
qed

definition decrypt_args :: "bytes \<Rightarrow> bytes \<Rightarrow> bytes \<Rightarrow> bytes \<Rightarrow> octet option list" where
  "decrypt_args c v t u = [Some (octet_of v), Some (octet_of c), Some (octet_of t), Some (octet_of u),
     Some (fresh_octet (pad16 (2 * length c)))]"

lemma Secp256k1Decrypt_eq:
  assumes core: "core_ok core" and api: "ecies_ok api"
    and hex: "hex_decode C = Inr c" "hex_decode V = Inr v" "hex_decode T = Inr t" "hex_decode sK = Inr u"
    and small: "int (length C) < 2 ^ 31 - 16" "small (Some v)" "small (Some t)" "small (Some u)"
  shows "Secp256k1Decrypt core api C V T sK mem =
    (case ECIES_DECRYPT api 32 paramP1 paramP2 (decrypt_args c v t u) of (rc, os) \<Rightarrow>
       Some (if rc = 1 then (string_of (the_bytes (os ! 4)), None)
             else ('''', Some (Errorf ''Cannot decrypt cipherText'')),
         mem @ [Slot (os ! 1) True, Slot (os ! 0) True, Slot (os ! 2) True, Slot (os ! 3) True,
           Slot (clear_opt core (os ! 4)) True]))"
proof -
  let ?f = "ECIES_DECRYPT api 32 paramP1 paramP2" and ?os = "decrypt_args c v t u"
  have f: "cfun_ok ?f" using api by (simp add: ecies_ok_def)
  have l: "length C = 2 * length c" by (rule hex_decode_length [OF hex(1)])
  have "small (Some c)" using small(1) l by (simp add: small_def)
  then have "oct_wf (octet_of c)" "oct_wf (octet_of v)" "oct_wf (octet_of t)" "oct_wf (octet_of u)"
    using oct_wf_octet_of [of "Some c"] oct_wf_octet_of [OF small(2)] oct_wf_octet_of [OF small(3)]
      oct_wf_octet_of [OF small(4)] by simp_all
  then have wf: "list_all (pred_option oct_wf) ?os"
    using fits_fresh [OF small(1)] l by (simp add: decrypt_args_def pad16_def)
  have b: "GoBytes (snd (?f ?os) ! 4) = Some (the_bytes (snd (?f ?os) ! 4))"
    using cfun_ok_nth [OF f wf, of 4] by (intro GoBytes_wf) (auto simp: decrypt_args_def)
  show ?thesis
    using b wf hex
    by (simp add: Secp256k1Decrypt_def decodeOctet_eq dec_Inr NewOctet_def l
        secp_sizes c_call_frame [OF f] decrypt_args_def pad16_def cgo)
qed


lemma Secp256k1Encrypt_errors:
  "dec_err None pk = Some e \<Longrightarrow>
     Secp256k1Encrypt rd core api msg pk mem = Some (('''', '''', '''', Some e), mem @ [Slot None True])"
  "hex_decode pk = Inr w \<Longrightarrow> rd = Inl e \<Longrightarrow>
     Secp256k1Encrypt rd core api msg pk mem = Some (('''', '''', '''', Some e), mem @ [Slot (Some (octet_of w)) True])"
  by (auto simp: Secp256k1Encrypt_def decodeOctet_eq dec_Inr cgo dec_val_def dec_err_def split: sum.splits)

text \<open>The first hexadecimal error of the four arguments of \<open>Secp256k1Decrypt\<close>.\<close>

definition hex_errors :: "string list \<Rightarrow> gerr option" where
  "hex_errors ss = fold (\<lambda>s d. dec_err d s) ss None"

lemma Secp256k1Decrypt_error:
  assumes "hex_errors [C, V, T, sK] = Some e"
  shows "\<exists>mem'. Secp256k1Decrypt core api C V T sK mem = Some (('''', Some e), mem') \<and> frees mem [] mem'"
  using assms
  by (simp add: Secp256k1Decrypt_def decodeOctet_eq hex_errors_def cgo frees_append)

lemma hex_errors_None:
  "hex_errors [C, V, T, sK] = None \<longleftrightarrow> (\<exists>c v t u. hex_decode C = Inr c \<and> hex_decode V = Inr v \<and>
     hex_decode T = Inr t \<and> hex_decode sK = Inr u)"
  by (auto simp: hex_errors_def dec_err_def split: sum.splits)

lemma small_hex: "hex_decode s = Inr b \<Longrightarrow> int (length s) < 2 ^ 31 - 16 \<Longrightarrow> small (Some b)"
  using hex_decode_length [of s b] by (simp add: small_def)

section \<open>Properties\<close>

definition idle_ecies :: ecies_api where
  "idle_ecies = \<lparr>ECIES_ENCRYPT = (\<lambda>h p1 p2 R n os. (R, os)), ECIES_DECRYPT = (\<lambda>h p1 p2 os. (1, os))\<rparr>"

lemma idle_ecies_ok: "ecies_ok idle_ecies"
  by (simp add: ecies_ok_def idle_ecies_def)

text \<open>
  \<open>Secp256k1Encrypt\<close> on every branch: a public key that is not hexadecimal gives the decoder's
  error, a failing system generator its own, and otherwise the three parts of the ciphertext are the
  library's octets in hexadecimal. Every block is freed; the seed's and the message's are wiped.
\<close>

theorem Secp256k1Encrypt_spec:
  assumes core: "core_ok core" and api: "ecies_ok api" and len: "pred_sum (\<lambda>_. True) (\<lambda>b. length b = 32) rd"
    and size: "int (length pk) < 2 ^ 31 - 16" "int (length msg) < 2 ^ 31 - 16"
  shows "case hex_decode pk of
      Inl e \<Rightarrow> \<exists>mem'. Secp256k1Encrypt rd core api msg pk mem = Some (('''', '''', '''', Some e), mem') \<and> frees mem [] mem'
    | Inr w \<Rightarrow> (case rd of
        Inl e \<Rightarrow> \<exists>mem'. Secp256k1Encrypt rd core api msg pk mem = Some (('''', '''', '''', Some e), mem') \<and> frees mem [] mem'
      | Inr seed \<Rightarrow> \<exists>R os1 R' os mem'.
          CREATE_CSPRNG core csprng_zero [Some (octet_of seed)] = (R, os1) \<and>
          ECIES_ENCRYPT api 32 paramP1 paramP2 (Some R) 12 (encrypt_args w (bytes_of msg)) = (R', os) \<and>
          Secp256k1Encrypt rd core api msg pk mem =
            Some ((hex_encode (the_bytes (os ! 3)), hex_encode (the_bytes (os ! 2)), hex_encode (the_bytes (os ! 4)), None), mem') \<and>
          frees mem [1, 2] mem')"
proof (cases "hex_decode pk")
  case (Inl e)
  then show ?thesis using Secp256k1Encrypt_errors(1) [OF dec_Inl [OF Inl]] by (simp add: frees_append)
next
  case w: (Inr w)
  show ?thesis
  proof (cases rd)
    case (Inl e)
    then show ?thesis using w Secp256k1Encrypt_errors(2) [OF w Inl] by (simp add: frees_append)
  next
    case rd: (Inr seed)
    then have "small (Some seed)" using len by (simp add: small_def)
    from Secp256k1Encrypt_eq [OF core api this w small_hex [OF w size(1)] size(2), of mem] w rd
    show ?thesis
      by (auto simp: frees_append wiped_clear_opt [OF core] numeral_2_eq_2 split: prod.splits)
  qed
qed

theorem Secp256k1Encrypt_spec_witness:
  "Secp256k1Encrypt (Inr (replicate 32 7)) idle_core idle_ecies ''hi'' ''00'' [] \<noteq> None"
  using Secp256k1Encrypt_spec [OF idle_core_ok idle_ecies_ok, of "Inr (replicate 32 7)" "''00''" "''hi''" "[]"]
  by (auto simp: unhex_def)

text \<open>
  \<open>Secp256k1Decrypt\<close> on every branch: the first argument that is not hexadecimal gives the
  decoder's error and no call; otherwise the message is returned exactly when the library returns 1.
  Every block is freed and the block of the message is wiped.
\<close>

theorem Secp256k1Decrypt_spec:
  assumes core: "core_ok core" and api: "ecies_ok api"
    and size: "list_all (\<lambda>s. int (length s) < 2 ^ 31 - 16) [C, V, T, sK]"
  shows "case hex_errors [C, V, T, sK] of
      Some e \<Rightarrow> \<exists>mem'. Secp256k1Decrypt core api C V T sK mem = Some (('''', Some e), mem') \<and> frees mem [] mem'
    | None \<Rightarrow> \<exists>c v t u rc os mem'. hex_decode C = Inr c \<and> hex_decode V = Inr v \<and> hex_decode T = Inr t \<and>
        hex_decode sK = Inr u \<and> ECIES_DECRYPT api 32 paramP1 paramP2 (decrypt_args c v t u) = (rc, os) \<and>
        Secp256k1Decrypt core api C V T sK mem =
          Some (if rc = 1 then (string_of (the_bytes (os ! 4)), None)
                else ('''', Some (Errorf ''Cannot decrypt cipherText'')), mem') \<and>
        frees mem [4] mem'"
proof (cases "hex_errors [C, V, T, sK]")
  case None
  then obtain c v t u where h: "hex_decode C = Inr c" "hex_decode V = Inr v" "hex_decode T = Inr t" "hex_decode sK = Inr u"
    by (auto simp: hex_errors_None)
  have "small (Some v)" "small (Some t)" "small (Some u)"
    using small_hex [OF h(2)] small_hex [OF h(3)] small_hex [OF h(4)] size by auto
  note eq = Secp256k1Decrypt_eq [OF core api h _ this, of mem]
  obtain rc os where call: "ECIES_DECRYPT api 32 paramP1 paramP2 (decrypt_args c v t u) = (rc, os)"
    by (metis prod.exhaust)
  have "frees mem [4] (mem @ [Slot (os ! 1) True, Slot (os ! 0) True, Slot (os ! 2) True, Slot (os ! 3) True,
           Slot (clear_opt core (os ! 4)) True])"
    by (simp add: frees_append wiped_clear_opt [OF core])
  moreover have "int (length C) < 2 ^ 31 - 16" using size by simp
  ultimately show ?thesis
    unfolding None option.case using h call eq by (simp only: prod.case) blast
next
  case (Some e)
  then show ?thesis using Secp256k1Decrypt_error [OF Some] by simp
qed

theorem Secp256k1Decrypt_spec_witness:
  "Secp256k1Decrypt idle_core idle_ecies ''00'' ''11'' ''xx'' ''yy'' [] \<noteq> None"
  using Secp256k1Decrypt_spec [OF idle_core_ok idle_ecies_ok, of "''00''" "''11''" "''xx''" "''yy''" "[]"]
  by (auto simp: hex_errors_def dec_err_def unhex_def)

text \<open>
  The private key given to \<open>Secp256k1Decrypt\<close> is not wiped: with a library that leaves its input
  alone, the block that is freed still holds every byte of the key.
\<close>

theorem Secp256k1Decrypt_leaves_key:
  assumes "hex_decode sK = Inr u" "int (length sK) < 2 ^ 31 - 16"
  shows "\<exists>r mem'. Secp256k1Decrypt idle_core idle_ecies ''00'' ''00'' ''00'' sK mem = Some (r, mem') \<and>
    mem' ! (length mem + 3) = Slot (Some (octet_of u)) True \<and> the_bytes (Some (octet_of u)) = u"
proof -
  have z: "hex_decode ''00'' = Inr [0]" by (simp add: unhex_def)
  have u: "small (Some u)" by (rule small_hex [OF assms])
  have "the_bytes (Some (octet_of u)) = u"
    using the_bytes_octet_of [OF u] by simp
  with Secp256k1Decrypt_eq [OF idle_core_ok idle_ecies_ok z z z assms(1), of mem] u show ?thesis
    by (simp add: small_def idle_ecies_def decrypt_args_def nth_append numeral_3_eq_3)
qed

theorem Secp256k1Decrypt_leaves_key_witness:
  "\<exists>r mem'. Secp256k1Decrypt idle_core idle_ecies ''00'' ''00'' ''00'' ''0aff'' [] = Some (r, mem') \<and>
    mem' ! (length ([] :: cmem) + 3) = Slot (Some (octet_of [10, 255])) True \<and>
    the_bytes (Some (octet_of [10, 255])) = [10, 255]"
  by (rule Secp256k1Decrypt_leaves_key) (simp_all add: unhex_def)

section \<open>Encryption and decryption together\<close>

text \<open>What the library promises for a key pair: when the output octets have room for a point (65
  bytes), for the message padded to a full block and for the tag (12 bytes), decrypting the output
  succeeds and gives the message, provided its octet has room for it. A ciphertext is at least
  as long as its message.\<close>

definition ecies_correct :: "ecies_api \<Rightarrow> bytes \<Rightarrow> bytes \<Rightarrow> bool" where
  "ecies_correct api w u \<longleftrightarrow> (\<forall>R b vcap ccap tcap mcap R' os.
     65 \<le> vcap \<and> vcap < 2 ^ 31 \<and> pad16 (length b) \<le> ccap \<and> ccap < 2 ^ 31 \<and> 12 \<le> tcap \<and> tcap < 2 ^ 31 \<and>
     ECIES_ENCRYPT api 32 paramP1 paramP2 R 12
       [Some (octet_of w), Some (octet_of b), Some (fresh_octet vcap), Some (fresh_octet ccap), Some (fresh_octet tcap)] = (R', os)
     \<longrightarrow> length b \<le> length (the_bytes (os ! 3)) \<and>
       (int (length b) \<le> mcap \<and> mcap < 2 ^ 31 \<longrightarrow>
         (case ECIES_DECRYPT api 32 paramP1 paramP2 [Some (octet_of (the_bytes (os ! 2))), Some (octet_of (the_bytes (os ! 3))),
             Some (octet_of (the_bytes (os ! 4))), Some (octet_of u), Some (fresh_octet mcap)] of
            (rc, os') \<Rightarrow> rc = 1 \<and> the_bytes (os' ! 4) = b)))"

text \<open>The lengths of what the library writes when it encrypts, and that the buffer for decrypting is large enough.\<close>

lemma pad16_bounds: "0 < pad16 n" "int n \<le> pad16 n" "pad16 n \<le> int n + 16"
  unfolding pad16_def using pos_mod_bound [of 16 "int n"] pos_mod_sign [of 16 "int n"] by linarith+

lemma encrypt_lengths:
  assumes api: "ecies_ok api" and sm: "small (Some w)" "int (length msg) < 2 ^ 31 - 16"
    and e: "ECIES_ENCRYPT api 32 paramP1 paramP2 (Some R) 12 (encrypt_args w (bytes_of msg)) = (R', os)"
  shows "int (length (the_bytes (os ! 3))) \<le> pad16 (length msg)" "int (length (the_bytes (os ! 2))) \<le> 65"
    "int (length (the_bytes (os ! 4))) \<le> 32"
proof -
  have f: "cfun_ok (ECIES_ENCRYPT api 32 paramP1 paramP2 (Some R) 12)" using api by (simp add: ecies_ok_def)
  have "oct_wf (octet_of w)" "oct_wf (octet_of (bytes_of msg))"
    using oct_wf_octet_of [OF sm(1)] oct_wf_octet_of [of "Some (bytes_of msg)"] sm(2) by (simp_all add: small_def)
  moreover have "oct_wf (fresh_octet 65)" "oct_wf (fresh_octet 32)" by (intro oct_wf_fresh; simp)+
  ultimately have wf: "list_all (pred_option oct_wf) (encrypt_args w (bytes_of msg))"
    using fits_fresh [OF sm(2)] by (simp add: encrypt_args_def pad16_def)
  have "oct_max (fresh_octet (pad16 (length msg))) = pad16 (length msg)"
    using pad16_bounds [of "length msg"] sm(2) unfolding fresh_octet_def by (simp add: cint_id)
  then show "int (length (the_bytes (os ! 3))) \<le> pad16 (length msg)" "int (length (the_bytes (os ! 2))) \<le> 65"
    "int (length (the_bytes (os ! 4))) \<le> 32"
    using cfun_ok_bytes [OF f wf, of 3] cfun_ok_bytes [OF f wf, of 2] cfun_ok_bytes [OF f wf, of 4] e
    by (simp_all add: encrypt_args_def fresh_octet_def cint_id)
qed

text \<open>
  The buffers are large enough: for a key pair for which the library is correct, every message is
  encrypted without an error and decrypting the three strings with the private key gives the
  message back, through the hexadecimal encoding and the octets the code allocates.
\<close>

theorem Secp256k1_roundtrip:
  assumes core: "core_ok core" and api: "ecies_ok api" and seed: "length seed = 32"
    and correct: "ecies_correct api w u"
    and keys: "length w < 2 ^ 30 - 8" "length u < 2 ^ 30 - 8" and msg: "length msg < 2 ^ 30 - 64"
  shows "\<exists>C V T mem1 mem2.
    Secp256k1Encrypt (Inr seed) core api msg (hex_encode w) mem = Some ((C, V, T, None), mem1) \<and>
    Secp256k1Decrypt core api C V T (hex_encode u) mem1 = Some ((msg, None), mem2)"
proof -
  let ?os = "encrypt_args w (bytes_of msg)"
  obtain R os1 where R: "CREATE_CSPRNG core csprng_zero [Some (octet_of seed)] = (R, os1)" by (metis prod.exhaust)
  let ?f = "ECIES_ENCRYPT api 32 paramP1 paramP2 (Some R) 12"
  obtain R' os where e: "?f ?os = (R', os)" by (metis prod.exhaust)
  have sm: "small (Some seed)" "small (Some w)" "small (Some u)" "int (length msg) < 2 ^ 31 - 16"
    using seed keys msg by (simp_all add: small_def)
  let ?c = "the_bytes (os ! 3)" and ?v = "the_bytes (os ! 2)" and ?t = "the_bytes (os ! 4)"
  obtain mem1 where enc: "Secp256k1Encrypt (Inr seed) core api msg (hex_encode w) mem =
      Some ((hex_encode ?c, hex_encode ?v, hex_encode ?t, None), mem1)"
    using Secp256k1Encrypt_eq [OF core api sm(1) hex_decode_encode sm(2) sm(4), of mem] R e by auto
  note sz = encrypt_lengths [OF api sm(2,4) e] and p = pad16_bounds(1,3)
  have ok: "length msg \<le> length ?c"
    "int (length msg) \<le> mcap \<Longrightarrow> mcap < 2 ^ 31 \<Longrightarrow>
     (case ECIES_DECRYPT api 32 paramP1 paramP2 [Some (octet_of ?v), Some (octet_of ?c), Some (octet_of ?t), Some (octet_of u), Some (fresh_octet mcap)] of
            (rc, os') \<Rightarrow> rc = 1 \<and> the_bytes (os' ! 4) = bytes_of msg)" for mcap
    using correct [unfolded ecies_correct_def, rule_format, of 65 "bytes_of msg" "pad16 (length msg)" 32 "Some R" R' os mcap] e p [of "length msg"] msg
    by (auto simp: encrypt_args_def)
  have "int (length msg) \<le> pad16 (2 * length ?c)" "pad16 (2 * length ?c) < 2 ^ 31"
    using ok(1) pad16_bounds(2,3) [of "2 * length ?c"] p(2) [of "length msg"] sz(1) msg by simp_all
  from ok(2) [OF this]
  have d: "case ECIES_DECRYPT api 32 paramP1 paramP2 (decrypt_args ?c ?v ?t u) of
      (rc, os') \<Rightarrow> rc = 1 \<and> the_bytes (os' ! 4) = bytes_of msg"
    by (simp add: decrypt_args_def)
  have "int (length (hex_encode ?c)) < 2 ^ 31 - 16" "small (Some ?v)" "small (Some ?t)"
    using sz p(2) [of "length msg"] msg by (simp_all add: small_def)
  from Secp256k1Decrypt_eq [OF core api hex_decode_encode hex_decode_encode hex_decode_encode hex_decode_encode this sm(3), of mem1] d
  have "\<exists>mem2. Secp256k1Decrypt core api (hex_encode ?c) (hex_encode ?v) (hex_encode ?t) (hex_encode u) mem1 = Some ((msg, None), mem2)"
    by (auto split: prod.splits)
  with enc show ?thesis by blast
qed


text \<open>A library that stores the message as the ciphertext, for the witness.\<close>

definition copy_ecies :: ecies_api where
  "copy_ecies = \<lparr>ECIES_ENCRYPT = (\<lambda>h p1 p2 R n os. (R, os[3 := put (the_bytes (os ! 1)) (os ! 3)])),
     ECIES_DECRYPT = (\<lambda>h p1 p2 os. (1, os[4 := put (the_bytes (os ! 1)) (os ! 4)]))\<rparr>"

lemma copy_ecies_ok: "ecies_ok copy_ecies"
  by (simp add: ecies_ok_def copy_ecies_def cfun_ok_put)

lemma copy_ecies_correct: "ecies_correct copy_ecies w u"
proof -
  have p: "int (length b) \<le> pad16 (length b)" for b :: bytes
    unfolding pad16_def using pos_mod_bound [of 16 "int (length b)"] by linarith
  have m: "oct_max (fresh_octet n) = n" "oct_wf (fresh_octet n)" if "0 \<le> n" "n < 2 ^ 31" for n
    using that oct_wf_fresh [OF that] by (simp_all add: fresh_octet_def cint_id)
  have t: "the_bytes (Some (octet_of b)) = b" if "int (length b) < 2 ^ 31" for b
    using the_bytes_octet_of [of "Some b"] that by (simp add: small_def)
  have put: "the_bytes (put b (Some (fresh_octet n))) = b" if "int (length b) \<le> n" "n < 2 ^ 31" for b n
    using m [of n] that by (intro the_bytes_put) auto
  show ?thesis
    unfolding ecies_correct_def
  proof (intro allI impI, elim conjE)
    fix R b vcap ccap tcap mcap R' os
    assume a: "pad16 (length b) \<le> ccap" "ccap < 2 ^ 31"
      and e: "ECIES_ENCRYPT copy_ecies 32 paramP1 paramP2 R 12
       [Some (octet_of w), Some (octet_of b), Some (fresh_octet vcap), Some (fresh_octet ccap), Some (fresh_octet tcap)] = (R', os)"
    have l: "int (length b) \<le> ccap" "int (length b) < 2 ^ 31" using a p [of b] by linarith+
    have os: "os = [Some (octet_of w), Some (octet_of b), Some (fresh_octet vcap), put b (Some (fresh_octet ccap)), Some (fresh_octet tcap)]"
      using e t [OF l(2)] by (simp add: copy_ecies_def eval_nat_numeral)
    then have c: "the_bytes (os ! 3) = b" using put [OF l(1) a(2)] by (simp add: eval_nat_numeral)
    then show "length b \<le> length (the_bytes (os ! 3)) \<and>
       (int (length b) \<le> mcap \<and> mcap < 2 ^ 31 \<longrightarrow>
         (case ECIES_DECRYPT copy_ecies 32 paramP1 paramP2 [Some (octet_of (the_bytes (os ! 2))), Some (octet_of (the_bytes (os ! 3))),
             Some (octet_of (the_bytes (os ! 4))), Some (octet_of u), Some (fresh_octet mcap)] of
            (rc, os') \<Rightarrow> rc = 1 \<and> the_bytes (os' ! 4) = b))"
      using put [of b mcap] t [OF l(2)] by (simp add: copy_ecies_def eval_nat_numeral)
  qed
qed

theorem Secp256k1_roundtrip_witness:
  "\<exists>C V T mem1 mem2.
    Secp256k1Encrypt (Inr (replicate 32 7)) idle_core copy_ecies ''hello'' (hex_encode [4, 1]) [] = Some ((C, V, T, None), mem1) \<and>
    Secp256k1Decrypt idle_core copy_ecies C V T (hex_encode [9]) mem1 = Some ((''hello'', None), mem2)"
  by (rule Secp256k1_roundtrip [OF idle_core_ok copy_ecies_ok _ copy_ecies_correct]) simp_all

end
