(* ===== verification/Zkp.thy ===== *)
theory Zkp
  imports Bls
begin

text \<open>
  \<open>crypto/zkpmfa.go\<close> and \<open>crypto/zkpid.go\<close>: the M-Pin zero-knowledge authentication over the library,
  and the identities it uses. The functions of \<^verbatim>\<open>crypto/include/mpin_BLS381.h\<close> and
  \<open>HASH_ID\<close> of \<^verbatim>\<open>crypto/include/pbc_support.h\<close> are the fields of \<open>mpin_api\<close>: scalar
  arguments come first (hash type, date, generator, PIN, time), then the octets in the order of the
  declaration. The current time of a call is an argument.
\<close>

section \<open>mpin_BLS381.h\<close>

(* crypto/include/mpin_BLS381.h:82-151 MPIN_BLS381_EXTRACT_PIN, MPIN_BLS381_CLIENT, MPIN_BLS381_CLIENT_1, MPIN_BLS381_RANDOM_GENERATE, MPIN_BLS381_CLIENT_2 *)
record mpin_client_api =
  MPIN_EXTRACT_PIN :: "int \<Rightarrow> int \<Rightarrow> int cfun"
  MPIN_CLIENT :: "int \<Rightarrow> int \<Rightarrow> csprng option \<Rightarrow> int \<Rightarrow> int \<Rightarrow> (int \<times> csprng option) cfun"
  MPIN_CLIENT_1 :: "int \<Rightarrow> int \<Rightarrow> csprng option \<Rightarrow> int \<Rightarrow> (int \<times> csprng option) cfun"
  MPIN_RANDOM_GENERATE :: "csprng option \<Rightarrow> (int \<times> csprng option) cfun"
  MPIN_CLIENT_2 :: "int cfun"

(* crypto/include/mpin_BLS381.h:152-222 MPIN_BLS381_SERVER, MPIN_BLS381_SERVER_1, MPIN_BLS381_SERVER_2, MPIN_BLS381_RECOMBINE_G1, MPIN_BLS381_RECOMBINE_G2 *)
record mpin_api = mpin_client_api +
  MPIN_SERVER :: "int \<Rightarrow> int \<Rightarrow> int \<Rightarrow> int cfun"
  MPIN_SERVER_1 :: "int \<Rightarrow> int \<Rightarrow> unit cfun"
  MPIN_SERVER_2 :: "int \<Rightarrow> int cfun"
  MPIN_RECOMBINE_G1 :: "int cfun"
  MPIN_RECOMBINE_G2 :: "int cfun"
  MPIN_GET_CLIENT_SECRET :: "int cfun"
  MPIN_GET_SERVER_SECRET :: "int cfun"
  HASH_ID :: "int \<Rightarrow> unit cfun"

definition mpin_ok :: "mpin_api \<Rightarrow> bool" where
  "mpin_ok api \<longleftrightarrow> (\<forall>h p. cfun_ok (MPIN_EXTRACT_PIN api h p)) \<and>
     (\<forall>h d R p t. cfun_ok (MPIN_CLIENT api h d R p t)) \<and> (\<forall>h d R p. cfun_ok (MPIN_CLIENT_1 api h d R p)) \<and>
     (\<forall>R. cfun_ok (MPIN_RANDOM_GENERATE api R)) \<and> cfun_ok (MPIN_CLIENT_2 api) \<and>
     (\<forall>h d t. cfun_ok (MPIN_SERVER api h d t)) \<and> (\<forall>h d. cfun_ok (MPIN_SERVER_1 api h d)) \<and>
     (\<forall>d. cfun_ok (MPIN_SERVER_2 api d)) \<and> cfun_ok (MPIN_RECOMBINE_G1 api) \<and> cfun_ok (MPIN_RECOMBINE_G2 api) \<and>
     cfun_ok (MPIN_GET_CLIENT_SECRET api) \<and> cfun_ok (MPIN_GET_SERVER_SECRET api) \<and> (\<forall>h. cfun_ok (HASH_ID api h))"

section \<open>zkpmfa.go\<close>

(* crypto/zkpmfa.go:19-20 G1SBLS381 *)
definition G1SBLS381 :: int where
  "G1SBLS381 = 2 * PFS_BLS381 + 1"

(* crypto/zkpmfa.go:21 G2SBLS381 *)
definition G2SBLS381 :: int where
  "G2SBLS381 = 4 * PFS_BLS381"

(* crypto/zkpmfa.go:22-23 zkpHashFunc *)
definition zkpHashFunc :: int where
  "zkpHashFunc = HASH_TYPE_BLS381"

(* crypto/zkpmfa.go:25-31 ClientPass1Result *)
record ClientPass1Result =
  cp_X :: slice
  cp_SEC :: slice
  cp_U :: slice
  cp_UT :: slice

(* crypto/zkpmfa.go:33-40 ServerPass1Result *)
record ServerPass1Result =
  sp_Y :: slice
  sp_HID :: slice
  sp_HTID :: slice
  sp_U :: slice
  sp_UT :: slice

(* crypto/zkpmfa.go:42-48 Client1PassResult *)
record Client1PassResult =
  c1_ID :: slice
  c1_ET :: int
  c1_U :: slice
  c1_V :: slice

(* crypto/zkpmfa.go:340-347 randomGenerate *)
definition randomGenerate :: "core_api \<Rightarrow> mpin_api \<Rightarrow> Rand \<Rightarrow> cmem \<Rightarrow> ((bytes \<times> gerr option) \<times> Rand \<times> cmem) option" where
  "randomGenerate core api rand mem = do {
     let (oct, mem) = NewOctet PGS_BLS381 mem;
     ((code, rand), mem) \<leftarrow> c_call (MPIN_RANDOM_GENERATE api rand) [oct] mem;
     b \<leftarrow> ToBytes oct mem;
     mem \<leftarrow> ClearAndFree core oct mem;
     Some ((b, codeToError code), rand, mem)
   }"

(* crypto/zkpmfa.go:50-53 NewMasterSecret *)
definition NewMasterSecret :: "core_api \<Rightarrow> mpin_api \<Rightarrow> Rand \<Rightarrow> cmem \<Rightarrow> ((bytes \<times> gerr option) \<times> Rand \<times> cmem) option" where
  "NewMasterSecret core api rand mem = randomGenerate core api rand mem"

(* crypto/zkpmfa.go:55-65 GetServerSecret *)
definition GetServerSecret :: "core_api \<Rightarrow> mpin_api \<Rightarrow> slice \<Rightarrow> cmem \<Rightarrow> ((bytes \<times> gerr option) \<times> cmem) option" where
  "GetServerSecret core api ms mem = do {
     let (msOct, mem) = CreateOctet ms mem;
     let (ssOct, mem) = NewOctet G2SBLS381 mem;
     (code, mem) \<leftarrow> c_call (MPIN_GET_SERVER_SECRET api) [msOct, ssOct] mem;
     b \<leftarrow> ToBytes ssOct mem;
     mem \<leftarrow> ClearAndFree core ssOct mem;
     mem \<leftarrow> ClearAndFree core msOct mem;
     Some ((b, codeToError code), mem)
   }"

(* crypto/zkpmfa.go:67-79 GetClientSecret *)
definition GetClientSecret :: "core_api \<Rightarrow> mpin_api \<Rightarrow> slice \<Rightarrow> slice \<Rightarrow> cmem \<Rightarrow> ((bytes \<times> gerr option) \<times> cmem) option" where
  "GetClientSecret core api ms ident mem = do {
     let (msOct, mem) = CreateOctet ms mem;
     let (idOct, mem) = CreateOctet ident mem;
     let (csOct, mem) = NewOctet G1SBLS381 mem;
     (code, mem) \<leftarrow> c_call (MPIN_GET_CLIENT_SECRET api) [msOct, idOct, csOct] mem;
     b \<leftarrow> ToBytes csOct mem;
     mem \<leftarrow> ClearAndFree core csOct mem;
     mem \<leftarrow> Octet_Free idOct mem;
     mem \<leftarrow> ClearAndFree core msOct mem;
     Some ((b, codeToError code), mem)
   }"

(* crypto/zkpmfa.go:81-92 recombineG1 *)
definition recombineG1 :: "core_api \<Rightarrow> mpin_api \<Rightarrow> slice \<Rightarrow> slice \<Rightarrow> cmem \<Rightarrow> ((bytes \<times> gerr option) \<times> cmem) option" where
  "recombineG1 core api p1 p2 mem = do {
     let (p1Oct, mem) = CreateOctet p1 mem;
     let (p2Oct, mem) = CreateOctet p2 mem;
     let (pOct, mem) = NewOctet G1SBLS381 mem;
     (code, mem) \<leftarrow> c_call (MPIN_RECOMBINE_G1 api) [p1Oct, p2Oct, pOct] mem;
     b \<leftarrow> ToBytes pOct mem;
     mem \<leftarrow> ClearAndFree core pOct mem;
     mem \<leftarrow> ClearAndFree core p2Oct mem;
     mem \<leftarrow> ClearAndFree core p1Oct mem;
     Some ((b, codeToError code), mem)
   }"

(* crypto/zkpmfa.go:94-105 recombineG2 *)
definition recombineG2 :: "core_api \<Rightarrow> mpin_api \<Rightarrow> slice \<Rightarrow> slice \<Rightarrow> cmem \<Rightarrow> ((bytes \<times> gerr option) \<times> cmem) option" where
  "recombineG2 core api p1 p2 mem = do {
     let (p1Oct, mem) = CreateOctet p1 mem;
     let (p2Oct, mem) = CreateOctet p2 mem;
     let (pOct, mem) = NewOctet G2SBLS381 mem;
     (code, mem) \<leftarrow> c_call (MPIN_RECOMBINE_G2 api) [p1Oct, p2Oct, pOct] mem;
     b \<leftarrow> ToBytes pOct mem;
     mem \<leftarrow> ClearAndFree core pOct mem;
     mem \<leftarrow> ClearAndFree core p2Oct mem;
     mem \<leftarrow> ClearAndFree core p1Oct mem;
     Some ((b, codeToError code), mem)
   }"

text \<open>The loops of \<open>RecombineServerSecret\<close> and \<open>RecombineClientSecret\<close> after their first iteration,
  which takes the first share as it is.\<close>

fun recombine_loop :: "(slice \<Rightarrow> slice \<Rightarrow> cmem \<Rightarrow> ((bytes \<times> gerr option) \<times> cmem) option)
    \<Rightarrow> slice list \<Rightarrow> slice \<Rightarrow> cmem \<Rightarrow> ((slice \<times> gerr option) \<times> cmem) option" where
  "recombine_loop recombine [] secret mem = Some ((secret, None), mem)"
| "recombine_loop recombine (share # shares) secret mem = do {
     ((secret, err), mem) \<leftarrow> recombine secret share mem;
     if err \<noteq> None then Some ((Some secret, err), mem)
     else recombine_loop recombine shares (Some secret) mem
   }"

(* crypto/zkpmfa.go:107-122 RecombineServerSecret *)
definition RecombineServerSecret :: "core_api \<Rightarrow> mpin_api \<Rightarrow> slice list \<Rightarrow> cmem \<Rightarrow> ((slice \<times> gerr option) \<times> cmem) option" where
  "RecombineServerSecret core api shares mem =
     (case shares of [] \<Rightarrow> Some ((None, None), mem)
      | share # rest \<Rightarrow> recombine_loop (recombineG2 core api) rest share mem)"

(* crypto/zkpmfa.go:124-139 RecombineClientSecret *)
definition RecombineClientSecret :: "core_api \<Rightarrow> mpin_api \<Rightarrow> slice list \<Rightarrow> cmem \<Rightarrow> ((slice \<times> gerr option) \<times> cmem) option" where
  "RecombineClientSecret core api shares mem =
     (case shares of [] \<Rightarrow> Some ((None, None), mem)
      | share # rest \<Rightarrow> recombine_loop (recombineG1 core api) rest share mem)"

(* crypto/zkpmfa.go:141-151 ExtractPIN *)
definition ExtractPIN :: "core_api \<Rightarrow> mpin_api \<Rightarrow> slice \<Rightarrow> int \<Rightarrow> slice \<Rightarrow> cmem \<Rightarrow> ((bytes \<times> gerr option) \<times> cmem) option" where
  "ExtractPIN core api ident pin cs mem = do {
     let (idOct, mem) = CreateOctet ident mem;
     let (csOct, mem) = CreateOctet cs mem;
     (code, mem) \<leftarrow> c_call (MPIN_EXTRACT_PIN api zkpHashFunc (cint pin)) [idOct, csOct] mem;
     b \<leftarrow> ToBytes csOct mem;
     mem \<leftarrow> ClearAndFree core csOct mem;
     mem \<leftarrow> Octet_Free idOct mem;
     Some ((b, codeToError code), mem)
   }"

(* crypto/zkpmfa.go:153 Client1Option *)
type_synonym Client1Option = "ClientPass1Result \<Rightarrow> ClientPass1Result \<times> gerr option"

(* crypto/zkpmfa.go:155-161 WithPredefinedX *)
definition WithPredefinedX :: "slice \<Rightarrow> Client1Option" where
  "WithPredefinedX x = (\<lambda>cr. (cr\<lparr>cp_X := x\<rparr>, None))"

(* crypto/zkpmfa.go:166-170 ClientPass1, the options *)
fun apply_options :: "Client1Option list \<Rightarrow> ClientPass1Result \<Rightarrow> ClientPass1Result res" where
  "apply_options [] cr = Inr cr"
| "apply_options (opt # opts) cr =
     (case opt cr of (cr', err) \<Rightarrow> (case err of Some e \<Rightarrow> Inl e | None \<Rightarrow> apply_options opts cr'))"

(* crypto/zkpmfa.go:163-202 ClientPass1 *)
definition ClientPass1 :: "core_api \<Rightarrow> mpin_api \<Rightarrow> slice \<Rightarrow> int \<Rightarrow> Rand \<Rightarrow> slice \<Rightarrow> Client1Option list \<Rightarrow> cmem
    \<Rightarrow> (ClientPass1Result res \<times> Rand \<times> cmem) option" where
  "ClientPass1 core api ident pin rng token opts mem =
     (case apply_options opts \<lparr>cp_X = None, cp_SEC = None, cp_U = None, cp_UT = None\<rparr> of
        Inl e \<Rightarrow> Some (Inl e, rng, mem)
      | Inr pass1R \<Rightarrow> do {
          let (xOct, mem) = (if cp_X pass1R \<noteq> None then CreateOctet (cp_X pass1R) mem else NewOctet PGS_BLS381 mem);
          let (idOct, mem) = CreateOctet ident mem;
          let (tOct, mem) = CreateOctet token mem;
          let (sOct, mem) = NewOctet G1SBLS381 mem;
          let (uOct, mem) = NewOctet G1SBLS381 mem;
          let (utOct, mem) = NewOctet G1SBLS381 mem;
          ((code, rng), mem) \<leftarrow> c_call (MPIN_CLIENT_1 api zkpHashFunc 0 rng (cint pin))
             [idOct, xOct, tOct, sOct, uOct, utOct, None] mem;
          r \<leftarrow> (case codeToError code of
                Some err \<Rightarrow> Some (Inl err)
              | None \<Rightarrow> do {
                  x \<leftarrow> ToBytes xOct mem;
                  s \<leftarrow> ToBytes sOct mem;
                  u \<leftarrow> ToBytes uOct mem;
                  ut \<leftarrow> ToBytes utOct mem;
                  Some (Inr \<lparr>cp_X = Some x, cp_SEC = Some s, cp_U = Some u, cp_UT = Some ut\<rparr>)
                });
          mem \<leftarrow> Octet_Free utOct mem;
          mem \<leftarrow> Octet_Free uOct mem;
          mem \<leftarrow> ClearAndFree core sOct mem;
          mem \<leftarrow> ClearAndFree core tOct mem;
          mem \<leftarrow> Octet_Free idOct mem;
          mem \<leftarrow> ClearAndFree core xOct mem;
          Some (r, rng, mem)
        })"

(* crypto/zkpmfa.go:204-216 ClientPass2 *)
definition ClientPass2 :: "core_api \<Rightarrow> mpin_api \<Rightarrow> ClientPass1Result \<Rightarrow> slice \<Rightarrow> cmem \<Rightarrow> ((bytes \<times> gerr option) \<times> cmem) option" where
  "ClientPass2 core api p1r y mem = do {
     let (xOct, mem) = CreateOctet (cp_X p1r) mem;
     let (yOct, mem) = CreateOctet y mem;
     let (vOct, mem) = CreateOctet (cp_SEC p1r) mem;
     (code, mem) \<leftarrow> c_call (MPIN_CLIENT_2 api) [xOct, yOct, vOct] mem;
     b \<leftarrow> ToBytes vOct mem;
     mem \<leftarrow> Octet_Free vOct mem;
     mem \<leftarrow> Octet_Free yOct mem;
     mem \<leftarrow> ClearAndFree core xOct mem;
     Some ((b, codeToError code), mem)
   }"

(* crypto/zkpmfa.go:218-239 ServerPass1 *)
definition ServerPass1 :: "core_api \<Rightarrow> mpin_api \<Rightarrow> slice \<Rightarrow> Rand \<Rightarrow> cmem \<Rightarrow> (ServerPass1Result res \<times> Rand \<times> cmem) option" where
  "ServerPass1 core api ident rand mem = do {
     let (idOct, mem) = CreateOctet ident mem;
     let (hidOct, mem) = NewOctet G1SBLS381 mem;
     let (htidOct, mem) = NewOctet G1SBLS381 mem;
     (_, mem) \<leftarrow> c_call (MPIN_SERVER_1 api zkpHashFunc (cint 0)) [idOct, hidOct, htidOct] mem;
     ((y, err), rand, mem) \<leftarrow> randomGenerate core api rand mem;
     r \<leftarrow> (case err of
            Some e \<Rightarrow> Some (Inl e)
          | None \<Rightarrow> do {
              hid \<leftarrow> ToBytes hidOct mem;
              htid \<leftarrow> ToBytes htidOct mem;
              Some (Inr \<lparr>sp_Y = Some y, sp_HID = Some hid, sp_HTID = Some htid, sp_U = None, sp_UT = None\<rparr>)
            });
     mem \<leftarrow> Octet_Free htidOct mem;
     mem \<leftarrow> Octet_Free hidOct mem;
     mem \<leftarrow> Octet_Free idOct mem;
     Some (r, rand, mem)
   }"

(* crypto/zkpmfa.go:241-264 ServerPass2 *)
definition ServerPass2 :: "core_api \<Rightarrow> mpin_api \<Rightarrow> slice \<Rightarrow> slice \<Rightarrow> slice \<Rightarrow> slice \<Rightarrow> slice \<Rightarrow> slice \<Rightarrow> slice \<Rightarrow> slice
    \<Rightarrow> cmem \<Rightarrow> (gerr option \<times> cmem) option" where
  "ServerPass2 core api hid htid y ss u ut v pa mem = do {
     let (hidOct, mem) = CreateOctet hid mem;
     let (htidOct, mem) = CreateOctet htid mem;
     let (yOct, mem) = CreateOctet y mem;
     let (ssOct, mem) = CreateOctet ss mem;
     let (uOct, mem) = CreateOctet u mem;
     let (utOct, mem) = CreateOctet ut mem;
     let (vOct, mem) = CreateOctet v mem;
     let (paOct, mem) = CreateOctet pa mem;
     (code, mem) \<leftarrow> c_call (MPIN_SERVER_2 api (cint 0))
        [hidOct, htidOct, yOct, ssOct, uOct, utOct, vOct, None, None, paOct] mem;
     mem \<leftarrow> Octet_Free paOct mem;
     mem \<leftarrow> Octet_Free vOct mem;
     mem \<leftarrow> Octet_Free utOct mem;
     mem \<leftarrow> Octet_Free uOct mem;
     mem \<leftarrow> ClearAndFree core ssOct mem;
     mem \<leftarrow> Octet_Free yOct mem;
     mem \<leftarrow> Octet_Free htidOct mem;
     mem \<leftarrow> Octet_Free hidOct mem;
     Some (codeToError code, mem)
   }"

(* crypto/zkpmfa.go:266-304 ClientOnePass *)
definition ClientOnePass :: "int \<Rightarrow> core_api \<Rightarrow> mpin_api \<Rightarrow> slice \<Rightarrow> int \<Rightarrow> Rand \<Rightarrow> slice \<Rightarrow> slice \<Rightarrow> cmem
    \<Rightarrow> (Client1PassResult res \<times> Rand \<times> cmem) option" where
  "ClientOnePass now core api ident pin rng token msg mem = do {
     let (idOct, mem) = CreateOctet ident mem;
     let (tOct, mem) = CreateOctet token mem;
     let (uOct, mem) = NewOctet G1SBLS381 mem;
     let (utOct, mem) = NewOctet G1SBLS381 mem;
     let (xOct, mem) = NewOctet PGS_BLS381 mem;
     let (yOct, mem) = NewOctet PGS_BLS381 mem;
     let (vOct, mem) = NewOctet G1SBLS381 mem;
     let (msgOct, mem) = CreateOctet msg mem;
     let timestamp = now;
     ((code, rng), mem) \<leftarrow> c_call (MPIN_CLIENT api zkpHashFunc (cint 0) rng (cint pin) (cint timestamp))
        [idOct, xOct, tOct, vOct, uOct, utOct, None, msgOct, yOct] mem;
     r \<leftarrow> (case codeToError code of
            Some err \<Rightarrow> Some (Inl err)
          | None \<Rightarrow> do {
              u \<leftarrow> ToBytes uOct mem;
              v \<leftarrow> ToBytes vOct mem;
              Some (Inr \<lparr>c1_ID = ident, c1_ET = timestamp, c1_U = Some u, c1_V = Some v\<rparr>)
            });
     mem \<leftarrow> Octet_Free msgOct mem;
     mem \<leftarrow> Octet_Free vOct mem;
     mem \<leftarrow> Octet_Free yOct mem;
     mem \<leftarrow> ClearAndFree core xOct mem;
     mem \<leftarrow> Octet_Free utOct mem;
     mem \<leftarrow> Octet_Free uOct mem;
     mem \<leftarrow> ClearAndFree core tOct mem;
     mem \<leftarrow> Octet_Free idOct mem;
     Some (r, rng, mem)
   }"

text \<open>\<open>float64(x)\<close> of a 64-bit integer: the value with a mantissa of 53 bits, rounded to nearest and
  to even in the middle. \<open>math.Abs\<close> and the comparison of such values are exact.\<close>

fun float_shift :: "nat \<Rightarrow> int \<Rightarrow> nat" where
  "float_shift 0 a = 0"
| "float_shift (Suc n) a = (if a < 2 ^ 53 then 0 else Suc (float_shift n (a div 2)))"

definition float64 :: "int \<Rightarrow> int" where
  "float64 x =
     (let a = abs x; s = float_shift 11 a; q = a div 2 ^ s; r = a mod 2 ^ s; half = 2 ^ s div 2;
          q' = (if s > 0 \<and> (r > half \<or> r = half \<and> odd q) then q + 1 else q)
      in sgn x * (q' * 2 ^ s))"

(* crypto/zkpmfa.go:308-310 ServerOnePass, the time check *)
definition time_out_of_bounds :: "int \<Rightarrow> int \<Rightarrow> int \<Rightarrow> bool" where
  "time_out_of_bounds now ET timeBounds \<longleftrightarrow> abs (float64 (wrap64 (now - ET))) > float64 timeBounds"

(* crypto/zkpmfa.go:306-338 ServerOnePass *)
definition ServerOnePass :: "int \<Rightarrow> core_api \<Rightarrow> mpin_api \<Rightarrow> Client1PassResult \<Rightarrow> slice \<Rightarrow> slice \<Rightarrow> int \<Rightarrow> cmem
    \<Rightarrow> (gerr option \<times> cmem) option" where
  "ServerOnePass now core api client ss msg timeBounds mem =
     (if time_out_of_bounds now (c1_ET client) timeBounds then Some (Some ErrInvalidTime, mem)
      else do {
        let (ssOct, mem) = CreateOctet ss mem;
        let (idOct, mem) = CreateOctet (c1_ID client) mem;
        let (uOct, mem) = CreateOctet (c1_U client) mem;
        let (vOct, mem) = CreateOctet (c1_V client) mem;
        let (yOct, mem) = NewOctet PGS_BLS381 mem;
        let (hidOct, mem) = NewOctet G1SBLS381 mem;
        let (htidOct, mem) = NewOctet G1SBLS381 mem;
        let (msgOct, mem) = CreateOctet msg mem;
        (code, mem) \<leftarrow> c_call (MPIN_SERVER api zkpHashFunc (cint 0) (cint (c1_ET client)))
           [hidOct, htidOct, yOct, ssOct, uOct, None, vOct, None, None, idOct, msgOct, None] mem;
        mem \<leftarrow> Octet_Free msgOct mem;
        mem \<leftarrow> Octet_Free htidOct mem;
        mem \<leftarrow> Octet_Free hidOct mem;
        mem \<leftarrow> Octet_Free yOct mem;
        mem \<leftarrow> Octet_Free vOct mem;
        mem \<leftarrow> Octet_Free uOct mem;
        mem \<leftarrow> Octet_Free idOct mem;
        mem \<leftarrow> ClearAndFree core ssOct mem;
        Some (codeToError code, mem)
      })"

(* crypto/zkpmfa.go:349-360 hashID *)
definition hashID :: "mpin_api \<Rightarrow> slice \<Rightarrow> cmem \<Rightarrow> (bytes \<times> cmem) option" where
  "hashID api ident mem = do {
     let (idOct, mem) = CreateOctet ident mem;
     let (hidOct, mem) = NewOctet PFS_BLS381 mem;
     (_, mem) \<leftarrow> c_call (HASH_ID api zkpHashFunc) [idOct, hidOct] mem;
     b \<leftarrow> ToBytes hidOct mem;
     mem \<leftarrow> Octet_Free hidOct mem;
     mem \<leftarrow> Octet_Free idOct mem;
     Some (b, mem)
   }"

section \<open>zkpid.go\<close>

text \<open>\<open>json.Marshal\<close> and \<open>json.Unmarshal\<close> of the exported fields are parameters.\<close>

(* crypto/zkpid.go:15-21 ID *)
record ID =
  id_Identity :: string
  id_Curve :: string
  id_CreatedAt :: int
  id_rawID :: slice

record json_id =
  marshal_id :: "string \<times> string \<times> int \<Rightarrow> bytes res"
  unmarshal_id :: "bytes \<Rightarrow> (string \<times> string \<times> int) res"

(* crypto/zkpid.go:10-13 ErrInvalidID *)
definition ErrInvalidID :: gerr where
  "ErrInvalidID = Errorf ''invalid ID''"

(* crypto/zkpid.go:23-38 NewID *)
definition NewID :: "int \<Rightarrow> json_id \<Rightarrow> string \<Rightarrow> ID res" where
  "NewID now js ident =
     (let i = \<lparr>id_Identity = ident, id_Curve = curveName, id_CreatedAt = now, id_rawID = None\<rparr>
      in case marshal_id js (id_Identity i, id_Curve i, id_CreatedAt i) of
           Inl err \<Rightarrow> Inl err
         | Inr b \<Rightarrow> Inr (i\<lparr>id_rawID := Some b\<rparr>))"

(* crypto/zkpid.go:53-62 IDFromBytes *)
definition IDFromBytes :: "json_id \<Rightarrow> bytes \<Rightarrow> ID res" where
  "IDFromBytes js rawID =
     (case unmarshal_id js rawID of
        Inl _ \<Rightarrow> Inl ErrInvalidID
      | Inr (identity, curve, created) \<Rightarrow>
          Inr \<lparr>id_Identity = identity, id_Curve = curve, id_CreatedAt = created, id_rawID = Some rawID\<rparr>)"

(* crypto/zkpid.go:40-51 IDFromHex *)
definition IDFromHex :: "json_id \<Rightarrow> string \<Rightarrow> ID res" where
  "IDFromHex js rawIDString =
     (case hex_decode rawIDString of
        Inl _ \<Rightarrow> Inl ErrInvalidID
      | Inr rawB \<Rightarrow> (case IDFromBytes js rawB of Inl _ \<Rightarrow> Inl ErrInvalidID | Inr i \<Rightarrow> Inr i))"

(* crypto/zkpid.go:64-67 ID.Bytes *)
definition ID_Bytes :: "ID \<Rightarrow> slice" where
  "ID_Bytes i = id_rawID i"

(* crypto/zkpid.go:69-72 ID.String *)
definition ID_String :: "ID \<Rightarrow> string" where
  "ID_String i = hex_encode (slice_bytes (id_rawID i))"

(* crypto/zkpid.go:74-77 ID.Hash *)
definition ID_Hash :: "mpin_api \<Rightarrow> ID \<Rightarrow> cmem \<Rightarrow> (bytes \<times> cmem) option" where
  "ID_Hash api i mem = hashID api (id_rawID i) mem"

section \<open>What each wrapper does\<close>

lemma zkp_sizes [simp]:
  "oct_wf (fresh_octet G1SBLS381)" "oct_wf (fresh_octet G2SBLS381)" "oct_wf (fresh_octet PGS_BLS381)"
  "oct_wf (fresh_octet PFS_BLS381)"
  by (intro oct_wf_fresh; simp add: G1SBLS381_def G2SBLS381_def amcl_const)+

lemma cint_0 [simp]: "cint 0 = 0"
  by (simp add: cint_id)

lemma out_bytes:
  "cfun_ok f \<Longrightarrow> list_all (pred_option oct_wf) os \<Longrightarrow> i < length os \<Longrightarrow> os ! i = Some c \<Longrightarrow>
   GoBytes (snd (f os) ! i) = Some (the_bytes (snd (f os) ! i))"
  using cfun_ok_nth [of f os i] by (intro GoBytes_wf) auto

lemma mpin_okD:
  assumes "mpin_ok api"
  shows "cfun_ok (MPIN_EXTRACT_PIN api h p)" "cfun_ok (MPIN_CLIENT api h d R p t)"
    "cfun_ok (MPIN_CLIENT_1 api h d R p)" "cfun_ok (MPIN_RANDOM_GENERATE api R)" "cfun_ok (MPIN_CLIENT_2 api)"
    "cfun_ok (MPIN_SERVER api h d t)" "cfun_ok (MPIN_SERVER_1 api h d)" "cfun_ok (MPIN_SERVER_2 api d)"
    "cfun_ok (MPIN_RECOMBINE_G1 api)" "cfun_ok (MPIN_RECOMBINE_G2 api)"
    "cfun_ok (MPIN_GET_CLIENT_SECRET api)" "cfun_ok (MPIN_GET_SERVER_SECRET api)" "cfun_ok (HASH_ID api h)"
  using assms by (simp_all add: mpin_ok_def)

lemmas wrapper_defs = CreateOctet_def NewOctet_def

abbreviation oct :: "slice \<Rightarrow> octet option" where
  "oct v \<equiv> map_option octet_of v"

abbreviation fresh :: "int \<Rightarrow> octet option" where
  "fresh n \<equiv> Some (fresh_octet n)"

lemma randomGenerate_eq:
  assumes api: "mpin_ok api"
  shows "randomGenerate core api rand mem =
    (case MPIN_RANDOM_GENERATE api rand [fresh PGS_BLS381] of ((code, rand'), os) \<Rightarrow>
       Some ((the_bytes (os ! 0), codeToError code), rand', mem @ [Slot (clear_opt core (os ! 0)) True]))"
  by (simp add: randomGenerate_def wrapper_defs c_call_frame [OF mpin_okD(4) [OF api]]
      out_bytes [OF mpin_okD(4) [OF api]] cgo)

lemma GetServerSecret_eq:
  assumes api: "mpin_ok api" and small: "small ms"
  shows "GetServerSecret core api ms mem =
    (case MPIN_GET_SERVER_SECRET api [oct ms, fresh G2SBLS381] of (code, os) \<Rightarrow>
       Some ((the_bytes (os ! 1), codeToError code),
         mem @ [Slot (clear_opt core (os ! 0)) True, Slot (clear_opt core (os ! 1)) True]))"
  using oct_wf_octet_of [OF small]
  by (simp add: GetServerSecret_def wrapper_defs c_call_frame [OF mpin_okD(12) [OF api]]
      out_bytes [OF mpin_okD(12) [OF api]] cgo)

lemma GetClientSecret_eq:
  assumes api: "mpin_ok api" and small: "small ms" "small ident"
  shows "GetClientSecret core api ms ident mem =
    (case MPIN_GET_CLIENT_SECRET api [oct ms, oct ident, fresh G1SBLS381] of (code, os) \<Rightarrow>
       Some ((the_bytes (os ! 2), codeToError code),
         mem @ [Slot (clear_opt core (os ! 0)) True, Slot (os ! 1) True, Slot (clear_opt core (os ! 2)) True]))"
  using oct_wf_octet_of [OF small(1)] oct_wf_octet_of [OF small(2)]
  by (simp add: GetClientSecret_def wrapper_defs c_call_frame [OF mpin_okD(11) [OF api]]
      out_bytes [OF mpin_okD(11) [OF api]] cgo)

lemma recombine_eq:
  assumes api: "mpin_ok api" and small: "small p1" "small p2"
  shows "recombineG1 core api p1 p2 mem =
    (case MPIN_RECOMBINE_G1 api [oct p1, oct p2, fresh G1SBLS381] of (code, os) \<Rightarrow>
       Some ((the_bytes (os ! 2), codeToError code),
         mem @ [Slot (clear_opt core (os ! 0)) True, Slot (clear_opt core (os ! 1)) True, Slot (clear_opt core (os ! 2)) True]))"
    and "recombineG2 core api p1 p2 mem =
    (case MPIN_RECOMBINE_G2 api [oct p1, oct p2, fresh G2SBLS381] of (code, os) \<Rightarrow>
       Some ((the_bytes (os ! 2), codeToError code),
         mem @ [Slot (clear_opt core (os ! 0)) True, Slot (clear_opt core (os ! 1)) True, Slot (clear_opt core (os ! 2)) True]))"
  using oct_wf_octet_of [OF small(1)] oct_wf_octet_of [OF small(2)]
  by (simp_all add: recombineG1_def recombineG2_def wrapper_defs c_call_frame [OF mpin_okD(9) [OF api]]
      c_call_frame [OF mpin_okD(10) [OF api]] out_bytes [OF mpin_okD(9) [OF api]] out_bytes [OF mpin_okD(10) [OF api]] cgo)

lemma ExtractPIN_eq:
  assumes api: "mpin_ok api" and small: "small ident" "small (Some cs)"
  shows "ExtractPIN core api ident pin (Some cs) mem =
    (case MPIN_EXTRACT_PIN api zkpHashFunc (cint pin) [oct ident, oct (Some cs)] of (code, os) \<Rightarrow>
       Some ((the_bytes (os ! 1), codeToError code),
         mem @ [Slot (os ! 0) True, Slot (clear_opt core (os ! 1)) True]))"
  using oct_wf_octet_of [OF small(1)] oct_wf_octet_of [OF small(2)]
  by (simp add: ExtractPIN_def wrapper_defs c_call_frame [OF mpin_okD(1) [OF api]]
      out_bytes [OF mpin_okD(1) [OF api]] cgo)

definition pass1_x :: "slice \<Rightarrow> octet option" where
  "pass1_x x = (if x \<noteq> None then oct x else fresh PGS_BLS381)"

lemma ClientPass1_eq:
  assumes api: "mpin_ok api" and small: "small ident" "small token" "small (cp_X p1)"
    and opts: "apply_options opts \<lparr>cp_X = None, cp_SEC = None, cp_U = None, cp_UT = None\<rparr> = Inr p1"
  shows "ClientPass1 core api ident pin rng token opts mem =
    (case MPIN_CLIENT_1 api zkpHashFunc 0 rng (cint pin)
        [oct ident, pass1_x (cp_X p1), oct token, fresh G1SBLS381, fresh G1SBLS381, fresh G1SBLS381, None] of
       ((code, rng'), os) \<Rightarrow>
       Some (case codeToError code of Some e \<Rightarrow> Inl e
           | None \<Rightarrow> Inr \<lparr>cp_X = Some (the_bytes (os ! 1)), cp_SEC = Some (the_bytes (os ! 3)),
               cp_U = Some (the_bytes (os ! 4)), cp_UT = Some (the_bytes (os ! 5))\<rparr>, rng',
         mem @ [Slot (clear_opt core (os ! 1)) True, Slot (os ! 0) True, Slot (clear_opt core (os ! 2)) True,
           Slot (clear_opt core (os ! 3)) True, Slot (os ! 4) True, Slot (os ! 5) True]))"
proof -
  note defs = ClientPass1_def NewOctet_def CreateOctet_def c_call_frame [OF mpin_okD(3) [OF api]]
        out_bytes [OF mpin_okD(3) [OF api]] pass1_x_def cgo
  have wf: "pred_option oct_wf (oct ident)" "pred_option oct_wf (oct token)" "pred_option oct_wf (oct (cp_X p1))"
    using small oct_wf_octet_of by blast+
  show ?thesis
  proof (cases "cp_X p1")
    case None
    with wf opts show ?thesis by (simp add: defs split: option.splits)
  next
    case (Some x)
    with wf opts show ?thesis by (simp add: defs split: option.splits)
  qed
qed

lemma ClientPass2_eq:
  assumes api: "mpin_ok api" and small: "small (cp_X p)" "small (cp_SEC p)" "small y" and sec: "cp_SEC p \<noteq> None"
  shows "ClientPass2 core api p y mem =
    (case MPIN_CLIENT_2 api [oct (cp_X p), oct y, oct (cp_SEC p)] of (code, os) \<Rightarrow>
       Some ((the_bytes (os ! 2), codeToError code),
         mem @ [Slot (clear_opt core (os ! 0)) True, Slot (os ! 1) True, Slot (os ! 2) True]))"
proof -
  obtain s where s: "cp_SEC p = Some s" using sec by auto
  show ?thesis
    using oct_wf_octet_of [OF small(1)] oct_wf_octet_of [OF small(2)] oct_wf_octet_of [OF small(3)]
    by (simp add: ClientPass2_def wrapper_defs s c_call_frame [OF mpin_okD(5) [OF api]]
        out_bytes [OF mpin_okD(5) [OF api]] cgo)
qed

lemma ServerPass1_eq:
  assumes api: "mpin_ok api" and small: "small ident"
  shows "ServerPass1 core api ident rand mem =
    (case MPIN_SERVER_1 api zkpHashFunc 0 [oct ident, fresh G1SBLS381, fresh G1SBLS381] of (_, os) \<Rightarrow>
     case MPIN_RANDOM_GENERATE api rand [fresh PGS_BLS381] of ((code, rand'), os2) \<Rightarrow>
       Some (case codeToError code of Some e \<Rightarrow> Inl e
           | None \<Rightarrow> Inr \<lparr>sp_Y = Some (the_bytes (os2 ! 0)), sp_HID = Some (the_bytes (os ! 1)),
               sp_HTID = Some (the_bytes (os ! 2)), sp_U = None, sp_UT = None\<rparr>, rand',
         mem @ [Slot (os ! 0) True, Slot (os ! 1) True, Slot (os ! 2) True, Slot (clear_opt core (os2 ! 0)) True]))"
  using oct_wf_octet_of [OF small]
  by (simp add: ServerPass1_def randomGenerate_eq [OF api] wrapper_defs c_call_frame [OF mpin_okD(7) [OF api]]
      out_bytes [OF mpin_okD(7) [OF api]] cgo split: option.splits)

lemma ServerPass2_eq:
  assumes api: "mpin_ok api" and small: "list_all small [hid, htid, y, ss, u, ut, v, pa]"
  shows "ServerPass2 core api hid htid y ss u ut v pa mem =
    (case MPIN_SERVER_2 api 0 [oct hid, oct htid, oct y, oct ss, oct u, oct ut, oct v, None, None, oct pa] of (code, os) \<Rightarrow>
       Some (codeToError code,
         mem @ [Slot (os ! 0) True, Slot (os ! 1) True, Slot (os ! 2) True, Slot (clear_opt core (os ! 3)) True,
           Slot (os ! 4) True, Slot (os ! 5) True, Slot (os ! 6) True, Slot (os ! 9) True]))"
proof -
  have "list_all (\<lambda>v. pred_option oct_wf (oct v)) [hid, htid, y, ss, u, ut, v, pa]"
    using small by (simp add: oct_wf_octet_of)
  then show ?thesis
    by (simp add: ServerPass2_def wrapper_defs c_call_frame [OF mpin_okD(8) [OF api]] cgo)
qed

lemma ClientOnePass_eq:
  assumes api: "mpin_ok api" and small: "list_all small [ident, token, msg]"
  shows "ClientOnePass now core api ident pin rng token msg mem =
    (case MPIN_CLIENT api zkpHashFunc 0 rng (cint pin) (cint now)
        [oct ident, fresh PGS_BLS381, oct token, fresh G1SBLS381, fresh G1SBLS381, fresh G1SBLS381, None, oct msg, fresh PGS_BLS381] of
       ((code, rng'), os) \<Rightarrow>
       Some (case codeToError code of Some e \<Rightarrow> Inl e
           | None \<Rightarrow> Inr \<lparr>c1_ID = ident, c1_ET = now, c1_U = Some (the_bytes (os ! 4)), c1_V = Some (the_bytes (os ! 3))\<rparr>, rng',
         mem @ [Slot (os ! 0) True, Slot (clear_opt core (os ! 2)) True, Slot (os ! 4) True, Slot (os ! 5) True,
           Slot (clear_opt core (os ! 1)) True, Slot (os ! 8) True, Slot (os ! 3) True, Slot (os ! 7) True]))"
proof -
  have "list_all (\<lambda>v. pred_option oct_wf (oct v)) [ident, token, msg]"
    using small by (simp add: oct_wf_octet_of)
  then show ?thesis
    by (simp add: ClientOnePass_def wrapper_defs c_call_frame [OF mpin_okD(2) [OF api]]
        out_bytes [OF mpin_okD(2) [OF api]] cgo split: option.splits)
qed

definition server_args :: "Client1PassResult \<Rightarrow> slice \<Rightarrow> slice \<Rightarrow> octet option list" where
  "server_args client ss msg = [fresh G1SBLS381, fresh G1SBLS381, fresh PGS_BLS381, oct ss, oct (c1_U client), None,
     oct (c1_V client), None, None, oct (c1_ID client), oct msg, None]"

lemma ServerOnePass_eq:
  assumes api: "mpin_ok api" and small: "list_all small [ss, msg, c1_ID client, c1_U client, c1_V client]"
    and time: "\<not> time_out_of_bounds now (c1_ET client) timeBounds"
  shows "ServerOnePass now core api client ss msg timeBounds mem =
    (case MPIN_SERVER api zkpHashFunc 0 (cint (c1_ET client)) (server_args client ss msg) of (code, os) \<Rightarrow>
       Some (codeToError code,
         mem @ [Slot (clear_opt core (os ! 3)) True, Slot (os ! 9) True, Slot (os ! 4) True, Slot (os ! 6) True,
           Slot (os ! 2) True, Slot (os ! 0) True, Slot (os ! 1) True, Slot (os ! 10) True]))"
proof -
  have "list_all (\<lambda>v. pred_option oct_wf (oct v)) [ss, msg, c1_ID client, c1_U client, c1_V client]"
    using small by (simp add: oct_wf_octet_of)
  then show ?thesis
    using time by (simp add: ServerOnePass_def wrapper_defs server_args_def c_call_frame [OF mpin_okD(6) [OF api]] cgo)
qed

lemma hashID_eq:
  assumes api: "mpin_ok api" and small: "small ident"
  shows "hashID api ident mem =
    (case HASH_ID api zkpHashFunc [oct ident, fresh PFS_BLS381] of (_, os) \<Rightarrow>
       Some (the_bytes (os ! 1), mem @ [Slot (os ! 0) True, Slot (os ! 1) True]))"
  using oct_wf_octet_of [OF small]
  by (simp add: hashID_def wrapper_defs c_call_frame [OF mpin_okD(13) [OF api]]
      out_bytes [OF mpin_okD(13) [OF api]] cgo)

section \<open>The time check\<close>

lemma float64_exact: "abs x < 2 ^ 53 \<Longrightarrow> float64 x = x"
proof -
  assume x: "abs x < 2 ^ 53"
  have "float_shift (Suc 10) (abs x) = 0"
    by (subst float_shift.simps) (simp only: x if_True)
  then have "float_shift 11 (abs x) = 0" by simp
  then show ?thesis by (simp add: float64_def Let_def sgn_mult_abs)
qed

lemma float_shift_large: "float_shift n a = Suc s \<Longrightarrow> 2 ^ 53 \<le> a div 2 ^ s"
proof (induction n arbitrary: a s)
  case (Suc n)
  then show ?case
  proof (cases s)
    case 0
    with Suc.prems show ?thesis by (simp split: if_splits)
  next
    case (Suc t)
    with Suc.prems have "float_shift n (a div 2) = Suc t" by (simp split: if_splits)
    from Suc.IH [OF this] show ?thesis using Suc by (simp add: zdiv_zmult2_eq)
  qed
qed simp

lemma float64_large: "2 ^ 53 \<le> abs x \<Longrightarrow> 2 ^ 53 \<le> abs (float64 x)"
proof -
  assume x: "2 ^ 53 \<le> abs x"
  define a where "a = abs x"
  define s where "s = float_shift 11 a"
  define q where "q = a div 2 ^ s"
  have q: "2 ^ 53 \<le> q * 2 ^ s"
  proof (cases s)
    case 0
    then show ?thesis using x by (simp add: q_def a_def)
  next
    case (Suc t)
    then have "2 ^ 53 \<le> a div 2 ^ t" using float_shift_large [of 11 a t] by (simp add: s_def)
    then have "2 ^ 53 div 2 \<le> a div 2 ^ t div 2" by (rule zdiv_mono1) simp
    moreover have "q = a div 2 ^ t div 2"
      using zdiv_zmult2_eq [of 2 a "2 ^ t"] Suc by (simp add: q_def mult.commute)
    ultimately have "2 ^ 52 \<le> q" by simp
    moreover have "2 ^ 1 \<le> (2::int) ^ s" using Suc by (intro power_increasing) auto
    ultimately have "2 ^ 52 * 2 ^ 1 \<le> q * 2 ^ s" by (intro mult_mono) auto
    then show ?thesis by simp
  qed
  define q' where "q' = (if s > 0 \<and> (a mod 2 ^ s > 2 ^ s div 2 \<or> a mod 2 ^ s = 2 ^ s div 2 \<and> odd q) then q + 1 else q)"
  have "q * 2 ^ s \<le> q' * 2 ^ s" by (simp add: q'_def)
  with q have q': "2 ^ 53 \<le> q' * 2 ^ s" by linarith
  have "float64 x = sgn x * (q' * 2 ^ s)"
    unfolding float64_def Let_def a_def [symmetric] s_def [symmetric] q_def [symmetric] q'_def ..
  moreover have "abs (sgn x) = 1" using x by (auto simp: abs_sgn_eq)
  ultimately have "abs (float64 x) = abs (q' * 2 ^ s)" by (simp add: abs_mult)
  then show ?thesis using q' by linarith
qed

lemma time_check:
  assumes now: "0 \<le> now" "now < 2 ^ 40" and ET: "in_int64 ET" and tb: "0 \<le> tb" "tb < 2 ^ 40"
  shows "time_out_of_bounds now ET tb \<longleftrightarrow> tb < abs (now - ET)"
proof -
  have t: "float64 tb = tb" using tb by (intro float64_exact) simp
  define d where "d = wrap64 (now - ET)"
  have big: ?thesis if "2 ^ 53 \<le> abs d" "2 ^ 53 \<le> abs (now - ET)"
    using float64_large [OF that(1)] that(2) tb by (simp add: time_out_of_bounds_def t d_def)
  show ?thesis
  proof (cases "in_int64 (now - ET)")
    case True
    then have d: "d = now - ET" by (simp add: d_def wrap64_id)
    show ?thesis
    proof (cases "abs d < 2 ^ 53")
      case True
      then have "time_out_of_bounds now ET tb \<longleftrightarrow> abs d > tb"
        using float64_exact [OF True] by (simp only: time_out_of_bounds_def t d_def)
      then show ?thesis by (simp only: d)
    next
      case False
      then show ?thesis using big d by simp
    qed
  next
    case False
    with now ET have x: "2 ^ 63 \<le> now - ET" "now - ET < 2 ^ 63 + 2 ^ 40" by (auto simp: in_int64_def)
    then have "d = now - ET - 2 ^ 64" unfolding d_def by (intro wrap64_over) auto
    then show ?thesis using x by (intro big) auto
  qed
qed

section \<open>Properties\<close>

definition idle_mpin :: mpin_api where
  "idle_mpin = \<lparr>MPIN_EXTRACT_PIN = (\<lambda>h p os. (0, os)), MPIN_CLIENT = (\<lambda>h d R p t os. ((0, R), os)),
     MPIN_CLIENT_1 = (\<lambda>h d R p os. ((0, R), os)), MPIN_RANDOM_GENERATE = (\<lambda>R os. ((0, R), os)),
     MPIN_CLIENT_2 = (\<lambda>os. (0, os)), MPIN_SERVER = (\<lambda>h d t os. (MPIN_BAD_PIN, os)), MPIN_SERVER_1 = (\<lambda>h d os. ((), os)),
     MPIN_SERVER_2 = (\<lambda>d os. (0, os)), MPIN_RECOMBINE_G1 = (\<lambda>os. (0, os)), MPIN_RECOMBINE_G2 = (\<lambda>os. (0, os)),
     MPIN_GET_CLIENT_SECRET = (\<lambda>os. (0, os)), MPIN_GET_SERVER_SECRET = (\<lambda>os. (0, os)), HASH_ID = (\<lambda>h os. ((), os))\<rparr>"

lemma idle_mpin_ok: "mpin_ok idle_mpin"
  by (simp add: mpin_ok_def idle_mpin_def)

text \<open>
  The time check of the one-pass server is exact: for a clock and a tolerance below \<open>2^40\<close> seconds
  and every 64-bit time stamp, also those whose difference to the clock overflows and those beyond
  the precision of \<open>float64\<close>, it refuses exactly the time stamps farther from the clock than the
  tolerance.
\<close>

theorem time_check_exact:
  assumes now: "0 \<le> now" "now < 2 ^ 40" and ET: "in_int64 ET" and tb: "0 \<le> tb" "tb < 2 ^ 40"
  shows "time_out_of_bounds now ET tb \<longleftrightarrow> tb < abs (now - ET)"
  using assms by (rule time_check)

theorem time_check_exact_witness:
  "time_out_of_bounds 1700000000 (- (2 ^ 63)) 60 \<longleftrightarrow> (60 :: int) < abs (1700000000 - (- (2 ^ 63)))"
  by (rule time_check_exact) (simp_all add: in_int64_def)

text \<open>
  The wrappers that make secrets (master, server and client secrets, tokens): each calls the
  library once, returns its output and the error of its return code, frees every block, and wipes
  every block that held a secret, its result included.
\<close>

theorem mpin_secrets_spec:
  assumes core: "core_ok core" and api: "mpin_ok api" and small: "small ms" "small ident" "small (Some cs)"
  shows "(case MPIN_RANDOM_GENERATE api rand [fresh PGS_BLS381] of ((code, rand'), os) \<Rightarrow>
      \<exists>mem'. NewMasterSecret core api rand mem = Some ((the_bytes (os ! 0), codeToError code), rand', mem') \<and> frees mem [0] mem') \<and>
    (case MPIN_GET_SERVER_SECRET api [oct ms, fresh G2SBLS381] of (code, os) \<Rightarrow>
      \<exists>mem'. GetServerSecret core api ms mem = Some ((the_bytes (os ! 1), codeToError code), mem') \<and> frees mem [0, 1] mem') \<and>
    (case MPIN_GET_CLIENT_SECRET api [oct ms, oct ident, fresh G1SBLS381] of (code, os) \<Rightarrow>
      \<exists>mem'. GetClientSecret core api ms ident mem = Some ((the_bytes (os ! 2), codeToError code), mem') \<and> frees mem [0, 2] mem') \<and>
    (case MPIN_EXTRACT_PIN api zkpHashFunc (cint pin) [oct ident, oct (Some cs)] of (code, os) \<Rightarrow>
      \<exists>mem'. ExtractPIN core api ident pin (Some cs) mem = Some ((the_bytes (os ! 1), codeToError code), mem') \<and> frees mem [1] mem')"
  using small
  by (simp add: NewMasterSecret_def randomGenerate_eq [OF api] GetServerSecret_eq [OF api] GetClientSecret_eq [OF api]
      ExtractPIN_eq [OF api] frees_append wiped_clear_opt [OF core] numeral_2_eq_2 split: prod.splits)

theorem mpin_secrets_spec_witness:
  "\<exists>mem'. GetServerSecret idle_core idle_mpin (Some [1]) [] = Some ((the_bytes (fresh G2SBLS381), None), mem') \<and> frees [] [0, 1] mem'"
  using mpin_secrets_spec [OF idle_core_ok idle_mpin_ok, of "Some [1]" None "[]" None "[]" 0]
  by (simp add: small_def idle_mpin_def codeToError_def amclOk_def)

text \<open>What combining shares means: the first share as it is, then one call per further share until
  the library reports an error.\<close>

fun combine_shares :: "(slice \<Rightarrow> slice \<Rightarrow> bytes \<times> gerr option) \<Rightarrow> slice \<Rightarrow> slice list \<Rightarrow> slice \<times> gerr option" where
  "combine_shares f secret [] = (secret, None)"
| "combine_shares f secret (share # shares) =
     (case f secret share of (b, err) \<Rightarrow> if err \<noteq> None then (Some b, err) else combine_shares f (Some b) shares)"

definition recombine_val :: "int cfun \<Rightarrow> int \<Rightarrow> slice \<Rightarrow> slice \<Rightarrow> bytes \<times> gerr option" where
  "recombine_val f n p1 p2 = (case f [oct p1, oct p2, fresh n] of (code, os) \<Rightarrow> (the_bytes (os ! 2), codeToError code))"

lemma recombine_loop_eq:
  assumes step: "\<And>p1 p2 mem. small p1 \<Longrightarrow> small p2 \<Longrightarrow>
      \<exists>mem'. recombine p1 p2 mem = Some (f p1 p2, mem') \<and> frees mem [] mem' \<and> small (Some (fst (f p1 p2)))"
    and small: "small secret" "list_all small shares"
  shows "\<exists>mem'. recombine_loop recombine shares secret mem = Some (combine_shares f secret shares, mem') \<and> frees mem [] mem'"
  using small
proof (induction shares arbitrary: secret mem)
  case (Cons share shares)
  obtain m1 where m1: "recombine secret share mem = Some (f secret share, m1)" "frees mem [] m1"
      "small (Some (fst (f secret share)))"
    using step [of secret share mem] Cons.prems by auto
  obtain b err where f: "f secret share = (b, err)" by (metis prod.exhaust)
  show ?case
  proof (cases err)
    case None
    obtain m2 where "recombine_loop recombine shares (Some b) m1 = Some (combine_shares f (Some b) shares, m2)" "frees m1 [] m2"
      using Cons.IH [of "Some b" m1] m1(3) f Cons.prems by auto
    then show ?thesis using m1 f None frees_trans [of mem "[]" m1 "[]" m2] by simp
  qed (use m1 f in simp)
qed simp

lemma recombine_step:
  assumes core: "core_ok core" and api: "mpin_ok api" and small: "small p1" "small p2"
  shows "\<exists>mem'. recombineG1 core api p1 p2 mem = Some (recombine_val (MPIN_RECOMBINE_G1 api) G1SBLS381 p1 p2, mem') \<and>
      frees mem [] mem' \<and> small (Some (fst (recombine_val (MPIN_RECOMBINE_G1 api) G1SBLS381 p1 p2)))"
    and "\<exists>mem'. recombineG2 core api p1 p2 mem = Some (recombine_val (MPIN_RECOMBINE_G2 api) G2SBLS381 p1 p2, mem') \<and>
      frees mem [] mem' \<and> small (Some (fst (recombine_val (MPIN_RECOMBINE_G2 api) G2SBLS381 p1 p2)))"
proof -
  have wf: "list_all (pred_option oct_wf) [oct p1, oct p2, fresh G1SBLS381]" "list_all (pred_option oct_wf) [oct p1, oct p2, fresh G2SBLS381]"
    using oct_wf_octet_of [OF small(1)] oct_wf_octet_of [OF small(2)] by simp_all
  have "oct_max (fresh_octet G1SBLS381) < 2 ^ 31" "oct_max (fresh_octet G2SBLS381) < 2 ^ 31"
    by (simp_all add: fresh_octet_def cint_id G1SBLS381_def G2SBLS381_def amcl_const)
  then show "\<exists>mem'. recombineG1 core api p1 p2 mem = Some (recombine_val (MPIN_RECOMBINE_G1 api) G1SBLS381 p1 p2, mem') \<and>
      frees mem [] mem' \<and> small (Some (fst (recombine_val (MPIN_RECOMBINE_G1 api) G1SBLS381 p1 p2)))"
    and "\<exists>mem'. recombineG2 core api p1 p2 mem = Some (recombine_val (MPIN_RECOMBINE_G2 api) G2SBLS381 p1 p2, mem') \<and>
      frees mem [] mem' \<and> small (Some (fst (recombine_val (MPIN_RECOMBINE_G2 api) G2SBLS381 p1 p2)))"
    using cfun_ok_bytes [OF mpin_okD(9) [OF api] wf(1), of 2] cfun_ok_bytes [OF mpin_okD(10) [OF api] wf(2), of 2]
    by (auto simp: recombine_eq [OF api small] recombine_val_def frees_append small_def split: prod.splits)
qed

text \<open>
  Recombining shares: no share gives nil without an error, one share is returned without being
  checked, and more are combined one by one with the library, an error stopping the loop and being
  returned with the last output. Nothing leaks, on error paths neither.
\<close>

theorem Recombine_spec:
  assumes core: "core_ok core" and api: "mpin_ok api" and small: "small share" "list_all small shares"
  shows "RecombineServerSecret core api [] mem = Some ((None, None), mem) \<and>
    RecombineClientSecret core api [] mem = Some ((None, None), mem) \<and>
    RecombineServerSecret core api [share] mem = Some ((share, None), mem) \<and>
    (\<exists>mem'. RecombineServerSecret core api (share # shares) mem =
       Some (combine_shares (recombine_val (MPIN_RECOMBINE_G2 api) G2SBLS381) share shares, mem') \<and> frees mem [] mem') \<and>
    (\<exists>mem'. RecombineClientSecret core api (share # shares) mem =
       Some (combine_shares (recombine_val (MPIN_RECOMBINE_G1 api) G1SBLS381) share shares, mem') \<and> frees mem [] mem')"
  using recombine_loop_eq [OF recombine_step(1) [OF core api] small]
    recombine_loop_eq [OF recombine_step(2) [OF core api] small]
  by (simp add: RecombineServerSecret_def RecombineClientSecret_def)

theorem Recombine_spec_witness:
  "\<exists>mem'. RecombineServerSecret idle_core idle_mpin [Some [1], Some [2], None] [] =
     Some (combine_shares (recombine_val (MPIN_RECOMBINE_G2 idle_mpin) G2SBLS381) (Some [1]) [Some [2], None], mem') \<and> frees [] [] mem'"
  using Recombine_spec [OF idle_core_ok idle_mpin_ok, of "Some [1]" "[Some [2], None]" "[]"] by (simp add: small_def)

text \<open>
  The client side of the protocol: the options run in order and the first error stops the call
  before anything is allocated; the passes return the library's outputs exactly when it reports
  success; the generator's new state is handed on; the blocks of the token, of the random number and of the
  secret are wiped, and every block is freed.
\<close>

theorem client_passes_spec:
  assumes core: "core_ok core" and api: "mpin_ok api"
    and small: "small ident" "small token" "small y" "small msg"
  shows "(case apply_options opts \<lparr>cp_X = None, cp_SEC = None, cp_U = None, cp_UT = None\<rparr> of
      Inl e \<Rightarrow> ClientPass1 core api ident pin rng token opts mem = Some (Inl e, rng, mem)
    | Inr p1 \<Rightarrow> small (cp_X p1) \<longrightarrow>
        (case MPIN_CLIENT_1 api zkpHashFunc 0 rng (cint pin)
            [oct ident, pass1_x (cp_X p1), oct token, fresh G1SBLS381, fresh G1SBLS381, fresh G1SBLS381, None] of
         ((code, rng'), os) \<Rightarrow> \<exists>r mem'. ClientPass1 core api ident pin rng token opts mem = Some (r, rng', mem') \<and>
           (case codeToError code of Some e \<Rightarrow> r = Inl e
            | None \<Rightarrow> r = Inr \<lparr>cp_X = Some (the_bytes (os ! 1)), cp_SEC = Some (the_bytes (os ! 3)),
                cp_U = Some (the_bytes (os ! 4)), cp_UT = Some (the_bytes (os ! 5))\<rparr>) \<and> frees mem [0, 2, 3] mem')) \<and>
    (small (cp_X p) \<and> small (cp_SEC p) \<and> cp_SEC p \<noteq> None \<longrightarrow>
      (case MPIN_CLIENT_2 api [oct (cp_X p), oct y, oct (cp_SEC p)] of (code, os) \<Rightarrow>
         \<exists>mem'. ClientPass2 core api p y mem = Some ((the_bytes (os ! 2), codeToError code), mem') \<and> frees mem [0] mem')) \<and>
    (case MPIN_CLIENT api zkpHashFunc 0 rng (cint pin) (cint now)
        [oct ident, fresh PGS_BLS381, oct token, fresh G1SBLS381, fresh G1SBLS381, fresh G1SBLS381, None, oct msg, fresh PGS_BLS381] of
       ((code, rng'), os) \<Rightarrow> \<exists>r mem'. ClientOnePass now core api ident pin rng token msg mem = Some (r, rng', mem') \<and>
         (case codeToError code of Some e \<Rightarrow> r = Inl e
          | None \<Rightarrow> r = Inr \<lparr>c1_ID = ident, c1_ET = now, c1_U = Some (the_bytes (os ! 4)), c1_V = Some (the_bytes (os ! 3))\<rparr>) \<and>
         frees mem [1, 4] mem')"
proof (intro conjI)
  show "case apply_options opts \<lparr>cp_X = None, cp_SEC = None, cp_U = None, cp_UT = None\<rparr> of
      Inl e \<Rightarrow> ClientPass1 core api ident pin rng token opts mem = Some (Inl e, rng, mem)
    | Inr p1 \<Rightarrow> small (cp_X p1) \<longrightarrow>
        (case MPIN_CLIENT_1 api zkpHashFunc 0 rng (cint pin)
            [oct ident, pass1_x (cp_X p1), oct token, fresh G1SBLS381, fresh G1SBLS381, fresh G1SBLS381, None] of
         ((code, rng'), os) \<Rightarrow> \<exists>r mem'. ClientPass1 core api ident pin rng token opts mem = Some (r, rng', mem') \<and>
           (case codeToError code of Some e \<Rightarrow> r = Inl e
            | None \<Rightarrow> r = Inr \<lparr>cp_X = Some (the_bytes (os ! 1)), cp_SEC = Some (the_bytes (os ! 3)),
                cp_U = Some (the_bytes (os ! 4)), cp_UT = Some (the_bytes (os ! 5))\<rparr>) \<and> frees mem [0, 2, 3] mem')"
  proof (cases "apply_options opts \<lparr>cp_X = None, cp_SEC = None, cp_U = None, cp_UT = None\<rparr>")
    case (Inl e)
    then show ?thesis by (simp add: ClientPass1_def)
  next
    case (Inr p1)
    then show ?thesis
      using ClientPass1_eq [OF api small(1,2) _ Inr, of core pin rng mem]
      by (simp add: frees_append wiped_clear_opt [OF core] eval_nat_numeral case_prod_beta split: option.splits)
  qed
  show "small (cp_X p) \<and> small (cp_SEC p) \<and> cp_SEC p \<noteq> None \<longrightarrow>
      (case MPIN_CLIENT_2 api [oct (cp_X p), oct y, oct (cp_SEC p)] of (code, os) \<Rightarrow>
         \<exists>mem'. ClientPass2 core api p y mem = Some ((the_bytes (os ! 2), codeToError code), mem') \<and> frees mem [0] mem')"
    using ClientPass2_eq [OF api, of p y core mem] small
    by (auto simp: frees_append wiped_clear_opt [OF core] case_prod_beta)
  show "case MPIN_CLIENT api zkpHashFunc 0 rng (cint pin) (cint now)
        [oct ident, fresh PGS_BLS381, oct token, fresh G1SBLS381, fresh G1SBLS381, fresh G1SBLS381, None, oct msg, fresh PGS_BLS381] of
       ((code, rng'), os) \<Rightarrow> \<exists>r mem'. ClientOnePass now core api ident pin rng token msg mem = Some (r, rng', mem') \<and>
         (case codeToError code of Some e \<Rightarrow> r = Inl e
          | None \<Rightarrow> r = Inr \<lparr>c1_ID = ident, c1_ET = now, c1_U = Some (the_bytes (os ! 4)), c1_V = Some (the_bytes (os ! 3))\<rparr>) \<and>
         frees mem [1, 4] mem'"
    using ClientOnePass_eq [OF api, of ident token msg now core pin rng mem] small
    by (simp add: frees_append wiped_clear_opt [OF core] eval_nat_numeral case_prod_beta split: option.splits)
qed

theorem client_passes_spec_witness:
  "ClientPass1 idle_core idle_mpin (Some [1]) 1234 None (Some [5]) [WithPredefinedX (Some [9])] [] \<noteq> None"
  using client_passes_spec [OF idle_core_ok idle_mpin_ok, where ident = "Some [1]" and token = "Some [5]"
      and y = None and msg = None and opts = "[WithPredefinedX (Some [9])]" and mem = "[]" and pin = 1234 and rng = None, THEN conjunct1]
  by (auto simp: small_def WithPredefinedX_def idle_mpin_def)

text \<open>
  The server side of the protocol: a one-pass authentication is accepted exactly when the time stamp is
  within the tolerance of the clock and the library accepts it, with a time stamp outside the
  tolerance refused before any call; the three-pass check is the library's decision. Every block
  is freed and the block of the server secret is wiped.
\<close>

theorem server_passes_spec:
  assumes core: "core_ok core" and api: "mpin_ok api"
    and small: "list_all small [hid, htid, y, ss, u, ut, v, pa]" "list_all small [msg, c1_ID client, c1_U client, c1_V client]"
    and time: "0 \<le> now" "now < 2 ^ 40" "in_int64 (c1_ET client)" "0 \<le> tb" "tb < 2 ^ 40"
  shows "(if tb < abs (now - c1_ET client)
      then ServerOnePass now core api client ss msg tb mem = Some (Some ErrInvalidTime, mem)
      else (case MPIN_SERVER api zkpHashFunc 0 (cint (c1_ET client)) (server_args client ss msg) of (code, os) \<Rightarrow>
        \<exists>mem'. ServerOnePass now core api client ss msg tb mem = Some (codeToError code, mem') \<and> frees mem [0] mem' \<and>
          (codeToError code = None \<longleftrightarrow> code = MPIN_OK))) \<and>
    (case MPIN_SERVER_2 api 0 [oct hid, oct htid, oct y, oct ss, oct u, oct ut, oct v, None, None, oct pa] of (code, os) \<Rightarrow>
      \<exists>mem'. ServerPass2 core api hid htid y ss u ut v pa mem = Some (codeToError code, mem') \<and> frees mem [3] mem')"
proof (intro conjI)
  note chk = time_check [OF time(1-5)]
  show "if tb < abs (now - c1_ET client)
      then ServerOnePass now core api client ss msg tb mem = Some (Some ErrInvalidTime, mem)
      else (case MPIN_SERVER api zkpHashFunc 0 (cint (c1_ET client)) (server_args client ss msg) of (code, os) \<Rightarrow>
        \<exists>mem'. ServerOnePass now core api client ss msg tb mem = Some (codeToError code, mem') \<and> frees mem [0] mem' \<and>
          (codeToError code = None \<longleftrightarrow> code = MPIN_OK))"
  proof (cases "tb < abs (now - c1_ET client)")
    case True
    then show ?thesis using chk by (simp add: ServerOnePass_def)
  next
    case False
    then have "\<not> time_out_of_bounds now (c1_ET client) tb" using chk by simp
    from ServerOnePass_eq [OF api _ this, of ss msg core mem] small False show ?thesis
      by (simp add: frees_append wiped_clear_opt [OF core] case_prod_beta BLS_OK_def MPIN_OK_def)
  qed
  show "case MPIN_SERVER_2 api 0 [oct hid, oct htid, oct y, oct ss, oct u, oct ut, oct v, None, None, oct pa] of (code, os) \<Rightarrow>
      \<exists>mem'. ServerPass2 core api hid htid y ss u ut v pa mem = Some (codeToError code, mem') \<and> frees mem [3] mem'"
    using ServerPass2_eq [OF api small(1), of core mem]
    by (simp add: frees_append wiped_clear_opt [OF core] eval_nat_numeral case_prod_beta)
qed

theorem server_passes_spec_witness:
  "ServerOnePass 1000 idle_core idle_mpin \<lparr>c1_ID = Some [1], c1_ET = 900, c1_U = None, c1_V = None\<rparr> (Some [2]) None 60 []
    = Some (Some ErrInvalidTime, [])"
  using server_passes_spec [OF idle_core_ok idle_mpin_ok, where hid = None and htid = None and y = None and ss = "Some [2]"
      and u = None and ut = None and v = None and pa = None and msg = None and now = 1000 and tb = 60 and mem = "[]"
      and client = "\<lparr>c1_ID = Some [1], c1_ET = 900, c1_U = None, c1_V = None\<rparr>"]
  by (simp add: small_def in_int64_def)

lemma cint_eq_mod: "cint a = cint b \<longleftrightarrow> a mod 2 ^ 32 = b mod 2 ^ 32"
  using signed_take_bit_eq_iff_take_bit_eq [of 31 a b] by (simp add: cint_def take_bit_eq_mod)

text \<open>
  The truncation of the time stamp to the 32 bits of a C \<open>int\<close> is harmless: among the time stamps that
  the check accepts at one moment, with a tolerance below \<open>2^31\<close> seconds, no two are truncated to
  the same value.
\<close>

theorem timestamp_truncation_injective:
  assumes now: "0 \<le> now" "now < 2 ^ 40" and tb: "0 \<le> tb" "tb < 2 ^ 31"
    and a: "in_int64 a" "\<not> time_out_of_bounds now a tb" and b: "in_int64 b" "\<not> time_out_of_bounds now b tb"
    and same: "cint a = cint b"
  shows "a = b"
proof -
  have tb': "tb < 2 ^ 40" "tb < 2147483648" using tb by simp_all
  have "abs (now - a) \<le> tb" "abs (now - b) \<le> tb"
    using time_check [OF now a(1) tb(1) tb'(1)] time_check [OF now b(1) tb(1) tb'(1)] a(2) b(2) by auto
  then have "abs (a - b) < 4294967296" using tb'(2) by linarith
  moreover have "(a - b) mod 2 ^ 32 = 0"
    using same by (simp only: cint_eq_mod mod_eq_dvd_iff dvd_eq_mod_eq_0)
  then obtain k where "a - b = 2 ^ 32 * k" by (auto simp only: dvd_eq_mod_eq_0 [symmetric] dvd_def)
  ultimately have "k = 0" by auto
  then show ?thesis using \<open>a - b = 2 ^ 32 * k\<close> by simp
qed

theorem timestamp_truncation_injective_witness:
  "(1700000000 :: int) = 1700000000"
  by (rule timestamp_truncation_injective [of 1700000000 60])
     (simp_all add: in_int64_def time_out_of_bounds_def wrap64_id float64_exact)

text \<open>
  An identity survives its textual form: for a JSON encoder and decoder that are inverse on the
  fields, parsing the hexadecimal form of a new identity gives the same identity, with the same raw
  bytes; a string that is not hexadecimal or not JSON gives \<open>ErrInvalidID\<close>.
\<close>

theorem ID_roundtrip:
  assumes json: "\<And>x b. marshal_id js x = Inr b \<Longrightarrow> unmarshal_id js b = Inr x" and new: "NewID now js ident = Inr i"
  shows "IDFromHex js (ID_String i) = Inr i \<and> IDFromBytes js (slice_bytes (ID_Bytes i)) = Inr i \<and>
    (hex_decode s = Inl e \<longrightarrow> IDFromHex js s = Inl ErrInvalidID)"
  using new json
  by (auto simp: NewID_def IDFromHex_def IDFromBytes_def ID_String_def ID_Bytes_def Let_def split: sum.splits)

definition toy_json :: json_id where
  "toy_json = \<lparr>marshal_id = (\<lambda>(a, b, c). if b = curveName \<and> c = 5 then Inr (bytes_of a) else Inl KVNotFound),
     unmarshal_id = (\<lambda>b. Inr (string_of b, curveName, 5))\<rparr>"

theorem ID_roundtrip_witness:
  "IDFromHex toy_json (ID_String \<lparr>id_Identity = ''x'', id_Curve = curveName, id_CreatedAt = 5, id_rawID = Some (bytes_of ''x'')\<rparr>)
     = Inr \<lparr>id_Identity = ''x'', id_Curve = curveName, id_CreatedAt = 5, id_rawID = Some (bytes_of ''x'')\<rparr>"
  by (rule ID_roundtrip [where now = 5 and ident = "''x''", THEN conjunct1])
     (auto simp: NewID_def toy_json_def split: if_splits)

end
