(* ===== verification/Golib.thy ===== *)
theory Golib
  imports Prelude
begin

text \<open>
  The parts of Go's standard library that the service under \<open>internal/\<close> relies on, written after
  their documentation: \<open>encoding/base64\<close> (standard padded and URL raw), \<open>strings.Split\<close>,
  \<open>strings.TrimSpace\<close>, \<open>strings.ToLower\<close>, the decimal form of \<open>%d\<close>, and \<open>time.Duration\<close>
  arithmetic in nanoseconds. The lemmas give the round trips and the bounds the components use.
\<close>

section \<open>encoding/base64\<close>

definition b64_std :: string where
  "b64_std = ''ABCDEFGHIJKLMNOPQRSTUVWXYZabcdefghijklmnopqrstuvwxyz0123456789+/''"

definition b64_url :: string where
  "b64_url = ''ABCDEFGHIJKLMNOPQRSTUVWXYZabcdefghijklmnopqrstuvwxyz0123456789-_''"

fun b64_index :: "string \<Rightarrow> char \<Rightarrow> nat option" where
  "b64_index [] c = None"
| "b64_index (a # as) c = (if a = c then Some 0 else map_option Suc (b64_index as c))"

definition s1 :: "byte \<Rightarrow> nat" where "s1 a = unat a div 4"
definition s2 :: "byte \<Rightarrow> byte \<Rightarrow> nat" where "s2 a b = unat a mod 4 * 16 + unat b div 16"
definition s3 :: "byte \<Rightarrow> byte \<Rightarrow> nat" where "s3 b c = unat b mod 16 * 4 + unat c div 64"
definition s4 :: "byte \<Rightarrow> nat" where "s4 c = unat c mod 64"

fun b64_encode :: "string \<Rightarrow> bool \<Rightarrow> bytes \<Rightarrow> string" where
  "b64_encode al pad [] = []"
| "b64_encode al pad [a] = [al ! s1 a, al ! s2 a 0] @ (if pad then ''=='' else [])"
| "b64_encode al pad [a, b] = [al ! s1 a, al ! s2 a b, al ! s3 b 0] @ (if pad then ''='' else [])"
| "b64_encode al pad (a # b # c # bs) = al ! s1 a # al ! s2 a b # al ! s3 b c # al ! s4 c # b64_encode al pad bs"

text \<open>The bytes of a quantum of two to four sextets.\<close>

fun b64_bytes :: "nat list \<Rightarrow> bytes" where
  "b64_bytes [x, y] = [of_nat (x * 4 + y div 16)]"
| "b64_bytes [x, y, z] = [of_nat (x * 4 + y div 16), of_nat (y mod 16 * 16 + z div 4)]"
| "b64_bytes [x, y, z, w] = [of_nat (x * 4 + y div 16), of_nat (y mod 16 * 16 + z div 4), of_nat (z mod 4 * 64 + w)]"
| "b64_bytes _ = []"

text \<open>
  \<open>DecodeString\<close> returns what it decoded before an error together with the error (here: whether
  there was none). The sextets of the current quantum are collected in the first list.
\<close>

fun b64_loop :: "string \<Rightarrow> bool \<Rightarrow> nat list \<Rightarrow> string \<Rightarrow> bytes \<times> bool" where
  "b64_loop al pad acc [] =
     (if acc = [] then ([], True)
      else if length acc = 1 \<or> pad then ([], False)
      else (b64_bytes acc, True))"
| "b64_loop al pad acc (c # cs) =
     (case b64_index al c of
        Some v \<Rightarrow>
          if length acc = 3
          then (case b64_loop al pad [] cs of (bs, ok) \<Rightarrow> (b64_bytes (acc @ [v]) @ bs, ok))
          else b64_loop al pad (acc @ [v]) cs
      | None \<Rightarrow>
          if \<not> pad \<or> c \<noteq> CHR ''='' \<or> length acc < 2 then ([], False)
          else if length acc = 2
          then (if cs = [] \<or> hd cs \<noteq> CHR ''='' then ([], False) else (b64_bytes acc, tl cs = []))
          else (b64_bytes acc, cs = []))"

definition b64_decode :: "string \<Rightarrow> bool \<Rightarrow> string \<Rightarrow> bytes \<times> bool" where
  "b64_decode al pad s = b64_loop al pad [] (filter (\<lambda>c. c \<noteq> CHR 0x0A \<and> c \<noteq> CHR 0x0D) s)"

definition std_encode :: "bytes \<Rightarrow> string" where "std_encode = b64_encode b64_std True"
definition std_decode :: "string \<Rightarrow> bytes \<times> bool" where "std_decode = b64_decode b64_std True"
definition raw_url_encode :: "bytes \<Rightarrow> string" where "raw_url_encode = b64_encode b64_url False"
definition raw_url_decode :: "string \<Rightarrow> bytes \<times> bool" where "raw_url_decode = b64_decode b64_url False"

definition b64_alphabet :: "string \<Rightarrow> bool" where
  "b64_alphabet al \<longleftrightarrow> list_all (\<lambda>n. b64_index al (al ! n) = Some n) [0..<64] \<and> b64_index al (CHR ''='') = None \<and>
     list_all (\<lambda>n. al ! n \<noteq> CHR 0x0A \<and> al ! n \<noteq> CHR 0x0D) [0..<64]"

lemma b64_alphabets [simp]: "b64_alphabet b64_std" "b64_alphabet b64_url"
  by code_simp+

lemma sextet_less [simp]: "s1 a < 64" "s2 a b < 64" "s3 b c < 64" "s4 c < 64"
  using byte_less [of a] byte_less [of b] byte_less [of c] by (auto simp: s1_def s2_def s3_def s4_def)

lemma b64_index_nth: "b64_alphabet al \<Longrightarrow> n < 64 \<Longrightarrow> b64_index al (al ! n) = Some n"
  by (auto simp: b64_alphabet_def list_all_iff)

lemma b64_index_sextet [simp]:
  assumes "b64_alphabet al"
  shows "b64_index al (al ! s1 a) = Some (s1 a)" "b64_index al (al ! s2 a b) = Some (s2 a b)"
    "b64_index al (al ! s3 a b) = Some (s3 a b)" "b64_index al (al ! s4 a) = Some (s4 a)"
  by (simp_all add: b64_index_nth [OF assms])

lemma b64_bytes_sextets [simp]:
  "b64_bytes [s1 a, s2 a 0] = [a]" "b64_bytes [s1 a, s2 a b, s3 b 0] = [a, b]"
  "b64_bytes [s1 a, s2 a b, s3 b c, s4 c] = [a, b, c]"
proof -
  have a: "s1 a * 4 + s2 a b div 16 = unat a" for a b :: byte
    using byte_less [of b] by (simp add: s1_def s2_def)
  have b: "s2 a b mod 16 * 16 + s3 b c div 4 = unat b" for a b c :: byte
  proof -
    have "s2 a b mod 16 = unat b div 16" "s3 b c div 4 = unat b mod 16"
      using byte_less [of b] byte_less [of c] by (simp_all add: s2_def s3_def)
    then show ?thesis by simp
  qed
  have c: "s3 b c mod 4 * 64 + s4 c = unat c" for b c :: byte
  proof -
    have "s3 b c mod 4 = unat c div 64"
      using byte_less [of c] by (simp add: s3_def)
    then show ?thesis by (simp add: s4_def)
  qed
  show "b64_bytes [s1 a, s2 a 0] = [a]" using a [of a 0] by simp
  show "b64_bytes [s1 a, s2 a b, s3 b 0] = [a, b]" using a [of a b] b [of a b 0] by simp
  show "b64_bytes [s1 a, s2 a b, s3 b c, s4 c] = [a, b, c]" using a [of a b] b [of a b c] c [of b c] by simp
qed

declare b64_bytes.simps [simp del]

lemma b64_loop_encode: "b64_alphabet al \<Longrightarrow> b64_loop al pad [] (b64_encode al pad bs) = (bs, True)"
  by (induction al pad bs rule: b64_encode.induct) (auto simp: b64_alphabet_def split: option.splits)

lemma b64_encode_no_newline:
  assumes "b64_alphabet al"
  shows "filter (\<lambda>c. c \<noteq> CHR 0x0A \<and> c \<noteq> CHR 0x0D) (b64_encode al pad bs) = b64_encode al pad bs"
proof -
  have "al ! n \<noteq> CHR 0x0A \<and> al ! n \<noteq> CHR 0x0D" if "n < 64" for n
    using assms that by (auto simp: b64_alphabet_def list_all_iff)
  then show ?thesis
    by (induction al pad bs rule: b64_encode.induct) auto
qed

lemma b64_decode_encode: "b64_alphabet al \<Longrightarrow> b64_decode al pad (b64_encode al pad bs) = (bs, True)"
  by (simp add: b64_decode_def b64_encode_no_newline b64_loop_encode)

lemma std_decode_encode [simp]: "std_decode (std_encode b) = (b, True)"
  by (simp add: std_decode_def std_encode_def b64_decode_encode)

lemma raw_url_decode_encode [simp]: "raw_url_decode (raw_url_encode b) = (b, True)"
  by (simp add: raw_url_decode_def raw_url_encode_def b64_decode_encode)

section \<open>strings\<close>

text \<open>\<open>strings.Split(s, sep)\<close> with a separator of one byte.\<close>

fun split_at_char :: "char \<Rightarrow> string \<Rightarrow> string list" where
  "split_at_char d [] = [[]]"
| "split_at_char d (c # cs) =
     (if c = d then [] # split_at_char d cs
      else (case split_at_char d cs of [] \<Rightarrow> [[c]] | p # ps \<Rightarrow> (c # p) # ps))"

lemma split_at_char_ne [simp]: "split_at_char d s \<noteq> []"
  by (induction d s rule: split_at_char.induct) (auto split: list.splits)

lemma split_at_char_plain: "d \<notin> set s \<Longrightarrow> split_at_char d s = [s]"
  by (induction d s rule: split_at_char.induct) auto

lemma split_at_char_cons: "d \<notin> set s \<Longrightarrow> split_at_char d (s @ d # t) = s # split_at_char d t"
  by (induction s) auto

text \<open>The UTF-8 forms of the characters with the Unicode property White_Space.\<close>

definition white_space :: "bytes list" where
  "white_space = [[9], [10], [11], [12], [13], [32], [0xC2, 0x85], [0xC2, 0xA0], [0xE1, 0x9A, 0x80]] @
     map (\<lambda>n. [0xE2, 0x80, of_nat n]) ([0x80..<0x8B] @ [0xA8, 0xA9, 0xAF]) @
     [[0xE2, 0x81, 0x9F], [0xE3, 0x80, 0x80]]"

fun strip_one :: "bytes list \<Rightarrow> bytes \<Rightarrow> bytes option" where
  "strip_one [] s = None"
| "strip_one (p # ps) s = (if p \<noteq> [] \<and> take (length p) s = p then Some (drop (length p) s) else strip_one ps s)"

lemma strip_one_shorter: "strip_one ps s = Some t \<Longrightarrow> length t < length s"
proof (induction ps s rule: strip_one.induct)
  case (2 p ps s)
  then show ?case by (cases s) (auto split: if_splits)
qed simp

function strip_all :: "bytes list \<Rightarrow> bytes \<Rightarrow> bytes" where
  "strip_all ps s = (case strip_one ps s of None \<Rightarrow> s | Some t \<Rightarrow> strip_all ps t)"
  by auto
termination by (relation "measure (\<lambda>(ps, s). length s)") (auto simp: strip_one_shorter)

declare strip_all.simps [simp del]

definition TrimSpace :: "string \<Rightarrow> string" where
  "TrimSpace s = string_of (rev (strip_all (map rev white_space) (rev (strip_all white_space (bytes_of s)))))"

text \<open>
  \<open>strings.ToLower\<close> on what can become an ASCII letter: the ASCII capitals, the Kelvin sign and the
  dotted capital I. Other characters are outside ASCII before and after and stay as they are here.
\<close>

fun ToLower :: "bytes \<Rightarrow> bytes" where
  "ToLower [] = []"
| "ToLower (b # s) =
     (if b = 0xE2 \<and> take 2 s = [0x84, 0xAA] then 107 # ToLower (drop 2 s)
      else if b = 0xC4 \<and> take 1 s = [0xB0] then 105 # ToLower (drop 1 s)
      else (if 65 \<le> b \<and> b \<le> 90 then b + 32 else b) # ToLower s)"

section \<open>Numbers in decimal\<close>

fun show_nat :: "nat \<Rightarrow> string" where
  "show_nat n = (if n < 10 then [hex_digit n] else show_nat (n div 10) @ [hex_digit (n mod 10)])"

declare show_nat.simps [simp del]

definition show_int :: "int \<Rightarrow> string" where
  "show_int i = (if i < 0 then ''-'' @ show_nat (nat (- i)) else show_nat (nat i))"

section \<open>time.Duration\<close>

text \<open>Durations and instants are counted in nanoseconds; \<open>Unix()\<close> rounds down to seconds.\<close>

definition Second :: int where "Second = 1000000000"
definition Millisecond :: int where "Millisecond = 1000000"

definition duration_of :: "int \<Rightarrow> int \<Rightarrow> int" where
  "duration_of n unit = wrap64 (n * unit)"

definition Unix :: "int \<Rightarrow> int" where
  "Unix now = now div Second"

text \<open>\<open>time.Since\<close> and \<open>time.Until\<close> saturate.\<close>

definition saturate64 :: "int \<Rightarrow> int" where
  "saturate64 x = max (- (2 ^ 63)) (min (2 ^ 63 - 1) x)"

lemma in_int64_saturate64 [simp]: "in_int64 (saturate64 x)"
  by (auto simp: in_int64_def saturate64_def)

lemma saturate64_id: "in_int64 x \<Longrightarrow> saturate64 x = x"
  by (auto simp: in_int64_def saturate64_def)

lemma duration_seconds [int64_simps]:
  assumes "abs n \<le> 9223372036"
  shows "duration_of n Second = n * Second"
proof -
  have "in_int64 (n * Second)" using assms by (auto simp: in_int64_def Second_def abs_le_iff)
  then show ?thesis by (simp add: duration_of_def wrap64_id)
qed

end
