(* ===== verification/Octets.thy ===== *)
theory Octets
  imports Amcl Golib Sha256
begin

text \<open>
  The functions that \<open>crypto/include/amcl.h\<close> declares: octet handlers, hashes, AES and AES-GCM, and
  the random number generator. Their bodies are in the AMCL library, outside the repository, so they
  are the fields of records, one per group of declarations, and what the comments of the header
  document is stated as a contract (\<open>octets_ok\<close>, \<open>sha2_ok\<close>, \<open>gcm_ok\<close>, \<open>rand_ok\<close>).

  A pointer argument that the function writes is an argument and a result; one that it only fills is
  a result. A zero-terminated C string and a byte array are lists of bytes, a printing function gives
  the text it prints, \<open>int\<close> is \<^typ>\<open>int\<close>. Each contract is met by a concrete library
  (\<open>ref_octets\<close> and the others), so the properties below are not vacuous.
\<close>

section \<open>Octet string handlers\<close>

(* crypto/include/amcl.h:217-308 OCT_output, OCT_output_string, OCT_clear, OCT_comp, OCT_ncomp, OCT_jstring, OCT_jbytes, OCT_jbyte, OCT_joctet, OCT_xor, OCT_empty, OCT_pad, OCT_tobase64, OCT_frombase64 *)
record octet_join_api =
  OCT_output :: "octet \<Rightarrow> string"
  OCT_output_string :: "octet \<Rightarrow> string"
  OCT_clear :: "octet \<Rightarrow> octet"
  OCT_comp :: "octet \<Rightarrow> octet \<Rightarrow> int"
  OCT_ncomp :: "octet \<Rightarrow> octet \<Rightarrow> int \<Rightarrow> int"
  OCT_jstring :: "octet \<Rightarrow> bytes \<Rightarrow> octet"
  OCT_jbytes :: "octet \<Rightarrow> bytes \<Rightarrow> int \<Rightarrow> octet"
  OCT_jbyte :: "octet \<Rightarrow> int \<Rightarrow> int \<Rightarrow> octet"
  OCT_joctet :: "octet \<Rightarrow> octet \<Rightarrow> octet"
  OCT_xor :: "octet \<Rightarrow> octet \<Rightarrow> octet"
  OCT_empty :: "octet \<Rightarrow> octet"
  OCT_pad :: "octet \<Rightarrow> int \<Rightarrow> int \<times> octet"
  OCT_tobase64 :: "octet \<Rightarrow> bytes"
  OCT_frombase64 :: "octet \<Rightarrow> bytes \<Rightarrow> octet"

(* crypto/include/amcl.h:309-374 OCT_copy, OCT_xorbyte, OCT_chop, OCT_jint, OCT_rand, OCT_shl, OCT_fromHex, OCT_toHex, OCT_toStr *)
record octet_api = octet_join_api +
  OCT_copy :: "octet \<Rightarrow> octet \<Rightarrow> octet"
  OCT_xorbyte :: "octet \<Rightarrow> int \<Rightarrow> octet"
  OCT_chop :: "octet \<Rightarrow> octet \<Rightarrow> int \<Rightarrow> octet \<times> octet"
  OCT_jint :: "octet \<Rightarrow> int \<Rightarrow> int \<Rightarrow> octet"
  OCT_rand :: "octet \<Rightarrow> csprng \<Rightarrow> int \<Rightarrow> octet \<times> csprng"
  OCT_shl :: "octet \<Rightarrow> int \<Rightarrow> octet"
  OCT_fromHex :: "octet \<Rightarrow> bytes \<Rightarrow> octet"
  OCT_toHex :: "octet \<Rightarrow> bytes"
  OCT_toStr :: "octet \<Rightarrow> bytes"

text \<open>The bytes an octet holds, and an octet whose lengths are consistent with its block.\<close>

definition content :: "octet \<Rightarrow> bytes" where
  "content O' = take (nat (oct_len O')) (oct_val O')"

definition octet_ok :: "octet \<Rightarrow> bool" where
  "octet_ok O' \<longleftrightarrow> 0 \<le> oct_len O' \<and> oct_len O' \<le> oct_max O' \<and> oct_max O' = int (length (oct_val O'))"

text \<open>The result of writing \<open>b\<close> to the octet \<open>O'\<close>: truncated to its capacity, in the same block.\<close>

definition writes :: "octet \<Rightarrow> bytes \<Rightarrow> octet \<Rightarrow> bool" where
  "writes O' b Q \<longleftrightarrow> octet_ok Q \<and> oct_max Q = oct_max O' \<and> content Q = take (nat (oct_max O')) b"

definition int_bytes :: "int \<Rightarrow> nat \<Rightarrow> bytes" where
  "int_bytes m n = map (\<lambda>i. of_int (m div 256 ^ (n - Suc i))) [0..<n]"

fun rand_bytes :: "(csprng \<Rightarrow> int \<times> csprng) \<Rightarrow> nat \<Rightarrow> csprng \<Rightarrow> bytes \<times> csprng" where
  "rand_bytes rb 0 R = ([], R)"
| "rand_bytes rb (Suc n) R =
     (case rb R of (b, R) \<Rightarrow> (case rand_bytes rb n R of (bs, R) \<Rightarrow> (of_int b # bs, R)))"

definition xor_common :: "bytes \<Rightarrow> bytes \<Rightarrow> bytes" where
  "xor_common a b = map2 (\<lambda>x y. x XOR y) a b @ drop (length b) a"

text \<open>
  The documented behaviour. Comparison of a number of bytes that one octet does not have, padding to
  less than the length or more than the capacity, and text that is not a number in its base are
  left open by the header.
\<close>

definition octets_ok :: "octet_api \<Rightarrow> (csprng \<Rightarrow> int \<times> csprng) \<Rightarrow> bool" where
  "octets_ok api rb \<longleftrightarrow> (\<forall>O' P. octet_ok O' \<and> octet_ok P \<longrightarrow>
     list_all (\<lambda>b. b = 0) (oct_val (OCT_clear api O')) \<and> octet_ok (OCT_clear api O') \<and>
     OCT_comp api O' P = (if content O' = content P then 1 else 0) \<and>
     (\<forall>n. 0 \<le> n \<and> n \<le> oct_len O' \<and> n \<le> oct_len P \<longrightarrow>
        OCT_ncomp api O' P n = (if take (nat n) (content O') = take (nat n) (content P) then 1 else 0)) \<and>
     (\<forall>s. 0 \<notin> set s \<longrightarrow> writes O' (content O' @ s) (OCT_jstring api O' s)) \<and>
     (\<forall>s n. 0 \<le> n \<and> n \<le> int (length s) \<longrightarrow> writes O' (content O' @ take (nat n) s) (OCT_jbytes api O' s n)) \<and>
     (\<forall>b n. 0 \<le> n \<longrightarrow> writes O' (content O' @ replicate (nat n) (of_int b)) (OCT_jbyte api O' b n)) \<and>
     writes O' (content O' @ content P) (OCT_joctet api O' P) \<and>
     writes O' (xor_common (content O') (content P)) (OCT_xor api O' P) \<and>
     writes O' [] (OCT_empty api O') \<and>
     (\<forall>n. oct_len O' \<le> n \<and> n \<le> oct_max O' \<longrightarrow>
        writes O' (replicate (nat (n - oct_len O')) 0 @ content O') (snd (OCT_pad api O' n))) \<and>
     OCT_tobase64 api O' = bytes_of (std_encode (content O')) \<and>
     (\<forall>b. writes O' b (OCT_frombase64 api O' (bytes_of (std_encode b)))) \<and>
     writes O' (content P) (OCT_copy api O' P) \<and>
     (\<forall>m. writes O' (map (\<lambda>x. x XOR of_int m) (content O')) (OCT_xorbyte api O' m)) \<and>
     (\<forall>n. 0 \<le> n \<and> n \<le> oct_len O' \<longrightarrow> writes O' (take (nat n) (content O')) (fst (OCT_chop api O' P n)) \<and>
        writes P (drop (nat n) (content O')) (snd (OCT_chop api O' P n))) \<and>
     (\<forall>m n. 0 \<le> n \<longrightarrow> writes O' (content O' @ int_bytes m (nat n)) (OCT_jint api O' m n)) \<and>
     (\<forall>R n. 0 \<le> n \<longrightarrow> writes O' (fst (rand_bytes rb (nat n) R)) (fst (OCT_rand api O' R n))) \<and>
     (\<forall>n. 0 \<le> n \<longrightarrow> writes O' (drop (nat n) (content O')) (OCT_shl api O' n)) \<and>
     (\<forall>b. writes O' b (OCT_fromHex api O' (bytes_of (hex_encode b)))) \<and>
     OCT_toHex api O' = bytes_of (hex_encode (content O')) \<and>
     OCT_toStr api O' = content O')"

text \<open>A library that behaves as documented.\<close>

definition put_bytes :: "octet \<Rightarrow> bytes \<Rightarrow> octet" where
  "put_bytes O' b = (let c = take (nat (oct_max O')) b in
     O'\<lparr>oct_len := int (length c), oct_val := c @ drop (length c) (oct_val O')\<rparr>)"

lemma put_bytes_writes: "octet_ok O' \<Longrightarrow> writes O' b (put_bytes O' b)"
  by (auto simp: writes_def put_bytes_def octet_ok_def content_def Let_def min_def)

definition ref_octets :: "(csprng \<Rightarrow> int \<times> csprng) \<Rightarrow> octet_api" where
  "ref_octets rb = \<lparr>
     OCT_output = (\<lambda>O'. hex_encode (content O')), OCT_output_string = (\<lambda>O'. string_of (content O')),
     OCT_clear = (\<lambda>O'. O'\<lparr>oct_len := 0, oct_val := map (\<lambda>_. 0) (oct_val O')\<rparr>),
     OCT_comp = (\<lambda>O' P. if content O' = content P then 1 else 0),
     OCT_ncomp = (\<lambda>O' P n. if take (nat n) (content O') = take (nat n) (content P) then 1 else 0),
     OCT_jstring = (\<lambda>O' s. put_bytes O' (content O' @ s)),
     OCT_jbytes = (\<lambda>O' s n. put_bytes O' (content O' @ take (nat n) s)),
     OCT_jbyte = (\<lambda>O' b n. put_bytes O' (content O' @ replicate (nat n) (of_int b))),
     OCT_joctet = (\<lambda>O' P. put_bytes O' (content O' @ content P)),
     OCT_xor = (\<lambda>O' P. put_bytes O' (xor_common (content O') (content P))),
     OCT_empty = (\<lambda>O'. put_bytes O' []),
     OCT_pad = (\<lambda>O' n. (1, put_bytes O' (replicate (nat (n - oct_len O')) 0 @ content O'))),
     OCT_tobase64 = (\<lambda>O'. bytes_of (std_encode (content O'))),
     OCT_frombase64 = (\<lambda>O' s. put_bytes O' (fst (std_decode (string_of s)))),
     OCT_copy = (\<lambda>O' P. put_bytes O' (content P)),
     OCT_xorbyte = (\<lambda>O' m. put_bytes O' (map (\<lambda>x. x XOR of_int m) (content O'))),
     OCT_chop = (\<lambda>O' P n. (put_bytes O' (take (nat n) (content O')), put_bytes P (drop (nat n) (content O')))),
     OCT_jint = (\<lambda>O' m n. put_bytes O' (content O' @ int_bytes m (nat n))),
     OCT_rand = (\<lambda>O' R n. case rand_bytes rb (nat n) R of (bs, R) \<Rightarrow> (put_bytes O' bs, R)),
     OCT_shl = (\<lambda>O' n. put_bytes O' (drop (nat n) (content O'))),
     OCT_fromHex = (\<lambda>O' s. put_bytes O' (case hex_decode (string_of s) of Inr b \<Rightarrow> b | Inl e \<Rightarrow> [])),
     OCT_toHex = (\<lambda>O'. bytes_of (hex_encode (content O'))), OCT_toStr = content\<rparr>"

lemma ref_octets_ok: "octets_ok (ref_octets rb) rb"
  by (simp add: octets_ok_def ref_octets_def put_bytes_writes list_all_iff case_prod_beta)
     (simp add: octet_ok_def)

subsection \<open>What follows from the contract\<close>

lemma content_length: "octet_ok O' \<Longrightarrow> int (length (content O')) = oct_len O' \<and> length (content O') \<le> nat (oct_max O')"
  by (auto simp: octet_ok_def content_def)

lemma take_join: "take k (take k xs @ ys) = take k (xs @ ys)"
  by (cases "length xs \<le> k") simp_all

lemma writes_fit: "writes O' b Q \<Longrightarrow> int (length b) \<le> oct_max O' \<Longrightarrow> content Q = b"
  by (simp add: writes_def)

lemma xor_common_twice: "xor_common (xor_common a b) b = a"
  by (rule nth_equalityI) (auto simp: xor_common_def nth_append min_def xor.assoc)

lemma xor_undone:
  assumes ok: "octet_ok O'" and x: "writes O' (xor_common (content O') (content P)) Q"
    and again: "octet_ok Q \<Longrightarrow> writes Q (xor_common (content Q) (content P)) Q'"
  shows "content Q' = content O'"
proof -
  have len: "length (xor_common a b) = length a" for a b by (simp add: xor_common_def)
  then have "octet_ok Q" "content Q = xor_common (content O') (content P)" "oct_max Q = oct_max O'"
    using x content_length [OF ok] by (simp_all add: writes_def)
  then show ?thesis using again content_length [OF ok] x by (simp add: writes_def len xor_common_twice)
qed

text \<open>
  Over any library with the documented octet handlers: joining twice is joining once with both texts,
  whatever is truncated; chopping an octet and joining the parts gives it back; the hexadecimal and
  the base64 form of an octet read back into an octet with room give its bytes; and XOR with the
  same octet twice changes nothing. No handler exceeds the capacity of the octet it writes.
\<close>

theorem octet_handlers_laws:
  assumes api: "octets_ok api rb" and ok: "octet_ok O'" "octet_ok P"
  shows "content (OCT_joctet api (OCT_joctet api O' P) P) = take (nat (oct_max O')) (content O' @ content P @ content P) \<and>
    (0 \<le> n \<and> n \<le> oct_len O' \<and> oct_len O' - n \<le> oct_max P \<longrightarrow>
      content (case_prod (OCT_joctet api) (OCT_chop api O' P n)) = content O') \<and>
    (oct_len O' \<le> oct_max P \<longrightarrow> content (OCT_fromHex api P (OCT_toHex api O')) = content O' \<and>
      content (OCT_frombase64 api P (OCT_tobase64 api O')) = content O') \<and>
    content (OCT_xor api (OCT_xor api O' P) P) = content O' \<and>
    octet_ok (OCT_joctet api O' P) \<and> oct_len (OCT_joctet api O' P) \<le> oct_max O'"
proof (intro conjI impI)
  note C = api [unfolded octets_ok_def, rule_format]
  have join: "octet_ok O' \<Longrightarrow> octet_ok P \<Longrightarrow> writes O' (content O' @ content P) (OCT_joctet api O' P)" for O' P
    using C by blast
  have xor: "octet_ok O' \<Longrightarrow> octet_ok P \<Longrightarrow> writes O' (xor_common (content O') (content P)) (OCT_xor api O' P)" for O' P
    using C by blast
  have j: "writes O' (content O' @ content P) (OCT_joctet api O' P)" by (rule join [OF ok])
  then have jok: "octet_ok (OCT_joctet api O' P)" by (simp add: writes_def)
  then show "octet_ok (OCT_joctet api O' P)" "oct_len (OCT_joctet api O' P) \<le> oct_max O'"
    using j by (auto simp: writes_def octet_ok_def)
  show "content (OCT_joctet api (OCT_joctet api O' P) P) = take (nat (oct_max O')) (content O' @ content P @ content P)"
    using join [OF jok ok(2)] j take_join [of "nat (oct_max O')" "content O' @ content P" "content P"]
    by (simp only: writes_def append_assoc simp_thms)
  {
    assume n: "0 \<le> n \<and> n \<le> oct_len O' \<and> oct_len O' - n \<le> oct_max P"
    obtain A B where AB: "OCT_chop api O' P n = (A, B)" by fastforce
    have a: "writes O' (take (nat n) (content O')) A" and b: "writes P (drop (nat n) (content O')) B"
      using C [of O' P] ok n AB by auto
    have "content A = take (nat n) (content O')" "content B = drop (nat n) (content O')"
      using writes_fit [OF a] writes_fit [OF b] content_length [OF ok(1)] n ok by (auto simp: octet_ok_def)
    then show "content (case_prod (OCT_joctet api) (OCT_chop api O' P n)) = content O'"
      using join [of A B] a b content_length [OF ok(1)] by (simp add: AB writes_def)
  next
    assume fit: "oct_len O' \<le> oct_max P"
    have h: "OCT_toHex api O' = bytes_of (hex_encode (content O'))" "OCT_tobase64 api O' = bytes_of (std_encode (content O'))"
      using C [of O' P] ok by auto
    have "writes P b (OCT_fromHex api P (bytes_of (hex_encode b)))"
      "writes P b (OCT_frombase64 api P (bytes_of (std_encode b)))" for b
      using C [of P P] ok by auto
    moreover have "length (content O') \<le> nat (oct_max P)"
      using content_length [OF ok(1)] fit ok(2) by (simp add: octet_ok_def nat_le_iff le_nat_iff)
    ultimately show "content (OCT_fromHex api P (OCT_toHex api O')) = content O'"
      "content (OCT_frombase64 api P (OCT_tobase64 api O')) = content O'"
      by (simp_all add: h writes_def)
  }
  show "content (OCT_xor api (OCT_xor api O' P) P) = content O'"
    by (rule xor_undone [OF ok(1) xor [OF ok] xor]) (simp_all add: ok)
qed

theorem octet_handlers_laws_witness:
  "content (case_prod (OCT_joctet (ref_octets (\<lambda>R. (0, R))))
     (OCT_chop (ref_octets (\<lambda>R. (0, R))) \<lparr>oct_len = 3, oct_max = 4, oct_val = [1, 2, 3, 9]\<rparr>
        \<lparr>oct_len = 0, oct_max = 2, oct_val = [0, 0]\<rparr> 1)) = [1, 2, 3]"
  using octet_handlers_laws [OF ref_octets_ok, of "\<lparr>oct_len = 3, oct_max = 4, oct_val = [1, 2, 3, 9]\<rparr>"
      "\<lparr>oct_len = 0, oct_max = 2, oct_val = [0, 0]\<rparr>" "\<lambda>R. (0, R)" 1, THEN conjunct2, THEN conjunct1, rule_format]
  by (simp add: octet_ok_def content_def)

section \<open>Hash functions\<close>

(* crypto/include/amcl.h:378-433 HASH256_init, HASH256_process, HASH256_hash, HASH384_init, HASH384_process, HASH384_hash, HASH512_init, HASH512_process, HASH512_hash *)
record sha2_api =
  HASH256_init :: "hash256 \<Rightarrow> hash256"
  HASH256_process :: "hash256 \<Rightarrow> int \<Rightarrow> hash256"
  HASH256_hash :: "hash256 \<Rightarrow> bytes \<times> hash256"
  HASH384_init :: "hash384 \<Rightarrow> hash384"
  HASH384_process :: "hash384 \<Rightarrow> int \<Rightarrow> hash384"
  HASH384_hash :: "hash384 \<Rightarrow> bytes \<times> hash384"
  HASH512_init :: "hash512 \<Rightarrow> hash512"
  HASH512_process :: "hash512 \<Rightarrow> int \<Rightarrow> hash512"
  HASH512_hash :: "hash512 \<Rightarrow> bytes \<times> hash512"

(* crypto/include/amcl.h:436-467 SHA3_init, SHA3_process, SHA3_hash, SHA3_shake, SHA3_squeeze *)
record sha3_api =
  SHA3_init :: "sha3 \<Rightarrow> int \<Rightarrow> sha3"
  SHA3_process :: "sha3 \<Rightarrow> int \<Rightarrow> sha3"
  SHA3_hash :: "sha3 \<Rightarrow> bytes \<times> sha3"
  SHA3_shake :: "sha3 \<Rightarrow> int \<Rightarrow> bytes \<times> sha3"
  SHA3_squeeze :: "sha3 \<Rightarrow> int \<Rightarrow> bytes \<times> sha3"

definition feed :: "('h \<Rightarrow> int \<Rightarrow> 'h) \<Rightarrow> bytes \<Rightarrow> 'h \<Rightarrow> 'h" where
  "feed process bs h = foldl (\<lambda>h b. process h (uint b)) h bs"

text \<open>
  Initialise, add the bytes one by one, generate the hash: the SHA-256 digest of the bytes, and for the
  two longer hashes some function of the bytes with 48 and 64 bytes.
\<close>

definition sha2_ok :: "sha2_api \<Rightarrow> bool" where
  "sha2_ok api \<longleftrightarrow>
     (\<forall>H bs. fst (HASH256_hash api (feed (HASH256_process api) bs (HASH256_init api H))) = sha256_sum bs) \<and>
     (\<forall>H H' bs. fst (HASH384_hash api (feed (HASH384_process api) bs (HASH384_init api H))) =
        fst (HASH384_hash api (feed (HASH384_process api) bs (HASH384_init api H'))) \<and>
        length (fst (HASH384_hash api (feed (HASH384_process api) bs (HASH384_init api H)))) = 48) \<and>
     (\<forall>H H' bs. fst (HASH512_hash api (feed (HASH512_process api) bs (HASH512_init api H))) =
        fst (HASH512_hash api (feed (HASH512_process api) bs (HASH512_init api H'))) \<and>
        length (fst (HASH512_hash api (feed (HASH512_process api) bs (HASH512_init api H)))) = 64)"

text \<open>\<open>HMAC_SHA256\<close> computed with the library's hash, byte by byte, and the one of \<open>crypto/hmac\<close>.\<close>

definition lib_sha256 :: "sha2_api \<Rightarrow> bytes \<Rightarrow> bytes" where
  "lib_sha256 api bs = fst (HASH256_hash api (feed (HASH256_process api) bs (HASH256_init api
     \<lparr>h256_length = [], h256_h = [], h256_w = [], h256_hlen = 0\<rparr>)))"

lemma feed_append: "feed p (a @ b) h = feed p b (feed p a h)"
  by (simp add: feed_def)

lemma lib_sha256_eq: "sha2_ok api \<Longrightarrow> lib_sha256 api bs = sha256_sum bs"
  by (simp add: sha2_ok_def lib_sha256_def)

section \<open>AES and AES-GCM\<close>

(* crypto/include/amcl.h:471-525 AES_reset, AES_getreg, AES_init, AES_ecb_encrypt, AES_ecb_decrypt, AES_encrypt, AES_decrypt, AES_end *)
record aes_api =
  AES_reset :: "amcl_aes \<Rightarrow> int \<Rightarrow> bytes \<Rightarrow> amcl_aes"
  AES_getreg :: "amcl_aes \<Rightarrow> bytes"
  AES_init :: "amcl_aes \<Rightarrow> int \<Rightarrow> int \<Rightarrow> bytes \<Rightarrow> bytes \<Rightarrow> int \<times> amcl_aes"
  AES_ecb_encrypt :: "amcl_aes \<Rightarrow> bytes \<Rightarrow> bytes"
  AES_ecb_decrypt :: "amcl_aes \<Rightarrow> bytes \<Rightarrow> bytes"
  AES_encrypt :: "amcl_aes \<Rightarrow> bytes \<Rightarrow> 32 word \<times> bytes \<times> amcl_aes"
  AES_decrypt :: "amcl_aes \<Rightarrow> bytes \<Rightarrow> 32 word \<times> bytes \<times> amcl_aes"
  AES_end :: "amcl_aes \<Rightarrow> amcl_aes"

(* crypto/include/amcl.h:528-569 GCM_init, GCM_add_header, GCM_add_plain, GCM_add_cipher, GCM_finish *)
record gcm_api =
  GCM_init :: "gcm \<Rightarrow> int \<Rightarrow> bytes \<Rightarrow> int \<Rightarrow> bytes \<Rightarrow> gcm"
  GCM_add_header :: "gcm \<Rightarrow> bytes \<Rightarrow> int \<Rightarrow> int \<times> gcm"
  GCM_add_plain :: "gcm \<Rightarrow> bytes \<Rightarrow> int \<Rightarrow> int \<times> bytes \<times> gcm"
  GCM_add_cipher :: "gcm \<Rightarrow> bytes \<Rightarrow> int \<Rightarrow> int \<times> bytes \<times> gcm"
  GCM_finish :: "gcm \<Rightarrow> bytes \<times> gcm"

text \<open>Whole messages: pieces of a multiple of 16 bytes and then one of any length.\<close>

fun gcm_feed :: "(gcm \<Rightarrow> bytes \<Rightarrow> int \<Rightarrow> int \<times> bytes \<times> gcm) \<Rightarrow> gcm \<Rightarrow> bytes list \<Rightarrow> bytes \<times> gcm" where
  "gcm_feed f G [] = ([], G)"
| "gcm_feed f G (p # ps) = (case f G p (int (length p)) of (_, c, G) \<Rightarrow>
     (case gcm_feed f G ps of (cs, G) \<Rightarrow> (c @ cs, G)))"

fun gcm_pieces :: "bytes list \<Rightarrow> bool" where
  "gcm_pieces [] \<longleftrightarrow> True"
| "gcm_pieces [p] \<longleftrightarrow> True"
| "gcm_pieces (p # q # ps) \<longleftrightarrow> length p mod 16 = 0 \<and> gcm_pieces (q # ps)"

text \<open>
  GCM decryption after the same key, IV and header
  gives back the plaintext and the same tag of 16 bytes, however the message is cut into pieces.
\<close>

definition gcm_start :: "gcm_api \<Rightarrow> gcm \<Rightarrow> bytes \<Rightarrow> bytes \<Rightarrow> bytes \<Rightarrow> gcm" where
  "gcm_start api G k iv hdr = snd (GCM_add_header api (GCM_init api G (int (length k)) k (int (length iv)) iv) hdr (int (length hdr)))"

definition gcm_ok :: "gcm_api \<Rightarrow> bool" where
  "gcm_ok api \<longleftrightarrow> (\<forall>G k iv hdr ps cs. length k \<in> {16, 24, 32} \<and> gcm_pieces ps \<and> gcm_pieces cs \<longrightarrow>
     (case gcm_feed (GCM_add_plain api) (gcm_start api G k iv hdr) ps of (c, G1) \<Rightarrow>
        length c = length (concat ps) \<and> length (fst (GCM_finish api G1)) = 16 \<and>
        (concat cs = c \<longrightarrow>
           (case gcm_feed (GCM_add_cipher api) (gcm_start api G k iv hdr) cs of (p, G2) \<Rightarrow>
              p = concat ps \<and> fst (GCM_finish api G2) = fst (GCM_finish api G1)))))"

text \<open>Libraries that behave as documented, with ciphers that leave a block as it is.\<close>

definition ref_sha2 :: sha2_api where
  "ref_sha2 = \<lparr>
     HASH256_init = (\<lambda>H. H\<lparr>h256_w := []\<rparr>), HASH256_process = (\<lambda>H b. H\<lparr>h256_w := h256_w H @ [of_int b]\<rparr>),
     HASH256_hash = (\<lambda>H. (sha256_sum (map ucast (h256_w H)), H)),
     HASH384_init = (\<lambda>H. H), HASH384_process = (\<lambda>H b. H), HASH384_hash = (\<lambda>H. (replicate 48 0, H)),
     HASH512_init = (\<lambda>H. H), HASH512_process = (\<lambda>H b. H), HASH512_hash = (\<lambda>H. (replicate 64 0, H))\<rparr>"

lemma ref_sha2_ok: "sha2_ok ref_sha2"
proof -
  have "h256_w (feed (\<lambda>H b. H\<lparr>h256_w := h256_w H @ [of_int b]\<rparr>) bs H) = h256_w H @ map (\<lambda>b. of_int (uint b)) bs" for bs and H :: hash256
    by (induction bs arbitrary: H) (auto simp: feed_def)
  moreover have "ucast (word_of_int (uint b) :: 32 word) = b" for b :: byte
    by transfer (simp add: take_bit_int_eq_self_iff)
  ultimately show ?thesis
    by (simp add: sha2_ok_def ref_sha2_def o_def)
qed

definition ref_gcm :: gcm_api where
  "ref_gcm = \<lparr>GCM_init = (\<lambda>G nk k n iv. G), GCM_add_header = (\<lambda>G b n. (1, G)),
     GCM_add_plain = (\<lambda>G b n. (1, take (nat n) b, G)), GCM_add_cipher = (\<lambda>G b n. (1, take (nat n) b, G)),
     GCM_finish = (\<lambda>G. (replicate 16 0, G))\<rparr>"

lemma ref_gcm_ok: "gcm_ok ref_gcm"
proof -
  have "gcm_feed (\<lambda>G b n. (1, take (nat n) b, G)) G ps = (concat ps, G)" for G ps
    by (induction ps) auto
  then show ?thesis by (simp add: gcm_ok_def ref_gcm_def)
qed

section \<open>Random numbers\<close>

(* crypto/include/amcl.h:573-593 RAND_seed, RAND_clean, RAND_byte *)
record rand_api =
  RAND_seed :: "csprng \<Rightarrow> int \<Rightarrow> bytes \<Rightarrow> csprng"
  RAND_clean :: "csprng \<Rightarrow> csprng"
  RAND_byte :: "csprng \<Rightarrow> int \<times> csprng"

text \<open>Bytes are in range and determined by the seed; cleaning deletes the state.\<close>

definition rand_ok :: "rand_api \<Rightarrow> bool" where
  "rand_ok api \<longleftrightarrow> (\<forall>R. 0 \<le> fst (RAND_byte api R) \<and> fst (RAND_byte api R) < 256) \<and>
     (\<forall>R R' n b. 0 \<le> n \<and> n \<le> int (length b) \<longrightarrow> RAND_seed api R n b = RAND_seed api R' n b) \<and>
     (\<forall>R. list_all (\<lambda>w. w = 0) (ira (RAND_clean api R)) \<and> list_all (\<lambda>w. w = 0) (pool (RAND_clean api R)))"

definition ref_rand :: rand_api where
  "ref_rand = \<lparr>RAND_seed = (\<lambda>R n b. csprng_zero\<lparr>pool := take (nat n) b\<rparr>),
     RAND_clean = (\<lambda>R. csprng_zero\<lparr>ira := replicate 21 0, pool := []\<rparr>),
     RAND_byte = (\<lambda>R. (case pool R of [] \<Rightarrow> (0, R) | b # bs \<Rightarrow> (uint b, R\<lparr>pool := bs @ [b]\<rparr>)))\<rparr>"

lemma uint_byte_less: "uint (b :: byte) < 256"
  using unsigned_less [of b, where 'a = int] by simp

lemma ref_rand_ok: "rand_ok ref_rand"
proof -
  have "0 \<le> fst (RAND_byte ref_rand R) \<and> fst (RAND_byte ref_rand R) < 256" for R
    by (cases "pool R") (simp_all add: ref_rand_def uint_byte_less)
  moreover have "RAND_seed ref_rand R n b = RAND_seed ref_rand R' n b" for R R' n b
    by (simp add: ref_rand_def)
  moreover have "list_all (\<lambda>w. w = 0) (ira (RAND_clean ref_rand R))" "list_all (\<lambda>w. w = 0) (pool (RAND_clean ref_rand R))" for R
    by (simp_all add: ref_rand_def list_all_iff)
  ultimately show ?thesis unfolding rand_ok_def by blast
qed

text \<open>
  Over a library with the documented random numbers and octet handlers: an octet filled from a
  generator depends only on the seed, and holds as many bytes as were asked for, up to its capacity.
\<close>

theorem OCT_rand_seeded:
  assumes api: "octets_ok api (RAND_byte rd)" and rd: "rand_ok rd" and ok: "octet_ok O'" and n: "0 \<le> n"
    and seed: "0 \<le> k" "k \<le> int (length b)"
  shows "content (fst (OCT_rand api O' (RAND_seed rd R k b) n)) = content (fst (OCT_rand api O' (RAND_seed rd R' k b) n)) \<and>
    length (content (fst (OCT_rand api O' (RAND_seed rd R k b) n))) = min (nat (oct_max O')) (nat n)"
proof -
  have w: "writes O' (fst (rand_bytes (RAND_byte rd) (nat n) R)) (fst (OCT_rand api O' R n))" for R
    using api [unfolded octets_ok_def, rule_format, of O' O'] ok n by auto
  have "length (fst (rand_bytes rb m R)) = m" for rb m R
    by (induction m arbitrary: R) (auto simp: case_prod_beta)
  moreover have "RAND_seed rd R k b = RAND_seed rd R' k b" using rd seed by (auto simp: rand_ok_def)
  ultimately show ?thesis using w [of "RAND_seed rd R k b"] by (simp add: writes_def)
qed

theorem OCT_rand_seeded_witness:
  "length (content (fst (OCT_rand (ref_octets (RAND_byte ref_rand)) \<lparr>oct_len = 0, oct_max = 2, oct_val = [0, 0]\<rparr>
     (RAND_seed ref_rand csprng_zero 3 [5, 6, 7]) 3))) = 2"
  using OCT_rand_seeded [OF ref_octets_ok ref_rand_ok, of "\<lparr>oct_len = 0, oct_max = 2, oct_val = [0, 0]\<rparr>" 3 3 "[5, 6, 7]"]
  by (simp add: octet_ok_def)

end
