(* ===== verification/BigApi.thy ===== *)
theory BigApi
  imports Big
begin

text \<open>
  The functions that \<open>crypto/include/big_384_58.h\<close> declares, as the fields of four records in the order
  of the header, and what its comments document as contracts on the values of the numbers. The
  bodies are in the AMCL library, outside the repository. A \<open>BIG\<close> or \<open>DBIG\<close> is a list of digits,
  least significant first; an output parameter is a result, a number that is changed in place is an
  argument and a result. \<open>big_256_56.h\<close> is the same header with the other suffix and base.

  The contracts have the bits of a digit (\<open>b\<close>), the number of digits (\<open>n\<close>) and of bytes (\<open>m\<close>) as
  parameters and are met by \<open>ref_big b n m\<close>, which computes with the values.
\<close>

section \<open>The declarations\<close>

type_synonym BIG = "chunk list"
type_synonym DBIG = "chunk list"

(* crypto/include/big_384_58.h:62-195 BIG_384_58_iszilch ... BIG_384_58_sducopy *)
record big_copy_api =
  BIG_iszilch :: "BIG \<Rightarrow> int"
  BIG_isunity :: "BIG \<Rightarrow> int"
  BIG_diszilch :: "DBIG \<Rightarrow> int"
  BIG_output :: "BIG \<Rightarrow> string"
  BIG_rawoutput :: "BIG \<Rightarrow> string"
  BIG_cswap :: "BIG \<Rightarrow> BIG \<Rightarrow> int \<Rightarrow> BIG \<times> BIG"
  BIG_cmove :: "BIG \<Rightarrow> BIG \<Rightarrow> int \<Rightarrow> BIG"
  BIG_dcmove :: "DBIG \<Rightarrow> DBIG \<Rightarrow> int \<Rightarrow> DBIG"
  BIG_toBytes :: "BIG \<Rightarrow> 8 word list"
  BIG_fromBytes :: "8 word list \<Rightarrow> BIG"
  BIG_fromBytesLen :: "8 word list \<Rightarrow> int \<Rightarrow> BIG"
  BIG_dfromBytesLen :: "8 word list \<Rightarrow> int \<Rightarrow> DBIG"
  BIG_doutput :: "DBIG \<Rightarrow> string"
  BIG_drawoutput :: "DBIG \<Rightarrow> string"
  BIG_rcopy :: "BIG \<Rightarrow> BIG"
  BIG_copy :: "BIG \<Rightarrow> BIG"
  BIG_dcopy :: "DBIG \<Rightarrow> DBIG"
  BIG_dsucopy :: "DBIG \<Rightarrow> BIG \<Rightarrow> DBIG"
  BIG_dscopy :: "DBIG \<Rightarrow> BIG \<Rightarrow> DBIG"
  BIG_sdcopy :: "DBIG \<Rightarrow> BIG"
  BIG_sducopy :: "DBIG \<Rightarrow> BIG"

(* crypto/include/big_384_58.h:196-313 BIG_384_58_zero ... BIG_384_58_sqr *)
record big_arith_api = big_copy_api +
  BIG_zero :: BIG
  BIG_dzero :: DBIG
  BIG_one :: BIG
  BIG_invmod2m :: "BIG \<Rightarrow> BIG"
  BIG_add :: "BIG \<Rightarrow> BIG \<Rightarrow> BIG"
  BIG_or :: "BIG \<Rightarrow> BIG \<Rightarrow> BIG"
  BIG_inc :: "BIG \<Rightarrow> int \<Rightarrow> BIG"
  BIG_sub :: "BIG \<Rightarrow> BIG \<Rightarrow> BIG"
  BIG_dec :: "BIG \<Rightarrow> int \<Rightarrow> BIG"
  BIG_dadd :: "DBIG \<Rightarrow> DBIG \<Rightarrow> DBIG"
  BIG_dsub :: "DBIG \<Rightarrow> DBIG \<Rightarrow> DBIG"
  BIG_imul :: "BIG \<Rightarrow> int \<Rightarrow> BIG"
  BIG_pmul :: "BIG \<Rightarrow> int \<Rightarrow> chunk \<times> BIG"
  BIG_div3 :: "BIG \<Rightarrow> int \<times> BIG"
  BIG_pxmul :: "BIG \<Rightarrow> int \<Rightarrow> DBIG"
  BIG_mul :: "BIG \<Rightarrow> BIG \<Rightarrow> DBIG"
  BIG_smul :: "BIG \<Rightarrow> BIG \<Rightarrow> BIG"
  BIG_sqr :: "BIG \<Rightarrow> DBIG"

(* crypto/include/big_384_58.h:315-422 BIG_384_58_monty ... BIG_384_58_dnbits *)
record big_shift_api = big_arith_api +
  BIG_monty :: "BIG \<Rightarrow> chunk \<Rightarrow> DBIG \<Rightarrow> BIG"
  BIG_shl :: "BIG \<Rightarrow> int \<Rightarrow> BIG"
  BIG_fshl :: "BIG \<Rightarrow> int \<Rightarrow> int \<times> BIG"
  BIG_dshl :: "DBIG \<Rightarrow> int \<Rightarrow> DBIG"
  BIG_shr :: "BIG \<Rightarrow> int \<Rightarrow> BIG"
  BIG_ssn :: "BIG \<Rightarrow> BIG \<Rightarrow> int \<times> BIG \<times> BIG"
  BIG_fshr :: "BIG \<Rightarrow> int \<Rightarrow> int \<times> BIG"
  BIG_dshr :: "DBIG \<Rightarrow> int \<Rightarrow> DBIG"
  BIG_split :: "DBIG \<Rightarrow> int \<Rightarrow> chunk \<times> BIG \<times> BIG"
  BIG_norm :: "BIG \<Rightarrow> chunk \<times> BIG"
  BIG_dnorm :: "DBIG \<Rightarrow> DBIG"
  BIG_comp :: "BIG \<Rightarrow> BIG \<Rightarrow> int"
  BIG_dcomp :: "DBIG \<Rightarrow> DBIG \<Rightarrow> int"
  BIG_nbits :: "BIG \<Rightarrow> int \<times> BIG"
  BIG_dnbits :: "DBIG \<Rightarrow> int \<times> DBIG"

(* crypto/include/big_384_58.h:423-562 BIG_384_58_mod ... BIG_384_58_dmod2m *)
record big_api = big_shift_api +
  BIG_mod :: "BIG \<Rightarrow> BIG \<Rightarrow> BIG"
  BIG_sdiv :: "BIG \<Rightarrow> BIG \<Rightarrow> BIG"
  BIG_dmod :: "DBIG \<Rightarrow> BIG \<Rightarrow> BIG"
  BIG_ddiv :: "DBIG \<Rightarrow> BIG \<Rightarrow> BIG"
  BIG_parity :: "BIG \<Rightarrow> int"
  BIG_bit :: "BIG \<Rightarrow> int \<Rightarrow> int"
  BIG_lastbits :: "BIG \<Rightarrow> int \<Rightarrow> int"
  BIG_random :: "csprng \<Rightarrow> BIG \<times> csprng"
  BIG_randomnum :: "BIG \<Rightarrow> csprng \<Rightarrow> BIG \<times> csprng"
  BIG_modmul :: "BIG \<Rightarrow> BIG \<Rightarrow> BIG \<Rightarrow> BIG"
  BIG_moddiv :: "BIG \<Rightarrow> BIG \<Rightarrow> BIG \<Rightarrow> BIG"
  BIG_modsqr :: "BIG \<Rightarrow> BIG \<Rightarrow> BIG"
  BIG_modneg :: "BIG \<Rightarrow> BIG \<Rightarrow> BIG"
  BIG_jacobi :: "BIG \<Rightarrow> BIG \<Rightarrow> int"
  BIG_invmodp :: "BIG \<Rightarrow> BIG \<Rightarrow> BIG"
  BIG_mod2m :: "BIG \<Rightarrow> int \<Rightarrow> BIG"
  BIG_dmod2m :: "DBIG \<Rightarrow> int \<Rightarrow> DBIG"

section \<open>The contracts\<close>

text \<open>A number of \<open>k\<close> normalised digits, and one whose digits may be unnormalised but whose value fits.\<close>

definition nbig :: "nat \<Rightarrow> nat \<Rightarrow> chunk list \<Rightarrow> bool" where
  "nbig b k x \<longleftrightarrow> length x = k \<and> normalised b x"

definition is_big :: "nat \<Rightarrow> nat \<Rightarrow> int \<Rightarrow> chunk list \<Rightarrow> bool" where
  "is_big b k v x \<longleftrightarrow> length x = k \<and> big_val b x = v"

definition is_nbig :: "nat \<Rightarrow> nat \<Rightarrow> int \<Rightarrow> chunk list \<Rightarrow> bool" where
  "is_nbig b k v x \<longleftrightarrow> nbig b k x \<and> big_val b x = v"

definition bool_int :: "bool \<Rightarrow> int" where
  "bool_int p = (if p then 1 else 0)"

text \<open>Copies, tests, conversions: lines 62 to 195.\<close>

definition big_copy_ok :: "nat \<Rightarrow> nat \<Rightarrow> nat \<Rightarrow> ('a big_copy_api_scheme) \<Rightarrow> bool" where
  "big_copy_ok b n m api \<longleftrightarrow>
     (\<forall>x y s. nbig b n x \<longrightarrow> nbig b n y \<longrightarrow>
        BIG_iszilch api x = bool_int (big_val b x = 0) \<and> BIG_isunity api x = bool_int (big_val b x = 1) \<and>
        BIG_cswap api x y s = (if s = 0 then (x, y) else (y, x)) \<and> BIG_cmove api x y s = (if s = 0 then x else y) \<and>
        BIG_rcopy api x = x \<and> BIG_copy api x = x) \<and>
     (\<forall>x y s. nbig b (2 * n) x \<longrightarrow> nbig b (2 * n) y \<longrightarrow>
        BIG_diszilch api x = bool_int (big_val b x = 0) \<and> BIG_dcmove api x y s = (if s = 0 then x else y) \<and>
        BIG_dcopy api x = x \<and> BIG_sdcopy api x = take n x \<and> BIG_sducopy api x = drop n x) \<and>
     (\<forall>d x. nbig b (2 * n) d \<longrightarrow> nbig b n x \<longrightarrow>
        drop n (BIG_dsucopy api d x) = x \<and> take n (BIG_dscopy api d x) = x) \<and>
     (\<forall>x. nbig b n x \<longrightarrow> big_val b x < 256 ^ m \<longrightarrow>
        length (BIG_toBytes api x) = m \<and> BIG_fromBytes api (BIG_toBytes api x) = x) \<and>
     (\<forall>a. length a = m \<longrightarrow> nbig b n (BIG_fromBytes api a) \<and> BIG_toBytes api (BIG_fromBytes api a) = a)"

text \<open>Arithmetic: lines 196 to 313. \<open>NEXCESS\<close> bounds the small factor of \<open>imul\<close>.\<close>

definition big_arith_ok :: "nat \<Rightarrow> nat \<Rightarrow> ('a big_arith_api_scheme) \<Rightarrow> bool" where
  "big_arith_ok b n api \<longleftrightarrow>
     is_nbig b n 0 (BIG_zero api) \<and> is_nbig b (2 * n) 0 (BIG_dzero api) \<and> is_nbig b n 1 (BIG_one api) \<and>
     (\<forall>x y. nbig b n x \<longrightarrow> nbig b n y \<longrightarrow>
        is_big b n (big_val b x + big_val b y) (BIG_add api x y) \<and>
        is_big b n (big_val b x - big_val b y) (BIG_sub api x y) \<and>
        is_nbig b n (big_val b x OR big_val b y) (BIG_or api x y) \<and>
        is_nbig b (2 * n) (big_val b x * big_val b y) (BIG_mul api x y) \<and>
        is_nbig b (2 * n) (big_val b x * big_val b x) (BIG_sqr api x) \<and>
        (big_val b x * big_val b y < 2 ^ (b * n) \<longrightarrow> is_nbig b n (big_val b x * big_val b y) (BIG_smul api x y)) \<and>
        is_nbig b n (big_val b x div 3) (snd (BIG_div3 api x)) \<and> fst (BIG_div3 api x) = big_val b x mod 3) \<and>
     (\<forall>x i. nbig b n x \<longrightarrow> 0 \<le> i \<longrightarrow> i < 2 ^ 31 \<longrightarrow>
        is_big b n (big_val b x + i) (BIG_inc api x i) \<and> is_big b n (big_val b x - i) (BIG_dec api x i) \<and>
        (i \<le> 2 ^ (63 - b) \<longrightarrow> is_big b n (big_val b x * i) (BIG_imul api x i)) \<and>
        nbig b n (snd (BIG_pmul api x i)) \<and>
        big_val b (snd (BIG_pmul api x i)) + 2 ^ (b * n) * fst (BIG_pmul api x i) = big_val b x * i \<and>
        is_nbig b (2 * n) (big_val b x * i) (BIG_pxmul api x i)) \<and>
     (\<forall>x y. nbig b (2 * n) x \<longrightarrow> nbig b (2 * n) y \<longrightarrow>
        is_big b (2 * n) (big_val b x + big_val b y) (BIG_dadd api x y) \<and>
        is_big b (2 * n) (big_val b x - big_val b y) (BIG_dsub api x y))"

text \<open>
  Montgomery reduction, shifts, normalisation, comparison: lines 315 to 422. The Montgomery constant is
  that of the modulus; what is shifted out of a \<open>BIG\<close> on the left is left open by the header.
\<close>

definition big_shift_ok :: "nat \<Rightarrow> nat \<Rightarrow> ('a big_shift_api_scheme) \<Rightarrow> bool" where
  "big_shift_ok b n api \<longleftrightarrow>
     (\<forall>md MC d. nbig b n md \<longrightarrow> nbig b (2 * n) d \<longrightarrow> 0 < big_val b md \<longrightarrow> coprime (big_val b md) (2 ^ (b * n)) \<longrightarrow>
        (big_val b md * MC + 1) mod 2 ^ b = 0 \<longrightarrow> big_val b d < big_val b md * 2 ^ (b * n) \<longrightarrow>
        nbig b n (BIG_monty api md MC d) \<and>
        (big_val b (BIG_monty api md MC d) * 2 ^ (b * n)) mod big_val b md = big_val b d mod big_val b md) \<and>
     (\<forall>x s. nbig b n x \<longrightarrow> 0 \<le> s \<longrightarrow>
        (big_val b x * 2 ^ nat s < 2 ^ (b * n) \<longrightarrow> is_nbig b n (big_val b x * 2 ^ nat s) (BIG_shl api x s)) \<and>
        (s < int b \<longrightarrow> big_val b x * 2 ^ nat s < 2 ^ (b * n) \<longrightarrow> is_nbig b n (big_val b x * 2 ^ nat s) (snd (BIG_fshl api x s))) \<and>
        is_nbig b n (big_val b x div 2 ^ nat s) (BIG_shr api x s) \<and>
        (s < int b \<longrightarrow> is_nbig b n (big_val b x div 2 ^ nat s) (snd (BIG_fshr api x s)) \<and>
           fst (BIG_fshr api x s) = big_val b x mod 2 ^ nat s)) \<and>
     (\<forall>x s. nbig b (2 * n) x \<longrightarrow> 0 \<le> s \<longrightarrow>
        (big_val b x * 2 ^ nat s < 2 ^ (b * (2 * n)) \<longrightarrow> is_nbig b (2 * n) (big_val b x * 2 ^ nat s) (BIG_dshl api x s)) \<and>
        is_nbig b (2 * n) (big_val b x div 2 ^ nat s) (BIG_dshr api x s) \<and>
        (s \<le> int (b * n) \<longrightarrow> big_val b x div 2 ^ nat s < 2 ^ (b * n) \<longrightarrow>
           is_nbig b n (big_val b x div 2 ^ nat s) (fst (snd (BIG_split api x s))) \<and>
           is_nbig b n (big_val b x mod 2 ^ nat s) (snd (snd (BIG_split api x s))))) \<and>
     (\<forall>x. length x = n \<longrightarrow> 0 \<le> big_val b x \<longrightarrow> big_val b x < 2 ^ (b * n) \<longrightarrow>
        is_nbig b n (big_val b x) (snd (BIG_norm api x)) \<and>
        is_nbig b n (big_val b x) (snd (BIG_nbits api x)) \<and>
        0 \<le> fst (BIG_nbits api x) \<and> big_val b x < 2 ^ nat (fst (BIG_nbits api x)) \<and>
        (0 < big_val b x \<longrightarrow> 2 ^ nat (fst (BIG_nbits api x) - 1) \<le> big_val b x)) \<and>
     (\<forall>x. length x = 2 * n \<longrightarrow> 0 \<le> big_val b x \<longrightarrow> big_val b x < 2 ^ (b * (2 * n)) \<longrightarrow>
        is_nbig b (2 * n) (big_val b x) (BIG_dnorm api x)) \<and>
     (\<forall>x y. nbig b n x \<longrightarrow> nbig b n y \<longrightarrow> BIG_comp api x y = sgn (big_val b x - big_val b y)) \<and>
     (\<forall>x y. nbig b (2 * n) x \<longrightarrow> nbig b (2 * n) y \<longrightarrow> BIG_dcomp api x y = sgn (big_val b x - big_val b y))"

text \<open>Division and modular arithmetic: lines 423 to 562.\<close>

definition big_mod_ok :: "nat \<Rightarrow> nat \<Rightarrow> ('a big_api_scheme) \<Rightarrow> bool" where
  "big_mod_ok b n api \<longleftrightarrow>
     (\<forall>x y q. nbig b n x \<longrightarrow> nbig b n y \<longrightarrow> nbig b n q \<longrightarrow> 0 < big_val b q \<longrightarrow>
        is_nbig b n (big_val b x mod big_val b q) (BIG_mod api x q) \<and>
        is_nbig b n (big_val b x div big_val b q) (BIG_sdiv api x q) \<and>
        is_nbig b n ((big_val b x * big_val b y) mod big_val b q) (BIG_modmul api x y q) \<and>
        is_nbig b n ((big_val b x * big_val b x) mod big_val b q) (BIG_modsqr api x q) \<and>
        is_nbig b n ((- big_val b x) mod big_val b q) (BIG_modneg api x q) \<and>
        (coprime (big_val b y) (big_val b q) \<longrightarrow>
           nbig b n (BIG_invmodp api y q) \<and> (big_val b (BIG_invmodp api y q) * big_val b y) mod big_val b q = 1 mod big_val b q \<and>
           nbig b n (BIG_moddiv api x y q) \<and> (big_val b (BIG_moddiv api x y q) * big_val b y) mod big_val b q = big_val b x mod big_val b q) \<and>
        BIG_jacobi api x y \<in> {- 1, 0, 1}) \<and>
     (\<forall>d q. nbig b (2 * n) d \<longrightarrow> nbig b n q \<longrightarrow> 0 < big_val b q \<longrightarrow>
        is_nbig b n (big_val b d mod big_val b q) (BIG_dmod api d q) \<and>
        (big_val b d div big_val b q < 2 ^ (b * n) \<longrightarrow> is_nbig b n (big_val b d div big_val b q) (BIG_ddiv api d q))) \<and>
     (\<forall>x i. nbig b n x \<longrightarrow> 0 \<le> i \<longrightarrow>
        BIG_parity api x = big_val b x mod 2 \<and> BIG_bit api x i = big_val b x div 2 ^ nat i mod 2 \<and>
        (i < int b \<longrightarrow> BIG_lastbits api x i = big_val b x mod 2 ^ nat i) \<and>
        is_nbig b n (big_val b x mod 2 ^ nat i) (BIG_mod2m api x i)) \<and>
     (\<forall>d i. nbig b (2 * n) d \<longrightarrow> 0 \<le> i \<longrightarrow> is_nbig b (2 * n) (big_val b d mod 2 ^ nat i) (BIG_dmod2m api d i)) \<and>
     (\<forall>R q. nbig b n (fst (BIG_random api R)) \<and>
        (nbig b n q \<longrightarrow> 0 < big_val b q \<longrightarrow> nbig b n (fst (BIG_randomnum api q R)) \<and> big_val b (fst (BIG_randomnum api q R)) < big_val b q))"

definition big_ok :: "nat \<Rightarrow> nat \<Rightarrow> nat \<Rightarrow> big_api \<Rightarrow> bool" where
  "big_ok b n m api \<longleftrightarrow> big_copy_ok b n m api \<and> big_arith_ok b n api \<and> big_shift_ok b n api \<and> big_mod_ok b n api"

end
