(* ===== verification/BigRef.thy ===== *)
theory BigRef
  imports BigApi Prelude
begin

text \<open>
  A library that meets the contracts of \<open>BigApi\<close>: it computes with the values of the numbers and
  writes the results as digits, the last of which takes what is left. It shows that the contracts
  can be met, and the laws below hold for every library that meets them.
\<close>

section \<open>Digits of a value\<close>

lemma int_div_less: "0 < (c :: int) \<Longrightarrow> v < d * c \<Longrightarrow> v div c < d"
proof (rule ccontr)
  assume c: "0 < c" "v < d * c" "\<not> v div c < d"
  then have "d * c \<le> v div c * c" by (intro mult_right_mono) auto
  also have "\<dots> = v - v mod c" by (simp add: minus_mod_eq_div_mult)
  also have "\<dots> \<le> v" using c by simp
  finally show False using c by simp
qed

fun enc :: "nat \<Rightarrow> nat \<Rightarrow> int \<Rightarrow> chunk list" where
  "enc b 0 v = []"
| "enc b (Suc 0) v = [v]"
| "enc b (Suc (Suc k)) v = v mod 2 ^ b # enc b (Suc k) (v div 2 ^ b)"

lemma length_enc [simp]: "length (enc b k v) = k"
  by (induction b k v rule: enc.induct) auto

lemma big_val_enc [simp]: "0 < k \<Longrightarrow> big_val b (enc b k v) = v"
  by (induction b k v rule: enc.induct) auto

lemma normalised_enc: "0 \<le> v \<Longrightarrow> v < 2 ^ (b * k) \<Longrightarrow> normalised b (enc b k v)"
proof (induction b k v rule: enc.induct)
  case (3 b k v)
  have "v < 2 ^ b * 2 ^ (b * Suc k)" using 3 by (simp add: power_add)
  then have "v div 2 ^ b < 2 ^ (b * Suc k)" by (intro int_div_less) (simp_all add: mult.commute)
  moreover have "0 \<le> v div 2 ^ b" using 3 by (simp add: pos_imp_zdiv_nonneg_iff)
  ultimately show ?case using 3 by (simp add: normalised_def)
qed (simp_all add: normalised_def)

lemma nbig_range: "nbig b k x \<Longrightarrow> 0 \<le> big_val b x \<and> big_val b x < 2 ^ (b * k)"
proof (induction x arbitrary: k)
  case Nil
  then show ?case by simp
next
  case (Cons d x)
  then obtain k' where k: "k = Suc k'" and x: "nbig b k' x" and d: "0 \<le> d" "d < 2 ^ b"
    by (cases k) (auto simp: nbig_def normalised_def)
  have v: "0 \<le> big_val b x" "big_val b x \<le> 2 ^ (b * k') - 1" using Cons.IH [OF x] by simp_all
  have "2 ^ b * big_val b x \<le> 2 ^ b * (2 ^ (b * k') - 1)" using v by (intro mult_left_mono) simp_all
  then have "d + 2 ^ b * big_val b x < 2 ^ (b + b * k')" using d by (simp add: power_add algebra_simps)
  with v d show ?case by (simp add: k)
qed

lemma nbig_enc_val: "nbig b k x \<Longrightarrow> enc b k (big_val b x) = x"
proof (induction x arbitrary: k)
  case Nil
  then show ?case by (simp add: nbig_def)
next
  case (Cons d x)
  then obtain k' where k: "k = Suc k'" and x: "nbig b k' x" and d: "0 \<le> d" "d < 2 ^ b"
    by (cases k) (auto simp: nbig_def normalised_def)
  show ?case
  proof (cases k')
    case 0
    with x show ?thesis by (simp add: k nbig_def)
  next
    case (Suc j)
    have "(d + 2 ^ b * big_val b x) mod 2 ^ b = d" "(d + 2 ^ b * big_val b x) div 2 ^ b = big_val b x"
      using d by simp_all
    then show ?thesis using Cons.IH [OF x] by (simp add: k Suc)
  qed
qed

lemma nbig_inj: "nbig b k x \<Longrightarrow> nbig b k y \<Longrightarrow> big_val b x = big_val b y \<Longrightarrow> x = y"
  by (metis nbig_enc_val)

lemma is_big_enc [simp]: "0 < k \<Longrightarrow> is_big b k v (enc b k v)"
  by (simp add: is_big_def)

lemma nbig_enc: "0 \<le> v \<Longrightarrow> v < 2 ^ (b * k) \<Longrightarrow> nbig b k (enc b k v)"
  by (simp add: nbig_def normalised_enc)

lemma is_nbig_enc: "0 < k \<Longrightarrow> 0 \<le> v \<Longrightarrow> v < 2 ^ (b * k) \<Longrightarrow> is_nbig b k v (enc b k v)"
  by (simp add: is_nbig_def nbig_enc)

lemma nbig_take: "nbig b (n + k) x \<Longrightarrow> nbig b n (take n x)"
  and nbig_drop: "nbig b (n + k) x \<Longrightarrow> nbig b k (drop n x)"
  by (auto simp: nbig_def normalised_def dest: in_set_takeD in_set_dropD)

section \<open>Bytes of a value\<close>

definition to_be :: "nat \<Rightarrow> int \<Rightarrow> byte list" where
  "to_be m v = (let bs = nat_be (nat v) in replicate (m - length bs) 0 @ bs)"

lemma to_be_len: "0 \<le> v \<Longrightarrow> v < 256 ^ m \<Longrightarrow> length (to_be m v) = m"
proof -
  assume v: "0 \<le> v" "v < 256 ^ m"
  have "nat v < nat (256 ^ m)" using v by (subst nat_less_eq_zless) simp_all
  then have "nat v < 256 ^ m" by (simp add: nat_power_eq)
  from length_nat_be [OF this] show "length (to_be m v) = m" by (simp add: to_be_def Let_def)
qed

lemma be_nat_to_be [simp]: "be_nat (to_be m v) = nat v"
  by (simp add: to_be_def Let_def be_nat_append)

lemma be_nat_inj: "length xs = length ys \<Longrightarrow> be_nat xs = be_nat ys \<Longrightarrow> xs = ys"
proof (induction xs arbitrary: ys rule: rev_induct)
  case (snoc x xs)
  then obtain ys' y where ys: "ys = ys' @ [y]" by (metis length_append_singleton length_Suc_conv_rev)
  have b: "unat x < 256" "unat y < 256" by (simp_all add: byte_less)
  have e: "be_nat xs * 256 + unat x = be_nat ys' * 256 + unat y" using snoc.prems ys by (simp add: be_nat_snoc)
  have "be_nat xs = be_nat ys'" "unat x = unat y" using arg_cong [OF e, of "\<lambda>n. n div 256"] arg_cong [OF e, of "\<lambda>n. n mod 256"] b by simp_all
  then show ?case using snoc.IH [of ys'] snoc.prems ys by (simp add: word_unat_eq_iff)
qed simp

section \<open>The library\<close>

definition inv_mod :: "int \<Rightarrow> int \<Rightarrow> int" where
  "inv_mod y q = fst (bezw (nat y) (nat q)) mod q"

lemma inv_mod: "0 \<le> y \<Longrightarrow> 0 < q \<Longrightarrow> coprime y q \<Longrightarrow> (inv_mod y q * y) mod q = 1 mod q"
proof -
  assume y: "0 \<le> y" "0 < q" "coprime y q"
  have "fst (bezw (nat y) (nat q)) * y + snd (bezw (nat y) (nat q)) * q = 1"
    using bezw_aux [of "nat y" "nat q"] y by (simp add: gcd_int_def coprime_iff_gcd_eq_1)
  then have "(fst (bezw (nat y) (nat q)) * y) mod q = 1 mod q"
    by (metis mod_mult_self1 mult.commute add.commute)
  then show ?thesis by (simp add: inv_mod_def mod_mult_left_eq)
qed

fun bit_length :: "nat \<Rightarrow> nat" where
  "bit_length v = (if v = 0 then 0 else Suc (bit_length (v div 2)))"

declare bit_length.simps [simp del]

lemma bit_length_upper: "v < 2 ^ bit_length v"
proof (induction v rule: bit_length.induct)
  case (1 v)
  then show ?case by (cases "v = 0") (subst bit_length.simps, auto)+
qed

lemma bit_length_lower: "0 < v \<Longrightarrow> 2 ^ (bit_length v - 1) \<le> v"
proof (induction v rule: bit_length.induct)
  case (1 v)
  show ?case
  proof (cases "v div 2 = 0")
    case True
    with "1.prems" show ?thesis by (subst bit_length.simps) (auto simp: bit_length.simps)
  next
    case False
    then have "0 < v div 2" by simp
    then have "2 ^ (bit_length (v div 2) - 1) \<le> v div 2" using 1 by auto
    moreover have "bit_length (v div 2) \<noteq> 0"
      using False by (subst bit_length.simps) simp
    ultimately have "2 ^ bit_length (v div 2) \<le> v"
      by (cases "bit_length (v div 2)") auto
    then show ?thesis using "1.prems" by (subst bit_length.simps) simp
  qed
qed

definition ref_copy :: "nat \<Rightarrow> nat \<Rightarrow> nat \<Rightarrow> big_copy_api" where
  "ref_copy b n m = \<lparr>
     BIG_iszilch = (\<lambda>x. bool_int (big_val b x = 0)), BIG_isunity = (\<lambda>x. bool_int (big_val b x = 1)),
     BIG_diszilch = (\<lambda>x. bool_int (big_val b x = 0)), BIG_output = (\<lambda>x. []), BIG_rawoutput = (\<lambda>x. []),
     BIG_cswap = (\<lambda>x y s. if s = 0 then (x, y) else (y, x)), BIG_cmove = (\<lambda>x y s. if s = 0 then x else y),
     BIG_dcmove = (\<lambda>x y s. if s = 0 then x else y),
     BIG_toBytes = (\<lambda>x. to_be m (big_val b x)), BIG_fromBytes = (\<lambda>a. enc b n (int (be_nat a))),
     BIG_fromBytesLen = (\<lambda>a s. enc b n (int (be_nat (take (nat s) a)))),
     BIG_dfromBytesLen = (\<lambda>a s. enc b (2 * n) (int (be_nat (take (nat s) a)))),
     BIG_doutput = (\<lambda>x. []), BIG_drawoutput = (\<lambda>x. []),
     BIG_rcopy = (\<lambda>x. x), BIG_copy = (\<lambda>x. x), BIG_dcopy = (\<lambda>x. x),
     BIG_dsucopy = (\<lambda>d x. replicate n 0 @ x), BIG_dscopy = (\<lambda>d x. x @ replicate n 0),
     BIG_sdcopy = take n, BIG_sducopy = drop n\<rparr>"

definition ref_arith :: "nat \<Rightarrow> nat \<Rightarrow> nat \<Rightarrow> big_arith_api" where
  "ref_arith b n m = big_copy_api.extend (ref_copy b n m) (big_arith_api.fields
     (enc b n 0) (enc b (2 * n) 0) (enc b n 1)
     (\<lambda>x. x)
     (\<lambda>x y. enc b n (big_val b x + big_val b y))
     (\<lambda>x y. enc b n (big_val b x OR big_val b y))
     (\<lambda>x i. enc b n (big_val b x + i))
     (\<lambda>x y. enc b n (big_val b x - big_val b y))
     (\<lambda>x i. enc b n (big_val b x - i))
     (\<lambda>x y. enc b (2 * n) (big_val b x + big_val b y))
     (\<lambda>x y. enc b (2 * n) (big_val b x - big_val b y))
     (\<lambda>x i. enc b n (big_val b x * i))
     (\<lambda>x i. (big_val b x * i div 2 ^ (b * n), enc b n (big_val b x * i mod 2 ^ (b * n))))
     (\<lambda>x. (big_val b x mod 3, enc b n (big_val b x div 3)))
     (\<lambda>x i. enc b (2 * n) (big_val b x * i))
     (\<lambda>x y. enc b (2 * n) (big_val b x * big_val b y))
     (\<lambda>x y. enc b n (big_val b x * big_val b y))
     (\<lambda>x. enc b (2 * n) (big_val b x * big_val b x)))"

definition ref_shift :: "nat \<Rightarrow> nat \<Rightarrow> nat \<Rightarrow> big_shift_api" where
  "ref_shift b n m = big_arith_api.extend (ref_arith b n m) (big_shift_api.fields
     (\<lambda>md MC d. enc b n (big_val b d * inv_mod (2 ^ (b * n)) (big_val b md) mod big_val b md))
     (\<lambda>x s. enc b n (big_val b x * 2 ^ nat s))
     (\<lambda>x s. (0, enc b n (big_val b x * 2 ^ nat s)))
     (\<lambda>x s. enc b (2 * n) (big_val b x * 2 ^ nat s))
     (\<lambda>x s. enc b n (big_val b x div 2 ^ nat s))
     (\<lambda>a q. (sgn (big_val b a - big_val b q div 2), enc b n (big_val b a - big_val b q div 2), enc b n (big_val b q div 2)))
     (\<lambda>x s. (big_val b x mod 2 ^ nat s, enc b n (big_val b x div 2 ^ nat s)))
     (\<lambda>x s. enc b (2 * n) (big_val b x div 2 ^ nat s))
     (\<lambda>x s. (0, enc b n (big_val b x div 2 ^ nat s), enc b n (big_val b x mod 2 ^ nat s)))
     (\<lambda>x. (0, enc b n (big_val b x)))
     (\<lambda>x. enc b (2 * n) (big_val b x))
     (\<lambda>x y. sgn (big_val b x - big_val b y))
     (\<lambda>x y. sgn (big_val b x - big_val b y))
     (\<lambda>x. (int (bit_length (nat (big_val b x))), enc b n (big_val b x)))
     (\<lambda>x. (int (bit_length (nat (big_val b x))), enc b (2 * n) (big_val b x))))"

definition ref_big :: "nat \<Rightarrow> nat \<Rightarrow> nat \<Rightarrow> big_api" where
  "ref_big b n m = big_shift_api.extend (ref_shift b n m) (big_api.fields
     (\<lambda>x q. enc b n (big_val b x mod big_val b q))
     (\<lambda>x q. enc b n (big_val b x div big_val b q))
     (\<lambda>d q. enc b n (big_val b d mod big_val b q))
     (\<lambda>d q. enc b n (big_val b d div big_val b q))
     (\<lambda>x. big_val b x mod 2)
     (\<lambda>x i. big_val b x div 2 ^ nat i mod 2)
     (\<lambda>x i. big_val b x mod 2 ^ nat i)
     (\<lambda>R. (enc b n 0, R))
     (\<lambda>q R. (enc b n 0, R))
     (\<lambda>x y q. enc b n (big_val b x * big_val b y mod big_val b q))
     (\<lambda>x y q. enc b n (big_val b x * inv_mod (big_val b y) (big_val b q) mod big_val b q))
     (\<lambda>x q. enc b n (big_val b x * big_val b x mod big_val b q))
     (\<lambda>x q. enc b n (- big_val b x mod big_val b q))
     (\<lambda>x y. 0)
     (\<lambda>y q. enc b n (inv_mod (big_val b y) (big_val b q)))
     (\<lambda>x i. enc b n (big_val b x mod 2 ^ nat i))
     (\<lambda>d i. enc b (2 * n) (big_val b d mod 2 ^ nat i)))"

lemmas ref_fields = big_copy_api.defs big_arith_api.defs big_shift_api.defs big_api.defs

lemma nbig_le_lt: "0 < n \<Longrightarrow> nbig b n q \<Longrightarrow> 0 \<le> w \<Longrightarrow> w < big_val b q \<Longrightarrow> is_nbig b n w (enc b n w)"
  using nbig_range [of b n q] by (intro is_nbig_enc) auto

lemma div_range: "0 \<le> (x :: int) \<Longrightarrow> x < B \<Longrightarrow> 0 < c \<Longrightarrow> 0 \<le> x div c \<and> x div c < B"
proof -
  assume x: "0 \<le> x" "x < B" "0 < c"
  have "B * 1 \<le> B * c" using x by (intro mult_left_mono) auto
  with x have "x < B * c" by linarith
  with x have "x div c < B" by (intro int_div_less) simp_all
  with x show ?thesis by (simp add: pos_imp_zdiv_nonneg_iff)
qed

lemma mod_range: "0 \<le> (x :: int) \<Longrightarrow> x < B \<Longrightarrow> 0 < c \<Longrightarrow> 0 \<le> x mod c \<and> x mod c < B"
  using zmod_le_nonneg_dividend [of x c] by auto

lemma small_div: "0 < n \<Longrightarrow> nbig b n x \<Longrightarrow> 0 < c \<Longrightarrow> is_nbig b n (big_val b x div c) (enc b n (big_val b x div c))"
  using nbig_range [of b n x] div_range [of "big_val b x" "2 ^ (b * n)" c] by (intro is_nbig_enc) auto

lemma small_mod: "0 < n \<Longrightarrow> nbig b n x \<Longrightarrow> 0 < c \<Longrightarrow> is_nbig b n (big_val b x mod c) (enc b n (big_val b x mod c))"
  using nbig_range [of b n x] mod_range [of "big_val b x" "2 ^ (b * n)" c] by (intro is_nbig_enc) auto

lemma nbig_mul_range:
  assumes "nbig b n x" "nbig b n y"
  shows "0 \<le> big_val b x * big_val b y" "big_val b x * big_val b y < 2 ^ (b * (2 * n))"
proof -
  note r = nbig_range [OF assms(1)] nbig_range [OF assms(2)]
  show "0 \<le> big_val b x * big_val b y" using r by simp
  have "big_val b x * big_val b y < 2 ^ (b * n) * 2 ^ (b * n)"
    using r by (intro mult_strict_mono) simp_all
  moreover have "b * (2 * n) = b * n + b * n" by simp
  ultimately show "big_val b x * big_val b y < 2 ^ (b * (2 * n))" by (simp only: power_add)
qed

lemma ref_copy_ok:
  assumes "0 < n" "8 * m \<le> b * n"
  shows "big_copy_ok b n m (ref_big b n m)"
proof -
  have big: "(256 :: int) ^ m \<le> 2 ^ (b * n)"
    using power_increasing [OF assms(2), of "2 :: int"] by (simp add: power_mult)
  have rt1: "enc b n (int (be_nat (to_be m (big_val b x)))) = x" if "nbig b n x" for x
    using nbig_range [OF that] by (simp add: nbig_enc_val [OF that])
  have rt2: "nbig b n (enc b n (int (be_nat a))) \<and> to_be m (big_val b (enc b n (int (be_nat a)))) = a" if "length a = m" for a
  proof -
    have v: "int (be_nat a) < 256 ^ m" using be_nat_less [of a] that by (metis of_nat_less_iff of_nat_numeral of_nat_power)
    have "to_be m (int (be_nat a)) = a" using be_nat_inj [of "to_be m (int (be_nat a))" a] v that by (simp add: to_be_len)
    moreover have "nbig b n (enc b n (int (be_nat a)))" by (rule nbig_enc [OF _ less_le_trans [OF v big]]) simp
    ultimately show ?thesis using assms(1) by simp
  qed
  have len: "nbig b n x \<Longrightarrow> big_val b x < 256 ^ m \<Longrightarrow> length (to_be m (big_val b x)) = m" for x
    using nbig_range [of b n x] by (intro to_be_len) auto
  show ?thesis
    using rt1 rt2 len
    by (simp add: big_copy_ok_def ref_big_def ref_shift_def ref_arith_def ref_copy_def ref_fields)
       (auto simp: nbig_def)
qed

lemma ref_arith_ok:
  assumes "2 \<le> n" "32 \<le> b"
  shows "big_arith_ok b n (ref_big b n m)"
proof -
  have n: "0 < n" using assms by simp
  have one: "is_nbig b n 1 (enc b n 1)" "is_nbig b n 0 (enc b n 0)" "is_nbig b (2 * n) 0 (enc b (2 * n) 0)"
    using assms by (auto intro!: is_nbig_enc)
  have mul: "is_nbig b (2 * n) (big_val b x * big_val b y) (enc b (2 * n) (big_val b x * big_val b y))"
    if "nbig b n x" "nbig b n y" for x y
    using nbig_mul_range [OF that] n by (intro is_nbig_enc) auto
  have smul: "big_val b x * big_val b y < 2 ^ (b * n) \<Longrightarrow> is_nbig b n (big_val b x * big_val b y) (enc b n (big_val b x * big_val b y))"
    if "nbig b n x" "nbig b n y" for x y
    using nbig_mul_range [OF that] n by (intro is_nbig_enc) auto
  have lor: "is_nbig b n (big_val b x OR big_val b y) (enc b n (big_val b x OR big_val b y))"
    if "nbig b n x" "nbig b n y" for x y
    using nbig_range [OF that(1)] nbig_range [OF that(2)] n by (intro is_nbig_enc) (auto intro: OR_upper)
  have px: "is_nbig b (2 * n) (big_val b x * i) (enc b (2 * n) (big_val b x * i))"
    if "nbig b n x" "0 \<le> i" "i < 2 ^ 31" for x i
  proof -
    note r = nbig_range [OF that(1)]
    have "b * 1 \<le> b * n" using n by (intro mult_le_mono) auto
    then have "31 \<le> b * n" using assms(2) by linarith
    then have "(2 :: int) ^ 31 \<le> 2 ^ (b * n)" by (intro power_increasing) auto
    then have "big_val b x * i < 2 ^ (b * n) * 2 ^ (b * n)" using r that by (intro mult_strict_mono) auto
    moreover have "b * (2 * n) = b * n + b * n" by simp
    ultimately have "big_val b x * i < 2 ^ (b * (2 * n))" by (simp only: power_add)
    then show ?thesis using r that n by (intro is_nbig_enc) auto
  qed
  have pm: "nbig b n (enc b n (v mod 2 ^ (b * n)))" "big_val b (enc b n (v mod 2 ^ (b * n))) + 2 ^ (b * n) * (v div 2 ^ (b * n)) = v" for v
    using n by (auto intro: nbig_enc)
  show ?thesis
    unfolding big_arith_ok_def
    using n one mul smul lor px pm small_div [OF n, of b _ 3]
    by (simp add: ref_big_def ref_shift_def ref_arith_def ref_copy_def ref_fields)
qed

lemma ref_shift_ok:
  assumes n: "0 < n"
  shows "big_shift_ok b n (ref_big b n m)"
proof -
  have monty: "nbig b n (enc b n (d * inv_mod (2 ^ (b * n)) (big_val b md) mod big_val b md)) \<and>
      (d * inv_mod (2 ^ (b * n)) (big_val b md) mod big_val b md) * 2 ^ (b * n) mod big_val b md = d mod big_val b md"
    if "nbig b n md" "0 < big_val b md" "coprime (big_val b md) (2 ^ (b * n))" for md and d
  proof -
    let ?q = "big_val b md" and ?i = "inv_mod (2 ^ (b * n)) (big_val b md)"
    have "nbig b n (enc b n (d * ?i mod ?q))"
      using nbig_le_lt [OF n that(1), of "d * ?i mod ?q"] that(2) by (simp add: is_nbig_def)
    moreover have "?i * 2 ^ (b * n) mod ?q = 1 mod ?q" using that by (intro inv_mod) (auto simp: coprime_commute)
    then have "d * (?i * 2 ^ (b * n)) mod ?q = d mod ?q" by (metis mod_mult_right_eq mult.right_neutral)
    then have "(d * ?i mod ?q) * 2 ^ (b * n) mod ?q = d mod ?q" by (simp add: mod_mult_left_eq mult.assoc)
    ultimately show ?thesis by simp
  qed
  have shl: "v * 2 ^ s < 2 ^ (b * k) \<Longrightarrow> 0 \<le> v \<Longrightarrow> is_nbig b k (v * 2 ^ s) (enc b k (v * 2 ^ s))" if "0 < k" for v k s
    using that by (intro is_nbig_enc) auto
  have fit: "v < 2 ^ (b * k) \<Longrightarrow> 0 \<le> v \<Longrightarrow> is_nbig b k v (enc b k v)" if "0 < k" for v k
    using that by (intro is_nbig_enc) auto
  have split: "is_nbig b n (big_val b x mod 2 ^ s) (enc b n (big_val b x mod 2 ^ s))" if "s \<le> b * n" for x s
  proof -
    have "(2 :: int) ^ s \<le> 2 ^ (b * n)" using that by (intro power_increasing) auto
    moreover have "big_val b x mod 2 ^ s < 2 ^ s" by simp
    ultimately have "big_val b x mod 2 ^ s < 2 ^ (b * n)" by (rule less_le_trans [rotated])
    then show ?thesis using n by (intro is_nbig_enc) auto
  qed
  have bits: "v < 2 ^ bit_length (nat v)" if "0 \<le> v" for v :: int
    using bit_length_upper [of "nat v"] that by (metis nat_less_numeral_power_cancel_iff)
  have bits1: "2 ^ (bit_length (nat v) - Suc 0) \<le> v" if "0 < v" for v :: int
  proof -
    have "int (2 ^ (bit_length (nat v) - 1)) \<le> int (nat v)" using bit_length_lower [of "nat v"] that by (simp only: of_nat_le_iff zero_less_nat_eq)
    then show ?thesis using that by simp
  qed
  have pos: "0 \<le> big_val b x" if "nbig b k x" for x k using nbig_range [OF that] by simp
  show ?thesis
    unfolding big_shift_ok_def
    apply (intro conjI allI impI)
    using n monty shl fit split bits bits1 pos small_div [OF n, of b] small_div [of "2 * n" b]
    by (simp_all add: ref_big_def ref_shift_def ref_arith_def ref_copy_def ref_fields pos_imp_zdiv_nonneg_iff nat_diff_distrib'  nat_le_iff)
qed

lemma ref_mod_ok:
  assumes n: "0 < n"
  shows "big_mod_ok b n (ref_big b n m)"
proof -
  have modq: "is_nbig b n (w mod big_val b q) (enc b n (w mod big_val b q))" if "nbig b n q" "0 < big_val b q" for q w
    using that by (intro nbig_le_lt [OF n]) auto
  have inv: "nbig b n (enc b n (inv_mod y (big_val b q)))" if "nbig b n q" "0 < big_val b q" for q y
    using modq [OF that] by (simp add: inv_mod_def is_nbig_def)
  have divm: "(x * inv_mod y q mod q) * y mod q = x mod q" if "0 \<le> y" "0 < q" "coprime y q" for x y q
  proof -
    have "x * (inv_mod y q * y) mod q = x mod q" using inv_mod [OF that] by (metis mod_mult_right_eq mult.right_neutral)
    then show ?thesis by (simp add: mod_mult_left_eq mult.assoc)
  qed
  have zero: "nbig b n (enc b n 0)" by (intro nbig_enc) auto
  have pos: "0 \<le> big_val b x" if "nbig b k x" for x k using nbig_range [OF that] by simp
  have ddiv: "is_nbig b n (big_val b d div big_val b q) (enc b n (big_val b d div big_val b q))"
    if "nbig b (2 * n) d" "0 < big_val b q" "big_val b d div big_val b q < 2 ^ (b * n)" for d q
    using that pos [OF that(1)] n by (intro is_nbig_enc) (auto simp: pos_imp_zdiv_nonneg_iff)
  show ?thesis
    unfolding big_mod_ok_def
    apply (intro conjI allI impI)
    using n modq inv divm inv_mod zero pos ddiv small_div [OF n, of b] small_mod [OF n, of b] small_mod [of "2 * n" b] modq [unfolded is_nbig_def]
    by (simp_all add: ref_big_def ref_shift_def ref_arith_def ref_copy_def ref_fields)
qed

abbreviation big_384_58_ok :: "big_api \<Rightarrow> bool" where
  "big_384_58_ok \<equiv> big_ok BASEBITS_384_58 NLEN_384_58 MODBYTES_384_58"

abbreviation ref_big_384_58 :: big_api where
  "ref_big_384_58 \<equiv> ref_big BASEBITS_384_58 NLEN_384_58 MODBYTES_384_58"

lemma ref_big_ok: "big_384_58_ok ref_big_384_58"
  by (simp add: big_ok_def ref_copy_ok ref_arith_ok ref_shift_ok ref_mod_ok NLEN_384_58_def amcl_const)

section \<open>Laws of every library\<close>

text \<open>The contract at given numbers.\<close>

lemma big_okD:
  assumes "big_ok b n m api" "nbig b n x" "nbig b n y" "nbig b n q" "0 < big_val b q"
  shows "is_nbig b (2 * n) (big_val b x * big_val b y) (BIG_mul api x y)"
    "is_nbig b n ((big_val b x * big_val b y) mod big_val b q) (BIG_modmul api x y q)"
    "is_nbig b n ((big_val b x * big_val b x) mod big_val b q) (BIG_modsqr api x q)"
    "coprime (big_val b y) (big_val b q) \<Longrightarrow> nbig b n (BIG_invmodp api y q) \<and>
       (big_val b (BIG_invmodp api y q) * big_val b y) mod big_val b q = 1 mod big_val b q"
    "coprime (big_val b y) (big_val b q) \<Longrightarrow> nbig b n (BIG_moddiv api x y q) \<and>
       (big_val b (BIG_moddiv api x y q) * big_val b y) mod big_val b q = big_val b x mod big_val b q"
    "nbig b (2 * n) d \<Longrightarrow> is_nbig b n (big_val b d mod big_val b q) (BIG_dmod api d q)"
    "BIG_comp api x y = sgn (big_val b x - big_val b y)"
    "is_big b n (big_val b x - big_val b y) (BIG_sub api x y)"
    "big_val b x < 256 ^ m \<Longrightarrow> BIG_fromBytes api (BIG_toBytes api x) = x \<and> length (BIG_toBytes api x) = m"
proof -
  have c: "big_copy_ok b n m api" and a: "big_arith_ok b n api" and h: "big_shift_ok b n api" and k: "big_mod_ok b n api"
    using assms(1) by (simp_all add: big_ok_def)
  note A = a [unfolded big_arith_ok_def, THEN conjunct2, THEN conjunct2, THEN conjunct2, THEN conjunct1, rule_format, OF assms(2,3)]
  note M = k [unfolded big_mod_ok_def, THEN conjunct1, rule_format, OF assms(2-5)]
  note Dm = k [unfolded big_mod_ok_def, THEN conjunct2, THEN conjunct1, rule_format, OF _ assms(4,5)]
  show "is_nbig b (2 * n) (big_val b x * big_val b y) (BIG_mul api x y)" "is_big b n (big_val b x - big_val b y) (BIG_sub api x y)"
    using A by simp_all
  show "is_nbig b n ((big_val b x * big_val b y) mod big_val b q) (BIG_modmul api x y q)"
    "is_nbig b n ((big_val b x * big_val b x) mod big_val b q) (BIG_modsqr api x q)"
    "coprime (big_val b y) (big_val b q) \<Longrightarrow> nbig b n (BIG_invmodp api y q) \<and>
       (big_val b (BIG_invmodp api y q) * big_val b y) mod big_val b q = 1 mod big_val b q"
    "coprime (big_val b y) (big_val b q) \<Longrightarrow> nbig b n (BIG_moddiv api x y q) \<and>
       (big_val b (BIG_moddiv api x y q) * big_val b y) mod big_val b q = big_val b x mod big_val b q"
    using M by simp_all
  show "nbig b (2 * n) d \<Longrightarrow> is_nbig b n (big_val b d mod big_val b q) (BIG_dmod api d q)"
    using Dm by simp
  show "BIG_comp api x y = sgn (big_val b x - big_val b y)"
    using h [unfolded big_shift_ok_def, THEN conjunct2, THEN conjunct2, THEN conjunct2, THEN conjunct2, THEN conjunct2, THEN conjunct1, rule_format, OF assms(2,3)] .
  show "big_val b x < 256 ^ m \<Longrightarrow> BIG_fromBytes api (BIG_toBytes api x) = x \<and> length (BIG_toBytes api x) = m"
    using c [unfolded big_copy_ok_def, THEN conjunct2, THEN conjunct2, THEN conjunct2, THEN conjunct1, rule_format, OF assms(2)] by simp
qed

lemma split_ok:
  assumes "big_ok b n m api" "nbig b (2 * n) d" "0 \<le> s" "s \<le> int (b * n)" "big_val b d div 2 ^ nat s < 2 ^ (b * n)"
  shows "is_nbig b n (big_val b d div 2 ^ nat s) (fst (snd (BIG_split api d s)))"
    "is_nbig b n (big_val b d mod 2 ^ nat s) (snd (snd (BIG_split api d s)))"
  using assms by (simp_all add: big_ok_def big_shift_ok_def)

text \<open>
  Over any library with the documented \<open>BIG\<close> functions of 58-bit digits: \<open>modmul\<close> is \<open>mul\<close> followed by
  \<open>dmod\<close>, \<open>modsqr\<close> is \<open>modmul\<close> with itself, \<open>moddiv\<close> is multiplication by \<open>invmodp\<close> up to the
  modulus, the sign of \<open>sub\<close> is \<open>comp\<close>, the 48 bytes of a number give it back, and the two parts of
  \<open>split\<close> make up the number that was split. Equal means equal digits, as normalised digits are
  determined by the value.
\<close>

theorem big_library_laws:
  assumes api: "big_384_58_ok api"
    and x: "nbig BASEBITS_384_58 NLEN_384_58 x" and y: "nbig BASEBITS_384_58 NLEN_384_58 y"
    and q: "nbig BASEBITS_384_58 NLEN_384_58 q" "0 < big_val BASEBITS_384_58 q"
    and s: "0 \<le> s" "s \<le> int (BASEBITS_384_58 * NLEN_384_58)"
  defines "v \<equiv> big_val BASEBITS_384_58"
  shows "BIG_modmul api x y q = BIG_dmod api (BIG_mul api x y) q \<and>
    BIG_modsqr api x q = BIG_modmul api x x q \<and>
    BIG_comp api x y = sgn (v (BIG_sub api x y)) \<and>
    (v x < 256 ^ MODBYTES_384_58 \<longrightarrow> BIG_fromBytes api (BIG_toBytes api x) = x \<and> length (BIG_toBytes api x) = MODBYTES_384_58) \<and>
    (coprime (v y) (v q) \<longrightarrow> v (BIG_moddiv api x y q) mod v q = v (BIG_modmul api x (BIG_invmodp api y q) q)) \<and>
    (v (BIG_mul api x y) div 2 ^ nat s < 2 ^ (BASEBITS_384_58 * NLEN_384_58) \<longrightarrow>
      v (BIG_mul api x y) = v (fst (snd (BIG_split api (BIG_mul api x y) s))) * 2 ^ nat s + v (snd (snd (BIG_split api (BIG_mul api x y) s))))"
proof (intro conjI impI)
  let ?b = BASEBITS_384_58 and ?n = NLEN_384_58
  note D = big_okD [OF api x _ q]
  have mul: "nbig ?b (2 * ?n) (BIG_mul api x y)" "big_val ?b (BIG_mul api x y) = v x * v y"
    using D(1) [OF y] by (simp_all add: is_nbig_def v_def)
  show "BIG_modmul api x y q = BIG_dmod api (BIG_mul api x y) q"
    using D(2) [OF y] D(6) [OF y mul(1)] mul(2) by (intro nbig_inj [of ?b ?n]) (simp_all add: is_nbig_def v_def)
  show "BIG_modsqr api x q = BIG_modmul api x x q"
    using D(3) [OF x] D(2) [OF x] by (intro nbig_inj [of ?b ?n]) (simp_all add: is_nbig_def)
  show "BIG_comp api x y = sgn (v (BIG_sub api x y))"
    using D(7,8) [OF y] by (simp add: is_big_def v_def)
  show "v x < 256 ^ MODBYTES_384_58 \<Longrightarrow> BIG_fromBytes api (BIG_toBytes api x) = x"
    "v x < 256 ^ MODBYTES_384_58 \<Longrightarrow> length (BIG_toBytes api x) = MODBYTES_384_58"
    using D(9) [OF y] by (simp_all add: v_def)
  show "v (BIG_mul api x y) = v (fst (snd (BIG_split api (BIG_mul api x y) s))) * 2 ^ nat s + v (snd (snd (BIG_split api (BIG_mul api x y) s)))"
    if "v (BIG_mul api x y) div 2 ^ nat s < 2 ^ (?b * ?n)"
    using split_ok [OF api mul(1) s] that unfolding is_nbig_def v_def by (metis div_mult_mod_eq)
  assume co: "coprime (v y) (v q)"
  let ?i = "BIG_invmodp api y q" and ?r = "BIG_moddiv api x y q"
  have i: "nbig ?b ?n ?i" "v ?i * v y mod v q = 1 mod v q" using D(4) [OF y] co by (simp_all add: v_def)
  have r: "v ?r * v y mod v q = v x mod v q" using D(5) [OF y] co by (simp add: v_def)
  have "v ?r mod v q = v ?r * (v ?i * v y) mod v q" using i(2) by (metis mod_mult_right_eq mult.right_neutral)
  also have "\<dots> = (v ?r * v y) * v ?i mod v q" by (simp add: ac_simps)
  also have "\<dots> = (v ?r * v y mod v q) * v ?i mod v q" by (simp only: mod_mult_left_eq)
  also have "\<dots> = v x * v ?i mod v q" by (simp add: r mod_mult_left_eq)
  also have "\<dots> = v (BIG_modmul api x ?i q)" using D(2) [OF i(1)] by (simp add: is_nbig_def v_def)
  finally show "v ?r mod v q = v (BIG_modmul api x ?i q)" .
qed

theorem big_library_laws_witness:
  "BIG_modmul ref_big_384_58 (enc 58 7 5) (enc 58 7 6) (enc 58 7 7)
     = BIG_dmod ref_big_384_58 (BIG_mul ref_big_384_58 (enc 58 7 5) (enc 58 7 6)) (enc 58 7 7)"
proof -
  have "nbig BASEBITS_384_58 NLEN_384_58 (enc 58 7 w)" if "w \<in> {5, 6, 7}" for w
    using nbig_enc [of w 58 7] that by (auto simp: NLEN_384_58_def amcl_const)
  then show ?thesis
    using big_library_laws [OF ref_big_ok, of "enc 58 7 5" "enc 58 7 6" "enc 58 7 7" 0] by (simp add: amcl_const)
qed

end
