(* ===== verification/FieldApi.thy ===== *)
theory FieldApi
  imports BigRef
begin

text \<open>
  The base field and the tower over it: \<open>crypto/include/fp_BLS381.h\<close>, \<open>fp2_BLS381.h\<close>,
  \<open>fp4_BLS381.h\<close>. The declared functions are the fields of records in the order of the headers, with
  output parameters as results. The value of a field element is what \<open>FP_redc\<close> makes of it, a number
  below the modulus \<open>p\<close>; the values of \<open>FP2\<close> are pairs over \<open>sqrt(-1)\<close>, those of \<open>FP4\<close> pairs of them
  over \<open>sqrt(1+sqrt(-1))\<close>. The contracts state the documented behaviour on values; which
  representations are proper (\<open>valid\<close>) is up to the library.
\<close>

section \<open>fp_BLS381.h\<close>

(* crypto/include/fp_BLS381.h:34-42 FP_BLS381 *)
record FP_BLS381 =
  fp_g :: BIG
  fp_XES :: int

(* crypto/include/fp_BLS381.h:45-48 Modulus_BLS381, R2modp_BLS381, MConst_BLS381 *)
record fp_rom =
  Modulus :: BIG
  R2modp :: BIG
  MConst :: chunk

(* crypto/include/fp_BLS381.h:60-152 FP_BLS381_iszilch ... FP_BLS381_mul *)
record fp_base_api =
  FP_iszilch :: "FP_BLS381 \<Rightarrow> int"
  FP_zero :: FP_BLS381
  FP_copy :: "FP_BLS381 \<Rightarrow> FP_BLS381"
  FP_rcopy :: "BIG \<Rightarrow> FP_BLS381"
  FP_equals :: "FP_BLS381 \<Rightarrow> FP_BLS381 \<Rightarrow> int"
  FP_cswap :: "FP_BLS381 \<Rightarrow> FP_BLS381 \<Rightarrow> int \<Rightarrow> FP_BLS381 \<times> FP_BLS381"
  FP_cmove :: "FP_BLS381 \<Rightarrow> FP_BLS381 \<Rightarrow> int \<Rightarrow> FP_BLS381"
  FP_nres :: "BIG \<Rightarrow> FP_BLS381"
  FP_redc :: "FP_BLS381 \<Rightarrow> BIG"
  FP_one :: FP_BLS381
  FP_mod :: "DBIG \<Rightarrow> BIG"
  FP_mul :: "FP_BLS381 \<Rightarrow> FP_BLS381 \<Rightarrow> FP_BLS381"

(* crypto/include/fp_BLS381.h:153-240 FP_BLS381_imul ... FP_BLS381_inv *)
record fp_api = fp_base_api +
  FP_imul :: "FP_BLS381 \<Rightarrow> int \<Rightarrow> FP_BLS381"
  FP_sqr :: "FP_BLS381 \<Rightarrow> FP_BLS381"
  FP_add :: "FP_BLS381 \<Rightarrow> FP_BLS381 \<Rightarrow> FP_BLS381"
  FP_sub :: "FP_BLS381 \<Rightarrow> FP_BLS381 \<Rightarrow> FP_BLS381"
  FP_div2 :: "FP_BLS381 \<Rightarrow> FP_BLS381"
  FP_pow :: "FP_BLS381 \<Rightarrow> BIG \<Rightarrow> FP_BLS381"
  FP_sqrt :: "FP_BLS381 \<Rightarrow> FP_BLS381"
  FP_neg :: "FP_BLS381 \<Rightarrow> FP_BLS381"
  FP_output :: "FP_BLS381 \<Rightarrow> string"
  FP_rawoutput :: "FP_BLS381 \<Rightarrow> string"
  FP_reduce :: "FP_BLS381 \<Rightarrow> FP_BLS381"
  FP_norm :: "FP_BLS381 \<Rightarrow> FP_BLS381"
  FP_qr :: "FP_BLS381 \<Rightarrow> int"
  FP_inv :: "FP_BLS381 \<Rightarrow> FP_BLS381"

text \<open>The value of an element, and a proper element of a given value.\<close>

text \<open>The two headers of this form, by the suffix of their functions, with the bits and number of digits.\<close>

datatype fp_suffix = BLS381 | SECP256K1

fun fp_bits :: "fp_suffix \<Rightarrow> nat" where
  "fp_bits BLS381 = BASEBITS_384_58"
| "fp_bits SECP256K1 = BASEBITS_256_56"

fun fp_len :: "fp_suffix \<Rightarrow> nat" where
  "fp_len BLS381 = NLEN_384_58"
| "fp_len SECP256K1 = NLEN_256_56"

definition fval_in :: "fp_suffix \<Rightarrow> ('a fp_base_api_scheme) \<Rightarrow> FP_BLS381 \<Rightarrow> int" where
  "fval_in f api x = big_val (fp_bits f) (FP_redc api x)"

definition is_fp_in :: "fp_suffix \<Rightarrow> (FP_BLS381 \<Rightarrow> bool) \<Rightarrow> ('a fp_base_api_scheme) \<Rightarrow> int \<Rightarrow> FP_BLS381 \<Rightarrow> bool" where
  "is_fp_in f valid api v x \<longleftrightarrow> valid x \<and> fval_in f api x = v"

text \<open>The contract has the header as a parameter; \<open>fp_SECP256K1.h\<close> is the same header.\<close>

definition fp_base_ok_in :: "fp_suffix \<Rightarrow> int \<Rightarrow> (FP_BLS381 \<Rightarrow> bool) \<Rightarrow> ('a fp_base_api_scheme) \<Rightarrow> bool" where
  "fp_base_ok_in f p valid api \<longleftrightarrow>
     is_fp_in f valid api 0 (FP_zero api) \<and> is_fp_in f valid api (1 mod p) (FP_one api) \<and>
     (\<forall>x y. valid x \<longrightarrow> valid y \<longrightarrow>
        0 \<le> fval_in f api x \<and> fval_in f api x < p \<and>
        FP_iszilch api x = bool_int (fval_in f api x = 0) \<and>
        is_fp_in f valid api (fval_in f api x) (FP_copy api x) \<and>
        FP_equals api x y = bool_int (fval_in f api x = fval_in f api y) \<and>
        (\<forall>s. FP_cswap api x y s = (if s = 0 then (x, y) else (y, x)) \<and> FP_cmove api x y s = (if s = 0 then x else y)) \<and>
        is_fp_in f valid api (fval_in f api x * fval_in f api y mod p) (FP_mul api x y)) \<and>
     (\<forall>a. nbig (fp_bits f) (fp_len f) a \<longrightarrow> big_val (fp_bits f) a < p \<longrightarrow>
        is_fp_in f valid api (big_val (fp_bits f) a) (FP_nres api a) \<and>
        is_fp_in f valid api (big_val (fp_bits f) a) (FP_rcopy api a))"

definition square_mod :: "int \<Rightarrow> int \<Rightarrow> bool" where
  "square_mod p v \<longleftrightarrow> (\<exists>z. z * z mod p = v)"

definition fp_ok_in :: "fp_suffix \<Rightarrow> int \<Rightarrow> (FP_BLS381 \<Rightarrow> bool) \<Rightarrow> fp_api \<Rightarrow> bool" where
  "fp_ok_in f p valid api \<longleftrightarrow> fp_base_ok_in f p valid api \<and>
     (\<forall>x y. valid x \<longrightarrow> valid y \<longrightarrow>
        (\<forall>i. 0 \<le> i \<longrightarrow> is_fp_in f valid api (fval_in f api x * i mod p) (FP_imul api x i)) \<and>
        is_fp_in f valid api (fval_in f api x * fval_in f api x mod p) (FP_sqr api x) \<and>
        is_fp_in f valid api ((fval_in f api x + fval_in f api y) mod p) (FP_add api x y) \<and>
        is_fp_in f valid api ((fval_in f api x - fval_in f api y) mod p) (FP_sub api x y) \<and>
        is_fp_in f valid api ((- fval_in f api x) mod p) (FP_neg api x) \<and>
        valid (FP_div2 api x) \<and> fval_in f api (FP_div2 api x) * 2 mod p = fval_in f api x \<and>
        (\<forall>z. nbig (fp_bits f) (fp_len f) z \<longrightarrow>
           is_fp_in f valid api (fval_in f api x ^ nat (big_val (fp_bits f) z) mod p) (FP_pow api x z)) \<and>
        FP_qr api x = bool_int (square_mod p (fval_in f api x)) \<and>
        (square_mod p (fval_in f api x) \<longrightarrow> valid (FP_sqrt api x) \<and>
           fval_in f api (FP_sqrt api x) * fval_in f api (FP_sqrt api x) mod p = fval_in f api x) \<and>
        is_fp_in f valid api (fval_in f api x) (FP_reduce api x) \<and> is_fp_in f valid api (fval_in f api x) (FP_norm api x) \<and>
        (fval_in f api x \<noteq> 0 \<longrightarrow> valid (FP_inv api x) \<and> fval_in f api (FP_inv api x) * fval_in f api x mod p = 1 mod p))"

abbreviation fval :: "('a fp_base_api_scheme) \<Rightarrow> FP_BLS381 \<Rightarrow> int" where
  "fval \<equiv> fval_in BLS381"

abbreviation is_fp :: "(FP_BLS381 \<Rightarrow> bool) \<Rightarrow> ('a fp_base_api_scheme) \<Rightarrow> int \<Rightarrow> FP_BLS381 \<Rightarrow> bool" where
  "is_fp \<equiv> is_fp_in BLS381"

abbreviation fp_base_ok :: "int \<Rightarrow> (FP_BLS381 \<Rightarrow> bool) \<Rightarrow> ('a fp_base_api_scheme) \<Rightarrow> bool" where
  "fp_base_ok \<equiv> fp_base_ok_in BLS381"

abbreviation fp_ok :: "int \<Rightarrow> (FP_BLS381 \<Rightarrow> bool) \<Rightarrow> fp_api \<Rightarrow> bool" where
  "fp_ok \<equiv> fp_ok_in BLS381"

section \<open>fp2_BLS381.h\<close>

(* crypto/include/fp2_BLS381.h:32-40 FP2_BLS381 *)
record FP2_BLS381 =
  fp2_a :: FP_BLS381
  fp2_b :: FP_BLS381

(* crypto/include/fp2_BLS381.h:42-141 FP2_BLS381_iszilch ... FP2_BLS381_sub *)
record fp2_base_api =
  FP2_iszilch :: "FP2_BLS381 \<Rightarrow> int"
  FP2_cmove :: "FP2_BLS381 \<Rightarrow> FP2_BLS381 \<Rightarrow> int \<Rightarrow> FP2_BLS381"
  FP2_isunity :: "FP2_BLS381 \<Rightarrow> int"
  FP2_equals :: "FP2_BLS381 \<Rightarrow> FP2_BLS381 \<Rightarrow> int"
  FP2_from_FPs :: "FP_BLS381 \<Rightarrow> FP_BLS381 \<Rightarrow> FP2_BLS381"
  FP2_from_BIGs :: "BIG \<Rightarrow> BIG \<Rightarrow> FP2_BLS381"
  FP2_from_FP :: "FP_BLS381 \<Rightarrow> FP2_BLS381"
  FP2_from_BIG :: "BIG \<Rightarrow> FP2_BLS381"
  FP2_copy :: "FP2_BLS381 \<Rightarrow> FP2_BLS381"
  FP2_zero :: FP2_BLS381
  FP2_one :: FP2_BLS381
  FP2_neg :: "FP2_BLS381 \<Rightarrow> FP2_BLS381"
  FP2_conj :: "FP2_BLS381 \<Rightarrow> FP2_BLS381"
  FP2_add :: "FP2_BLS381 \<Rightarrow> FP2_BLS381 \<Rightarrow> FP2_BLS381"
  FP2_sub :: "FP2_BLS381 \<Rightarrow> FP2_BLS381 \<Rightarrow> FP2_BLS381"

(* crypto/include/fp2_BLS381.h:142-238 FP2_BLS381_pmul ... FP2_BLS381_times_i *)
record fp2_api = fp2_base_api +
  FP2_pmul :: "FP2_BLS381 \<Rightarrow> FP_BLS381 \<Rightarrow> FP2_BLS381"
  FP2_imul :: "FP2_BLS381 \<Rightarrow> int \<Rightarrow> FP2_BLS381"
  FP2_sqr :: "FP2_BLS381 \<Rightarrow> FP2_BLS381"
  FP2_mul :: "FP2_BLS381 \<Rightarrow> FP2_BLS381 \<Rightarrow> FP2_BLS381"
  FP2_output :: "FP2_BLS381 \<Rightarrow> string"
  FP2_rawoutput :: "FP2_BLS381 \<Rightarrow> string"
  FP2_inv :: "FP2_BLS381 \<Rightarrow> FP2_BLS381"
  FP2_div2 :: "FP2_BLS381 \<Rightarrow> FP2_BLS381"
  FP2_mul_ip :: "FP2_BLS381 \<Rightarrow> FP2_BLS381"
  FP2_div_ip2 :: "FP2_BLS381 \<Rightarrow> FP2_BLS381"
  FP2_div_ip :: "FP2_BLS381 \<Rightarrow> FP2_BLS381"
  FP2_norm :: "FP2_BLS381 \<Rightarrow> FP2_BLS381"
  FP2_reduce :: "FP2_BLS381 \<Rightarrow> FP2_BLS381"
  FP2_pow :: "FP2_BLS381 \<Rightarrow> BIG \<Rightarrow> FP2_BLS381"
  FP2_sqrt :: "FP2_BLS381 \<Rightarrow> int \<times> FP2_BLS381"
  FP2_times_i :: "FP2_BLS381 \<Rightarrow> FP2_BLS381"

text \<open>Arithmetic on values: pairs of residues, with the square of \<open>(0, 1)\<close> equal to \<open>-1\<close>.\<close>

type_synonym f2 = "int \<times> int"

fun f2_add :: "int \<Rightarrow> f2 \<Rightarrow> f2 \<Rightarrow> f2" where "f2_add p (a, b) (c, d) = ((a + c) mod p, (b + d) mod p)"
fun f2_sub :: "int \<Rightarrow> f2 \<Rightarrow> f2 \<Rightarrow> f2" where "f2_sub p (a, b) (c, d) = ((a - c) mod p, (b - d) mod p)"
fun f2_mul :: "int \<Rightarrow> f2 \<Rightarrow> f2 \<Rightarrow> f2" where "f2_mul p (a, b) (c, d) = ((a * c - b * d) mod p, (a * d + b * c) mod p)"
fun f2_neg :: "int \<Rightarrow> f2 \<Rightarrow> f2" where "f2_neg p (a, b) = ((- a) mod p, (- b) mod p)"
fun f2_conj :: "int \<Rightarrow> f2 \<Rightarrow> f2" where "f2_conj p (a, b) = (a mod p, (- b) mod p)"
definition f2_one :: "int \<Rightarrow> f2" where "f2_one p = (1 mod p, 0)"
definition f2_xi :: "int \<Rightarrow> f2" where "f2_xi p = (1 mod p, 1 mod p)"

fun f2_pow :: "int \<Rightarrow> f2 \<Rightarrow> nat \<Rightarrow> f2" where
  "f2_pow p x 0 = f2_one p"
| "f2_pow p x (Suc n) = f2_mul p x (f2_pow p x n)"

text \<open>The value of an \<open>FP2\<close> and a proper \<open>FP2\<close> of a given value.\<close>

definition f2val :: "fp_api \<Rightarrow> FP2_BLS381 \<Rightarrow> f2" where
  "f2val fp x = (fval fp (fp2_a x), fval fp (fp2_b x))"

definition valid2 :: "(FP_BLS381 \<Rightarrow> bool) \<Rightarrow> FP2_BLS381 \<Rightarrow> bool" where
  "valid2 valid x \<longleftrightarrow> valid (fp2_a x) \<and> valid (fp2_b x)"

definition is_fp2 :: "(FP_BLS381 \<Rightarrow> bool) \<Rightarrow> fp_api \<Rightarrow> f2 \<Rightarrow> FP2_BLS381 \<Rightarrow> bool" where
  "is_fp2 valid fp v x \<longleftrightarrow> valid2 valid x \<and> f2val fp x = v"

definition fp2_ok :: "int \<Rightarrow> (FP_BLS381 \<Rightarrow> bool) \<Rightarrow> fp_api \<Rightarrow> fp2_api \<Rightarrow> bool" where
  "fp2_ok p valid fp api \<longleftrightarrow>
     is_fp2 valid fp (0, 0) (FP2_zero api) \<and> is_fp2 valid fp (f2_one p) (FP2_one api) \<and>
     (\<forall>a b. valid a \<longrightarrow> valid b \<longrightarrow>
        is_fp2 valid fp (fval fp a, fval fp b) (FP2_from_FPs api a b) \<and> is_fp2 valid fp (fval fp a, 0) (FP2_from_FP api a)) \<and>
     (\<forall>x y. valid2 valid x \<longrightarrow> valid2 valid y \<longrightarrow>
        FP2_iszilch api x = bool_int (f2val fp x = (0, 0)) \<and> FP2_isunity api x = bool_int (f2val fp x = f2_one p) \<and>
        FP2_equals api x y = bool_int (f2val fp x = f2val fp y) \<and>
        (\<forall>s. FP2_cmove api x y s = (if s = 0 then x else y)) \<and>
        is_fp2 valid fp (f2val fp x) (FP2_copy api x) \<and>
        is_fp2 valid fp (f2_neg p (f2val fp x)) (FP2_neg api x) \<and>
        is_fp2 valid fp (f2_conj p (f2val fp x)) (FP2_conj api x) \<and>
        is_fp2 valid fp (f2_add p (f2val fp x) (f2val fp y)) (FP2_add api x y) \<and>
        is_fp2 valid fp (f2_sub p (f2val fp x) (f2val fp y)) (FP2_sub api x y) \<and>
        is_fp2 valid fp (f2_mul p (f2val fp x) (f2val fp y)) (FP2_mul api x y) \<and>
        is_fp2 valid fp (f2_mul p (f2val fp x) (f2val fp x)) (FP2_sqr api x) \<and>
        (\<forall>a. valid a \<longrightarrow> is_fp2 valid fp (f2_mul p (f2val fp x) (fval fp a, 0)) (FP2_pmul api x a)) \<and>
        (\<forall>i. 0 \<le> i \<longrightarrow> is_fp2 valid fp (f2_mul p (f2val fp x) (i, 0)) (FP2_imul api x i)) \<and>
        is_fp2 valid fp (f2_mul p (f2val fp x) (f2_xi p)) (FP2_mul_ip api x) \<and>
        is_fp2 valid fp (f2_mul p (f2val fp x) (0, 1)) (FP2_times_i api x) \<and>
        is_fp2 valid fp (f2val fp x) (FP2_norm api x) \<and> is_fp2 valid fp (f2val fp x) (FP2_reduce api x) \<and>
        valid2 valid (FP2_div2 api x) \<and> f2_mul p (f2val fp (FP2_div2 api x)) (2, 0) = f2val fp x \<and>
        valid2 valid (FP2_div_ip api x) \<and> f2_mul p (f2val fp (FP2_div_ip api x)) (f2_xi p) = f2val fp x \<and>
        valid2 valid (FP2_div_ip2 api x) \<and>
        f2_mul p (f2val fp (FP2_div_ip2 api x)) (f2_xi p) = f2_mul p (f2val fp x) (2, 0) \<and>
        (f2val fp x \<noteq> (0, 0) \<longrightarrow> valid2 valid (FP2_inv api x) \<and> f2_mul p (f2val fp (FP2_inv api x)) (f2val fp x) = f2_one p) \<and>
        (\<forall>z. nbig BASEBITS_384_58 NLEN_384_58 z \<longrightarrow>
           is_fp2 valid fp (f2_pow p (f2val fp x) (nat (big_val BASEBITS_384_58 z))) (FP2_pow api x z)))"

section \<open>FP2 over any FP\<close>

lemma fp_base_binD:
  assumes ok: "fp_ok_in f p valid api" and x: "valid x" and y: "valid y"
  shows "FP_equals api x y = bool_int (fval_in f api x = fval_in f api y)"
    "valid (FP_mul api x y)" "fval_in f api (FP_mul api x y) = fval_in f api x * fval_in f api y mod p"
proof -
  note A = ok [unfolded fp_ok_in_def fp_base_ok_in_def, THEN conjunct1, THEN conjunct2, THEN conjunct2, THEN conjunct1,
      rule_format, OF x y]
  show "FP_equals api x y = bool_int (fval_in f api x = fval_in f api y)"
    "valid (FP_mul api x y)" "fval_in f api (FP_mul api x y) = fval_in f api x * fval_in f api y mod p"
    using A by (simp_all add: is_fp_in_def)
qed

lemma fp_base_unD:
  assumes ok: "fp_ok_in f p valid api" and x: "valid x"
  shows "0 \<le> fval_in f api x" "fval_in f api x < p" "FP_iszilch api x = bool_int (fval_in f api x = 0)"
    "valid (FP_copy api x)" "fval_in f api (FP_copy api x) = fval_in f api x"
proof -
  note A = ok [unfolded fp_ok_in_def fp_base_ok_in_def, THEN conjunct1, THEN conjunct2, THEN conjunct2, THEN conjunct1,
      rule_format, OF x x]
  show "0 \<le> fval_in f api x" "fval_in f api x < p" "FP_iszilch api x = bool_int (fval_in f api x = 0)"
    "valid (FP_copy api x)" "fval_in f api (FP_copy api x) = fval_in f api x"
    using A by (simp_all add: is_fp_in_def)
qed

lemma fp_const_okD:
  assumes ok: "fp_ok_in f p valid api"
  shows "valid (FP_zero api)" "fval_in f api (FP_zero api) = 0" "valid (FP_one api)" "fval_in f api (FP_one api) = 1 mod p"
  using ok by (simp_all add: fp_ok_in_def fp_base_ok_in_def is_fp_in_def)

lemma fp_binD:
  assumes ok: "fp_ok_in f p valid api" and x: "valid x" and y: "valid y"
  shows "valid (FP_add api x y)" "fval_in f api (FP_add api x y) = (fval_in f api x + fval_in f api y) mod p"
    "valid (FP_sub api x y)" "fval_in f api (FP_sub api x y) = (fval_in f api x - fval_in f api y) mod p"
proof -
  note A = ok [unfolded fp_ok_in_def, THEN conjunct2, rule_format, OF x y]
  show "valid (FP_add api x y)" "fval_in f api (FP_add api x y) = (fval_in f api x + fval_in f api y) mod p"
    "valid (FP_sub api x y)" "fval_in f api (FP_sub api x y) = (fval_in f api x - fval_in f api y) mod p"
    using A by (simp_all add: is_fp_in_def)
qed

lemma fp_unD:
  assumes ok: "fp_ok_in f p valid api" and x: "valid x"
  shows "valid (FP_neg api x)" "fval_in f api (FP_neg api x) = (- fval_in f api x) mod p"
    "valid (FP_sqr api x)" "fval_in f api (FP_sqr api x) = fval_in f api x * fval_in f api x mod p"
    "valid (FP_div2 api x)" "fval_in f api (FP_div2 api x) * 2 mod p = fval_in f api x"
    "valid (FP_norm api x)" "fval_in f api (FP_norm api x) = fval_in f api x"
    "valid (FP_reduce api x)" "fval_in f api (FP_reduce api x) = fval_in f api x"
    "0 \<le> i \<Longrightarrow> valid (FP_imul api x i)" "0 \<le> i \<Longrightarrow> fval_in f api (FP_imul api x i) = fval_in f api x * i mod p"
    "fval_in f api x \<noteq> 0 \<Longrightarrow> valid (FP_inv api x)" "fval_in f api x \<noteq> 0 \<Longrightarrow> fval_in f api (FP_inv api x) * fval_in f api x mod p = 1 mod p"
proof -
  note A = ok [unfolded fp_ok_in_def, THEN conjunct2, rule_format, OF x x]
  show "valid (FP_neg api x)" "fval_in f api (FP_neg api x) = (- fval_in f api x) mod p"
    "valid (FP_sqr api x)" "fval_in f api (FP_sqr api x) = fval_in f api x * fval_in f api x mod p"
    "valid (FP_div2 api x)" "fval_in f api (FP_div2 api x) * 2 mod p = fval_in f api x"
    "valid (FP_norm api x)" "fval_in f api (FP_norm api x) = fval_in f api x"
    "valid (FP_reduce api x)" "fval_in f api (FP_reduce api x) = fval_in f api x"
    "0 \<le> i \<Longrightarrow> valid (FP_imul api x i)" "0 \<le> i \<Longrightarrow> fval_in f api (FP_imul api x i) = fval_in f api x * i mod p"
    "fval_in f api x \<noteq> 0 \<Longrightarrow> valid (FP_inv api x)" "fval_in f api x \<noteq> 0 \<Longrightarrow> fval_in f api (FP_inv api x) * fval_in f api x mod p = 1 mod p"
    using A by (simp_all add: is_fp_in_def)
qed

lemmas fp_rules = fp_base_binD fp_base_unD fp_const_okD fp_binD fp_unD

definition mk2 :: "FP_BLS381 \<Rightarrow> FP_BLS381 \<Rightarrow> FP2_BLS381" where
  "mk2 a b = \<lparr> fp2_a = a, fp2_b = b \<rparr>"

lemma mk2_sel [simp]: "fp2_a (mk2 a b) = a" "fp2_b (mk2 a b) = b"
  by (simp_all add: mk2_def)

definition fp2_mul_of :: "fp_api \<Rightarrow> FP2_BLS381 \<Rightarrow> FP2_BLS381 \<Rightarrow> FP2_BLS381" where
  "fp2_mul_of fp x y =
     mk2 (FP_sub fp (FP_mul fp (fp2_a x) (fp2_a y)) (FP_mul fp (fp2_b x) (fp2_b y)))
         (FP_add fp (FP_mul fp (fp2_a x) (fp2_b y)) (FP_mul fp (fp2_b x) (fp2_a y)))"

definition fp2_one_of :: "fp_api \<Rightarrow> FP2_BLS381" where
  "fp2_one_of fp = mk2 (FP_one fp) (FP_zero fp)"

definition fp2_inv_of :: "fp_api \<Rightarrow> FP2_BLS381 \<Rightarrow> FP2_BLS381" where
  "fp2_inv_of fp x = (let n = FP_inv fp (FP_add fp (FP_sqr fp (fp2_a x)) (FP_sqr fp (fp2_b x))) in
     mk2 (FP_mul fp (fp2_a x) n) (FP_mul fp (FP_neg fp (fp2_b x)) n))"

fun fp2_pow_of :: "fp_api \<Rightarrow> FP2_BLS381 \<Rightarrow> nat \<Rightarrow> FP2_BLS381" where
  "fp2_pow_of fp x 0 = fp2_one_of fp"
| "fp2_pow_of fp x (Suc n) = fp2_mul_of fp x (fp2_pow_of fp x n)"

definition fp2_sqrt_of :: "fp_api \<Rightarrow> FP2_BLS381 \<Rightarrow> int \<times> FP2_BLS381" where
  "fp2_sqrt_of fp x = (let no = (0, mk2 (FP_zero fp) (FP_zero fp)); n = FP_add fp (FP_sqr fp (fp2_a x)) (FP_sqr fp (fp2_b x)) in
     if FP_qr fp n \<noteq> 1 then no
     else let s = FP_sqrt fp n; w = FP_div2 fp (FP_add fp (fp2_a x) s);
              w' = (if FP_qr fp w = 1 then w else FP_div2 fp (FP_sub fp (fp2_a x) s)) in
       if FP_qr fp w' \<noteq> 1 then no
       else let r = FP_sqrt fp w' in (1, mk2 r (FP_mul fp (FP_inv fp (FP_add fp r r)) (fp2_b x))))"

definition fp2_base_of :: "fp_api \<Rightarrow> fp2_base_api" where
  "fp2_base_of fp = \<lparr>
     FP2_iszilch = \<lambda>x. bool_int (FP_iszilch fp (fp2_a x) = 1 \<and> FP_iszilch fp (fp2_b x) = 1),
     FP2_cmove = \<lambda>x y s. if s = 0 then x else y,
     FP2_isunity = \<lambda>x. bool_int (FP_equals fp (fp2_a x) (FP_one fp) = 1 \<and> FP_iszilch fp (fp2_b x) = 1),
     FP2_equals = \<lambda>x y. bool_int (FP_equals fp (fp2_a x) (fp2_a y) = 1 \<and> FP_equals fp (fp2_b x) (fp2_b y) = 1),
     FP2_from_FPs = mk2,
     FP2_from_BIGs = \<lambda>a b. mk2 (FP_nres fp a) (FP_nres fp b),
     FP2_from_FP = \<lambda>a. mk2 a (FP_zero fp),
     FP2_from_BIG = \<lambda>a. mk2 (FP_nres fp a) (FP_zero fp),
     FP2_copy = \<lambda>x. mk2 (FP_copy fp (fp2_a x)) (FP_copy fp (fp2_b x)),
     FP2_zero = mk2 (FP_zero fp) (FP_zero fp),
     FP2_one = fp2_one_of fp,
     FP2_neg = \<lambda>x. mk2 (FP_neg fp (fp2_a x)) (FP_neg fp (fp2_b x)),
     FP2_conj = \<lambda>x. mk2 (fp2_a x) (FP_neg fp (fp2_b x)),
     FP2_add = \<lambda>x y. mk2 (FP_add fp (fp2_a x) (fp2_a y)) (FP_add fp (fp2_b x) (fp2_b y)),
     FP2_sub = \<lambda>x y. mk2 (FP_sub fp (fp2_a x) (fp2_a y)) (FP_sub fp (fp2_b x) (fp2_b y)) \<rparr>"

definition fp2_of :: "fp_api \<Rightarrow> fp2_api" where
  "fp2_of fp = fp2_base_api.extend (fp2_base_of fp) \<lparr>
     FP2_pmul = \<lambda>x a. mk2 (FP_mul fp (fp2_a x) a) (FP_mul fp (fp2_b x) a),
     FP2_imul = \<lambda>x i. mk2 (FP_imul fp (fp2_a x) i) (FP_imul fp (fp2_b x) i),
     FP2_sqr = \<lambda>x. fp2_mul_of fp x x,
     FP2_mul = fp2_mul_of fp,
     FP2_output = \<lambda>x. FP_output fp (fp2_a x) @ FP_output fp (fp2_b x),
     FP2_rawoutput = \<lambda>x. FP_rawoutput fp (fp2_a x) @ FP_rawoutput fp (fp2_b x),
     FP2_inv = fp2_inv_of fp,
     FP2_div2 = \<lambda>x. mk2 (FP_div2 fp (fp2_a x)) (FP_div2 fp (fp2_b x)),
     FP2_mul_ip = \<lambda>x. mk2 (FP_sub fp (fp2_a x) (fp2_b x)) (FP_add fp (fp2_a x) (fp2_b x)),
     FP2_div_ip2 = \<lambda>x. mk2 (FP_add fp (fp2_a x) (fp2_b x)) (FP_sub fp (fp2_b x) (fp2_a x)),
     FP2_div_ip = \<lambda>x. mk2 (FP_div2 fp (FP_add fp (fp2_a x) (fp2_b x))) (FP_div2 fp (FP_sub fp (fp2_b x) (fp2_a x))),
     FP2_norm = \<lambda>x. mk2 (FP_norm fp (fp2_a x)) (FP_norm fp (fp2_b x)),
     FP2_reduce = \<lambda>x. mk2 (FP_reduce fp (fp2_a x)) (FP_reduce fp (fp2_b x)),
     FP2_pow = \<lambda>x z. fp2_pow_of fp x (nat (big_val BASEBITS_384_58 z)),
     FP2_sqrt = fp2_sqrt_of fp,
     FP2_times_i = \<lambda>x. mk2 (FP_neg fp (fp2_b x)) (fp2_a x) \<rparr>"

lemmas fp2_of_fields = fp2_of_def fp2_base_of_def fp2_base_api.defs fp2_api.defs

text \<open>The only zero of \<open>a^2 + b^2\<close> is zero: \<open>-1\<close> is no square.\<close>

definition anisotropic :: "int \<Rightarrow> bool" where
  "anisotropic p \<longleftrightarrow> (\<forall>a \<in> {0..<p}. \<forall>b \<in> {0..<p}. (a * a + b * b) mod p = 0 \<longrightarrow> a = 0 \<and> b = 0)"

lemma is_fp2_mk2: "is_fp2 valid fp v (mk2 a b) \<longleftrightarrow> valid a \<and> valid b \<and> (fval fp a, fval fp b) = v"
  by (auto simp: is_fp2_def valid2_def f2val_def)

lemma fp2_mul_of_ok:
  assumes ok: "fp_ok p valid fp" and v: "valid2 valid x" "valid2 valid y"
  shows "is_fp2 valid fp (f2_mul p (f2val fp x) (f2val fp y)) (fp2_mul_of fp x y)"
proof -
  note D = fp_rules [OF ok]
  show ?thesis using v by (simp add: fp2_mul_of_def is_fp2_mk2 valid2_def f2val_def D mod_simps ac_simps)
qed

lemma fp2_one_of_ok: "fp_ok p valid fp \<Longrightarrow> is_fp2 valid fp (f2_one p) (fp2_one_of fp)"
  by (simp add: fp2_one_of_def is_fp2_mk2 fp_const_okD f2_one_def)

lemma fp2_pow_of_ok:
  assumes ok: "fp_ok p valid fp" and v: "valid2 valid x"
  shows "is_fp2 valid fp (f2_pow p (f2val fp x) n) (fp2_pow_of fp x n)"
proof (induction n)
  case 0
  then show ?case using ok by (simp add: fp2_one_of_ok)
next
  case (Suc n)
  then have y: "valid2 valid (fp2_pow_of fp x n)" "f2val fp (fp2_pow_of fp x n) = f2_pow p (f2val fp x) n"
    by (auto simp only: is_fp2_def)
  show ?case using fp2_mul_of_ok [OF ok v y(1)] unfolding y(2) fp2_pow_of.simps f2_pow.simps .
qed

lemma fp2_inv_of_ok:
  assumes ok: "fp_ok p valid fp" and an: "anisotropic p" and v: "valid2 valid x" and nz: "f2val fp x \<noteq> (0, 0)"
  shows "valid2 valid (fp2_inv_of fp x)" "f2_mul p (f2val fp (fp2_inv_of fp x)) (f2val fp x) = f2_one p"
proof -
  note D = fp_rules [OF ok]
  define a b where ab: "a = fval fp (fp2_a x)" "b = fval fp (fp2_b x)"
  define N where N: "N = FP_add fp (FP_sqr fp (fp2_a x)) (FP_sqr fp (fp2_b x))"
  have v': "valid (fp2_a x)" "valid (fp2_b x)" using v by (simp_all add: valid2_def)
  note s = fp_unD(3) [OF ok v'(1)] fp_unD(3) [OF ok v'(2)]
  have vN: "valid N" "fval fp N = (a * a + b * b) mod p"
    unfolding N by (rule fp_binD(1) [OF ok s]) (simp add: fp_binD(2) [OF ok s] fp_unD(4) [OF ok] v' ab mod_add_eq)
  have in_p: "a \<in> {0..<p}" "b \<in> {0..<p}" using fp_base_unD(1,2) [OF ok v'(1)] fp_base_unD(1,2) [OF ok v'(2)] by (simp_all add: ab)
  have "\<not> (a = 0 \<and> b = 0)" using nz by (simp add: ab f2val_def)
  then have "fval fp N \<noteq> 0"
    unfolding vN(2) using an [unfolded anisotropic_def, THEN bspec, OF in_p(1), THEN bspec, OF in_p(2)] by meson
  note i = fp_unD(13,14) [OF ok vN(1) this]
  define n where n: "n = fval fp (FP_inv fp N)"
  have n1: "n * (a * a + b * b) mod p = 1 mod p" using i(2) by (simp only: n vN(2) mod_mult_right_eq)
  show "valid2 valid (fp2_inv_of fp x)"
    unfolding fp2_inv_of_def N [symmetric] Let_def valid2_def mk2_sel
    by (intro conjI fp_base_binD(2) [OF ok] fp_unD(1) [OF ok] v' i(1))
  have vi: "valid (FP_inv fp N)" "valid (FP_neg fp (fp2_b x))" using i(1) v' by (simp_all add: D)
  have "f2val fp (fp2_inv_of fp x) = (a * n mod p, (- b mod p) * n mod p)"
    unfolding f2val_def fp2_inv_of_def N [symmetric] Let_def mk2_sel ab n
    by (simp only: fp_base_binD(3) [OF ok] vi v' fp_unD(2) [OF ok])
  then have e: "f2val fp (fp2_inv_of fp x) = (a * n mod p, - b * n mod p)" by (simp only: mod_mult_left_eq)
  have "(a * n mod p * a - - b * n mod p * b) mod p = (a * n * a - - b * n * b) mod p"
    by (intro mod_diff_cong mod_mult_left_eq)
  also have "a * n * a - - b * n * b = n * (a * a + b * b)" by (simp add: algebra_simps)
  finally have re: "(a * n mod p * a - - b * n mod p * b) mod p = 1 mod p" using n1 by simp
  have "(a * n mod p * b + - b * n mod p * a) mod p = (a * n * b + - b * n * a) mod p"
    by (intro mod_add_cong mod_mult_left_eq)
  also have "a * n * b + - b * n * a = 0" by (simp add: algebra_simps)
  finally have im: "(a * n mod p * b + - b * n mod p * a) mod p = 0" by simp
  show "f2_mul p (f2val fp (fp2_inv_of fp x)) (f2val fp x) = f2_one p"
    unfolding e f2val_def [of fp x] ab [symmetric] f2_mul.simps re im f2_one_def ..
qed

text \<open>Values of the operations that are one FP operation per part.\<close>

lemma f2val_range: "fp_ok p valid fp \<Longrightarrow> valid a \<Longrightarrow> fval fp a mod p = fval fp a"
  using fp_base_unD(1,2) [of BLS381 p valid fp a] by simp

lemma mod_double: "(a :: int) * 2 mod p = b mod p \<Longrightarrow> c * 2 mod p = d mod p \<Longrightarrow>
    (a - c) * 2 mod p = (b - d) mod p \<and> (a + c) * 2 mod p = (b + d) mod p"
  by (simp add: left_diff_distrib distrib_right) (metis mod_diff_cong mod_add_cong)

lemma div2_halves:
  assumes ok: "fp_ok p valid fp" and v: "valid a" "valid b"
  defines "h \<equiv> FP_div2 fp (FP_add fp a b)" and "k \<equiv> FP_div2 fp (FP_sub fp b a)"
  shows "valid h" "valid k" "fval fp h * 2 mod p = (fval fp a + fval fp b) mod p"
    "fval fp k * 2 mod p = (fval fp b - fval fp a) mod p"
proof -
  note s = fp_binD(1,2) [OF ok v] fp_binD(3,4) [OF ok v(2,1)]
  show "valid h" "valid k" unfolding h_def k_def using fp_unD(5) [OF ok s(1)] fp_unD(5) [OF ok s(3)] by auto
  show "fval fp h * 2 mod p = (fval fp a + fval fp b) mod p" "fval fp k * 2 mod p = (fval fp b - fval fp a) mod p"
    unfolding h_def k_def using fp_unD(6) [OF ok s(1)] fp_unD(6) [OF ok s(3)] s(2,4) by auto
qed

lemma odd_double_cancel: "odd (p :: int) \<Longrightarrow> a * 2 mod p = b * 2 mod p \<Longrightarrow> a mod p = b mod p"
proof -
  assume p: "odd p" and e: "a * 2 mod p = b * 2 mod p"
  have "p dvd (a - b) * 2" using e by (simp add: mod_eq_dvd_iff left_diff_distrib)
  moreover have "coprime p 2" using p by simp
  ultimately have "p dvd a - b" using coprime_dvd_mult_left_iff by metis
  then show ?thesis by (simp add: mod_eq_dvd_iff)
qed

lemma unit_mod: "(u * (1 mod p) - w * (1 mod p)) mod p = (u - w) mod (p :: int)"
  "(u * (1 mod p) + w * (1 mod p)) mod p = (u + w) mod p"
proof -
  have "(u * (1 mod p) - w * (1 mod p)) mod p = (u * 1 - w * 1) mod p" by (intro mod_diff_cong mod_mult_right_eq)
  then show "(u * (1 mod p) - w * (1 mod p)) mod p = (u - w) mod (p :: int)" by simp
  have "(u * (1 mod p) + w * (1 mod p)) mod p = (u * 1 + w * 1) mod p" by (intro mod_add_cong mod_mult_right_eq)
  then show "(u * (1 mod p) + w * (1 mod p)) mod p = (u + w) mod p" by simp
qed

lemma fp2_div_ip_ok:
  assumes ok: "fp_ok p valid fp" and p: "odd p" and v: "valid2 valid x"
  shows "f2_mul p (f2val fp (FP2_div_ip (fp2_of fp) x)) (f2_xi p) = f2val fp x"
proof -
  have v': "valid (fp2_a x)" "valid (fp2_b x)" using v by (simp_all add: valid2_def)
  note h = div2_halves [OF ok v']
  define a b hh k where d: "a = fval fp (fp2_a x)" "b = fval fp (fp2_b x)"
    "hh = fval fp (FP_div2 fp (FP_add fp (fp2_a x) (fp2_b x)))" "k = fval fp (FP_div2 fp (FP_sub fp (fp2_b x) (fp2_a x)))"
  note H = h(3) [folded d] and K = h(4) [folded d]
  have "(hh - k) * 2 mod p = a * 2 mod p" "(hh + k) * 2 mod p = b * 2 mod p"
    using mod_double [OF H K] by (simp_all add: algebra_simps)
  then have "(hh - k) mod p = a" "(hh + k) mod p = b"
    using odd_double_cancel [OF p] f2val_range [OF ok v'(1)] f2val_range [OF ok v'(2)] d by metis+
  then have "((hh * (1 mod p) - k * (1 mod p)) mod p, (hh * (1 mod p) + k * (1 mod p)) mod p) = (a, b)"
    by (simp only: unit_mod)
  then show ?thesis by (simp add: fp2_of_fields f2val_def d f2_xi_def)
qed

lemma fp2_of_bin:
  assumes ok: "fp_ok p valid fp" and v: "valid2 valid x" "valid2 valid y"
  shows "is_fp2 valid fp (f2_add p (f2val fp x) (f2val fp y)) (FP2_add (fp2_of fp) x y)"
    "is_fp2 valid fp (f2_sub p (f2val fp x) (f2val fp y)) (FP2_sub (fp2_of fp) x y)"
    "is_fp2 valid fp (f2_mul p (f2val fp x) (f2val fp y)) (FP2_mul (fp2_of fp) x y)"
    "FP2_equals (fp2_of fp) x y = bool_int (f2val fp x = f2val fp y)"
  using v fp2_mul_of_ok [OF ok v]
  by (simp_all add: fp2_of_fields is_fp2_mk2 valid2_def f2val_def fp_binD [OF ok] fp_base_binD [OF ok])
    (simp add: bool_int_def)

lemma fp2_of_un:
  assumes ok: "fp_ok p valid fp" and v: "valid2 valid x"
  shows "is_fp2 valid fp (f2val fp x) (FP2_copy (fp2_of fp) x)"
    "is_fp2 valid fp (f2_neg p (f2val fp x)) (FP2_neg (fp2_of fp) x)"
    "is_fp2 valid fp (f2_conj p (f2val fp x)) (FP2_conj (fp2_of fp) x)"
    "is_fp2 valid fp (f2val fp x) (FP2_norm (fp2_of fp) x)"
    "is_fp2 valid fp (f2val fp x) (FP2_reduce (fp2_of fp) x)"
    "FP2_iszilch (fp2_of fp) x = bool_int (f2val fp x = (0, 0))"
    "FP2_isunity (fp2_of fp) x = bool_int (f2val fp x = f2_one p)"
  using v fp_const_okD [OF ok]
  by (simp_all add: fp2_of_fields is_fp2_mk2 valid2_def f2val_def fp_unD [OF ok] fp_base_unD [OF ok]
        fp_base_binD [OF ok] f2val_range [OF ok] f2_one_def)
    (simp_all add: bool_int_def)

lemma fp2_of_scale:
  assumes ok: "fp_ok p valid fp" and v: "valid2 valid x"
  shows "valid c \<Longrightarrow> is_fp2 valid fp (f2_mul p (f2val fp x) (fval fp c, 0)) (FP2_pmul (fp2_of fp) x c)"
    "0 \<le> i \<Longrightarrow> is_fp2 valid fp (f2_mul p (f2val fp x) (i, 0)) (FP2_imul (fp2_of fp) x i)"
    "is_fp2 valid fp (f2_mul p (f2val fp x) (0, 1)) (FP2_times_i (fp2_of fp) x)"
    "is_fp2 valid fp (f2_mul p (f2val fp x) (f2val fp x)) (FP2_sqr (fp2_of fp) x)"
  using v fp2_mul_of_ok [OF ok v v]
  by (simp_all add: fp2_of_fields is_fp2_mk2 valid2_def f2val_def fp_unD [OF ok] fp_base_binD [OF ok] f2val_range [OF ok])

lemma fp2_of_ip:
  assumes ok: "fp_ok p valid fp" and v: "valid2 valid x"
  shows "is_fp2 valid fp (f2_mul p (f2val fp x) (f2_xi p)) (FP2_mul_ip (fp2_of fp) x)"
    "valid2 valid (FP2_div_ip (fp2_of fp) x)"
    "valid2 valid (FP2_div2 (fp2_of fp) x)" "f2_mul p (f2val fp (FP2_div2 (fp2_of fp) x)) (2, 0) = f2val fp x"
    "valid2 valid (FP2_div_ip2 (fp2_of fp) x)"
    "f2_mul p (f2val fp (FP2_div_ip2 (fp2_of fp) x)) (f2_xi p) = f2_mul p (f2val fp x) (2, 0)"
proof -
  have v': "valid (fp2_a x)" "valid (fp2_b x)" using v by (simp_all add: valid2_def)
  note h = div2_halves [OF ok v'] and B = fp_binD [OF ok] and U = fp_unD [OF ok]
  show "is_fp2 valid fp (f2_mul p (f2val fp x) (f2_xi p)) (FP2_mul_ip (fp2_of fp) x)"
    using v' by (simp add: fp2_of_fields is_fp2_mk2 f2val_def f2_xi_def B unit_mod)
  show "valid2 valid (FP2_div_ip (fp2_of fp) x)" "valid2 valid (FP2_div2 (fp2_of fp) x)"
    "valid2 valid (FP2_div_ip2 (fp2_of fp) x)"
    using v' h(1,2) by (simp_all add: fp2_of_fields valid2_def B U)
  show "f2_mul p (f2val fp (FP2_div2 (fp2_of fp) x)) (2, 0) = f2val fp x"
    using v' by (simp add: fp2_of_fields f2val_def U)
  show "f2_mul p (f2val fp (FP2_div_ip2 (fp2_of fp) x)) (f2_xi p) = f2_mul p (f2val fp x) (2, 0)"
    using v' by (simp add: fp2_of_fields f2val_def f2_xi_def B unit_mod mod_simps) (simp add: mult.commute)
qed

lemma fp2_of_pow:
  "fp_ok p valid fp \<Longrightarrow> valid2 valid x \<Longrightarrow>
    is_fp2 valid fp (f2_pow p (f2val fp x) (nat (big_val BASEBITS_384_58 z))) (FP2_pow (fp2_of fp) x z)"
  by (simp add: fp2_of_fields fp2_pow_of_ok)

lemma fp2_of_ok:
  assumes ok: "fp_ok p valid fp" and an: "anisotropic p" and odd: "odd p"
  shows "fp2_ok p valid fp (fp2_of fp)"
  unfolding fp2_ok_def
proof (intro conjI allI impI)
  show "is_fp2 valid fp (0, 0) (FP2_zero (fp2_of fp))" "is_fp2 valid fp (f2_one p) (FP2_one (fp2_of fp))"
    using fp_const_okD [OF ok] fp2_one_of_ok [OF ok] by (simp_all add: fp2_of_fields is_fp2_mk2)
  fix a b assume "valid a" "valid b"
  then show "is_fp2 valid fp (fval fp a, fval fp b) (FP2_from_FPs (fp2_of fp) a b)" "is_fp2 valid fp (fval fp a, 0) (FP2_from_FP (fp2_of fp) a)"
    using fp_const_okD [OF ok] by (simp_all add: fp2_of_fields is_fp2_mk2)
next
  fix x y s assume v: "valid2 valid x" "valid2 valid y"
  show "FP2_cmove (fp2_of fp) x y s = (if s = 0 then x else y)" by (simp add: fp2_of_fields)
  assume "f2val fp x \<noteq> (0, 0)"
  then show "valid2 valid (FP2_inv (fp2_of fp) x)" "f2_mul p (f2val fp (FP2_inv (fp2_of fp) x)) (f2val fp x) = f2_one p"
    using fp2_inv_of_ok [OF ok an v(1)] by (simp_all add: fp2_of_fields)
qed (simp_all only: fp2_of_bin [OF ok] fp2_of_un [OF ok] fp2_of_scale [OF ok] fp2_of_ip [OF ok] fp2_of_pow [OF ok]
       fp2_div_ip_ok [OF ok odd])

section \<open>A field with three elements\<close>

text \<open>The contract of \<open>fp_BLS381.h\<close> can be met: the elements are the digits of their values.\<close>

definition mk1 :: "int \<Rightarrow> FP_BLS381" where
  "mk1 v = \<lparr> fp_g = enc BASEBITS_384_58 NLEN_384_58 v, fp_XES = 1 \<rparr>"

definition unmk1 :: "FP_BLS381 \<Rightarrow> int" where
  "unmk1 x = big_val BASEBITS_384_58 (fp_g x)"

definition ref_fp_base :: "int \<Rightarrow> fp_base_api" where
  "ref_fp_base p = \<lparr>
     FP_iszilch = \<lambda>x. bool_int (unmk1 x = 0),
     FP_zero = mk1 0,
     FP_copy = \<lambda>x. x,
     FP_rcopy = \<lambda>a. mk1 (big_val BASEBITS_384_58 a mod p),
     FP_equals = \<lambda>x y. bool_int (unmk1 x = unmk1 y),
     FP_cswap = \<lambda>x y s. if s = 0 then (x, y) else (y, x),
     FP_cmove = \<lambda>x y s. if s = 0 then x else y,
     FP_nres = \<lambda>a. mk1 (big_val BASEBITS_384_58 a mod p),
     FP_redc = fp_g,
     FP_one = mk1 (1 mod p),
     FP_mod = \<lambda>d. enc BASEBITS_384_58 NLEN_384_58 (big_val BASEBITS_384_58 d mod p),
     FP_mul = \<lambda>x y. mk1 (unmk1 x * unmk1 y mod p) \<rparr>"

definition first_in :: "int \<Rightarrow> (int \<Rightarrow> bool) \<Rightarrow> int" where
  "first_in p P = (case find P (upto 0 (p - 1)) of None \<Rightarrow> 0 | Some v \<Rightarrow> v)"

definition ref_fp :: "int \<Rightarrow> fp_api" where
  "ref_fp p = fp_base_api.extend (ref_fp_base p) \<lparr>
     FP_imul = \<lambda>x i. mk1 (unmk1 x * i mod p),
     FP_sqr = \<lambda>x. mk1 (unmk1 x * unmk1 x mod p),
     FP_add = \<lambda>x y. mk1 ((unmk1 x + unmk1 y) mod p),
     FP_sub = \<lambda>x y. mk1 ((unmk1 x - unmk1 y) mod p),
     FP_div2 = \<lambda>x. mk1 (first_in p (\<lambda>h. h * 2 mod p = unmk1 x)),
     FP_pow = \<lambda>x z. mk1 (unmk1 x ^ nat (big_val BASEBITS_384_58 z) mod p),
     FP_sqrt = \<lambda>x. mk1 (first_in p (\<lambda>r. r * r mod p = unmk1 x)),
     FP_neg = \<lambda>x. mk1 ((- unmk1 x) mod p),
     FP_output = \<lambda>x. '''',
     FP_rawoutput = \<lambda>x. '''',
     FP_reduce = \<lambda>x. x,
     FP_norm = \<lambda>x. x,
     FP_qr = \<lambda>x. bool_int (\<exists>r \<in> set (upto 0 (p - 1)). r * r mod p = unmk1 x),
     FP_inv = \<lambda>x. mk1 (first_in p (\<lambda>n. n * unmk1 x mod p = 1)) \<rparr>"

lemmas ref_fp_fields = ref_fp_def ref_fp_base_def fp_base_api.defs fp_api.defs

lemma ref_fp_sel:
  "FP_iszilch (ref_fp p) = (\<lambda>x. bool_int (unmk1 x = 0))"
  "FP_zero (ref_fp p) = (mk1 0)"
  "FP_copy (ref_fp p) = (\<lambda>x. x)"
  "FP_rcopy (ref_fp p) = (\<lambda>a. mk1 (big_val BASEBITS_384_58 a mod p))"
  "FP_equals (ref_fp p) = (\<lambda>x y. bool_int (unmk1 x = unmk1 y))"
  "FP_cswap (ref_fp p) = (\<lambda>x y s. if s = 0 then (x, y) else (y, x))"
  "FP_cmove (ref_fp p) = (\<lambda>x y s. if s = 0 then x else y)"
  "FP_nres (ref_fp p) = (\<lambda>a. mk1 (big_val BASEBITS_384_58 a mod p))"
  "FP_redc (ref_fp p) = (fp_g)"
  "FP_one (ref_fp p) = (mk1 (1 mod p))"
  "FP_mod (ref_fp p) = (\<lambda>d. enc BASEBITS_384_58 NLEN_384_58 (big_val BASEBITS_384_58 d mod p))"
  "FP_mul (ref_fp p) = (\<lambda>x y. mk1 (unmk1 x * unmk1 y mod p))"
  "FP_imul (ref_fp p) = (\<lambda>x i. mk1 (unmk1 x * i mod p))"
  "FP_sqr (ref_fp p) = (\<lambda>x. mk1 (unmk1 x * unmk1 x mod p))"
  "FP_add (ref_fp p) = (\<lambda>x y. mk1 ((unmk1 x + unmk1 y) mod p))"
  "FP_sub (ref_fp p) = (\<lambda>x y. mk1 ((unmk1 x - unmk1 y) mod p))"
  "FP_div2 (ref_fp p) = (\<lambda>x. mk1 (first_in p (\<lambda>h. h * 2 mod p = unmk1 x)))"
  "FP_pow (ref_fp p) = (\<lambda>x z. mk1 (unmk1 x ^ nat (big_val BASEBITS_384_58 z) mod p))"
  "FP_sqrt (ref_fp p) = (\<lambda>x. mk1 (first_in p (\<lambda>r. r * r mod p = unmk1 x)))"
  "FP_neg (ref_fp p) = (\<lambda>x. mk1 ((- unmk1 x) mod p))"
  "FP_output (ref_fp p) = (\<lambda>x. '''')"
  "FP_rawoutput (ref_fp p) = (\<lambda>x. '''')"
  "FP_reduce (ref_fp p) = (\<lambda>x. x)"
  "FP_norm (ref_fp p) = (\<lambda>x. x)"
  "FP_qr (ref_fp p) = (\<lambda>x. bool_int (\<exists>r \<in> set (upto 0 (p - 1)). r * r mod p = unmk1 x))"
  "FP_inv (ref_fp p) = (\<lambda>x. mk1 (first_in p (\<lambda>n. n * unmk1 x mod p = 1)))"
  by (simp_all add: ref_fp_fields)

definition valid3 :: "FP_BLS381 \<Rightarrow> bool" where
  "valid3 x \<longleftrightarrow> x \<in> {mk1 0, mk1 1, mk1 2}"

lemma mk1_simps [simp]: "unmk1 (mk1 v) = v" "fval (ref_fp p) (mk1 v) = v"
  by (simp_all add: unmk1_def mk1_def fval_in_def ref_fp_fields NLEN_384_58_def amcl_const)

lemma mk1_eq [simp]: "mk1 v = mk1 w \<longleftrightarrow> v = w"
  by (metis mk1_simps(1))

lemma upto3: "upto 0 2 = [0, 1, 2 :: int]"
  by (simp add: upto.simps)

lemma square3: "square_mod 3 v \<longleftrightarrow> v \<in> {0, 1}"
proof
  assume "square_mod 3 v"
  then obtain z :: int where z: "z * z mod 3 = v" by (auto simp: square_mod_def)
  have "z mod 3 = 0 \<or> z mod 3 = 1 \<or> z mod 3 = 2" by presburger
  moreover have "z * z mod 3 = (z mod 3) * (z mod 3) mod 3" by (simp add: mod_mult_eq)
  ultimately show "v \<in> {0, 1}" using z by auto
next
  assume "v \<in> {0, 1}"
  then show "square_mod 3 v" unfolding square_mod_def by (auto intro: exI [of _ 0] exI [of _ 1])
qed

lemma valid3_mk: "valid3 (mk1 (v mod 3))"
proof -
  have "v mod 3 = 0 \<or> v mod 3 = 1 \<or> v mod 3 = 2" by presburger
  then show ?thesis by (auto simp: valid3_def)
qed

lemma is_fp3: "is_fp valid3 (ref_fp 3) (v mod 3) (mk1 (v mod 3))"
  by (simp add: is_fp_in_def valid3_mk)

lemma small3: "0 \<le> a \<Longrightarrow> a < 3 \<Longrightarrow> a mod 3 = (a :: int)"
  by simp

lemma valid3_cases: "valid3 x \<Longrightarrow> (x = mk1 0 \<Longrightarrow> P) \<Longrightarrow> (x = mk1 1 \<Longrightarrow> P) \<Longrightarrow> (x = mk1 2 \<Longrightarrow> P) \<Longrightarrow> P"
  by (auto simp: valid3_def)

lemma ref_fp_base_ok: "fp_base_ok 3 valid3 (ref_fp 3)"
  unfolding fp_base_ok_in_def fp_bits.simps fp_len.simps
proof (intro conjI allI impI)
  let ?R = "ref_fp 3"
  show "is_fp valid3 ?R 0 (FP_zero ?R)" "is_fp valid3 ?R (1 mod 3) (FP_one ?R)"
    using is_fp3 [of 0] is_fp3 [of 1] by (simp_all add: ref_fp_sel)
next
  let ?R = "ref_fp 3"
  fix a assume "nbig BASEBITS_384_58 NLEN_384_58 a" "big_val BASEBITS_384_58 a < 3"
  then have "0 \<le> big_val BASEBITS_384_58 a" "big_val BASEBITS_384_58 a mod 3 = big_val BASEBITS_384_58 a"
    using nbig_range by simp_all
  then show "is_fp valid3 ?R (big_val BASEBITS_384_58 a) (FP_nres ?R a)" "is_fp valid3 ?R (big_val BASEBITS_384_58 a) (FP_rcopy ?R a)"
    using is_fp3 [of "big_val BASEBITS_384_58 a"] by (simp_all add: ref_fp_sel)
next
  let ?R = "ref_fp 3"
  fix x y assume v: "valid3 x" "valid3 y"
  then have u: "fval ?R x = unmk1 x" "fval ?R y = unmk1 y" by (auto simp: valid3_def)
  show "is_fp valid3 ?R (fval ?R x * fval ?R y mod 3) (FP_mul ?R x y)" unfolding u ref_fp_sel by (rule is_fp3)
  show "is_fp valid3 ?R (fval ?R x) (FP_copy ?R x)" using v by (simp add: is_fp_in_def ref_fp_sel)
qed (auto simp: valid3_def ref_fp_sel)

lemma ref_fp_ok: "fp_ok 3 valid3 (ref_fp 3)"
  unfolding fp_ok_in_def fp_bits.simps fp_len.simps
proof (intro conjI ref_fp_base_ok allI impI)
  let ?R = "ref_fp 3"
  fix x y assume v: "valid3 x" "valid3 y"
  then have u: "fval ?R x = unmk1 x" "fval ?R y = unmk1 y" by (auto simp: valid3_def)
  show "is_fp valid3 ?R (fval ?R x * i mod 3) (FP_imul ?R x i)" for i unfolding u ref_fp_sel by (rule is_fp3)
  show "is_fp valid3 ?R (fval ?R x * fval ?R x mod 3) (FP_sqr ?R x)" unfolding u ref_fp_sel by (rule is_fp3)
  show "is_fp valid3 ?R ((fval ?R x + fval ?R y) mod 3) (FP_add ?R x y)" unfolding u ref_fp_sel by (rule is_fp3)
  show "is_fp valid3 ?R ((fval ?R x - fval ?R y) mod 3) (FP_sub ?R x y)" unfolding u ref_fp_sel by (rule is_fp3)
  show "is_fp valid3 ?R (- fval ?R x mod 3) (FP_neg ?R x)" unfolding u ref_fp_sel by (rule is_fp3)
  show "is_fp valid3 ?R (fval ?R x ^ nat (big_val BASEBITS_384_58 z) mod 3) (FP_pow ?R x z)" for z
    unfolding u ref_fp_sel by (rule is_fp3)
  show "is_fp valid3 ?R (fval ?R x) (FP_reduce ?R x)" "is_fp valid3 ?R (fval ?R x) (FP_norm ?R x)"
    using v by (simp_all add: is_fp_in_def ref_fp_sel)
  show "valid3 (FP_div2 ?R x)" "fval ?R (FP_div2 ?R x) * 2 mod 3 = fval ?R x"
    using v by (auto simp: valid3_def ref_fp_sel first_in_def upto3)
  show "FP_qr ?R x = bool_int (square_mod 3 (fval ?R x))"
    using v by (auto simp: valid3_def ref_fp_sel upto3 square3)
  show "valid3 (FP_sqrt ?R x)" "fval ?R (FP_sqrt ?R x) * fval ?R (FP_sqrt ?R x) mod 3 = fval ?R x" if "square_mod 3 (fval ?R x)"
    using v that by (auto simp: valid3_def ref_fp_sel upto3 square3 first_in_def)
  show "valid3 (FP_inv ?R x)" "fval ?R (FP_inv ?R x) * fval ?R x mod 3 = 1 mod 3" if "fval ?R x \<noteq> 0"
    using v that by (auto simp: valid3_def ref_fp_sel upto3 first_in_def)
qed

lemma anisotropic3: "anisotropic 3"
proof -
  have "{0..<3} = {0, 1, 2 :: int}" by auto
  then show ?thesis by (simp add: anisotropic_def)
qed

section \<open>Laws of FP2\<close>

lemma mod_lin:
  "(u * (v mod p) - w * (z mod p)) mod p = (u * v - w * z) mod (p :: int)"
  "(u * (v mod p) + w * (z mod p)) mod p = (u * v + w * z) mod p"
  "((v mod p) * u - (z mod p) * w) mod p = (v * u - z * w) mod p"
  "((v mod p) * u + (z mod p) * w) mod p = (v * u + z * w) mod p"
  "((u mod p) * (v mod p) - (w mod p) * (z mod p)) mod p = (u * v - w * z) mod p"
  "((u mod p) * (v mod p) + (w mod p) * (z mod p)) mod p = (u * v + w * z) mod p"
  by (intro mod_diff_cong mod_add_cong mod_mult_right_eq mod_mult_left_eq mod_mult_eq)+

lemma f2_laws:
  "f2_mul p x y = f2_mul p y x"
  "f2_mul p x (f2_mul p y z) = f2_mul p (f2_mul p x y) z"
  "f2_mul p x (f2_add p y z) = f2_add p (f2_mul p x y) (f2_mul p x z)"
  "f2_mul p (f2_conj p x) (f2_conj p y) = f2_conj p (f2_mul p x y)"
  "f2_mul p (f2_mul p x (0, 1)) (0, 1) = f2_neg p x"
proof -
  obtain a b c d e f where [simp]: "x = (a, b)" "y = (c, d)" "z = (e, f)" by (cases x, cases y, cases z) blast
  show "f2_mul p x y = f2_mul p y x" by (simp add: ac_simps)
  show "f2_mul p x (f2_mul p y z) = f2_mul p (f2_mul p x y) z" by (simp add: mod_lin) (simp add: algebra_simps)
  show "f2_mul p x (f2_add p y z) = f2_add p (f2_mul p x y) (f2_mul p x z)" by (simp add: mod_lin mod_add_eq) (simp add: algebra_simps)
  show "f2_mul p (f2_conj p x) (f2_conj p y) = f2_conj p (f2_mul p x y)" by (simp add: mod_lin mod_minus_eq) (subst minus_diff_commute, rule refl)
  show "f2_mul p (f2_mul p x (0, 1)) (0, 1) = f2_neg p x" by (simp add: mod_simps)
qed

lemma fp2_okD:
  assumes ok: "fp2_ok p valid fp api" and v: "valid2 valid x" "valid2 valid y"
  shows "FP2_equals api x y = bool_int (f2val fp x = f2val fp y)"
    "is_fp2 valid fp (f2_neg p (f2val fp x)) (FP2_neg api x)"
    "is_fp2 valid fp (f2_conj p (f2val fp x)) (FP2_conj api x)"
    "is_fp2 valid fp (f2_add p (f2val fp x) (f2val fp y)) (FP2_add api x y)"
    "is_fp2 valid fp (f2_mul p (f2val fp x) (f2val fp y)) (FP2_mul api x y)"
    "is_fp2 valid fp (f2_mul p (f2val fp x) (f2val fp x)) (FP2_sqr api x)"
    "is_fp2 valid fp (f2_mul p (f2val fp x) (f2_xi p)) (FP2_mul_ip api x)"
    "is_fp2 valid fp (f2_mul p (f2val fp x) (0, 1)) (FP2_times_i api x)"
    "valid2 valid (FP2_div_ip api x)" "f2_mul p (f2val fp (FP2_div_ip api x)) (f2_xi p) = f2val fp x"
    "f2val fp x \<noteq> (0, 0) \<Longrightarrow> valid2 valid (FP2_inv api x)"
    "f2val fp x \<noteq> (0, 0) \<Longrightarrow> f2_mul p (f2val fp (FP2_inv api x)) (f2val fp x) = f2_one p"
    "FP2_isunity api x = bool_int (f2val fp x = f2_one p)"
  using ok [unfolded fp2_ok_def, THEN conjunct2, THEN conjunct2, THEN conjunct2, rule_format, OF v] by simp_all

lemma is_fp2D: "is_fp2 valid fp v x \<Longrightarrow> valid2 valid x" "is_fp2 valid fp v x \<Longrightarrow> f2val fp x = v"
  by (simp_all add: is_fp2_def)

text \<open>
  Over any library with the documented \<open>FP\<close> and \<open>FP2\<close> functions: multiplication commutes, is
  associative and distributes over addition; conjugation is multiplicative; \<open>times_i\<close> twice is the
  negation; \<open>mul_ip\<close> undoes \<open>div_ip\<close>; squaring is multiplication with itself; and the inverse of what is
  not zero multiplies to unity. All by the library's own \<open>equals\<close>.
\<close>

theorem fp2_library_laws:
  assumes ok: "fp2_ok p valid fp api" and v: "valid2 valid x" "valid2 valid y" "valid2 valid z"
  shows "FP2_equals api (FP2_mul api x y) (FP2_mul api y x) = 1 \<and>
    FP2_equals api (FP2_mul api x (FP2_mul api y z)) (FP2_mul api (FP2_mul api x y) z) = 1 \<and>
    FP2_equals api (FP2_mul api x (FP2_add api y z)) (FP2_add api (FP2_mul api x y) (FP2_mul api x z)) = 1 \<and>
    FP2_equals api (FP2_mul api (FP2_conj api x) (FP2_conj api y)) (FP2_conj api (FP2_mul api x y)) = 1 \<and>
    FP2_equals api (FP2_times_i api (FP2_times_i api x)) (FP2_neg api x) = 1 \<and>
    FP2_equals api (FP2_mul_ip api (FP2_div_ip api x)) x = 1 \<and>
    FP2_equals api (FP2_sqr api x) (FP2_mul api x x) = 1 \<and>
    (FP2_iszilch api x = 0 \<longrightarrow> FP2_isunity api (FP2_mul api (FP2_inv api x) x) = 1)"
proof -
  note D = fp2_okD [OF ok]
  have eq: "FP2_equals api s t = 1" if "is_fp2 valid fp w s" "is_fp2 valid fp w t" for s t w
    using D(1) [OF that [THEN is_fp2D(1)]] is_fp2D(2) [OF that(1)] is_fp2D(2) [OF that(2)] by (simp add: bool_int_def)
  have mul: "is_fp2 valid fp (f2_mul p a b) (FP2_mul api s t)" if "is_fp2 valid fp a s" "is_fp2 valid fp b t" for s t a b
    using D(5) [OF that [THEN is_fp2D(1)]] is_fp2D(2) [OF that(1)] is_fp2D(2) [OF that(2)] by simp
  have add: "is_fp2 valid fp (f2_add p a b) (FP2_add api s t)" if "is_fp2 valid fp a s" "is_fp2 valid fp b t" for s t a b
    using D(4) [OF that [THEN is_fp2D(1)]] is_fp2D(2) [OF that(1)] is_fp2D(2) [OF that(2)] by simp
  define a b c where abc: "a = f2val fp x" "b = f2val fp y" "c = f2val fp z"
  have I: "is_fp2 valid fp a x" "is_fp2 valid fp b y" "is_fp2 valid fp c z" using v by (simp_all add: is_fp2_def abc)
  have conj: "is_fp2 valid fp (f2_conj p w) (FP2_conj api s)" "is_fp2 valid fp (f2_mul p w (0, 1)) (FP2_times_i api s)"
    "is_fp2 valid fp (f2_mul p w (f2_xi p)) (FP2_mul_ip api s)" if "is_fp2 valid fp w s" for s w
    using D(3,7,8) [OF is_fp2D(1) [OF that] v(1)] is_fp2D(2) [OF that] by simp_all
  have inv: "FP2_isunity api (FP2_mul api (FP2_inv api x) x) = 1" if "FP2_iszilch api x = 0"
  proof -
    have "FP2_iszilch api x = bool_int (a = (0, 0))"
      using ok [unfolded fp2_ok_def, THEN conjunct2, THEN conjunct2, THEN conjunct2, rule_format, OF v(1,1)] by (simp add: abc)
    then have nz: "f2val fp x \<noteq> (0, 0)" using that by (simp add: bool_int_def abc split: if_splits)
    then have "is_fp2 valid fp (f2_one p) (FP2_mul api (FP2_inv api x) x)"
      using D(5) [OF D(11) [OF v(1,1) nz] v(1)] D(12) [OF v(1,1) nz] by simp
    then show ?thesis using D(13) [OF is_fp2D(1) is_fp2D(1)] is_fp2D(2) by (simp add: bool_int_def)
  qed
  have dv: "is_fp2 valid fp (f2_mul p (f2val fp (FP2_div_ip api x)) (f2_xi p)) (FP2_mul_ip api (FP2_div_ip api x))"
    by (rule conj(3)) (simp add: is_fp2_def D(9) [OF v(1,1)])
  have dv': "is_fp2 valid fp a (FP2_mul_ip api (FP2_div_ip api x))" using dv unfolding D(10) [OF v(1,1)] abc .
  have ng: "is_fp2 valid fp (f2_neg p a) (FP2_neg api x)" using D(2) [OF v(1,1)] by (simp add: abc)
  have sq: "is_fp2 valid fp (f2_mul p a a) (FP2_sqr api x)" using D(6) [OF v(1,1)] by (simp add: abc)
  show ?thesis
  proof (intro conjI impI inv)
    show "FP2_equals api (FP2_mul api x y) (FP2_mul api y x) = 1"
      by (rule eq [OF mul [OF I(1,2)]]) (subst f2_laws(1), rule mul [OF I(2,1)])
    show "FP2_equals api (FP2_mul api x (FP2_mul api y z)) (FP2_mul api (FP2_mul api x y) z) = 1"
      by (rule eq [OF mul [OF I(1) mul [OF I(2,3)]]]) (subst f2_laws(2), rule mul [OF mul [OF I(1,2)] I(3)])
    show "FP2_equals api (FP2_mul api x (FP2_add api y z)) (FP2_add api (FP2_mul api x y) (FP2_mul api x z)) = 1"
      by (rule eq [OF mul [OF I(1) add [OF I(2,3)]]]) (subst f2_laws(3), rule add [OF mul [OF I(1,2)] mul [OF I(1,3)]])
    show "FP2_equals api (FP2_mul api (FP2_conj api x) (FP2_conj api y)) (FP2_conj api (FP2_mul api x y)) = 1"
      by (rule eq [OF mul [OF conj(1) [OF I(1)] conj(1) [OF I(2)]]]) (subst f2_laws(4), rule conj(1) [OF mul [OF I(1,2)]])
    show "FP2_equals api (FP2_times_i api (FP2_times_i api x)) (FP2_neg api x) = 1"
      by (rule eq [OF conj(2) [OF conj(2) [OF I(1)]]]) (subst f2_laws(5), rule ng)
    show "FP2_equals api (FP2_mul_ip api (FP2_div_ip api x)) x = 1" by (rule eq [OF dv' I(1)])
    show "FP2_equals api (FP2_sqr api x) (FP2_mul api x x) = 1" by (rule eq [OF sq mul [OF I(1,1)]])
  qed
qed

theorem fp2_library_laws_witness:
  "let api = fp2_of (ref_fp 3); x = mk2 (mk1 1) (mk1 2); y = mk2 (mk1 2) (mk1 2) in
    FP2_equals api (FP2_mul api (FP2_conj api x) (FP2_conj api y)) (FP2_conj api (FP2_mul api x y)) = 1 \<and>
    FP2_isunity api (FP2_mul api (FP2_inv api x) x) = 1"
proof -
  let ?api = "fp2_of (ref_fp 3)" and ?x = "mk2 (mk1 1) (mk1 2)" and ?y = "mk2 (mk1 2) (mk1 2)"
  have ok: "fp2_ok 3 valid3 (ref_fp 3) ?api" using fp2_of_ok [OF ref_fp_ok anisotropic3] by simp
  have v: "valid2 valid3 ?x" "valid2 valid3 ?y" by (simp_all add: valid2_def valid3_def)
  have "FP2_iszilch ?api ?x = 0" using fp2_of_un(6) [OF ref_fp_ok v(1)] by (simp add: f2val_def bool_int_def)
  then show ?thesis using fp2_library_laws [OF ok v v(1)] unfolding Let_def by blast
qed

end
