(* ===== verification/Api256.thy ===== *)
theory Api256
  imports FieldApi
begin

text \<open>
  The headers of the 256-bit library: \<open>crypto/include/big_256_56.h\<close> and \<open>fp_SECP256K1.h\<close> declare the functions of
  \<open>big_384_58.h\<close> and \<open>fp_BLS381.h\<close> with another suffix, over digits of 56 bits. The records of \<open>BigApi\<close>
  and \<open>FieldApi\<close> hold them, and the contracts are those of the other headers at this one's parameters.
\<close>

section \<open>big_256_56.h\<close>

(* crypto/include/big_256_56.h:62-195 BIG_256_56_iszilch ... BIG_256_56_sducopy *)
definition big_copy_ok_256_56 :: "('a big_copy_api_scheme) \<Rightarrow> bool" where
  "big_copy_ok_256_56 api \<longleftrightarrow> big_copy_ok BASEBITS_256_56 NLEN_256_56 MODBYTES_256_56 api"

(* crypto/include/big_256_56.h:196-313 BIG_256_56_zero ... BIG_256_56_sqr *)
definition big_arith_ok_256_56 :: "('a big_arith_api_scheme) \<Rightarrow> bool" where
  "big_arith_ok_256_56 api \<longleftrightarrow> big_arith_ok BASEBITS_256_56 NLEN_256_56 api"

(* crypto/include/big_256_56.h:315-422 BIG_256_56_monty ... BIG_256_56_dnbits *)
definition big_shift_ok_256_56 :: "('a big_shift_api_scheme) \<Rightarrow> bool" where
  "big_shift_ok_256_56 api \<longleftrightarrow> big_shift_ok BASEBITS_256_56 NLEN_256_56 api"

(* crypto/include/big_256_56.h:423-562 BIG_256_56_mod ... BIG_256_56_dmod2m *)
definition big_mod_ok_256_56 :: "('a big_api_scheme) \<Rightarrow> bool" where
  "big_mod_ok_256_56 api \<longleftrightarrow> big_mod_ok BASEBITS_256_56 NLEN_256_56 api"

definition big_256_56_ok :: "big_api \<Rightarrow> bool" where
  "big_256_56_ok api \<longleftrightarrow> big_copy_ok_256_56 api \<and> big_arith_ok_256_56 api \<and> big_shift_ok_256_56 api \<and> big_mod_ok_256_56 api"

lemma big_256_56_ok_iff: "big_256_56_ok api \<longleftrightarrow> big_ok BASEBITS_256_56 NLEN_256_56 MODBYTES_256_56 api"
  by (simp add: big_256_56_ok_def big_ok_def big_copy_ok_256_56_def big_arith_ok_256_56_def big_shift_ok_256_56_def big_mod_ok_256_56_def)

lemma ref_big_256_56_ok: "big_256_56_ok (ref_big BASEBITS_256_56 NLEN_256_56 MODBYTES_256_56)"
  by (simp add: big_256_56_ok_iff big_ok_def ref_copy_ok ref_arith_ok ref_shift_ok ref_mod_ok NLEN_256_56_def amcl_const)

lemma big_okD2:
  assumes "big_ok b n m api" "nbig b n x" "nbig b n y" "nbig b n q" "0 < big_val b q"
  shows "big_val b (BIG_mod api x q) = big_val b x mod big_val b q" "big_val b (BIG_sdiv api x q) = big_val b x div big_val b q"
    "big_val b (BIG_modmul api x y q) = (big_val b x * big_val b y) mod big_val b q"
    "big_val b (BIG_modneg api x q) = (- big_val b x) mod big_val b q"
    "big_val b (BIG_mul api x y) = big_val b x * big_val b y" "big_val b (BIG_or api x y) = big_val b x OR big_val b y"
    "BIG_iszilch api x = bool_int (big_val b x = 0)" "BIG_comp api x y = sgn (big_val b x - big_val b y)"
    "0 \<le> i \<Longrightarrow> BIG_bit api x i = big_val b x div 2 ^ nat i mod 2" "BIG_parity api x = big_val b x mod 2"
    "0 \<le> i \<Longrightarrow> big_val b (BIG_shr api x i) = big_val b x div 2 ^ nat i"
    "0 \<le> fst (BIG_nbits api x)" "big_val b x < 2 ^ nat (fst (BIG_nbits api x))"
    "0 < big_val b x \<Longrightarrow> 2 ^ nat (fst (BIG_nbits api x) - 1) \<le> big_val b x"
proof -
  have c: "big_copy_ok b n m api" and a: "big_arith_ok b n api" and h: "big_shift_ok b n api" and k: "big_mod_ok b n api"
    using assms(1) by (simp_all add: big_ok_def)
  note M = k [unfolded big_mod_ok_def, THEN conjunct1, rule_format, OF assms(2-5)]
  note A = a [unfolded big_arith_ok_def, THEN conjunct2, THEN conjunct2, THEN conjunct2, THEN conjunct1, rule_format, OF assms(2,3)]
  note B = k [unfolded big_mod_ok_def, THEN conjunct2, THEN conjunct2, THEN conjunct1, rule_format, OF assms(2)]
  note C = c [unfolded big_copy_ok_def, THEN conjunct1, rule_format, OF assms(2,3)]
  note S = h [unfolded big_shift_ok_def, THEN conjunct2, THEN conjunct1, rule_format, OF assms(2)]
  note N = h [unfolded big_shift_ok_def, THEN conjunct2, THEN conjunct2, THEN conjunct2, THEN conjunct1, rule_format]
  show "big_val b (BIG_mod api x q) = big_val b x mod big_val b q" "big_val b (BIG_sdiv api x q) = big_val b x div big_val b q"
    "big_val b (BIG_modmul api x y q) = (big_val b x * big_val b y) mod big_val b q"
    "big_val b (BIG_modneg api x q) = (- big_val b x) mod big_val b q"
    using M by (simp_all add: is_nbig_def)
  show "big_val b (BIG_mul api x y) = big_val b x * big_val b y" "big_val b (BIG_or api x y) = big_val b x OR big_val b y"
    using A by (simp_all add: is_nbig_def)
  show "BIG_iszilch api x = bool_int (big_val b x = 0)" using C by simp
  show "BIG_comp api x y = sgn (big_val b x - big_val b y)" by (rule big_okD(7) [OF assms])
  show "0 \<le> i \<Longrightarrow> BIG_bit api x i = big_val b x div 2 ^ nat i mod 2" "BIG_parity api x = big_val b x mod 2"
    using B [of i] B [of 0] by simp_all
  show "0 \<le> i \<Longrightarrow> big_val b (BIG_shr api x i) = big_val b x div 2 ^ nat i" using S [of i] by (simp add: is_nbig_def)
  have l: "length x = n" using assms(2) by (simp add: nbig_def)
  show "0 \<le> fst (BIG_nbits api x)" "big_val b x < 2 ^ nat (fst (BIG_nbits api x))"
    "0 < big_val b x \<Longrightarrow> 2 ^ nat (fst (BIG_nbits api x) - 1) \<le> big_val b x"
    using N [OF l] nbig_range [OF assms(2)] by auto
qed

lemma nbits_unique:
  assumes "v < (2 :: int) ^ nat i" "2 ^ nat (i - 1) \<le> v" "v < 2 ^ nat j" "2 ^ nat (j - 1) \<le> v" "0 \<le> i" "0 \<le> j" "0 < v"
  shows "i = j"
proof -
  have le: "k \<le> l" if "(2 :: int) ^ nat (k - 1) \<le> v" "v < 2 ^ nat l" "0 \<le> k" "0 \<le> l" for k l :: int
  proof (rule ccontr)
    assume "\<not> k \<le> l"
    then have "(2 :: int) ^ nat l \<le> 2 ^ nat (k - 1)" by (intro power_increasing) auto
    with that(1,2) show False by linarith
  qed
  show ?thesis using le [OF assms(2,3,5,6)] le [OF assms(4,1,6,5)] by simp
qed

text \<open>
  The two libraries of big numbers agree: on numbers of the same values, a library of 56-bit digits and one of
  58-bit digits give remainders, quotients, products, modular products, negatives and inverses, right shifts and
  disjunctions of the same values, and the same answers of \<open>iszilch\<close>, \<open>comp\<close>, \<open>parity\<close>, \<open>bit\<close> and, for a
  positive number, \<open>nbits\<close>.
\<close>

theorem big_headers_agree:
  assumes api: "big_384_58_ok api" "big_256_56_ok api'"
    and n: "nbig BASEBITS_384_58 NLEN_384_58 x" "nbig BASEBITS_384_58 NLEN_384_58 y" "nbig BASEBITS_384_58 NLEN_384_58 q"
    and n': "nbig BASEBITS_256_56 NLEN_256_56 x'" "nbig BASEBITS_256_56 NLEN_256_56 y'" "nbig BASEBITS_256_56 NLEN_256_56 q'"
    and e: "big_val BASEBITS_384_58 x = big_val BASEBITS_256_56 x'" "big_val BASEBITS_384_58 y = big_val BASEBITS_256_56 y'"
      "big_val BASEBITS_384_58 q = big_val BASEBITS_256_56 q'"
    and q: "0 < big_val BASEBITS_384_58 q" and i: "0 \<le> i"
  defines "v \<equiv> big_val BASEBITS_384_58" and "v' \<equiv> big_val BASEBITS_256_56"
  shows "v (BIG_mod api x q) = v' (BIG_mod api' x' q') \<and> v (BIG_sdiv api x q) = v' (BIG_sdiv api' x' q') \<and>
    v (BIG_mul api x y) = v' (BIG_mul api' x' y') \<and> v (BIG_modmul api x y q) = v' (BIG_modmul api' x' y' q') \<and>
    v (BIG_modneg api x q) = v' (BIG_modneg api' x' q') \<and> v (BIG_or api x y) = v' (BIG_or api' x' y') \<and>
    v (BIG_shr api x i) = v' (BIG_shr api' x' i) \<and>
    (coprime (v y) (v q) \<longrightarrow> v (BIG_moddiv api x y q) mod v q = v' (BIG_moddiv api' x' y' q') mod v q) \<and>
    BIG_iszilch api x = BIG_iszilch api' x' \<and> BIG_comp api x y = BIG_comp api' x' y' \<and>
    BIG_parity api x = BIG_parity api' x' \<and> BIG_bit api x i = BIG_bit api' x' i \<and>
    (0 < v x \<longrightarrow> fst (BIG_nbits api x) = fst (BIG_nbits api' x'))"
proof -
  note ok' = api(2) [unfolded big_256_56_ok_iff]
  have q': "0 < big_val BASEBITS_256_56 q'" using q e(3) by simp
  note D = big_okD2 [OF api(1) n q] and D' = big_okD2 [OF ok' n' q']
  have div: "v (BIG_moddiv api x y q) mod v q = v' (BIG_moddiv api' x' y' q') mod v q" if co: "coprime (v y) (v q)"
  proof -
    let ?r = "v (BIG_moddiv api x y q)" and ?r' = "v' (BIG_moddiv api' x' y' q')"
    have "?r * v y mod v q = v x mod v q" using big_okD(5) [OF api(1) n q] co by (simp add: v_def)
    moreover have "?r' * v y mod v q = v x mod v q"
      using big_okD(5) [OF ok' n' q'] co unfolding v_def v'_def e by simp
    ultimately have "?r * v y mod v q = ?r' * v y mod v q" by simp
    then have "v q dvd (?r - ?r') * v y" by (simp only: mod_eq_dvd_iff left_diff_distrib)
    then have "v q dvd ?r - ?r'" using co by (simp add: coprime_dvd_mult_left_iff coprime_commute)
    then show ?thesis by (simp add: mod_eq_dvd_iff)
  qed
  have bits: "fst (BIG_nbits api x) = fst (BIG_nbits api' x')" if "0 < v x"
    using D(13,14) D'(13,14) D(12) D'(12) that nbits_unique [of "v x" "fst (BIG_nbits api x)" "fst (BIG_nbits api' x')"]
    unfolding v_def e(1) by simp
  show ?thesis using div bits D(1-11) D'(1-11) i unfolding v_def v'_def e by simp
qed

theorem big_headers_agree_witness:
  "big_val BASEBITS_384_58 (BIG_modmul ref_big_384_58 (enc 58 7 5) (enc 58 7 6) (enc 58 7 7)) =
   big_val BASEBITS_256_56 (BIG_modmul (ref_big BASEBITS_256_56 NLEN_256_56 MODBYTES_256_56) (enc 56 5 5) (enc 56 5 6) (enc 56 5 7))"
proof -
  have "nbig BASEBITS_384_58 NLEN_384_58 (enc 58 7 w)" "nbig BASEBITS_256_56 NLEN_256_56 (enc 56 5 w)" if "w \<in> {5, 6, 7}" for w
    using nbig_enc [of w 58 7] nbig_enc [of w 56 5] that by (auto simp: NLEN_384_58_def NLEN_256_56_def amcl_const)
  then show ?thesis
    using big_headers_agree [OF ref_big_ok ref_big_256_56_ok, of "enc 58 7 5" "enc 58 7 6" "enc 58 7 7" "enc 56 5 5" "enc 56 5 6" "enc 56 5 7" 0]
    by (simp add: amcl_const)
qed

section \<open>fp_SECP256K1.h\<close>

(* crypto/include/fp_SECP256K1.h:34-42 FP_SECP256K1 *)
type_synonym FP_SECP256K1 = FP_BLS381

(* crypto/include/fp_SECP256K1.h:60-152 FP_SECP256K1_iszilch ... FP_SECP256K1_mul *)
definition fp_base_ok_SECP256K1 :: "int \<Rightarrow> (FP_SECP256K1 \<Rightarrow> bool) \<Rightarrow> ('a fp_base_api_scheme) \<Rightarrow> bool" where
  "fp_base_ok_SECP256K1 p valid api \<longleftrightarrow> fp_base_ok_in SECP256K1 p valid api"

(* crypto/include/fp_SECP256K1.h:153-240 FP_SECP256K1_imul ... FP_SECP256K1_inv *)
definition fp_ok_SECP256K1 :: "int \<Rightarrow> (FP_SECP256K1 \<Rightarrow> bool) \<Rightarrow> fp_api \<Rightarrow> bool" where
  "fp_ok_SECP256K1 p valid api \<longleftrightarrow> fp_base_ok_SECP256K1 p valid api \<and> fp_ok_in SECP256K1 p valid api"

lemma fp_powD:
  "fp_ok_in f p valid api \<Longrightarrow> valid x \<Longrightarrow> nbig (fp_bits f) (fp_len f) z \<Longrightarrow>
    valid (FP_pow api x z) \<and> fval_in f api (FP_pow api x z) = fval_in f api x ^ nat (big_val (fp_bits f) z) mod p"
  unfolding fp_ok_in_def is_fp_in_def by blast

lemma fp_sqrtD:
  "fp_ok_in f p valid api \<Longrightarrow> valid x \<Longrightarrow> FP_qr api x = bool_int (square_mod p (fval_in f api x)) \<and>
    (square_mod p (fval_in f api x) \<longrightarrow> valid (FP_sqrt api x) \<and> fval_in f api (FP_sqrt api x) * fval_in f api (FP_sqrt api x) mod p = fval_in f api x)"
  unfolding fp_ok_in_def is_fp_in_def by blast

text \<open>
  Over any library with the documented functions of the field of secp256k1, by its own \<open>equals\<close>: multiplication
  is commutative, associative and distributes over addition, \<open>sub\<close> is addition of \<open>neg\<close>, \<open>div2\<close> halves,
  \<open>inv\<close> inverts what is not zero, \<open>pow\<close> turns sums of exponents into products, \<open>qr\<close> accepts every
  square and \<open>sqrt\<close> finds a root of it.
\<close>

theorem fp_secp256k1_laws:
  assumes ok: "fp_ok_SECP256K1 p valid api" and v: "valid x" "valid y" "valid z"
    and n: "nbig BASEBITS_256_56 NLEN_256_56 a" "nbig BASEBITS_256_56 NLEN_256_56 b" "nbig BASEBITS_256_56 NLEN_256_56 c"
    and s: "big_val BASEBITS_256_56 c = big_val BASEBITS_256_56 a + big_val BASEBITS_256_56 b"
  shows "FP_equals api (FP_mul api x y) (FP_mul api y x) = 1 \<and>
    FP_equals api (FP_mul api x (FP_mul api y z)) (FP_mul api (FP_mul api x y) z) = 1 \<and>
    FP_equals api (FP_mul api x (FP_add api y z)) (FP_add api (FP_mul api x y) (FP_mul api x z)) = 1 \<and>
    FP_equals api (FP_sub api x y) (FP_add api x (FP_neg api y)) = 1 \<and>
    FP_equals api (FP_add api (FP_div2 api x) (FP_div2 api x)) x = 1 \<and>
    (FP_iszilch api x = 0 \<longrightarrow> FP_equals api (FP_mul api (FP_inv api x) x) (FP_one api) = 1) \<and>
    FP_equals api (FP_mul api (FP_pow api x a) (FP_pow api x b)) (FP_pow api x c) = 1 \<and>
    FP_qr api (FP_sqr api x) = 1 \<and> FP_equals api (FP_sqr api (FP_sqrt api (FP_sqr api x))) (FP_sqr api x) = 1"
proof -
  have ok: "fp_ok_in SECP256K1 p valid api" using ok by (simp add: fp_ok_SECP256K1_def)
  note D = fp_rules [OF ok] and P = fp_powD [OF ok, simplified] and S = fp_sqrtD [OF ok]
  let ?f = "fval_in SECP256K1 api"
  have eq: "FP_equals api s t = 1" if "valid s" "valid t" "?f s = ?f t" for s t
    using D(1) [OF that(1,2)] that(3) by (simp add: bool_int_def)
  have pos: "0 \<le> big_val BASEBITS_256_56 a" "0 \<le> big_val BASEBITS_256_56 b" using n(1,2) nbig_range by blast+
  have inv: "FP_equals api (FP_mul api (FP_inv api x) x) (FP_one api) = 1" if "FP_iszilch api x = 0"
  proof -
    have nz: "?f x \<noteq> 0" using that fp_base_unD(3) [OF ok v(1)] by (simp add: bool_int_def split: if_splits)
    note i = fp_unD(13,14) [OF ok v(1) nz]
    show ?thesis
      using eq [OF fp_base_binD(2) [OF ok i(1) v(1)] fp_const_okD(3) [OF ok]] fp_base_binD(3) [OF ok i(1) v(1)] i(2) fp_const_okD(4) [OF ok] by simp
  qed
  note un = fp_unD [OF ok] and bn = fp_binD [OF ok] and bb = fp_base_binD(2,3) [OF ok]
  have sq: "square_mod p (?f (FP_sqr api x))" using un(4) [OF v(1)] unfolding square_mod_def by auto
  note S = fp_sqrtD [OF ok un(3) [OF v(1)]]
  have pw: "?f (FP_mul api (FP_pow api x a) (FP_pow api x b)) = ?f (FP_pow api x c)"
    using bb(2) [of "FP_pow api x a" "FP_pow api x b"] P [OF v(1)] n pos s by (simp add: mod_mult_eq power_add nat_add_distrib)
  show ?thesis
  proof (intro conjI impI inv)
    show "FP_equals api (FP_mul api x y) (FP_mul api y x) = 1" by (rule eq) (simp_all add: v bb mult.commute)
    show "FP_equals api (FP_mul api x (FP_mul api y z)) (FP_mul api (FP_mul api x y) z) = 1"
      by (rule eq) (simp_all add: v bb mod_mult_left_eq mod_mult_right_eq mult.assoc)
    show "FP_equals api (FP_mul api x (FP_add api y z)) (FP_add api (FP_mul api x y) (FP_mul api x z)) = 1"
      by (rule eq) (simp_all add: v bb bn mod_add_eq mod_mult_right_eq distrib_left)
    show "FP_equals api (FP_sub api x y) (FP_add api x (FP_neg api y)) = 1"
      by (rule eq) (simp_all add: v bn un mod_add_right_eq)
    show "FP_equals api (FP_add api (FP_div2 api x) (FP_div2 api x)) x = 1"
      using un(6) [OF v(1)] by (intro eq) (simp_all add: v bn un mult_2_right [symmetric] del: mult_2_right)
    show "FP_equals api (FP_mul api (FP_pow api x a) (FP_pow api x b)) (FP_pow api x c) = 1"
      using P [OF v(1)] n by (intro eq [OF _ _ pw]) (simp_all add: bb)
    show "FP_qr api (FP_sqr api x) = 1" using S sq by (simp add: bool_int_def)
    show "FP_equals api (FP_sqr api (FP_sqrt api (FP_sqr api x))) (FP_sqr api x) = 1"
      using S sq un(3) [OF v(1)] by (intro eq) (simp_all add: un(3,4))
  qed
qed

text \<open>The digits of the three elements of \<open>ref_fp 3\<close> have the same values in base \<open>2 ^ 56\<close>.\<close>

definition ref_fp_56 :: fp_api where
  "ref_fp_56 = (ref_fp 3)\<lparr>FP_rcopy := (\<lambda>a. mk1 (big_val BASEBITS_256_56 a mod 3)), FP_nres := (\<lambda>a. mk1 (big_val BASEBITS_256_56 a mod 3)),
     FP_pow := (\<lambda>x z. mk1 (unmk1 x ^ nat (big_val BASEBITS_256_56 z) mod 3))\<rparr>"

lemma enc_small: "big_val 56 (enc 58 7 0) = 0" "big_val 56 (enc 58 7 1) = 1" "big_val 56 (enc 58 7 2) = 2"
  by code_simp+

lemma mk1_56: "valid3 x \<Longrightarrow> fval_in SECP256K1 ref_fp_56 x = fval (ref_fp 3) x"
  using mk1_simps(2) [of 3 0] mk1_simps(2) [of 3 1] mk1_simps(2) [of 3 2] enc_small
  by (auto simp: valid3_def fval_in_def ref_fp_56_def ref_fp_sel mk1_def NLEN_384_58_def amcl_const)

lemma is_fp_56: "is_fp_in SECP256K1 valid3 ref_fp_56 v x \<longleftrightarrow> is_fp valid3 (ref_fp 3) v x"
  by (auto simp: is_fp_in_def mk1_56)

text \<open>What the three changed functions do not touch.\<close>

lemma ref_fp_56_sel:
  "FP_zero ref_fp_56 = FP_zero (ref_fp 3)" "FP_one ref_fp_56 = FP_one (ref_fp 3)" "FP_iszilch ref_fp_56 = FP_iszilch (ref_fp 3)"
  "FP_copy ref_fp_56 = FP_copy (ref_fp 3)" "FP_equals ref_fp_56 = FP_equals (ref_fp 3)" "FP_cswap ref_fp_56 = FP_cswap (ref_fp 3)"
  "FP_cmove ref_fp_56 = FP_cmove (ref_fp 3)" "FP_mul ref_fp_56 = FP_mul (ref_fp 3)" "FP_imul ref_fp_56 = FP_imul (ref_fp 3)"
  "FP_sqr ref_fp_56 = FP_sqr (ref_fp 3)" "FP_add ref_fp_56 = FP_add (ref_fp 3)" "FP_sub ref_fp_56 = FP_sub (ref_fp 3)"
  "FP_div2 ref_fp_56 = FP_div2 (ref_fp 3)" "FP_sqrt ref_fp_56 = FP_sqrt (ref_fp 3)" "FP_neg ref_fp_56 = FP_neg (ref_fp 3)"
  "FP_reduce ref_fp_56 = FP_reduce (ref_fp 3)" "FP_norm ref_fp_56 = FP_norm (ref_fp 3)" "FP_qr ref_fp_56 = FP_qr (ref_fp 3)"
  "FP_inv ref_fp_56 = FP_inv (ref_fp 3)"
  by (simp_all add: ref_fp_56_def)

lemma ref_fp_56_ok: "fp_ok_SECP256K1 3 valid3 ref_fp_56"
proof -
  note B = ref_fp_base_ok [unfolded fp_base_ok_in_def] and F = ref_fp_ok [unfolded fp_ok_in_def]
  have n: "is_fp valid3 (ref_fp 3) (big_val 56 a) (mk1 (big_val 56 a mod 3))"
    if "nbig 56 NLEN_256_56 a" "big_val 56 a < 3" for a
    using is_fp3 [of "big_val 56 a"] nbig_range [OF that(1)] that(2) by simp
  have base: "fp_base_ok_in SECP256K1 3 valid3 ref_fp_56"
    unfolding fp_base_ok_in_def is_fp_56 ref_fp_56_sel
    using B n by (simp add: mk1_56) (simp add: ref_fp_56_def amcl_const)
  have pw: "is_fp valid3 (ref_fp 3) (fval (ref_fp 3) x ^ n mod 3) (mk1 (unmk1 x ^ n mod 3))" if "valid3 x" for x n
    using that is_fp3 [of "unmk1 x ^ n"] by (elim valid3_cases) simp_all
  have "fp_ok_in SECP256K1 3 valid3 ref_fp_56"
    unfolding fp_ok_in_def is_fp_56 ref_fp_56_sel
  proof (intro conjI base allI impI)
    fix x y z assume v: "valid3 x" "valid3 y"
    show "is_fp valid3 (ref_fp 3) (fval_in SECP256K1 ref_fp_56 x ^ nat (big_val (fp_bits SECP256K1) z) mod 3) (FP_pow ref_fp_56 x z)"
      unfolding mk1_56 [OF v(1)] using pw [OF v(1)] by (simp add: ref_fp_56_def)
  qed (use F in \<open>simp_all add: mk1_56 fp_unD [OF ref_fp_ok]\<close>)
  then show ?thesis using base by (simp add: fp_ok_SECP256K1_def fp_base_ok_SECP256K1_def)
qed

theorem fp_secp256k1_laws_witness:
  "FP_equals ref_fp_56 (FP_mul ref_fp_56 (FP_pow ref_fp_56 (mk1 2) (enc 56 5 1)) (FP_pow ref_fp_56 (mk1 2) (enc 56 5 1)))
     (FP_pow ref_fp_56 (mk1 2) (enc 56 5 2)) = 1 \<and>
   FP_equals ref_fp_56 (FP_add ref_fp_56 (FP_div2 ref_fp_56 (mk1 2)) (FP_div2 ref_fp_56 (mk1 2))) (mk1 2) = 1"
proof -
  have v: "valid3 (mk1 2)" by (simp add: valid3_def)
  have n: "nbig BASEBITS_256_56 NLEN_256_56 (enc 56 5 w)" if "w \<in> {1, 2}" for w
    using nbig_enc [of w 56 5] that by (auto simp: NLEN_256_56_def amcl_const)
  have s: "big_val BASEBITS_256_56 (enc 56 5 2) = big_val BASEBITS_256_56 (enc 56 5 1) + big_val BASEBITS_256_56 (enc 56 5 1)"
    by (simp add: amcl_const)
  show ?thesis using fp_secp256k1_laws [OF ref_fp_56_ok v v v n n n s] by blast
qed

end
