(* ===== verification/TowerRings.thy ===== *)
theory TowerRings
  imports FieldApi
begin

text \<open>
  Arithmetic of the tower of fields behind \<open>fp2_BLS381.h\<close>, \<open>fp4_BLS381.h\<close> and \<open>fp12_BLS381.h\<close>: rings of
  tuples of integers, each level an extension by a root, and the reduction of every integer modulo \<open>p\<close>.
  The values of the library's elements are the reduced tuples.
\<close>

section \<open>Rings with a reduction\<close>

record 'v ring_ops =
  r_zero :: 'v
  r_one :: 'v
  r_add :: "'v \<Rightarrow> 'v \<Rightarrow> 'v"
  r_neg :: "'v \<Rightarrow> 'v"
  r_mul :: "'v \<Rightarrow> 'v \<Rightarrow> 'v"

definition r_sub :: "'v ring_ops \<Rightarrow> 'v \<Rightarrow> 'v \<Rightarrow> 'v" where
  "r_sub R a b = r_add R a (r_neg R b)"

fun r_pow :: "'v ring_ops \<Rightarrow> 'v \<Rightarrow> nat \<Rightarrow> 'v" where
  "r_pow R a 0 = r_one R"
| "r_pow R a (Suc n) = r_mul R a (r_pow R a n)"

text \<open>A commutative ring, and a reduction that may be applied before or after its operations.\<close>

locale quotient_ring =
  fixes R :: "'v ring_ops" and red :: "'v \<Rightarrow> 'v"
  assumes add_assoc: "r_add R (r_add R a b) c = r_add R a (r_add R b c)"
    and add_comm: "r_add R a b = r_add R b a"
    and add_zero: "r_add R (r_zero R) a = a"
    and add_neg: "r_add R (r_neg R a) a = r_zero R"
    and mul_assoc: "r_mul R (r_mul R a b) c = r_mul R a (r_mul R b c)"
    and mul_comm: "r_mul R a b = r_mul R b a"
    and mul_one: "r_mul R (r_one R) a = a"
    and distrib: "r_mul R a (r_add R b c) = r_add R (r_mul R a b) (r_mul R a c)"
    and red_add: "red (r_add R (red a) b) = red (r_add R a b)"
    and red_mul: "red (r_mul R (red a) b) = red (r_mul R a b)"
    and red_neg: "red (r_neg R (red a)) = red (r_neg R a)"
begin

lemma add_left: "r_add R a (r_add R b c) = r_add R b (r_add R a c)"
  by (metis add_assoc add_comm)

lemma mul_left: "r_mul R a (r_mul R b c) = r_mul R b (r_mul R a c)"
  by (metis mul_assoc mul_comm)

lemma distrib2: "r_mul R (r_add R b c) a = r_add R (r_mul R b a) (r_mul R c a)"
  by (metis distrib mul_comm)

lemma add_zero2: "r_add R a (r_zero R) = a"
  by (metis add_zero add_comm)

lemma add_neg2: "r_add R a (r_neg R a) = r_zero R"
  by (metis add_neg add_comm)

lemma add_cancel: "r_add R a b = r_add R a c \<longleftrightarrow> b = c"
  by (metis add_assoc add_neg add_zero)

lemma neg_unique: "r_add R a b = r_zero R \<Longrightarrow> b = r_neg R a"
  by (metis add_cancel add_neg2)

lemma neg_zero: "r_neg R (r_zero R) = r_zero R"
  by (metis neg_unique add_zero)

lemma neg_neg: "r_neg R (r_neg R a) = a"
  by (metis neg_unique add_neg)

lemma neg_add: "r_neg R (r_add R a b) = r_add R (r_neg R a) (r_neg R b)"
  by (rule neg_unique [symmetric]) (metis add_assoc add_comm add_neg2 add_zero)

lemma mul_zero: "r_mul R a (r_zero R) = r_zero R"
  by (metis distrib add_zero2 add_cancel)

lemma mul_zero2: "r_mul R (r_zero R) a = r_zero R"
  by (metis mul_zero mul_comm)

lemma mul_neg: "r_mul R a (r_neg R b) = r_neg R (r_mul R a b)"
  by (rule neg_unique) (metis distrib add_neg2 mul_zero)

lemma mul_neg2: "r_mul R (r_neg R a) b = r_neg R (r_mul R a b)"
  by (metis mul_neg mul_comm)

lemma mul_one2: "r_mul R a (r_one R) = a"
  by (metis mul_one mul_comm)

lemmas ac = add_assoc add_comm add_left mul_assoc mul_comm mul_left

lemmas ring_norm = distrib distrib2 add_zero add_zero2 mul_zero mul_zero2 mul_one mul_one2 mul_neg mul_neg2 neg_add neg_neg neg_zero
  add_neg add_neg2

lemma neg_cancel: "r_add R a (r_add R (r_neg R a) b) = b" "r_add R (r_neg R a) (r_add R a b) = b"
  by (metis add_assoc add_neg add_neg2 add_zero)+

lemma red_red: "red (red a) = red a"
  using red_add [of a "r_zero R"] by (simp add: add_zero2)

lemma red_add2: "red (r_add R a (red b)) = red (r_add R a b)"
  by (metis red_add add_comm)

lemma red_mul2: "red (r_mul R a (red b)) = red (r_mul R a b)"
  by (metis red_mul mul_comm)

lemma red_sub: "red (r_sub R (red a) b) = red (r_sub R a b)" "red (r_sub R a (red b)) = red (r_sub R a b)"
  unfolding r_sub_def by (rule red_add) (metis red_add2 red_neg)

lemma red_cong:
  "red a = red a' \<Longrightarrow> red b = red b' \<Longrightarrow> red (r_add R a b) = red (r_add R a' b')"
  "red a = red a' \<Longrightarrow> red b = red b' \<Longrightarrow> red (r_mul R a b) = red (r_mul R a' b')"
  by (metis red_add red_add2, metis red_mul red_mul2)

lemmas red_simps = red_red red_add red_add2 red_mul red_mul2 red_neg red_sub

lemma pow_add: "r_pow R a (m + n) = r_mul R (r_pow R a m) (r_pow R a n)"
  by (induction m) (simp_all add: mul_one mul_assoc)

lemma pow_mul: "r_pow R a (m * n) = r_pow R (r_pow R a m) n"
  by (induction n) (simp_all add: pow_add)

lemma red_pow: "red (r_pow R (red a) n) = red (r_pow R a n)"
proof (induction n)
  case (Suc n)
  have "red (r_mul R (red a) (r_pow R (red a) n)) = red (r_mul R a (red (r_pow R (red a) n)))" by (simp add: red_simps)
  then show ?case by (simp add: Suc red_simps)
qed simp

end

section \<open>Extensions\<close>

text \<open>By a square root of \<open>x\<close>, and by a cube root of \<open>x\<close>.\<close>

definition quad :: "'v ring_ops \<Rightarrow> 'v \<Rightarrow> ('v \<times> 'v) ring_ops" where
  "quad R x = \<lparr>
     r_zero = (r_zero R, r_zero R),
     r_one = (r_one R, r_zero R),
     r_add = (\<lambda>(a, b) (c, d). (r_add R a c, r_add R b d)),
     r_neg = (\<lambda>(a, b). (r_neg R a, r_neg R b)),
     r_mul = (\<lambda>(a, b) (c, d). (r_add R (r_mul R a c) (r_mul R x (r_mul R b d)), r_add R (r_mul R a d) (r_mul R b c)))\<rparr>"

definition cubic :: "'v ring_ops \<Rightarrow> 'v \<Rightarrow> ('v \<times> 'v \<times> 'v) ring_ops" where
  "cubic R x = \<lparr>
     r_zero = (r_zero R, r_zero R, r_zero R),
     r_one = (r_one R, r_zero R, r_zero R),
     r_add = (\<lambda>(a, b, c) (d, e, f). (r_add R a d, r_add R b e, r_add R c f)),
     r_neg = (\<lambda>(a, b, c). (r_neg R a, r_neg R b, r_neg R c)),
     r_mul = (\<lambda>(a, b, c) (d, e, f).
       (r_add R (r_mul R a d) (r_mul R x (r_add R (r_mul R b f) (r_mul R c e))),
        r_add R (r_mul R a e) (r_add R (r_mul R b d) (r_mul R x (r_mul R c f))),
        r_add R (r_mul R a f) (r_add R (r_mul R b e) (r_mul R c d))))\<rparr>"

text \<open>The conjugate over a square root changes the sign of its part.\<close>

definition conj2 :: "'v ring_ops \<Rightarrow> 'v \<times> 'v \<Rightarrow> 'v \<times> 'v" where
  "conj2 R = (\<lambda>(a, b). (a, r_neg R b))"

context quotient_ring
begin

lemma quad_ring: "quotient_ring (quad R x) (map_prod red red)"
proof (unfold_locales, goal_cases)
  case (10 a b)
  show ?case
    by (cases a; cases b) (auto simp: quad_def red_red intro!: red_cong)
next
  case (5 a b c)
  show ?case by (cases a; cases b; cases c) (simp add: quad_def ring_norm, simp add: ac)
qed (auto simp: quad_def ring_norm ac red_simps split: prod.splits)

lemma cubic_ring: "quotient_ring (cubic R x) (map_prod red (map_prod red red))"
proof (unfold_locales, goal_cases)
  case (10 a b)
  show ?case
    by (cases a; cases b) (auto simp: cubic_def red_red intro!: red_cong)
next
  case (5 a b c)
  obtain a0 a1 a2 b0 b1 b2 c0 c1 c2 where e: "a = (a0, a1, a2)" "b = (b0, b1, b2)" "c = (c0, c1, c2)"
    by (cases a; cases b; cases c) blast
  show ?case unfolding e by (simp add: cubic_def ring_norm, simp add: ac)
qed (auto simp: cubic_def ring_norm ac red_simps split: prod.splits)

lemma conj2_mul: "r_mul (quad R x) (conj2 R a) (conj2 R b) = conj2 R (r_mul (quad R x) a b)"
  by (cases a; cases b) (simp add: conj2_def quad_def ring_norm)

lemma conj2_conj2: "conj2 R (conj2 R a) = a"
  by (cases a) (simp add: conj2_def neg_neg)

lemma conj2_norm: "r_mul (quad R x) a (conj2 R a) = (r_sub R (r_mul R (fst a) (fst a)) (r_mul R x (r_mul R (snd a) (snd a))), r_zero R)"
  by (cases a) (simp add: conj2_def quad_def ring_norm r_sub_def, simp add: ac ring_norm)

end

end
