(* ===== verification/Tower.thy ===== *)
theory Tower
  imports TowerRings
begin

text \<open>
  \<open>crypto/include/fp4_BLS381.h\<close> and \<open>fp12_BLS381.h\<close>: the declared functions as the fields of records, and
  their documented behaviour as contracts on the values, which are reduced elements of the rings of
  \<open>TowerRings\<close>. What the headers leave open is left open: the XTR powers, which need the group the traces come
  from, the compressed power, and the products of "special form" and of "unitary" elements outside that form.
\<close>

section \<open>The rings of the tower\<close>

definition Z1 :: "int ring_ops" where
  "Z1 = \<lparr>r_zero = 0, r_one = 1, r_add = (+), r_neg = uminus, r_mul = (*)\<rparr>"

type_synonym f4 = "f2 \<times> f2"
type_synonym f12 = "f4 \<times> f4 \<times> f4"

definition xi :: f2 where "xi = (1, 1)"
definition root_xi :: f4 where "root_xi = ((0, 0), (1, 0))"

definition Z2 :: "f2 ring_ops" where "Z2 = quad Z1 (- 1)"
definition Z4 :: "f4 ring_ops" where "Z4 = quad Z2 xi"
definition Z12 :: "f12 ring_ops" where "Z12 = cubic Z4 root_xi"

definition red1 :: "int \<Rightarrow> int \<Rightarrow> int" where "red1 p a = a mod p"
definition red2 :: "int \<Rightarrow> f2 \<Rightarrow> f2" where "red2 p = map_prod (red1 p) (red1 p)"
definition red4 :: "int \<Rightarrow> f4 \<Rightarrow> f4" where "red4 p = map_prod (red2 p) (red2 p)"
definition red12 :: "int \<Rightarrow> f12 \<Rightarrow> f12" where "red12 p = map_prod (red4 p) (map_prod (red4 p) (red4 p))"

interpretation z1: quotient_ring Z1 "red1 p" for p
  by unfold_locales (simp_all add: Z1_def red1_def mod_simps algebra_simps)

interpretation z2: quotient_ring Z2 "red2 p" for p
  unfolding Z2_def red2_def by (rule z1.quad_ring)

interpretation z4: quotient_ring Z4 "red4 p" for p
  unfolding Z4_def red4_def by (rule z2.quad_ring)

interpretation z12: quotient_ring Z12 "red12 p" for p
  unfolding Z12_def red12_def by (rule z4.cubic_ring)

text \<open>The arithmetic on values of \<open>FP2\<close> is that of the second ring.\<close>

lemma f2_ops:
  "f2_mul p x y = red2 p (r_mul Z2 x y)" "f2_add p x y = red2 p (r_add Z2 x y)" "f2_neg p x = red2 p (r_neg Z2 x)"
  "f2_sub p x y = red2 p (r_sub Z2 x y)" "f2_conj p x = red2 p (conj2 Z1 x)" "f2_one p = red2 p (r_one Z2)" "f2_xi p = red2 p xi"
  by (cases x; cases y; simp add: Z2_def Z1_def quad_def red2_def red1_def r_sub_def conj2_def f2_one_def f2_xi_def xi_def)+

definition conj4 :: "f4 \<Rightarrow> f4" where "conj4 = conj2 Z2"

definition conj12 :: "f12 \<Rightarrow> f12" where
  "conj12 = (\<lambda>(a, b, c). (conj4 a, r_neg Z4 (conj4 b), conj4 c))"

lemma conj4_hom:
  "r_mul Z4 (conj4 a) (conj4 b) = conj4 (r_mul Z4 a b)" "r_add Z4 (conj4 a) (conj4 b) = conj4 (r_add Z4 a b)"
  "conj4 (r_neg Z4 a) = r_neg Z4 (conj4 a)" "conj4 root_xi = r_neg Z4 root_xi" "conj4 (conj4 a) = a"
proof -
  show "r_mul Z4 (conj4 a) (conj4 b) = conj4 (r_mul Z4 a b)" unfolding Z4_def conj4_def by (rule z2.conj2_mul)
  show "conj4 (conj4 a) = a" unfolding conj4_def by (rule z2.conj2_conj2)
  show "r_add Z4 (conj4 a) (conj4 b) = conj4 (r_add Z4 a b)" "conj4 (r_neg Z4 a) = r_neg Z4 (conj4 a)"
    by (cases a; cases b; simp add: conj4_def conj2_def Z4_def quad_def z2.neg_add)+
  show "conj4 root_xi = r_neg Z4 root_xi"
    by (simp add: conj4_def conj2_def Z4_def Z2_def Z1_def quad_def root_xi_def)
qed

lemma conj12_mul: "r_mul Z12 (conj12 x) (conj12 y) = conj12 (r_mul Z12 x y)"
proof -
  obtain a b c d e f where "x = (a, b, c)" "y = (d, e, f)" by (metis prod.exhaust)
  then show ?thesis
    by (simp add: conj12_def Z12_def cubic_def conj4_hom(1,2) [symmetric] conj4_hom(3,4) z4.mul_neg z4.mul_neg2 z4.neg_neg z4.neg_add z4.distrib)
qed

lemma conj12_conj12: "conj12 (conj12 x) = x"
  by (cases x) (simp add: conj12_def conj4_hom z4.neg_neg)

section \<open>fp4_BLS381.h\<close>

(* crypto/include/fp4_BLS381.h:33-41 FP4_BLS381 *)
record FP4_BLS381 =
  fp4_a :: FP2_BLS381
  fp4_b :: FP2_BLS381

(* crypto/include/fp4_BLS381.h:44-166 FP4_BLS381_iszilch ... FP4_BLS381_imul *)
record fp4_base_api =
  FP4_iszilch :: "FP4_BLS381 \<Rightarrow> int"
  FP4_isunity :: "FP4_BLS381 \<Rightarrow> int"
  FP4_equals :: "FP4_BLS381 \<Rightarrow> FP4_BLS381 \<Rightarrow> int"
  FP4_isreal :: "FP4_BLS381 \<Rightarrow> int"
  FP4_from_FP2s :: "FP2_BLS381 \<Rightarrow> FP2_BLS381 \<Rightarrow> FP4_BLS381"
  FP4_from_FP2 :: "FP2_BLS381 \<Rightarrow> FP4_BLS381"
  FP4_from_FP2H :: "FP2_BLS381 \<Rightarrow> FP4_BLS381"
  FP4_copy :: "FP4_BLS381 \<Rightarrow> FP4_BLS381"
  FP4_zero :: FP4_BLS381
  FP4_one :: FP4_BLS381
  FP4_neg :: "FP4_BLS381 \<Rightarrow> FP4_BLS381"
  FP4_conj :: "FP4_BLS381 \<Rightarrow> FP4_BLS381"
  FP4_nconj :: "FP4_BLS381 \<Rightarrow> FP4_BLS381"
  FP4_add :: "FP4_BLS381 \<Rightarrow> FP4_BLS381 \<Rightarrow> FP4_BLS381"
  FP4_sub :: "FP4_BLS381 \<Rightarrow> FP4_BLS381 \<Rightarrow> FP4_BLS381"
  FP4_pmul :: "FP4_BLS381 \<Rightarrow> FP2_BLS381 \<Rightarrow> FP4_BLS381"
  FP4_qmul :: "FP4_BLS381 \<Rightarrow> FP_BLS381 \<Rightarrow> FP4_BLS381"
  FP4_imul :: "FP4_BLS381 \<Rightarrow> int \<Rightarrow> FP4_BLS381"

(* crypto/include/fp4_BLS381.h:167-302 FP4_BLS381_sqr ... FP4_BLS381_div2 *)
record fp4_api = fp4_base_api +
  FP4_sqr :: "FP4_BLS381 \<Rightarrow> FP4_BLS381"
  FP4_mul :: "FP4_BLS381 \<Rightarrow> FP4_BLS381 \<Rightarrow> FP4_BLS381"
  FP4_inv :: "FP4_BLS381 \<Rightarrow> FP4_BLS381"
  FP4_output :: "FP4_BLS381 \<Rightarrow> string"
  FP4_rawoutput :: "FP4_BLS381 \<Rightarrow> string"
  FP4_times_i :: "FP4_BLS381 \<Rightarrow> FP4_BLS381"
  FP4_norm :: "FP4_BLS381 \<Rightarrow> FP4_BLS381"
  FP4_reduce :: "FP4_BLS381 \<Rightarrow> FP4_BLS381"
  FP4_pow :: "FP4_BLS381 \<Rightarrow> BIG \<Rightarrow> FP4_BLS381"
  FP4_frob :: "FP4_BLS381 \<Rightarrow> FP2_BLS381 \<Rightarrow> FP4_BLS381"
  FP4_xtr_A :: "FP4_BLS381 \<Rightarrow> FP4_BLS381 \<Rightarrow> FP4_BLS381 \<Rightarrow> FP4_BLS381 \<Rightarrow> FP4_BLS381"
  FP4_xtr_D :: "FP4_BLS381 \<Rightarrow> FP4_BLS381"
  FP4_xtr_pow :: "FP4_BLS381 \<Rightarrow> BIG \<Rightarrow> FP4_BLS381"
  FP4_xtr_pow2 :: "FP4_BLS381 \<Rightarrow> FP4_BLS381 \<Rightarrow> FP4_BLS381 \<Rightarrow> FP4_BLS381 \<Rightarrow> BIG \<Rightarrow> BIG \<Rightarrow> FP4_BLS381"
  FP4_cmove :: "FP4_BLS381 \<Rightarrow> FP4_BLS381 \<Rightarrow> int \<Rightarrow> FP4_BLS381"
  FP4_sqrt :: "FP4_BLS381 \<Rightarrow> int \<times> FP4_BLS381"
  FP4_div_i :: "FP4_BLS381 \<Rightarrow> FP4_BLS381"
  FP4_div_2i :: "FP4_BLS381 \<Rightarrow> FP4_BLS381"
  FP4_div2 :: "FP4_BLS381 \<Rightarrow> FP4_BLS381"

definition f4val :: "fp_api \<Rightarrow> FP4_BLS381 \<Rightarrow> f4" where
  "f4val fp x = (f2val fp (fp4_a x), f2val fp (fp4_b x))"

definition valid4 :: "(FP_BLS381 \<Rightarrow> bool) \<Rightarrow> FP4_BLS381 \<Rightarrow> bool" where
  "valid4 valid x \<longleftrightarrow> valid2 valid (fp4_a x) \<and> valid2 valid (fp4_b x)"

text \<open>A proper element whose value is \<open>v\<close>, reduced.\<close>

definition is_fp4 :: "int \<Rightarrow> (FP_BLS381 \<Rightarrow> bool) \<Rightarrow> fp_api \<Rightarrow> f4 \<Rightarrow> FP4_BLS381 \<Rightarrow> bool" where
  "is_fp4 p valid fp v x \<longleftrightarrow> valid4 valid x \<and> f4val fp x = red4 p v"

definition of_int4 :: "int \<Rightarrow> f4" where "of_int4 i = ((i, 0), (0, 0))"

definition square4 :: "int \<Rightarrow> f4 \<Rightarrow> bool" where
  "square4 p v \<longleftrightarrow> (\<exists>z. red4 p (r_mul Z4 z z) = v)"

definition fp4_base_ok :: "int \<Rightarrow> (FP_BLS381 \<Rightarrow> bool) \<Rightarrow> fp_api \<Rightarrow> ('a fp4_base_api_scheme) \<Rightarrow> bool" where
  "fp4_base_ok p valid fp api \<longleftrightarrow>
     is_fp4 p valid fp (r_zero Z4) (FP4_zero api) \<and> is_fp4 p valid fp (r_one Z4) (FP4_one api) \<and>
     (\<forall>a b. valid2 valid a \<longrightarrow> valid2 valid b \<longrightarrow>
        is_fp4 p valid fp (f2val fp a, f2val fp b) (FP4_from_FP2s api a b) \<and>
        is_fp4 p valid fp (f2val fp a, r_zero Z2) (FP4_from_FP2 api a) \<and>
        is_fp4 p valid fp (r_zero Z2, f2val fp a) (FP4_from_FP2H api a)) \<and>
     (\<forall>x y. valid4 valid x \<longrightarrow> valid4 valid y \<longrightarrow>
        FP4_iszilch api x = bool_int (f4val fp x = red4 p (r_zero Z4)) \<and> FP4_isunity api x = bool_int (f4val fp x = red4 p (r_one Z4)) \<and>
        FP4_equals api x y = bool_int (f4val fp x = f4val fp y) \<and> FP4_isreal api x = bool_int (snd (f4val fp x) = red2 p (r_zero Z2)) \<and>
        is_fp4 p valid fp (f4val fp x) (FP4_copy api x) \<and>
        is_fp4 p valid fp (r_neg Z4 (f4val fp x)) (FP4_neg api x) \<and>
        is_fp4 p valid fp (conj4 (f4val fp x)) (FP4_conj api x) \<and>
        is_fp4 p valid fp (r_neg Z4 (conj4 (f4val fp x))) (FP4_nconj api x) \<and>
        is_fp4 p valid fp (r_add Z4 (f4val fp x) (f4val fp y)) (FP4_add api x y) \<and>
        is_fp4 p valid fp (r_sub Z4 (f4val fp x) (f4val fp y)) (FP4_sub api x y) \<and>
        (\<forall>a. valid2 valid a \<longrightarrow> is_fp4 p valid fp (r_mul Z4 (f4val fp x) (f2val fp a, r_zero Z2)) (FP4_pmul api x a)) \<and>
        (\<forall>a. valid a \<longrightarrow> is_fp4 p valid fp (r_mul Z4 (f4val fp x) (of_int4 (fval fp a))) (FP4_qmul api x a)) \<and>
        (\<forall>i. 0 \<le> i \<longrightarrow> is_fp4 p valid fp (r_mul Z4 (f4val fp x) (of_int4 i)) (FP4_imul api x i)))"

text \<open>\<open>frob\<close> is given its precalculated constant; \<open>div_2i\<close> divides by half the root.\<close>

definition fp4_ok :: "int \<Rightarrow> (FP_BLS381 \<Rightarrow> bool) \<Rightarrow> fp_api \<Rightarrow> fp4_api \<Rightarrow> bool" where
  "fp4_ok p valid fp api \<longleftrightarrow> fp4_base_ok p valid fp api \<and>
     (\<forall>x y. valid4 valid x \<longrightarrow> valid4 valid y \<longrightarrow>
        is_fp4 p valid fp (r_mul Z4 (f4val fp x) (f4val fp x)) (FP4_sqr api x) \<and>
        is_fp4 p valid fp (r_mul Z4 (f4val fp x) (f4val fp y)) (FP4_mul api x y) \<and>
        ((\<exists>v. red4 p (r_mul Z4 v (f4val fp x)) = red4 p (r_one Z4)) \<longrightarrow>
           valid4 valid (FP4_inv api x) \<and> red4 p (r_mul Z4 (f4val fp (FP4_inv api x)) (f4val fp x)) = red4 p (r_one Z4)) \<and>
        is_fp4 p valid fp (r_mul Z4 root_xi (f4val fp x)) (FP4_times_i api x) \<and>
        is_fp4 p valid fp (f4val fp x) (FP4_norm api x) \<and> is_fp4 p valid fp (f4val fp x) (FP4_reduce api x) \<and>
        (\<forall>z. nbig BASEBITS_384_58 NLEN_384_58 z \<longrightarrow>
           is_fp4 p valid fp (r_pow Z4 (f4val fp x) (nat (big_val BASEBITS_384_58 z))) (FP4_pow api x z)) \<and>
        (\<forall>f. valid2 valid f \<longrightarrow> odd p \<longrightarrow> f2val fp f = red2 p (r_pow Z2 xi (nat ((p - 1) div 2))) \<longrightarrow>
           is_fp4 p valid fp (r_pow Z4 (f4val fp x) (nat p)) (FP4_frob api x f)) \<and>
        (\<forall>w z. valid4 valid w \<longrightarrow> valid4 valid z \<longrightarrow>
           is_fp4 p valid fp (r_add Z4 (r_sub Z4 (r_mul Z4 (f4val fp w) (f4val fp x)) (r_mul Z4 (conj4 (f4val fp x)) (f4val fp y))) (f4val fp z))
             (FP4_xtr_A api w x y z)) \<and>
        is_fp4 p valid fp (r_sub Z4 (r_mul Z4 (f4val fp x) (f4val fp x)) (r_mul Z4 (of_int4 2) (conj4 (f4val fp x)))) (FP4_xtr_D api x) \<and>
        (\<forall>s. FP4_cmove api x y s = (if s = 0 then x else y)) \<and>
        fst (FP4_sqrt api x) = bool_int (square4 p (f4val fp x)) \<and>
        (square4 p (f4val fp x) \<longrightarrow> valid4 valid (snd (FP4_sqrt api x)) \<and>
           red4 p (r_mul Z4 (f4val fp (snd (FP4_sqrt api x))) (f4val fp (snd (FP4_sqrt api x)))) = f4val fp x) \<and>
        valid4 valid (FP4_div_i api x) \<and> red4 p (r_mul Z4 (f4val fp (FP4_div_i api x)) root_xi) = f4val fp x \<and>
        valid4 valid (FP4_div_2i api x) \<and>
        red4 p (r_mul Z4 (f4val fp (FP4_div_2i api x)) root_xi) = red4 p (r_mul Z4 (of_int4 2) (f4val fp x)) \<and>
        valid4 valid (FP4_div2 api x) \<and> red4 p (r_mul Z4 (f4val fp (FP4_div2 api x)) (of_int4 2)) = f4val fp x)"

lemma f4val_red: "fp_ok p valid fp \<Longrightarrow> valid4 valid x \<Longrightarrow> red4 p (f4val fp x) = f4val fp x"
  by (simp add: f4val_def red4_def red2_def red1_def f2val_def valid4_def valid2_def f2val_range)

lemma fp4_baseD:
  assumes ok: "fp4_ok p valid fp api" and v: "valid4 valid x" "valid4 valid y"
  shows "FP4_isunity api x = bool_int (f4val fp x = red4 p (r_one Z4))" "FP4_equals api x y = bool_int (f4val fp x = f4val fp y)"
    "FP4_isreal api x = bool_int (snd (f4val fp x) = red2 p (r_zero Z2))"
    "is_fp4 p valid fp (r_neg Z4 (f4val fp x)) (FP4_neg api x)" "is_fp4 p valid fp (conj4 (f4val fp x)) (FP4_conj api x)"
    "is_fp4 p valid fp (r_neg Z4 (conj4 (f4val fp x))) (FP4_nconj api x)"
    "is_fp4 p valid fp (r_add Z4 (f4val fp x) (f4val fp y)) (FP4_add api x y)"
    "is_fp4 p valid fp (r_sub Z4 (f4val fp x) (f4val fp y)) (FP4_sub api x y)"
    "valid2 valid a \<Longrightarrow> is_fp4 p valid fp (r_mul Z4 (f4val fp x) (f2val fp a, r_zero Z2)) (FP4_pmul api x a)"
    "0 \<le> i \<Longrightarrow> is_fp4 p valid fp (r_mul Z4 (f4val fp x) (of_int4 i)) (FP4_imul api x i)"
  using ok [unfolded fp4_ok_def fp4_base_ok_def, THEN conjunct1, THEN conjunct2, THEN conjunct2, THEN conjunct2, rule_format, OF v]
  by simp_all

lemma fp4_moreD:
  assumes ok: "fp4_ok p valid fp api" and v: "valid4 valid x" "valid4 valid y"
  shows "is_fp4 p valid fp (r_mul Z4 (f4val fp x) (f4val fp x)) (FP4_sqr api x)"
    "is_fp4 p valid fp (r_mul Z4 (f4val fp x) (f4val fp y)) (FP4_mul api x y)"
    "is_fp4 p valid fp (r_mul Z4 root_xi (f4val fp x)) (FP4_times_i api x)"
    "nbig BASEBITS_384_58 NLEN_384_58 z \<Longrightarrow> is_fp4 p valid fp (r_pow Z4 (f4val fp x) (nat (big_val BASEBITS_384_58 z))) (FP4_pow api x z)"
    "valid4 valid w \<Longrightarrow> valid4 valid u \<Longrightarrow>
      is_fp4 p valid fp (r_add Z4 (r_sub Z4 (r_mul Z4 (f4val fp w) (f4val fp x)) (r_mul Z4 (conj4 (f4val fp x)) (f4val fp y))) (f4val fp u))
        (FP4_xtr_A api w x y u)"
    "is_fp4 p valid fp (r_sub Z4 (r_mul Z4 (f4val fp x) (f4val fp x)) (r_mul Z4 (of_int4 2) (conj4 (f4val fp x)))) (FP4_xtr_D api x)"
    "fst (FP4_sqrt api x) = bool_int (square4 p (f4val fp x))"
    "square4 p (f4val fp x) \<Longrightarrow> valid4 valid (snd (FP4_sqrt api x)) \<and>
       red4 p (r_mul Z4 (f4val fp (snd (FP4_sqrt api x))) (f4val fp (snd (FP4_sqrt api x)))) = f4val fp x"
    "valid4 valid (FP4_div_i api x)" "red4 p (r_mul Z4 (f4val fp (FP4_div_i api x)) root_xi) = f4val fp x"
    "valid4 valid (FP4_div_2i api x)" "red4 p (r_mul Z4 (f4val fp (FP4_div_2i api x)) root_xi) = red4 p (r_mul Z4 (of_int4 2) (f4val fp x))"
    "valid4 valid (FP4_div2 api x)" "red4 p (r_mul Z4 (f4val fp (FP4_div2 api x)) (of_int4 2)) = f4val fp x"
    "red4 p (r_mul Z4 c (f4val fp x)) = red4 p (r_one Z4) \<Longrightarrow>
       valid4 valid (FP4_inv api x) \<and> red4 p (r_mul Z4 (f4val fp (FP4_inv api x)) (f4val fp x)) = red4 p (r_one Z4)"
  using ok [unfolded fp4_ok_def, THEN conjunct2, rule_format, OF v] by blast+

lemma is_fp4D: "is_fp4 p valid fp v x \<Longrightarrow> valid4 valid x" "is_fp4 p valid fp v x \<Longrightarrow> f4val fp x = red4 p v"
  by (simp_all add: is_fp4_def)

lemma is_fp4I: "valid4 valid x \<Longrightarrow> fp_ok p valid fp \<Longrightarrow> is_fp4 p valid fp (f4val fp x) x"
  by (simp add: is_fp4_def f4val_red)

lemma red4_conj: "red4 p (conj4 (red4 p a)) = red4 p (conj4 a)"
  by (cases a) (simp add: conj4_def conj2_def red4_def z2.red_simps)

lemma red4_cong:
  "red4 p a = red4 p a' \<Longrightarrow> red4 p b = red4 p b' \<Longrightarrow> red4 p (r_sub Z4 a b) = red4 p (r_sub Z4 a' b')"
  "red4 p a = red4 p a' \<Longrightarrow> red4 p (r_neg Z4 a) = red4 p (r_neg Z4 a')"
  by (metis z4.red_sub, metis z4.red_neg)

lemma is_fp4_cong: "is_fp4 p valid fp v x \<Longrightarrow> red4 p v = red4 p w \<Longrightarrow> is_fp4 p valid fp w x"
  by (simp add: is_fp4_def)

text \<open>The contract, over values that need not be reduced.\<close>

lemma fp4_build:
  assumes ok: "fp4_ok p valid fp api" and a: "is_fp4 p valid fp a x"
  shows "is_fp4 p valid fp b y \<Longrightarrow> is_fp4 p valid fp (r_mul Z4 a b) (FP4_mul api x y)"
    "is_fp4 p valid fp b y \<Longrightarrow> is_fp4 p valid fp (r_add Z4 a b) (FP4_add api x y)"
    "is_fp4 p valid fp b y \<Longrightarrow> is_fp4 p valid fp (r_sub Z4 a b) (FP4_sub api x y)"
    "is_fp4 p valid fp (r_mul Z4 a a) (FP4_sqr api x)"
    "is_fp4 p valid fp (r_neg Z4 a) (FP4_neg api x)" "is_fp4 p valid fp (conj4 a) (FP4_conj api x)"
    "is_fp4 p valid fp (r_neg Z4 (conj4 a)) (FP4_nconj api x)" "is_fp4 p valid fp (r_mul Z4 root_xi a) (FP4_times_i api x)"
    "0 \<le> i \<Longrightarrow> is_fp4 p valid fp (r_mul Z4 a (of_int4 i)) (FP4_imul api x i)"
    "valid2 valid e \<Longrightarrow> is_fp4 p valid fp (r_mul Z4 a (f2val fp e, r_zero Z2)) (FP4_pmul api x e)"
    "nbig BASEBITS_384_58 NLEN_384_58 z \<Longrightarrow> is_fp4 p valid fp (r_pow Z4 a (nat (big_val BASEBITS_384_58 z))) (FP4_pow api x z)"
    "is_fp4 p valid fp b y \<Longrightarrow> is_fp4 p valid fp c w \<Longrightarrow> is_fp4 p valid fp d u \<Longrightarrow>
      is_fp4 p valid fp (r_add Z4 (r_sub Z4 (r_mul Z4 c a) (r_mul Z4 (conj4 a) b)) d) (FP4_xtr_A api w x y u)"
    "is_fp4 p valid fp (r_sub Z4 (r_mul Z4 a a) (r_mul Z4 (of_int4 2) (conj4 a))) (FP4_xtr_D api x)"
proof -
  note va = a [THEN is_fp4D(1)] and ea = a [THEN is_fp4D(2)]
  note r = z4.red_simps z4.red_pow red4_conj
  note B = fp4_baseD [OF ok va va, unfolded ea] and M = fp4_moreD [OF ok va va, unfolded ea]
  have X: "red4 p (r_sub Z4 (r_mul Z4 (red4 p a) (red4 p a)) (r_mul Z4 (of_int4 2) (conj4 (red4 p a)))) =
      red4 p (r_sub Z4 (r_mul Z4 a a) (r_mul Z4 (of_int4 2) (conj4 a)))"
    by (intro z4.red_cong red4_cong z4.red_red red4_conj refl)
  have N: "red4 p (r_neg Z4 (conj4 (red4 p a))) = red4 p (r_neg Z4 (conj4 a))" by (intro red4_cong red4_conj)
  show "is_fp4 p valid fp (r_mul Z4 a a) (FP4_sqr api x)"
    "is_fp4 p valid fp (r_neg Z4 a) (FP4_neg api x)" "is_fp4 p valid fp (conj4 a) (FP4_conj api x)"
    "is_fp4 p valid fp (r_mul Z4 root_xi a) (FP4_times_i api x)"
    "0 \<le> i \<Longrightarrow> is_fp4 p valid fp (r_mul Z4 a (of_int4 i)) (FP4_imul api x i)"
    "valid2 valid e \<Longrightarrow> is_fp4 p valid fp (r_mul Z4 a (f2val fp e, r_zero Z2)) (FP4_pmul api x e)"
    "nbig BASEBITS_384_58 NLEN_384_58 z \<Longrightarrow> is_fp4 p valid fp (r_pow Z4 a (nat (big_val BASEBITS_384_58 z))) (FP4_pow api x z)"
    using B(4,5,9,10) M(1,3,4) unfolding is_fp4_def r by simp_all
  show "is_fp4 p valid fp (r_neg Z4 (conj4 a)) (FP4_nconj api x)" "is_fp4 p valid fp (r_sub Z4 (r_mul Z4 a a) (r_mul Z4 (of_int4 2) (conj4 a))) (FP4_xtr_D api x)"
    using B(6) M(6) unfolding is_fp4_def X N by simp_all
  assume b: "is_fp4 p valid fp b y"
  note vb = b [THEN is_fp4D(1)] and eb = b [THEN is_fp4D(2)]
  note B = fp4_baseD [OF ok va vb, unfolded ea eb] and M = fp4_moreD [OF ok va vb, unfolded ea eb]
  show "is_fp4 p valid fp (r_mul Z4 a b) (FP4_mul api x y)" "is_fp4 p valid fp (r_add Z4 a b) (FP4_add api x y)"
    "is_fp4 p valid fp (r_sub Z4 a b) (FP4_sub api x y)"
    using B(7,8) M(2) unfolding is_fp4_def r by simp_all
  assume c: "is_fp4 p valid fp c w" and d: "is_fp4 p valid fp d u"
  have A: "red4 p (r_add Z4 (r_sub Z4 (r_mul Z4 (red4 p c) (red4 p a)) (r_mul Z4 (conj4 (red4 p a)) (red4 p b))) (red4 p d)) =
      red4 p (r_add Z4 (r_sub Z4 (r_mul Z4 c a) (r_mul Z4 (conj4 a) b)) d)"
    by (intro z4.red_cong red4_cong z4.red_red red4_conj)
  show "is_fp4 p valid fp (r_add Z4 (r_sub Z4 (r_mul Z4 c a) (r_mul Z4 (conj4 a) b)) d) (FP4_xtr_A api w x y u)"
    using M(5) [OF c [THEN is_fp4D(1)] d [THEN is_fp4D(1)]] A unfolding c [THEN is_fp4D(2)] d [THEN is_fp4D(2)] is_fp4_def by simp
qed

lemma of_int4_add: "r_mul Z4 a (of_int4 2) = r_add Z4 a a" "r_mul Z4 (of_int4 2) a = r_add Z4 a a"
  by (cases a; simp add: of_int4_def Z4_def Z2_def Z1_def quad_def split: prod.splits)+

text \<open>
  Over any library with the documented functions of \<open>FP4\<close>, by its own \<open>equals\<close>: a commutative ring; conjugation
  respects products and an element times its conjugate is real; \<open>times_i\<close> twice multiplies by \<open>1+sqrt(-1)\<close>;
  the divisions undo multiplication by the root, half of it, and two; the XTR steps are what their
  comments say in terms of the other functions; every square has a root; inverses are found where there are
  any; and \<open>pow\<close> turns sums of exponents into products.
\<close>

theorem fp4_library_laws:
  assumes fp: "fp_ok p valid fp" and ok: "fp4_ok p valid fp api"
    and v: "valid4 valid w" "valid4 valid x" "valid4 valid y" "valid4 valid z"
    and f: "valid2 valid f" "f2val fp f = red2 p xi"
    and n: "nbig BASEBITS_384_58 NLEN_384_58 a" "nbig BASEBITS_384_58 NLEN_384_58 b" "nbig BASEBITS_384_58 NLEN_384_58 c"
    and s: "big_val BASEBITS_384_58 c = big_val BASEBITS_384_58 a + big_val BASEBITS_384_58 b"
  shows "FP4_equals api (FP4_mul api x y) (FP4_mul api y x) = 1 \<and>
    FP4_equals api (FP4_mul api x (FP4_mul api y z)) (FP4_mul api (FP4_mul api x y) z) = 1 \<and>
    FP4_equals api (FP4_mul api x (FP4_add api y z)) (FP4_add api (FP4_mul api x y) (FP4_mul api x z)) = 1 \<and>
    FP4_equals api (FP4_mul api (FP4_conj api x) (FP4_conj api y)) (FP4_conj api (FP4_mul api x y)) = 1 \<and>
    FP4_isreal api (FP4_mul api x (FP4_conj api x)) = 1 \<and>
    FP4_equals api (FP4_nconj api x) (FP4_neg api (FP4_conj api x)) = 1 \<and>
    FP4_equals api (FP4_times_i api (FP4_times_i api x)) (FP4_pmul api x f) = 1 \<and>
    FP4_equals api (FP4_times_i api (FP4_div_i api x)) x = 1 \<and>
    FP4_equals api (FP4_times_i api (FP4_div_2i api x)) (FP4_add api x x) = 1 \<and>
    FP4_equals api (FP4_add api (FP4_div2 api x) (FP4_div2 api x)) x = 1 \<and>
    FP4_equals api (FP4_xtr_A api w x y z) (FP4_add api (FP4_sub api (FP4_mul api w x) (FP4_mul api (FP4_conj api x) y)) z) = 1 \<and>
    FP4_equals api (FP4_xtr_D api x) (FP4_sub api (FP4_sqr api x) (FP4_imul api (FP4_conj api x) 2)) = 1 \<and>
    fst (FP4_sqrt api (FP4_sqr api x)) = 1 \<and>
    FP4_equals api (FP4_sqr api (snd (FP4_sqrt api (FP4_sqr api x)))) (FP4_sqr api x) = 1 \<and>
    (FP4_isunity api (FP4_mul api y x) = 1 \<longrightarrow> FP4_isunity api (FP4_mul api (FP4_inv api x) x) = 1) \<and>
    FP4_equals api (FP4_mul api (FP4_pow api x a) (FP4_pow api x b)) (FP4_pow api x c) = 1"
proof -
  let ?v = "f4val fp"
  have eq: "FP4_equals api s t = 1" if "is_fp4 p valid fp d s" "is_fp4 p valid fp e t" "red4 p d = red4 p e" for d e s t
    using fp4_baseD(2) [OF ok is_fp4D(1) [OF that(1)] is_fp4D(1) [OF that(2)]] that by (simp add: is_fp4_def bool_int_def)
  note I = v [THEN is_fp4I, OF fp] and B = fp4_build [OF ok] and M = fp4_moreD [OF ok v(2,2)]
  have pos: "0 \<le> big_val BASEBITS_384_58 a" "0 \<le> big_val BASEBITS_384_58 b" using n(1,2) nbig_range by blast+
  have un: "FP4_isunity api t = bool_int (red4 p e = red4 p (r_one Z4))" if "is_fp4 p valid fp e t" for e t
    using fp4_baseD(1) [OF ok is_fp4D(1) [OF that] is_fp4D(1) [OF that]] that by (simp add: is_fp4_def)
  have d1: "is_fp4 p valid fp (?v (FP4_div_i api x)) (FP4_div_i api x)" and d2: "is_fp4 p valid fp (?v (FP4_div_2i api x)) (FP4_div_2i api x)"
    and d3: "is_fp4 p valid fp (?v (FP4_div2 api x)) (FP4_div2 api x)"
    using M(9,11,13) is_fp4I fp by blast+
  have sq: "square4 p (f4val fp (FP4_sqr api x))"
    unfolding square4_def is_fp4D(2) [OF B(4) [OF I(2)]] by blast
  note R = fp4_moreD(7,8) [OF ok is_fp4D(1) [OF B(4) [OF I(2)]] v(2)]
  show ?thesis
  proof (intro conjI impI)
    show "FP4_equals api (FP4_mul api x y) (FP4_mul api y x) = 1"
      by (rule eq [OF B(1) [OF I(2,3)] B(1) [OF I(3,2)]]) (simp add: z4.mul_comm)
    show "FP4_equals api (FP4_mul api x (FP4_mul api y z)) (FP4_mul api (FP4_mul api x y) z) = 1"
      by (rule eq [OF B(1) [OF I(2) B(1) [OF I(3,4)]] B(1) [OF B(1) [OF I(2,3)] I(4)]]) (simp add: z4.mul_assoc)
    show "FP4_equals api (FP4_mul api x (FP4_add api y z)) (FP4_add api (FP4_mul api x y) (FP4_mul api x z)) = 1"
      by (rule eq [OF B(1) [OF I(2) B(2) [OF I(3,4)]] B(2) [OF B(1) [OF I(2,3)] B(1) [OF I(2,4)]]]) (simp add: z4.distrib)
    show "FP4_equals api (FP4_mul api (FP4_conj api x) (FP4_conj api y)) (FP4_conj api (FP4_mul api x y)) = 1"
      by (rule eq [OF B(1) [OF B(6) [OF I(2)] B(6) [OF I(3)]] B(6) [OF B(1) [OF I(2,3)]]]) (simp add: conj4_hom)
    show "FP4_isreal api (FP4_mul api x (FP4_conj api x)) = 1"
    proof -
      have m: "is_fp4 p valid fp (r_mul Z4 (?v x) (conj4 (?v x))) (FP4_mul api x (FP4_conj api x))" by (rule B(1) [OF I(2) B(6) [OF I(2)]])
      have "snd (r_mul Z4 (?v x) (conj4 (?v x))) = r_zero Z2" by (simp add: Z4_def conj4_def z2.conj2_norm)
      then show ?thesis
        using fp4_baseD(3) [OF ok is_fp4D(1) [OF m] v(2)] is_fp4D(2) [OF m] by (simp add: bool_int_def red4_def)
    qed
    show "FP4_equals api (FP4_nconj api x) (FP4_neg api (FP4_conj api x)) = 1"
      by (rule eq [OF B(7) [OF I(2)] B(5) [OF B(6) [OF I(2)]]]) simp
    show "FP4_equals api (FP4_times_i api (FP4_times_i api x)) (FP4_pmul api x f) = 1"
    proof (rule eq [OF B(8) [OF B(8) [OF I(2)]] B(10) [OF I(2) f(1)]])
      have "r_mul Z4 root_xi root_xi = (xi, r_zero Z2)" by (simp add: root_xi_def Z4_def Z2_def Z1_def quad_def xi_def)
      moreover have "(f2val fp f, r_zero Z2) = red4 p (xi, r_zero Z2)" by (simp add: f(2) red4_def red2_def red1_def Z2_def Z1_def quad_def)
      ultimately show "red4 p (r_mul Z4 root_xi (r_mul Z4 root_xi (?v x))) = red4 p (r_mul Z4 (?v x) (f2val fp f, r_zero Z2))"
        by (simp add: z4.red_simps z4.mul_assoc [symmetric]) (simp add: z4.mul_comm)
    qed
    show "FP4_equals api (FP4_times_i api (FP4_div_i api x)) x = 1"
      by (rule eq [OF B(8) [OF d1] I(2)]) (simp only: z4.mul_comm [of root_xi] M(10) f4val_red [OF fp v(2)])
    show "FP4_equals api (FP4_times_i api (FP4_div_2i api x)) (FP4_add api x x) = 1"
      by (rule eq [OF B(8) [OF d2] B(2) [OF I(2,2)]]) (simp only: z4.mul_comm [of root_xi] M(12) of_int4_add)
    show "FP4_equals api (FP4_add api (FP4_div2 api x) (FP4_div2 api x)) x = 1"
      by (rule eq [OF B(2) [OF d3 d3] I(2)]) (simp only: of_int4_add [symmetric] M(14) f4val_red [OF fp v(2)])
    show "FP4_equals api (FP4_xtr_A api w x y z) (FP4_add api (FP4_sub api (FP4_mul api w x) (FP4_mul api (FP4_conj api x) y)) z) = 1"
      by (rule eq [OF B(12) [OF I(2,3,1,4)] B(2) [OF B(3) [OF B(1) [OF I(1,2)] B(1) [OF B(6) [OF I(2)] I(3)]] I(4)]]) simp
    show "FP4_equals api (FP4_xtr_D api x) (FP4_sub api (FP4_sqr api x) (FP4_imul api (FP4_conj api x) 2)) = 1"
      by (rule eq [OF B(13) [OF I(2)] B(3) [OF B(4) [OF I(2)] B(9) [OF B(6) [OF I(2)]]]]) (simp_all add: of_int4_add)
    show "fst (FP4_sqrt api (FP4_sqr api x)) = 1" using R(1) sq by (simp add: bool_int_def)
    show "FP4_equals api (FP4_sqr api (snd (FP4_sqrt api (FP4_sqr api x)))) (FP4_sqr api x) = 1"
      using R(2) [OF sq] is_fp4D(1) [OF B(4) [OF I(2)]]
      by (intro eq [OF B(4) [OF is_fp4I] is_fp4I] conjunct1 [OF R(2) [OF sq]] fp) (simp_all add: f4val_red [OF fp])
    show "FP4_isunity api (FP4_mul api (FP4_inv api x) x) = 1" if "FP4_isunity api (FP4_mul api y x) = 1"
    proof -
      have "red4 p (r_mul Z4 (?v y) (?v x)) = red4 p (r_one Z4)"
        using that un [OF B(1) [OF I(3,2)]] by (simp add: bool_int_def split: if_splits)
      from M(15) [OF this] show ?thesis using un [OF B(1) [OF is_fp4I I(2)], OF _ fp] by (simp add: bool_int_def)
    qed
    show "FP4_equals api (FP4_mul api (FP4_pow api x a) (FP4_pow api x b)) (FP4_pow api x c) = 1"
      by (rule eq [OF B(1) [OF B(11) [OF I(2) n(1)] B(11) [OF I(2) n(2)]] B(11) [OF I(2) n(3)]]) (simp only: s nat_add_distrib [OF pos] z4.pow_add)
  qed
qed

text \<open>The contract can be met: over three elements, by computing with values and searching where one divides.\<close>

definition mk2v :: "f2 \<Rightarrow> FP2_BLS381" where "mk2v v = mk2 (mk1 (fst v)) (mk1 (snd v))"
definition mk4 :: "f4 \<Rightarrow> FP4_BLS381" where "mk4 v = (let v = red4 3 v in \<lparr>fp4_a = mk2v (fst v), fp4_b = mk2v (snd v)\<rparr>)"

abbreviation ev2 :: "FP2_BLS381 \<Rightarrow> f2" where "ev2 \<equiv> f2val (ref_fp 3)"
abbreviation ev4 :: "FP4_BLS381 \<Rightarrow> f4" where "ev4 \<equiv> f4val (ref_fp 3)"

definition all2 :: "f2 list" where "all2 = List.product [0, 1, 2] [0, 1, 2]"
definition all4 :: "f4 list" where "all4 = List.product all2 all2"

definition find4 :: "(f4 \<Rightarrow> bool) \<Rightarrow> f4" where
  "find4 P = (case find P all4 of None \<Rightarrow> r_zero Z4 | Some v \<Rightarrow> v)"

lemma red_in_all: "red2 3 u \<in> set all2" "red4 3 v \<in> set all4"
proof -
  have "a mod 3 \<in> {0, 1, 2 :: int}" for a by auto
  then have 2: "red2 3 u \<in> set all2" for u by (cases u) (auto simp: red2_def red1_def all2_def)
  show "red2 3 u \<in> set all2" by (rule 2)
  show "red4 3 v \<in> set all4" using 2 by (cases v) (auto simp: red4_def all4_def)
qed

lemma find4: "P (red4 3 v) \<Longrightarrow> P (find4 P)"
proof -
  assume P: "P (red4 3 v)"
  then have "find P all4 \<noteq> None" using red_in_all(2) [of v] unfolding find_None_iff by blast
  then obtain w where "find P all4 = Some w" by blast
  moreover from this have "P w" unfolding find_Some_iff by blast
  ultimately show ?thesis by (simp add: find4_def)
qed

lemma valid_mk: "valid2 valid3 (mk2v (red2 3 u))" "valid4 valid3 (mk4 v)"
  by (simp_all add: mk2v_def mk4_def Let_def valid4_def valid2_def red4_def red2_def red1_def valid3_mk split: prod.split)

lemma ev_mk: "ev2 (mk2v u) = u" "ev4 (mk4 v) = red4 3 v"
  by (simp_all add: mk2v_def mk4_def Let_def f2val_def f4val_def)

lemma is_mk4: "is_fp4 3 valid3 (ref_fp 3) w (mk4 v) \<longleftrightarrow> red4 3 v = red4 3 w"
  by (auto simp: is_fp4_def valid_mk ev_mk)

definition ref_fp4_base :: fp4_base_api where
  "ref_fp4_base = \<lparr>
     FP4_iszilch = \<lambda>x. bool_int (ev4 x = red4 3 (r_zero Z4)),
     FP4_isunity = \<lambda>x. bool_int (ev4 x = red4 3 (r_one Z4)),
     FP4_equals = \<lambda>x y. bool_int (ev4 x = ev4 y),
     FP4_isreal = \<lambda>x. bool_int (snd (ev4 x) = red2 3 (r_zero Z2)),
     FP4_from_FP2s = \<lambda>a b. mk4 (ev2 a, ev2 b),
     FP4_from_FP2 = \<lambda>a. mk4 (ev2 a, r_zero Z2),
     FP4_from_FP2H = \<lambda>a. mk4 (r_zero Z2, ev2 a),
     FP4_copy = \<lambda>x. mk4 (ev4 x),
     FP4_zero = mk4 (r_zero Z4),
     FP4_one = mk4 (r_one Z4),
     FP4_neg = \<lambda>x. mk4 (r_neg Z4 (ev4 x)),
     FP4_conj = \<lambda>x. mk4 (conj4 (ev4 x)),
     FP4_nconj = \<lambda>x. mk4 (r_neg Z4 (conj4 (ev4 x))),
     FP4_add = \<lambda>x y. mk4 (r_add Z4 (ev4 x) (ev4 y)),
     FP4_sub = \<lambda>x y. mk4 (r_sub Z4 (ev4 x) (ev4 y)),
     FP4_pmul = \<lambda>x a. mk4 (r_mul Z4 (ev4 x) (ev2 a, r_zero Z2)),
     FP4_qmul = \<lambda>x a. mk4 (r_mul Z4 (ev4 x) (of_int4 (fval (ref_fp 3) a))),
     FP4_imul = \<lambda>x i. mk4 (r_mul Z4 (ev4 x) (of_int4 i)) \<rparr>"

definition ref_fp4 :: fp4_api where
  "ref_fp4 = fp4_base_api.extend ref_fp4_base \<lparr>
     FP4_sqr = \<lambda>x. mk4 (r_mul Z4 (ev4 x) (ev4 x)),
     FP4_mul = \<lambda>x y. mk4 (r_mul Z4 (ev4 x) (ev4 y)),
     FP4_inv = \<lambda>x. mk4 (find4 (\<lambda>v. red4 3 (r_mul Z4 v (ev4 x)) = red4 3 (r_one Z4))),
     FP4_output = \<lambda>x. [], FP4_rawoutput = \<lambda>x. [],
     FP4_times_i = \<lambda>x. mk4 (r_mul Z4 root_xi (ev4 x)),
     FP4_norm = \<lambda>x. mk4 (ev4 x), FP4_reduce = \<lambda>x. mk4 (ev4 x),
     FP4_pow = \<lambda>x z. mk4 (r_pow Z4 (ev4 x) (nat (big_val BASEBITS_384_58 z))),
     FP4_frob = \<lambda>x f. mk4 (r_pow Z4 (ev4 x) 3),
     FP4_xtr_A = \<lambda>w x y z. mk4 (r_add Z4 (r_sub Z4 (r_mul Z4 (ev4 w) (ev4 x)) (r_mul Z4 (conj4 (ev4 x)) (ev4 y))) (ev4 z)),
     FP4_xtr_D = \<lambda>x. mk4 (r_sub Z4 (r_mul Z4 (ev4 x) (ev4 x)) (r_mul Z4 (of_int4 2) (conj4 (ev4 x)))),
     FP4_xtr_pow = \<lambda>x b. x, FP4_xtr_pow2 = \<lambda>c d e f a b. c,
     FP4_cmove = \<lambda>x y s. if s = 0 then x else y,
     FP4_sqrt = \<lambda>x. (let z = find4 (\<lambda>z. red4 3 (r_mul Z4 z z) = ev4 x) in (bool_int (red4 3 (r_mul Z4 z z) = ev4 x), mk4 z)),
     FP4_div_i = \<lambda>x. mk4 (find4 (\<lambda>v. red4 3 (r_mul Z4 v root_xi) = ev4 x)),
     FP4_div_2i = \<lambda>x. mk4 (find4 (\<lambda>v. red4 3 (r_mul Z4 v root_xi) = red4 3 (r_mul Z4 (of_int4 2) (ev4 x)))),
     FP4_div2 = \<lambda>x. mk4 (find4 (\<lambda>v. red4 3 (r_mul Z4 v (of_int4 2)) = ev4 x)) \<rparr>"

lemmas ref_fp4_fields = ref_fp4_def ref_fp4_base_def fp4_base_api.defs fp4_api.defs

lemma div4:
  assumes "red4 3 (r_mul Z4 e d) = red4 3 (r_one Z4)"
  shows "red4 3 (r_mul Z4 (find4 (\<lambda>v. red4 3 (r_mul Z4 v d) = red4 3 x)) d) = red4 3 x"
proof (rule find4 [of "\<lambda>v. red4 3 (r_mul Z4 v d) = red4 3 x" "r_mul Z4 x e"])
  have "red4 3 (r_mul Z4 (r_mul Z4 x e) d) = red4 3 (r_mul Z4 x (red4 3 (r_mul Z4 e d)))" by (simp add: z4.mul_assoc z4.red_simps)
  also have "\<dots> = red4 3 x" unfolding assms by (simp add: z4.red_simps z4.mul_one2)
  finally show "red4 3 (r_mul Z4 (red4 3 (r_mul Z4 x e)) d) = red4 3 x" by (simp add: z4.red_simps)
qed

lemma inverses4:
  "red4 3 (r_mul Z4 ((0, 0), (2, 1)) root_xi) = red4 3 (r_one Z4)" "red4 3 (r_mul Z4 (of_int4 2) (of_int4 2)) = red4 3 (r_one Z4)"
  by (simp_all add: root_xi_def of_int4_def xi_def Z4_def Z2_def Z1_def quad_def red4_def red2_def red1_def)

lemma ref_fp4_ok: "fp4_ok 3 valid3 (ref_fp 3) ref_fp4"
proof -
  have base: "fp4_base_ok 3 valid3 (ref_fp 3) ref_fp4"
    unfolding fp4_base_ok_def by (simp add: ref_fp4_fields is_mk4)
  have inv: "red4 3 (r_mul Z4 (find4 (\<lambda>v. red4 3 (r_mul Z4 v (ev4 x)) = red4 3 (r_one Z4))) (ev4 x)) = red4 3 (r_one Z4)"
    if "\<exists>v. red4 3 (r_mul Z4 v (ev4 x)) = red4 3 (r_one Z4)" for x
    using that find4 [of "\<lambda>v. red4 3 (r_mul Z4 v (ev4 x)) = red4 3 (r_one Z4)"] by (auto simp: z4.red_simps)
  have sqrt: "red4 3 (r_mul Z4 (find4 (\<lambda>z. red4 3 (r_mul Z4 z z) = ev4 x)) (find4 (\<lambda>z. red4 3 (r_mul Z4 z z) = ev4 x))) = ev4 x \<longleftrightarrow>
      square4 3 (ev4 x)" for x
    using find4 [of "\<lambda>z. red4 3 (r_mul Z4 z z) = ev4 x"] unfolding square4_def z4.red_simps by blast
  have red: "red4 3 (ev4 x) = ev4 x" if "valid4 valid3 x" for x by (rule f4val_red [OF ref_fp_ok that])
  note dv = div4 [OF inverses4(1)] div4 [OF inverses4(2)]
  show ?thesis
    unfolding fp4_ok_def
  proof (intro conjI base allI impI)
    fix x y assume v: "valid4 valid3 x" "valid4 valid3 y"
    show "red4 3 (r_mul Z4 (ev4 (FP4_div_i ref_fp4 x)) root_xi) = ev4 x"
      using dv(1) [of "ev4 x"] by (simp add: ref_fp4_fields ev_mk z4.red_simps red v)
    show "red4 3 (r_mul Z4 (ev4 (FP4_div_2i ref_fp4 x)) root_xi) = red4 3 (r_mul Z4 (of_int4 2) (ev4 x))"
      using dv(1) [of "r_mul Z4 (of_int4 2) (ev4 x)"] by (simp add: ref_fp4_fields ev_mk z4.red_simps)
    show "red4 3 (r_mul Z4 (ev4 (FP4_div2 ref_fp4 x)) (of_int4 2)) = ev4 x"
      using dv(2) [of "ev4 x"] by (simp add: ref_fp4_fields ev_mk z4.red_simps red v)
  qed (simp_all add: ref_fp4_fields is_mk4 ev_mk valid_mk inv sqrt Let_def z4.red_simps)
qed

theorem fp4_library_laws_witness:
  "let x = mk4 ((1, 2), (0, 1)); y = mk4 ((2, 2), (1, 1)) in
    FP4_isreal ref_fp4 (FP4_mul ref_fp4 x (FP4_conj ref_fp4 x)) = 1 \<and>
    FP4_equals ref_fp4 (FP4_times_i ref_fp4 (FP4_times_i ref_fp4 x)) (FP4_pmul ref_fp4 x (mk2v (1, 1))) = 1 \<and>
    FP4_equals ref_fp4 (FP4_mul ref_fp4 (FP4_pow ref_fp4 x (enc 58 7 1)) (FP4_pow ref_fp4 x (enc 58 7 1))) (FP4_pow ref_fp4 x (enc 58 7 2)) = 1"
proof -
  have n: "nbig BASEBITS_384_58 NLEN_384_58 (enc 58 7 w)" if "w \<in> {1, 2}" for w
    using nbig_enc [of w 58 7] that by (auto simp: NLEN_384_58_def amcl_const)
  have s: "big_val BASEBITS_384_58 (enc 58 7 2) = big_val BASEBITS_384_58 (enc 58 7 1) + big_val BASEBITS_384_58 (enc 58 7 1)"
    by (simp add: amcl_const)
  have f: "valid2 valid3 (mk2v (1, 1))" "ev2 (mk2v (1, 1)) = red2 3 xi"
    using valid_mk(1) [of "(1, 1)"] by (simp_all add: ev_mk red2_def red1_def xi_def)
  show ?thesis
    unfolding Let_def
    using fp4_library_laws [OF ref_fp_ok ref_fp4_ok valid_mk(2) valid_mk(2) valid_mk(2) valid_mk(2) f n n n s] by blast
qed

end
