(* ===== verification/Tower12.thy ===== *)
theory Tower12
  imports Tower
begin

text \<open>
  \<open>crypto/include/fp12_BLS381.h\<close>, as \<open>Tower\<close> does for \<open>FP4\<close>. The values are triples over \<open>FP4\<close>, with the cube of
  the second unit equal to \<open>sqrt(1+sqrt(-1))\<close>. Octet strings are lists of bytes.
\<close>

section \<open>fp12_BLS381.h\<close>

(* crypto/include/fp12_BLS381.h:32-42 FP12_BLS381 *)
record FP12_BLS381 =
  fp12_a :: FP4_BLS381
  fp12_b :: FP4_BLS381
  fp12_c :: FP4_BLS381
  fp12_type :: int

(* crypto/include/fp12_BLS381.h:47-140 FP12_BLS381_iszilch ... FP12_BLS381_mul *)
record fp12_base_api =
  FP12_iszilch :: "FP12_BLS381 \<Rightarrow> int"
  FP12_isunity :: "FP12_BLS381 \<Rightarrow> int"
  FP12_copy :: "FP12_BLS381 \<Rightarrow> FP12_BLS381"
  FP12_one :: FP12_BLS381
  FP12_zero :: FP12_BLS381
  FP12_equals :: "FP12_BLS381 \<Rightarrow> FP12_BLS381 \<Rightarrow> int"
  FP12_conj :: "FP12_BLS381 \<Rightarrow> FP12_BLS381"
  FP12_from_FP4 :: "FP4_BLS381 \<Rightarrow> FP12_BLS381"
  FP12_from_FP4s :: "FP4_BLS381 \<Rightarrow> FP4_BLS381 \<Rightarrow> FP4_BLS381 \<Rightarrow> FP12_BLS381"
  FP12_usqr :: "FP12_BLS381 \<Rightarrow> FP12_BLS381"
  FP12_sqr :: "FP12_BLS381 \<Rightarrow> FP12_BLS381"
  FP12_smul :: "FP12_BLS381 \<Rightarrow> FP12_BLS381 \<Rightarrow> FP12_BLS381"
  FP12_ssmul :: "FP12_BLS381 \<Rightarrow> FP12_BLS381 \<Rightarrow> FP12_BLS381"
  FP12_mul :: "FP12_BLS381 \<Rightarrow> FP12_BLS381 \<Rightarrow> FP12_BLS381"

(* crypto/include/fp12_BLS381.h:141-229 FP12_BLS381_inv ... FP12_BLS381_cmove *)
record fp12_api = fp12_base_api +
  FP12_inv :: "FP12_BLS381 \<Rightarrow> FP12_BLS381"
  FP12_pow :: "FP12_BLS381 \<Rightarrow> BIG \<Rightarrow> FP12_BLS381"
  FP12_pinpow :: "FP12_BLS381 \<Rightarrow> int \<Rightarrow> int \<Rightarrow> FP12_BLS381"
  FP12_compow :: "FP12_BLS381 \<Rightarrow> BIG \<Rightarrow> BIG \<Rightarrow> FP4_BLS381"
  FP12_pow4 :: "FP12_BLS381 list \<Rightarrow> BIG list \<Rightarrow> FP12_BLS381"
  FP12_frob :: "FP12_BLS381 \<Rightarrow> FP2_BLS381 \<Rightarrow> FP12_BLS381"
  FP12_reduce :: "FP12_BLS381 \<Rightarrow> FP12_BLS381"
  FP12_norm :: "FP12_BLS381 \<Rightarrow> FP12_BLS381"
  FP12_output :: "FP12_BLS381 \<Rightarrow> string"
  FP12_toOctet :: "FP12_BLS381 \<Rightarrow> byte list"
  FP12_fromOctet :: "byte list \<Rightarrow> FP12_BLS381"
  FP12_trace :: "FP12_BLS381 \<Rightarrow> FP4_BLS381"
  FP12_cmove :: "FP12_BLS381 \<Rightarrow> FP12_BLS381 \<Rightarrow> int \<Rightarrow> FP12_BLS381"

definition f12val :: "fp_api \<Rightarrow> FP12_BLS381 \<Rightarrow> f12" where
  "f12val fp x = (f4val fp (fp12_a x), f4val fp (fp12_b x), f4val fp (fp12_c x))"

definition valid12 :: "(FP_BLS381 \<Rightarrow> bool) \<Rightarrow> FP12_BLS381 \<Rightarrow> bool" where
  "valid12 valid x \<longleftrightarrow> valid4 valid (fp12_a x) \<and> valid4 valid (fp12_b x) \<and> valid4 valid (fp12_c x)"

definition is_fp12 :: "int \<Rightarrow> (FP_BLS381 \<Rightarrow> bool) \<Rightarrow> fp_api \<Rightarrow> f12 \<Rightarrow> FP12_BLS381 \<Rightarrow> bool" where
  "is_fp12 p valid fp v x \<longleftrightarrow> valid12 valid x \<and> f12val fp x = red12 p v"

text \<open>An element in "unitary" form: its inverse is its conjugate.\<close>

definition unitary :: "int \<Rightarrow> f12 \<Rightarrow> bool" where
  "unitary p v \<longleftrightarrow> red12 p (r_mul Z12 v (conj12 v)) = red12 p (r_one Z12)"

definition fp12_base_ok :: "int \<Rightarrow> (FP_BLS381 \<Rightarrow> bool) \<Rightarrow> fp_api \<Rightarrow> ('a fp12_base_api_scheme) \<Rightarrow> bool" where
  "fp12_base_ok p valid fp api \<longleftrightarrow>
     is_fp12 p valid fp (r_zero Z12) (FP12_zero api) \<and> is_fp12 p valid fp (r_one Z12) (FP12_one api) \<and>
     (\<forall>a b c. valid4 valid a \<longrightarrow> valid4 valid b \<longrightarrow> valid4 valid c \<longrightarrow>
        is_fp12 p valid fp (f4val fp a, r_zero Z4, r_zero Z4) (FP12_from_FP4 api a) \<and>
        is_fp12 p valid fp (f4val fp a, f4val fp b, f4val fp c) (FP12_from_FP4s api a b c)) \<and>
     (\<forall>x y. valid12 valid x \<longrightarrow> valid12 valid y \<longrightarrow>
        FP12_iszilch api x = bool_int (f12val fp x = red12 p (r_zero Z12)) \<and>
        FP12_isunity api x = bool_int (f12val fp x = red12 p (r_one Z12)) \<and>
        FP12_equals api x y = bool_int (f12val fp x = f12val fp y) \<and>
        is_fp12 p valid fp (f12val fp x) (FP12_copy api x) \<and>
        is_fp12 p valid fp (conj12 (f12val fp x)) (FP12_conj api x) \<and>
        (unitary p (f12val fp x) \<longrightarrow> is_fp12 p valid fp (r_mul Z12 (f12val fp x) (f12val fp x)) (FP12_usqr api x)) \<and>
        is_fp12 p valid fp (r_mul Z12 (f12val fp x) (f12val fp x)) (FP12_sqr api x) \<and>
        is_fp12 p valid fp (r_mul Z12 (f12val fp x) (f12val fp y)) (FP12_mul api x y))"

definition pow4_val :: "f12 list \<Rightarrow> nat list \<Rightarrow> f12" where
  "pow4_val vs ns = foldr (\<lambda>(v, n) acc. r_mul Z12 (r_pow Z12 v n) acc) (zip vs ns) (r_one Z12)"

definition fp12_ok :: "int \<Rightarrow> (FP_BLS381 \<Rightarrow> bool) \<Rightarrow> fp_api \<Rightarrow> fp12_api \<Rightarrow> bool" where
  "fp12_ok p valid fp api \<longleftrightarrow> fp12_base_ok p valid fp api \<and>
     (\<forall>x y. valid12 valid x \<longrightarrow> valid12 valid y \<longrightarrow>
        ((\<exists>v. red12 p (r_mul Z12 v (f12val fp x)) = red12 p (r_one Z12)) \<longrightarrow>
           valid12 valid (FP12_inv api x) \<and> red12 p (r_mul Z12 (f12val fp (FP12_inv api x)) (f12val fp x)) = red12 p (r_one Z12)) \<and>
        (\<forall>z. nbig BASEBITS_384_58 NLEN_384_58 z \<longrightarrow>
           is_fp12 p valid fp (r_pow Z12 (f12val fp x) (nat (big_val BASEBITS_384_58 z))) (FP12_pow api x z)) \<and>
        (\<forall>i b. 0 \<le> i \<longrightarrow> i < 2 ^ nat b \<longrightarrow> is_fp12 p valid fp (r_pow Z12 (f12val fp x) (nat i)) (FP12_pinpow api x i b)) \<and>
        (\<forall>f. valid2 valid f \<longrightarrow> 6 dvd p - 1 \<longrightarrow> f2val fp f = red2 p (r_pow Z2 xi (nat ((p - 1) div 6))) \<longrightarrow>
           is_fp12 p valid fp (r_pow Z12 (f12val fp x) (nat p)) (FP12_frob api x f)) \<and>
        is_fp12 p valid fp (f12val fp x) (FP12_reduce api x) \<and> is_fp12 p valid fp (f12val fp x) (FP12_norm api x) \<and>
        is_fp12 p valid fp (f12val fp x) (FP12_fromOctet api (FP12_toOctet api x)) \<and>
        is_fp4 p valid fp (r_mul Z4 (of_int4 3) (fst (f12val fp x))) (FP12_trace api x) \<and>
        (\<forall>s. FP12_cmove api x y s = (if s = 0 then x else y))) \<and>
     (\<forall>xs bs. length xs = 4 \<longrightarrow> length bs = 4 \<longrightarrow> list_all (valid12 valid) xs \<longrightarrow> list_all (nbig BASEBITS_384_58 NLEN_384_58) bs \<longrightarrow>
        is_fp12 p valid fp (pow4_val (map (f12val fp) xs) (map (\<lambda>b. nat (big_val BASEBITS_384_58 b)) bs)) (FP12_pow4 api xs bs))"

lemma f12val_red: "fp_ok p valid fp \<Longrightarrow> valid12 valid x \<Longrightarrow> red12 p (f12val fp x) = f12val fp x"
  by (simp add: f12val_def red12_def valid12_def f4val_red)

lemma is_fp12D: "is_fp12 p valid fp v x \<Longrightarrow> valid12 valid x" "is_fp12 p valid fp v x \<Longrightarrow> f12val fp x = red12 p v"
  by (simp_all add: is_fp12_def)

lemma is_fp12I: "valid12 valid x \<Longrightarrow> fp_ok p valid fp \<Longrightarrow> is_fp12 p valid fp (f12val fp x) x"
  by (simp add: is_fp12_def f12val_red)

lemma red12_conj: "red12 p (conj12 (red12 p a)) = red12 p (conj12 a)"
  by (cases a) (simp add: conj12_def red12_def red4_conj, metis red4_cong(2) red4_conj)

lemma unitary_red: "unitary p (red12 p v) = unitary p v"
proof -
  have "red12 p (r_mul Z12 (red12 p v) (conj12 (red12 p v))) = red12 p (r_mul Z12 v (conj12 v))"
    by (intro z12.red_cong z12.red_red red12_conj)
  then show ?thesis by (simp add: unitary_def)
qed

lemma fp12_baseD:
  assumes ok: "fp12_ok p valid fp api" and v: "valid12 valid x" "valid12 valid y"
  shows "FP12_isunity api x = bool_int (f12val fp x = red12 p (r_one Z12))" "FP12_equals api x y = bool_int (f12val fp x = f12val fp y)"
    "is_fp12 p valid fp (conj12 (f12val fp x)) (FP12_conj api x)"
    "unitary p (f12val fp x) \<Longrightarrow> is_fp12 p valid fp (r_mul Z12 (f12val fp x) (f12val fp x)) (FP12_usqr api x)"
    "is_fp12 p valid fp (r_mul Z12 (f12val fp x) (f12val fp x)) (FP12_sqr api x)"
    "is_fp12 p valid fp (r_mul Z12 (f12val fp x) (f12val fp y)) (FP12_mul api x y)"
  using ok [unfolded fp12_ok_def fp12_base_ok_def, THEN conjunct1, THEN conjunct2, THEN conjunct2, THEN conjunct2, rule_format, OF v]
  by simp_all

lemma fp12_moreD:
  assumes ok: "fp12_ok p valid fp api" and v: "valid12 valid x"
  shows "red12 p (r_mul Z12 c (f12val fp x)) = red12 p (r_one Z12) \<Longrightarrow>
       valid12 valid (FP12_inv api x) \<and> red12 p (r_mul Z12 (f12val fp (FP12_inv api x)) (f12val fp x)) = red12 p (r_one Z12)"
    "nbig BASEBITS_384_58 NLEN_384_58 z \<Longrightarrow> is_fp12 p valid fp (r_pow Z12 (f12val fp x) (nat (big_val BASEBITS_384_58 z))) (FP12_pow api x z)"
    "0 \<le> i \<Longrightarrow> i < 2 ^ nat b \<Longrightarrow> is_fp12 p valid fp (r_pow Z12 (f12val fp x) (nat i)) (FP12_pinpow api x i b)"
    "is_fp12 p valid fp (f12val fp x) (FP12_fromOctet api (FP12_toOctet api x))"
    "is_fp4 p valid fp (r_mul Z4 (of_int4 3) (fst (f12val fp x))) (FP12_trace api x)"
  using ok [unfolded fp12_ok_def, THEN conjunct2, THEN conjunct1, rule_format, OF v v] by blast+

lemma fp12_build:
  assumes ok: "fp12_ok p valid fp api" and a: "is_fp12 p valid fp a x"
  shows "is_fp12 p valid fp b y \<Longrightarrow> is_fp12 p valid fp (r_mul Z12 a b) (FP12_mul api x y)"
    "is_fp12 p valid fp (r_mul Z12 a a) (FP12_sqr api x)" "is_fp12 p valid fp (conj12 a) (FP12_conj api x)"
    "unitary p a \<Longrightarrow> is_fp12 p valid fp (r_mul Z12 a a) (FP12_usqr api x)"
    "nbig BASEBITS_384_58 NLEN_384_58 z \<Longrightarrow> is_fp12 p valid fp (r_pow Z12 a (nat (big_val BASEBITS_384_58 z))) (FP12_pow api x z)"
    "0 \<le> i \<Longrightarrow> i < 2 ^ nat k \<Longrightarrow> is_fp12 p valid fp (r_pow Z12 a (nat i)) (FP12_pinpow api x i k)"
    "is_fp12 p valid fp a (FP12_fromOctet api (FP12_toOctet api x))"
    "FP12_isunity api x = bool_int (red12 p a = red12 p (r_one Z12))"
    "is_fp12 p valid fp b y \<Longrightarrow> FP12_equals api x y = bool_int (red12 p a = red12 p b)"
proof -
  note va = a [THEN is_fp12D(1)] and ea = a [THEN is_fp12D(2)]
  note r = z12.red_simps z12.red_pow red12_conj
  note B = fp12_baseD [OF ok va va, unfolded ea unitary_red] and M = fp12_moreD [OF ok va, unfolded ea]
  show "is_fp12 p valid fp (r_mul Z12 a a) (FP12_sqr api x)" "is_fp12 p valid fp (conj12 a) (FP12_conj api x)"
    "unitary p a \<Longrightarrow> is_fp12 p valid fp (r_mul Z12 a a) (FP12_usqr api x)"
    "nbig BASEBITS_384_58 NLEN_384_58 z \<Longrightarrow> is_fp12 p valid fp (r_pow Z12 a (nat (big_val BASEBITS_384_58 z))) (FP12_pow api x z)"
    "0 \<le> i \<Longrightarrow> i < 2 ^ nat k \<Longrightarrow> is_fp12 p valid fp (r_pow Z12 a (nat i)) (FP12_pinpow api x i k)"
    "is_fp12 p valid fp a (FP12_fromOctet api (FP12_toOctet api x))"
    using B(3-5) M(2-4) unfolding is_fp12_def r by simp_all
  show "FP12_isunity api x = bool_int (red12 p a = red12 p (r_one Z12))" by (rule B(1))
  assume b: "is_fp12 p valid fp b y"
  note B = fp12_baseD [OF ok va b [THEN is_fp12D(1)], unfolded ea b [THEN is_fp12D(2)]]
  show "is_fp12 p valid fp (r_mul Z12 a b) (FP12_mul api x y)" using B(6) unfolding is_fp12_def r by simp
  show "FP12_equals api x y = bool_int (red12 p a = red12 p b)" by (rule B(2))
qed

lemma fp12_unitary_inverse:
  assumes fp: "fp_ok p valid fp" and ok: "fp12_ok p valid fp api" and v: "valid12 valid x"
    and u: "red12 p (r_mul Z12 (f12val fp x) (conj12 (f12val fp x))) = red12 p (r_one Z12)"
  shows "FP12_equals api (FP12_inv api x) (FP12_conj api x) = 1"
proof -
  note I = is_fp12I [OF v fp] and B = fp12_build [OF ok]
  let ?v = "f12val fp x" and ?w = "f12val fp (FP12_inv api x)" and ?c = "conj12 (f12val fp x)"
  have iv: "valid12 valid (FP12_inv api x)" "red12 p (r_mul Z12 ?w ?v) = red12 p (r_one Z12)"
    using fp12_moreD(1) [OF ok v, of ?c] u by (simp_all add: z12.mul_comm)
  have "red12 p ?w = red12 p (r_mul Z12 ?w (red12 p (r_mul Z12 ?v ?c)))" unfolding u by (simp add: z12.red_simps z12.mul_one2)
  also have "\<dots> = red12 p (r_mul Z12 (red12 p (r_mul Z12 ?w ?v)) ?c)" by (simp add: z12.red_simps z12.mul_assoc)
  also have "\<dots> = red12 p ?c" unfolding iv(2) by (simp add: z12.red_simps z12.mul_one)
  finally show ?thesis using B(9) [OF is_fp12I [OF iv(1) fp] B(3) [OF I]] by (simp add: bool_int_def)
qed

lemma fp12_pow4_is:
  assumes ok: "fp12_ok p valid fp api" and v: "valid12 valid x" "valid12 valid y" "valid12 valid z"
    and n: "nbig BASEBITS_384_58 NLEN_384_58 a" "nbig BASEBITS_384_58 NLEN_384_58 b" "nbig BASEBITS_384_58 NLEN_384_58 c"
      "nbig BASEBITS_384_58 NLEN_384_58 d"
  shows "is_fp12 p valid fp (r_mul Z12 (r_pow Z12 (f12val fp x) (nat (big_val BASEBITS_384_58 a)))
    (r_mul Z12 (r_pow Z12 (f12val fp y) (nat (big_val BASEBITS_384_58 b)))
      (r_mul Z12 (r_pow Z12 (f12val fp z) (nat (big_val BASEBITS_384_58 c)))
        (r_pow Z12 (f12val fp x) (nat (big_val BASEBITS_384_58 d)))))) (FP12_pow4 api [x, y, z, x] [a, b, c, d])"
  using ok [unfolded fp12_ok_def, THEN conjunct2, THEN conjunct2, rule_format, of "[x, y, z, x]" "[a, b, c, d]"] v n
  by (simp add: pow4_val_def z12.mul_one2)


section \<open>A library over three elements\<close>

definition mk12 :: "f12 \<Rightarrow> FP12_BLS381" where
  "mk12 v = \<lparr>fp12_a = mk4 (fst v), fp12_b = mk4 (fst (snd v)), fp12_c = mk4 (snd (snd v)), fp12_type = AMCL_FP_DENSE\<rparr>"

abbreviation ev12 :: "FP12_BLS381 \<Rightarrow> f12" where "ev12 \<equiv> f12val (ref_fp 3)"

definition find12 :: "(f12 \<Rightarrow> bool) \<Rightarrow> f12" where
  "find12 P = (case find P (List.product all4 (List.product all4 all4)) of None \<Rightarrow> r_zero Z12 | Some v \<Rightarrow> v)"

definition bytes4 :: "f4 \<Rightarrow> byte list" where
  "bytes4 = (\<lambda>((a, b), (c, d)). map of_int [a, b, c, d])"

definition unbytes4 :: "byte list \<Rightarrow> f4" where
  "unbytes4 l = ((uint (l ! 0), uint (l ! 1)), (uint (l ! 2), uint (l ! 3)))"

definition ref_fp12_base :: fp12_base_api where
  "ref_fp12_base = \<lparr>
     FP12_iszilch = \<lambda>x. bool_int (ev12 x = red12 3 (r_zero Z12)),
     FP12_isunity = \<lambda>x. bool_int (ev12 x = red12 3 (r_one Z12)),
     FP12_copy = \<lambda>x. mk12 (ev12 x), FP12_one = mk12 (r_one Z12), FP12_zero = mk12 (r_zero Z12),
     FP12_equals = \<lambda>x y. bool_int (ev12 x = ev12 y),
     FP12_conj = \<lambda>x. mk12 (conj12 (ev12 x)),
     FP12_from_FP4 = \<lambda>a. mk12 (ev4 a, r_zero Z4, r_zero Z4),
     FP12_from_FP4s = \<lambda>a b c. mk12 (ev4 a, ev4 b, ev4 c),
     FP12_usqr = \<lambda>x. mk12 (r_mul Z12 (ev12 x) (ev12 x)), FP12_sqr = \<lambda>x. mk12 (r_mul Z12 (ev12 x) (ev12 x)),
     FP12_smul = \<lambda>x y. mk12 (r_mul Z12 (ev12 x) (ev12 y)), FP12_ssmul = \<lambda>x y. mk12 (r_mul Z12 (ev12 x) (ev12 y)),
     FP12_mul = \<lambda>x y. mk12 (r_mul Z12 (ev12 x) (ev12 y)) \<rparr>"

definition ref_fp12 :: fp12_api where
  "ref_fp12 = fp12_base_api.extend ref_fp12_base \<lparr>
     FP12_inv = \<lambda>x. mk12 (find12 (\<lambda>v. red12 3 (r_mul Z12 v (ev12 x)) = red12 3 (r_one Z12))),
     FP12_pow = \<lambda>x z. mk12 (r_pow Z12 (ev12 x) (nat (big_val BASEBITS_384_58 z))),
     FP12_pinpow = \<lambda>x i b. mk12 (r_pow Z12 (ev12 x) (nat i)),
     FP12_compow = \<lambda>x e r. mk4 (fst (ev12 x)),
     FP12_pow4 = \<lambda>xs bs. mk12 (pow4_val (map ev12 xs) (map (\<lambda>b. nat (big_val BASEBITS_384_58 b)) bs)),
     FP12_frob = \<lambda>x f. mk12 (r_pow Z12 (ev12 x) 3),
     FP12_reduce = \<lambda>x. mk12 (ev12 x), FP12_norm = \<lambda>x. mk12 (ev12 x), FP12_output = \<lambda>x. [],
     FP12_toOctet = \<lambda>x. (case ev12 x of (a, b, c) \<Rightarrow> bytes4 a @ bytes4 b @ bytes4 c),
     FP12_fromOctet = \<lambda>l. mk12 (unbytes4 (take 4 l), unbytes4 (take 4 (drop 4 l)), unbytes4 (drop 8 l)),
     FP12_trace = \<lambda>x. mk4 (r_mul Z4 (of_int4 3) (fst (ev12 x))),
     FP12_cmove = \<lambda>x y s. if s = 0 then x else y \<rparr>"

lemmas ref_fp12_fields = ref_fp12_def ref_fp12_base_def fp12_base_api.defs fp12_api.defs

lemma mk12_ok: "valid12 valid3 (mk12 v)" "ev12 (mk12 v) = red12 3 v"
  by (cases v; simp add: mk12_def valid12_def valid_mk f12val_def ev_mk red12_def)+

lemma is_mk12: "is_fp12 3 valid3 (ref_fp 3) w (mk12 v) \<longleftrightarrow> red12 3 v = red12 3 w"
  by (auto simp: is_fp12_def mk12_ok)

lemma find12: "P (red12 3 v) \<Longrightarrow> P (find12 P)"
proof -
  assume P: "P (red12 3 v)"
  have "red12 3 v \<in> set (List.product all4 (List.product all4 all4))" by (cases v) (simp add: red12_def red_in_all)
  then have "find P (List.product all4 (List.product all4 all4)) \<noteq> None" using P unfolding find_None_iff by blast
  then obtain w where f: "find P (List.product all4 (List.product all4 all4)) = Some w" by blast
  then have "P w" unfolding find_Some_iff by blast
  then show ?thesis using f by (simp add: find12_def)
qed

lemma unbytes4: "unbytes4 (bytes4 (red4 3 v)) = red4 3 v"
proof -
  have u: "uint (word_of_int (a mod 3) :: byte) = a mod 3" for a
  proof -
    have "a mod 3 \<in> {0, 1, 2}" by auto
    then show ?thesis by auto
  qed
  show ?thesis by (cases v) (auto simp: unbytes4_def bytes4_def red4_def red2_def red1_def u)
qed

lemma ref_fp12_ok: "fp12_ok 3 valid3 (ref_fp 3) ref_fp12"
proof -
  have base: "fp12_base_ok 3 valid3 (ref_fp 3) ref_fp12"
    unfolding fp12_base_ok_def by (simp add: ref_fp12_fields is_mk12)
  have inv: "red12 3 (r_mul Z12 (find12 (\<lambda>v. red12 3 (r_mul Z12 v (ev12 x)) = red12 3 (r_one Z12))) (ev12 x)) = red12 3 (r_one Z12)"
    if "\<exists>v. red12 3 (r_mul Z12 v (ev12 x)) = red12 3 (r_one Z12)" for x
    using that find12 [of "\<lambda>v. red12 3 (r_mul Z12 v (ev12 x)) = red12 3 (r_one Z12)"] by (auto simp: z12.red_simps)
  have oct: "is_fp12 3 valid3 (ref_fp 3) (ev12 x) (FP12_fromOctet ref_fp12 (FP12_toOctet ref_fp12 x))" if "valid12 valid3 x" for x
  proof -
    obtain a b c where e: "ev12 x = (a, b, c)" by (metis prod.exhaust)
    then have r: "red4 3 a = a" "red4 3 b = b" "red4 3 c = c"
      using f12val_red [OF ref_fp_ok that] by (simp_all add: red12_def)
    have l: "length (bytes4 a) = 4" for a by (simp add: bytes4_def split: prod.split)
    show ?thesis
      using unbytes4 [of a] unbytes4 [of b] unbytes4 [of c] by (simp add: ref_fp12_fields e r l is_mk12)
  qed
  show ?thesis
    unfolding fp12_ok_def
  proof (intro conjI base allI impI)
    fix x assume v: "valid12 valid3 x"
    show "is_fp12 3 valid3 (ref_fp 3) (ev12 x) (FP12_fromOctet ref_fp12 (FP12_toOctet ref_fp12 x))" by (rule oct [OF v])
  qed (simp_all add: ref_fp12_fields is_mk12 is_mk4 mk12_ok inv z12.red_simps)
qed


end
