(* ===== verification/Curve.thy ===== *)
theory Curve
  imports Tower12 Api256
begin

text \<open>
  Elliptic curves over the values of the fields: \<open>y^2 = x^3 + a x + b\<close> with the point at infinity, the
  chord-and-tangent operations of affine points, and multiplication by a number. The headers \<open>ecp_BLS381.h\<close>,
  \<open>ecp_SECP256K1.h\<close> and \<open>ecp2_BLS381.h\<close> are specified on these points. That the points of a curve form an
  abelian group is a hypothesis on the curve, which the ROM of the library holds.
\<close>

section \<open>Points\<close>

text \<open>The arithmetic of the coordinates, with inverses, and the two coefficients.\<close>

record 'v curve =
  c_ring :: "'v ring_ops"
  c_red :: "'v \<Rightarrow> 'v"
  c_inv :: "'v \<Rightarrow> 'v"
  c_a :: 'v
  c_b :: 'v

type_synonym 'v point = "('v \<times> 'v) option"

definition ec_rhs :: "'v curve \<Rightarrow> 'v \<Rightarrow> 'v" where
  "ec_rhs C x = (let R = c_ring C in
     c_red C (r_add R (r_mul R x (r_mul R x x)) (r_add R (r_mul R (c_a C) x) (c_b C))))"

fun on_curve :: "'v curve \<Rightarrow> 'v point \<Rightarrow> bool" where
  "on_curve C None \<longleftrightarrow> True"
| "on_curve C (Some (x, y)) \<longleftrightarrow> c_red C x = x \<and> c_red C y = y \<and> c_red C (r_mul (c_ring C) y y) = ec_rhs C x"

fun ec_neg :: "'v curve \<Rightarrow> 'v point \<Rightarrow> 'v point" where
  "ec_neg C None = None"
| "ec_neg C (Some (x, y)) = Some (x, c_red C (r_neg (c_ring C) y))"

text \<open>The third point of the line of slope \<open>l\<close> through a point, reflected.\<close>

definition ec_third :: "'v curve \<Rightarrow> 'v \<Rightarrow> 'v \<times> 'v \<Rightarrow> 'v \<Rightarrow> 'v point" where
  "ec_third C l P x' = (let R = c_ring C; (x, y) = P; x'' = c_red C (r_sub R (r_sub R (r_mul R l l) x) x') in
     Some (x'', c_red C (r_sub R (r_mul R l (r_sub R x x'')) y)))"

fun ec_add :: "'v curve \<Rightarrow> 'v point \<Rightarrow> 'v point \<Rightarrow> 'v point" where
  "ec_add C None Q = Q"
| "ec_add C P None = P"
| "ec_add C (Some (x, y)) (Some (x', y')) = (let R = c_ring C; red = c_red C in
     if x \<noteq> x' then ec_third C (red (r_mul R (r_sub R y' y) (c_inv C (red (r_sub R x' x))))) (x, y) x'
     else if red (r_add R y y') = red (r_zero R) then None
     else ec_third C (red (r_mul R (r_add R (r_mul R x x) (r_add R (r_add R (r_mul R x x) (r_mul R x x)) (c_a C)))
            (c_inv C (red (r_add R y y))))) (x, y) x)"

primrec ec_mul :: "'v curve \<Rightarrow> nat \<Rightarrow> 'v point \<Rightarrow> 'v point" where
  "ec_mul C 0 P = None"
| "ec_mul C (Suc n) P = ec_add C P (ec_mul C n P)"

definition ec_sum :: "'v curve \<Rightarrow> 'v point list \<Rightarrow> 'v point" where
  "ec_sum C Ps = foldr (ec_add C) Ps None"

definition ec_group :: "'v curve \<Rightarrow> bool" where
  "ec_group C \<longleftrightarrow> (\<forall>P Q S. on_curve C P \<longrightarrow> on_curve C Q \<longrightarrow> on_curve C S \<longrightarrow>
     on_curve C (ec_add C P Q) \<and> on_curve C (ec_neg C P) \<and> ec_add C P (ec_neg C P) = None \<and>
     ec_add C P Q = ec_add C Q P \<and> ec_add C (ec_add C P Q) S = ec_add C P (ec_add C Q S))"

lemma ec_groupD:
  assumes "ec_group C" "on_curve C P" "on_curve C Q"
  shows "on_curve C (ec_add C P Q)" "on_curve C (ec_neg C P)" "ec_add C P (ec_neg C P) = None" "ec_add C P Q = ec_add C Q P"
    "on_curve C S \<Longrightarrow> ec_add C (ec_add C P Q) S = ec_add C P (ec_add C Q S)"
  using assms unfolding ec_group_def by blast+

lemma ec_add_None [simp]: "ec_add C P None = P"
  by (cases P) auto

section \<open>The group\<close>

lemma ec_mul_closed: "ec_group C \<Longrightarrow> on_curve C P \<Longrightarrow> on_curve C (ec_mul C n P)"
  by (induction n) (auto intro: ec_groupD(1))

lemma ec_sum_closed: "ec_group C \<Longrightarrow> list_all (on_curve C) Ps \<Longrightarrow> on_curve C (ec_sum C Ps)"
  by (induction Ps) (auto simp: ec_sum_def intro: ec_groupD(1))

lemma ec_left_commute:
  assumes "ec_group C" "on_curve C P" "on_curve C Q" "on_curve C S"
  shows "ec_add C P (ec_add C Q S) = ec_add C Q (ec_add C P S)"
  using assms by (metis ec_groupD(4,5))

lemma ec_mul_add:
  assumes g: "ec_group C" and P: "on_curve C P"
  shows "ec_mul C (m + n) P = ec_add C (ec_mul C m P) (ec_mul C n P)"
  by (induction m) (simp_all add: ec_groupD(5) [OF g P] ec_mul_closed [OF g P])

lemma ec_mul_None [simp]: "ec_mul C n None = None"
  by (induction n) auto

lemma ec_mul_sum:
  assumes g: "ec_group C" and P: "on_curve C P" and Q: "on_curve C Q"
  shows "ec_mul C n (ec_add C P Q) = ec_add C (ec_mul C n P) (ec_mul C n Q)"
proof (induction n)
  case (Suc n)
  note c = ec_mul_closed [OF g P] ec_mul_closed [OF g Q] and cl = ec_groupD(1) [OF g]
  have "ec_add C (ec_add C P Q) (ec_add C (ec_mul C n P) (ec_mul C n Q)) =
      ec_add C P (ec_add C Q (ec_add C (ec_mul C n P) (ec_mul C n Q)))" by (rule ec_groupD(5) [OF g P Q cl [OF c]])
  also have "\<dots> = ec_add C P (ec_add C (ec_mul C n P) (ec_add C Q (ec_mul C n Q)))"
    by (simp only: ec_left_commute [OF g Q c])
  also have "\<dots> = ec_add C (ec_add C P (ec_mul C n P)) (ec_add C Q (ec_mul C n Q))"
    by (rule ec_groupD(5) [OF g P c(1) cl [OF Q c(2)], symmetric])
  finally show ?case by (simp add: Suc)
qed simp

lemma ec_mul_mul:
  assumes g: "ec_group C" and P: "on_curve C P"
  shows "ec_mul C (m * n) P = ec_mul C m (ec_mul C n P)"
  by (induction m) (simp_all add: ec_mul_add [OF g P])

lemma ec_mul_commute:
  assumes "ec_group C" "on_curve C P"
  shows "ec_mul C m (ec_mul C n P) = ec_mul C n (ec_mul C m P)"
  using ec_mul_mul [OF assms, of m n] ec_mul_mul [OF assms, of n m] by (simp add: mult.commute)

lemma ec_cancel:
  assumes g: "ec_group C" and P: "on_curve C P" and Q: "on_curve C Q"
  shows "ec_add C (ec_add C P Q) (ec_neg C Q) = P" "ec_add C P Q = None \<Longrightarrow> Q = ec_neg C P"
proof -
  show "ec_add C (ec_add C P Q) (ec_neg C Q) = P"
    using ec_groupD(5) [OF g P Q ec_groupD(2) [OF g Q P]] ec_groupD(3) [OF g Q P] by simp
  assume z: "ec_add C P Q = None"
  note n = ec_groupD(2) [OF g P P]
  have "Q = ec_add C (ec_add C Q P) (ec_neg C P)"
    using ec_groupD(5) [OF g Q P n] ec_groupD(3) [OF g P P] by simp
  then show "Q = ec_neg C P" using z ec_groupD(4) [OF g Q P] by simp
qed

lemma ec_neg_neg: "ec_group C \<Longrightarrow> on_curve C P \<Longrightarrow> ec_neg C (ec_neg C P) = P"
  using ec_groupD(2-4) [of C P] ec_cancel(2) [of C "ec_neg C P" P] by metis

lemma ec_mul_neg:
  assumes g: "ec_group C" and P: "on_curve C P"
  shows "ec_mul C n (ec_neg C P) = ec_neg C (ec_mul C n P)"
proof -
  note n = ec_groupD(2) [OF g P P]
  have "ec_add C (ec_mul C n P) (ec_mul C n (ec_neg C P)) = None"
    using ec_mul_sum [OF g P n, of n] ec_groupD(3) [OF g P P] by simp
  then show ?thesis by (rule ec_cancel(2) [OF g ec_mul_closed [OF g P] ec_mul_closed [OF g n]])
qed

lemma ec_mul_mod:
  assumes g: "ec_group C" and P: "on_curve C P" and r: "ec_mul C r P = None"
  shows "ec_mul C (n mod r) P = ec_mul C n P"
proof -
  have "ec_mul C n P = ec_mul C (r * (n div r) + n mod r) P" by simp
  also have "\<dots> = ec_mul C (n mod r) P"
    unfolding ec_mul_add [OF g P] mult.commute [of r] ec_mul_mul [OF g P] r by simp
  finally show ?thesis by simp
qed

text \<open>A curve is a group when its points are numbered by the elements of one.\<close>

lemma ec_group_numbered:
  assumes all: "\<And>P. on_curve C P \<Longrightarrow> \<exists>a \<in> G. P = pt a" and on: "\<And>a. a \<in> G \<Longrightarrow> on_curve C (pt a)"
    and op: "\<And>a b. a \<in> G \<Longrightarrow> b \<in> G \<Longrightarrow> f a b \<in> G \<and> f a b = f b a \<and> ec_add C (pt a) (pt b) = pt (f a b)"
    and assoc: "\<And>a b c. a \<in> G \<Longrightarrow> b \<in> G \<Longrightarrow> c \<in> G \<Longrightarrow> f (f a b) c = f a (f b c)"
    and neg: "\<And>a. a \<in> G \<Longrightarrow> \<exists>b \<in> G. ec_neg C (pt a) = pt b \<and> pt (f a b) = None"
  shows "ec_group C"
  unfolding ec_group_def
proof (intro allI impI)
  fix P Q S assume "on_curve C P" "on_curve C Q" "on_curve C S"
  then obtain a b c where G: "a \<in> G" "b \<in> G" "c \<in> G" and e: "P = pt a" "Q = pt b" "S = pt c" by (meson all)
  note o = op [OF G(1,2)] op [OF G(2,3)] and n = neg [OF G(1)]
  show "on_curve C (ec_add C P Q) \<and> on_curve C (ec_neg C P) \<and> ec_add C P (ec_neg C P) = None \<and>
      ec_add C P Q = ec_add C Q P \<and> ec_add C (ec_add C P Q) S = ec_add C P (ec_add C Q S)"
    using o n op [OF G(2,1)] op [OF _ G(3), of "f a b"] op [OF G(1), of "f b c"] assoc [OF G] on G unfolding e by (metis op)
qed

section \<open>The curves of the library\<close>

text \<open>Inverses by Fermat; those of \<open>FP2\<close> over the norm.\<close>

definition inv1 :: "int \<Rightarrow> int \<Rightarrow> int" where
  "inv1 p v = v ^ nat (p - 2) mod p"

definition inv2 :: "int \<Rightarrow> f2 \<Rightarrow> f2" where
  "inv2 p = (\<lambda>(u, v). let n = inv1 p (u * u + v * v) in (u * n mod p, (- v) * n mod p))"

definition g1_curve :: "int \<Rightarrow> int \<Rightarrow> int \<Rightarrow> int curve" where
  "g1_curve p a b = \<lparr>c_ring = Z1, c_red = red1 p, c_inv = inv1 p, c_a = a, c_b = b\<rparr>"

definition g2_curve :: "int \<Rightarrow> int \<Rightarrow> f2 \<Rightarrow> f2 curve" where
  "g2_curve p a b = \<lparr>c_ring = Z2, c_red = red2 p, c_inv = inv2 p, c_a = (a, 0), c_b = b\<rparr>"

end
