(* ===== verification/Ecp.thy ===== *)
theory Ecp
  imports Curve
begin

text \<open>
  \<open>crypto/include/ecp_BLS381.h\<close> and \<open>ecp_SECP256K1.h\<close>: points over the base field. Both headers select the
  Weierstrass form (\<open>CURVETYPE\<close> in the configuration headers), so the declarations for Montgomery curves are
  not compiled. The constants of \<open>rom_zzz.c\<close> are a record, the declared functions are the fields of records,
  and the documented behaviour is a contract on the points of \<open>Curve\<close>. The value of a representation is
  what \<open>get\<close> makes of it.
\<close>

section \<open>ecp_BLS381.h\<close>

(* crypto/include/ecp_BLS381.h:33-98 CURVE_A_BLS381 ... CURVE_BB_BLS381 *)
record ecp_rom =
  CURVE_A :: int
  CURVE_Cof_I :: int
  CURVE_B_I :: int
  CURVE_B :: BIG
  CURVE_Order :: BIG
  CURVE_Cof :: BIG
  CURVE_Gx :: BIG
  CURVE_Gy :: BIG
  CURVE_Pxa :: BIG
  CURVE_Pxb :: BIG
  CURVE_Pya :: BIG
  CURVE_Pyb :: BIG
  CURVE_Pxaa :: BIG
  CURVE_Pxab :: BIG
  CURVE_Pxba :: BIG
  CURVE_Pxbb :: BIG
  CURVE_Pyaa :: BIG
  CURVE_Pyab :: BIG
  CURVE_Pyba :: BIG
  CURVE_Pybb :: BIG
  CURVE_Pxaaa :: BIG
  CURVE_Pxaab :: BIG
  CURVE_Pxaba :: BIG
  CURVE_Pxabb :: BIG
  CURVE_Pxbaa :: BIG
  CURVE_Pxbab :: BIG
  CURVE_Pxbba :: BIG
  CURVE_Pxbbb :: BIG
  CURVE_Pyaaa :: BIG
  CURVE_Pyaab :: BIG
  CURVE_Pyaba :: BIG
  CURVE_Pyabb :: BIG
  CURVE_Pybaa :: BIG
  CURVE_Pybab :: BIG
  CURVE_Pybba :: BIG
  CURVE_Pybbb :: BIG
  CURVE_Bnx :: BIG
  CURVE_Cru :: BIG
  Fra :: BIG
  Frb :: BIG
  CURVE_W :: "BIG list"
  CURVE_SB :: "BIG list list"
  CURVE_WB :: "BIG list"
  CURVE_BB :: "BIG list list"

(* crypto/include/ecp_BLS381.h:101-114 ECP_BLS381 *)
record ECP_BLS381 =
  ecp_x :: FP_BLS381
  ecp_y :: FP_BLS381
  ecp_z :: FP_BLS381

(* crypto/include/ecp_BLS381.h:117-150 ECP_BLS381_isinf ... ECP_BLS381_rhs *)
record ecp_base_api =
  ECP_isinf :: "ECP_BLS381 \<Rightarrow> int"
  ECP_equals :: "ECP_BLS381 \<Rightarrow> ECP_BLS381 \<Rightarrow> int"
  ECP_copy :: "ECP_BLS381 \<Rightarrow> ECP_BLS381"
  ECP_neg :: "ECP_BLS381 \<Rightarrow> ECP_BLS381"
  ECP_inf :: ECP_BLS381
  ECP_rhs :: "FP_BLS381 \<Rightarrow> FP_BLS381"

(* crypto/include/ecp_BLS381.h:177-217 ECP_BLS381_set ... ECP_BLS381_setx *)
record ecp_point_api = ecp_base_api +
  ECP_set :: "BIG \<Rightarrow> BIG \<Rightarrow> int \<times> ECP_BLS381"
  ECP_get :: "ECP_BLS381 \<Rightarrow> int \<times> BIG \<times> BIG"
  ECP_add :: "ECP_BLS381 \<Rightarrow> ECP_BLS381 \<Rightarrow> ECP_BLS381"
  ECP_sub :: "ECP_BLS381 \<Rightarrow> ECP_BLS381 \<Rightarrow> ECP_BLS381"
  ECP_setx :: "BIG \<Rightarrow> int \<Rightarrow> int \<times> ECP_BLS381"

(* crypto/include/ecp_BLS381.h:221-311 ECP_BLS381_cfp ... ECP_BLS381_generator *)
record ecp_api = ecp_point_api +
  ECP_cfp :: "ECP_BLS381 \<Rightarrow> ECP_BLS381"
  ECP_mapit :: "byte list \<Rightarrow> ECP_BLS381"
  ECP_affine :: "ECP_BLS381 \<Rightarrow> ECP_BLS381"
  ECP_outputxyz :: "ECP_BLS381 \<Rightarrow> string"
  ECP_output :: "ECP_BLS381 \<Rightarrow> string"
  ECP_rawoutput :: "ECP_BLS381 \<Rightarrow> string"
  ECP_toOctet :: "ECP_BLS381 \<Rightarrow> bool \<Rightarrow> byte list"
  ECP_fromOctet :: "byte list \<Rightarrow> int \<times> ECP_BLS381"
  ECP_dbl :: "ECP_BLS381 \<Rightarrow> ECP_BLS381"
  ECP_pinmul :: "ECP_BLS381 \<Rightarrow> int \<Rightarrow> int \<Rightarrow> ECP_BLS381"
  ECP_mul :: "ECP_BLS381 \<Rightarrow> BIG \<Rightarrow> ECP_BLS381"
  ECP_mul2 :: "ECP_BLS381 \<Rightarrow> ECP_BLS381 \<Rightarrow> BIG \<Rightarrow> BIG \<Rightarrow> ECP_BLS381"
  ECP_generator :: ECP_BLS381

section \<open>Contracts\<close>

fun fp_bytes :: "fp_suffix \<Rightarrow> nat" where
  "fp_bytes BLS381 = MODBYTES_384_58"
| "fp_bytes SECP256K1 = MODBYTES_256_56"

abbreviation bigv :: "fp_suffix \<Rightarrow> BIG \<Rightarrow> int" where
  "bigv f \<equiv> big_val (fp_bits f)"

abbreviation nbigf :: "fp_suffix \<Rightarrow> BIG \<Rightarrow> bool" where
  "nbigf f \<equiv> nbig (fp_bits f) (fp_len f)"

definition rom_curve :: "fp_suffix \<Rightarrow> int \<Rightarrow> ecp_rom \<Rightarrow> int curve" where
  "rom_curve f p rom = g1_curve p (CURVE_A rom) (bigv f (CURVE_B rom))"

definition order :: "fp_suffix \<Rightarrow> ecp_rom \<Rightarrow> nat" where
  "order f rom = nat (bigv f (CURVE_Order rom))"

definition pval :: "fp_suffix \<Rightarrow> ('a ecp_point_api_scheme) \<Rightarrow> ECP_BLS381 \<Rightarrow> int point" where
  "pval f api P = (if ECP_isinf api P = 1 then None else case ECP_get api P of (s, x, y) \<Rightarrow> Some (bigv f x, bigv f y))"

definition is_ecp :: "fp_suffix \<Rightarrow> (ECP_BLS381 \<Rightarrow> bool) \<Rightarrow> ('a ecp_point_api_scheme) \<Rightarrow> int point \<Rightarrow> ECP_BLS381 \<Rightarrow> bool" where
  "is_ecp f vp api v P \<longleftrightarrow> vp P \<and> pval f api P = v"

text \<open>The octet string of an affine point: \<open>0x04|x|y\<close>, or \<open>0x02|x\<close>, \<open>0x03|x\<close> by the parity of \<open>y\<close>.\<close>

definition point_octet :: "nat \<Rightarrow> bool \<Rightarrow> int \<times> int \<Rightarrow> byte list" where
  "point_octet m c = (\<lambda>(x, y). if c then (if even y then 2 else 3) # to_be m x else 4 # to_be m x @ to_be m y)"

definition ecp_base_ok :: "fp_suffix \<Rightarrow> int \<Rightarrow> ecp_rom \<Rightarrow> (FP_BLS381 \<Rightarrow> bool) \<Rightarrow> fp_api \<Rightarrow> (ECP_BLS381 \<Rightarrow> bool) \<Rightarrow> ('a ecp_point_api_scheme) \<Rightarrow> bool" where
  "ecp_base_ok f p rom vf fp vp api \<longleftrightarrow> (let C = rom_curve f p rom; v = pval f api; is = is_ecp f vp api in
     is None (ECP_inf api) \<and>
     (\<forall>P Q. vp P \<longrightarrow> vp Q \<longrightarrow>
        on_curve C (v P) \<and> ECP_isinf api P = bool_int (v P = None) \<and> ECP_equals api P Q = bool_int (v P = v Q) \<and>
        is (v P) (ECP_copy api P) \<and> is (ec_neg C (v P)) (ECP_neg api P)) \<and>
     (\<forall>x. vf x \<longrightarrow> vf (ECP_rhs api x) \<and> fval_in f fp (ECP_rhs api x) = ec_rhs C (fval_in f fp x)))"

definition ecp_point_ok :: "fp_suffix \<Rightarrow> int \<Rightarrow> ecp_rom \<Rightarrow> (ECP_BLS381 \<Rightarrow> bool) \<Rightarrow> ('a ecp_point_api_scheme) \<Rightarrow> bool" where
  "ecp_point_ok f p rom vp api \<longleftrightarrow> (let C = rom_curve f p rom; v = pval f api; is = is_ecp f vp api in
     (\<forall>P Q. vp P \<longrightarrow> vp Q \<longrightarrow>
        is (ec_add C (v P) (v Q)) (ECP_add api P Q) \<and> is (ec_add C (v P) (ec_neg C (v Q))) (ECP_sub api P Q)) \<and>
     (\<forall>P s x y. vp P \<longrightarrow> ECP_get api P = (s, x, y) \<longrightarrow>
        (if v P = None then s = -1 else s = bigv f y mod 2 \<and> nbigf f x \<and> nbigf f y)) \<and>
     (\<forall>x y. nbigf f x \<longrightarrow> nbigf f y \<longrightarrow> bigv f x < p \<longrightarrow> bigv f y < p \<longrightarrow>
        (let P = Some (bigv f x, bigv f y) in
          fst (ECP_set api x y) = bool_int (on_curve C P) \<and> is (if on_curve C P then P else None) (snd (ECP_set api x y)))) \<and>
     (\<forall>x s. nbigf f x \<longrightarrow> bigv f x < p \<longrightarrow> s \<in> {0, 1} \<longrightarrow>
        (if \<exists>y. on_curve C (Some (bigv f x, y))
         then fst (ECP_setx api x s) = 1 \<and> vp (snd (ECP_setx api x s)) \<and>
           (\<forall>y. on_curve C (Some (bigv f x, y)) \<longrightarrow> y mod 2 = s \<longrightarrow> v (snd (ECP_setx api x s)) = Some (bigv f x, y))
         else fst (ECP_setx api x s) = 0 \<and> is None (snd (ECP_setx api x s)))))"

definition ecp_ok :: "fp_suffix \<Rightarrow> int \<Rightarrow> ecp_rom \<Rightarrow> (FP_BLS381 \<Rightarrow> bool) \<Rightarrow> fp_api \<Rightarrow> (ECP_BLS381 \<Rightarrow> bool) \<Rightarrow> ecp_api \<Rightarrow> bool" where
  "ecp_ok f p rom vf fp vp api \<longleftrightarrow> ecp_base_ok f p rom vf fp vp api \<and> ecp_point_ok f p rom vp api \<and>
     (let C = rom_curve f p rom; v = pval f api; is = is_ecp f vp api; m = fp_bytes f in
     is (Some (bigv f (CURVE_Gx rom), bigv f (CURVE_Gy rom))) (ECP_generator api) \<and>
     ec_mul C (order f rom) (v (ECP_generator api)) = None \<and>
     (\<forall>w. vp (ECP_mapit api w) \<and> ec_mul C (order f rom) (v (ECP_mapit api w)) = None) \<and>
     (\<forall>P Q. vp P \<longrightarrow> vp Q \<longrightarrow>
        is (ec_mul C (nat (bigv f (CURVE_Cof rom))) (v P)) (ECP_cfp api P) \<and> is (v P) (ECP_affine api P) \<and>
        is (ec_add C (v P) (v P)) (ECP_dbl api P) \<and>
        (\<forall>c. v P \<noteq> None \<longrightarrow> ECP_toOctet api P c = point_octet m c (the (v P))) \<and>
        (\<forall>i b. 0 \<le> i \<longrightarrow> i < 2 ^ nat b \<longrightarrow> is (ec_mul C (nat i) (v P)) (ECP_pinmul api P i b)) \<and>
        (\<forall>a b. nbigf f a \<longrightarrow> nbigf f b \<longrightarrow> is (ec_mul C (nat (bigv f a)) (v P)) (ECP_mul api P a) \<and>
          is (ec_add C (ec_mul C (nat (bigv f a)) (v P)) (ec_mul C (nat (bigv f b)) (v Q))) (ECP_mul2 api P Q a b))) \<and>
     (\<forall>c x y. on_curve C (Some (x, y)) \<longrightarrow> fst (ECP_fromOctet api (point_octet m c (x, y))) = 1 \<and>
        is (Some (x, y)) (snd (ECP_fromOctet api (point_octet m c (x, y))))) \<and>
     (\<forall>x y. 0 \<le> x \<longrightarrow> x < p \<longrightarrow> 0 \<le> y \<longrightarrow> y < p \<longrightarrow> \<not> on_curve C (Some (x, y)) \<longrightarrow>
        fst (ECP_fromOctet api (point_octet m False (x, y))) = 0))"

section \<open>The laws\<close>

lemma is_ecpD: "is_ecp f vp api v P \<Longrightarrow> vp P" "is_ecp f vp api v P \<Longrightarrow> pval f api P = v"
  by (simp_all add: is_ecp_def)

lemma ecp_curve: "ecp_ok f p rom vf fp vp api \<Longrightarrow> vp P \<Longrightarrow> on_curve (rom_curve f p rom) (pval f api P)"
  unfolding ecp_ok_def ecp_base_ok_def Let_def by blast

lemma ecp_build:
  assumes ok: "ecp_ok f p rom vf fp vp api" and P: "is_ecp f vp api v P"
  defines "C \<equiv> rom_curve f p rom" and "is \<equiv> is_ecp f vp api"
  shows "is (ec_neg C v) (ECP_neg api P)" "ECP_isinf api P = bool_int (v = None)"
    "is_ecp f vp api w Q \<Longrightarrow> is (ec_add C v w) (ECP_add api P Q)"
    "is_ecp f vp api w Q \<Longrightarrow> is (ec_add C v (ec_neg C w)) (ECP_sub api P Q)"
    "is_ecp f vp api w Q \<Longrightarrow> ECP_equals api P Q = bool_int (v = w)"
    "is (ec_add C v v) (ECP_dbl api P)"
    "0 \<le> i \<Longrightarrow> i < 2 ^ nat k \<Longrightarrow> is (ec_mul C (nat i) v) (ECP_pinmul api P i k)"
    "nbigf f a \<Longrightarrow> is (ec_mul C (nat (bigv f a)) v) (ECP_mul api P a)"
    "is_ecp f vp api w Q \<Longrightarrow> nbigf f a \<Longrightarrow> nbigf f b \<Longrightarrow>
      is (ec_add C (ec_mul C (nat (bigv f a)) v) (ec_mul C (nat (bigv f b)) w)) (ECP_mul2 api P Q a b)"
    "v = Some (x, y) \<Longrightarrow> ECP_toOctet api P c = point_octet (fp_bytes f) c (x, y)"
    "is (ec_mul C (nat (bigv f (CURVE_Cof rom))) v) (ECP_cfp api P)" "is v (ECP_affine api P)"
proof -
  note vP = is_ecpD [OF P]
  have base: "\<forall>P Q. vp P \<longrightarrow> vp Q \<longrightarrow>
        on_curve C (pval f api P) \<and> ECP_isinf api P = bool_int (pval f api P = None) \<and> ECP_equals api P Q = bool_int (pval f api P = pval f api Q) \<and>
        is (pval f api P) (ECP_copy api P) \<and> is (ec_neg C (pval f api P)) (ECP_neg api P)"
    using ok [unfolded ecp_ok_def ecp_base_ok_def Let_def, THEN conjunct1, THEN conjunct2, THEN conjunct1] unfolding C_def is_def .
  have point: "\<forall>P Q. vp P \<longrightarrow> vp Q \<longrightarrow>
        is (ec_add C (pval f api P) (pval f api Q)) (ECP_add api P Q) \<and> is (ec_add C (pval f api P) (ec_neg C (pval f api Q))) (ECP_sub api P Q)"
    using ok [unfolded ecp_ok_def ecp_point_ok_def Let_def, THEN conjunct2, THEN conjunct1, THEN conjunct1] unfolding C_def is_def .
  note more = ok [unfolded ecp_ok_def Let_def, THEN conjunct2, THEN conjunct2, THEN conjunct2, THEN conjunct2, THEN conjunct2, THEN conjunct1,
      rule_format, folded C_def is_def]
  note B = base [rule_format, OF vP(1), unfolded vP(2)] and Q = point [rule_format, OF vP(1), unfolded vP(2)]
    and M = more [OF vP(1), unfolded vP(2)]
  show "is (ec_neg C v) (ECP_neg api P)" "ECP_isinf api P = bool_int (v = None)" using B [OF vP(1)] by blast+
  show "is (ec_add C v v) (ECP_dbl api P)" "0 \<le> i \<Longrightarrow> i < 2 ^ nat k \<Longrightarrow> is (ec_mul C (nat i) v) (ECP_pinmul api P i k)"
    "nbigf f a \<Longrightarrow> is (ec_mul C (nat (bigv f a)) v) (ECP_mul api P a)"
    "v = Some (x, y) \<Longrightarrow> ECP_toOctet api P c = point_octet (fp_bytes f) c (x, y)"
    "is (ec_mul C (nat (bigv f (CURVE_Cof rom))) v) (ECP_cfp api P)" "is v (ECP_affine api P)"
    using M [OF vP(1)] by auto
  assume q: "is_ecp f vp api w Q"
  note vQ = is_ecpD [OF q]
  show "ECP_equals api P Q = bool_int (v = w)" using B [OF vQ(1)] vQ(2) by simp
  show "is (ec_add C v w) (ECP_add api P Q)" "is (ec_add C v (ec_neg C w)) (ECP_sub api P Q)" using Q [OF vQ(1)] vQ(2) by simp_all
  assume "nbigf f a" "nbigf f b"
  then show "is (ec_add C (ec_mul C (nat (bigv f a)) v) (ec_mul C (nat (bigv f b)) w)) (ECP_mul2 api P Q a b)"
    using M [OF vQ(1)] vQ(2) by simp
qed

lemma ecp_coords:
  assumes ok: "ecp_ok f p rom vf fp vp api" and P: "vp P" and nz: "ECP_isinf api P = 0" and p: "0 < p"
  obtains s x y where "ECP_get api P = (s, x, y)" "pval f api P = Some (bigv f x, bigv f y)" "s = bigv f y mod 2"
    "nbigf f x" "nbigf f y" "bigv f x < p" "bigv f y < p" "on_curve (rom_curve f p rom) (Some (bigv f x, bigv f y))"
proof -
  obtain s x y where g: "ECP_get api P = (s, x, y)" by (metis prod.exhaust)
  have v: "pval f api P = Some (bigv f x, bigv f y)" using nz by (simp add: pval_def g)
  have "s = bigv f y mod 2" "nbigf f x" "nbigf f y"
    using ok [unfolded ecp_ok_def ecp_point_ok_def Let_def, THEN conjunct2, THEN conjunct1, THEN conjunct2, THEN conjunct1,
      rule_format, OF P g] v by simp_all
  moreover have c: "on_curve (rom_curve f p rom) (Some (bigv f x, bigv f y))" using ecp_curve [OF ok P] v by simp
  moreover have "bigv f x < p" "bigv f y < p"
    using c pos_mod_bound [OF p, of "bigv f x"] pos_mod_bound [OF p, of "bigv f y"]
    by (simp_all add: rom_curve_def g1_curve_def red1_def)
  ultimately show thesis using that g v by blast
qed

lemma ecp_setD:
  assumes ok: "ecp_ok f p rom vf fp vp api" and n: "nbigf f x" "nbigf f y" "bigv f x < p" "bigv f y < p"
    and c: "on_curve (rom_curve f p rom) (Some (bigv f x, bigv f y))"
  shows "fst (ECP_set api x y) = 1" "is_ecp f vp api (Some (bigv f x, bigv f y)) (snd (ECP_set api x y))"
    "fst (ECP_setx api x (bigv f y mod 2)) = 1" "is_ecp f vp api (Some (bigv f x, bigv f y)) (snd (ECP_setx api x (bigv f y mod 2)))"
    "fst (ECP_fromOctet api (point_octet (fp_bytes f) t (bigv f x, bigv f y))) = 1"
    "is_ecp f vp api (Some (bigv f x, bigv f y)) (snd (ECP_fromOctet api (point_octet (fp_bytes f) t (bigv f x, bigv f y))))"
proof -
  note P = ok [unfolded ecp_ok_def ecp_point_ok_def Let_def, THEN conjunct2, THEN conjunct1, THEN conjunct2, THEN conjunct2]
  show "fst (ECP_set api x y) = 1" "is_ecp f vp api (Some (bigv f x, bigv f y)) (snd (ECP_set api x y))"
    using P [THEN conjunct1, rule_format, OF n] c by (simp_all add: bool_int_def del: on_curve.simps)
  have s: "bigv f y mod 2 \<in> {0, 1}" by auto
  have ex: "\<exists>y. on_curve (rom_curve f p rom) (Some (bigv f x, y))" using c by blast
  note X = P [THEN conjunct2, rule_format, OF n(1,3) s, unfolded if_P [OF ex]]
  then show "fst (ECP_setx api x (bigv f y mod 2)) = 1" by blast
  show "is_ecp f vp api (Some (bigv f x, bigv f y)) (snd (ECP_setx api x (bigv f y mod 2)))"
    using X c unfolding is_ecp_def by blast
  show "fst (ECP_fromOctet api (point_octet (fp_bytes f) t (bigv f x, bigv f y))) = 1"
    "is_ecp f vp api (Some (bigv f x, bigv f y)) (snd (ECP_fromOctet api (point_octet (fp_bytes f) t (bigv f x, bigv f y))))"
    using ok [unfolded ecp_ok_def Let_def, THEN conjunct2, THEN conjunct2, THEN conjunct2, THEN conjunct2, THEN conjunct2, THEN conjunct2,
      THEN conjunct1, rule_format, OF c] by blast+
qed

lemma ecp_generatorD:
  assumes "ecp_ok f p rom vf fp vp api"
  shows "is_ecp f vp api (pval f api (ECP_generator api)) (ECP_generator api)"
    "ec_mul (rom_curve f p rom) (order f rom) (pval f api (ECP_generator api)) = None"
    "is_ecp f vp api (pval f api (ECP_mapit api w)) (ECP_mapit api w)"
    "ec_mul (rom_curve f p rom) (order f rom) (pval f api (ECP_mapit api w)) = None"
  using assms unfolding ecp_ok_def Let_def is_ecp_def by blast+

lemma nat_big_add: "nbig b n x \<Longrightarrow> nbig b n y \<Longrightarrow> big_val b z = big_val b x + big_val b y \<Longrightarrow>
    nat (big_val b z) = nat (big_val b x) + nat (big_val b y)"
  using nbig_range by (simp add: nat_add_distrib)

lemma nat_big_mul: "nbig b n x \<Longrightarrow> big_val b z = big_val b x * big_val b y \<Longrightarrow> nat (big_val b z) = nat (big_val b x) * nat (big_val b y)"
  using nbig_range by (simp add: nat_mult_distrib)

text \<open>
  Over any library with the documented functions of \<open>ecp_BLS381.h\<close> or \<open>ecp_SECP256K1.h\<close>, whose curve is a group,
  by its own \<open>equals\<close>: subtraction undoes addition and a point and its negative add to infinity; doubling is
  addition; multiplication by a number turns sums and products of numbers into sums and repeated
  multiplication, \<open>mul2\<close> and \<open>pinmul\<close> agree with it; the order of the group multiplies the generator and
  whatever \<open>mapit\<close> returns to infinity; and the coordinates of \<open>get\<close>, the x-coordinate with the sign of y,
  and both octet strings give the point back.
\<close>

theorem ecp_library_laws:
  assumes grp: "ec_group (rom_curve f p rom)" and p: "0 < p" and ok: "ecp_ok f p rom vf fp vp api" and v: "vp P" "vp Q"
    and n: "nbigf f a" "nbigf f b" "nbigf f c" "nbigf f d" "nbigf f (CURVE_Order rom)"
    and s: "bigv f c = bigv f a + bigv f b" "bigv f d = bigv f a * bigv f b" and i: "bigv f a < 2 ^ nat k"
  shows "ECP_equals api (ECP_sub api (ECP_add api P Q) Q) P = 1 \<and> ECP_isinf api (ECP_add api P (ECP_neg api P)) = 1 \<and>
    ECP_equals api (ECP_dbl api P) (ECP_add api P P) = 1 \<and>
    ECP_equals api (ECP_add api (ECP_mul api P a) (ECP_mul api P b)) (ECP_mul api P c) = 1 \<and>
    ECP_equals api (ECP_mul api (ECP_mul api P a) b) (ECP_mul api P d) = 1 \<and>
    ECP_equals api (ECP_mul api (ECP_add api P Q) a) (ECP_add api (ECP_mul api P a) (ECP_mul api Q a)) = 1 \<and>
    ECP_equals api (ECP_mul2 api P Q a b) (ECP_add api (ECP_mul api P a) (ECP_mul api Q b)) = 1 \<and>
    ECP_equals api (ECP_pinmul api P (bigv f a) k) (ECP_mul api P a) = 1 \<and>
    ECP_isinf api (ECP_mul api (ECP_generator api) (CURVE_Order rom)) = 1 \<and>
    ECP_isinf api (ECP_mul api (ECP_mapit api w) (CURVE_Order rom)) = 1 \<and>
    (ECP_isinf api P = 0 \<longrightarrow> (case ECP_get api P of (sg, x, y) \<Rightarrow>
       (case ECP_set api x y of (r, P') \<Rightarrow> r = 1 \<and> ECP_equals api P' P = 1) \<and>
       (case ECP_setx api x sg of (r, P') \<Rightarrow> r = 1 \<and> ECP_equals api P' P = 1) \<and>
       (case ECP_fromOctet api (ECP_toOctet api P compress) of (r, P') \<Rightarrow> r = 1 \<and> ECP_equals api P' P = 1)))"
proof -
  let ?C = "rom_curve f p rom" and ?v = "pval f api"
  note B = ecp_build [OF ok] and G = ecp_generatorD [OF ok]
  have I: "is_ecp f vp api (?v P) P" "is_ecp f vp api (?v Q) Q" using v by (simp_all add: is_ecp_def)
  note c = ecp_curve [OF ok v(1)] ecp_curve [OF ok v(2)]
  have eq: "ECP_equals api S T = 1" if "is_ecp f vp api e S" "is_ecp f vp api e' T" "e = e'" for S T e e'
    using B(5) [OF that(1,2)] that(3) by (simp add: bool_int_def)
  have inf: "ECP_isinf api S = 1" if "is_ecp f vp api e S" "e = None" for S e using B(2) [OF that(1)] that(2) by (simp add: bool_int_def)
  show ?thesis
  proof (intro conjI impI)
    show "ECP_equals api (ECP_sub api (ECP_add api P Q) Q) P = 1"
      by (rule eq [OF B(4) [OF B(3) [OF I(1) I(2)] I(2)] I(1) ec_cancel(1) [OF grp c]])
    show "ECP_isinf api (ECP_add api P (ECP_neg api P)) = 1"
      by (rule inf [OF B(3) [OF I(1) B(1) [OF I(1)]] ec_groupD(3) [OF grp c(1) c(1)]])
    show "ECP_equals api (ECP_dbl api P) (ECP_add api P P) = 1" by (rule eq [OF B(6) [OF I(1)] B(3) [OF I(1) I(1)] refl])
    show "ECP_equals api (ECP_add api (ECP_mul api P a) (ECP_mul api P b)) (ECP_mul api P c) = 1"
      by (rule eq [OF B(3) [OF B(8) [OF I(1) n(1)] B(8) [OF I(1) n(2)]] B(8) [OF I(1) n(3)]])
        (simp only: nat_big_add [OF n(1,2) s(1)] ec_mul_add [OF grp c(1)])
    show "ECP_equals api (ECP_mul api (ECP_mul api P a) b) (ECP_mul api P d) = 1"
      by (rule eq [OF B(8) [OF B(8) [OF I(1) n(1)] n(2)] B(8) [OF I(1) n(4)]])
        (simp only: nat_big_mul [OF n(1) s(2)] ec_mul_mul [OF grp c(1)] ec_mul_commute [OF grp c(1)])
    show "ECP_equals api (ECP_mul api (ECP_add api P Q) a) (ECP_add api (ECP_mul api P a) (ECP_mul api Q a)) = 1"
      by (rule eq [OF B(8) [OF B(3) [OF I(1,2)] n(1)] B(3) [OF B(8) [OF I(1) n(1)] B(8) [OF I(2) n(1)]] ec_mul_sum [OF grp c]])
    show "ECP_equals api (ECP_mul2 api P Q a b) (ECP_add api (ECP_mul api P a) (ECP_mul api Q b)) = 1"
      by (rule eq [OF B(9) [OF I(1,2) n(1,2)] B(3) [OF B(8) [OF I(1) n(1)] B(8) [OF I(2) n(2)]] refl])
    show "ECP_equals api (ECP_pinmul api P (bigv f a) k) (ECP_mul api P a) = 1"
      using nbig_range [OF n(1)] by (intro eq [OF B(7) [OF I(1) _ i] B(8) [OF I(1) n(1)] refl]) simp
    show "ECP_isinf api (ECP_mul api (ECP_generator api) (CURVE_Order rom)) = 1"
      by (rule inf [OF B(8) [OF G(1) n(5)] G(2) [unfolded order_def]])
    show "ECP_isinf api (ECP_mul api (ECP_mapit api w) (CURVE_Order rom)) = 1"
      by (rule inf [OF B(8) [OF G(3) n(5)] G(4) [unfolded order_def]])
    assume nz: "ECP_isinf api P = 0"
    from ecp_coords [OF ok v(1) nz p] obtain sg x y where g: "ECP_get api P = (sg, x, y)" "?v P = Some (bigv f x, bigv f y)" "sg = bigv f y mod 2"
      and S: "nbigf f x" "nbigf f y" "bigv f x < p" "bigv f y < p" "on_curve ?C (Some (bigv f x, bigv f y))" .
    note T = ecp_setD [OF ok S] and i = I(1) [unfolded g(2)]
    show "case ECP_get api P of (sg, x, y) \<Rightarrow>
       (case ECP_set api x y of (r, P') \<Rightarrow> r = 1 \<and> ECP_equals api P' P = 1) \<and>
       (case ECP_setx api x sg of (r, P') \<Rightarrow> r = 1 \<and> ECP_equals api P' P = 1) \<and>
       (case ECP_fromOctet api (ECP_toOctet api P compress) of (r, P') \<Rightarrow> r = 1 \<and> ECP_equals api P' P = 1)"
      using T(1,3,5) eq [OF T(2) i refl] eq [OF T(4) i refl] eq [OF T(6) i refl]
      by (simp add: g(1,3) B(10) [OF i refl] case_prod_beta)
  qed
qed

section \<open>ecp_SECP256K1.h\<close>

text \<open>The same declarations over the field of secp256k1.\<close>

(* crypto/include/ecp_SECP256K1.h:33-98 CURVE_A_SECP256K1 ... CURVE_BB_SECP256K1 *)
type_synonym ecp_rom_SECP256K1 = ecp_rom

(* crypto/include/ecp_SECP256K1.h:101-114 ECP_SECP256K1 *)
type_synonym ECP_SECP256K1 = ECP_BLS381

(* crypto/include/ecp_SECP256K1.h:117-150 ECP_SECP256K1_isinf ... ECP_SECP256K1_rhs *)
definition ecp_base_ok_SECP256K1 :: "int \<Rightarrow> ecp_rom_SECP256K1 \<Rightarrow> (FP_SECP256K1 \<Rightarrow> bool) \<Rightarrow> fp_api \<Rightarrow> (ECP_SECP256K1 \<Rightarrow> bool) \<Rightarrow> ('a ecp_point_api_scheme) \<Rightarrow> bool" where
  "ecp_base_ok_SECP256K1 p rom vf fp vp api \<longleftrightarrow> ecp_base_ok SECP256K1 p rom vf fp vp api"

(* crypto/include/ecp_SECP256K1.h:177-217 ECP_SECP256K1_set ... ECP_SECP256K1_setx *)
definition ecp_point_ok_SECP256K1 :: "int \<Rightarrow> ecp_rom_SECP256K1 \<Rightarrow> (ECP_SECP256K1 \<Rightarrow> bool) \<Rightarrow> ('a ecp_point_api_scheme) \<Rightarrow> bool" where
  "ecp_point_ok_SECP256K1 p rom vp api \<longleftrightarrow> ecp_point_ok SECP256K1 p rom vp api"

(* crypto/include/ecp_SECP256K1.h:221-311 ECP_SECP256K1_cfp ... ECP_SECP256K1_generator *)
definition ecp_ok_SECP256K1 :: "int \<Rightarrow> ecp_rom_SECP256K1 \<Rightarrow> (FP_SECP256K1 \<Rightarrow> bool) \<Rightarrow> fp_api \<Rightarrow> (ECP_SECP256K1 \<Rightarrow> bool) \<Rightarrow> ecp_api \<Rightarrow> bool" where
  "ecp_ok_SECP256K1 p rom vf fp vp api \<longleftrightarrow>
     ecp_base_ok_SECP256K1 p rom vf fp vp api \<and> ecp_point_ok_SECP256K1 p rom vp api \<and> ecp_ok SECP256K1 p rom vf fp vp api"

text \<open>
  The exchange of keys on secp256k1, over any library with the documented functions whose curve is a group: two
  parties that multiply the generator by their numbers, send the points as octet strings, compressed or not,
  and multiply what \<open>fromOctet\<close> makes of the other's string by their own number, arrive at the same point,
  and at the same octet string of it. Reducing a number by the order of the group does not change its public
  point.
\<close>

theorem secp256k1_key_agreement:
  assumes grp: "ec_group (rom_curve SECP256K1 p rom)" and p: "0 < p" and ok: "ecp_ok_SECP256K1 p rom vf fp vp api"
    and n: "nbigf SECP256K1 d" "nbigf SECP256K1 e" "nbigf SECP256K1 d'"
    and d': "bigv SECP256K1 d' = bigv SECP256K1 d mod bigv SECP256K1 (CURVE_Order rom)" and r: "0 < bigv SECP256K1 (CURVE_Order rom)"
    and G: "G = ECP_generator api" and pub: "D = ECP_mul api G d" "E = ECP_mul api G e"
    and nz: "ECP_isinf api D = 0" "ECP_isinf api E = 0"
  shows "(case (ECP_fromOctet api (ECP_toOctet api D c), ECP_fromOctet api (ECP_toOctet api E c')) of ((s, D'), (t, E')) \<Rightarrow>
      s = 1 \<and> t = 1 \<and> ECP_equals api (ECP_mul api E' d) (ECP_mul api D' e) = 1 \<and>
      (ECP_isinf api (ECP_mul api E' d) = 0 \<longrightarrow> ECP_toOctet api (ECP_mul api E' d) False = ECP_toOctet api (ECP_mul api D' e) False)) \<and>
    ECP_equals api (ECP_mul api G d') D = 1"
proof -
  let ?f = SECP256K1 and ?C = "rom_curve SECP256K1 p rom"
  have ok: "ecp_ok ?f p rom vf fp vp api" using ok by (simp add: ecp_ok_SECP256K1_def)
  note B = ecp_build [OF ok] and g = ecp_generatorD(1) [OF ok, folded G] and o = ecp_generatorD(2) [OF ok, folded G]
  note on = ecp_curve [OF ok is_ecpD(1) [OF g]]
  have rt: "fst (ECP_fromOctet api (ECP_toOctet api P t)) = 1 \<and> is_ecp ?f vp api v (snd (ECP_fromOctet api (ECP_toOctet api P t)))"
    if "is_ecp ?f vp api v P" "ECP_isinf api P = 0" for v P t
  proof -
    from ecp_coords [OF ok is_ecpD(1) [OF that(1)] that(2) p] obtain s x y where
      *: "pval ?f api P = Some (bigv ?f x, bigv ?f y)" "nbigf ?f x" "nbigf ?f y" "bigv ?f x < p" "bigv ?f y < p"
        "on_curve ?C (Some (bigv ?f x, bigv ?f y))" .
    have e: "v = Some (bigv ?f x, bigv ?f y)" using *(1) is_ecpD(2) [OF that(1)] by simp
    show ?thesis using ecp_setD(5,6) [OF ok *(2-6)] by (simp only: B(10) [OF that(1) e] e)
  qed
  note D = B(8) [OF g n(1), folded pub] and E = B(8) [OF g n(2), folded pub]
  note D' = rt [OF D nz(1), of c] and E' = rt [OF E nz(2), of c']
  note k = B(8) [OF conjunct2 [OF D'] n(2)] B(8) [OF conjunct2 [OF E'] n(1)]
  note comm = ec_mul_commute [OF grp on, of "nat (bigv ?f d)" "nat (bigv ?f e)"]
  let ?D = "snd (ECP_fromOctet api (ECP_toOctet api D c))" and ?E = "snd (ECP_fromOctet api (ECP_toOctet api E c'))"
  have eq: "ECP_equals api (ECP_mul api ?E d) (ECP_mul api ?D e) = 1"
    using B(5) [OF k(2,1)] comm by (simp add: bool_int_def)
  have oct: "ECP_toOctet api (ECP_mul api ?E d) False = ECP_toOctet api (ECP_mul api ?D e) False" if "ECP_isinf api (ECP_mul api ?E d) = 0"
  proof -
    have "ec_mul ?C (nat (bigv ?f d)) (ec_mul ?C (nat (bigv ?f e)) (pval ?f api G)) \<noteq> None"
      using that unfolding B(2) [OF k(2)] bool_int_def by (metis one_neq_zero)
    then obtain x y where "ec_mul ?C (nat (bigv ?f d)) (ec_mul ?C (nat (bigv ?f e)) (pval ?f api G)) = Some (x, y)" by auto
    then show ?thesis using B(10) [OF k(2)] B(10) [OF k(1)] comm by metis
  qed
  have "nat (bigv ?f d') = nat (bigv ?f d) mod order ?f rom"
    using nbig_range [OF n(1)] r unfolding d' order_def by (simp only: nat_mod_distrib less_imp_le)
  then have "ECP_equals api (ECP_mul api G d') D = 1"
    using B(5) [OF B(8) [OF g n(3)] D] ec_mul_mod [OF grp on o] by (simp add: bool_int_def)
  then show ?thesis using D' E' eq oct by (simp add: case_prod_beta)
qed

section \<open>A library over the curve y^2 = x^3 + x of three elements\<close>

text \<open>Its four points are a cyclic group: infinity, \<open>(2,1)\<close>, \<open>(0,0)\<close>, \<open>(2,2)\<close>.\<close>

definition C3 :: "int curve" where "C3 = g1_curve 3 1 0"

definition pt3 :: "nat \<Rightarrow> int point" where
  "pt3 n = [None, Some (2, 1), Some (0, 0), Some (2, 2)] ! n"

definition mkp :: "int point \<Rightarrow> ECP_BLS381" where
  "mkp v = (case v of None \<Rightarrow> \<lparr>ecp_x = mk1 0, ecp_y = mk1 1, ecp_z = mk1 0\<rparr>
     | Some (x, y) \<Rightarrow> \<lparr>ecp_x = mk1 x, ecp_y = mk1 y, ecp_z = mk1 1\<rparr>)"

definition evp :: "ECP_BLS381 \<Rightarrow> int point" where
  "evp P = (if unmk1 (ecp_z P) = 0 then None else Some (unmk1 (ecp_x P), unmk1 (ecp_y P)))"

definition validp :: "ECP_BLS381 \<Rightarrow> bool" where
  "validp P \<longleftrightarrow> P \<in> set (map mkp [None, Some (2, 1), Some (0, 0), Some (2, 2)])"

abbreviation encf :: "fp_suffix \<Rightarrow> int \<Rightarrow> BIG" where
  "encf f \<equiv> enc (fp_bits f) (fp_len f)"

fun ref_fpf :: "fp_suffix \<Rightarrow> fp_api" where
  "ref_fpf BLS381 = ref_fp 3"
| "ref_fpf SECP256K1 = ref_fp_56"

text \<open>The library of \<open>BLS381\<close> works in the subgroup of order two, the other one in the whole group.\<close>

fun ref_gen :: "fp_suffix \<Rightarrow> nat" where
  "ref_gen BLS381 = 2"
| "ref_gen SECP256K1 = 1"

definition rom3 :: "fp_suffix \<Rightarrow> ecp_rom" where
  "rom3 f = (let E = encf f in \<lparr>
     CURVE_A = 1, CURVE_Cof_I = 1, CURVE_B_I = 0, CURVE_B = E 0, CURVE_Order = E (if f = BLS381 then 2 else 4), CURVE_Cof = E (if f = BLS381 then 2 else 1), CURVE_Gx = E (if f = BLS381 then 0 else 2),
     CURVE_Gy = E (if f = BLS381 then 0 else 1), CURVE_Pxa = E 0, CURVE_Pxb = E 0, CURVE_Pya = E 0, CURVE_Pyb = E 0, CURVE_Pxaa = E 0, CURVE_Pxab = E 0,
     CURVE_Pxba = E 0, CURVE_Pxbb = E 0, CURVE_Pyaa = E 0, CURVE_Pyab = E 0, CURVE_Pyba = E 0, CURVE_Pybb = E 0,
     CURVE_Pxaaa = E 0, CURVE_Pxaab = E 0, CURVE_Pxaba = E 0, CURVE_Pxabb = E 0, CURVE_Pxbaa = E 0, CURVE_Pxbab = E 0,
     CURVE_Pxbba = E 0, CURVE_Pxbbb = E 0, CURVE_Pyaaa = E 0, CURVE_Pyaab = E 0, CURVE_Pyaba = E 0, CURVE_Pyabb = E 0,
     CURVE_Pybaa = E 0, CURVE_Pybab = E 0, CURVE_Pybba = E 0, CURVE_Pybbb = E 0, CURVE_Bnx = E 0, CURVE_Cru = E 0, Fra = E 0,
     Frb = E 0, CURVE_W = [], CURVE_SB = [], CURVE_WB = [], CURVE_BB = []\<rparr>)"

definition ref_ecp_base :: ecp_base_api where
  "ref_ecp_base = \<lparr>
     ECP_isinf = \<lambda>P. bool_int (evp P = None), ECP_equals = \<lambda>P Q. bool_int (evp P = evp Q), ECP_copy = \<lambda>P. P,
     ECP_neg = \<lambda>P. mkp (ec_neg C3 (evp P)), ECP_inf = mkp None, ECP_rhs = \<lambda>x. mk1 (ec_rhs C3 (unmk1 x)) \<rparr>"

definition ref_setx :: "fp_suffix \<Rightarrow> BIG \<Rightarrow> int \<Rightarrow> int \<times> ECP_BLS381" where
  "ref_setx f x s = (case filter (\<lambda>y. on_curve C3 (Some (bigv f x, y))) [0, 1, 2] of
     [] \<Rightarrow> (0, mkp None)
   | y # ys \<Rightarrow> (1, mkp (Some (bigv f x, (case find (\<lambda>y. y mod 2 = s) (y # ys) of None \<Rightarrow> y | Some y \<Rightarrow> y)))))"

definition ref_ecp_point :: "fp_suffix \<Rightarrow> ecp_point_api" where
  "ref_ecp_point f = ecp_base_api.extend ref_ecp_base \<lparr>
     ECP_set = \<lambda>x y. (let P = Some (bigv f x, bigv f y) in if on_curve C3 P then (1, mkp P) else (0, mkp None)),
     ECP_get = \<lambda>P. (case evp P of None \<Rightarrow> (- 1, [], []) | Some (x, y) \<Rightarrow> (y mod 2, encf f x, encf f y)),
     ECP_add = \<lambda>P Q. mkp (ec_add C3 (evp P) (evp Q)), ECP_sub = \<lambda>P Q. mkp (ec_add C3 (evp P) (ec_neg C3 (evp Q))),
     ECP_setx = ref_setx f \<rparr>"

definition ref_fromOctet :: "nat \<Rightarrow> byte list \<Rightarrow> int \<times> ECP_BLS381" where
  "ref_fromOctet m w = (case find (\<lambda>P. w = point_octet m False P \<or> w = point_octet m True P) [(2, 1), (0, 0), (2, 2)] of
     None \<Rightarrow> (0, mkp None) | Some P \<Rightarrow> (1, mkp (Some P)))"

definition ref_ecp :: "fp_suffix \<Rightarrow> ecp_api" where
  "ref_ecp f = ecp_point_api.extend (ref_ecp_point f) \<lparr>
     ECP_cfp = \<lambda>P. mkp (ec_mul C3 (if f = BLS381 then 2 else 1) (evp P)), ECP_mapit = \<lambda>w. mkp (pt3 (ref_gen f)), ECP_affine = \<lambda>P. P,
     ECP_outputxyz = \<lambda>P. [], ECP_output = \<lambda>P. [], ECP_rawoutput = \<lambda>P. [],
     ECP_toOctet = \<lambda>P c. (case evp P of None \<Rightarrow> [0] | Some v \<Rightarrow> point_octet (fp_bytes f) c v),
     ECP_fromOctet = ref_fromOctet (fp_bytes f),
     ECP_dbl = \<lambda>P. mkp (ec_add C3 (evp P) (evp P)), ECP_pinmul = \<lambda>P i b. mkp (ec_mul C3 (nat i) (evp P)),
     ECP_mul = \<lambda>P b. mkp (ec_mul C3 (nat (bigv f b)) (evp P)),
     ECP_mul2 = \<lambda>P Q a b. mkp (ec_add C3 (ec_mul C3 (nat (bigv f a)) (evp P)) (ec_mul C3 (nat (bigv f b)) (evp Q))),
     ECP_generator = mkp (pt3 (ref_gen f)) \<rparr>"

lemmas ref_ecp_fields = ref_ecp_def ref_ecp_point_def ref_ecp_base_def ecp_base_api.defs ecp_point_api.defs ecp_api.defs

lemma ref_ecp_sel:
  "ECP_isinf (ref_ecp f) = (\<lambda>P. bool_int (evp P = None))"
  "ECP_equals (ref_ecp f) = (\<lambda>P Q. bool_int (evp P = evp Q))"
  "ECP_copy (ref_ecp f) = (\<lambda>P. P)"
  "ECP_neg (ref_ecp f) = (\<lambda>P. mkp (ec_neg C3 (evp P)))"
  "ECP_inf (ref_ecp f) = (mkp None)"
  "ECP_rhs (ref_ecp f) = (\<lambda>x. mk1 (ec_rhs C3 (unmk1 x)))"
  "ECP_set (ref_ecp f) = (\<lambda>x y. (let P = Some (bigv f x, bigv f y) in if on_curve C3 P then (1, mkp P) else (0, mkp None)))"
  "ECP_get (ref_ecp f) = (\<lambda>P. (case evp P of None \<Rightarrow> (- 1, [], []) | Some (x, y) \<Rightarrow> (y mod 2, encf f x, encf f y)))"
  "ECP_add (ref_ecp f) = (\<lambda>P Q. mkp (ec_add C3 (evp P) (evp Q)))"
  "ECP_sub (ref_ecp f) = (\<lambda>P Q. mkp (ec_add C3 (evp P) (ec_neg C3 (evp Q))))"
  "ECP_setx (ref_ecp f) = (ref_setx f)"
  "ECP_cfp (ref_ecp f) = (\<lambda>P. mkp (ec_mul C3 (if f = BLS381 then 2 else 1) (evp P)))"
  "ECP_mapit (ref_ecp f) = (\<lambda>w. mkp (pt3 (ref_gen f)))"
  "ECP_affine (ref_ecp f) = (\<lambda>P. P)"
  "ECP_outputxyz (ref_ecp f) = (\<lambda>P. [])"
  "ECP_output (ref_ecp f) = (\<lambda>P. [])"
  "ECP_rawoutput (ref_ecp f) = (\<lambda>P. [])"
  "ECP_toOctet (ref_ecp f) = (\<lambda>P c. (case evp P of None \<Rightarrow> [0] | Some v \<Rightarrow> point_octet (fp_bytes f) c v))"
  "ECP_fromOctet (ref_ecp f) = (ref_fromOctet (fp_bytes f))"
  "ECP_dbl (ref_ecp f) = (\<lambda>P. mkp (ec_add C3 (evp P) (evp P)))"
  "ECP_pinmul (ref_ecp f) = (\<lambda>P i b. mkp (ec_mul C3 (nat i) (evp P)))"
  "ECP_mul (ref_ecp f) = (\<lambda>P b. mkp (ec_mul C3 (nat (bigv f b)) (evp P)))"
  "ECP_mul2 (ref_ecp f) = (\<lambda>P Q a b. mkp (ec_add C3 (ec_mul C3 (nat (bigv f a)) (evp P)) (ec_mul C3 (nat (bigv f b)) (evp Q))))"
  "ECP_generator (ref_ecp f) = (mkp (pt3 (ref_gen f)))"
  by (simp_all add: ref_ecp_fields)

lemma bigv_encf: "v \<in> {0..4} \<Longrightarrow> bigv f (encf f v) = v" "v \<in> {0..4} \<Longrightarrow> nbigf f (encf f v)"
proof -
  assume v: "v \<in> {0..4}"
  show "bigv f (encf f v) = v" using v by (cases f) (auto simp: NLEN_384_58_def NLEN_256_56_def amcl_const)
  show "nbigf f (encf f v)" using v by (cases f) (auto intro!: nbig_enc simp: NLEN_384_58_def NLEN_256_56_def amcl_const)
qed

lemma on_C3: "on_curve C3 P \<longleftrightarrow> P \<in> set [None, Some (2, 1), Some (0, 0), Some (2, 2)]"
proof (cases P)
  case (Some v)
  obtain x y where v: "v = (x, y)" by (metis prod.exhaust)
  have "x mod 3 = x \<longleftrightarrow> x = 0 \<or> x = 1 \<or> x = 2" for x :: int by presburger
  then show ?thesis unfolding Some v by (auto simp: C3_def g1_curve_def red1_def Z1_def ec_rhs_def)
qed simp

lemma C3_table:
  "list_all (\<lambda>m. on_curve C3 (pt3 m) \<and> (\<exists>k \<in> set [0..<4]. ec_neg C3 (pt3 m) = pt3 k \<and> pt3 ((m + k) mod 4) = None) \<and>
     list_all (\<lambda>n. ec_add C3 (pt3 m) (pt3 n) = pt3 ((m + n) mod 4)) [0..<4]) [0..<4]"
  by code_simp

lemmas pt3 = C3_table [unfolded list_all_iff, rule_format, unfolded set_upt atLeast0LessThan]

lemma C3_group: "ec_group C3"
proof (rule ec_group_numbered [where G = "{..<4}" and pt = pt3 and f = "\<lambda>m n. (m + n) mod 4"])
  fix P assume "on_curve C3 P"
  then have "P \<in> pt3 ` set [0, 1, 2, 3]" by (auto simp: on_C3 pt3_def)
  then show "\<exists>a \<in> {..<4}. P = pt3 a" by auto
qed (use pt3 in \<open>auto simp: ac_simps mod_simps\<close>)

lemma ref_curve: "rom_curve f 3 (rom3 f) = C3" "order f (rom3 f) = (if f = BLS381 then 2 else 4)"
  "nat (bigv f (CURVE_Cof (rom3 f))) = (if f = BLS381 then 2 else 1)"
  using bigv_encf by (simp_all add: rom_curve_def rom3_def C3_def order_def Let_def)

lemma ref_generator:
  "Some (bigv f (CURVE_Gx (rom3 f)), bigv f (CURVE_Gy (rom3 f))) = pt3 (ref_gen f)" "on_curve C3 (pt3 (ref_gen f))"
  "ec_mul C3 (if f = BLS381 then 2 else 4) (pt3 (ref_gen f)) = None"
proof -
  have "on_curve C3 (pt3 2)" "on_curve C3 (pt3 1)" "ec_mul C3 2 (pt3 2) = None" "ec_mul C3 4 (pt3 1) = None" by code_simp+
  then show "on_curve C3 (pt3 (ref_gen f))" "ec_mul C3 (if f = BLS381 then 2 else 4) (pt3 (ref_gen f)) = None"
    by (cases f; simp del: ec_mul.simps)+
  show "Some (bigv f (CURVE_Gx (rom3 f)), bigv f (CURVE_Gy (rom3 f))) = pt3 (ref_gen f)"
    by (cases f) (simp_all add: rom3_def Let_def pt3_def NLEN_384_58_def NLEN_256_56_def amcl_const)
qed

lemma evp_mkp [simp]: "evp (mkp v) = v"
  by (auto simp: evp_def mkp_def split: option.splits)

lemma validp: "validp P \<Longrightarrow> on_curve C3 (evp P)" "on_curve C3 v \<Longrightarrow> validp (mkp v)"
  by (auto simp: validp_def on_C3)

lemma pval_ref: "on_curve C3 (evp P) \<Longrightarrow> pval f (ref_ecp f) P = evp P"
  using bigv_encf(1) [of 0 f] bigv_encf(1) [of 1 f] bigv_encf(1) [of 2 f]
  by (auto simp: pval_def ref_ecp_fields bool_int_def on_C3 split: option.splits)

lemma is_mkp: "on_curve C3 v \<Longrightarrow> is_ecp f validp (ref_ecp f) w (mkp v) \<longleftrightarrow> v = w"
  by (simp add: is_ecp_def validp pval_ref)

lemma fval_ref: "vf = valid3 \<Longrightarrow> valid3 x \<Longrightarrow> fval_in f (ref_fpf f) x = unmk1 x"
  by (cases f) (auto simp: mk1_56 valid3_def)

text \<open>The octet strings of the points of the curve are those that are decoded.\<close>

lemma to_be_inj: "to_be m v = to_be m w \<Longrightarrow> 0 \<le> v \<Longrightarrow> 0 \<le> w \<Longrightarrow> v = w"
  by (metis be_nat_to_be nat_eq_iff2 nat_0_le)

lemma point_octet_inj:
  assumes e: "point_octet m c (x, y) = point_octet m c' (x', y')" and m: "0 < m"
    and r: "x \<in> {0..<3}" "y \<in> {0..<3}" "x' \<in> {0..<3}" "y' \<in> {0..<3}"
  shows "x = x' \<and> (y = y' \<or> c \<and> c' \<and> even y = even y')"
proof -
  have "(256 :: int) ^ 1 \<le> 256 ^ m" using m by (intro power_increasing) auto
  then have l: "length (to_be m v) = m" if "v \<in> {0..<3}" for v using that by (intro to_be_len) auto
  have i: "v = w" if "to_be m v = to_be m w" "v \<in> {0..<3}" "w \<in> {0..<3}" for v w using to_be_inj [OF that(1)] that(2,3) by simp
  have c: "c = c'" using e by (auto simp: point_octet_def split: if_splits)
  show ?thesis
  proof (cases c)
    case True
    then show ?thesis using e i [OF _ r(1,3)] unfolding c by (auto simp: point_octet_def split: if_splits)
  next
    case False
    then have "to_be m x = to_be m x' \<and> to_be m y = to_be m y'"
      using e append_eq_append_conv [of "to_be m x" "to_be m x'" "to_be m y" "to_be m y'"] unfolding c by (simp add: point_octet_def l [OF r(1)] l [OF r(3)])
    then show ?thesis using i [OF _ r(1,3)] i [OF _ r(2,4)] by blast
  qed
qed

lemma ref_fromOctet:
  assumes m: "0 < m" and r: "x \<in> {0..<3}" "y \<in> {0..<3}"
  shows "on_curve C3 (Some (x, y)) \<Longrightarrow> ref_fromOctet m (point_octet m c (x, y)) = (1, mkp (Some (x, y)))"
    "\<not> on_curve C3 (Some (x, y)) \<Longrightarrow> fst (ref_fromOctet m (point_octet m False (x, y))) = 0"
proof -
  let ?ps = "[(2, 1), (0, 0), (2, 2)] :: (int \<times> int) list"
  show "ref_fromOctet m (point_octet m c (x, y)) = (1, mkp (Some (x, y)))" if on: "on_curve C3 (Some (x, y))"
  proof -
    have xy: "(x, y) \<in> set ?ps" using on by (auto simp: on_C3 simp del: on_curve.simps)
    have "(point_octet m c (x, y) = point_octet m False P \<or> point_octet m c (x, y) = point_octet m True P) \<longleftrightarrow> P = (x, y)"
      if P: "P \<in> set ?ps" for P
    proof
      assume o: "point_octet m c (x, y) = point_octet m False P \<or> point_octet m c (x, y) = point_octet m True P"
      obtain x' y' where e: "P = (x', y')" by (metis prod.exhaust)
      have "x' \<in> {0..<3}" "y' \<in> {0..<3}" using P unfolding e by auto
      then have "x = x' \<and> (y = y' \<or> even y = even y')" using o point_octet_inj [OF _ m r] unfolding e by blast
      then show "P = (x, y)" using P xy unfolding e by auto
    qed (cases c, simp_all)
    then have "find (\<lambda>P. point_octet m c (x, y) = point_octet m False P \<or> point_octet m c (x, y) = point_octet m True P) ?ps = find (\<lambda>P. P = (x, y)) ?ps"
      by (intro find_cong) simp_all
    also have "\<dots> = Some (x, y)" using xy by auto
    finally show ?thesis by (simp add: ref_fromOctet_def)
  qed
  show "fst (ref_fromOctet m (point_octet m False (x, y))) = 0" if "\<not> on_curve C3 (Some (x, y))"
  proof -
    have "point_octet m False (x, y) = point_octet m c' (x', y') \<longleftrightarrow> False" if "(x', y') \<in> {(2, 1), (0, 0), (2, 2)}" for c' x' y'
      using point_octet_inj [OF _ m r, of False c' x' y'] that \<open>\<not> on_curve C3 (Some (x, y))\<close> by (auto simp: on_C3 simp del: on_curve.simps)
    then show ?thesis by (simp add: ref_fromOctet_def)
  qed
qed

lemma ref_setx:
  assumes s: "s \<in> {0, 1}"
  shows "if \<exists>y. on_curve C3 (Some (bigv f x, y))
         then fst (ref_setx f x s) = 1 \<and> validp (snd (ref_setx f x s)) \<and>
           (\<forall>y. on_curve C3 (Some (bigv f x, y)) \<longrightarrow> y mod 2 = s \<longrightarrow> snd (ref_setx f x s) = mkp (Some (bigv f x, y)))
         else fst (ref_setx f x s) = 0 \<and> snd (ref_setx f x s) = mkp None"
proof -
  have "bigv f x = 0 \<or> bigv f x = 2 \<or> (bigv f x \<noteq> 0 \<and> bigv f x \<noteq> 2)" by blast
  then show ?thesis
    using s by (elim disjE) (auto simp: ref_setx_def on_C3 validp_def mkp_def simp del: on_curve.simps)
qed

lemma ref_ecp_ok: "ecp_ok f 3 (rom3 f) valid3 (ref_fpf f) validp (ref_ecp f)"
proof -
  note g = C3_group and d = ec_groupD [OF C3_group]
  have c: "on_curve C3 (ec_mul C3 n v)" if "on_curve C3 v" for n v by (rule ec_mul_closed [OF g that])
  have n: "on_curve C3 (ec_neg C3 v)" if "on_curve C3 v" for v by (rule d(2) [OF that that])
  note on = validp c n d(1)
  have rhs: "valid3 (mk1 (ec_rhs C3 (unmk1 x)))" for x by (simp add: ec_rhs_def C3_def g1_curve_def red1_def Let_def valid3_mk)
  have base: "ecp_base_ok f 3 (rom3 f) valid3 (ref_fpf f) validp (ref_ecp f)"
    unfolding ecp_base_ok_def Let_def ref_curve
  proof (intro conjI allI impI)
    fix P Q assume v: "validp P" "validp Q"
    show "is_ecp f validp (ref_ecp f) (pval f (ref_ecp f) P) (ECP_copy (ref_ecp f) P)" using v by (simp add: ref_ecp_sel is_ecp_def)
  qed (simp_all add: ref_ecp_sel on pval_ref is_mkp rhs fval_ref)
  have get: "if pval f (ref_ecp f) P = None then s = - 1 else s = bigv f y mod 2 \<and> nbigf f x \<and> nbigf f y"
    if "validp P" "ECP_get (ref_ecp f) P = (s, x, y)" for P s x y
    using that bigv_encf [of 0 f] bigv_encf [of 1 f] bigv_encf [of 2 f] validp(1) [OF that(1)]
    by (auto simp: pval_ref ref_ecp_sel on_C3)
  have point: "ecp_point_ok f 3 (rom3 f) validp (ref_ecp f)"
    unfolding ecp_point_ok_def Let_def ref_curve
  proof (intro conjI allI impI)
    fix P s x y assume "validp P" "ECP_get (ref_ecp f) P = (s, x, y)"
    then show "if pval f (ref_ecp f) P = None then s = - 1 else s = bigv f y mod 2 \<and> nbigf f x \<and> nbigf f y" by (rule get)
  next
    fix x s assume "s \<in> {0, 1 :: int}"
    from ref_setx [OF this, of f x]
    show "if \<exists>y. on_curve C3 (Some (bigv f x, y))
       then fst (ECP_setx (ref_ecp f) x s) = 1 \<and> validp (snd (ECP_setx (ref_ecp f) x s)) \<and>
         (\<forall>y. on_curve C3 (Some (bigv f x, y)) \<longrightarrow> y mod 2 = s \<longrightarrow> pval f (ref_ecp f) (snd (ECP_setx (ref_ecp f) x s)) = Some (bigv f x, y))
       else fst (ECP_setx (ref_ecp f) x s) = 0 \<and> is_ecp f validp (ref_ecp f) None (snd (ECP_setx (ref_ecp f) x s))"
      by (auto simp: ref_ecp_sel pval_ref is_mkp simp del: on_curve.simps(2) split: if_splits)
  qed (auto simp: ref_ecp_sel on pval_ref is_mkp bool_int_def simp del: on_curve.simps(2))
  have m: "0 < fp_bytes f" by (cases f) (simp_all add: amcl_const)
  have r: "x \<in> {0..<3} \<and> y \<in> {0..<3}" if "on_curve C3 (Some (x, y))" for x y
    using that by (auto simp: on_C3 simp del: on_curve.simps)
  have aff: "is_ecp f validp (ref_ecp f) (pval f (ref_ecp f) P) P" if "validp P" for P using that by (simp add: is_ecp_def)
  show ?thesis
    unfolding ecp_ok_def Let_def ref_curve
  proof (intro conjI base point allI impI)
    fix P a b c assume v: "validp P" and nz: "pval f (ref_ecp f) P \<noteq> None"
    show "ECP_toOctet (ref_ecp f) P c = point_octet (fp_bytes f) c (the (pval f (ref_ecp f) P))"
      using nz v by (auto simp: ref_ecp_sel pval_ref on)
  next
    fix c x y assume "on_curve C3 (Some (x, y))"
    note o = this and r [OF this]
    then show "fst (ECP_fromOctet (ref_ecp f) (point_octet (fp_bytes f) c (x, y))) = 1"
      "is_ecp f validp (ref_ecp f) (Some (x, y)) (snd (ECP_fromOctet (ref_ecp f) (point_octet (fp_bytes f) c (x, y))))"
      using ref_fromOctet(1) [OF m, of x y c] by (simp_all add: ref_ecp_sel is_mkp del: on_curve.simps(2))
  next
    fix x y :: int assume "0 \<le> x" "x < 3" "0 \<le> y" "y < 3" "\<not> on_curve C3 (Some (x, y))"
    then show "fst (ECP_fromOctet (ref_ecp f) (point_octet (fp_bytes f) False (x, y))) = 0"
      using ref_fromOctet(2) [OF m, of x y] by (simp add: ref_ecp_sel del: on_curve.simps(2))
  qed (use aff in \<open>simp_all add: ref_ecp_sel on pval_ref is_mkp ref_generator del: on_curve.simps(2) ec_mul.simps One_nat_def split del: if_split\<close>)
qed

theorem ecp_library_laws_witness:
  "let P = mkp (Some (2, 1)); Q = mkp (Some (0, 0)) in
    ECP_equals (ref_ecp BLS381) (ECP_sub (ref_ecp BLS381) (ECP_add (ref_ecp BLS381) P Q) Q) P = 1 \<and>
    ECP_isinf (ref_ecp BLS381) (ECP_mul (ref_ecp BLS381) (ECP_generator (ref_ecp BLS381)) (CURVE_Order (rom3 BLS381))) = 1"
proof -
  let ?E = "encf BLS381"
  have g: "ec_group (rom_curve BLS381 3 (rom3 BLS381))" by (simp only: ref_curve C3_group)
  have n: "nbigf BLS381 (?E 1)" "nbigf BLS381 (?E 2)" "nbigf BLS381 (CURVE_Order (rom3 BLS381))"
    and s: "bigv BLS381 (?E 2) = bigv BLS381 (?E 1) + bigv BLS381 (?E 1)" "bigv BLS381 (?E 1) = bigv BLS381 (?E 1) * bigv BLS381 (?E 1)"
      "bigv BLS381 (?E 1) < 2 ^ nat 1"
    using bigv_encf [of 1 BLS381] bigv_encf [of 2 BLS381] by (simp_all add: rom3_def Let_def)
  have v: "validp (mkp (Some (2, 1)))" "validp (mkp (Some (0, 0)))" by (simp_all add: validp_def)
  show ?thesis
    unfolding Let_def
    using ecp_library_laws [OF g _ ref_ecp_ok v n(1,1,2,1,3) s] by simp
qed

theorem secp256k1_key_agreement_witness:
  "let api = ref_ecp SECP256K1; E = encf SECP256K1; D = ECP_mul api (ECP_generator api) (E 1); D' = ECP_mul api (ECP_generator api) (E 3) in
    (case (ECP_fromOctet api (ECP_toOctet api D True), ECP_fromOctet api (ECP_toOctet api D' False)) of ((s, P), (t, Q)) \<Rightarrow>
      s = 1 \<and> t = 1 \<and> ECP_equals api (ECP_mul api Q (E 1)) (ECP_mul api P (E 3)) = 1)"
proof -
  let ?E = "encf SECP256K1" and ?api = "ref_ecp SECP256K1"
  have g: "ec_group (rom_curve SECP256K1 3 (rom3 SECP256K1))" by (simp only: ref_curve C3_group)
  have b: "bigv SECP256K1 (?E 1) = 1" "bigv SECP256K1 (?E 3) = 3" "nbigf SECP256K1 (?E 1)" "nbigf SECP256K1 (?E 3)"
    "bigv SECP256K1 (CURVE_Order (rom3 SECP256K1)) = 4"
    using bigv_encf [of 1 SECP256K1] bigv_encf [of 3 SECP256K1] bigv_encf [of 4 SECP256K1] by (simp_all add: rom3_def Let_def)
  have ok: "ecp_ok_SECP256K1 3 (rom3 SECP256K1) valid3 ref_fp_56 validp ?api"
    using ref_ecp_ok [of SECP256K1]
    by (simp add: ecp_ok_SECP256K1_def ecp_base_ok_SECP256K1_def ecp_point_ok_SECP256K1_def ecp_ok_def)
  have q: "bigv SECP256K1 (?E 1) = bigv SECP256K1 (?E 1) mod bigv SECP256K1 (CURVE_Order (rom3 SECP256K1))"
    "0 < bigv SECP256K1 (CURVE_Order (rom3 SECP256K1))" unfolding b by simp_all
  have c: "ec_mul C3 1 (pt3 1) = Some (2, 1)" "ec_mul C3 3 (pt3 1) = Some (2, 2)" by code_simp+
  have nz: "ECP_isinf ?api (ECP_mul ?api (ECP_generator ?api) (?E 1)) = 0" "ECP_isinf ?api (ECP_mul ?api (ECP_generator ?api) (?E 3)) = 0"
    unfolding ref_ecp_sel evp_mkp b using c by (simp_all add: bool_int_def)
  show ?thesis
    unfolding Let_def
    using secp256k1_key_agreement [OF g _ ok b(3,4,3) q refl refl refl nz, of True False] by (simp add: case_prod_beta)
qed

end
