(* ===== verification/Ecp2.thy ===== *)
theory Ecp2
  imports Ecp
begin

text \<open>
  \<open>crypto/include/ecp2_BLS381.h\<close>: points over the quadratic extension, as \<open>Ecp\<close> does for the base field. The
  coefficient \<open>B\<close> of this curve is a parameter, the library derives it from \<open>CURVE_B\<close> by its twist. The
  constants the header declares are those of \<open>ecp_rom\<close>.
\<close>

section \<open>ecp2_BLS381.h\<close>

(* crypto/include/ecp2_BLS381.h:33-43 ECP2_BLS381 *)
record ECP2_BLS381 =
  ecp2_x :: FP2_BLS381
  ecp2_y :: FP2_BLS381
  ecp2_z :: FP2_BLS381

(* crypto/include/ecp2_BLS381.h:46-68 CURVE_A_BLS381 ... CURVE_Pyb_BLS381 *)
type_synonym ecp2_rom = ecp_rom

(* crypto/include/ecp2_BLS381.h:70-160 ECP2_BLS381_isinf ... ECP2_BLS381_setx *)
record ecp2_base_api =
  ECP2_isinf :: "ECP2_BLS381 \<Rightarrow> int"
  ECP2_copy :: "ECP2_BLS381 \<Rightarrow> ECP2_BLS381"
  ECP2_inf :: ECP2_BLS381
  ECP2_equals :: "ECP2_BLS381 \<Rightarrow> ECP2_BLS381 \<Rightarrow> int"
  ECP2_affine :: "ECP2_BLS381 \<Rightarrow> ECP2_BLS381"
  ECP2_get :: "ECP2_BLS381 \<Rightarrow> int \<times> FP2_BLS381 \<times> FP2_BLS381"
  ECP2_output :: "ECP2_BLS381 \<Rightarrow> string"
  ECP2_outputxyz :: "ECP2_BLS381 \<Rightarrow> string"
  ECP2_toOctet :: "ECP2_BLS381 \<Rightarrow> byte list"
  ECP2_fromOctet :: "byte list \<Rightarrow> int \<times> ECP2_BLS381"
  ECP2_rhs :: "FP2_BLS381 \<Rightarrow> FP2_BLS381"
  ECP2_set :: "FP2_BLS381 \<Rightarrow> FP2_BLS381 \<Rightarrow> int \<times> ECP2_BLS381"
  ECP2_setx :: "FP2_BLS381 \<Rightarrow> int \<times> ECP2_BLS381"

(* crypto/include/ecp2_BLS381.h:161-218 ECP2_BLS381_neg ... ECP2_BLS381_generator *)
record ecp2_api = ecp2_base_api +
  ECP2_neg :: "ECP2_BLS381 \<Rightarrow> ECP2_BLS381"
  ECP2_dbl :: "ECP2_BLS381 \<Rightarrow> int \<times> ECP2_BLS381"
  ECP2_add :: "ECP2_BLS381 \<Rightarrow> ECP2_BLS381 \<Rightarrow> int \<times> ECP2_BLS381"
  ECP2_sub :: "ECP2_BLS381 \<Rightarrow> ECP2_BLS381 \<Rightarrow> ECP2_BLS381"
  ECP2_mul :: "ECP2_BLS381 \<Rightarrow> BIG \<Rightarrow> ECP2_BLS381"
  ECP2_frob :: "ECP2_BLS381 \<Rightarrow> FP2_BLS381 \<Rightarrow> ECP2_BLS381"
  ECP2_mul4 :: "ECP2_BLS381 list \<Rightarrow> BIG list \<Rightarrow> ECP2_BLS381"
  ECP2_mapit :: "byte list \<Rightarrow> ECP2_BLS381"
  ECP2_generator :: ECP2_BLS381

section \<open>Contracts\<close>

definition rom_curve2 :: "int \<Rightarrow> ecp_rom \<Rightarrow> f2 \<Rightarrow> f2 curve" where
  "rom_curve2 p rom B = g2_curve p (CURVE_A rom) B"

definition rom_f2 :: "BIG \<Rightarrow> BIG \<Rightarrow> f2" where
  "rom_f2 a b = (bigv BLS381 a, bigv BLS381 b)"

definition p2val :: "fp_api \<Rightarrow> ('a ecp2_base_api_scheme) \<Rightarrow> ECP2_BLS381 \<Rightarrow> f2 point" where
  "p2val fp api P = (if ECP2_isinf api P = 1 then None else case ECP2_get api P of (s, x, y) \<Rightarrow> Some (f2val fp x, f2val fp y))"

definition is_ecp2 :: "fp_api \<Rightarrow> (ECP2_BLS381 \<Rightarrow> bool) \<Rightarrow> ('a ecp2_base_api_scheme) \<Rightarrow> f2 point \<Rightarrow> ECP2_BLS381 \<Rightarrow> bool" where
  "is_ecp2 fp vp api v P \<longleftrightarrow> vp P \<and> p2val fp api P = v"

definition point2_octet :: "f2 \<times> f2 \<Rightarrow> byte list" where
  "point2_octet = (\<lambda>((a, b), (c, d)). concat (map (to_be MODBYTES_384_58) [a, b, c, d]))"

definition ecp2_base_ok :: "int \<Rightarrow> ecp_rom \<Rightarrow> f2 \<Rightarrow> (FP_BLS381 \<Rightarrow> bool) \<Rightarrow> fp_api \<Rightarrow> (ECP2_BLS381 \<Rightarrow> bool) \<Rightarrow> ('a ecp2_base_api_scheme) \<Rightarrow> bool" where
  "ecp2_base_ok p rom B vf fp vp api \<longleftrightarrow> (let C = rom_curve2 p rom B; v = p2val fp api; is = is_ecp2 fp vp api in
     is None (ECP2_inf api) \<and>
     (\<forall>P Q. vp P \<longrightarrow> vp Q \<longrightarrow>
        on_curve C (v P) \<and> ECP2_isinf api P = bool_int (v P = None) \<and> ECP2_equals api P Q = bool_int (v P = v Q) \<and>
        is (v P) (ECP2_copy api P) \<and> is (v P) (ECP2_affine api P) \<and>
        (v P \<noteq> None \<longrightarrow> ECP2_toOctet api P = point2_octet (the (v P)))) \<and>
     (\<forall>P s x y. vp P \<longrightarrow> ECP2_get api P = (s, x, y) \<longrightarrow>
        (if v P = None then s = -1 else s = 0 \<and> valid2 vf x \<and> valid2 vf y)) \<and>
     (\<forall>x y. on_curve C (Some (x, y)) \<longrightarrow> fst (ECP2_fromOctet api (point2_octet (x, y))) = 1 \<and>
        is (Some (x, y)) (snd (ECP2_fromOctet api (point2_octet (x, y))))) \<and>
     (\<forall>x y. {fst x, snd x, fst y, snd y} \<subseteq> {0..<p} \<longrightarrow> \<not> on_curve C (Some (x, y)) \<longrightarrow> fst (ECP2_fromOctet api (point2_octet (x, y))) = 0) \<and>
     (\<forall>x y. valid2 vf x \<longrightarrow> valid2 vf y \<longrightarrow>
        valid2 vf (ECP2_rhs api x) \<and> f2val fp (ECP2_rhs api x) = ec_rhs C (f2val fp x) \<and>
        (let P = Some (f2val fp x, f2val fp y) in
          fst (ECP2_set api x y) = bool_int (on_curve C P) \<and> is (if on_curve C P then P else None) (snd (ECP2_set api x y))) \<and>
        (if \<exists>y. on_curve C (Some (f2val fp x, y))
         then fst (ECP2_setx api x) = 1 \<and> vp (snd (ECP2_setx api x)) \<and> (\<exists>y. v (snd (ECP2_setx api x)) = Some (f2val fp x, y))
         else fst (ECP2_setx api x) = 0 \<and> is None (snd (ECP2_setx api x)))))"

definition in_order :: "'v curve \<Rightarrow> nat \<Rightarrow> 'v point \<Rightarrow> bool" where
  "in_order C r P \<longleftrightarrow> on_curve C P \<and> ec_mul C r P = None"

definition ecp2_ok :: "int \<Rightarrow> ecp_rom \<Rightarrow> f2 \<Rightarrow> (FP_BLS381 \<Rightarrow> bool) \<Rightarrow> fp_api \<Rightarrow> (ECP2_BLS381 \<Rightarrow> bool) \<Rightarrow> ecp2_api \<Rightarrow> bool" where
  "ecp2_ok p rom B vf fp vp api \<longleftrightarrow> ecp2_base_ok p rom B vf fp vp api \<and>
     (let C = rom_curve2 p rom B; v = p2val fp api; is = is_ecp2 fp vp api; r = order BLS381 rom in
     is (Some (rom_f2 (CURVE_Pxa rom) (CURVE_Pxb rom), rom_f2 (CURVE_Pya rom) (CURVE_Pyb rom))) (ECP2_generator api) \<and>
     in_order C r (v (ECP2_generator api)) \<and>
     (\<forall>w. vp (ECP2_mapit api w) \<and> in_order C r (v (ECP2_mapit api w))) \<and>
     (\<forall>P Q. vp P \<longrightarrow> vp Q \<longrightarrow>
        is (ec_neg C (v P)) (ECP2_neg api P) \<and> is (ec_add C (v P) (v P)) (snd (ECP2_dbl api P)) \<and>
        is (ec_add C (v P) (v Q)) (snd (ECP2_add api P Q)) \<and> is (ec_add C (v P) (ec_neg C (v Q))) (ECP2_sub api P Q) \<and>
        (\<forall>a. nbigf BLS381 a \<longrightarrow> is (ec_mul C (nat (bigv BLS381 a)) (v P)) (ECP2_mul api P a)) \<and>
        (\<forall>f. valid2 vf f \<longrightarrow> f2val fp f = rom_f2 (Fra rom) (Frb rom) \<longrightarrow> in_order C r (v P) \<longrightarrow>
           is (ec_mul C (nat p) (v P)) (ECP2_frob api P f))) \<and>
     (\<forall>Qs bs. length Qs = 4 \<longrightarrow> length bs = 4 \<longrightarrow> list_all vp Qs \<longrightarrow> list_all (nbigf BLS381) bs \<longrightarrow>
        is (ec_sum C (map2 (\<lambda>Q b. ec_mul C (nat (bigv BLS381 b)) (v Q)) Qs bs)) (ECP2_mul4 api Qs bs)))"

section \<open>The laws\<close>

lemma is_ecp2D: "is_ecp2 fp vp api v P \<Longrightarrow> vp P" "is_ecp2 fp vp api v P \<Longrightarrow> p2val fp api P = v"
  by (simp_all add: is_ecp2_def)

lemma ecp2_baseD:
  assumes ok: "ecp2_ok p rom B vf fp vp api" and P: "is_ecp2 fp vp api v P"
  defines "C \<equiv> rom_curve2 p rom B"
  shows "on_curve C v" "ECP2_isinf api P = bool_int (v = None)" "is_ecp2 fp vp api w Q \<Longrightarrow> ECP2_equals api P Q = bool_int (v = w)"
    "v = Some z \<Longrightarrow> ECP2_toOctet api P = point2_octet z"
    "v = Some z \<Longrightarrow> ECP2_get api P = (s, x, y) \<Longrightarrow> s = 0 \<and> valid2 vf x \<and> valid2 vf y \<and> (f2val fp x, f2val fp y) = z"
proof -
  note vP = is_ecp2D [OF P]
  note A = ok [unfolded ecp2_ok_def ecp2_base_ok_def Let_def, THEN conjunct1, THEN conjunct2, folded C_def]
  note A1 = A [THEN conjunct1, rule_format, OF vP(1), unfolded vP(2)]
  show "on_curve C v" "ECP2_isinf api P = bool_int (v = None)" "v = Some z \<Longrightarrow> ECP2_toOctet api P = point2_octet z"
    using A1 [OF vP(1)] by auto
  show "ECP2_equals api P Q = bool_int (v = w)" if "is_ecp2 fp vp api w Q" using A1 [OF is_ecp2D(1) [OF that]] is_ecp2D(2) [OF that] by simp
  assume z: "v = Some z" and g: "ECP2_get api P = (s, x, y)"
  then have "(f2val fp x, f2val fp y) = z" using vP(2) by (simp add: p2val_def split: if_splits)
  then show "s = 0 \<and> valid2 vf x \<and> valid2 vf y \<and> (f2val fp x, f2val fp y) = z"
    using A [THEN conjunct2, THEN conjunct1, rule_format, OF vP(1) g] vP(2) z by simp
qed

lemma ecp2_build:
  assumes ok: "ecp2_ok p rom B vf fp vp api" and P: "is_ecp2 fp vp api v P"
  defines "C \<equiv> rom_curve2 p rom B" and "is \<equiv> is_ecp2 fp vp api"
  shows "is (ec_neg C v) (ECP2_neg api P)" "is (ec_add C v v) (snd (ECP2_dbl api P))"
    "is_ecp2 fp vp api w Q \<Longrightarrow> is (ec_add C v w) (snd (ECP2_add api P Q))"
    "is_ecp2 fp vp api w Q \<Longrightarrow> is (ec_add C v (ec_neg C w)) (ECP2_sub api P Q)"
    "nbigf BLS381 a \<Longrightarrow> is (ec_mul C (nat (bigv BLS381 a)) v) (ECP2_mul api P a)"
    "valid2 vf f \<Longrightarrow> f2val fp f = rom_f2 (Fra rom) (Frb rom) \<Longrightarrow> in_order C (order BLS381 rom) v \<Longrightarrow>
      is (ec_mul C (nat p) v) (ECP2_frob api P f)"
proof -
  note vP = is_ecp2D [OF P]
  note M = ok [unfolded ecp2_ok_def Let_def, THEN conjunct2, THEN conjunct2, THEN conjunct2, THEN conjunct2, THEN conjunct1,
      rule_format, OF vP(1), unfolded vP(2), folded C_def is_def]
  show "is (ec_neg C v) (ECP2_neg api P)" "is (ec_add C v v) (snd (ECP2_dbl api P))"
    "nbigf BLS381 a \<Longrightarrow> is (ec_mul C (nat (bigv BLS381 a)) v) (ECP2_mul api P a)"
    "valid2 vf f \<Longrightarrow> f2val fp f = rom_f2 (Fra rom) (Frb rom) \<Longrightarrow> in_order C (order BLS381 rom) v \<Longrightarrow>
      is (ec_mul C (nat p) v) (ECP2_frob api P f)"
    using M [OF vP(1)] by blast+
  assume q: "is_ecp2 fp vp api w Q"
  show "is (ec_add C v w) (snd (ECP2_add api P Q))" "is (ec_add C v (ec_neg C w)) (ECP2_sub api P Q)"
    using M [OF is_ecp2D(1) [OF q]] is_ecp2D(2) [OF q] by simp_all
qed

lemma ecp2_generatorD:
  assumes "ecp2_ok p rom B vf fp vp api"
  shows "is_ecp2 fp vp api (p2val fp api (ECP2_generator api)) (ECP2_generator api)"
    "in_order (rom_curve2 p rom B) (order BLS381 rom) (p2val fp api (ECP2_generator api))"
    "is_ecp2 fp vp api (p2val fp api (ECP2_mapit api w)) (ECP2_mapit api w)"
    "in_order (rom_curve2 p rom B) (order BLS381 rom) (p2val fp api (ECP2_mapit api w))"
  using assms unfolding ecp2_ok_def Let_def is_ecp2_def by blast+

lemma ecp2_setD:
  assumes ok: "ecp2_ok p rom B vf fp vp api" and c: "on_curve (rom_curve2 p rom B) (Some (f2val fp x, f2val fp y))"
    and v: "valid2 vf x" "valid2 vf y"
  shows "fst (ECP2_set api x y) = 1" "is_ecp2 fp vp api (Some (f2val fp x, f2val fp y)) (snd (ECP2_set api x y))"
    "fst (ECP2_setx api x) = 1" "\<exists>y. is_ecp2 fp vp api (Some (f2val fp x, y)) (snd (ECP2_setx api x))"
    "fst (ECP2_fromOctet api (point2_octet (f2val fp x, f2val fp y))) = 1"
    "is_ecp2 fp vp api (Some (f2val fp x, f2val fp y)) (snd (ECP2_fromOctet api (point2_octet (f2val fp x, f2val fp y))))"
proof -
  note A = ok [unfolded ecp2_ok_def ecp2_base_ok_def Let_def, THEN conjunct1, THEN conjunct2, THEN conjunct2, THEN conjunct2]
  show "fst (ECP2_fromOctet api (point2_octet (f2val fp x, f2val fp y))) = 1"
    "is_ecp2 fp vp api (Some (f2val fp x, f2val fp y)) (snd (ECP2_fromOctet api (point2_octet (f2val fp x, f2val fp y))))"
    using A [THEN conjunct1, rule_format, OF c] by blast+
  note S = A [THEN conjunct2, THEN conjunct2, rule_format, OF v]
  show "fst (ECP2_set api x y) = 1" "is_ecp2 fp vp api (Some (f2val fp x, f2val fp y)) (snd (ECP2_set api x y))"
    using S c by (simp_all add: bool_int_def del: on_curve.simps)
  have ex: "\<exists>y. on_curve (rom_curve2 p rom B) (Some (f2val fp x, y))" using c by blast
  show "fst (ECP2_setx api x) = 1" "\<exists>y. is_ecp2 fp vp api (Some (f2val fp x, y)) (snd (ECP2_setx api x))"
    using S [THEN conjunct2, THEN conjunct2, THEN conjunct2, unfolded if_P [OF ex]] unfolding is_ecp2_def by blast+
qed

text \<open>
  Over any library with the documented functions of \<open>ecp2_BLS381.h\<close>, whose curve is a group, by its own
  \<open>equals\<close>: subtraction undoes addition and doubling is addition; multiplication by a number turns sums of
  numbers into sums of points and \<open>mul4\<close> is the sum of four products; \<open>frob\<close> multiplies the generator by the
  modulus; the order of the group multiplies the generator and what \<open>mapit\<close> returns to infinity; and the
  coordinates of \<open>get\<close> and the octet string give a point back, the x-coordinate alone a point with it.
\<close>

theorem ecp2_library_laws:
  assumes grp: "ec_group (rom_curve2 p rom B)" and ok: "ecp2_ok p rom B vf fp vp api" and v: "vp P" "vp Q" "vp S" "vp T"
    and n: "nbigf BLS381 a" "nbigf BLS381 b" "nbigf BLS381 c" "nbigf BLS381 d" "nbigf BLS381 m" "nbigf BLS381 (CURVE_Order rom)"
    and s: "bigv BLS381 c = bigv BLS381 a + bigv BLS381 b" "bigv BLS381 m = p"
    and f: "valid2 vf f" "f2val fp f = rom_f2 (Fra rom) (Frb rom)"
  defines "eq \<equiv> ECP2_equals api" and "add \<equiv> \<lambda>P Q. snd (ECP2_add api P Q)" and "mul \<equiv> ECP2_mul api" and "G \<equiv> ECP2_generator api"
  shows "eq (ECP2_sub api (add P Q) Q) P = 1 \<and> ECP2_isinf api (add P (ECP2_neg api P)) = 1 \<and> eq (snd (ECP2_dbl api P)) (add P P) = 1 \<and>
    eq (add (mul P a) (mul P b)) (mul P c) = 1 \<and>
    eq (ECP2_mul4 api [P, Q, S, T] [a, b, c, d]) (add (mul P a) (add (mul Q b) (add (mul S c) (mul T d)))) = 1 \<and>
    eq (ECP2_frob api G f) (mul G m) = 1 \<and>
    ECP2_isinf api (mul G (CURVE_Order rom)) = 1 \<and> ECP2_isinf api (mul (ECP2_mapit api w) (CURVE_Order rom)) = 1 \<and>
    (ECP2_isinf api P = 0 \<longrightarrow> (case ECP2_get api P of (z, x, y) \<Rightarrow> z = 0 \<and>
       (case ECP2_set api x y of (r, P') \<Rightarrow> r = 1 \<and> eq P' P = 1) \<and>
       (case ECP2_fromOctet api (ECP2_toOctet api P) of (r, P') \<Rightarrow> r = 1 \<and> eq P' P = 1) \<and>
       (case ECP2_setx api x of (r, P') \<Rightarrow> r = 1 \<and> f2val fp (fst (snd (ECP2_get api P'))) = f2val fp x)))"
proof -
  let ?C = "rom_curve2 p rom B" and ?v = "p2val fp api"
  note B = ecp2_build [OF ok] and D = ecp2_baseD [OF ok] and gen = ecp2_generatorD [OF ok, folded G_def] 
  have I: "is_ecp2 fp vp api (?v X) X" if "vp X" for X using that by (simp add: is_ecp2_def)
  note J = v [THEN I] and o = D(1) [OF v(1) [THEN I]] D(1) [OF v(2) [THEN I]]
  have e: "eq X Y = 1" if "is_ecp2 fp vp api x X" "is_ecp2 fp vp api y Y" "x = y" for X Y x y
    using D(3) [OF that(1,2)] that(3) by (simp add: bool_int_def eq_def)
  have inf: "ECP2_isinf api X = 1" if "is_ecp2 fp vp api x X" "x = None" for X x using D(2) [OF that(1)] that(2) by (simp add: bool_int_def)
  have A: "is_ecp2 fp vp api (ec_add ?C x y) (add X Y)" if "is_ecp2 fp vp api x X" "is_ecp2 fp vp api y Y" for X Y x y
    unfolding add_def by (rule B(3) [OF that])
  note M = B(5) [folded mul_def]
  note ogen = gen(2,4) [unfolded in_order_def order_def]
  show ?thesis
  proof (intro conjI impI)
    show "eq (ECP2_sub api (add P Q) Q) P = 1" by (rule e [OF B(4) [OF A [OF J(1,2)] J(2)] J(1) ec_cancel(1) [OF grp o]])
    show "ECP2_isinf api (add P (ECP2_neg api P)) = 1" by (rule inf [OF A [OF J(1) B(1) [OF J(1)]] ec_groupD(3) [OF grp o(1) o(1)]])
    show "eq (snd (ECP2_dbl api P)) (add P P) = 1" by (rule e [OF B(2) [OF J(1)] A [OF J(1) J(1)] refl])
    show "eq (add (mul P a) (mul P b)) (mul P c) = 1"
      by (rule e [OF A [OF M [OF J(1) n(1)] M [OF J(1) n(2)]] M [OF J(1) n(3)]])
        (simp only: nat_big_add [OF n(1,2) s(1)] ec_mul_add [OF grp o(1)])
    show "eq (ECP2_mul4 api [P, Q, S, T] [a, b, c, d]) (add (mul P a) (add (mul Q b) (add (mul S c) (mul T d)))) = 1"
    proof (rule e [OF _ A [OF M [OF J(1) n(1)] A [OF M [OF J(2) n(2)] A [OF M [OF J(3) n(3)] M [OF J(4) n(4)]]]] refl])
      show "is_ecp2 fp vp api (ec_add ?C (ec_mul ?C (nat (bigv BLS381 a)) (?v P)) (ec_add ?C (ec_mul ?C (nat (bigv BLS381 b)) (?v Q))
          (ec_add ?C (ec_mul ?C (nat (bigv BLS381 c)) (?v S)) (ec_mul ?C (nat (bigv BLS381 d)) (?v T))))) (ECP2_mul4 api [P, Q, S, T] [a, b, c, d])"
        using ok [unfolded ecp2_ok_def Let_def, THEN conjunct2, THEN conjunct2, THEN conjunct2, THEN conjunct2, THEN conjunct2,
          rule_format, of "[P, Q, S, T]" "[a, b, c, d]"] v n by (simp add: ec_sum_def)
    qed
    show "eq (ECP2_frob api G f) (mul G m) = 1"
      by (rule e [OF B(6) [OF gen(1) f gen(2)] M [OF gen(1) n(5)]]) (simp only: s)
    show "ECP2_isinf api (mul G (CURVE_Order rom)) = 1" by (rule inf [OF M [OF gen(1) n(6)]]) (simp only: ogen)
    show "ECP2_isinf api (mul (ECP2_mapit api w) (CURVE_Order rom)) = 1" by (rule inf [OF M [OF gen(3) n(6)]]) (simp only: ogen)
    assume "ECP2_isinf api P = 0"
    then obtain z where z: "?v P = Some z" using D(2) [OF J(1)] by (auto simp: bool_int_def split: if_splits)
    obtain t x y where g: "ECP2_get api P = (t, x, y)" by (metis prod.exhaust)
    note X = D(5) [OF J(1) z g]
    have c: "on_curve ?C (Some (f2val fp x, f2val fp y))" and j: "is_ecp2 fp vp api (Some (f2val fp x, f2val fp y)) P"
      using X z o(1) J(1) by simp_all
    have xy: "valid2 vf x" "valid2 vf y" using X by blast+
    note T = ecp2_setD [OF ok c xy]
    have oct: "ECP2_toOctet api P = point2_octet (f2val fp x, f2val fp y)" by (rule D(4) [OF j refl])
    from T(4) obtain y' where "is_ecp2 fp vp api (Some (f2val fp x, y')) (snd (ECP2_setx api x))" by blast
    then have "f2val fp (fst (snd (ECP2_get api (snd (ECP2_setx api x))))) = f2val fp x"
      unfolding is_ecp2_def p2val_def by (auto split: if_splits prod.splits)
    then show "case ECP2_get api P of (z, x, y) \<Rightarrow> z = 0 \<and>
       (case ECP2_set api x y of (r, P') \<Rightarrow> r = 1 \<and> eq P' P = 1) \<and>
       (case ECP2_fromOctet api (ECP2_toOctet api P) of (r, P') \<Rightarrow> r = 1 \<and> eq P' P = 1) \<and>
       (case ECP2_setx api x of (r, P') \<Rightarrow> r = 1 \<and> f2val fp (fst (snd (ECP2_get api P'))) = f2val fp x)"
      using T(1,3,5) X e [OF T(2) j refl] e [OF T(6) j refl] by (simp add: g oct case_prod_beta)
  qed
qed

section \<open>A library over the curve y^2 = x^3 + x of nine elements\<close>

text \<open>Its sixteen points are numbered by pairs modulo four.\<close>

definition C9 :: "f2 curve" where "C9 = g2_curve 3 1 (0, 0)"

definition aff9 :: "(f2 \<times> f2) list" where
  "aff9 = [((1, 1), (0, 1)), ((0, 1), (0, 0)), ((1, 1), (0, 2)), ((2, 0), (1, 0)), ((1, 2), (0, 1)), ((1, 0), (0, 2)), ((2, 2), (1, 0)), ((0, 0), (0, 0)), ((2, 1), (1, 0)), ((0, 2), (0, 0)), ((2, 1), (2, 0)), ((2, 0), (2, 0)), ((2, 2), (2, 0)), ((1, 0), (0, 1)), ((1, 2), (0, 2))]"

definition pt9 :: "nat \<times> nat \<Rightarrow> f2 point" where
  "pt9 mn = (None # map Some aff9) ! (4 * fst mn + snd mn)"

definition add44 :: "nat \<times> nat \<Rightarrow> nat \<times> nat \<Rightarrow> nat \<times> nat" where
  "add44 a b = ((fst a + fst b) mod 4, (snd a + snd b) mod 4)"

definition all44 :: "(nat \<times> nat) list" where
  "all44 = List.product [0..<4] [0..<4]"

lemma C9_table:
  "list_all (\<lambda>a. on_curve C9 (pt9 a) \<and> list_ex (\<lambda>b. ec_neg C9 (pt9 a) = pt9 b \<and> pt9 (add44 a b) = None) all44 \<and>
     list_all (\<lambda>b. ec_add C9 (pt9 a) (pt9 b) = pt9 (add44 a b)) all44) all44"
  by code_simp

lemma on_C9_table:
  "list_all (\<lambda>x. list_all (\<lambda>y. on_curve C9 (Some (x, y)) \<longrightarrow> (x, y) \<in> set aff9) all2) all2"
  by code_simp

definition mkp2 :: "f2 point \<Rightarrow> ECP2_BLS381" where
  "mkp2 v = (case v of None \<Rightarrow> \<lparr>ecp2_x = mk2v (0, 0), ecp2_y = mk2v (1, 0), ecp2_z = mk2v (0, 0)\<rparr>
     | Some (x, y) \<Rightarrow> \<lparr>ecp2_x = mk2v x, ecp2_y = mk2v y, ecp2_z = mk2v (1, 0)\<rparr>)"

definition evp2 :: "ECP2_BLS381 \<Rightarrow> f2 point" where
  "evp2 P = (if ev2 (ecp2_z P) = (0, 0) then None else Some (ev2 (ecp2_x P), ev2 (ecp2_y P)))"

definition validp2 :: "ECP2_BLS381 \<Rightarrow> bool" where
  "validp2 P \<longleftrightarrow> P \<in> set (map mkp2 (None # map Some aff9))"

definition ref_ecp2_base :: ecp2_base_api where
  "ref_ecp2_base = \<lparr>
     ECP2_isinf = \<lambda>P. bool_int (evp2 P = None), ECP2_copy = \<lambda>P. P, ECP2_inf = mkp2 None,
     ECP2_equals = \<lambda>P Q. bool_int (evp2 P = evp2 Q), ECP2_affine = \<lambda>P. P,
     ECP2_get = \<lambda>P. (case evp2 P of None \<Rightarrow> (- 1, mk2v (0, 0), mk2v (0, 0)) | Some (x, y) \<Rightarrow> (0, mk2v x, mk2v y)),
     ECP2_output = \<lambda>P. [], ECP2_outputxyz = \<lambda>P. [],
     ECP2_toOctet = \<lambda>P. (case evp2 P of None \<Rightarrow> [] | Some v \<Rightarrow> point2_octet v),
     ECP2_fromOctet = \<lambda>w. (case find (\<lambda>v. w = point2_octet v) aff9 of None \<Rightarrow> (0, mkp2 None) | Some v \<Rightarrow> (1, mkp2 (Some v))),
     ECP2_rhs = \<lambda>x. mk2v (ec_rhs C9 (ev2 x)),
     ECP2_set = \<lambda>x y. (let P = Some (ev2 x, ev2 y) in if on_curve C9 P then (1, mkp2 P) else (0, mkp2 None)),
     ECP2_setx = \<lambda>x. (case find (\<lambda>v. fst v = ev2 x) aff9 of None \<Rightarrow> (0, mkp2 None) | Some v \<Rightarrow> (1, mkp2 (Some v))) \<rparr>"

definition ref_ecp2 :: ecp2_api where
  "ref_ecp2 = ecp2_base_api.extend ref_ecp2_base \<lparr>
     ECP2_neg = \<lambda>P. mkp2 (ec_neg C9 (evp2 P)),
     ECP2_dbl = \<lambda>P. (0, mkp2 (ec_add C9 (evp2 P) (evp2 P))),
     ECP2_add = \<lambda>P Q. (0, mkp2 (ec_add C9 (evp2 P) (evp2 Q))),
     ECP2_sub = \<lambda>P Q. mkp2 (ec_add C9 (evp2 P) (ec_neg C9 (evp2 Q))),
     ECP2_mul = \<lambda>P b. mkp2 (ec_mul C9 (nat (bigv BLS381 b)) (evp2 P)),
     ECP2_frob = \<lambda>P f. mkp2 (ec_mul C9 3 (evp2 P)),
     ECP2_mul4 = \<lambda>Qs bs. mkp2 (ec_sum C9 (map2 (\<lambda>Q b. ec_mul C9 (nat (bigv BLS381 b)) (evp2 Q)) Qs bs)),
     ECP2_mapit = \<lambda>w. mkp2 (pt9 (2, 0)), ECP2_generator = mkp2 (pt9 (2, 0)) \<rparr>"

lemma ref_ecp2_sel:
  "ECP2_isinf ref_ecp2 = (\<lambda>P. bool_int (evp2 P = None))"
  "ECP2_copy ref_ecp2 = (\<lambda>P. P)"
  "ECP2_inf ref_ecp2 = (mkp2 None)"
  "ECP2_equals ref_ecp2 = (\<lambda>P Q. bool_int (evp2 P = evp2 Q))"
  "ECP2_affine ref_ecp2 = (\<lambda>P. P)"
  "ECP2_get ref_ecp2 = (\<lambda>P. (case evp2 P of None \<Rightarrow> (- 1, mk2v (0, 0), mk2v (0, 0)) | Some (x, y) \<Rightarrow> (0, mk2v x, mk2v y)))"
  "ECP2_output ref_ecp2 = (\<lambda>P. [])"
  "ECP2_outputxyz ref_ecp2 = (\<lambda>P. [])"
  "ECP2_toOctet ref_ecp2 = (\<lambda>P. (case evp2 P of None \<Rightarrow> [] | Some v \<Rightarrow> point2_octet v))"
  "ECP2_fromOctet ref_ecp2 = (\<lambda>w. (case find (\<lambda>v. w = point2_octet v) aff9 of None \<Rightarrow> (0, mkp2 None) | Some v \<Rightarrow> (1, mkp2 (Some v))))"
  "ECP2_rhs ref_ecp2 = (\<lambda>x. mk2v (ec_rhs C9 (ev2 x)))"
  "ECP2_set ref_ecp2 = (\<lambda>x y. (let P = Some (ev2 x, ev2 y) in if on_curve C9 P then (1, mkp2 P) else (0, mkp2 None)))"
  "ECP2_setx ref_ecp2 = (\<lambda>x. (case find (\<lambda>v. fst v = ev2 x) aff9 of None \<Rightarrow> (0, mkp2 None) | Some v \<Rightarrow> (1, mkp2 (Some v))))"
  "ECP2_neg ref_ecp2 = (\<lambda>P. mkp2 (ec_neg C9 (evp2 P)))"
  "ECP2_dbl ref_ecp2 = (\<lambda>P. (0, mkp2 (ec_add C9 (evp2 P) (evp2 P))))"
  "ECP2_add ref_ecp2 = (\<lambda>P Q. (0, mkp2 (ec_add C9 (evp2 P) (evp2 Q))))"
  "ECP2_sub ref_ecp2 = (\<lambda>P Q. mkp2 (ec_add C9 (evp2 P) (ec_neg C9 (evp2 Q))))"
  "ECP2_mul ref_ecp2 = (\<lambda>P b. mkp2 (ec_mul C9 (nat (bigv BLS381 b)) (evp2 P)))"
  "ECP2_frob ref_ecp2 = (\<lambda>P f. mkp2 (ec_mul C9 3 (evp2 P)))"
  "ECP2_mul4 ref_ecp2 = (\<lambda>Qs bs. mkp2 (ec_sum C9 (map2 (\<lambda>Q b. ec_mul C9 (nat (bigv BLS381 b)) (evp2 Q)) Qs bs)))"
  "ECP2_mapit ref_ecp2 = (\<lambda>w. mkp2 (pt9 (2, 0)))"
  "ECP2_generator ref_ecp2 = (mkp2 (pt9 (2, 0)))"
  by (simp_all add: ref_ecp2_def ref_ecp2_base_def ecp2_base_api.defs ecp2_api.defs)

lemmas pt9 = C9_table [unfolded list_all_iff list_ex_iff, rule_format]

lemma red2_in: "red2 3 v = v \<Longrightarrow> v \<in> set all2"
  by (metis red_in_all(1))

lemma C9_red: "on_curve C9 (Some (x, y)) \<Longrightarrow> red2 3 x = x \<and> red2 3 y = y"
  by (simp add: C9_def g2_curve_def)

lemma on_C9: "on_curve C9 P \<longleftrightarrow> P \<in> set (None # map Some aff9)"
proof
  assume on: "on_curve C9 P"
  show "P \<in> set (None # map Some aff9)"
  proof (cases P)
    case (Some v)
    obtain x y where v: "v = (x, y)" by (metis prod.exhaust)
    have "(x, y) \<in> set aff9"
      using on_C9_table [unfolded list_all_iff, rule_format] C9_red [of x y] red2_in [of x] red2_in [of y] on unfolding Some v by blast
    then show ?thesis by (simp add: Some v)
  qed simp
next
  have "list_all (on_curve C9) (None # map Some aff9)" by code_simp
  then show "P \<in> set (None # map Some aff9) \<Longrightarrow> on_curve C9 P" unfolding list_all_iff by blast
qed

lemma all_pt9: "set (None # map Some aff9) = pt9 ` set all44"
proof -
  have "None # map Some aff9 = map pt9 all44" by code_simp
  then show ?thesis by (metis set_map)
qed

lemma in_all44: "a \<in> set all44 \<longleftrightarrow> fst a < 4 \<and> snd a < 4"
  by (cases a) (simp add: all44_def del: upt_Suc)

lemma C9_group: "ec_group C9"
proof (rule ec_group_numbered [where G = "set all44" and pt = pt9 and f = add44])
  show "\<exists>a \<in> set all44. P = pt9 a" if "on_curve C9 P" for P using that unfolding on_C9 all_pt9 by blast
  show "on_curve C9 (pt9 a)" if "a \<in> set all44" for a using pt9 [OF that] by blast
  show "add44 a b \<in> set all44 \<and> add44 a b = add44 b a \<and> ec_add C9 (pt9 a) (pt9 b) = pt9 (add44 a b)" if "a \<in> set all44" "b \<in> set all44" for a b
    using pt9 [OF that(1)] that by (simp add: in_all44 add44_def ac_simps)
  show "add44 (add44 a b) c = add44 a (add44 b c)" for a b c by (simp add: add44_def mod_simps ac_simps)
  show "\<exists>b \<in> set all44. ec_neg C9 (pt9 a) = pt9 b \<and> pt9 (add44 a b) = None" if "a \<in> set all44" for a using pt9 [OF that] by blast
qed

lemma evp2_mkp2 [simp]: "evp2 (mkp2 v) = v"
  by (auto simp: evp2_def mkp2_def ev_mk split: option.splits)

lemma validp2: "validp2 P \<Longrightarrow> on_curve C9 (evp2 P)" "on_curve C9 v \<Longrightarrow> validp2 (mkp2 v)"
  by (auto simp: validp2_def on_C9)

lemma p2val_ref: "on_curve C9 (evp2 P) \<Longrightarrow> p2val (ref_fp 3) ref_ecp2 P = evp2 P"
  by (auto simp: p2val_def ref_ecp2_sel bool_int_def ev_mk split: option.splits)

lemma is_mkp2: "on_curve C9 v \<Longrightarrow> is_ecp2 (ref_fp 3) validp2 ref_ecp2 w (mkp2 v) \<longleftrightarrow> v = w"
  by (simp add: is_ecp2_def validp2 p2val_ref)

lemma ref_curve2: "rom_curve2 3 (rom3 BLS381) (0, 0) = C9" "order BLS381 (rom3 BLS381) = 2"
  by (simp add: rom_curve2_def C9_def rom3_def Let_def, simp only: ref_curve simp_thms if_True)

lemma C9_generator: "on_curve C9 (pt9 (2, 0))" "ec_mul C9 2 (pt9 (2, 0)) = None" "pt9 (2, 0) = Some ((0, 0), (0, 0))"
  by code_simp+

lemma point2_octet_inj:
  assumes e: "point2_octet (x, y) = point2_octet (x', y')" and r: "{fst x, snd x, fst y, snd y, fst x', snd x', fst y', snd y'} \<subseteq> {0..<3}"
  shows "(x, y) = (x', y')"
proof -
  have "(3 :: int) < 256 ^ MODBYTES_384_58" using power_increasing [of 1 MODBYTES_384_58 "256 :: int"] by (simp add: amcl_const)
  then have l: "length (to_be MODBYTES_384_58 v) = MODBYTES_384_58" if "v \<in> {0..<3}" for v using that by (intro to_be_len) auto
  have i: "v = w" if "to_be MODBYTES_384_58 v = to_be MODBYTES_384_58 w" "v \<in> {0..<3}" "w \<in> {0..<3}" for v w
    using to_be_inj [OF that(1)] that(2,3) by simp
  obtain a b c d a' b' c' d' where x: "x = (a, b)" "y = (c, d)" "x' = (a', b')" "y' = (c', d')" by (metis prod.exhaust)
  have r: "a \<in> {0..<3}" "b \<in> {0..<3}" "c \<in> {0..<3}" "d \<in> {0..<3}" "a' \<in> {0..<3}" "b' \<in> {0..<3}" "c' \<in> {0..<3}" "d' \<in> {0..<3}"
    using r unfolding x by auto
  note L = r [THEN l]
  have "to_be MODBYTES_384_58 a = to_be MODBYTES_384_58 a' \<and> to_be MODBYTES_384_58 b = to_be MODBYTES_384_58 b' \<and>
      to_be MODBYTES_384_58 c = to_be MODBYTES_384_58 c' \<and> to_be MODBYTES_384_58 d = to_be MODBYTES_384_58 d'"
    using e unfolding x point2_octet_def by (simp add: append_eq_append_conv L del: append_same_eq)
  then show ?thesis unfolding x using i r by blast
qed

lemma aff9_range: "on_curve C9 (Some (x, y)) \<Longrightarrow> {fst x, snd x, fst y, snd y} \<subseteq> {0..<3}"
  using C9_red [of x y] by (cases x; cases y) (auto simp: red2_def red1_def mod_eq_self_iff_div_eq_0)

lemma find_eq: "find (\<lambda>v. v = a) xs = (if a \<in> set xs then Some a else None)"
  by (induction xs) auto

lemma ref_fromOctet2:
  assumes r: "{fst x, snd x, fst y, snd y} \<subseteq> {0..<3}"
  shows "ECP2_fromOctet ref_ecp2 (point2_octet (x, y)) = (if on_curve C9 (Some (x, y)) then (1, mkp2 (Some (x, y))) else (0, mkp2 None))"
proof -
  have "point2_octet (x, y) = point2_octet v \<longleftrightarrow> v = (x, y)" if "v \<in> set aff9" for v
  proof -
    obtain x' y' where v: "v = (x', y')" by (metis prod.exhaust)
    have "on_curve C9 (Some (x', y'))" using that unfolding on_C9 v by simp
    from aff9_range [OF this] r point2_octet_inj [of x y x' y'] show ?thesis unfolding v by auto
  qed
  then have "find (\<lambda>v. point2_octet (x, y) = point2_octet v) aff9 = find (\<lambda>v. v = (x, y)) aff9" by (intro find_cong) simp_all
  also have "\<dots> = (if (x, y) \<in> set aff9 then Some (x, y) else None)" by (rule find_eq)
  finally show ?thesis unfolding on_C9 by (auto simp: ref_ecp2_sel)
qed

lemma ref_setx2:
  "if \<exists>y. on_curve C9 (Some (x, y))
   then \<exists>y. on_curve C9 (Some (x, y)) \<and> (case find (\<lambda>v. fst v = x) aff9 of None \<Rightarrow> (0, mkp2 None) | Some v \<Rightarrow> (1, mkp2 (Some v))) = (1 :: int, mkp2 (Some (x, y)))
   else (case find (\<lambda>v. fst v = x) aff9 of None \<Rightarrow> (0 :: int, mkp2 None) | Some v \<Rightarrow> (1, mkp2 (Some v))) = (0, mkp2 None)"
proof (cases "find (\<lambda>v. fst v = x) aff9")
  case None
  then have "\<nexists>y. on_curve C9 (Some (x, y))" unfolding on_C9 find_None_iff by auto
  then show ?thesis by (simp add: None)
next
  case (Some v)
  then have "v \<in> set aff9 \<and> v = (x, snd v)" by (auto simp: find_Some_iff)
  moreover from this have on: "on_curve C9 (Some (x, snd v))" unfolding on_C9 by (metis list.set_intros(2) image_eqI set_map)
  ultimately have "\<exists>y. on_curve C9 (Some (x, y)) \<and> (1 :: int, mkp2 (Some v)) = (1, mkp2 (Some (x, y)))" by metis
  with on show ?thesis unfolding Some by (simp del: on_curve.simps) blast
qed

lemma ref_ecp2_ok: "ecp2_ok 3 (rom3 BLS381) (0, 0) valid3 (ref_fp 3) validp2 ref_ecp2"
proof -
  note d = ec_groupD [OF C9_group]
  have c: "on_curve C9 (ec_mul C9 n v)" if "on_curve C9 v" for n v by (rule ec_mul_closed [OF C9_group that])
  have n: "on_curve C9 (ec_neg C9 v)" if "on_curve C9 v" for v by (rule d(2) [OF that that])
  note on = validp2 c n d(1)
  have same: "is_ecp2 (ref_fp 3) validp2 ref_ecp2 (p2val (ref_fp 3) ref_ecp2 P) P" if "validp2 P" for P using that by (simp add: is_ecp2_def)
  have red: "red2 3 x = x \<and> red2 3 y = y" if "on_curve C9 (Some (x, y))" for x y by (rule C9_red [OF that])
  have vx: "valid2 valid3 (mk2v x) \<and> valid2 valid3 (mk2v y)" if "on_curve C9 (Some (x, y))" for x y
    using valid_mk(1) [of x] valid_mk(1) [of y] red [OF that] by simp
  have base: "ecp2_base_ok 3 (rom3 BLS381) (0, 0) valid3 (ref_fp 3) validp2 ref_ecp2"
    unfolding ecp2_base_ok_def Let_def ref_curve2
  proof (intro conjI allI impI)
    fix P s x y assume "validp2 P" "ECP2_get ref_ecp2 P = (s, x, y)"
    then show "if p2val (ref_fp 3) ref_ecp2 P = None then s = - 1 else s = 0 \<and> valid2 valid3 x \<and> valid2 valid3 y"
      using validp2(1) [of P] vx by (auto simp: p2val_ref ref_ecp2_sel simp del: on_curve.simps(2) split: option.splits)
  next
    fix P assume "validp2 P" "p2val (ref_fp 3) ref_ecp2 P \<noteq> None"
    then show "ECP2_toOctet ref_ecp2 P = point2_octet (the (p2val (ref_fp 3) ref_ecp2 P))"
      using validp2(1) [of P] by (auto simp: p2val_ref ref_ecp2_sel)
  next
    fix x y assume "on_curve C9 (Some (x, y))"
    with ref_fromOctet2 [OF aff9_range [OF this]]
    show "fst (ECP2_fromOctet ref_ecp2 (point2_octet (x, y))) = 1"
      "is_ecp2 (ref_fp 3) validp2 ref_ecp2 (Some (x, y)) (snd (ECP2_fromOctet ref_ecp2 (point2_octet (x, y))))"
      by (simp_all add: is_mkp2 del: on_curve.simps(2))
  next
    fix x y :: f2 assume "{fst x, snd x, fst y, snd y} \<subseteq> {0..<3}" "\<not> on_curve C9 (Some (x, y))"
    then show "fst (ECP2_fromOctet ref_ecp2 (point2_octet (x, y))) = 0" using ref_fromOctet2 [of x y] by (simp del: on_curve.simps(2))
  next
    fix x
    show "if \<exists>y. on_curve C9 (Some (ev2 x, y))
       then fst (ECP2_setx ref_ecp2 x) = 1 \<and> validp2 (snd (ECP2_setx ref_ecp2 x)) \<and> (\<exists>y. p2val (ref_fp 3) ref_ecp2 (snd (ECP2_setx ref_ecp2 x)) = Some (ev2 x, y))
       else fst (ECP2_setx ref_ecp2 x) = 0 \<and> is_ecp2 (ref_fp 3) validp2 ref_ecp2 None (snd (ECP2_setx ref_ecp2 x))"
      using ref_setx2 [of "ev2 x"] unfolding ref_ecp2_sel
      by (auto simp: validp2 p2val_ref is_mkp2 simp del: on_curve.simps(2) split: if_splits)
  next
    fix x y assume "valid2 valid3 x"
    have "red2 3 (ec_rhs C9 (ev2 x)) = ec_rhs C9 (ev2 x)" by (simp add: ec_rhs_def C9_def g2_curve_def Let_def z2.red_red)
    then show "valid2 valid3 (ECP2_rhs ref_ecp2 x)" "ev2 (ECP2_rhs ref_ecp2 x) = ec_rhs C9 (ev2 x)"
      using valid_mk(1) [of "ec_rhs C9 (ev2 x)"] by (simp_all add: ref_ecp2_sel ev_mk)
  qed (use same in \<open>auto simp: ref_ecp2_sel on p2val_ref is_mkp2 bool_int_def simp del: on_curve.simps(2)\<close>)
  have sum: "is_ecp2 (ref_fp 3) validp2 ref_ecp2 (ec_sum C9 (map2 (\<lambda>Q b. ec_mul C9 (nat (bigv BLS381 b)) (p2val (ref_fp 3) ref_ecp2 Q)) Qs bs)) (ECP2_mul4 ref_ecp2 Qs bs)"
    if "list_all validp2 Qs" for Qs bs
  proof -
    have e: "map2 (\<lambda>Q b. ec_mul C9 (nat (bigv BLS381 b)) (p2val (ref_fp 3) ref_ecp2 Q)) Qs bs = map2 (\<lambda>Q b. ec_mul C9 (nat (bigv BLS381 b)) (evp2 Q)) Qs bs"
      using that by (auto simp: list_all_iff on p2val_ref dest!: set_zip_leftD)
    have "list_all (on_curve C9) (map2 (\<lambda>Q b. ec_mul C9 (nat (bigv BLS381 b)) (evp2 Q)) Qs bs)"
      using that by (auto simp: list_all_iff on dest!: set_zip_leftD)
    from ec_sum_closed [OF C9_group this] show ?thesis unfolding e ref_ecp2_sel by (simp add: is_mkp2)
  qed
  have gen: "Some (rom_f2 (CURVE_Pxa (rom3 BLS381)) (CURVE_Pxb (rom3 BLS381)), rom_f2 (CURVE_Pya (rom3 BLS381)) (CURVE_Pyb (rom3 BLS381))) = pt9 (2, 0)"
    using bigv_encf(1) [of 0 BLS381] by (simp add: rom_f2_def rom3_def Let_def C9_generator NLEN_384_58_def amcl_const)
  show ?thesis
    unfolding ecp2_ok_def Let_def ref_curve2
  proof (intro conjI base allI impI)
    fix Qs bs assume "list_all validp2 Qs"
    then show "is_ecp2 (ref_fp 3) validp2 ref_ecp2 (ec_sum C9 (map2 (\<lambda>Q b. ec_mul C9 (nat (bigv BLS381 b)) (p2val (ref_fp 3) ref_ecp2 Q)) Qs bs)) (ECP2_mul4 ref_ecp2 Qs bs)"
      by (rule sum)
  qed (simp_all add: gen ref_ecp2_sel on p2val_ref is_mkp2 in_order_def C9_generator(1,2) del: on_curve.simps(2) ec_mul.simps)
qed

theorem ecp2_library_laws_witness:
  "let P = mkp2 (pt9 (1, 2)); Q = mkp2 (pt9 (0, 1)); G = ECP2_generator ref_ecp2 in
    ECP2_equals ref_ecp2 (ECP2_sub ref_ecp2 (snd (ECP2_add ref_ecp2 P Q)) Q) P = 1 \<and>
    ECP2_equals ref_ecp2 (ECP2_frob ref_ecp2 G (mk2v (0, 0))) (ECP2_mul ref_ecp2 G (encf BLS381 3)) = 1 \<and>
    ECP2_isinf ref_ecp2 (ECP2_mul ref_ecp2 G (CURVE_Order (rom3 BLS381))) = 1"
proof -
  let ?E = "encf BLS381"
  have g: "ec_group (rom_curve2 3 (rom3 BLS381) (0, 0))" by (simp only: ref_curve2 C9_group)
  have n: "nbigf BLS381 (?E 1)" "nbigf BLS381 (?E 2)" "nbigf BLS381 (?E 3)" "nbigf BLS381 (CURVE_Order (rom3 BLS381))"
    and s: "bigv BLS381 (?E 2) = bigv BLS381 (?E 1) + bigv BLS381 (?E 1)" "bigv BLS381 (?E 3) = 3"
    using bigv_encf [of 1 BLS381] bigv_encf [of 2 BLS381] bigv_encf [of 3 BLS381] by (simp_all add: rom3_def Let_def)
  have v: "validp2 (mkp2 (pt9 (1, 2)))" "validp2 (mkp2 (pt9 (0, 1)))"
    using pt9 [of "(1, 2)"] pt9 [of "(0, 1)"] by (auto intro: validp2(2) simp: in_all44)
  have f: "valid2 valid3 (mk2v (0, 0))" "ev2 (mk2v (0, 0)) = rom_f2 (Fra (rom3 BLS381)) (Frb (rom3 BLS381))"
    using valid_mk(1) [of "(0, 0)"] bigv_encf(1) [of 0 BLS381]
    by (simp_all add: ev_mk rom_f2_def rom3_def Let_def red2_def red1_def NLEN_384_58_def amcl_const)
  show ?thesis
    unfolding Let_def
    using ecp2_library_laws [OF g ref_ecp2_ok v(1,2,1,2) n(1,1,2,1,3,4) s f] by blast
qed

end
