(* ===== verification/Pairing.thy ===== *)
theory Pairing
  imports Ecp2
begin

text \<open>
  \<open>crypto/include/pair_BLS381.h\<close>: the pairing of the two curves into \<open>FP12\<close>. The declared functions are the
  fields of a record; the contract states what the header says of them on values: the pairing of points of
  the groups of the curves' order, bilinear, with values of that order, its double and its multi form, and
  the multiplications and powers of the groups. Verification of BLS signatures is derived from it.
\<close>

section \<open>pair_BLS381.h\<close>

(* crypto/include/pair_BLS381.h:34-42 CURVE_Bnx_BLS381 ... CURVE_BB_BLS381 *)
type_synonym pair_rom = ecp_rom

(* crypto/include/pair_BLS381.h:44-134 PAIR_BLS381_another ... PAIR_BLS381_miller *)
record pair_api =
  PAIR_another :: "FP12_BLS381 list \<Rightarrow> ECP2_BLS381 \<Rightarrow> ECP_BLS381 \<Rightarrow> FP12_BLS381 list"
  PAIR_ate :: "ECP2_BLS381 \<Rightarrow> ECP_BLS381 \<Rightarrow> FP12_BLS381"
  PAIR_double_ate :: "ECP2_BLS381 \<Rightarrow> ECP_BLS381 \<Rightarrow> ECP2_BLS381 \<Rightarrow> ECP_BLS381 \<Rightarrow> FP12_BLS381"
  PAIR_fexp :: "FP12_BLS381 \<Rightarrow> FP12_BLS381"
  PAIR_G1mul :: "ECP_BLS381 \<Rightarrow> BIG \<Rightarrow> ECP_BLS381"
  PAIR_G2mul :: "ECP2_BLS381 \<Rightarrow> BIG \<Rightarrow> ECP2_BLS381"
  PAIR_GTpow :: "FP12_BLS381 \<Rightarrow> BIG \<Rightarrow> FP12_BLS381"
  PAIR_GTmember :: "FP12_BLS381 \<Rightarrow> int"
  PAIR_nbits :: "BIG \<Rightarrow> int \<times> BIG"
  PAIR_initmp :: "FP12_BLS381 list \<Rightarrow> FP12_BLS381 list"
  PAIR_miller :: "FP12_BLS381 list \<Rightarrow> FP12_BLS381"

text \<open>The libraries the pairing is built on, with the modulus, the constants and the proper representations.\<close>

record pair_libs =
  l_p :: int
  l_rom :: pair_rom
  l_B :: f2
  l_vf :: "FP_BLS381 \<Rightarrow> bool"
  l_fp :: fp_api
  l_vp :: "ECP_BLS381 \<Rightarrow> bool"
  l_ecp :: ecp_api
  l_vp2 :: "ECP2_BLS381 \<Rightarrow> bool"
  l_ecp2 :: ecp2_api
  l_fp12 :: fp12_api
  l_ate :: nat

definition l_C1 :: "pair_libs \<Rightarrow> int curve" where "l_C1 L = rom_curve BLS381 (l_p L) (l_rom L)"
definition l_C2 :: "pair_libs \<Rightarrow> f2 curve" where "l_C2 L = rom_curve2 (l_p L) (l_rom L) (l_B L)"
definition l_r :: "pair_libs \<Rightarrow> nat" where "l_r L = order BLS381 (l_rom L)"
definition l_v1 :: "pair_libs \<Rightarrow> ECP_BLS381 \<Rightarrow> int point" where "l_v1 L = pval BLS381 (l_ecp L)"
definition l_v2 :: "pair_libs \<Rightarrow> ECP2_BLS381 \<Rightarrow> f2 point" where "l_v2 L = p2val (l_fp L) (l_ecp2 L)"
definition l_v12 :: "pair_libs \<Rightarrow> FP12_BLS381 \<Rightarrow> f12" where "l_v12 L = f12val (l_fp L)"

definition libs_ok :: "pair_libs \<Rightarrow> bool" where
  "libs_ok L \<longleftrightarrow> 0 < l_p L \<and> 0 < l_r L \<and> fp_ok (l_p L) (l_vf L) (l_fp L) \<and> fp12_ok (l_p L) (l_vf L) (l_fp L) (l_fp12 L) \<and>
     ecp_ok BLS381 (l_p L) (l_rom L) (l_vf L) (l_fp L) (l_vp L) (l_ecp L) \<and>
     ecp2_ok (l_p L) (l_rom L) (l_B L) (l_vf L) (l_fp L) (l_vp2 L) (l_ecp2 L) \<and> ec_group (l_C1 L) \<and> ec_group (l_C2 L)"

definition in_G1 :: "pair_libs \<Rightarrow> ECP_BLS381 \<Rightarrow> bool" where
  "in_G1 L Q \<longleftrightarrow> l_vp L Q \<and> in_order (l_C1 L) (l_r L) (l_v1 L Q)"

definition in_G2 :: "pair_libs \<Rightarrow> ECP2_BLS381 \<Rightarrow> bool" where
  "in_G2 L P \<longleftrightarrow> l_vp2 L P \<and> in_order (l_C2 L) (l_r L) (l_v2 L P)"

definition in_GT :: "pair_libs \<Rightarrow> f12 \<Rightarrow> bool" where
  "in_GT L v \<longleftrightarrow> red12 (l_p L) (r_pow Z12 v (l_r L)) = red12 (l_p L) (r_one Z12)"

text \<open>The value of the pairing: the Miller loop and the final exponentiation.\<close>

definition pairing :: "pair_libs \<Rightarrow> pair_api \<Rightarrow> ECP2_BLS381 \<Rightarrow> ECP_BLS381 \<Rightarrow> f12" where
  "pairing L api P Q = l_v12 L (PAIR_fexp api (PAIR_ate api P Q))"

definition f12_prod :: "f12 list \<Rightarrow> f12" where
  "f12_prod vs = foldr (r_mul Z12) vs (r_one Z12)"

definition multi_pair :: "pair_api \<Rightarrow> FP12_BLS381 list \<Rightarrow> (ECP2_BLS381 \<times> ECP_BLS381) list \<Rightarrow> FP12_BLS381" where
  "multi_pair api r PQs = PAIR_fexp api (PAIR_miller api (foldl (\<lambda>r (P, Q). PAIR_another api r P Q) (PAIR_initmp api r) PQs))"

definition pair_ok :: "pair_libs \<Rightarrow> pair_api \<Rightarrow> bool" where
  "pair_ok L api \<longleftrightarrow> (let p = l_p L; e = pairing L api; is12 = is_fp12 p (l_vf L) (l_fp L); valid = valid12 (l_vf L) in
     (\<forall>P Q. in_G2 L P \<longrightarrow> in_G1 L Q \<longrightarrow> valid (PAIR_ate api P Q) \<and> in_GT L (e P Q)) \<and>
     (\<forall>P P' S Q. in_G2 L P \<longrightarrow> in_G2 L P' \<longrightarrow> in_G2 L S \<longrightarrow> in_G1 L Q \<longrightarrow> l_v2 L S = ec_add (l_C2 L) (l_v2 L P) (l_v2 L P') \<longrightarrow>
        e S Q = red12 p (r_mul Z12 (e P Q) (e P' Q))) \<and>
     (\<forall>P Q Q' S. in_G2 L P \<longrightarrow> in_G1 L Q \<longrightarrow> in_G1 L Q' \<longrightarrow> in_G1 L S \<longrightarrow> l_v1 L S = ec_add (l_C1 L) (l_v1 L Q) (l_v1 L Q') \<longrightarrow>
        e P S = red12 p (r_mul Z12 (e P Q) (e P Q'))) \<and>
     (\<forall>P Q R S. in_G2 L P \<longrightarrow> in_G1 L Q \<longrightarrow> in_G2 L R \<longrightarrow> in_G1 L S \<longrightarrow>
        valid (PAIR_double_ate api P Q R S) \<and> l_v12 L (PAIR_fexp api (PAIR_double_ate api P Q R S)) = red12 p (r_mul Z12 (e P Q) (e R S))) \<and>
     (\<forall>r PQs. length r = l_ate L \<longrightarrow> list_all (\<lambda>(P, Q). in_G2 L P \<and> in_G1 L Q) PQs \<longrightarrow>
        length (PAIR_initmp api r) = l_ate L \<and> list_all (is12 (r_one Z12)) (PAIR_initmp api r) \<and>
        is12 (f12_prod (map (\<lambda>(P, Q). e P Q) PQs)) (multi_pair api r PQs)) \<and>
     (\<forall>x. valid x \<longrightarrow>
        is12 (r_pow Z12 (l_v12 L x) (nat (p ^ 12 - 1) div l_r L)) (PAIR_fexp api x) \<and> PAIR_GTmember api x = bool_int (in_GT L (l_v12 L x)) \<and>
        (\<forall>b. nbigf BLS381 b \<longrightarrow> in_GT L (l_v12 L x) \<longrightarrow> is12 (r_pow Z12 (l_v12 L x) (nat (bigv BLS381 b))) (PAIR_GTpow api x b))) \<and>
     (\<forall>P Q b. nbigf BLS381 b \<longrightarrow>
        (in_G1 L Q \<longrightarrow> is_ecp BLS381 (l_vp L) (l_ecp L) (ec_mul (l_C1 L) (nat (bigv BLS381 b)) (l_v1 L Q)) (PAIR_G1mul api Q b)) \<and>
        (in_G2 L P \<longrightarrow> is_ecp2 (l_fp L) (l_vp2 L) (l_ecp2 L) (ec_mul (l_C2 L) (nat (bigv BLS381 b)) (l_v2 L P)) (PAIR_G2mul api P b))) \<and>
     (\<forall>n. nbigf BLS381 n \<longrightarrow> 3 * bigv BLS381 n < 2 ^ (BASEBITS_384_58 * NLEN_384_58) \<longrightarrow>
        (case PAIR_nbits api n of (k, n3) \<Rightarrow> bigv BLS381 n3 = 3 * bigv BLS381 n \<and> 0 \<le> k \<and> bigv BLS381 n3 < 2 ^ nat k \<and>
          (0 < bigv BLS381 n \<longrightarrow> 2 ^ nat (k - 1) \<le> bigv BLS381 n3))))"

section \<open>The groups of the order\<close>

lemma in_order_closed:
  assumes g: "ec_group C" and P: "in_order C r P" and Q: "in_order C r Q"
  shows "in_order C r None" "in_order C r (ec_add C P Q)" "in_order C r (ec_neg C P)" "in_order C r (ec_mul C n P)"
proof -
  have on: "on_curve C P" "on_curve C Q" and r: "ec_mul C r P = None" "ec_mul C r Q = None" using P Q by (simp_all add: in_order_def)
  show "in_order C r None" by (simp add: in_order_def)
  show "in_order C r (ec_add C P Q)" using ec_groupD(1) [OF g on] ec_mul_sum [OF g on, of r] r by (simp add: in_order_def)
  show "in_order C r (ec_neg C P)" using ec_groupD(2) [OF g on] ec_mul_neg [OF g on(1), of r] r by (simp add: in_order_def)
  show "in_order C r (ec_mul C n P)" using ec_mul_closed [OF g on(1)] ec_mul_commute [OF g on(1), of r n] r by (simp add: in_order_def)
qed

lemma libsD:
  assumes "libs_ok L"
  shows "0 < l_p L" "0 < l_r L" "fp_ok (l_p L) (l_vf L) (l_fp L)" "fp12_ok (l_p L) (l_vf L) (l_fp L) (l_fp12 L)"
    "ecp_ok BLS381 (l_p L) (l_rom L) (l_vf L) (l_fp L) (l_vp L) (l_ecp L)"
    "ecp2_ok (l_p L) (l_rom L) (l_B L) (l_vf L) (l_fp L) (l_vp2 L) (l_ecp2 L)" "ec_group (l_C1 L)" "ec_group (l_C2 L)"
  using assms unfolding libs_ok_def by blast+

text \<open>Representations of values in the groups.\<close>

definition rep1 :: "pair_libs \<Rightarrow> int point \<Rightarrow> ECP_BLS381 \<Rightarrow> bool" where
  "rep1 L v Q \<longleftrightarrow> in_G1 L Q \<and> l_v1 L Q = v"

definition rep2 :: "pair_libs \<Rightarrow> f2 point \<Rightarrow> ECP2_BLS381 \<Rightarrow> bool" where
  "rep2 L v P \<longleftrightarrow> in_G2 L P \<and> l_v2 L P = v"

lemma rep1_is: "rep1 L v Q \<longleftrightarrow> is_ecp BLS381 (l_vp L) (l_ecp L) v Q \<and> in_order (l_C1 L) (l_r L) v"
  by (auto simp: rep1_def in_G1_def is_ecp_def l_v1_def)

lemma rep2_is: "rep2 L v P \<longleftrightarrow> is_ecp2 (l_fp L) (l_vp2 L) (l_ecp2 L) v P \<and> in_order (l_C2 L) (l_r L) v"
  by (auto simp: rep2_def in_G2_def is_ecp2_def l_v2_def)

lemma rep1_build:
  assumes ok: "libs_ok L" and a: "rep1 L v Q"
  shows "rep1 L (ec_neg (l_C1 L) v) (ECP_neg (l_ecp L) Q)" "rep1 L w R \<Longrightarrow> rep1 L (ec_add (l_C1 L) v w) (ECP_add (l_ecp L) Q R)"
    "rep1 L None (ECP_inf (l_ecp L))" "rep1 L w R \<Longrightarrow> ECP_equals (l_ecp L) Q R = bool_int (v = w)"
proof -
  note L = libsD [OF ok] and A = a [unfolded rep1_is]
  note B = ecp_build [OF L(5) conjunct1 [OF A]] and I = in_order_closed [OF L(7) conjunct2 [OF A]]
  show "rep1 L (ec_neg (l_C1 L) v) (ECP_neg (l_ecp L) Q)" using B(1) I(3) [OF conjunct2 [OF A]] by (simp add: rep1_is l_C1_def)
  show "rep1 L (ec_add (l_C1 L) v w) (ECP_add (l_ecp L) Q R)" if "rep1 L w R"
    using B(3) [of w R] I(2) [of w] that by (simp add: rep1_is l_C1_def)
  show "ECP_equals (l_ecp L) Q R = bool_int (v = w)" if "rep1 L w R" using B(5) [of w R] that by (simp add: rep1_is)
  show "rep1 L None (ECP_inf (l_ecp L))"
    using L(5) by (simp add: rep1_is in_order_def ecp_ok_def ecp_base_ok_def Let_def)
qed

lemma rep2_build:
  assumes ok: "libs_ok L" and a: "rep2 L v P"
  shows "rep2 L w R \<Longrightarrow> rep2 L (ec_add (l_C2 L) v w) (snd (ECP2_add (l_ecp2 L) P R))" "rep2 L None (ECP2_inf (l_ecp2 L))"
proof -
  note L = libsD [OF ok] and A = a [unfolded rep2_is]
  note B = ecp2_build [OF L(6) conjunct1 [OF A]] and I = in_order_closed [OF L(8) conjunct2 [OF A]]
  show "rep2 L (ec_add (l_C2 L) v w) (snd (ECP2_add (l_ecp2 L) P R))" if "rep2 L w R"
    using B(3) [of w R] I(2) [of w] that by (simp add: rep2_is l_C2_def)
  show "rep2 L None (ECP2_inf (l_ecp2 L))"
    using L(6) by (simp add: rep2_is in_order_def ecp2_ok_def ecp2_base_ok_def Let_def)
qed

lemma rep_generator:
  assumes ok: "libs_ok L"
  shows "rep1 L (l_v1 L (ECP_generator (l_ecp L))) (ECP_generator (l_ecp L))"
    "rep2 L (l_v2 L (ECP2_generator (l_ecp2 L))) (ECP2_generator (l_ecp2 L))"
proof -
  note L = libsD [OF ok] and g1 = ecp_generatorD [OF L(5)] and g2 = ecp2_generatorD [OF L(6)]
  show "rep1 L (l_v1 L (ECP_generator (l_ecp L))) (ECP_generator (l_ecp L))"
    using g1(1,2) ecp_curve [OF L(5) is_ecpD(1) [OF g1(1)]] unfolding rep1_is l_v1_def in_order_def l_C1_def l_r_def by blast
  show "rep2 L (l_v2 L (ECP2_generator (l_ecp2 L))) (ECP2_generator (l_ecp2 L))"
    using g2(1,2) unfolding rep2_is l_v2_def l_C2_def l_r_def by blast
qed

lemma rep_ex:
  assumes ok: "libs_ok L"
  shows "rep1 L v Q \<Longrightarrow> \<exists>R. rep1 L (ec_mul (l_C1 L) n v) R" "rep2 L w P \<Longrightarrow> \<exists>R. rep2 L (ec_mul (l_C2 L) n w) R"
proof -
  show "\<exists>R. rep1 L (ec_mul (l_C1 L) n v) R" if "rep1 L v Q"
    using rep1_build(2,3) [OF ok that] by (induction n) auto
  show "\<exists>R. rep2 L (ec_mul (l_C2 L) n w) R" if "rep2 L w P"
    using rep2_build(1,2) [OF ok that] by (induction n) auto
qed

section \<open>Bilinearity\<close>

lemma z12_idem:
  assumes r: "0 < r" and gt: "red12 p (r_pow Z12 x r) = red12 p (r_one Z12)" and i: "red12 p x = red12 p (r_mul Z12 x x)"
  shows "red12 p x = red12 p (r_one Z12)"
proof -
  have "red12 p (r_pow Z12 x (Suc n)) = red12 p x" for n
  proof (induction n)
    case (Suc n)
    have "red12 p (r_mul Z12 x (r_pow Z12 x (Suc n))) = red12 p (r_mul Z12 x x)" by (rule z12.red_cong(2) [OF refl Suc])
    then show ?case using i by simp
  qed (simp add: z12.mul_one2)
  from this [of "r - 1"] show ?thesis using r gt by simp
qed

text \<open>A homomorphism from the points of a group, given by representations, turns multiples into powers.\<close>

lemma hom_pow:
  assumes r: "0 < r" and gt: "\<And>v P. rep v P \<Longrightarrow> red12 p (r_pow Z12 (e P) r) = red12 p (r_one Z12)"
    and hom: "\<And>v w P Q S. rep v P \<Longrightarrow> rep w Q \<Longrightarrow> rep (ec_add C v w) S \<Longrightarrow> e S = red12 p (r_mul Z12 (e P) (e Q))"
    and ex: "\<And>v P n. rep v P \<Longrightarrow> \<exists>R. rep (ec_mul C n v) R" and P: "rep v P"
  shows "rep (ec_mul C n v) S \<Longrightarrow> red12 p (e S) = red12 p (r_pow Z12 (e P) n)"
proof (induction n arbitrary: S)
  case 0
  then have i: "rep None S" by simp
  then have "red12 p (e S) = red12 p (r_mul Z12 (e S) (e S))" using hom [OF i i, of S] by (metis ec_add.simps(1) z12.red_red)
  then show ?case using z12_idem [OF r gt [OF i]] by simp
next
  case (Suc n)
  obtain T where T: "rep (ec_mul C n v) T" using ex [OF P] by blast
  have "e S = red12 p (r_mul Z12 (e P) (e T))" by (rule hom [OF P T]) (use Suc.prems in simp)
  also have "\<dots> = red12 p (r_mul Z12 (e P) (r_pow Z12 (e P) n))" by (rule z12.red_cong(2) [OF refl Suc.IH [OF T]])
  finally show ?case by (simp add: z12.red_red)
qed

lemma pair_okD:
  assumes "pair_ok L api"
  shows "in_G2 L P \<Longrightarrow> in_G1 L Q \<Longrightarrow> valid12 (l_vf L) (PAIR_ate api P Q) \<and> in_GT L (pairing L api P Q)"
    "in_G2 L P \<Longrightarrow> in_G2 L P' \<Longrightarrow> in_G2 L S \<Longrightarrow> in_G1 L Q \<Longrightarrow> l_v2 L S = ec_add (l_C2 L) (l_v2 L P) (l_v2 L P') \<Longrightarrow>
      pairing L api S Q = red12 (l_p L) (r_mul Z12 (pairing L api P Q) (pairing L api P' Q))"
    "in_G2 L P \<Longrightarrow> in_G1 L Q \<Longrightarrow> in_G1 L Q' \<Longrightarrow> in_G1 L T \<Longrightarrow> l_v1 L T = ec_add (l_C1 L) (l_v1 L Q) (l_v1 L Q') \<Longrightarrow>
      pairing L api P T = red12 (l_p L) (r_mul Z12 (pairing L api P Q) (pairing L api P Q'))"
    "in_G2 L P \<Longrightarrow> in_G1 L Q \<Longrightarrow> in_G2 L R \<Longrightarrow> in_G1 L T \<Longrightarrow> valid12 (l_vf L) (PAIR_double_ate api P Q R T) \<and>
      l_v12 L (PAIR_fexp api (PAIR_double_ate api P Q R T)) = red12 (l_p L) (r_mul Z12 (pairing L api P Q) (pairing L api R T))"
    "length rs = l_ate L \<Longrightarrow> list_all (\<lambda>(P, Q). in_G2 L P \<and> in_G1 L Q) PQs \<Longrightarrow>
      is_fp12 (l_p L) (l_vf L) (l_fp L) (f12_prod (map (\<lambda>(P, Q). pairing L api P Q) PQs)) (multi_pair api rs PQs)"
    "valid12 (l_vf L) x \<Longrightarrow> valid12 (l_vf L) (PAIR_fexp api x)"
    "valid12 (l_vf L) x \<Longrightarrow> PAIR_GTmember api x = bool_int (in_GT L (l_v12 L x))"
    "valid12 (l_vf L) x \<Longrightarrow> nbigf BLS381 b \<Longrightarrow> in_GT L (l_v12 L x) \<Longrightarrow>
      is_fp12 (l_p L) (l_vf L) (l_fp L) (r_pow Z12 (l_v12 L x) (nat (bigv BLS381 b))) (PAIR_GTpow api x b)"
    "nbigf BLS381 b \<Longrightarrow> in_G1 L Q \<Longrightarrow>
      is_ecp BLS381 (l_vp L) (l_ecp L) (ec_mul (l_C1 L) (nat (bigv BLS381 b)) (l_v1 L Q)) (PAIR_G1mul api Q b)"
    "nbigf BLS381 b \<Longrightarrow> in_G2 L P \<Longrightarrow>
      is_ecp2 (l_fp L) (l_vp2 L) (l_ecp2 L) (ec_mul (l_C2 L) (nat (bigv BLS381 b)) (l_v2 L P)) (PAIR_G2mul api P b)"
proof -
  note A1 = assms [unfolded pair_ok_def Let_def, THEN conjunct1] and R1 = assms [unfolded pair_ok_def Let_def, THEN conjunct2]
  note A2 = R1 [THEN conjunct1] and R2 = R1 [THEN conjunct2]
  note A3 = R2 [THEN conjunct1] and R3 = R2 [THEN conjunct2]
  note A4 = R3 [THEN conjunct1] and R4 = R3 [THEN conjunct2]
  note A5 = R4 [THEN conjunct1] and R5 = R4 [THEN conjunct2]
  note A6 = R5 [THEN conjunct1] and A7 = R5 [THEN conjunct2, THEN conjunct1]
  show "in_G2 L P \<Longrightarrow> in_G1 L Q \<Longrightarrow> valid12 (l_vf L) (PAIR_ate api P Q) \<and> in_GT L (pairing L api P Q)" using A1 by blast
  show "in_G2 L P \<Longrightarrow> in_G2 L P' \<Longrightarrow> in_G2 L S \<Longrightarrow> in_G1 L Q \<Longrightarrow> l_v2 L S = ec_add (l_C2 L) (l_v2 L P) (l_v2 L P') \<Longrightarrow>
      pairing L api S Q = red12 (l_p L) (r_mul Z12 (pairing L api P Q) (pairing L api P' Q))" by (rule A2 [rule_format])
  show "in_G2 L P \<Longrightarrow> in_G1 L Q \<Longrightarrow> in_G1 L Q' \<Longrightarrow> in_G1 L T \<Longrightarrow> l_v1 L T = ec_add (l_C1 L) (l_v1 L Q) (l_v1 L Q') \<Longrightarrow>
      pairing L api P T = red12 (l_p L) (r_mul Z12 (pairing L api P Q) (pairing L api P Q'))" by (rule A3 [rule_format])
  show "in_G2 L P \<Longrightarrow> in_G1 L Q \<Longrightarrow> in_G2 L R \<Longrightarrow> in_G1 L T \<Longrightarrow> valid12 (l_vf L) (PAIR_double_ate api P Q R T) \<and>
      l_v12 L (PAIR_fexp api (PAIR_double_ate api P Q R T)) = red12 (l_p L) (r_mul Z12 (pairing L api P Q) (pairing L api R T))"
    by (rule A4 [rule_format])
  show "length rs = l_ate L \<Longrightarrow> list_all (\<lambda>(P, Q). in_G2 L P \<and> in_G1 L Q) PQs \<Longrightarrow>
      is_fp12 (l_p L) (l_vf L) (l_fp L) (f12_prod (map (\<lambda>(P, Q). pairing L api P Q) PQs)) (multi_pair api rs PQs)"
    by (rule A5 [rule_format, THEN conjunct2, THEN conjunct2])
  show "valid12 (l_vf L) x \<Longrightarrow> valid12 (l_vf L) (PAIR_fexp api x)" using A6 unfolding is_fp12_def by blast
  show "valid12 (l_vf L) x \<Longrightarrow> PAIR_GTmember api x = bool_int (in_GT L (l_v12 L x))" using A6 by blast
  show "valid12 (l_vf L) x \<Longrightarrow> nbigf BLS381 b \<Longrightarrow> in_GT L (l_v12 L x) \<Longrightarrow>
      is_fp12 (l_p L) (l_vf L) (l_fp L) (r_pow Z12 (l_v12 L x) (nat (bigv BLS381 b))) (PAIR_GTpow api x b)" using A6 by blast
  show "nbigf BLS381 b \<Longrightarrow> in_G1 L Q \<Longrightarrow>
      is_ecp BLS381 (l_vp L) (l_ecp L) (ec_mul (l_C1 L) (nat (bigv BLS381 b)) (l_v1 L Q)) (PAIR_G1mul api Q b)" using A7 by blast
  show "nbigf BLS381 b \<Longrightarrow> in_G2 L P \<Longrightarrow>
      is_ecp2 (l_fp L) (l_vp2 L) (l_ecp2 L) (ec_mul (l_C2 L) (nat (bigv BLS381 b)) (l_v2 L P)) (PAIR_G2mul api P b)" using A7 by blast
qed

lemma pairing_pow:
  assumes ok: "libs_ok L" "pair_ok L api" and P: "rep2 L v P" and Q: "rep1 L w Q"
  shows "rep2 L (ec_mul (l_C2 L) n v) S \<Longrightarrow> red12 (l_p L) (pairing L api S Q) = red12 (l_p L) (r_pow Z12 (pairing L api P Q) n)"
    "rep1 L (ec_mul (l_C1 L) n w) T \<Longrightarrow> red12 (l_p L) (pairing L api P T) = red12 (l_p L) (r_pow Z12 (pairing L api P Q) n)"
proof -
  note D = pair_okD [OF ok(2)] and r = libsD(2) [OF ok(1)]
  have in1: "in_G1 L Q" and in2: "in_G2 L P" using P Q by (simp_all add: rep1_def rep2_def)
  show "red12 (l_p L) (pairing L api S Q) = red12 (l_p L) (r_pow Z12 (pairing L api P Q) n)" if "rep2 L (ec_mul (l_C2 L) n v) S"
  proof (rule hom_pow [where rep = "rep2 L" and C = "l_C2 L" and e = "\<lambda>P. pairing L api P Q", OF r _ _ rep_ex(2) [OF ok(1)] P that])
    show "red12 (l_p L) (r_pow Z12 (pairing L api P Q) (l_r L)) = red12 (l_p L) (r_one Z12)" if "rep2 L v P" for v P
      using D(1) [OF _ in1] that unfolding rep2_def in_GT_def by blast
    show "pairing L api S Q = red12 (l_p L) (r_mul Z12 (pairing L api P Q) (pairing L api R Q))"
      if "rep2 L v P" "rep2 L w R" "rep2 L (ec_add (l_C2 L) v w) S" for v w P R S
      using D(2) [OF _ _ _ in1] that unfolding rep2_def by blast
  qed
  show "red12 (l_p L) (pairing L api P T) = red12 (l_p L) (r_pow Z12 (pairing L api P Q) n)" if "rep1 L (ec_mul (l_C1 L) n w) T"
  proof (rule hom_pow [where rep = "rep1 L" and C = "l_C1 L" and e = "pairing L api P", OF r _ _ rep_ex(1) [OF ok(1)] Q that])
    show "red12 (l_p L) (r_pow Z12 (pairing L api P Q) (l_r L)) = red12 (l_p L) (r_one Z12)" if "rep1 L v Q" for v Q
      using D(1) [OF in2] that unfolding rep1_def in_GT_def by blast
    show "pairing L api P S = red12 (l_p L) (r_mul Z12 (pairing L api P Q) (pairing L api P R))"
      if "rep1 L v Q" "rep1 L w R" "rep1 L (ec_add (l_C1 L) v w) S" for v w Q R S
      using D(3) [OF in2] that unfolding rep1_def by blast
  qed
qed

lemma pairing_neg:
  assumes ok: "libs_ok L" "pair_ok L api" and P: "rep2 L v P" and Q: "rep1 L w Q"
  shows "red12 (l_p L) (r_mul Z12 (pairing L api P (ECP_neg (l_ecp L) Q)) (pairing L api P Q)) = red12 (l_p L) (r_one Z12)"
proof -
  note n = rep1_build(1,3) [OF ok(1) Q]
  have on: "on_curve (l_C1 L) w" using Q by (simp add: rep1_is in_order_def)
  have "ec_add (l_C1 L) (ec_neg (l_C1 L) w) w = None"
    using ec_groupD(3,4) [OF libsD(7) [OF ok(1)] on] ec_groupD(2) [OF libsD(7) [OF ok(1)] on on] on by metis
  then have "pairing L api P (ECP_inf (l_ecp L)) = red12 (l_p L) (r_mul Z12 (pairing L api P (ECP_neg (l_ecp L) Q)) (pairing L api P Q))"
    using pair_okD(3) [OF ok(2)] P Q n unfolding rep1_def rep2_def by metis
  moreover have "red12 (l_p L) (pairing L api P (ECP_inf (l_ecp L))) = red12 (l_p L) (r_one Z12)"
    using pairing_pow(2) [OF ok P Q, of 0 "ECP_inf (l_ecp L)"] n by simp
  ultimately show ?thesis by (simp add: z12.red_red)
qed

lemma rep_mul:
  assumes ok: "libs_ok L" "pair_ok L api" and b: "nbigf BLS381 b"
  shows "rep1 L w Q \<Longrightarrow> rep1 L (ec_mul (l_C1 L) (nat (bigv BLS381 b)) w) (PAIR_G1mul api Q b)"
    "rep2 L v P \<Longrightarrow> rep2 L (ec_mul (l_C2 L) (nat (bigv BLS381 b)) v) (PAIR_G2mul api P b)"
proof -
  note L = libsD(7,8) [OF ok(1)] and D = pair_okD(9,10) [OF ok(2) b]
  show "rep1 L (ec_mul (l_C1 L) (nat (bigv BLS381 b)) w) (PAIR_G1mul api Q b)" if "rep1 L w Q"
    using D(1) that in_order_closed(4) [OF L(1)] unfolding rep1_is by (metis rep1_def rep1_is)
  show "rep2 L (ec_mul (l_C2 L) (nat (bigv BLS381 b)) v) (PAIR_G2mul api P b)" if "rep2 L v P"
    using D(2) that in_order_closed(4) [OF L(2)] unfolding rep2_is by (metis rep2_def rep2_is)
qed

lemma fexp_is:
  assumes "libs_ok L" "pair_ok L api" "in_G2 L P" "in_G1 L Q"
  shows "is_fp12 (l_p L) (l_vf L) (l_fp L) (pairing L api P Q) (PAIR_fexp api (PAIR_ate api P Q))"
  using pair_okD(1) [OF assms(2-4)] pair_okD(6) [OF assms(2)] is_fp12I [OF _ libsD(3) [OF assms(1)]]
  by (auto simp: pairing_def l_v12_def)

lemma double_is:
  assumes "libs_ok L" "pair_ok L api" "in_G2 L P" "in_G1 L Q" "in_G2 L R" "in_G1 L T"
  shows "is_fp12 (l_p L) (l_vf L) (l_fp L) (r_mul Z12 (pairing L api P Q) (pairing L api R T)) (PAIR_fexp api (PAIR_double_ate api P Q R T))"
  using pair_okD(4) [OF assms(2-6)] pair_okD(6) [OF assms(2)] by (simp add: is_fp12_def l_v12_def)

text \<open>What a signature is checked against: \<open>e(G, - SIG) e(PK, H)\<close> is one.\<close>

lemma verification:
  assumes ok: "libs_ok L" "pair_ok L api" and H: "rep1 L h H" and G: "rep2 L g G"
    and PK: "rep2 L (ec_mul (l_C2 L) n g) PK" and SIG: "rep1 L (ec_mul (l_C1 L) n h) SIG"
  shows "red12 (l_p L) (pairing L api PK H) = red12 (l_p L) (pairing L api G SIG)"
    "FP12_isunity (l_fp12 L) (PAIR_fexp api (PAIR_double_ate api G (ECP_neg (l_ecp L) SIG) PK H)) = 1"
proof -
  let ?p = "l_p L"
  have e: "red12 ?p (pairing L api PK H) = red12 ?p (pairing L api G SIG)"
    using pairing_pow(1) [OF ok G H PK] pairing_pow(2) [OF ok G H SIG] by simp
  then show "red12 ?p (pairing L api PK H) = red12 ?p (pairing L api G SIG)" .
  have n: "in_G1 L (ECP_neg (l_ecp L) SIG)" using rep1_build(1) [OF ok(1) SIG] by (simp add: rep1_def)
  have i: "in_G2 L G" "in_G2 L PK" "in_G1 L H" using G PK H by (simp_all add: rep1_def rep2_def)
  have "red12 ?p (r_mul Z12 (pairing L api G (ECP_neg (l_ecp L) SIG)) (pairing L api PK H)) =
      red12 ?p (r_mul Z12 (pairing L api G (ECP_neg (l_ecp L) SIG)) (pairing L api G SIG))" by (rule z12.red_cong(2) [OF refl e])
  also have "\<dots> = red12 ?p (r_one Z12)" by (rule pairing_neg [OF ok G SIG])
  finally show "FP12_isunity (l_fp12 L) (PAIR_fexp api (PAIR_double_ate api G (ECP_neg (l_ecp L) SIG) PK H)) = 1"
    using fp12_build(8) [OF libsD(4) [OF ok(1)] double_is [OF ok i(1) n i(2,3)]] by (simp add: bool_int_def)
qed

lemma f12_prod2: "f12_prod [a, b] = r_mul Z12 a b"
  by (simp add: f12_prod_def z12.mul_one2)

text \<open>
  BLS signatures over any library with the documented functions of the pairing and what it is built on: for a
  message point \<open>H\<close> of the first group and a secret number \<open>s\<close>, the public key \<open>PK = s G\<close> and the signature
  \<open>SIG = s H\<close> pass the check that the double pairing of \<open>(G, - SIG)\<close> and \<open>(PK, H)\<close> is unity; the two
  pairings are equal and are the \<open>s\<close>-th power of \<open>e(G, H)\<close>, which is a member of the group of the order; the sums
  of the keys and of the signatures of two signers pass the same check; and the multi-pairing gives what the
  double pairing gives.
\<close>

theorem bls_pairing_verification:
  assumes ok: "libs_ok L" "pair_ok L api" and n: "nbigf BLS381 s" "nbigf BLS381 t" and H: "in_G1 L H" and r: "length r = l_ate L"
    and G: "G = ECP2_generator (l_ecp2 L)"
    and keys: "PK = PAIR_G2mul api G s" "PK' = PAIR_G2mul api G t" and sigs: "SIG = PAIR_G1mul api H s" "SIG' = PAIR_G1mul api H t"
  defines "neg \<equiv> ECP_neg (l_ecp L)" and "e \<equiv> \<lambda>P Q. PAIR_fexp api (PAIR_ate api P Q)"
    and "e2 \<equiv> \<lambda>P Q R S. PAIR_fexp api (PAIR_double_ate api P Q R S)"
  shows "FP12_isunity (l_fp12 L) (e2 G (neg SIG) PK H) = 1 \<and>
    FP12_equals (l_fp12 L) (e PK H) (e G SIG) = 1 \<and> FP12_equals (l_fp12 L) (e PK H) (PAIR_GTpow api (e G H) s) = 1 \<and>
    PAIR_GTmember api (e G H) = 1 \<and>
    FP12_isunity (l_fp12 L) (e2 G (neg (ECP_add (l_ecp L) SIG SIG')) (snd (ECP2_add (l_ecp2 L) PK PK')) H) = 1 \<and>
    FP12_equals (l_fp12 L) (multi_pair api r [(G, neg SIG), (PK, H)]) (e2 G (neg SIG) PK H) = 1"
proof -
  let ?p = "l_p L" and ?C1 = "l_C1 L" and ?C2 = "l_C2 L" and ?s = "nat (bigv BLS381 s)" and ?t = "nat (bigv BLS381 t)"
  note L = libsD [OF ok(1)] and D = pair_okD [OF ok(2)]
  define h g where hg: "h = l_v1 L H" "g = l_v2 L G"
  have rH: "rep1 L h H" using H by (simp add: rep1_def hg)
  have rG: "rep2 L g G" using rep_generator(2) [OF ok(1)] by (simp add: G hg)
  note rPK = rep_mul(2) [OF ok n(1) rG, folded keys] and rPK' = rep_mul(2) [OF ok n(2) rG, folded keys]
    and rS = rep_mul(1) [OF ok n(1) rH, folded sigs] and rS' = rep_mul(1) [OF ok n(2) rH, folded sigs]
  note V = verification [OF ok rH rG rPK rS]
  have on: "on_curve ?C1 h" "on_curve ?C2 g" using rH rG by (simp_all add: rep1_is rep2_is in_order_def)
  have inn: "in_G2 L G" "in_G2 L PK" "in_G1 L SIG" "in_G1 L (neg SIG)"
    using rG rPK rS rep1_build(1) [OF ok(1) rS] by (simp_all add: rep1_def rep2_def neg_def)
  note F = fp12_build [OF L(4)]
  have eq: "FP12_equals (l_fp12 L) x y = 1" if "is_fp12 ?p (l_vf L) (l_fp L) v x" "is_fp12 ?p (l_vf L) (l_fp L) w y" "red12 ?p v = red12 ?p w" for x y v w
    using F(9) [OF that(1,2)] that(3) by (simp add: bool_int_def)
  note E = fexp_is [OF ok]
  have val: "valid12 (l_vf L) (e G H)" "l_v12 L (e G H) = pairing L api G H" "in_GT L (pairing L api G H)"
    using D(1) [OF inn(1) H] D(6) by (simp_all add: e_def pairing_def)
  show ?thesis
  proof (intro conjI)
    show "FP12_isunity (l_fp12 L) (e2 G (neg SIG) PK H) = 1" using V(2) by (simp add: e2_def neg_def)
    show "FP12_equals (l_fp12 L) (e PK H) (e G SIG) = 1" unfolding e_def by (rule eq [OF E [OF inn(2) H] E [OF inn(1,3)] V(1)])
    show "FP12_equals (l_fp12 L) (e PK H) (PAIR_GTpow api (e G H) s) = 1"
      using eq [OF E [OF inn(2) H] D(8) [OF val(1) n(1)]] pairing_pow(1) [OF ok rG rH rPK] val by (simp add: e_def)
    show "PAIR_GTmember api (e G H) = 1" using D(7) [OF val(1)] val by (simp add: bool_int_def)
    show "FP12_equals (l_fp12 L) (multi_pair api r [(G, neg SIG), (PK, H)]) (e2 G (neg SIG) PK H) = 1"
      using D(5) [OF r, of "[(G, neg SIG), (PK, H)]"] inn H unfolding e2_def
      by (intro eq [OF _ double_is [OF ok inn(1,4,2) H] refl]) (simp add: f12_prod2)
    have PK2: "rep2 L (ec_mul ?C2 (?s + ?t) g) (snd (ECP2_add (l_ecp2 L) PK PK'))"
      using rep2_build(1) [OF ok(1) rPK rPK'] by (simp only: ec_mul_add [OF L(8) on(2)])
    have S2: "rep1 L (ec_mul ?C1 (?s + ?t) h) (ECP_add (l_ecp L) SIG SIG')"
      using rep1_build(2) [OF ok(1) rS rS'] by (simp only: ec_mul_add [OF L(7) on(1)])
    show "FP12_isunity (l_fp12 L) (e2 G (neg (ECP_add (l_ecp L) SIG SIG')) (snd (ECP2_add (l_ecp2 L) PK PK')) H) = 1"
      using verification(2) [OF ok rH rG PK2 S2] by (simp add: e2_def neg_def)
  qed
qed

text \<open>A pairing that sends no point but infinity to one, paired with the generator.\<close>

definition nondegenerate :: "pair_libs \<Rightarrow> pair_api \<Rightarrow> bool" where
  "nondegenerate L api \<longleftrightarrow> (\<forall>Q. in_G1 L Q \<longrightarrow>
     red12 (l_p L) (pairing L api (ECP2_generator (l_ecp2 L)) Q) = red12 (l_p L) (r_one Z12) \<longrightarrow> l_v1 L Q = None)"


section \<open>A library with a pairing of order two\<close>

text \<open>
  Over the curves of three and nine elements with the groups of order two: the pairing of the generators is a
  power of an element of order sixteen, whose final power is minus one.
\<close>

definition unit16 :: f12 where "unit16 = (((0, 0), (0, 1)), r_zero Z4, r_zero Z4)"
definition minus1 :: f12 where "minus1 = r_neg Z12 (r_one Z12)"

definition deg1 :: "int point \<Rightarrow> nat" where "deg1 v = (if v = None then 0 else 1)"
definition deg2 :: "f2 point \<Rightarrow> nat" where "deg2 v = (if v = pt9 (2, 0) \<or> v = pt9 (2, 2) then 1 else 0)"

definition ref_line :: "ECP2_BLS381 \<Rightarrow> ECP_BLS381 \<Rightarrow> f12" where
  "ref_line P Q = r_pow Z12 unit16 (deg2 (evp2 P) * deg1 (evp Q))"

definition ref_pair :: pair_api where
  "ref_pair = \<lparr>
     PAIR_another = \<lambda>r P Q. map (\<lambda>x. mk12 (r_mul Z12 (ev12 x) (ref_line P Q))) r,
     PAIR_ate = \<lambda>P Q. mk12 (ref_line P Q),
     PAIR_double_ate = \<lambda>P Q R S. mk12 (r_mul Z12 (ref_line P Q) (ref_line R S)),
     PAIR_fexp = \<lambda>x. mk12 (r_pow Z12 (ev12 x) (nat (3 ^ 12 - 1) div 2)),
     PAIR_G1mul = \<lambda>Q b. mkp (ec_mul C3 (nat (bigv BLS381 b)) (evp Q)),
     PAIR_G2mul = \<lambda>P b. mkp2 (ec_mul C9 (nat (bigv BLS381 b)) (evp2 P)),
     PAIR_GTpow = \<lambda>x b. mk12 (r_pow Z12 (ev12 x) (nat (bigv BLS381 b))),
     PAIR_GTmember = \<lambda>x. bool_int (red12 3 (r_pow Z12 (ev12 x) 2) = red12 3 (r_one Z12)),
     PAIR_nbits = \<lambda>n. (int (bit_length (nat (3 * bigv BLS381 n))), encf BLS381 (3 * bigv BLS381 n)),
     PAIR_initmp = map (\<lambda>x. mk12 (r_one Z12)),
     PAIR_miller = hd \<rparr>"

definition ref_libs :: pair_libs where
  "ref_libs = \<lparr>l_p = 3, l_rom = rom3 BLS381, l_B = (0, 0), l_vf = valid3, l_fp = ref_fp 3, l_vp = validp, l_ecp = ref_ecp BLS381,
     l_vp2 = validp2, l_ecp2 = ref_ecp2, l_fp12 = ref_fp12, l_ate = 1\<rparr>"

lemma ref_libs_sel:
  "l_p ref_libs = 3" "l_rom ref_libs = rom3 BLS381" "l_B ref_libs = (0, 0)" "l_vf ref_libs = valid3" "l_fp ref_libs = ref_fp 3"
  "l_vp ref_libs = validp" "l_ecp ref_libs = ref_ecp BLS381" "l_vp2 ref_libs = validp2" "l_ecp2 ref_libs = ref_ecp2"
  "l_fp12 ref_libs = ref_fp12" "l_ate ref_libs = 1"
  by (simp_all add: ref_libs_def)

lemma ref_libs_val:
  "l_C1 ref_libs = C3" "l_C2 ref_libs = C9" "l_r ref_libs = 2" "l_v1 ref_libs = pval BLS381 (ref_ecp BLS381)"
  "l_v2 ref_libs = p2val (ref_fp 3) ref_ecp2" "l_v12 ref_libs = ev12"
  unfolding l_C1_def l_C2_def l_r_def l_v1_def l_v2_def l_v12_def ref_libs_sel ref_curve2 ref_curve(1) by (rule refl)+

lemma ref_libs_ok: "libs_ok ref_libs"
  unfolding libs_ok_def ref_libs_sel ref_libs_val
  using ref_fp_ok ref_fp12_ok ref_ecp_ok [of BLS381] ref_ecp2_ok C3_group C9_group by simp

lemma unit16_pow: "red12 3 (r_pow Z12 unit16 8) = red12 3 minus1" "red12 3 (r_pow Z12 minus1 2) = red12 3 (r_one Z12)"
  by code_simp+

lemma pow_one12: "r_pow Z12 (r_one Z12) n = r_one Z12"
  by (induction n) (simp_all add: z12.mul_one)

lemma minus1_pow: "k mod 2 = l mod 2 \<Longrightarrow> red12 3 (r_pow Z12 minus1 k) = red12 3 (r_pow Z12 minus1 l)"
proof -
  have "red12 3 (r_pow Z12 minus1 n) = red12 3 (r_pow Z12 minus1 (n mod 2))" for n
  proof -
    have "red12 3 (r_pow Z12 minus1 (2 * (n div 2))) = red12 3 (r_pow Z12 (red12 3 (r_pow Z12 minus1 2)) (n div 2))"
      unfolding z12.pow_mul z12.red_pow by (rule refl)
    also have "\<dots> = red12 3 (r_one Z12)"
      unfolding unit16_pow(2) z12.red_pow pow_one12 by (rule refl)
    finally have e: "red12 3 (r_pow Z12 minus1 (2 * (n div 2))) = red12 3 (r_one Z12)" .
    have "red12 3 (r_pow Z12 minus1 (2 * (n div 2) + n mod 2)) = red12 3 (r_mul Z12 (r_one Z12) (r_pow Z12 minus1 (n mod 2)))"
      unfolding z12.pow_add by (rule z12.red_cong(2) [OF e refl])
    then show ?thesis by (simp add: z12.mul_one)
  qed
  then show "k mod 2 = l mod 2 \<Longrightarrow> ?thesis" by metis
qed

lemma ref_fexp: "PAIR_fexp ref_pair x = mk12 (r_pow Z12 (ev12 x) (8 * 33215))"
  by (simp add: ref_pair_def)

text \<open>The final exponentiation turns powers of \<open>unit16\<close> into powers of minus one.\<close>

lemma fexp_unit16:
  assumes "ev12 x = red12 3 (r_pow Z12 unit16 k)"
  shows "ev12 (PAIR_fexp ref_pair x) = red12 3 (r_pow Z12 minus1 k)"
proof -
  have "ev12 (PAIR_fexp ref_pair x) = red12 3 (r_pow Z12 (r_pow Z12 unit16 k) (8 * 33215))"
    by (simp only: ref_fexp mk12_ok assms z12.red_pow)
  also have "\<dots> = red12 3 (r_pow Z12 (r_pow Z12 unit16 8) (33215 * k))"
    unfolding z12.pow_mul [symmetric] by (simp add: ac_simps)
  also have "\<dots> = red12 3 (r_pow Z12 minus1 (33215 * k))" by (metis unit16_pow(1) z12.red_pow)
  also have "\<dots> = red12 3 (r_pow Z12 minus1 k)" by (rule minus1_pow) (simp add: mod_mult_left_eq [symmetric])
  finally show ?thesis .
qed

definition two_torsion1 :: "int point list" where "two_torsion1 = [None, Some (0, 0)]"
definition two_torsion2 :: "f2 point list" where "two_torsion2 = map pt9 [(0, 0), (0, 2), (2, 0), (2, 2)]"

lemma torsion_table:
  "list_all (\<lambda>a. ec_mul C3 2 (pt3 a) = None \<longrightarrow> pt3 a \<in> set two_torsion1) [0, 1, 2, 3]"
  "list_all (\<lambda>a. ec_mul C9 2 (pt9 a) = None \<longrightarrow> pt9 a \<in> set two_torsion2) all44"
  "list_all (\<lambda>v. list_all (\<lambda>w. deg1 (ec_add C3 v w) mod 2 = (deg1 v + deg1 w) mod 2) two_torsion1) two_torsion1"
  "list_all (\<lambda>v. list_all (\<lambda>w. deg2 (ec_add C9 v w) mod 2 = (deg2 v + deg2 w) mod 2) two_torsion2) two_torsion2"
  by code_simp+

lemma in_G1_ref: "in_G1 ref_libs Q \<longleftrightarrow> validp Q \<and> ec_mul C3 2 (evp Q) = None"
  unfolding in_G1_def in_order_def ref_libs_sel ref_libs_val using validp(1) [of Q] by (auto simp: pval_ref simp del: ec_mul.simps)

lemma in_G2_ref: "in_G2 ref_libs P \<longleftrightarrow> validp2 P \<and> ec_mul C9 2 (evp2 P) = None"
  unfolding in_G2_def in_order_def ref_libs_sel ref_libs_val using validp2(1) [of P] by (auto simp: p2val_ref simp del: ec_mul.simps)

lemma torsion1: "in_G1 ref_libs Q \<Longrightarrow> evp Q \<in> set two_torsion1"
proof -
  assume "in_G1 ref_libs Q"
  then have "on_curve C3 (evp Q)" "ec_mul C3 2 (evp Q) = None" using validp(1) [of Q] by (simp_all add: in_G1_ref del: ec_mul.simps)
  moreover from this(1) have "evp Q \<in> pt3 ` set [0, 1, 2, 3]" by (auto simp: on_C3 pt3_def)
  then obtain a where "a \<in> set [0, 1, 2, 3]" "evp Q = pt3 a" by blast
  ultimately show ?thesis using torsion_table(1) [unfolded list_all_iff, rule_format] by metis
qed

lemma torsion2: "in_G2 ref_libs P \<Longrightarrow> evp2 P \<in> set two_torsion2"
proof -
  assume "in_G2 ref_libs P"
  then have "on_curve C9 (evp2 P)" "ec_mul C9 2 (evp2 P) = None" using validp2(1) [of P] by (simp_all add: in_G2_ref del: ec_mul.simps)
  moreover from this(1) obtain a where "a \<in> set all44" "evp2 P = pt9 a" unfolding on_C9 all_pt9 by blast
  ultimately show ?thesis using torsion_table(2) [unfolded list_all_iff, rule_format] by metis
qed

lemma ev_line: "ev12 (mk12 (ref_line P Q)) = red12 3 (r_pow Z12 unit16 (deg2 (evp2 P) * deg1 (evp Q)))"
  by (simp add: mk12_ok ref_line_def)

lemma ref_pairing: "pairing ref_libs ref_pair P Q = red12 3 (r_pow Z12 minus1 (deg2 (evp2 P) * deg1 (evp Q)))"
proof -
  have "PAIR_ate ref_pair P Q = mk12 (ref_line P Q)" by (simp add: ref_pair_def)
  then show ?thesis unfolding pairing_def ref_libs_val by (simp only: fexp_unit16 [OF ev_line])
qed

lemma minus1_mul: "red12 3 (r_mul Z12 (red12 3 (r_pow Z12 minus1 k)) (red12 3 (r_pow Z12 minus1 l))) = red12 3 (r_pow Z12 minus1 (k + l))"
  by (simp add: z12.red_simps z12.pow_add)

lemma ref_multi:
  "red12 3 (ev12 y) = ev12 y \<Longrightarrow> ev12 (hd (foldl (\<lambda>r (P, Q). PAIR_another ref_pair r P Q) [y] PQs)) =
     red12 3 (r_mul Z12 (ev12 y) (r_pow Z12 unit16 (\<Sum>(P, Q) \<leftarrow> PQs. deg2 (evp2 P) * deg1 (evp Q))))"
proof (induction PQs arbitrary: y)
  case (Cons PQ PQs)
  obtain P Q where e: "PQ = (P, Q)" by (metis prod.exhaust)
  let ?y = "mk12 (r_mul Z12 (ev12 y) (ref_line P Q))"
  have s: "PAIR_another ref_pair [y] P Q = [?y]" by (simp add: ref_pair_def)
  show ?case
    using Cons.IH [of ?y] by (simp add: e s mk12_ok z12.red_red) (simp add: z12.red_simps z12.mul_assoc z12.pow_add ref_line_def)
qed (simp add: z12.mul_one2)

lemma ref_multi_pair:
  assumes "length r = 1"
  shows "ev12 (multi_pair ref_pair r PQs) = red12 3 (r_pow Z12 minus1 (\<Sum>(P, Q) \<leftarrow> PQs. deg2 (evp2 P) * deg1 (evp Q)))"
proof -
  have i: "PAIR_initmp ref_pair r = [mk12 (r_one Z12)]" using assms by (auto simp: ref_pair_def length_Suc_conv)
  have m: "PAIR_miller ref_pair = hd" by (simp add: ref_pair_def)
  show ?thesis
    unfolding multi_pair_def i m
    by (rule fexp_unit16) (simp only: ref_multi mk12_ok z12.red_red, simp add: z12.red_simps z12.mul_one)
qed

lemma minus1_prod: "red12 3 (f12_prod (map (\<lambda>(P, Q). pairing ref_libs ref_pair P Q) PQs)) =
    red12 3 (r_pow Z12 minus1 (\<Sum>(P, Q) \<leftarrow> PQs. deg2 (evp2 P) * deg1 (evp Q)))"
proof (induction PQs)
  case (Cons PQ PQs)
  obtain P Q where e: "PQ = (P, Q)" by (metis prod.exhaust)
  have "red12 3 (r_mul Z12 (pairing ref_libs ref_pair P Q) (f12_prod (map (\<lambda>(P, Q). pairing ref_libs ref_pair P Q) PQs))) =
      red12 3 (r_mul Z12 (red12 3 (r_pow Z12 minus1 (deg2 (evp2 P) * deg1 (evp Q))))
        (red12 3 (r_pow Z12 minus1 (\<Sum>(P, Q) \<leftarrow> PQs. deg2 (evp2 P) * deg1 (evp Q)))))"
    by (rule z12.red_cong(2), simp only: ref_pairing z12.red_red, simp only: Cons z12.red_red)
  then show ?case by (simp add: e f12_prod_def minus1_mul)
qed (simp add: f12_prod_def)

lemma deg_mod:
  "in_G1 ref_libs Q \<Longrightarrow> in_G1 ref_libs R \<Longrightarrow> deg1 (ec_add C3 (evp Q) (evp R)) mod 2 = (deg1 (evp Q) + deg1 (evp R)) mod 2"
  "in_G2 ref_libs P \<Longrightarrow> in_G2 ref_libs S \<Longrightarrow> deg2 (ec_add C9 (evp2 P) (evp2 S)) mod 2 = (deg2 (evp2 P) + deg2 (evp2 S)) mod 2"
  using torsion_table(3,4) [unfolded list_all_iff, rule_format] torsion1 torsion2 by blast+

lemma ref_v: "in_G1 ref_libs Q \<Longrightarrow> l_v1 ref_libs Q = evp Q" "in_G2 ref_libs P \<Longrightarrow> l_v2 ref_libs P = evp2 P"
  unfolding ref_libs_val in_G1_ref in_G2_ref using validp(1) [of Q] validp2(1) [of P] pval_ref p2val_ref by blast+

lemma ref_bilinear:
  assumes "in_G2 ref_libs P" "in_G1 ref_libs Q"
  shows "in_G2 ref_libs P' \<Longrightarrow> evp2 S = ec_add C9 (evp2 P) (evp2 P') \<Longrightarrow>
      pairing ref_libs ref_pair S Q = red12 3 (r_mul Z12 (pairing ref_libs ref_pair P Q) (pairing ref_libs ref_pair P' Q))"
    "in_G1 ref_libs Q' \<Longrightarrow> evp T = ec_add C3 (evp Q) (evp Q') \<Longrightarrow>
      pairing ref_libs ref_pair P T = red12 3 (r_mul Z12 (pairing ref_libs ref_pair P Q) (pairing ref_libs ref_pair P Q'))"
  unfolding ref_pairing minus1_mul using deg_mod(2) [OF assms(1), of P'] deg_mod(1) [OF assms(2), of Q']
  by (auto intro!: minus1_pow simp: distrib_left [symmetric] distrib_right [symmetric]) (metis mod_mult_left_eq, metis mod_mult_right_eq)

lemma ref_pair_ok: "pair_ok ref_libs ref_pair"
proof -
  note is12 = is_mk12 and sel = ref_libs_sel ref_libs_val
  have line: "valid12 valid3 (mk12 v)" for v by (rule mk12_ok(1))
  have gt: "in_GT ref_libs (pairing ref_libs ref_pair P Q)" for P Q
  proof -
    have "red12 3 (r_pow Z12 minus1 (deg2 (evp2 P) * deg1 (evp Q) * 2)) = red12 3 (r_pow Z12 minus1 0)" by (rule minus1_pow) simp
    then show ?thesis unfolding in_GT_def sel ref_pairing z12.red_pow z12.pow_mul by simp
  qed
  have double: "ev12 (PAIR_fexp ref_pair (PAIR_double_ate ref_pair P Q R S)) =
      red12 3 (r_mul Z12 (pairing ref_libs ref_pair P Q) (pairing ref_libs ref_pair R S))" for P Q R S
  proof -
    have "ev12 (PAIR_double_ate ref_pair P Q R S) = red12 3 (r_pow Z12 unit16 (deg2 (evp2 P) * deg1 (evp Q) + deg2 (evp2 R) * deg1 (evp S)))"
      by (simp add: ref_pair_def mk12_ok ref_line_def z12.pow_add)
    from fexp_unit16 [OF this] show ?thesis unfolding ref_pairing minus1_mul .
  qed
  have multi: "length (PAIR_initmp ref_pair r) = 1 \<and> list_all (is_fp12 3 valid3 (ref_fp 3) (r_one Z12)) (PAIR_initmp ref_pair r) \<and>
      is_fp12 3 valid3 (ref_fp 3) (f12_prod (map (\<lambda>(P, Q). pairing ref_libs ref_pair P Q) PQs)) (multi_pair ref_pair r PQs)" if "length r = 1" for r PQs
    unfolding is_fp12_def ref_multi_pair [OF that] minus1_prod
    using that by (simp add: multi_pair_def ref_pair_def mk12_ok list_all_iff)
  have mul: "is_ecp BLS381 validp (ref_ecp BLS381) (ec_mul C3 n (l_v1 ref_libs Q)) (mkp (ec_mul C3 n (evp Q)))" if "in_G1 ref_libs Q" for n Q
    using that validp(1) [of Q] ec_mul_closed [OF C3_group, of "evp Q" n] by (simp only: ref_v is_mkp in_G1_ref)
  have mul2: "is_ecp2 (ref_fp 3) validp2 ref_ecp2 (ec_mul C9 n (l_v2 ref_libs P)) (mkp2 (ec_mul C9 n (evp2 P)))" if "in_G2 ref_libs P" for n P
    using that validp2(1) [of P] ec_mul_closed [OF C9_group, of "evp2 P" n] by (simp only: ref_v is_mkp2 in_G2_ref)
  have nbits: "case PAIR_nbits ref_pair n of (k, n3) \<Rightarrow> bigv BLS381 n3 = 3 * bigv BLS381 n \<and> 0 \<le> k \<and> bigv BLS381 n3 < 2 ^ nat k \<and>
      (0 < bigv BLS381 n \<longrightarrow> 2 ^ nat (k - 1) \<le> bigv BLS381 n3)" if "nbigf BLS381 n" for n
  proof -
    let ?v = "3 * bigv BLS381 n"
    have v: "0 \<le> ?v" using nbig_range [OF that] by simp
    have e: "bigv BLS381 (encf BLS381 ?v) = ?v" by (simp add: NLEN_384_58_def amcl_const)
    have "?v < 2 ^ bit_length (nat ?v)" using bit_length_upper [of "nat ?v"] v by (metis nat_less_numeral_power_cancel_iff)
    moreover have "2 ^ (bit_length (nat ?v) - 1) \<le> ?v" if "0 < bigv BLS381 n"
      using bit_length_lower [of "nat ?v"] v that by (metis nat_le_iff of_nat_numeral of_nat_power zero_less_mult_iff zero_less_numeral zero_less_nat_eq numeral_power_le_nat_cancel_iff)
    moreover have "nat (int k - 1) = k - 1" for k by simp
    ultimately show ?thesis by (simp only: ref_pair_def pair_api.simps prod.case e nat_int of_nat_0_le_iff simp_thms) blast
  qed
  show ?thesis
    unfolding pair_ok_def Let_def sel
  proof (intro conjI allI impI)
    fix P P' S Q assume g: "in_G2 ref_libs P" "in_G2 ref_libs P'" "in_G2 ref_libs S" "in_G1 ref_libs Q"
      and s: "p2val (ref_fp 3) ref_ecp2 S = ec_add C9 (p2val (ref_fp 3) ref_ecp2 P) (p2val (ref_fp 3) ref_ecp2 P')"
    then show "pairing ref_libs ref_pair S Q = red12 3 (r_mul Z12 (pairing ref_libs ref_pair P Q) (pairing ref_libs ref_pair P' Q))"
      using ref_bilinear(1) [OF g(1,4,2), of S] ref_v(2) [unfolded sel] by simp
  next
    fix P Q Q' S assume g: "in_G2 ref_libs P" "in_G1 ref_libs Q" "in_G1 ref_libs Q'" "in_G1 ref_libs S"
      and s: "pval BLS381 (ref_ecp BLS381) S = ec_add C3 (pval BLS381 (ref_ecp BLS381) Q) (pval BLS381 (ref_ecp BLS381) Q')"
    then show "pairing ref_libs ref_pair P S = red12 3 (r_mul Z12 (pairing ref_libs ref_pair P Q) (pairing ref_libs ref_pair P Q'))"
      using ref_bilinear(2) [OF g(1,2,3), of S] ref_v(1) [unfolded sel] by simp
  next
    fix r :: "FP12_BLS381 list" and PQs assume "length r = 1"
    then show "length (PAIR_initmp ref_pair r) = 1" "list_all (is_fp12 3 valid3 (ref_fp 3) (r_one Z12)) (PAIR_initmp ref_pair r)"
      "is_fp12 3 valid3 (ref_fp 3) (f12_prod (map (\<lambda>(P, Q). pairing ref_libs ref_pair P Q) PQs)) (multi_pair ref_pair r PQs)"
      using multi by blast+
  next
    fix Q b assume "in_G1 ref_libs Q"
    from mul [OF this] show "is_ecp BLS381 validp (ref_ecp BLS381) (ec_mul C3 (nat (bigv BLS381 b)) (pval BLS381 (ref_ecp BLS381) Q)) (PAIR_G1mul ref_pair Q b)"
      unfolding sel by (simp only: ref_pair_def pair_api.simps)
  next
    fix P b assume "in_G2 ref_libs P"
    from mul2 [OF this] show "is_ecp2 (ref_fp 3) validp2 ref_ecp2 (ec_mul C9 (nat (bigv BLS381 b)) (p2val (ref_fp 3) ref_ecp2 P)) (PAIR_G2mul ref_pair P b)"
      unfolding sel by (simp only: ref_pair_def pair_api.simps)
  next
    fix P Q show "valid12 valid3 (PAIR_ate ref_pair P Q)" "in_GT ref_libs (pairing ref_libs ref_pair P Q)"
      using gt by (simp_all add: ref_pair_def line)
  next
    fix P Q R S show "valid12 valid3 (PAIR_double_ate ref_pair P Q R S)"
      "ev12 (PAIR_fexp ref_pair (PAIR_double_ate ref_pair P Q R S)) = red12 3 (r_mul Z12 (pairing ref_libs ref_pair P Q) (pairing ref_libs ref_pair R S))"
      using double by (simp_all add: ref_pair_def line)
  next
    fix n assume "nbigf BLS381 n"
    then show "case PAIR_nbits ref_pair n of (k, n3) \<Rightarrow> bigv BLS381 n3 = 3 * bigv BLS381 n \<and> 0 \<le> k \<and> bigv BLS381 n3 < 2 ^ nat k \<and>
      (0 < bigv BLS381 n \<longrightarrow> 2 ^ nat (k - 1) \<le> bigv BLS381 n3)" by (rule nbits)
  next
    fix x b
    show "is_fp12 3 valid3 (ref_fp 3) (r_pow Z12 (ev12 x) (nat (3 ^ 12 - 1) div 2)) (PAIR_fexp ref_pair x)"
      "is_fp12 3 valid3 (ref_fp 3) (r_pow Z12 (ev12 x) (nat (bigv BLS381 b))) (PAIR_GTpow ref_pair x b)"
      "PAIR_GTmember ref_pair x = bool_int (in_GT ref_libs (ev12 x))"
      unfolding ref_pair_def pair_api.simps in_GT_def sel by (simp_all only: is_mk12)
  qed
qed

lemma ref_nondegenerate: "nondegenerate ref_libs ref_pair"
  unfolding nondegenerate_def
proof (intro allI impI)
  fix Q assume Q: "in_G1 ref_libs Q"
    and e: "red12 (l_p ref_libs) (pairing ref_libs ref_pair (ECP2_generator (l_ecp2 ref_libs)) Q) = red12 (l_p ref_libs) (r_one Z12)"
  have "red12 3 (r_pow Z12 minus1 1) \<noteq> red12 3 (r_one Z12)" by code_simp
  moreover have "deg2 (evp2 (ECP2_generator ref_ecp2)) = 1" by (simp add: ref_ecp2_sel deg2_def)
  ultimately have "deg1 (evp Q) \<noteq> 1" using e by (simp only: ref_libs_sel ref_pairing z12.red_red mult_1) metis
  then show "l_v1 ref_libs Q = None" by (simp add: ref_v Q deg1_def split: if_splits)
qed

lemma ref_points:
  "in_G1 ref_libs (mkp (Some (0, 0)))" "nbigf BLS381 (encf BLS381 1)" "nbigf BLS381 (encf BLS381 2)" "length [mk12 (r_one Z12)] = l_ate ref_libs"
proof -
  have "ec_mul C3 2 (Some (0, 0)) = None" by code_simp
  then show "in_G1 ref_libs (mkp (Some (0, 0)))" by (simp add: in_G1_ref validp_def del: ec_mul.simps)
qed (use bigv_encf(2) [of 1 BLS381] bigv_encf(2) [of 2 BLS381] in \<open>simp_all add: ref_libs_sel\<close>)

theorem bls_pairing_verification_witness:
  "let G = ECP2_generator ref_ecp2; H = mkp (Some (0, 0)); s = encf BLS381 1; PK = PAIR_G2mul ref_pair G s; SIG = PAIR_G1mul ref_pair H s in
    FP12_isunity ref_fp12 (PAIR_fexp ref_pair (PAIR_double_ate ref_pair G (ECP_neg (ref_ecp BLS381) SIG) PK H)) = 1 \<and>
    FP12_isunity ref_fp12 (PAIR_fexp ref_pair (PAIR_ate ref_pair PK H)) = 0"
proof -
  let ?G = "ECP2_generator ref_ecp2" and ?H = "mkp (Some (0, 0))"
  have "FP12_isunity ref_fp12 (PAIR_fexp ref_pair (PAIR_double_ate ref_pair ?G (ECP_neg (ref_ecp BLS381) (PAIR_G1mul ref_pair ?H (encf BLS381 1)))
      (PAIR_G2mul ref_pair ?G (encf BLS381 1)) ?H)) = 1"
    using bls_pairing_verification [OF ref_libs_ok ref_pair_ok ref_points(2,3,1,4) refl refl refl refl refl] unfolding ref_libs_sel by blast
  moreover have "red12 3 (r_pow Z12 minus1 1) \<noteq> red12 3 (r_one Z12)" "evp2 (PAIR_G2mul ref_pair ?G (encf BLS381 1)) = pt9 (2, 0)"
    using bigv_encf(1) [of 1 BLS381] by (code_simp, simp add: ref_pair_def ref_ecp2_sel NLEN_384_58_def amcl_const)
  moreover from this(2) have "ev12 (PAIR_fexp ref_pair (PAIR_ate ref_pair (PAIR_G2mul ref_pair ?G (encf BLS381 1)) ?H)) = red12 3 (r_pow Z12 minus1 1)"
    using ref_pairing [of "PAIR_G2mul ref_pair ?G (encf BLS381 1)" ?H] unfolding pairing_def ref_libs_val by (simp add: deg1_def deg2_def)
  ultimately show ?thesis unfolding Let_def by (simp add: ref_fp12_fields bool_int_def)
qed


end
