(* ===== verification/Scalars.thy ===== *)
theory Scalars
  imports Ecp2
begin

text \<open>
  Integers as scalars of a group of points of prime order: multiples of a point by an integer modulo the order,
  the laws they obey, and when such a multiple is infinity. The protocols of \<open>ecdh_*.h\<close>, \<open>mpin_BLS381.h\<close> and
  \<open>bls_BLS381.h\<close> compute with such scalars.
\<close>

section \<open>Prime orders\<close>

definition prime_order :: "nat \<Rightarrow> bool" where
  "prime_order r \<longleftrightarrow> 1 < r \<and> (\<forall>d \<in> {2..<r}. \<not> d dvd r)"

lemma prime_order_coprime: "prime_order r \<Longrightarrow> \<not> int r dvd k \<Longrightarrow> coprime (int r) k"
proof -
  assume r: "prime_order r" and k: "\<not> int r dvd k"
  let ?g = "nat (gcd (int r) k)"
  have d: "?g dvd r" using gcd_dvd1 [of "int r" k] by (metis gcd_ge_0_int int_dvd_int_iff int_nat_eq)
  have "?g \<noteq> 0" "?g \<le> r" using d r by (auto simp: prime_order_def dest: dvd_imp_le intro: gr0I)
  moreover have "?g \<noteq> r" using k gcd_dvd2 [of "int r" k] by (metis gcd_ge_0_int int_nat_eq)
  ultimately have "?g = 1" using r d unfolding prime_order_def by (metis One_nat_def Suc_leI atLeastLessThan_iff le_neq_implies_less le_SucE less_2_cases_iff nat_neq_iff not_less)
  then have "gcd (int r) k = 1" by (metis gcd_ge_0_int int_nat_eq of_nat_1)
  then show ?thesis by (simp add: coprime_iff_gcd_eq_1)
qed

lemma prime_order_product: "prime_order r \<Longrightarrow> int r dvd a * b \<longleftrightarrow> int r dvd a \<or> int r dvd b"
  using prime_order_coprime coprime_dvd_mult_right_iff by (metis dvd_mult dvd_mult2)

lemma prime_order_inverse: "prime_order r \<Longrightarrow> \<not> int r dvd k \<Longrightarrow> \<exists>i. int r dvd k * i - 1"
proof -
  assume "prime_order r" "\<not> int r dvd k"
  then have "gcd (int r) k = 1" using prime_order_coprime by (simp add: coprime_iff_gcd_eq_1)
  then obtain u v where "u * int r + v * k = 1" using bezout_int [of "int r" k] by auto
  then have "k * v - 1 = int r * - u" by (simp add: algebra_simps)
  then show ?thesis by (metis dvd_triv_left)
qed

text \<open>The inverse modulo the order.\<close>

definition order_inv :: "nat \<Rightarrow> int \<Rightarrow> int" where
  "order_inv r a = inv_mod (a mod int r) (int r)"

lemma order_inv:
  assumes r: "prime_order r" and a: "\<not> int r dvd a"
  shows "int r dvd a * order_inv r a - 1"
proof -
  have r0: "0 < int r" using r by (simp add: prime_order_def)
  have "coprime (a mod int r) (int r)"
    using prime_order_coprime [OF r, of "a mod int r"] a by (simp add: dvd_mod_iff coprime_commute)
  from inv_mod [OF pos_mod_sign [OF r0] r0 this]
  have "a * order_inv r a mod int r = 1 mod int r" unfolding order_inv_def by (metis mod_mult_left_eq mult.commute)
  then show ?thesis by (simp add: mod_eq_dvd_iff)
qed

section \<open>Multiples by integers\<close>

definition zmul :: "'v curve \<Rightarrow> nat \<Rightarrow> int \<Rightarrow> 'v point \<Rightarrow> 'v point" where
  "zmul C r k P = ec_mul C (nat (k mod int r)) P"

lemma zmul_in_order: "ec_group C \<Longrightarrow> in_order C r P \<Longrightarrow> in_order C r (zmul C r k P)"
  unfolding zmul_def in_order_def
  using ec_mul_closed ec_mul_commute [of C P r] by (metis ec_mul_None)

lemma in_order_on: "in_order C r P \<Longrightarrow> on_curve C P"
  by (simp add: in_order_def)

lemma zmul_of_nat: "ec_group C \<Longrightarrow> in_order C r P \<Longrightarrow> zmul C r (int n) P = ec_mul C n P"
  by (simp add: zmul_def in_order_def ec_mul_mod of_nat_mod [symmetric] del: of_nat_mod)

lemma zmul_cong: "k mod int r = l mod int r \<Longrightarrow> zmul C r k P = zmul C r l P"
  by (simp add: zmul_def)

lemma zmul_nat:
  assumes "ec_group C" "in_order C r P" "0 < r" "int n mod int r = k mod int r"
  shows "zmul C r k P = ec_mul C n P"
  using zmul_of_nat [OF assms(1,2)] zmul_cong [OF assms(4)] by metis

lemma zmul_add:
  assumes g: "ec_group C" and P: "in_order C r P" and r: "0 < r"
  shows "ec_add C (zmul C r a P) (zmul C r b P) = zmul C r (a + b) P"
proof -
  let ?a = "nat (a mod int r)" and ?b = "nat (b mod int r)"
  have "int (?a + ?b) mod int r = (a + b) mod int r" using r by (simp add: mod_add_eq)
  from zmul_nat [OF g P r this] show ?thesis
    using ec_mul_add [OF g in_order_on [OF P]] by (simp add: zmul_def)
qed

lemma zmul_mul:
  assumes g: "ec_group C" and P: "in_order C r P" and r: "0 < r"
  shows "zmul C r a (zmul C r b P) = zmul C r (a * b) P"
proof -
  let ?a = "nat (a mod int r)" and ?b = "nat (b mod int r)"
  have "int (?a * ?b) mod int r = (a * b) mod int r" using r by (simp add: mod_mult_eq)
  from zmul_nat [OF g P r this] show ?thesis
    using ec_mul_mul [OF g in_order_on [OF P]] by (simp add: zmul_def)
qed

lemma zmul_0 [simp]: "zmul C r 0 P = None"
  by (simp add: zmul_def)

lemma zmul_1: "ec_group C \<Longrightarrow> in_order C r P \<Longrightarrow> zmul C r 1 P = P"
  using zmul_of_nat [of C r P 1] by simp

lemma zmul_neg:
  assumes g: "ec_group C" and P: "in_order C r P" and r: "0 < r"
  shows "ec_neg C (zmul C r a P) = zmul C r (- a) P"
proof -
  have "ec_add C (zmul C r a P) (zmul C r (- a) P) = None" by (simp add: zmul_add [OF g P r])
  then show ?thesis
    using ec_cancel(2) [OF g] zmul_in_order [OF g P] in_order_on by metis
qed

lemma zmul_multiple:
  assumes "ec_group C" "in_order C r P" "0 < r"
  shows "ec_mul C n (zmul C r a P) = zmul C r (int n * a) P"
  using zmul_mul [OF assms, of "int n" a] zmul_of_nat [OF assms(1) zmul_in_order [OF assms(1,2)]] by metis

lemma zmul_sum:
  assumes g: "ec_group C" and P: "in_order C r P" and Q: "in_order C r Q" and r: "0 < r"
  shows "zmul C r a (ec_add C P Q) = ec_add C (zmul C r a P) (zmul C r a Q)"
  using ec_mul_sum [OF g in_order_on [OF P] in_order_on [OF Q]] by (simp add: zmul_def)

lemmas zmul_laws = zmul_add zmul_neg zmul_multiple zmul_mul

text \<open>In a group of prime order a multiple of a point is infinity only for the multiples of the order.\<close>

lemma zmul_None:
  assumes g: "ec_group C" and P: "in_order C r P" and r: "prime_order r" and nz: "P \<noteq> None"
  shows "zmul C r k P = None \<longleftrightarrow> int r dvd k"
proof
  have r0: "0 < r" using r by (simp add: prime_order_def)
  assume z: "zmul C r k P = None"
  show "int r dvd k"
  proof (rule ccontr)
    assume "\<not> int r dvd k"
    then obtain i where i: "int r dvd k * i - 1" using prime_order_inverse [OF r] by blast
    have "zmul C r (i * k) P = None" using z by (simp add: zmul_mul [OF g P r0, symmetric] zmul_def [of C r i])
    moreover have "zmul C r (i * k) P = zmul C r 1 P"
      using i by (intro zmul_cong) (simp add: mod_eq_dvd_iff mult.commute)
    ultimately show False using nz zmul_1 [OF g P] by simp
  qed
next
  assume "int r dvd k"
  then show "zmul C r k P = None" by (simp add: zmul_def mod_eq_0_iff_dvd)
qed

lemma zmul_eq:
  assumes g: "ec_group C" and P: "in_order C r P" and r: "prime_order r" and nz: "P \<noteq> None"
  shows "zmul C r k P = zmul C r l P \<longleftrightarrow> int r dvd k - l"
proof -
  have r0: "0 < r" using r by (simp add: prime_order_def)
  note on = in_order_on [OF zmul_in_order [OF g P]]
  have "zmul C r k P = zmul C r l P \<longleftrightarrow> ec_add C (zmul C r k P) (ec_neg C (zmul C r l P)) = None"
    using ec_groupD(3) [OF g on on] ec_cancel(1) [OF g on ec_groupD(2) [OF g on on]] ec_cancel(2) [OF g]
    by (metis ec_groupD(2) g on ec_add.simps(1) ec_groupD(5) ec_groupD(4) ec_add_None)
  then show ?thesis
    using zmul_None [OF g P r nz, of "k - l"] by (simp add: zmul_neg [OF g P r0] zmul_add [OF g P r0])
qed

end
