(* ===== verification/Schemes.thy ===== *)
theory Schemes
  imports Zkp Pairing Scalars
begin

text \<open>
  What the schemes over the pairing have in common, the signatures of \<open>bls_BLS381.h\<close> and the authentication of
  \<open>mpin_BLS381.h\<close>: octets of points, the check of two pairings, shares that are multiples of a point and their
  sums, and the points of the reference library of \<open>Pairing\<close>.
\<close>

section \<open>Points and checks\<close>

text \<open>The octets of points, as the library writes them; infinity has none.\<close>

definition g1_oct :: "int point \<Rightarrow> bytes \<Rightarrow> bool" where
  "g1_oct v b \<longleftrightarrow> (\<exists>xy. v = Some xy \<and> b = point_octet MODBYTES_384_58 False xy)"

definition g2_oct :: "f2 point \<Rightarrow> bytes \<Rightarrow> bool" where
  "g2_oct v b \<longleftrightarrow> (\<exists>xy. v = Some xy \<and> b = point2_octet xy)"

definition l_Q :: "pair_libs \<Rightarrow> f2 point" where
  "l_Q L = l_v2 L (ECP2_generator (l_ecp2 L))"

text \<open>The code of a check of two pairings: \<open>e(Q, V) e(SS, W)\<close> has to be unity.\<close>

definition check_code :: "pair_libs \<Rightarrow> pair_api \<Rightarrow> int \<Rightarrow> int \<Rightarrow> f2 point \<Rightarrow> int point \<Rightarrow> int point \<Rightarrow> int \<Rightarrow> bool" where
  "check_code L papi good bad SS V W code \<longleftrightarrow> (\<forall>P S Q T. rep2 L (l_Q L) P \<longrightarrow> rep2 L SS S \<longrightarrow> rep1 L V Q \<longrightarrow> rep1 L W T \<longrightarrow>
     code = (if FP12_isunity (l_fp12 L) (PAIR_fexp papi (PAIR_double_ate papi P Q S T)) = 1 then good else bad))"

text \<open>A function that adds two points given by their octets.\<close>

definition adds_points :: "'v curve \<Rightarrow> nat \<Rightarrow> ('v point \<Rightarrow> bytes \<Rightarrow> bool) \<Rightarrow> (slice \<Rightarrow> slice \<Rightarrow> bytes \<times> gerr option) \<Rightarrow> bool" where
  "adds_points C r oct' f \<longleftrightarrow> (\<forall>v w a b c. in_order C r v \<longrightarrow> in_order C r w \<longrightarrow> oct' v a \<longrightarrow> oct' w b \<longrightarrow> oct' (ec_add C v w) c \<longrightarrow>
     f (Some a) (Some b) = (c, None))"

text \<open>Every point of the group has a representation.\<close>

lemma rep1_exists:
  assumes L: "libs_ok L" and v: "in_order (l_C1 L) (l_r L) v"
  shows "\<exists>Q. rep1 L v Q"
proof (cases v)
  case None
  then show ?thesis using rep1_build(3) [OF L rep_generator(1) [OF L]] by blast
next
  case (Some xy)
  obtain x y where xy: "xy = (x, y)" by (cases xy)
  have "is_ecp BLS381 (l_vp L) (l_ecp L) (Some (x, y)) (snd (ECP_fromOctet (l_ecp L) (point_octet (fp_bytes BLS381) False (x, y))))"
    using libsD(5) [OF L] v unfolding ecp_ok_def Let_def l_C1_def in_order_def Some xy by blast
  then show ?thesis using v unfolding rep1_is Some xy by blast
qed

lemma rep2_exists:
  assumes L: "libs_ok L" and v: "in_order (l_C2 L) (l_r L) v"
  shows "\<exists>P. rep2 L v P"
proof (cases v)
  case None
  then show ?thesis using rep2_build(2) [OF L rep_generator(2) [OF L]] by blast
next
  case (Some xy)
  obtain x y where xy: "xy = (x, y)" by (cases xy)
  have "is_ecp2 (l_fp L) (l_vp2 L) (l_ecp2 L) (Some (x, y)) (snd (ECP2_fromOctet (l_ecp2 L) (point2_octet (x, y))))"
    using libsD(6) [OF L] v unfolding ecp2_ok_def ecp2_base_ok_def Let_def l_C2_def in_order_def Some xy by blast
  then show ?thesis using v unfolding rep2_is Some xy by blast
qed

text \<open>Pairing \<open>Q\<close> with \<open>V\<close> and its multiple with \<open>W\<close> gives unity only if \<open>V\<close> is the negative of the multiple of \<open>W\<close>.\<close>

lemma check_value:
  assumes ok: "libs_ok L" "pair_ok L papi" and nd: "nondegenerate L papi"
    and P: "rep2 L (l_Q L) (ECP2_generator (l_ecp2 L))" and S: "rep2 L (ec_mul (l_C2 L) n (l_Q L)) S" and Q: "rep1 L v Q" and T: "rep1 L w T"
  defines "G \<equiv> ECP2_generator (l_ecp2 L)"
  shows "FP12_isunity (l_fp12 L) (PAIR_fexp papi (PAIR_double_ate papi G Q S T)) = 1 \<longleftrightarrow> ec_add (l_C1 L) v (ec_mul (l_C1 L) n w) = None"
proof -
  let ?p = "l_p L" and ?e = "pairing L papi" and ?one = "red12 (l_p L) (r_one Z12)"
  note L = libsD [OF ok(1)] and P = P [folded G_def]
  obtain T' where T': "rep1 L (ec_mul (l_C1 L) n w) T'" using rep_ex(1) [OF ok(1) T] by blast
  define X where "X = ECP_add (l_ecp L) Q T'"
  have X: "rep1 L (ec_add (l_C1 L) v (ec_mul (l_C1 L) n w)) X" unfolding X_def by (rule rep1_build(2) [OF ok(1) Q T'])
  have i: "in_G2 L G" "in_G2 L S" "in_G1 L Q" "in_G1 L T" "in_G1 L T'" "in_G1 L X"
    using P S Q T T' X by (simp_all add: rep1_def rep2_def)
  have "red12 ?p (?e S T) = red12 ?p (?e G T')"
    using pairing_pow(1) [OF ok P T S] pairing_pow(2) [OF ok P T T'] by simp
  then have "red12 ?p (r_mul Z12 (?e G Q) (?e S T)) = red12 ?p (r_mul Z12 (?e G Q) (?e G T'))" by (rule z12.red_cong(2) [OF refl])
  also have "\<dots> = ?e G X" using pair_okD(3) [OF ok(2) i(1,3,5,6)] Q T' X by (simp add: rep1_def)
  finally have e: "red12 ?p (r_mul Z12 (?e G Q) (?e S T)) = ?e G X" .
  have "FP12_isunity (l_fp12 L) (PAIR_fexp papi (PAIR_double_ate papi G Q S T)) = 1 \<longleftrightarrow> ?e G X = ?one"
    using fp12_build(8) [OF L(4) double_is [OF ok i(1,3,2,4)]] e by (simp add: bool_int_def)
  also have "\<dots> \<longleftrightarrow> ec_add (l_C1 L) v (ec_mul (l_C1 L) n w) = None"
  proof
    assume "?e G X = ?one"
    then show "ec_add (l_C1 L) v (ec_mul (l_C1 L) n w) = None"
      using nd [unfolded nondegenerate_def, rule_format, OF i(6)] X by (simp add: rep1_def G_def z12.red_red)
  next
    assume "ec_add (l_C1 L) v (ec_mul (l_C1 L) n w) = None"
    then have "red12 ?p (?e G X) = ?one" using pairing_pow(2) [OF ok P T, of 0] X by simp
    then show "?e G X = ?one" unfolding e [symmetric] by (simp add: z12.red_red)
  qed
  finally show ?thesis .
qed

lemma check_code_value:
  assumes ok: "libs_ok L" "pair_ok L papi" and nd: "nondegenerate L papi"
    and v: "in_order (l_C1 L) (l_r L) v" and w: "in_order (l_C1 L) (l_r L) w"
    and code: "check_code L papi good bad (ec_mul (l_C2 L) n (l_Q L)) v w code"
  shows "code = (if ec_add (l_C1 L) v (ec_mul (l_C1 L) n w) = None then good else bad)"
proof -
  have P: "rep2 L (l_Q L) (ECP2_generator (l_ecp2 L))" unfolding l_Q_def by (rule rep_generator(2) [OF ok(1)])
  obtain S where S: "rep2 L (ec_mul (l_C2 L) n (l_Q L)) S" using rep_ex(2) [OF ok(1) P] by blast
  obtain Q where Q: "rep1 L v Q" using rep1_exists [OF ok(1) v] by blast
  obtain T where T: "rep1 L w T" using rep1_exists [OF ok(1) w] by blast
  show ?thesis using code [unfolded check_code_def, rule_format, OF P S Q T] check_value [OF ok nd P S Q T] by simp
qed

section \<open>Shares and their sums\<close>

text \<open>The calls of one function for each of a list of arguments; the results with their errors.\<close>

fun each :: "('a \<Rightarrow> cmem \<Rightarrow> ('b \<times> cmem) option) \<Rightarrow> 'a list \<Rightarrow> cmem \<Rightarrow> ('b list \<times> cmem) option" where
  "each f [] mem = Some ([], mem)"
| "each f (x # xs) mem = do { (y, mem) \<leftarrow> f x mem; (ys, mem) \<leftarrow> each f xs mem; Some (y # ys, mem) }"

definition good_shares :: "nat \<Rightarrow> nat list \<Rightarrow> bool" where
  "good_shares r ns \<longleftrightarrow> ns \<noteq> [] \<and> list_all (\<lambda>n. \<not> r dvd n) ns \<and> list_all (\<lambda>k. \<not> r dvd sum_list (take (Suc k) ns)) [0..<length ns]"

lemma each_ok:
  assumes "\<And>x mem. x \<in> set xs \<Longrightarrow> \<exists>mem'. f x mem = Some (g x, mem')"
  shows "\<exists>mem'. each f xs mem = Some (map g xs, mem')"
  using assms
proof (induction xs arbitrary: mem)
  case (Cons x xs)
  obtain m1 where "f x mem = Some (g x, m1)" using Cons.prems [of x mem] by auto
  moreover obtain m2 where "each f xs m1 = Some (map g xs, m2)" using Cons.IH [of m1] Cons.prems by auto
  ultimately show ?case by simp
qed simp

text \<open>Adding up shares that are multiples of a point.\<close>

lemma combine_multiples:
  assumes g: "ec_group C" and h: "in_order C r h" "h \<noteq> None" and r: "prime_order r"
    and rep: "\<forall>k. k \<noteq> None \<longrightarrow> (\<exists>b. oct' k b)" and step: "adds_points C r oct' f"
    and a: "oct' (zmul C r (int n) h) a" and bs: "list_all2 (\<lambda>m b. oct' (zmul C r (int m) h) b) ms bs"
    and sums: "\<And>k. k < length ms \<Longrightarrow> \<not> r dvd n + sum_list (take (Suc k) ms)"
  shows "\<exists>c. combine_shares f (Some a) (map Some bs) = (Some c, None) \<and> oct' (zmul C r (int (n + sum_list ms)) h) c"
  using bs a sums
proof (induction ms bs arbitrary: n a rule: list_all2_induct)
  case (Cons m ms b bs)
  have r0: "0 < r" using r by (simp add: prime_order_def)
  have "\<not> int r dvd int (n + m)" using Cons.prems(2) [of 0] by (simp only: int_dvd_int_iff) simp
  then obtain c where c: "oct' (zmul C r (int (n + m)) h) c" using rep zmul_None [OF g h(1) r h(2)] by blast
  then have "oct' (ec_add C (zmul C r (int n) h) (zmul C r (int m) h)) c" by (simp add: zmul_add [OF g h(1) r0])
  then have f: "f (Some a) (Some b) = (c, None)"
    by (rule step [unfolded adds_points_def, rule_format, OF zmul_in_order [OF g h(1)] zmul_in_order [OF g h(1)] Cons.prems(1) Cons.hyps(1)])
  have "\<not> r dvd n + m + sum_list (take (Suc k) ms)" if "k < length ms" for k
    using Cons.prems(2) [of "Suc k"] that by (simp add: add.assoc)
  from Cons.IH [OF c this] show ?case by (simp add: f add.assoc)
qed simp

lemma combine_all:
  assumes g: "ec_group C" and h: "in_order C r h" "h \<noteq> None" and r: "prime_order r"
    and rep: "\<forall>k. k \<noteq> None \<longrightarrow> (\<exists>b. oct' k b)" and step: "adds_points C r oct' f"
    and ns: "good_shares r ns" and bs: "list_all2 (\<lambda>n b. oct' (ec_mul C n h) b) ns bs"
  obtains a bs' c where "bs = a # bs'" "combine_shares f (Some a) (map Some bs') = (Some c, None)" "oct' (ec_mul C (sum_list ns) h) c"
proof -
  obtain n ms where n: "ns = n # ms" using ns by (cases ns) (auto simp: good_shares_def)
  then obtain a bs' where b: "bs = a # bs'" "oct' (zmul C r (int n) h) a" "list_all2 (\<lambda>m b. oct' (zmul C r (int m) h) b) ms bs'"
    using bs by (auto simp: list_all2_Cons1 zmul_of_nat [OF g h(1)])
  have "\<not> r dvd n + sum_list (take (Suc k) ms)" if "k < length ms" for k
    using ns [unfolded good_shares_def n list_all_iff, THEN conjunct2, THEN conjunct2, THEN bspec, of "Suc k"] that
    by (cases "Suc k = length ms") simp_all
  from combine_multiples [OF g h r rep step b(2,3) this]
  show thesis using that b(1) by (auto simp: n zmul_of_nat [OF g h(1)] simp del: of_nat_add)
qed

lemma out_small:
  assumes "cfun_ok f" "list_all (pred_option oct_wf) os" "i < length os" "os ! i = fresh n" "0 \<le> n" "n < 2 ^ 31"
  shows "small (Some (the_bytes (snd (f os) ! i)))"
  using cfun_ok_bytes [OF assms(1-4)] assms(5,6) by (simp add: small_def fresh_octet_def cint_id)

text \<open>Octets of points are short.\<close>

lemma to_be_field: "k mod p = k \<Longrightarrow> 0 < p \<Longrightarrow> p \<le> 256 ^ MODBYTES_384_58 \<Longrightarrow> length (to_be MODBYTES_384_58 k) = MODBYTES_384_58"
  using pos_mod_sign [of p k] pos_mod_bound [of p k] by (intro to_be_len) auto

lemma oct_lengths:
  assumes ok: "libs_ok L" and p: "l_p L \<le> 256 ^ MODBYTES_384_58"
  shows "on_curve (l_C1 L) v \<Longrightarrow> g1_oct v a \<Longrightarrow> length a = nat G1SBLS381" "on_curve (l_C2 L) w \<Longrightarrow> g2_oct w b \<Longrightarrow> length b = nat G2SBLS381"
proof -
  note len = to_be_field [OF _ libsD(1) [OF ok] p]
  show "length a = nat G1SBLS381" if "on_curve (l_C1 L) v" "g1_oct v a"
    using that by (auto simp: g1_oct_def l_C1_def rom_curve_def g1_curve_def red1_def point_octet_def len G1SBLS381_def PFS_BLS381_def)
  show "length b = nat G2SBLS381" if "on_curve (l_C2 L) w" "g2_oct w b"
    using that by (auto simp: g2_oct_def l_C2_def rom_curve2_def g2_curve_def red2_def red1_def point2_octet_def len G2SBLS381_def PFS_BLS381_def)
qed

lemma oct_small:
  assumes "libs_ok L" "l_p L \<le> 256 ^ MODBYTES_384_58"
  shows "on_curve (l_C1 L) v \<Longrightarrow> g1_oct v a \<Longrightarrow> small (Some a)" "on_curve (l_C2 L) w \<Longrightarrow> g2_oct w b \<Longrightarrow> small (Some b)"
  using oct_lengths [OF assms] by (auto simp: small_def G1SBLS381_def G2SBLS381_def amcl_const)

text \<open>The shares of a secret and their sum, through the wrappers.\<close>

lemma shares_ok:
  assumes g: "ec_group C" and q: "in_order C r q" "q \<noteq> None" and r: "prime_order r"
    and ex: "\<forall>k. k \<noteq> None \<longrightarrow> (\<exists>b. oct' k b)" and step: "adds_points C r oct' f"
    and masters: "good_shares r (map be_nat masters)"
    and get: "\<And>ms mem. ms \<in> set masters \<Longrightarrow> ec_mul C (be_nat ms) q \<noteq> None \<Longrightarrow>
      oct' (ec_mul C (be_nat ms) q) (share ms) \<and> small (Some (share ms)) \<and> (\<exists>mem'. get ms mem = Some ((share ms, None), mem'))"
    and rec: "\<And>a bs mem. small (Some a) \<Longrightarrow> list_all small (map Some bs) \<Longrightarrow>
      \<exists>mem'. recombine (Some a # map Some bs) mem = Some (combine_shares f (Some a) (map Some bs), mem')"
  shows "\<exists>mem' s mem''. each get masters mem = Some (map (\<lambda>ms. (share ms, None)) masters, mem') \<and>
    recombine (map (\<lambda>ms. Some (share ms)) masters) mem' = Some ((Some s, None), mem'') \<and> oct' (ec_mul C (sum_list (map be_nat masters)) q) s"
proof -
  have nz: "ec_mul C (be_nat ms) q \<noteq> None" if "ms \<in> set masters" for ms
    using zmul_None [OF g q(1) r q(2), of "int (be_nat ms)"] masters that
    by (simp add: zmul_of_nat [OF g q(1)] good_shares_def list_all_iff)
  note get = get [OF _ nz]
  have l2: "list_all2 (\<lambda>n b. oct' (ec_mul C n q) b) (map be_nat masters) (map share masters)"
    using get by (simp add: list_all2_map1 list_all2_map2 list.rel_refl_strong)
  obtain mem' where each: "each get masters mem = Some (map (\<lambda>ms. (share ms, None)) masters, mem')"
    using each_ok [of masters get "\<lambda>ms. (share ms, None)" mem] get by blast
  obtain a bs c where c: "map share masters = a # bs" "combine_shares f (Some a) (map Some bs) = (Some c, None)"
    "oct' (ec_mul C (sum_list (map be_nat masters)) q) c"
    by (rule combine_all [OF g q r ex step masters l2])
  have "small (Some b)" if "b \<in> set (map share masters)" for b using that get by auto
  then have sm: "small (Some a)" "list_all small (map Some bs)" using c(1) by (auto simp: list_all_iff)
  have "map (\<lambda>ms. Some (share ms)) masters = Some a # map Some bs" using c(1) by (auto simp: map_eq_Cons_conv comp_def)
  then show ?thesis using rec [OF sm, of mem'] each c(2,3) by auto
qed

section \<open>Points of the reference library\<close>

text \<open>Points of the reference library of \<open>Pairing\<close>: one point besides infinity in the first group, three in the other.\<close>

definition base1 :: "int point" where "base1 = Some (0, 0)"

fun enc1 :: "int point \<Rightarrow> bytes" where
  "enc1 None = []"
| "enc1 (Some xy) = point_octet MODBYTES_384_58 False xy"

fun enc2 :: "f2 point \<Rightarrow> bytes" where
  "enc2 None = []"
| "enc2 (Some xy) = point2_octet xy"

definition dec1 :: "bytes \<Rightarrow> int point" where
  "dec1 b = (case find (\<lambda>v. enc1 v = b) two_torsion1 of None \<Rightarrow> None | Some v \<Rightarrow> v)"

definition dec2 :: "bytes \<Rightarrow> f2 point" where
  "dec2 b = (case find (\<lambda>v. enc2 v = b) two_torsion2 of None \<Rightarrow> None | Some v \<Rightarrow> v)"

abbreviation oct_arg :: "octet option list \<Rightarrow> nat \<Rightarrow> bytes" where
  "oct_arg os i \<equiv> the_bytes (os ! i)"

definition ref_one :: bytes where "ref_one = replicate 47 0 @ [1]"

definition ref_zero :: bytes where "ref_zero = replicate 48 0"

lemma cfun_ok_put3: "cfun_ok (\<lambda>os. (r os, os[k := put (f os) (os ! k), l := put (g os) (os ! l), m := put (h os) (os ! m)]))"
  by (rule cfun_ok_puts) (metis length_list_update nth_list_update_eq nth_list_update_neq snd_conv, simp)

lemma ref_Q: "l_Q ref_libs = pt9 (2, 0)" "in_order C9 2 (l_Q ref_libs)" "l_Q ref_libs \<noteq> None"
proof -
  have G: "rep2 ref_libs (l_Q ref_libs) (ECP2_generator ref_ecp2)"
    using rep_generator(2) [OF ref_libs_ok] by (simp add: l_Q_def ref_libs_sel)
  then show "in_order C9 2 (l_Q ref_libs)" by (simp add: rep2_is ref_libs_val)
  show Q: "l_Q ref_libs = pt9 (2, 0)" using G ref_v(2) [of "ECP2_generator ref_ecp2"] by (simp add: rep2_def ref_ecp2_sel)
  show "l_Q ref_libs \<noteq> None" unfolding Q by code_simp
qed

lemma g_oct_enc: "g1_oct v a \<Longrightarrow> a = enc1 v" "g2_oct w b \<Longrightarrow> b = enc2 w"
  by (auto simp: g1_oct_def g2_oct_def)

lemma in_two_torsion:
  "in_order C3 2 v \<Longrightarrow> v \<in> set two_torsion1" "in_order C9 2 w \<Longrightarrow> w \<in> set two_torsion2"
proof -
  show "v \<in> set two_torsion1" if v: "in_order C3 2 v"
  proof -
    obtain Q where "rep1 ref_libs v Q" using rep1_exists [OF ref_libs_ok] v by (auto simp: ref_libs_val)
    then show ?thesis using torsion1 [of Q] ref_v(1) [of Q] by (simp add: rep1_def)
  qed
  show "w \<in> set two_torsion2" if w: "in_order C9 2 w"
  proof -
    obtain P where "rep2 ref_libs w P" using rep2_exists [OF ref_libs_ok] w by (auto simp: ref_libs_val)
    then show ?thesis using torsion2 [of P] ref_v(2) [of P] by (simp add: rep2_def)
  qed
qed

lemma dec_table:
  "list_all (\<lambda>v. dec1 (enc1 v) = v \<and> length (enc1 v) \<le> 97) two_torsion1"
  "list_all (\<lambda>v. dec2 (enc2 v) = v \<and> length (enc2 v) \<le> 192) two_torsion2"
  by code_simp+

lemma dec_enc:
  "in_order C3 2 v \<Longrightarrow> dec1 (enc1 v) = v" "in_order C3 2 v \<Longrightarrow> length (enc1 v) \<le> 97"
  "in_order C9 2 w \<Longrightarrow> dec2 (enc2 w) = w" "in_order C9 2 w \<Longrightarrow> length (enc2 w) \<le> 192"
  using dec_table [unfolded list_all_iff] in_two_torsion by blast+

lemma base1_order: "in_order C3 2 base1"
proof -
  have "on_curve C3 base1 \<and> ec_mul C3 2 base1 = None" by code_simp
  then show ?thesis by (simp add: in_order_def)
qed

lemma put_fresh:
  "length b \<le> 97 \<Longrightarrow> the_bytes (put b (fresh G1SBLS381)) = b" "length b \<le> 192 \<Longrightarrow> the_bytes (put b (fresh G2SBLS381)) = b"
  "the_bytes (put [] (fresh PFS_BLS381)) = []"
proof -
  have "oct_max (fresh_octet G1SBLS381) = 97" "oct_max (fresh_octet G2SBLS381) = 192" "oct_max (fresh_octet PFS_BLS381) = 48"
    by (simp_all add: fresh_octet_def cint_id G1SBLS381_def G2SBLS381_def amcl_const)
  then show "length b \<le> 97 \<Longrightarrow> the_bytes (put b (fresh G1SBLS381)) = b" "length b \<le> 192 \<Longrightarrow> the_bytes (put b (fresh G2SBLS381)) = b"
    "the_bytes (put [] (fresh PFS_BLS381)) = []"
    by (simp_all add: the_bytes_put)
qed

lemma arg_oct: "small (Some b) \<Longrightarrow> the_bytes (Some (octet_of b)) = b"
  using the_bytes_octet_of [of "Some b"] by simp

lemma put_oct: "small (Some a) \<Longrightarrow> length b \<le> length a \<Longrightarrow> the_bytes (put b (Some (octet_of a))) = b"
  using oct_wf_octet_of [of "Some a"] by (intro the_bytes_put_wf) (auto simp: small_def octet_of_def cint_id)

lemma ref_scalars: "be_nat ref_one = 1" "length ref_one = 48" "be_nat ref_zero = 0" "length ref_zero = 48" "nat PGS_BLS381 = 48"
  by code_simp+

lemma put_scalar: "length b = 48 \<Longrightarrow> the_bytes (put b (fresh PGS_BLS381)) = b"
proof -
  have "oct_max (fresh_octet PGS_BLS381) = 48" by (simp add: fresh_octet_def cint_id amcl_const)
  then show "length b = 48 \<Longrightarrow> the_bytes (put b (fresh PGS_BLS381)) = b" by (simp add: the_bytes_put)
qed

lemma ref_p: "l_p ref_libs \<le> 256 ^ MODBYTES_384_58"
  using power_increasing [of 1 MODBYTES_384_58 "256 :: int"] by (simp add: ref_libs_sel amcl_const)

lemma ref_oct:
  "in_order C3 2 v \<Longrightarrow> g1_oct v a \<Longrightarrow> small (Some a) \<and> length a = 97 \<and> dec1 a = v" "in_order C9 2 w \<Longrightarrow> g2_oct w b \<Longrightarrow> small (Some b) \<and> dec2 b = w"
  using oct_small [OF ref_libs_ok ref_p] oct_lengths [OF ref_libs_ok ref_p] dec_enc(1) [of v] dec_enc(3) [of w] in_order_on g_oct_enc
  by (fastforce simp: ref_libs_val G1SBLS381_def amcl_const)+

lemma ref_multiples: "in_order C3 2 (ec_mul C3 n base1)" "in_order C9 2 (ec_mul C9 n (l_Q ref_libs))"
  by (rule in_order_closed(4) [OF C3_group base1_order base1_order], rule in_order_closed(4) [OF C9_group ref_Q(2,2)])

lemma minus1_even: "red12 3 (r_pow Z12 minus1 k) = red12 3 (r_one Z12) \<longleftrightarrow> even k"
proof -
  have t: "red12 3 (r_pow Z12 minus1 1) \<noteq> red12 3 (r_one Z12)" by code_simp
  have "red12 3 (r_pow Z12 minus1 k) = red12 3 (r_pow Z12 minus1 (k mod 2))" by (rule minus1_pow) simp
  then show ?thesis using t by (cases "even k") (simp_all add: odd_iff_mod_2_eq_one even_iff_mod_2_eq_zero del: r_pow.simps, simp)
qed

lemma if_bool_int: "(if bool_int b = 1 then x else y) = (if b then x else y)"
  by (simp add: bool_int_def)

lemma ref_check_code:
  assumes v: "in_order C3 2 v" "in_order C3 2 w" and s: "in_order C9 2 s"
  shows "check_code ref_libs ref_pair good bad s v w (if even (deg2 (l_Q ref_libs) * deg1 v + deg2 s * deg1 w) then good else bad)"
  unfolding check_code_def
proof (intro allI impI)
  fix P S Q T assume r: "rep2 ref_libs (l_Q ref_libs) P" "rep2 ref_libs s S" "rep1 ref_libs v Q" "rep1 ref_libs w T"
  then have i: "in_G2 ref_libs P" "in_G1 ref_libs Q" "in_G2 ref_libs S" "in_G1 ref_libs T" by (simp_all add: rep1_def rep2_def)
  have val: "evp2 P = l_Q ref_libs" "evp2 S = s" "evp Q = v" "evp T = w"
    using r i ref_v by (simp_all add: rep1_def rep2_def)
  have "FP12_isunity ref_fp12 (PAIR_fexp ref_pair (PAIR_double_ate ref_pair P Q S T)) =
      bool_int (even (deg2 (l_Q ref_libs) * deg1 v + deg2 s * deg1 w))"
    using fp12_build(8) [OF ref_fp12_ok double_is [OF ref_libs_ok ref_pair_ok i, unfolded ref_libs_sel]]
    by (simp add: ref_pairing minus1_mul minus1_even val)
  then show "(if even (deg2 (l_Q ref_libs) * deg1 v + deg2 s * deg1 w) then good else bad) =
      (if FP12_isunity (l_fp12 ref_libs) (PAIR_fexp ref_pair (PAIR_double_ate ref_pair P Q S T)) = 1 then good else bad)"
    by (simp only: ref_libs_sel if_bool_int)
qed

end
