(* ===== verification/Mpin.thy ===== *)
theory Mpin
  imports Schemes
begin

text \<open>
  The M-Pin protocol end to end: the wrappers of \<open>crypto/zkpmfa.go\<close> over a library whose functions compute what
  \<open>mpin_BLS381.h\<close> says of them, on the points of \<open>Pairing\<close>. The sessions below make the calls of
  \<open>crypto/zkpmfa_test.go\<close>: the shares of the secrets come from one or more authorities, each with a master
  secret of its own; the client gets a token for its PIN and authenticates with a PIN to the server.
\<close>

section \<open>What the functions compute\<close>

text \<open>
  The hash functions of the library as parameters: \<open>HASH_ID\<close>, the mapping of an octet to a point, the challenge
  made of time, \<open>U\<close> and message, and the numbers drawn from a generator.
\<close>

record mpin_hashes =
  mh_id :: "bytes \<Rightarrow> bytes"
  mh_map :: "bytes \<Rightarrow> int point"
  mh_y :: "int \<Rightarrow> bytes \<Rightarrow> slice \<Rightarrow> nat"
  mh_draw :: "csprng \<Rightarrow> nat \<times> csprng"

definition mh_point :: "mpin_hashes \<Rightarrow> bytes \<Rightarrow> int point" where
  "mh_point M ident = mh_map M (mh_id M ident)"

definition secrets_mean :: "pair_libs \<Rightarrow> mpin_hashes \<Rightarrow> mpin_api \<Rightarrow> bool" where
  "secrets_mean L M api \<longleftrightarrow> (let C1 = l_C1 L; C2 = l_C2 L; r = l_r L in
     (\<forall>I. in_order C1 r (mh_map M I) \<and> length (mh_id M I) \<le> nat PFS_BLS381) \<and>
     (\<forall>ident. small (Some ident) \<longrightarrow> the_bytes (snd (HASH_ID api zkpHashFunc [oct (Some ident), fresh PFS_BLS381]) ! 1) = mh_id M ident) \<and>
     (\<forall>S b. length S = nat PGS_BLS381 \<longrightarrow> g2_oct (ec_mul C2 (be_nat S) (l_Q L)) b \<longrightarrow>
        (case MPIN_GET_SERVER_SECRET api [oct (Some S), fresh G2SBLS381] of (code, os) \<Rightarrow> code = MPIN_OK \<and> the_bytes (os ! 1) = b)) \<and>
     (\<forall>S I b. length S = nat PGS_BLS381 \<longrightarrow> small (Some I) \<longrightarrow> g1_oct (ec_mul C1 (be_nat S) (mh_map M I)) b \<longrightarrow>
        (case MPIN_GET_CLIENT_SECRET api [oct (Some S), oct (Some I), fresh G1SBLS381] of (code, os) \<Rightarrow> code = MPIN_OK \<and> the_bytes (os ! 2) = b)) \<and>
     adds_points C1 r g1_oct (recombine_val (MPIN_RECOMBINE_G1 api) G1SBLS381) \<and>
     adds_points C2 r g2_oct (recombine_val (MPIN_RECOMBINE_G2 api) G2SBLS381) \<and>
     (\<forall>ident pin v a b. small (Some ident) \<longrightarrow> 0 \<le> pin \<longrightarrow> pin < MAXPIN \<longrightarrow> in_order C1 r v \<longrightarrow> g1_oct v a \<longrightarrow>
        g1_oct (ec_add C1 v (ec_neg C1 (ec_mul C1 (nat pin) (mh_point M ident)))) b \<longrightarrow>
        (case MPIN_EXTRACT_PIN api zkpHashFunc pin [oct (Some ident), oct (Some a)] of (code, os) \<Rightarrow> code = MPIN_OK \<and> the_bytes (os ! 1) = b)))"

definition one_pass_means :: "pair_libs \<Rightarrow> pair_api \<Rightarrow> mpin_hashes \<Rightarrow> mpin_api \<Rightarrow> bool" where
  "one_pass_means L papi M api \<longleftrightarrow> (let C1 = l_C1 L; C2 = l_C2 L; r = l_r L in
     (\<forall>ident R pin t v T msg. small (Some ident) \<longrightarrow> small msg \<longrightarrow> 0 \<le> pin \<longrightarrow> pin < MAXPIN \<longrightarrow> in_order C1 r v \<longrightarrow> g1_oct v T \<longrightarrow>
        (case mh_draw M R of (x, R') \<Rightarrow> \<forall>u V. g1_oct (ec_mul C1 x (mh_point M ident)) u \<longrightarrow>
           g1_oct (ec_neg C1 (ec_mul C1 (x + mh_y M t u msg) (ec_add C1 v (ec_mul C1 (nat pin) (mh_point M ident))))) V \<longrightarrow>
           (case MPIN_CLIENT api zkpHashFunc 0 (Some R) pin t [oct (Some ident), fresh PGS_BLS381, oct (Some T), fresh G1SBLS381,
                fresh G1SBLS381, fresh G1SBLS381, None, oct msg, fresh PGS_BLS381] of
              ((code, R''), os) \<Rightarrow> code = MPIN_OK \<and> R'' = Some R' \<and> the_bytes (os ! 3) = V \<and> the_bytes (os ! 4) = u))) \<and>
     (\<forall>client t ss SS u v ident msg. c1_ID client = Some ident \<longrightarrow> small (Some ident) \<longrightarrow> small msg \<longrightarrow> in_order C1 r u \<longrightarrow> in_order C1 r v \<longrightarrow>
        in_order C2 r ss \<longrightarrow> g2_oct ss SS \<longrightarrow> g1_oct u (the (c1_U client)) \<longrightarrow> g1_oct v (the (c1_V client)) \<longrightarrow>
        c1_U client \<noteq> None \<longrightarrow> c1_V client \<noteq> None \<longrightarrow>
        check_code L papi MPIN_OK MPIN_BAD_PIN ss v (ec_add C1 u (ec_mul C1 (mh_y M t (the (c1_U client)) msg) (mh_point M ident)))
          (fst (MPIN_SERVER api zkpHashFunc 0 t (server_args client (Some SS) msg)))))"

definition two_pass_means :: "pair_libs \<Rightarrow> pair_api \<Rightarrow> mpin_hashes \<Rightarrow> mpin_api \<Rightarrow> bool" where
  "two_pass_means L papi M api \<longleftrightarrow> (let C1 = l_C1 L; C2 = l_C2 L; r = l_r L in
     (\<forall>ident R pin v T. small (Some ident) \<longrightarrow> 0 \<le> pin \<longrightarrow> pin < MAXPIN \<longrightarrow> in_order C1 r v \<longrightarrow> g1_oct v T \<longrightarrow>
        (case mh_draw M R of (x, R') \<Rightarrow> \<forall>u S. g1_oct (ec_mul C1 x (mh_point M ident)) u \<longrightarrow>
           g1_oct (ec_add C1 v (ec_mul C1 (nat pin) (mh_point M ident))) S \<longrightarrow>
           (case MPIN_CLIENT_1 api zkpHashFunc 0 (Some R) pin [oct (Some ident), fresh PGS_BLS381, oct (Some T), fresh G1SBLS381,
                fresh G1SBLS381, fresh G1SBLS381, None] of
              ((code, R''), os) \<Rightarrow> code = MPIN_OK \<and> R'' = Some R' \<and> be_nat (the_bytes (os ! 1)) = x \<and>
                length (the_bytes (os ! 1)) = nat PGS_BLS381 \<and> the_bytes (os ! 3) = S \<and> the_bytes (os ! 4) = u))) \<and>
     (\<forall>ident b. small (Some ident) \<longrightarrow> g1_oct (mh_point M ident) b \<longrightarrow>
        the_bytes (snd (MPIN_SERVER_1 api zkpHashFunc 0 [oct (Some ident), fresh G1SBLS381, fresh G1SBLS381]) ! 1) = b) \<and>
     (\<forall>R. case MPIN_RANDOM_GENERATE api (Some R) [fresh PGS_BLS381] of ((code, R'), os) \<Rightarrow>
        code = MPIN_OK \<and> R' \<noteq> None \<and> length (the_bytes (os ! 0)) = nat PGS_BLS381 \<and> be_nat (the_bytes (os ! 0)) < r) \<and>
     (\<forall>X Y v S V. length X = nat PGS_BLS381 \<longrightarrow> length Y = nat PGS_BLS381 \<longrightarrow> in_order C1 r v \<longrightarrow> g1_oct v S \<longrightarrow>
        g1_oct (ec_neg C1 (ec_mul C1 (be_nat X + be_nat Y) v)) V \<longrightarrow>
        (case MPIN_CLIENT_2 api [oct (Some X), oct (Some Y), oct (Some S)] of (code, os) \<Rightarrow> code = MPIN_OK \<and> the_bytes (os ! 2) = V)) \<and>
     (\<forall>h HID HTID Y ss SS u U UT v V. length Y = nat PGS_BLS381 \<longrightarrow> in_order C1 r h \<longrightarrow> in_order C1 r u \<longrightarrow> in_order C1 r v \<longrightarrow>
        in_order C2 r ss \<longrightarrow> g1_oct h HID \<longrightarrow> small HTID \<longrightarrow> g2_oct ss SS \<longrightarrow> g1_oct u U \<longrightarrow> small UT \<longrightarrow> g1_oct v V \<longrightarrow>
        check_code L papi MPIN_OK MPIN_BAD_PIN ss v (ec_add C1 u (ec_mul C1 (be_nat Y) h))
          (fst (MPIN_SERVER_2 api 0 [oct (Some HID), oct HTID, oct (Some Y), oct (Some SS), oct (Some U), oct UT, oct (Some V), None, None, None]))))"

section \<open>A session\<close>

text \<open>Setup: the server secret, the token of the client for a PIN, and the errors on the way.\<close>

definition mpin_setup :: "core_api \<Rightarrow> mpin_api \<Rightarrow> bytes list \<Rightarrow> bytes \<Rightarrow> int \<Rightarrow> cmem \<Rightarrow> ((slice \<times> slice \<times> gerr option list) \<times> cmem) option" where
  "mpin_setup core api masters ident pin mem = do {
     (sss, mem) \<leftarrow> each (\<lambda>ms. GetServerSecret core api (Some ms)) masters mem;
     ((ss, e1), mem) \<leftarrow> RecombineServerSecret core api (map (\<lambda>(s, e). Some s) sss) mem;
     (hid, mem) \<leftarrow> hashID api (Some ident) mem;
     (css, mem) \<leftarrow> each (\<lambda>ms. GetClientSecret core api (Some ms) (Some hid)) masters mem;
     ((cs, e2), mem) \<leftarrow> RecombineClientSecret core api (map (\<lambda>(s, e). Some s) css) mem;
     ((token, e3), mem) \<leftarrow> ExtractPIN core api (Some ident) pin cs mem;
     Some ((ss, Some token, map snd sss @ map snd css @ [e1, e2, e3]), mem)
   }"

text \<open>The one-pass protocol: what the client sends, and the answer of the server.\<close>

definition one_pass_session :: "core_api \<Rightarrow> mpin_api \<Rightarrow> bytes list \<Rightarrow> bytes \<Rightarrow> int \<Rightarrow> int \<Rightarrow> Rand \<Rightarrow> slice \<Rightarrow> int \<Rightarrow> int \<Rightarrow> int \<Rightarrow> cmem
    \<Rightarrow> ((gerr option list \<times> gerr option res) \<times> Rand \<times> cmem) option" where
  "one_pass_session core api masters ident pin pin' rng msg now now' bounds mem = do {
     ((ss, token, errs), mem) \<leftarrow> mpin_setup core api masters ident pin mem;
     (client, rng, mem) \<leftarrow> ClientOnePass now core api (Some ident) pin' rng token msg mem;
     (case client of
        Inl e \<Rightarrow> Some ((errs, Inl e), rng, mem)
      | Inr client \<Rightarrow> do {
          (answer, mem) \<leftarrow> ServerOnePass now' core api client ss msg bounds mem;
          Some ((errs, Inr answer), rng, mem)
        })
   }"

text \<open>
  The two-pass protocol: the client commits to \<open>U\<close>, the server sends its challenge, the client answers. The two
  generators are those of client and server; the answer comes with the challenge.
\<close>

definition two_pass_session :: "core_api \<Rightarrow> mpin_api \<Rightarrow> bytes list \<Rightarrow> bytes \<Rightarrow> int \<Rightarrow> int \<Rightarrow> Rand \<Rightarrow> Rand \<Rightarrow> cmem
    \<Rightarrow> ((gerr option list \<times> (slice \<times> gerr option) res) \<times> cmem) option" where
  "two_pass_session core api masters ident pin pin' rng srng mem = do {
     ((ss, token, errs), mem) \<leftarrow> mpin_setup core api masters ident pin mem;
     (p1, rng, mem) \<leftarrow> ClientPass1 core api (Some ident) pin' rng token [] mem;
     (q1, srng, mem) \<leftarrow> ServerPass1 core api (Some ident) srng mem;
     (case (p1, q1) of
        (Inr p1, Inr q1) \<Rightarrow> do {
          ((v, e), mem) \<leftarrow> ClientPass2 core api p1 (sp_Y q1) mem;
          (answer, mem) \<leftarrow> ServerPass2 core api (sp_HID q1) (sp_HTID q1) (sp_Y q1) ss (cp_U p1) (cp_UT p1) (Some v) None mem;
          Some ((errs @ [e], Inr (sp_Y q1, answer)), mem)
        }
      | (Inl e, _) \<Rightarrow> Some ((errs, Inl e), mem)
      | (_, Inl e) \<Rightarrow> Some ((errs, Inl e), mem))
   }"

text \<open>With every point a multiple of \<open>H(ID)\<close>, what is left is the difference of the PINs.\<close>

lemma mpin_equation:
  assumes g: "ec_group C" and h: "in_order C r h" "h \<noteq> None" and r: "prime_order r" and nz: "\<not> int r dvd x + y"
  shows "ec_add C (zmul C r (- ((x + y) * (int s - pin + pin'))) h) (ec_mul C s (zmul C r (x + y) h)) = None \<longleftrightarrow> int r dvd pin - pin'"
proof -
  have r0: "0 < r" using r by (simp add: prime_order_def)
  have "ec_add C (zmul C r (- ((x + y) * (int s - pin + pin'))) h) (ec_mul C s (zmul C r (x + y) h)) = zmul C r ((x + y) * (pin - pin')) h"
    by (simp add: zmul_multiple [OF g h(1) r0] zmul_add [OF g h(1) r0] algebra_simps)
  then show ?thesis using zmul_None [OF g h(1) r h(2)] prime_order_product [OF r] nz by simp
qed

lemma code_OK [simp]: "codeToError MPIN_OK = None" "codeToError MPIN_BAD_PIN = Some ErrInvalidPin"
  by (simp_all add: BLS_OK_def codeToError_def amclOk_def mpinInvalidPoint_def mpinInvalidPin_def MPIN_OK_def MPIN_BAD_PIN_def)

lemma master_small: "length ms = nat PGS_BLS381 \<Longrightarrow> small (Some ms)"
  by (simp add: small_def amcl_const)

lemma recombine_ok:
  assumes core: "core_ok core" and api: "mpin_ok api" and small: "small a" "list_all small bs"
  shows "\<exists>mem'. RecombineServerSecret core api (a # bs) mem = Some (combine_shares (recombine_val (MPIN_RECOMBINE_G2 api) G2SBLS381) a bs, mem')"
    "\<exists>mem'. RecombineClientSecret core api (a # bs) mem = Some (combine_shares (recombine_val (MPIN_RECOMBINE_G1 api) G1SBLS381) a bs, mem')"
proof -
  note loop = recombine_loop_eq [OF _ small, where mem = mem]
  show "\<exists>mem'. RecombineServerSecret core api (a # bs) mem = Some (combine_shares (recombine_val (MPIN_RECOMBINE_G2 api) G2SBLS381) a bs, mem')"
    using loop [of "recombineG2 core api" "recombine_val (MPIN_RECOMBINE_G2 api) G2SBLS381"] recombine_step(2) [OF core api]
    by (auto simp: RecombineServerSecret_def)
  show "\<exists>mem'. RecombineClientSecret core api (a # bs) mem = Some (combine_shares (recombine_val (MPIN_RECOMBINE_G1 api) G1SBLS381) a bs, mem')"
    using loop [of "recombineG1 core api" "recombine_val (MPIN_RECOMBINE_G1 api) G1SBLS381"] recombine_step(1) [OF core api]
    by (auto simp: RecombineClientSecret_def)
qed

section \<open>The setup\<close>

lemma server_secret_ok:
  assumes core: "core_ok core" and api: "mpin_ok api" and ok: "libs_ok L" "l_p L \<le> 256 ^ MODBYTES_384_58" and r: "prime_order (l_r L)"
    and m: "secrets_mean L M api" and Q: "l_Q L \<noteq> None"
    and masters: "list_all (\<lambda>ms. length ms = nat PGS_BLS381) masters" "good_shares (l_r L) (map be_nat masters)"
  shows "\<exists>share mem' ss mem''. each (\<lambda>ms. GetServerSecret core api (Some ms)) masters mem = Some (map (\<lambda>ms. (share ms, None)) masters, mem') \<and>
    RecombineServerSecret core api (map (\<lambda>ms. Some (share ms)) masters) mem' = Some ((Some ss, None), mem'') \<and>
    g2_oct (ec_mul (l_C2 L) (sum_list (map be_nat masters)) (l_Q L)) ss"
proof -
  let ?f = "\<lambda>ms. MPIN_GET_SERVER_SECRET api [oct (Some ms), fresh G2SBLS381]"
  let ?share = "\<lambda>ms. the_bytes (snd (?f ms) ! 1)"
  note g = libsD(8) [OF ok(1)] and m = m [unfolded secrets_mean_def Let_def]
  have q: "in_order (l_C2 L) (l_r L) (l_Q L)" using rep_generator(2) [OF ok(1)] by (simp add: rep2_is l_Q_def)
  have get: "g2_oct (ec_mul (l_C2 L) (be_nat ms) (l_Q L)) (?share ms) \<and> small (Some (?share ms)) \<and>
      (\<exists>mem'. GetServerSecret core api (Some ms) mem = Some ((?share ms, None), mem'))"
    if ms: "ms \<in> set masters" and nz: "ec_mul (l_C2 L) (be_nat ms) (l_Q L) \<noteq> None" for ms mem
  proof -
    have len: "length ms = nat PGS_BLS381" using masters(1) ms by (simp add: list_all_iff)
    obtain b where b: "g2_oct (ec_mul (l_C2 L) (be_nat ms) (l_Q L)) b" using nz by (auto simp: g2_oct_def)
    then have "fst (?f ms) = MPIN_OK" "?share ms = b"
      using m [THEN conjunct2, THEN conjunct2, THEN conjunct1, rule_format, OF len b] by (auto split: prod.splits)
    then show ?thesis using b oct_small(2) [OF ok ec_mul_closed [OF g in_order_on [OF q]] b]
      by (simp add: GetServerSecret_eq [OF api master_small [OF len]] case_prod_beta)
  qed
  have ex: "\<forall>k. k \<noteq> None \<longrightarrow> (\<exists>b. g2_oct k b)" by (auto simp: g2_oct_def)
  show ?thesis
    by (rule exI [of _ ?share], rule shares_ok [OF g q Q r ex
      m [THEN conjunct2, THEN conjunct2, THEN conjunct2, THEN conjunct2, THEN conjunct2, THEN conjunct1] masters(2) get
      recombine_ok(1) [OF core api]])
qed

lemma client_secret_ok:
  assumes core: "core_ok core" and api: "mpin_ok api" and ok: "libs_ok L" "l_p L \<le> 256 ^ MODBYTES_384_58" and r: "prime_order (l_r L)"
    and m: "secrets_mean L M api" and H: "mh_map M hid \<noteq> None" and small: "small (Some hid)"
    and masters: "list_all (\<lambda>ms. length ms = nat PGS_BLS381) masters" "good_shares (l_r L) (map be_nat masters)"
  shows "\<exists>share mem' cs mem''. each (\<lambda>ms. GetClientSecret core api (Some ms) (Some hid)) masters mem = Some (map (\<lambda>ms. (share ms, None)) masters, mem') \<and>
    RecombineClientSecret core api (map (\<lambda>ms. Some (share ms)) masters) mem' = Some ((Some cs, None), mem'') \<and>
    g1_oct (ec_mul (l_C1 L) (sum_list (map be_nat masters)) (mh_map M hid)) cs"
proof -
  let ?f = "\<lambda>ms. MPIN_GET_CLIENT_SECRET api [oct (Some ms), oct (Some hid), fresh G1SBLS381]" and ?h = "mh_map M hid"
  let ?share = "\<lambda>ms. the_bytes (snd (?f ms) ! 2)"
  note g = libsD(7) [OF ok(1)] and m = m [unfolded secrets_mean_def Let_def]
  have q: "in_order (l_C1 L) (l_r L) ?h" using m by blast
  have get: "g1_oct (ec_mul (l_C1 L) (be_nat ms) ?h) (?share ms) \<and> small (Some (?share ms)) \<and>
      (\<exists>mem'. GetClientSecret core api (Some ms) (Some hid) mem = Some ((?share ms, None), mem'))"
    if ms: "ms \<in> set masters" and nz: "ec_mul (l_C1 L) (be_nat ms) ?h \<noteq> None" for ms mem
  proof -
    have len: "length ms = nat PGS_BLS381" using masters(1) ms by (simp add: list_all_iff)
    obtain b where b: "g1_oct (ec_mul (l_C1 L) (be_nat ms) ?h) b" using nz by (auto simp: g1_oct_def)
    then have "fst (?f ms) = MPIN_OK" "?share ms = b"
      using m [THEN conjunct2, THEN conjunct2, THEN conjunct2, THEN conjunct1, rule_format, OF len small b] by (auto split: prod.splits)
    then show ?thesis using b oct_small(1) [OF ok ec_mul_closed [OF g in_order_on [OF q]] b]
      by (simp add: GetClientSecret_eq [OF api master_small [OF len] small] case_prod_beta)
  qed
  have ex: "\<forall>k. k \<noteq> None \<longrightarrow> (\<exists>b. g1_oct k b)" by (auto simp: g1_oct_def)
  show ?thesis
    by (rule exI [of _ ?share], rule shares_ok [OF g q H r ex
      m [THEN conjunct2, THEN conjunct2, THEN conjunct2, THEN conjunct2, THEN conjunct1] masters(2) get
      recombine_ok(2) [OF core api]])
qed

lemma mpin_setup_ok:
  assumes core: "core_ok core" and api: "mpin_ok api" and ok: "libs_ok L" "l_p L \<le> 256 ^ MODBYTES_384_58" and r: "prime_order (l_r L)"
    and m: "secrets_mean L M api" and Q: "l_Q L \<noteq> None" and H: "mh_point M ident \<noteq> None" and small: "small (Some ident)"
    and masters: "list_all (\<lambda>ms. length ms = nat PGS_BLS381) masters" "good_shares (l_r L) (map be_nat masters)"
    and pin: "0 \<le> pin" "pin < MAXPIN"
    and s: "s = sum_list (map be_nat masters)" and nz: "\<not> int (l_r L) dvd int s - pin"
  shows "\<exists>ss token errs mem'. mpin_setup core api masters ident pin mem = Some ((Some ss, Some token, errs), mem') \<and> list_all (\<lambda>e. e = None) errs \<and>
    g2_oct (ec_mul (l_C2 L) s (l_Q L)) ss \<and> g1_oct (zmul (l_C1 L) (l_r L) (int s - pin) (mh_point M ident)) token"
proof -
  let ?C = "l_C1 L" and ?r = "l_r L" and ?h = "mh_point M ident"
  note g = libsD(7) [OF ok(1)] and m' = m [unfolded secrets_mean_def Let_def]
  have r0: "0 < ?r" using r by (simp add: prime_order_def)
  have h: "in_order ?C ?r ?h" using m' by (simp add: mh_point_def)
  have hid: "small (Some (mh_id M ident))" using m' [THEN conjunct1, rule_format, THEN conjunct2, of ident] by (simp add: small_def amcl_const)
  obtain share m1 ss m2 where S: "each (\<lambda>ms. GetServerSecret core api (Some ms)) masters mem = Some (map (\<lambda>ms. (share ms, None)) masters, m1)"
    "RecombineServerSecret core api (map (\<lambda>ms. Some (share ms)) masters) m1 = Some ((Some ss, None), m2)" "g2_oct (ec_mul (l_C2 L) s (l_Q L)) ss"
    using server_secret_ok [OF core api ok r m Q masters, of mem] s by auto
  obtain m3 where hash: "hashID api (Some ident) m2 = Some (mh_id M ident, m3)"
    using m' [THEN conjunct2, THEN conjunct1, rule_format, OF small] by (auto simp: hashID_eq [OF api small] case_prod_beta)
  obtain cshare m4 cs m5 where T: "each (\<lambda>ms. GetClientSecret core api (Some ms) (Some (mh_id M ident))) masters m3 = Some (map (\<lambda>ms. (cshare ms, None)) masters, m4)"
    "RecombineClientSecret core api (map (\<lambda>ms. Some (cshare ms)) masters) m4 = Some ((Some cs, None), m5)" "g1_oct (ec_mul ?C s ?h) cs"
    using client_secret_ok [OF core api ok r m H [unfolded mh_point_def] hid masters, of m3] s by (auto simp: mh_point_def)
  have tok: "ec_add ?C (ec_mul ?C s ?h) (ec_neg ?C (ec_mul ?C (nat pin) ?h)) = zmul ?C ?r (int s - pin) ?h"
    using pin(1) by (simp add: zmul_of_nat [OF g h, symmetric] zmul_neg [OF g h r0] zmul_add [OF g h r0])
  moreover have "zmul ?C ?r (int s - pin) ?h \<noteq> None" using zmul_None [OF g h r H] nz by simp
  ultimately obtain t where t: "g1_oct (ec_add ?C (ec_mul ?C s ?h) (ec_neg ?C (ec_mul ?C (nat pin) ?h))) t" by (auto simp: g1_oct_def)
  have sh: "in_order ?C ?r (ec_mul ?C s ?h)" using zmul_in_order [OF g h, of "int s"] by (simp add: zmul_of_nat [OF g h])
  have cp: "cint pin = pin" using pin by (intro cint_id) (simp_all add: amcl_const)
  obtain m6 where "ExtractPIN core api (Some ident) pin (Some cs) m5 = Some ((t, None), m6)"
    using m' [THEN conjunct2, THEN conjunct2, THEN conjunct2, THEN conjunct2, THEN conjunct2, THEN conjunct2, rule_format, OF small pin sh T(3) t]
    by (auto simp: ExtractPIN_eq [OF api small oct_small(1) [OF ok in_order_on [OF sh] T(3)]] cp case_prod_beta MPIN_OK_def BLS_OK_def)
  then show ?thesis using S T hash t tok by (auto simp: mpin_setup_def comp_def list_all_iff)
qed

section \<open>Authentication\<close>

text \<open>The library, the hashes and the inputs of a session: what a session starts from.\<close>

definition session_ok :: "pair_libs \<Rightarrow> pair_api \<Rightarrow> mpin_hashes \<Rightarrow> core_api \<Rightarrow> mpin_api \<Rightarrow> bytes list \<Rightarrow> bytes \<Rightarrow> int \<Rightarrow> int \<Rightarrow> bool" where
  "session_ok L papi M core api masters ident pin pin' \<longleftrightarrow>
     core_ok core \<and> mpin_ok api \<and> libs_ok L \<and> pair_ok L papi \<and> nondegenerate L papi \<and> l_p L \<le> 256 ^ MODBYTES_384_58 \<and> prime_order (l_r L) \<and>
     secrets_mean L M api \<and> l_Q L \<noteq> None \<and> mh_point M ident \<noteq> None \<and> small (Some ident) \<and>
     list_all (\<lambda>ms. length ms = nat PGS_BLS381) masters \<and> good_shares (l_r L) (map be_nat masters) \<and>
     0 \<le> pin \<and> pin < MAXPIN \<and> 0 \<le> pin' \<and> pin' < MAXPIN \<and>
     \<not> int (l_r L) dvd int (sum_list (map be_nat masters)) - pin \<and> \<not> int (l_r L) dvd int (sum_list (map be_nat masters)) - pin + pin'"

lemma session_okD:
  assumes "session_ok L papi M core api masters ident pin pin'"
  defines "h \<equiv> mh_point M ident" and "s \<equiv> sum_list (map be_nat masters)"
  shows "core_ok core" "mpin_ok api" "libs_ok L" "l_p L \<le> 256 ^ MODBYTES_384_58" "pair_ok L papi" "nondegenerate L papi"
    "prime_order (l_r L)" "h \<noteq> None" "small (Some ident)" "0 \<le> pin'" "pin' < MAXPIN" "cint pin' = pin'"
    "\<not> int (l_r L) dvd int s - pin + pin'" "ec_group (l_C1 L)" "in_order (l_C1 L) (l_r L) h"
    "in_order (l_C1 L) (l_r L) (ec_mul (l_C1 L) n h)" "in_order (l_C2 L) (l_r L) (ec_mul (l_C2 L) n (l_Q L))"
    "\<exists>ss tok errs mem'. mpin_setup core api masters ident pin mem = Some ((Some ss, Some tok, errs), mem') \<and> list_all (\<lambda>e. e = None) errs \<and>
      g2_oct (ec_mul (l_C2 L) s (l_Q L)) ss \<and> g1_oct (zmul (l_C1 L) (l_r L) (int s - pin) h) tok"
proof -
  note S = assms(1) [unfolded session_ok_def, folded h_def s_def]
  show core: "core_ok core" and api: "mpin_ok api" and ok: "libs_ok L" "l_p L \<le> 256 ^ MODBYTES_384_58" and "pair_ok L papi" "nondegenerate L papi"
    and r: "prime_order (l_r L)" and H: "h \<noteq> None" and i: "small (Some ident)" and p: "0 \<le> pin'" "pin' < MAXPIN"
    and "\<not> int (l_r L) dvd int s - pin + pin'" using S by blast+
  show "cint pin' = pin'" using p by (intro cint_id) (simp_all add: amcl_const)
  show g: "ec_group (l_C1 L)" by (rule libsD(7) [OF ok(1)])
  have m: "secrets_mean L M api" using S by blast
  then show h: "in_order (l_C1 L) (l_r L) h" unfolding secrets_mean_def Let_def h_def mh_point_def by blast
  show "in_order (l_C1 L) (l_r L) (ec_mul (l_C1 L) n h)" by (rule in_order_closed(4) [OF g h h])
  have q: "in_order (l_C2 L) (l_r L) (l_Q L)" using rep_generator(2) [OF ok(1)] by (simp add: rep2_is l_Q_def)
  show "in_order (l_C2 L) (l_r L) (ec_mul (l_C2 L) n (l_Q L))" by (rule in_order_closed(4) [OF libsD(8) [OF ok(1)] q q])
  show "\<exists>ss tok errs mem'. mpin_setup core api masters ident pin mem = Some ((Some ss, Some tok, errs), mem') \<and> list_all (\<lambda>e. e = None) errs \<and>
      g2_oct (ec_mul (l_C2 L) s (l_Q L)) ss \<and> g1_oct (zmul (l_C1 L) (l_r L) (int s - pin) h) tok"
    using S mpin_setup_ok [OF core api ok r m _ H [unfolded h_def] i _ _ _ _ s_def [THEN meta_eq_to_obj_eq], of pin mem] unfolding h_def by blast
qed

text \<open>
  The client's secret made of token and PIN, what the client sends, and that it is a point: all multiples of
  \<open>H(ID)\<close>.
\<close>

lemma client_points:
  assumes g: "ec_group C" and h: "in_order C r h" "h \<noteq> None" and r: "prime_order r" and pin: "0 \<le> pin'"
    and nz: "\<not> int r dvd int s - pin + pin'" "\<not> int r dvd int (x + y)"
  defines "v \<equiv> ec_neg C (ec_mul C (x + y) (ec_add C (zmul C r (int s - pin) h) (ec_mul C (nat pin') h)))"
  shows "ec_add C (zmul C r (int s - pin) h) (ec_mul C (nat pin') h) = zmul C r (int s - pin + pin') h"
    "v = zmul C r (- (int (x + y) * (int s - pin + pin'))) h" "in_order C r v" "\<exists>b. g1_oct v b"
proof -
  have r0: "0 < r" using r by (simp add: prime_order_def)
  show cs: "ec_add C (zmul C r (int s - pin) h) (ec_mul C (nat pin') h) = zmul C r (int s - pin + pin') h"
    using pin by (simp add: zmul_of_nat [OF g h(1), symmetric] zmul_add [OF g h(1) r0])
  show v: "v = zmul C r (- (int (x + y) * (int s - pin + pin'))) h"
    unfolding v_def cs zmul_multiple [OF g h(1) r0] zmul_neg [OF g h(1) r0] by simp
  show "in_order C r v" unfolding v by (rule zmul_in_order [OF g h(1)])
  have "v \<noteq> None" unfolding v zmul_None [OF g h(1) r h(2)] dvd_minus_iff prime_order_product [OF r] using nz by blast
  then show "\<exists>b. g1_oct v b" by (auto simp: g1_oct_def)
qed

lemma server_accepts:
  assumes ok: "libs_ok L" "pair_ok L papi" and nd: "nondegenerate L papi" and r: "prime_order (l_r L)"
    and h: "in_order (l_C1 L) (l_r L) h" "h \<noteq> None" and nz: "\<not> int (l_r L) dvd int (x + y)"
    and v: "v = zmul (l_C1 L) (l_r L) (- (int (x + y) * (int s - pin + pin'))) h"
    and code: "check_code L papi MPIN_OK MPIN_BAD_PIN (ec_mul (l_C2 L) s (l_Q L)) v (ec_add (l_C1 L) (ec_mul (l_C1 L) x h) (ec_mul (l_C1 L) y h)) code"
  shows "codeToError code = (if int (l_r L) dvd pin - pin' then None else Some ErrInvalidPin)"
proof -
  note g = libsD(7) [OF ok(1)]
  have r0: "0 < l_r L" using r by (simp add: prime_order_def)
  have w: "ec_add (l_C1 L) (ec_mul (l_C1 L) x h) (ec_mul (l_C1 L) y h) = zmul (l_C1 L) (l_r L) (int x + int y) h"
    by (simp add: zmul_of_nat [OF g h(1), symmetric] zmul_add [OF g h(1) r0])
  have "\<not> int (l_r L) dvd int x + int y" using nz by simp
  from mpin_equation [OF g h r this, of s pin pin'] check_code_value [OF ok nd _ _ code] zmul_in_order [OF g h(1)]
  show ?thesis by (simp add: v w del: codeToError_OK)
qed

text \<open>
  C28. The one-pass protocol from the master secrets to the answer of the server, through the Go wrappers, over any
  library whose functions compute what their header says: with any number of authorities, for a client that got its
  token for one PIN and authenticates with another, in time and with the message it signed, every call succeeds
  and the server answers with success exactly if the PINs agree modulo the order of the group, and with an
  invalid PIN otherwise. The points that are sent must not be infinity, which has no octet string.
\<close>

theorem mpin_one_pass:
  assumes s: "session_ok L papi M core api masters ident pin pin'" and m: "one_pass_means L papi M api" and msg: "small msg"
    and draw: "mh_draw M R = (x, R')" and u: "g1_oct (ec_mul (l_C1 L) x (mh_point M ident)) u"
    and nz: "\<not> int (l_r L) dvd int (x + mh_y M (cint now) u msg)" and time: "\<not> time_out_of_bounds now' now bounds"
  shows "\<exists>errs mem'. one_pass_session core api masters ident pin pin' (Some R) msg now now' bounds mem =
      Some ((errs, Inr (if int (l_r L) dvd pin - pin' then None else Some ErrInvalidPin)), Some R', mem') \<and> list_all (\<lambda>e. e = None) errs"
proof -
  let ?C = "l_C1 L" and ?r = "l_r L" and ?h = "mh_point M ident" and ?s = "sum_list (map be_nat masters)" and ?y = "mh_y M (cint now) u msg"
  note D = session_okD [OF s]
  note api = D(2) and r = D(7) and ident = D(9) and g = D(14) and h = D(15,8) and small = oct_small [OF D(3,4) in_order_on]
  obtain ss tok errs m1 where su: "mpin_setup core api masters ident pin mem = Some ((Some ss, Some tok, errs), m1)" "list_all (\<lambda>e. e = None) errs"
    "g2_oct (ec_mul (l_C2 L) ?s (l_Q L)) ss" "g1_oct (zmul ?C ?r (int ?s - pin) ?h) tok" using D(18) [of mem] by blast
  note tok = zmul_in_order [OF g h(1)] su(4) and cp = client_points [OF g h r D(10,13) nz]
  obtain v where v: "g1_oct (ec_neg ?C (ec_mul ?C (x + ?y) (ec_add ?C (zmul ?C ?r (int ?s - pin) ?h) (ec_mul ?C (nat pin') ?h)))) v"
    using cp(4) by blast
  let ?c = "\<lparr>c1_ID = Some ident, c1_ET = now, c1_U = Some u, c1_V = Some v\<rparr>"
  have "case MPIN_CLIENT api zkpHashFunc 0 (Some R) pin' (cint now) [oct (Some ident), fresh PGS_BLS381, oct (Some tok), fresh G1SBLS381,
        fresh G1SBLS381, fresh G1SBLS381, None, oct msg, fresh PGS_BLS381] of
      ((code, R''), os) \<Rightarrow> code = MPIN_OK \<and> R'' = Some R' \<and> the_bytes (os ! 3) = v \<and> the_bytes (os ! 4) = u"
    using m [unfolded one_pass_means_def Let_def, THEN conjunct1, rule_format, where R = R and t = "cint now", OF ident msg D(10,11) tok] draw u v by simp
  then obtain m2 where client: "ClientOnePass now core api (Some ident) pin' (Some R) (Some tok) msg m1 = Some (Inr ?c, Some R', m2)"
    using small(1) [OF tok] ident msg D(12) by (auto simp: ClientOnePass_eq [OF api] case_prod_beta)
  have sml: "list_all small [Some ss, msg, c1_ID ?c, c1_U ?c, c1_V ?c]"
    using small(2) [OF D(17) su(3)] small(1) [OF D(16) u] small(1) [OF cp(3) v] ident msg by simp
  have "check_code L papi MPIN_OK MPIN_BAD_PIN (ec_mul (l_C2 L) ?s (l_Q L))
      (ec_neg ?C (ec_mul ?C (x + ?y) (ec_add ?C (zmul ?C ?r (int ?s - pin) ?h) (ec_mul ?C (nat pin') ?h))))
      (ec_add ?C (ec_mul ?C x ?h) (ec_mul ?C ?y ?h)) (fst (MPIN_SERVER api zkpHashFunc 0 (cint now) (server_args ?c (Some ss) msg)))"
    using m [unfolded one_pass_means_def Let_def, THEN conjunct2, rule_format, where client = ?c and t = "cint now", OF _ ident msg D(16) cp(3) D(17) su(3)]
      u v by simp
  note code = server_accepts [OF D(3,5,6) r h nz cp(2) this]
  obtain m3 where "ServerOnePass now' core api ?c (Some ss) msg bounds m2 = Some (if int ?r dvd pin - pin' then None else Some ErrInvalidPin, m3)"
    using code by (simp add: ServerOnePass_eq [OF api sml, of now' bounds core m2] time case_prod_beta)
  then show ?thesis using su(1,2) client by (simp add: one_pass_session_def)
qed

definition challenge :: "mpin_api \<Rightarrow> csprng \<Rightarrow> bytes" where
  "challenge api S = the_bytes (snd (MPIN_RANDOM_GENERATE api (Some S) [fresh PGS_BLS381]) ! 0)"

text \<open>
  C35. The two-pass protocol, in the same way: the client commits to a random multiple of \<open>H(ID)\<close>, the server answers with a
  challenge of its own, and when that is not the negative of the client's number the server accepts
  exactly if the PINs agree modulo the order.
\<close>

theorem mpin_two_pass:
  assumes s: "session_ok L papi M core api masters ident pin pin'" and m: "two_pass_means L papi M api"
    and draw: "mh_draw M R = (x, R')" and nx: "\<not> int (l_r L) dvd int x" and nz: "\<not> int (l_r L) dvd int (x + be_nat (challenge api S))"
  shows "\<exists>errs mem'. two_pass_session core api masters ident pin pin' (Some R) (Some S) mem =
      Some ((errs, Inr (Some (challenge api S), if int (l_r L) dvd pin - pin' then None else Some ErrInvalidPin)), mem') \<and> list_all (\<lambda>e. e = None) errs"
proof -
  let ?C = "l_C1 L" and ?r = "l_r L" and ?h = "mh_point M ident" and ?s = "sum_list (map be_nat masters)" and ?Y = "challenge api S"
  note D = session_okD [OF s] and W = m [unfolded two_pass_means_def Let_def]
  note api = D(2) and r = D(7) and ident = D(9) and g = D(14) and h = D(15,8) and small = oct_small [OF D(3,4) in_order_on]
  obtain ss tok errs m1 where su: "mpin_setup core api masters ident pin mem = Some ((Some ss, Some tok, errs), m1)" "list_all (\<lambda>e. e = None) errs"
    "g2_oct (ec_mul (l_C2 L) ?s (l_Q L)) ss" "g1_oct (zmul ?C ?r (int ?s - pin) ?h) tok" using D(18) [of mem] by blast
  note tok = zmul_in_order [OF g h(1)] su(4) and cp = client_points [OF g h r D(10,13) nz]
  let ?cs = "ec_add ?C (zmul ?C ?r (int ?s - pin) ?h) (ec_mul ?C (nat pin') ?h)"
  have cs: "in_order ?C ?r ?cs" "?cs \<noteq> None" using D(13) zmul_None [OF g h(1) r h(2)] zmul_in_order [OF g h(1)] unfolding cp(1) by blast+
  have xh: "ec_mul ?C x ?h \<noteq> None" using zmul_None [OF g h(1) r h(2), of "int x"] nx by (simp add: zmul_of_nat [OF g h(1)])
  obtain u b v hid where o: "g1_oct (ec_mul ?C x ?h) u" "g1_oct ?cs b" "g1_oct (ec_neg ?C (ec_mul ?C (x + be_nat ?Y) ?cs)) v" "g1_oct ?h hid"
    using cp(4) cs(2) xh h(2) by (auto simp: g1_oct_def)
  have sY: "length ?Y = nat PGS_BLS381" using W by (auto simp: challenge_def case_prod_beta)
  let ?os = "[oct (Some ident), fresh PGS_BLS381, oct (Some tok), fresh G1SBLS381, fresh G1SBLS381, fresh G1SBLS381, None]"
  have wf: "list_all (pred_option oct_wf) ?os"
    using oct_wf_octet_of [OF ident] oct_wf_octet_of [OF small(1) [OF tok]] by simp
  have "case MPIN_CLIENT_1 api zkpHashFunc 0 (Some R) pin' ?os of
      ((code, R''), os) \<Rightarrow> code = MPIN_OK \<and> R'' = Some R' \<and> be_nat (the_bytes (os ! 1)) = x \<and>
        length (the_bytes (os ! 1)) = nat PGS_BLS381 \<and> the_bytes (os ! 3) = b \<and> the_bytes (os ! 4) = u"
    using W [THEN conjunct1, rule_format, where R = R, OF ident D(10,11) tok] draw o(1,2) by simp
  moreover have "small (Some (the_bytes (snd (MPIN_CLIENT_1 api zkpHashFunc 0 (Some R) pin' ?os) ! 5)))"
    by (rule out_small [OF mpin_okD(3) [OF api] wf, where n = G1SBLS381]) (simp_all add: G1SBLS381_def amcl_const)
  ultimately obtain X UT m2 where pass1: "ClientPass1 core api (Some ident) pin' (Some R) (Some tok) [] m1 =
      Some (Inr \<lparr>cp_X = Some X, cp_SEC = Some b, cp_U = Some u, cp_UT = Some UT\<rparr>, Some R', m2)" "length X = nat PGS_BLS381" "be_nat X = x" "small (Some UT)"
    using D(12) by (auto simp: ClientPass1_eq [OF api ident small(1) [OF tok] _ apply_options.simps(1)]
      pass1_x_def small_def [of None] case_prod_beta)
  let ?ho = "[oct (Some ident), fresh G1SBLS381, fresh G1SBLS381]"
  have "list_all (pred_option oct_wf) ?ho" using oct_wf_octet_of [OF ident] by simp
  then have "small (Some (the_bytes (snd (MPIN_SERVER_1 api zkpHashFunc 0 ?ho) ! 2)))"
    by (rule out_small [OF mpin_okD(7) [OF api], where n = G1SBLS381]) (simp_all add: G1SBLS381_def amcl_const)
  then obtain HTID S' m3 where sp1: "ServerPass1 core api (Some ident) (Some S) m2 =
      Some (Inr \<lparr>sp_Y = Some ?Y, sp_HID = Some hid, sp_HTID = Some HTID, sp_U = None, sp_UT = None\<rparr>, Some S', m3)" "small (Some HTID)"
    using W [THEN conjunct2, THEN conjunct1, rule_format, OF ident o(4)] W [THEN conjunct2, THEN conjunct2, THEN conjunct1, rule_format, of S]
    by (auto simp: ServerPass1_eq [OF api ident] challenge_def case_prod_beta)
  have smXY: "small (Some X)" "small (Some ?Y)" using pass1(2) sY by (simp_all add: small_def amcl_const)
  have "case MPIN_CLIENT_2 api [oct (Some X), oct (Some ?Y), oct (Some b)] of (code, os) \<Rightarrow> code = MPIN_OK \<and> the_bytes (os ! 2) = v"
    using W [THEN conjunct2, THEN conjunct2, THEN conjunct2, THEN conjunct1, rule_format, OF pass1(2) sY cs(1) o(2)] o(3) pass1(3) by simp
  then obtain m4 where pass2: "ClientPass2 core api \<lparr>cp_X = Some X, cp_SEC = Some b, cp_U = Some u, cp_UT = Some UT\<rparr> (Some ?Y) m3 = Some ((v, None), m4)"
    using smXY small(1) [OF cs(1) o(2)] by (auto simp: ClientPass2_eq [OF api] case_prod_beta MPIN_OK_def BLS_OK_def)
  have sm: "list_all small [Some hid, Some HTID, Some ?Y, Some ss, Some u, Some UT, Some v, None]"
    using small(1) [OF h(1) o(4)] sp1(2) smXY(2) small(2) [OF D(17) su(3)] small(1) [OF D(16) o(1)] pass1(4) small(1) [OF cp(3) o(3)]
    by (simp add: small_def [of None])
  note code = server_accepts [OF D(3,5,6) r h nz cp(2)
      W [THEN conjunct2, THEN conjunct2, THEN conjunct2, THEN conjunct2, rule_format, OF sY h(1) D(16) cp(3) D(17) o(4) sp1(2) su(3) o(1) pass1(4) o(3)]]
  obtain m5 where "ServerPass2 core api (Some hid) (Some HTID) (Some ?Y) (Some ss) (Some u) (Some UT) (Some v) None m4 =
      Some (if int ?r dvd pin - pin' then None else Some ErrInvalidPin, m5)"
    using code by (simp add: ServerPass2_eq [OF api sm] case_prod_beta)
  then show ?thesis using su(1,2) pass1(1) sp1(1) pass2 by (simp add: two_pass_session_def)
qed

section \<open>A library over the groups of order two\<close>

definition ref_hashes :: mpin_hashes where
  "ref_hashes = \<lparr>mh_id = (\<lambda>i. []), mh_map = (\<lambda>b. base1), mh_y = (\<lambda>t u m. 0), mh_draw = (\<lambda>R. (1, R))\<rparr>"

definition ref_mpin :: mpin_api where
  "ref_mpin = idle_mpin\<lparr>
     HASH_ID := \<lambda>h os. ((), os[1 := put [] (os ! 1)]),
     MPIN_GET_SERVER_SECRET := \<lambda>os. (0, os[1 := put (enc2 (ec_mul C9 (be_nat (oct_arg os 0)) (l_Q ref_libs))) (os ! 1)]),
     MPIN_GET_CLIENT_SECRET := \<lambda>os. (0, os[2 := put (enc1 (ec_mul C3 (be_nat (oct_arg os 0)) base1)) (os ! 2)]),
     MPIN_RECOMBINE_G1 := \<lambda>os. (0, os[2 := put (enc1 (ec_add C3 (dec1 (oct_arg os 0)) (dec1 (oct_arg os 1)))) (os ! 2)]),
     MPIN_RECOMBINE_G2 := \<lambda>os. (0, os[2 := put (enc2 (ec_add C9 (dec2 (oct_arg os 0)) (dec2 (oct_arg os 1)))) (os ! 2)]),
     MPIN_EXTRACT_PIN := \<lambda>h p os. (0, os[1 := put (enc1 (ec_add C3 (dec1 (oct_arg os 1)) (ec_neg C3 (ec_mul C3 (nat p) base1)))) (os ! 1)]),
     MPIN_CLIENT := \<lambda>h d R p t os. ((0, R), os[3 := put (enc1 (ec_neg C3 (ec_mul C3 1 (ec_add C3 (dec1 (oct_arg os 2)) (ec_mul C3 (nat p) base1))))) (os ! 3),
       4 := put (enc1 base1) (os ! 4)]),
     MPIN_SERVER := \<lambda>h d t os. (if even (deg2 (l_Q ref_libs) * deg1 (dec1 (oct_arg os 6)) + deg2 (dec2 (oct_arg os 3)) * deg1 (dec1 (oct_arg os 4)))
       then MPIN_OK else MPIN_BAD_PIN, os),
     MPIN_CLIENT_1 := \<lambda>h d R p os. ((0, R), os[1 := put ref_one (os ! 1), 3 := put (enc1 (ec_add C3 (dec1 (oct_arg os 2)) (ec_mul C3 (nat p) base1))) (os ! 3),
       4 := put (enc1 base1) (os ! 4)]),
     MPIN_SERVER_1 := \<lambda>h d os. ((), os[1 := put (enc1 base1) (os ! 1)]),
     MPIN_RANDOM_GENERATE := \<lambda>R os. ((0, R), os[0 := put ref_zero (os ! 0)]),
     MPIN_CLIENT_2 := \<lambda>os. (0, os[2 := put (enc1 (ec_neg C3 (ec_mul C3 (be_nat (oct_arg os 0) + be_nat (oct_arg os 1)) (dec1 (oct_arg os 2))))) (os ! 2)]),
     MPIN_SERVER_2 := \<lambda>d os. (if even (deg2 (l_Q ref_libs) * deg1 (dec1 (oct_arg os 6)) +
         deg2 (dec2 (oct_arg os 3)) * deg1 (ec_add C3 (dec1 (oct_arg os 4)) (ec_mul C3 (be_nat (oct_arg os 2)) (dec1 (oct_arg os 0)))))
       then MPIN_OK else MPIN_BAD_PIN, os)\<rparr>"

lemma ref_mpin_ok: "mpin_ok ref_mpin"
  by (simp add: mpin_ok_def ref_mpin_def idle_mpin_def cfun_ok_put cfun_ok_put2 cfun_ok_put3 cfun_ok_result)

lemma ref_mpin_sel:
  "HASH_ID ref_mpin = (\<lambda>h os. ((), os[1 := put [] (os ! 1)]))"
  "MPIN_GET_SERVER_SECRET ref_mpin = (\<lambda>os. (0, os[1 := put (enc2 (ec_mul C9 (be_nat (oct_arg os 0)) (l_Q ref_libs))) (os ! 1)]))"
  "MPIN_GET_CLIENT_SECRET ref_mpin = (\<lambda>os. (0, os[2 := put (enc1 (ec_mul C3 (be_nat (oct_arg os 0)) base1)) (os ! 2)]))"
  "MPIN_RECOMBINE_G1 ref_mpin = (\<lambda>os. (0, os[2 := put (enc1 (ec_add C3 (dec1 (oct_arg os 0)) (dec1 (oct_arg os 1)))) (os ! 2)]))"
  "MPIN_RECOMBINE_G2 ref_mpin = (\<lambda>os. (0, os[2 := put (enc2 (ec_add C9 (dec2 (oct_arg os 0)) (dec2 (oct_arg os 1)))) (os ! 2)]))"
  "MPIN_EXTRACT_PIN ref_mpin = (\<lambda>h p os. (0, os[1 := put (enc1 (ec_add C3 (dec1 (oct_arg os 1)) (ec_neg C3 (ec_mul C3 (nat p) base1)))) (os ! 1)]))"
  "MPIN_CLIENT ref_mpin = (\<lambda>h d R p t os. ((0, R), os[3 := put (enc1 (ec_neg C3 (ec_mul C3 1 (ec_add C3 (dec1 (oct_arg os 2)) (ec_mul C3 (nat p) base1))))) (os ! 3),
       4 := put (enc1 base1) (os ! 4)]))"
  "MPIN_SERVER ref_mpin = (\<lambda>h d t os. (if even (deg2 (l_Q ref_libs) * deg1 (dec1 (oct_arg os 6)) + deg2 (dec2 (oct_arg os 3)) * deg1 (dec1 (oct_arg os 4)))
       then MPIN_OK else MPIN_BAD_PIN, os))"
  "MPIN_CLIENT_1 ref_mpin = (\<lambda>h d R p os. ((0, R), os[1 := put ref_one (os ! 1),
       3 := put (enc1 (ec_add C3 (dec1 (oct_arg os 2)) (ec_mul C3 (nat p) base1))) (os ! 3), 4 := put (enc1 base1) (os ! 4)]))"
  "MPIN_SERVER_1 ref_mpin = (\<lambda>h d os. ((), os[1 := put (enc1 base1) (os ! 1)]))"
  "MPIN_RANDOM_GENERATE ref_mpin = (\<lambda>R os. ((0, R), os[0 := put ref_zero (os ! 0)]))"
  "MPIN_CLIENT_2 ref_mpin = (\<lambda>os. (0, os[2 := put (enc1 (ec_neg C3 (ec_mul C3 (be_nat (oct_arg os 0) + be_nat (oct_arg os 1)) (dec1 (oct_arg os 2))))) (os ! 2)]))"
  "MPIN_SERVER_2 ref_mpin = (\<lambda>d os. (if even (deg2 (l_Q ref_libs) * deg1 (dec1 (oct_arg os 6)) +
         deg2 (dec2 (oct_arg os 3)) * deg1 (ec_add C3 (dec1 (oct_arg os 4)) (ec_mul C3 (be_nat (oct_arg os 2)) (dec1 (oct_arg os 0)))))
       then MPIN_OK else MPIN_BAD_PIN, os))"
  by (simp_all add: ref_mpin_def)

lemma ref_h: "mh_map ref_hashes = (\<lambda>b. base1)" "mh_id ref_hashes = (\<lambda>i. [])" "mh_point ref_hashes i = base1" "mh_y ref_hashes t u m = 0"
  "mh_draw ref_hashes R = (1, R)"
  by (simp_all add: ref_hashes_def mh_point_def)

lemma ref_secrets: "secrets_mean ref_libs ref_hashes ref_mpin"
  unfolding secrets_mean_def Let_def ref_libs_val ref_h adds_points_def
proof (intro conjI allI impI)
  fix S b assume S: "length S = nat PGS_BLS381" and b: "g2_oct (ec_mul C9 (be_nat S) (l_Q ref_libs)) b"
  show "case MPIN_GET_SERVER_SECRET ref_mpin [oct (Some S), fresh G2SBLS381] of (code, os) \<Rightarrow> code = MPIN_OK \<and> the_bytes (os ! 1) = b"
    using dec_enc(4) [OF ref_multiples(2)] g_oct_enc(2) [OF b] by (simp add: ref_mpin_sel arg_oct [OF master_small [OF S]] put_fresh MPIN_OK_def)
next
  fix S b and I :: bytes assume S: "length S = nat PGS_BLS381" and b: "g1_oct (ec_mul C3 (be_nat S) base1) b"
  show "case MPIN_GET_CLIENT_SECRET ref_mpin [oct (Some S), oct (Some I), fresh G1SBLS381] of (code, os) \<Rightarrow> code = MPIN_OK \<and> the_bytes (os ! 2) = b"
    using dec_enc(2) [OF ref_multiples(1)] g_oct_enc(1) [OF b] by (simp add: ref_mpin_sel arg_oct [OF master_small [OF S]] put_fresh MPIN_OK_def)
next
  fix v w a b c assume v: "in_order C3 2 v" "in_order C3 2 w" and o: "g1_oct v a" "g1_oct w b" "g1_oct (ec_add C3 v w) c"
  show "recombine_val (MPIN_RECOMBINE_G1 ref_mpin) G1SBLS381 (Some a) (Some b) = (c, None)"
    using ref_oct(1) [OF v(1) o(1)] ref_oct(1) [OF v(2) o(2)] g_oct_enc(1) [OF o(3)] dec_enc(2) [OF in_order_closed(2) [OF C3_group v]]
    by (simp add: recombine_val_def ref_mpin_sel arg_oct put_fresh codeToError_def amclOk_def)
next
  fix v w a b c assume v: "in_order C9 2 v" "in_order C9 2 w" and o: "g2_oct v a" "g2_oct w b" "g2_oct (ec_add C9 v w) c"
  show "recombine_val (MPIN_RECOMBINE_G2 ref_mpin) G2SBLS381 (Some a) (Some b) = (c, None)"
    using ref_oct(2) [OF v(1) o(1)] ref_oct(2) [OF v(2) o(2)] g_oct_enc(2) [OF o(3)] dec_enc(4) [OF in_order_closed(2) [OF C9_group v]]
    by (simp add: recombine_val_def ref_mpin_sel arg_oct put_fresh codeToError_def amclOk_def)
next
  fix i pin v a b assume v: "in_order C3 2 v" "g1_oct v a" and b: "g1_oct (ec_add C3 v (ec_neg C3 (ec_mul C3 (nat pin) base1))) b"
  have "in_order C3 2 (ec_add C3 v (ec_neg C3 (ec_mul C3 (nat pin) base1)))"
    by (rule in_order_closed(2) [OF C3_group v(1) in_order_closed(3) [OF C3_group ref_multiples(1) ref_multiples(1)]])
  then show "case MPIN_EXTRACT_PIN ref_mpin zkpHashFunc pin [oct (Some i), oct (Some a)] of (code, os) \<Rightarrow> code = MPIN_OK \<and> the_bytes (os ! 1) = b"
    using ref_oct(1) [OF v] g_oct_enc(1) [OF b] dec_enc(2) by (simp add: ref_mpin_sel arg_oct put_oct MPIN_OK_def)
qed (use base1_order put_fresh(3) in \<open>simp_all add: ref_mpin_sel amcl_const\<close>)

lemma ref_one_pass: "one_pass_means ref_libs ref_pair ref_hashes ref_mpin"
  unfolding one_pass_means_def Let_def ref_libs_val ref_h prod.case
proof (intro conjI allI impI)
  fix i R pin t v T msg u V assume sm: "small (Some i)" and v: "in_order C3 2 v" "g1_oct v T" and u: "g1_oct (ec_mul C3 1 base1) u"
    and V: "g1_oct (ec_neg C3 (ec_mul C3 (1 + 0) (ec_add C3 v (ec_mul C3 (nat pin) base1)))) V"
  note T = ref_oct(1) [OF v]
  have c: "in_order C3 2 (ec_neg C3 (ec_mul C3 1 (ec_add C3 v (ec_mul C3 (nat pin) base1))))"
    using in_order_closed [OF C3_group] v(1) ref_multiples(1) by metis
  have b: "ec_mul C3 1 base1 = base1" "length (enc1 base1) \<le> 97" using dec_enc(2) [OF base1_order] by simp_all
  show "case MPIN_CLIENT ref_mpin zkpHashFunc 0 (Some R) pin t [oct (Some i), fresh PGS_BLS381, oct (Some T), fresh G1SBLS381,
      fresh G1SBLS381, fresh G1SBLS381, None, oct msg, fresh PGS_BLS381] of
    ((code, R''), os) \<Rightarrow> code = MPIN_OK \<and> R'' = Some R \<and> the_bytes (os ! 3) = V \<and> the_bytes (os ! 4) = u"
    using g_oct_enc(1) [OF u] g_oct_enc(1) [OF V] T b dec_enc(2) [OF c]
    by (simp add: ref_mpin_sel arg_oct put_fresh MPIN_OK_def eval_nat_numeral del: ec_mul.simps)
next
  fix client :: Client1PassResult and t ss SS u v ident and msg :: slice
  assume u: "in_order C3 2 u" "g1_oct u (the (c1_U client))" and v: "in_order C3 2 v" "g1_oct v (the (c1_V client))"
    and s: "in_order C9 2 ss" "g2_oct ss SS" and U: "c1_U client \<noteq> None" and V: "c1_V client \<noteq> None"
  obtain bu bv where e: "c1_U client = Some bu" "c1_V client = Some bv" using U V by auto
  have "fst (MPIN_SERVER ref_mpin zkpHashFunc 0 t (server_args client (Some SS) msg)) =
      (if even (deg2 (l_Q ref_libs) * deg1 v + deg2 ss * deg1 u) then MPIN_OK else MPIN_BAD_PIN)"
    using ref_oct(1) [OF u] ref_oct(1) [OF v] ref_oct(2) [OF s] by (simp add: ref_mpin_sel server_args_def e arg_oct)
  then show "check_code ref_libs ref_pair MPIN_OK MPIN_BAD_PIN ss v (ec_add C3 u (ec_mul C3 0 base1))
      (fst (MPIN_SERVER ref_mpin zkpHashFunc 0 t (server_args client (Some SS) msg)))"
    using ref_check_code [OF v(1) u(1) s(1)] by simp
qed

lemma ref_two_pass: "two_pass_means ref_libs ref_pair ref_hashes ref_mpin"
  unfolding two_pass_means_def Let_def ref_libs_val ref_h prod.case
proof (intro conjI allI impI)
  fix i R pin v T u S assume v: "in_order C3 2 v" "g1_oct v T" and u: "g1_oct (ec_mul C3 1 base1) u"
    and S: "g1_oct (ec_add C3 v (ec_mul C3 (nat pin) base1)) S"
  have b: "ec_mul C3 1 base1 = base1" "length (enc1 base1) \<le> 97" using dec_enc(2) [OF base1_order] by simp_all
  show "case MPIN_CLIENT_1 ref_mpin zkpHashFunc 0 (Some R) pin [oct (Some i), fresh PGS_BLS381, oct (Some T), fresh G1SBLS381,
      fresh G1SBLS381, fresh G1SBLS381, None] of
    ((code, R''), os) \<Rightarrow> code = MPIN_OK \<and> R'' = Some R \<and> be_nat (the_bytes (os ! 1)) = 1 \<and>
      length (the_bytes (os ! 1)) = nat PGS_BLS381 \<and> the_bytes (os ! 3) = S \<and> the_bytes (os ! 4) = u"
    using g_oct_enc(1) [OF u] g_oct_enc(1) [OF S] ref_oct(1) [OF v] b dec_enc(2) [OF in_order_closed(2) [OF C3_group v(1) ref_multiples(1)]]
    by (simp add: ref_mpin_sel arg_oct put_fresh put_scalar ref_scalars MPIN_OK_def nth_list_update del: ec_mul.simps)
next
  fix i b assume b: "g1_oct base1 b"
  show "the_bytes (snd (MPIN_SERVER_1 ref_mpin zkpHashFunc 0 [oct (Some i), fresh G1SBLS381, fresh G1SBLS381]) ! 1) = b"
    using g_oct_enc(1) [OF b] dec_enc(2) [OF base1_order] by (simp add: ref_mpin_sel put_fresh)
next
  fix R show "case MPIN_RANDOM_GENERATE ref_mpin (Some R) [fresh PGS_BLS381] of ((code, R'), os) \<Rightarrow>
      code = MPIN_OK \<and> R' \<noteq> None \<and> length (the_bytes (os ! 0)) = nat PGS_BLS381 \<and> be_nat (the_bytes (os ! 0)) < 2"
    by (simp add: ref_mpin_sel put_scalar ref_scalars MPIN_OK_def)
next
  fix X Y v S V assume X: "length X = nat PGS_BLS381" and Y: "length Y = nat PGS_BLS381" and v: "in_order C3 2 v" "g1_oct v S"
    and V: "g1_oct (ec_neg C3 (ec_mul C3 (be_nat X + be_nat Y) v)) V"
  have "in_order C3 2 (ec_neg C3 (ec_mul C3 (be_nat X + be_nat Y) v))"
    using in_order_closed [OF C3_group] v(1) by metis
  then show "case MPIN_CLIENT_2 ref_mpin [oct (Some X), oct (Some Y), oct (Some S)] of (code, os) \<Rightarrow> code = MPIN_OK \<and> the_bytes (os ! 2) = V"
    using ref_oct(1) [OF v] g_oct_enc(1) [OF V] dec_enc(2)
    by (simp add: ref_mpin_sel arg_oct master_small [OF X] master_small [OF Y] put_oct MPIN_OK_def ref_scalars X Y)
next
  fix h HID HTID ss SS u U UT v V and Y :: bytes
  assume Y: "length Y = nat PGS_BLS381" and h: "in_order C3 2 h" "g1_oct h HID" and u: "in_order C3 2 u" "g1_oct u U"
    and v: "in_order C3 2 v" "g1_oct v V" and s: "in_order C9 2 ss" "g2_oct ss SS"
  have w: "in_order C3 2 (ec_add C3 u (ec_mul C3 (be_nat Y) h))" using in_order_closed [OF C3_group] u(1) h(1) by metis
  show "check_code ref_libs ref_pair MPIN_OK MPIN_BAD_PIN ss v (ec_add C3 u (ec_mul C3 (be_nat Y) h))
     (fst (MPIN_SERVER_2 ref_mpin 0 [oct (Some HID), oct HTID, oct (Some Y), oct (Some SS), oct (Some U), oct UT, oct (Some V), None, None, None]))"
    using ref_check_code [OF v(1) w s(1)] ref_oct(1) [OF h] ref_oct(1) [OF u] ref_oct(1) [OF v] ref_oct(2) [OF s]
    by (simp add: ref_mpin_sel arg_oct master_small [OF Y])
qed

text \<open>One authority with the master secret 1; both PINs are even, so they agree modulo the order.\<close>

lemma ref_session: "session_ok ref_libs ref_pair ref_hashes idle_core ref_mpin [ref_one] [7] 1234 5678"
proof -
  have "be_nat ref_one = 1" "length ref_one = 48" by code_simp+
  moreover have "prime_order 2" by code_simp
  ultimately show ?thesis
    unfolding session_ok_def
    using idle_core_ok ref_mpin_ok ref_libs_ok ref_pair_ok ref_nondegenerate ref_p ref_secrets ref_Q(3)
    by (simp add: ref_libs_val ref_h base1_def small_def amcl_const good_shares_def)
qed

theorem mpin_one_pass_witness:
  "\<exists>errs mem'. one_pass_session idle_core ref_mpin [ref_one] [7] 1234 5678 (Some csprng_zero) (Some [1, 2, 3]) 100 130 60 [] =
    Some ((errs, Inr None), Some csprng_zero, mem') \<and> list_all (\<lambda>e. e = None) errs"
proof -
  have u: "g1_oct (ec_mul (l_C1 ref_libs) 1 (mh_point ref_hashes [7])) (enc1 base1)"
    by (simp add: ref_libs_val ref_h base1_def g1_oct_def)
  have t: "\<not> time_out_of_bounds 130 100 60" by code_simp
  show ?thesis
    using mpin_one_pass [OF ref_session ref_one_pass _ ref_h(5) u _ t, of "Some [1, 2, 3]" csprng_zero "[]"]
    by (simp add: small_def ref_libs_val ref_h)
qed

theorem mpin_two_pass_witness:
  "\<exists>errs mem'. two_pass_session idle_core ref_mpin [ref_one] [7] 1234 5678 (Some csprng_zero) (Some csprng_zero) [] =
    Some ((errs, Inr (Some ref_zero, None)), mem') \<and> list_all (\<lambda>e. e = None) errs"
proof -
  have c: "challenge ref_mpin csprng_zero = ref_zero"
    by (simp add: challenge_def ref_mpin_sel put_scalar ref_scalars)
  show ?thesis
    using mpin_two_pass [OF ref_session ref_two_pass ref_h(5), of csprng_zero csprng_zero "[]"]
    by (simp add: c ref_scalars(3) ref_libs_val)
qed

end
