(* ===== verification/Shamir.thy ===== *)
theory Shamir
  imports Scalars
begin

text \<open>
  Sharing a secret with a threshold, as \<^verbatim>\<open>crypto/include/bls_BLS381.h\<close> offers it for BLS keys and signatures.
\<close>

section \<open>Congruence\<close>

definition eqm :: "nat \<Rightarrow> int \<Rightarrow> int \<Rightarrow> bool" where
  "eqm r a b \<longleftrightarrow> int r dvd a - b"

lemma eqm_refl [simp]: "eqm r a a"
  by (simp add: eqm_def)

lemma eqm_sym: "eqm r a b \<Longrightarrow> eqm r b a"
  unfolding eqm_def by (metis dvd_minus_iff minus_diff_eq)

lemma eqm_trans [trans]: "eqm r a b \<Longrightarrow> eqm r b c \<Longrightarrow> eqm r a c"
  unfolding eqm_def using dvd_add [of "int r" "a - b" "b - c"] by simp

lemma eqm_mod: "eqm r a b \<longleftrightarrow> a mod int r = b mod int r"
  by (simp add: eqm_def mod_eq_dvd_iff)

lemma eqm_add: "eqm r a b \<Longrightarrow> eqm r c d \<Longrightarrow> eqm r (a + c) (b + d)"
  unfolding eqm_mod by (rule mod_add_cong)

lemma eqm_diff: "eqm r a b \<Longrightarrow> eqm r c d \<Longrightarrow> eqm r (a - c) (b - d)"
  unfolding eqm_mod by (rule mod_diff_cong)

lemma eqm_mult: "eqm r a b \<Longrightarrow> eqm r c d \<Longrightarrow> eqm r (a * c) (b * d)"
  unfolding eqm_mod by (rule mod_mult_cong)

lemma eqm_sum: "(\<And>x. x \<in> S \<Longrightarrow> eqm r (f x) (g x)) \<Longrightarrow> eqm r (sum f S) (sum g S)"
  unfolding eqm_def sum_subtractf [symmetric] by (rule dvd_sum)

lemma eqm_cancel:
  assumes r: "prime_order r" and c: "\<not> int r dvd c" and e: "eqm r (a * c) (b * c)"
  shows "eqm r a b"
  using e prime_order_product [OF r, of "a - b" c] c by (simp add: eqm_def left_diff_distrib)

section \<open>Interpolation at zero\<close>

text \<open>Polynomials as the lists of their coefficients, the constant one first, and division by \<open>x - a\<close>.\<close>

fun poly_at :: "int list \<Rightarrow> int \<Rightarrow> int" where
  "poly_at [] x = 0"
| "poly_at (c # cs) x = c + x * poly_at cs x"

fun divide_root :: "int \<Rightarrow> int list \<Rightarrow> int list" where
  "divide_root a (c # d # cs) = poly_at (d # cs) a # divide_root a (d # cs)"
| "divide_root a cs = []"

lemma poly_root: "poly_at cs x = poly_at cs a + (x - a) * poly_at (divide_root a cs) x"
proof (induction a cs rule: divide_root.induct)
  case (1 a c d cs)
  let ?A = "poly_at (d # cs) a" and ?Q = "poly_at (divide_root a (d # cs)) x"
  have "c + x * (?A + (x - a) * ?Q) = c + a * ?A + (x - a) * (?A + x * ?Q)" by (simp only: algebra_simps)
  then show ?case using 1 by (simp only: poly_at.simps(2) [of c] divide_root.simps poly_at.simps(2) [of ?A])
qed simp_all

lemma length_root: "length (divide_root a cs) = length cs - 1"
  by (induction a cs rule: divide_root.induct) auto

text \<open>The factor of the value at \<open>x\<close> when the values at the points of \<open>S\<close> are interpolated at zero.\<close>

definition factor :: "nat \<Rightarrow> int set \<Rightarrow> int \<Rightarrow> int" where
  "factor r S x = (\<Prod>y \<in> S - {x}. y * order_inv r (y - x))"

definition apart :: "nat \<Rightarrow> int set \<Rightarrow> bool" where
  "apart r S \<longleftrightarrow> finite S \<and> (\<forall>x \<in> S. \<forall>y \<in> S. x \<noteq> y \<longrightarrow> \<not> int r dvd y - x)"

lemma factor_remove:
  assumes "apart r S" "a \<in> S" "x \<in> S - {a}"
  shows "factor r S x = a * order_inv r (a - x) * factor r (S - {a}) x"
proof -
  have "S - {x} = insert a (S - {a} - {x})" "finite (S - {a} - {x})" using assms by (auto simp: apart_def)
  then show ?thesis by (simp add: factor_def)
qed

definition interpolates :: "nat \<Rightarrow> int set \<Rightarrow> bool" where
  "interpolates r S \<longleftrightarrow> (\<forall>cs. length cs \<le> card S \<longrightarrow> eqm r (\<Sum>x \<in> S. factor r S x * poly_at cs x) (poly_at cs 0))"

lemma interpolation_step:
  assumes r: "prime_order r" and S: "apart r S" "a \<in> S" and IH: "interpolates r (S - {a})" and cs: "length cs \<le> card S"
  shows "eqm r (\<Sum>x \<in> S. factor r S x * (poly_at cs x - poly_at cs a)) (poly_at cs 0 - poly_at cs a)"
proof -
  let ?T = "S - {a}" and ?g = "divide_root a cs"
  have fin: "finite S" using S by (simp add: apart_def)
  have e: "poly_at cs x - poly_at cs a = (x - a) * poly_at ?g x" for x using poly_root [of cs x a] by simp
  have "(\<Sum>x \<in> S. factor r S x * (poly_at cs x - poly_at cs a)) = (\<Sum>x \<in> ?T. factor r S x * ((x - a) * poly_at ?g x))"
    unfolding e sum.remove [OF fin S(2)] by simp
  also have "eqm r \<dots> (\<Sum>x \<in> ?T. - a * (factor r ?T x * poly_at ?g x))"
  proof (rule eqm_sum)
    fix x assume x: "x \<in> ?T"
    have "\<not> int r dvd a - x" using S x by (auto simp: apart_def)
    then have i: "eqm r ((a - x) * order_inv r (a - x)) 1" using order_inv [OF r] by (simp add: eqm_def)
    have "factor r S x * ((x - a) * poly_at ?g x) = (a - x) * order_inv r (a - x) * (- a * (factor r ?T x * poly_at ?g x))"
      unfolding factor_remove [OF S x] by (simp add: algebra_simps)
    also have "eqm r \<dots> (1 * (- a * (factor r ?T x * poly_at ?g x)))" by (rule eqm_mult [OF i eqm_refl])
    finally show "eqm r (factor r S x * ((x - a) * poly_at ?g x)) (- a * (factor r ?T x * poly_at ?g x))" by simp
  qed
  also have "(\<Sum>x \<in> ?T. - a * (factor r ?T x * poly_at ?g x)) = - a * (\<Sum>x \<in> ?T. factor r ?T x * poly_at ?g x)"
    by (rule sum_distrib_left [symmetric])
  also have "eqm r \<dots> (- a * poly_at ?g 0)"
  proof (rule eqm_mult [OF eqm_refl])
    have "length ?g \<le> card ?T" using cs fin S(2) by (simp add: length_root)
    then show "eqm r (\<Sum>x \<in> ?T. factor r ?T x * poly_at ?g x) (poly_at ?g 0)" using IH by (simp add: interpolates_def)
  qed
  finally show ?thesis unfolding e by simp
qed

lemma interpolation:
  assumes r: "prime_order r"
  shows "card S = Suc n \<Longrightarrow> apart r S \<Longrightarrow> interpolates r S"
proof (induction n arbitrary: S)
  case 0
  then obtain a where S: "S = {a}" by (auto simp: card_1_singleton_iff)
  have "poly_at cs a = poly_at cs 0" if "length cs \<le> 1" for cs using that by (cases cs) auto
  then show ?case by (simp add: S interpolates_def factor_def)
next
  case (Suc n)
  have sub: "interpolates r (S - {a})" if "a \<in> S" for a
    using Suc.prems that by (intro Suc.IH) (auto simp: apart_def)
  note step = interpolation_step [OF r Suc.prems(2) _ sub]
  obtain a where a: "a \<in> S" using Suc.prems(1) by (metis card.empty ex_in_conv nat.distinct(1))
  then have "card (S - {a}) = Suc n" using Suc.prems(1) by simp
  then obtain b where "b \<in> S - {a}" by (metis card.empty ex_in_conv nat.distinct(1))
  with a have ab: "a \<in> S" "b \<in> S" "a \<noteq> b" by auto
  have "eqm r ((\<Sum>x \<in> S. factor r S x * (poly_at [0, 1] x - poly_at [0, 1] a)) - (\<Sum>x \<in> S. factor r S x * (poly_at [0, 1] x - poly_at [0, 1] b)))
      ((0 - a) - (0 - b))"
    using step [OF ab(1,1), of "[0, 1]"] step [OF ab(2,2), of "[0, 1]"] Suc.prems(1) by (intro eqm_diff) simp_all
  moreover have "(\<Sum>x \<in> S. factor r S x * (poly_at [0, 1] x - poly_at [0, 1] a)) - (\<Sum>x \<in> S. factor r S x * (poly_at [0, 1] x - poly_at [0, 1] b)) =
      (\<Sum>x \<in> S. factor r S x) * (b - a)"
    unfolding sum_subtractf [symmetric] sum_distrib_right by (rule sum.cong) (simp_all add: algebra_simps)
  ultimately have "eqm r ((\<Sum>x \<in> S. factor r S x) * (b - a)) (1 * (b - a))" by simp
  then have one: "eqm r (\<Sum>x \<in> S. factor r S x) 1"
    by (rule eqm_cancel [OF r, rotated]) (use Suc.prems(2) ab in \<open>simp add: apart_def\<close>)
  show ?case
    unfolding interpolates_def
  proof (intro allI impI)
    fix cs :: "int list" assume "length cs \<le> card S"
    from step [OF ab(1,1) this]
    have "eqm r ((\<Sum>x \<in> S. factor r S x * (poly_at cs x - poly_at cs a)) + (\<Sum>x \<in> S. factor r S x) * poly_at cs a)
        (poly_at cs 0 - poly_at cs a + 1 * poly_at cs a)" by (rule eqm_add [OF _ eqm_mult [OF one eqm_refl]])
    moreover have "(\<Sum>x \<in> S. factor r S x * (poly_at cs x - poly_at cs a)) + (\<Sum>x \<in> S. factor r S x) * poly_at cs a =
        (\<Sum>x \<in> S. factor r S x * poly_at cs x)"
      unfolding sum_distrib_right sum.distrib [symmetric] by (rule sum.cong) (simp_all add: algebra_simps)
    ultimately show "eqm r (\<Sum>x \<in> S. factor r S x * poly_at cs x) (poly_at cs 0)" by simp
  qed
qed

end
