(* ===== verification/Seven.thy ===== *)
theory Seven
  imports Scalars
begin

text \<open>
  A curve of prime order for the witnesses of the protocols on one group: \<open>y^2 = x^3 + 2 x + 1\<close> over three elements
  has seven points, so that there are signatures to be made with it and polynomials to share keys with.
\<close>

definition C7 :: "int curve" where "C7 = g1_curve 3 2 1"

definition seven_points :: "int point list" where
  "seven_points = [None, Some (0, 1), Some (1, 1), Some (2, 2), Some (2, 1), Some (1, 2), Some (0, 2)]"

definition pt7 :: "nat \<Rightarrow> int point" where
  "pt7 n = seven_points ! (n mod 7)"

lemma on_C7: "on_curve C7 P \<longleftrightarrow> P \<in> set seven_points"
proof (cases P)
  case (Some v)
  obtain x y where v: "v = (x, y)" by (metis prod.exhaust)
  have "x mod 3 = x \<longleftrightarrow> x = 0 \<or> x = 1 \<or> x = 2" for x :: int by presburger
  then show ?thesis unfolding Some v by (auto simp: C7_def g1_curve_def red1_def Z1_def ec_rhs_def seven_points_def)
qed (simp add: seven_points_def)

lemma C7_table:
  "list_all (\<lambda>m. on_curve C7 (pt7 m) \<and> (\<exists>k \<in> set [0..<7]. ec_neg C7 (pt7 m) = pt7 k \<and> pt7 ((m + k) mod 7) = None) \<and>
     list_all (\<lambda>n. ec_add C7 (pt7 m) (pt7 n) = pt7 ((m + n) mod 7)) [0..<7]) [0..<7]"
  "seven_points = map pt7 [0..<7]"
  by code_simp+

lemmas pt7 = C7_table(1) [unfolded list_all_iff, rule_format, unfolded set_upt atLeast0LessThan]

lemma C7_points: "on_curve C7 P \<longleftrightarrow> (\<exists>m < 7. P = pt7 m)"
  unfolding on_C7 C7_table(2) by auto

lemma C7_group: "ec_group C7"
proof (rule ec_group_numbered [where G = "{..<7}" and pt = pt7 and f = "\<lambda>m n. (m + n) mod 7"])
  fix P assume "on_curve C7 P"
  then show "\<exists>a \<in> {..<7}. P = pt7 a" by (auto simp: C7_points)
qed (use pt7 in \<open>auto simp: ac_simps mod_simps\<close>)

lemma pt7_mod: "pt7 (k mod 7) = pt7 k"
  by (simp add: pt7_def)

lemma pt7_add: "ec_add C7 (pt7 m) (pt7 n) = pt7 (m + n)"
proof -
  have "ec_add C7 (pt7 (m mod 7)) (pt7 (n mod 7)) = pt7 ((m mod 7 + n mod 7) mod 7)" using pt7 [of "m mod 7"] by simp
  then show ?thesis by (simp add: pt7_mod mod_add_eq)
qed

lemma pt7_mul: "ec_mul C7 n (pt7 m) = pt7 (n * m)"
  by (induction n) (simp_all add: pt7_add, simp add: pt7_def seven_points_def)

lemma C7_order: "prime_order 7" "in_order C7 7 P \<longleftrightarrow> on_curve C7 P"
proof -
  show "prime_order 7" by code_simp
  show "in_order C7 7 P \<longleftrightarrow> on_curve C7 P"
    by (auto simp: in_order_def C7_points pt7_mul) (simp_all add: pt7_def seven_points_def)
qed

end
