(* ===== verification/BlsScheme.thy ===== *)
theory BlsScheme
  imports Schemes Shamir Seven
begin

text \<open>
  BLS signatures end to end: the wrappers of \<open>crypto/bls.go\<close> over a library whose functions compute what
  \<open>bls_BLS381.h\<close> says of them, on the points of \<open>Pairing\<close>. The session below makes the calls of
  \<open>crypto/bls_test.go\<close> for any number of signers: keys, signatures, their sums and the verification. The functions of
  the header that share keys and signatures with a threshold, which the Go code does not call, follow.
\<close>

section \<open>What the functions compute\<close>

text \<open>The octets of signatures: compressed points.\<close>

definition sig_oct :: "int point \<Rightarrow> bytes \<Rightarrow> bool" where
  "sig_oct v b \<longleftrightarrow> (\<exists>xy. v = Some xy \<and> b = point_octet MODBYTES_384_58 True xy)"

text \<open>A message is mapped to a point of the first group; its signature is the multiple by the key.\<close>

definition bls_signs :: "int curve \<Rightarrow> nat \<Rightarrow> (slice \<Rightarrow> int point) \<Rightarrow> bls_api \<Rightarrow> bool" where
  "bls_signs C r H api \<longleftrightarrow> (\<forall>m. in_order C r (H m)) \<and>
     (\<forall>m S b. small m \<longrightarrow> small (Some S) \<longrightarrow> sig_oct (ec_mul C (be_nat S) (H m)) b \<longrightarrow>
        (case BLS_SIGN api [fresh SIGLen, oct m, oct (Some S)] of (code, os) \<Rightarrow> code = BLS_OK \<and> the_bytes (os ! 0) = b))"

definition bls_means :: "pair_libs \<Rightarrow> pair_api \<Rightarrow> (slice \<Rightarrow> int point) \<Rightarrow> bls_api \<Rightarrow> bool" where
  "bls_means L papi H api \<longleftrightarrow> (let C1 = l_C1 L; C2 = l_C2 L; r = l_r L in
     bls_signs C1 r H api \<and>
     (\<forall>S. small (Some S) \<longrightarrow> (case BLS_KEY_PAIR_GENERATE api None (keys_args (Some S)) of ((code, R), os) \<Rightarrow>
        the_bytes (os ! 0) = S \<and> (\<forall>b. g2_oct (ec_mul C2 (be_nat S) (l_Q L)) b \<longrightarrow> code = BLS_OK \<and> the_bytes (os ! 1) = b))) \<and>
     (\<forall>R. case BLS_KEY_PAIR_GENERATE api (Some R) (keys_args None) of ((code, R'), os) \<Rightarrow> code = BLS_OK \<and>
        length (the_bytes (os ! 0)) = nat BGS_BLS381 \<and> g2_oct (ec_mul C2 (be_nat (the_bytes (os ! 0))) (l_Q L)) (the_bytes (os ! 1))) \<and>
     adds_points C1 r sig_oct (recombine_val (BLS_ADD_G1 api) SIGLen) \<and>
     adds_points C2 r g2_oct (recombine_val (BLS_ADD_G2 api) G2Len) \<and>
     (\<forall>v w m sig pk. in_order C1 r v \<longrightarrow> in_order C2 r w \<longrightarrow> small m \<longrightarrow> sig_oct v sig \<longrightarrow> g2_oct w pk \<longrightarrow>
        check_code L papi BLS_OK BLS_FAIL w (ec_neg C1 v) (H m) (fst (BLS_VERIFY api [oct (Some sig), oct m, oct (Some pk)]))))"

section \<open>Signers and a verifier\<close>

text \<open>Keys from a generator or from a secret, as \<open>BLSKeys\<close> takes them, and the sum of a list of points.\<close>

definition make_keys :: "core_api \<Rightarrow> bls_api \<Rightarrow> Rand \<times> slice \<Rightarrow> cmem \<Rightarrow> ((bytes \<times> bytes \<times> gerr option) \<times> cmem) option" where
  "make_keys core api = (\<lambda>(rand, ski) mem. do { (r, _, mem) \<leftarrow> BLSKeys core api rand ski mem; Some (r, mem) })"

fun add_all :: "(slice \<Rightarrow> slice \<Rightarrow> cmem \<Rightarrow> ((bytes \<times> gerr option) \<times> cmem) option) \<Rightarrow> slice list \<Rightarrow> cmem \<Rightarrow> ((slice \<times> gerr option) \<times> cmem) option" where
  "add_all add [] mem = Some ((None, None), mem)"
| "add_all add (x # xs) mem = recombine_loop add xs x mem"

text \<open>All sign \<open>m\<close>; the sum of the signatures is verified for \<open>m'\<close> under the sum of the public keys.\<close>

definition bls_session :: "core_api \<Rightarrow> bls_api \<Rightarrow> (Rand \<times> slice) list \<Rightarrow> slice \<Rightarrow> slice \<Rightarrow> cmem \<Rightarrow> ((gerr option list \<times> gerr option) \<times> cmem) option" where
  "bls_session core api ks m m' mem = do {
     (keys, mem) \<leftarrow> each (make_keys core api) ks mem;
     (sigs, mem) \<leftarrow> each (\<lambda>(pk, sk, e). BLSSign core api m (Some sk)) keys mem;
     ((pk, e1), mem) \<leftarrow> add_all (BLSAddG2 api) (map (\<lambda>(pk, sk, e). Some pk) keys) mem;
     ((sg, e2), mem) \<leftarrow> add_all (BLSAddG1 api) (map (\<lambda>(s, e). Some s) sigs) mem;
     (answer, mem) \<leftarrow> BLSVerify core api m' pk sg mem;
     Some ((map (\<lambda>(pk, sk, e). e) keys @ map snd sigs @ [e1, e2], answer), mem)
   }"

definition key_pair :: "bls_api \<Rightarrow> Rand \<times> slice \<Rightarrow> bytes \<times> bytes" where
  "key_pair api = (\<lambda>(rand, ski). case BLS_KEY_PAIR_GENERATE api rand (keys_args ski) of (_, os) \<Rightarrow> (the_bytes (os ! 1), the_bytes (os ! 0)))"

definition key_source :: "Rand \<times> slice \<Rightarrow> bool" where
  "key_source = (\<lambda>(rand, ski). (rand = None) \<noteq> (ski = None) \<and> small ski)"

lemma sig_oct_exists: "v \<noteq> None \<Longrightarrow> \<exists>b. sig_oct v b" "v \<noteq> None \<Longrightarrow> \<exists>b. g1_oct v b" "w \<noteq> None \<Longrightarrow> \<exists>b. g2_oct w b"
  by (auto simp: sig_oct_def g1_oct_def g2_oct_def)

lemma sig_small:
  assumes ok: "libs_ok L" and p: "l_p L \<le> 256 ^ MODBYTES_384_58" and v: "on_curve (l_C1 L) v" "sig_oct v b"
  shows "small (Some b)"
proof -
  note len = to_be_field [OF _ libsD(1) [OF ok] p]
  have "length b = Suc MODBYTES_384_58"
    using v by (auto simp: sig_oct_def l_C1_def rom_curve_def g1_curve_def red1_def point_octet_def len)
  then show ?thesis by (simp add: small_def amcl_const)
qed

lemma make_keys_ok:
  assumes core: "core_ok core" and api: "bls_ok api" and m: "bls_means L papi H api" and k: "key_source k"
    and nz: "ec_mul (l_C2 L) (be_nat (snd (key_pair api k))) (l_Q L) \<noteq> None"
  shows "\<exists>mem'. make_keys core api k mem = Some ((fst (key_pair api k), snd (key_pair api k), None), mem')"
    "g2_oct (ec_mul (l_C2 L) (be_nat (snd (key_pair api k))) (l_Q L)) (fst (key_pair api k))" "small (Some (snd (key_pair api k)))"
proof -
  obtain rand ski where e: "k = (rand, ski)" by (cases k)
  obtain rc R os where c: "BLS_KEY_PAIR_GENERATE api rand (keys_args ski) = ((rc, R), os)" by (metis prod.exhaust)
  have sm: "small ski" using k by (simp add: key_source_def e)
  have kp: "key_pair api k = (the_bytes (os ! 1), the_bytes (os ! 0))" by (simp add: key_pair_def e c)
  have "rc = BLS_OK \<and> g2_oct (ec_mul (l_C2 L) (be_nat (the_bytes (os ! 0))) (l_Q L)) (the_bytes (os ! 1)) \<and> small (Some (the_bytes (os ! 0)))"
  proof (cases rand)
    case None
    then obtain S where S: "ski = Some S" using k by (auto simp: key_source_def e)
    have c': "BLS_KEY_PAIR_GENERATE api None (keys_args (Some S)) = ((rc, R), os)" using c None S by simp
    have *: "the_bytes (os ! 0) = S" "\<And>b. g2_oct (ec_mul (l_C2 L) (be_nat S) (l_Q L)) b \<Longrightarrow> rc = BLS_OK \<and> the_bytes (os ! 1) = b"
      using m [unfolded bls_means_def Let_def, THEN conjunct2, THEN conjunct1, rule_format, of S] sm S by (simp_all add: c')
    then show ?thesis using nz sm S sig_oct_exists(3) [of "ec_mul (l_C2 L) (be_nat S) (l_Q L)"] by (auto simp: kp)
  next
    case (Some R0)
    then have "ski = None" using k by (auto simp: key_source_def e)
    then have c': "BLS_KEY_PAIR_GENERATE api (Some R0) (keys_args None) = ((rc, R), os)" using c Some by simp
    then show ?thesis
      using m [unfolded bls_means_def Let_def, THEN conjunct2, THEN conjunct2, THEN conjunct1, rule_format, of R0]
      by (simp add: small_def amcl_const)
  qed
  then show "\<exists>mem'. make_keys core api k mem = Some ((fst (key_pair api k), snd (key_pair api k), None), mem')"
    "g2_oct (ec_mul (l_C2 L) (be_nat (snd (key_pair api k))) (l_Q L)) (fst (key_pair api k))" "small (Some (snd (key_pair api k)))"
    by (simp_all add: kp) (simp add: make_keys_def e BLSKeys_eq [OF api sm] c)
qed

lemma sign_ok:
  assumes api: "bls_ok api" and s: "bls_signs C r H api" and sm: "small m" "small (Some S)" and b: "sig_oct (ec_mul C (be_nat S) (H m)) b"
  shows "\<exists>mem'. BLSSign core api m (Some S) mem = Some ((b, None), mem')"
  using s [unfolded bls_signs_def, THEN conjunct2, rule_format, OF sm b] by (auto simp: BLSSign_eq [OF api sm] case_prod_beta)

lemma add_all_ok:
  assumes api: "bls_ok api" and sm: "small a" "list_all small bs"
  shows "\<exists>mem'. add_all (BLSAddG1 api) (a # bs) mem = Some (combine_shares (recombine_val (BLS_ADD_G1 api) SIGLen) a bs, mem')"
    "\<exists>mem'. add_all (BLSAddG2 api) (a # bs) mem = Some (combine_shares (recombine_val (BLS_ADD_G2 api) G2Len) a bs, mem')"
proof -
  have n: "0 \<le> SIGLen" "SIGLen < 2 ^ 31" "0 \<le> G2Len" "G2Len < 2 ^ 31" by (simp_all add: SIGLen_def G2Len_def amcl_const)
  have wf: "list_all (pred_option oct_wf) [oct p, oct q, fresh n]" if "small p" "small q" "oct_wf (fresh_octet n)" for p q n
    using that by (simp add: oct_wf_octet_of)
  have s1: "small (Some (fst (recombine_val (BLS_ADD_G1 api) SIGLen p q)))"
    and s2: "small (Some (fst (recombine_val (BLS_ADD_G2 api) G2Len p q)))" if "small p" "small q" for p q
    using out_small [OF bls_okD(4) [OF api] wf [OF that bls_sizes(2)], of 2 SIGLen] out_small [OF bls_okD(5) [OF api] wf [OF that bls_sizes(1)], of 2 G2Len] n
    by (simp_all add: recombine_val_def case_prod_beta)
  have st1: "\<exists>mem'. BLSAddG1 api p q mem = Some (recombine_val (BLS_ADD_G1 api) SIGLen p q, mem') \<and> frees mem [] mem' \<and>
      small (Some (fst (recombine_val (BLS_ADD_G1 api) SIGLen p q)))" if "small p" "small q" for p q mem
    using s1 [OF that] by (auto simp: BLSAdd_eq [OF api that] recombine_val_def frees_append split: prod.splits)
  have st2: "\<exists>mem'. BLSAddG2 api p q mem = Some (recombine_val (BLS_ADD_G2 api) G2Len p q, mem') \<and> frees mem [] mem' \<and>
      small (Some (fst (recombine_val (BLS_ADD_G2 api) G2Len p q)))" if "small p" "small q" for p q mem
    using s2 [OF that] by (auto simp: BLSAdd_eq [OF api that] recombine_val_def frees_append split: prod.splits)
  show "\<exists>mem'. add_all (BLSAddG1 api) (a # bs) mem = Some (combine_shares (recombine_val (BLS_ADD_G1 api) SIGLen) a bs, mem')"
    using recombine_loop_eq [of "BLSAddG1 api" "recombine_val (BLS_ADD_G1 api) SIGLen", OF st1 sm, of mem] by auto
  show "\<exists>mem'. add_all (BLSAddG2 api) (a # bs) mem = Some (combine_shares (recombine_val (BLS_ADD_G2 api) G2Len) a bs, mem')"
    using recombine_loop_eq [of "BLSAddG2 api" "recombine_val (BLS_ADD_G2 api) G2Len", OF st2 sm, of mem] by auto
qed

text \<open>Multiplying points of the group by a number that the order does not divide is injective.\<close>

lemma mul_inj:
  assumes g: "ec_group C" and P: "in_order C r P" and Q: "in_order C r Q" and r: "prime_order r" and n: "\<not> r dvd n"
  shows "ec_mul C n P = ec_mul C n Q \<longleftrightarrow> P = Q"
proof
  assume e: "ec_mul C n P = ec_mul C n Q"
  note on = in_order_on [OF P] in_order_on [OF Q] and N = in_order_closed(3) [OF g Q Q]
  have "ec_mul C n (ec_add C P (ec_neg C Q)) = None"
    unfolding ec_mul_sum [OF g on(1) in_order_on [OF N]] ec_mul_neg [OF g on(2)] e by (rule ec_groupD(3) [OF g ec_mul_closed [OF g on(2)] on(2)])
  then have "zmul C r (int n) (ec_add C P (ec_neg C Q)) = None" by (simp add: zmul_of_nat [OF g in_order_closed(2) [OF g P N]])
  then have "ec_add C P (ec_neg C Q) = None"
    using zmul_None [OF g in_order_closed(2) [OF g P N] r] n by (metis int_dvd_int_iff)
  then have "ec_neg C Q = ec_neg C P" using ec_cancel(2) [OF g on(1) in_order_on [OF N]] by simp
  then show "P = Q" by (metis ec_neg_neg g on)
qed simp

text \<open>The check of the verifier.\<close>

lemma verify_value:
  assumes ok: "libs_ok L" "pair_ok L papi" and nd: "nondegenerate L papi" and r: "prime_order (l_r L)" and n: "\<not> l_r L dvd n"
    and h: "in_order (l_C1 L) (l_r L) h" "in_order (l_C1 L) (l_r L) h'"
    and code: "check_code L papi BLS_OK BLS_FAIL (ec_mul (l_C2 L) n (l_Q L)) (ec_neg (l_C1 L) (ec_mul (l_C1 L) n h)) h' code"
  shows "codeToError code = (if h' = h then None else Some ErrBlsFail)"
proof -
  note g = libsD(7) [OF ok(1)] and I = in_order_closed [OF libsD(7) [OF ok(1)]]
  let ?C = "l_C1 L" and ?nh = "ec_mul (l_C1 L) n h" and ?nh' = "ec_mul (l_C1 L) n h'"
  have nh: "in_order ?C (l_r L) ?nh" "in_order ?C (l_r L) ?nh'" using I(4) h by blast+
  note on = in_order_on [OF nh(1)] in_order_on [OF nh(2)] in_order_on [OF I(3) [OF nh(1) nh(1)]]
  have "ec_add ?C (ec_neg ?C ?nh) ?nh' = None \<longleftrightarrow> ?nh' = ?nh"
    using ec_cancel(2) [OF g on(3) on(2)] ec_groupD(3,4) [OF g on(1) on(3)] ec_neg_neg [OF g on(1)] by metis
  then show ?thesis
    using check_code_value [OF ok nd I(3) [OF nh(1) nh(1)] h(2) code] mul_inj [OF g h(2,1) r n]
    by (simp add: codeToError_def amcl_const amclOk_def mpinInvalidPoint_def mpinInvalidPin_def blsFail_def)
qed

lemma each_map: "each f (map g xs) mem = each (f \<circ> g) xs mem"
  by (induction xs arbitrary: mem) (auto split: option.split_asm simp: bind_eq_Some_conv intro!: Option.bind_cong)

lemma good_shares_sum: "good_shares r ns \<Longrightarrow> \<not> r dvd sum_list ns"
proof -
  assume g: "good_shares r ns"
  then have "length ns - 1 \<in> set [0..<length ns]" by (simp add: good_shares_def)
  with g have "\<not> r dvd sum_list (take (Suc (length ns - 1)) ns)" unfolding good_shares_def list_all_iff by blast
  then show ?thesis using g by (simp add: good_shares_def)
qed

text \<open>What a session starts from.\<close>

definition bls_session_ok :: "pair_libs \<Rightarrow> pair_api \<Rightarrow> (slice \<Rightarrow> int point) \<Rightarrow> core_api \<Rightarrow> bls_api \<Rightarrow> (Rand \<times> slice) list \<Rightarrow> bool" where
  "bls_session_ok L papi H core api ks \<longleftrightarrow> core_ok core \<and> bls_ok api \<and> libs_ok L \<and> pair_ok L papi \<and> nondegenerate L papi \<and>
     l_p L \<le> 256 ^ MODBYTES_384_58 \<and> prime_order (l_r L) \<and> bls_means L papi H api \<and> l_Q L \<noteq> None \<and>
     list_all key_source ks \<and> good_shares (l_r L) (map (\<lambda>k. be_nat (snd (key_pair api k))) ks)"

lemma bls_session_okD:
  assumes "bls_session_ok L papi H core api ks"
  shows "core_ok core" "bls_ok api" "libs_ok L" "pair_ok L papi" "nondegenerate L papi" "l_p L \<le> 256 ^ MODBYTES_384_58"
    "prime_order (l_r L)" "bls_means L papi H api" "l_Q L \<noteq> None" "k \<in> set ks \<Longrightarrow> key_source k"
    "good_shares (l_r L) (map (\<lambda>k. be_nat (snd (key_pair api k))) ks)" "bls_signs (l_C1 L) (l_r L) H api"
    "in_order (l_C1 L) (l_r L) (H m)" "in_order (l_C2 L) (l_r L) (l_Q L)" "ec_group (l_C1 L)" "ec_group (l_C2 L)"
proof -
  show "core_ok core" "bls_ok api" and ok: "libs_ok L" and "pair_ok L papi" "nondegenerate L papi" "l_p L \<le> 256 ^ MODBYTES_384_58"
    "prime_order (l_r L)" and M: "bls_means L papi H api" and "l_Q L \<noteq> None" "k \<in> set ks \<Longrightarrow> key_source k"
    "good_shares (l_r L) (map (\<lambda>k. be_nat (snd (key_pair api k))) ks)"
    using assms unfolding bls_session_ok_def list_all_iff by blast+
  show s: "bls_signs (l_C1 L) (l_r L) H api" using M by (simp add: bls_means_def Let_def)
  then show "in_order (l_C1 L) (l_r L) (H m)" by (simp add: bls_signs_def)
  show "in_order (l_C2 L) (l_r L) (l_Q L)" using rep_generator(2) [OF ok] by (simp add: rep2_is l_Q_def)
  show "ec_group (l_C1 L)" "ec_group (l_C2 L)" using libsD(7,8) [OF ok] .
qed

text \<open>The keys and the signatures of all signers: multiples of the generator and of the message's point.\<close>

lemma signers_ok:
  assumes s: "bls_session_ok L papi H core api ks" and h: "H m \<noteq> None" and sm: "small m"
  defines "n \<equiv> \<lambda>k. be_nat (snd (key_pair api k))" and "pk \<equiv> \<lambda>k. fst (key_pair api k)"
  shows "\<exists>sg m1 m2. each (make_keys core api) ks mem = Some (map (\<lambda>k. (pk k, snd (key_pair api k), None)) ks, m1) \<and>
    each (\<lambda>k. BLSSign core api m (Some (snd (key_pair api k)))) ks m1 = Some (map (\<lambda>k. (sg k, None)) ks, m2) \<and>
    (\<forall>k \<in> set ks. sig_oct (ec_mul (l_C1 L) (n k) (H m)) (sg k) \<and> small (Some (sg k)) \<and>
      g2_oct (ec_mul (l_C2 L) (n k) (l_Q L)) (pk k) \<and> small (Some (pk k)))"
proof -
  note D = bls_session_okD [OF s]
  note g = D(15,16) and q = D(14) and H = D(13)
  have nk: "\<not> l_r L dvd n k" if "k \<in> set ks" for k using D(11) that by (auto simp: good_shares_def list_all_iff n_def)
  have nz: "ec_mul (l_C2 L) (n k) (l_Q L) \<noteq> None" "ec_mul (l_C1 L) (n k) (H m) \<noteq> None" if "k \<in> set ks" for k
    using zmul_None [OF g(2) q D(7,9), of "int (n k)"] zmul_None [OF g(1) H D(7) h, of "int (n k)"] nk [OF that]
    by (simp_all add: zmul_of_nat [OF g(2) q] zmul_of_nat [OF g(1) H])
  obtain sg where sg: "\<And>k. k \<in> set ks \<Longrightarrow> sig_oct (ec_mul (l_C1 L) (n k) (H m)) (sg k)" using sig_oct_exists(1) [OF nz(2)] by metis
  note K = make_keys_ok [OF D(1,2,8,10) nz(1) [unfolded n_def]]
  obtain m1 where keys: "each (make_keys core api) ks mem = Some (map (\<lambda>k. (pk k, snd (key_pair api k), None)) ks, m1)"
    using each_ok [of ks "make_keys core api" "\<lambda>k. (pk k, snd (key_pair api k), None)" mem] K(1) unfolding pk_def by blast
  obtain m2 where sigs: "each (\<lambda>k. BLSSign core api m (Some (snd (key_pair api k)))) ks m1 = Some (map (\<lambda>k. (sg k, None)) ks, m2)"
    using each_ok [of ks "\<lambda>k. BLSSign core api m (Some (snd (key_pair api k)))" "\<lambda>k. (sg k, None)" m1]
      sign_ok [OF D(2,12) sm K(3) sg [unfolded n_def]] by blast
  have "small (Some (sg k))" "small (Some (pk k))" if "k \<in> set ks" for k
    using sig_small [OF D(3,6) ec_mul_closed [OF g(1) in_order_on [OF H]] sg [OF that]]
      oct_small(2) [OF D(3,6) ec_mul_closed [OF g(2) in_order_on [OF q]] K(2) [OF that that]] unfolding pk_def by blast+
  then show ?thesis using keys sigs sg K(2) unfolding n_def pk_def by blast
qed

text \<open>The sums of signatures and of public keys.\<close>

lemma sums_ok:
  assumes s: "bls_session_ok L papi H core api ks" and h: "H m \<noteq> None"
    and k: "\<And>k. k \<in> set ks \<Longrightarrow> sig_oct (ec_mul (l_C1 L) (n k) (H m)) (sg k) \<and> small (Some (sg k)) \<and>
      g2_oct (ec_mul (l_C2 L) (n k) (l_Q L)) (pk k) \<and> small (Some (pk k))"
    and n_def: "n = (\<lambda>k. be_nat (snd (key_pair api k)))" and N_def: "N = sum_list (map n ks)"
  shows "\<exists>c mem'. add_all (BLSAddG1 api) (map (\<lambda>k. Some (sg k)) ks) mem = Some ((Some c, None), mem') \<and> sig_oct (ec_mul (l_C1 L) N (H m)) c"
    "\<exists>c mem'. add_all (BLSAddG2 api) (map (\<lambda>k. Some (pk k)) ks) mem = Some ((Some c, None), mem') \<and> g2_oct (ec_mul (l_C2 L) N (l_Q L)) c"
proof -
  note D = bls_session_okD [OF s] and M = bls_session_okD(8) [OF s, unfolded bls_means_def Let_def]
  have ex: "\<forall>v. v \<noteq> None \<longrightarrow> (\<exists>b. sig_oct v b)" "\<forall>v. v \<noteq> None \<longrightarrow> (\<exists>b. g2_oct v b)" using sig_oct_exists by blast+
  have l2: "list_all2 (\<lambda>n b. sig_oct (ec_mul (l_C1 L) n (H m)) b) (map n ks) (map sg ks)" "list_all2 (\<lambda>n b. g2_oct (ec_mul (l_C2 L) n (l_Q L)) b) (map n ks) (map pk ks)"
    using k by (simp_all add: list_all2_map1 list_all2_map2 list.rel_refl_strong n_def)
  have mapS: "map (\<lambda>k. Some (f k)) ks = Some a # map Some bs" if "map f ks = a # bs" for f :: "Rand \<times> slice \<Rightarrow> bytes" and a bs
    using that by (auto simp: map_eq_Cons_conv comp_def)
  have sm: "small (Some a) \<and> list_all small (map Some bs)" if "map f ks = a # bs" "\<And>k. k \<in> set ks \<Longrightarrow> small (Some (f k))"
    for f :: "Rand \<times> slice \<Rightarrow> bytes" and a bs using that by (fastforce simp: list_all_iff map_eq_Cons_conv)
  obtain a bs c where A: "map sg ks = a # bs" "combine_shares (recombine_val (BLS_ADD_G1 api) SIGLen) (Some a) (map Some bs) = (Some c, None)"
    "sig_oct (ec_mul (l_C1 L) N (H m)) c" unfolding N_def n_def by (rule combine_all [OF D(15,13) h D(7) ex(1) _ D(11) l2(1) [unfolded n_def]]) (use M in blast)
  from add_all_ok(1) [OF D(2), of "Some a" "map Some bs" mem] sm [OF A(1)] k A(2,3)
  show "\<exists>c mem'. add_all (BLSAddG1 api) (map (\<lambda>k. Some (sg k)) ks) mem = Some ((Some c, None), mem') \<and> sig_oct (ec_mul (l_C1 L) N (H m)) c"
    unfolding mapS [OF A(1)] by auto
  obtain a bs c where B: "map pk ks = a # bs" "combine_shares (recombine_val (BLS_ADD_G2 api) G2Len) (Some a) (map Some bs) = (Some c, None)"
    "g2_oct (ec_mul (l_C2 L) N (l_Q L)) c" unfolding N_def n_def by (rule combine_all [OF D(16,14,9,7) ex(2) _ D(11) l2(2) [unfolded n_def]]) (use M in blast)
  from add_all_ok(2) [OF D(2), of "Some a" "map Some bs" mem] sm [OF B(1)] k B(2,3)
  show "\<exists>c mem'. add_all (BLSAddG2 api) (map (\<lambda>k. Some (pk k)) ks) mem = Some ((Some c, None), mem') \<and> g2_oct (ec_mul (l_C2 L) N (l_Q L)) c"
    unfolding mapS [OF B(1)] by auto
qed

text \<open>
  C29. BLS signatures from the key sources to the answer of the verifier, through the Go wrappers, over any library whose
  functions compute what their headers say: for any number of signers, each with a key drawn from a generator or given,
  all calls succeed when no sum of the first keys is a multiple of the order, and the sum of the signatures of a
  message is accepted under the sum of the public keys exactly for the messages that are mapped to the same point; for
  all others the answer is the error of an invalid signature.
\<close>

theorem bls_end_to_end:
  assumes s: "bls_session_ok L papi H core api ks" and h: "H m \<noteq> None" and sm: "small m" "small m'"
  shows "\<exists>errs mem'. bls_session core api ks m m' mem = Some ((errs, if H m' = H m then None else Some ErrBlsFail), mem') \<and>
    list_all (\<lambda>e. e = None) errs"
proof -
  note D = bls_session_okD [OF s] and I = in_order_closed(4)
  let ?n = "\<lambda>k. be_nat (snd (key_pair api k))" and ?pk = "\<lambda>k. fst (key_pair api k)"
  let ?N = "sum_list (map ?n ks)"
  obtain sg m1 m2 where S: "each (make_keys core api) ks mem = Some (map (\<lambda>k. (?pk k, snd (key_pair api k), None)) ks, m1)"
    "each (\<lambda>k. BLSSign core api m (Some (snd (key_pair api k)))) ks m1 = Some (map (\<lambda>k. (sg k, None)) ks, m2)"
    "\<And>k. k \<in> set ks \<Longrightarrow> sig_oct (ec_mul (l_C1 L) (?n k) (H m)) (sg k) \<and> small (Some (sg k)) \<and> g2_oct (ec_mul (l_C2 L) (?n k) (l_Q L)) (?pk k) \<and> small (Some (?pk k))"
    using signers_ok [OF s h sm(1), of mem] by blast
  note sums = sums_ok [OF s h S(3) refl refl]
  obtain pk m3 where pk: "add_all (BLSAddG2 api) (map (\<lambda>k. Some (?pk k)) ks) m2 = Some ((Some pk, None), m3)" "g2_oct (ec_mul (l_C2 L) ?N (l_Q L)) pk"
    using sums(2) [of m2] by blast
  obtain sig m4 where sig: "add_all (BLSAddG1 api) (map (\<lambda>k. Some (sg k)) ks) m3 = Some ((Some sig, None), m4)" "sig_oct (ec_mul (l_C1 L) ?N (H m)) sig"
    using sums(1) [of m3] by blast
  have N: "in_order (l_C1 L) (l_r L) (ec_mul (l_C1 L) ?N (H m))" "in_order (l_C2 L) (l_r L) (ec_mul (l_C2 L) ?N (l_Q L))"
    by (rule I [OF D(15,13,13)], rule I [OF D(16,14,14)])
  have small: "small (Some sig)" "small (Some pk)"
    using sig_small [OF D(3,6) in_order_on [OF N(1)] sig(2)] oct_small(2) [OF D(3,6) in_order_on [OF N(2)] pk(2)] by blast+
  have "check_code L papi BLS_OK BLS_FAIL (ec_mul (l_C2 L) ?N (l_Q L)) (ec_neg (l_C1 L) (ec_mul (l_C1 L) ?N (H m))) (H m')
      (fst (BLS_VERIFY api [oct (Some sig), oct m', oct (Some pk)]))" using D(8) N sm(2) sig(2) pk(2) unfolding bls_means_def Let_def by blast
  note v = verify_value [OF D(3,4,5,7) good_shares_sum [OF D(11)] D(13,13) this]
  obtain m5 where "BLSVerify core api m' (Some pk) (Some sig) m4 = Some (if H m' = H m then None else Some ErrBlsFail, m5)"
    using v by (simp add: BLSVerify_eq [OF D(2) sm(2) small(2,1)] case_prod_beta)
  then show ?thesis using S(1,2) pk(1) sig(1) by (simp add: bls_session_def each_map comp_def list_all_iff)
qed

section \<open>Keys and signatures with a threshold\<close>

text \<open>The octets of an array are a list; what a function writes is its result, after the return code.\<close>

(* crypto/include/bls_BLS381.h:90-126 BLS_BLS381_MAKE_SHARES, BLS_BLS381_RECOVER_SECRET, BLS_BLS381_RECOVER_SIGNATURE *)
record bls_shares_api =
  BLS_MAKE_SHARES :: "int \<Rightarrow> int \<Rightarrow> csprng option \<Rightarrow> slice \<Rightarrow> (int \<times> csprng option) \<times> bytes list \<times> bytes list \<times> bytes"
  BLS_RECOVER_SECRET :: "int \<Rightarrow> bytes list \<Rightarrow> bytes list \<Rightarrow> int \<times> bytes"
  BLS_RECOVER_SIGNATURE :: "int \<Rightarrow> bytes list \<Rightarrow> bytes list \<Rightarrow> int \<times> bytes"

definition big_nats :: "bytes list \<Rightarrow> int list" where
  "big_nats bs = map (\<lambda>b. int (be_nat b)) bs"

definition valid_key :: "nat \<Rightarrow> bytes \<Rightarrow> bool" where
  "valid_key r b \<longleftrightarrow> length b = nat BGS_BLS381 \<and> 0 < be_nat b \<and> be_nat b < r"

definition valid_points :: "nat \<Rightarrow> int \<Rightarrow> bytes list \<Rightarrow> bool" where
  "valid_points r k X \<longleftrightarrow> length X = nat k \<and> distinct (map (\<lambda>x. x mod int r) (0 # big_nats X))"

text \<open>
  Shamir's sharing: the shares are the values of a polynomial of as many coefficients as the threshold, whose
  value at zero is the secret; the secret, and a signature with it, are interpolated at zero.
\<close>

definition shares_mean :: "int curve \<Rightarrow> nat \<Rightarrow> bls_shares_api \<Rightarrow> bool" where
  "shares_mean C r api \<longleftrightarrow>
     (\<forall>k n R ski. 1 \<le> k \<longrightarrow> k \<le> n \<longrightarrow> n < int r \<longrightarrow> pred_option (valid_key r) ski \<longrightarrow>
        (case BLS_MAKE_SHARES api k n (Some R) ski of ((code, R'), X, Y, sko) \<Rightarrow> code = BLS_OK \<and> valid_points r n X \<and>
           length Y = nat n \<and> list_all (valid_key r) Y \<and> valid_key r sko \<and> (ski \<noteq> None \<longrightarrow> ski = Some sko) \<and>
           (\<exists>cs. length cs = nat k \<and> eqm r (poly_at cs 0) (int (be_nat sko)) \<and>
             list_all2 (\<lambda>x y. eqm r (poly_at cs x) y) (big_nats X) (big_nats Y)))) \<and>
     (\<forall>k X Y. 1 \<le> k \<longrightarrow> valid_points r k X \<longrightarrow> length Y = nat k \<longrightarrow>
        (case BLS_RECOVER_SECRET api k X Y of (code, sk) \<Rightarrow> code = BLS_OK \<and> length sk = nat BGS_BLS381 \<and>
           int (be_nat sk) = (\<Sum>(x, y) \<leftarrow> zip (big_nats X) (big_nats Y). factor r (set (big_nats X)) x * y) mod int r)) \<and>
     (\<forall>k X Y vs b. 1 \<le> k \<longrightarrow> valid_points r k X \<longrightarrow> list_all2 (\<lambda>v s. in_order C r v \<and> sig_oct v s) vs Y \<longrightarrow> length Y = nat k \<longrightarrow>
        sig_oct (ec_sum C (map2 (\<lambda>x v. zmul C r (factor r (set (big_nats X)) x) v) (big_nats X) vs)) b \<longrightarrow>
        BLS_RECOVER_SIGNATURE api k X Y = (BLS_OK, b))"

text \<open>The values at distinct points of a list, interpolated.\<close>

lemma interpolation_list:
  assumes r: "prime_order r" and xs: "distinct (map (\<lambda>x. x mod int r) xs)" "xs \<noteq> []" and cs: "length cs \<le> length xs"
    and ys: "list_all2 (\<lambda>x y. eqm r (poly_at cs x) y) xs ys"
  shows "eqm r (\<Sum>(x, y) \<leftarrow> zip xs ys. factor r (set xs) x * y) (poly_at cs 0)"
proof -
  have d: "distinct xs" using xs(1) by (simp add: distinct_map)
  have "\<not> int r dvd y - x" if "x \<in> set xs" "y \<in> set xs" "x \<noteq> y" for x y
    using xs(1) that unfolding distinct_map inj_on_def by (metis mod_eq_dvd_iff)
  then have a: "apart r (set xs)" by (simp add: apart_def)
  have len: "length xs = length ys" using ys by (rule list_all2_lengthD)
  have A: "eqm r (\<Sum>(x, y) \<leftarrow> zip xs ys. f x * y) (\<Sum>x \<leftarrow> xs. f x * poly_at cs x)" for f
    using ys
  proof (induction xs ys rule: list_all2_induct)
    case (Cons x xs y ys)
    then show ?case using eqm_add [OF eqm_mult [OF eqm_refl [of r "f x"] eqm_sym [OF Cons.hyps(1)]] Cons.IH] by simp
  qed simp
  have B: "(\<Sum>x \<leftarrow> xs. f x * poly_at cs x) = (\<Sum>x \<in> set xs. f x * poly_at cs x)" for f
    using d by (simp add: sum_list_distinct_conv_sum_set)
  have "card (set xs) = Suc (length xs - 1)" using d xs(2) by (simp add: distinct_card)
  then have "interpolates r (set xs)" by (rule interpolation [OF r _ a])
  then have "eqm r (\<Sum>x \<in> set xs. factor r (set xs) x * poly_at cs x) (poly_at cs 0)"
    using cs d by (simp add: interpolates_def distinct_card)
  with A [of "factor r (set xs)"] show ?thesis unfolding B by (rule eqm_trans)
qed

text \<open>A sum of multiples of multiples of one point.\<close>

lemma sum_multiples:
  assumes g: "ec_group C" and h: "in_order C r h" and r: "0 < r"
  shows "length xs = length ys \<Longrightarrow> ec_sum C (map2 (\<lambda>x v. zmul C r (f x) v) xs (map (\<lambda>y. zmul C r y h) ys)) = zmul C r (\<Sum>(x, y) \<leftarrow> zip xs ys. f x * y) h"
  by (induction xs ys rule: list_induct2) (simp_all add: ec_sum_def zmul_mul [OF g h r] zmul_add [OF g h r])

lemma big_nats_map: "big_nats (map f I) = map (\<lambda>i. int (be_nat (f i))) I"
  by (simp add: big_nats_def comp_def)

text \<open>What the shares of some of the parties are.\<close>

lemma some_shares:
  assumes r: "prime_order r" and m: "shares_mean C r api" and k: "1 \<le> k" "k \<le> n" "n < int r" "pred_option (valid_key r) ski"
    and make: "BLS_MAKE_SHARES api k n (Some R) ski = ((code, R'), X, Y, sko)"
    and I: "distinct I" "set I \<subseteq> {..<nat n}" "length I = nat k"
  shows "code = BLS_OK" "valid_key r sko" "\<And>i. i \<in> set I \<Longrightarrow> valid_key r (Y ! i)" "valid_points r k (map ((!) X) I)" "ski \<noteq> None \<Longrightarrow> ski = Some sko"
    "eqm r (\<Sum>(x, y) \<leftarrow> zip (big_nats (map ((!) X) I)) (big_nats (map ((!) Y) I)). factor r (set (big_nats (map ((!) X) I))) x * y) (int (be_nat sko))"
proof -
  have M: "code = BLS_OK" "valid_points r n X" "length Y = nat n" "list_all (valid_key r) Y" "valid_key r sko" "ski \<noteq> None \<Longrightarrow> ski = Some sko"
    "\<exists>cs. length cs = nat k \<and> eqm r (poly_at cs 0) (int (be_nat sko)) \<and> list_all2 (\<lambda>x y. eqm r (poly_at cs x) y) (big_nats X) (big_nats Y)"
    using m [unfolded shares_mean_def, THEN conjunct1, rule_format, OF k, of R] by (simp_all add: make)
  show "code = BLS_OK" "valid_key r sko" "ski \<noteq> None \<Longrightarrow> ski = Some sko" by (rule M(1), rule M(5), rule M(6))
  show "valid_key r (Y ! i)" if "i \<in> set I" for i using M(3,4) I(2) that by (auto simp: list_all_length)
  have X: "length X = nat n" "distinct (map (\<lambda>x. int (be_nat x) mod int r) X)" "0 \<notin> set (map (\<lambda>x. int (be_nat x) mod int r) X)"
    using M(2) by (simp_all add: valid_points_def big_nats_def comp_def image_image)
  let ?xs = "big_nats (map ((!) X) I)" and ?ys = "big_nats (map ((!) Y) I)"
  have "inj_on (\<lambda>i. int (be_nat (X ! i)) mod int r) (set I)"
    using X(1,2) I(2) by (auto intro!: inj_onI simp: distinct_conv_nth)
  moreover have "int (be_nat (X ! i)) mod int r \<noteq> 0" if "i \<in> set I" for i
  proof
    assume "int (be_nat (X ! i)) mod int r = 0"
    moreover have "X ! i \<in> set X" using X(1) I(2) that by auto
    ultimately have "0 \<in> set (map (\<lambda>x. int (be_nat x) mod int r) X)" by (simp add: image_iff) metis
    then show False using X(3) by simp
  qed
  ultimately show vp: "valid_points r k (map ((!) X) I)"
    using I(1,3) by (auto simp: valid_points_def big_nats_map distinct_map comp_def)
  obtain cs where cs: "length cs = nat k" "eqm r (poly_at cs 0) (int (be_nat sko))" "list_all2 (\<lambda>x y. eqm r (poly_at cs x) y) (big_nats X) (big_nats Y)"
    using M(7) by blast
  have "list_all2 (\<lambda>x y. eqm r (poly_at cs x) y) ?xs ?ys"
    using cs(3) X(1) M(3) I(2) by (auto simp: big_nats_def list_all2_map1 list_all2_map2 list_all2_conv_all_nth intro!: list.rel_refl_strong)
      (metis lessThan_iff nth_mem subsetD)
  moreover have "distinct (map (\<lambda>x. x mod int r) ?xs)" "?xs \<noteq> []" using vp k(1) by (auto simp: valid_points_def big_nats_def)
  ultimately show "eqm r (\<Sum>(x, y) \<leftarrow> zip ?xs ?ys. factor r (set ?xs) x * y) (int (be_nat sko))"
    using interpolation_list [OF r, of ?xs cs ?ys] cs(1,2) I(3) by (auto simp: big_nats_def intro: eqm_trans)
qed


section \<open>A library over the group of order two\<close>

fun enc_sig :: "int point \<Rightarrow> bytes" where
  "enc_sig None = []"
| "enc_sig (Some xy) = point_octet MODBYTES_384_58 True xy"

definition dec_in :: "int point list \<Rightarrow> bytes \<Rightarrow> int point" where
  "dec_in vs b = (case find (\<lambda>v. enc_sig v = b) vs of None \<Rightarrow> None | Some v \<Rightarrow> v)"

definition ref_hash :: "slice \<Rightarrow> int point" where
  "ref_hash m = (if slice_bytes m = [1, 2, 3] then base1 else None)"

definition ref_bls :: bls_api where
  "ref_bls = \<lparr>
     BLS_KEY_PAIR_GENERATE = \<lambda>R os. ((0, R), (let S = if R = None then oct_arg os 0 else ref_one in
       os[0 := put S (os ! 0), 1 := put (enc2 (ec_mul C9 (be_nat S) (l_Q ref_libs))) (os ! 1)])),
     BLS_SIGN = \<lambda>os. (0, os[0 := put (enc_sig (ec_mul C3 (be_nat (oct_arg os 2)) (ref_hash (Some (oct_arg os 1))))) (os ! 0)]),
     BLS_VERIFY = \<lambda>os. (if even (deg2 (l_Q ref_libs) * deg1 (ec_neg C3 (dec_in two_torsion1 (oct_arg os 0))) +
         deg2 (dec2 (oct_arg os 2)) * deg1 (ref_hash (Some (oct_arg os 1)))) then BLS_OK else BLS_FAIL, os),
     BLS_ADD_G1 = \<lambda>os. (0, os[2 := put (enc_sig (ec_add C3 (dec_in two_torsion1 (oct_arg os 0)) (dec_in two_torsion1 (oct_arg os 1)))) (os ! 2)]),
     BLS_ADD_G2 = \<lambda>os. (0, os[2 := put (enc2 (ec_add C9 (dec2 (oct_arg os 0)) (dec2 (oct_arg os 1)))) (os ! 2)])\<rparr>"

lemma ref_bls_sel:
  "BLS_KEY_PAIR_GENERATE ref_bls R os = ((0, R), (let S = if R = None then oct_arg os 0 else ref_one in
     os[0 := put S (os ! 0), 1 := put (enc2 (ec_mul C9 (be_nat S) (l_Q ref_libs))) (os ! 1)]))"
  "BLS_SIGN ref_bls os = (0, os[0 := put (enc_sig (ec_mul C3 (be_nat (oct_arg os 2)) (ref_hash (Some (oct_arg os 1))))) (os ! 0)])"
  "BLS_VERIFY ref_bls os = (if even (deg2 (l_Q ref_libs) * deg1 (ec_neg C3 (dec_in two_torsion1 (oct_arg os 0))) +
     deg2 (dec2 (oct_arg os 2)) * deg1 (ref_hash (Some (oct_arg os 1)))) then BLS_OK else BLS_FAIL, os)"
  "BLS_ADD_G1 ref_bls os = (0, os[2 := put (enc_sig (ec_add C3 (dec_in two_torsion1 (oct_arg os 0)) (dec_in two_torsion1 (oct_arg os 1)))) (os ! 2)])"
  "BLS_ADD_G2 ref_bls os = (0, os[2 := put (enc2 (ec_add C9 (dec2 (oct_arg os 0)) (dec2 (oct_arg os 1)))) (os ! 2)])"
  by (simp_all add: ref_bls_def)

lemma ref_bls_ok: "bls_ok ref_bls"
  unfolding bls_ok_def ref_bls_def Let_def by (simp add: cfun_ok_put cfun_ok_put2 cfun_ok_result)

lemma sig_oct_enc: "sig_oct v b \<Longrightarrow> b = enc_sig v"
  by (auto simp: sig_oct_def)

lemma dec_sig_table:
  "list_all (\<lambda>v. dec_in two_torsion1 (enc_sig v) = v \<and> length (enc_sig v) \<le> 49) two_torsion1"
  "list_all (\<lambda>v. dec_in seven_points (enc_sig v) = v \<and> length (enc_sig v) \<le> 49) seven_points"
  by code_simp+

lemma dec_sig:
  "in_order C3 2 v \<Longrightarrow> dec_in two_torsion1 (enc_sig v) = v \<and> length (enc_sig v) \<le> 49"
  "in_order C7 7 v \<Longrightarrow> dec_in seven_points (enc_sig v) = v \<and> length (enc_sig v) \<le> 49"
  using dec_sig_table [unfolded list_all_iff] in_two_torsion(1) by (blast, simp add: C7_order on_C7)

lemma put_sizes:
  "length b \<le> 49 \<Longrightarrow> the_bytes (put b (fresh SIGLen)) = b" "length b \<le> 192 \<Longrightarrow> the_bytes (put b (fresh G2Len)) = b"
  "length b = 48 \<Longrightarrow> the_bytes (put b (fresh BGS_BLS381)) = b"
proof -
  have "oct_max (fresh_octet SIGLen) = 49" "oct_max (fresh_octet G2Len) = 192" "oct_max (fresh_octet BGS_BLS381) = 48"
    by (simp_all add: fresh_octet_def cint_id SIGLen_def G2Len_def amcl_const)
  then show "length b \<le> 49 \<Longrightarrow> the_bytes (put b (fresh SIGLen)) = b" "length b \<le> 192 \<Longrightarrow> the_bytes (put b (fresh G2Len)) = b"
    "length b = 48 \<Longrightarrow> the_bytes (put b (fresh BGS_BLS381)) = b" by (simp_all add: the_bytes_put)
qed

lemma ref_hash_order: "in_order C3 2 (ref_hash m)"
  using base1_order by (simp add: ref_hash_def in_order_def)

lemma ref_hash_arg: "small m \<Longrightarrow> ref_hash (Some (the_bytes (oct m))) = ref_hash m"
  using the_bytes_octet_of [of m] by (simp add: ref_hash_def)

lemma ref_bls_signs: "bls_signs C3 2 ref_hash ref_bls"
  unfolding bls_signs_def
proof (intro conjI allI impI)
  fix m S b assume sm: "small m" "small (Some S)" and b: "sig_oct (ec_mul C3 (be_nat S) (ref_hash m)) b"
  have "length b \<le> 49" using dec_sig(1) [OF in_order_closed(4) [OF C3_group ref_hash_order ref_hash_order]] sig_oct_enc [OF b] by metis
  then show "case BLS_SIGN ref_bls [fresh SIGLen, oct m, oct (Some S)] of (code, os) \<Rightarrow> code = BLS_OK \<and> the_bytes (os ! 0) = b"
    using sig_oct_enc [OF b] sm by (simp add: ref_bls_sel arg_oct ref_hash_arg put_sizes BLS_OK_def)
qed (rule ref_hash_order)

lemma ref_recombine:
  assumes v: "in_order C3 2 v" "in_order C3 2 w" and o: "sig_oct v a" "sig_oct w b" "sig_oct (ec_add C3 v w) c"
  shows "recombine_val (BLS_ADD_G1 ref_bls) SIGLen (Some a) (Some b) = (c, None)"
proof -
  have "small (Some (enc_sig v))" "small (Some (enc_sig w))" using dec_sig(1) [OF v(1)] dec_sig(1) [OF v(2)] by (simp_all add: small_def)
  then show ?thesis
    using dec_sig(1) [OF v(1)] dec_sig(1) [OF v(2)] dec_sig(1) [OF in_order_closed(2) [OF C3_group v]] sig_oct_enc [OF o(1)] sig_oct_enc [OF o(2)] sig_oct_enc [OF o(3)]
    by (simp add: recombine_val_def ref_bls_sel arg_oct put_sizes codeToError_def amclOk_def)
qed

lemma ref_bls_means: "bls_means ref_libs ref_pair ref_hash ref_bls"
  unfolding bls_means_def Let_def ref_libs_val adds_points_def
proof (intro conjI allI impI)
  fix S :: bytes assume S: "small (Some S)"
  note m = ref_multiples(2) [of "be_nat S"]
  have "the_bytes (put S (oct (Some S))) = S" using put_oct [OF S, of S] by simp
  then show "case BLS_KEY_PAIR_GENERATE ref_bls None (keys_args (Some S)) of ((code, R), os) \<Rightarrow> the_bytes (os ! 0) = S \<and>
      (\<forall>b. g2_oct (ec_mul C9 (be_nat S) (l_Q ref_libs)) b \<longrightarrow> code = BLS_OK \<and> the_bytes (os ! 1) = b)"
    using S dec_enc(4) [OF m] g_oct_enc(2) by (auto simp: ref_bls_sel keys_args_def arg_oct put_sizes BLS_OK_def)
next
  fix R
  have b: "nat BGS_BLS381 = 48" by (simp add: amcl_const)
  have "g2_oct (ec_mul C9 1 (l_Q ref_libs)) (enc2 (ec_mul C9 1 (l_Q ref_libs)))" using ref_Q(3) by (auto simp: g2_oct_def)
  then show "case BLS_KEY_PAIR_GENERATE ref_bls (Some R) (keys_args None) of ((code, R'), os) \<Rightarrow> code = BLS_OK \<and>
      length (the_bytes (os ! 0)) = nat BGS_BLS381 \<and> g2_oct (ec_mul C9 (be_nat (the_bytes (os ! 0))) (l_Q ref_libs)) (the_bytes (os ! 1))"
    using dec_enc(4) [OF ref_multiples(2) [of 1]] ref_scalars(1,2) by (simp add: ref_bls_sel keys_args_def put_sizes BLS_OK_def b del: ec_mul.simps)
next
  fix v w a b c assume "in_order C9 2 v" "in_order C9 2 w" "g2_oct v a" "g2_oct w b" "g2_oct (ec_add C9 v w) c"
  then show "recombine_val (BLS_ADD_G2 ref_bls) G2Len (Some a) (Some b) = (c, None)"
    using ref_oct(2) [of v a] ref_oct(2) [of w b] g_oct_enc(2) [of "ec_add C9 v w" c] dec_enc(4) [OF in_order_closed(2) [OF C9_group, of 2 v w]]
    by (simp add: recombine_val_def ref_bls_sel arg_oct put_sizes codeToError_def amclOk_def)
next
  fix v w m sig pk assume v: "in_order C3 2 v" and w: "in_order C9 2 w" and m: "small m" and o: "sig_oct v sig" "g2_oct w pk"
  have "small (Some sig)" using dec_sig(1) [OF v] sig_oct_enc [OF o(1)] by (simp add: small_def)
  then have "fst (BLS_VERIFY ref_bls [oct (Some sig), oct m, oct (Some pk)]) =
      (if even (deg2 (l_Q ref_libs) * deg1 (ec_neg C3 v) + deg2 w * deg1 (ref_hash m)) then BLS_OK else BLS_FAIL)"
    using dec_sig(1) [OF v] sig_oct_enc [OF o(1)] ref_oct(2) [OF w o(2)] m by (simp add: ref_bls_sel arg_oct ref_hash_arg)
  then show "check_code ref_libs ref_pair BLS_OK BLS_FAIL w (ec_neg C3 v) (ref_hash m) (fst (BLS_VERIFY ref_bls [oct (Some sig), oct m, oct (Some pk)]))"
    using ref_check_code [OF in_order_closed(3) [OF C3_group v v] ref_hash_order w, of BLS_OK BLS_FAIL m] by simp
qed (rule ref_bls_signs, rule ref_recombine)

lemma ref_bls_session: "bls_session_ok ref_libs ref_pair ref_hash idle_core ref_bls [(None, Some ref_one)]"
proof -
  have "the_bytes (put ref_one (oct (Some ref_one))) = ref_one" using put_oct [of ref_one ref_one] by (simp add: small_def ref_scalars)
  then have "be_nat (snd (key_pair ref_bls (None, Some ref_one))) = 1"
    using arg_oct [of ref_one] by (simp add: key_pair_def ref_bls_sel keys_args_def small_def ref_scalars Let_def)
  moreover have "prime_order 2" by code_simp
  ultimately show ?thesis
    unfolding bls_session_ok_def
    using idle_core_ok ref_bls_ok ref_libs_ok ref_pair_ok ref_nondegenerate ref_p ref_bls_means ref_Q(3)
    by (simp add: ref_libs_val good_shares_def key_source_def small_def ref_scalars)
qed

theorem bls_end_to_end_witness:
  "(\<exists>errs mem'. bls_session idle_core ref_bls [(None, Some ref_one)] (Some [1, 2, 3]) (Some [1, 2, 3]) [] = Some ((errs, None), mem') \<and> list_all (\<lambda>e. e = None) errs) \<and>
   (\<exists>errs mem'. bls_session idle_core ref_bls [(None, Some ref_one)] (Some [1, 2, 3]) (Some [7]) [] = Some ((errs, Some ErrBlsFail), mem') \<and> list_all (\<lambda>e. e = None) errs)"
  using bls_end_to_end [OF ref_bls_session, of "Some [1, 2, 3]" "Some [1, 2, 3]" "[]"] bls_end_to_end [OF ref_bls_session, of "Some [1, 2, 3]" "Some [7]" "[]"]
  by (simp add: ref_hash_def base1_def small_def)

section \<open>Sharing over the group of order seven\<close>

definition signs7 :: bls_api where
  "signs7 = ref_bls\<lparr>BLS_SIGN := \<lambda>os. (0, os[0 := put (enc_sig (ec_mul C7 (be_nat (oct_arg os 2)) (pt7 1))) (os ! 0)])\<rparr>"

text \<open>
  The numbers \<open>1, 2, ...\<close> as points and the values of \<open>s + s x\<close>, which vanishes at 6 only; with a threshold of one, or six
  parties, the constant polynomial.
\<close>

definition poly7 :: "int \<Rightarrow> int \<Rightarrow> int \<Rightarrow> int list" where
  "poly7 k n s = (if k = 1 \<or> n = 6 then s # replicate (nat k - 1) 0 else s # s # replicate (nat k - 2) 0)"

definition shares7 :: bls_shares_api where
  "shares7 = \<lparr>
     BLS_MAKE_SHARES = \<lambda>k n R ski. let s = (case ski of None \<Rightarrow> ref_one | Some b \<Rightarrow> b) in
       ((0, R), map (to_be 48) [1..n], map (\<lambda>x. to_be 48 (poly_at (poly7 k n (int (be_nat s))) x mod 7)) [1..n], s),
     BLS_RECOVER_SECRET = \<lambda>k X Y. (0, to_be 48 ((\<Sum>(x, y) \<leftarrow> zip (big_nats X) (big_nats Y). factor 7 (set (big_nats X)) x * y) mod 7)),
     BLS_RECOVER_SIGNATURE = \<lambda>k X Y. (0, enc_sig (ec_sum C7 (map2 (\<lambda>x v. zmul C7 7 (factor 7 (set (big_nats X)) x) v) (big_nats X) (map (dec_in seven_points) Y))))\<rparr>"

lemma signs7_ok: "bls_ok signs7"
  using ref_bls_ok by (simp add: bls_ok_def signs7_def cfun_ok_put)

lemma signs7_signs: "bls_signs C7 7 (\<lambda>m. pt7 1) signs7"
  unfolding bls_signs_def
proof (intro conjI allI impI)
  have "on_curve C7 (pt7 1)" by code_simp
  then show o: "in_order C7 7 (pt7 1)" by (simp add: C7_order)
  fix m S b assume sm: "small (Some S)" and b: "sig_oct (ec_mul C7 (be_nat S) (pt7 1)) b"
  have "length b \<le> 49" using dec_sig(2) [OF in_order_closed(4) [OF C7_group o o]] sig_oct_enc [OF b] by metis
  then show "case BLS_SIGN signs7 [fresh SIGLen, oct m, oct (Some S)] of (code, os) \<Rightarrow> code = BLS_OK \<and> the_bytes (os ! 0) = b"
    using sig_oct_enc [OF b] sm by (simp add: signs7_def arg_oct put_sizes BLS_OK_def)
qed

lemma poly7_table:
  "list_all (\<lambda>k. list_all (\<lambda>n. k \<le> n \<longrightarrow> list_all (\<lambda>s. list_all (\<lambda>x. poly_at (poly7 k n s) x mod 7 \<noteq> 0) [1..n]) [1..6]) [1..6]) [1..6]"
  by code_simp

lemma poly7_shape: "1 \<le> k \<Longrightarrow> k \<le> n \<Longrightarrow> length (poly7 k n s) = nat k" "poly_at (poly7 k n s) 0 = s"
  by (auto simp: poly7_def)

lemma shares7_mean: "shares_mean C7 7 shares7"
  unfolding shares_mean_def
proof (intro conjI allI impI)
  fix k n :: int and R ski assume k: "1 \<le> k" "k \<le> n" "n < int 7" "pred_option (valid_key 7) ski"
  let ?s = "case ski of None \<Rightarrow> ref_one | Some b \<Rightarrow> b"
  let ?cs = "poly7 k n (int (be_nat ?s))"
  have v: "valid_key 7 ?s" using k(4) ref_scalars(1,2) by (cases ski) (simp_all add: valid_key_def amcl_const)
  have nz: "poly_at ?cs x mod 7 \<noteq> 0" if "x \<in> set [1..n]" for x
    using poly7_table [unfolded list_all_iff, rule_format, of k n "int (be_nat ?s)" x] k v that by (simp add: valid_key_def)
  have "distinct (map (\<lambda>x. x mod int 7) (0 # big_nats (map (to_be 48) [1..n])))"
    using k(3) by (auto simp: big_nats_def comp_def distinct_map inj_on_def)
  then have X: "valid_points 7 n (map (to_be 48) [1..n])" by (simp add: valid_points_def)
  have vk: "valid_key 7 (to_be 48 y)" if "0 < y" "y < 7" for y using that to_be_len [of y 48] by (simp add: valid_key_def amcl_const)
  have "valid_key 7 (to_be 48 (poly_at ?cs x mod 7))" if "x \<in> set [1..n]" for x
    using nz [OF that] pos_mod_bound [of 7 "poly_at ?cs x"] pos_mod_sign [of 7 "poly_at ?cs x"] by (intro vk) linarith+
  moreover have "list_all2 (\<lambda>x y. eqm 7 (poly_at ?cs x) y) (big_nats (map (to_be 48) [1..n])) (big_nats (map (\<lambda>x. to_be 48 (poly_at ?cs x mod 7)) [1..n]))"
    by (auto simp: big_nats_def list_all2_map1 list_all2_map2 eqm_mod intro!: list.rel_refl_strong)
  ultimately show "case BLS_MAKE_SHARES shares7 k n (Some R) ski of ((code, R'), X, Y, sko) \<Rightarrow> code = BLS_OK \<and> valid_points 7 n X \<and>
      length Y = nat n \<and> list_all (valid_key 7) Y \<and> valid_key 7 sko \<and> (ski \<noteq> None \<longrightarrow> ski = Some sko) \<and>
      (\<exists>cs. length cs = nat k \<and> eqm 7 (poly_at cs 0) (int (be_nat sko)) \<and> list_all2 (\<lambda>x y. eqm 7 (poly_at cs x) y) (big_nats X) (big_nats Y))"
    using X v poly7_shape(1) [OF k(1,2)] poly7_shape(2) by (auto simp: shares7_def BLS_OK_def list_all_iff Let_def intro!: exI [of _ ?cs])
next
  fix k :: int and X Y
  let ?v = "(\<Sum>(x, y) \<leftarrow> zip (big_nats X) (big_nats Y). factor 7 (set (big_nats X)) x * y)"
  show "case BLS_RECOVER_SECRET shares7 k X Y of (code, sk) \<Rightarrow> code = BLS_OK \<and> length sk = nat BGS_BLS381 \<and> int (be_nat sk) = ?v mod int 7"
    using to_be_len [of "?v mod 7" 48] pos_mod_bound [of 7 ?v] by (simp add: shares7_def BLS_OK_def amcl_const)
next
  fix k :: int and X Y vs b
  assume l: "list_all2 (\<lambda>v s. in_order C7 7 v \<and> sig_oct v s) vs Y"
    and b: "sig_oct (ec_sum C7 (map2 (\<lambda>x v. zmul C7 7 (factor 7 (set (big_nats X)) x) v) (big_nats X) vs)) b"
  have "map (dec_in seven_points) Y = vs"
    using l dec_sig(2) sig_oct_enc by (induction vs Y rule: list_all2_induct) auto
  then show "BLS_RECOVER_SIGNATURE shares7 k X Y = (BLS_OK, b)" using sig_oct_enc [OF b] by (simp add: shares7_def BLS_OK_def)
qed


end
