(* ===== verification/Ecdh.thy ===== *)
theory Ecdh
  imports Secp256k1 Seven Sha256 Schemes
begin

text \<open>
  \<open>crypto/include/ecdh_SECP256K1.h\<close>, \<open>ecdh_BLS381.h\<close> and \<open>ecdh_support.h\<close>: key derivation, Diffie-Hellman, ECIES
  and ECD The declared functions are the fields of records, with output parameters as results; the contracts are the
  schemes of IEEE 1363 that the comments name, on the points of \<open>Curve\<close>. The encryption of \<open>crypto/secp256k1.go\<close> is derived
  from them at the end.
\<close>

section \<open>ecdh_support.h\<close>

(* crypto/include/ecdh_support.h:34-98 ehashit ... AES_CBC_IV0_DECRYPT *)
record ecdh_support_api =
  ehashit :: "int \<Rightarrow> slice \<Rightarrow> int \<Rightarrow> slice \<Rightarrow> int \<Rightarrow> bytes"
  HASH :: "int \<Rightarrow> bytes \<Rightarrow> bytes"
  HMAC :: "int \<Rightarrow> bytes \<Rightarrow> bytes \<Rightarrow> int \<Rightarrow> int \<times> bytes"
  KDF2 :: "int \<Rightarrow> bytes \<Rightarrow> slice \<Rightarrow> int \<Rightarrow> bytes"
  PBKDF2 :: "int \<Rightarrow> bytes \<Rightarrow> bytes \<Rightarrow> int \<Rightarrow> int \<Rightarrow> bytes"
  AES_CBC_IV0_ENCRYPT :: "bytes \<Rightarrow> bytes \<Rightarrow> bytes"
  AES_CBC_IV0_DECRYPT :: "bytes \<Rightarrow> bytes \<Rightarrow> int \<times> bytes"

text \<open>The two derivations of keys, after IEEE 1363 and RFC 8018: hashes of counted inputs, cut to the length.\<close>

definition blocks :: "nat \<Rightarrow> (int \<Rightarrow> bytes) \<Rightarrow> bytes" where
  "blocks n f = take n (concat (map f [1..int ((n + 31) div 32)]))"

definition kdf2 :: "bytes \<Rightarrow> bytes \<Rightarrow> nat \<Rightarrow> bytes" where
  "kdf2 z p n = blocks n (\<lambda>i. sha256_sum (z @ to_be 4 i @ p))"

fun hmac_chain :: "bytes \<Rightarrow> nat \<Rightarrow> bytes \<Rightarrow> bytes" where
  "hmac_chain p 0 u = replicate 32 0"
| "hmac_chain p (Suc n) u = (let u' = hmac_sha256 p u in map2 (\<lambda>a b. Bit_Operations.xor a b) u' (hmac_chain p n u'))"

definition pbkdf2 :: "bytes \<Rightarrow> bytes \<Rightarrow> nat \<Rightarrow> nat \<Rightarrow> bytes" where
  "pbkdf2 p s rep n = blocks n (\<lambda>i. hmac_chain p rep (s @ to_be 4 i))"

definition support_ok :: "ecdh_support_api \<Rightarrow> bool" where
  "support_ok api \<longleftrightarrow>
     (\<forall>m. HASH api SHA256 m = sha256_sum m) \<and>
     (\<forall>p n x. 0 < n \<longrightarrow> n < 2 ^ 31 \<longrightarrow> ehashit api SHA256 p n x 0 = sha256_sum (slice_bytes p @ to_be 4 n @ slice_bytes x)) \<and>
     (\<forall>m k len. 4 \<le> len \<longrightarrow> len \<le> 32 \<longrightarrow> HMAC api SHA256 m k len = (1, take (nat len) (hmac_sha256 k m))) \<and>
     (\<forall>z p len. 0 \<le> len \<longrightarrow> KDF2 api SHA256 z p len = kdf2 z (slice_bytes p) (nat len)) \<and>
     (\<forall>p s rep len. 1 \<le> rep \<longrightarrow> 0 \<le> len \<longrightarrow> PBKDF2 api SHA256 p s rep len = pbkdf2 p s (nat rep) (nat len)) \<and>
     (\<forall>k p. length k = 16 \<longrightarrow> length (AES_CBC_IV0_ENCRYPT api k p) = 16 * (length p div 16 + 1) \<and>
        AES_CBC_IV0_DECRYPT api k (AES_CBC_IV0_ENCRYPT api k p) = (1, p)) \<and>
     (\<forall>k c. length k = 16 \<longrightarrow> length (snd (AES_CBC_IV0_DECRYPT api k c)) \<le> length c)"

section \<open>Domain parameters\<close>

text \<open>A group of prime order on a curve, with a generator, and the length of numbers and coordinates in octets.\<close>

record ec_domain =
  dm_curve :: "int curve"
  dm_r :: nat
  dm_G :: "int point"
  dm_m :: nat

definition domain_ok :: "ec_domain \<Rightarrow> bool" where
  "domain_ok D \<longleftrightarrow> ec_group (dm_curve D) \<and> prime_order (dm_r D) \<and> in_order (dm_curve D) (dm_r D) (dm_G D) \<and> dm_G D \<noteq> None \<and>
     dm_r D \<le> 256 ^ dm_m D \<and> (\<forall>x y. on_curve (dm_curve D) (Some (x, y)) \<longrightarrow> 0 \<le> x \<and> x < 256 ^ dm_m D \<and> 0 \<le> y \<and> y < 256 ^ dm_m D)"

definition rom_domain :: "fp_suffix \<Rightarrow> int \<Rightarrow> ecp_rom \<Rightarrow> ec_domain" where
  "rom_domain f p rom = \<lparr>dm_curve = rom_curve f p rom, dm_r = order f rom,
     dm_G = Some (bigv f (CURVE_Gx rom), bigv f (CURVE_Gy rom)), dm_m = fp_bytes f\<rparr>"

definition private_key :: "ec_domain \<Rightarrow> bytes \<Rightarrow> bool" where
  "private_key D s \<longleftrightarrow> length s = dm_m D \<and> 0 < be_nat s \<and> be_nat s < dm_r D"

definition pub_octet :: "ec_domain \<Rightarrow> int point \<Rightarrow> bytes" where
  "pub_octet D P = point_octet (dm_m D) False (the P)"

definition x_octet :: "ec_domain \<Rightarrow> int point \<Rightarrow> bytes" where
  "x_octet D P = to_be (dm_m D) (fst (the P))"

definition public_point :: "ec_domain \<Rightarrow> bytes \<Rightarrow> int point" where
  "public_point D s = ec_mul (dm_curve D) (be_nat s) (dm_G D)"

definition in_group :: "ec_domain \<Rightarrow> int point \<Rightarrow> bool" where
  "in_group D P \<longleftrightarrow> in_order (dm_curve D) (dm_r D) P \<and> P \<noteq> None"

lemma domainD:
  assumes "domain_ok D"
  shows "ec_group (dm_curve D)" "prime_order (dm_r D)" "in_order (dm_curve D) (dm_r D) (dm_G D)" "dm_G D \<noteq> None" "0 < dm_r D" "1 < dm_r D"
    "dm_r D \<le> 256 ^ dm_m D" "in_group D (dm_G D)"
  using assms by (simp_all add: domain_ok_def prime_order_def in_group_def)

lemma private_key_mul:
  assumes D: "domain_ok D" and s: "0 < n" "n < dm_r D" and P: "in_group D P"
  shows "in_group D (ec_mul (dm_curve D) n P)"
proof -
  note d = domainD [OF D] and P' = P [unfolded in_group_def]
  have "\<not> dm_r D dvd n" using s by (auto dest: dvd_imp_le)
  then show ?thesis
    using zmul_None [OF d(1) conjunct1 [OF P'] d(2) conjunct2 [OF P'], of "int n"] in_order_closed(4) [OF d(1) conjunct1 [OF P'] conjunct1 [OF P']]
    by (simp add: in_group_def zmul_of_nat [OF d(1) conjunct1 [OF P']])
qed

section \<open>Diffie-Hellman\<close>

(* crypto/include/ecdh_SECP256K1.h:54-80 ECP_SECP256K1_KEY_PAIR_GENERATE, ECP_SECP256K1_PUBLIC_KEY_VALIDATE, ECP_SECP256K1_SVDP_DH *)
record ecdh_api =
  KEY_PAIR_GENERATE :: "csprng option \<Rightarrow> bytes \<Rightarrow> (int \<times> csprng option) \<times> bytes \<times> bytes"
  PUBLIC_KEY_VALIDATE :: "bytes \<Rightarrow> int"
  SVDP_DH :: "bytes \<Rightarrow> bytes \<Rightarrow> int \<times> bytes"

definition ecdh_ok :: "ec_domain \<Rightarrow> ecdh_api \<Rightarrow> bool" where
  "ecdh_ok D api \<longleftrightarrow>
     (\<forall>s. private_key D s \<longrightarrow> KEY_PAIR_GENERATE api None s = ((ECDH_OK, None), s, pub_octet D (public_point D s))) \<and>
     (\<forall>R s. case KEY_PAIR_GENERATE api (Some R) s of ((code, R'), s', W) \<Rightarrow>
        code = ECDH_OK \<and> R' \<noteq> None \<and> private_key D s' \<and> W = pub_octet D (public_point D s')) \<and>
     (\<forall>P. in_group D P \<longrightarrow> PUBLIC_KEY_VALIDATE api (pub_octet D P) = ECDH_OK) \<and>
     (\<forall>x y. 0 \<le> x \<longrightarrow> x < 256 ^ dm_m D \<longrightarrow> 0 \<le> y \<longrightarrow> y < 256 ^ dm_m D \<longrightarrow> \<not> in_group D (Some (x, y)) \<longrightarrow>
        PUBLIC_KEY_VALIDATE api (pub_octet D (Some (x, y))) = ECDH_INVALID_PUBLIC_KEY) \<and>
     (\<forall>s P. private_key D s \<longrightarrow> in_group D P \<longrightarrow> SVDP_DH api s (pub_octet D P) = (ECDH_OK, x_octet D (ec_mul (dm_curve D) (be_nat s) P)))"

text \<open>
  Two parties, whose keys are drawn or given, exchange public keys: both are valid, and both compute the same
  shared key, which is the coordinate of the product of the secrets.
\<close>

theorem ecdh_agreement:
  assumes D: "domain_ok D" and ok: "ecdh_ok D api"
    and a: "KEY_PAIR_GENERATE api R s = ((ca, R'), s', W)" "R \<noteq> None \<or> private_key D s"
    and b: "KEY_PAIR_GENERATE api S t = ((cb, S'), t', V)" "S \<noteq> None \<or> private_key D t"
  shows "ca = ECDH_OK \<and> cb = ECDH_OK \<and> PUBLIC_KEY_VALIDATE api W = ECDH_OK \<and> PUBLIC_KEY_VALIDATE api V = ECDH_OK \<and>
    SVDP_DH api s' V = SVDP_DH api t' W \<and>
    SVDP_DH api s' V = (ECDH_OK, x_octet D (ec_mul (dm_curve D) (be_nat s' * be_nat t') (dm_G D)))"
proof -
  note d = domainD [OF D]
  have key: "c = ECDH_OK \<and> private_key D s' \<and> W = pub_octet D (public_point D s')"
    if "KEY_PAIR_GENERATE api R s = ((c, R'), s', W)" "R \<noteq> None \<or> private_key D s" for R s c R' s' W
  proof (cases R)
    case None
    then show ?thesis using that ok [unfolded ecdh_ok_def, THEN conjunct1, rule_format, of s] by auto
  next
    case (Some R0)
    then show ?thesis using that ok [unfolded ecdh_ok_def, THEN conjunct2, THEN conjunct1, rule_format, of R0 s] by auto
  qed
  note A = key [OF a] and B = key [OF b]
  have g: "in_group D (public_point D u)" if "private_key D u" for u
    using private_key_mul [OF D _ _ d(8)] that by (simp add: public_point_def private_key_def)
  have dh: "SVDP_DH api u (pub_octet D (public_point D v)) = (ECDH_OK, x_octet D (ec_mul (dm_curve D) (be_nat u) (public_point D v)))"
    if "private_key D u" "private_key D v" for u v using ok g that unfolding ecdh_ok_def by blast
  note m = ec_mul_mul [OF d(1) in_order_on [OF d(3)], symmetric]
  show ?thesis
    using A B g dh ok [unfolded ecdh_ok_def, THEN conjunct2, THEN conjunct2, THEN conjunct1, rule_format]
    by (simp add: public_point_def m mult.commute)
qed

section \<open>ECDSA\<close>

(* crypto/include/ecdh_SECP256K1.h:120-142 ECP_SECP256K1_SP_DSA, ECP_SECP256K1_VP_DSA *)
record dsa_api =
  SP_DSA :: "int \<Rightarrow> csprng option \<Rightarrow> bytes \<Rightarrow> bytes \<Rightarrow> bytes \<Rightarrow> (int \<times> csprng option) \<times> bytes \<times> bytes"
  VP_DSA :: "int \<Rightarrow> bytes \<Rightarrow> bytes \<Rightarrow> bytes \<Rightarrow> bytes \<Rightarrow> int"

text \<open>The number made of a message, and the primitives on numbers: the nonce is \<open>k\<close>, the key \<open>s\<close> or its point.\<close>

definition digest :: "ec_domain \<Rightarrow> ecdh_support_api \<Rightarrow> int \<Rightarrow> bytes \<Rightarrow> int" where
  "digest D lib h m = int (be_nat (take (dm_m D) (HASH lib h m)))"

definition dsa_sign :: "ec_domain \<Rightarrow> int \<Rightarrow> int \<Rightarrow> nat \<Rightarrow> int \<times> int" where
  "dsa_sign D f s k = (let r = dm_r D; c = fst (the (ec_mul (dm_curve D) k (dm_G D))) mod int r in
     (c, order_inv r (int k) * (f + s * c) mod int r))"

definition dsa_verify :: "ec_domain \<Rightarrow> int \<Rightarrow> int point \<Rightarrow> int \<Rightarrow> int \<Rightarrow> bool" where
  "dsa_verify D f P c d \<longleftrightarrow> (let C = dm_curve D; r = dm_r D in 0 < c \<and> c < int r \<and> 0 < d \<and> d < int r \<and>
     (case ec_add C (zmul C r (f * order_inv r d) (dm_G D)) (zmul C r (c * order_inv r d) P) of
        None \<Rightarrow> False
      | Some (x, y) \<Rightarrow> x mod int r = c))"

definition signs_with :: "ec_domain \<Rightarrow> int \<Rightarrow> int \<Rightarrow> bytes \<Rightarrow> bytes \<Rightarrow> bytes \<Rightarrow> bool" where
  "signs_with D f s k c d \<longleftrightarrow> private_key D k \<and> length c = dm_m D \<and> length d = dm_m D \<and> 0 < be_nat c \<and> 0 < be_nat d \<and>
     dsa_sign D f s (be_nat k) = (int (be_nat c), int (be_nat d))"

definition dsa_ok :: "ec_domain \<Rightarrow> ecdh_support_api \<Rightarrow> dsa_api \<Rightarrow> bool" where
  "dsa_ok D lib api \<longleftrightarrow>
     (\<forall>k s m c d. private_key D s \<longrightarrow> signs_with D (digest D lib SHA256 m) (int (be_nat s)) k c d \<longrightarrow>
        SP_DSA api SHA256 None k s m = ((ECDH_OK, None), c, d)) \<and>
     (\<forall>R k s m. private_key D s \<longrightarrow> (case SP_DSA api SHA256 (Some R) k s m of ((code, R'), c, d) \<Rightarrow>
        code = ECDH_OK \<and> R' \<noteq> None \<and> (\<exists>k'. signs_with D (digest D lib SHA256 m) (int (be_nat s)) k' c d))) \<and>
     (\<forall>P m c d. in_group D P \<longrightarrow> length c = dm_m D \<longrightarrow> length d = dm_m D \<longrightarrow> VP_DSA api SHA256 (pub_octet D P) m c d =
        (if dsa_verify D (digest D lib SHA256 m) P (int (be_nat c)) (int (be_nat d)) then ECDH_OK else ECDH_INVALID))"

text \<open>What a signature satisfies: \<open>k d = f + s c\<close> modulo the order.\<close>

lemma residue_range: "0 < r \<Longrightarrow> (x :: int) mod int r < int r" "0 < r \<Longrightarrow> 0 \<le> x mod int r"
  by simp_all

lemma signs_withD:
  assumes D: "domain_ok D" and w: "signs_with D f s k c d"
  shows "int (dm_r D) dvd int (be_nat k) * int (be_nat d) - (f + s * int (be_nat c))" "int (be_nat c) < int (dm_r D)" "int (be_nat d) < int (dm_r D)"
    "\<not> int (dm_r D) dvd int (be_nat d)" "\<not> int (dm_r D) dvd int (be_nat k)"
    "\<exists>x y. ec_mul (dm_curve D) (be_nat k) (dm_G D) = Some (x, y) \<and> x mod int (dm_r D) = int (be_nat c)"
proof -
  let ?r = "int (dm_r D)" and ?k = "int (be_nat k)" and ?c = "int (be_nat c)" and ?d = "int (be_nat d)"
  note d = domainD [OF D] and w = w [unfolded signs_with_def]
  have k: "0 < be_nat k" "be_nat k < dm_r D" using w by (simp_all add: private_key_def)
  have e: "?c = fst (the (ec_mul (dm_curve D) (be_nat k) (dm_G D))) mod ?r" "?d = order_inv (dm_r D) ?k * (f + s * ?c) mod ?r"
    using w by (auto simp: dsa_sign_def Let_def)
  show c: "?c < ?r" and dr: "?d < ?r" by (subst e, rule residue_range(1) [OF d(5)])+
  show nd: "\<not> ?r dvd ?d" using w dr by (auto dest: zdvd_imp_le)
  show nk: "\<not> ?r dvd ?k" using k by (auto dest: zdvd_imp_le)
  have "?r dvd ?k * order_inv (dm_r D) ?k - 1" by (rule order_inv [OF d(2) nk])
  then have "?r dvd (?k * order_inv (dm_r D) ?k - 1) * (f + s * ?c)" by simp
  moreover have "?r dvd order_inv (dm_r D) ?k * (f + s * ?c) - ?d" unfolding e(2) by (simp add: mod_eq_dvd_iff [symmetric])
  then have "?r dvd ?k * (order_inv (dm_r D) ?k * (f + s * ?c) - ?d)" by simp
  ultimately have "?r dvd (?k * order_inv (dm_r D) ?k - 1) * (f + s * ?c) - ?k * (order_inv (dm_r D) ?k * (f + s * ?c) - ?d)" by (rule dvd_diff)
  then show "?r dvd ?k * ?d - (f + s * ?c)" by (simp add: algebra_simps)
  show "\<exists>x y. ec_mul (dm_curve D) (be_nat k) (dm_G D) = Some (x, y) \<and> x mod ?r = ?c"
    using private_key_mul [OF D k d(8)] e(1) by (auto simp: in_group_def)
qed

text \<open>
  The point that verification computes for a signature and for the one with the second number negated.
\<close>

lemma dsa_point:
  assumes D: "domain_ok D" and u: "int (dm_r D) dvd k * d - (f + s * c)" "\<not> int (dm_r D) dvd d"
  shows "ec_add (dm_curve D) (zmul (dm_curve D) (dm_r D) (f * order_inv (dm_r D) d) (dm_G D))
    (zmul (dm_curve D) (dm_r D) (c * order_inv (dm_r D) d) (zmul (dm_curve D) (dm_r D) s (dm_G D))) = zmul (dm_curve D) (dm_r D) k (dm_G D)"
proof -
  let ?r = "int (dm_r D)" and ?i = "order_inv (dm_r D) d"
  note dm = domainD [OF D]
  have "?r dvd (d * ?i - 1) * k" "?r dvd (k * d - (f + s * c)) * ?i" using order_inv [OF dm(2) u(2)] u(1) by simp_all
  then have "?r dvd (d * ?i - 1) * k - (k * d - (f + s * c)) * ?i" by (rule dvd_diff)
  then have "?r dvd (f * ?i + c * ?i * s) - k" by (simp add: algebra_simps)
  then have "zmul (dm_curve D) (dm_r D) (f * ?i + c * ?i * s) (dm_G D) = zmul (dm_curve D) (dm_r D) k (dm_G D)"
    by (intro zmul_cong) (simp add: mod_eq_dvd_iff)
  then show ?thesis by (simp add: zmul_mul [OF dm(1,3,5)] zmul_add [OF dm(1,3,5)])
qed

lemma dsa_accepts:
  assumes D: "domain_ok D" and w: "signs_with D f (int (be_nat s)) k c d"
  shows "dsa_verify D f (public_point D s) (int (be_nat c)) (int (be_nat d))"
    "dsa_verify D f (public_point D s) (int (be_nat c)) (int (dm_r D) - int (be_nat d))"
proof -
  let ?r = "int (dm_r D)" and ?k = "int (be_nat k)" and ?c = "int (be_nat c)" and ?d = "int (be_nat d)" and ?C = "dm_curve D"
  note dm = domainD [OF D] and W = signs_withD [OF D w]
  have pos: "0 < ?c" "0 < ?d" using w by (simp_all add: signs_with_def)
  have P: "public_point D s = zmul ?C (dm_r D) (int (be_nat s)) (dm_G D)" by (simp add: public_point_def zmul_of_nat [OF dm(1,3)])
  obtain x y where xy: "zmul ?C (dm_r D) ?k (dm_G D) = Some (x, y)" "x mod ?r = ?c" using W(6) by (auto simp: zmul_of_nat [OF dm(1,3)])
  show "dsa_verify D f (public_point D s) ?c ?d"
    using dsa_point [OF D W(1,4)] xy pos W(2,3) by (simp add: dsa_verify_def P Let_def)
  have "?r dvd ?k * ?d - (f + int (be_nat s) * ?c) - ?k * ?r" using W(1) by (simp add: dvd_diff_left_iff)
  then have n: "?r dvd (- ?k) * (?r - ?d) - (f + int (be_nat s) * ?c)" by (simp add: algebra_simps)
  have "\<not> ?r dvd ?r - ?d" using W(4) by (metis dvd_diff_right_iff dvd_refl)
  from dsa_point [OF D n this] have "ec_add ?C (zmul ?C (dm_r D) (f * order_inv (dm_r D) (?r - ?d)) (dm_G D))
      (zmul ?C (dm_r D) (?c * order_inv (dm_r D) (?r - ?d)) (public_point D s)) = ec_neg ?C (Some (x, y))"
    using zmul_neg [OF dm(1,3,5), of ?k] xy(1) by (simp only: P)
  then show "dsa_verify D f (public_point D s) ?c (?r - ?d)"
    using xy(2) pos W(2,3) by (simp add: dsa_verify_def Let_def)
qed


section \<open>ECIES\<close>

text \<open>
  Encryption after IEEE 1363a: an ephemeral key \<open>u\<close> gives \<open>V = u G\<close>, the coordinate of \<open>u W\<close> with \<open>V\<close> the two symmetric
  keys, for AES and for the tag of the ciphertext, of the second parameter and of its length.
\<close>

definition ecies_keys :: "ec_domain \<Rightarrow> ecdh_support_api \<Rightarrow> bytes \<Rightarrow> int point \<Rightarrow> int point \<Rightarrow> bytes \<times> bytes" where
  "ecies_keys D lib p1 V Z = (let K = KDF2 lib SHA256 (pub_octet D V @ x_octet D Z) (Some p1) 32 in (take 16 K, drop 16 K))"

definition ecies_tag :: "ecdh_support_api \<Rightarrow> bytes \<Rightarrow> bytes \<Rightarrow> bytes \<Rightarrow> int \<Rightarrow> bytes" where
  "ecies_tag lib k2 c p2 n = snd (HMAC lib SHA256 (c @ p2 @ to_be 8 (int (length p2))) k2 n)"

definition ecies_1363 :: "ec_domain \<Rightarrow> ecdh_support_api \<Rightarrow> ecies_api \<Rightarrow> bool" where
  "ecies_1363 D lib api \<longleftrightarrow>
     (\<forall>P b R p1 p2 n vcap ccap tcap. in_group D P \<longrightarrow> small (Some b) \<longrightarrow> oct_wf p1 \<longrightarrow> oct_wf p2 \<longrightarrow> 4 \<le> n \<longrightarrow> n \<le> tcap \<longrightarrow> n \<le> 32 \<longrightarrow>
        2 * int (dm_m D) + 1 \<le> vcap \<longrightarrow> 16 * (int (length b) div 16 + 1) \<le> ccap \<longrightarrow> vcap < 2 ^ 31 \<longrightarrow> ccap < 2 ^ 31 \<longrightarrow> tcap < 2 ^ 31 \<longrightarrow>
        (case ECIES_ENCRYPT api SHA256 p1 p2 R n [Some (octet_of (pub_octet D P)), Some (octet_of b), Some (fresh_octet vcap),
             Some (fresh_octet ccap), Some (fresh_octet tcap)] of (R', os) \<Rightarrow>
           \<exists>u. 0 < u \<and> u < dm_r D \<and> (let V = ec_mul (dm_curve D) u (dm_G D); Z = ec_mul (dm_curve D) u P;
               (k1, k2) = ecies_keys D lib (the_bytes (Some p1)) V Z; c = AES_CBC_IV0_ENCRYPT lib k1 b in
             the_bytes (os ! 2) = pub_octet D V \<and> the_bytes (os ! 3) = c \<and> the_bytes (os ! 4) = ecies_tag lib k2 c (the_bytes (Some p2)) n))) \<and>
     (\<forall>V c t s p1 p2 mcap. in_group D V \<longrightarrow> private_key D s \<longrightarrow> small (Some c) \<longrightarrow> oct_wf p1 \<longrightarrow> oct_wf p2 \<longrightarrow> 4 \<le> length t \<longrightarrow> length t \<le> 32 \<longrightarrow>
        0 \<le> mcap \<longrightarrow> mcap < 2 ^ 31 \<longrightarrow>
        (case ECIES_DECRYPT api SHA256 p1 p2 [Some (octet_of (pub_octet D V)), Some (octet_of c), Some (octet_of t), Some (octet_of s),
             Some (fresh_octet mcap)] of (rc, os) \<Rightarrow>
           (let (k1, k2) = ecies_keys D lib (the_bytes (Some p1)) V (ec_mul (dm_curve D) (be_nat s) V) in
             (case AES_CBC_IV0_DECRYPT lib k1 c of (ok, b) \<Rightarrow>
                if ok = 1 \<and> t = ecies_tag lib k2 c (the_bytes (Some p2)) (int (length t)) then rc = 1 \<and> (int (length b) \<le> mcap \<longrightarrow> the_bytes (os ! 4) = b) else rc = 0))))"

lemma blocks_length: "(\<And>i. length (f i) = 32) \<Longrightarrow> length (blocks n f) = n"
proof -
  assume f: "\<And>i. length (f i) = 32"
  have "length (concat (map f xs)) = 32 * length xs" for xs by (induction xs) (simp_all add: f)
  then show ?thesis by (simp add: blocks_def)
qed

lemma pub_octet_length:
  assumes D: "domain_ok D" and g: "in_group D P"
  shows "length (pub_octet D P) = 2 * dm_m D + 1"
proof -
  obtain x y where P: "P = Some (x, y)" using g by (auto simp: in_group_def)
  then have "0 \<le> x \<and> x < 256 ^ dm_m D \<and> 0 \<le> y \<and> y < 256 ^ dm_m D"
    using D g by (auto simp: domain_ok_def in_group_def in_order_def)
  then show ?thesis by (simp add: P pub_octet_def point_octet_def to_be_len)
qed

lemma aes_okD:
  assumes "support_ok lib" "length k = 16"
  shows "length (AES_CBC_IV0_ENCRYPT lib k p) = 16 * (length p div 16 + 1)" "AES_CBC_IV0_DECRYPT lib k (AES_CBC_IV0_ENCRYPT lib k p) = (1, p)"
    "length (snd (AES_CBC_IV0_DECRYPT lib k c)) \<le> length c"
  using assms by (simp_all add: support_ok_def)

lemma ecies_keys_length:
  assumes "support_ok lib" "ecies_keys D lib p1 V Z = (k1, k2)"
  shows "length k1 = 16"
proof -
  have "length (KDF2 lib SHA256 z (Some p1) 32) = 32" for z using assms(1) by (simp add: support_ok_def kdf2_def blocks_length)
  then show ?thesis using assms(2) by (auto simp: ecies_keys_def Let_def)
qed

lemma param_wf: "oct_wf paramP1" "oct_wf paramP2" "the_bytes (Some paramP2) = [0, 1, 2, 3]"
  using oct_wf_octet_of [of "Some [0, 1, 2]"] oct_wf_octet_of [of "Some [0, 1, 2, 3]"] the_bytes_octet_of [of "Some [0, 1, 2, 3]"]
  by (simp_all add: small_def paramP1_def paramP2_def)

lemma pad16_blocks: "pad16 n = 16 * (int n div 16 + 1)"
  by (simp add: pad16_def minus_mod_eq_mult_div [symmetric] distrib_left)

text \<open>What decryption of strings makes of a point, a ciphertext and a tag.\<close>

lemma ecies_decrypts:
  assumes core: "core_ok core" and api: "ecies_ok api" and D: "domain_ok D" "dm_m D = 32" and lib: "support_ok lib" "ecies_1363 D lib api"
    and s: "private_key D s" and V: "in_group D V" and k: "ecies_keys D lib (the_bytes (Some paramP1)) V (ec_mul (dm_curve D) (be_nat s) V) = (k1, k2)"
    and len: "length c < 2 ^ 29" "4 \<le> length t" "length t \<le> 32"
  shows "\<exists>mem'. Secp256k1Decrypt core api (hex_encode c) (hex_encode (pub_octet D V)) (hex_encode t) (hex_encode s) mem = Some
    (if fst (AES_CBC_IV0_DECRYPT lib k1 c) = 1 \<and> t = ecies_tag lib k2 c [0, 1, 2, 3] (int (length t)) then (string_of (snd (AES_CBC_IV0_DECRYPT lib k1 c)), None)
     else ('''', Some (Errorf ''Cannot decrypt cipherText'')), mem')"
proof -
  have sm: "int (length (hex_encode c)) < 2 ^ 31 - 16" "small (Some (pub_octet D V))" "small (Some t)" "small (Some s)" "small (Some c)"
    using len pub_octet_length [OF D(1) V] s D(2) by (simp_all add: small_def private_key_def)
  have "length (snd (AES_CBC_IV0_DECRYPT lib k1 c)) \<le> length c"
    by (rule aes_okD(3) [OF lib(1) ecies_keys_length [OF lib(1) k]])
  then have cap: "int (length (snd (AES_CBC_IV0_DECRYPT lib k1 c))) \<le> pad16 (2 * length c)" "0 \<le> pad16 (2 * length c)" "pad16 (2 * length c) < 2 ^ 31"
    using pad16_bounds [of "2 * length c"] len(1) by simp_all
  note dec = lib(2) [unfolded ecies_1363_def, THEN conjunct2, rule_format, OF V s sm(5) param_wf(1,2) len(2,3) cap(2,3)]
  obtain rc os where call: "ECIES_DECRYPT api 32 paramP1 paramP2 (decrypt_args c (pub_octet D V) t s) = (rc, os)" by (metis prod.exhaust)
  have "if fst (AES_CBC_IV0_DECRYPT lib k1 c) = 1 \<and> t = ecies_tag lib k2 c [0, 1, 2, 3] (int (length t))
      then rc = 1 \<and> the_bytes (os ! 4) = snd (AES_CBC_IV0_DECRYPT lib k1 c) else rc = 0"
    using dec call cap(1) by (cases "AES_CBC_IV0_DECRYPT lib k1 c") (simp add: decrypt_args_def SHA256_def k param_wf split: if_splits)
  then show ?thesis
    by (simp add: Secp256k1Decrypt_eq [OF core api hex_decode_encode hex_decode_encode hex_decode_encode hex_decode_encode sm(1-4)] call split: if_splits)
qed

text \<open>
  C32. The encryption of strings with secp256k1, from the primitives: with a key pair on a group of prime order and a
  library that follows IEEE 1363, a message is encrypted without an error, and there are two keys such that
  the ciphertext is the AES encryption of the message under the first and its tag the HMAC under the second; of all
  strings that may be sent with the same ephemeral point, \<open>Secp256k1Decrypt\<close> accepts those whose tag, of 4 to 32 bytes,
  is the one of the ciphertext, and returns what AES makes of it. So the message comes back, and no
  other ciphertext is accepted without its own tag.
\<close>

theorem secp256k1_encryption:
  assumes core: "core_ok core" and api: "ecies_ok api" and D: "domain_ok D" "dm_m D = 32" and lib: "support_ok lib" "ecies_1363 D lib api"
    and s: "private_key D s" and seed: "length seed = 32" and msg: "length msg < 2 ^ 29 - 64"
  shows "\<exists>k1 k2 V mem1. let c = AES_CBC_IV0_ENCRYPT lib k1 (bytes_of msg); tag = (\<lambda>c. ecies_tag lib k2 c [0, 1, 2, 3]) in
    Secp256k1Encrypt (Inr seed) core api msg (hex_encode (pub_octet D (public_point D s))) mem =
      Some ((hex_encode c, hex_encode V, hex_encode (tag c 12), None), mem1) \<and>
    (\<exists>mem2. Secp256k1Decrypt core api (hex_encode c) (hex_encode V) (hex_encode (tag c 12)) (hex_encode s) mem1 = Some ((msg, None), mem2)) \<and>
    (\<forall>c' t mem'. length c' < 2 ^ 29 \<longrightarrow> 4 \<le> length t \<longrightarrow> length t \<le> 32 \<longrightarrow>
      (\<exists>mem2. Secp256k1Decrypt core api (hex_encode c') (hex_encode V) (hex_encode t) (hex_encode s) mem' = Some
        (if fst (AES_CBC_IV0_DECRYPT lib k1 c') = 1 \<and> t = tag c' (int (length t)) then (string_of (snd (AES_CBC_IV0_DECRYPT lib k1 c')), None)
         else ('''', Some (Errorf ''Cannot decrypt cipherText'')), mem2)))"
proof -
  let ?C = "dm_curve D" and ?P = "public_point D s" and ?b = "bytes_of msg"
  note dm = domainD [OF D(1)]
  have P: "in_group D ?P" using private_key_mul [OF D(1) _ _ dm(8)] s by (simp add: public_point_def private_key_def)
  have sm: "small (Some seed)" "small (Some (pub_octet D ?P))" "small (Some ?b)" "int (length msg) < 2 ^ 31 - 16"
    using seed msg pub_octet_length [OF D(1) P] D(2) by (simp_all add: small_def)
  have cap: "16 * (int (length ?b) div 16 + 1) \<le> pad16 (length ?b)" "pad16 (length ?b) < 2 ^ 31"
    using pad16_bounds(3) [of "length ?b"] msg by (simp_all add: pad16_blocks)
  obtain R os1 where R: "CREATE_CSPRNG core csprng_zero [Some (octet_of seed)] = (R, os1)" by (metis prod.exhaust)
  obtain R' os where e: "ECIES_ENCRYPT api 32 paramP1 paramP2 (Some R) 12 (encrypt_args (pub_octet D ?P) ?b) = (R', os)" by (metis prod.exhaust)
  obtain u where u: "0 < u" "u < dm_r D" and *: "let V = ec_mul ?C u (dm_G D); Z = ec_mul ?C u ?P;
      (k1, k2) = ecies_keys D lib (the_bytes (Some paramP1)) V Z; c = AES_CBC_IV0_ENCRYPT lib k1 ?b in
      the_bytes (os ! 2) = pub_octet D V \<and> the_bytes (os ! 3) = c \<and> the_bytes (os ! 4) = ecies_tag lib k2 c (the_bytes (Some paramP2)) 12"
    using lib(2) [unfolded ecies_1363_def, THEN conjunct1, rule_format, OF P sm(3) param_wf(1,2), of 12 32 65 "pad16 (length ?b)" "Some R"] e cap D(2)
    by (auto simp: encrypt_args_def SHA256_def)
  let ?V = "ec_mul ?C u (dm_G D)"
  obtain k1 k2 where k: "ecies_keys D lib (the_bytes (Some paramP1)) ?V (ec_mul ?C (be_nat s) ?V) = (k1, k2)" by (metis prod.exhaust)
  have Z: "ec_mul ?C u ?P = ec_mul ?C (be_nat s) ?V" unfolding public_point_def by (rule ec_mul_commute [OF dm(1) in_order_on [OF dm(3)]])
  have V: "in_group D ?V" by (rule private_key_mul [OF D(1) u dm(8)])
  let ?c = "AES_CBC_IV0_ENCRYPT lib k1 ?b"
  let ?t = "ecies_tag lib k2 ?c [0, 1, 2, 3] 12"
  have o: "the_bytes (os ! 2) = pub_octet D ?V" "the_bytes (os ! 3) = ?c" "the_bytes (os ! 4) = ?t" using * by (simp_all add: Z k param_wf Let_def)
  note dec = ecies_decrypts [OF core api D lib s V k]
  have aes: "AES_CBC_IV0_DECRYPT lib k1 ?c = (1, ?b)" "length ?c < 2 ^ 29" "length ?t = 12"
    using aes_okD [OF lib(1) ecies_keys_length [OF lib(1) k]] lib(1) msg by (auto simp: support_ok_def ecies_tag_def)
  have rt: "\<exists>mem2. Secp256k1Decrypt core api (hex_encode ?c) (hex_encode (pub_octet D ?V)) (hex_encode ?t) (hex_encode s) mem1 = Some ((msg, None), mem2)" for mem1
    using dec [OF aes(2), of ?t mem1] aes(1,3) by simp
  show ?thesis
    using Secp256k1Encrypt_eq [OF core api sm(1) hex_decode_encode sm(2,4), of mem] R e o rt dec
    by (intro exI [of _ k1] exI [of _ k2] exI [of _ "pub_octet D ?V"]) (auto simp: Let_def)
qed

section \<open>The two headers\<close>

text \<open>The domain parameters of a library with the documented functions of \<open>Ecp\<close>, and the declarations of the second header.\<close>

lemma rom_domain_ok:
  assumes g: "ec_group (rom_curve f p rom)" and ok: "ecp_ok f p rom vf fp vp api" and r: "prime_order (order f rom)"
    and p: "0 < p" "p \<le> 256 ^ fp_bytes f" and o: "order f rom \<le> 256 ^ fp_bytes f"
  shows "domain_ok (rom_domain f p rom)"
proof -
  have G: "is_ecp f vp api (Some (bigv f (CURVE_Gx rom), bigv f (CURVE_Gy rom))) (ECP_generator api)"
    using ok by (simp add: ecp_ok_def Let_def)
  have "0 \<le> x \<and> x < 256 ^ fp_bytes f \<and> 0 \<le> y \<and> y < 256 ^ fp_bytes f" if "on_curve (rom_curve f p rom) (Some (x, y))" for x y
  proof -
    have "x mod p = x" "y mod p = y" using that by (simp_all add: rom_curve_def g1_curve_def red1_def)
    then show ?thesis using p pos_mod_sign [of p x] pos_mod_bound [of p x] pos_mod_sign [of p y] pos_mod_bound [of p y] by simp
  qed
  moreover have "in_order (rom_curve f p rom) (order f rom) (Some (bigv f (CURVE_Gx rom), bigv f (CURVE_Gy rom)))"
    using ecp_generatorD(2) [OF ok] ecp_curve [OF ok is_ecpD(1) [OF G]] is_ecpD(2) [OF G] by (simp add: in_order_def)
  ultimately show ?thesis using g r o by (simp add: domain_ok_def rom_domain_def del: on_curve.simps)
qed

(* crypto/include/ecdh_BLS381.h:54-80 ECP_BLS381_KEY_PAIR_GENERATE, ECP_BLS381_PUBLIC_KEY_VALIDATE, ECP_BLS381_SVDP_DH *)
definition ecdh_ok_BLS381 :: "int \<Rightarrow> ecp_rom \<Rightarrow> ecdh_api \<Rightarrow> bool" where
  "ecdh_ok_BLS381 p rom api \<longleftrightarrow> ecdh_ok (rom_domain BLS381 p rom) api"

(* crypto/include/ecdh_BLS381.h:85-118 ECP_BLS381_ECIES_ENCRYPT, ECP_BLS381_ECIES_DECRYPT *)
definition ecies_ok_BLS381 :: "int \<Rightarrow> ecp_rom \<Rightarrow> ecdh_support_api \<Rightarrow> ecies_api \<Rightarrow> bool" where
  "ecies_ok_BLS381 p rom lib api \<longleftrightarrow> ecies_ok api \<and> ecies_1363 (rom_domain BLS381 p rom) lib api"

(* crypto/include/ecdh_BLS381.h:120-142 ECP_BLS381_SP_DSA, ECP_BLS381_VP_DSA *)
definition dsa_ok_BLS381 :: "int \<Rightarrow> ecp_rom \<Rightarrow> ecdh_support_api \<Rightarrow> dsa_api \<Rightarrow> bool" where
  "dsa_ok_BLS381 p rom lib api \<longleftrightarrow> dsa_ok (rom_domain BLS381 p rom) lib api"

section \<open>A library over the group of order seven\<close>

definition D7 :: ec_domain where
  "D7 = \<lparr>dm_curve = C7, dm_r = 7, dm_G = pt7 1, dm_m = 32\<rparr>"

definition dec7 :: "bytes \<Rightarrow> int point" where
  "dec7 W = (case find (\<lambda>P. pub_octet D7 P = W) (tl seven_points) of None \<Rightarrow> None | Some P \<Rightarrow> P)"

definition support7 :: ecdh_support_api where
  "support7 = \<lparr>ehashit = \<lambda>h p n x pad. sha256_sum (slice_bytes p @ to_be 4 n @ slice_bytes x), HASH = \<lambda>h m. sha256_sum m,
     HMAC = \<lambda>h m k len. (1, take (nat len) (hmac_sha256 k m)), KDF2 = \<lambda>h z p len. kdf2 z (slice_bytes p) (nat len),
     PBKDF2 = \<lambda>h p s rep len. pbkdf2 p s (nat rep) (nat len),
     AES_CBC_IV0_ENCRYPT = \<lambda>k p. (let n = 16 - length p mod 16 in p @ replicate n (of_nat n)),
     AES_CBC_IV0_DECRYPT = \<lambda>k c. (1, take (length c - unat (last c)) c)\<rparr>"

lemma support7_ok: "support_ok support7"
proof -
  have l: "last (p @ replicate n x) = x" "unat (word_of_nat n :: byte) = n" if "0 < n" "n \<le> 16" for n p and x :: byte
    using that by (simp_all add: unat_of_nat)
  have "length p + (16 - length p mod 16) = 16 * (length p div 16 + 1)" for p :: bytes
    using mod_less_divisor [of 16 "length p"] by (simp add: minus_mod_eq_mult_div [symmetric]) 
  then show ?thesis using l [of "16 - length p mod 16" for p :: bytes] by (auto simp: support_ok_def support7_def Let_def)
qed

lemma dec7: "in_group D7 P \<Longrightarrow> dec7 (pub_octet D7 P) = P" "\<not> in_group D7 (dec7 W) \<Longrightarrow> dec7 W = None"
proof -
  have t: "list_all (\<lambda>P. dec7 (pub_octet D7 P) = P) (tl seven_points)" by code_simp
  have g: "in_group D7 P \<longleftrightarrow> P \<in> set (tl seven_points)" for P
    by (auto simp: in_group_def D7_def C7_order on_C7 seven_points_def)
  show "in_group D7 P \<Longrightarrow> dec7 (pub_octet D7 P) = P" using t by (simp add: g list_all_iff)
  have "dec7 W = None \<or> dec7 W \<in> set (tl seven_points)"
  proof (cases "find (\<lambda>P. pub_octet D7 P = W) (tl seven_points)")
    case (Some P)
    then have "P \<in> set (tl seven_points)" by (auto simp: find_Some_iff)
    then show ?thesis using Some by (simp add: dec7_def)
  qed (simp add: dec7_def)
  then show "\<not> in_group D7 (dec7 W) \<Longrightarrow> dec7 W = None" by (auto simp: g)
qed

lemma C7_box: "on_curve C7 (Some (x, y)) \<Longrightarrow> 0 \<le> x \<and> x < 256 ^ 32 \<and> 0 \<le> y \<and> y < 256 ^ 32"
  unfolding on_C7 by (auto simp: seven_points_def)

lemma D7_ok: "domain_ok D7"
proof -
  have "pt7 1 \<noteq> None" "on_curve C7 (pt7 1)" by code_simp+
  then show ?thesis using C7_group C7_order C7_box by (simp add: domain_ok_def D7_def del: on_curve.simps)
qed

definition ecdh7 :: ecdh_api where
  "ecdh7 = \<lparr>
     KEY_PAIR_GENERATE = \<lambda>R s. (let s' = if R = None then s else to_be 32 1 in ((0, R), s', pub_octet D7 (public_point D7 s'))),
     PUBLIC_KEY_VALIDATE = \<lambda>W. if dec7 W = None then ECDH_INVALID_PUBLIC_KEY else ECDH_OK,
     SVDP_DH = \<lambda>s W. (0, x_octet D7 (ec_mul C7 (be_nat s) (dec7 W)))\<rparr>"

text \<open>The nonce 2 or, where it gives no signature, 3.\<close>

definition nonce7 :: "int \<Rightarrow> int \<Rightarrow> nat" where
  "nonce7 f s = (if (f + s) mod 7 = 0 then 3 else 2)"

definition dsa7 :: dsa_api where
  "dsa7 = \<lparr>
     SP_DSA = \<lambda>h R k s m. (let f = digest D7 support7 h m; n = if R = None then be_nat k else nonce7 f (int (be_nat s)) in
       (case dsa_sign D7 f (int (be_nat s)) n of (c, d) \<Rightarrow> ((0, R), to_be 32 c, to_be 32 d))),
     VP_DSA = \<lambda>h W m c d. if dsa_verify D7 (digest D7 support7 h m) (dec7 W) (int (be_nat c)) (int (be_nat d)) then ECDH_OK else ECDH_INVALID\<rparr>"

lemma ecdh7_ok: "ecdh_ok D7 ecdh7"
proof -
  have k: "private_key D7 (to_be 32 1)" by (simp add: private_key_def D7_def to_be_len)
  have inv: "dec7 (pub_octet D7 (Some (x, y))) = None"
    if "0 \<le> x" "x < 256 ^ dm_m D7" "0 \<le> y" "y < 256 ^ dm_m D7" "\<not> in_group D7 (Some (x, y))" for x y
  proof (rule ccontr)
    assume n: "dec7 (pub_octet D7 (Some (x, y))) \<noteq> None"
    then obtain x' y' where P: "dec7 (pub_octet D7 (Some (x, y))) = Some (x', y')" by auto
    then have g: "in_group D7 (Some (x', y'))" using dec7(2) [of "pub_octet D7 (Some (x, y))"] by auto
    have "pub_octet D7 (Some (x', y')) = pub_octet D7 (Some (x, y))"
      using P by (auto simp: dec7_def find_Some_iff split: option.splits)
    moreover have "0 \<le> x' \<and> x' < 256 ^ 32 \<and> 0 \<le> y' \<and> y' < 256 ^ 32"
      using g by (intro C7_box) (simp add: in_group_def in_order_def D7_def del: on_curve.simps)
    ultimately have "x' = x \<and> y' = y"
      using that by (auto simp: pub_octet_def point_octet_def D7_def to_be_len dest!: to_be_inj)
    then show False using g that(5) by simp
  qed
  show ?thesis
    unfolding ecdh_ok_def
    using k inv dec7(1) by (simp add: ecdh7_def Let_def ECDH_OK_def) (auto simp: in_group_def D7_def)
qed

lemma nonce7_signs:
  assumes s: "0 < s" "s < 7" and e: "dsa_sign D7 f s (nonce7 f s) = (c, d)"
  shows "0 < c" "c < 7" "0 < d" "d < 7"
proof -
  have t: "fst (the (ec_mul C7 2 (pt7 1))) = 1" "fst (the (ec_mul C7 3 (pt7 1))) = 2" "order_inv 7 2 = 4" "order_inv 7 3 = 5" by code_simp+
  have c: "c = (if (f + s) mod 7 = 0 then 2 else 1)" "d = (if (f + s) mod 7 = 0 then 5 * (f + s * 2) mod 7 else 4 * (f + s) mod 7)"
    using e by (auto simp: dsa_sign_def nonce7_def D7_def t Let_def simp del: ec_mul.simps One_nat_def)
  have "(5 * (f + s * 2)) mod 7 \<noteq> 0" if "(f + s) mod 7 = 0" using that s by presburger
  moreover have "(4 * (f + s)) mod 7 \<noteq> 0" if "(f + s) mod 7 \<noteq> 0" using that by presburger
  moreover have "0 \<le> x mod 7 \<and> x mod 7 < 7" for x :: int by simp
  ultimately show "0 < c" "c < 7" "0 < d" "d < 7" unfolding c by (auto simp: less_le)
qed

lemma dsa7_ok: "dsa_ok D7 support7 dsa7"
  unfolding dsa_ok_def
proof (intro conjI allI impI)
  fix k s m c d assume s: "private_key D7 s" and w: "signs_with D7 (digest D7 support7 SHA256 m) (int (be_nat s)) k c d"
  have "to_be 32 (int (be_nat c)) = c" "to_be 32 (int (be_nat d)) = d"
    using w be_nat_less [of c] be_nat_less [of d] by (intro be_nat_inj; simp add: signs_with_def D7_def to_be_len)+
  then show "SP_DSA dsa7 SHA256 None k s m = ((ECDH_OK, None), c, d)"
    using w by (simp add: dsa7_def signs_with_def Let_def ECDH_OK_def)
next
  fix R k s m assume s: "private_key D7 s"
  let ?f = "digest D7 support7 SHA256 m" and ?s = "int (be_nat s)"
  obtain c d where e: "dsa_sign D7 ?f ?s (nonce7 ?f ?s) = (c, d)" by (metis prod.exhaust)
  have "0 < ?s" "?s < 7" using s by (simp_all add: private_key_def D7_def)
  note n = nonce7_signs [OF this e]
  have "signs_with D7 ?f ?s (to_be 32 (int (nonce7 ?f ?s))) (to_be 32 c) (to_be 32 d)"
    using n e by (simp add: signs_with_def private_key_def to_be_len D7_def) (simp add: nonce7_def to_be_len)
  then show "case SP_DSA dsa7 SHA256 (Some R) k s m of ((code, R'), c, d) \<Rightarrow>
      code = ECDH_OK \<and> R' \<noteq> None \<and> (\<exists>k'. signs_with D7 ?f ?s k' c d)"
    by (auto simp: dsa7_def e Let_def ECDH_OK_def)
next
  fix P m and c d :: bytes assume "in_group D7 P" "length c = dm_m D7" "length d = dm_m D7"
  then show "VP_DSA dsa7 SHA256 (pub_octet D7 P) m c d =
      (if dsa_verify D7 (digest D7 support7 SHA256 m) P (int (be_nat c)) (int (be_nat d)) then ECDH_OK else ECDH_INVALID)"
    by (simp add: dsa7_def dec7(1))
qed

theorem ecdh_agreement_witness:
  "SVDP_DH ecdh7 (to_be 32 2) (pub_octet D7 (pt7 3)) = SVDP_DH ecdh7 (to_be 32 3) (pub_octet D7 (pt7 2))"
proof -
  have k: "private_key D7 (to_be 32 2)" "private_key D7 (to_be 32 3)" by (simp_all add: private_key_def D7_def to_be_len)
  have e: "KEY_PAIR_GENERATE ecdh7 None (to_be 32 2) = ((0, None), to_be 32 2, pub_octet D7 (pt7 2))"
    "KEY_PAIR_GENERATE ecdh7 None (to_be 32 3) = ((0, None), to_be 32 3, pub_octet D7 (pt7 3))"
    by (simp_all add: ecdh7_def public_point_def D7_def pt7_mul del: ec_mul.simps)
  show ?thesis using ecdh_agreement [OF D7_ok ecdh7_ok e(1) _ e(2)] k by simp
qed


definition ecies7 :: ecies_api where
  "ecies7 = \<lparr>
     ECIES_ENCRYPT = \<lambda>h p1 p2 R n os. (case ecies_keys D7 support7 (the_bytes (Some p1)) (pt7 1) (dec7 (oct_arg os 0)) of (k1, k2) \<Rightarrow>
       (let c = AES_CBC_IV0_ENCRYPT support7 k1 (oct_arg os 1) in
         (R, os[2 := put (pub_octet D7 (pt7 1)) (os ! 2), 3 := put c (os ! 3), 4 := put (ecies_tag support7 k2 c (the_bytes (Some p2)) n) (os ! 4)]))),
     ECIES_DECRYPT = \<lambda>h p1 p2 os. (let V = dec7 (oct_arg os 0); c = oct_arg os 1; t = oct_arg os 2 in
       (case ecies_keys D7 support7 (the_bytes (Some p1)) V (ec_mul C7 (be_nat (oct_arg os 3)) V) of (k1, k2) \<Rightarrow>
         (case AES_CBC_IV0_DECRYPT support7 k1 c of (ok, b) \<Rightarrow>
           (if ok = 1 \<and> t = ecies_tag support7 k2 c (the_bytes (Some p2)) (int (length t)) then 1 else 0, os[4 := put b (os ! 4)]))))\<rparr>"

lemma ecies7_ok: "ecies_ok ecies7"
proof -
  have "cfun_ok (\<lambda>os. case ecies_keys D7 support7 (the_bytes (Some p1)) (pt7 1) (dec7 (oct_arg os 0)) of (k1, k2) \<Rightarrow>
       (let c = AES_CBC_IV0_ENCRYPT support7 k1 (oct_arg os 1) in
         (R, os[2 := put (pub_octet D7 (pt7 1)) (os ! 2), 3 := put c (os ! 3), 4 := put (ecies_tag support7 k2 c (the_bytes (Some p2)) n) (os ! 4)])))"
    for p1 p2 n and R :: "csprng option"
    by (simp only: case_prod_beta Let_def cfun_ok_put3)
  moreover have "cfun_ok (\<lambda>os. let V = dec7 (oct_arg os 0); c = oct_arg os 1; t = oct_arg os 2 in
       (case ecies_keys D7 support7 (the_bytes (Some p1)) V (ec_mul C7 (be_nat (oct_arg os 3)) V) of (k1, k2) \<Rightarrow>
         (case AES_CBC_IV0_DECRYPT support7 k1 c of (ok, b) \<Rightarrow>
           (if ok = 1 \<and> t = ecies_tag support7 k2 c (the_bytes (Some p2)) (int (length t)) then 1 else (0 :: int), os[4 := put b (os ! 4)]))))" for p1 p2
    by (simp only: case_prod_beta Let_def cfun_ok_put)
  ultimately show ?thesis by (simp add: ecies_ok_def ecies7_def)
qed

lemma put_room: "int (length b) \<le> n \<Longrightarrow> n < 2 ^ 31 \<Longrightarrow> the_bytes (put b (Some (fresh_octet n))) = b"
  using oct_wf_fresh [of n] by (intro the_bytes_put) (simp_all add: fresh_octet_def cint_id)

lemma ecies7_1363: "ecies_1363 D7 support7 ecies7"
  unfolding ecies_1363_def
proof (intro conjI allI impI)
  fix P b R p1 p2 and n vcap ccap tcap :: int
  assume P: "in_group D7 P" and b: "small (Some b)" and n: "4 \<le> n" "n \<le> tcap" "n \<le> 32" and cap: "2 * int (dm_m D7) + 1 \<le> vcap"
    "16 * (int (length b) div 16 + 1) \<le> ccap" "vcap < 2 ^ 31" "ccap < 2 ^ 31" "tcap < 2 ^ 31"
  let ?V = "ec_mul (dm_curve D7) 1 (dm_G D7)"
  have G: "?V = pt7 1" "ec_mul (dm_curve D7) 1 P = P" "in_group D7 (pt7 1)" using domainD(8) [OF D7_ok] by (simp_all add: D7_def)
  have l: "length (pub_octet D7 Q) = 65" if "in_group D7 Q" for Q using pub_octet_length [OF D7_ok that] by (simp add: D7_def)
  obtain k1 k2 where k: "ecies_keys D7 support7 (the_bytes (Some p1)) (pt7 1) P = (k1, k2)" by (metis prod.exhaust)
  let ?c = "AES_CBC_IV0_ENCRYPT support7 k1 b"
  have c: "int (length ?c) \<le> ccap" using aes_okD(1) [OF support7_ok ecies_keys_length [OF support7_ok k], of b] cap(2) by (simp add: zdiv_int)
  have t: "int (length (ecies_tag support7 k2 ?c (the_bytes (Some p2)) n)) \<le> tcap" using n by (simp add: ecies_tag_def support7_def)
  have r: "1 < dm_r D7" by (simp add: D7_def)
  have v: "65 \<le> vcap" using cap(1) by (simp add: D7_def)
  have a: "the_bytes (Some (octet_of (pub_octet D7 P))) = pub_octet D7 P" using l [OF P] by (intro arg_oct) (simp add: small_def)
  have "case ECIES_ENCRYPT ecies7 SHA256 p1 p2 R n [Some (octet_of (pub_octet D7 P)), Some (octet_of b), Some (fresh_octet vcap),
      Some (fresh_octet ccap), Some (fresh_octet tcap)] of (R', os) \<Rightarrow>
      the_bytes (os ! 2) = pub_octet D7 (pt7 1) \<and> the_bytes (os ! 3) = ?c \<and> the_bytes (os ! 4) = ecies_tag support7 k2 ?c (the_bytes (Some p2)) n"
    using l [OF G(3)] v cap(3-5) c t by (simp add: ecies7_def a arg_oct [OF b] dec7(1) [OF P] k [unfolded One_nat_def] put_room Let_def)
  then show "case ECIES_ENCRYPT ecies7 SHA256 p1 p2 R n [Some (octet_of (pub_octet D7 P)), Some (octet_of b), Some (fresh_octet vcap),
      Some (fresh_octet ccap), Some (fresh_octet tcap)] of (R', os) \<Rightarrow>
      \<exists>u. 0 < u \<and> u < dm_r D7 \<and> (let V = ec_mul (dm_curve D7) u (dm_G D7); Z = ec_mul (dm_curve D7) u P;
        (k1, k2) = ecies_keys D7 support7 (the_bytes (Some p1)) V Z; c = AES_CBC_IV0_ENCRYPT support7 k1 b in
        the_bytes (os ! 2) = pub_octet D7 V \<and> the_bytes (os ! 3) = c \<and> the_bytes (os ! 4) = ecies_tag support7 k2 c (the_bytes (Some p2)) n)"
    unfolding case_prod_beta by (intro exI [of _ 1]) (simp add: G [unfolded One_nat_def] k [unfolded One_nat_def] r [unfolded One_nat_def] Let_def del: ec_mul.simps)
next
  fix V p1 p2 and c t s :: bytes and mcap :: int
  assume V: "in_group D7 V" and s: "private_key D7 s" and c: "small (Some c)" and t: "4 \<le> length t" "length t \<le> 32" and cap: "0 \<le> mcap" "mcap < 2 ^ 31"
  have sm: "small (Some (pub_octet D7 V))" "small (Some t)" "small (Some s)"
    using pub_octet_length [OF D7_ok V] t s by (simp_all add: small_def D7_def private_key_def)
  obtain k1 k2 where k: "ecies_keys D7 support7 (the_bytes (Some p1)) V (ec_mul C7 (be_nat s) V) = (k1, k2)" by (metis prod.exhaust)
  obtain ok b where d: "AES_CBC_IV0_DECRYPT support7 k1 c = (ok, b)" by (metis prod.exhaust)
  have g: "dm_curve D7 = C7" by (simp add: D7_def)
  show "case ECIES_DECRYPT ecies7 SHA256 p1 p2 [Some (octet_of (pub_octet D7 V)), Some (octet_of c), Some (octet_of t), Some (octet_of s),
      Some (fresh_octet mcap)] of (rc, os) \<Rightarrow>
      (let (k1, k2) = ecies_keys D7 support7 (the_bytes (Some p1)) V (ec_mul (dm_curve D7) (be_nat s) V) in
        (case AES_CBC_IV0_DECRYPT support7 k1 c of (ok, b) \<Rightarrow>
          if ok = 1 \<and> t = ecies_tag support7 k2 c (the_bytes (Some p2)) (int (length t)) then rc = 1 \<and> (int (length b) \<le> mcap \<longrightarrow> the_bytes (os ! 4) = b) else rc = 0))"
    using put_room [of b mcap] cap
    by (simp add: ecies7_def arg_oct [OF sm(1)] arg_oct [OF sm(2)] arg_oct [OF sm(3)] arg_oct [OF c] dec7(1) [OF V] g k d Let_def del: ec_mul.simps)
qed

theorem secp256k1_encryption_witness:
  "\<exists>C V T mem1 mem2. Secp256k1Encrypt (Inr (replicate 32 7)) idle_core ecies7 ''hello'' (hex_encode (pub_octet D7 (public_point D7 (to_be 32 3)))) [] =
      Some ((C, V, T, None), mem1) \<and> Secp256k1Decrypt idle_core ecies7 C V T (hex_encode (to_be 32 3)) mem1 = Some ((''hello'', None), mem2)"
proof -
  have "private_key D7 (to_be 32 3)" "dm_m D7 = 32" by (simp_all add: private_key_def D7_def to_be_len)
  from secp256k1_encryption [OF idle_core_ok ecies7_ok D7_ok this(2) support7_ok ecies7_1363 this(1), of "replicate 32 7" "''hello''" "[]"]
  show ?thesis by (simp add: Let_def) blast
qed

end
