(* ===== verification/Defs.thy ===== *)
theory Defs
  imports Golib Bls Sha256
begin

text \<open>
  \<open>internal/defs\<close>, \<open>internal/api/defs.go\<close> and \<open>internal/util/crypto.go\<close>: the data every component
  of the service shares, its API errors, the URLs of the Qredo API, the request signature and the
  generation of an agent's keys.
\<close>

section \<open>defs.go, action_info.go and api/defs.go\<close>

(* internal/defs/defs.go:3-5 RequestContext *)
record RequestContext =
  TraceID :: string

(* internal/defs/defs.go:7-8 MethodWebsocket *)
definition MethodWebsocket :: string where "MethodWebsocket = ''WEBSOCKET''"
(* internal/defs/defs.go:9 PathPrefix *)
definition PathPrefix :: string where "PathPrefix = ''/api/v2''"
(* internal/defs/defs.go:10 EmptyString *)
definition EmptyString :: string where "EmptyString = []"
(* internal/defs/defs.go:11-12 StatusPending *)
definition StatusPending :: int where "StatusPending = 1"

(* internal/defs/defs.go:14-22 ConnectionState *)
datatype conn_state = Closed | Open | Connecting

(* internal/defs/action_info.go:7-12 ActionInfo *)
record ActionInfo =
  ai_ID :: string
  ai_Status :: int
  ai_Messages :: "bytes list"
  ai_ExpireTime :: int

(* internal/defs/action_info.go:14-16 ActionInfo.IsExpired *)
definition IsExpired :: "int \<Rightarrow> ActionInfo \<Rightarrow> bool" where
  "IsExpired now a \<longleftrightarrow> ai_ExpireTime a \<le> Unix now"

(* internal/api/defs.go:3-7 AgentRegisterRequest *)
record AgentRegisterRequest =
  arr_APIKeyID :: string
  arr_Secret :: string
  arr_WorkspaceID :: string

(* internal/api/defs.go:13-17 GetAgentDetailsResponse *)
record GetAgentDetailsResponse =
  gad_Name :: string
  gad_AgentID :: string
  gad_FeedURL :: string

(* internal/api/defs.go:9-11 AgentRegisterResponse *)
type_synonym AgentRegisterResponse = GetAgentDetailsResponse

(* internal/api/defs.go:19-22 ActionResponse *)
record ActionResponse =
  ar_ActionID :: string
  ar_Status :: string

(* internal/api/defs.go:24-28 WebsocketStatus *)
record WebsocketStatus =
  ws_ReadyState :: conn_state
  ws_RemoteFeedUrl :: string
  ws_ConnectedClients :: "32 word"

(* internal/api/defs.go:30-33 HealthCheckStatusResponse *)
record HealthCheckStatusResponse =
  hc_WebsocketStatus :: WebsocketStatus
  hc_LocalFeedUrl :: string

(* internal/api/defs.go:35-39 Version *)
record Version =
  BuildVersion :: string
  BuildType :: string
  BuildDate :: string

section \<open>errors.go\<close>

(* internal/defs/errors.go:10 ErrKVNotFound *)
definition ErrKVNotFound :: gerr where "ErrKVNotFound = KVNotFound"

(* internal/defs/errors.go:12 ErrNotFound *)
definition ErrNotFound :: gerr where "ErrNotFound = ApiError 404 [] None"
(* internal/defs/errors.go:13 ErrBadRequest *)
definition ErrBadRequest :: gerr where "ErrBadRequest = ApiError 400 [] None"
(* internal/defs/errors.go:14 ErrForbidden *)
definition ErrForbidden :: gerr where "ErrForbidden = ApiError 403 [] None"
(* internal/defs/errors.go:15 ErrInternal *)
definition ErrInternal :: gerr where "ErrInternal = ApiError 500 [] None"

text \<open>\<open>http.StatusText\<close> of the codes the program uses.\<close>

definition StatusText :: "nat \<Rightarrow> string" where
  "StatusText c =
     (if c = 200 then ''OK'' else if c = 400 then ''Bad Request'' else if c = 403 then ''Forbidden''
      else if c = 404 then ''Not Found'' else if c = 500 then ''Internal Server Error'' else [])"

text \<open>The text of an error of another type than \<open>APIError\<close> is a parameter.\<close>

(* internal/defs/errors.go:23-31 APIError.Error *)
fun APIError_Error :: "(gerr \<Rightarrow> string) \<Rightarrow> gerr \<Rightarrow> string" where
  "APIError_Error text (ApiError code detail (Some w)) = StatusText code @ '': '' @ APIError_Error text w"
| "APIError_Error text (ApiError code detail None) = StatusText code"
| "APIError_Error text e = text e"

(* internal/defs/errors.go:33-36 APIError.Wrap *)
fun APIError_Wrap :: "gerr \<Rightarrow> gerr \<Rightarrow> gerr" where
  "APIError_Wrap err (ApiError code detail w) = ApiError code detail (Some err)"
| "APIError_Wrap err e = e"

(* internal/defs/errors.go:62-65 APIError.WithDetail *)
fun WithDetail :: "string \<Rightarrow> gerr \<Rightarrow> gerr" where
  "WithDetail d (ApiError code detail w) = ApiError code d w"
| "WithDetail d e = e"

(* internal/defs/errors.go:42-44 APIError.Code *)
fun APIError_Code :: "gerr \<Rightarrow> nat" where
  "APIError_Code (ApiError code detail w) = code"
| "APIError_Code e = 0"

(* internal/defs/errors.go:38-40 APIError.APIError *)
fun APIError_fields :: "gerr \<Rightarrow> nat \<times> string" where
  "APIError_fields (ApiError code detail w) = (code, detail)"
| "APIError_fields e = (0, [])"

text \<open>The two fields of the JSON object; its encoding is that of \<open>encoding/json\<close>.\<close>

(* internal/defs/errors.go:46-60 APIError.JSON *)
fun APIError_JSON :: "(gerr \<Rightarrow> string) \<Rightarrow> gerr \<Rightarrow> nat \<times> string" where
  "APIError_JSON text (ApiError code detail w) =
     (code, if detail = [] then (case w of None \<Rightarrow> detail | Some err \<Rightarrow> APIError_Error text err) else detail)"
| "APIError_JSON text e = (0, [])"

(* internal/defs/errors.go:67-69 APIError.Unwrap *)
fun APIError_Unwrap :: "gerr \<Rightarrow> gerr option" where
  "APIError_Unwrap (ApiError code detail w) = w"
| "APIError_Unwrap e = None"

(* internal/defs/errors.go:71-76 APIError.Is *)
fun APIError_Is :: "gerr \<Rightarrow> bool" where
  "APIError_Is (ApiError code detail w) = True"
| "APIError_Is e = False"

text \<open>
  \<open>errors.As(err, &apiErr)\<close> with a target of type \<open>**APIError\<close>: the first error of the chain that is
  an \<open>*APIError\<close>. The method \<open>As\<close> of \<open>APIError\<close> tests its argument, a \<open>**APIError\<close>, for the type
  \<open>*APIError\<close> and so never succeeds. Only \<open>errors.Wrap\<close> keeps the error it wraps; the errors made by
  \<open>fmt.Errorf\<close> with \<open>%v\<close> do not.
\<close>

(* internal/defs/errors.go:78-83 APIError.As *)
fun errors_As :: "gerr \<Rightarrow> gerr option" where
  "errors_As (ApiError code detail w) = Some (ApiError code detail w)"
| "errors_As (Wrapf f e) = errors_As e"
| "errors_As e = None"

section \<open>urls.go\<close>

(* internal/defs/urls.go:7-9 URLAPIKey *)
definition URLAPIKey :: "string \<Rightarrow> string \<Rightarrow> string \<Rightarrow> string" where
  "URLAPIKey baseURL workspaceID APIkeyID = baseURL @ ''/workspaces/'' @ workspaceID @ ''/apikeys/'' @ APIkeyID"

(* internal/defs/urls.go:11-13 URLToken *)
definition URLToken :: "string \<Rightarrow> string \<Rightarrow> string" where
  "URLToken baseURL workspaceID = baseURL @ ''/workspaces/'' @ workspaceID @ ''/token''"

(* internal/defs/urls.go:15-17 URLTokenRefresh *)
definition URLTokenRefresh :: "string \<Rightarrow> string \<Rightarrow> string" where
  "URLTokenRefresh baseURL workspaceID = baseURL @ ''/workspaces/'' @ workspaceID @ ''/token/refresh''"

(* internal/defs/urls.go:19-21 URLAction *)
definition URLAction :: "string \<Rightarrow> string \<Rightarrow> string" where
  "URLAction baseURL actionID = baseURL @ ''/actions/'' @ actionID"

(* internal/defs/urls.go:23-25 URLlocalFeed *)
definition URLlocalFeed :: "string \<Rightarrow> string" where
  "URLlocalFeed httpAddr = ''ws://'' @ httpAddr @ PathPrefix @ ''/client/feed''"

section \<open>keys_generator.go\<close>

text \<open>\<open>hash.Hash.Write\<close> appends to the message and never fails.\<close>

definition mac_write :: "bytes \<Rightarrow> bytes \<Rightarrow> bytes res" where
  "mac_write b m = Inr (m @ b)"

(* internal/defs/keys_generator.go:14-33 HmacSum *)
definition HmacSum :: "string \<Rightarrow> string \<Rightarrow> string \<Rightarrow> slice \<Rightarrow> slice \<Rightarrow> bytes res" where
  "HmacSum timestamp method url secret body =
     (case mac_write (bytes_of timestamp) [] of Inl e \<Rightarrow> Inl e | Inr mac \<Rightarrow>
      (case mac_write (bytes_of method) mac of Inl e \<Rightarrow> Inl e | Inr mac \<Rightarrow>
      (case mac_write (bytes_of url) mac of Inl e \<Rightarrow> Inl e | Inr mac \<Rightarrow>
      (case mac_write (slice_bytes body) mac of Inl e \<Rightarrow> Inl e | Inr mac \<Rightarrow>
        Inr (hmac_sha256 (slice_bytes secret) mac)))))"

text \<open>
  What \<open>crypto/rand\<close> delivers is an argument: the bytes, or the error of the operating system.
\<close>

(* internal/defs/keys_generator.go:54-59 randomBytes *)
definition randomBytes :: "(nat \<Rightarrow> bytes res) \<Rightarrow> nat \<Rightarrow> bytes res" where
  "randomBytes rd n = rd n"

(* internal/defs/keys_generator.go:61-63 encode *)
definition encode :: "bytes \<Rightarrow> string" where
  "encode b = std_encode b"

text \<open>
  \<open>btcec\<close> makes of 32 bytes a private key on secp256k1 and its public key, here in the form of
  \<open>Serialize\<close> and \<open>SerializeUncompressed\<close>. The order of the results is that of the code: BLS public,
  BLS private, EC public, EC private.
\<close>

(* internal/defs/keys_generator.go:35-52 GenerateKeys *)
definition GenerateKeys :: "core_api \<Rightarrow> bls_api \<Rightarrow> (bytes \<Rightarrow> bytes \<times> bytes) \<Rightarrow> (nat \<Rightarrow> bytes res) \<Rightarrow> cmem
    \<Rightarrow> ((string \<times> string \<times> string \<times> string) res \<times> cmem) option" where
  "GenerateKeys core api btcec rd mem =
     (case randomBytes rd 48 of
        Inl err \<Rightarrow> Some (Inl (Errorf ''failed to generate seed, err: %v''), mem)
      | Inr seed \<Rightarrow> do {
          (rand, mem) \<leftarrow> NewRand core (Some seed) mem;
          ((blsPublic, blsPriv, err), _, mem) \<leftarrow> BLSKeys core api rand None mem;
          if err \<noteq> None then Some (Inl (Errorf ''failed to generate bls key, err: %v''), mem)
          else (case btcec (sha256_sum seed) of (ecPrivS, ecPubS) \<Rightarrow>
            Some (Inr (encode blsPublic, encode blsPriv, encode ecPubS, encode ecPrivS), mem))
        })"

section \<open>util/crypto.go\<close>

(* internal/util/crypto.go:13-15 AMCLRandomSeedSize *)
definition AMCLRandomSeedSize :: nat where "AMCLRandomSeedSize = 48"

text \<open>\<open>io.ReadAtLeast\<close> gives the bytes it read and its error.\<close>

(* internal/util/crypto.go:17-28 RandomBytes *)
definition RandomBytes :: "(nat \<Rightarrow> bytes \<times> gerr option) \<Rightarrow> nat \<Rightarrow> bytes res" where
  "RandomBytes rd n =
     (case rd n of (b, Some err) \<Rightarrow> Inl err
      | (b, None) \<Rightarrow> if length b \<noteq> n then Inl (Errorf ''read %v random bytes, expected %v'') else Inr b)"

(* internal/util/crypto.go:30-38 CreateAMCLRng *)
definition CreateAMCLRng :: "core_api \<Rightarrow> (nat \<Rightarrow> bytes \<times> gerr option) \<Rightarrow> cmem \<Rightarrow> (Rand res \<times> cmem) option" where
  "CreateAMCLRng core rd mem =
     (case RandomBytes rd AMCLRandomSeedSize of
        Inl err \<Rightarrow> Some (Inl err, mem)
      | Inr b \<Rightarrow> do { (rand, mem) \<leftarrow> NewRand core (Some b) mem; Some (Inr rand, mem) })"

(* internal/util/crypto.go:40-53 BLSSign *)
definition util_BLSSign :: "core_api \<Rightarrow> bls_api \<Rightarrow> slice \<Rightarrow> slice \<Rightarrow> cmem \<Rightarrow> (bytes res \<times> cmem) option" where
  "util_BLSSign core api seed payload mem = do {
     (rand, mem) \<leftarrow> NewRand core seed mem;
     ((_, blsSecret, err), _, mem) \<leftarrow> BLSKeys core api rand None mem;
     (case err of
        Some e \<Rightarrow> Some (Inl (Wrapf ''generate BLS key'' e), mem)
      | None \<Rightarrow> do {
          ((signature, err), mem) \<leftarrow> BLSSign core api payload (Some blsSecret) mem;
          Some (case err of Some e \<Rightarrow> Inl (Wrapf ''BLS sign payload'' e) | None \<Rightarrow> Inr signature, mem)
        })
   }"

(* internal/util/crypto.go:55-63 BLSVerify *)
definition util_BLSVerify :: "core_api \<Rightarrow> bls_api \<Rightarrow> slice \<Rightarrow> slice \<Rightarrow> slice \<Rightarrow> cmem \<Rightarrow> (gerr option \<times> cmem) option" where
  "util_BLSVerify core api seed msg sig mem = do {
     (rand, mem) \<leftarrow> NewRand core seed mem;
     ((blsPublic, _, err), _, mem) \<leftarrow> BLSKeys core api rand None mem;
     if err \<noteq> None then Some (Some (Errorf ''generate BLS key''), mem)
     else BLSVerify core api msg (Some blsPublic) sig mem
   }"

section \<open>Properties\<close>

text \<open>
  The request signature is the HMAC-SHA256, under the API secret, of timestamp, method, URL and body
  written one after the other: it never fails, has 32 bytes, treats a nil secret or body as empty,
  and depends on the concatenation only, so two requests that differ in where one field ends and
  the next begins have the same signature.
\<close>

theorem HmacSum_spec:
  "HmacSum t m u secret body =
      Inr (hmac_sha256 (slice_bytes secret) (bytes_of (t @ m @ u) @ slice_bytes body)) \<and>
    (\<forall>sig. HmacSum t m u secret body = Inr sig \<longrightarrow> length sig = 32) \<and>
    (t @ m @ u = t' @ m' @ u' \<longrightarrow> HmacSum t m u secret body = HmacSum t' m' u' secret body)"
proof -
  have eq: "HmacSum t m u secret body =
      Inr (hmac_sha256 (slice_bytes secret) (bytes_of (t @ m @ u) @ slice_bytes body))" for t m u
    by (simp add: HmacSum_def mac_write_def bytes_of_def)
  show ?thesis by (simp add: eq)
qed

theorem HmacSum_spec_witness:
  "HmacSum ''17'' ''00GET'' ''u'' (Some [1]) None = HmacSum ''1700'' ''GET'' ''u'' (Some [1]) None"
  by (rule HmacSum_spec [THEN conjunct2, THEN conjunct2, rule_format]) simp

lemma GenerateKeys_eq:
  assumes core: "core_ok core" and api: "bls_ok api" and rd: "rd 48 = Inr seed" and len: "length seed = 48"
  defines "R \<equiv> CREATE_CSPRNG core csprng_zero [Some (octet_of seed)]"
  defines "K \<equiv> BLS_KEY_PAIR_GENERATE api (Some (fst R)) (keys_args None)"
  shows "GenerateKeys core api btcec rd mem =
    Some (if fst (fst K) = BLS_OK
          then Inr (std_encode (the_bytes (snd K ! 1)), std_encode (the_bytes (snd K ! 0)),
             std_encode (snd (btcec (sha256_sum seed))), std_encode (fst (btcec (sha256_sum seed))))
          else Inl (Errorf ''failed to generate bls key, err: %v''),
      mem @ [Slot (clear_opt core (snd R ! 0)) True, Slot (snd K ! 1) True, Slot (clear_opt core (snd K ! 0)) True])"
proof -
  have small: "small (Some seed)" "small None" using len by (simp_all add: small_def)
  let ?m1 = "mem @ [Slot (clear_opt core (snd R ! 0)) True]"
  have r: "NewRand core (Some seed) mem = Some (Some (fst R), ?m1)"
    using NewRand_eq [OF core small(1), of mem] by (simp add: R_def case_prod_beta)
  have k: "BLSKeys core api (Some (fst R)) None ?m1 = Some ((the_bytes (snd K ! 1), the_bytes (snd K ! 0), codeToError (fst (fst K))),
      snd (fst K), ?m1 @ [Slot (snd K ! 1) True, Slot (clear_opt core (snd K ! 0)) True])"
    using BLSKeys_eq [OF api small(2), of core "Some (fst R)" ?m1] by (simp add: K_def case_prod_beta)
  have ok: "codeToError (fst (fst K)) = None \<longleftrightarrow> fst (fst K) = BLS_OK"
    by (auto simp: codeToError_def BLS_OK_def amclOk_def)
  show ?thesis
    by (simp add: GenerateKeys_def randomBytes_def rd r k ok encode_def case_prod_beta del: One_nat_def)
qed

text \<open>
  C31. Key generation: without a seed the error is returned and nothing is allocated. With a seed of 48
  bytes the keys are those the library derives from it, in base64, and the EC pair is made of the
  SHA-256 digest of the same seed; decoding the private keys gives back their bytes. Of the three
  C blocks all are freed, and the blocks of the seed and of the private key are wiped.
\<close>

theorem GenerateKeys_spec:
  assumes core: "core_ok core" and api: "bls_ok api" and len: "\<And>b. rd 48 = Inr b \<Longrightarrow> length b = 48"
  shows "case rd 48 of
      Inl e \<Rightarrow> GenerateKeys core api btcec rd mem = Some (Inl (Errorf ''failed to generate seed, err: %v''), mem)
    | Inr seed \<Rightarrow> (\<exists>R os1 rc rand os mem'.
        CREATE_CSPRNG core csprng_zero [Some (octet_of seed)] = (R, os1) \<and>
        BLS_KEY_PAIR_GENERATE api (Some R) [Some (fresh_octet BGS_BLS381), Some (fresh_octet G2Len)] = ((rc, rand), os) \<and>
        frees mem [0, 2] mem' \<and>
        (if rc = BLS_OK
         then \<exists>pub priv ecpub ecpriv. GenerateKeys core api btcec rd mem = Some (Inr (pub, priv, ecpub, ecpriv), mem') \<and>
           std_decode pub = (the_bytes (os ! 1), True) \<and> std_decode priv = (the_bytes (os ! 0), True) \<and>
           btcec (sha256_sum seed) = (fst (std_decode ecpriv), fst (std_decode ecpub))
         else GenerateKeys core api btcec rd mem = Some (Inl (Errorf ''failed to generate bls key, err: %v''), mem')))"
proof (cases "rd 48")
  case (Inl e)
  then show ?thesis by (simp add: GenerateKeys_def randomBytes_def)
next
  case (Inr seed)
  show ?thesis
    using GenerateKeys_eq [where mem = mem and btcec = btcec and rd = rd, OF core api Inr len [OF Inr]] Inr
    by (simp add: keys_args_def frees_append wiped_clear_opt [OF core] case_prod_beta prod_eq_iff eval_nat_numeral)
qed

theorem GenerateKeys_spec_witness:
  "\<exists>r mem'. GenerateKeys idle_core idle_bls (\<lambda>s. (s, s)) (\<lambda>n. Inr (replicate n 7)) [] = Some (r, mem') \<and> frees [] [0, 2] mem'"
  using GenerateKeys_spec [OF idle_core_ok idle_bls_ok, of "\<lambda>n. Inr (replicate n 7)" "\<lambda>s. (s, s)" "[]"]
  by (auto split: if_splits)

end
