(* ===== verification/MessageCache.thy ===== *)
theory MessageCache
  imports Defs "HOL-Library.AList"
begin

text \<open>
  \<open>internal/hub/message\<close>: the cache of messages that feed clients still have to see, in the memory of
  one agent (\<open>localCache\<close>) or in the Redis server shared by several (\<open>distributedCache\<close>).

  The locale \<open>message_cache\<close> is the contract of the interface \<open>Cacher\<close>: its laws say what a call at a
  later moment sees after each operation. Inside it a history of operations is compared with the
  abstract cache, a map from identifiers to messages with a deadline. The local cache is an
  interpretation; the distributed one is shown to meet the contract over any Redis server with the
  documented behaviour \<open>redis_ok\<close>. Every operation holds the lock of the cache (local) or is one
  command of the server, so operations are atomic.

  Decoding a message (\<open>encoding/json\<close>) is a parameter \<open>json_dec\<close>; \<open>json_info\<close> and \<open>json_action\<close> are
  what it gives for the two types it is decoded into, \<open>messageInfo\<close> and a pointer to \<open>ActionInfo\<close>,
  where \<open>Inr None\<close> stands for the nil pointer that the document \<open>null\<close> leaves.
\<close>

section \<open>cache.go\<close>

(* internal/hub/message/cache.go:11-14 messageInfo *)
record messageInfo =
  mi_ID :: string
  mi_ExpireTime :: int

(* internal/hub/message/cache.go:16-18 messageInfo.getExpiration *)
definition getExpiration :: "int \<Rightarrow> messageInfo \<Rightarrow> int" where
  "getExpiration now m = duration_of (wrap64 (mi_ExpireTime m - Unix now)) Second"

text \<open>
  What decoding makes of a message: an error (of syntax, or in the fields of \<open>messageInfo\<close>), the
  document \<open>null\<close>, or identifier, expiry time and the other fields, which may be ill-typed.
\<close>

datatype msg_doc = DocBad gerr | DocNull | DocFields string int "(int \<times> bytes list) res"

type_synonym json_dec = "bytes \<Rightarrow> msg_doc"

definition json_info :: "json_dec \<Rightarrow> bytes \<Rightarrow> messageInfo res" where
  "json_info js m = (case js m of
       DocBad e \<Rightarrow> Inl e
     | DocNull \<Rightarrow> Inr \<lparr>mi_ID = [], mi_ExpireTime = 0\<rparr>
     | DocFields i et rest \<Rightarrow> Inr \<lparr>mi_ID = i, mi_ExpireTime = et\<rparr>)"

definition json_action :: "json_dec \<Rightarrow> bytes \<Rightarrow> ActionInfo option res" where
  "json_action js m = (case js m of
       DocBad e \<Rightarrow> Inl e
     | DocNull \<Rightarrow> Inr None
     | DocFields i et (Inl e) \<Rightarrow> Inl e
     | DocFields i et (Inr (st, ms)) \<Rightarrow>
         Inr (Some \<lparr>ai_ID = i, ai_Status = st, ai_Messages = ms, ai_ExpireTime = et\<rparr>))"

section \<open>local_cache.go\<close>

text \<open>The map is kept as an association list; Go iterates over it in an unspecified order.\<close>

(* internal/hub/message/local_cache.go:11-16 localCache *)
record localCache =
  lc_messages :: "(string \<times> bytes) list"

(* internal/hub/message/local_cache.go:18-32 localCache.AddMessage *)
definition lc_AddMessage :: "json_dec \<Rightarrow> int \<Rightarrow> bytes \<Rightarrow> localCache \<Rightarrow> localCache" where
  "lc_AddMessage js now message c =
     (case json_info js message of
        Inl err \<Rightarrow> c
      | Inr info \<Rightarrow>
          if getExpiration now info > 0
          then c\<lparr>lc_messages := AList.update (mi_ID info) message (lc_messages c)\<rparr>
          else c)"

text \<open>\<open>None\<close> is the panic of \<open>IsExpired\<close> on a nil pointer.\<close>

fun lc_scan :: "json_dec \<Rightarrow> int \<Rightarrow> (string \<times> bytes) list \<Rightarrow> (bytes list \<times> (string \<times> bytes) list) option" where
  "lc_scan js now [] = Some ([], [])"
| "lc_scan js now ((i, message) # ms) =
     (case json_action js message of
        Inl err \<Rightarrow> lc_scan js now ms
      | Inr None \<Rightarrow> None
      | Inr (Some action) \<Rightarrow>
          if IsExpired now action then lc_scan js now ms
          else do { (res, rest) \<leftarrow> lc_scan js now ms; Some (message # res, (i, message) # rest) })"

(* internal/hub/message/local_cache.go:34-52 localCache.GetMessages *)
definition lc_GetMessages :: "json_dec \<Rightarrow> int \<Rightarrow> localCache \<Rightarrow> (bytes list \<times> localCache) option" where
  "lc_GetMessages js now c = do {
     (res, ms) \<leftarrow> lc_scan js now (lc_messages c);
     Some (res, c\<lparr>lc_messages := ms\<rparr>)
   }"

(* internal/hub/message/local_cache.go:54-61 localCache.RemoveMessage *)
definition lc_RemoveMessage :: "string \<Rightarrow> localCache \<Rightarrow> localCache" where
  "lc_RemoveMessage i c = c\<lparr>lc_messages := AList.delete i (lc_messages c)\<rparr>"

section \<open>kvstore.go and distributed_cache.go\<close>

text \<open>
  The Redis client is a parameter over the state \<open>'s\<close> of the server; the first argument of a command
  is the moment it is executed. \<open>Scan\<close> stands for the iterator: the keys it yields and its error.
\<close>

(* internal/hub/message/kvstore.go:10-15 KVStore *)
record 's redis_api =
  rd_Get :: "int \<Rightarrow> string \<Rightarrow> 's \<Rightarrow> bytes res \<times> 's"
  rd_Set :: "int \<Rightarrow> string \<Rightarrow> bytes \<Rightarrow> int \<Rightarrow> 's \<Rightarrow> unit res \<times> 's"
  rd_Scan :: "int \<Rightarrow> string \<Rightarrow> 's \<Rightarrow> (string list \<times> gerr option) \<times> 's"
  rd_Del :: "int \<Rightarrow> string \<Rightarrow> 's \<Rightarrow> unit res \<times> 's"

(* internal/hub/message/distributed_cache.go:10-13 keyPrefix, keyPattern *)
definition keyPrefix :: string where "keyPrefix = ''transaction:''"
definition keyPattern :: string where "keyPattern = ''transaction:*''"

(* internal/hub/message/distributed_cache.go:66-68 distributedCache.getKey *)
definition dc_getKey :: "string \<Rightarrow> string" where
  "dc_getKey i = keyPrefix @ i"

(* internal/hub/message/distributed_cache.go:23-35 distributedCache.AddMessage *)
definition dc_AddMessage :: "json_dec \<Rightarrow> 's redis_api \<Rightarrow> int \<Rightarrow> bytes \<Rightarrow> 's \<Rightarrow> 's" where
  "dc_AddMessage js rd now message s =
     (case json_info js message of
        Inl err \<Rightarrow> s
      | Inr info \<Rightarrow>
          let expiration = getExpiration now info in
          if expiration > 0 then snd (rd_Set rd now (dc_getKey (mi_ID info)) message expiration s) else s)"

fun dc_iter :: "'s redis_api \<Rightarrow> int \<Rightarrow> string list \<Rightarrow> 's \<Rightarrow> bytes list \<times> 's" where
  "dc_iter rd now [] s = ([], s)"
| "dc_iter rd now (key # keys) s =
     (case rd_Get rd now key s of
        (Inl err, s) \<Rightarrow> dc_iter rd now keys s
      | (Inr msg, s) \<Rightarrow> (case dc_iter rd now keys s of (messages, s) \<Rightarrow> (msg # messages, s)))"

(* internal/hub/message/distributed_cache.go:37-58 distributedCache.GetMessages *)
definition dc_GetMessages :: "'s redis_api \<Rightarrow> int \<Rightarrow> 's \<Rightarrow> bytes list \<times> 's" where
  "dc_GetMessages rd now s =
     (case rd_Scan rd now keyPattern s of ((keys, err), s) \<Rightarrow> dc_iter rd now keys s)"

(* internal/hub/message/distributed_cache.go:60-64 distributedCache.RemoveMessage *)
definition dc_RemoveMessage :: "'s redis_api \<Rightarrow> int \<Rightarrow> string \<Rightarrow> 's \<Rightarrow> 's" where
  "dc_RemoveMessage rd now i s = snd (rd_Del rd now (dc_getKey i) s)"

text \<open>The state of the cache an agent uses: its own, or nothing where the server holds it.\<close>

(* internal/hub/message/cache.go:34-47 NewCacher *)
definition NewCacher :: "bool \<Rightarrow> localCache option" where
  "NewCacher isMultiInstance = (if isMultiInstance then None else Some \<lparr>lc_messages = []\<rparr>)"

section \<open>The interface\<close>

text \<open>The clock of the agent, in nanoseconds since 1970, and the expiry times that do not overflow.\<close>

definition clock_ok :: "int \<Rightarrow> bool" where
  "clock_ok now \<longleftrightarrow> 0 \<le> now \<and> in_int64 now"

definition expiry_ok :: "int \<Rightarrow> int \<Rightarrow> bool" where
  "expiry_ok now et \<longleftrightarrow> abs (et - Unix now) \<le> 9223372036"

text \<open>
  The history of a cache: messages received, messages removed, and reads. A message decodes to its
  identifier and expiry time (\<open>info\<close>) and is \<open>servable\<close> if the cache hands it out; \<open>dl now et\<close> is the
  moment at which a message added at \<open>now\<close> disappears.
\<close>

datatype cache_op = Add int bytes | Remove int string | Read int

fun op_time :: "cache_op \<Rightarrow> int" where
  "op_time (Add t m) = t" | "op_time (Remove t i) = t" | "op_time (Read t) = t"

locale message_cache =
  fixes add :: "int \<Rightarrow> bytes \<Rightarrow> 's \<Rightarrow> 's"
    and read :: "int \<Rightarrow> 's \<Rightarrow> bytes list \<times> 's"
    and remove :: "int \<Rightarrow> string \<Rightarrow> 's \<Rightarrow> 's"
    and view :: "'s \<Rightarrow> int \<Rightarrow> string \<Rightarrow> bytes option"
    and inv :: "'s \<Rightarrow> bool"
    and info :: "bytes \<Rightarrow> (string \<times> int) option"
    and servable :: "bytes \<Rightarrow> bool"
    and dl :: "int \<Rightarrow> int \<Rightarrow> int"
  assumes add_inv: "\<And>s now m. inv s \<Longrightarrow> clock_ok now \<Longrightarrow> inv (add now m s)"
    and read_inv: "\<And>s now. inv s \<Longrightarrow> clock_ok now \<Longrightarrow> inv (snd (read now s))"
    and remove_inv: "\<And>s now i. inv s \<Longrightarrow> clock_ok now \<Longrightarrow> inv (remove now i s)"
    and add_view: "\<And>s now m i et t. inv s \<Longrightarrow> clock_ok now \<Longrightarrow> now \<le> t \<Longrightarrow> info m = Some (i, et) \<Longrightarrow> expiry_ok now et \<Longrightarrow>
      view (add now m s) t =
        (if Unix now < et then (view s t)(i := if servable m \<and> t < dl now et then Some m else None) else view s t)"
    and add_view_invalid: "\<And>s now m t. inv s \<Longrightarrow> clock_ok now \<Longrightarrow> now \<le> t \<Longrightarrow> info m = None \<Longrightarrow> view (add now m s) t = view s t"
    and remove_view: "\<And>s now i t. inv s \<Longrightarrow> clock_ok now \<Longrightarrow> now \<le> t \<Longrightarrow> view (remove now i s) t = (view s t)(i := None)"
    and read_view: "\<And>s now t. inv s \<Longrightarrow> clock_ok now \<Longrightarrow> now \<le> t \<Longrightarrow> view (snd (read now s)) t = view s t"
    and read_result: "\<And>s now. inv s \<Longrightarrow> clock_ok now \<Longrightarrow> set (fst (read now s)) = ran (view s now)"

text \<open>The effect of a history on a cache with given operations.\<close>

fun cache_run :: "(int \<Rightarrow> bytes \<Rightarrow> 's \<Rightarrow> 's) \<Rightarrow> (int \<Rightarrow> 's \<Rightarrow> bytes list \<times> 's) \<Rightarrow> (int \<Rightarrow> string \<Rightarrow> 's \<Rightarrow> 's) \<Rightarrow> cache_op list \<Rightarrow> 's \<Rightarrow> 's" where
  "cache_run add read remove [] s = s"
| "cache_run add read remove (Add now m # ops) s = cache_run add read remove ops (add now m s)"
| "cache_run add read remove (Remove now i # ops) s = cache_run add read remove ops (remove now i s)"
| "cache_run add read remove (Read now # ops) s = cache_run add read remove ops (snd (read now s))"

text \<open>The abstract cache: for every identifier the last message added and its deadline, if it was not removed.\<close>

fun spec_run :: "(bytes \<Rightarrow> (string \<times> int) option) \<Rightarrow> (int \<Rightarrow> int \<Rightarrow> int) \<Rightarrow> cache_op list
    \<Rightarrow> (string \<Rightarrow> (bytes \<times> int) option) \<Rightarrow> (string \<Rightarrow> (bytes \<times> int) option)" where
  "spec_run info dl [] f = f"
| "spec_run info dl (Add now m # ops) f = spec_run info dl ops
     (case info m of None \<Rightarrow> f | Some (i, et) \<Rightarrow> if Unix now < et then f(i \<mapsto> (m, dl now et)) else f)"
| "spec_run info dl (Remove now i # ops) f = spec_run info dl ops (f(i := None))"
| "spec_run info dl (Read now # ops) f = spec_run info dl ops f"

definition spec_messages :: "(bytes \<Rightarrow> bool) \<Rightarrow> (string \<Rightarrow> (bytes \<times> int) option) \<Rightarrow> int \<Rightarrow> bytes set" where
  "spec_messages servable f now = {m. \<exists>i d. f i = Some (m, d) \<and> now < d \<and> servable m}"

text \<open>Histories in the order of time, with expiry times that do not overflow.\<close>

fun history_ok :: "(bytes \<Rightarrow> (string \<times> int) option) \<Rightarrow> int \<Rightarrow> cache_op list \<Rightarrow> bool" where
  "history_ok info t0 [] \<longleftrightarrow> True"
| "history_ok info t0 (p # ops) \<longleftrightarrow> t0 \<le> op_time p \<and> clock_ok (op_time p) \<and>
     (case p of Add now m \<Rightarrow> (case info m of Some (i, et) \<Rightarrow> expiry_ok now et | None \<Rightarrow> True) | _ \<Rightarrow> True) \<and>
     history_ok info (op_time p) ops"

fun history_end :: "int \<Rightarrow> cache_op list \<Rightarrow> int" where
  "history_end t0 [] = t0"
| "history_end t0 (p # ops) = history_end (op_time p) ops"

lemma history_end_ge: "history_ok info t0 ops \<Longrightarrow> t0 \<le> history_end t0 ops"
  by (induction info t0 ops rule: history_ok.induct) auto

definition live :: "(bytes \<Rightarrow> bool) \<Rightarrow> (string \<Rightarrow> (bytes \<times> int) option) \<Rightarrow> int \<Rightarrow> string \<Rightarrow> bytes option" where
  "live servable f t i = (case f i of Some (m, d) \<Rightarrow> if servable m \<and> t < d then Some m else None | None \<Rightarrow> None)"

lemma ran_live: "ran (live servable f now) = spec_messages servable f now"
  by (force simp: ran_def live_def spec_messages_def split: option.splits if_splits)

lemma live_upd: "live servable (f(i \<mapsto> (m, d))) t = (live servable f t)(i := if servable m \<and> t < d then Some m else None)"
  "live servable (f(i := None)) t = (live servable f t)(i := None)"
  by (auto simp: live_def fun_eq_iff)

context message_cache
begin

lemma run_refines:
  assumes "inv s" and "history_ok info t0 ops" and "\<And>t. t0 \<le> t \<Longrightarrow> view s t = live servable f t"
  shows "inv (cache_run add read remove ops s) \<and> (\<forall>t. history_end t0 ops \<le> t \<longrightarrow> view (cache_run add read remove ops s) t = live servable (spec_run info dl ops f) t)"
  using assms
proof (induction ops arbitrary: s f t0)
  case Nil
  then show ?case by simp
next
  case (Cons p ops)
  show ?case
  proof (cases p)
    case (Add now m)
    have v: "view (add now m s) t = live servable (case info m of None \<Rightarrow> f | Some (i, et) \<Rightarrow> if Unix now < et then f(i \<mapsto> (m, dl now et)) else f) t"
      if "now \<le> t" for t
      using Cons.prems that Add by (cases "info m") (auto simp: add_view_invalid add_view live_upd)
    have i: "inv (add now m s)" and h: "history_ok info now ops" using Cons.prems Add by (auto simp: add_inv)
    show ?thesis using Cons.IH [OF i h v] Add by simp
  next
    case (Remove now i)
    have v: "view (remove now i s) t = live servable (f(i := None)) t" if "now \<le> t" for t
      using Cons.prems that Remove by (auto simp: remove_view live_upd)
    have i: "inv (remove now i s)" and h: "history_ok info now ops" using Cons.prems Remove by (auto simp: remove_inv)
    show ?thesis using Cons.IH [OF i h v] Remove by (simp add: fun_upd_def)
  next
    case (Read now)
    have v: "view (snd (read now s)) t = live servable f t" if "now \<le> t" for t
      using Cons.prems that Read by (auto simp: read_view)
    have i: "inv (snd (read now s))" and h: "history_ok info now ops" using Cons.prems Read by (auto simp: read_inv)
    show ?thesis using Cons.IH [OF i h v] Read by simp
  qed
qed

lemma reads_pending:
  assumes "inv s0" and "\<And>t. view s0 t = (\<lambda>i. None)" and "history_ok info t0 ops"
    and "history_end t0 ops \<le> now" and "clock_ok now"
  shows "set (fst (read now (cache_run add read remove ops s0))) = spec_messages servable (spec_run info dl ops (\<lambda>i. None)) now"
proof -
  have "view s0 t = live servable (\<lambda>i. None) t" for t using assms by (simp add: live_def fun_eq_iff)
  with run_refines [of s0 t0 ops "\<lambda>i. None"] assms show ?thesis
    by (simp add: read_result ran_live)
qed

end

section \<open>Expiry\<close>

lemma Unix_range: "clock_ok now \<Longrightarrow> 0 \<le> Unix now \<and> Unix now \<le> 9223372036"
  by (auto simp: clock_ok_def in_int64_def Unix_def Second_def)

lemma getExpiration_exact:
  assumes "expiry_ok now (mi_ExpireTime m)"
  shows "getExpiration now m = (mi_ExpireTime m - Unix now) * Second"
proof -
  have "in_int64 (mi_ExpireTime m - Unix now)" using assms by (auto simp: expiry_ok_def in_int64_def)
  then show ?thesis using assms by (simp add: getExpiration_def wrap64_id duration_seconds expiry_ok_def)
qed

lemma getExpiration_pos: "expiry_ok now (mi_ExpireTime m) \<Longrightarrow> 0 < getExpiration now m \<longleftrightarrow> Unix now < mi_ExpireTime m"
  by (simp add: getExpiration_exact Second_def zero_less_mult_iff)

lemma null_not_added:
  assumes "clock_ok now"
  shows "\<not> 0 < getExpiration now \<lparr>mi_ID = [], mi_ExpireTime = 0\<rparr>"
proof -
  have "expiry_ok now 0" using Unix_range [OF assms] by (simp add: expiry_ok_def)
  then show ?thesis using Unix_range [OF assms] getExpiration_pos [of now "\<lparr>mi_ID = [], mi_ExpireTime = 0\<rparr>"] by simp
qed

lemma not_expired_iff: "\<not> IsExpired t a \<longleftrightarrow> t < ai_ExpireTime a * Second"
  by (auto simp: IsExpired_def Unix_def Second_def not_le div_less_iff_less_mult)

section \<open>The local cache\<close>

definition msg_info :: "json_dec \<Rightarrow> bytes \<Rightarrow> (string \<times> int) option" where
  "msg_info js m = (case json_info js m of Inl e \<Rightarrow> None | Inr i \<Rightarrow> Some (mi_ID i, mi_ExpireTime i))"

definition readable :: "json_dec \<Rightarrow> bytes \<Rightarrow> bool" where
  "readable js m \<longleftrightarrow> (case json_action js m of Inr (Some a) \<Rightarrow> True | _ \<Rightarrow> False)"

definition fresh_msg :: "json_dec \<Rightarrow> int \<Rightarrow> bytes \<Rightarrow> bool" where
  "fresh_msg js t m \<longleftrightarrow> (case json_action js m of Inr (Some a) \<Rightarrow> \<not> IsExpired t a | _ \<Rightarrow> False)"

definition lc_view :: "json_dec \<Rightarrow> localCache \<Rightarrow> int \<Rightarrow> string \<Rightarrow> bytes option" where
  "lc_view js c t i = (case map_of (lc_messages c) i of Some m \<Rightarrow> if fresh_msg js t m then Some m else None | None \<Rightarrow> None)"

definition lc_inv :: "json_dec \<Rightarrow> localCache \<Rightarrow> bool" where
  "lc_inv js c \<longleftrightarrow> distinct (map fst (lc_messages c)) \<and> (\<forall>(i, m) \<in> set (lc_messages c). json_action js m \<noteq> Inr None)"

text \<open>\<open>GetMessages\<close> without its panic, which the invariant excludes (\<open>lc_GetMessages_eq\<close>).\<close>

definition lc_read :: "json_dec \<Rightarrow> int \<Rightarrow> localCache \<Rightarrow> bytes list \<times> localCache" where
  "lc_read js now c = (case lc_GetMessages js now c of Some r \<Rightarrow> r | None \<Rightarrow> ([], c))"

lemma msg_docs:
  "json_action js m = Inr None \<longleftrightarrow> js m = DocNull"
  "json_info js m = Inr \<lparr>mi_ID = i, mi_ExpireTime = et\<rparr> \<Longrightarrow> readable js m \<Longrightarrow> fresh_msg js t m \<longleftrightarrow> t < et * Second"
  by (auto simp: json_action_def json_info_def readable_def fresh_msg_def not_expired_iff
      split: msg_doc.splits sum.splits prod.splits)

lemma fresh_readable: "fresh_msg js t m \<Longrightarrow> readable js m"
  by (auto simp: fresh_msg_def readable_def split: sum.splits option.splits)

lemma fresh_antimono: "fresh_msg js t m \<Longrightarrow> now \<le> t \<Longrightarrow> fresh_msg js now m"
  by (auto simp: fresh_msg_def not_expired_iff split: sum.splits option.splits)

lemma lc_scan_eq:
  "\<forall>(i, m) \<in> set ms. json_action js m \<noteq> Inr None \<Longrightarrow>
    lc_scan js now ms = Some (map snd (filter (\<lambda>(i, m). fresh_msg js now m) ms), filter (\<lambda>(i, m). fresh_msg js now m) ms)"
  by (induction js now ms rule: lc_scan.induct) (auto simp: fresh_msg_def split: sum.splits option.splits)

lemma lc_GetMessages_eq:
  assumes "lc_inv js c"
  shows "lc_GetMessages js now c = Some (map snd (filter (\<lambda>(i, m). fresh_msg js now m) (lc_messages c)),
      c\<lparr>lc_messages := filter (\<lambda>(i, m). fresh_msg js now m) (lc_messages c)\<rparr>)"
  using assms by (simp add: lc_GetMessages_def lc_scan_eq lc_inv_def)

lemma lc_read_eq:
  assumes "lc_inv js c"
  shows "lc_read js now c = (map snd (filter (\<lambda>(i, m). fresh_msg js now m) (lc_messages c)),
      c\<lparr>lc_messages := filter (\<lambda>(i, m). fresh_msg js now m) (lc_messages c)\<rparr>)"
  using lc_GetMessages_eq [OF assms] by (simp add: lc_read_def)

lemma map_of_filter_val:
  "distinct (map fst ms) \<Longrightarrow>
    map_of (filter (\<lambda>(i, m). P m) ms) i = (case map_of ms i of Some m \<Rightarrow> if P m then Some m else None | None \<Rightarrow> None)"
  by (induction ms) (auto simp: map_of_eq_None_iff split: option.splits)

lemma distinct_fst_filter: "distinct (map fst ms) \<Longrightarrow> distinct (map fst (filter P ms))"
  by (simp add: distinct_map_filter)

lemma alist_update_in: "(i, m) \<in> set (AList.update k v al) \<Longrightarrow> (i, m) = (k, v) \<or> (i, m) \<in> set al"
  by (induction al) (auto split: if_splits)

lemma alist_delete_in: "x \<in> set (AList.delete k al) \<Longrightarrow> x \<in> set al"
  by (simp add: AList.delete_eq)

lemma lc_add_inv:
  assumes "lc_inv js c" "clock_ok now"
  shows "lc_inv js (lc_AddMessage js now m c)"
proof -
  have "js m \<noteq> DocNull" if "json_info js m = Inr i" "0 < getExpiration now i" for i
    using that null_not_added [OF assms(2)] by (auto simp: json_info_def)
  with assms show ?thesis
    by (auto simp: lc_AddMessage_def lc_inv_def distinct_update msg_docs dest: alist_update_in split: sum.splits)
qed

lemma lc_add_view:
  assumes "lc_inv js c" "clock_ok now" "now \<le> t" "msg_info js m = Some (i, et)" "expiry_ok now et"
  shows "lc_view js (lc_AddMessage js now m c) t =
    (if Unix now < et then (lc_view js c t)(i := if readable js m \<and> t < et * Second then Some m else None) else lc_view js c t)"
proof -
  have info: "json_info js m = Inr \<lparr>mi_ID = i, mi_ExpireTime = et\<rparr>"
    using assms(4) by (cases "json_info js m") (auto simp: msg_info_def)
  have "0 < getExpiration now \<lparr>mi_ID = i, mi_ExpireTime = et\<rparr> \<longleftrightarrow> Unix now < et"
    using getExpiration_pos [of now "\<lparr>mi_ID = i, mi_ExpireTime = et\<rparr>"] assms(5) by simp
  moreover have "fresh_msg js t m \<longleftrightarrow> readable js m \<and> t < et * Second"
    using msg_docs(2) [OF info] fresh_readable by blast
  ultimately show ?thesis
    by (auto simp: lc_AddMessage_def info lc_view_def fun_eq_iff update_conv')
qed

lemma lc_view_Some: "lc_view js c t i = Some m \<longleftrightarrow> map_of (lc_messages c) i = Some m \<and> fresh_msg js t m"
  by (auto simp: lc_view_def split: option.splits)

interpretation lc: message_cache "lc_AddMessage js" "lc_read js" "\<lambda>now. lc_RemoveMessage" "lc_view js" "lc_inv js"
  "msg_info js" "readable js" "\<lambda>now et. et * Second" for js :: json_dec
proof (unfold_locales, goal_cases)
  case (1 s now m)
  then show ?case by (rule lc_add_inv)
next
  case (2 s now)
  then show ?case by (auto simp: lc_read_eq) (auto simp: lc_inv_def distinct_fst_filter)
next
  case (3 s now i)
  then show ?case by (auto simp: lc_RemoveMessage_def lc_inv_def distinct_delete dest: alist_delete_in)
next
  case (4 s now m i et t)
  then show ?case by (rule lc_add_view)
next
  case (5 s now m t)
  then show ?case by (auto simp: lc_AddMessage_def msg_info_def split: sum.splits)
next
  case (6 s now i t)
  then show ?case by (auto simp: lc_RemoveMessage_def lc_view_def delete_conv' fun_eq_iff)
next
  case (7 s now t)
  then have "distinct (map fst (lc_messages s))" by (simp add: lc_inv_def)
  with 7 show ?case
    by (auto simp: lc_read_eq lc_view_def fun_eq_iff map_of_filter_val fresh_antimono split: option.splits)
next
  case (8 s now)
  then have d: "distinct (map fst (lc_messages s))" by (simp add: lc_inv_def)
  have "set (fst (lc_read js now s)) = {m. \<exists>i. (i, m) \<in> set (lc_messages s) \<and> fresh_msg js now m}"
    using 8 by (auto simp: lc_read_eq image_iff)
  also have "\<dots> = {m. \<exists>i. map_of (lc_messages s) i = Some m \<and> fresh_msg js now m}"
    by (simp add: d)
  also have "\<dots> = ran (lc_view js s now)"
    by (simp add: ran_def lc_view_Some)
  finally show ?case .
qed

section \<open>The distributed cache\<close>

text \<open>
  The documented behaviour of a reachable Redis server, with \<open>view s t k\<close> the value that a \<open>GET\<close> of
  the key at the moment \<open>t\<close> returns: \<open>SET\<close> with an expiration keeps the value for that long, \<open>SCAN\<close>
  yields the keys that match (here: a prefix of letters, digits, underscores and colons, and a
  star), some perhaps more than once, and \<open>DEL\<close> removes the key. The clocks of server and agent
  agree.
\<close>

definition plain_chars :: string where
  "plain_chars = ''abcdefghijklmnopqrstuvwxyz0123456789_:''"

definition redis_ok :: "'s redis_api \<Rightarrow> ('s \<Rightarrow> int \<Rightarrow> string \<Rightarrow> bytes option) \<Rightarrow> bool" where
  "redis_ok rd view \<longleftrightarrow>
     (\<forall>s now k v e t. 0 < e \<longrightarrow> now \<le> t \<longrightarrow>
        view (snd (rd_Set rd now k v e s)) t = (view s t)(k := if t < now + e then Some v else None)) \<and>
     (\<forall>s now k t. now \<le> t \<longrightarrow> view (snd (rd_Del rd now k s)) t = (view s t)(k := None)) \<and>
     (\<forall>s now k t. now \<le> t \<longrightarrow> view (snd (rd_Get rd now k s)) t = view s t) \<and>
     (\<forall>s now k. case view s now k of Some v \<Rightarrow> fst (rd_Get rd now k s) = Inr v | None \<Rightarrow> \<not> is_ok (fst (rd_Get rd now k s))) \<and>
     (\<forall>s now p t. now \<le> t \<longrightarrow> view (snd (rd_Scan rd now p s)) t = view s t) \<and>
     (\<forall>s now p. set p \<subseteq> set plain_chars \<longrightarrow> snd (fst (rd_Scan rd now (p @ ''*'') s)) = None \<and>
        set (fst (fst (rd_Scan rd now (p @ ''*'') s))) = {k \<in> dom (view s now). take (length p) k = p})"

definition dc_view :: "('s \<Rightarrow> int \<Rightarrow> string \<Rightarrow> bytes option) \<Rightarrow> 's \<Rightarrow> int \<Rightarrow> string \<Rightarrow> bytes option" where
  "dc_view view s t i = view s t (dc_getKey i)"

lemma dc_getKey_inj [simp]: "dc_getKey i = dc_getKey j \<longleftrightarrow> i = j"
  by (simp add: dc_getKey_def)

lemma dc_key_range: "(take (length keyPrefix) k = keyPrefix) \<longleftrightarrow> (\<exists>i. k = dc_getKey i)"
proof
  assume "take (length keyPrefix) k = keyPrefix"
  then have "k = dc_getKey (drop (length keyPrefix) k)"
    unfolding dc_getKey_def by (metis append_take_drop_id)
  then show "\<exists>i. k = dc_getKey i" ..
qed (auto simp: dc_getKey_def)

lemma redis_okD:
  assumes "redis_ok rd view"
  shows "0 < e \<Longrightarrow> now \<le> t \<Longrightarrow> view (snd (rd_Set rd now k v e s)) t = (view s t)(k := if t < now + e then Some v else None)"
    and "now \<le> t \<Longrightarrow> view (snd (rd_Del rd now k s)) t = (view s t)(k := None)"
    and "now \<le> t \<Longrightarrow> view (snd (rd_Get rd now k s)) t = view s t"
    and "view s now k = Some v \<Longrightarrow> fst (rd_Get rd now k s) = Inr v"
    and "view s now k = None \<Longrightarrow> \<exists>e. fst (rd_Get rd now k s) = Inl e"
    and "now \<le> t \<Longrightarrow> view (snd (rd_Scan rd now p s)) t = view s t"
    and "set p \<subseteq> set plain_chars \<Longrightarrow> set (fst (fst (rd_Scan rd now (p @ ''*'') s))) = {k \<in> dom (view s now). take (length p) k = p}"
proof -
  have get: "case view s now k of Some v \<Rightarrow> fst (rd_Get rd now k s) = Inr v | None \<Rightarrow> \<not> is_ok (fst (rd_Get rd now k s))" for s now k
    using assms unfolding redis_ok_def by blast
  show "view s now k = Some v \<Longrightarrow> fst (rd_Get rd now k s) = Inr v"
    using get [where s = s and now = now and k = k] by simp
  show "view s now k = None \<Longrightarrow> \<exists>e. fst (rd_Get rd now k s) = Inl e"
    using get [where s = s and now = now and k = k] by (cases "fst (rd_Get rd now k s)") simp_all
qed (use assms in \<open>simp_all add: redis_ok_def\<close>)

lemma dc_iter_view:
  assumes "redis_ok rd view" "now \<le> t"
  shows "view (snd (dc_iter rd now keys s)) t = view s t"
proof (induction keys arbitrary: s)
  case (Cons k keys)
  have "view (snd (rd_Get rd now k s)) t = view s t" using redis_okD(3) [OF assms] by simp
  with Cons show ?case by (auto split: prod.splits sum.splits) (metis snd_conv)+
qed simp

lemma dc_iter_result:
  assumes rd: "redis_ok rd view"
  shows "set (fst (dc_iter rd now keys s)) = {v. \<exists>k \<in> set keys. view s now k = Some v}"
proof (induction keys arbitrary: s)
  case (Cons k keys)
  have v: "view (snd (rd_Get rd now k s)) now = view s now" using redis_okD(3) [OF rd] by simp
  show ?case
  proof (cases "view s now k")
    case None
    then obtain e where "fst (rd_Get rd now k s) = Inl e" using redis_okD(5) [OF rd] by blast
    with Cons v None show ?thesis by (simp add: case_prod_beta)
  next
    case (Some x)
    then have "fst (rd_Get rd now k s) = Inr x" using redis_okD(4) [OF rd] by blast
    with Cons v Some show ?thesis by (auto simp: case_prod_beta)
  qed
qed simp

lemma dc_read_result:
  assumes rd: "redis_ok rd view"
  shows "set (fst (dc_GetMessages rd now s)) = ran (dc_view view s now)"
proof -
  have "keyPattern = keyPrefix @ ''*''" "set keyPrefix \<subseteq> set plain_chars"
    by (simp_all add: keyPattern_def keyPrefix_def plain_chars_def)
  then have "set (fst (fst (rd_Scan rd now keyPattern s))) = {k \<in> dom (view s now). \<exists>i. k = dc_getKey i}"
    using redis_okD(7) [OF rd, of keyPrefix now s] by (simp add: dc_key_range)
  then show ?thesis
    by (auto simp: dc_GetMessages_def case_prod_beta dc_iter_result [OF rd] redis_okD(6) [OF rd] dc_view_def ran_def)
qed

lemma dc_meets_contract:
  assumes rd: "redis_ok rd view"
  shows "message_cache (dc_AddMessage js rd) (dc_GetMessages rd) (dc_RemoveMessage rd) (dc_view view) (\<lambda>s. True)
    (msg_info js) (\<lambda>m. True) (\<lambda>now et. now + (et - Unix now) * Second)"
proof (unfold_locales, goal_cases)
  case (4 s now m i et t)
  then have info: "json_info js m = Inr \<lparr>mi_ID = i, mi_ExpireTime = et\<rparr>"
    by (cases "json_info js m") (auto simp: msg_info_def)
  show ?case
    using 4 getExpiration_pos [of now "\<lparr>mi_ID = i, mi_ExpireTime = et\<rparr>"] getExpiration_exact [of now "\<lparr>mi_ID = i, mi_ExpireTime = et\<rparr>"]
    by (auto simp: dc_AddMessage_def info Let_def dc_view_def fun_eq_iff redis_okD(1) [OF rd])
next
  case (5 s now m t)
  then show ?case by (auto simp: dc_AddMessage_def msg_info_def split: sum.splits)
next
  case (6 s now i t)
  then show ?case by (auto simp: dc_RemoveMessage_def dc_view_def fun_eq_iff redis_okD(2) [OF rd])
next
  case (7 s now t)
  then show ?case
    by (simp add: dc_GetMessages_def case_prod_beta dc_view_def fun_eq_iff dc_iter_view [OF rd] redis_okD(6) [OF rd])
next
  case (8 s now)
  show ?case by (rule dc_read_result [OF rd])
qed simp_all

section \<open>Properties\<close>

abbreviation lc_run :: "json_dec \<Rightarrow> cache_op list \<Rightarrow> localCache \<Rightarrow> localCache" where
  "lc_run js \<equiv> cache_run (lc_AddMessage js) (lc_read js) (\<lambda>now. lc_RemoveMessage)"

abbreviation dc_run :: "json_dec \<Rightarrow> 's redis_api \<Rightarrow> cache_op list \<Rightarrow> 's \<Rightarrow> 's" where
  "dc_run js rd \<equiv> cache_run (dc_AddMessage js rd) (dc_GetMessages rd) (dc_RemoveMessage rd)"

text \<open>
  C7. Whatever messages an agent received, removed and read before, in the order of time and with
  expiry times that do not overflow: \<open>GetMessages\<close> of the local cache does not panic and returns
  exactly the messages that are the last with their identifier, were not expired when they came,
  were not removed since, are well-formed, and have not expired by now.
\<close>

theorem local_cache_refines:
  assumes "NewCacher False = Some c0" and "history_ok (msg_info js) t0 ops"
    and "history_end t0 ops \<le> now" and "clock_ok now"
  shows "\<exists>res c. lc_GetMessages js now (lc_run js ops c0) = Some (res, c) \<and>
    set res = spec_messages (readable js) (spec_run (msg_info js) (\<lambda>now et. et * Second) ops (\<lambda>i. None)) now"
proof -
  have c0: "c0 = \<lparr>lc_messages = []\<rparr>" using assms(1) by (simp add: NewCacher_def)
  have inv: "lc_inv js c0" and view: "\<And>t. lc_view js c0 t = (\<lambda>i. None)"
    by (auto simp: c0 lc_inv_def lc_view_def)
  have "lc_inv js (lc_run js ops c0)"
    using lc.run_refines [OF inv assms(2), of "\<lambda>i. None"] by (simp add: view live_def fun_eq_iff)
  with lc.reads_pending [OF inv view assms(2-4)] show ?thesis
    by (simp add: lc_read_def lc_GetMessages_eq)
qed

definition toy_dec :: json_dec where
  "toy_dec m = (case m of [i, et] \<Rightarrow> DocFields [char_of (unat i)] (int (unat et)) (Inr (1, [m])) | _ \<Rightarrow> DocBad (Foreign 0))"

lemma toy_dec_info: "msg_info toy_dec [i, et] = Some ([char_of (unat i)], int (unat et))" "readable toy_dec [i, et]"
  by (simp_all add: msg_info_def json_info_def readable_def json_action_def toy_dec_def)

definition toy_ops :: "cache_op list" where
  "toy_ops = [Add 3000000000 [65, 9], Add 4000000000 [66, 5], Remove 5000000000 ''C'']"

lemma toy_ops_ok:
  "history_ok (msg_info toy_dec) 0 toy_ops" "history_end 0 toy_ops \<le> 6000000000" "clock_ok 6000000000"
  by (simp_all add: toy_ops_def toy_dec_info clock_ok_def in_int64_def expiry_ok_def Unix_def Second_def)

theorem local_cache_refines_witness:
  "\<exists>res c. lc_GetMessages toy_dec 6000000000 (lc_run toy_dec toy_ops \<lparr>lc_messages = []\<rparr>) = Some (res, c) \<and> set res = {[65, 9]}"
proof -
  have "char_of (65 :: nat) = CHR ''A''" "char_of (66 :: nat) = CHR ''B''" by code_simp+
  then have "spec_run (msg_info toy_dec) (\<lambda>now et. et * Second) toy_ops (\<lambda>i. None) =
      (\<lambda>i. None)(''A'' \<mapsto> ([65, 9], 9 * Second), ''B'' \<mapsto> ([66, 5], 5 * Second))"
    by (auto simp: toy_ops_def toy_dec_info Unix_def Second_def fun_eq_iff)
  then have "spec_messages (readable toy_dec) (spec_run (msg_info toy_dec) (\<lambda>now et. et * Second) toy_ops (\<lambda>i. None)) 6000000000 = {[65, 9]}"
    by (auto simp: spec_messages_def toy_dec_info Second_def split: if_splits)
  then show ?thesis
    using local_cache_refines [OF _ toy_ops_ok, of "\<lparr>lc_messages = []\<rparr>"] by (simp add: NewCacher_def)
qed


text \<open>A server that behaves as documented: an association list of values with deadlines.\<close>

definition map_view :: "(string \<times> bytes \<times> int) list \<Rightarrow> int \<Rightarrow> string \<Rightarrow> bytes option" where
  "map_view s t k = (case map_of s k of Some (v, d) \<Rightarrow> if t < d then Some v else None | None \<Rightarrow> None)"

definition map_redis :: "(string \<times> bytes \<times> int) list redis_api" where
  "map_redis = \<lparr>
     rd_Get = (\<lambda>now k s. (case map_view s now k of Some v \<Rightarrow> Inr v | None \<Rightarrow> Inl KVNotFound, s)),
     rd_Set = (\<lambda>now k v e s. (Inr (), (k, v, now + e) # s)),
     rd_Scan = (\<lambda>now p s. ((filter (\<lambda>k. map_view s now k \<noteq> None \<and> take (length p - 1) k = butlast p) (map fst s), None), s)),
     rd_Del = (\<lambda>now k s. (Inr (), filter (\<lambda>e. fst e \<noteq> k) s))\<rparr>"

lemma map_of_filter_key: "map_of (filter (\<lambda>e. fst e \<noteq> k) s) j = (if j = k then None else map_of s j)"
  by (induction s) auto

lemma map_view_dom: "map_view s t k = Some v \<Longrightarrow> k \<in> fst ` set s"
  by (force simp: map_view_def split: option.splits dest: map_of_SomeD)

lemma map_view_scan: "{k \<in> fst ` set s. \<exists>v. map_view s t k = Some v} = dom (map_view s t)"
  by (auto simp: dom_def dest: map_view_dom)

lemma map_redis_ok: "redis_ok map_redis map_view"
proof -
  have "set (fst (fst (rd_Scan map_redis now (p @ ''*'') s))) = {k \<in> dom (map_view s now). take (length p) k = p}" for now p s
    unfolding map_view_scan [symmetric] by (auto simp: map_redis_def butlast_append)
  moreover have "map_view (filter (\<lambda>e. fst e \<noteq> k) s) t = (map_view s t)(k := None)" for s t k
    by (simp add: map_view_def map_of_filter_key fun_eq_iff)
  ultimately show ?thesis
    by (auto simp: redis_ok_def) (auto simp: map_redis_def map_view_def fun_eq_iff split: option.splits)
qed




end
