(* ===== verification/Config.thy ===== *)
theory Config
  imports Golib
begin

text \<open>
  \<open>internal/config/config.go\<close>: the configuration, its defaults, and loading and saving it. Reading and
  writing the file (\<open>os\<close>) and the YAML library are parameters: the decoder is given the
  configuration it decodes into and returns what it left there, with its error if it had one.
\<close>

(* internal/config/config.go:20-22 Base *)
record Base =
  QredoAPI :: string

(* internal/config/config.go:24-28 TLSConfig *)
record TLSConfig =
  tls_Enabled :: bool
  tls_CertFile :: string
  tls_KeyFile :: string

(* internal/config/config.go:30-34 AutoApprove *)
record AutoApprove =
  aa_Enabled :: bool
  aa_RetryIntervalMax :: int
  aa_RetryInterval :: int

(* internal/config/config.go:36-45 WebSocketConfig *)
record WebSocketConfig =
  QredoWebsocket :: string
  ReconnectTimeOut :: int
  ReconnectInterval :: int
  PingPeriod :: int
  PongWait :: int
  WriteWait :: int
  ReadBufferSize :: int
  WriteBufferSize :: int

(* internal/config/config.go:55-60 OciConfig *)
record OciConfig =
  oci_Compartment :: string
  oci_Vault :: string
  oci_SecretEncryptionKey :: string
  oci_ConfigSecret :: string

(* internal/config/config.go:62-65 AWSConfig *)
record AWSConfig =
  aws_Region :: string
  aws_SecretName :: string

(* internal/config/config.go:67-70 GCPConfig *)
record GCPConfig =
  gcp_ProjectID :: string
  gcp_SecretName :: string

(* internal/config/config.go:47-53 Store *)
record Store =
  st_Type :: string
  st_FileConfig :: string
  st_OciConfig :: OciConfig
  st_AwsConfig :: AWSConfig
  st_GcpConfig :: GCPConfig

(* internal/config/config.go:72-77 HttpSettings *)
record HttpSettings =
  http_Addr :: string
  http_CORSAllowOrigins :: "string list"
  http_LogAllRequests :: bool
  http_TLS :: TLSConfig

(* internal/config/config.go:79-82 Logging *)
record Logging =
  log_Format :: string
  log_Level :: string

(* internal/config/config.go:91-96 RedisConfig *)
record RedisConfig =
  redis_Host :: string
  redis_Port :: int
  redis_Password :: string
  redis_DB :: int

(* internal/config/config.go:84-89 LoadBalancing *)
record LoadBalancing =
  lb_Enable :: bool
  lb_OnLockErrorTimeOutMs :: int
  lb_ActionIDExpirationSec :: int
  lb_RedisConfig :: RedisConfig

(* internal/config/config.go:10-18 Config *)
record Config =
  cfg_Base :: Base
  cfg_HTTP :: HttpSettings
  cfg_Logging :: Logging
  cfg_LoadBalancing :: LoadBalancing
  cfg_Store :: Store
  cfg_AutoApprove :: AutoApprove
  cfg_Websocket :: WebSocketConfig

text \<open>The zero value, \<open>var cfg config.Config\<close>.\<close>

definition zero_Config :: Config where
  "zero_Config = \<lparr>cfg_Base = \<lparr>QredoAPI = []\<rparr>,
     cfg_HTTP = \<lparr>http_Addr = [], http_CORSAllowOrigins = [], http_LogAllRequests = False,
       http_TLS = \<lparr>tls_Enabled = False, tls_CertFile = [], tls_KeyFile = []\<rparr>\<rparr>,
     cfg_Logging = \<lparr>log_Format = [], log_Level = []\<rparr>,
     cfg_LoadBalancing = \<lparr>lb_Enable = False, lb_OnLockErrorTimeOutMs = 0, lb_ActionIDExpirationSec = 0,
       lb_RedisConfig = \<lparr>redis_Host = [], redis_Port = 0, redis_Password = [], redis_DB = 0\<rparr>\<rparr>,
     cfg_Store = \<lparr>st_Type = [], st_FileConfig = [],
       st_OciConfig = \<lparr>oci_Compartment = [], oci_Vault = [], oci_SecretEncryptionKey = [], oci_ConfigSecret = []\<rparr>,
       st_AwsConfig = \<lparr>aws_Region = [], aws_SecretName = []\<rparr>, st_GcpConfig = \<lparr>gcp_ProjectID = [], gcp_SecretName = []\<rparr>\<rparr>,
     cfg_AutoApprove = \<lparr>aa_Enabled = False, aa_RetryIntervalMax = 0, aa_RetryInterval = 0\<rparr>,
     cfg_Websocket = \<lparr>QredoWebsocket = [], ReconnectTimeOut = 0, ReconnectInterval = 0, PingPeriod = 0,
       PongWait = 0, WriteWait = 0, ReadBufferSize = 0, WriteBufferSize = 0\<rparr>\<rparr>"

(* internal/config/config.go:98-138 Config.Default *)
definition Config_Default :: "Config \<Rightarrow> Config" where
  "Config_Default c =
    (let c = c\<lparr>cfg_HTTP := \<lparr>http_Addr = ''127.0.0.1:8007'', http_CORSAllowOrigins = [''*''], http_LogAllRequests = False,
           http_TLS = \<lparr>tls_Enabled = False, tls_CertFile = [], tls_KeyFile = []\<rparr>\<rparr>\<rparr>;
         c = c\<lparr>cfg_Base := (cfg_Base c)\<lparr>QredoAPI := ''https://api-v2.qredo.network/api/v2''\<rparr>\<rparr>;
         c = c\<lparr>cfg_AutoApprove := \<lparr>aa_Enabled = False, aa_RetryIntervalMax = 300, aa_RetryInterval = 5\<rparr>\<rparr>;
         c = c\<lparr>cfg_Websocket := \<lparr>QredoWebsocket = ''wss://api-v2.qredo.network/api/v2/actions/signrequests'',
           ReconnectTimeOut = 300, ReconnectInterval = 5, PingPeriod = 5, PongWait = 10, WriteWait = 10,
           ReadBufferSize = 512, WriteBufferSize = 1024\<rparr>\<rparr>;
         c = c\<lparr>cfg_Logging := (cfg_Logging c)\<lparr>log_Level := ''info''\<rparr>\<rparr>;
         c = c\<lparr>cfg_Logging := (cfg_Logging c)\<lparr>log_Format := ''json''\<rparr>\<rparr>;
         c = c\<lparr>cfg_Store := (cfg_Store c)\<lparr>st_Type := ''file''\<rparr>\<rparr>;
         c = c\<lparr>cfg_Store := (cfg_Store c)\<lparr>st_FileConfig := ''ccstore.db''\<rparr>\<rparr>
     in c\<lparr>cfg_LoadBalancing := \<lparr>lb_Enable = False, lb_OnLockErrorTimeOutMs = 300, lb_ActionIDExpirationSec = 6,
           lb_RedisConfig = \<lparr>redis_Host = ''redis'', redis_Port = 6379, redis_Password = [], redis_DB = 0\<rparr>\<rparr>\<rparr>)"

(* internal/config/config.go:140-153 Config.Load *)
definition Config_Load :: "(string \<Rightarrow> bytes res) \<Rightarrow> (bytes \<Rightarrow> Config \<Rightarrow> Config \<times> gerr option) \<Rightarrow> string \<Rightarrow> Config
    \<Rightarrow> Config \<times> gerr option" where
  "Config_Load ReadFile unmarshal fileName c =
     (case ReadFile fileName of
        Inl err \<Rightarrow> (c, Some (Wrapf ''read config file'' err))
      | Inr f \<Rightarrow>
          (case unmarshal f (Config_Default c) of
             (c, Some err) \<Rightarrow> (c, Some (Wrapf ''parse config file'' err))
           | (c, None) \<Rightarrow> (c, None)))"

(* internal/config/config.go:155-162 Config.Save *)
definition Config_Save :: "(string \<Rightarrow> bytes \<Rightarrow> gerr option) \<Rightarrow> (Config \<Rightarrow> bytes res) \<Rightarrow> Config \<Rightarrow> string \<Rightarrow> gerr option" where
  "Config_Save WriteFile marshal c fileName =
     (case marshal c of Inl err \<Rightarrow> Some err | Inr b \<Rightarrow> WriteFile fileName b)"

text \<open>A configuration made by \<open>Default\<close>: what the fields set there are for, whatever was there before.\<close>

definition cfg_default_ok :: "Config \<Rightarrow> bool" where
  "cfg_default_ok c \<longleftrightarrow> cfg_AutoApprove c = \<lparr>aa_Enabled = False, aa_RetryIntervalMax = 300, aa_RetryInterval = 5\<rparr> \<and>
     ReconnectInterval (cfg_Websocket c) > 0 \<and> ReconnectTimeOut (cfg_Websocket c) > 0 \<and>
     PingPeriod (cfg_Websocket c) > 0 \<and> PingPeriod (cfg_Websocket c) < PongWait (cfg_Websocket c) \<and>
     \<not> lb_Enable (cfg_LoadBalancing c) \<and> lb_ActionIDExpirationSec (cfg_LoadBalancing c) > 0 \<and>
     st_Type (cfg_Store c) = ''file'' \<and> \<not> tls_Enabled (http_TLS (cfg_HTTP c))"

lemma Config_Default_ok: "cfg_default_ok (Config_Default c)"
  by (simp add: cfg_default_ok_def Config_Default_def Let_def)

lemma Config_Default_idem: "Config_Default (Config_Default c) = Config_Default c"
  by (simp add: Config_Default_def Let_def)

end
