(* ===== verification/Http.thy ===== *)
theory Http
  imports Golib Defs
begin

text \<open>
  \<open>internal/util/httpclient.go\<close> and \<open>internal/util/request.go\<close>: the client of the Qredo API and the
  decoding of incoming requests.

  The world outside (network, server, clock) is a value of type \<open>'s\<close> that every call receives and
  returns. \<open>http.Client\<close> and \<open>http.NewRequest\<close> are the two fields of \<open>http_api\<close>; \<open>encoding/json\<close>
  appears as the encoded request and as the decoder of the response.
\<close>

type_synonym header = "(string \<times> string) list"

text \<open>\<open>http.CanonicalHeaderKey\<close>: a capital at the start and after each hyphen, small letters elsewhere.\<close>

fun canonical_key :: "bool \<Rightarrow> bytes \<Rightarrow> bytes" where
  "canonical_key up [] = []"
| "canonical_key up (b # s) =
     (if up \<and> 97 \<le> b \<and> b \<le> 122 then b - 32 else if \<not> up \<and> 65 \<le> b \<and> b \<le> 90 then b + 32 else b)
       # canonical_key (b = 45) s"

definition header_key :: "string \<Rightarrow> string" where
  "header_key k = string_of (canonical_key True (bytes_of k))"

definition header_add :: "string \<Rightarrow> string \<Rightarrow> header \<Rightarrow> header" where
  "header_add k v h = h @ [(header_key k, v)]"

definition header_set :: "string \<Rightarrow> string \<Rightarrow> header \<Rightarrow> header" where
  "header_set k v h = filter (\<lambda>e. fst e \<noteq> header_key k) h @ [(header_key k, v)]"

record http_request =
  rq_method :: string
  rq_url :: string
  rq_body :: "bytes option"
  rq_header :: header

record http_response =
  rs_StatusCode :: int
  rs_Body :: "bytes res"

(* internal/util/httpclient.go:13-27 HTTPClient, Client, NewHTTPClient *)
record 's http_api =
  http_NewRequest :: "string \<Rightarrow> string \<Rightarrow> gerr option"
  http_Do :: "http_request \<Rightarrow> 's \<Rightarrow> http_response res \<times> 's"

text \<open>What \<open>respData\<close> points to: nothing, a byte slice, or a value that is decoded from JSON.\<close>

datatype 'r resp_data = NilData | BytesData | JsonData "bytes \<Rightarrow> 'r res"

text \<open>The value left in \<open>respData\<close>: \<open>None\<close> when nothing is stored there.\<close>

(* internal/util/httpclient.go:47-98 Client.Request *)
definition Request :: "'s http_api \<Rightarrow> string \<Rightarrow> string \<Rightarrow> bytes res option \<Rightarrow> 'r resp_data \<Rightarrow> header option \<Rightarrow> 's
    \<Rightarrow> 'r option res \<times> 's" where
  "Request htc method url reqData respData headers s =
     (case reqData of Some (Inl err) \<Rightarrow> (Inl (Wrapf ''marshal request as JSON'' err), s)
      | _ \<Rightarrow>
        let body = (case reqData of Some (Inr jd) \<Rightarrow> Some jd | _ \<Rightarrow> None) in
        (case http_NewRequest htc method url of
           Some err \<Rightarrow> (Inl (Wrapf ''create request'' err), s)
         | None \<Rightarrow>
           let req = \<lparr>rq_method = method, rq_url = url, rq_body = body,
                 rq_header = (case headers of Some h \<Rightarrow> h | None \<Rightarrow> [])\<rparr> in
           (case http_Do htc req s of
              (Inl err, s) \<Rightarrow> (Inl (Wrapf ''request error'' err), s)
            | (Inr resp, s) \<Rightarrow>
              let statusOK = (200 \<le> rs_StatusCode resp \<and> rs_StatusCode resp < 300) in
              if \<not> statusOK then
                (case rs_Body resp of
                   Inr (b # bs) \<Rightarrow> (Inl (Errorf ''%v %v Status %v (%v) with body: %s''), s)
                 | _ \<Rightarrow> (Inl (Errorf ''%v %v Status %v (%v)''), s))
              else
                (case respData of
                   NilData \<Rightarrow> (Inr None, s)
                 | BytesData \<Rightarrow>
                     (case rs_Body resp of
                        Inl err \<Rightarrow> (Inl (Wrapf ''read response body'' err), s)
                      | Inr _ \<Rightarrow> (Inr None, s))
                 | JsonData unmarshal \<Rightarrow>
                     (case rs_Body resp of
                        Inl err \<Rightarrow> (Inl (Wrapf ''read response body'' err), s)
                      | Inr b \<Rightarrow>
                          (case unmarshal b of
                             Inl err \<Rightarrow> (Inl (Wrapf ''decode response as JSON'' err), s)
                           | Inr v \<Rightarrow> (Inr (Some v), s)))))))"

(* internal/util/httpclient.go:100-152 Client.RequestNoLog *)
definition RequestNoLog :: "'s http_api \<Rightarrow> string \<Rightarrow> string \<Rightarrow> bytes res option \<Rightarrow> 'r resp_data \<Rightarrow> header option \<Rightarrow> 's
    \<Rightarrow> 'r option res \<times> 's" where
  "RequestNoLog htc method url reqData respData headers s =
     (case reqData of Some (Inl err) \<Rightarrow> (Inl (Wrapf ''marshal request as JSON'' err), s)
      | _ \<Rightarrow>
        let body = (case reqData of Some (Inr jd) \<Rightarrow> Some jd | _ \<Rightarrow> None) in
        (case http_NewRequest htc method url of
           Some err \<Rightarrow> (Inl (Wrapf ''create request'' err), s)
         | None \<Rightarrow>
           let req = \<lparr>rq_method = method, rq_url = url, rq_body = body,
                 rq_header = (case headers of Some h \<Rightarrow> h | None \<Rightarrow> [])\<rparr> in
           (case http_Do htc req s of
              (Inl err, s) \<Rightarrow> (Inl (Wrapf ''request error'' err), s)
            | (Inr resp, s) \<Rightarrow>
              let statusOK = (200 \<le> rs_StatusCode resp \<and> rs_StatusCode resp < 300) in
              if \<not> statusOK then
                (case rs_Body resp of
                   Inr (b # bs) \<Rightarrow> (Inl (Errorf ''%v %v Status %v (%v) with body: %s''), s)
                 | _ \<Rightarrow> (Inl (Errorf ''%v %v Status %v (%v)''), s))
              else
                (case respData of
                   NilData \<Rightarrow> (Inr None, s)
                 | BytesData \<Rightarrow>
                     (case rs_Body resp of
                        Inl err \<Rightarrow> (Inl (Wrapf ''read response body'' err), s)
                      | Inr _ \<Rightarrow> (Inr None, s))
                 | JsonData unmarshal \<Rightarrow>
                     (case rs_Body resp of
                        Inl err \<Rightarrow> (Inl (Wrapf ''read response body'' err), s)
                      | Inr b \<Rightarrow>
                          (case unmarshal b of
                             Inl err \<Rightarrow> (Inl (Wrapf ''decode response as JSON'' err), s)
                           | Inr v \<Rightarrow> (Inr (Some v), s)))))))"

section \<open>Incoming requests\<close>

text \<open>
  The decoder of \<open>encoding/json\<close> and the validator library are parameters; \<open>EOF\<close> (an empty body)
  leaves the request as it is.
\<close>

datatype 'q decoded = DecodedEOF | DecodedErr gerr | Decoded 'q

(* internal/util/request.go:31-42 DecodeJSON *)
definition DecodeJSON :: "(bytes \<Rightarrow> 'q decoded) \<Rightarrow> bytes \<Rightarrow> 'q decoded" where
  "DecodeJSON jd body = jd body"

(* internal/util/request.go:13-29 DecodeRequest *)
definition DecodeRequest :: "(bytes \<Rightarrow> 'q decoded) \<Rightarrow> ('q \<Rightarrow> string option) \<Rightarrow> string \<Rightarrow> bytes \<Rightarrow> 'q \<Rightarrow> 'q res" where
  "DecodeRequest jd validate method body req =
     (let r = (if method \<in> {''POST'', ''PUT'', ''PATCH''} then
                 (case DecodeJSON jd body of
                    DecodedErr err \<Rightarrow> Inl (APIError_Wrap err (WithDetail ''invalid json'' ErrBadRequest))
                  | DecodedEOF \<Rightarrow> Inr req
                  | Decoded q \<Rightarrow> Inr q)
               else Inr req)
      in (case r of Inl e \<Rightarrow> Inl e
          | Inr q \<Rightarrow> (case validate q of
               Some msg \<Rightarrow> Inl (WithDetail msg ErrBadRequest)
             | None \<Rightarrow> Inr q)))"

section \<open>Properties\<close>

text \<open>The request that is sent when the body can be encoded and the request can be made.\<close>

definition sent :: "string \<Rightarrow> string \<Rightarrow> bytes option \<Rightarrow> header option \<Rightarrow> http_request" where
  "sent method url body headers = \<lparr>rq_method = method, rq_url = url, rq_body = body,
     rq_header = (case headers of Some h \<Rightarrow> h | None \<Rightarrow> [])\<rparr>"

lemma Request_sends:
  assumes "http_NewRequest htc method url = None"
  shows "snd (Request htc method url None r headers s) = snd (http_Do htc (sent method url None headers) s)"
    "snd (Request htc method url (Some (Inr b)) r headers s) = snd (http_Do htc (sent method url (Some b) headers) s)"
  using assms by (simp_all add: Request_def Let_def sent_def split: prod.splits sum.splits resp_data.splits list.splits)

lemma Request_never_api_error: "fst (Request htc method url q r headers s) = Inl e \<Longrightarrow> errors_As e = None \<or> (\<exists>f e'. e = Wrapf f e')"
  by (auto simp: Request_def Let_def split: option.splits prod.splits sum.splits resp_data.splits list.splits if_splits)

lemma RequestNoLog_Request: "RequestNoLog htc method url q r headers s = Request htc method url q r headers s"
  by (simp add: RequestNoLog_def Request_def)

definition response_result :: "http_response \<Rightarrow> 'r resp_data \<Rightarrow> 'r option res" where
  "response_result resp r =
     (if rs_StatusCode resp < 200 \<or> 300 \<le> rs_StatusCode resp then
        Inl (Errorf (case rs_Body resp of Inr (b # bs) \<Rightarrow> ''%v %v Status %v (%v) with body: %s'' | _ \<Rightarrow> ''%v %v Status %v (%v)''))
      else (case r of NilData \<Rightarrow> Inr None
        | BytesData \<Rightarrow> (case rs_Body resp of Inl err \<Rightarrow> Inl (Wrapf ''read response body'' err) | Inr _ \<Rightarrow> Inr None)
        | JsonData dec \<Rightarrow>
            (case rs_Body resp of Inl err \<Rightarrow> Inl (Wrapf ''read response body'' err)
             | Inr b \<Rightarrow> (case dec b of Inl err \<Rightarrow> Inl (Wrapf ''decode response as JSON'' err) | Inr v \<Rightarrow> Inr (Some v)))))"

lemma Request_eq:
  assumes "http_NewRequest htc method url = None"
  shows "Request htc method url (map_option Inr body) r hdr s =
    (case http_Do htc (sent method url body hdr) s of
       (Inl e, s') \<Rightarrow> (Inl (Wrapf ''request error'' e), s')
     | (Inr resp, s') \<Rightarrow> (response_result resp r, s'))"
proof -
  have "Request htc method url (map_option Inr body) r hdr s =
    (case http_Do htc (sent method url body hdr) s of
       (Inl e, s') \<Rightarrow> (Inl (Wrapf ''request error'' e), s')
     | (Inr resp, s') \<Rightarrow> (fst (Request htc method url (map_option Inr body) r hdr s), s'))"
    using assms unfolding Request_def Let_def sent_def
    by (cases body) (simp_all split: prod.split sum.split resp_data.split list.split)
  moreover have "http_Do htc (sent method url body hdr) s = (Inr resp, s') \<Longrightarrow>
      fst (Request htc method url (map_option Inr body) r hdr s) = response_result resp r" for resp s'
    using assms unfolding Request_def Let_def sent_def response_result_def
    by (cases body; cases r; cases "rs_Body resp") (simp_all split: sum.split list.split)
  ultimately show ?thesis by (simp split: prod.splits sum.splits)
qed

lemma response_result_ok:
  "is_ok (response_result resp r) \<longleftrightarrow> rs_StatusCode resp \<in> {200..299} \<and>
     (r = NilData \<or> is_ok (rs_Body resp) \<and>
       (\<forall>dec b. r = JsonData dec \<longrightarrow> rs_Body resp = Inr b \<longrightarrow> is_ok (dec b)))"
  by (cases r) (auto simp: response_result_def split: sum.splits)

lemma response_result_stored:
  "response_result resp r = Inr (Some v) \<Longrightarrow> \<exists>dec b. r = JsonData dec \<and> rs_Body resp = Inr b \<and> dec b = Inr v"
  by (cases r) (auto simp: response_result_def split: sum.splits if_splits)

text \<open>
  A request that can be made is sent exactly once, with the given method, URL, encoded body and
  headers. A transport error is returned wrapped. Otherwise the call succeeds exactly when the
  status is in 200..299 and, where a response is wanted, its body can be read and decoded; a value
  is stored only by decoding JSON, so a caller that passes a byte slice never receives the body.
  \<open>RequestNoLog\<close> does the same.
\<close>

theorem Request_spec:
  fixes htc :: "'s http_api" and r :: "'r resp_data" and body :: "bytes option" and hdr :: "header option" and s :: 's
  assumes new: "http_NewRequest htc method url = None"
  defines "res \<equiv> Request htc method url (map_option Inr body) r hdr s"
  shows "RequestNoLog htc method url (map_option Inr body) r hdr s = res \<and>
    (case http_Do htc (sent method url body hdr) s of
       (Inl e, s') \<Rightarrow> res = (Inl (Wrapf ''request error'' e), s')
     | (Inr resp, s') \<Rightarrow> snd res = s' \<and>
         (is_ok (fst res) \<longleftrightarrow> rs_StatusCode resp \<in> {200..299} \<and>
            (r = NilData \<or> is_ok (rs_Body resp) \<and>
              (\<forall>dec b. r = JsonData dec \<longrightarrow> rs_Body resp = Inr b \<longrightarrow> is_ok (dec b)))) \<and>
         (\<forall>v. fst res = Inr (Some v) \<longrightarrow> (\<exists>dec b. r = JsonData dec \<and> rs_Body resp = Inr b \<and> dec b = Inr v)))"
  using Request_eq [OF new, of body r hdr s] response_result_stored [where r = r]
  by (simp add: RequestNoLog_Request res_def response_result_ok split: prod.split sum.split)

theorem Request_spec_witness:
  "Request \<lparr>http_NewRequest = (\<lambda>m u. None), http_Do = (\<lambda>q n. (Inr \<lparr>rs_StatusCode = 204, rs_Body = Inr [1]\<rparr>, Suc n))\<rparr>
     ''GET'' ''u'' None (BytesData :: bytes resp_data) None (0 :: nat) = (Inr None, 1)"
  using Request_spec [of "\<lparr>http_NewRequest = (\<lambda>m u. None), http_Do = (\<lambda>q n. (Inr \<lparr>rs_StatusCode = 204, rs_Body = Inr [1]\<rparr>, Suc n))\<rparr>"
      "''GET''" "''u''" None "BytesData :: bytes resp_data" None "0 :: nat"]
  by (auto simp: prod_eq_iff is_ok_def)

end
