(* ===== verification/Signer.thy ===== *)
theory Signer
  imports Http
begin

text \<open>
  \<open>internal/action/signer.go\<close>: fetching an action from the Qredo API, signing its message with the BLS
  key of the agent and posting the signature.

  The state is that of the world outside (\<open>'s\<close>: network and token) and the C memory. A Go panic is
  the outcome \<open>Panic\<close>, with the state it leaves.
\<close>

section \<open>Outcomes\<close>

datatype 'a ret = Ret 'a | Panic

section \<open>The signer\<close>

(* internal/action/signer.go:16-19 signRequest *)
record signRequest =
  sr_Status :: int
  sr_Signatures :: "string list"

(* internal/action/signer.go:21-25 getActionResponse *)
record getActionResponse =
  ga_Messages :: "string list"
  ga_Status :: int
  ga_ID :: string

(* internal/action/signer.go:27-30 approve, reject *)
definition approve :: int where "approve = 3"
definition reject :: int where "reject = 4"

text \<open>
  What the signer calls: the HTTP client, the header of the authentication provider,
  \<open>encoding/json\<close> on its two messages, and the C library.
\<close>

record 's signer_lib =
  sg_htc :: "'s http_api"
  sg_GetAuthHeader :: "'s \<Rightarrow> header"
  sg_encode :: "signRequest \<Rightarrow> bytes res"
  sg_decode :: "bytes \<Rightarrow> getActionResponse res"
  sg_core :: core_api
  sg_bls :: bls_api

(* internal/action/signer.go:39-46 actionSigner *)
record actionSigner =
  as_baseURL :: string
  as_blsPrivateKey :: bytes

(* internal/action/signer.go:65-74 actionSigner.SetKey *)
definition SetKey :: "string \<Rightarrow> actionSigner \<Rightarrow> gerr option \<times> actionSigner" where
  "SetKey blsPrivateKey s =
     (case std_decode blsPrivateKey of
        (data, False) \<Rightarrow> (Some (Errorf ''invalid bls key''), s)
      | (data, True) \<Rightarrow> (None, s\<lparr>as_blsPrivateKey := data\<rparr>))"

(* internal/action/signer.go:48-63 NewSigner *)
definition NewSigner :: "string \<Rightarrow> string \<Rightarrow> actionSigner res" where
  "NewSigner baseURL blsPrivateKey =
     (let s = \<lparr>as_baseURL = baseURL, as_blsPrivateKey = []\<rparr> in
      if length blsPrivateKey > 0
      then (case SetKey blsPrivateKey s of
              (Some err, s) \<Rightarrow> Inl (Errorf ''invalid bls key'')
            | (None, s) \<Rightarrow> Inr s)
      else Inr s)"

(* internal/action/signer.go:98-116 actionSigner.getActionMessage *)
definition getActionMessage :: "'s signer_lib \<Rightarrow> actionSigner \<Rightarrow> string \<Rightarrow> 's \<times> cmem \<Rightarrow> bytes res ret \<times> 's \<times> cmem" where
  "getActionMessage lib s actionID w =
     (case w of (w, mem) \<Rightarrow>
      let header = sg_GetAuthHeader lib w in
      (case Request (sg_htc lib) ''GET'' (URLAction (as_baseURL s) actionID) None (JsonData (sg_decode lib)) (Some header) w of
         (Inl err, w) \<Rightarrow> (Ret (Inl err), w, mem)
       | (Inr v, w) \<Rightarrow>
           let resp = (case v of Some r \<Rightarrow> r | None \<Rightarrow> \<lparr>ga_Messages = [], ga_Status = 0, ga_ID = []\<rparr>) in
           if ga_Status resp \<noteq> StatusPending
           then (Ret (Inl (WithDetail ''action can't be signed, status not pending'' ErrBadRequest)), w, mem)
           else (case ga_Messages resp of
                   [] \<Rightarrow> (Panic, w, mem)
                 | m # _ \<Rightarrow>
                     (case hex_decode m of
                        Inl err \<Rightarrow> (Ret (Inl (WithDetail ''failed to decode the action message'' ErrInternal)), w, mem)
                      | Inr message \<Rightarrow> (Ret (Inr message), w, mem)))))"

(* internal/action/signer.go:118-138 actionSigner.signAction *)
definition signAction :: "'s signer_lib \<Rightarrow> actionSigner \<Rightarrow> string \<Rightarrow> slice \<Rightarrow> int \<Rightarrow> 's \<times> cmem \<Rightarrow> gerr option ret \<times> 's \<times> cmem" where
  "signAction lib s actionID message status w =
     (case w of (w, mem) \<Rightarrow>
      if length (as_blsPrivateKey s) = 0
      then (Ret (Some (WithDetail ''failed to generate signature, invalid blsKey'' ErrInternal)), w, mem)
      else
        (case BLSSign (sg_core lib) (sg_bls lib) message (Some (as_blsPrivateKey s)) mem of
           None \<Rightarrow> (Panic, w, mem)
         | Some ((blsSig, _), mem) \<Rightarrow>
             let signature = hex_encode blsSig;
                 req = \<lparr>sr_Status = status, sr_Signatures = [signature]\<rparr>;
                 header = sg_GetAuthHeader lib w in
             (case Request (sg_htc lib) ''POST'' (URLAction (as_baseURL s) actionID) (Some (sg_encode lib req))
                     (NilData :: unit resp_data) (Some header) w of
                (Inl err, w) \<Rightarrow> (Ret (Some (WithDetail ''failed to sign the action'' ErrInternal)), w, mem)
              | (Inr _, w) \<Rightarrow> (Ret None, w, mem))))"

(* internal/action/signer.go:76-83 actionSigner.ActionApprove *)
definition ActionApprove :: "'s signer_lib \<Rightarrow> actionSigner \<Rightarrow> string \<Rightarrow> 's \<times> cmem \<Rightarrow> gerr option ret \<times> 's \<times> cmem" where
  "ActionApprove lib s actionID w =
     (case getActionMessage lib s actionID w of
        (Panic, w) \<Rightarrow> (Panic, w)
      | (Ret (Inl err), w) \<Rightarrow> (Ret (Some err), w)
      | (Ret (Inr message), w) \<Rightarrow> signAction lib s actionID (Some message) approve w)"

(* internal/action/signer.go:85-92 actionSigner.ActionReject *)
definition ActionReject :: "'s signer_lib \<Rightarrow> actionSigner \<Rightarrow> string \<Rightarrow> 's \<times> cmem \<Rightarrow> gerr option ret \<times> 's \<times> cmem" where
  "ActionReject lib s actionID w =
     (case getActionMessage lib s actionID w of
        (Panic, w) \<Rightarrow> (Panic, w)
      | (Ret (Inl err), w) \<Rightarrow> (Ret (Some err), w)
      | (Ret (Inr message), w) \<Rightarrow> signAction lib s actionID (Some message) reject w)"

(* internal/action/signer.go:94-96 actionSigner.ApproveActionMessage *)
definition ApproveActionMessage :: "'s signer_lib \<Rightarrow> actionSigner \<Rightarrow> string \<Rightarrow> slice \<Rightarrow> 's \<times> cmem \<Rightarrow> gerr option ret \<times> 's \<times> cmem" where
  "ApproveActionMessage lib s actionID message w = signAction lib s actionID message approve w"

text \<open>The interface that the action service and the auto approver use, over any world.\<close>

(* internal/action/signer.go:32-37 Signer *)
record 'w signer_api =
  si_SetKey :: "string \<Rightarrow> 'w \<Rightarrow> gerr option \<times> 'w"
  si_ActionApprove :: "string \<Rightarrow> 'w \<Rightarrow> gerr option ret \<times> 'w"
  si_ActionReject :: "string \<Rightarrow> 'w \<Rightarrow> gerr option ret \<times> 'w"
  si_ApproveActionMessage :: "string \<Rightarrow> slice \<Rightarrow> 'w \<Rightarrow> gerr option ret \<times> 'w"

definition signer_impl :: "'s signer_lib \<Rightarrow> (actionSigner \<times> 's \<times> cmem) signer_api" where
  "signer_impl lib = \<lparr>
     si_SetKey = (\<lambda>k (s, w). (case SetKey k s of (e, s) \<Rightarrow> (e, s, w))),
     si_ActionApprove = (\<lambda>i (s, w). (case ActionApprove lib s i w of (r, w) \<Rightarrow> (r, s, w))),
     si_ActionReject = (\<lambda>i (s, w). (case ActionReject lib s i w of (r, w) \<Rightarrow> (r, s, w))),
     si_ApproveActionMessage = (\<lambda>i m (s, w). (case ApproveActionMessage lib s i m w of (r, w) \<Rightarrow> (r, s, w))) \<rparr>"

section \<open>What goes over the wire\<close>

text \<open>The same client, with the requests it sends recorded.\<close>

definition logged :: "'s http_api \<Rightarrow> ('s \<times> http_request list) http_api" where
  "logged htc = \<lparr>http_NewRequest = http_NewRequest htc,
     http_Do = (\<lambda>rq (s, l). (case http_Do htc rq s of (r, s') \<Rightarrow> (r, s', l @ [rq])))\<rparr>"

definition logged_lib :: "'s signer_lib \<Rightarrow> ('s \<times> http_request list) signer_lib" where
  "logged_lib lib = \<lparr>sg_htc = logged (sg_htc lib), sg_GetAuthHeader = (\<lambda>(s, l). sg_GetAuthHeader lib s),
     sg_encode = sg_encode lib, sg_decode = sg_decode lib, sg_core = sg_core lib, sg_bls = sg_bls lib\<rparr>"

text \<open>The signature the library makes, whatever its return code is.\<close>

definition signature_of :: "bls_api \<Rightarrow> bytes \<Rightarrow> bytes \<Rightarrow> bytes" where
  "signature_of bls key m = the_bytes (snd (BLS_SIGN bls [Some (fresh_octet SIGLen), Some (octet_of m), Some (octet_of key)]) ! 0)"

definition signer_env :: "'s signer_lib \<Rightarrow> actionSigner \<Rightarrow> bool" where
  "signer_env lib s \<longleftrightarrow> core_ok (sg_core lib) \<and> bls_ok (sg_bls lib) \<and> small (Some (as_blsPrivateKey s)) \<and>
     (\<forall>m u. http_NewRequest (sg_htc lib) m u = None) \<and> (\<forall>r. is_ok (sg_encode lib r))"

text \<open>The two requests.\<close>

definition get_request :: "'s signer_lib \<Rightarrow> actionSigner \<Rightarrow> string \<Rightarrow> 's \<Rightarrow> http_request" where
  "get_request lib s i w = sent ''GET'' (URLAction (as_baseURL s) i) None (Some (sg_GetAuthHeader lib w))"

definition post_request :: "'s signer_lib \<Rightarrow> actionSigner \<Rightarrow> string \<Rightarrow> bytes \<Rightarrow> int \<Rightarrow> 's \<Rightarrow> http_request" where
  "post_request lib s i m status w = sent ''POST'' (URLAction (as_baseURL s) i)
     (Some (projr (sg_encode lib \<lparr>sr_Status = status,
        sr_Signatures = [hex_encode (signature_of (sg_bls lib) (as_blsPrivateKey s) m)]\<rparr>))) (Some (sg_GetAuthHeader lib w))"

definition post_ok :: "http_response res \<Rightarrow> bool" where
  "post_ok r \<longleftrightarrow> (\<exists>resp. r = Inr resp \<and> rs_StatusCode resp \<in> {200..299})"

text \<open>The answer to the first request that leads to a signature.\<close>

definition answer :: "'s signer_lib \<Rightarrow> http_response res \<Rightarrow> getActionResponse option" where
  "answer lib r = (case r of Inl e \<Rightarrow> None | Inr resp \<Rightarrow>
     (case response_result resp (JsonData (sg_decode lib)) of Inr (Some v) \<Rightarrow> Some v | _ \<Rightarrow> None))"

definition pending_message :: "'s signer_lib \<Rightarrow> http_response res \<Rightarrow> bytes \<Rightarrow> bool" where
  "pending_message lib r m \<longleftrightarrow> (\<exists>v. answer lib r = Some v \<and> ga_Status v = 1 \<and> ga_Messages v \<noteq> [] \<and>
     hex_decode (hd (ga_Messages v)) = Inr m)"

definition no_message :: "'s signer_lib \<Rightarrow> http_response res \<Rightarrow> bool" where
  "no_message lib r \<longleftrightarrow> (\<exists>v. answer lib r = Some v \<and> ga_Status v = 1 \<and> ga_Messages v = [])"

lemma signer_envD:
  assumes "signer_env lib s"
  shows "core_ok (sg_core lib)" "bls_ok (sg_bls lib)" "small (Some (as_blsPrivateKey s))"
    "http_NewRequest (sg_htc lib) me u = None" "sg_encode lib r = Inr (projr (sg_encode lib r))"
proof -
  have "is_ok (sg_encode lib r)" using assms by (simp add: signer_env_def)
  then show "sg_encode lib r = Inr (projr (sg_encode lib r))" by (auto simp: is_ok_def)
qed (use assms in \<open>simp_all add: signer_env_def\<close>)

lemma Request_post:
  assumes "http_NewRequest htc method url = None" and "http_Do htc (sent method url (Some body) hdr) s = (r, s')"
  shows "\<exists>e. Request htc method url (Some (Inr body)) (NilData :: unit resp_data) hdr s = (if post_ok r then Inr None else Inl e, s')"
  using Request_eq [OF assms(1), of "Some body" "NilData :: unit resp_data" hdr s] assms(2)
  by (cases r) (auto simp: response_result_def post_ok_def)

lemma signAction_eq:
  assumes env: "signer_env lib s" and key: "as_blsPrivateKey s \<noteq> []" and small: "small (Some m)"
  shows "\<exists>mem'. frees mem [0, 1] mem' \<and> signAction lib s i (Some m) st (w, mem) =
    (case http_Do (sg_htc lib) (post_request lib s i m st w) w of (r, w') \<Rightarrow>
       (Ret (if post_ok r then None else Some (ApiError 500 ''failed to sign the action'' None)), w', mem'))"
proof -
  note E = signer_envD [OF env]
  obtain rc os where lib: "BLS_SIGN (sg_bls lib) [Some (fresh_octet SIGLen), Some (octet_of m), Some (octet_of (as_blsPrivateKey s))] = (rc, os)"
    by fastforce
  then obtain mem' where sign: "BLSSign (sg_core lib) (sg_bls lib) (Some m) (Some (as_blsPrivateKey s)) mem =
      Some ((the_bytes (os ! 0), codeToError rc), mem')" and fr: "frees mem [0, 1] mem'"
    using E small by (auto simp: BLSSign_eq frees_append wiped_clear_opt)
  have sig: "the_bytes (os ! 0) = signature_of (sg_bls lib) (as_blsPrivateKey s) m" using lib by (simp add: signature_of_def)
  define rq where "rq = \<lparr>sr_Status = st, sr_Signatures = [hex_encode (the_bytes (os ! 0))]\<rparr>"
  have enc: "sg_encode lib rq = Inr (projr (sg_encode lib rq))" by (rule E(5))
  have p: "post_request lib s i m st w = sent ''POST'' (URLAction (as_baseURL s) i) (Some (projr (sg_encode lib rq))) (Some (sg_GetAuthHeader lib w))"
    by (simp add: post_request_def rq_def sig)
  obtain r w' where do: "http_Do (sg_htc lib) (post_request lib s i m st w) w = (r, w')" by fastforce
  obtain e where R: "Request (sg_htc lib) ''POST'' (URLAction (as_baseURL s) i) (Some (Inr (projr (sg_encode lib rq))))
      (NilData :: unit resp_data) (Some (sg_GetAuthHeader lib w)) w = (if post_ok r then Inr None else Inl e, w')"
    using Request_post [OF E(4) do [unfolded p]] by blast
  have "signAction lib s i (Some m) st (w, mem) =
       (Ret (if post_ok r then None else Some (ApiError 500 ''failed to sign the action'' None)), w', mem')"
    unfolding signAction_def using key
    by (simp add: sign Let_def rq_def [symmetric] enc [symmetric] R [folded enc] ErrInternal_def)
  with fr do show ?thesis by auto
qed

lemma getActionMessage_eq:
  assumes new: "\<And>m u. http_NewRequest (sg_htc lib) m u = None" and get: "http_Do (sg_htc lib) (get_request lib s i w) w = (r, w')"
  shows "pending_message lib r m \<Longrightarrow> getActionMessage lib s i (w, mem) = (Ret (Inr m), w', mem)"
    "no_message lib r \<Longrightarrow> getActionMessage lib s i (w, mem) = (Panic, w', mem)"
    "\<not> no_message lib r \<Longrightarrow> \<nexists>m. pending_message lib r m \<Longrightarrow> \<exists>e. getActionMessage lib s i (w, mem) = (Ret (Inl e), w', mem)"
proof -
  define rep where "rep = Request (sg_htc lib) ''GET'' (URLAction (as_baseURL s) i) None (JsonData (sg_decode lib)) (Some (sg_GetAuthHeader lib w)) w"
  have rep: "rep = (case r of Inl e \<Rightarrow> (Inl (Wrapf ''request error'' e), w') | Inr resp \<Rightarrow> (response_result resp (JsonData (sg_decode lib)), w'))"
    using Request_eq [OF new, of "''GET''" "URLAction (as_baseURL s) i" None "JsonData (sg_decode lib)" "Some (sg_GetAuthHeader lib w)" w]
      get [unfolded get_request_def]
    by (simp add: rep_def split: sum.split)
  have some: "response_result resp (JsonData (sg_decode lib)) \<noteq> Inr None" for resp
    by (auto simp: response_result_def split: sum.splits)
  have ans: "(\<exists>v. answer lib r = Some v \<and> rep = (Inr (Some v), w')) \<or> answer lib r = None \<and> (\<exists>e. rep = (Inl e, w'))"
    using some by (auto simp: rep answer_def split: sum.splits option.splits)
  note G = getActionMessage_def [of lib s i "(w, mem)", simplified, folded rep_def] and D = pending_message_def no_message_def
    StatusPending_def ErrBadRequest_def ErrInternal_def
  show "pending_message lib r m \<Longrightarrow> getActionMessage lib s i (w, mem) = (Ret (Inr m), w', mem)"
    using ans by (auto simp: G D split: list.splits)
  show "no_message lib r \<Longrightarrow> getActionMessage lib s i (w, mem) = (Panic, w', mem)"
    using ans by (auto simp: G D)
  show "\<not> no_message lib r \<Longrightarrow> \<nexists>m. pending_message lib r m \<Longrightarrow> \<exists>e. getActionMessage lib s i (w, mem) = (Ret (Inl e), w', mem)"
    using ans by (auto simp: G D split: list.splits sum.splits)
qed

lemma logged_sel [simp]:
  "http_Do (logged h) rq (s, l) = (fst (http_Do h rq s), snd (http_Do h rq s), l @ [rq])"
  "http_NewRequest (logged h) = http_NewRequest h"
  "sg_htc (logged_lib lib) = logged (sg_htc lib)" "sg_GetAuthHeader (logged_lib lib) (s, l) = sg_GetAuthHeader lib s"
  "sg_encode (logged_lib lib) = sg_encode lib" "sg_decode (logged_lib lib) = sg_decode lib"
  "sg_core (logged_lib lib) = sg_core lib" "sg_bls (logged_lib lib) = sg_bls lib"
  by (simp_all add: logged_def logged_lib_def split: prod.split)

lemma logged_answer [simp]: "answer (logged_lib lib) r = answer lib r"
  by (cases r) (simp_all add: answer_def)

lemma logged_same [simp]:
  "signer_env (logged_lib lib) s = signer_env lib s"
  "get_request (logged_lib lib) s i (w, l) = get_request lib s i w"
  "post_request (logged_lib lib) s i m st (w, l) = post_request lib s i m st w"
  "pending_message (logged_lib lib) r m = pending_message lib r m"
  "no_message (logged_lib lib) r = no_message lib r"
  by (simp_all add: signer_env_def get_request_def post_request_def pending_message_def no_message_def)

text \<open>Approving and rejecting differ in the status they post.\<close>

definition sign_pending :: "int \<Rightarrow> 's signer_lib \<Rightarrow> actionSigner \<Rightarrow> string \<Rightarrow> 's \<times> cmem \<Rightarrow> gerr option ret \<times> 's \<times> cmem" where
  "sign_pending st lib s i w = (if st = approve then ActionApprove lib s i w else ActionReject lib s i w)"

lemma sign_pending_eq: "st = approve \<or> st = reject \<Longrightarrow> sign_pending st lib s i w =
     (case getActionMessage lib s i w of
        (Panic, w) \<Rightarrow> (Panic, w)
      | (Ret (Inl err), w) \<Rightarrow> (Ret (Some err), w)
      | (Ret (Inr message), w) \<Rightarrow> signAction lib s i (Some message) st w)"
proof (elim disjE)
  assume r: "st = reject"
  have "(reject = approve) = False" by (simp add: approve_def reject_def)
  then show ?thesis unfolding r sign_pending_def ActionReject_def by (simp only: if_False)
next
  assume r: "st = approve"
  show ?thesis unfolding r sign_pending_def ActionApprove_def by simp
qed

lemma getActionMessage_logged:
  assumes env: "signer_env lib s" and get: "http_Do (sg_htc lib) (get_request lib s i w) w = (r, w1)"
  shows "pending_message lib r m \<Longrightarrow>
      getActionMessage (logged_lib lib) s i ((w, l), mem) = (Ret (Inr m), (w1, l @ [get_request lib s i w]), mem)"
    "no_message lib r \<Longrightarrow>
      getActionMessage (logged_lib lib) s i ((w, l), mem) = (Panic, (w1, l @ [get_request lib s i w]), mem)"
    "\<not> no_message lib r \<Longrightarrow> \<nexists>m. pending_message lib r m \<Longrightarrow>
      \<exists>e. getActionMessage (logged_lib lib) s i ((w, l), mem) = (Ret (Inl e), (w1, l @ [get_request lib s i w]), mem)"
proof -
  let ?L = "logged_lib lib"
  have new: "\<And>m u. http_NewRequest (sg_htc ?L) m u = None" using signer_envD(4) [OF env] by simp
  have do: "http_Do (sg_htc ?L) (get_request ?L s i (w, l)) (w, l) = (r, w1, l @ [get_request lib s i w])"
    by (simp add: get)
  note G = getActionMessage_eq [OF new do, unfolded logged_same]
  show "pending_message lib r m \<Longrightarrow>
      getActionMessage ?L s i ((w, l), mem) = (Ret (Inr m), (w1, l @ [get_request lib s i w]), mem)" by (rule G(1))
  show "no_message lib r \<Longrightarrow> getActionMessage ?L s i ((w, l), mem) = (Panic, (w1, l @ [get_request lib s i w]), mem)" by (rule G(2))
  show "\<not> no_message lib r \<Longrightarrow> \<nexists>m. pending_message lib r m \<Longrightarrow>
      \<exists>e. getActionMessage ?L s i ((w, l), mem) = (Ret (Inl e), (w1, l @ [get_request lib s i w]), mem)" by (rule G(3))
qed

lemma sign_pending_signs:
  assumes env: "signer_env lib s" and st: "st = approve \<or> st = reject"
    and get: "http_Do (sg_htc lib) (get_request lib s i w) w = (r, w1)"
    and p: "pending_message lib r m" "as_blsPrivateKey s \<noteq> []" "small (Some m)"
  shows "\<exists>mem2. frees mem [0, 1] mem2 \<and> sign_pending st (logged_lib lib) s i ((w, l), mem) =
    (Ret (if post_ok (fst (http_Do (sg_htc lib) (post_request lib s i m st w1) w1)) then None
          else Some (ApiError 500 ''failed to sign the action'' None)),
     (snd (http_Do (sg_htc lib) (post_request lib s i m st w1) w1), l @ [get_request lib s i w, post_request lib s i m st w1]), mem2)"
proof -
  have env': "signer_env (logged_lib lib) s" using env by simp
  note G = getActionMessage_logged(1) [OF env get p(1), of l mem]
  show ?thesis
    using signAction_eq [OF env' p(2,3), of mem i st "(w1, l @ [get_request lib s i w])"]
      sign_pending_eq [OF st, of "logged_lib lib" s i "((w, l), mem)"] G by auto
qed

lemma sign_pending_refuses:
  assumes env: "signer_env lib s" and st: "st = approve \<or> st = reject"
    and get: "http_Do (sg_htc lib) (get_request lib s i w) w = (r, w1)"
    and bad: "(\<nexists>m. pending_message lib r m) \<or> as_blsPrivateKey s = []"
  shows "\<exists>out. sign_pending st (logged_lib lib) s i ((w, l), mem) = (out, (w1, l @ [get_request lib s i w]), mem) \<and>
    out \<noteq> Ret None \<and> (out = Panic \<longleftrightarrow> no_message lib r)"
proof -
  note G = getActionMessage_logged [OF env get]
    and S = sign_pending_eq [OF st, of "logged_lib lib" s i "((w, l), mem)"]
  consider m where "pending_message lib r m" | "no_message lib r" | "\<not> no_message lib r" "\<nexists>m. pending_message lib r m" by blast
  then show ?thesis
  proof cases
    case 1
    then have "\<not> no_message lib r" "as_blsPrivateKey s = []" using bad by (auto simp: pending_message_def no_message_def)
    then show ?thesis using S G(1) [OF 1] by (auto simp: signAction_def)
  next
    case 2
    then show ?thesis using S G(2) by auto
  next
    case 3
    then obtain e where "getActionMessage (logged_lib lib) s i ((w, l), mem) = (Ret (Inl e), (w1, l @ [get_request lib s i w]), mem)"
      using G(3) by blast
    then show ?thesis using S 3 by simp
  qed
qed

text \<open>
  C2. What approving or rejecting an action sends, with every request recorded. The first request
  fetches the action. A second one is sent only if the answer is a success that decodes to a pending
  action with a first message in hexadecimal, and a key is set; it then posts the status (3 or 4) and
  one signature, the library's for that message under that key. The call succeeds exactly if that
  second request does; the blocks that held message and key are wiped and freed. A pending action
  without messages is a panic, and every other answer an error.
\<close>

theorem sign_pending_wire:
  fixes lib :: "'s signer_lib" and w :: 's and l :: "http_request list"
  assumes env: "signer_env lib s" and st: "st = approve \<or> st = reject"
    and get: "http_Do (sg_htc lib) (get_request lib s i w) w = (r, w1)"
    and res: "sign_pending st (logged_lib lib) s i ((w, l), mem) = (out, (w2, l2), mem2)"
  shows "(pending_message lib r m \<and> as_blsPrivateKey s \<noteq> [] \<and> small (Some m) \<longrightarrow>
      l2 = l @ [get_request lib s i w, post_request lib s i m st w1] \<and>
      out = Ret (if post_ok (fst (http_Do (sg_htc lib) (post_request lib s i m st w1) w1)) then None
                 else Some (ApiError 500 ''failed to sign the action'' None)) \<and> frees mem [0, 1] mem2) \<and>
    ((\<nexists>m. pending_message lib r m) \<or> as_blsPrivateKey s = [] \<longrightarrow>
      l2 = l @ [get_request lib s i w] \<and> mem2 = mem \<and> out \<noteq> Ret None \<and> (out = Panic \<longleftrightarrow> no_message lib r))"
proof (intro conjI impI; (elim conjE)?)
  assume "pending_message lib r m" "as_blsPrivateKey s \<noteq> []" "small (Some m)"
  from sign_pending_signs [OF env st get this, of mem l] res
  show "l2 = l @ [get_request lib s i w, post_request lib s i m st w1]"
    "out = Ret (if post_ok (fst (http_Do (sg_htc lib) (post_request lib s i m st w1) w1)) then None
               else Some (ApiError 500 ''failed to sign the action'' None))" "frees mem [0, 1] mem2"
    by auto
next
  assume "(\<nexists>m. pending_message lib r m) \<or> as_blsPrivateKey s = []"
  from sign_pending_refuses [OF env st get this, of l mem] res
  show "l2 = l @ [get_request lib s i w]" "mem2 = mem" "out \<noteq> Ret None" "out = Panic \<longleftrightarrow> no_message lib r"
    by auto
qed

text \<open>A server with one pending action, whose message is the byte 1; the state counts the requests.\<close>

definition demo_action :: getActionResponse where
  "demo_action = \<lparr>ga_Messages = [''01''], ga_Status = 1, ga_ID = ''a''\<rparr>"

definition demo_lib :: "getActionResponse \<Rightarrow> nat signer_lib" where
  "demo_lib v = \<lparr>sg_htc = \<lparr>http_NewRequest = (\<lambda>m u. None),
       http_Do = (\<lambda>q n. (Inr \<lparr>rs_StatusCode = 200, rs_Body = Inr []\<rparr>, Suc n))\<rparr>,
     sg_GetAuthHeader = (\<lambda>n. []), sg_encode = (\<lambda>r. Inr [of_int (sr_Status r)]), sg_decode = (\<lambda>b. Inr v),
     sg_core = idle_core, sg_bls = idle_bls\<rparr>"

lemma demo_env: "length k < 2 ^ 31 \<Longrightarrow> signer_env (demo_lib v) \<lparr>as_baseURL = u, as_blsPrivateKey = k\<rparr>"
proof -
  assume "length k < 2 ^ 31"
  then have "int (length k) < int (2 ^ 31)" by (simp only: of_nat_less_iff)
  then show ?thesis by (simp add: signer_env_def demo_lib_def idle_core_ok idle_bls_ok small_def)
qed

lemma demo_answer [simp]: "answer (demo_lib v) (Inr \<lparr>rs_StatusCode = 200, rs_Body = Inr []\<rparr>) = Some v"
  by (simp add: answer_def response_result_def demo_lib_def)

theorem sign_pending_wire_witness:
  "let s = \<lparr>as_baseURL = ''u'', as_blsPrivateKey = [7]\<rparr> in
    fst (sign_pending approve (logged_lib (demo_lib demo_action)) s ''a'' ((0, []), [])) = Ret None"
proof -
  let ?lib = "demo_lib demo_action" and ?s = "\<lparr>as_baseURL = ''u'', as_blsPrivateKey = [7 :: byte]\<rparr>"
  have env: "signer_env ?lib ?s" by (rule demo_env) simp
  have do: "http_Do (sg_htc ?lib) rq n = (Inr \<lparr>rs_StatusCode = 200, rs_Body = Inr []\<rparr>, Suc n)" for rq n
    by (simp add: demo_lib_def)
  have p: "pending_message ?lib (Inr \<lparr>rs_StatusCode = 200, rs_Body = Inr []\<rparr>) [1]"
    unfolding pending_message_def demo_answer by (simp add: demo_action_def) code_simp
  obtain out w2 l2 mem2 where res: "sign_pending approve (logged_lib ?lib) ?s ''a'' ((0, []), []) = (out, (w2, l2), mem2)"
    by (metis prod.exhaust)
  have "small (Some [1 :: byte])" by (simp add: small_def)
  then show ?thesis
    using sign_pending_wire [OF env disjI1 do res, OF refl, of "[1]", THEN conjunct1] p
    by (simp add: res do post_ok_def)
qed

text \<open>
  The error of the BLS library is ignored: when it rejects the key, approving still posts what is in
  the signature block and reports success if the server accepts the request.
\<close>

theorem signAction_ignores_BLS_error:
  assumes env: "signer_env lib s" and key: "as_blsPrivateKey s \<noteq> []" and small: "small (Some m)"
    and rejected: "\<And>os. fst (BLS_SIGN (sg_bls lib) os) = BLS_FAIL"
    and accepts: "post_ok (fst (http_Do (sg_htc lib) (post_request lib s i m approve w) w))"
  shows "fst (ApproveActionMessage lib s i (Some m) (w, mem)) = Ret None \<and>
    (\<exists>b mem'. BLSSign (sg_core lib) (sg_bls lib) (Some m) (Some (as_blsPrivateKey s)) mem = Some ((b, Some ErrBlsFail), mem'))"
proof -
  note E = signer_envD [OF env]
  have code: "codeToError BLS_FAIL = Some ErrBlsFail" by (simp add: codeToError_def amcl_const amclOk_def blsFail_def mpinInvalidPoint_def mpinInvalidPin_def)
  obtain rc os where lib: "BLS_SIGN (sg_bls lib) [Some (fresh_octet SIGLen), Some (octet_of m), Some (octet_of (as_blsPrivateKey s))] = (rc, os)"
    by fastforce
  then have "rc = BLS_FAIL" using rejected by (metis fst_conv)
  then have "\<exists>b mem'. BLSSign (sg_core lib) (sg_bls lib) (Some m) (Some (as_blsPrivateKey s)) mem = Some ((b, Some ErrBlsFail), mem')"
    using BLSSign_eq [OF E(2) small E(3), of "sg_core lib" mem] lib code by simp
  moreover obtain mem' where "signAction lib s i (Some m) approve (w, mem) =
    (case http_Do (sg_htc lib) (post_request lib s i m approve w) w of (r, w') \<Rightarrow>
       (Ret (if post_ok r then None else Some (ApiError 500 ''failed to sign the action'' None)), w', mem'))"
    using signAction_eq [OF env key small] by blast
  ultimately show ?thesis using accepts by (simp add: ApproveActionMessage_def case_prod_beta)
qed

theorem signAction_ignores_BLS_error_witness:
  "let lib = demo_lib demo_action; lib' = lib\<lparr>sg_bls := idle_bls\<lparr>BLS_SIGN := (\<lambda>os. (BLS_FAIL, os))\<rparr>\<rparr> in
    fst (ApproveActionMessage lib' \<lparr>as_baseURL = ''u'', as_blsPrivateKey = [7]\<rparr> ''a'' (Some [1]) (0, [])) = Ret None"
proof -
  define lib' where "lib' = (demo_lib demo_action)\<lparr>sg_bls := idle_bls\<lparr>BLS_SIGN := (\<lambda>os. (BLS_FAIL, os))\<rparr>\<rparr>"
  have "cfun_ok (\<lambda>os. (BLS_FAIL, os))" using bls_okD(3) [OF idle_bls_ok] by (simp add: idle_bls_def)
  then have "bls_ok (idle_bls\<lparr>BLS_SIGN := (\<lambda>os. (BLS_FAIL, os))\<rparr>)"
    using idle_bls_ok by (simp add: bls_ok_def)
  then have env: "signer_env lib' \<lparr>as_baseURL = ''u'', as_blsPrivateKey = [7]\<rparr>"
    using demo_env [of "[7]" demo_action "''u''"] by (simp add: signer_env_def lib'_def demo_lib_def)
  have "fst (ApproveActionMessage lib' \<lparr>as_baseURL = ''u'', as_blsPrivateKey = [7]\<rparr> ''a'' (Some [1]) (0, [])) = Ret None"
    by (rule signAction_ignores_BLS_error [OF env, THEN conjunct1])
      (simp_all add: lib'_def demo_lib_def post_ok_def small_def)
  then show ?thesis by (simp add: lib'_def)
qed

end
