(* ===== verification/Sync.thy ===== *)
theory Sync
  imports MessageCache Config Signer
begin

text \<open>
  \<open>internal/action/syncronizer.go\<close>: the lock and the mark that keep several instances of the agent from
  handling one action twice.

  The Redis cache is that of \<open>MessageCache\<close>. A \<open>redsync\<close> mutex is its name and the token it holds; the
  lock server behind it is a parameter, with the documented behaviour \<open>redsync_ok\<close>. \<open>owner w n\<close> is the
  token under which the name \<open>n\<close> is locked; the expiry of locks (8 seconds by default) is left out.
\<close>

section \<open>syncronizer.go\<close>

record mutex =
  mx_name :: string
  mx_value :: "nat option"

(* internal/action/syncronizer.go:21-28 syncI, mutex *)
record 's sync_lib =
  sy_cache :: "'s redis_api"
  sy_now :: "'s \<Rightarrow> int"
  sy_Sleep :: "int \<Rightarrow> 's \<Rightarrow> 's"
  sy_Lock :: "mutex \<Rightarrow> 's \<Rightarrow> gerr option \<times> mutex \<times> 's"
  sy_Unlock :: "mutex \<Rightarrow> 's \<Rightarrow> (bool \<times> gerr option) \<times> mutex \<times> 's"

text \<open>The field \<open>mutex\<close> is nil until the first action.\<close>

(* internal/action/syncronizer.go:30-35 syncronize *)
record syncronize =
  sn_mutex :: "mutex option"
  sn_cfgLoadBalancing :: LoadBalancing

(* internal/action/syncronizer.go:37-44 NewSyncronizer *)
definition NewSyncronizer :: "LoadBalancing \<Rightarrow> syncronize" where
  "NewSyncronizer conf = \<lparr>sn_mutex = None, sn_cfgLoadBalancing = conf\<rparr>"

(* internal/action/syncronizer.go:75-77 syncronize.getKey *)
definition sn_getKey :: "string \<Rightarrow> string" where
  "sn_getKey actionID = ''action_v2:'' @ actionID"

(* internal/action/syncronizer.go:46-55 syncronize.ShouldHandleAction *)
definition ShouldHandleAction :: "'s sync_lib \<Rightarrow> string \<Rightarrow> syncronize \<times> 's \<Rightarrow> bool \<times> syncronize \<times> 's" where
  "ShouldHandleAction lib actionID aw =
     (case aw of (a, w) \<Rightarrow>
      (case rd_Get (sy_cache lib) (sy_now lib w) (sn_getKey actionID) w of
         (Inr _, w) \<Rightarrow> (False, a, w)
       | (Inl err, w) \<Rightarrow> (True, a\<lparr>sn_mutex := Some \<lparr>mx_name = actionID, mx_value = None\<rparr>\<rparr>, w)))"

(* internal/action/syncronizer.go:57-65 syncronize.AcquireLock *)
definition AcquireLock :: "'s sync_lib \<Rightarrow> syncronize \<times> 's \<Rightarrow> gerr option ret \<times> syncronize \<times> 's" where
  "AcquireLock lib aw =
     (case aw of (a, w) \<Rightarrow>
      (case sn_mutex a of
         None \<Rightarrow> (Panic, a, w)
       | Some m \<Rightarrow>
           (case sy_Lock lib m w of
              (Some err, m, w) \<Rightarrow>
                (Ret (Some err), a\<lparr>sn_mutex := Some m\<rparr>,
                 sy_Sleep lib (duration_of (lb_OnLockErrorTimeOutMs (sn_cfgLoadBalancing a)) Millisecond) w)
            | (None, m, w) \<Rightarrow> (Ret None, a\<lparr>sn_mutex := Some m\<rparr>, w))))"

(* internal/action/syncronizer.go:67-73 syncronize.Release *)
definition Release :: "'s sync_lib \<Rightarrow> string \<Rightarrow> syncronize \<times> 's \<Rightarrow> gerr option ret \<times> syncronize \<times> 's" where
  "Release lib actionID aw =
     (case aw of (a, w) \<Rightarrow>
      (case sn_mutex a of
         None \<Rightarrow> (Panic, a, w)
       | Some m \<Rightarrow>
           (case sy_Unlock lib m w of
              ((_, err), m, w) \<Rightarrow>
                (Ret err, a\<lparr>sn_mutex := Some m\<rparr>,
                 snd (rd_Set (sy_cache lib) (sy_now lib w) (sn_getKey actionID) (bytes_of ''1'')
                   (duration_of (lb_ActionIDExpirationSec (sn_cfgLoadBalancing a)) Second) w)))))"

text \<open>The interface the action service and the auto approver use, over any world.\<close>

(* internal/action/syncronizer.go:14-19 ActionSync *)
record 'w sync_api =
  sa_ShouldHandleAction :: "string \<Rightarrow> 'w \<Rightarrow> bool \<times> 'w"
  sa_AcquireLock :: "'w \<Rightarrow> gerr option ret \<times> 'w"
  sa_Release :: "string \<Rightarrow> 'w \<Rightarrow> gerr option ret \<times> 'w"

definition sync_impl :: "'s sync_lib \<Rightarrow> (syncronize \<times> 's) sync_api" where
  "sync_impl lib = \<lparr>sa_ShouldHandleAction = ShouldHandleAction lib, sa_AcquireLock = AcquireLock lib,
     sa_Release = Release lib\<rparr>"

section \<open>The lock server\<close>

definition redsync_ok :: "'s sync_lib \<Rightarrow> ('s \<Rightarrow> string \<Rightarrow> nat option) \<Rightarrow> bool" where
  "redsync_ok lib owner \<longleftrightarrow>
     (\<forall>m w. case sy_Lock lib m w of
        (None, m', w') \<Rightarrow> owner w (mx_name m) = None \<and> mx_name m' = mx_name m \<and>
          (\<exists>tok. mx_value m' = Some tok \<and> owner w' = (owner w)(mx_name m := Some tok))
      | (Some e, m', w') \<Rightarrow> m' = m \<and> owner w' = owner w) \<and>
     (\<forall>m w. case sy_Unlock lib m w of (r, m', w') \<Rightarrow> mx_name m' = mx_name m \<and>
        (owner w' = owner w \<or> owner w (mx_name m) = mx_value m \<and> owner w' = (owner w)(mx_name m := None))) \<and>
     (\<forall>d w. owner (sy_Sleep lib d w) = owner w) \<and>
     (\<forall>t k w. owner (snd (rd_Get (sy_cache lib) t k w)) = owner w) \<and>
     (\<forall>t k v e w. owner (snd (rd_Set (sy_cache lib) t k v e w)) = owner w)"

lemma redsync_okD:
  assumes ok: "redsync_ok lib owner"
  shows "sy_Lock lib m w = (None, m', w') \<Longrightarrow> owner w (mx_name m) = None \<and> mx_name m' = mx_name m \<and>
      (\<exists>tok. mx_value m' = Some tok \<and> owner w' = (owner w)(mx_name m := Some tok))"
    "sy_Lock lib m w = (Some e, m', w') \<Longrightarrow> m' = m \<and> owner w' = owner w"
    "sy_Unlock lib m w = (r, m', w') \<Longrightarrow> mx_name m' = mx_name m \<and>
      (owner w' = owner w \<or> owner w (mx_name m) = mx_value m \<and> owner w' = (owner w)(mx_name m := None))"
    "owner (sy_Sleep lib d w) = owner w"
    "owner (snd (rd_Get (sy_cache lib) t k w)) = owner w"
    "owner (snd (rd_Set (sy_cache lib) t k v x w)) = owner w"
proof -
  note A = ok [unfolded redsync_ok_def, THEN conjunct1, THEN spec [of _ m], THEN spec [of _ w]]
    and B = ok [unfolded redsync_ok_def, THEN conjunct2, THEN conjunct1, THEN spec [of _ m], THEN spec [of _ w]]
    and C = ok [unfolded redsync_ok_def, THEN conjunct2, THEN conjunct2]
  show "sy_Lock lib m w = (None, m', w') \<Longrightarrow> owner w (mx_name m) = None \<and> mx_name m' = mx_name m \<and>
      (\<exists>tok. mx_value m' = Some tok \<and> owner w' = (owner w)(mx_name m := Some tok))"
    "sy_Lock lib m w = (Some e, m', w') \<Longrightarrow> m' = m \<and> owner w' = owner w" using A by auto
  show "sy_Unlock lib m w = (r, m', w') \<Longrightarrow> mx_name m' = mx_name m \<and>
      (owner w' = owner w \<or> owner w (mx_name m) = mx_value m \<and> owner w' = (owner w)(mx_name m := None))" using B by auto
  show "owner (sy_Sleep lib d w) = owner w" "owner (snd (rd_Get (sy_cache lib) t k w)) = owner w"
    "owner (snd (rd_Set (sy_cache lib) t k v x w)) = owner w" using C by blast+
qed

text \<open>What the operations do to the locks.\<close>

lemma ShouldHandle_owner:
  "redsync_ok lib owner \<Longrightarrow> ShouldHandleAction lib i (a, w) = (b, a', w') \<Longrightarrow> owner w' = owner w \<and>
     a' = (if b then a\<lparr>sn_mutex := Some \<lparr>mx_name = i, mx_value = None\<rparr>\<rparr> else a)"
  using redsync_okD(5) [of lib owner "sy_now lib w" "sn_getKey i" w]
  by (auto simp: ShouldHandleAction_def split: prod.splits sum.splits)

lemma AcquireLock_owner:
  assumes ok: "redsync_ok lib owner" and acq: "AcquireLock lib (a, w) = (Ret None, a', w')" and m: "sn_mutex a = Some m"
  shows "owner w (mx_name m) = None" "\<exists>tok. sn_mutex a' = Some \<lparr>mx_name = mx_name m, mx_value = Some tok\<rparr> \<and>
     owner w' = (owner w)(mx_name m := Some tok)"
proof -
  from acq m obtain m' where l: "sy_Lock lib m w = (None, m', w')" and a': "a' = a\<lparr>sn_mutex := Some m'\<rparr>"
    by (auto simp: AcquireLock_def split: prod.splits option.splits)
  from redsync_okD(1) [OF ok l] obtain tok where t: "owner w (mx_name m) = None" "mx_name m' = mx_name m" "mx_value m' = Some tok"
    "owner w' = (owner w)(mx_name m := Some tok)" by blast
  have "m' = \<lparr>mx_name = mx_name m, mx_value = Some tok\<rparr>" using t by (cases m') simp
  with t a' show "owner w (mx_name m) = None" "\<exists>tok. sn_mutex a' = Some \<lparr>mx_name = mx_name m, mx_value = Some tok\<rparr> \<and>
     owner w' = (owner w)(mx_name m := Some tok)" by auto
qed

lemma AcquireLock_failed_owner:
  assumes ok: "redsync_ok lib owner" and acq: "AcquireLock lib (a, w) = (Ret (Some e), a', w')"
  shows "owner w' = owner w" "sn_mutex a' = sn_mutex a"
  using acq redsync_okD(2) [OF ok, of _ w] redsync_okD(4) [OF ok]
  by (auto simp: AcquireLock_def split: prod.splits option.splits)

lemma Release_owner:
  assumes ok: "redsync_ok lib owner" and rel: "Release lib i (a, w) = (e, a', w')" and m: "sn_mutex a = Some m"
  shows "owner w' = owner w \<or> owner w (mx_name m) = mx_value m \<and> owner w' = (owner w)(mx_name m := None)"
proof -
  obtain r m' w1 where u: "sy_Unlock lib m w = (r, m', w1)" by (metis prod.exhaust)
  have "owner w' = owner w1"
    using rel m u redsync_okD(6) [OF ok] by (auto simp: Release_def split: prod.splits)
  then show ?thesis using redsync_okD(3) [OF ok u] by simp
qed

section \<open>Several agents\<close>

text \<open>
  Threads handle actions; the thread \<open>t\<close> belongs to the instance \<open>inst t\<close> and shares its synchronizer
  with the other threads of that instance. A thread checks the action, acquires the lock, signs and
  releases, in the order of \<open>actionSrv.act\<close> and \<open>autoActionApprover.handleAction\<close>; between its steps
  other threads run. \<open>env\<close> is what else may change the world.
\<close>

datatype phase = Idle | Checked string | Holding string

record 's system =
  sys_sync :: "nat \<Rightarrow> syncronize"
  sys_phase :: "nat \<Rightarrow> phase"
  sys_world :: 's
  sys_signed :: "(nat \<times> string) list"

definition thread_to :: "(nat \<Rightarrow> nat) \<Rightarrow> nat \<Rightarrow> phase \<Rightarrow> syncronize \<times> 's \<Rightarrow> 's system \<Rightarrow> 's system" where
  "thread_to inst t p aw c = c\<lparr>sys_phase := (sys_phase c)(t := p), sys_sync := (sys_sync c)(inst t := fst aw), sys_world := snd aw\<rparr>"

inductive sys_step :: "'s sync_lib \<Rightarrow> (nat \<Rightarrow> nat) \<Rightarrow> ('s \<Rightarrow> 's \<Rightarrow> bool) \<Rightarrow> 's system \<Rightarrow> 's system \<Rightarrow> bool"
  for lib :: "'s sync_lib" and inst :: "nat \<Rightarrow> nat" and env :: "'s \<Rightarrow> 's \<Rightarrow> bool" where
  check: "sys_phase c t = Idle \<Longrightarrow> ShouldHandleAction lib i (sys_sync c (inst t), sys_world c) = (b, aw) \<Longrightarrow>
    sys_step lib inst env c (thread_to inst t (if b then Checked i else Idle) aw c)"
| lock: "sys_phase c t = Checked i \<Longrightarrow> AcquireLock lib (sys_sync c (inst t), sys_world c) = (Ret r, aw) \<Longrightarrow>
    sys_step lib inst env c (thread_to inst t (if r = None then Holding i else Idle) aw c)"
| sign: "sys_phase c t = Holding i \<Longrightarrow> env (sys_world c) w \<Longrightarrow>
    sys_step lib inst env c (c\<lparr>sys_world := w, sys_signed := sys_signed c @ [(t, i)]\<rparr>)"
| release: "sys_phase c t = Holding i \<Longrightarrow> Release lib i (sys_sync c (inst t), sys_world c) = (Ret e, aw) \<Longrightarrow>
    sys_step lib inst env c (thread_to inst t Idle aw c)"
| environment: "env (sys_world c) w \<Longrightarrow> sys_step lib inst env c (c\<lparr>sys_world := w\<rparr>)"

inductive reachable :: "'s sync_lib \<Rightarrow> (nat \<Rightarrow> nat) \<Rightarrow> ('s \<Rightarrow> 's \<Rightarrow> bool) \<Rightarrow> 's system \<Rightarrow> bool"
  for lib :: "'s sync_lib" and inst :: "nat \<Rightarrow> nat" and env :: "'s \<Rightarrow> 's \<Rightarrow> bool" where
  start: "(\<And>t. sys_phase c t = Idle) \<Longrightarrow> sys_signed c = [] \<Longrightarrow> reachable lib inst env c"
| step: "reachable lib inst env c \<Longrightarrow> sys_step lib inst env c c' \<Longrightarrow> reachable lib inst env c'"

text \<open>
  The invariant where every thread has its own instance: a thread between check and lock has a mutex
  for its action, and one that holds the lock has the token under which the server keeps it.
\<close>

definition sync_inv :: "(nat \<Rightarrow> nat) \<Rightarrow> ('s \<Rightarrow> string \<Rightarrow> nat option) \<Rightarrow> 's system \<Rightarrow> bool" where
  "sync_inv inst owner c \<longleftrightarrow>
     (\<forall>t i. sys_phase c t = Checked i \<longrightarrow> sn_mutex (sys_sync c (inst t)) = Some \<lparr>mx_name = i, mx_value = None\<rparr>) \<and>
     (\<forall>t i. sys_phase c t = Holding i \<longrightarrow> (\<exists>tok. sn_mutex (sys_sync c (inst t)) = Some \<lparr>mx_name = i, mx_value = Some tok\<rparr> \<and>
        owner (sys_world c) i = Some tok)) \<and>
     (\<forall>t u i. sys_phase c t = Holding i \<longrightarrow> sys_phase c u = Holding i \<longrightarrow> t = u)"

lemma thread_to_sel [simp]:
  "sys_phase (thread_to inst t p aw c) = (sys_phase c)(t := p)"
  "sys_sync (thread_to inst t p aw c) = (sys_sync c)(inst t := fst aw)"
  "sys_world (thread_to inst t p aw c) = snd aw" "sys_signed (thread_to inst t p aw c) = sys_signed c"
  by (simp_all add: thread_to_def)

lemma sync_invD:
  assumes "sync_inv inst owner c"
  shows "sys_phase c t = Checked i \<Longrightarrow> sn_mutex (sys_sync c (inst t)) = Some \<lparr>mx_name = i, mx_value = None\<rparr>"
    "sys_phase c t = Holding i \<Longrightarrow> \<exists>tok. sn_mutex (sys_sync c (inst t)) = Some \<lparr>mx_name = i, mx_value = Some tok\<rparr> \<and>
        owner (sys_world c) i = Some tok"
    "sys_phase c t = Holding i \<Longrightarrow> sys_phase c u = Holding i \<Longrightarrow> t = u"
  using assms unfolding sync_inv_def by blast+

text \<open>A step of one thread that keeps the locks of the others keeps the invariant.\<close>

lemma thread_step_inv:
  assumes inv: "sync_inv inst owner c" and inj: "inj inst"
    and others: "\<And>u i tok. u \<noteq> t \<Longrightarrow> sys_phase c u = Holding i \<Longrightarrow> owner (sys_world c) i = Some tok \<Longrightarrow> owner (snd aw) i = Some tok"
    and checked: "\<And>i. p = Checked i \<Longrightarrow> sn_mutex (fst aw) = Some \<lparr>mx_name = i, mx_value = None\<rparr>"
    and holding: "\<And>i. p = Holding i \<Longrightarrow> (\<exists>tok. sn_mutex (fst aw) = Some \<lparr>mx_name = i, mx_value = Some tok\<rparr> \<and> owner (snd aw) i = Some tok) \<and>
        (\<forall>u. u \<noteq> t \<longrightarrow> sys_phase c u \<noteq> Holding i)"
  shows "sync_inv inst owner (thread_to inst t p aw c)"
proof -
  have ne: "inst u \<noteq> inst t" if "u \<noteq> t" for u using inj that by (auto dest: injD)
  show ?thesis
    unfolding sync_inv_def thread_to_sel
  proof (intro conjI allI impI)
    fix u i assume "((sys_phase c)(t := p)) u = Checked i"
    then show "sn_mutex (((sys_sync c)(inst t := fst aw)) (inst u)) = Some \<lparr>mx_name = i, mx_value = None\<rparr>"
      using sync_invD(1) [OF inv] checked ne by (cases "u = t") auto
  next
    fix u i assume "((sys_phase c)(t := p)) u = Holding i"
    then show "\<exists>tok. sn_mutex (((sys_sync c)(inst t := fst aw)) (inst u)) = Some \<lparr>mx_name = i, mx_value = Some tok\<rparr> \<and> owner (snd aw) i = Some tok"
      using sync_invD(2) [OF inv, of u i] holding others ne by (cases "u = t") auto
  next
    fix u v i assume "((sys_phase c)(t := p)) u = Holding i" "((sys_phase c)(t := p)) v = Holding i"
    then show "u = v" using sync_invD(3) [OF inv, of u i v] holding by (cases "u = t"; cases "v = t") auto
  qed
qed

lemma world_step_inv:
  "sync_inv inst owner c \<Longrightarrow> owner w = owner (sys_world c) \<Longrightarrow> sync_inv inst owner (c\<lparr>sys_world := w\<rparr>)"
  "sync_inv inst owner c \<Longrightarrow> sync_inv inst owner (c\<lparr>sys_signed := l\<rparr>)"
  by (simp_all add: sync_inv_def)

lemma sys_step_inv:
  assumes ok: "redsync_ok lib owner" and inj: "inj inst" and env: "\<And>w w'. env w w' \<Longrightarrow> owner w' = owner w"
    and step: "sys_step lib inst env c c'" and inv: "sync_inv inst owner c"
  shows "sync_inv inst owner c'"
  using step
proof cases
  case (check t i b aw)
  obtain a w where aw: "aw = (a, w)" by (cases aw)
  have "owner w = owner (sys_world c)" "a = (if b then (sys_sync c (inst t))\<lparr>sn_mutex := Some \<lparr>mx_name = i, mx_value = None\<rparr>\<rparr> else sys_sync c (inst t))"
    using ShouldHandle_owner [OF ok check(3) [unfolded aw]] by auto
  then show ?thesis unfolding check(1) by (intro thread_step_inv [OF inv inj]) (auto simp: aw split: if_splits)
next
  case (lock t i r aw)
  obtain a w where aw: "aw = (a, w)" by (cases aw)
  note m = sync_invD(1) [OF inv lock(2)]
  show ?thesis
  proof (cases r)
    case None
    note l = AcquireLock_owner [OF ok lock(3) [unfolded aw None] m]
    have free: "sys_phase c u \<noteq> Holding i" for u
      using sync_invD(2) [OF inv, of u i] l(1) by auto
    then show ?thesis unfolding lock(1) None using l(2)
      by (intro thread_step_inv [OF inv inj]) (auto simp: aw)
  next
    case (Some e)
    note l = AcquireLock_failed_owner [OF ok lock(3) [unfolded aw Some]]
    then show ?thesis unfolding lock(1) Some by (intro thread_step_inv [OF inv inj]) (auto simp: aw)
  qed
next
  case (sign t i w)
  have "sync_inv inst owner (c\<lparr>sys_world := w\<rparr>)" by (rule world_step_inv(1) [OF inv env [OF sign(3)]])
  from world_step_inv(2) [OF this] show ?thesis unfolding sign(1) by simp
next
  case (release t i e aw)
  obtain a w where aw: "aw = (a, w)" by (cases aw)
  from sync_invD(2) [OF inv release(2)] obtain tok where
    m: "sn_mutex (sys_sync c (inst t)) = Some \<lparr>mx_name = i, mx_value = Some tok\<rparr>" by blast
  have "owner w j = owner (sys_world c) j" if "j \<noteq> i" for j
    using Release_owner [OF ok release(3) [unfolded aw] m] that by auto
  moreover have "j \<noteq> i" if "u \<noteq> t" "sys_phase c u = Holding j" for u j
    using sync_invD(3) [OF inv release(2), of u] that by auto
  ultimately show ?thesis unfolding release(1)
    by (intro thread_step_inv [OF inv inj]) (simp_all add: aw)
next
  case (environment w)
  then show ?thesis using world_step_inv(1) [OF inv] env by simp
qed


section \<open>A lock server\<close>

record srv =
  sv_locks :: "string \<Rightarrow> nat option"
  sv_next :: nat
  sv_cache :: "string \<Rightarrow> bytes option"

definition srv_lib :: "srv sync_lib" where
  "srv_lib = \<lparr>
     sy_cache = \<lparr>
       rd_Get = (\<lambda>t k w. (case sv_cache w k of None \<Rightarrow> Inl KVNotFound | Some v \<Rightarrow> Inr v, w)),
       rd_Set = (\<lambda>t k v e w. (Inr (), w\<lparr>sv_cache := (sv_cache w)(k := Some v)\<rparr>)),
       rd_Scan = (\<lambda>t p w. (([], None), w)),
       rd_Del = (\<lambda>t k w. (Inr (), w\<lparr>sv_cache := (sv_cache w)(k := None)\<rparr>))\<rparr>,
     sy_now = (\<lambda>w. 0), sy_Sleep = (\<lambda>d w. w),
     sy_Lock = (\<lambda>m w. (case sv_locks w (mx_name m) of
        Some _ \<Rightarrow> (Some (Foreign 0), m, w)
      | None \<Rightarrow> (None, m\<lparr>mx_value := Some (sv_next w)\<rparr>,
          w\<lparr>sv_locks := (sv_locks w)(mx_name m := Some (sv_next w)), sv_next := Suc (sv_next w)\<rparr>))),
     sy_Unlock = (\<lambda>m w. (if sv_locks w (mx_name m) = mx_value m
        then ((True, None), m, w\<lparr>sv_locks := (sv_locks w)(mx_name m := None)\<rparr>)
        else ((False, Some (Foreign 1)), m, w)))\<rparr>"

lemma srv_redsync_ok: "redsync_ok srv_lib sv_locks"
  by (auto simp: redsync_ok_def srv_lib_def split: option.splits)

text \<open>One step of a given thread, as a function.\<close>

definition sys_check :: "(nat \<Rightarrow> nat) \<Rightarrow> nat \<Rightarrow> string \<Rightarrow> srv system \<Rightarrow> srv system" where
  "sys_check inst t i c = (case ShouldHandleAction srv_lib i (sys_sync c (inst t), sys_world c) of
     (b, aw) \<Rightarrow> thread_to inst t (if b then Checked i else Idle) aw c)"

definition sys_lock :: "(nat \<Rightarrow> nat) \<Rightarrow> nat \<Rightarrow> string \<Rightarrow> srv system \<Rightarrow> srv system" where
  "sys_lock inst t i c = (case AcquireLock srv_lib (sys_sync c (inst t), sys_world c) of
     (Ret r, aw) \<Rightarrow> thread_to inst t (if r = None then Holding i else Idle) aw c | (Panic, aw) \<Rightarrow> c)"

definition sys_sign :: "nat \<Rightarrow> string \<Rightarrow> srv system \<Rightarrow> srv system" where
  "sys_sign t i c = c\<lparr>sys_signed := sys_signed c @ [(t, i)]\<rparr>"

definition sys_release :: "(nat \<Rightarrow> nat) \<Rightarrow> nat \<Rightarrow> string \<Rightarrow> srv system \<Rightarrow> srv system" where
  "sys_release inst t i c = (case Release srv_lib i (sys_sync c (inst t), sys_world c) of
     (Ret e, aw) \<Rightarrow> thread_to inst t Idle aw c | (Panic, aw) \<Rightarrow> c)"

lemma reach_steps:
  assumes "reachable srv_lib inst (=) c"
  shows "sys_phase c t = Idle \<Longrightarrow> reachable srv_lib inst (=) (sys_check inst t i c)"
    "sys_phase c t = Checked i \<Longrightarrow> reachable srv_lib inst (=) (sys_lock inst t i c)"
    "sys_phase c t = Holding i \<Longrightarrow> reachable srv_lib inst (=) (sys_sign t i c)"
    "sys_phase c t = Holding i \<Longrightarrow> reachable srv_lib inst (=) (sys_release inst t i c)"
proof -
  show "reachable srv_lib inst (=) (sys_check inst t i c)" if "sys_phase c t = Idle"
    using check [OF that] reachable.step [OF assms] by (auto simp: sys_check_def split: prod.split)
  show "reachable srv_lib inst (=) (sys_lock inst t i c)" if "sys_phase c t = Checked i"
    using lock [OF that] reachable.step [OF assms] assms by (auto simp: sys_lock_def split: prod.split ret.split)
  show "reachable srv_lib inst (=) (sys_sign t i c)" if "sys_phase c t = Holding i"
    using sign [of c t i "(=)" "sys_world c" srv_lib inst, OF that refl] reachable.step [OF assms] by (simp add: sys_sign_def)
  show "reachable srv_lib inst (=) (sys_release inst t i c)" if "sys_phase c t = Holding i"
    using release [OF that] reachable.step [OF assms] assms by (auto simp: sys_release_def split: prod.split ret.split)
qed

definition idle_system :: "LoadBalancing \<Rightarrow> srv system" where
  "idle_system conf = \<lparr>sys_sync = (\<lambda>n. NewSyncronizer conf), sys_phase = (\<lambda>t. Idle),
     sys_world = \<lparr>sv_locks = (\<lambda>n. None), sv_next = 0, sv_cache = (\<lambda>k. None)\<rparr>, sys_signed = []\<rparr>"

lemma idle_reachable: "reachable srv_lib inst (=) (idle_system conf)"
  by (rule start) (simp_all add: idle_system_def)

lemmas sys_simps = sys_check_def sys_lock_def sys_sign_def sys_release_def ShouldHandleAction_def AcquireLock_def
  Release_def NewSyncronizer_def idle_system_def srv_lib_def



text \<open>
  One synchronizer does not serve two threads: it keeps one mutex for all of them. If two threads of
  one instance check different actions, the first one locks the name of the second action, and
  another instance enters the critical section of the first action at the same time.
\<close>

theorem shared_mutex_no_exclusion:
  "\<exists>c. reachable srv_lib (\<lambda>t. if t = 2 then 1 else 0) (=) c \<and> sys_phase c 0 = Holding ''a'' \<and> sys_phase c 2 = Holding ''a''"
proof -
  let ?I = "\<lambda>t. if t = 2 then 1 else 0 :: nat"
  define c1 where "c1 = sys_check ?I 0 ''a'' (idle_system conf)"
  define c2 where "c2 = sys_check ?I 1 ''b'' c1"
  define c3 where "c3 = sys_lock ?I 0 ''a'' c2"
  define c4 where "c4 = sys_check ?I 2 ''a'' c3"
  define c5 where "c5 = sys_lock ?I 2 ''a'' c4"
  note D = c1_def c2_def c3_def c4_def c5_def
  have p: "sys_phase (idle_system conf) 0 = Idle" "sys_phase c1 1 = Idle" "sys_phase c2 0 = Checked ''a''" "sys_phase c3 2 = Idle"
    "sys_phase c4 2 = Checked ''a''"
    by (simp_all add: D sys_simps)
  have "reachable srv_lib ?I (=) c5"
    unfolding D using p unfolding D
    by (intro reach_steps idle_reachable) simp_all
  moreover have "sys_phase c5 0 = Holding ''a''" "sys_phase c5 2 = Holding ''a''" by (simp_all add: D sys_simps)
  ultimately show ?thesis by blast
qed

end
