(* ===== verification/ActionService.thy ===== *)
theory ActionService
  imports Sync
begin

text \<open>
  \<open>internal/service/action_service.go\<close>: approving and rejecting an action on behalf of the user. The
  synchronizer, the signer and the message cache are the interfaces the service holds, over any
  world \<open>'w\<close>; the properties about the synchronizer use the one of \<open>Sync\<close>.
\<close>

section \<open>action_service.go\<close>

text \<open>The message cache may be nil; of it, only \<open>RemoveMessage\<close> is used.\<close>

(* internal/service/action_service.go:24-30 actionSrv *)
record 'w actionSrv =
  ac_syncronizer :: "'w sync_api"
  ac_loadBalancingEnabled :: bool
  ac_messageCache :: "(string \<Rightarrow> 'w \<Rightarrow> 'w) option"
  ac_signer :: "'w signer_api"

(* internal/service/action_service.go:14-22 NewActionService *)
definition NewActionService :: "'w sync_api \<Rightarrow> bool \<Rightarrow> (string \<Rightarrow> 'w \<Rightarrow> 'w) option \<Rightarrow> 'w signer_api \<Rightarrow> 'w actionSrv" where
  "NewActionService syncronizer loadBalancingEnabled messageCache signer =
     \<lparr>ac_syncronizer = syncronizer, ac_loadBalancingEnabled = loadBalancingEnabled,
      ac_messageCache = messageCache, ac_signer = signer\<rparr>"

(* internal/service/action_service.go:62-77 actionSrv.act: after the lock *)
definition act_signed :: "'w actionSrv \<Rightarrow> string \<Rightarrow> bool \<Rightarrow> 'w \<Rightarrow> gerr option ret \<times> 'w" where
  "act_signed a actionID do_approve w =
     (case (if do_approve then si_ActionApprove (ac_signer a) actionID w else si_ActionReject (ac_signer a) actionID w) of
        (Panic, w) \<Rightarrow> (Panic, w)
      | (Ret (Some err), w) \<Rightarrow> (Ret (Some err), w)
      | (Ret None, w) \<Rightarrow>
          (case ac_messageCache a of
             Some RemoveMessage \<Rightarrow> (Ret None, RemoveMessage actionID w)
           | None \<Rightarrow> (Ret None, w)))"

text \<open>The deferred \<open>Release\<close> runs on every way out, a panic of the signer included; its error is only logged.\<close>

(* internal/service/action_service.go:44-78 actionSrv.act *)
definition act :: "'w actionSrv \<Rightarrow> string \<Rightarrow> bool \<Rightarrow> 'w \<Rightarrow> gerr option ret \<times> 'w" where
  "act a actionID do_approve w =
     (if ac_loadBalancingEnabled a
      then (case sa_ShouldHandleAction (ac_syncronizer a) actionID w of
              (False, w) \<Rightarrow> (Ret None, w)
            | (True, w) \<Rightarrow>
                (case sa_AcquireLock (ac_syncronizer a) w of
                   (Panic, w) \<Rightarrow> (Panic, w)
                 | (Ret (Some err), w) \<Rightarrow> (Ret (Some err), w)
                 | (Ret None, w) \<Rightarrow>
                     (case act_signed a actionID do_approve w of
                        (out, w) \<Rightarrow>
                          (case sa_Release (ac_syncronizer a) actionID w of
                             (Panic, w) \<Rightarrow> (Panic, w)
                           | (Ret err, w) \<Rightarrow> (out, w)))))
      else act_signed a actionID do_approve w)"

(* internal/service/action_service.go:32-36 actionSrv.Approve *)
definition Approve :: "'w actionSrv \<Rightarrow> string \<Rightarrow> 'w \<Rightarrow> gerr option ret \<times> 'w" where
  "Approve a actionID w = act a actionID True w"

(* internal/service/action_service.go:38-42 actionSrv.Reject *)
definition Reject :: "'w actionSrv \<Rightarrow> string \<Rightarrow> 'w \<Rightarrow> gerr option ret \<times> 'w" where
  "Reject a actionID w = act a actionID False w"

section \<open>The order of the calls\<close>

datatype event =
    ESetKey "gerr option"
  | EShould string bool
  | ELock "gerr option ret"
  | ESign string bool "gerr option ret"
  | EApprove string slice "gerr option ret"
  | ERemove string
  | ERelease string "gerr option ret"

definition noted :: "'w \<times> event list \<Rightarrow> ('r \<Rightarrow> event) \<Rightarrow> ('w \<Rightarrow> 'r \<times> 'w) \<Rightarrow> 'r \<times> 'w \<times> event list" where
  "noted wl ev f = (case wl of (w, l) \<Rightarrow> (case f w of (r, w) \<Rightarrow> (r, w, l @ [ev r])))"

text \<open>The same interfaces, with every call recorded.\<close>

definition traced_sync :: "'w sync_api \<Rightarrow> ('w \<times> event list) sync_api" where
  "traced_sync s = \<lparr>
     sa_ShouldHandleAction = (\<lambda>i wl. noted wl (EShould i) (sa_ShouldHandleAction s i)),
     sa_AcquireLock = (\<lambda>wl. noted wl ELock (sa_AcquireLock s)),
     sa_Release = (\<lambda>i wl. noted wl (ERelease i) (sa_Release s i))\<rparr>"

definition traced_signer :: "'w signer_api \<Rightarrow> ('w \<times> event list) signer_api" where
  "traced_signer s = \<lparr>
     si_SetKey = (\<lambda>k wl. noted wl ESetKey (si_SetKey s k)),
     si_ActionApprove = (\<lambda>i wl. noted wl (ESign i True) (si_ActionApprove s i)),
     si_ActionReject = (\<lambda>i wl. noted wl (ESign i False) (si_ActionReject s i)),
     si_ApproveActionMessage = (\<lambda>i m wl. noted wl (EApprove i m) (si_ApproveActionMessage s i m))\<rparr>"

definition traced :: "'w actionSrv \<Rightarrow> ('w \<times> event list) actionSrv" where
  "traced a = \<lparr>
     ac_syncronizer = traced_sync (ac_syncronizer a),
     ac_loadBalancingEnabled = ac_loadBalancingEnabled a,
     ac_messageCache = (case ac_messageCache a of None \<Rightarrow> None
       | Some rm \<Rightarrow> Some (\<lambda>i (w, l). (rm i w, l @ [ERemove i]))),
     ac_signer = traced_signer (ac_signer a)\<rparr>"

lemmas traced_defs = traced_def traced_sync_def traced_signer_def noted_def

text \<open>The calls after the lock, and those of a whole run, with the result they lead to.\<close>

definition signed_calls :: "bool \<Rightarrow> string \<Rightarrow> bool \<Rightarrow> event list \<Rightarrow> gerr option ret \<Rightarrow> bool" where
  "signed_calls cache i ap es out \<longleftrightarrow> es = ESign i ap out # (if out = Ret None \<and> cache then [ERemove i] else [])"

definition calls :: "bool \<Rightarrow> bool \<Rightarrow> string \<Rightarrow> bool \<Rightarrow> event list \<Rightarrow> gerr option ret \<Rightarrow> bool" where
  "calls lb cache i ap es out \<longleftrightarrow>
     (if \<not> lb then signed_calls cache i ap es out
      else es = [EShould i False] \<and> out = Ret None \<or>
        es = [EShould i True, ELock out] \<and> out \<noteq> Ret None \<or>
        (\<exists>ss out' r. es = [EShould i True, ELock (Ret None)] @ ss @ [ERelease i r] \<and> signed_calls cache i ap ss out' \<and>
           out = (if r = Panic then Panic else out')))"

lemma act_signed_calls:
  assumes "act_signed (traced a) i ap (w, l) = (out, w', l')"
  shows "\<exists>es. l' = l @ es \<and> signed_calls (ac_messageCache a \<noteq> None) i ap es out"
  using assms
  by (cases ap)
    (auto simp: act_signed_def traced_defs signed_calls_def split: prod.splits ret.splits option.splits)

text \<open>
  C4. The calls a run of the service makes, for any implementation of its interfaces. Without load
  balancing: one call of the signer, then the removal from the cache exactly if the signer
  succeeded. With it: nothing but the check if the action was handled already (and the result is
  nil), nothing more if the lock is not acquired, and otherwise the release exactly once, as the
  last call, also when the signer fails or panics; the result is the signer's.
\<close>

theorem act_calls:
  assumes "act (traced a) i ap (w, l) = (out, w', l')"
  shows "\<exists>es. l' = l @ es \<and> calls (ac_loadBalancingEnabled a) (ac_messageCache a \<noteq> None) i ap es out"
proof (cases "ac_loadBalancingEnabled a")
  case False
  then have "act_signed (traced a) i ap (w, l) = (out, w', l')" using assms by (simp add: act_def traced_def)
  from act_signed_calls [OF this] False show ?thesis by (simp add: calls_def)
next
  case True
  obtain b w1 where should: "sa_ShouldHandleAction (ac_syncronizer a) i w = (b, w1)" by (metis prod.exhaust)
  obtain r w2 where lock: "sa_AcquireLock (ac_syncronizer a) w1 = (r, w2)" by (metis prod.exhaust)
  obtain out' w3 l3 where sg: "act_signed (traced a) i ap (w2, l @ [EShould i True, ELock (Ret None)]) = (out', w3, l3)"
    by (metis prod.exhaust)
  obtain q w4 where rel: "sa_Release (ac_syncronizer a) i w3 = (q, w4)" by (metis prod.exhaust)
  have ap: "sa_ShouldHandleAction (ac_syncronizer (traced a)) i (w, l) = (b, w1, l @ [EShould i b])"
    "sa_AcquireLock (ac_syncronizer (traced a)) (w1, l @ [EShould i True]) = (r, w2, l @ [EShould i True, ELock r])"
    "sa_Release (ac_syncronizer (traced a)) i (w3, l3) = (q, w4, l3 @ [ERelease i q])"
    "ac_loadBalancingEnabled (traced a)"
    using should lock rel True by (simp_all add: traced_defs)
  show ?thesis
  proof (cases "b \<and> r = Ret None")
    case False
    then have "b = False \<or> b = True \<and> r = Panic \<or> b = True \<and> (\<exists>e. r = Ret (Some e))"
      by (cases b; cases r) auto
    then show ?thesis using assms ap True by (elim disjE) (auto simp: act_def calls_def)
  next
    case lk: True
    from act_signed_calls [OF sg] obtain ss where ss: "l3 = (l @ [EShould i True, ELock (Ret None)]) @ ss"
      "signed_calls (ac_messageCache a \<noteq> None) i ap ss out'" by blast
    have "l' = l3 @ [ERelease i q]" "out = (if q = Panic then Panic else out')"
      using assms ap sg lk by (auto simp: act_def split: ret.splits)
    then show ?thesis using ss True by (auto simp: calls_def)
  qed
qed

text \<open>A service without load balancing whose signer succeeds.\<close>

definition plain_signer :: "gerr option ret \<Rightarrow> 'w signer_api" where
  "plain_signer r = \<lparr>si_SetKey = (\<lambda>k w. (None, w)), si_ActionApprove = (\<lambda>i w. (r, w)), si_ActionReject = (\<lambda>i w. (r, w)),
     si_ApproveActionMessage = (\<lambda>i m w. (r, w))\<rparr>"

theorem act_calls_witness:
  "let a = NewActionService (sync_impl srv_lib) False (Some (\<lambda>i w. w)) (plain_signer (Ret None)) in
    calls False True ''a'' True [ESign ''a'' True (Ret None), ERemove ''a''] (Ret None) \<and>
    (\<exists>es. calls (ac_loadBalancingEnabled a) (ac_messageCache a \<noteq> None) ''a'' True es (Ret None))"
proof -
  define a where "a = NewActionService (sync_impl srv_lib) False (Some (\<lambda>i w. w)) (plain_signer (Ret None))"
  have "act (traced a) ''a'' True (w, []) = (Ret None, w, [ESign ''a'' True (Ret None), ERemove ''a''])" for w
    by (simp add: a_def act_def act_signed_def traced_defs NewActionService_def plain_signer_def)
  from act_calls [OF this] have "\<exists>es. calls (ac_loadBalancingEnabled a) (ac_messageCache a \<noteq> None) ''a'' True es (Ret None)"
    by blast
  then show ?thesis by (simp add: a_def calls_def signed_calls_def)
qed

section \<open>Actions that fail\<close>

text \<open>
  An action that was released is taken for handled by every agent on the same Redis server as long
  as its mark lasts, whether it was signed or not: \<open>ShouldHandleAction\<close> is false from the moment the
  mark is set until \<open>ActionIDExpirationSec\<close> later.
\<close>

theorem Release_marks_handled:
  fixes lib :: "'s sync_lib" and a b :: syncronize
  assumes redis: "redis_ok (sy_cache lib) view"
    and rel: "sn_mutex a = Some m" "sy_Unlock lib m w = (r, m', w1)" "Release lib i (a, w) = (e, a', w2)"
    and exp: "0 < lb_ActionIDExpirationSec (sn_cfgLoadBalancing a)" "lb_ActionIDExpirationSec (sn_cfgLoadBalancing a) \<le> 9223372036"
    and later: "sy_now lib w1 \<le> sy_now lib v" "sy_now lib v < sy_now lib w1 + lb_ActionIDExpirationSec (sn_cfgLoadBalancing a) * Second"
    and kept: "view v (sy_now lib v) (sn_getKey i) = view w2 (sy_now lib v) (sn_getKey i)"
  shows "\<exists>v'. ShouldHandleAction lib i (b, v) = (False, b, v')"
proof -
  let ?k = "sn_getKey i" and ?d = "lb_ActionIDExpirationSec (sn_cfgLoadBalancing a)"
  obtain q er where r: "r = (q, er)" by (cases r)
  have d: "duration_of ?d Second = ?d * Second" using exp by (intro duration_seconds) simp
  have "w2 = snd (rd_Set (sy_cache lib) (sy_now lib w1) ?k (bytes_of ''1'') (?d * Second) w1)"
    using rel by (simp add: Release_def r d)
  moreover have "0 < ?d * Second" using exp by (simp add: Second_def)
  ultimately have "view w2 (sy_now lib v) ?k = Some (bytes_of ''1'')"
    using redis [unfolded redis_ok_def, THEN conjunct1, rule_format, of "?d * Second" "sy_now lib w1" "sy_now lib v" ?k] later by simp
  then have "view v (sy_now lib v) ?k = Some (bytes_of ''1'')" using kept by simp
  then have "fst (rd_Get (sy_cache lib) (sy_now lib v) ?k v) = Inr (bytes_of ''1'')"
    using redis [unfolded redis_ok_def, THEN conjunct2, THEN conjunct2, THEN conjunct2, THEN conjunct1, rule_format, of "sy_now lib v" ?k v] by simp
  then show ?thesis by (auto simp: ShouldHandleAction_def split: prod.split)
qed

text \<open>The synchronizer on an association list of marks; time stands still.\<close>

definition list_lib :: "(string \<times> bytes \<times> int) list sync_lib" where
  "list_lib = \<lparr>sy_cache = map_redis, sy_now = (\<lambda>w. 0), sy_Sleep = (\<lambda>d w. w),
     sy_Lock = (\<lambda>m w. (None, m\<lparr>mx_value := Some 0\<rparr>, w)), sy_Unlock = (\<lambda>m w. ((True, None), m, w))\<rparr>"

definition demo_lb :: LoadBalancing where
  "demo_lb = \<lparr>lb_Enable = True, lb_OnLockErrorTimeOutMs = 300, lb_ActionIDExpirationSec = 6,
     lb_RedisConfig = \<lparr>redis_Host = [], redis_Port = 0, redis_Password = [], redis_DB = 0\<rparr>\<rparr>"

theorem Release_marks_handled_witness:
  "let a = (NewSyncronizer demo_lb)\<lparr>sn_mutex := Some \<lparr>mx_name = ''a'', mx_value = Some 0\<rparr>\<rparr>;
       w = snd (snd (Release list_lib ''a'' (a, []))) in
     fst (ShouldHandleAction list_lib ''a'' (NewSyncronizer demo_lb, w)) = False"
proof -
  define a where "a = (NewSyncronizer demo_lb)\<lparr>sn_mutex := Some \<lparr>mx_name = ''a'', mx_value = Some 0\<rparr>\<rparr>"
  obtain e a' w2 where rel: "Release list_lib ''a'' (a, []) = (e, a', w2)" by (metis prod.exhaust)
  have "\<exists>v'. ShouldHandleAction list_lib ''a'' (NewSyncronizer demo_lb, w2) = (False, NewSyncronizer demo_lb, v')"
    by (rule Release_marks_handled [OF _ _ _ rel, of map_view "\<lparr>mx_name = ''a'', mx_value = Some 0\<rparr>" "(True, None)"
          "\<lparr>mx_name = ''a'', mx_value = Some 0\<rparr>" "[]"])
      (simp_all add: list_lib_def map_redis_ok a_def NewSyncronizer_def demo_lb_def Second_def)
  then show ?thesis using rel by (auto simp: a_def Let_def)
qed

lemma failed_act:
  fixes err :: gerr and rm :: "(string \<Rightarrow> syncronize \<times> srv \<Rightarrow> syncronize \<times> srv) option"
  assumes free: "sv_cache w (sn_getKey i) = None" "sv_locks w i = None"
  defines "a \<equiv> NewActionService (sync_impl srv_lib) True rm (plain_signer (Ret (Some err)))"
  shows "\<exists>aw. act a i ap (NewSyncronizer conf, w) = (Ret (Some err), aw) \<and>
    act (traced a) i ap ((NewSyncronizer conf, w), l) =
      (Ret (Some err), aw, l @ [EShould i True, ELock (Ret None), ESign i ap (Ret (Some err)), ERelease i (Ret None)]) \<and>
    (\<forall>l ap'. act (traced a) i ap' (aw, l) = (Ret None, aw, l @ [EShould i False]))"
proof -
  define w1 where "w1 = w\<lparr>sv_locks := (sv_locks w)(i := Some (sv_next w)), sv_next := Suc (sv_next w)\<rparr>"
  define w2 where "w2 = w1\<lparr>sv_locks := (sv_locks w1)(i := None), sv_cache := (sv_cache w1)(sn_getKey i := Some (bytes_of ''1''))\<rparr>"
  define s2 where "s2 = (NewSyncronizer conf)\<lparr>sn_mutex := Some \<lparr>mx_name = i, mx_value = Some (sv_next w)\<rparr>\<rparr>"
  have c: "ShouldHandleAction srv_lib i (NewSyncronizer conf, w) = (True, (NewSyncronizer conf)\<lparr>sn_mutex := Some \<lparr>mx_name = i, mx_value = None\<rparr>\<rparr>, w)"
    using free by (simp add: ShouldHandleAction_def srv_lib_def)
  have q: "AcquireLock srv_lib ((NewSyncronizer conf)\<lparr>sn_mutex := Some \<lparr>mx_name = i, mx_value = None\<rparr>\<rparr>, w) = (Ret None, s2, w1)"
    using free by (simp add: AcquireLock_def srv_lib_def s2_def w1_def)
  have r: "Release srv_lib i (s2, w1) = (Ret None, s2, w2)"
    by (simp add: Release_def srv_lib_def s2_def w2_def w1_def)
  have "act a i ap (NewSyncronizer conf, w) = (Ret (Some err), s2, w2)"
    using c q r by (cases ap) (simp_all add: a_def act_def NewActionService_def sync_impl_def act_signed_def plain_signer_def)
  moreover have "act (traced a) i ap ((NewSyncronizer conf, w), l) = (Ret (Some err), (s2, w2),
      l @ [EShould i True, ELock (Ret None), ESign i ap (Ret (Some err)), ERelease i (Ret None)])"
    using c q r by (cases ap) (simp_all add: a_def act_def NewActionService_def sync_impl_def act_signed_def plain_signer_def traced_defs)
  moreover have "ShouldHandleAction srv_lib i (s2, w2) = (False, s2, w2)" by (simp add: ShouldHandleAction_def srv_lib_def w2_def)
  then have "act (traced a) i ap' ((s2, w2), l) = (Ret None, (s2, w2), l @ [EShould i False])" for ap' l
    by (simp add: a_def act_def NewActionService_def sync_impl_def traced_defs)
  ultimately show ?thesis by auto
qed

text \<open>
  So a failed approval cannot be repeated: whatever the error of the signer, the service reports it
  once, releases the action as handled, and the next approval or rejection of it returns nil without
  asking the signer.
\<close>

theorem failed_action_reported_as_done:
  fixes err :: gerr and rm :: "(string \<Rightarrow> syncronize \<times> srv \<Rightarrow> syncronize \<times> srv) option"
  assumes free: "sv_cache w (sn_getKey i) = None" "sv_locks w i = None"
  defines "a \<equiv> NewActionService (sync_impl srv_lib) True rm (plain_signer (Ret (Some err)))"
  shows "case act a i ap (NewSyncronizer conf, w) of (out, aw) \<Rightarrow> out = Ret (Some err) \<and>
    (\<forall>l ap'. \<exists>aw'. act (traced a) i ap' (aw, l) = (Ret None, aw', l @ [EShould i False]))"
  using failed_act [OF free, of rm err ap conf "[]"] unfolding a_def by auto

theorem failed_action_reported_as_done_witness:
  "fst (act (NewActionService (sync_impl srv_lib) True None (plain_signer (Ret (Some (Foreign 7))))) ''a'' True
     (NewSyncronizer demo_lb, \<lparr>sv_locks = (\<lambda>n. None), sv_next = 0, sv_cache = (\<lambda>k. None)\<rparr>)) = Ret (Some (Foreign 7))"
  using failed_action_reported_as_done [of "\<lparr>sv_locks = (\<lambda>n. None), sv_next = 0, sv_cache = (\<lambda>k. None)\<rparr>" "''a''" "Foreign 7" None True demo_lb]
  by (auto split: prod.splits)

end
