(* ===== verification/AutoApprover.thy ===== *)
theory AutoApprover
  imports ActionService
begin

text \<open>
  \<open>internal/autoapprover\<close>: the automatic approval of the actions a feed delivers, with retries.

  The world \<open>'w\<close> holds the clock (\<open>cl_now\<close>, in nanoseconds) and whatever the signer and the
  synchronizer touch. The retry loop of \<open>approveAction\<close> has no bound of its own, so it is a partial
  function: \<open>None\<close> means that it does not return. A panic here ends the process: \<open>handleMessage\<close> runs
  in a goroutine that nothing recovers.
\<close>

section \<open>retry_timer.go\<close>

record 'w clock =
  cl_now :: "'w \<Rightarrow> int"
  cl_Sleep :: "int \<Rightarrow> 'w \<Rightarrow> 'w"

(* internal/autoapprover/retry_timer.go:5-10 retryTimer *)
record retryTimer =
  rt_start :: int
  rt_baseInc :: int
  rt_timeEdge :: int
  rt_retryInterval :: int

(* internal/autoapprover/retry_timer.go:12-19 newRetryTimer *)
definition newRetryTimer :: "int \<Rightarrow> int \<Rightarrow> int \<Rightarrow> retryTimer" where
  "newRetryTimer now retry retryMax =
     \<lparr>rt_start = now, rt_baseInc = retry, rt_timeEdge = duration_of retryMax Second, rt_retryInterval = retry\<rparr>"

(* internal/autoapprover/retry_timer.go:21-23 retryTimer.isTimeOut *)
definition isTimeOut :: "int \<Rightarrow> retryTimer \<Rightarrow> bool" where
  "isTimeOut now t \<longleftrightarrow> saturate64 (now - rt_start t) \<ge> rt_timeEdge t"

(* internal/autoapprover/retry_timer.go:25-28 retryTimer.retry *)
definition retry :: "'w clock \<Rightarrow> retryTimer \<Rightarrow> 'w \<Rightarrow> retryTimer \<times> 'w" where
  "retry cl t w =
     (let w = cl_Sleep cl (duration_of (rt_baseInc t) Second) w in
      (t\<lparr>rt_baseInc := wrap64 (rt_baseInc t + rt_retryInterval t)\<rparr>, w))"

section \<open>auto_approver.go\<close>

text \<open>The feed client is modelled with the hub; \<open>lastError\<close> is threaded on its own.\<close>

(* internal/autoapprover/auto_approver.go:25-34 autoActionApprover *)
record 'w autoActionApprover =
  ap_cfgAutoApproval :: AutoApprove
  ap_syncronizer :: "'w sync_api"
  ap_loadBalancingEnabled :: bool
  ap_signer :: "'w signer_api"

(* internal/autoapprover/auto_approver.go:36-48 NewAutoApprover *)
definition NewAutoApprover :: "Config \<Rightarrow> 'w sync_api \<Rightarrow> 'w signer_api \<Rightarrow> 'w autoActionApprover" where
  "NewAutoApprover config syncronizer signer =
     \<lparr>ap_cfgAutoApproval = cfg_AutoApprove config, ap_syncronizer = syncronizer,
      ap_loadBalancingEnabled = lb_Enable (cfg_LoadBalancing config), ap_signer = signer\<rparr>"

partial_function (option) approve_loop :: "'w clock \<Rightarrow> 'w signer_api \<Rightarrow> string \<Rightarrow> slice \<Rightarrow> retryTimer \<Rightarrow> 'w
    \<Rightarrow> (unit ret \<times> 'w) option" where
  "approve_loop cl signer actionId message timer w =
     (case si_ApproveActionMessage signer actionId message w of
        (Panic, w) \<Rightarrow> Some (Panic, w)
      | (Ret None, w) \<Rightarrow> Some (Ret (), w)
      | (Ret (Some err), w) \<Rightarrow>
          if isTimeOut (cl_now cl w) timer then Some (Ret (), w)
          else (case retry cl timer w of (timer, w) \<Rightarrow> approve_loop cl signer actionId message timer w))"

(* internal/autoapprover/auto_approver.go:124-142 autoActionApprover.approveAction *)
definition approveAction :: "'w clock \<Rightarrow> 'w autoActionApprover \<Rightarrow> string \<Rightarrow> slice \<Rightarrow> 'w \<Rightarrow> (unit ret \<times> 'w) option" where
  "approveAction cl a actionId message w =
     (let timer = newRetryTimer (cl_now cl w) (aa_RetryInterval (ap_cfgAutoApproval a)) (aa_RetryIntervalMax (ap_cfgAutoApproval a)) in
      approve_loop cl (ap_signer a) actionId message timer w)"

(* internal/autoapprover/auto_approver.go:96-106 autoActionApprover.shouldHandleAction *)
definition shouldHandleAction :: "'w autoActionApprover \<Rightarrow> string \<Rightarrow> 'w \<Rightarrow> bool \<times> 'w" where
  "shouldHandleAction a actionId w =
     (if ap_loadBalancingEnabled a
      then (case sa_ShouldHandleAction (ap_syncronizer a) actionId w of
              (False, w) \<Rightarrow> (False, w) | (True, w) \<Rightarrow> (True, w))
      else (True, w))"

definition approve_first :: "'w clock \<Rightarrow> 'w autoActionApprover \<Rightarrow> ActionInfo \<Rightarrow> 'w \<Rightarrow> (unit ret \<times> 'w) option" where
  "approve_first cl a action w =
     (case ai_Messages action of
        [] \<Rightarrow> Some (Panic, w)
      | m # _ \<Rightarrow> approveAction cl a (ai_ID action) (Some m) w)"

text \<open>The deferred release runs after a panic too.\<close>

(* internal/autoapprover/auto_approver.go:108-122 autoActionApprover.handleAction *)
definition handleAction :: "'w clock \<Rightarrow> 'w autoActionApprover \<Rightarrow> ActionInfo \<Rightarrow> 'w \<Rightarrow> (unit ret \<times> 'w) option" where
  "handleAction cl a action w =
     (if ap_loadBalancingEnabled a
      then (case sa_AcquireLock (ap_syncronizer a) w of
              (Panic, w) \<Rightarrow> Some (Panic, w)
            | (Ret (Some err), w) \<Rightarrow> Some (Ret (), w)
            | (Ret None, w) \<Rightarrow>
                (case approve_first cl a action w of
                   None \<Rightarrow> None
                 | Some (out, w) \<Rightarrow>
                     (case sa_Release (ap_syncronizer a) (ai_ID action) w of
                        (Panic, w) \<Rightarrow> Some (Panic, w)
                      | (Ret err, w) \<Rightarrow> Some (out, w))))
      else approve_first cl a action w)"

(* internal/autoapprover/auto_approver.go:76-94 autoActionApprover.handleMessage *)
definition handleMessage :: "json_dec \<Rightarrow> 'w clock \<Rightarrow> 'w autoActionApprover \<Rightarrow> bytes \<Rightarrow> gerr option \<times> 'w
    \<Rightarrow> (unit ret \<times> gerr option \<times> 'w) option" where
  "handleMessage js cl a message ew =
     (case ew of (lastError, w) \<Rightarrow>
      (case json_action js message of
         Inr parsed \<Rightarrow>
           let action = (case parsed of Some x \<Rightarrow> x
                 | None \<Rightarrow> \<lparr>ai_ID = [], ai_Status = 0, ai_Messages = [], ai_ExpireTime = 0\<rparr>) in
           if \<not> IsExpired (cl_now cl w) action
           then (if ai_Status action = StatusPending
                 then (case shouldHandleAction a (ai_ID action) w of
                         (True, w) \<Rightarrow>
                           (case handleAction cl a action w of
                              None \<Rightarrow> None | Some (out, w) \<Rightarrow> Some (out, lastError, w))
                       | (False, w) \<Rightarrow> Some (Ret (), lastError, w))
                 else Some (Ret (), lastError, w))
           else Some (Ret (), lastError, w)
       | Inl err \<Rightarrow> Some (Ret (), Some err, w)))"

section \<open>The retries end\<close>

text \<open>The clock does not run backwards, and a sleep lasts at least as long as it is asked to.\<close>

definition clock_runs :: "'w clock \<Rightarrow> 'w signer_api \<Rightarrow> bool" where
  "clock_runs cl signer \<longleftrightarrow>
     (\<forall>d w. cl_now cl w + max 0 d \<le> cl_now cl (cl_Sleep cl d w)) \<and>
     (\<forall>i m w. cl_now cl w \<le> cl_now cl (snd (si_ApproveActionMessage signer i m w)))"

text \<open>The same clock and signer, with the attempts counted.\<close>

definition counted_clock :: "'w clock \<Rightarrow> ('w \<times> nat) clock" where
  "counted_clock cl = \<lparr>cl_now = (\<lambda>(w, n). cl_now cl w), cl_Sleep = (\<lambda>d (w, n). (cl_Sleep cl d w, n))\<rparr>"

definition counted_signer :: "'w signer_api \<Rightarrow> ('w \<times> nat) signer_api" where
  "counted_signer s = \<lparr>
     si_SetKey = (\<lambda>k (w, n). (case si_SetKey s k w of (e, w) \<Rightarrow> (e, w, n))),
     si_ActionApprove = (\<lambda>i (w, n). (case si_ActionApprove s i w of (r, w) \<Rightarrow> (r, w, n))),
     si_ActionReject = (\<lambda>i (w, n). (case si_ActionReject s i w of (r, w) \<Rightarrow> (r, w, n))),
     si_ApproveActionMessage = (\<lambda>i m (w, n). (case si_ApproveActionMessage s i m w of (r, w) \<Rightarrow> (r, w, Suc n)))\<rparr>"

lemma counted_sel [simp]:
  "cl_now (counted_clock cl) (w, n) = cl_now cl w" "cl_Sleep (counted_clock cl) d (w, n) = (cl_Sleep cl d w, n)"
  "si_ApproveActionMessage (counted_signer s) i m (w, n) =
     (fst (si_ApproveActionMessage s i m w), snd (si_ApproveActionMessage s i m w), Suc n)"
  by (simp_all add: counted_clock_def counted_signer_def split: prod.split)

lemma saturate64_ge: "e \<le> x \<Longrightarrow> e \<le> 2 ^ 63 - 1 \<Longrightarrow> e \<le> saturate64 x"
  by (simp add: saturate64_def)

definition tri :: "nat \<Rightarrow> int" where
  "tri j = int (\<Sum>i \<le> j. i)"

lemma tri_simps: "tri 0 = 0" "tri (Suc j) = tri j + int (Suc j)"
  by (simp_all add: tri_def)

lemma tri_mono: "j \<le> k \<Longrightarrow> tri j \<le> tri k"
  by (induction k) (auto simp: tri_simps le_Suc_eq)

lemma small_in_int64: "0 \<le> x \<Longrightarrow> x \<le> 9223372036 \<Longrightarrow> in_int64 x"
  by (simp add: in_int64_def)

text \<open>After \<open>j\<close> sleeps the timer has waited for \<open>tri j\<close> intervals.\<close>

lemma approve_loop_bound:
  assumes run: "clock_runs cl s" and r: "0 \<le> r" "r * int (Suc k) \<le> 9223372036"
    and edge: "rt_timeEdge t \<le> r * tri k * Second" "rt_timeEdge t \<le> 2 ^ 63 - 1"
    and j: "j \<le> k" "rt_baseInc t = r * int (Suc j)" "rt_retryInterval t = r"
      "r * tri j * Second \<le> cl_now cl w - rt_start t"
  shows "\<exists>out w' n'. approve_loop (counted_clock cl) (counted_signer s) i m t (w, n) = Some (out, w', n') \<and> n' \<le> n + Suc (k - j)"
  using edge j
proof (induction "k - j" arbitrary: j t w n)
  case 0
  then have jk: "j = k" by simp
  obtain o1 w1 where a: "si_ApproveActionMessage s i m w = (o1, w1)" by fastforce
  then have "cl_now cl w \<le> cl_now cl w1" using run unfolding clock_runs_def by (metis snd_conv)
  then have "isTimeOut (cl_now cl w1) t" using "0.prems" jk unfolding isTimeOut_def by (intro saturate64_ge) simp_all
  then show ?case by (subst approve_loop.simps) (auto simp: a split: ret.splits option.splits)
next
  case (Suc x)
  obtain o1 w1 where a: "si_ApproveActionMessage s i m w = (o1, w1)" by fastforce
  then have now1: "cl_now cl w \<le> cl_now cl w1" using run unfolding clock_runs_def by (metis snd_conv)
  show ?case
  proof (cases "(\<exists>e. o1 = Ret (Some e)) \<and> \<not> isTimeOut (cl_now cl w1) t")
    case False
    then show ?thesis by (subst approve_loop.simps) (auto simp: a split: ret.splits option.splits)
  next
    case True
    have jk: "Suc j \<le> k" "x = k - Suc j" using Suc.hyps(2) by simp_all
    have "r * int (Suc j) \<le> r * int (Suc k)" using jk r by (intro mult_left_mono) simp_all
    then have small: "0 \<le> r * int (Suc j)" "r * int (Suc j) \<le> 9223372036" using r by simp_all
    have d: "duration_of (rt_baseInc t) Second = r * int (Suc j) * Second"
      unfolding Suc.prems(4) using small by (intro duration_seconds) simp
    have "r * int (Suc (Suc j)) \<le> r * int (Suc k)" using jk r by (intro mult_left_mono) simp_all
    moreover have "0 \<le> r * int (Suc (Suc j))" using r by simp
    ultimately have "in_int64 (r * int (Suc (Suc j)))" using r(2) by (intro small_in_int64) simp_all
    then have b: "wrap64 (rt_baseInc t + rt_retryInterval t) = r * int (Suc (Suc j))"
      unfolding Suc.prems(4,5) by (subst wrap64_id [symmetric]) (simp_all add: algebra_simps)
    define w2 where "w2 = cl_Sleep cl (r * int (Suc j) * Second) w1"
    have "cl_now cl w1 + max 0 (r * int (Suc j) * Second) \<le> cl_now cl w2"
      using run unfolding clock_runs_def w2_def by blast
    then have el: "r * tri (Suc j) * Second \<le> cl_now cl w2 - rt_start t"
      using Suc.prems(6) now1 small(1) by (simp add: tri_simps Second_def algebra_simps)
    define t' where "t' = t\<lparr>rt_baseInc := r * int (Suc (Suc j))\<rparr>"
    have "approve_loop (counted_clock cl) (counted_signer s) i m t (w, n) =
        approve_loop (counted_clock cl) (counted_signer s) i m t' (w2, Suc n)"
      using True by (subst approve_loop.simps) (auto simp: a retry_def Let_def d b w2_def t'_def)
    moreover have "\<exists>out w' n'. approve_loop (counted_clock cl) (counted_signer s) i m t' (w2, Suc n) = Some (out, w', n') \<and>
        n' \<le> Suc n + Suc (k - Suc j)"
      by (rule Suc.hyps(1) [OF jk(2)]) (use Suc.prems jk el in \<open>simp_all add: t'_def\<close>)
    ultimately show ?thesis using jk by (auto simp: Suc_diff_Suc intro: le_trans)
  qed
qed

text \<open>
  C14. The retries end: if the clock runs, the interval and the maximum are not negative and of a size that
  does not overflow, and \<open>k\<close> intervals of growing length make up the maximum, then \<open>approveAction\<close>
  returns after at most \<open>k + 1\<close> attempts, whatever the signer answers. With the default configuration (5
  and 300 seconds) that is 12 attempts.
\<close>

theorem approveAction_bound:
  fixes a :: "('w \<times> nat) autoActionApprover" and w :: 'w
  assumes run: "clock_runs cl s" and signer: "ap_signer a = counted_signer s"
    and conf: "aa_RetryInterval (ap_cfgAutoApproval a) = r" "aa_RetryIntervalMax (ap_cfgAutoApproval a) = rm"
    and range: "0 \<le> r" "r * int (Suc k) \<le> 9223372036" "0 \<le> rm" "rm \<le> 9223372036"
    and k: "rm \<le> r * tri k"
  shows "\<exists>out w' n. approveAction (counted_clock cl) a i m (w, 0) = Some (out, w', n) \<and> n \<le> Suc k"
proof -
  have d: "duration_of rm Second = rm * Second" using range by (intro duration_seconds) simp
  have "rm * Second \<le> 2 ^ 63 - 1" "rm * Second \<le> r * tri k * Second" using range k by (simp_all add: Second_def)
  then have "\<exists>out w' n'. approve_loop (counted_clock cl) (counted_signer s) i m (newRetryTimer (cl_now cl w) r rm) (w, 0)
      = Some (out, w', n') \<and> n' \<le> 0 + Suc (k - 0)"
    by (intro approve_loop_bound [OF run range(1,2)]) (simp_all add: newRetryTimer_def d tri_simps)
  then show ?thesis by (simp add: approveAction_def signer conf)
qed

text \<open>A signer that always fails, on a clock that counts nanoseconds.\<close>

definition demo_clock :: "int clock" where
  "demo_clock = \<lparr>cl_now = (\<lambda>w. w), cl_Sleep = (\<lambda>d w. w + max 0 d)\<rparr>"

definition demo_approver :: "(int \<times> nat) autoActionApprover" where
  "demo_approver = \<lparr>ap_cfgAutoApproval = \<lparr>aa_Enabled = True, aa_RetryIntervalMax = 300, aa_RetryInterval = 5\<rparr>,
     ap_syncronizer = \<lparr>sa_ShouldHandleAction = (\<lambda>i w. (True, w)), sa_AcquireLock = (\<lambda>w. (Ret None, w)), sa_Release = (\<lambda>i w. (Ret None, w))\<rparr>,
     ap_loadBalancingEnabled = False, ap_signer = counted_signer (plain_signer (Ret (Some (Foreign 0))))\<rparr>"

lemma tri_11: "tri 11 = 66"
  by (simp add: tri_def numeral_eq_Suc)

theorem approveAction_bound_witness:
  "\<exists>out w n. approveAction (counted_clock demo_clock) demo_approver ''a'' (Some [1]) (0, 0) = Some (out, w, n) \<and> n \<le> 12"
proof -
  have "clock_runs demo_clock (plain_signer (Ret (Some (Foreign 0))))"
    by (simp add: clock_runs_def demo_clock_def plain_signer_def)
  moreover have "ap_signer demo_approver = counted_signer (plain_signer (Ret (Some (Foreign 0))))"
    by (simp add: demo_approver_def)
  ultimately show ?thesis
    using approveAction_bound [of demo_clock _ demo_approver 5 300 11 "''a''" "Some [1]" 0]
    by (simp add: tri_11 demo_approver_def)
qed

section \<open>What is approved\<close>

text \<open>The same approver and clock, with the calls recorded as in \<open>ActionService\<close>.\<close>

definition traced_clock :: "'w clock \<Rightarrow> ('w \<times> event list) clock" where
  "traced_clock cl = \<lparr>cl_now = (\<lambda>(w, l). cl_now cl w), cl_Sleep = (\<lambda>d (w, l). (cl_Sleep cl d w, l))\<rparr>"

definition traced_approver :: "'w autoActionApprover \<Rightarrow> ('w \<times> event list) autoActionApprover" where
  "traced_approver a = \<lparr>ap_cfgAutoApproval = ap_cfgAutoApproval a, ap_syncronizer = traced_sync (ap_syncronizer a),
     ap_loadBalancingEnabled = ap_loadBalancingEnabled a, ap_signer = traced_signer (ap_signer a)\<rparr>"

text \<open>
  The attempts for one message: each but the last fails; after the last one the loop returns, whether
  it succeeded or ran out of time. A panic of the signer goes through.
\<close>

definition attempts :: "string \<Rightarrow> slice \<Rightarrow> event list \<Rightarrow> unit ret \<Rightarrow> bool" where
  "attempts i m es out \<longleftrightarrow> (\<exists>rs r. es = map (EApprove i m) (rs @ [r]) \<and> (\<forall>x \<in> set rs. \<exists>e. x = Ret (Some e)) \<and>
     out = (if r = Panic then Panic else Ret ()))"

lemma attempts_last: "r = Panic \<and> out = Panic \<or> r \<noteq> Panic \<and> out = Ret () \<Longrightarrow> attempts i m [EApprove i m r] out"
  unfolding attempts_def by (intro exI [of _ "[]"] exI [of _ r]) auto

lemma attempts_Cons: "attempts i m es out \<Longrightarrow> attempts i m (EApprove i m (Ret (Some e)) # es) out"
  unfolding attempts_def
proof (elim exE conjE)
  fix rs r assume "es = map (EApprove i m) (rs @ [r])" "\<forall>x \<in> set rs. \<exists>e. x = Ret (Some e)" "out = (if r = Panic then Panic else Ret ())"
  then show "\<exists>rs r. EApprove i m (Ret (Some e)) # es = map (EApprove i m) (rs @ [r]) \<and> (\<forall>x \<in> set rs. \<exists>e. x = Ret (Some e)) \<and>
     out = (if r = Panic then Panic else Ret ())"
    by (intro exI [of _ "Ret (Some e) # rs"] exI [of _ r]) auto
qed

definition loop_calls :: "'w clock \<Rightarrow> 'w signer_api \<Rightarrow> ('w \<times> event list) clock \<Rightarrow> ('w \<times> event list) signer_api \<Rightarrow> string \<Rightarrow> slice
    \<Rightarrow> retryTimer \<Rightarrow> 'w \<times> event list \<Rightarrow> unit ret \<times> 'w \<times> event list \<Rightarrow> bool" where
  "loop_calls cl s0 c s i m t wl res \<longleftrightarrow> c = traced_clock cl \<longrightarrow> s = traced_signer s0 \<longrightarrow>
     (\<exists>out w' es. res = (out, w', snd wl @ es) \<and> attempts i m es out)"

lemma approve_loop_calls:
  fixes c :: "('w \<times> event list) clock"
  shows "approve_loop c s i m t wl = Some res \<Longrightarrow> loop_calls cl s0 c s i m t wl res"
proof (rule approve_loop.raw_induct [of "loop_calls cl s0"])
  fix loop :: "('w \<times> event list) clock \<Rightarrow> ('w \<times> event list) signer_api \<Rightarrow> string \<Rightarrow> slice \<Rightarrow> retryTimer \<Rightarrow> 'w \<times> event list
      \<Rightarrow> (unit ret \<times> 'w \<times> event list) option"
    and c :: "('w \<times> event list) clock" and s i m t wl res
  assume ih: "\<And>c s i m t wl res. loop c s i m t wl = Some res \<Longrightarrow> loop_calls cl s0 c s i m t wl res"
    and run: "(case si_ApproveActionMessage s i m wl of
        (Ret None, w) \<Rightarrow> Some (Ret (), w)
      | (Ret (Some err), w) \<Rightarrow> if isTimeOut (cl_now c w) t then Some (Ret (), w)
          else case retry c t w of (t, w) \<Rightarrow> loop c s i m t w
      | (Panic, w) \<Rightarrow> Some (Panic, w)) = Some res"
  show "loop_calls cl s0 c s i m t wl res"
    unfolding loop_calls_def
  proof (intro impI)
    assume c: "c = traced_clock cl" and s: "s = traced_signer s0"
    obtain w l where wl: "wl = (w, l)" by fastforce
    obtain r w1 where a: "si_ApproveActionMessage s0 i m w = (r, w1)" by fastforce
    then have a': "si_ApproveActionMessage s i m wl = (r, w1, l @ [EApprove i m r])"
      by (simp add: s wl traced_defs)
    show "\<exists>out w' es. res = (out, w', snd wl @ es) \<and> attempts i m es out"
    proof (cases "(\<exists>e. r = Ret (Some e)) \<and> \<not> isTimeOut (cl_now c (w1, l @ [EApprove i m r])) t")
      case False
      then have "\<exists>out. res = (out, w1, l @ [EApprove i m r]) \<and> (r = Panic \<and> out = Panic \<or> r \<noteq> Panic \<and> out = Ret ())"
        using run a' by (auto split: ret.splits option.splits)
      then show ?thesis using attempts_last by (fastforce simp: wl)
    next
      case True
      then obtain e where e: "r = Ret (Some e)" by blast
      obtain t2 w2 where t2: "retry c t (w1, l @ [EApprove i m r]) = (t2, w2, l @ [EApprove i m r])"
        by (simp add: c retry_def traced_clock_def)
      have "loop c s i m t2 (w2, l @ [EApprove i m r]) = Some res" using run a' True e t2 by simp
      from ih [OF this, unfolded loop_calls_def, rule_format, OF c s]
      obtain out w' es where "res = (out, w', (l @ [EApprove i m r]) @ es)" "attempts i m es out" by auto
      then show ?thesis using attempts_Cons [of i m es out e] e by (auto simp: wl)
    qed
  qed
qed

lemma approve_loop_attempts:
  "approve_loop (traced_clock cl) (traced_signer s0) i m t (w, l) = Some res \<Longrightarrow>
    \<exists>out w' es. res = (out, w', l @ es) \<and> attempts i m es out"
  using approve_loop_calls [of "traced_clock cl" "traced_signer s0" i m t "(w, l)" res cl s0] by (simp add: loop_calls_def)

text \<open>The action of a message that is to be approved.\<close>

definition to_approve :: "json_dec \<Rightarrow> int \<Rightarrow> bytes \<Rightarrow> ActionInfo option" where
  "to_approve js now m = (case json_action js m of
     Inr (Some x) \<Rightarrow> if ai_Status x = 1 \<and> Unix now < ai_ExpireTime x then Some x else None
   | _ \<Rightarrow> None)"

definition first_calls :: "ActionInfo \<Rightarrow> event list \<Rightarrow> unit ret \<Rightarrow> bool" where
  "first_calls x es out \<longleftrightarrow> (case ai_Messages x of [] \<Rightarrow> es = [] \<and> out = Panic | m # _ \<Rightarrow> attempts (ai_ID x) (Some m) es out)"

definition approver_calls :: "bool \<Rightarrow> ActionInfo \<Rightarrow> event list \<Rightarrow> unit ret \<Rightarrow> bool" where
  "approver_calls lb x es out \<longleftrightarrow>
     (if \<not> lb then first_calls x es out
      else es = [EShould (ai_ID x) False] \<and> out = Ret () \<or>
        (\<exists>r. es = [EShould (ai_ID x) True, ELock r] \<and> r \<noteq> Ret None \<and> out = (if r = Panic then Panic else Ret ())) \<or>
        (\<exists>ss out' r. es = [EShould (ai_ID x) True, ELock (Ret None)] @ ss @ [ERelease (ai_ID x) r] \<and> first_calls x ss out' \<and>
           out = (if r = Panic then Panic else out')))"

lemma approve_first_calls:
  assumes "approve_first (traced_clock cl) (traced_approver a) x (w, l) = Some (out, w', l')"
  shows "\<exists>es. l' = l @ es \<and> first_calls x es out"
proof (cases "ai_Messages x")
  case Nil
  then show ?thesis using assms by (simp add: approve_first_def first_calls_def)
next
  case (Cons m ms)
  then have "\<exists>t. approve_loop (traced_clock cl) (traced_signer (ap_signer a)) (ai_ID x) (Some m) t (w, l) = Some (out, w', l')"
    using assms by (auto simp: approve_first_def approveAction_def traced_approver_def Let_def)
  then show ?thesis using approve_loop_attempts Cons by (fastforce simp: first_calls_def)
qed

lemma handleAction_calls:
  assumes run: "handleAction (traced_clock cl) (traced_approver a) x (w, l) = Some (out, w', l')"
    and sh: "if ap_loadBalancingEnabled a then l = l0 @ [EShould (ai_ID x) True] else l = l0"
  shows "\<exists>es. l' = l0 @ es \<and> approver_calls (ap_loadBalancingEnabled a) x es out"
proof (cases "ap_loadBalancingEnabled a")
  case False
  then have "approve_first (traced_clock cl) (traced_approver a) x (w, l) = Some (out, w', l')"
    using run by (simp add: handleAction_def traced_approver_def)
  from approve_first_calls [OF this] False sh show ?thesis by (simp add: approver_calls_def)
next
  case True
  obtain r w1 where lock: "sa_AcquireLock (ap_syncronizer a) w = (r, w1)" by fastforce
  have ap: "sa_AcquireLock (ap_syncronizer (traced_approver a)) (w, l) = (r, w1, l @ [ELock r])"
    "ap_loadBalancingEnabled (traced_approver a)"
    "ap_syncronizer (traced_approver a) = traced_sync (ap_syncronizer a)"
    using lock True by (simp_all add: traced_approver_def traced_defs)
  show ?thesis
  proof (cases "r = Ret None")
    case False
    then have "l' = l @ [ELock r]" "out = (if r = Panic then Panic else Ret ())"
      using run ap by (auto simp: handleAction_def split: ret.splits option.splits)
    then show ?thesis using False True sh by (auto simp: approver_calls_def)
  next
    case lk: True
    then obtain o1 w2 l2 where f: "approve_first (traced_clock cl) (traced_approver a) x (w1, l @ [ELock (Ret None)]) = Some (o1, w2, l2)"
      using run ap by (auto simp: handleAction_def split: option.splits prod.splits)
    obtain q w3 where rel: "sa_Release (ap_syncronizer a) (ai_ID x) w2 = (q, w3)" by fastforce
    from approve_first_calls [OF f] obtain ss where ss: "l2 = (l @ [ELock (Ret None)]) @ ss" "first_calls x ss o1" by blast
    have "l' = l2 @ [ERelease (ai_ID x) q]" "out = (if q = Panic then Panic else o1)"
      using run ap lk f rel by (auto simp: handleAction_def traced_defs split: ret.splits)
    then show ?thesis using ss True sh by (auto simp: approver_calls_def)
  qed
qed

text \<open>
  C15. What a message on the feed causes, for any signer and synchronizer, whenever \<open>handleMessage\<close> returns:
  nothing unless it decodes to a pending action that has not expired; for such an action, without
  load balancing, approval of its first message, repeated after failures; with it, the same between
  check, lock and exactly one release. The decoding error is kept in \<open>lastError\<close>. A pending action
  without messages panics and ends the process.
\<close>

theorem handleMessage_calls:
  assumes "handleMessage js (traced_clock cl) (traced_approver a) message (le, w, l) = Some (out, le', w', l')"
  shows "(case to_approve js (cl_now cl w) message of
       None \<Rightarrow> out = Ret () \<and> w' = w \<and> l' = l
     | Some x \<Rightarrow> \<exists>es. l' = l @ es \<and> approver_calls (ap_loadBalancingEnabled a) x es out) \<and>
    le' = (case json_action js message of Inl e \<Rightarrow> Some e | Inr _ \<Rightarrow> le)"
proof (cases "to_approve js (cl_now cl w) message")
  case None
  then have "handleMessage js (traced_clock cl) (traced_approver a) message (le, w, l) =
      Some (Ret (), (case json_action js message of Inl e \<Rightarrow> Some e | Inr _ \<Rightarrow> le), w, l)"
    by (auto simp: handleMessage_def to_approve_def traced_clock_def IsExpired_def StatusPending_def Let_def
          split: sum.splits option.splits if_splits)
  then show ?thesis using assms None by simp
next
  case (Some x)
  then have x: "json_action js message = Inr (Some x)" "ai_Status x = StatusPending" "\<not> IsExpired (cl_now cl w) x"
    by (auto simp: to_approve_def IsExpired_def StatusPending_def split: sum.splits option.splits if_splits)
  have now: "cl_now (traced_clock cl) (w, l) = cl_now cl w" by (simp add: traced_clock_def)
  have lb: "ap_loadBalancingEnabled (traced_approver a) = ap_loadBalancingEnabled a" by (simp add: traced_approver_def)
  have H: "handleMessage js (traced_clock cl) (traced_approver a) message (le, w, l) =
      (case shouldHandleAction (traced_approver a) (ai_ID x) (w, l) of
         (True, w) \<Rightarrow> (case handleAction (traced_clock cl) (traced_approver a) x w of None \<Rightarrow> None | Some (out, w) \<Rightarrow> Some (out, le, w))
       | (False, w) \<Rightarrow> Some (Ret (), le, w))"
    using x by (simp add: handleMessage_def now)
  have "le' = le \<and> (\<exists>es. l' = l @ es \<and> approver_calls (ap_loadBalancingEnabled a) x es out)"
  proof (cases "ap_loadBalancingEnabled a")
    case False
    then have "handleAction (traced_clock cl) (traced_approver a) x (w, l) = Some (out, w', l') \<and> le' = le"
      using assms H lb by (auto simp: shouldHandleAction_def split: option.splits prod.splits)
    then show ?thesis using handleAction_calls [of cl a x w l out w' l' l] False by auto
  next
    case True
    obtain b w1 where should: "sa_ShouldHandleAction (ap_syncronizer a) (ai_ID x) w = (b, w1)" by fastforce
    then have sh: "shouldHandleAction (traced_approver a) (ai_ID x) (w, l) = (b, w1, l @ [EShould (ai_ID x) b])"
      using True by (cases b) (simp_all add: shouldHandleAction_def traced_approver_def traced_defs)
    show ?thesis
    proof (cases b)
      case False
      then show ?thesis using assms H sh True by (auto simp: approver_calls_def)
    next
      case b: True
      then have "handleAction (traced_clock cl) (traced_approver a) x (w1, l @ [EShould (ai_ID x) True]) = Some (out, w', l') \<and> le' = le"
        using assms H sh by (auto split: option.splits prod.splits)
      then show ?thesis using handleAction_calls [of cl a x w1 _ out w' l' l] True by auto
    qed
  qed
  then show ?thesis using Some x by simp
qed

theorem handleMessage_calls_witness:
  "let js = (\<lambda>m. DocFields ''a'' 100 (Inr (1, [])));
       a = \<lparr>ap_cfgAutoApproval = \<lparr>aa_Enabled = True, aa_RetryIntervalMax = 300, aa_RetryInterval = 5\<rparr>,
         ap_syncronizer = \<lparr>sa_ShouldHandleAction = (\<lambda>i w. (True, w)), sa_AcquireLock = (\<lambda>w. (Ret None, w)), sa_Release = (\<lambda>i w. (Ret None, w))\<rparr>,
         ap_loadBalancingEnabled = False, ap_signer = plain_signer (Ret None)\<rparr> in
    \<exists>x. to_approve js (cl_now demo_clock 0) [] = Some x \<and> approver_calls (ap_loadBalancingEnabled a) x [] Panic"
proof -
  let ?js = "\<lambda>m :: bytes. DocFields ''a'' 100 (Inr (1, []))"
  let ?a = "\<lparr>ap_cfgAutoApproval = \<lparr>aa_Enabled = True, aa_RetryIntervalMax = 300, aa_RetryInterval = 5\<rparr>,
         ap_syncronizer = \<lparr>sa_ShouldHandleAction = (\<lambda>i w. (True, w)), sa_AcquireLock = (\<lambda>w. (Ret None, w)), sa_Release = (\<lambda>i w. (Ret None, w))\<rparr>,
         ap_loadBalancingEnabled = False, ap_signer = plain_signer (Ret None)\<rparr> :: int autoActionApprover"
  have x: "to_approve ?js (cl_now demo_clock 0) [] = Some \<lparr>ai_ID = ''a'', ai_Status = 1, ai_Messages = [], ai_ExpireTime = 100\<rparr>"
    by (simp add: to_approve_def json_action_def demo_clock_def Unix_def)
  have "handleMessage ?js (traced_clock demo_clock) (traced_approver ?a) [] (None, 0, []) = Some (Panic, None, 0, [])"
    by (simp add: handleMessage_def json_action_def IsExpired_def traced_clock_def demo_clock_def Unix_def StatusPending_def
          shouldHandleAction_def traced_approver_def handleAction_def approve_first_def)
  from handleMessage_calls [OF this] x show ?thesis by (auto simp: Let_def)
qed

end
