(* ===== verification/Auth.thy ===== *)
theory Auth
  imports Http Signer
begin

text \<open>
  \<open>internal/auth/header_provider.go\<close>: the token with which the agent authenticates its requests. A first
  request, signed with the API key, fetches it; a goroutine refreshes it at half its validity.

  The world \<open>'s\<close> is the one of the HTTP client, with a clock. \<open>encoding/json\<close> appears as the decoders
  of the token response and of the claims of a token; the latter gives the claim \<open>exp\<close> as the
  conversion to \<open>int64\<close> leaves it, or \<open>None\<close> if it is not a number.
\<close>

section \<open>header_provider.go\<close>

(* internal/auth/header_provider.go:17-22 apiKeyAuthHeader, apiSignatureHeader, apiTimestampHeader, authHeader *)
definition apiKeyAuthHeader :: string where "apiKeyAuthHeader = ''qredo-api-key''"
definition apiSignatureHeader :: string where "apiSignatureHeader = ''qredo-api-signature''"
definition apiTimestampHeader :: string where "apiTimestampHeader = ''qredo-api-timestamp''"
definition authHeader :: string where "authHeader = ''x-token''"

record 's auth_lib =
  au_htc :: "'s http_api"
  au_now :: "'s \<Rightarrow> int"
  au_token :: "bytes \<Rightarrow> string res"
  au_claims :: "bytes \<Rightarrow> int option res"

(* internal/auth/header_provider.go:34-47 apiTokenProvider *)
record apiTokenProvider =
  tp_baseURL :: string
  tp_workspaceID :: string
  tp_apiKeySecret :: bytes
  tp_apiKeyID :: string
  tp_token :: string
  tp_tokenTTL :: int

(* internal/auth/header_provider.go:49-58 NewHeaderProvider *)
definition NewHeaderProvider :: "string \<Rightarrow> apiTokenProvider" where
  "NewHeaderProvider baseURL = \<lparr>tp_baseURL = baseURL, tp_workspaceID = [], tp_apiKeySecret = [],
     tp_apiKeyID = [], tp_token = [], tp_tokenTTL = 0\<rparr>"

(* internal/auth/header_provider.go:107-114 apiTokenProvider.GetAuthHeader *)
definition GetAuthHeader :: "apiTokenProvider \<Rightarrow> header" where
  "GetAuthHeader p = header_set authHeader (tp_token p) []"

(* internal/auth/header_provider.go:182-204 getTokenDuration *)
definition getTokenDuration :: "(bytes \<Rightarrow> int option res) \<Rightarrow> int \<Rightarrow> string \<Rightarrow> int" where
  "getTokenDuration claims now value =
     (let parts = split_at_char (CHR ''.'') value in
      if length parts \<noteq> 3 then 0
      else (case raw_url_decode (parts ! 1) of
              (_, False) \<Rightarrow> 0
            | (payloadBytes, True) \<Rightarrow>
                (case claims payloadBytes of
                   Inl err \<Rightarrow> 0
                 | Inr None \<Rightarrow> 0
                 | Inr (Some expiration) \<Rightarrow> saturate64 (expiration * Second - now))))"

(* internal/auth/header_provider.go:116-153 apiTokenProvider.initToken *)
definition initToken :: "'s auth_lib \<Rightarrow> apiTokenProvider \<times> 's \<Rightarrow> gerr option \<times> apiTokenProvider \<times> 's" where
  "initToken lib pw =
     (case pw of (p, w) \<Rightarrow>
      let url = URLToken (tp_baseURL p) (tp_workspaceID p);
          timestamp = show_int (Unix (au_now lib w)) in
      (case HmacSum timestamp ''GET'' url (Some (tp_apiKeySecret p)) (Some []) of
         Inl err \<Rightarrow> (Some (Errorf ''failed to generate signature, HmacSum err: %v''), p, w)
       | Inr sig \<Rightarrow>
           let sigb64 = raw_url_encode sig;
               header = header_add apiSignatureHeader sigb64
                 (header_add apiKeyAuthHeader (tp_apiKeyID p) (header_add apiTimestampHeader timestamp [])) in
           (case Request (au_htc lib) ''GET'' url None (JsonData (au_token lib)) (Some header) w of
              (Inl err, w) \<Rightarrow> (Some (Errorf ''error while getting token response, err: %v''), p, w)
            | (Inr resp, w) \<Rightarrow>
                let token = (case resp of Some t \<Rightarrow> t | None \<Rightarrow> []);
                    ttl = getTokenDuration (au_claims lib) (au_now lib w) token;
                    p = p\<lparr>tp_token := token, tp_tokenTTL := ttl\<rparr> in
                if ttl = 0 then (Some (Errorf ''invalid token duration''), p, w) else (None, p, w))))"

text \<open>The request made with \<open>http.NewRequest\<close> in \<open>refreshToken\<close> is never sent.\<close>

(* internal/auth/header_provider.go:155-180 apiTokenProvider.refreshToken *)
definition refreshToken :: "'s auth_lib \<Rightarrow> apiTokenProvider \<times> 's \<Rightarrow> bool \<times> apiTokenProvider \<times> 's" where
  "refreshToken lib pw =
     (case pw of (p, w) \<Rightarrow>
      let url = URLTokenRefresh (tp_baseURL p) (tp_workspaceID p) in
      (case Request (au_htc lib) ''GET'' url None (JsonData (au_token lib)) (Some (GetAuthHeader p)) w of
         (Inl err, w) \<Rightarrow> (False, p, w)
       | (Inr resp, w) \<Rightarrow>
           let token = (case resp of Some t \<Rightarrow> t | None \<Rightarrow> []) in
           if token = EmptyString then (False, p, w)
           else (True, p\<lparr>tp_token := token,
                  tp_tokenTTL := getTokenDuration (au_claims lib) (au_now lib w) token\<rparr>, w)))"

text \<open>
  Division of durations rounds towards zero; \<open>time.NewTicker\<close> and \<open>Ticker.Reset\<close> panic unless the
  interval is positive. The result of \<open>Initiate\<close> carries the interval of the ticker it starts.
\<close>

definition half :: "int \<Rightarrow> int" where
  "half d = (if d < 0 then - ((- d) div 2) else d div 2)"

(* internal/auth/header_provider.go:60-101 apiTokenProvider.Initiate: up to the goroutine *)
definition Initiate :: "'s auth_lib \<Rightarrow> string \<Rightarrow> string \<Rightarrow> string \<Rightarrow> apiTokenProvider \<times> 's
    \<Rightarrow> (gerr + int) ret \<times> apiTokenProvider \<times> 's" where
  "Initiate lib workspaceID apiKeySecret apiKeyID pw =
     (case pw of (p, w) \<Rightarrow>
      let p = p\<lparr>tp_apiKeySecret := fst (raw_url_decode apiKeySecret), tp_apiKeyID := apiKeyID, tp_workspaceID := workspaceID\<rparr> in
      (case initToken lib (p, w) of
         (Some err, pw) \<Rightarrow> (Ret (Inl err), pw)
       | (None, (p, w)) \<Rightarrow>
           if half (tp_tokenTTL p) \<le> 0 then (Panic, p, w) else (Ret (Inr (half (tp_tokenTTL p))), p, w)))"

text \<open>One tick of the goroutine: \<open>Ret (Some d)\<close> waits for \<open>d\<close> more, \<open>Ret None\<close> ends it, a panic ends the process.\<close>

(* internal/auth/header_provider.go:81-92 apiTokenProvider.Initiate: a tick *)
definition tick :: "'s auth_lib \<Rightarrow> apiTokenProvider \<times> 's \<Rightarrow> int option ret \<times> apiTokenProvider \<times> 's" where
  "tick lib pw =
     (case (case refreshToken lib pw of (True, pw) \<Rightarrow> (None, pw) | (False, pw) \<Rightarrow> initToken lib pw) of
        (Some err, pw) \<Rightarrow> (Ret None, pw)
      | (None, (p, w)) \<Rightarrow>
          if half (tp_tokenTTL p) \<le> 0 then (Panic, p, w) else (Ret (Some (half (tp_tokenTTL p))), p, w))"

text \<open>A run of the goroutine: the ticks up to the one that ends it, or the first \<open>n\<close>; time passes in between.\<close>

fun run_ticks :: "'s auth_lib \<Rightarrow> (int \<Rightarrow> 's \<Rightarrow> 's) \<Rightarrow> nat \<Rightarrow> int \<Rightarrow> apiTokenProvider \<times> 's \<Rightarrow> int option ret \<times> apiTokenProvider \<times> 's" where
  "run_ticks lib wait 0 d pw = (Ret (Some d), pw)"
| "run_ticks lib wait (Suc n) d (p, w) =
     (case tick lib (p, wait d w) of
        (Ret (Some d), pw) \<Rightarrow> run_ticks lib wait n d pw
      | (out, pw) \<Rightarrow> (out, pw))"

section \<open>Properties\<close>

lemma half_pos: "half d \<le> 0 \<longleftrightarrow> d < 2"
  by (auto simp: half_def pos_imp_zdiv_pos_iff)

lemma HmacSum_ok: "HmacSum t m u (Some k) (Some []) = Inr (hmac_sha256 k (bytes_of (t @ m @ u)))"
  by (simp add: HmacSum_def mac_write_def bytes_of_def slice_bytes_def)

text \<open>The signed request for a first token.\<close>

definition token_request :: "apiTokenProvider \<Rightarrow> int \<Rightarrow> http_request" where
  "token_request p now =
     (let url = URLToken (tp_baseURL p) (tp_workspaceID p); ts = show_int (Unix now) in
      \<lparr>rq_method = ''GET'', rq_url = url, rq_body = None, rq_header =
         [(''Qredo-Api-Timestamp'', ts), (''Qredo-Api-Key'', tp_apiKeyID p),
          (''Qredo-Api-Signature'', raw_url_encode (hmac_sha256 (tp_apiKeySecret p) (bytes_of (ts @ ''GET'' @ url))))]\<rparr>)"

definition answered_token :: "'s auth_lib \<Rightarrow> http_response res \<Rightarrow> string option" where
  "answered_token lib r = (case r of Inl e \<Rightarrow> None | Inr resp \<Rightarrow>
     (case response_result resp (JsonData (au_token lib)) of Inr (Some t) \<Rightarrow> Some t | _ \<Rightarrow> None))"

lemma header_keys: "header_key apiTimestampHeader = ''Qredo-Api-Timestamp''" "header_key apiKeyAuthHeader = ''Qredo-Api-Key''"
  "header_key apiSignatureHeader = ''Qredo-Api-Signature''" "header_key authHeader = ''X-Token''"
  by code_simp+

lemma initToken_eq:
  assumes new: "\<And>m u. http_NewRequest (au_htc lib) m u = None"
    and do: "http_Do (au_htc lib) (token_request p (au_now lib w)) w = (r, w')"
  shows "initToken lib (p, w) =
    (case answered_token lib r of
       None \<Rightarrow> (Some (Errorf ''error while getting token response, err: %v''), p, w')
     | Some t \<Rightarrow> (let ttl = getTokenDuration (au_claims lib) (au_now lib w') t; q = p\<lparr>tp_token := t, tp_tokenTTL := ttl\<rparr> in
         (if ttl = 0 then Some (Errorf ''invalid token duration'') else None, q, w')))"
proof -
  let ?url = "URLToken (tp_baseURL p) (tp_workspaceID p)" and ?ts = "show_int (Unix (au_now lib w))"
  let ?sig = "raw_url_encode (hmac_sha256 (tp_apiKeySecret p) (bytes_of (?ts @ ''GET'' @ ?url)))"
  let ?h = "header_add apiSignatureHeader ?sig (header_add apiKeyAuthHeader (tp_apiKeyID p) (header_add apiTimestampHeader ?ts []))"
  have h: "sent ''GET'' ?url None (Some ?h) = token_request p (au_now lib w)"
    by (simp add: sent_def token_request_def header_add_def header_keys Let_def)
  have some: "response_result resp (JsonData (au_token lib)) \<noteq> Inr None" for resp
    by (auto simp: response_result_def split: sum.splits)
  have rq: "Request (au_htc lib) ''GET'' ?url None (JsonData (au_token lib)) (Some ?h) w =
      (case r of Inl e \<Rightarrow> (Inl (Wrapf ''request error'' e), w') | Inr resp \<Rightarrow> (response_result resp (JsonData (au_token lib)), w'))"
    using Request_eq [OF new, of "''GET''" ?url None "JsonData (au_token lib)" "Some ?h" w] do h by simp
  show ?thesis
    unfolding initToken_def prod.case Let_def HmacSum_ok sum.case rq
    using some by (auto simp: answered_token_def split: sum.splits option.splits)
qed

text \<open>The credentials that \<open>Initiate\<close> stores; what precedes an error of the secret's encoding is kept.\<close>

definition with_credentials :: "string \<Rightarrow> string \<Rightarrow> string \<Rightarrow> apiTokenProvider \<Rightarrow> apiTokenProvider" where
  "with_credentials workspaceID apiKeySecret apiKeyID p =
     p\<lparr>tp_apiKeySecret := fst (raw_url_decode apiKeySecret), tp_apiKeyID := apiKeyID, tp_workspaceID := workspaceID\<rparr>"

text \<open>
  Starting the authentication: one request is sent, for the workspace's token, whose three headers are
  the time stamp, the key's identifier and the HMAC of time stamp, method and URL under the decoded
  secret. If it is answered with a token that is valid for at least two nanoseconds, the token is
  what later requests carry, and the ticker runs at half that time. A token without a readable
  validity is an error. A token that has expired already, by the agent's clock, is not: the ticker
  is then asked for a time that is not positive, and panics.
\<close>

theorem Initiate_spec:
  fixes lib :: "'s auth_lib" and w w' :: 's and r :: "http_response res" and p :: apiTokenProvider and ws sec kid :: string
  defines "q \<equiv> with_credentials ws sec kid p"
  assumes new: "\<And>m u. http_NewRequest (au_htc lib) m u = None"
    and do: "http_Do (au_htc lib) (token_request q (au_now lib w)) w = (r, w')"
  shows "(case answered_token lib r of
      None \<Rightarrow> Initiate lib ws sec kid (p, w) = (Ret (Inl (Errorf ''error while getting token response, err: %v'')), q, w')
    | Some t \<Rightarrow> (let ttl = getTokenDuration (au_claims lib) (au_now lib w') t in
        (case Initiate lib ws sec kid (p, w) of (out, q', v) \<Rightarrow> v = w' \<and> GetAuthHeader q' = [(''X-Token'', t)] \<and>
          out = (if ttl = 0 then Ret (Inl (Errorf ''invalid token duration'')) else if ttl < 2 then Panic else Ret (Inr (ttl div 2))))))"
proof -
  have h: "half d = d div 2" if "2 \<le> d" for d using that by (simp add: half_def)
  have hd: "GetAuthHeader (q\<lparr>tp_token := t, tp_tokenTTL := d\<rparr>) = [(''X-Token'', t)]" for t d
    by (simp add: GetAuthHeader_def header_set_def header_keys)
  have I: "Initiate lib ws sec kid (p, w) = (case initToken lib (q, w) of
         (Some err, pw) \<Rightarrow> (Ret (Inl err), pw)
       | (None, (p, w)) \<Rightarrow> if half (tp_tokenTTL p) \<le> 0 then (Panic, p, w) else (Ret (Inr (half (tp_tokenTTL p))), p, w))"
    by (simp add: Initiate_def q_def with_credentials_def)
  show ?thesis
    unfolding I initToken_eq [OF new do] by (auto simp: Let_def half_pos h hd split: option.split)
qed

lemma refreshToken_eq:
  assumes new: "\<And>m u. http_NewRequest (au_htc lib) m u = None"
    and do: "http_Do (au_htc lib) (sent ''GET'' (URLTokenRefresh (tp_baseURL p) (tp_workspaceID p)) None (Some (GetAuthHeader p))) w = (r, w')"
  shows "refreshToken lib (p, w) =
    (case answered_token lib r of
       None \<Rightarrow> (False, p, w')
     | Some t \<Rightarrow> if t = [] then (False, p, w')
         else (True, p\<lparr>tp_token := t, tp_tokenTTL := getTokenDuration (au_claims lib) (au_now lib w') t\<rparr>, w'))"
proof -
  let ?url = "URLTokenRefresh (tp_baseURL p) (tp_workspaceID p)"
  have some: "response_result resp (JsonData (au_token lib)) \<noteq> Inr None" for resp
    by (auto simp: response_result_def split: sum.splits)
  have rq: "Request (au_htc lib) ''GET'' ?url None (JsonData (au_token lib)) (Some (GetAuthHeader p)) w =
      (case r of Inl e \<Rightarrow> (Inl (Wrapf ''request error'' e), w') | Inr resp \<Rightarrow> (response_result resp (JsonData (au_token lib)), w'))"
    using Request_eq [OF new, of "''GET''" ?url None "JsonData (au_token lib)" "Some (GetAuthHeader p)" w] do by simp
  show ?thesis
    unfolding refreshToken_def prod.case Let_def rq EmptyString_def
    using some by (auto simp: answered_token_def split: sum.splits option.splits)
qed

lemma no_duration_empty: "getTokenDuration claims now [] = 0"
  by (simp add: getTokenDuration_def)

text \<open>As long as the goroutine runs, there is a token, and the ticker's interval is half its validity.\<close>

definition token_inv :: "int \<Rightarrow> apiTokenProvider \<Rightarrow> bool" where
  "token_inv d p \<longleftrightarrow> tp_token p \<noteq> [] \<and> 1 \<le> d \<and> d = tp_tokenTTL p div 2"

lemma tick_inv:
  assumes new: "\<And>m u. http_NewRequest (au_htc lib) m u = None" and t: "tick lib (p, w) = (Ret (Some d), p', w')"
  shows "token_inv d p'"
proof -
  obtain r w1 where do: "http_Do (au_htc lib) (sent ''GET'' (URLTokenRefresh (tp_baseURL p) (tp_workspaceID p)) None (Some (GetAuthHeader p))) w = (r, w1)"
    by fastforce
  have fin: "tp_token q \<noteq> [] \<Longrightarrow> \<not> half (tp_tokenTTL q) \<le> 0 \<Longrightarrow> token_inv (half (tp_tokenTTL q)) q" for q
    unfolding half_pos token_inv_def half_def by auto
  have ne: "getTokenDuration c n t \<noteq> 0 \<Longrightarrow> t \<noteq> []" for c n t using no_duration_empty by auto
  show ?thesis
  proof (cases "\<exists>t. answered_token lib r = Some t \<and> t \<noteq> []")
    case True
    then show ?thesis using t refreshToken_eq [OF new do] fin [of p'] by (auto simp: tick_def split: if_splits)
  next
    case False
    then have "refreshToken lib (p, w) = (False, p, w1)" using refreshToken_eq [OF new do] by (auto split: option.splits)
    moreover obtain r2 w2 where do2: "http_Do (au_htc lib) (token_request p (au_now lib w1)) w1 = (r2, w2)" by fastforce
    ultimately show ?thesis
      using t initToken_eq [OF new do2] fin [of p'] ne
      by (auto simp: tick_def Let_def split: if_splits option.splits)
  qed
qed


text \<open>A server that always answers with a token valid until 100 seconds after the epoch; the state is the clock.\<close>

definition demo_token :: string where
  "demo_token = ''a.'' @ raw_url_encode [1] @ ''.b''"

definition demo_auth :: "int auth_lib" where
  "demo_auth = \<lparr>au_htc = \<lparr>http_NewRequest = (\<lambda>m u. None),
       http_Do = (\<lambda>q n. (Inr \<lparr>rs_StatusCode = 200, rs_Body = Inr []\<rparr>, n))\<rparr>,
     au_now = (\<lambda>n. n), au_token = (\<lambda>b. Inr demo_token), au_claims = (\<lambda>b. Inr (Some 100))\<rparr>"

lemma demo_duration: "getTokenDuration (au_claims demo_auth) now demo_token = saturate64 (100 * Second - now)"
proof -
  have "demo_token = ''a.AQ.b''" by (simp add: demo_token_def) code_simp
  moreover have "split_at_char (CHR ''.'') ''a.AQ.b'' = [''a'', ''AQ'', ''b'']" by code_simp
  moreover have "raw_url_decode ''AQ'' = ([1], True)" by code_simp
  ultimately show ?thesis by (simp add: getTokenDuration_def demo_auth_def Let_def)
qed

lemma demo_answers: "answered_token demo_auth (Inr \<lparr>rs_StatusCode = 200, rs_Body = Inr []\<rparr>) = Some demo_token"
  by (simp add: answered_token_def response_result_def demo_auth_def)

lemma demo_do: "http_Do (au_htc demo_auth) rq n = (Inr \<lparr>rs_StatusCode = 200, rs_Body = Inr []\<rparr>, n)"
  by (simp add: demo_auth_def)

lemma demo_new: "http_NewRequest (au_htc demo_auth) m u = None"
  by (simp add: demo_auth_def)

theorem Initiate_spec_witness:
  "fst (Initiate demo_auth ''w'' ''AQ'' ''k'' (NewHeaderProvider ''u'', 0)) = Ret (Inr 50000000000) \<and>
   fst (Initiate demo_auth ''w'' ''AQ'' ''k'' (NewHeaderProvider ''u'', 101 * Second)) = Panic"
proof -
  note I = Initiate_spec [OF demo_new demo_do, of "''w''" "''AQ''" "''k''" "NewHeaderProvider ''u''"]
  have d: "getTokenDuration (au_claims demo_auth) (au_now demo_auth 0) demo_token = 100000000000"
    "getTokenDuration (au_claims demo_auth) (au_now demo_auth (101 * Second)) demo_token = - 1000000000"
    unfolding demo_duration by (simp_all add: demo_auth_def Second_def saturate64_def)
  show ?thesis using I [of 0] I [of "101 * Second"] by (auto simp: demo_answers d Let_def)
qed


end
