(* ===== verification/FeedSource.thy ===== *)
theory FeedSource
  imports AutoApprover Auth
begin

text \<open>
  \<open>internal/hub/websocket.go\<close> and \<open>internal/hub/feed_source.go\<close>: the websocket connection to the Qredo
  server, from which the agent receives its messages.

  The websocket library is a parameter: a connection is a value of type \<open>'c\<close>, and the world \<open>'w\<close>
  (network, clock) is passed through every call. \<open>dial\<close>, \<open>Connect\<close> and \<open>Disconnect\<close> are the code's
  functions; \<open>Listen\<close>, which runs in a goroutine of its own while another one may call \<open>Stop\<close> of the
  hub, is the step function \<open>listen_step\<close>: one step is one read, or one attempt to connect again. The
  channel \<open>rxMessages\<close> is the list of what was sent into it, in order.
\<close>

section \<open>websocket.go\<close>

(* internal/hub/websocket.go:10-20 WebsocketConnection *)
record ('c, 'w) conn_api =
  wc_ReadMessage :: "'c \<Rightarrow> 'w \<Rightarrow> (int \<times> bytes) res \<times> 'w"
  wc_WriteMessage :: "'c \<Rightarrow> int \<Rightarrow> bytes \<Rightarrow> 'w \<Rightarrow> gerr option \<times> 'w"
  wc_WriteControl :: "'c \<Rightarrow> int \<Rightarrow> bytes \<Rightarrow> int \<Rightarrow> 'w \<Rightarrow> gerr option \<times> 'w"
  wc_SetReadDeadline :: "'c \<Rightarrow> int \<Rightarrow> 'w \<Rightarrow> gerr option \<times> 'w"
  wc_SetPongHandler :: "'c \<Rightarrow> (string \<Rightarrow> 'w \<Rightarrow> gerr option \<times> 'w) \<Rightarrow> 'w \<Rightarrow> 'w"
  wc_SetPingHandler :: "'c \<Rightarrow> (string \<Rightarrow> 'w \<Rightarrow> gerr option \<times> 'w) \<Rightarrow> 'w \<Rightarrow> 'w"
  wc_SetWriteDeadline :: "'c \<Rightarrow> int \<Rightarrow> 'w \<Rightarrow> gerr option \<times> 'w"
  wc_Close :: "'c \<Rightarrow> 'w \<Rightarrow> gerr option \<times> 'w"

(* internal/hub/websocket.go:22-25 WebsocketDialer *)
record ('c, 'w) dialer_api =
  wd_Dial :: "string \<Rightarrow> header \<Rightarrow> 'w \<Rightarrow> 'c res \<times> 'w"

text \<open>The message types of RFC 6455, and the payload of a close frame with code 1000 and no text.\<close>

definition TextMessage :: int where "TextMessage = 1"
definition CloseMessage :: int where "CloseMessage = 8"
definition PingMessage :: int where "PingMessage = 9"
definition PongMessage :: int where "PongMessage = 10"
definition close_normal :: bytes where "close_normal = [3, 232]"

section \<open>feed_source.go\<close>

text \<open>What the source calls: dialer, connections, clock and the provider of its headers.\<close>

record ('c, 'w) source_lib =
  sl_dialer :: "('c, 'w) dialer_api"
  sl_conn :: "('c, 'w) conn_api"
  sl_clock :: "'w clock"
  sl_GetAuthHeader :: "'w \<Rightarrow> header"

text \<open>\<open>conn\<close> is nil until the first connection succeeds.\<close>

(* internal/hub/feed_source.go:30-42 websocketSource *)
record 'c websocketSource =
  so_conn :: "'c option"
  so_feedUrl :: string
  so_shouldReconnect :: bool
  so_readyState :: conn_state
  so_reconnectIntervalMax :: int
  so_reconnectInterval :: int

(* internal/hub/feed_source.go:44-58 NewWebsocketSource *)
definition NewWebsocketSource :: "string \<Rightarrow> WebSocketConfig \<Rightarrow> 'c websocketSource" where
  "NewWebsocketSource feedUrl config =
     \<lparr>so_conn = None, so_feedUrl = feedUrl, so_shouldReconnect = True, so_readyState = Closed,
      so_reconnectIntervalMax = duration_of (ReconnectTimeOut config) Second,
      so_reconnectInterval = duration_of (ReconnectInterval config) Second\<rparr>"

(* internal/hub/feed_source.go:149-154 websocketSource.setReadyState *)
definition setReadyState :: "conn_state \<Rightarrow> 'c websocketSource \<Rightarrow> 'c websocketSource" where
  "setReadyState state s = s\<lparr>so_readyState := state\<rparr>"

(* internal/hub/feed_source.go:124-130 websocketSource.GetReadyState *)
definition GetReadyState :: "'c websocketSource \<Rightarrow> conn_state" where
  "GetReadyState s = so_readyState s"

(* internal/hub/feed_source.go:119-122 websocketSource.GetFeedUrl *)
definition GetFeedUrl :: "'c websocketSource \<Rightarrow> string" where
  "GetFeedUrl s = so_feedUrl s"

(* internal/hub/feed_source.go:137-147 websocketSource.dial *)
definition dial :: "('c, 'w) source_lib \<Rightarrow> 'c websocketSource \<times> 'w \<Rightarrow> gerr option \<times> 'c websocketSource \<times> 'w" where
  "dial lib sw =
     (case sw of (s, w) \<Rightarrow>
      let headers = sl_GetAuthHeader lib w in
      (case wd_Dial (sl_dialer lib) (so_feedUrl s) headers w of
         (Inr conn, w) \<Rightarrow> (None, setReadyState Open (s\<lparr>so_conn := Some conn\<rparr>), w)
       | (Inl err, w) \<Rightarrow> (Some err, s, w)))"

text \<open>The loop of \<open>Connect\<close> ends when it has connected or the time is over; \<open>None\<close> would be a loop without end.\<close>

definition since :: "int \<Rightarrow> int \<Rightarrow> int" where
  "since now start = saturate64 (now - start)"

partial_function (option) connect_loop :: "('c, 'w) source_lib \<Rightarrow> int \<Rightarrow> 'c websocketSource \<times> 'w \<Rightarrow> (bool \<times> 'c websocketSource \<times> 'w) option" where
  "connect_loop lib startTime sw =
     (if since (cl_now (sl_clock lib) (snd sw)) startTime < so_reconnectIntervalMax (fst sw)
      then (case dial lib sw of
              (None, sw) \<Rightarrow> Some (True, sw)
            | (Some err, (s, w)) \<Rightarrow> connect_loop lib startTime (s, cl_Sleep (sl_clock lib) (so_reconnectInterval s) w))
      else Some (False, setReadyState Closed (fst sw), snd sw))"

(* internal/hub/feed_source.go:60-78 websocketSource.Connect *)
definition Connect :: "('c, 'w) source_lib \<Rightarrow> 'c websocketSource \<times> 'w \<Rightarrow> (bool \<times> 'c websocketSource \<times> 'w) option" where
  "Connect lib sw =
     (case sw of (s, w) \<Rightarrow> connect_loop lib (cl_now (sl_clock lib) w) (setReadyState Connecting s, w))"

text \<open>A nil connection makes the call panic.\<close>

(* internal/hub/feed_source.go:109-117 websocketSource.Disconnect *)
definition Disconnect :: "('c, 'w) source_lib \<Rightarrow> 'c websocketSource \<times> 'w \<Rightarrow> unit ret \<times> 'c websocketSource \<times> 'w" where
  "Disconnect lib sw =
     (case sw of (s, w) \<Rightarrow>
      (case so_conn s of
         None \<Rightarrow> (Panic, s, w)
       | Some conn \<Rightarrow>
           (case wc_WriteMessage (sl_conn lib) conn CloseMessage close_normal w of
              (err, w) \<Rightarrow> (Ret (), setReadyState Closed (s\<lparr>so_shouldReconnect := False\<rparr>), w))))"

text \<open>
  The goroutine of \<open>Listen\<close>: reading; in the loop of \<open>Connect\<close>, which started at a given time; or
  returned, with the connection closed and the channel closed. \<open>feed_out\<close> is the channel.
\<close>

datatype listen_pc = Reading | Looping int | Ended

record 'c feed_state =
  fy_src :: "'c websocketSource"
  fy_pc :: listen_pc
  fy_rx :: "bytes list"
  fy_rx_closed :: bool

text \<open>The deferred calls. A nil connection would panic; \<open>Listen\<close> is only called after \<open>Connect\<close> succeeded.\<close>

definition listen_end :: "('c, 'w) source_lib \<Rightarrow> 'c feed_state \<times> 'w \<Rightarrow> 'c feed_state \<times> 'w" where
  "listen_end lib fw =
     (case fw of (f, w) \<Rightarrow>
      let w = (case so_conn (fy_src f) of None \<Rightarrow> w | Some conn \<Rightarrow> snd (wc_Close (sl_conn lib) conn w)) in
      (f\<lparr>fy_pc := Ended, fy_rx_closed := True\<rparr>, w))"

(* internal/hub/feed_source.go:80-107 websocketSource.Listen *)
definition listen_step :: "('c, 'w) source_lib \<Rightarrow> 'c feed_state \<times> 'w \<Rightarrow> ('c feed_state \<times> 'w) ret" where
  "listen_step lib fw =
     (case fw of (f, w) \<Rightarrow>
      let s = fy_src f; clk = sl_clock lib in
      (case fy_pc f of
         Reading \<Rightarrow>
           (case so_conn s of
              None \<Rightarrow> Panic
            | Some conn \<Rightarrow>
                (case wc_ReadMessage (sl_conn lib) conn w of
                   (Inl err, w) \<Rightarrow>
                     if \<not> so_shouldReconnect s then Ret (listen_end lib (f, w))
                     else Ret (f\<lparr>fy_src := setReadyState Connecting s, fy_pc := Looping (cl_now clk w)\<rparr>, w)
                 | (Inr (_, message), w) \<Rightarrow> Ret (f\<lparr>fy_rx := fy_rx f @ [message]\<rparr>, w)))
       | Looping startTime \<Rightarrow>
           if since (cl_now clk w) startTime < so_reconnectIntervalMax s
           then (case dial lib (s, w) of
                   (None, (s, w)) \<Rightarrow> Ret (f\<lparr>fy_src := s, fy_pc := Reading\<rparr>, w)
                 | (Some err, (s, w)) \<Rightarrow> Ret (f\<lparr>fy_src := s\<rparr>, cl_Sleep clk (so_reconnectInterval s) w))
           else Ret (listen_end lib (f\<lparr>fy_src := setReadyState Closed s\<rparr>, w))
       | Ended \<Rightarrow> Ret (f, w)))"

text \<open>\<open>Stop\<close> of the hub, called by another goroutine between two steps.\<close>

(* internal/hub/feed_hub.go:87-94 feedHubImpl.Stop *)
definition source_Stop :: "('c, 'w) source_lib \<Rightarrow> 'c websocketSource \<times> 'w \<Rightarrow> unit ret \<times> 'c websocketSource \<times> 'w" where
  "source_Stop lib sw =
     (if GetReadyState (fst sw) = Open then Disconnect lib sw else (Ret (), sw))"

section \<open>Connecting ends\<close>

text \<open>The clock does not run backwards, and a sleep lasts at least as long as it is asked to.\<close>

definition source_clock_runs :: "('c, 'w) source_lib \<Rightarrow> bool" where
  "source_clock_runs lib \<longleftrightarrow>
     (\<forall>d w. cl_now (sl_clock lib) w + max 0 d \<le> cl_now (sl_clock lib) (cl_Sleep (sl_clock lib) d w)) \<and>
     (\<forall>u h w. cl_now (sl_clock lib) w \<le> cl_now (sl_clock lib) (snd (wd_Dial (sl_dialer lib) u h w)))"

text \<open>The same library, with the attempts counted.\<close>

definition counted_lib :: "('c, 'w) source_lib \<Rightarrow> ('c, 'w \<times> nat) source_lib" where
  "counted_lib lib = \<lparr>
     sl_dialer = \<lparr>wd_Dial = (\<lambda>u h (w, n). (case wd_Dial (sl_dialer lib) u h w of (r, w) \<Rightarrow> (r, w, Suc n)))\<rparr>,
     sl_conn = \<lparr>
       wc_ReadMessage = (\<lambda>c (w, n). (case wc_ReadMessage (sl_conn lib) c w of (r, w) \<Rightarrow> (r, w, n))),
       wc_WriteMessage = (\<lambda>c t b (w, n). (case wc_WriteMessage (sl_conn lib) c t b w of (r, w) \<Rightarrow> (r, w, n))),
       wc_WriteControl = (\<lambda>c t b d (w, n). (case wc_WriteControl (sl_conn lib) c t b d w of (r, w) \<Rightarrow> (r, w, n))),
       wc_SetReadDeadline = (\<lambda>c t (w, n). (case wc_SetReadDeadline (sl_conn lib) c t w of (r, w) \<Rightarrow> (r, w, n))),
       wc_SetPongHandler = (\<lambda>c h (w, n). (w, n)), wc_SetPingHandler = (\<lambda>c h (w, n). (w, n)),
       wc_SetWriteDeadline = (\<lambda>c t (w, n). (case wc_SetWriteDeadline (sl_conn lib) c t w of (r, w) \<Rightarrow> (r, w, n))),
       wc_Close = (\<lambda>c (w, n). (case wc_Close (sl_conn lib) c w of (r, w) \<Rightarrow> (r, w, n)))\<rparr>,
     sl_clock = counted_clock (sl_clock lib),
     sl_GetAuthHeader = (\<lambda>(w, n). sl_GetAuthHeader lib w)\<rparr>"

lemma counted_lib_sel [simp]:
  "sl_clock (counted_lib lib) = counted_clock (sl_clock lib)"
  "sl_GetAuthHeader (counted_lib lib) (w, n) = sl_GetAuthHeader lib w"
  "wd_Dial (sl_dialer (counted_lib lib)) u h (w, n) =
     (fst (wd_Dial (sl_dialer lib) u h w), snd (wd_Dial (sl_dialer lib) u h w), Suc n)"
  by (simp_all add: counted_lib_def split: prod.split)

lemma dial_counted:
  assumes "wd_Dial (sl_dialer lib) (so_feedUrl s) (sl_GetAuthHeader lib w) w = (r, w')"
  shows "dial (counted_lib lib) (s, w, n) =
    (case r of Inr c \<Rightarrow> (None, setReadyState Open (s\<lparr>so_conn := Some c\<rparr>), w', Suc n) | Inl e \<Rightarrow> (Some e, s, w', Suc n))"
  using assms by (simp add: dial_def Let_def split: sum.split)

definition connected :: "bool \<Rightarrow> 'c websocketSource \<Rightarrow> 'c websocketSource \<Rightarrow> bool" where
  "connected ok s s' \<longleftrightarrow> (if ok then \<exists>c. s' = s\<lparr>so_conn := Some c, so_readyState := Open\<rparr> else s' = s\<lparr>so_readyState := Closed\<rparr>)"

lemma connected_simps [simp]:
  "connected False s (setReadyState Closed s)" "connected True s (setReadyState Open (s\<lparr>so_conn := Some c\<rparr>))"
  by (auto simp: connected_def setReadyState_def)

lemma connect_loop_timeout: "\<not> since (cl_now (sl_clock lib) w) start < so_reconnectIntervalMax s \<Longrightarrow>
    connect_loop lib start (s, w) = Some (False, setReadyState Closed s, w)"
  by (subst connect_loop.simps) simp

lemma connect_loop_bound:
  assumes run: "source_clock_runs lib" and r: "0 \<le> r" "so_reconnectInterval s = r" and mx: "so_reconnectIntervalMax s \<le> r * int k" "so_reconnectIntervalMax s \<le> 2 ^ 63 - 1"
    and j: "j \<le> k" "r * int j \<le> cl_now (sl_clock lib) w - start"
  shows "\<exists>ok s' w' n'. connect_loop (counted_lib lib) start (s, w, n) = Some (ok, s', w', n') \<and> n' \<le> n + (k - j) \<and> connected ok s s'"
  using j
proof (induction "k - j" arbitrary: j w n)
  case 0
  then have "so_reconnectIntervalMax s \<le> cl_now (sl_clock lib) w - start" using mx(1) by simp
  then have "so_reconnectIntervalMax s \<le> since (cl_now (sl_clock lib) w) start" unfolding since_def by (rule saturate64_ge) (rule mx(2))
  then have "connect_loop (counted_lib lib) start (s, w, n) = Some (False, setReadyState Closed s, w, n)"
    by (intro connect_loop_timeout) simp
  then show ?case using connected_simps(1) [of s] by (metis le_add1)
next
  case (Suc x)
  show ?case
  proof (cases "since (cl_now (sl_clock lib) w) start < so_reconnectIntervalMax s")
    case False
    then have "connect_loop (counted_lib lib) start (s, w, n) = Some (False, setReadyState Closed s, w, n)"
      by (intro connect_loop_timeout) simp
    then show ?thesis using connected_simps(1) [of s] by (metis le_add1)
  next
    case True
    obtain o1 w1 where d: "wd_Dial (sl_dialer lib) (so_feedUrl s) (sl_GetAuthHeader lib w) w = (o1, w1)" by fastforce
    note dc = dial_counted [OF d, of n]
    show ?thesis
    proof (cases o1)
      case (Inr c)
      have "Suc n \<le> n + (k - j)" using Suc.hyps(2) by simp
      moreover have "connect_loop (counted_lib lib) start (s, w, n) = Some (True, setReadyState Open (s\<lparr>so_conn := Some c\<rparr>), w1, Suc n)"
        using True dc Inr by (subst connect_loop.simps) simp
      ultimately show ?thesis using connected_simps(2) [of s c] by metis
    next
      case (Inl e)
      define w2 where "w2 = cl_Sleep (sl_clock lib) r w1"
      have n1: "cl_now (sl_clock lib) w \<le> cl_now (sl_clock lib) w1" using run d unfolding source_clock_runs_def by (metis snd_conv)
      have n2: "cl_now (sl_clock lib) w1 + r \<le> cl_now (sl_clock lib) w2" using run r(1) unfolding source_clock_runs_def w2_def by (metis max.absorb2)
      have el: "r * int (Suc j) \<le> cl_now (sl_clock lib) w2 - start" using n1 n2 Suc.prems(2) by (simp add: algebra_simps)
      have jk: "x = k - Suc j" "Suc j \<le> k" using Suc.hyps(2) by simp_all
      have e: "connect_loop (counted_lib lib) start (s, w, n) = connect_loop (counted_lib lib) start (s, w2, Suc n)"
        using True dc Inl by (subst connect_loop.simps) (simp add: w2_def r(2))
      show ?thesis using Suc.hyps(1) [OF jk el, of "Suc n"] jk unfolding e by (auto simp: Suc_diff_Suc intro: le_trans)
    qed
  qed
qed

text \<open>
  C17. \<open>Connect\<close> returns: with an interval of \<open>r\<close> seconds between the attempts and a limit of \<open>rm\<close> seconds,
  after at most \<open>k\<close> attempts where \<open>r * k\<close> reaches \<open>rm\<close> (60 with the default configuration). It returns true
  with a connection and the state open, or false with the state closed and the connection as it was.
\<close>

theorem Connect_bound:
  assumes run: "source_clock_runs lib"
    and src: "s = (NewWebsocketSource url conf)\<lparr>so_conn := conn, so_readyState := st\<rparr>"
    and conf: "ReconnectInterval conf = r" "ReconnectTimeOut conf = rm"
    and range: "0 \<le> r" "r \<le> 9223372036" "0 \<le> rm" "rm \<le> 9223372036"
    and k: "rm \<le> r * int k"
  shows "\<exists>ok s' w' n. Connect (counted_lib lib) (s, w, 0) = Some (ok, s', w', n) \<and> n \<le> k \<and> connected ok s s'"
proof -
  have d: "duration_of rm Second = rm * Second" "duration_of r Second = r * Second"
    using range by (auto intro: duration_seconds)
  define s0 where "s0 = setReadyState Connecting s"
  have i: "so_reconnectInterval s0 = r * Second" "so_reconnectIntervalMax s0 = rm * Second"
    by (simp_all add: s0_def src setReadyState_def NewWebsocketSource_def conf d)
  have m: "rm * Second \<le> r * Second * int k" "rm * Second \<le> 2 ^ 63 - 1" "0 \<le> r * Second"
    using range k by (simp_all add: Second_def)
  obtain ok s' w' n where b: "connect_loop (counted_lib lib) (cl_now (sl_clock lib) w) (s0, w, 0) = Some (ok, s', w', n)"
    "n \<le> k" "connected ok s0 s'"
    using connect_loop_bound [OF run m(3) i(1), of k 0 w "cl_now (sl_clock lib) w" 0] m(1,2) i(2) by auto
  have "connected ok s s'" using b(3) by (simp add: connected_def s0_def setReadyState_def split: if_splits)
  then show ?thesis using b by (simp add: Connect_def s0_def)
qed

section \<open>Listening step by step\<close>

text \<open>
  \<open>Listen\<close> as the code has it, with \<open>Connect\<close> as one call: what it has sent into the channel and the
  source it leaves when it returns, \<open>None\<close> as long as it does not.
\<close>

partial_function (option) Listen :: "('c, 'w) source_lib \<Rightarrow> bytes list \<Rightarrow> 'c websocketSource \<times> 'w \<Rightarrow> (bytes list \<times> 'c websocketSource \<times> 'w) ret option" where
  "Listen lib rx sw =
     (case so_conn (fst sw) of
        None \<Rightarrow> Some Panic
      | Some conn \<Rightarrow>
          (case wc_ReadMessage (sl_conn lib) conn (snd sw) of
             (Inl err, w) \<Rightarrow>
               if \<not> so_shouldReconnect (fst sw) then Some (Ret (rx, fst sw, snd (wc_Close (sl_conn lib) conn w)))
               else (case Connect lib (fst sw, w) of
                       None \<Rightarrow> None
                     | Some (ok, sw) \<Rightarrow>
                         if \<not> ok
                         then Some (Ret (rx, fst sw, (case so_conn (fst sw) of None \<Rightarrow> snd sw | Some conn \<Rightarrow> snd (wc_Close (sl_conn lib) conn (snd sw)))))
                         else Listen lib rx sw)
           | (Inr (_, message), w) \<Rightarrow> Listen lib (rx @ [message]) (fst sw, w)))"

fun listen_run :: "('c, 'w) source_lib \<Rightarrow> nat \<Rightarrow> 'c feed_state \<times> 'w \<Rightarrow> ('c feed_state \<times> 'w) ret" where
  "listen_run lib 0 fw = Ret fw"
| "listen_run lib (Suc n) fw = (case listen_step lib fw of Panic \<Rightarrow> Panic | Ret fw \<Rightarrow> listen_run lib n fw)"

lemma listen_run_add: "listen_run lib m fw = Ret fw' \<Longrightarrow> listen_run lib (m + n) fw = listen_run lib n fw'"
  by (induction m arbitrary: fw) (auto split: ret.splits)

definition reading :: "'c websocketSource \<Rightarrow> bytes list \<Rightarrow> 'c feed_state" where
  "reading s rx = \<lparr>fy_src = s, fy_pc = Reading, fy_rx = rx, fy_rx_closed = False\<rparr>"

definition ended :: "'c websocketSource \<Rightarrow> bytes list \<Rightarrow> 'c feed_state" where
  "ended s rx = \<lparr>fy_src = s, fy_pc = Ended, fy_rx = rx, fy_rx_closed = True\<rparr>"

definition looping :: "int \<Rightarrow> 'c websocketSource \<Rightarrow> bytes list \<Rightarrow> 'c feed_state" where
  "looping start s rx = \<lparr>fy_src = s, fy_pc = Looping start, fy_rx = rx, fy_rx_closed = False\<rparr>"

lemmas feed_defs = reading_def ended_def looping_def

text \<open>The steps in the loop of \<open>Connect\<close>, one attempt each, end where \<open>Connect\<close> ends.\<close>

definition close_conn :: "('c, 'w) source_lib \<Rightarrow> 'c websocketSource \<times> 'w \<Rightarrow> 'w" where
  "close_conn lib sw = (case so_conn (fst sw) of None \<Rightarrow> snd sw | Some conn \<Rightarrow> snd (wc_Close (sl_conn lib) conn (snd sw)))"

lemma listen_end_eq: "listen_end lib (f, w) = (f\<lparr>fy_pc := Ended, fy_rx_closed := True\<rparr>, close_conn lib (fy_src f, w))"
  by (simp add: listen_end_def close_conn_def Let_def split: option.split)

definition connect_outcome :: "('c, 'w) source_lib \<Rightarrow> bytes list \<Rightarrow> bool \<times> 'c websocketSource \<times> 'w \<Rightarrow> 'c feed_state \<times> 'w" where
  "connect_outcome lib rx r =
     (if fst r then (reading (fst (snd r)) rx, snd (snd r)) else (ended (fst (snd r)) rx, close_conn lib (snd r)))"

lemma step_looping:
  "listen_step lib (looping start s rx, w) =
     (if since (cl_now (sl_clock lib) w) start < so_reconnectIntervalMax s
      then (case dial lib (s, w) of
              (None, (s, w)) \<Rightarrow> Ret (reading s rx, w)
            | (Some err, (s, w)) \<Rightarrow> Ret (looping start s rx, cl_Sleep (sl_clock lib) (so_reconnectInterval s) w))
      else Ret (ended (setReadyState Closed s) rx, close_conn lib (setReadyState Closed s, w)))"
  by (simp add: listen_step_def feed_defs Let_def listen_end_eq split: prod.split option.split)

lemma run_one: "listen_step lib fw = Ret fw' \<Longrightarrow> \<exists>n. listen_run lib n fw' = Ret r \<Longrightarrow> \<exists>n. listen_run lib n fw = Ret r"
proof -
  assume a: "listen_step lib fw = Ret fw'" "\<exists>n. listen_run lib n fw' = Ret r"
  then obtain n where "listen_run lib n fw' = Ret r" by blast
  then have "listen_run lib (Suc n) fw = Ret r" using a by simp
  then show ?thesis by blast
qed

lemma run_none: "\<exists>n. listen_run lib n fw = Ret fw"
  by (rule exI [of _ 0]) simp

lemma looping_connects:
  "connect_loop lib start sw = Some r \<Longrightarrow>
    \<exists>n. listen_run lib n (looping start (fst sw) rx, snd sw) = Ret (connect_outcome lib rx r)"
proof (rule connect_loop.raw_induct [of "\<lambda>lib start sw r. \<exists>n. listen_run lib n (looping start (fst sw) rx, snd sw) = Ret (connect_outcome lib rx r)"])
  fix loop :: "('c, 'w) source_lib \<Rightarrow> int \<Rightarrow> 'c websocketSource \<times> 'w \<Rightarrow> (bool \<times> 'c websocketSource \<times> 'w) option"
    and lib start and sw :: "'c websocketSource \<times> 'w" and r
  assume IH: "\<And>lib start sw r. loop lib start sw = Some r \<Longrightarrow>
      \<exists>n. listen_run lib n (looping start (fst sw) rx, snd sw) = Ret (connect_outcome lib rx r)"
    and b: "(if since (cl_now (sl_clock lib) (snd sw)) start < so_reconnectIntervalMax (fst sw)
      then (case dial lib sw of
              (None, sw) \<Rightarrow> Some (True, sw)
            | (Some err, (s, w)) \<Rightarrow> loop lib start (s, cl_Sleep (sl_clock lib) (so_reconnectInterval s) w))
      else Some (False, setReadyState Closed (fst sw), snd sw)) = Some r"
  obtain s w where sw: "sw = (s, w)" by fastforce
  show "\<exists>n. listen_run lib n (looping start (fst sw) rx, snd sw) = Ret (connect_outcome lib rx r)"
  proof (cases "since (cl_now (sl_clock lib) w) start < so_reconnectIntervalMax s")
    case False
    have "listen_step lib (looping start s rx, w) = Ret (connect_outcome lib rx r)"
      using b False by (auto simp: sw step_looping connect_outcome_def)
    then show ?thesis unfolding sw fst_conv snd_conv by (rule run_one [OF _ run_none])
  next
    case True
    obtain e s' w' where d: "dial lib (s, w) = (e, s', w')" by (metis prod.exhaust)
    show ?thesis
    proof (cases e)
      case None
      then have "r = (True, s', w')" using b True d by (simp add: sw)
      then have "listen_step lib (looping start s rx, w) = Ret (connect_outcome lib rx r)"
        using True d None by (simp add: step_looping connect_outcome_def)
      then show ?thesis unfolding sw fst_conv snd_conv by (rule run_one [OF _ run_none])
    next
      case (Some err)
      then have "loop lib start (s', cl_Sleep (sl_clock lib) (so_reconnectInterval s') w') = Some r" using b True d by (simp add: sw)
      note ih = IH [OF this, unfolded fst_conv snd_conv]
      have "listen_step lib (looping start s rx, w) = Ret (looping start s' rx, cl_Sleep (sl_clock lib) (so_reconnectInterval s') w')"
        using True d Some by (simp add: step_looping)
      then show ?thesis unfolding sw fst_conv snd_conv by (rule run_one [OF _ ih])
    qed
  qed
qed

lemma step_reading:
  "so_conn s = Some c \<Longrightarrow> listen_step lib (reading s rx, w) =
     (case wc_ReadMessage (sl_conn lib) c w of
        (Inl err, w) \<Rightarrow> if \<not> so_shouldReconnect s then Ret (ended s rx, close_conn lib (s, w))
           else Ret (looping (cl_now (sl_clock lib) w) (setReadyState Connecting s) rx, w)
      | (Inr (_, m), w) \<Rightarrow> Ret (reading s (rx @ [m]), w))"
  by (simp add: listen_step_def feed_defs Let_def listen_end_eq split: prod.split sum.split)

lemma reconnect_run:
  assumes C: "Connect lib (s, w) = Some (ok, sn, wn)"
    and goes_on: "ok \<Longrightarrow> \<exists>n. listen_run lib n (reading sn rx, wn) = Ret r"
    and ends: "\<not> ok \<Longrightarrow> r = (ended sn rx, close_conn lib (sn, wn))"
  shows "\<exists>n. listen_run lib n (looping (cl_now (sl_clock lib) w) (setReadyState Connecting s) rx, w) = Ret r"
proof -
  have "connect_loop lib (cl_now (sl_clock lib) w) (setReadyState Connecting s, w) = Some (ok, sn, wn)"
    using C by (simp add: Connect_def)
  from looping_connects [OF this, of rx] obtain n where n: "listen_run lib n
      (looping (cl_now (sl_clock lib) w) (setReadyState Connecting s) rx, w) = Ret (connect_outcome lib rx (ok, sn, wn))" by auto
  have "\<exists>k. listen_run lib k (connect_outcome lib rx (ok, sn, wn)) = Ret r"
    using goes_on ends run_none by (cases ok) (auto simp: connect_outcome_def)
  then show ?thesis using listen_run_add [OF n] by metis
qed

lemma reading_run:
  assumes c: "so_conn s = Some c" and rd: "wc_ReadMessage (sl_conn lib) c w = (m, w')"
    and got: "\<And>t b. m = Inr (t, b) \<Longrightarrow> \<exists>n. listen_run lib n (reading s (rx @ [b]), w') = Ret r"
    and ends: "\<And>e. m = Inl e \<Longrightarrow> \<not> so_shouldReconnect s \<Longrightarrow> r = (ended s rx, close_conn lib (s, w'))"
    and again: "\<And>e. m = Inl e \<Longrightarrow> so_shouldReconnect s \<Longrightarrow>
      \<exists>n. listen_run lib n (looping (cl_now (sl_clock lib) w') (setReadyState Connecting s) rx, w') = Ret r"
  shows "\<exists>n. listen_run lib n (reading s rx, w) = Ret r"
proof -
  note st = step_reading [OF c, of lib rx w, unfolded rd prod.case]
  obtain fw where "listen_step lib (reading s rx, w) = Ret fw" "\<exists>n. listen_run lib n fw = Ret r"
    using got ends again run_none unfolding st
    by (cases m; cases "so_shouldReconnect s") (fastforce split: prod.splits)+
  then show ?thesis by (rule run_one)
qed

text \<open>One call of \<open>Listen\<close>, by induction on the calls.\<close>

lemma Listen_runs:
  "Listen lib rx sw = Some r \<Longrightarrow> r = Ret (rx', sf, we) \<longrightarrow>
    (\<exists>n. listen_run lib n (reading (fst sw) rx, snd sw) = Ret (ended sf rx', we))"
proof (induction rule: Listen.raw_induct [rotated, consumes 1, case_names step])
  case (step rec lib rx sw r)
  show ?case
  proof (intro impI)
    assume r: "r = Ret (rx', sf, we)"
    note IH = step(1) [THEN mp, OF _ r] and b = step(2)
    obtain s w where sw: "sw = (s, w)" by fastforce
    obtain c where c: "so_conn s = Some c" using b r by (cases "so_conn s") (auto simp: sw)
    obtain m w' where rd: "wc_ReadMessage (sl_conn lib) c w = (m, w')" by fastforce
    show "\<exists>n. listen_run lib n (reading (fst sw) rx, snd sw) = Ret (ended sf rx', we)"
      unfolding sw fst_conv snd_conv
    proof (rule reading_run [OF c rd])
      show "\<exists>n. listen_run lib n (reading s (rx @ [b']), w') = Ret (ended sf rx', we)" if "m = Inr (t, b')" for t b'
        using IH [of lib "rx @ [b']" "(s, w')"] b c rd that by (simp add: sw)
    next
      show "(ended sf rx', we) = (ended s rx, close_conn lib (s, w'))" if "m = Inl e" "\<not> so_shouldReconnect s" for e
        using b c rd that r by (auto simp: sw close_conn_def)
    next
      fix e assume m: "m = Inl e" "so_shouldReconnect s"
      obtain ok sn wn where C: "Connect lib (s, w') = Some (ok, sn, wn)"
        using b c rd m by (cases "Connect lib (s, w')") (auto simp: sw)
      show "\<exists>n. listen_run lib n (looping (cl_now (sl_clock lib) w') (setReadyState Connecting s) rx, w') = Ret (ended sf rx', we)"
      proof (rule reconnect_run [OF C])
        show "\<exists>n. listen_run lib n (reading sn rx, wn) = Ret (ended sf rx', we)" if ok
          using IH [of lib rx "(sn, wn)"] b c rd m C that by (simp add: sw)
        show "(ended sf rx', we) = (ended sn rx, close_conn lib (sn, wn))" if "\<not> ok"
          using b c rd m C that r by (auto simp: sw close_conn_def)
      qed
    qed
  qed
qed


section \<open>Stopping\<close>

text \<open>The messages read up to the first error, within a number of reads, and the world after it.\<close>

fun read_until_error :: "('c, 'w) conn_api \<Rightarrow> 'c \<Rightarrow> nat \<Rightarrow> 'w \<Rightarrow> (bytes list \<times> 'w) option" where
  "read_until_error api c 0 w = None"
| "read_until_error api c (Suc n) w =
     (case wc_ReadMessage api c w of
        (Inl err, w) \<Rightarrow> Some ([], w)
      | (Inr (_, m), w) \<Rightarrow> map_option (\<lambda>(ms, w). (m # ms, w)) (read_until_error api c n w))"

lemma run_ended: "listen_run lib n (ended s rx, w) = Ret (ended s rx, w)"
  by (induction n) (simp_all add: listen_step_def ended_def Let_def)

lemma reading_stopped:
  assumes c: "so_conn s = Some c" and stop: "\<not> so_shouldReconnect s"
  shows "read_until_error (sl_conn lib) c n w = Some (ms, w') \<Longrightarrow>
    listen_run lib n (reading s rx, w) = Ret (ended s (rx @ ms), snd (wc_Close (sl_conn lib) c w'))"
proof (induction n arbitrary: w rx ms)
  case 0
  then show ?case by simp
next
  case (Suc n)
  obtain m w1 where rd: "wc_ReadMessage (sl_conn lib) c w = (m, w1)" by fastforce
  note st = step_reading [OF c, of lib rx w, unfolded rd prod.case]
  show ?case
  proof (cases m)
    case (Inl err)
    then show ?thesis using Suc.prems rd stop by (auto simp: st close_conn_def c run_ended)
  next
    case (Inr tm)
    obtain t x where tm: "tm = (t, x)" by fastforce
    obtain ms1 where ms1: "read_until_error (sl_conn lib) c n w1 = Some (ms1, w')" "ms = x # ms1"
      using Suc.prems rd Inr tm by auto
    show ?thesis using Suc.IH [OF ms1(1), of "rx @ [x]"] ms1(2) by (simp add: st Inr tm)
  qed
qed

lemma stopped_source_ends:
  fixes s :: "'c websocketSource" and w w1 w2 :: 'w
  assumes s: "so_readyState s = Open" "so_conn s = Some c"
    and wr: "wc_WriteMessage (sl_conn lib) c CloseMessage close_normal w = (e, w1)"
    and rd: "read_until_error (sl_conn lib) c n w1 = Some (ms, w2)"
  shows "\<exists>s'. source_Stop lib (s, w) = (Ret (), s', w1) \<and> so_readyState s' = Closed \<and>
    listen_run lib n (reading s' rx, w1) = Ret (ended s' (rx @ ms), snd (wc_Close (sl_conn lib) c w2))"
proof -
  let ?s = "setReadyState Closed (s\<lparr>so_shouldReconnect := False\<rparr>)"
  have "source_Stop lib (s, w) = (Ret (), ?s, w1)" by (simp add: source_Stop_def GetReadyState_def s Disconnect_def wr)
  moreover have "so_conn ?s = Some c" "\<not> so_shouldReconnect ?s" "so_readyState ?s = Closed" by (simp_all add: setReadyState_def s)
  ultimately show ?thesis using reading_stopped [of ?s c lib n w1 ms w2 rx] rd by auto
qed


text \<open>
  \<open>Stop\<close> while the source tries to connect again is lost: it does nothing, not even to prevent the next
  attempt, and if that succeeds the source is open and reads and would connect again after an error.
\<close>

theorem Stop_lost_while_connecting:
  assumes s: "so_readyState s = Connecting" "so_shouldReconnect s"
    and t: "since (cl_now (sl_clock lib) w) start < so_reconnectIntervalMax s"
    and d: "wd_Dial (sl_dialer lib) (so_feedUrl s) (sl_GetAuthHeader lib w) w = (Inr c, w1)"
  shows "source_Stop lib (s, w) = (Ret (), s, w) \<and>
    (\<exists>s'. listen_step lib (\<lparr>fy_src = s, fy_pc = Looping start, fy_rx = rx, fy_rx_closed = False\<rparr>, w) =
        Ret (\<lparr>fy_src = s', fy_pc = Reading, fy_rx = rx, fy_rx_closed = False\<rparr>, w1) \<and>
      so_readyState s' = Open \<and> so_shouldReconnect s' \<and> so_conn s' = Some c)"
  using step_looping [of lib start s rx w] s t d
  by (simp add: source_Stop_def GetReadyState_def dial_def Let_def feed_defs setReadyState_def)

section \<open>Concrete runs\<close>

text \<open>
  A library on a clock and a script: an entry is the result of the next dial (a number, the
  connection) or read; when the script is over everything fails.
\<close>

type_synonym script = "int \<times> nat res list \<times> bytes res list"

definition demo_source_lib :: "(nat, script) source_lib" where
  "demo_source_lib = \<lparr>
     sl_dialer = \<lparr>wd_Dial = (\<lambda>u h (t, ds, rs). (case ds of [] \<Rightarrow> (Inl (Foreign 0), t, ds, rs) | d # ds \<Rightarrow> (d, t, ds, rs)))\<rparr>,
     sl_conn = \<lparr>
       wc_ReadMessage = (\<lambda>c (t, ds, rs). (case rs of [] \<Rightarrow> (Inl (Foreign 1), t, ds, rs)
         | r # rs \<Rightarrow> (map_sum id (\<lambda>m. (1, m)) r, t, ds, rs))),
       wc_WriteMessage = (\<lambda>c k b w. (None, w)), wc_WriteControl = (\<lambda>c k b d w. (None, w)),
       wc_SetReadDeadline = (\<lambda>c t w. (None, w)), wc_SetPongHandler = (\<lambda>c h w. w), wc_SetPingHandler = (\<lambda>c h w. w),
       wc_SetWriteDeadline = (\<lambda>c t w. (None, w)), wc_Close = (\<lambda>c w. (None, w))\<rparr>,
     sl_clock = \<lparr>cl_now = (\<lambda>(t, ds, rs). t), cl_Sleep = (\<lambda>d (t, ds, rs). (t + max 0 d, ds, rs))\<rparr>,
     sl_GetAuthHeader = (\<lambda>w. [])\<rparr>"

definition demo_ws_conf :: WebSocketConfig where
  "demo_ws_conf = \<lparr>QredoWebsocket = ''wss://feed'', ReconnectTimeOut = 300, ReconnectInterval = 5, PingPeriod = 5,
     PongWait = 10, WriteWait = 10, ReadBufferSize = 512, WriteBufferSize = 1024\<rparr>"

definition demo_source :: "nat websocketSource" where
  "demo_source = NewWebsocketSource ''wss://feed'' demo_ws_conf"

lemma demo_source_sel [simp]:
  "so_conn demo_source = None" "so_feedUrl demo_source = ''wss://feed''" "so_shouldReconnect demo_source"
  "so_readyState demo_source = Closed" "so_reconnectIntervalMax demo_source = 300 * Second" "so_reconnectInterval demo_source = 5 * Second"
  by (simp_all add: demo_source_def NewWebsocketSource_def demo_ws_conf_def duration_seconds)

theorem Connect_bound_witness:
  "\<exists>ok s' w' n. Connect (counted_lib demo_source_lib) (demo_source, (0, [], []), 0) = Some (ok, s', w', n) \<and> n \<le> 60 \<and>
    connected ok demo_source s'"
proof -
  have "source_clock_runs demo_source_lib"
    by (auto simp: source_clock_runs_def demo_source_lib_def split: list.splits)
  moreover have "demo_source = (NewWebsocketSource ''wss://feed'' demo_ws_conf)\<lparr>so_conn := None, so_readyState := Closed\<rparr>"
    by (simp add: demo_source_def NewWebsocketSource_def)
  ultimately show ?thesis
    using Connect_bound [where lib = demo_source_lib and s = demo_source and url = "''wss://feed''" and conf = demo_ws_conf
        and conn = None and st = Closed and r = 5 and rm = 300 and k = 60 and w = "(0, [], [])"]
    by (simp add: demo_ws_conf_def)
qed

lemma demo_read [simp]:
  "wc_ReadMessage (sl_conn demo_source_lib) c (t, ds, rs) = (case rs of [] \<Rightarrow> (Inl (Foreign 1), t, ds, rs)
     | r # rs \<Rightarrow> (map_sum id (\<lambda>m. (1, m)) r, t, ds, rs))"
  "wc_Close (sl_conn demo_source_lib) c w = (None, w)"
  "wc_WriteMessage (sl_conn demo_source_lib) c k b w = (None, w)"
  "wd_Dial (sl_dialer demo_source_lib) u h (t, ds, rs) = (case ds of [] \<Rightarrow> (Inl (Foreign 0), t, ds, rs) | d # ds \<Rightarrow> (d, t, ds, rs))"
  "cl_now (sl_clock demo_source_lib) (t, ds, rs) = t"
  "cl_Sleep (sl_clock demo_source_lib) d (t, ds, rs) = (t + max 0 d, ds, rs)"
  "sl_GetAuthHeader demo_source_lib w = []"
  by (simp_all add: demo_source_lib_def)



theorem Stop_lost_while_connecting_witness:
  "\<exists>s'. listen_step demo_source_lib (\<lparr>fy_src = demo_source\<lparr>so_readyState := Connecting\<rparr>, fy_pc = Looping 0, fy_rx = [], fy_rx_closed = False\<rparr>, 0, [Inr 2], []) =
      Ret (\<lparr>fy_src = s', fy_pc = Reading, fy_rx = [], fy_rx_closed = False\<rparr>, 0, [], []) \<and> so_readyState s' = Open"
  using Stop_lost_while_connecting [of "demo_source\<lparr>so_readyState := Connecting\<rparr>" demo_source_lib "(0, [Inr 2], [])" 0 2 "(0, [], [])" "[]"]
  by (auto simp: since_def saturate64_def Second_def)

end
