(* ===== verification/FeedHub.thy ===== *)
theory FeedHub
  imports FeedSource
begin

text \<open>
  \<open>internal/hub/feed_hub.go\<close>: the hub hands every message of the source to all registered clients, and to a
  client that registers the messages of the cache first.

  A channel is a number, and \<open>chans\<close> says of every channel whether it is closed, whether its receiver
  listens, and what the receiver got, in order. Sending is a rendezvous: on a closed channel it panics,
  and without a receiver it blocks for ever, \<open>None\<close>. \<open>RegisterClient\<close>, \<open>UnregisterClient\<close>, \<open>cleanUp\<close> and the
  handling of one message hold the hub's lock, so each is one step, and a history of the hub is a list
  of such steps in the order in which they got the lock.
\<close>

section \<open>Channels\<close>

record chan =
  ch_closed :: bool
  ch_listening :: bool
  ch_got :: "bytes list"

type_synonym chans = "nat \<Rightarrow> chan"

definition chan_send :: "nat \<Rightarrow> bytes \<Rightarrow> chans \<Rightarrow> (unit ret \<times> chans) option" where
  "chan_send n m cs =
     (if ch_closed (cs n) then Some (Panic, cs)
      else if \<not> ch_listening (cs n) then None
      else Some (Ret (), cs(n := (cs n)\<lparr>ch_got := ch_got (cs n) @ [m]\<rparr>)))"

definition chan_close :: "nat \<Rightarrow> chans \<Rightarrow> unit ret \<times> chans" where
  "chan_close n cs = (if ch_closed (cs n) then (Panic, cs) else (Ret (), cs(n := (cs n)\<lparr>ch_closed := True\<rparr>)))"

fun sends :: "(nat \<times> bytes) list \<Rightarrow> chans \<Rightarrow> (unit ret \<times> chans) option" where
  "sends [] cs = Some (Ret (), cs)"
| "sends ((n, m) # xs) cs =
     (case chan_send n m cs of
        None \<Rightarrow> None
      | Some (Panic, cs) \<Rightarrow> Some (Panic, cs)
      | Some (Ret _, cs) \<Rightarrow> sends xs cs)"

section \<open>feed_hub.go\<close>

text \<open>The map of clients has pointers as keys; a client is known by its channel, which no other client has.\<close>

(* internal/hub/feed_hub.go:13-16 HubFeedClient *)
record HubFeedClient =
  fc_Feed :: nat
  fc_IsInternal :: bool

text \<open>The channel a new client gets is one that was not used before.\<close>

(* internal/hub/feed_hub.go:18-23 NewHubFeedClient *)
definition NewHubFeedClient :: "nat \<Rightarrow> bool \<Rightarrow> chans \<Rightarrow> HubFeedClient \<times> chans" where
  "NewHubFeedClient fresh isInternal cs =
     (\<lparr>fc_Feed = fresh, fc_IsInternal = isInternal\<rparr>, cs(fresh := \<lparr>ch_closed = False, ch_listening = False, ch_got = []\<rparr>))"

(* internal/hub/message/cache.go:20-32 CacheRemover, Cache, Cacher *)
record 'w cacher =
  ca_RemoveMessage :: "string \<Rightarrow> 'w \<Rightarrow> 'w"
  ca_AddMessage :: "bytes \<Rightarrow> 'w \<Rightarrow> 'w"
  ca_GetMessages :: "'w \<Rightarrow> bytes list ret \<times> 'w"

text \<open>Source and broadcast channel are those of \<open>FeedSource\<close>. Go iterates over the clients in any order.\<close>

(* internal/hub/feed_hub.go:37-49 feedHubImpl *)
record 'w feedHub =
  hb_clients :: "(HubFeedClient \<times> bool) list"
  hb_isRunning :: bool
  hb_messageCache :: "'w cacher option"

(* internal/hub/feed_hub.go:51-62 NewFeedHub *)
definition NewFeedHub :: "'w cacher option \<Rightarrow> 'w feedHub" where
  "NewFeedHub messageCache = \<lparr>hb_clients = [], hb_isRunning = False, hb_messageCache = messageCache\<rparr>"

(* internal/hub/feed_hub.go:64-67 feedHubImpl.IsRunning *)
definition IsRunning :: "'w feedHub \<Rightarrow> bool" where
  "IsRunning h = hb_isRunning h"

text \<open>\<open>Run\<close> returns when \<open>startHub\<close> has set the flag and \<open>Listen\<close> has begun; \<open>None\<close> if connecting does not end.\<close>

(* internal/hub/feed_hub.go:69-85 feedHubImpl.Run *)
definition Run :: "('c, 'w) source_lib \<Rightarrow> 'v feedHub \<times> 'c websocketSource \<times> 'w
    \<Rightarrow> (bool \<times> 'v feedHub \<times> 'c feed_state option \<times> 'c websocketSource \<times> 'w) option" where
  "Run lib hsw =
     (case hsw of (h, sw) \<Rightarrow>
      (case Connect lib sw of
         None \<Rightarrow> None
       | Some (False, (s, w)) \<Rightarrow> Some (False, h, None, s, w)
       | Some (True, (s, w)) \<Rightarrow>
           Some (True, h\<lparr>hb_isRunning := True\<rparr>, Some \<lparr>fy_src = s, fy_pc = Reading, fy_rx = [], fy_rx_closed = False\<rparr>, s, w)))"

definition cached_messages :: "'w feedHub \<Rightarrow> 'w \<Rightarrow> bytes list ret \<times> 'w" where
  "cached_messages h w = (case hb_messageCache h of None \<Rightarrow> (Ret [], w) | Some ca \<Rightarrow> ca_GetMessages ca w)"

(* internal/hub/feed_hub.go:96-111 feedHubImpl.RegisterClient *)
definition RegisterClient :: "HubFeedClient \<Rightarrow> 'w feedHub \<times> chans \<times> 'w \<Rightarrow> (unit ret \<times> 'w feedHub \<times> chans \<times> 'w) option" where
  "RegisterClient client st =
     (case st of (h, cs, w) \<Rightarrow>
      (case cached_messages h w of
         (Panic, w) \<Rightarrow> Some (Panic, h, cs, w)
       | (Ret messages, w) \<Rightarrow>
           (case sends (map (\<lambda>m. (fc_Feed client, m)) messages) cs of
              None \<Rightarrow> None
            | Some (Panic, cs) \<Rightarrow> Some (Panic, h, cs, w)
            | Some (Ret _, cs) \<Rightarrow> Some (Ret (), h\<lparr>hb_clients := AList.update client True (hb_clients h)\<rparr>, cs, w))))"

(* internal/hub/feed_hub.go:113-124 feedHubImpl.UnregisterClient *)
definition UnregisterClient :: "HubFeedClient \<Rightarrow> 'w feedHub \<times> chans \<times> 'w \<Rightarrow> unit ret \<times> 'w feedHub \<times> chans \<times> 'w" where
  "UnregisterClient client st =
     (case st of (h, cs, w) \<Rightarrow>
      (if map_of (hb_clients h) client = Some True
       then (case chan_close (fc_Feed client) cs of
               (Panic, cs) \<Rightarrow> (Panic, h, cs, w)
             | (Ret _, cs) \<Rightarrow> (Ret (), h\<lparr>hb_clients := AList.delete client (hb_clients h)\<rparr>, cs, w))
       else (Ret (), h, cs, w)))"

(* internal/hub/feed_hub.go:138-150 feedHubImpl.getExternalFeedClients *)
definition getExternalFeedClients :: "'w feedHub \<Rightarrow> nat" where
  "getExternalFeedClients h = length (filter (\<lambda>fc. \<not> fc_IsInternal fc) (map fst (hb_clients h)))"

(* internal/hub/feed_hub.go:126-136 feedHubImpl.GetWebsocketStatus *)
definition GetWebsocketStatus :: "'c websocketSource \<Rightarrow> 'w feedHub \<Rightarrow> WebsocketStatus" where
  "GetWebsocketStatus s h =
     \<lparr>ws_ReadyState = GetReadyState s, ws_RemoteFeedUrl = GetFeedUrl s,
      ws_ConnectedClients = of_nat (getExternalFeedClients h)\<rparr>"

fun close_feeds :: "HubFeedClient list \<Rightarrow> 'w feedHub \<times> chans \<Rightarrow> unit ret \<times> 'w feedHub \<times> chans" where
  "close_feeds [] hc = (Ret (), hc)"
| "close_feeds (client # cls) (h, cs) =
     (case chan_close (fc_Feed client) cs of
        (Panic, cs) \<Rightarrow> (Panic, h, cs)
      | (Ret _, cs) \<Rightarrow> close_feeds cls (h\<lparr>hb_clients := AList.delete client (hb_clients h)\<rparr>, cs))"

(* internal/hub/feed_hub.go:152-161 feedHubImpl.cleanUp *)
definition cleanUp :: "'w feedHub \<times> chans \<Rightarrow> unit ret \<times> 'w feedHub \<times> chans" where
  "cleanUp hc = close_feeds (map fst (hb_clients (fst hc))) hc"

text \<open>One turn of the loop of \<open>startHub\<close>: a message, or the end of the broadcast channel.\<close>

(* internal/hub/feed_hub.go:163-192 feedHubImpl.startHub *)
definition startHub_step :: "bytes option \<Rightarrow> 'w feedHub \<times> chans \<times> 'w \<Rightarrow> (unit ret \<times> 'w feedHub \<times> chans \<times> 'w) option" where
  "startHub_step received st =
     (case st of (h, cs, w) \<Rightarrow>
      (case received of
         None \<Rightarrow>
           (case cleanUp (h\<lparr>hb_isRunning := False\<rparr>, cs) of (r, h, cs) \<Rightarrow> Some (r, h, cs, w))
       | Some message \<Rightarrow>
           let w = (case hb_messageCache h of None \<Rightarrow> w | Some ca \<Rightarrow> ca_AddMessage ca message w) in
           (case sends (map (\<lambda>client. (fc_Feed client, message)) (map fst (hb_clients h))) cs of
              None \<Rightarrow> None
            | Some (r, cs) \<Rightarrow> Some (r, h, cs, w))))"

section \<open>Histories\<close>

datatype hub_event = Register HubFeedClient | Unregister HubFeedClient | Message bytes | SourceClosed

fun hub_step :: "hub_event \<Rightarrow> 'w feedHub \<times> chans \<times> 'w \<Rightarrow> (unit ret \<times> 'w feedHub \<times> chans \<times> 'w) option" where
  "hub_step (Register c) st = RegisterClient c st"
| "hub_step (Unregister c) st = Some (UnregisterClient c st)"
| "hub_step (Message m) st = startHub_step (Some m) st"
| "hub_step SourceClosed st = startHub_step None st"

fun hub_run :: "hub_event list \<Rightarrow> 'w feedHub \<times> chans \<times> 'w \<Rightarrow> (unit ret \<times> 'w feedHub \<times> chans \<times> 'w) option" where
  "hub_run [] st = Some (Ret (), st)"
| "hub_run (ev # evs) st =
     (case hub_step ev st of
        None \<Rightarrow> None
      | Some (Panic, st) \<Rightarrow> Some (Panic, st)
      | Some (Ret _, st) \<Rightarrow> hub_run evs st)"

text \<open>What a client should get, and whether it is registered in the end.\<close>

fun cache_after :: "'w cacher option \<Rightarrow> hub_event \<Rightarrow> 'w \<Rightarrow> 'w" where
  "cache_after (Some ca) (Register c) w = snd (ca_GetMessages ca w)"
| "cache_after (Some ca) (Message m) w = ca_AddMessage ca m w"
| "cache_after ca ev w = w"

definition cache_serves :: "'w cacher option \<Rightarrow> 'w \<Rightarrow> bytes list" where
  "cache_serves ca w = (case ca of None \<Rightarrow> [] | Some ca \<Rightarrow> (case fst (ca_GetMessages ca w) of Ret ms \<Rightarrow> ms | Panic \<Rightarrow> []))"

fun still :: "HubFeedClient \<Rightarrow> hub_event \<Rightarrow> bool \<Rightarrow> bool" where
  "still c (Register d) r = (r \<or> c = d)"
| "still c (Unregister d) r = (r \<and> c \<noteq> d)"
| "still c (Message m) r = r"
| "still c SourceClosed r = False"

fun gets :: "'w cacher option \<Rightarrow> HubFeedClient \<Rightarrow> hub_event \<Rightarrow> 'w \<Rightarrow> bool \<Rightarrow> bytes list" where
  "gets ca c (Register d) w r = (if c = d then cache_serves ca w else [])"
| "gets ca c (Message m) w r = (if r then [m] else [])"
| "gets ca c ev w r = []"

fun delivered :: "'w cacher option \<Rightarrow> HubFeedClient \<Rightarrow> hub_event list \<Rightarrow> 'w \<Rightarrow> bool \<Rightarrow> bytes list" where
  "delivered ca c [] w r = []"
| "delivered ca c (ev # evs) w r = gets ca c ev w r @ delivered ca c evs (cache_after ca ev w) (still c ev r)"

fun registered_after :: "HubFeedClient \<Rightarrow> hub_event list \<Rightarrow> bool \<Rightarrow> bool" where
  "registered_after c [] r = r"
| "registered_after c (ev # evs) r = registered_after c evs (still c ev r)"

fun registers :: "hub_event list \<Rightarrow> HubFeedClient list" where
  "registers [] = []"
| "registers (Register c # evs) = c # registers evs"
| "registers (_ # evs) = registers evs"

section \<open>Delivery\<close>

definition cls :: "'w feedHub \<Rightarrow> HubFeedClient list" where
  "cls h = map fst (hb_clients h)"

lemma cls_simps [simp]:
  "cls (h\<lparr>hb_clients := AList.update c True (hb_clients h)\<rparr>) = (if c \<in> set (cls h) then cls h else cls h @ [c])"
  "cls (h\<lparr>hb_clients := AList.delete c (hb_clients h)\<rparr>) = removeAll c (cls h)"
  "cls (h\<lparr>hb_isRunning := b\<rparr>) = cls h"
  by (simp_all add: cls_def AList.update_keys AList.delete_keys)

lemma map_of_cls: "map_of (hb_clients h) c = None \<longleftrightarrow> c \<notin> set (cls h)"
  by (simp add: cls_def map_of_eq_None_iff)

definition open_chan :: "chans \<Rightarrow> HubFeedClient \<Rightarrow> bool" where
  "open_chan cs c \<longleftrightarrow> \<not> ch_closed (cs (fc_Feed c)) \<and> ch_listening (cs (fc_Feed c))"

definition add_got :: "bytes list \<Rightarrow> chan \<Rightarrow> chan" where
  "add_got ms ch = ch\<lparr>ch_got := ch_got ch @ ms\<rparr>"

lemma add_got_sel [simp]: "ch_got (add_got ms ch) = ch_got ch @ ms" "ch_closed (add_got ms ch) = ch_closed ch"
  "ch_listening (add_got ms ch) = ch_listening ch" "add_got [] ch = ch" "add_got ms (add_got ls ch) = add_got (ls @ ms) ch"
  by (simp_all add: add_got_def)

lemma sends_ok:
  "\<forall>x \<in> set xs. \<not> ch_closed (cs (fst x)) \<and> ch_listening (cs (fst x)) \<Longrightarrow>
    sends xs cs = Some (Ret (), \<lambda>n. add_got (map snd (filter (\<lambda>x. fst x = n) xs)) (cs n))"
proof (induction xs cs rule: sends.induct)
  case (1 cs)
  then show ?case by simp
next
  case (2 n m xs cs)
  let ?cs = "cs(n := add_got [m] (cs n))"
  have s: "chan_send n m cs = Some (Ret (), ?cs)" using "2.prems" by (simp add: chan_send_def add_got_def)
  have "\<forall>x \<in> set xs. \<not> ch_closed (?cs (fst x)) \<and> ch_listening (?cs (fst x))" using "2.prems" by auto
  from "2.IH" [OF s refl refl this] show ?case by (auto simp: s fun_eq_iff simp del: fun_upd_apply) (simp_all add: add_got_def)
qed

lemma filter_feed: "distinct (map fc_Feed xs) \<Longrightarrow> c \<in> set xs \<Longrightarrow>
    map snd (filter (\<lambda>x. fst x = fc_Feed c) (map (\<lambda>c. (fc_Feed c, m)) xs)) = [m]"
  by (induction xs) (auto simp: filter_empty_conv image_iff)

lemma filter_no_feed: "n \<notin> fc_Feed ` set xs \<Longrightarrow> filter (\<lambda>x. fst x = n) (map (\<lambda>c. (fc_Feed c, m)) xs) = []"
  by (auto simp: filter_empty_conv)

lemma close_feeds_ok:
  "distinct (map fc_Feed xs) \<Longrightarrow> \<forall>c \<in> set xs. \<not> ch_closed (cs (fc_Feed c)) \<Longrightarrow>
    close_feeds xs (h, cs) = (Ret (), h\<lparr>hb_clients := filter (\<lambda>p. fst p \<notin> set xs) (hb_clients h)\<rparr>,
      \<lambda>n. if n \<in> fc_Feed ` set xs then (cs n)\<lparr>ch_closed := True\<rparr> else cs n)"
proof (induction xs arbitrary: h cs)
  case Nil
  then show ?case by simp
next
  case (Cons c xs)
  let ?cs = "cs(fc_Feed c := (cs (fc_Feed c))\<lparr>ch_closed := True\<rparr>)" and ?h = "h\<lparr>hb_clients := AList.delete c (hb_clients h)\<rparr>"
  have "chan_close (fc_Feed c) cs = (Ret (), ?cs)" using Cons.prems by (simp add: chan_close_def)
  moreover have "close_feeds xs (?h, ?cs) = (Ret (), ?h\<lparr>hb_clients := filter (\<lambda>p. fst p \<notin> set xs) (hb_clients ?h)\<rparr>,
      \<lambda>n. if n \<in> fc_Feed ` set xs then (?cs n)\<lparr>ch_closed := True\<rparr> else ?cs n)"
    using Cons.prems by (intro Cons.IH) (auto simp: image_iff)
  moreover have "filter (\<lambda>p. fst p \<notin> set xs) (AList.delete c (hb_clients h)) = filter (\<lambda>p. fst p \<notin> set (c # xs)) (hb_clients h)"
    by (simp add: AList.delete_eq) (rule filter_cong, auto)
  ultimately show ?case using Cons.prems(1) by (auto simp: fun_eq_iff)
qed

text \<open>The clients now and in future have channels of their own, which are open as long as they are registered.\<close>

definition hub_inv :: "'w feedHub \<Rightarrow> chans \<Rightarrow> hub_event list \<Rightarrow> bool" where
  "hub_inv h cs evs \<longleftrightarrow> distinct (map fc_Feed (cls h @ registers evs)) \<and>
     (\<forall>c \<in> set (cls h). map_of (hb_clients h) c = Some True) \<and> (\<forall>c \<in> set (cls h @ registers evs). open_chan cs c)"

definition cache_reads :: "'w cacher option \<Rightarrow> bool" where
  "cache_reads ca \<longleftrightarrow> (\<forall>a w. ca = Some a \<longrightarrow> fst (ca_GetMessages a w) \<noteq> Panic)"

text \<open>What a step does to the channels of the clients in its scope, and that it leaves others alone.\<close>

definition hub_stepped :: "hub_event \<Rightarrow> hub_event list \<Rightarrow> 'w feedHub \<times> chans \<times> 'w \<Rightarrow> 'w feedHub \<times> chans \<times> 'w \<Rightarrow> bool" where
  "hub_stepped ev evs st st' \<longleftrightarrow> (case (st, st') of ((h, cs, w), (h', cs', w')) \<Rightarrow>
     w' = cache_after (hb_messageCache h) ev w \<and> hb_messageCache h' = hb_messageCache h \<and>
     hb_isRunning h' = (hb_isRunning h \<and> ev \<noteq> SourceClosed) \<and>
     (\<forall>c. c \<in> set (cls h') \<longleftrightarrow> still c ev (c \<in> set (cls h))) \<and>
     (\<forall>c \<in> set (cls h @ registers (ev # evs)).
        ch_got (cs' (fc_Feed c)) = ch_got (cs (fc_Feed c)) @ gets (hb_messageCache h) c ev w (c \<in> set (cls h)) \<and>
        ch_closed (cs' (fc_Feed c)) = (c \<in> set (cls h) \<and> c \<notin> set (cls h'))) \<and>
     (\<forall>n. n \<notin> fc_Feed ` set (cls h @ registers (ev # evs)) \<longrightarrow> cs' n = cs n))"

lemma feed_eq: "distinct (map fc_Feed xs) \<Longrightarrow> c \<in> set xs \<Longrightarrow> d \<in> set xs \<Longrightarrow> fc_Feed c = fc_Feed d \<Longrightarrow> c = d"
  by (metis distinct_map inj_on_def)

lemma register_step:
  assumes inv: "hub_inv h cs (Register c # evs)" and ca: "cache_reads (hb_messageCache h)"
  shows "\<exists>h' cs' w'. RegisterClient c (h, cs, w) = Some (Ret (), h', cs', w') \<and> hub_inv h' cs' evs \<and>
    hub_stepped (Register c) evs (h, cs, w) (h', cs', w')"
proof -
  define ms where "ms = cache_serves (hb_messageCache h) w"
  define w' where "w' = cache_after (hb_messageCache h) (Register c) w"
  have cm: "cached_messages h w = (Ret ms, w')"
  proof (cases "hb_messageCache h")
    case (Some a)
    obtain r v where g: "ca_GetMessages a w = (r, v)" by fastforce
    then have "r \<noteq> Panic" using ca Some unfolding cache_reads_def by (metis fst_conv)
    then show ?thesis using g Some by (cases r) (simp_all add: cached_messages_def ms_def w'_def cache_serves_def)
  qed (simp add: cached_messages_def ms_def w'_def cache_serves_def)
  define cs' where "cs' = cs(fc_Feed c := add_got ms (cs (fc_Feed c)))"
  have opn: "open_chan cs c" using inv by (simp add: hub_inv_def)
  have "map snd (filter (\<lambda>x. fst x = n) (map (\<lambda>m. (fc_Feed c, m)) ms)) = (if n = fc_Feed c then ms else [])" for n
    by (induction ms) auto
  then have s: "sends (map (\<lambda>m. (fc_Feed c, m)) ms) cs = Some (Ret (), cs')"
    using opn by (subst sends_ok) (auto simp: cs'_def open_chan_def fun_eq_iff)
  define h' where "h' = h\<lparr>hb_clients := AList.update c True (hb_clients h)\<rparr>"
  have r: "RegisterClient c (h, cs, w) = Some (Ret (), h', cs', w')"
    by (simp add: RegisterClient_def cm s h'_def)
  have fresh: "c \<notin> set (cls h)" using inv by (auto simp: hub_inv_def)
  then have k: "cls h' = cls h @ [c]" by (simp add: h'_def)
  have other: "fc_Feed d \<noteq> fc_Feed c" if "d \<in> set (cls h @ registers evs)" for d
    using inv that unfolding hub_inv_def by (auto simp: image_iff)
  have "hub_inv h' cs' evs"
    using inv other unfolding hub_inv_def k
    by (auto simp: cs'_def open_chan_def h'_def AList.update_conv')
  moreover have "hub_stepped (Register c) evs (h, cs, w) (h', cs', w')"
    using other inv fresh unfolding hub_stepped_def prod.case k
    by (auto simp: w'_def h'_def cs'_def ms_def hub_inv_def open_chan_def)
  ultimately show ?thesis using r by blast
qed

lemma unregister_step:
  assumes inv: "hub_inv h cs (Unregister c # evs)"
  shows "\<exists>h' cs' w'. UnregisterClient c (h, cs, w) = (Ret (), h', cs', w') \<and> hub_inv h' cs' evs \<and>
    hub_stepped (Unregister c) evs (h, cs, w) (h', cs', w')"
proof (cases "c \<in> set (cls h)")
  case False
  then have "map_of (hb_clients h) c = None" by (simp add: map_of_cls)
  then have u: "UnregisterClient c (h, cs, w) = (Ret (), h, cs, w)" by (simp add: UnregisterClient_def)
  have "hub_inv h cs evs" using inv by (simp add: hub_inv_def)
  moreover have "hub_stepped (Unregister c) evs (h, cs, w) (h, cs, w)"
    using False inv unfolding hub_stepped_def prod.case
    by (cases "hb_messageCache h") (auto simp: hub_inv_def open_chan_def)
  ultimately show ?thesis using u by blast
next
  case True
  define h' where "h' = h\<lparr>hb_clients := AList.delete c (hb_clients h)\<rparr>"
  define cs' where "cs' = cs(fc_Feed c := (cs (fc_Feed c))\<lparr>ch_closed := True\<rparr>)"
  have opn: "\<not> ch_closed (cs (fc_Feed c))" and m: "map_of (hb_clients h) c = Some True"
    using inv True by (auto simp: hub_inv_def open_chan_def)
  have u: "UnregisterClient c (h, cs, w) = (Ret (), h', cs', w)"
    by (simp add: UnregisterClient_def m chan_close_def opn h'_def cs'_def)
  have k: "cls h' = removeAll c (cls h)" by (simp add: h'_def)
  have other: "d = c" if "d \<in> set (cls h @ registers evs)" "fc_Feed d = fc_Feed c" for d
    using feed_eq [of "cls h @ registers evs" d c] inv that True by (simp add: hub_inv_def)
  have nreg: "c \<notin> set (registers evs)" using inv True by (force simp: hub_inv_def)
  have "distinct (map fc_Feed (cls h @ registers evs))" using inv by (simp add: hub_inv_def)
  then have fin: "distinct (map fc_Feed (cls h' @ registers evs))"
    unfolding k distinct_map by (auto simp: inj_on_def distinct_removeAll)
  have op: "open_chan cs' d" if "d \<in> set (cls h' @ registers evs)" for d
  proof -
    have "d \<in> set (cls h @ registers evs)" "d \<noteq> c" using that nreg by (auto simp: k)
    then have "open_chan cs d" "fc_Feed d \<noteq> fc_Feed c" using inv other by (auto simp: hub_inv_def)
    then show ?thesis by (simp add: open_chan_def cs'_def)
  qed
  have mp: "map_of (hb_clients h') d = Some True" if "d \<in> set (cls h')" for d
    using that inv by (auto simp: k hub_inv_def h'_def delete_conv')
  have "hub_inv h' cs' evs" unfolding hub_inv_def using fin op mp by blast
  moreover have "hub_stepped (Unregister c) evs (h, cs, w) (h', cs', w)"
    unfolding hub_stepped_def prod.case
  proof (intro conjI ballI allI impI)
    fix d assume d: "d \<in> set (cls h @ registers (Unregister c # evs))"
    show "ch_got (cs' (fc_Feed d)) = ch_got (cs (fc_Feed d)) @ gets (hb_messageCache h) d (Unregister c) w (d \<in> set (cls h))"
      by (simp add: cs'_def)
    have "open_chan cs d" using d inv by (simp add: hub_inv_def)
    moreover have "fc_Feed d = fc_Feed c \<longleftrightarrow> d = c" using other d by auto
    ultimately show "ch_closed (cs' (fc_Feed d)) = (d \<in> set (cls h) \<and> d \<notin> set (cls h'))"
      using True by (simp add: cs'_def k open_chan_def)
  next
    fix n assume "n \<notin> fc_Feed ` set (cls h @ registers (Unregister c # evs))"
    then have "n \<noteq> fc_Feed c" using True by auto
    then show "cs' n = cs n" by (simp add: cs'_def)
  qed (cases "hb_messageCache h"; simp add: k h'_def)+
  ultimately show ?thesis using u by blast
qed

lemma message_step:
  assumes inv: "hub_inv h cs (Message m # evs)"
  shows "\<exists>h' cs' w'. startHub_step (Some m) (h, cs, w) = Some (Ret (), h', cs', w') \<and> hub_inv h' cs' evs \<and>
    hub_stepped (Message m) evs (h, cs, w) (h', cs', w')"
proof -
  define cs' where "cs' = (\<lambda>n. add_got (map snd (filter (\<lambda>x. fst x = n) (map (\<lambda>c. (fc_Feed c, m)) (cls h)))) (cs n))"
  have "\<forall>x \<in> set (map (\<lambda>c. (fc_Feed c, m)) (cls h)). \<not> ch_closed (cs (fst x)) \<and> ch_listening (cs (fst x))"
    using inv by (auto simp: hub_inv_def open_chan_def)
  then have s: "sends (map (\<lambda>c. (fc_Feed c, m)) (cls h)) cs = Some (Ret (), cs')"
    unfolding cs'_def by (rule sends_ok)
  define w' where "w' = cache_after (hb_messageCache h) (Message m) w"
  have u: "startHub_step (Some m) (h, cs, w) = Some (Ret (), h, cs', w')"
    using s by (cases "hb_messageCache h") (simp_all add: startHub_step_def cls_def w'_def)
  have d: "distinct (map fc_Feed (cls h @ registers evs))" using inv by (simp add: hub_inv_def)
  have "hub_inv h cs' evs" using inv unfolding hub_inv_def by (auto simp: open_chan_def cs'_def)
  moreover have "hub_stepped (Message m) evs (h, cs, w) (h, cs', w')"
    unfolding hub_stepped_def prod.case
  proof (intro conjI ballI allI impI)
    fix c assume c: "c \<in> set (cls h @ registers (Message m # evs))"
    have "map snd (filter (\<lambda>x. fst x = fc_Feed c) (map (\<lambda>c. (fc_Feed c, m)) (cls h))) = (if c \<in> set (cls h) then [m] else [])"
    proof (cases "c \<in> set (cls h)")
      case True
      have "distinct (map fc_Feed (cls h))" using d by simp
      from filter_feed [OF this True] True show ?thesis by simp
    next
      case False
      then have "fc_Feed c \<notin> fc_Feed ` set (cls h)" using feed_eq [OF d, of c] c by auto
      from filter_no_feed [OF this] False show ?thesis by simp
    qed
    then show "ch_got (cs' (fc_Feed c)) = ch_got (cs (fc_Feed c)) @ gets (hb_messageCache h) c (Message m) w (c \<in> set (cls h))"
      by (simp add: cs'_def)
    show "ch_closed (cs' (fc_Feed c)) = (c \<in> set (cls h) \<and> c \<notin> set (cls h))"
      using c inv by (auto simp: cs'_def hub_inv_def open_chan_def)
  next
    fix n assume "n \<notin> fc_Feed ` set (cls h @ registers (Message m # evs))"
    then show "cs' n = cs n" unfolding cs'_def by (subst filter_no_feed) auto
  qed (simp_all add: w'_def)
  ultimately show ?thesis using u by blast
qed

lemma closed_step:
  assumes inv: "hub_inv h cs (SourceClosed # evs)"
  shows "\<exists>h' cs' w'. startHub_step None (h, cs, w) = Some (Ret (), h', cs', w') \<and> hub_inv h' cs' evs \<and>
    hub_stepped SourceClosed evs (h, cs, w) (h', cs', w')"
proof -
  define cs' where "cs' = (\<lambda>n. if n \<in> fc_Feed ` set (cls h) then (cs n)\<lparr>ch_closed := True\<rparr> else cs n)"
  define h' where "h' = h\<lparr>hb_isRunning := False, hb_clients := []\<rparr>"
  have d: "distinct (map fc_Feed (cls h @ registers evs))" using inv by (simp add: hub_inv_def)
  then have "distinct (map fc_Feed (cls h))" by simp
  moreover have "\<forall>c \<in> set (cls h). \<not> ch_closed (cs (fc_Feed c))" using inv by (simp add: hub_inv_def open_chan_def)
  moreover have "filter (\<lambda>p. fst p \<notin> set (cls h)) (hb_clients h) = []" by (auto simp: filter_empty_conv cls_def)
  ultimately have "close_feeds (cls h) (h\<lparr>hb_isRunning := False\<rparr>, cs) = (Ret (), h', cs')"
    by (simp add: close_feeds_ok h'_def cs'_def)
  then have u: "startHub_step None (h, cs, w) = Some (Ret (), h', cs', w)"
    by (simp add: startHub_step_def cleanUp_def cls_def)
  have k: "cls h' = []" by (simp add: h'_def cls_def)
  have disj: "fc_Feed c \<notin> fc_Feed ` set (cls h)" if "c \<in> set (registers evs)" for c using d that by auto
  have "hub_inv h' cs' evs" using inv disj unfolding hub_inv_def k by (auto simp: open_chan_def cs'_def)
  moreover have "hub_stepped SourceClosed evs (h, cs, w) (h', cs', w)"
    unfolding hub_stepped_def prod.case k
  proof (intro conjI ballI allI impI)
    fix c assume c: "c \<in> set (cls h @ registers (SourceClosed # evs))"
    show "ch_got (cs' (fc_Feed c)) = ch_got (cs (fc_Feed c)) @ gets (hb_messageCache h) c SourceClosed w (c \<in> set (cls h))"
      by (simp add: cs'_def)
    show "ch_closed (cs' (fc_Feed c)) = (c \<in> set (cls h) \<and> c \<notin> set [])"
      using c inv disj [of c] by (auto simp: cs'_def hub_inv_def open_chan_def)
  next
    fix n assume "n \<notin> fc_Feed ` set (cls h @ registers (SourceClosed # evs))"
    then show "cs' n = cs n" unfolding cs'_def by auto
  qed (cases "hb_messageCache h"; simp add: h'_def)+
  ultimately show ?thesis using u by blast
qed

lemma hub_step_ok:
  assumes inv: "hub_inv h cs (ev # evs)" and ca: "cache_reads (hb_messageCache h)"
  shows "\<exists>h' cs' w'. hub_step ev (h, cs, w) = Some (Ret (), h', cs', w') \<and> hub_inv h' cs' evs \<and>
    hub_stepped ev evs (h, cs, w) (h', cs', w')"
proof (cases ev)
  case (Register c)
  then show ?thesis using register_step [of h cs c evs w] inv ca by simp
next
  case (Unregister c)
  then show ?thesis using unregister_step [of h cs c evs w] inv by simp
next
  case (Message m)
  then show ?thesis using message_step [of h cs m evs w] inv by simp
next
  case SourceClosed
  then show ?thesis using closed_step [of h cs evs w] inv by simp
qed

lemma not_registered:
  "c \<notin> set (registers evs) \<Longrightarrow> delivered ca c evs w False = []" "c \<notin> set (registers evs) \<Longrightarrow> \<not> registered_after c evs False"
proof -
  have "c \<notin> set (registers evs) \<Longrightarrow> delivered ca c evs w False = [] \<and> \<not> registered_after c evs False" for w
  proof (induction evs arbitrary: w)
    case (Cons ev evs)
    then show ?case by (cases ev) (auto simp: cache_serves_def)
  qed simp
  then show "c \<notin> set (registers evs) \<Longrightarrow> delivered ca c evs w False = []" "c \<notin> set (registers evs) \<Longrightarrow> \<not> registered_after c evs False"
    by blast+
qed

lemma still_registers: "still c ev r \<Longrightarrow> r \<or> c \<in> set (registers (ev # evs))"
  by (cases ev) auto

lemma registers_Cons: "c \<in> set (registers evs) \<Longrightarrow> c \<in> set (registers (ev # evs))"
  by (cases ev) auto

lemma registers_new: "c \<in> set (registers (ev # evs)) \<Longrightarrow> c \<in> set (registers evs) \<or> ev = Register c"
  by (cases ev) auto

lemma hub_run_ok:
  assumes "hub_inv h cs evs" and "cache_reads (hb_messageCache h)"
  shows "\<exists>h' cs' w'. hub_run evs (h, cs, w) = Some (Ret (), h', cs', w') \<and>
    hb_isRunning h' = (hb_isRunning h \<and> SourceClosed \<notin> set evs) \<and> distinct (cls h') \<and>
    (\<forall>c. c \<in> set (cls h') \<longleftrightarrow> registered_after c evs (c \<in> set (cls h))) \<and>
    (\<forall>c \<in> set (cls h @ registers evs).
       ch_got (cs' (fc_Feed c)) = ch_got (cs (fc_Feed c)) @ delivered (hb_messageCache h) c evs w (c \<in> set (cls h)) \<and>
       ch_closed (cs' (fc_Feed c)) = (\<not> registered_after c evs (c \<in> set (cls h)) \<and> (c \<in> set (cls h) \<or> evs \<noteq> []))) \<and>
    (\<forall>n. n \<notin> fc_Feed ` set (cls h @ registers evs) \<longrightarrow> cs' n = cs n)"
  using assms
proof (induction evs arbitrary: h cs w)
  case Nil
  have "distinct (cls h)" using Nil by (auto simp: hub_inv_def distinct_map)
  then show ?case using Nil by (auto simp: hub_inv_def open_chan_def)
next
  case (Cons ev evs)
  obtain h1 cs1 w1 where s: "hub_step ev (h, cs, w) = Some (Ret (), h1, cs1, w1)" and i: "hub_inv h1 cs1 evs"
    and st: "hub_stepped ev evs (h, cs, w) (h1, cs1, w1)" using hub_step_ok [OF Cons.prems] by blast
  note st' = st [unfolded hub_stepped_def prod.case]
  have mc: "hb_messageCache h1 = hb_messageCache h" and w1: "w1 = cache_after (hb_messageCache h) ev w"
    and cl: "\<And>c. c \<in> set (cls h1) \<longleftrightarrow> still c ev (c \<in> set (cls h))"
    and rn: "hb_isRunning h1 = (hb_isRunning h \<and> ev \<noteq> SourceClosed)" using st' by blast+
  have g1: "\<And>c. c \<in> set (cls h @ registers (ev # evs)) \<Longrightarrow>
      ch_got (cs1 (fc_Feed c)) = ch_got (cs (fc_Feed c)) @ gets (hb_messageCache h) c ev w (c \<in> set (cls h))"
    and c1: "\<And>c. c \<in> set (cls h @ registers (ev # evs)) \<Longrightarrow> ch_closed (cs1 (fc_Feed c)) = (c \<in> set (cls h) \<and> c \<notin> set (cls h1))"
    and o1: "\<And>n. n \<notin> fc_Feed ` set (cls h @ registers (ev # evs)) \<Longrightarrow> cs1 n = cs n" using st' by blast+
  obtain h2 cs2 w2 where r: "hub_run evs (h1, cs1, w1) = Some (Ret (), h2, cs2, w2)"
    and rn2: "hb_isRunning h2 = (hb_isRunning h1 \<and> SourceClosed \<notin> set evs)" and di: "distinct (cls h2)"
    and cl2: "\<And>c. c \<in> set (cls h2) \<longleftrightarrow> registered_after c evs (c \<in> set (cls h1))"
    and g2: "\<And>c. c \<in> set (cls h1 @ registers evs) \<Longrightarrow>
       ch_got (cs2 (fc_Feed c)) = ch_got (cs1 (fc_Feed c)) @ delivered (hb_messageCache h1) c evs w1 (c \<in> set (cls h1))"
    and c2: "\<And>c. c \<in> set (cls h1 @ registers evs) \<Longrightarrow>
       ch_closed (cs2 (fc_Feed c)) = (\<not> registered_after c evs (c \<in> set (cls h1)) \<and> (c \<in> set (cls h1) \<or> evs \<noteq> []))"
    and o2: "\<And>n. n \<notin> fc_Feed ` set (cls h1 @ registers evs) \<Longrightarrow> cs2 n = cs1 n"
    using Cons.IH [OF i, of w1] Cons.prems(2) unfolding mc by blast
  have d: "distinct (map fc_Feed (cls h @ registers (ev # evs)))" using Cons.prems by (simp add: hub_inv_def)
  have sub: "set (cls h1 @ registers evs) \<subseteq> set (cls h @ registers (ev # evs))"
    using cl still_registers registers_Cons by fastforce
  have out: "fc_Feed c \<notin> fc_Feed ` set (cls h1 @ registers evs)" if "c \<in> set (cls h @ registers (ev # evs))" "c \<notin> set (cls h1 @ registers evs)" for c
    using feed_eq [OF d that(1)] that(2) sub by blast
  show ?case
  proof (intro exI conjI ballI allI impI)
    show "hub_run (ev # evs) (h, cs, w) = Some (Ret (), h2, cs2, w2)" using s r by simp
    show "hb_isRunning h2 = (hb_isRunning h \<and> SourceClosed \<notin> set (ev # evs))" using rn rn2 by auto
    show "distinct (cls h2)" by (rule di)
    fix c show "c \<in> set (cls h2) \<longleftrightarrow> registered_after c (ev # evs) (c \<in> set (cls h))" using cl2 cl by simp
  next
    fix c assume c: "c \<in> set (cls h @ registers (ev # evs))"
    show "ch_got (cs2 (fc_Feed c)) = ch_got (cs (fc_Feed c)) @ delivered (hb_messageCache h) c (ev # evs) w (c \<in> set (cls h))"
    proof (cases "c \<in> set (cls h1 @ registers evs)")
      case True
      then show ?thesis using g2 [OF True] g1 [OF c] by (simp add: mc w1 cl)
    next
      case False
      then have "c \<notin> set (cls h1)" "c \<notin> set (registers evs)" by auto
      then show ?thesis using o2 [OF out [OF c False]] g1 [OF c] cl [of c] by (simp add: not_registered)
    qed
    show "ch_closed (cs2 (fc_Feed c)) = (\<not> registered_after c (ev # evs) (c \<in> set (cls h)) \<and> (c \<in> set (cls h) \<or> ev # evs \<noteq> []))"
    proof (cases "c \<in> set (cls h1 @ registers evs)")
      case True
      have "evs \<noteq> [] \<or> c \<in> set (cls h1)" using True by (cases evs) auto
      then show ?thesis using c2 [OF True] cl [of c] by auto
    next
      case False
      then have n: "c \<notin> set (cls h1)" "c \<notin> set (registers evs)" by auto
      then have "c \<in> set (cls h)" using c registers_new [of c ev evs] cl [of c] by auto
      then show ?thesis using o2 [OF out [OF c False]] c1 [OF c] n cl [of c] by (simp add: not_registered)
    qed
  next
    fix n assume n: "n \<notin> fc_Feed ` set (cls h @ registers (ev # evs))"
    then have "n \<notin> fc_Feed ` set (cls h1 @ registers evs)" using sub by blast
    then show "cs2 n = cs n" using o2 o1 [OF n] by simp
  qed
qed

lemma hub_run_delivers:
  fixes ca :: "'w cacher option" and w :: 'w
  assumes d: "distinct (map fc_Feed (registers evs))"
    and fresh: "\<forall>c \<in> set (registers evs). cs (fc_Feed c) = \<lparr>ch_closed = False, ch_listening = True, ch_got = []\<rparr>"
    and ca: "\<forall>a w. ca = Some a \<longrightarrow> fst (ca_GetMessages a w) \<noteq> Panic"
  obtains h' cs' w' where "hub_run evs ((NewFeedHub ca)\<lparr>hb_isRunning := True\<rparr>, cs, w) = Some (Ret (), h', cs', w')"
    "hb_isRunning h' = (SourceClosed \<notin> set evs)" "distinct (cls h')" "\<And>c. c \<in> set (cls h') \<longleftrightarrow> registered_after c evs False"
    "\<And>c. c \<in> set (registers evs) \<Longrightarrow> ch_got (cs' (fc_Feed c)) = delivered ca c evs w False"
    "\<And>c. c \<in> set (registers evs) \<Longrightarrow> ch_closed (cs' (fc_Feed c)) = (\<not> registered_after c evs False)"
proof -
  let ?h = "(NewFeedHub ca)\<lparr>hb_isRunning := True\<rparr>"
  have h: "cls ?h = []" "hb_messageCache ?h = ca" "hb_isRunning ?h" by (simp_all add: NewFeedHub_def cls_def)
  have inv: "hub_inv ?h cs evs" using d fresh unfolding hub_inv_def h by (simp add: open_chan_def)
  obtain h' cs' w' where r: "hub_run evs (?h, cs, w) = Some (Ret (), h', cs', w')"
    "hb_isRunning h' = (SourceClosed \<notin> set evs)" "distinct (cls h')" "\<And>c. c \<in> set (cls h') \<longleftrightarrow> registered_after c evs False"
    and g: "\<And>c. c \<in> set (registers evs) \<Longrightarrow> ch_got (cs' (fc_Feed c)) = ch_got (cs (fc_Feed c)) @ delivered ca c evs w False"
    and cd: "\<And>c. c \<in> set (registers evs) \<Longrightarrow> ch_closed (cs' (fc_Feed c)) = (\<not> registered_after c evs False \<and> evs \<noteq> [])"
    using hub_run_ok [OF inv, of w] ca unfolding h cache_reads_def by auto
  have ne: "evs \<noteq> []" if "c \<in> set (registers evs)" for c using that by (cases evs) auto
  show ?thesis by (rule that [OF r]) (use g cd ne fresh in auto)
qed

text \<open>
  C6. In every history of a hub that runs, whose clients have channels of their own and listen, no step
  blocks or panics, and every client receives, in order: the messages of the cache at the moment it
  registers, then every message of the source until it is unregistered or the source is closed. Its feed
  is closed exactly when it is not registered any more, the hub runs as long as the source is not closed,
  and the status counts the registered external clients.
\<close>

theorem hub_delivers:
  fixes ca :: "'w cacher option" and w :: 'w and s :: "'c websocketSource"
  assumes d: "distinct (map fc_Feed (registers evs))"
    and fresh: "\<forall>c \<in> set (registers evs). cs (fc_Feed c) = \<lparr>ch_closed = False, ch_listening = True, ch_got = []\<rparr>"
    and ca: "\<forall>a w. ca = Some a \<longrightarrow> fst (ca_GetMessages a w) \<noteq> Panic"
  shows "\<exists>h' cs' w'. hub_run evs ((NewFeedHub ca)\<lparr>hb_isRunning := True\<rparr>, cs, w) = Some (Ret (), h', cs', w') \<and>
    IsRunning h' = (SourceClosed \<notin> set evs) \<and>
    (\<forall>c \<in> set (registers evs). ch_got (cs' (fc_Feed c)) = delivered ca c evs w False \<and>
       ch_closed (cs' (fc_Feed c)) = (\<not> registered_after c evs False)) \<and>
    ws_ConnectedClients (GetWebsocketStatus s h') =
      of_nat (card {c \<in> set (registers evs). registered_after c evs False \<and> \<not> fc_IsInternal c})"
proof -
  obtain h' cs' w' where r: "hub_run evs ((NewFeedHub ca)\<lparr>hb_isRunning := True\<rparr>, cs, w) = Some (Ret (), h', cs', w')"
    "hb_isRunning h' = (SourceClosed \<notin> set evs)" "distinct (cls h')" "\<And>c. c \<in> set (cls h') \<longleftrightarrow> registered_after c evs False"
    and g: "\<And>c. c \<in> set (registers evs) \<Longrightarrow> ch_got (cs' (fc_Feed c)) = delivered ca c evs w False"
    "\<And>c. c \<in> set (registers evs) \<Longrightarrow> ch_closed (cs' (fc_Feed c)) = (\<not> registered_after c evs False)"
    by (rule hub_run_delivers [OF d fresh ca, of w]) blast
  have "getExternalFeedClients h' = card (set (filter (\<lambda>c. \<not> fc_IsInternal c) (cls h')))"
    using distinct_card [of "filter (\<lambda>c. \<not> fc_IsInternal c) (cls h')"] r(3) unfolding getExternalFeedClients_def cls_def by simp
  also have "set (filter (\<lambda>c. \<not> fc_IsInternal c) (cls h')) = {c \<in> set (registers evs). registered_after c evs False \<and> \<not> fc_IsInternal c}"
    using r(4) not_registered(2) [of _ evs] by auto
  finally have n: "getExternalFeedClients h' = card {c \<in> set (registers evs). registered_after c evs False \<and> \<not> fc_IsInternal c}" .
  show ?thesis using r g by (auto simp: IsRunning_def GetWebsocketStatus_def n)
qed

text \<open>A cache in the world, two clients, and the messages each of them gets.\<close>

definition list_cacher :: "bytes list cacher" where
  "list_cacher = \<lparr>ca_RemoveMessage = (\<lambda>i w. w), ca_AddMessage = (\<lambda>m w. w @ [m]), ca_GetMessages = (\<lambda>w. (Ret w, w))\<rparr>"

definition two_clients :: "hub_event list" where
  "two_clients = [Register \<lparr>fc_Feed = 0, fc_IsInternal = True\<rparr>, Message [7], Register \<lparr>fc_Feed = 1, fc_IsInternal = False\<rparr>,
     Message [8], Unregister \<lparr>fc_Feed = 0, fc_IsInternal = True\<rparr>, Message [9]]"

theorem hub_delivers_witness:
  "\<exists>h' cs' w'. hub_run two_clients ((NewFeedHub (Some list_cacher))\<lparr>hb_isRunning := True\<rparr>,
      (\<lambda>n. \<lparr>ch_closed = False, ch_listening = True, ch_got = []\<rparr>), []) = Some (Ret (), h', cs', w') \<and>
    ch_got (cs' 0) = [[7], [8]] \<and> ch_got (cs' 1) = [[7], [8], [9]] \<and> ch_closed (cs' 0) \<and> \<not> ch_closed (cs' 1) \<and>
    ws_ConnectedClients (GetWebsocketStatus demo_source h') = 1"
proof -
  have "{c \<in> set (registers two_clients). registered_after c two_clients False \<and> \<not> fc_IsInternal c} = {\<lparr>fc_Feed = 1, fc_IsInternal = False\<rparr>}"
    by (auto simp: two_clients_def)
  then show ?thesis
    using hub_delivers [of two_clients "\<lambda>n. \<lparr>ch_closed = False, ch_listening = True, ch_got = []\<rparr>" "Some list_cacher" "[]" demo_source]
    by (auto simp: two_clients_def list_cacher_def cache_serves_def)
qed

text \<open>One client that listens, and a hub without a cache: what it gets is what comes after its registration.\<close>

lemma hub_one_client:
  fixes cs :: "nat \<Rightarrow> chan" and c :: HubFeedClient and w :: 'w
  assumes fresh: "cs (fc_Feed c) = \<lparr>ch_closed = False, ch_listening = True, ch_got = []\<rparr>"
  obtains h' cs' w' where "hub_run (map Message early @ Register c # map Message ms @ (if fin then [SourceClosed] else []))
      ((NewFeedHub None)\<lparr>hb_isRunning := True\<rparr>, cs, w) = Some (Ret (), h', cs', w')"
    "ch_got (cs' (fc_Feed c)) = ms" "ch_closed (cs' (fc_Feed c)) = fin" "hb_isRunning h' = (\<not> fin)"
proof -
  let ?evs = "map Message early @ Register c # map Message ms @ (if fin then [SourceClosed] else [])"
  have reg: "registers (map Message ms @ tl) = registers tl" for ms tl by (induction ms) auto
  have del: "delivered None c (map Message ms @ tl) w True = ms @ delivered None c tl w True"
    "delivered None c (map Message ms @ tl) w False = delivered None c tl w False" for ms tl and w :: 'w by (induction ms) auto
  have ra: "registered_after c (map Message ms @ tl) b = registered_after c tl b" for ms tl b by (induction ms) auto
  have r: "registers ?evs = [c]" by (simp add: reg)
  obtain h' cs' w' where H: "hub_run ?evs ((NewFeedHub None)\<lparr>hb_isRunning := True\<rparr>, cs, w) = Some (Ret (), h', cs', w')"
    "hb_isRunning h' = (SourceClosed \<notin> set ?evs)"
    "\<And>c. c \<in> set (registers ?evs) \<Longrightarrow> ch_got (cs' (fc_Feed c)) = delivered None c ?evs w False"
    "\<And>c. c \<in> set (registers ?evs) \<Longrightarrow> ch_closed (cs' (fc_Feed c)) = (\<not> registered_after c ?evs False)"
    by (rule hub_run_delivers [of ?evs cs "None :: 'w cacher option" w]) (use fresh in \<open>auto simp: r\<close>)
  show ?thesis
    by (rule that [OF H(1)]) (use H(2-4) in \<open>auto simp: r del ra cache_serves_def split: if_splits\<close>)
qed



end
