(* ===== verification/ClientFeed.thy ===== *)
theory ClientFeed
  imports FeedHub
begin

text \<open>
  \<open>internal/feed/client.go\<close>: a local client that follows the feed over a websocket of its own, and the
  receiving side of the auto approver.

  A client feed has two goroutines, \<open>Start\<close> and \<open>Listen\<close>, which share the ready state and the channel
  \<open>closeConn\<close>, and a feed channel that the hub writes and closes. \<open>client_step\<close> is their step relation,
  together with the hub's closing of the feed; each action of a goroutine is a definition of its own.
\<close>

section \<open>client.go\<close>

(* internal/feed/client.go:28-38 clientFeedImpl *)
record 'c clientFeed =
  kf_client :: HubFeedClient
  kf_conn :: 'c
  kf_pongWait :: int
  kf_writeWait :: int
  kf_pingPeriod :: int
  kf_readyState :: conn_state

(* internal/feed/client.go:40-54 NewClientFeed *)
definition NewClientFeed :: "'c \<Rightarrow> WebSocketConfig \<Rightarrow> nat \<Rightarrow> chans \<Rightarrow> 'c clientFeed \<times> chans" where
  "NewClientFeed conn config fresh cs =
     (case NewHubFeedClient fresh False cs of (client, cs) \<Rightarrow>
       (\<lparr>kf_client = client, kf_conn = conn,
         kf_pongWait = duration_of (PongWait config) Second, kf_writeWait = duration_of (WriteWait config) Second,
         kf_pingPeriod = duration_of (PingPeriod config) Second, kf_readyState = Open\<rparr>, cs))"

(* internal/feed/client.go:56-59 clientFeedImpl.GetFeedClient *)
definition kf_GetFeedClient :: "'c clientFeed \<Rightarrow> HubFeedClient" where
  "kf_GetFeedClient f = kf_client f"

text \<open>The handlers of the connection. A pong is answered with a ping, a ping with a pong.\<close>

definition pong_handler :: "('c, 'w) source_lib \<Rightarrow> 'c clientFeed \<Rightarrow> string \<Rightarrow> 'w \<Rightarrow> gerr option \<times> 'w" where
  "pong_handler lib f message w =
     (let now = cl_now (sl_clock lib) w in
      (case wc_SetReadDeadline (sl_conn lib) (kf_conn f) (now + kf_pongWait f) w of
         (Some err, w) \<Rightarrow> (Some err, w)
       | (None, w) \<Rightarrow>
           wc_WriteControl (sl_conn lib) (kf_conn f) PingMessage (bytes_of message) (cl_now (sl_clock lib) w + kf_writeWait f) w))"

definition ping_handler :: "('c, 'w) source_lib \<Rightarrow> 'c clientFeed \<Rightarrow> string \<Rightarrow> 'w \<Rightarrow> gerr option \<times> 'w" where
  "ping_handler lib f message w =
     (let now = cl_now (sl_clock lib) w in
      (case wc_SetWriteDeadline (sl_conn lib) (kf_conn f) (now + kf_pingPeriod f) w of
         (Some err, w) \<Rightarrow> (Some err, w)
       | (None, w) \<Rightarrow>
           wc_WriteControl (sl_conn lib) (kf_conn f) PongMessage (bytes_of message) (cl_now (sl_clock lib) w + kf_writeWait f) w))"

(* internal/feed/client.go:118-134 clientFeedImpl.setHandlers *)
definition setHandlers :: "('c, 'w) source_lib \<Rightarrow> 'c clientFeed \<Rightarrow> 'w \<Rightarrow> 'w" where
  "setHandlers lib f w =
     wc_SetPingHandler (sl_conn lib) (kf_conn f) (ping_handler lib f)
       (wc_SetPongHandler (sl_conn lib) (kf_conn f) (pong_handler lib f) w)"

text \<open>A tick of \<open>Start\<close>: true if the ping was sent.\<close>

(* internal/feed/client.go:79-88 clientFeedImpl.Start: a tick *)
definition client_ping :: "('c, 'w) source_lib \<Rightarrow> 'c clientFeed \<times> 'w \<Rightarrow> bool \<times> 'c clientFeed \<times> 'w" where
  "client_ping lib fw =
     (case fw of (f, w) \<Rightarrow>
      (case wc_SetWriteDeadline (sl_conn lib) (kf_conn f) (cl_now (sl_clock lib) w + kf_writeWait f) w of
         (_, w) \<Rightarrow>
           (case wc_WriteControl (sl_conn lib) (kf_conn f) PingMessage [] (cl_now (sl_clock lib) w + kf_pingPeriod f) w of
              (None, w) \<Rightarrow> (True, f, w)
            | (Some err, w) \<Rightarrow> (False, f\<lparr>kf_readyState := Closed\<rparr>, w))))"

(* internal/feed/client.go:89-94 clientFeedImpl.Start: closeConn *)
definition client_close_frame :: "('c, 'w) source_lib \<Rightarrow> 'c clientFeed \<Rightarrow> 'w \<Rightarrow> 'w" where
  "client_close_frame lib f w =
     snd (wc_WriteControl (sl_conn lib) (kf_conn f) CloseMessage [] (cl_now (sl_clock lib) w + kf_writeWait f) w)"

(* internal/feed/client.go:68-72 clientFeedImpl.Start: deferred *)
definition client_end :: "('c, 'w) source_lib \<Rightarrow> 'c clientFeed \<times> 'w \<Rightarrow> 'c clientFeed \<times> 'w" where
  "client_end lib fw =
     (case fw of (f, w) \<Rightarrow> (f\<lparr>kf_readyState := Closed\<rparr>, snd (wc_Close (sl_conn lib) (kf_conn f) w)))"

(* internal/feed/client.go:110-114 clientFeedImpl.Listen: a message *)
definition client_write :: "('c, 'w) source_lib \<Rightarrow> 'c clientFeed \<Rightarrow> bytes \<Rightarrow> 'w \<Rightarrow> 'w" where
  "client_write lib f message w = snd (wc_WriteMessage (sl_conn lib) (kf_conn f) TextMessage message w)"

text \<open>
  Where the goroutines are: \<open>Start\<close> selects, or is about to unregister after a failed ping, or has
  returned; \<open>Listen\<close> receives, or sends into \<open>closeConn\<close>, or has returned.
\<close>

datatype start_pc = Selecting | Unregistering | Start_done
datatype client_pc = Receiving | Signalling | Listen_done

record 'c client_state =
  ks_feed :: "'c clientFeed"
  ks_start :: start_pc
  ks_listen :: client_pc
  ks_chan_closed :: bool

text \<open>
  \<open>unregister\<close> closes the feed channel unless the hub has done so before, \<open>hub_closes\<close> is the hub on its
  own; \<open>closes\<close> is the rendezvous on \<open>closeConn\<close>, which has no buffer.
\<close>

(* internal/feed/client.go:61-116 clientFeedImpl.Start, clientFeedImpl.Listen *)
inductive client_step :: "('c, 'w) source_lib \<Rightarrow> 'c client_state \<times> 'w \<Rightarrow> 'c client_state \<times> 'w \<Rightarrow> bool"
  for lib :: "('c, 'w) source_lib"
where
  ping: "ks_start k = Selecting \<Longrightarrow> client_ping lib (ks_feed k, w) = (ok, f, w') \<Longrightarrow>
    client_step lib (k, w) (k\<lparr>ks_feed := f, ks_start := (if ok then Selecting else Unregistering)\<rparr>, w')"
| unregister: "ks_start k = Unregistering \<Longrightarrow> client_end lib (ks_feed k, w) = (f, w') \<Longrightarrow>
    client_step lib (k, w) (k\<lparr>ks_feed := f, ks_start := Start_done, ks_chan_closed := True\<rparr>, w')"
| receive: "ks_listen k = Receiving \<Longrightarrow> \<not> ks_chan_closed k \<Longrightarrow>
    client_step lib (k, w) (k, client_write lib (ks_feed k) m w)"
| hub_closes: "\<not> ks_chan_closed k \<Longrightarrow> client_step lib (k, w) (k\<lparr>ks_chan_closed := True\<rparr>, w)"
| feed_closed: "ks_listen k = Receiving \<Longrightarrow> ks_chan_closed k \<Longrightarrow>
    client_step lib (k, w) (k\<lparr>ks_listen := (if kf_readyState (ks_feed k) = Open then Signalling else Listen_done)\<rparr>, w)"
| closes: "ks_start k = Selecting \<Longrightarrow> ks_listen k = Signalling \<Longrightarrow>
    client_end lib (ks_feed k, client_close_frame lib (ks_feed k) w) = (f, w') \<Longrightarrow>
    client_step lib (k, w) (k\<lparr>ks_feed := f, ks_start := Start_done, ks_listen := Listen_done\<rparr>, w')"

inductive_cases client_stepE: "client_step lib kw kw'"

definition client_init :: "'c clientFeed \<Rightarrow> 'c client_state" where
  "client_init f = \<lparr>ks_feed = f, ks_start = Selecting, ks_listen = Receiving, ks_chan_closed = False\<rparr>"

inductive client_reach :: "('c, 'w) source_lib \<Rightarrow> 'c client_state \<times> 'w \<Rightarrow> 'c client_state \<times> 'w \<Rightarrow> bool"
  for lib :: "('c, 'w) source_lib" and start :: "'c client_state \<times> 'w"
where
  init: "client_reach lib start start"
| step: "client_reach lib start kw \<Longrightarrow> client_step lib kw kw' \<Longrightarrow> client_reach lib start kw'"

section \<open>Progress\<close>

text \<open>How the two goroutines, the channel and the ready state fit together.\<close>

definition client_inv :: "'c client_state \<Rightarrow> bool" where
  "client_inv k \<longleftrightarrow> (kf_readyState (ks_feed k) = Open \<longleftrightarrow> ks_start k = Selecting) \<and>
     kf_readyState (ks_feed k) \<noteq> Connecting \<and>
     (ks_listen k \<noteq> Receiving \<longrightarrow> ks_chan_closed k) \<and>
     (ks_start k = Start_done \<longrightarrow> ks_chan_closed k) \<and>
     (ks_listen k = Listen_done \<longrightarrow> ks_start k \<noteq> Selecting)"

lemma client_ping_state: "client_ping lib (f, w) = (ok, f', w') \<Longrightarrow> f' = (if ok then f else f\<lparr>kf_readyState := Closed\<rparr>)"
  by (auto simp: client_ping_def split: prod.splits option.splits)

lemma client_end_state: "client_end lib (f, w) = (f', w') \<Longrightarrow> kf_readyState f' = Closed"
  by (auto simp: client_end_def)

lemma client_step_inv:
  assumes "client_step lib kw kw'" and inv: "client_inv (fst kw)"
  shows "client_inv (fst kw')"
  using assms
proof cases
  case (ping k w ok f w')
  then show ?thesis using inv client_ping_state [OF ping(4)] by (auto simp: client_inv_def)
next
  case (unregister k w f w')
  then show ?thesis using inv client_end_state [OF unregister(4)] by (auto simp: client_inv_def)
next
  case (closes k w f w')
  then show ?thesis using inv client_end_state [OF closes(5)] by (auto simp: client_inv_def)
qed (use inv in \<open>auto simp: client_inv_def\<close>)

lemma client_reach_inv: "client_reach lib (client_init f, w) kw \<Longrightarrow> kf_readyState f = Open \<Longrightarrow> client_inv (fst kw)"
  by (induction rule: client_reach.induct) (auto simp: client_init_def client_inv_def dest: client_step_inv)

lemma client_stuck:
  assumes inv: "client_inv k" and stuck: "\<forall>kw'. \<not> client_step lib (k, w) kw'"
  shows "ks_chan_closed k \<and> ks_start k = Start_done \<and> ks_listen k \<noteq> Receiving"
proof -
  have "ks_chan_closed k" using stuck hub_closes by metis
  moreover have "ks_listen k \<noteq> Receiving" using stuck feed_closed \<open>ks_chan_closed k\<close> by metis
  moreover have "ks_start k \<noteq> Selecting" using stuck ping by (metis prod.exhaust)
  moreover have "ks_start k \<noteq> Unregistering" using stuck unregister by (metis prod.exhaust)
  ultimately show ?thesis by (cases "ks_start k") auto
qed


text \<open>
  The exceptional case is reached: the hub closes the feed, \<open>Listen\<close> sees the connection still open and
  sends into \<open>closeConn\<close>, but the next ping fails and \<open>Start\<close> returns without receiving. \<open>Listen\<close> is then
  blocked for good.
\<close>

theorem client_listen_leaks:
  assumes new: "fst (NewClientFeed conn conf fresh cs) = f"
    and fails: "client_ping lib (f, w0) = (False, f', w1)"
  shows "\<exists>k w. client_reach lib (client_init f, w0) (k, w) \<and> ks_listen k = Signalling \<and> ks_start k = Start_done \<and>
    (\<forall>kw'. \<not> client_step lib (k, w) kw')"
proof -
  have o: "kf_readyState f = Open" using new by (auto simp: NewClientFeed_def split: prod.splits)
  define k1 where "k1 = (client_init f)\<lparr>ks_chan_closed := True\<rparr>"
  define k2 where "k2 = k1\<lparr>ks_listen := Signalling\<rparr>"
  define k3 where "k3 = k2\<lparr>ks_feed := f', ks_start := Unregistering\<rparr>"
  obtain f2 w2 where e: "client_end lib (f', w1) = (f2, w2)" by fastforce
  define k4 where "k4 = k3\<lparr>ks_feed := f2, ks_start := Start_done, ks_chan_closed := True\<rparr>"
  have "client_step lib (client_init f, w0) (k1, w0)" unfolding k1_def by (rule hub_closes) (simp add: client_init_def)
  moreover have "client_step lib (k1, w0) (k2, w0)"
    using feed_closed [of k1 lib w0] by (simp add: k2_def k1_def client_init_def o)
  moreover have "client_step lib (k2, w0) (k3, w1)"
    using ping [of k2 lib w0 False f' w1] fails by (simp add: k3_def k2_def k1_def client_init_def)
  moreover have "client_step lib (k3, w1) (k4, w2)"
    unfolding k4_def by (rule unregister) (simp_all add: k3_def e)
  ultimately have "client_reach lib (client_init f, w0) (k4, w2)" by (meson client_reach.intros)
  moreover have s: "ks_listen k4 = Signalling" "ks_start k4 = Start_done" "ks_chan_closed k4" by (simp_all add: k4_def k3_def k2_def)
  moreover have "\<not> client_step lib (k4, w2) kw'" for kw'
    by (rule notI, erule client_stepE) (use s in auto)
  ultimately show ?thesis by blast
qed

section \<open>The receiving side of the auto approver\<close>

text \<open>What a goroutine has received: messages, and at last perhaps the end of the channel, \<open>None\<close>. Each message starts a goroutine.\<close>

(* internal/autoapprover/auto_approver.go:50-65 autoActionApprover.Listen *)
fun approver_Listen :: "(bytes \<Rightarrow> 'g) \<Rightarrow> bytes option list \<Rightarrow> 'g list \<times> bool" where
  "approver_Listen go [] = ([], True)"
| "approver_Listen go (None # rs) = ([], False)"
| "approver_Listen go (Some message # rs) = (case approver_Listen go rs of (gs, running) \<Rightarrow> (go message # gs, running))"

(* internal/autoapprover/auto_approver.go:67-70 autoActionApprover.Stop *)
definition approver_Stop :: "HubFeedClient \<Rightarrow> chans \<Rightarrow> unit ret \<times> chans" where
  "approver_Stop client cs = chan_close (fc_Feed client) cs"

(* internal/autoapprover/auto_approver.go:72-74 autoActionApprover.GetFeedClient *)
definition approver_GetFeedClient :: "HubFeedClient \<Rightarrow> HubFeedClient" where
  "approver_GetFeedClient client = client"

definition receives :: "chan \<Rightarrow> bytes option list" where
  "receives ch = map Some (ch_got ch) @ (if ch_closed ch then [None] else [])"

lemma approver_Listen_eq: "approver_Listen go (receives ch) = (map go (ch_got ch), \<not> ch_closed ch)"
proof -
  have "approver_Listen go (map Some ms @ (if b then [None] else [])) = (map go ms, \<not> b)" for ms b by (induction ms) auto
  then show ?thesis by (simp add: receives_def)
qed

text \<open>
  The auto approver handles, each in a goroutine and in this order, exactly the messages the source delivers
  while its client is registered; messages that arrive between the start of the hub and its registration are
  not among them when there is no cache, as is always so with automatic approval. It ends when the source
  is closed.
\<close>

theorem approver_handles:
  fixes go :: "bytes \<Rightarrow> 'g" and w :: 'w
  assumes fresh: "cs (fc_Feed c) = \<lparr>ch_closed = False, ch_listening = True, ch_got = []\<rparr>"
  shows "\<exists>h' cs' w'. hub_run (map Message early @ Register c # map Message ms @ (if fin then [SourceClosed] else []))
      ((NewFeedHub None)\<lparr>hb_isRunning := True\<rparr>, cs, w) = Some (Ret (), h', cs', w') \<and>
    approver_Listen go (receives (cs' (fc_Feed c))) = (map go ms, \<not> fin)"
proof -
  obtain h' cs' w' where H: "hub_run (map Message early @ Register c # map Message ms @ (if fin then [SourceClosed] else []))
      ((NewFeedHub None)\<lparr>hb_isRunning := True\<rparr>, cs, w) = Some (Ret (), h', cs', w')"
    "ch_got (cs' (fc_Feed c)) = ms" "ch_closed (cs' (fc_Feed c)) = fin"
    by (rule hub_one_client [where cs = cs and c = c, OF fresh])
  then show ?thesis by (simp add: approver_Listen_eq)
qed

section \<open>Concrete runs\<close>


definition no_ping_lib :: "(nat, script) source_lib" where
  "no_ping_lib = demo_source_lib\<lparr>sl_conn := (sl_conn demo_source_lib)\<lparr>wc_WriteControl := (\<lambda>c k b d w. (Some (Foreign 3), w))\<rparr>\<rparr>"

theorem client_listen_leaks_witness:
  "\<exists>k w. client_reach no_ping_lib (client_init (fst (NewClientFeed 1 demo_ws_conf 3 (\<lambda>n. \<lparr>ch_closed = False, ch_listening = False, ch_got = []\<rparr>))), 0, [], []) (k, w) \<and>
    ks_listen k = Signalling \<and> (\<forall>kw'. \<not> client_step no_ping_lib (k, w) kw')"
proof -
  let ?f = "fst (NewClientFeed (1 :: nat) demo_ws_conf 3 (\<lambda>n. \<lparr>ch_closed = False, ch_listening = False, ch_got = []\<rparr>))"
  have "client_ping no_ping_lib (?f, 0, [], []) = (False, ?f\<lparr>kf_readyState := Closed\<rparr>, 0, [], [])"
    by (simp add: client_ping_def no_ping_lib_def demo_source_lib_def)
  from client_listen_leaks [OF refl this] show ?thesis by blast
qed

theorem approver_handles_witness:
  "\<exists>h' cs' w'. hub_run [Message [1], Register \<lparr>fc_Feed = 0, fc_IsInternal = True\<rparr>, Message [2]]
      ((NewFeedHub None)\<lparr>hb_isRunning := True\<rparr>, (\<lambda>n. \<lparr>ch_closed = False, ch_listening = True, ch_got = []\<rparr>), ()) = Some (Ret (), h', cs', w') \<and>
    approver_Listen id (receives (cs' 0)) = ([[2]], True)"
  using approver_handles [of "\<lambda>n. \<lparr>ch_closed = False, ch_listening = True, ch_got = []\<rparr>" "\<lparr>fc_Feed = 0, fc_IsInternal = True\<rparr>" "[[1]]" "[[2]]" False "()" id]
  by simp

end
