(* ===== verification/KVStore.thy ===== *)
theory KVStore
  imports Signer Config
begin

text \<open>
  \<open>internal/util/kvstore.go\<close> and \<open>internal/util/filestore.go\<close>: the key-value store that holds the agent's
  data, as an interface with its contract, and the store in a JSON file.

  A Go \<open>map[string][]byte\<close> is an association list, or \<open>None\<close> for the nil map, which can be read but not
  written: an assignment to it panics. \<open>encoding/json\<close> and the file system are parameters.
\<close>

section \<open>kvstore.go\<close>

type_synonym kvmap = "(string \<times> bytes) list"

(* internal/util/kvstore.go:3-10 KVStore *)
record 'w kv_api =
  kv_Get :: "string \<Rightarrow> 'w \<Rightarrow> bytes res ret \<times> 'w"
  kv_Set :: "string \<Rightarrow> bytes \<Rightarrow> 'w \<Rightarrow> gerr option ret \<times> 'w"
  kv_Del :: "string \<Rightarrow> 'w \<Rightarrow> gerr option ret \<times> 'w"
  kv_Init :: "'w \<Rightarrow> gerr option ret \<times> 'w"

definition map_put :: "string \<Rightarrow> bytes \<Rightarrow> kvmap \<Rightarrow> kvmap" where
  "map_put k v m = (k, v) # filter (\<lambda>e. fst e \<noteq> k) m"

definition map_del :: "string \<Rightarrow> kvmap \<Rightarrow> kvmap" where
  "map_del k m = filter (\<lambda>e. fst e \<noteq> k) m"

lemma map_of_del [simp]: "map_of (map_del k m) = (map_of m)(k := None)"
  by (induction m) (auto simp: map_del_def)

lemma map_of_put [simp]: "map_of (map_put k v m) = (map_of m)(k \<mapsto> v)"
  using map_of_del [of k m] by (simp add: map_put_def map_del_def)

text \<open>
  The contract: \<open>view w\<close> are the entries the store holds in the world \<open>w\<close>. Reading changes nothing and
  tells the truth when it succeeds or reports \<open>ErrKVNotFound\<close>; a write that succeeds is made, and one
  that fails is made or not made. \<open>key_ok\<close> are the keys the store can hold.
\<close>

locale kv_store =
  fixes Get :: "string \<Rightarrow> 'w \<Rightarrow> bytes res ret \<times> 'w"
    and Set :: "string \<Rightarrow> bytes \<Rightarrow> 'w \<Rightarrow> gerr option ret \<times> 'w"
    and Del :: "string \<Rightarrow> 'w \<Rightarrow> gerr option ret \<times> 'w"
    and view :: "'w \<Rightarrow> string \<Rightarrow> bytes option"
    and inv :: "'w \<Rightarrow> bool"
    and key_ok :: "string \<Rightarrow> bool"
  assumes get: "inv w \<Longrightarrow> Get k w = (r, w') \<Longrightarrow> inv w' \<and> view w' = view w \<and> r \<noteq> Panic \<and>
      (\<forall>v. r = Ret (Inr v) \<longrightarrow> view w k = Some v) \<and> (r = Ret (Inl KVNotFound) \<longrightarrow> view w k = None)"
    and set: "inv w \<Longrightarrow> key_ok k \<Longrightarrow> Set k v w = (q, w') \<Longrightarrow> inv w' \<and> q \<noteq> Panic \<and>
      (q = Ret None \<longrightarrow> view w' = (view w)(k \<mapsto> v)) \<and> (view w' = view w \<or> view w' = (view w)(k \<mapsto> v))"
    and del: "inv w \<Longrightarrow> key_ok k \<Longrightarrow> Del k w = (q, w') \<Longrightarrow> inv w' \<and> q \<noteq> Panic \<and>
      (q = Ret None \<longrightarrow> view w' = (view w)(k := None)) \<and> (view w' = view w \<or> view w' = (view w)(k := None))"
begin

lemma get_after_set:
  assumes "inv w" "key_ok k" "Set k v w = (Ret None, w1)" "Get k w1 = (r, w2)"
  shows "r = Ret (Inr v) \<or> (\<exists>e. r = Ret (Inl e) \<and> e \<noteq> KVNotFound)"
proof -
  have "inv w1" "view w1 k = Some v" using set [OF assms(1,2,3)] by auto
  moreover obtain x where "r = Ret x" using get [OF _ assms(4)] calculation by (cases r) auto
  ultimately show ?thesis using get [OF _ assms(4)] by (cases x) auto
qed

lemma get_after_del:
  assumes "inv w" "key_ok k" "Del k w = (Ret None, w1)" "Get k w1 = (r, w2)"
  shows "\<exists>e. r = Ret (Inl e)"
proof -
  have "inv w1" "view w1 k = None" using del [OF assms(1,2,3)] by auto
  moreover obtain x where "r = Ret x" using get [OF _ assms(4)] calculation by (cases r) auto
  ultimately show ?thesis using get [OF _ assms(4)] by (cases x) auto
qed

lemma set_keeps_others:
  assumes "inv w" "key_ok k" "Set k v w = (r, w')" "j \<noteq> k"
  shows "view w' j = view w j"
  using set [OF assms(1,2,3)] assms(4) by auto

end

section \<open>filestore.go\<close>

text \<open>
  \<open>json.Unmarshal\<close> into a map adds to the map it is given; \<open>null\<close> makes it nil. What is left after an
  error is part of the result.
\<close>

record json_map =
  jm_Marshal :: "kvmap option \<Rightarrow> bytes res"
  jm_Unmarshal :: "bytes \<Rightarrow> kvmap option \<Rightarrow> gerr option \<times> kvmap option"

record 'f os_api =
  os_ReadFile :: "string \<Rightarrow> 'f \<Rightarrow> bytes res \<times> 'f"
  os_WriteFile :: "string \<Rightarrow> bytes \<Rightarrow> 'f \<Rightarrow> gerr option \<times> 'f"
  os_IsNotExist :: "gerr \<Rightarrow> bool"

(* internal/util/filestore.go:20-24 FileStore *)
record FileStore =
  fs_fileName :: string
  fs_data :: "kvmap option"

(* internal/util/filestore.go:11-18 NewFileStore *)
definition NewFileStore :: "string \<Rightarrow> FileStore" where
  "NewFileStore fileName = \<lparr>fs_fileName = fileName, fs_data = Some []\<rparr>"

(* internal/util/filestore.go:45-54 FileStore.save *)
definition FileStore_save :: "json_map \<Rightarrow> 'f os_api \<Rightarrow> FileStore \<times> 'f \<Rightarrow> gerr option ret \<times> FileStore \<times> 'f" where
  "FileStore_save js os sf =
     (case sf of (s, f) \<Rightarrow>
      (case jm_Marshal js (fs_data s) of
         Inl err \<Rightarrow> (Ret (Some err), s, f)
       | Inr b \<Rightarrow> (case os_WriteFile os (fs_fileName s) b f of (err, f) \<Rightarrow> (Ret err, s, f))))"

(* internal/util/filestore.go:26-43 FileStore.Init *)
definition FileStore_Init :: "json_map \<Rightarrow> 'f os_api \<Rightarrow> FileStore \<times> 'f \<Rightarrow> gerr option ret \<times> FileStore \<times> 'f" where
  "FileStore_Init js os sf =
     (case sf of (s, f) \<Rightarrow>
      (case os_ReadFile os (fs_fileName s) f of
         (Inl err, f) \<Rightarrow> if os_IsNotExist os err then FileStore_save js os (s, f) else (Ret (Some err), s, f)
       | (Inr b, f) \<Rightarrow>
           (case jm_Unmarshal js b (fs_data s) of (err, data) \<Rightarrow> (Ret err, s\<lparr>fs_data := data\<rparr>, f))))"

(* internal/util/filestore.go:56-65 FileStore.Get *)
definition FileStore_Get :: "string \<Rightarrow> FileStore \<times> 'f \<Rightarrow> bytes res ret \<times> FileStore \<times> 'f" where
  "FileStore_Get key sf =
     (case fs_data (fst sf) of
        Some m \<Rightarrow> (case map_of m key of Some data \<Rightarrow> (Ret (Inr data), sf) | None \<Rightarrow> (Ret (Inl ErrKVNotFound), sf))
      | None \<Rightarrow> (Ret (Inl ErrKVNotFound), sf))"

(* internal/util/filestore.go:67-74 FileStore.Set *)
definition FileStore_Set :: "json_map \<Rightarrow> 'f os_api \<Rightarrow> string \<Rightarrow> bytes \<Rightarrow> FileStore \<times> 'f \<Rightarrow> gerr option ret \<times> FileStore \<times> 'f" where
  "FileStore_Set js os key data sf =
     (case sf of (s, f) \<Rightarrow>
      (case fs_data s of
         None \<Rightarrow> (Panic, s, f)
       | Some m \<Rightarrow> FileStore_save js os (s\<lparr>fs_data := Some (map_put key data m)\<rparr>, f)))"

(* internal/util/filestore.go:76-86 FileStore.Del *)
definition FileStore_Del :: "json_map \<Rightarrow> 'f os_api \<Rightarrow> string \<Rightarrow> FileStore \<times> 'f \<Rightarrow> gerr option ret \<times> FileStore \<times> 'f" where
  "FileStore_Del js os key sf =
     (case sf of (s, f) \<Rightarrow>
      (case fs_data s of
         None \<Rightarrow> (Ret None, s, f)
       | Some m \<Rightarrow>
           if map_of m key \<noteq> None then FileStore_save js os (s\<lparr>fs_data := Some (map_del key m)\<rparr>, f)
           else (Ret None, s, f)))"

definition FileStore_kv :: "json_map \<Rightarrow> 'f os_api \<Rightarrow> (FileStore \<times> 'f) kv_api" where
  "FileStore_kv js os = \<lparr>kv_Get = FileStore_Get, kv_Set = FileStore_Set js os, kv_Del = FileStore_Del js os,
     kv_Init = FileStore_Init js os\<rparr>"

text \<open>The entries are those in memory.\<close>

definition fs_view :: "FileStore \<times> 'f \<Rightarrow> string \<Rightarrow> bytes option" where
  "fs_view sf = (case fs_data (fst sf) of Some m \<Rightarrow> map_of m | None \<Rightarrow> (\<lambda>k. None))"

definition fs_inv :: "FileStore \<times> 'f \<Rightarrow> bool" where
  "fs_inv sf \<longleftrightarrow> fs_data (fst sf) \<noteq> None"

lemma FileStore_save_keeps: "FileStore_save js os (s, f) = (r, s', f') \<Longrightarrow> s' = s \<and> r \<noteq> Panic"
  by (auto simp: FileStore_save_def split: sum.splits prod.splits)

interpretation fs: kv_store FileStore_Get "FileStore_Set js os" "FileStore_Del js os" fs_view fs_inv "\<lambda>k. True"
  for js :: json_map and os :: "'f os_api"
proof
  fix w w' :: "FileStore \<times> 'f" and k r
  assume "fs_inv w" "FileStore_Get k w = (r, w')"
  then show "fs_inv w' \<and> fs_view w' = fs_view w \<and> r \<noteq> Panic \<and>
      (\<forall>v. r = Ret (Inr v) \<longrightarrow> fs_view w k = Some v) \<and> (r = Ret (Inl KVNotFound) \<longrightarrow> fs_view w k = None)"
    by (auto simp: FileStore_Get_def fs_inv_def fs_view_def split: option.splits)
next
  fix w w' :: "FileStore \<times> 'f" and k v r
  assume i: "fs_inv w" and s: "FileStore_Set js os k v w = (r, w')"
  obtain s f m where w: "w = (s, f)" "fs_data s = Some m" using i by (cases w) (auto simp: fs_inv_def)
  then have "FileStore_save js os (s\<lparr>fs_data := Some (map_put k v m)\<rparr>, f) = (r, fst w', snd w')"
    using s by (simp add: FileStore_Set_def)
  from FileStore_save_keeps [OF this] w show "fs_inv w' \<and> r \<noteq> Panic \<and>
      (r = Ret None \<longrightarrow> fs_view w' = (fs_view w)(k \<mapsto> v)) \<and> (fs_view w' = fs_view w \<or> fs_view w' = (fs_view w)(k \<mapsto> v))"
    by (simp add: fs_inv_def fs_view_def)
next
  fix w w' :: "FileStore \<times> 'f" and k r
  assume i: "fs_inv w" and s: "FileStore_Del js os k w = (r, w')"
  obtain s f m where w: "w = (s, f)" "fs_data s = Some m" using i by (cases w) (auto simp: fs_inv_def)
  show "fs_inv w' \<and> r \<noteq> Panic \<and>
      (r = Ret None \<longrightarrow> fs_view w' = (fs_view w)(k := None)) \<and> (fs_view w' = fs_view w \<or> fs_view w' = (fs_view w)(k := None))"
  proof (cases "map_of m k")
    case None
    then show ?thesis using s w by (auto simp: FileStore_Del_def fs_inv_def fs_view_def fun_eq_iff)
  next
    case (Some v)
    then have "FileStore_save js os (s\<lparr>fs_data := Some (map_del k m)\<rparr>, f) = (r, fst w', snd w')"
      using s w by (simp add: FileStore_Del_def)
    from FileStore_save_keeps [OF this] w show ?thesis by (simp add: fs_inv_def fs_view_def)
  qed
qed

section \<open>What a file keeps\<close>

text \<open>
  JSON keeps a map whose keys are ASCII; the errors of the decoder are not \<open>ErrKVNotFound\<close>. A file that
  was written is read back.
\<close>

definition ascii_keys :: "kvmap \<Rightarrow> bool" where
  "ascii_keys m \<longleftrightarrow> (\<forall>e \<in> set m. \<forall>c \<in> set (fst e). of_char c < (128 :: nat))"

definition json_map_ok :: "json_map \<Rightarrow> bool" where
  "json_map_ok js \<longleftrightarrow>
     (\<forall>m. ascii_keys m \<longrightarrow> (\<exists>b m'. jm_Marshal js (Some m) = Inr b \<and> b \<noteq> [] \<and>
        jm_Unmarshal js b (Some []) = (None, Some m') \<and> map_of m' = map_of m \<and> ascii_keys m')) \<and>
     (\<forall>b d e d'. jm_Unmarshal js b d = (Some e, d') \<longrightarrow> e \<noteq> KVNotFound) \<and>
     (\<forall>m e. jm_Marshal js m = Inl e \<longrightarrow> e \<noteq> KVNotFound)"

definition file_kept :: "'f os_api \<Rightarrow> bool" where
  "file_kept os \<longleftrightarrow> (\<forall>fn b f f'. os_WriteFile os fn b f = (None, f') \<longrightarrow> fst (os_ReadFile os fn f') = Inr b)"

lemma ascii_put: "ascii_keys m \<Longrightarrow> \<forall>c \<in> set k. of_char c < (128 :: nat) \<Longrightarrow> ascii_keys (map_put k v m)"
  by (auto simp: ascii_keys_def map_put_def)

lemma ascii_del: "ascii_keys m \<Longrightarrow> ascii_keys (map_del k m)"
  by (auto simp: ascii_keys_def map_del_def)

text \<open>
  C22. The file store: what is set is read back and nothing else changes; what is deleted is no longer
  found; and an agent that is started again on the file of a store finds exactly the entries the
  last successful write left.
\<close>

theorem FileStore_spec:
  assumes js: "json_map_ok js" and os: "file_kept os" and inv: "fs_data s = Some m" "ascii_keys m"
    and key: "\<forall>c \<in> set k. of_char c < (128 :: nat)"
    and res: "FileStore_Set js os k v (s, f) = (Ret None, t1, f1)"
  shows "FileStore_Get k (t1, f1) = (Ret (Inr v), t1, f1) \<and>
    (\<forall>j. j \<noteq> k \<longrightarrow> fst (FileStore_Get j (t1, f1)) = fst (FileStore_Get j (s, f))) \<and>
    (\<exists>t2 f2. FileStore_Init js os (NewFileStore (fs_fileName s), f1) = (Ret None, t2, f2) \<and>
      (\<forall>j. fst (FileStore_Get j (t2, f2)) = fst (FileStore_Get j (t1, f1)))) \<and>
    (\<forall>t3 f3. FileStore_Del js os k (t1, f1) = (Ret None, t3, f3) \<longrightarrow> fst (FileStore_Get k (t3, f3)) = Ret (Inl KVNotFound))"
proof (intro conjI allI impI)
  have i: "fs_inv (s, f)" using inv by (simp add: fs_inv_def)
  let ?m = "map_put k v m"
  have sv: "FileStore_save js os (s\<lparr>fs_data := Some ?m\<rparr>, f) = (Ret None, t1, f1)"
    using res inv by (simp add: FileStore_Set_def)
  from FileStore_save_keeps [OF this] have t1: "t1 = s\<lparr>fs_data := Some ?m\<rparr>" by simp
  have get: "fst (FileStore_Get j (t, g)) = Ret (case fs_view (t, g) j of Some v \<Rightarrow> Inr v | None \<Rightarrow> Inl KVNotFound)" for j t and g :: 'a
    by (auto simp: FileStore_Get_def fs_view_def ErrKVNotFound_def split: option.splits)
  show "FileStore_Get k (t1, f1) = (Ret (Inr v), t1, f1)" by (simp add: FileStore_Get_def t1)
  show "fst (FileStore_Get j (t1, f1)) = fst (FileStore_Get j (s, f))" if "j \<noteq> k" for j
    unfolding get using fs.set_keeps_others [OF i TrueI res that] by simp
  obtain b m' where b: "jm_Marshal js (Some ?m) = Inr b" "jm_Unmarshal js b (Some []) = (None, Some m')" "map_of m' = map_of ?m"
    using js ascii_put [OF inv(2) key] unfolding json_map_ok_def by blast
  have "os_WriteFile os (fs_fileName s) b f = (None, f1)"
    using sv b by (auto simp: FileStore_save_def split: prod.splits)
  then have "fst (os_ReadFile os (fs_fileName s) f1) = Inr b" using os unfolding file_kept_def by blast
  then obtain f2 where "os_ReadFile os (fs_fileName s) f1 = (Inr b, f2)" by (metis prod.collapse)
  then have "FileStore_Init js os (NewFileStore (fs_fileName s), f1) = (Ret None, \<lparr>fs_fileName = fs_fileName s, fs_data = Some m'\<rparr>, f2)"
    using b by (simp add: FileStore_Init_def NewFileStore_def)
  then show "\<exists>t2 f2. FileStore_Init js os (NewFileStore (fs_fileName s), f1) = (Ret None, t2, f2) \<and>
      (\<forall>j. fst (FileStore_Get j (t2, f2)) = fst (FileStore_Get j (t1, f1)))"
    unfolding get by (auto simp: fs_view_def t1 b(3))
  fix t3 f3 assume d: "FileStore_Del js os k (t1, f1) = (Ret None, t3, f3)"
  have "fs_inv (t1, f1)" by (simp add: fs_inv_def t1)
  from fs.del [OF this TrueI d] show "fst (FileStore_Get k (t3, f3)) = Ret (Inl KVNotFound)" unfolding get by auto
qed

text \<open>A JSON form that keeps maps, and a file system that keeps one file.\<close>

definition demo_marshal :: "kvmap \<Rightarrow> string" where
  "demo_marshal m = ''{'' @ concat (map (\<lambda>(k, v). hex_encode (bytes_of k) @ '':'' @ hex_encode v @ '';'') m)"

definition demo_entry :: "string \<Rightarrow> string \<times> bytes" where
  "demo_entry e = (case split_at_char (CHR '':'') e of
     [k, v] \<Rightarrow> (string_of (case hex_decode k of Inr b \<Rightarrow> b | Inl e \<Rightarrow> []), case hex_decode v of Inr b \<Rightarrow> b | Inl e \<Rightarrow> [])
   | _ \<Rightarrow> ([], []))"

definition demo_json :: json_map where
  "demo_json = \<lparr>
     jm_Marshal = (\<lambda>d. case d of Some m \<Rightarrow> Inr (bytes_of (demo_marshal m)) | None \<Rightarrow> Inr (bytes_of ''null'')),
     jm_Unmarshal = (\<lambda>b d. if take 1 (string_of b) = ''{''
        then (None, Some (map demo_entry (butlast (split_at_char (CHR '';'') (tl (string_of b))))))
        else if b = bytes_of ''null'' then (None, None) else (Some (Foreign 1), d))\<rparr>"

definition demo_os :: "bytes option os_api" where
  "demo_os = \<lparr>os_ReadFile = (\<lambda>fn f. (case f of Some b \<Rightarrow> Inr b | None \<Rightarrow> Inl (Foreign 2), f)),
     os_WriteFile = (\<lambda>fn b f. (None, Some b)), os_IsNotExist = (\<lambda>e. e = Foreign 2)\<rparr>"

lemma hex_no_sep: "c \<in> set (hex_encode b) \<Longrightarrow> c \<noteq> CHR '':'' \<and> c \<noteq> CHR '';''"
proof (induction b rule: hex_encode.induct)
  case (2 x b)
  have "\<forall>n < 16. hex_digit n \<noteq> CHR '':'' \<and> hex_digit n \<noteq> CHR '';''" by (code_simp)
  moreover have "unat x div 16 < 16" "unat x mod 16 < 16" using byte_less [of x] by simp_all
  ultimately show ?case using 2 by auto
qed simp

lemma demo_entry_inverse: "demo_entry (hex_encode (bytes_of k) @ '':'' @ hex_encode v) = (k, v)"
proof -
  have "split_at_char (CHR '':'') (hex_encode (bytes_of k) @ CHR '':'' # hex_encode v) = [hex_encode (bytes_of k), hex_encode v]"
    using hex_no_sep [of "CHR '':''" "bytes_of k"] hex_no_sep [of "CHR '':''" v]
    by (subst split_at_char_cons) (auto intro!: split_at_char_plain)
  then show ?thesis by (simp add: demo_entry_def)
qed

lemma demo_split:
  "split_at_char (CHR '';'') (concat (map (\<lambda>(k, v). hex_encode (bytes_of k) @ '':'' @ hex_encode v @ '';'') m)) =
    map (\<lambda>(k, v). hex_encode (bytes_of k) @ '':'' @ hex_encode v) m @ [[]]"
proof (induction m)
  case (Cons e m)
  obtain k v where e: "e = (k, v)" by (cases e)
  have "CHR '';'' \<notin> set (hex_encode (bytes_of k) @ '':'' @ hex_encode v)"
    using hex_no_sep [of "CHR '';''"] by auto
  from split_at_char_cons [OF this] Cons show ?case by (simp add: e)
qed simp

lemma demo_json_ok: "json_map_ok demo_json"
proof -
  have "jm_Unmarshal demo_json (bytes_of (demo_marshal m)) (Some []) = (None, Some m)" for m
    using demo_split [of m] demo_entry_inverse
    by (auto simp: demo_json_def demo_marshal_def comp_def case_prod_beta intro!: map_idI)
  then show ?thesis
    unfolding json_map_ok_def
    by (auto simp: demo_json_def split: if_splits option.splits) (auto simp: demo_marshal_def bytes_of_def)
qed

theorem FileStore_spec_witness:
  "fst (FileStore_Get ''a'' (snd (FileStore_Set demo_json demo_os ''a'' [1, 2] (NewFileStore ''f'', None)))) = Ret (Inr [1, 2])"
proof -
  have "file_kept demo_os" by (simp add: file_kept_def demo_os_def)
  moreover have "FileStore_Set demo_json demo_os ''a'' [1, 2] (NewFileStore ''f'', None) =
      (Ret None, \<lparr>fs_fileName = ''f'', fs_data = Some [(''a'', [1, 2])]\<rparr>, Some (bytes_of (demo_marshal [(''a'', [1, 2])])))"
    by (simp add: FileStore_Set_def FileStore_save_def NewFileStore_def demo_os_def demo_json_def map_put_def)
  ultimately show ?thesis
    using FileStore_spec [OF demo_json_ok, of demo_os "NewFileStore ''f''" "[]" "''a''" "[1, 2]" None]
    by (simp add: NewFileStore_def ascii_keys_def)
qed

text \<open>
  A write that fails leaves memory and file apart: \<open>Set\<close> puts the entry into memory before it saves,
  so the caller gets the error and the value at once, and the value is gone after a restart.
\<close>

theorem FileStore_failed_write:
  assumes inv: "fs_data s = Some m" and marshal: "jm_Marshal js (Some (map_put k v m)) = Inr b"
    and fails: "os_WriteFile os (fs_fileName s) b f = (Some err, f')"
    and disk: "fst (os_ReadFile os (fs_fileName s) f') = Inr old" "jm_Unmarshal js old (Some []) = (None, Some m0)"
  shows "(case FileStore_Set js os k v (s, f) of (r, sf) \<Rightarrow> r = Ret (Some err) \<and> fst (FileStore_Get k sf) = Ret (Inr v)) \<and>
    (case FileStore_Init js os (NewFileStore (fs_fileName s), f') of (r, sf) \<Rightarrow> r = Ret None \<and>
      (map_of m0 k = None \<longrightarrow> fst (FileStore_Get k sf) = Ret (Inl KVNotFound)))"
proof -
  obtain f2 where "os_ReadFile os (fs_fileName s) f' = (Inr old, f2)" using disk(1) by (metis prod.collapse)
  then show ?thesis
    using inv marshal fails disk(2)
    by (simp add: FileStore_Set_def FileStore_save_def FileStore_Get_def FileStore_Init_def NewFileStore_def ErrKVNotFound_def)
qed

theorem FileStore_failed_write_witness:
  "let os = demo_os\<lparr>os_WriteFile := (\<lambda>fn b f. (Some (Foreign 3), f))\<rparr>; old = Some (bytes_of (demo_marshal [])) in
    (case FileStore_Set demo_json os ''a'' [1] (NewFileStore ''f'', old) of (r, sf) \<Rightarrow>
       r = Ret (Some (Foreign 3)) \<and> fst (FileStore_Get ''a'' sf) = Ret (Inr [1]))"
proof -
  let ?os = "demo_os\<lparr>os_WriteFile := (\<lambda>fn b f. (Some (Foreign 3), f))\<rparr>" and ?old = "bytes_of (demo_marshal [])"
  have "jm_Marshal demo_json (Some (map_put ''a'' [1] [])) = Inr (bytes_of (demo_marshal [(''a'', [1])]))"
    by (simp add: demo_json_def map_put_def)
  moreover have "jm_Unmarshal demo_json ?old (Some []) = (None, Some [])"
    using demo_split [of "[]"] by (simp add: demo_json_def demo_marshal_def)
  ultimately show ?thesis
    using FileStore_failed_write [of "NewFileStore ''f''" "[]" demo_json "''a''" "[1]" _ ?os "Some ?old" "Foreign 3" "Some ?old" ?old "[]"]
    by (simp add: NewFileStore_def demo_os_def)
qed

end
