(* ===== verification/SecretStores.thy ===== *)
theory SecretStores
  imports KVStore
begin

text \<open>
  \<open>internal/util/awsstore.go\<close>, \<open>gcpstore.go\<close>, \<open>ocistore.go\<close> and \<open>storefactory.go\<close>: the stores that keep all
  entries as one JSON object in a secret of a cloud provider. The clients of the providers are
  parameters, a record for each; a client that was not set up is \<open>None\<close>, and its use a panic.
\<close>

section \<open>Reading and writing the map\<close>

text \<open>
  \<open>Get\<close>, \<open>Set\<close> and \<open>Del\<close> have the same bodies in the three files, over the \<open>getSecret\<close> and \<open>setSecret\<close> of the
  file. An empty secret is an empty map, the secret \<open>null\<close> the nil map. \<open>Set\<close> and \<open>Del\<close> read under the
  read lock, give it up, and write under the write lock.
\<close>

type_synonym 'w get_secret = "'w \<Rightarrow> bytes res ret \<times> 'w"
type_synonym 'w set_secret = "bytes \<Rightarrow> 'w \<Rightarrow> gerr option ret \<times> 'w"

definition decode_secret :: "json_map \<Rightarrow> bytes \<Rightarrow> kvmap option res" where
  "decode_secret js data =
     (if length data > 0
      then (case jm_Unmarshal js data (Some []) of (Some err, _) \<Rightarrow> Inl err | (None, cfg) \<Rightarrow> Inr cfg)
      else Inr (Some []))"

definition secret_read :: "json_map \<Rightarrow> 'w get_secret \<Rightarrow> 'w \<Rightarrow> kvmap option res ret \<times> 'w" where
  "secret_read js getS w =
     (case getS w of
        (Panic, w) \<Rightarrow> (Panic, w)
      | (Ret (Inl err), w) \<Rightarrow> (Ret (Inl err), w)
      | (Ret (Inr data), w) \<Rightarrow> (Ret (decode_secret js data), w))"

definition secret_write :: "json_map \<Rightarrow> 'w set_secret \<Rightarrow> kvmap option \<Rightarrow> 'w \<Rightarrow> gerr option ret \<times> 'w" where
  "secret_write js setS cfg w =
     (case jm_Marshal js cfg of Inl err \<Rightarrow> (Ret (Some err), w) | Inr data \<Rightarrow> setS data w)"

definition secret_Get :: "json_map \<Rightarrow> 'w get_secret \<Rightarrow> string \<Rightarrow> 'w \<Rightarrow> bytes res ret \<times> 'w" where
  "secret_Get js getS key w =
     (case secret_read js getS w of
        (Panic, w) \<Rightarrow> (Panic, w)
      | (Ret (Inl err), w) \<Rightarrow> (Ret (Inl err), w)
      | (Ret (Inr cfg), w) \<Rightarrow>
          (case map_of (case cfg of Some m \<Rightarrow> m | None \<Rightarrow> []) key of
             Some val \<Rightarrow> (Ret (Inr val), w)
           | None \<Rightarrow> (Ret (Inl ErrKVNotFound), w)))"

definition secret_put :: "json_map \<Rightarrow> 'w set_secret \<Rightarrow> string \<Rightarrow> bytes \<Rightarrow> kvmap option \<Rightarrow> 'w \<Rightarrow> gerr option ret \<times> 'w" where
  "secret_put js setS key data cfg w =
     (case cfg of None \<Rightarrow> (Panic, w) | Some m \<Rightarrow> secret_write js setS (Some (map_put key data m)) w)"

definition secret_Set :: "json_map \<Rightarrow> 'w get_secret \<Rightarrow> 'w set_secret \<Rightarrow> string \<Rightarrow> bytes \<Rightarrow> 'w \<Rightarrow> gerr option ret \<times> 'w" where
  "secret_Set js getS setS key data w =
     (case secret_read js getS w of
        (Panic, w) \<Rightarrow> (Panic, w)
      | (Ret (Inl err), w) \<Rightarrow> (Ret (Some err), w)
      | (Ret (Inr cfg), w) \<Rightarrow> secret_put js setS key data cfg w)"

definition secret_Del :: "json_map \<Rightarrow> 'w get_secret \<Rightarrow> 'w set_secret \<Rightarrow> string \<Rightarrow> 'w \<Rightarrow> gerr option ret \<times> 'w" where
  "secret_Del js getS setS key w =
     (case secret_read js getS w of
        (Panic, w) \<Rightarrow> (Panic, w)
      | (Ret (Inl err), w) \<Rightarrow> (Ret (Some err), w)
      | (Ret (Inr cfg), w) \<Rightarrow> secret_write js setS (map_option (map_del key) cfg) w)"

section \<open>awsstore.go\<close>

datatype aws_code = DecryptionFailure | InternalServiceError | InvalidParameter | InvalidRequest | ResourceNotFound | OtherCode

record aws_output =
  ao_SecretString :: "string option"
  ao_SecretBinary :: bytes

text \<open>The client is made for a region. \<open>aws_Code\<close> is the code of an error of the SDK.\<close>

record 's aws_api =
  aws_NewSession :: "'s \<Rightarrow> gerr option \<times> 's"
  aws_GetSecretValue :: "string \<Rightarrow> string \<Rightarrow> 's \<Rightarrow> aws_output res \<times> 's"
  aws_UpdateSecret :: "string \<Rightarrow> string \<Rightarrow> bytes \<Rightarrow> 's \<Rightarrow> gerr option \<times> 's"
  aws_Code :: "gerr \<Rightarrow> aws_code option"

(* internal/util/awsstore.go:18-21 SecretNotInitialised *)
definition SecretNotInitialised :: string where "SecretNotInitialised = ''initialise me''"

(* internal/util/awsstore.go:23-28 AWSStore *)
record AWSStore =
  aw_secretName :: string
  aw_region :: string
  aw_svc :: "string option"

(* internal/util/awsstore.go:30-39 NewAWSStore *)
definition NewAWSStore :: "AWSConfig \<Rightarrow> AWSStore" where
  "NewAWSStore cfg = \<lparr>aw_secretName = aws_SecretName cfg, aw_region = aws_Region cfg, aw_svc = None\<rparr>"

(* internal/util/awsstore.go:178-212 AWSStore.readSecret *)
definition AWSStore_readSecret :: "'s aws_api \<Rightarrow> string \<Rightarrow> AWSStore \<times> 's \<Rightarrow> aws_output res ret \<times> AWSStore \<times> 's" where
  "AWSStore_readSecret api name sw =
     (case sw of (s, w) \<Rightarrow>
      (case aw_svc s of
         None \<Rightarrow> (Panic, s, w)
       | Some svc \<Rightarrow>
           (case aws_GetSecretValue api svc name w of
              (Inl err, w) \<Rightarrow>
                (Ret (Inl (case aws_Code api err of
                     Some DecryptionFailure \<Rightarrow> Wrapf ''secret cannot be decypted using provided KMS key'' err
                   | Some InternalServiceError \<Rightarrow> Wrapf ''internal server error'' err
                   | Some InvalidParameter \<Rightarrow> Wrapf ''invalid parameter'' err
                   | Some InvalidRequest \<Rightarrow> Wrapf ''invalid parameter in current resource state'' err
                   | Some ResourceNotFound \<Rightarrow> Wrapf ''resource not found'' err
                   | _ \<Rightarrow> err)), s, w)
            | (Inr result, w) \<Rightarrow> (Ret (Inr result), s, w))))"

(* internal/util/awsstore.go:158-176 AWSStore.getSecret *)
definition AWSStore_getSecret :: "'s aws_api \<Rightarrow> (AWSStore \<times> 's) get_secret" where
  "AWSStore_getSecret api sw =
     (case AWSStore_readSecret api (aw_secretName (fst sw)) sw of
        (Panic, sw) \<Rightarrow> (Panic, sw)
      | (Ret (Inl err), sw) \<Rightarrow> (Ret (Inl err), sw)
      | (Ret (Inr result), sw) \<Rightarrow>
          (if ao_SecretString result \<noteq> None then (Ret (Inl (Errorf ''string returned, expected []byte'')), sw)
           else (Ret (Inr (ao_SecretBinary result)), sw)))"

(* internal/util/awsstore.go:214-228 AWSStore.setSecret *)
definition AWSStore_setSecret :: "'s aws_api \<Rightarrow> (AWSStore \<times> 's) set_secret" where
  "AWSStore_setSecret api data sw =
     (case sw of (s, w) \<Rightarrow>
      (case aw_svc s of
         None \<Rightarrow> (Panic, s, w)
       | Some svc \<Rightarrow>
           (case aws_UpdateSecret api svc (aw_secretName s) data w of
              (Some err, w) \<Rightarrow> (Ret (Some (Wrapf ''secret not updated'' err)), s, w)
            | (None, w) \<Rightarrow> (Ret None, s, w))))"

(* internal/util/awsstore.go:41-64 AWSStore.Get *)
definition AWSStore_Get :: "json_map \<Rightarrow> 's aws_api \<Rightarrow> string \<Rightarrow> AWSStore \<times> 's \<Rightarrow> bytes res ret \<times> AWSStore \<times> 's" where
  "AWSStore_Get js api = secret_Get js (AWSStore_getSecret api)"

(* internal/util/awsstore.go:66-101 AWSStore.Set *)
definition AWSStore_Set :: "json_map \<Rightarrow> 's aws_api \<Rightarrow> string \<Rightarrow> bytes \<Rightarrow> AWSStore \<times> 's \<Rightarrow> gerr option ret \<times> AWSStore \<times> 's" where
  "AWSStore_Set js api = secret_Set js (AWSStore_getSecret api) (AWSStore_setSecret api)"

(* internal/util/awsstore.go:103-138 AWSStore.Del *)
definition AWSStore_Del :: "json_map \<Rightarrow> 's aws_api \<Rightarrow> string \<Rightarrow> AWSStore \<times> 's \<Rightarrow> gerr option ret \<times> AWSStore \<times> 's" where
  "AWSStore_Del js api = secret_Del js (AWSStore_getSecret api) (AWSStore_setSecret api)"

(* internal/util/awsstore.go:230-256 AWSStore.initConnection *)
definition AWSStore_initConnection :: "json_map \<Rightarrow> 's aws_api \<Rightarrow> string \<Rightarrow> AWSStore \<times> 's \<Rightarrow> gerr option ret \<times> AWSStore \<times> 's" where
  "AWSStore_initConnection js api name sw =
     (case AWSStore_readSecret api name sw of
        (Panic, sw) \<Rightarrow> (Panic, sw)
      | (Ret (Inl err), sw) \<Rightarrow> (Ret (Some (Wrapf ''cannot initialise AWS connection'' err)), sw)
      | (Ret (Inr result), sw) \<Rightarrow>
          (case ao_SecretString result of
             Some str \<Rightarrow>
               if str \<noteq> SecretNotInitialised
               then (Ret (Some (Errorf ''secret '%s' not expected - set to '%s' to reinitialise'')), sw)
               else secret_write js (AWSStore_setSecret api) (Some []) sw
           | None \<Rightarrow> (Ret None, sw)))"

(* internal/util/awsstore.go:140-156 AWSStore.Init *)
definition AWSStore_Init :: "json_map \<Rightarrow> 's aws_api \<Rightarrow> AWSStore \<times> 's \<Rightarrow> gerr option ret \<times> AWSStore \<times> 's" where
  "AWSStore_Init js api sw =
     (case sw of (s, w) \<Rightarrow>
      (case aws_NewSession api w of
         (Some err, w) \<Rightarrow> (Ret (Some err), s, w)
       | (None, w) \<Rightarrow>
           let s = s\<lparr>aw_svc := Some (aw_region s)\<rparr> in
           (case AWSStore_initConnection js api (aw_secretName s) (s, w) of
              (Ret (Some err), sw) \<Rightarrow> (Ret (Some (Wrapf ''cannot initialise AWS store'' err)), sw)
            | (out, sw) \<Rightarrow> (out, sw))))"

section \<open>gcpstore.go\<close>

text \<open>
  \<open>gcp_json\<close> tells whether data is a JSON document. The data of a payload may be nil.
\<close>

record 's gcp_api =
  gcp_NewClient :: "'s \<Rightarrow> gerr option \<times> 's"
  gcp_GetSecretVersion :: "string \<Rightarrow> 's \<Rightarrow> string res \<times> 's"
  gcp_AccessSecretVersion :: "string \<Rightarrow> 's \<Rightarrow> slice res \<times> 's"
  gcp_AddSecretVersion :: "string \<Rightarrow> bytes \<Rightarrow> 's \<Rightarrow> gerr option \<times> 's"
  gcp_json :: "bytes \<Rightarrow> bool"

(* internal/util/gcpstore.go:37-40 GCPSecretNotInitialised *)
definition GCPSecretNotInitialised :: string where "GCPSecretNotInitialised = ''initialise me''"

(* internal/util/gcpstore.go:42-48 GCPStore *)
record GCPStore =
  gc_projectID :: string
  gc_secretName :: string
  gc_svc :: bool

(* internal/util/gcpstore.go:50-59 NewGCPStore *)
definition NewGCPStore :: "GCPConfig \<Rightarrow> GCPStore" where
  "NewGCPStore cfg = \<lparr>gc_projectID = gcp_ProjectID cfg, gc_secretName = gcp_SecretName cfg, gc_svc = False\<rparr>"

(* internal/util/gcpstore.go:190-212 GCPStore.readSecret *)
definition GCPStore_readSecret :: "'s gcp_api \<Rightarrow> GCPStore \<times> 's \<Rightarrow> slice res ret \<times> GCPStore \<times> 's" where
  "GCPStore_readSecret api sw =
     (case sw of (s, w) \<Rightarrow>
      if \<not> gc_svc s then (Panic, s, w)
      else (case gcp_GetSecretVersion api
                (''projects/'' @ gc_projectID s @ ''/secrets/'' @ gc_secretName s @ ''/versions/latest'') w of
              (Inl err, w) \<Rightarrow> (Ret (Inl err), s, w)
            | (Inr name, w) \<Rightarrow>
                (case gcp_AccessSecretVersion api name w of
                   (Inl err, w) \<Rightarrow> (Ret (Inl (Wrapf ''failed to access secret version'' err)), s, w)
                 | (Inr data, w) \<Rightarrow> (Ret (Inr data), s, w))))"

(* internal/util/gcpstore.go:180-188 GCPStore.getSecret *)
definition GCPStore_getSecret :: "'s gcp_api \<Rightarrow> (GCPStore \<times> 's) get_secret" where
  "GCPStore_getSecret api sw =
     (case GCPStore_readSecret api sw of
        (Panic, sw) \<Rightarrow> (Panic, sw)
      | (Ret (Inl err), sw) \<Rightarrow> (Ret (Inl (Wrapf ''failed to lookup the secret'' err)), sw)
      | (Ret (Inr data), sw) \<Rightarrow> (Ret (Inr (slice_bytes data)), sw))"

(* internal/util/gcpstore.go:214-227 GCPStore.setSecret *)
definition GCPStore_setSecret :: "'s gcp_api \<Rightarrow> (GCPStore \<times> 's) set_secret" where
  "GCPStore_setSecret api data sw =
     (case sw of (s, w) \<Rightarrow>
      if \<not> gc_svc s then (Panic, s, w)
      else (case gcp_AddSecretVersion api (''projects/'' @ gc_projectID s @ ''/secrets/'' @ gc_secretName s) data w of
              (err, w) \<Rightarrow> (Ret err, s, w)))"

(* internal/util/gcpstore.go:61-85 GCPStore.Get *)
definition GCPStore_Get :: "json_map \<Rightarrow> 's gcp_api \<Rightarrow> string \<Rightarrow> GCPStore \<times> 's \<Rightarrow> bytes res ret \<times> GCPStore \<times> 's" where
  "GCPStore_Get js api = secret_Get js (GCPStore_getSecret api)"

(* internal/util/gcpstore.go:87-123 GCPStore.Set *)
definition GCPStore_Set :: "json_map \<Rightarrow> 's gcp_api \<Rightarrow> string \<Rightarrow> bytes \<Rightarrow> GCPStore \<times> 's \<Rightarrow> gerr option ret \<times> GCPStore \<times> 's" where
  "GCPStore_Set js api = secret_Set js (GCPStore_getSecret api) (GCPStore_setSecret api)"

(* internal/util/gcpstore.go:125-161 GCPStore.Del *)
definition GCPStore_Del :: "json_map \<Rightarrow> 's gcp_api \<Rightarrow> string \<Rightarrow> GCPStore \<times> 's \<Rightarrow> gerr option ret \<times> GCPStore \<times> 's" where
  "GCPStore_Del js api = secret_Del js (GCPStore_getSecret api) (GCPStore_setSecret api)"

(* internal/util/gcpstore.go:229-265 GCPStore.initConnection *)
definition GCPStore_initConnection :: "json_map \<Rightarrow> 's gcp_api \<Rightarrow> GCPStore \<times> 's \<Rightarrow> gerr option ret \<times> GCPStore \<times> 's" where
  "GCPStore_initConnection js api sw =
     (case GCPStore_readSecret api sw of
        (Panic, sw) \<Rightarrow> (Panic, sw)
      | (Ret (Inl err), sw) \<Rightarrow> (Ret (Some (Wrapf ''cannot initialise GCP connection'' err)), sw)
      | (Ret (Inr None), sw) \<Rightarrow> (Ret None, sw)
      | (Ret (Inr (Some data)), sw) \<Rightarrow>
          if gcp_json api data then (Ret None, sw)
          else if string_of data \<noteq> GCPSecretNotInitialised
          then (Ret (Some (Errorf ''secret '%s' not expected - set to '%s' to reinitialise'')), sw)
          else secret_write js (GCPStore_setSecret api) (Some []) sw)"

(* internal/util/gcpstore.go:163-178 GCPStore.Init *)
definition GCPStore_Init :: "json_map \<Rightarrow> 's gcp_api \<Rightarrow> GCPStore \<times> 's \<Rightarrow> gerr option ret \<times> GCPStore \<times> 's" where
  "GCPStore_Init js api sw =
     (case sw of (s, w) \<Rightarrow>
      (case gcp_NewClient api w of
         (Some err, w) \<Rightarrow> (Ret (Some (Wrapf ''cannot initialise GCP store'' err)), s, w)
       | (None, w) \<Rightarrow> GCPStore_initConnection js api (s\<lparr>gc_svc := True\<rparr>, w)))"

section \<open>ocistore.go\<close>

text \<open>
  A secret in the list of a vault has an identifier and is active or not. The content of a secret is
  a string. The calls receive the store, whose fields name compartment, vault and key; the five
  steps of \<open>Init\<close> are calls of the SDK of which only the error matters here.
\<close>

(* internal/util/ocistore.go:33-42 OciStore *)
record OciStore =
  oc_compartment_id :: string
  oc_vault_id :: string
  oc_secret_encryption_key_id :: string
  oc_config_secret :: string

record 's oci_api =
  oci_InitSteps :: "(OciStore \<Rightarrow> 's \<Rightarrow> gerr option \<times> 's) list"
  oci_ListSecrets :: "OciStore \<Rightarrow> string \<Rightarrow> 's \<Rightarrow> (string \<times> bool) list res \<times> 's"
  oci_GetSecretBundle :: "string \<Rightarrow> 's \<Rightarrow> string res \<times> 's"
  oci_Encrypt :: "OciStore \<Rightarrow> string \<Rightarrow> 's \<Rightarrow> string res \<times> 's"
  oci_Decrypt :: "OciStore \<Rightarrow> string \<Rightarrow> 's \<Rightarrow> string res \<times> 's"
  oci_CreateSecret :: "OciStore \<Rightarrow> string \<Rightarrow> string \<Rightarrow> 's \<Rightarrow> gerr option \<times> 's"
  oci_UpdateSecret :: "string \<Rightarrow> string \<Rightarrow> 's \<Rightarrow> gerr option \<times> 's"

(* internal/util/ocistore.go:44-54 NewOciStore *)
definition NewOciStore :: "OciConfig \<Rightarrow> OciStore" where
  "NewOciStore cfg = \<lparr>oc_compartment_id = oci_Compartment cfg, oc_vault_id = oci_Vault cfg,
     oc_secret_encryption_key_id = oci_SecretEncryptionKey cfg, oc_config_secret = oci_ConfigSecret cfg\<rparr>"

(* internal/util/ocistore.go:261-274 OciStore.encryptSecret *)
definition OciStore_encryptSecret :: "'s oci_api \<Rightarrow> OciStore \<Rightarrow> string \<Rightarrow> 's \<Rightarrow> string res \<times> 's" where
  "OciStore_encryptSecret api s value w = oci_Encrypt api s value w"

(* internal/util/ocistore.go:276-289 OciStore.decryptSecret *)
definition OciStore_decryptSecret :: "'s oci_api \<Rightarrow> OciStore \<Rightarrow> string \<Rightarrow> 's \<Rightarrow> string res \<times> 's" where
  "OciStore_decryptSecret api s value w = oci_Decrypt api s value w"

(* internal/util/ocistore.go:291-306 OciStore.getSecretSummary *)
definition OciStore_getSecretSummary :: "'s oci_api \<Rightarrow> OciStore \<Rightarrow> string \<Rightarrow> 's \<Rightarrow> (string \<times> bool) res \<times> 's" where
  "OciStore_getSecretSummary api s name w =
     (case oci_ListSecrets api s name w of
        (Inl err, w) \<Rightarrow> (Inl err, w)
      | (Inr items, w) \<Rightarrow> (case items of [] \<Rightarrow> (Inl (Errorf ''not found''), w) | item # _ \<Rightarrow> (Inr item, w)))"

(* internal/util/ocistore.go:308-315 OciStore.getSecretId *)
definition OciStore_getSecretId :: "'s oci_api \<Rightarrow> OciStore \<Rightarrow> string \<Rightarrow> 's \<Rightarrow> string res \<times> 's" where
  "OciStore_getSecretId api s name w =
     (case OciStore_getSecretSummary api s name w of
        (Inl err, w) \<Rightarrow> (Inl err, w)
      | (Inr summary, w) \<Rightarrow> (Inr (fst summary), w))"

text \<open>Errors of the list, of the decryption and of the encoding become an empty secret.\<close>

(* internal/util/ocistore.go:232-259 OciStore.getSecret *)
definition OciStore_getSecret :: "'s oci_api \<Rightarrow> OciStore \<Rightarrow> 's get_secret" where
  "OciStore_getSecret api s w =
     (case OciStore_getSecretId api s (oc_config_secret s) w of
        (Inl err, w) \<Rightarrow> (Ret (Inr []), w)
      | (Inr secret_id, w) \<Rightarrow>
          (case oci_GetSecretBundle api secret_id w of
             (Inl err, w) \<Rightarrow> (Ret (Inl err), w)
           | (Inr secret_value, w) \<Rightarrow>
               (case OciStore_decryptSecret api s secret_value w of
                  (Inl err, w) \<Rightarrow> (Ret (Inr []), w)
                | (Inr decrypted_secret, w) \<Rightarrow>
                    (case std_decode decrypted_secret of
                       (_, False) \<Rightarrow> (Ret (Inr []), w)
                     | (decoded_secret, True) \<Rightarrow> (Ret (Inr decoded_secret), w)))))"

text \<open>The loop ends only when the secret is active; \<open>None\<close> means that it does not end.\<close>

(* internal/util/ocistore.go:317-328 OciStore.waitForSecret *)
partial_function (option) OciStore_waitForSecret :: "'s oci_api \<Rightarrow> OciStore \<Rightarrow> string \<Rightarrow> 's \<Rightarrow> 's option" where
  "OciStore_waitForSecret api s name w =
     (case OciStore_getSecretSummary api s name w of
        (Inl err, w) \<Rightarrow> OciStore_waitForSecret api s name w
      | (Inr summary, w) \<Rightarrow> (if snd summary then Some w else OciStore_waitForSecret api s name w))"

(* internal/util/ocistore.go:186-230 OciStore.setSecret *)
definition OciStore_setSecret :: "'s oci_api \<Rightarrow> OciStore \<Rightarrow> bytes \<Rightarrow> 's \<Rightarrow> (gerr option ret \<times> 's) option" where
  "OciStore_setSecret api s value w =
     (let name = oc_config_secret s in
      (case OciStore_encryptSecret api s (std_encode value) w of
         (Inl err, w) \<Rightarrow> Some (Ret (Some err), w)
       | (Inr encrypted_secret, w) \<Rightarrow>
           (case (case OciStore_getSecretId api s name w of
                    (Inr (c # cs), w) \<Rightarrow> oci_UpdateSecret api (c # cs) encrypted_secret w
                  | (_, w) \<Rightarrow> oci_CreateSecret api s name encrypted_secret w) of
              (Some err, w) \<Rightarrow> Some (Ret (Some err), w)
            | (None, w) \<Rightarrow> map_option (\<lambda>w. (Ret None, w)) (OciStore_waitForSecret api s name w))))"

definition oci_write :: "json_map \<Rightarrow> 's oci_api \<Rightarrow> OciStore \<Rightarrow> kvmap option \<Rightarrow> 's \<Rightarrow> (gerr option ret \<times> 's) option" where
  "oci_write js api s cfg w =
     (case jm_Marshal js cfg of Inl err \<Rightarrow> Some (Ret (Some err), w) | Inr data \<Rightarrow> OciStore_setSecret api s data w)"

(* internal/util/ocistore.go:56-79 OciStore.Get *)
definition OciStore_Get :: "json_map \<Rightarrow> 's oci_api \<Rightarrow> OciStore \<Rightarrow> string \<Rightarrow> 's \<Rightarrow> bytes res ret \<times> 's" where
  "OciStore_Get js api s = secret_Get js (OciStore_getSecret api s)"

(* internal/util/ocistore.go:81-115 OciStore.Set *)
definition OciStore_Set :: "json_map \<Rightarrow> 's oci_api \<Rightarrow> OciStore \<Rightarrow> string \<Rightarrow> bytes \<Rightarrow> 's \<Rightarrow> (gerr option ret \<times> 's) option" where
  "OciStore_Set js api s key data w =
     (case secret_read js (OciStore_getSecret api s) w of
        (Panic, w) \<Rightarrow> Some (Panic, w)
      | (Ret (Inl err), w) \<Rightarrow> Some (Ret (Some err), w)
      | (Ret (Inr None), w) \<Rightarrow> Some (Panic, w)
      | (Ret (Inr (Some cfg)), w) \<Rightarrow> oci_write js api s (Some (map_put key data cfg)) w)"

(* internal/util/ocistore.go:117-151 OciStore.Del *)
definition OciStore_Del :: "json_map \<Rightarrow> 's oci_api \<Rightarrow> OciStore \<Rightarrow> string \<Rightarrow> 's \<Rightarrow> (gerr option ret \<times> 's) option" where
  "OciStore_Del js api s key w =
     (case secret_read js (OciStore_getSecret api s) w of
        (Panic, w) \<Rightarrow> Some (Panic, w)
      | (Ret (Inl err), w) \<Rightarrow> Some (Ret (Some err), w)
      | (Ret (Inr cfg), w) \<Rightarrow> oci_write js api s (map_option (map_del key) cfg) w)"

fun run_steps :: "(OciStore \<Rightarrow> 's \<Rightarrow> gerr option \<times> 's) list \<Rightarrow> OciStore \<Rightarrow> 's \<Rightarrow> gerr option \<times> 's" where
  "run_steps [] s w = (None, w)"
| "run_steps (f # fs) s w = (case f s w of (Some err, w) \<Rightarrow> (Some err, w) | (None, w) \<Rightarrow> run_steps fs s w)"

(* internal/util/ocistore.go:153-184 OciStore.Init *)
definition OciStore_Init :: "'s oci_api \<Rightarrow> OciStore \<Rightarrow> 's \<Rightarrow> gerr option ret \<times> 's" where
  "OciStore_Init api s w = (case run_steps (oci_InitSteps api) s w of (err, w) \<Rightarrow> (Ret err, w))"

section \<open>storefactory.go\<close>

datatype any_store = FileKV FileStore | OciKV OciStore | AwsKV AWSStore | GcpKV GCPStore

(* internal/util/storefactory.go:7-20 CreateStore *)
definition CreateStore :: "Config \<Rightarrow> any_store option" where
  "CreateStore cfg =
     (let st = cfg_Store cfg in
      if st_Type st = ''file'' then Some (FileKV (NewFileStore (st_FileConfig st)))
      else if st_Type st = ''oci'' then Some (OciKV (NewOciStore (st_OciConfig st)))
      else if st_Type st = ''aws'' then Some (AwsKV (NewAWSStore (st_AwsConfig st)))
      else if st_Type st = ''gcp'' then Some (GcpKV (NewGCPStore (st_GcpConfig st)))
      else None)"

section \<open>The contract of the secret stores\<close>

text \<open>
  What a service that keeps one secret promises: reading returns the content or an error that is not
  \<open>ErrKVNotFound\<close>; writing replaces the content, or fails with the content replaced or not.
\<close>

definition secret_ok :: "'w get_secret \<Rightarrow> 'w set_secret \<Rightarrow> ('w \<Rightarrow> bytes) \<Rightarrow> ('w \<Rightarrow> bool) \<Rightarrow> bool" where
  "secret_ok getS setS content ready \<longleftrightarrow>
     (\<forall>w. ready w \<longrightarrow> (case getS w of (r, w') \<Rightarrow> ready w' \<and> content w' = content w \<and>
        (r = Ret (Inr (content w)) \<or> (\<exists>e. r = Ret (Inl e) \<and> e \<noteq> KVNotFound)))) \<and>
     (\<forall>b w. ready w \<longrightarrow> (case setS b w of (q, w') \<Rightarrow> ready w' \<and> q \<noteq> Panic \<and> (q = Ret None \<longrightarrow> content w' = b) \<and>
        (content w' = content w \<or> content w' = b)))"

definition secret_map :: "json_map \<Rightarrow> ('w \<Rightarrow> bytes) \<Rightarrow> 'w \<Rightarrow> kvmap option" where
  "secret_map js content w = (case decode_secret js (content w) of Inr (Some m) \<Rightarrow> Some m | _ \<Rightarrow> None)"

definition secret_view :: "json_map \<Rightarrow> ('w \<Rightarrow> bytes) \<Rightarrow> 'w \<Rightarrow> string \<Rightarrow> bytes option" where
  "secret_view js content w = (case secret_map js content w of Some m \<Rightarrow> map_of m | None \<Rightarrow> (\<lambda>k. None))"

definition secret_inv :: "json_map \<Rightarrow> ('w \<Rightarrow> bytes) \<Rightarrow> ('w \<Rightarrow> bool) \<Rightarrow> 'w \<Rightarrow> bool" where
  "secret_inv js content ready w \<longleftrightarrow> ready w \<and> (\<exists>m. secret_map js content w = Some m \<and> ascii_keys m)"

definition ascii :: "string \<Rightarrow> bool" where
  "ascii k \<longleftrightarrow> (\<forall>c \<in> set k. of_char c < (128 :: nat))"

lemma secret_okD:
  assumes "secret_ok getS setS content ready" "ready w"
  shows "getS w = (r, w') \<Longrightarrow> ready w' \<and> content w' = content w \<and> (r = Ret (Inr (content w)) \<or> (\<exists>e. r = Ret (Inl e) \<and> e \<noteq> KVNotFound))"
    "setS b w = (q, w') \<Longrightarrow> ready w' \<and> q \<noteq> Panic \<and> (q = Ret None \<longrightarrow> content w' = b) \<and> (content w' = content w \<or> content w' = b)"
proof -
  note A = assms(1) [unfolded secret_ok_def, THEN conjunct1, rule_format, OF assms(2)]
    and B = assms(1) [unfolded secret_ok_def, THEN conjunct2, rule_format, OF assms(2), of b]
  show "getS w = (r, w') \<Longrightarrow> ready w' \<and> content w' = content w \<and> (r = Ret (Inr (content w)) \<or> (\<exists>e. r = Ret (Inl e) \<and> e \<noteq> KVNotFound))"
    using A by simp
  show "setS b w = (q, w') \<Longrightarrow> ready w' \<and> q \<noteq> Panic \<and> (q = Ret None \<longrightarrow> content w' = b) \<and> (content w' = content w \<or> content w' = b)"
    using B by simp
qed

lemma secret_read_inv:
  assumes ok: "secret_ok getS setS content ready" and inv: "secret_inv js content ready w"
  shows "\<exists>m w'. secret_map js content w = Some m \<and> secret_map js content w' = Some m \<and> ascii_keys m \<and> ready w' \<and>
    (secret_read js getS w = (Ret (Inr (Some m)), w') \<or>
     (\<exists>e. secret_read js getS w = (Ret (Inl e), w') \<and> e \<noteq> KVNotFound))"
proof -
  from inv obtain m where m: "secret_map js content w = Some m" "ascii_keys m" "ready w" by (auto simp: secret_inv_def)
  then have d: "decode_secret js (content w) = Inr (Some m)"
    by (auto simp: secret_map_def split: sum.splits option.splits)
  obtain r w' where g: "getS w = (r, w')" by fastforce
  note w' = secret_okD(1) [OF ok m(3) g]
  then have "secret_map js content w' = Some m" using m(1) by (simp add: secret_map_def)
  with w' show ?thesis using m d g by (auto simp: secret_read_def)
qed

lemma secret_write_inv:
  assumes ok: "secret_ok getS setS content ready" and js: "json_map_ok js" and rd: "ready w" "ascii_keys m"
    and wr: "secret_write js setS (Some m) w = (q, w')"
  shows "ready w' \<and> q \<noteq> Panic \<and> (\<exists>m'. map_of m' = map_of m \<and> ascii_keys m' \<and>
    (q = Ret None \<longrightarrow> secret_map js content w' = Some m') \<and>
    (secret_map js content w' = secret_map js content w \<or> secret_map js content w' = Some m'))"
proof -
  obtain b m' where b: "jm_Marshal js (Some m) = Inr b" "b \<noteq> []" "jm_Unmarshal js b (Some []) = (None, Some m')"
    "map_of m' = map_of m" "ascii_keys m'" using js rd(2) unfolding json_map_ok_def by blast
  have s: "setS b w = (q, w')" using wr b(1) by (simp add: secret_write_def)
  have "secret_map js content w' = Some m'" if "content w' = b"
    using b that by (simp add: secret_map_def decode_secret_def)
  moreover have "secret_map js content w' = secret_map js content w" if "content w' = content w"
    using that by (simp add: secret_map_def)
  ultimately show ?thesis using secret_okD(2) [OF ok rd(1) s] b(4,5) by blast
qed

text \<open>\<open>Set\<close> and \<open>Del\<close>: read the map, change it with \<open>f\<close>, write it.\<close>

lemma secret_change:
  assumes ok: "secret_ok getS setS content ready" and js: "json_map_ok js" and inv: "secret_inv js content ready w"
    and f: "\<And>m. ascii_keys m \<Longrightarrow> ascii_keys (f m)" "\<And>m. map_of (f m) = g (map_of m)"
    and run: "(case secret_read js getS w of (Panic, w) \<Rightarrow> (Panic, w) | (Ret (Inl err), w) \<Rightarrow> (Ret (Some err), w)
      | (Ret (Inr cfg), w) \<Rightarrow> (case cfg of None \<Rightarrow> other w | Some m \<Rightarrow> secret_write js setS (Some (f m)) w)) = (q, w')"
  shows "secret_inv js content ready w' \<and> q \<noteq> Panic \<and>
    (q = Ret None \<longrightarrow> secret_view js content w' = g (secret_view js content w)) \<and>
    (secret_view js content w' = secret_view js content w \<or> secret_view js content w' = g (secret_view js content w))"
proof -
  from secret_read_inv [OF ok inv] obtain m w1 where m: "secret_map js content w = Some m" "secret_map js content w1 = Some m"
    "ascii_keys m" "ready w1" and rd: "secret_read js getS w = (Ret (Inr (Some m)), w1) \<or>
     (\<exists>e. secret_read js getS w = (Ret (Inl e), w1) \<and> e \<noteq> KVNotFound)" by blast
  have view: "secret_view js content w = map_of m" "secret_view js content w1 = map_of m" using m by (simp_all add: secret_view_def)
  have inv1: "secret_inv js content ready v" if "ready v" "secret_map js content v = Some n" "ascii_keys n" for v n
    using that by (simp add: secret_inv_def)
  from rd show ?thesis
  proof (elim disjE exE conjE)
    fix e assume "secret_read js getS w = (Ret (Inl e), w1)"
    then have "q = Ret (Some e)" "w' = w1" using run by simp_all
    then show ?thesis using view inv1 [OF m(4,2,3)] by simp
  next
    assume "secret_read js getS w = (Ret (Inr (Some m)), w1)"
    then have "secret_write js setS (Some (f m)) w1 = (q, w')" using run by simp
    from secret_write_inv [OF ok js m(4) f(1) [OF m(3)] this, unfolded f(2) m(2)] obtain m' where w': "ready w'" "q \<noteq> Panic"
      "map_of m' = g (map_of m)" "ascii_keys m'" "q = Ret None \<longrightarrow> secret_map js content w' = Some m'"
      "secret_map js content w' = Some m \<or> secret_map js content w' = Some m'" by blast
    from w'(6) show ?thesis
    proof
      assume e: "secret_map js content w' = Some m"
      then have "secret_view js content w' = map_of m" by (simp add: secret_view_def)
      moreover have "q = Ret None \<longrightarrow> g (map_of m) = map_of m" using w'(3,5) e by (metis option.inject)
      ultimately show ?thesis using view w'(2) inv1 [OF w'(1) e m(3)] by simp
    next
      assume e: "secret_map js content w' = Some m'"
      then have "secret_view js content w' = g (map_of m)" using w'(3) by (simp add: secret_view_def)
      then show ?thesis using view w'(2) inv1 [OF w'(1) e w'(4)] by simp
    qed
  qed
qed

lemma secret_kv_store:
  assumes ok: "secret_ok getS setS content ready" and js: "json_map_ok js"
  shows "kv_store (secret_Get js getS) (secret_Set js getS setS) (secret_Del js getS setS)
    (secret_view js content) (secret_inv js content ready) ascii"
proof
  fix w k r w' assume i: "secret_inv js content ready w" and g: "secret_Get js getS k w = (r, w')"
  from secret_read_inv [OF ok i] obtain m w1 where m: "secret_map js content w = Some m" "secret_map js content w1 = Some m"
    "ascii_keys m" "ready w1" and rd: "secret_read js getS w = (Ret (Inr (Some m)), w1) \<or>
     (\<exists>e. secret_read js getS w = (Ret (Inl e), w1) \<and> e \<noteq> KVNotFound)" by blast
  from rd have "w' = w1 \<and> (r = Ret (case map_of m k of Some v \<Rightarrow> Inr v | None \<Rightarrow> Inl KVNotFound) \<or> (\<exists>e. r = Ret (Inl e) \<and> e \<noteq> KVNotFound))"
    using g by (elim disjE exE) (auto simp: secret_Get_def ErrKVNotFound_def split: option.splits)
  then show "secret_inv js content ready w' \<and> secret_view js content w' = secret_view js content w \<and> r \<noteq> Panic \<and>
      (\<forall>v. r = Ret (Inr v) \<longrightarrow> secret_view js content w k = Some v) \<and> (r = Ret (Inl KVNotFound) \<longrightarrow> secret_view js content w k = None)"
    using m by (auto simp: secret_inv_def secret_view_def split: option.splits)
next
  fix w k d q w' assume i: "secret_inv js content ready w" and k: "ascii k" and s: "secret_Set js getS setS k d w = (q, w')"
  show "secret_inv js content ready w' \<and> q \<noteq> Panic \<and>
      (q = Ret None \<longrightarrow> secret_view js content w' = (secret_view js content w)(k \<mapsto> d)) \<and>
      (secret_view js content w' = secret_view js content w \<or> secret_view js content w' = (secret_view js content w)(k \<mapsto> d))"
    by (rule secret_change [OF ok js i _ _ s [unfolded secret_Set_def secret_put_def]])
      (use k in \<open>simp_all add: ascii_put ascii_def fun_eq_iff\<close>)
next
  fix w k q w' assume i: "secret_inv js content ready w" and s: "secret_Del js getS setS k w = (q, w')"
  have d: "(case cfg of None \<Rightarrow> secret_write js setS None v | Some m \<Rightarrow> secret_write js setS (Some (map_del k m)) v) =
      secret_write js setS (map_option (map_del k) cfg) v" for cfg v by (cases cfg) simp_all
  show "secret_inv js content ready w' \<and> q \<noteq> Panic \<and>
      (q = Ret None \<longrightarrow> secret_view js content w' = (secret_view js content w)(k := None)) \<and>
      (secret_view js content w' = secret_view js content w \<or> secret_view js content w' = (secret_view js content w)(k := None))"
    by (rule secret_change [OF ok js i _ _ s [unfolded secret_Del_def d [symmetric]]]) (simp_all add: ascii_del fun_eq_iff)
qed

section \<open>AWS and GCP keep the contract\<close>

definition aws_ok :: "'s aws_api \<Rightarrow> string \<Rightarrow> string \<Rightarrow> ('s \<Rightarrow> bytes) \<Rightarrow> bool" where
  "aws_ok api svc name content \<longleftrightarrow>
     (\<forall>w. case aws_GetSecretValue api svc name w of (r, w') \<Rightarrow> content w' = content w \<and>
        (r = Inr \<lparr>ao_SecretString = None, ao_SecretBinary = content w\<rparr> \<or> (\<exists>e. r = Inl e \<and> e \<noteq> KVNotFound))) \<and>
     (\<forall>b w. case aws_UpdateSecret api svc name b w of (e, w') \<Rightarrow>
        (e = None \<longrightarrow> content w' = b) \<and> (content w' = content w \<or> content w' = b))"

definition aws_ready :: "string \<Rightarrow> string \<Rightarrow> AWSStore \<times> 's \<Rightarrow> bool" where
  "aws_ready svc name sw \<longleftrightarrow> aw_svc (fst sw) = Some svc \<and> aw_secretName (fst sw) = name"

lemma aws_secret_ok:
  assumes "aws_ok api svc name content"
  shows "secret_ok (AWSStore_getSecret api) (AWSStore_setSecret api) (\<lambda>sw. content (snd sw)) (aws_ready svc name)"
  unfolding secret_ok_def
proof (intro conjI allI impI)
  fix sw :: "AWSStore \<times> 'a" assume rd: "aws_ready svc name sw"
  obtain s w where sw: "sw = (s, w)" by fastforce
  obtain r w' where g: "aws_GetSecretValue api svc name w = (r, w')" by fastforce
  have r: "content w' = content w" "r = Inr \<lparr>ao_SecretString = None, ao_SecretBinary = content w\<rparr> \<or> (\<exists>e. r = Inl e \<and> e \<noteq> KVNotFound)"
    using assms [unfolded aws_ok_def, THEN conjunct1, THEN spec [of _ w]] g by simp_all
  show "case AWSStore_getSecret api sw of (r, w') \<Rightarrow> aws_ready svc name w' \<and> content (snd w') = content (snd sw) \<and>
        (r = Ret (Inr (content (snd sw))) \<or> (\<exists>e. r = Ret (Inl e) \<and> e \<noteq> KVNotFound))"
    using r(2)
  proof (elim disjE exE conjE)
    assume "r = Inr \<lparr>ao_SecretString = None, ao_SecretBinary = content w\<rparr>"
    then show ?thesis using rd g r(1) by (simp add: AWSStore_getSecret_def AWSStore_readSecret_def aws_ready_def sw)
  next
    fix e assume "r = Inl e" "e \<noteq> KVNotFound"
    then show ?thesis using rd g r(1)
      by (simp add: AWSStore_getSecret_def AWSStore_readSecret_def aws_ready_def sw split: option.split aws_code.split)
  qed
next
  fix b and sw :: "AWSStore \<times> 'a" assume rd: "aws_ready svc name sw"
  obtain s w where sw: "sw = (s, w)" by fastforce
  show "case AWSStore_setSecret api b sw of (q, w') \<Rightarrow> aws_ready svc name w' \<and> q \<noteq> Panic \<and>
      (q = Ret None \<longrightarrow> content (snd w') = b) \<and> (content (snd w') = content (snd sw) \<or> content (snd w') = b)"
  proof -
    obtain e w' where u: "aws_UpdateSecret api svc name b w = (e, w')" by fastforce
    have c: "e = None \<longrightarrow> content w' = b" "content w' = content w \<or> content w' = b"
      using assms [unfolded aws_ok_def, THEN conjunct2, THEN spec [of _ b], THEN spec [of _ w]] u by simp_all
    show ?thesis using rd u c by (cases e) (simp_all add: AWSStore_setSecret_def aws_ready_def sw)
  qed
qed

definition gcp_ok :: "'s gcp_api \<Rightarrow> string \<Rightarrow> string \<Rightarrow> ('s \<Rightarrow> bytes) \<Rightarrow> bool" where
  "gcp_ok api project name content \<longleftrightarrow>
     (\<forall>w. case gcp_GetSecretVersion api (''projects/'' @ project @ ''/secrets/'' @ name @ ''/versions/latest'') w of (r, w') \<Rightarrow>
        content w' = content w \<and> (\<forall>v. r = Inr v \<longrightarrow> (case gcp_AccessSecretVersion api v w' of (q, w'') \<Rightarrow>
          content w'' = content w \<and> ((\<exists>d. q = Inr d \<and> slice_bytes d = content w) \<or> (\<exists>e. q = Inl e))))) \<and>
     (\<forall>b w. case gcp_AddSecretVersion api (''projects/'' @ project @ ''/secrets/'' @ name) b w of (e, w') \<Rightarrow>
        (e = None \<longrightarrow> content w' = b) \<and> (content w' = content w \<or> content w' = b))"

definition gcp_ready :: "string \<Rightarrow> string \<Rightarrow> GCPStore \<times> 's \<Rightarrow> bool" where
  "gcp_ready project name sw \<longleftrightarrow> gc_svc (fst sw) \<and> gc_projectID (fst sw) = project \<and> gc_secretName (fst sw) = name"

lemma gcp_secret_ok:
  assumes "gcp_ok api project name content"
  shows "secret_ok (GCPStore_getSecret api) (GCPStore_setSecret api) (\<lambda>sw. content (snd sw)) (gcp_ready project name)"
  unfolding secret_ok_def
proof (intro conjI allI impI)
  fix sw :: "GCPStore \<times> 'a" assume rd: "gcp_ready project name sw"
  obtain s w where sw: "sw = (s, w)" by fastforce
  let ?n = "''projects/'' @ project @ ''/secrets/'' @ name @ ''/versions/latest''"
  obtain r w' where g: "gcp_GetSecretVersion api ?n w = (r, w')" by fastforce
  have r: "content w' = content w" "\<And>v. r = Inr v \<Longrightarrow> (case gcp_AccessSecretVersion api v w' of (q, w'') \<Rightarrow>
      content w'' = content w \<and> ((\<exists>d. q = Inr d \<and> slice_bytes d = content w) \<or> (\<exists>e. q = Inl e)))"
    using assms [unfolded gcp_ok_def, THEN conjunct1, THEN spec [of _ w]] g by simp_all
  show "case GCPStore_getSecret api sw of (r, w') \<Rightarrow> gcp_ready project name w' \<and> content (snd w') = content (snd sw) \<and>
        (r = Ret (Inr (content (snd sw))) \<or> (\<exists>e. r = Ret (Inl e) \<and> e \<noteq> KVNotFound))"
  proof (cases r)
    case (Inl e)
    have s: "gc_svc s" "gc_projectID s = project" "gc_secretName s = name" using rd by (simp_all add: gcp_ready_def sw)
    show ?thesis using Inl s g [unfolded Inl] r(1) by (simp add: GCPStore_getSecret_def GCPStore_readSecret_def gcp_ready_def sw)
  next
    case (Inr v)
    obtain q w2 where a: "gcp_AccessSecretVersion api v w' = (q, w2)" by fastforce
    have q: "content w2 = content w" "(\<exists>d. q = Inr d \<and> slice_bytes d = content w) \<or> (\<exists>e. q = Inl e)"
      using r(2) [OF Inr] a by simp_all
    have s: "gc_svc s" "gc_projectID s = project" "gc_secretName s = name" using rd by (simp_all add: gcp_ready_def sw)
    show ?thesis using q(2) s g [unfolded Inr] a q(1)
      by (elim disjE exE conjE) (simp_all add: GCPStore_getSecret_def GCPStore_readSecret_def gcp_ready_def sw)
  qed
next
  fix b and sw :: "GCPStore \<times> 'a" assume rd: "gcp_ready project name sw"
  obtain s w where sw: "sw = (s, w)" by fastforce
  show "case GCPStore_setSecret api b sw of (q, w') \<Rightarrow> gcp_ready project name w' \<and> q \<noteq> Panic \<and>
      (q = Ret None \<longrightarrow> content (snd w') = b) \<and> (content (snd w') = content (snd sw) \<or> content (snd w') = b)"
  proof -
    obtain e w' where u: "gcp_AddSecretVersion api (''projects/'' @ project @ ''/secrets/'' @ name) b w = (e, w')" by fastforce
    have c: "e = None \<longrightarrow> content w' = b" "content w' = content w \<or> content w' = b"
      using assms [unfolded gcp_ok_def, THEN conjunct2, THEN spec [of _ b], THEN spec [of _ w]] u by simp_all
    have "gc_svc s" "gc_projectID s = project" "gc_secretName s = name" using rd by (simp_all add: gcp_ready_def sw)
    then show ?thesis using u c by (simp add: GCPStore_setSecret_def gcp_ready_def sw)
  qed
qed

definition keeps_entries :: "(string \<Rightarrow> 'w \<Rightarrow> bytes res ret \<times> 'w) \<Rightarrow> (string \<Rightarrow> bytes \<Rightarrow> 'w \<Rightarrow> gerr option ret \<times> 'w)
    \<Rightarrow> (string \<Rightarrow> 'w \<Rightarrow> gerr option ret \<times> 'w) \<Rightarrow> ('w \<Rightarrow> bool) \<Rightarrow> bool" where
  "keeps_entries Get Set Del I \<longleftrightarrow>
     (\<forall>w k. I w \<longrightarrow> ascii k \<longrightarrow>
        (\<forall>v w1 r w2. Set k v w = (Ret None, w1) \<longrightarrow> Get k w1 = (r, w2) \<longrightarrow> r = Ret (Inr v) \<or> (\<exists>e. r = Ret (Inl e) \<and> e \<noteq> KVNotFound)) \<and>
        (\<forall>w1 r w2. Del k w = (Ret None, w1) \<longrightarrow> Get k w1 = (r, w2) \<longrightarrow> (\<exists>e. r = Ret (Inl e))) \<and>
        (\<forall>v q w1. Set k v w = (q, w1) \<longrightarrow> I w1 \<and> q \<noteq> Panic) \<and>
        (\<forall>q w1. Del k w = (q, w1) \<longrightarrow> I w1 \<and> q \<noteq> Panic))"

lemma kv_store_keeps:
  assumes "kv_store Get Set Del view I ascii"
  shows "keeps_entries Get Set Del I"
  using kv_store.get_after_set [OF assms] kv_store.get_after_del [OF assms] kv_store.set [OF assms] kv_store.del [OF assms]
  unfolding keeps_entries_def by blast

lemma keeps_getD:
  assumes "keeps_entries Get Set Del I" "I w" "ascii k" "Set k v w = (Ret None, w1)" "Get k w1 = (r, w2)"
  shows "r \<noteq> Ret (Inl KVNotFound)"
proof -
  have "r = Ret (Inr v) \<or> (\<exists>e. r = Ret (Inl e) \<and> e \<noteq> KVNotFound)"
    using assms(1) [unfolded keeps_entries_def, THEN spec [of _ w], THEN spec [of _ k]] assms(2-5) by simp
  then show ?thesis by auto
qed

lemma demo_Marshal: "jm_Marshal demo_json (Some m) = Inr (bytes_of (demo_marshal m))"
  by (simp add: demo_json_def)


text \<open>Services that keep one secret.\<close>

definition cell_aws :: "bytes aws_api" where
  "cell_aws = \<lparr>aws_NewSession = (\<lambda>w. (None, w)),
     aws_GetSecretValue = (\<lambda>svc name w. (Inr \<lparr>ao_SecretString = None, ao_SecretBinary = w\<rparr>, w)),
     aws_UpdateSecret = (\<lambda>svc name b w. (None, b)), aws_Code = (\<lambda>e. None)\<rparr>"

definition cell_gcp :: "bytes gcp_api" where
  "cell_gcp = \<lparr>gcp_NewClient = (\<lambda>w. (None, w)), gcp_GetSecretVersion = (\<lambda>n w. (Inr n, w)),
     gcp_AccessSecretVersion = (\<lambda>n w. (Inr (Some w), w)), gcp_AddSecretVersion = (\<lambda>n b w. (None, b)), gcp_json = (\<lambda>b. True)\<rparr>"


section \<open>Lost entries\<close>

text \<open>
  Two \<open>Set\<close> calls at the same time lose one of the entries: the read lock is given up before the
  write lock is taken, so both may read the map before either writes it. The entry of the first one
  is gone although both calls succeeded.
\<close>

theorem concurrent_Set_loses_entry:
  assumes ok: "secret_ok getS setS content ready" and js: "json_map_ok js" and inv: "secret_inv js content ready w"
    and keys: "ascii j" "ascii k" "j \<noteq> k" and fresh: "secret_view js content w j = None"
    and first_read: "secret_read js getS w = (Ret (Inr cfg1), w1)"
    and second_read: "secret_read js getS w1 = (Ret (Inr cfg2), w2)"
    and first_write: "secret_put js setS j a cfg1 w2 = (Ret None, w3)"
    and second_write: "secret_put js setS k b cfg2 w3 = (Ret None, w4)"
  shows "secret_view js content w3 j = Some a \<and> secret_view js content w4 j = None \<and> secret_view js content w4 k = Some b"
proof -
  from secret_read_inv [OF ok inv] first_read obtain m where m: "secret_map js content w = Some m" "secret_map js content w1 = Some m"
    "ascii_keys m" "ready w1" "cfg1 = Some m" by auto
  then have "secret_inv js content ready w1" by (simp add: secret_inv_def)
  from secret_read_inv [OF ok this] second_read m have m2: "secret_map js content w2 = Some m" "ready w2" "cfg2 = Some m" by auto
  have p: "ascii_keys (map_put j a m)" "ascii_keys (map_put k b m)" using m(3) keys by (simp_all add: ascii_put ascii_def)
  have "secret_write js setS (Some (map_put j a m)) w2 = (Ret None, w3)" using first_write m(5) by (simp add: secret_put_def)
  from secret_write_inv [OF ok js m2(2) p(1) this] have w3: "ready w3" "\<exists>m'. secret_map js content w3 = Some m' \<and> map_of m' = (map_of m)(j \<mapsto> a)"
    by auto
  have "secret_write js setS (Some (map_put k b m)) w3 = (Ret None, w4)" using second_write m2(3) by (simp add: secret_put_def)
  from secret_write_inv [OF ok js w3(1) p(2) this] have w4: "\<exists>m'. secret_map js content w4 = Some m' \<and> map_of m' = (map_of m)(k \<mapsto> b)"
    by auto
  show ?thesis using w3(2) w4 fresh m(1) keys(3) by (auto simp: secret_view_def)
qed

theorem concurrent_Set_loses_entry_witness:
  "let getS = (\<lambda>w. (Ret (Inr w), w)); setS = (\<lambda>b w. (Ret None, b));
       w1 = snd (secret_put demo_json setS ''a'' [1] (Some []) []);
       w2 = snd (secret_put demo_json setS ''b'' [2] (Some []) w1) in
     secret_view demo_json id w2 ''a'' = None"
proof -
  let ?g = "\<lambda>w :: bytes. (Ret (Inr w), w)" and ?s = "\<lambda>(b :: bytes) (w :: bytes). (Ret None, b)"
  have ok: "secret_ok ?g ?s id (\<lambda>w. True)" by (simp add: secret_ok_def)
  have i: "secret_inv demo_json id (\<lambda>w. True) []" by (simp add: secret_inv_def secret_map_def decode_secret_def ascii_keys_def)
  have rd: "secret_read demo_json ?g [] = (Ret (Inr (Some [])), [])" by (simp add: secret_read_def decode_secret_def)
  have wr: "\<exists>w'. secret_put demo_json ?s k b (Some []) w = (Ret None, w')" for k b w
    by (simp add: secret_put_def secret_write_def demo_Marshal)
  obtain w1 w2 where w: "secret_put demo_json ?s ''a'' [1] (Some []) [] = (Ret None, w1)"
    "secret_put demo_json ?s ''b'' [2] (Some []) w1 = (Ret None, w2)" using wr by meson
  have "secret_view demo_json id w2 ''a'' = None"
    using concurrent_Set_loses_entry [OF ok demo_json_ok i _ _ _ _ rd rd w]
    by (simp add: ascii_def secret_view_def secret_map_def decode_secret_def)
  then show ?thesis using w by (simp add: Let_def)
qed

text \<open>
  The store on OCI takes an error for an empty secret: if the list of secrets cannot be fetched, or the
  secret cannot be decrypted, while \<open>Set\<close> reads, it goes on and writes a secret that holds the new
  entry alone. All other entries are lost.
\<close>

theorem OciStore_Set_forgets:
  assumes "(\<exists>err. oci_ListSecrets api s (oc_config_secret s) w = (Inl err, w1)) \<or>
    (\<exists>sid act rest u v x y err. oci_ListSecrets api s (oc_config_secret s) w = (Inr ((sid, act) # rest), u) \<and>
       oci_GetSecretBundle api sid u = (Inr x, v) \<and> oci_Decrypt api s x v = (Inl err, w1))"
  shows "OciStore_Set js api s key data w = oci_write js api s (Some [(key, data)]) w1 \<and>
    OciStore_Get js api s key w = (Ret (Inl KVNotFound), w1)"
proof -
  have "OciStore_getSecret api s w = (Ret (Inr []), w1)"
    using assms by (auto simp: OciStore_getSecret_def OciStore_getSecretId_def OciStore_getSecretSummary_def OciStore_decryptSecret_def)
  then have "secret_read js (OciStore_getSecret api s) w = (Ret (Inr (Some [])), w1)"
    by (simp add: secret_read_def decode_secret_def)
  then show ?thesis by (simp add: OciStore_Set_def OciStore_Get_def secret_Get_def map_put_def ErrKVNotFound_def)
qed

text \<open>A vault whose list fails the first time it is asked; the state is the number of requests and the secret.\<close>

definition demo_oci :: "(nat \<times> string) oci_api" where
  "demo_oci = \<lparr>oci_InitSteps = [], oci_ListSecrets = (\<lambda>s n (i, c). (if i = 0 then Inl (Foreign 1) else Inr [(''x'', True)], (Suc i, c))),
     oci_GetSecretBundle = (\<lambda>sid w. (Inr (snd w), w)), oci_Encrypt = (\<lambda>s v w. (Inr v, w)), oci_Decrypt = (\<lambda>s v w. (Inr v, w)),
     oci_CreateSecret = (\<lambda>s n c (i, d). (None, (i, c))), oci_UpdateSecret = (\<lambda>sid c (i, d). (None, (i, c)))\<rparr>"

theorem OciStore_Set_forgets_witness:
  "let s = \<lparr>oc_compartment_id = [], oc_vault_id = [], oc_secret_encryption_key_id = [], oc_config_secret = []\<rparr> in
    OciStore_Set demo_json demo_oci s ''b'' [2] (0, std_encode (bytes_of (demo_marshal [(''a'', [1])]))) =
      Some (Ret None, (3, std_encode (bytes_of (demo_marshal [(''b'', [2])]))))"
proof -
  let ?s = "\<lparr>oc_compartment_id = [], oc_vault_id = [], oc_secret_encryption_key_id = [], oc_config_secret = []\<rparr>"
  let ?c = "std_encode (bytes_of (demo_marshal [(''a'', [1])]))" and ?d = "std_encode (bytes_of (demo_marshal [(''b'', [2])]))"
  have "\<exists>err. oci_ListSecrets demo_oci ?s (oc_config_secret ?s) (0, ?c) = (Inl err, (1, ?c))" by (simp add: demo_oci_def)
  from OciStore_Set_forgets [OF disjI1 [OF this], of demo_json "''b''" "[2]"]
  have "OciStore_Set demo_json demo_oci ?s ''b'' [2] (0, ?c) = oci_write demo_json demo_oci ?s (Some [(''b'', [2])]) (1, ?c)" by simp
  moreover have "OciStore_waitForSecret demo_oci ?s [] (2, ?d) = Some (3, ?d)"
    by (subst OciStore_waitForSecret.simps) (simp add: OciStore_getSecretSummary_def demo_oci_def)
  ultimately show ?thesis
    by (simp add: oci_write_def OciStore_setSecret_def OciStore_encryptSecret_def OciStore_getSecretId_def
          OciStore_getSecretSummary_def demo_Marshal demo_oci_def Let_def numeral_eq_Suc)
qed

end
