(* ===== verification/AgentStore.thy ===== *)
theory AgentStore
  imports SecretStores
begin

text \<open>
  \<open>internal/store/agent_store.go\<close>: the data of the registered agent in a key-value store. The lemmas
  rest on the contract \<open>kv_store\<close> alone, so they hold for every store that keeps it: the file store
  and the stores on AWS and GCP.
\<close>

section \<open>agent_store.go\<close>

(* internal/store/agent_store.go:13 agentIDString *)
definition agentIDString :: string where "agentIDString = ''AgentID_V2''"

(* internal/store/agent_store.go:15-21 AgentInfo *)
record AgentInfo =
  ag_BLSPrivateKey :: string
  ag_ECPrivateKey :: string
  ag_WorkspaceID :: string
  ag_APIKeyID :: string
  ag_APIKeySecret :: string

record json_agent =
  ja_Marshal :: "AgentInfo \<Rightarrow> bytes res"
  ja_Unmarshal :: "bytes \<Rightarrow> AgentInfo res"

text \<open>The agent argument may be a nil pointer.\<close>

(* internal/store/agent_store.go:42-65 storage.SaveAgentInfo *)
definition SaveAgentInfo :: "json_agent \<Rightarrow> 'w kv_api \<Rightarrow> string \<Rightarrow> AgentInfo option \<Rightarrow> 'w \<Rightarrow> gerr option ret \<times> 'w" where
  "SaveAgentInfo js kv i agent w =
     (if length i = 0 then (Ret (Some (Errorf ''invalid agentID'')), w)
      else (case agent of
        None \<Rightarrow> (Ret (Some (Errorf ''invalid agent info'')), w)
      | Some a \<Rightarrow>
          (case ja_Marshal js a of
             Inl err \<Rightarrow> (Ret (Some (Errorf ''failed to marshal agent info, err: %v'')), w)
           | Inr data \<Rightarrow>
               (case kv_Set kv i data w of
                  (Panic, w) \<Rightarrow> (Panic, w)
                | (Ret (Some err), w) \<Rightarrow> (Ret (Some (Errorf ''failed to save agent info, err: %v'')), w)
                | (Ret None, w) \<Rightarrow>
                    (case kv_Set kv agentIDString (bytes_of i) w of
                       (Panic, w) \<Rightarrow> (Panic, w)
                     | (Ret (Some err), w) \<Rightarrow> (Ret (Some (Errorf ''failed to set agentID, err: %v'')), w)
                     | (Ret None, w) \<Rightarrow> (Ret None, w))))))"

(* internal/store/agent_store.go:93-100 storage.getSystemAgentID *)
definition getSystemAgentID :: "'w kv_api \<Rightarrow> 'w \<Rightarrow> string res ret \<times> 'w" where
  "getSystemAgentID kv w =
     (case kv_Get kv agentIDString w of
        (Panic, w) \<Rightarrow> (Panic, w)
      | (Ret (Inl err), w) \<Rightarrow> (Ret (Inl err), w)
      | (Ret (Inr d), w) \<Rightarrow> (Ret (Inr (string_of d)), w))"

text \<open>\<open>Inr None\<close> is the nil pointer with a nil error: no agent is registered.\<close>

(* internal/store/agent_store.go:67-91 storage.GetAgentInfo *)
definition GetAgentInfo :: "json_agent \<Rightarrow> 'w kv_api \<Rightarrow> 'w \<Rightarrow> AgentInfo option res ret \<times> 'w" where
  "GetAgentInfo js kv w =
     (case getSystemAgentID kv w of
        (Panic, w) \<Rightarrow> (Panic, w)
      | (Ret (Inl err), w) \<Rightarrow> if err = ErrKVNotFound then (Ret (Inr None), w) else (Ret (Inl err), w)
      | (Ret (Inr i), w) \<Rightarrow>
          (case kv_Get kv i w of
             (Panic, w) \<Rightarrow> (Panic, w)
           | (Ret (Inl err), w) \<Rightarrow> (Ret (Inl (Errorf ''failed to retrieve agent info, err: %v'')), w)
           | (Ret (Inr data), w) \<Rightarrow>
               (case ja_Unmarshal js data of
                  Inl err \<Rightarrow> (Ret (Inl (Errorf ''failed to unmarshal agent info, err: %v'')), w)
                | Inr agentInfo \<Rightarrow> (Ret (Inr (Some agentInfo)), w))))"

section \<open>The agent a store holds\<close>

text \<open>The data of the registered agent, and what \<open>GetAgentInfo\<close> may report of it.\<close>

definition agent_data :: "(string \<Rightarrow> bytes option) \<Rightarrow> bytes option option" where
  "agent_data v = map_option (\<lambda>d. v (string_of d)) (v agentIDString)"

definition reports :: "json_agent \<Rightarrow> bytes option option \<Rightarrow> AgentInfo option res ret \<Rightarrow> bool" where
  "reports js d out \<longleftrightarrow> (\<exists>e. out = Ret (Inl e)) \<or>
     (case d of None \<Rightarrow> out = Ret (Inr None)
      | Some None \<Rightarrow> False
      | Some (Some b) \<Rightarrow> (\<exists>a. ja_Unmarshal js b = Inr a \<and> out = Ret (Inr (Some a))))"

lemma GetAgentInfo_reports:
  assumes store: "kv_store (kv_Get kv) (kv_Set kv) (kv_Del kv) view I key_ok"
    and i: "I w" and get: "GetAgentInfo js kv w = (out, w')"
  shows "reports js (agent_data (view w)) out"
proof -
  note G = kv_store.get [OF store]
  obtain r w1 where g1: "kv_Get kv agentIDString w = (r, w1)" by fastforce
  note G1 = G [OF i g1]
  then obtain x where r: "r = Ret x" by (cases r) auto
  show ?thesis
  proof (cases x)
    case (Inl e)
    then show ?thesis using get g1 r G1
      by (auto simp: GetAgentInfo_def getSystemAgentID_def ErrKVNotFound_def reports_def agent_data_def split: if_splits)
  next
    case (Inr d)
    obtain q w2 where g2: "kv_Get kv (string_of d) w1 = (q, w2)" by fastforce
    have v: "view w agentIDString = Some d" "I w1" "view w1 = view w" using G1 r Inr by simp_all
    note G2 = G [OF v(2) g2]
    then obtain y where q: "q = Ret y" by (cases q) auto
    show ?thesis
    proof (cases y)
      case (Inl e)
      then show ?thesis using get g1 r \<open>x = Inr d\<close> g2 q
        by (auto simp: GetAgentInfo_def getSystemAgentID_def reports_def)
    next
      case (Inr b)
      then have "view w (string_of d) = Some b" using G2 q v by simp
      then show ?thesis using get g1 r \<open>x = Inr d\<close> g2 q Inr v
        by (auto simp: GetAgentInfo_def getSystemAgentID_def reports_def agent_data_def split: sum.splits)
    qed
  qed
qed

lemma agent_data_put: "i \<noteq> agentIDString \<Longrightarrow>
    agent_data (v(i \<mapsto> data)) = agent_data v \<or> agent_data (v(i \<mapsto> data)) = Some (Some data)"
  by (cases "v agentIDString") (auto simp: agent_data_def)

lemma SaveAgentInfo_data:
  assumes store: "kv_store (kv_Get kv) (kv_Set kv) (kv_Del kv) view I key_ok"
    and inv: "I w" and keys: "key_ok i" "key_ok agentIDString" "i \<noteq> agentIDString"
    and data: "ja_Marshal js a = Inr data"
    and save: "SaveAgentInfo js kv i (Some a) w = (out, w')"
  shows "I w' \<and> out \<noteq> Panic \<and> (out = Ret None \<longrightarrow> agent_data (view w') = Some (Some data)) \<and>
    (agent_data (view w') = agent_data (view w) \<or> agent_data (view w') = Some (Some data))"
proof (cases "i = []")
  case True
  then show ?thesis using save inv by (auto simp: SaveAgentInfo_def)
next
  case False
  note S = kv_store.set [OF store]
  obtain q w1 where g1: "kv_Set kv i data w = (q, w1)" by fastforce
  note S1 = S [OF inv keys(1) g1]
  then obtain x where q: "q = Ret x" by (cases q) auto
  have one: "agent_data (view w1) = agent_data (view w) \<or> agent_data (view w1) = Some (Some data)"
    using S1 agent_data_put [OF keys(3), of "view w" data] by auto
  show ?thesis
  proof (cases x)
    case (Some e)
    then show ?thesis using save False data g1 q S1 one by (auto simp: SaveAgentInfo_def)
  next
    case None
    obtain p w2 where g2: "kv_Set kv agentIDString (bytes_of i) w1 = (p, w2)" by fastforce
    have I1: "I w1" "view w1 = (view w)(i \<mapsto> data)" using S1 q None by simp_all
    note S2 = S [OF I1(1) keys(2) g2]
    then obtain y where p: "p = Ret y" by (cases p) auto
    have out: "w' = w2" "out = Ret None \<longleftrightarrow> y = None" "out \<noteq> Panic"
      using save False data g1 q None g2 p by (cases y; auto simp: SaveAgentInfo_def)+
    have two: "agent_data ((view w1)(agentIDString \<mapsto> bytes_of i)) = Some (Some data)"
      using keys(3) by (simp add: agent_data_def I1(2))
    show ?thesis using S2 p out one two by auto
  qed
qed


definition demo_agent :: AgentInfo where
  "demo_agent = \<lparr>ag_BLSPrivateKey = ''b'', ag_ECPrivateKey = ''e'', ag_WorkspaceID = ''w'', ag_APIKeyID = ''k'', ag_APIKeySecret = ''s''\<rparr>"

definition demo_agent_json :: json_agent where
  "demo_agent_json = \<lparr>ja_Marshal = (\<lambda>a. Inr [1]), ja_Unmarshal = (\<lambda>b. Inr demo_agent)\<rparr>"


end
