(* ===== verification/AgentService.thy ===== *)
theory AgentService
  imports ClientFeed AgentStore
begin

text \<open>
  \<open>internal/service/agent_service.go\<close>: registration of the agent, the start and stop of its feed, and the
  registration of local clients. The components it uses are the interfaces it holds, over any world
  \<open>'w\<close>; all its methods are run by the HTTP server or at start and end of the process.
\<close>

section \<open>The interfaces\<close>

(* internal/auth/header_provider.go:28-32 HeaderProvider *)
record 'w header_api =
  he_Initiate :: "string \<Rightarrow> string \<Rightarrow> string \<Rightarrow> 'w \<Rightarrow> gerr option ret \<times> 'w"
  he_GetAuthHeader :: "'w \<Rightarrow> header"
  he_Stop :: "'w \<Rightarrow> unit ret \<times> 'w"

text \<open>\<open>Stop\<close> closes a channel, for which a second call panics.\<close>

(* internal/auth/header_provider.go:103-105 apiTokenProvider.Stop *)
definition tp_Stop :: "bool \<Rightarrow> unit ret \<times> bool" where
  "tp_Stop stop_closed = (if stop_closed then (Panic, True) else (Ret (), True))"

(* internal/hub/feed_hub.go:25-35 FeedHub *)
record 'w hub_api =
  hu_Run :: "'w \<Rightarrow> bool \<times> 'w"
  hu_Stop :: "'w \<Rightarrow> unit ret \<times> 'w"
  hu_RegisterClient :: "HubFeedClient \<Rightarrow> 'w \<Rightarrow> unit ret \<times> 'w"
  hu_UnregisterClient :: "HubFeedClient \<Rightarrow> 'w \<Rightarrow> unit ret \<times> 'w"
  hu_IsRunning :: "'w \<Rightarrow> bool"
  hu_GetWebsocketStatus :: "'w \<Rightarrow> WebsocketStatus"

text \<open>\<open>Listen\<close> starts the goroutine; the caller waits until it has started.\<close>

(* internal/autoapprover/auto_approver.go:17-23 AutoApprover *)
record 'w approver_api =
  ao_Listen :: "'w \<Rightarrow> 'w"
  ao_GetFeedClient :: HubFeedClient
  ao_Stop :: "'w \<Rightarrow> unit ret \<times> 'w"

(* internal/feed/client.go:21-26 ClientFeed *)
record 'w client_api =
  cf_Start :: "'w \<Rightarrow> 'w"
  cf_Listen :: "'w \<Rightarrow> 'w"
  cf_GetFeedClient :: HubFeedClient

section \<open>agent_service.go\<close>

(* internal/service/agent_service.go:22-25 saveKeyDataRequest *)
record saveKeyDataRequest =
  sk_BlsPublicKey :: string
  sk_EcPublicKey :: string

(* internal/service/agent_service.go:27-29 getActionResponse *)
record apiActionResponse =
  aar_ActionID :: string

(* internal/service/agent_service.go:31-33 apiKeyNameResponse *)
record apiKeyNameResponse =
  akn_Name :: string

text \<open>\<open>encoding/json\<close> on the three messages.\<close>

record json_agent_srv =
  jv_encode :: "saveKeyDataRequest \<Rightarrow> bytes res"
  jv_action :: "bytes \<Rightarrow> apiActionResponse res"
  jv_name :: "bytes \<Rightarrow> apiKeyNameResponse res"

text \<open>The auto approver may be nil. The request of a websocket client is part of the world.\<close>

(* internal/service/agent_service.go:67-80 agentSrv *)
record ('c, 'w) agentSrv =
  sv_htc :: "'w http_api"
  sv_store :: "string \<Rightarrow> AgentInfo option \<Rightarrow> 'w \<Rightarrow> gerr option ret \<times> 'w"
  sv_config :: Config
  sv_authProvider :: "'w header_api"
  sv_signer :: "'w signer_api"
  sv_feedHub :: "'w hub_api"
  sv_upgrader :: "'w \<Rightarrow> 'c res \<times> 'w"
  sv_newClientFeedFunc :: "'c \<Rightarrow> (HubFeedClient \<Rightarrow> 'w \<Rightarrow> unit ret \<times> 'w) \<Rightarrow> WebSocketConfig \<Rightarrow> 'w \<Rightarrow> 'w client_api \<times> 'w"
  sv_autoApprover :: "'w approver_api option"
  sv_agentInfo :: "AgentInfo option"
  sv_genKeysFunc :: "'w \<Rightarrow> (string \<times> string \<times> string \<times> string) res \<times> 'w"

(* internal/service/agent_service.go:48-65 NewAgentService *)
definition NewAgentService :: "'w http_api \<Rightarrow> ('w \<Rightarrow> (string \<times> string \<times> string \<times> string) res \<times> 'w)
    \<Rightarrow> ('c \<Rightarrow> (HubFeedClient \<Rightarrow> 'w \<Rightarrow> unit ret \<times> 'w) \<Rightarrow> WebSocketConfig \<Rightarrow> 'w \<Rightarrow> 'w client_api \<times> 'w)
    \<Rightarrow> Config \<Rightarrow> 'w header_api \<Rightarrow> (string \<Rightarrow> AgentInfo option \<Rightarrow> 'w \<Rightarrow> gerr option ret \<times> 'w) \<Rightarrow> 'w signer_api
    \<Rightarrow> 'w hub_api \<Rightarrow> 'w approver_api option \<Rightarrow> ('w \<Rightarrow> 'c res \<times> 'w) \<Rightarrow> AgentInfo option \<Rightarrow> ('c, 'w) agentSrv" where
  "NewAgentService htc genKeys newClient config authProvider saver signer feedHub aa upgrader agentInfo =
     \<lparr>sv_htc = htc, sv_store = saver, sv_config = config, sv_authProvider = authProvider, sv_signer = signer,
      sv_feedHub = feedHub, sv_upgrader = upgrader, sv_newClientFeedFunc = newClient, sv_autoApprover = aa,
      sv_agentInfo = agentInfo, sv_genKeysFunc = genKeys\<rparr>"

(* internal/service/agent_service.go:82-112 agentSrv.Start *)
definition srv_Start :: "('c, 'w) agentSrv \<Rightarrow> 'w \<Rightarrow> gerr option ret \<times> 'w" where
  "srv_Start a w =
     (if sv_agentInfo a = None then (Ret None, w)
      else
        let w = (case sv_autoApprover a of None \<Rightarrow> w | Some aa \<Rightarrow> ao_Listen aa w) in
        (case hu_Run (sv_feedHub a) w of
           (False, w) \<Rightarrow>
             (case sv_autoApprover a of
                None \<Rightarrow> (Ret (Some (Errorf ''failed to start the feed hub'')), w)
              | Some aa \<Rightarrow>
                  (case ao_Stop aa w of
                     (Panic, w) \<Rightarrow> (Panic, w)
                   | (Ret _, w) \<Rightarrow> (Ret (Some (Errorf ''failed to start the feed hub'')), w)))
         | (True, w) \<Rightarrow>
             (case sv_autoApprover a of
                None \<Rightarrow> (Ret None, w)
              | Some aa \<Rightarrow>
                  (case hu_RegisterClient (sv_feedHub a) (ao_GetFeedClient aa) w of
                     (Panic, w) \<Rightarrow> (Panic, w)
                   | (Ret _, w) \<Rightarrow> (Ret None, w)))))"

(* internal/service/agent_service.go:114-120 agentSrv.Stop *)
definition srv_Stop :: "('c, 'w) agentSrv \<Rightarrow> 'w \<Rightarrow> unit ret \<times> 'w" where
  "srv_Stop a w =
     (case hu_Stop (sv_feedHub a) w of
        (Panic, w) \<Rightarrow> (Panic, w)
      | (Ret _, w) \<Rightarrow> he_Stop (sv_authProvider a) w)"

(* internal/service/agent_service.go:230-244 agentSrv.updateAPIKey *)
definition updateAPIKey :: "json_agent_srv \<Rightarrow> ('c, 'w) agentSrv \<Rightarrow> string \<Rightarrow> string \<Rightarrow> string \<Rightarrow> string \<Rightarrow> 'w \<Rightarrow> string res \<times> 'w" where
  "updateAPIKey js a APIkeyID workspaceID blsKey ecKey w =
     (let req = \<lparr>sk_BlsPublicKey = blsKey, sk_EcPublicKey = ecKey\<rparr>;
          header = he_GetAuthHeader (sv_authProvider a) w in
      (case Request (sv_htc a) ''PUT'' (URLAPIKey (QredoAPI (cfg_Base (sv_config a))) workspaceID APIkeyID)
              (Some (jv_encode js req)) (JsonData (jv_action js)) (Some header) w of
         (Inl err, w) \<Rightarrow> (Inl err, w)
       | (Inr resp, w) \<Rightarrow> (Inr (case resp of None \<Rightarrow> EmptyString | Some r \<Rightarrow> aar_ActionID r), w)))"

text \<open>Without agent info the method would dereference nil.\<close>

(* internal/service/agent_service.go:246-256 agentSrv.getAgentName *)
definition getAgentName :: "json_agent_srv \<Rightarrow> ('c, 'w) agentSrv \<Rightarrow> 'w \<Rightarrow> string res ret \<times> 'w" where
  "getAgentName js a w =
     (case sv_agentInfo a of
        None \<Rightarrow> (Panic, w)
      | Some info \<Rightarrow>
          let header = he_GetAuthHeader (sv_authProvider a) w;
              url = URLAPIKey (QredoAPI (cfg_Base (sv_config a))) (ag_WorkspaceID info) (ag_APIKeyID info) in
          (case Request (sv_htc a) ''GET'' url None (JsonData (jv_name js)) (Some header) w of
             (Inl err, w) \<Rightarrow> (Ret (Inl err), w)
           | (Inr resp, w) \<Rightarrow> (Ret (Inr (case resp of None \<Rightarrow> EmptyString | Some r \<Rightarrow> akn_Name r)), w)))"

(* internal/service/agent_service.go:268-270 agentSrv.getLocalFeed *)
definition getLocalFeed :: "('c, 'w) agentSrv \<Rightarrow> string" where
  "getLocalFeed a = URLlocalFeed (http_Addr (cfg_HTTP (sv_config a)))"

(* internal/service/agent_service.go:122-178 agentSrv.RegisterAgent *)
definition RegisterAgent :: "json_agent_srv \<Rightarrow> AgentRegisterRequest \<Rightarrow> ('c, 'w) agentSrv \<times> 'w
    \<Rightarrow> AgentRegisterResponse res ret \<times> ('c, 'w) agentSrv \<times> 'w" where
  "RegisterAgent js req aw =
     (case aw of (a, w) \<Rightarrow>
      if sv_agentInfo a \<noteq> None then (Ret (Inl (WithDetail ''signing agent already registered'' ErrBadRequest)), a, w)
      else
      (case sv_genKeysFunc a w of
         (Inl err, w) \<Rightarrow> (Ret (Inl (WithDetail ''failed to generate keys'' ErrInternal)), a, w)
       | (Inr (blsKeyPub, blsKeyPriv, ecKeyPub, ecKeyPriv), w) \<Rightarrow>
      (case he_Initiate (sv_authProvider a) (arr_WorkspaceID req) (arr_Secret req) (arr_APIKeyID req) w of
         (Panic, w) \<Rightarrow> (Panic, a, w)
       | (Ret (Some err), w) \<Rightarrow> (Ret (Inl (WithDetail ''failed to initiate the auth provider'' ErrInternal)), a, w)
       | (Ret None, w) \<Rightarrow>
      (case updateAPIKey js a (arr_APIKeyID req) (arr_WorkspaceID req) blsKeyPub ecKeyPub w of
         (Inl err, w) \<Rightarrow> (Ret (Inl (WithDetail ''failed to register agent'' ErrInternal)), a, w)
       | (Inr actionID, w) \<Rightarrow>
      (case si_SetKey (sv_signer a) blsKeyPriv w of
         (Some err, w) \<Rightarrow> (Ret (Inl (WithDetail ''failed to setup signer'' ErrInternal)), a, w)
       | (None, w) \<Rightarrow>
      (case si_ActionApprove (sv_signer a) actionID w of
         (Panic, w) \<Rightarrow> (Panic, a, w)
       | (Ret (Some err), w) \<Rightarrow> (Ret (Inl err), a, w)
       | (Ret None, w) \<Rightarrow>
           let info = \<lparr>ag_BLSPrivateKey = blsKeyPriv, ag_ECPrivateKey = ecKeyPriv, ag_WorkspaceID = arr_WorkspaceID req,
                 ag_APIKeyID = arr_APIKeyID req, ag_APIKeySecret = arr_Secret req\<rparr>;
               a = a\<lparr>sv_agentInfo := Some info\<rparr> in
      (case sv_store a (arr_APIKeyID req) (sv_agentInfo a) w of
         (Panic, w) \<Rightarrow> (Panic, a, w)
       | (Ret (Some err), w) \<Rightarrow> (Ret (Inl (WithDetail ''failed to save agent info'' ErrInternal)), a, w)
       | (Ret None, w) \<Rightarrow>
      (case getAgentName js a w of
         (Panic, w) \<Rightarrow> (Panic, a, w)
       | (Ret (Inl err), w) \<Rightarrow> (Ret (Inl (WithDetail ''failed to get agent name'' ErrInternal)), a, w)
       | (Ret (Inr name), w) \<Rightarrow>
           (Ret (Inr \<lparr>gad_Name = name, gad_AgentID = arr_APIKeyID req, gad_FeedURL = getLocalFeed a\<rparr>), a, w)))))))))"

(* internal/service/agent_service.go:180-189 agentSrv.GetWebsocketStatus *)
definition srv_GetWebsocketStatus :: "('c, 'w) agentSrv \<Rightarrow> 'w \<Rightarrow> HealthCheckStatusResponse" where
  "srv_GetWebsocketStatus h w =
     \<lparr>hc_WebsocketStatus = hu_GetWebsocketStatus (sv_feedHub h) w, hc_LocalFeedUrl = getLocalFeed h\<rparr>"

(* internal/service/agent_service.go:191-207 agentSrv.GetAgentDetails *)
definition GetAgentDetails :: "json_agent_srv \<Rightarrow> ('c, 'w) agentSrv \<Rightarrow> 'w \<Rightarrow> GetAgentDetailsResponse res ret \<times> 'w" where
  "GetAgentDetails js a w =
     (case sv_agentInfo a of
        None \<Rightarrow> (Ret (Inl (WithDetail ''agent not registered'' ErrNotFound)), w)
      | Some info \<Rightarrow>
          (case getAgentName js a w of
             (Panic, w) \<Rightarrow> (Panic, w)
           | (Ret (Inl err), w) \<Rightarrow> (Ret (Inl (WithDetail ''failed to get agent name'' ErrInternal)), w)
           | (Ret (Inr name), w) \<Rightarrow>
               (Ret (Inr \<lparr>gad_Name = name, gad_AgentID = ag_APIKeyID info, gad_FeedURL = getLocalFeed a\<rparr>), w)))"

(* internal/service/agent_service.go:258-266 agentSrv.newClientFeed *)
definition srv_newClientFeed :: "('c, 'w) agentSrv \<Rightarrow> 'w \<Rightarrow> 'w client_api option \<times> 'w" where
  "srv_newClientFeed a w =
     (case sv_upgrader a w of
        (Inl err, w) \<Rightarrow> (None, w)
      | (Inr conn, w) \<Rightarrow>
          (case sv_newClientFeedFunc a conn (hu_UnregisterClient (sv_feedHub a)) (cfg_Websocket (sv_config a)) w of
             (c, w) \<Rightarrow> (Some c, w)))"

(* internal/service/agent_service.go:209-228 agentSrv.RegisterClientFeed *)
definition RegisterClientFeed :: "('c, 'w) agentSrv \<Rightarrow> 'w \<Rightarrow> unit ret \<times> 'w" where
  "RegisterClientFeed a w =
     (if \<not> hu_IsRunning (sv_feedHub a) w then (Ret (), w)
      else (case srv_newClientFeed a w of
              (None, w) \<Rightarrow> (Ret (), w)
            | (Some c, w) \<Rightarrow> hu_RegisterClient (sv_feedHub a) (cf_GetFeedClient c) (cf_Listen c (cf_Start c w))))"

section \<open>The calls of a registration\<close>

datatype reg_event =
    GenKeys "(string \<times> string \<times> string \<times> string) res"
  | InitAuth string string string "gerr option ret"
  | Sent http_request "http_response res"
  | SetSignerKey string "gerr option"
  | ApproveAction string "gerr option ret"
  | SaveInfo string "AgentInfo option" "gerr option ret"

definition reg_noted :: "('r \<Rightarrow> reg_event) \<Rightarrow> ('w \<Rightarrow> 'r \<times> 'w) \<Rightarrow> 'w \<times> reg_event list \<Rightarrow> 'r \<times> 'w \<times> reg_event list" where
  "reg_noted ev f wl = (case wl of (w, l) \<Rightarrow> (case f w of (r, w) \<Rightarrow> (r, w, l @ [ev r])))"

definition unnoted :: "('w \<Rightarrow> 'r \<times> 'w) \<Rightarrow> 'w \<times> reg_event list \<Rightarrow> 'r \<times> 'w \<times> reg_event list" where
  "unnoted f wl = (case wl of (w, l) \<Rightarrow> (case f w of (r, w) \<Rightarrow> (r, w, l)))"

text \<open>The same service, with the calls of a registration recorded. Clients and auto approver take no part in it.\<close>

definition traced_agent :: "('c, 'w) agentSrv \<Rightarrow> ('c, 'w \<times> reg_event list) agentSrv" where
  "traced_agent a = \<lparr>
     sv_htc = \<lparr>http_NewRequest = http_NewRequest (sv_htc a), http_Do = (\<lambda>q. reg_noted (Sent q) (http_Do (sv_htc a) q))\<rparr>,
     sv_store = (\<lambda>i info. reg_noted (SaveInfo i info) (sv_store a i info)),
     sv_config = sv_config a,
     sv_authProvider = \<lparr>he_Initiate = (\<lambda>ws s k. reg_noted (InitAuth ws s k) (he_Initiate (sv_authProvider a) ws s k)),
       he_GetAuthHeader = (\<lambda>(w, l). he_GetAuthHeader (sv_authProvider a) w), he_Stop = unnoted (he_Stop (sv_authProvider a))\<rparr>,
     sv_signer = \<lparr>si_SetKey = (\<lambda>k. reg_noted (SetSignerKey k) (si_SetKey (sv_signer a) k)),
       si_ActionApprove = (\<lambda>i. reg_noted (ApproveAction i) (si_ActionApprove (sv_signer a) i)),
       si_ActionReject = (\<lambda>i. unnoted (si_ActionReject (sv_signer a) i)),
       si_ApproveActionMessage = (\<lambda>i m. unnoted (si_ApproveActionMessage (sv_signer a) i m))\<rparr>,
     sv_feedHub = \<lparr>hu_Run = unnoted (hu_Run (sv_feedHub a)), hu_Stop = unnoted (hu_Stop (sv_feedHub a)),
       hu_RegisterClient = (\<lambda>c. unnoted (hu_RegisterClient (sv_feedHub a) c)),
       hu_UnregisterClient = (\<lambda>c. unnoted (hu_UnregisterClient (sv_feedHub a) c)),
       hu_IsRunning = (\<lambda>(w, l). hu_IsRunning (sv_feedHub a) w),
       hu_GetWebsocketStatus = (\<lambda>(w, l). hu_GetWebsocketStatus (sv_feedHub a) w)\<rparr>,
     sv_upgrader = unnoted (sv_upgrader a),
     sv_newClientFeedFunc = (\<lambda>conn u conf wl. (\<lparr>cf_Start = id, cf_Listen = id, cf_GetFeedClient = \<lparr>fc_Feed = 0, fc_IsInternal = False\<rparr>\<rparr>, wl)),
     sv_autoApprover = None,
     sv_agentInfo = sv_agentInfo a,
     sv_genKeysFunc = reg_noted GenKeys (sv_genKeysFunc a)\<rparr>"

text \<open>The place of a call in the order of a registration, and whether it succeeded.\<close>

fun ev_rank :: "reg_event \<Rightarrow> nat" where
  "ev_rank (GenKeys r) = 0"
| "ev_rank (InitAuth ws s k r) = 1"
| "ev_rank (Sent q r) = (if rq_method q = ''PUT'' then 2 else 6)"
| "ev_rank (SetSignerKey k r) = 3"
| "ev_rank (ApproveAction i r) = 4"
| "ev_rank (SaveInfo i info r) = 5"

definition answered :: "(bytes \<Rightarrow> 'r res) \<Rightarrow> http_response res \<Rightarrow> 'r option" where
  "answered dec r = (case r of Inl e \<Rightarrow> None | Inr resp \<Rightarrow>
     (case response_result resp (JsonData dec) of Inr (Some v) \<Rightarrow> Some v | _ \<Rightarrow> None))"

fun ev_ok :: "json_agent_srv \<Rightarrow> reg_event \<Rightarrow> bool" where
  "ev_ok js (GenKeys r) = (\<exists>k. r = Inr k)"
| "ev_ok js (InitAuth ws s k r) = (r = Ret None)"
| "ev_ok js (Sent q r) = (if rq_method q = ''PUT'' then answered (jv_action js) r \<noteq> None else answered (jv_name js) r \<noteq> None)"
| "ev_ok js (SetSignerKey k r) = (r = None)"
| "ev_ok js (ApproveAction i r) = (r = Ret None)"
| "ev_ok js (SaveInfo i info r) = (r = Ret None)"

lemma traced_sel [simp]:
  "sv_agentInfo (traced_agent a) = sv_agentInfo a" "sv_config (traced_agent a) = sv_config a"
  "sv_genKeysFunc (traced_agent a) (w, l) = (case sv_genKeysFunc a w of (r, w) \<Rightarrow> (r, w, l @ [GenKeys r]))"
  "he_Initiate (sv_authProvider (traced_agent a)) ws s k (w, l) =
     (case he_Initiate (sv_authProvider a) ws s k w of (r, w) \<Rightarrow> (r, w, l @ [InitAuth ws s k r]))"
  "he_GetAuthHeader (sv_authProvider (traced_agent a)) (w, l) = he_GetAuthHeader (sv_authProvider a) w"
  "si_SetKey (sv_signer (traced_agent a)) k (w, l) = (case si_SetKey (sv_signer a) k w of (r, w) \<Rightarrow> (r, w, l @ [SetSignerKey k r]))"
  "si_ActionApprove (sv_signer (traced_agent a)) i (w, l) =
     (case si_ActionApprove (sv_signer a) i w of (r, w) \<Rightarrow> (r, w, l @ [ApproveAction i r]))"
  "sv_store (traced_agent a) i info (w, l) = (case sv_store a i info w of (r, w) \<Rightarrow> (r, w, l @ [SaveInfo i info r]))"
  "http_NewRequest (sv_htc (traced_agent a)) = http_NewRequest (sv_htc a)"
  "http_Do (sv_htc (traced_agent a)) q (w, l) = (case http_Do (sv_htc a) q w of (r, w) \<Rightarrow> (r, w, l @ [Sent q r]))"
  by (simp_all add: traced_agent_def reg_noted_def)

lemma Request_traced:
  assumes "Request (sv_htc (traced_agent a)) m url body (JsonData dec) hdr (w, l) = (res, w', l')"
  shows "(\<exists>e. res = Inl e \<and> l' = l) \<or> (\<exists>b r. l' = l @ [Sent (sent m url b hdr) r] \<and>
     (case res of Inl e \<Rightarrow> answered dec r = None | Inr x \<Rightarrow> x = answered dec r \<and> x \<noteq> None))"
proof (cases "(\<exists>e. body = Some (Inl e)) \<or> http_NewRequest (sv_htc a) m url \<noteq> None")
  case True
  then show ?thesis using assms by (auto simp: Request_def Let_def split: option.splits sum.splits)
next
  case False
  then have "body = map_option Inr (map_option projr body)" by (cases body) (auto, metis sum.collapse(2) isl_def)
  then obtain b where b: "body = map_option Inr b" by blast
  have n: "http_NewRequest (sv_htc (traced_agent a)) m url = None" using False by simp
  obtain r w1 where d: "http_Do (sv_htc a) (sent m url b hdr) w = (r, w1)" by fastforce
  show ?thesis
  proof (cases r)
    case (Inl e)
    then show ?thesis using assms d unfolding b Request_eq [OF n] by (auto simp: answered_def)
  next
    case (Inr resp)
    have l: "l' = l @ [Sent (sent m url b hdr) r]" "res = response_result resp (JsonData dec)"
      using assms d Inr unfolding b Request_eq [OF n] by auto
    have "case res of Inl e \<Rightarrow> answered dec r = None | Inr x \<Rightarrow> x = answered dec r \<and> x \<noteq> None"
    proof (cases res)
      case (Inr x)
      then have "x \<noteq> None" using l(2) by (auto simp: response_result_def split: sum.splits if_splits)
      then show ?thesis using Inr l(2) \<open>r = Inr resp\<close> by (auto simp: answered_def)
    qed (use l Inr in \<open>auto simp: answered_def\<close>)
    with l show ?thesis by blast
  qed
qed

lemma updateAPIKey_traced:
  assumes "updateAPIKey js (traced_agent a) kid ws bk ek (w, l) = (res, w', l')"
  shows "(\<exists>e. res = Inl e \<and> l' = l) \<or> (\<exists>q r. l' = l @ [Sent q r] \<and> rq_method q = ''PUT'' \<and>
     rq_url q = URLAPIKey (QredoAPI (cfg_Base (sv_config a))) ws kid \<and>
     (case res of Inl e \<Rightarrow> answered (jv_action js) r = None | Inr i \<Rightarrow> map_option aar_ActionID (answered (jv_action js) r) = Some i))"
proof -
  obtain h b x w1 l1 where q: "Request (sv_htc (traced_agent a)) ''PUT'' (URLAPIKey (QredoAPI (cfg_Base (sv_config a))) ws kid)
      (Some b) (JsonData (jv_action js)) (Some h) (w, l) = (x, w1, l1)"
    and res: "w1 = w'" "l1 = l'" "res = (case x of Inl e \<Rightarrow> Inl e | Inr resp \<Rightarrow> Inr (case resp of None \<Rightarrow> EmptyString | Some r \<Rightarrow> aar_ActionID r))"
    using assms by (auto simp: updateAPIKey_def Let_def split: prod.splits sum.splits)
  show ?thesis using Request_traced [OF q] res by (auto simp: sent_def split: sum.splits option.splits)
qed

lemma getAgentName_traced:
  assumes "getAgentName js (traced_agent a\<lparr>sv_agentInfo := Some info\<rparr>) (w, l) = (res, w', l')"
  shows "(\<exists>e. res = Ret (Inl e) \<and> l' = l) \<or> (\<exists>q r. l' = l @ [Sent q r] \<and> rq_method q = ''GET'' \<and>
     (case res of Panic \<Rightarrow> False | Ret (Inl e) \<Rightarrow> answered (jv_name js) r = None
      | Ret (Inr i) \<Rightarrow> map_option akn_Name (answered (jv_name js) r) = Some i))"
proof -
  obtain h u x w1 l1 where q: "Request (sv_htc (traced_agent a)) ''GET'' u None (JsonData (jv_name js)) (Some h) (w, l) = (x, w1, l1)"
    and res: "w1 = w'" "l1 = l'" "res = (case x of Inl e \<Rightarrow> Ret (Inl e) | Inr resp \<Rightarrow> Ret (Inr (case resp of None \<Rightarrow> EmptyString | Some r \<Rightarrow> akn_Name r)))"
    using assms by (auto simp: getAgentName_def Let_def split: prod.splits sum.splits)
  show ?thesis using Request_traced [OF q] res by (auto simp: sent_def split: sum.splits option.splits)
qed

text \<open>
  The calls \<open>es\<close> of a registration with request \<open>req\<close>, its result and the agent info it leaves: they follow the
  order of the code, each but the last succeeded, and what they pass on belongs together.
\<close>

definition agent_of :: "AgentRegisterRequest \<Rightarrow> string \<Rightarrow> string \<Rightarrow> AgentInfo" where
  "agent_of req blsKey ecKey = \<lparr>ag_BLSPrivateKey = blsKey, ag_ECPrivateKey = ecKey, ag_WorkspaceID = arr_WorkspaceID req,
     ag_APIKeyID = arr_APIKeyID req, ag_APIKeySecret = arr_Secret req\<rparr>"

definition reg_calls :: "json_agent_srv \<Rightarrow> AgentRegisterRequest \<Rightarrow> reg_event list \<Rightarrow> AgentRegisterResponse res ret \<Rightarrow> AgentInfo option \<Rightarrow> bool" where
  "reg_calls js req es out info \<longleftrightarrow>
     (\<exists>n \<le> 7. map ev_rank es = [0..<n]) \<and> (\<forall>e \<in> set (butlast es). ev_ok js e) \<and>
     (\<forall>k r. SetSignerKey k r \<in> set es \<longrightarrow> (\<exists>bp ep es'. GenKeys (Inr (bp, k, ep, es')) \<in> set es)) \<and>
     (\<forall>i r. ApproveAction i r \<in> set es \<longrightarrow> (\<exists>q p. Sent q p \<in> set es \<and> map_option aar_ActionID (answered (jv_action js) p) = Some i)) \<and>
     (\<forall>i inf r. SaveInfo i inf r \<in> set es \<longrightarrow> i = arr_APIKeyID req \<and> inf = info \<and>
        (\<exists>bp bs ep es'. GenKeys (Inr (bp, bs, ep, es')) \<in> set es \<and> info = Some (agent_of req bs es'))) \<and>
     (info \<noteq> None \<longleftrightarrow> (\<exists>i. ApproveAction i (Ret None) \<in> set es)) \<and>
     ((\<exists>x. out = Ret (Inr x)) \<longleftrightarrow> length es = 7 \<and> (\<forall>e \<in> set es. ev_ok js e))"

lemma upt_small: "[0..<0] = []" "[0..<1] = [0]" "[0..<2] = [0, 1]" "[0..<3] = [0, 1, 2]" "[0..<4] = [0, 1, 2, 3]"
  "[0..<5] = [0, 1, 2, 3, 4]" "[0..<6] = [0, 1, 2, 3, 4, 5]" "[0..<7] = [0, 1, 2, 3, 4, 5, 6 :: nat]"
  by code_simp+

lemma rank_prefix:
  "n \<le> 7 \<Longrightarrow> rs = [0..<n] \<Longrightarrow> \<exists>n \<le> 7. rs = [0..<n :: nat]"
  by blast

text \<open>
  The rest of a registration once the agent info is stored, once the server has answered with the action, and from
  its start; \<open>start_calls\<close> are the calls up to the fetch of the token.
\<close>

definition start_calls :: "AgentRegisterRequest \<Rightarrow> string \<times> string \<times> string \<times> string \<Rightarrow> reg_event list" where
  "start_calls req keys = [GenKeys (Inr keys), InitAuth (arr_WorkspaceID req) (arr_Secret req) (arr_APIKeyID req) (Ret None)]"

lemma register_stored:
  fixes a :: "('c, 'w) agentSrv"
  assumes G: "getAgentName js (traced_agent a\<lparr>sv_agentInfo := Some (agent_of req bs eks)\<rparr>) (w, l) = (g, w', l')"
    and l: "l = start_calls req (bp, bs, ep, eks) @ [Sent q p, SetSignerKey bs None, ApproveAction aid (Ret None),
      SaveInfo (arr_APIKeyID req) (Some (agent_of req bs eks)) (Ret None)]"
    and p: "rq_method q = ''PUT''" "answered (jv_action js) p = Some y" "aar_ActionID y = aid"
    and out: "(\<exists>x. out = Ret (Inr x)) \<longleftrightarrow> (\<exists>name. g = Ret (Inr name))"
  shows "reg_calls js req l' out (Some (agent_of req bs eks))"
proof (cases "\<exists>e. g = Ret (Inl e) \<and> l' = l")
  case True
  then show ?thesis using l p out by (auto simp: start_calls_def reg_calls_def upt_small intro!: rank_prefix [of 6])
next
  case False
  then obtain q2 r2 where S: "l' = l @ [Sent q2 r2]" "rq_method q2 = ''GET''"
    "case g of Panic \<Rightarrow> False | Ret (Inl e) \<Rightarrow> answered (jv_name js) r2 = None
      | Ret (Inr i) \<Rightarrow> map_option akn_Name (answered (jv_name js) r2) = Some i" using getAgentName_traced [OF G] by auto
  have "(\<exists>x. out = Ret (Inr x)) \<longleftrightarrow> answered (jv_name js) r2 \<noteq> None"
    using out S(3) by (auto split: ret.splits sum.splits)
  then show ?thesis using l S(1,2) p by (auto simp: start_calls_def reg_calls_def upt_small intro!: rank_prefix [of 7])
qed

lemma register_answered:
  fixes a :: "('c, 'w) agentSrv"
  assumes run: "RegisterAgent js req (traced_agent a, w, []) = (out, a', w', es)"
    and a: "sv_agentInfo a = None" "sv_genKeysFunc a w = (Inr (bp, bs, ep, eks), w1)"
    "he_Initiate (sv_authProvider a) (arr_WorkspaceID req) (arr_Secret req) (arr_APIKeyID req) w1 = (Ret None, w2)"
    and u: "updateAPIKey js (traced_agent a) (arr_APIKeyID req) (arr_WorkspaceID req) bp ep (w2, start_calls req (bp, bs, ep, eks)) =
      (Inr aid, w3, start_calls req (bp, bs, ep, eks) @ [Sent q p])"
    and p: "rq_method q = ''PUT''" "answered (jv_action js) p = Some y" "aar_ActionID y = aid"
  shows "reg_calls js req es out (sv_agentInfo a')"
proof -
  obtain rs w4 where st: "si_SetKey (sv_signer a) bs w3 = (rs, w4)" by fastforce
  obtain ra w5 where ap: "si_ActionApprove (sv_signer a) aid w4 = (ra, w5)" by fastforce
  obtain rv w6 where sv: "sv_store a (arr_APIKeyID req) (Some (agent_of req bs eks)) w5 = (rv, w6)" by fastforce
  note R = RegisterAgent_def a u [unfolded start_calls_def] start_calls_def st ap agent_of_def [symmetric] sv Let_def
  consider "rs \<noteq> None" | "rs = None" "ra \<noteq> Ret None" | "rs = None" "ra = Ret None" "rv \<noteq> Ret None"
    | "rs = None" "ra = Ret None" "rv = Ret None" by blast
  then show ?thesis
  proof cases
    case 1
    then show ?thesis using run p by (auto simp: R reg_calls_def upt_small intro!: rank_prefix [of 4])
  next
    case 2
    then show ?thesis using run p by (cases ra; cases "case ra of Ret x \<Rightarrow> x | Panic \<Rightarrow> None")
      (auto simp: R reg_calls_def upt_small intro!: rank_prefix [of 5])
  next
    case 3
    then show ?thesis using run p by (cases rv; cases "case rv of Ret x \<Rightarrow> x | Panic \<Rightarrow> None")
      (auto simp: R reg_calls_def upt_small intro!: rank_prefix [of 6])
  next
    case 4
    let ?l = "start_calls req (bp, bs, ep, eks) @ [Sent q p, SetSignerKey bs None, ApproveAction aid (Ret None),
      SaveInfo (arr_APIKeyID req) (Some (agent_of req bs eks)) (Ret None)]"
    obtain g w7 l7 where g: "getAgentName js (traced_agent a\<lparr>sv_agentInfo := Some (agent_of req bs eks)\<rparr>) (w6, ?l) = (g, w7, l7)"
      by (metis prod.exhaust)
    then show ?thesis using register_stored [OF g refl p, of out] run 4
      by (auto simp: R split: ret.splits sum.splits)
  qed
qed

lemma register_starts:
  fixes a :: "('c, 'w) agentSrv"
  assumes run: "RegisterAgent js req (traced_agent a, w, []) = (out, a', w', es)" and a: "sv_agentInfo a = None"
  shows "reg_calls js req es out (sv_agentInfo a')"
proof -
  obtain k w1 where k: "sv_genKeysFunc a w = (k, w1)" by fastforce
  obtain ri w2 where i: "he_Initiate (sv_authProvider a) (arr_WorkspaceID req) (arr_Secret req) (arr_APIKeyID req) w1 = (ri, w2)" by fastforce
  consider e where "k = Inl e" | bp bs ep eks where "k = Inr (bp, bs, ep, eks)" "ri \<noteq> Ret None"
    | bp bs ep eks where "k = Inr (bp, bs, ep, eks)" "ri = Ret None" by (metis sum.exhaust prod_cases4)
  then show ?thesis
  proof cases
    case 1
    then show ?thesis using run a k by (auto simp: RegisterAgent_def reg_calls_def upt_small intro!: rank_prefix [of 1])
  next
    case 2
    then show ?thesis using run a k i by (cases ri; cases "case ri of Ret x \<Rightarrow> x | Panic \<Rightarrow> None")
      (auto simp: RegisterAgent_def reg_calls_def upt_small intro!: rank_prefix [of 2])
  next
    case 3
    let ?l = "start_calls req (bp, bs, ep, eks)"
    obtain u w3 l3 where u: "updateAPIKey js (traced_agent a) (arr_APIKeyID req) (arr_WorkspaceID req) bp ep (w2, ?l) = (u, w3, l3)"
      by (metis prod.exhaust)
    show ?thesis
    proof (cases u)
      case (Inl e)
      then show ?thesis using run a k i 3 u updateAPIKey_traced [OF u]
        by (auto simp: RegisterAgent_def start_calls_def reg_calls_def upt_small intro: rank_prefix [of 2] rank_prefix [of 3])
    next
      case (Inr aid)
      then obtain q p y where P: "l3 = ?l @ [Sent q p]" "rq_method q = ''PUT''" "answered (jv_action js) p = Some y" "aar_ActionID y = aid"
        using updateAPIKey_traced [OF u] by auto
      show ?thesis using register_answered [OF run a _ _ _ P(2-4)] k i 3 u Inr P(1) by simp
    qed
  qed
qed

text \<open>
  C9. The calls of a registration: keys are generated, the token is fetched with the credentials of the request,
  the public keys are sent, the signer gets the private key, the action that came back is approved, agent
  info with the private keys is stored under the agent's identifier, and the name is fetched; in this
  order, each only after the one before succeeded, so the list of calls is a prefix of these seven. The
  agent counts as registered exactly if the approval succeeded, whether or not it was stored; success
  is reported exactly if all seven succeeded. An agent that is registered already makes no call.
\<close>

theorem RegisterAgent_calls:
  assumes run: "RegisterAgent js req (traced_agent a, w, []) = (out, a', w', es)"
  shows "if sv_agentInfo a = None then reg_calls js req es out (sv_agentInfo a')
    else es = [] \<and> out = Ret (Inl (ApiError 400 ''signing agent already registered'' None)) \<and> sv_agentInfo a' = sv_agentInfo a"
  using register_starts [OF run] run by (auto simp: RegisterAgent_def ErrBadRequest_def)

text \<open>
  If the agent info cannot be stored the registration fails, but the agent counts as registered from then
  on: it answers for its details, and every further registration is refused, while after a restart nothing
  of it is left unless the store kept it. The agent cannot be registered again without a restart, although
  the server has its keys.
\<close>

theorem failed_save_blocks_registration:
  fixes a :: "('c, 'w) agentSrv"
  assumes a: "sv_agentInfo a = None" "sv_genKeysFunc a w = (Inr (bp, bs, ep, es), w1)"
    "he_Initiate (sv_authProvider a) (arr_WorkspaceID req) (arr_Secret req) (arr_APIKeyID req) w1 = (Ret None, w2)"
    "updateAPIKey js a (arr_APIKeyID req) (arr_WorkspaceID req) bp ep w2 = (Inr i, w3)"
    "si_SetKey (sv_signer a) bs w3 = (None, w4)" "si_ActionApprove (sv_signer a) i w4 = (Ret None, w5)"
    and fails: "sv_store a (arr_APIKeyID req) (Some (agent_of req bs es)) w5 = (Ret (Some err), w6)"
  shows "\<exists>a'. RegisterAgent js req (a, w) = (Ret (Inl (ApiError 500 ''failed to save agent info'' None)), a', w6) \<and>
    sv_agentInfo a' = Some (agent_of req bs es) \<and>
    (\<forall>req' v. RegisterAgent js req' (a', v) = (Ret (Inl (ApiError 400 ''signing agent already registered'' None)), a', v)) \<and>
    (\<forall>v. fst (GetAgentDetails js a' v) \<noteq> Ret (Inl (ApiError 404 ''agent not registered'' None)))"
proof -
  let ?a = "a\<lparr>sv_agentInfo := Some (agent_of req bs es)\<rparr>"
  have "RegisterAgent js req (a, w) = (Ret (Inl (ApiError 500 ''failed to save agent info'' None)), ?a, w6)"
    using assms by (simp add: RegisterAgent_def agent_of_def ErrInternal_def)
  moreover have "RegisterAgent js req' (?a, v) = (Ret (Inl (ApiError 400 ''signing agent already registered'' None)), ?a, v)" for req' v
    by (simp add: RegisterAgent_def ErrBadRequest_def)
  moreover have "fst (GetAgentDetails js ?a v) \<noteq> Ret (Inl (ApiError 404 ''agent not registered'' None))" for v
    by (auto simp: GetAgentDetails_def ErrInternal_def split: prod.splits ret.splits sum.splits)
  ultimately show ?thesis by (intro exI [of _ ?a]) simp
qed

section \<open>A concrete registration\<close>

text \<open>Every call succeeds, except for the store, whose result is an argument. The world counts the requests.\<close>

definition demo_srv :: "gerr option \<Rightarrow> (nat, nat) agentSrv" where
  "demo_srv saved = \<lparr>
     sv_htc = \<lparr>http_NewRequest = (\<lambda>m u. None), http_Do = (\<lambda>q n. (Inr \<lparr>rs_StatusCode = 200, rs_Body = Inr [1]\<rparr>, Suc n))\<rparr>,
     sv_store = (\<lambda>i info n. (Ret saved, n)),
     sv_config = Config_Default zero_Config,
     sv_authProvider = \<lparr>he_Initiate = (\<lambda>ws s k n. (Ret None, n)), he_GetAuthHeader = (\<lambda>n. []), he_Stop = (\<lambda>n. (Ret (), n))\<rparr>,
     sv_signer = \<lparr>si_SetKey = (\<lambda>k n. (None, n)), si_ActionApprove = (\<lambda>i n. (Ret None, n)),
       si_ActionReject = (\<lambda>i n. (Ret None, n)), si_ApproveActionMessage = (\<lambda>i m n. (Ret None, n))\<rparr>,
     sv_feedHub = \<lparr>hu_Run = (\<lambda>n. (True, n)), hu_Stop = (\<lambda>n. (Ret (), n)), hu_RegisterClient = (\<lambda>c n. (Ret (), n)),
       hu_UnregisterClient = (\<lambda>c n. (Ret (), n)), hu_IsRunning = (\<lambda>n. True),
       hu_GetWebsocketStatus = (\<lambda>n. \<lparr>ws_ReadyState = Open, ws_RemoteFeedUrl = [], ws_ConnectedClients = 0\<rparr>)\<rparr>,
     sv_upgrader = (\<lambda>n. (Inr 0, n)),
     sv_newClientFeedFunc = (\<lambda>conn u conf n. (\<lparr>cf_Start = id, cf_Listen = id, cf_GetFeedClient = \<lparr>fc_Feed = 0, fc_IsInternal = False\<rparr>\<rparr>, n)),
     sv_autoApprover = None, sv_agentInfo = None,
     sv_genKeysFunc = (\<lambda>n. (Inr (''bp'', ''bs'', ''ep'', ''es''), n))\<rparr>"

definition demo_srv_json :: json_agent_srv where
  "demo_srv_json = \<lparr>jv_encode = (\<lambda>r. Inr [2]), jv_action = (\<lambda>b. Inr \<lparr>aar_ActionID = ''x''\<rparr>), jv_name = (\<lambda>b. Inr \<lparr>akn_Name = ''n''\<rparr>)\<rparr>"

definition demo_request :: AgentRegisterRequest where
  "demo_request = \<lparr>arr_APIKeyID = ''k'', arr_Secret = ''s'', arr_WorkspaceID = ''w''\<rparr>"

lemma demo_srv_sel [simp]:
  "sv_agentInfo (demo_srv saved) = None" "sv_genKeysFunc (demo_srv saved) n = (Inr (''bp'', ''bs'', ''ep'', ''es''), n)"
  "he_Initiate (sv_authProvider (demo_srv saved)) ws s k n = (Ret None, n)"
  "si_SetKey (sv_signer (demo_srv saved)) k n = (None, n)" "si_ActionApprove (sv_signer (demo_srv saved)) i n = (Ret None, n)"
  "sv_store (demo_srv saved) i info n = (Ret saved, n)" "he_GetAuthHeader (sv_authProvider (demo_srv saved)) n = []"
  "http_NewRequest (sv_htc (demo_srv saved)) m u = None"
  "http_Do (sv_htc (demo_srv saved)) q n = (Inr \<lparr>rs_StatusCode = 200, rs_Body = Inr [1]\<rparr>, Suc n)"
  by (simp_all add: demo_srv_def)

lemmas demo_register = RegisterAgent_def updateAPIKey_def getAgentName_def Request_def Let_def demo_srv_json_def demo_request_def

theorem RegisterAgent_calls_witness:
  "\<exists>x a' es. RegisterAgent demo_srv_json demo_request (traced_agent (demo_srv None), 0, []) = (Ret (Inr x), a', 2, es) \<and>
    reg_calls demo_srv_json demo_request es (Ret (Inr x)) (sv_agentInfo a')"
proof -
  obtain x a' es where r: "RegisterAgent demo_srv_json demo_request (traced_agent (demo_srv None), 0, []) = (Ret (Inr x), a', 2, es)"
    by (simp add: demo_register)
  from RegisterAgent_calls [OF r] have "reg_calls demo_srv_json demo_request es (Ret (Inr x)) (sv_agentInfo a')" by simp
  with r show ?thesis by blast
qed

theorem failed_save_blocks_registration_witness:
  "\<exists>a'. RegisterAgent demo_srv_json demo_request (demo_srv (Some (Foreign 5)), 0) =
      (Ret (Inl (ApiError 500 ''failed to save agent info'' None)), a', 1) \<and>
    RegisterAgent demo_srv_json demo_request (a', 1) = (Ret (Inl (ApiError 400 ''signing agent already registered'' None)), a', 1)"
proof -
  have u: "updateAPIKey demo_srv_json (demo_srv (Some (Foreign 5))) ''k'' ''w'' ''bp'' ''ep'' 0 = (Inr ''x'', 1)"
    by (simp add: demo_register)
  show ?thesis
    using failed_save_blocks_registration [where a = "demo_srv (Some (Foreign 5))" and w = 0 and ?w1.0 = 0 and ?w2.0 = 0 and ?w3.0 = 1
        and ?w4.0 = 1 and ?w5.0 = 1 and ?w6.0 = 1 and js = demo_srv_json and req = demo_request and i = "''x''"
        and bp = "''bp''" and bs = "''bs''" and ep = "''ep''" and es = "''es''" and err = "Foreign 5"] u
    by (auto simp: demo_request_def)
qed

end
