(* ===== verification/Rest.thy ===== *)
theory Rest
  imports AgentService
begin

text \<open>
  \<open>internal/rest\<close>: the HTTP interface of the agent. A handler takes the request and the state of the services
  and returns a value or an error; \<open>ServeHTTP\<close> turns either into a response.

  \<open>net/http\<close>, \<open>gorilla/mux\<close> (matching a path with a template), \<open>gorilla/context\<close> (values attached to a
  request), \<open>encoding/json\<close> and the validator are parameters. A panic in a handler ends the request
  without a response and not the process, as \<open>net/http\<close> recovers it.
\<close>

section \<open>Requests and responses\<close>

record rest_request =
  rr_Method :: string
  rr_RequestURI :: string
  rr_Vars :: "string \<Rightarrow> string"
  rr_Connection :: string
  rr_Upgrade :: string
  rr_Body :: bytes

text \<open>What a handler returns: the types of \<open>internal/api\<close>, the configuration, or the struct for nil.\<close>

datatype rest_value =
    VVersion Version
  | VConfig Config
  | VStatus HealthCheckStatusResponse
  | VAgent GetAgentDetailsResponse
  | VAction ActionResponse
  | VCodeMsg nat string
  | VError nat string

text \<open>\<open>http.ResponseWriter\<close>: the first \<open>WriteHeader\<close> counts, and a \<open>Write\<close> before it sends status 200.\<close>

record response =
  rp_header :: header
  rp_status :: "nat option"
  rp_body :: bytes

definition no_response :: response where
  "no_response = \<lparr>rp_header = [], rp_status = None, rp_body = []\<rparr>"

definition rp_set :: "string \<Rightarrow> string \<Rightarrow> response \<Rightarrow> response" where
  "rp_set k v r = r\<lparr>rp_header := header_set k v (rp_header r)\<rparr>"

definition rp_WriteHeader :: "nat \<Rightarrow> response \<Rightarrow> response" where
  "rp_WriteHeader code r = (if rp_status r = None then r\<lparr>rp_status := Some code\<rparr> else r)"

definition rp_Write :: "bytes \<Rightarrow> response \<Rightarrow> response" where
  "rp_Write b r = (rp_WriteHeader 200 r)\<lparr>rp_body := rp_body r @ b\<rparr>"

section \<open>middleware.go\<close>

text \<open>The values attached to a request: the trace and the error, which the logging reads.\<close>

record attached =
  at_ctx :: "RequestContext option"
  at_error :: "gerr option"

(* internal/rest/middleware.go:50-54 loggingResponseWriter *)
record loggingResponseWriter =
  lw_response :: response
  lw_hijacked :: bool
  lw_statusCode :: nat

(* internal/rest/middleware.go:56-62 loggingResponseWriter.WriteHeader *)
definition lw_WriteHeader :: "nat \<Rightarrow> loggingResponseWriter \<Rightarrow> loggingResponseWriter" where
  "lw_WriteHeader code lrw =
     (if lw_hijacked lrw then lrw
      else lrw\<lparr>lw_statusCode := code, lw_response := rp_WriteHeader code (lw_response lrw)\<rparr>)"

text \<open>\<open>Write\<close> and \<open>Header\<close> are those of the embedded writer: the implicit status 200 is not recorded, but it is the initial one.\<close>

definition lw_Write :: "bytes \<Rightarrow> loggingResponseWriter \<Rightarrow> loggingResponseWriter" where
  "lw_Write b lrw = lrw\<lparr>lw_response := rp_Write b (lw_response lrw)\<rparr>"

definition lw_set :: "string \<Rightarrow> string \<Rightarrow> loggingResponseWriter \<Rightarrow> loggingResponseWriter" where
  "lw_set k v lrw = lrw\<lparr>lw_response := rp_set k v (lw_response lrw)\<rparr>"

text \<open>The first argument says if the embedded writer is a \<open>Hijacker\<close>; the hijacking itself is its own.\<close>

(* internal/rest/middleware.go:64-71 loggingResponseWriter.Hijack *)
definition lw_Hijack :: "bool \<Rightarrow> loggingResponseWriter \<Rightarrow> gerr option \<times> loggingResponseWriter" where
  "lw_Hijack hijacker lrw =
     (if \<not> hijacker then (Some (Errorf ''hijack not supported''), lrw) else (None, lrw\<lparr>lw_hijacked := True\<rparr>))"

datatype log_line = LogError string gerr | LogRequest string nat string string

section \<open>route.go\<close>

(* internal/rest/route.go:14-16 WrapPathPrefix *)
definition WrapPathPrefix :: "string \<Rightarrow> string" where
  "WrapPathPrefix uri = PathPrefix @ uri"

text \<open>The parameters: the encoder, and the text of errors of other packages.\<close>

record rest_lib =
  rl_encode :: "rest_value \<Rightarrow> bytes res"
  rl_text :: "gerr \<Rightarrow> string"

definition as_api_error :: "gerr \<Rightarrow> gerr" where
  "as_api_error err = (case errors_As err of Some e \<Rightarrow> e | None \<Rightarrow> APIError_Wrap err ErrInternal)"

text \<open>The error of \<open>json.Marshal\<close> in \<open>JSON\<close> is dropped, and nil is written.\<close>

(* internal/rest/route.go:68-80 writeHTTPError *)
definition writeHTTPError :: "rest_lib \<Rightarrow> gerr \<Rightarrow> attached \<times> loggingResponseWriter \<Rightarrow> attached \<times> loggingResponseWriter" where
  "writeHTTPError lib err aw =
     (case aw of (at, w) \<Rightarrow>
      let apiErr = as_api_error err;
          at = at\<lparr>at_error := Some apiErr\<rparr>;
          w = lw_set ''X-Content-Type-Options'' ''nosniff'' w;
          w = lw_WriteHeader (APIError_Code apiErr) w;
          data = (case APIError_JSON (rl_text lib) apiErr of (code, detail) \<Rightarrow>
            (case rl_encode lib (VError code detail) of Inl e \<Rightarrow> [] | Inr b \<Rightarrow> b)) in
      (at, lw_Write data w))"

(* internal/rest/route.go:43-66 formatJSONResp *)
definition formatJSONResp :: "rest_lib \<Rightarrow> rest_value option \<Rightarrow> gerr option \<Rightarrow> attached \<times> loggingResponseWriter \<Rightarrow> attached \<times> loggingResponseWriter" where
  "formatJSONResp lib v err aw =
     (case aw of (at, w) \<Rightarrow>
      let w = lw_set ''Content-Type'' ''application/json'' w in
      (case err of
         Some err \<Rightarrow> writeHTTPError lib err (at, w)
       | None \<Rightarrow>
           let v = (case v of None \<Rightarrow> VCodeMsg 200 (StatusText 200) | Some v \<Rightarrow> v) in
           (case rl_encode lib v of
              Inl err \<Rightarrow> writeHTTPError lib err (at, w)
            | Inr b \<Rightarrow> (at, lw_Write b w))))"

text \<open>A handler over the state \<open>'s\<close> of the services; it gets the writer only to hijack it.\<close>

type_synonym 's appHandlerFunc = "RequestContext \<Rightarrow> rest_request \<Rightarrow> attached \<times> loggingResponseWriter \<times> 's
  \<Rightarrow> rest_value option res ret \<times> attached \<times> loggingResponseWriter \<times> 's"

definition is_websocket :: "rest_request \<Rightarrow> bool" where
  "is_websocket r \<longleftrightarrow> string_of (ToLower (bytes_of (rr_Connection r))) = ''upgrade'' \<and>
     string_of (ToLower (bytes_of (rr_Upgrade r))) = ''websocket''"

(* internal/rest/route.go:20-41 appHandlerFunc.ServeHTTP *)
definition ServeHTTP :: "rest_lib \<Rightarrow> 's appHandlerFunc \<Rightarrow> rest_request \<Rightarrow> attached \<times> loggingResponseWriter \<times> 's
    \<Rightarrow> unit ret \<times> attached \<times> loggingResponseWriter \<times> 's" where
  "ServeHTTP lib a r st =
     (case a \<lparr>TraceID = []\<rparr> r st of
        (Panic, st) \<Rightarrow> (Panic, st)
      | (Ret resp, (at, w, s)) \<Rightarrow>
          if is_websocket r
          then (Ret (), (case resp of Inl err \<Rightarrow> at\<lparr>at_error := Some (as_api_error err)\<rparr> | Inr _ \<Rightarrow> at), w, s)
          else (case formatJSONResp lib (case resp of Inl _ \<Rightarrow> None | Inr v \<Rightarrow> v) (case resp of Inl err \<Rightarrow> Some err | Inr _ \<Rightarrow> None) (at, w) of
                  (at, w) \<Rightarrow> (Ret (), at, w, s)))"

(* internal/rest/middleware.go:33-42 Middleware.sessionMiddleware *)
definition sessionMiddleware :: "string \<Rightarrow> 's appHandlerFunc \<Rightarrow> 's appHandlerFunc" where
  "sessionMiddleware uuid next ctx r st =
     (case st of (at, ws) \<Rightarrow>
      let ctx = ctx\<lparr>TraceID := uuid\<rparr> in next ctx r (at\<lparr>at_ctx := Some ctx\<rparr>, ws))"

(* internal/rest/middleware.go:44-48 Middleware.notProtectedMiddleware *)
definition notProtectedMiddleware :: "'s appHandlerFunc \<Rightarrow> 's appHandlerFunc" where
  "notProtectedMiddleware next ctx r st = next ctx r st"

text \<open>What is logged after the request was served; a panic passes through and logs nothing.\<close>

(* internal/rest/middleware.go:73-115 Middleware.loggingMiddleware *)
definition loggingMiddleware :: "bool \<Rightarrow> (rest_request \<Rightarrow> attached \<times> loggingResponseWriter \<times> 's \<Rightarrow> unit ret \<times> attached \<times> loggingResponseWriter \<times> 's)
    \<Rightarrow> rest_request \<Rightarrow> 's \<Rightarrow> (log_line list \<times> response) ret \<times> 's" where
  "loggingMiddleware logAllRequests next r s =
     (let lw = \<lparr>lw_response = no_response, lw_hijacked = False, lw_statusCode = 200\<rparr> in
      (case next r (\<lparr>at_ctx = None, at_error = None\<rparr>, lw, s) of
         (Panic, at, lw, s) \<Rightarrow> (Panic, s)
       | (Ret _, at, lw, s) \<Rightarrow>
           let traceID = (case at_ctx at of None \<Rightarrow> [] | Some ctx \<Rightarrow> TraceID ctx);
               logs = (case at_error at of Some err \<Rightarrow> [LogError traceID err] | None \<Rightarrow> []);
               traceID = (if at_error at = None then [] else traceID);
               logs = logs @ (if logAllRequests \<or> rr_Method r \<noteq> ''GET'' \<or> at_error at \<noteq> None
                 then [LogRequest traceID (lw_statusCode lw) (rr_Method r) (rr_RequestURI r)] else []) in
           (Ret (logs, lw_response lw), s)))"

section \<open>handler.go\<close>

text \<open>The services over one world, and what the router knows.\<close>

record ('c, 'w) rest_state =
  re_agent :: "('c, 'w) agentSrv"
  re_action :: "'w actionSrv"
  re_world :: 'w

(* internal/rest/router.go:39-52 Router *)
record rest_router =
  ro_config :: Config
  ro_version :: Version
  ro_logAllRequests :: bool
  ro_json :: json_agent_srv
  ro_decode :: "string \<Rightarrow> bytes \<Rightarrow> AgentRegisterRequest res"

type_synonym ('c, 'w) handler = "('c, 'w) rest_state appHandlerFunc"

(* internal/rest/handler.go:12-32 Router.RegisterAgent *)
definition h_RegisterAgent :: "rest_router \<Rightarrow> ('c, 'w) handler" where
  "h_RegisterAgent a ctx r st =
     (case st of (at, lw, s) \<Rightarrow>
      (case ro_decode a (rr_Method r) (rr_Body r) of
         Inl err \<Rightarrow> (Ret (Inl err), st)
       | Inr data \<Rightarrow>
           (case RegisterAgent (ro_json a) data (re_agent s, re_world s) of
              (Panic, g, w) \<Rightarrow> (Panic, at, lw, s\<lparr>re_agent := g, re_world := w\<rparr>)
            | (Ret (Inl err), g, w) \<Rightarrow> (Ret (Inl err), at, lw, s\<lparr>re_agent := g, re_world := w\<rparr>)
            | (Ret (Inr resp), g, w) \<Rightarrow>
                (case srv_Start g w of
                   (Panic, w) \<Rightarrow> (Panic, at, lw, s\<lparr>re_agent := g, re_world := w\<rparr>)
                 | (Ret (Some err), w) \<Rightarrow>
                     (Ret (Inl (WithDetail ''failed to start the agent service. Please restart'' ErrInternal)), at, lw,
                      s\<lparr>re_agent := g, re_world := w\<rparr>)
                 | (Ret None, w) \<Rightarrow> (Ret (Inr (Some (VAgent resp))), at, lw, s\<lparr>re_agent := g, re_world := w\<rparr>)))))"

text \<open>The upgrade of a client hijacks the connection; \<open>hijacks\<close> says if it got that far.\<close>

(* internal/rest/handler.go:34-37 Router.ClientFeed *)
definition h_ClientFeed :: "(('c, 'w) rest_state \<Rightarrow> bool) \<Rightarrow> ('c, 'w) handler" where
  "h_ClientFeed hijacks ctx r st =
     (case st of (at, lw, s) \<Rightarrow>
      let lw' = (if hijacks s then snd (lw_Hijack True lw) else lw) in
      (case RegisterClientFeed (re_agent s) (re_world s) of
         (Panic, w) \<Rightarrow> (Panic, at, lw', s\<lparr>re_world := w\<rparr>)
       | (Ret _, w) \<Rightarrow> (Ret (Inr None), at, lw', s\<lparr>re_world := w\<rparr>)))"

(* internal/rest/handler.go:39-41 Router.GetClient *)
definition h_GetClient :: "rest_router \<Rightarrow> ('c, 'w) handler" where
  "h_GetClient a ctx r st =
     (case st of (at, lw, s) \<Rightarrow>
      (case GetAgentDetails (ro_json a) (re_agent s) (re_world s) of
         (Panic, w) \<Rightarrow> (Panic, at, lw, s\<lparr>re_world := w\<rparr>)
       | (Ret (Inl err), w) \<Rightarrow> (Ret (Inl err), at, lw, s\<lparr>re_world := w\<rparr>)
       | (Ret (Inr d), w) \<Rightarrow> (Ret (Inr (Some (VAgent d))), at, lw, s\<lparr>re_world := w\<rparr>)))"

(* internal/rest/handler.go:43-58 Router.ActionApprove *)
definition h_ActionApprove :: "('c, 'w) handler" where
  "h_ActionApprove ctx r st =
     (case st of (at, lw, s) \<Rightarrow>
      let actionID = TrimSpace (rr_Vars r ''action_id'') in
      if actionID = [] then (Ret (Inl (WithDetail ''empty actionID'' ErrBadRequest)), st)
      else (case Approve (re_action s) actionID (re_world s) of
              (Panic, w) \<Rightarrow> (Panic, at, lw, s\<lparr>re_world := w\<rparr>)
            | (Ret (Some err), w) \<Rightarrow> (Ret (Inl err), at, lw, s\<lparr>re_world := w\<rparr>)
            | (Ret None, w) \<Rightarrow>
                (Ret (Inr (Some (VAction \<lparr>ar_ActionID = actionID, ar_Status = ''approved''\<rparr>))), at, lw, s\<lparr>re_world := w\<rparr>)))"

(* internal/rest/handler.go:60-75 Router.ActionReject *)
definition h_ActionReject :: "('c, 'w) handler" where
  "h_ActionReject ctx r st =
     (case st of (at, lw, s) \<Rightarrow>
      let actionID = TrimSpace (rr_Vars r ''action_id'') in
      if actionID = [] then (Ret (Inl (WithDetail ''empty actionID'' ErrBadRequest)), st)
      else (case Reject (re_action s) actionID (re_world s) of
              (Panic, w) \<Rightarrow> (Panic, at, lw, s\<lparr>re_world := w\<rparr>)
            | (Ret (Some err), w) \<Rightarrow> (Ret (Inl err), at, lw, s\<lparr>re_world := w\<rparr>)
            | (Ret None, w) \<Rightarrow>
                (Ret (Inr (Some (VAction \<lparr>ar_ActionID = actionID, ar_Status = ''rejected''\<rparr>))), at, lw, s\<lparr>re_world := w\<rparr>)))"

(* internal/rest/handler.go:77-79 Router.HealthCheckVersion *)
definition h_HealthCheckVersion :: "rest_router \<Rightarrow> ('c, 'w) handler" where
  "h_HealthCheckVersion a ctx r st = (Ret (Inr (Some (VVersion (ro_version a)))), st)"

(* internal/rest/handler.go:81-83 Router.HealthCheckConfig *)
definition h_HealthCheckConfig :: "rest_router \<Rightarrow> ('c, 'w) handler" where
  "h_HealthCheckConfig a ctx r st = (Ret (Inr (Some (VConfig (ro_config a)))), st)"

(* internal/rest/handler.go:85-87 Router.HealthCheckStatus *)
definition h_HealthCheckStatus :: "('c, 'w) handler" where
  "h_HealthCheckStatus ctx r st =
     (case st of (at, lw, s) \<Rightarrow> (Ret (Inr (Some (VStatus (srv_GetWebsocketStatus (re_agent s) (re_world s))))), st))"

section \<open>router.go\<close>

(* internal/rest/router.go:20-31 PathHealthcheckVersion ... PathRefreshToken *)
definition PathHealthcheckVersion :: string where "PathHealthcheckVersion = ''/healthcheck/version''"
definition PathHealthCheckConfig :: string where "PathHealthCheckConfig = ''/healthcheck/config''"
definition PathHealthCheckStatus :: string where "PathHealthCheckStatus = ''/healthcheck/status''"
definition PathClientFullRegister :: string where "PathClientFullRegister = ''/register''"
definition PathClient :: string where "PathClient = ''/client''"
definition PathAction :: string where "PathAction = ''/client/action/{action_id}''"
definition PathClientFeed :: string where "PathClientFeed = ''/client/feed''"

(* internal/rest/router.go:33-37 route *)
record ('c, 'w) route =
  rt_path :: string
  rt_method :: string
  rt_handler :: "('c, 'w) handler"

(* internal/rest/router.go:71-83 Router.setRoutes: the routes *)
definition routes :: "(('c, 'w) rest_state \<Rightarrow> bool) \<Rightarrow> rest_router \<Rightarrow> ('c, 'w) route list" where
  "routes hijacks a = [
     \<lparr>rt_path = PathHealthcheckVersion, rt_method = ''GET'', rt_handler = h_HealthCheckVersion a\<rparr>,
     \<lparr>rt_path = PathHealthCheckConfig, rt_method = ''GET'', rt_handler = h_HealthCheckConfig a\<rparr>,
     \<lparr>rt_path = PathHealthCheckStatus, rt_method = ''GET'', rt_handler = h_HealthCheckStatus\<rparr>,
     \<lparr>rt_path = PathClientFullRegister, rt_method = ''POST'', rt_handler = h_RegisterAgent a\<rparr>,
     \<lparr>rt_path = PathClient, rt_method = ''GET'', rt_handler = h_GetClient a\<rparr>,
     \<lparr>rt_path = PathAction, rt_method = ''PUT'', rt_handler = h_ActionApprove\<rparr>,
     \<lparr>rt_path = PathAction, rt_method = ''DELETE'', rt_handler = h_ActionReject\<rparr>,
     \<lparr>rt_path = PathClientFeed, rt_method = MethodWebsocket, rt_handler = h_ClientFeed hijacks\<rparr>]"

text \<open>
  \<open>gorilla/mux\<close>: the first route whose template matches the path, and whose method is that of the request
  where the route has one; otherwise status 405 if some template matched, else 404. The parameter
  \<open>matches\<close> gives the variables of a template. The websocket route has no method.
\<close>

fun find_route :: "(string \<Rightarrow> string \<Rightarrow> (string \<Rightarrow> string) option) \<Rightarrow> string \<Rightarrow> string \<Rightarrow> ('c, 'w) route list
    \<Rightarrow> (('c, 'w) handler \<times> (string \<Rightarrow> string)) option" where
  "find_route matches method path [] = None"
| "find_route matches method path (rt # rts) =
     (case matches (WrapPathPrefix (rt_path rt)) path of
        Some vars \<Rightarrow> if rt_method rt = MethodWebsocket \<or> rt_method rt = method then Some (rt_handler rt, vars)
          else find_route matches method path rts
      | None \<Rightarrow> find_route matches method path rts)"

(* internal/rest/router.go:84-96 Router.setRoutes: the handler of a route *)
definition serve :: "rest_lib \<Rightarrow> rest_router \<Rightarrow> string \<Rightarrow> ('c, 'w) handler \<Rightarrow> rest_request \<Rightarrow> ('c, 'w) rest_state
    \<Rightarrow> (log_line list \<times> response) ret \<times> ('c, 'w) rest_state" where
  "serve lib a uuid handler r s =
     loggingMiddleware (ro_logAllRequests a) (ServeHTTP lib (sessionMiddleware uuid (notProtectedMiddleware handler))) r s"

(* internal/rest/router.go:54-68 NewRouter *)
definition NewRouter :: "json_agent_srv \<Rightarrow> (string \<Rightarrow> bytes \<Rightarrow> AgentRegisterRequest res) \<Rightarrow> Config \<Rightarrow> Version \<Rightarrow> rest_router" where
  "NewRouter js decode config version =
     \<lparr>ro_config = config, ro_version = version, ro_logAllRequests = http_LogAllRequests (cfg_HTTP config),
      ro_json = js, ro_decode = decode\<rparr>"

text \<open>The listener: the process exits if the service cannot start; otherwise it serves with or without TLS.\<close>

datatype listening = Exited int | ListenTLS string string string | ListenPlain string

(* internal/rest/router.go:106-123 Router.StartHTTPListener *)
definition StartHTTPListener :: "rest_router \<Rightarrow> ('c, 'w) rest_state \<Rightarrow> listening ret \<times> ('c, 'w) rest_state" where
  "StartHTTPListener a s =
     (case srv_Start (re_agent s) (re_world s) of
        (Panic, w) \<Rightarrow> (Panic, s\<lparr>re_world := w\<rparr>)
      | (Ret (Some err), w) \<Rightarrow> (Ret (Exited 1), s\<lparr>re_world := w\<rparr>)
      | (Ret None, w) \<Rightarrow>
          let h = cfg_HTTP (ro_config a) in
          (Ret (if tls_Enabled (http_TLS h) then ListenTLS (http_Addr h) (tls_CertFile (http_TLS h)) (tls_KeyFile (http_TLS h))
                else ListenPlain (http_Addr h)), s\<lparr>re_world := w\<rparr>))"

(* internal/rest/router.go:125-128 Router.Stop *)
definition router_Stop :: "('c, 'w) rest_state \<Rightarrow> unit ret \<times> ('c, 'w) rest_state" where
  "router_Stop s = (case srv_Stop (re_agent s) (re_world s) of (r, w) \<Rightarrow> (r, s\<lparr>re_world := w\<rparr>))"

section \<open>Responses\<close>

text \<open>The response to a request that is not a websocket upgrade, from what its handler returned.\<close>

definition error_response :: "rest_lib \<Rightarrow> gerr \<Rightarrow> response" where
  "error_response lib err =
     (let e = as_api_error err in
      \<lparr>rp_header = [(''Content-Type'', ''application/json''), (''X-Content-Type-Options'', ''nosniff'')],
       rp_status = Some (APIError_Code e),
       rp_body = (case APIError_JSON (rl_text lib) e of (code, detail) \<Rightarrow>
         (case rl_encode lib (VError code detail) of Inl e \<Rightarrow> [] | Inr b \<Rightarrow> b))\<rparr>)"

definition expected_response :: "rest_lib \<Rightarrow> rest_value option res \<Rightarrow> response \<times> gerr option" where
  "expected_response lib res =
     (case res of
        Inl err \<Rightarrow> (error_response lib err, Some (as_api_error err))
      | Inr v \<Rightarrow>
          (case rl_encode lib (case v of None \<Rightarrow> VCodeMsg 200 (StatusText 200) | Some v \<Rightarrow> v) of
             Inl err \<Rightarrow> (error_response lib err, Some (as_api_error err))
           | Inr b \<Rightarrow> (\<lparr>rp_header = [(''Content-Type'', ''application/json'')], rp_status = Some 200, rp_body = b\<rparr>, None)))"

definition expected_log :: "bool \<Rightarrow> string \<Rightarrow> rest_request \<Rightarrow> response \<Rightarrow> gerr option \<Rightarrow> log_line list" where
  "expected_log all uuid r rsp err =
     (case err of Some e \<Rightarrow> [LogError uuid e] | None \<Rightarrow> []) @
     (if all \<or> rr_Method r \<noteq> ''GET'' \<or> err \<noteq> None
      then [LogRequest (if err = None then [] else uuid) (the (rp_status rsp)) (rr_Method r) (rr_RequestURI r)] else [])"

text \<open>A handler that leaves response and attached values to \<open>ServeHTTP\<close>.\<close>

definition plain_handler :: "'s appHandlerFunc \<Rightarrow> bool" where
  "plain_handler h \<longleftrightarrow> (\<forall>ctx r at lw s. \<exists>out s'. h ctx r (at, lw, s) = (out, at, lw, s'))"

lemma header_keys_rest: "header_key ''Content-Type'' = ''Content-Type''" "header_key ''X-Content-Type-Options'' = ''X-Content-Type-Options''"
  by code_simp+

lemma writeHTTPError_fresh:
  "writeHTTPError lib err (\<lparr>at_ctx = c, at_error = None\<rparr>,
      lw_set ''Content-Type'' ''application/json'' \<lparr>lw_response = no_response, lw_hijacked = False, lw_statusCode = 200\<rparr>) =
    (\<lparr>at_ctx = c, at_error = Some (as_api_error err)\<rparr>,
     \<lparr>lw_response = error_response lib err, lw_hijacked = False, lw_statusCode = APIError_Code (as_api_error err)\<rparr>)"
  by (simp add: writeHTTPError_def Let_def lw_set_def rp_set_def header_set_def header_keys_rest lw_WriteHeader_def rp_WriteHeader_def
      lw_Write_def rp_Write_def no_response_def error_response_def split: prod.split)

lemma as_api_error_status: "APIError_Code (as_api_error e) = (case errors_As e of None \<Rightarrow> 500 | Some a \<Rightarrow> APIError_Code a)"
  by (simp add: as_api_error_def ErrInternal_def split: option.split)

lemma serve_plain:
  assumes h: "handler \<lparr>TraceID = uuid\<rparr> r (\<lparr>at_ctx = Some \<lparr>TraceID = uuid\<rparr>, at_error = None\<rparr>,
      \<lparr>lw_response = no_response, lw_hijacked = False, lw_statusCode = 200\<rparr>, s) =
      (Ret res, \<lparr>at_ctx = Some \<lparr>TraceID = uuid\<rparr>, at_error = None\<rparr>, \<lparr>lw_response = no_response, lw_hijacked = False, lw_statusCode = 200\<rparr>, s')"
    and ws: "\<not> is_websocket r"
  shows "serve lib a uuid handler r s =
    (case expected_response lib res of (rsp, err) \<Rightarrow> (Ret (expected_log (ro_logAllRequests a) uuid r rsp err, rsp), s'))"
proof -
  let ?at = "\<lparr>at_ctx = Some \<lparr>TraceID = uuid\<rparr>, at_error = None\<rparr>"
  let ?lw = "\<lparr>lw_response = no_response, lw_hijacked = False, lw_statusCode = 200\<rparr>"
  have f: "formatJSONResp lib (case res of Inl _ \<Rightarrow> None | Inr v \<Rightarrow> v) (case res of Inl err \<Rightarrow> Some err | Inr _ \<Rightarrow> None) (?at, ?lw) =
      (case expected_response lib res of (rsp, err) \<Rightarrow>
        (?at\<lparr>at_error := err\<rparr>, ?lw\<lparr>lw_response := rsp, lw_statusCode := the (rp_status rsp)\<rparr>))"
    unfolding formatJSONResp_def prod.case Let_def writeHTTPError_fresh
    by (auto simp: expected_response_def writeHTTPError_fresh error_response_def Let_def lw_Write_def rp_Write_def rp_WriteHeader_def
        lw_set_def rp_set_def header_set_def header_keys_rest no_response_def split: sum.split option.split)
  have sv: "ServeHTTP lib (sessionMiddleware uuid (notProtectedMiddleware handler)) r (\<lparr>at_ctx = None, at_error = None\<rparr>, ?lw, s) =
      (case expected_response lib res of (rsp, err) \<Rightarrow>
        (Ret (), ?at\<lparr>at_error := err\<rparr>, ?lw\<lparr>lw_response := rsp, lw_statusCode := the (rp_status rsp)\<rparr>, s'))"
    unfolding ServeHTTP_def sessionMiddleware_def notProtectedMiddleware_def prod.case Let_def
    using h ws f by (simp split: prod.split)
  show ?thesis
    unfolding serve_def loggingMiddleware_def Let_def sv
    by (auto simp: expected_log_def split: prod.split option.split)
qed

lemma serve_panic:
  assumes "handler \<lparr>TraceID = uuid\<rparr> r (\<lparr>at_ctx = Some \<lparr>TraceID = uuid\<rparr>, at_error = None\<rparr>,
      \<lparr>lw_response = no_response, lw_hijacked = False, lw_statusCode = 200\<rparr>, s) = (Panic, at, lw, s')"
  shows "serve lib a uuid handler r s = (Panic, s')"
  using assms by (simp add: serve_def loggingMiddleware_def ServeHTTP_def sessionMiddleware_def notProtectedMiddleware_def)

lemma plain_handlers:
  "plain_handler (h_RegisterAgent a)" "plain_handler (h_GetClient a)" "plain_handler h_ActionApprove" "plain_handler h_ActionReject"
  "plain_handler (h_HealthCheckVersion a)" "plain_handler (h_HealthCheckConfig a)" "plain_handler h_HealthCheckStatus"
  by (auto simp: plain_handler_def h_RegisterAgent_def h_GetClient_def h_ActionApprove_def h_ActionReject_def h_HealthCheckVersion_def
      h_HealthCheckConfig_def h_HealthCheckStatus_def Let_def split: sum.split prod.split ret.split option.split)

text \<open>The outcome of a handler on a fresh request.\<close>

definition handled :: "('c, 'w) handler \<Rightarrow> string \<Rightarrow> rest_request \<Rightarrow> ('c, 'w) rest_state \<Rightarrow> rest_value option res ret \<times> ('c, 'w) rest_state" where
  "handled h uuid r s =
     (case h \<lparr>TraceID = uuid\<rparr> r (\<lparr>at_ctx = Some \<lparr>TraceID = uuid\<rparr>, at_error = None\<rparr>,
          \<lparr>lw_response = no_response, lw_hijacked = False, lw_statusCode = 200\<rparr>, s) of (out, at, lw, s') \<Rightarrow> (out, s'))"

lemma serve_handled:
  assumes p: "plain_handler h" and ws: "\<not> is_websocket r"
  shows "serve lib a uuid h r s =
    (case handled h uuid r s of
       (Panic, s') \<Rightarrow> (Panic, s')
     | (Ret res, s') \<Rightarrow> (case expected_response lib res of (rsp, err) \<Rightarrow> (Ret (expected_log (ro_logAllRequests a) uuid r rsp err, rsp), s')))"
proof -
  obtain out s' where h: "h \<lparr>TraceID = uuid\<rparr> r (\<lparr>at_ctx = Some \<lparr>TraceID = uuid\<rparr>, at_error = None\<rparr>,
      \<lparr>lw_response = no_response, lw_hijacked = False, lw_statusCode = 200\<rparr>, s) = (out, \<lparr>at_ctx = Some \<lparr>TraceID = uuid\<rparr>, at_error = None\<rparr>,
      \<lparr>lw_response = no_response, lw_hijacked = False, lw_statusCode = 200\<rparr>, s')"
    using p unfolding plain_handler_def by metis
  show ?thesis
  proof (cases out)
    case Panic
    then show ?thesis using serve_panic [where handler = h and uuid = uuid and r = r and s = s, OF h [unfolded Panic]] h by (simp add: handled_def)
  next
    case (Ret res)
    then show ?thesis using serve_plain [where handler = h and uuid = uuid and r = r and s = s, OF h [unfolded Ret] ws] h by (simp add: handled_def)
  qed
qed


lemma handled_action:
  "handled (if ap then h_ActionApprove else h_ActionReject) uuid r s =
    (let i = TrimSpace (rr_Vars r ''action_id'') in
     if i = [] then (Ret (Inl (ApiError 400 ''empty actionID'' None)), s)
     else (case act (re_action s) i ap (re_world s) of
             (Panic, w) \<Rightarrow> (Panic, s\<lparr>re_world := w\<rparr>)
           | (Ret (Some err), w) \<Rightarrow> (Ret (Inl err), s\<lparr>re_world := w\<rparr>)
           | (Ret None, w) \<Rightarrow> (Ret (Inr (Some (VAction \<lparr>ar_ActionID = i, ar_Status = (if ap then ''approved'' else ''rejected'')\<rparr>))), s\<lparr>re_world := w\<rparr>)))"
  by (cases ap)
    (simp_all add: handled_def h_ActionApprove_def h_ActionReject_def Let_def Approve_def Reject_def ErrBadRequest_def split: prod.split ret.split option.split)

text \<open>
  C12. Approving and rejecting over HTTP: the identifier is trimmed; a blank one is answered with 400 without any
  call of the service. Otherwise the service acts once on the trimmed identifier, nil is answered with status
  200, the identifier and the decision, and an error with its own code, or 500 if it is no API error.
\<close>

theorem action_endpoints:
  fixes s :: "('c, 'w) rest_state" and ap :: bool
  assumes ws: "\<not> is_websocket r" and enc: "\<And>v. rl_encode lib v = Inr (enc v)"
  defines "i \<equiv> TrimSpace (rr_Vars r ''action_id'')"
  shows "(case serve lib a uuid (if ap then h_ActionApprove else h_ActionReject) r s of
      (Panic, s') \<Rightarrow> i \<noteq> [] \<and> (\<exists>w. act (re_action s) i ap (re_world s) = (Panic, w) \<and> s' = s\<lparr>re_world := w\<rparr>)
    | (Ret (logs, rsp), s') \<Rightarrow>
        if i = [] then rp_status rsp = Some 400 \<and> rp_body rsp = enc (VError 400 ''empty actionID'') \<and> s' = s
        else (\<exists>out w. act (re_action s) i ap (re_world s) = (Ret out, w) \<and> s' = s\<lparr>re_world := w\<rparr> \<and>
          (case out of
             None \<Rightarrow> rp_status rsp = Some 200 \<and>
               rp_body rsp = enc (VAction \<lparr>ar_ActionID = i, ar_Status = (if ap then ''approved'' else ''rejected'')\<rparr>)
           | Some err \<Rightarrow> rp_status rsp = Some (case errors_As err of None \<Rightarrow> 500 | Some e \<Rightarrow> APIError_Code e) \<and>
               LogError uuid (as_api_error err) \<in> set logs)))"
proof -
  have p: "plain_handler (if ap then h_ActionApprove else h_ActionReject :: ('c, 'w) handler)" by (simp add: plain_handlers)
  note S = serve_handled [OF p ws] handled_action Let_def i_def [symmetric] expected_response_def
  show ?thesis
  proof (cases "i = []")
    case True
    then show ?thesis unfolding S by (simp add: error_response_def Let_def as_api_error_def enc)
  next
    case False
    obtain out w where o: "act (re_action s) i ap (re_world s) = (out, w)" by (metis prod.exhaust)
    show ?thesis
    proof (cases out)
      case Panic
      then show ?thesis unfolding S using False o by simp
    next
      case (Ret r)
      note o = o [unfolded Ret]
      show ?thesis
      proof (cases r)
        case None
        then show ?thesis unfolding S using False o by (simp add: enc)
      next
        case (Some err)
        then show ?thesis unfolding S using False o by (simp add: error_response_def Let_def expected_log_def as_api_error_status)
      qed
    qed
  qed
qed

text \<open>
  C11. Over HTTP, with load balancing: if the signer fails, the request to approve an action is answered with the
  signer's error, and the same request again with status 200 and "approved", although the signer was only asked
  that one time and did not sign.
\<close>

theorem approve_twice_lies:
  fixes w :: srv and g :: "('c, (syncronize \<times> srv) \<times> event list) agentSrv" and rm :: "(string \<Rightarrow> syncronize \<times> srv \<Rightarrow> syncronize \<times> srv) option"
  assumes ws: "\<not> is_websocket r" and enc: "\<And>v. rl_encode lib v = Inr (enc v)" and i: "TrimSpace (rr_Vars r ''action_id'') = i" "i \<noteq> []"
    and free: "sv_cache w (sn_getKey i) = None" "sv_locks w i = None"
    and err: "errors_As err = Some (ApiError code detail wrapped)"
  defines "svc \<equiv> traced (NewActionService (sync_impl srv_lib) True rm (plain_signer (Ret (Some err))))"
  shows "\<exists>logs rsp logs' rsp' s' s''.
    serve lib a uuid h_ActionApprove r \<lparr>re_agent = g, re_action = svc, re_world = ((NewSyncronizer conf, w), [])\<rparr> = (Ret (logs, rsp), s') \<and>
    rp_status rsp = Some code \<and>
    serve lib a uuid' h_ActionApprove r s' = (Ret (logs', rsp'), s'') \<and> rp_status rsp' = Some 200 \<and>
    rp_body rsp' = enc (VAction \<lparr>ar_ActionID = i, ar_Status = ''approved''\<rparr>) \<and>
    snd (re_world s'') = [EShould i True, ELock (Ret None), ESign i True (Ret (Some err)), ERelease i (Ret None), EShould i False]"
proof -
  obtain aw where f: "act svc i True ((NewSyncronizer conf, w), []) =
      (Ret (Some err), aw, [EShould i True, ELock (Ret None), ESign i True (Ret (Some err)), ERelease i (Ret None)])"
    and f2: "\<And>l. act svc i True (aw, l) = (Ret None, aw, l @ [EShould i False])"
    using failed_act [OF free, of rm err True conf "[]"] unfolding svc_def by auto
  have p: "plain_handler (h_ActionApprove :: ('c, (syncronize \<times> srv) \<times> event list) handler)" by (rule plain_handlers)
  note H = handled_action [where ap = True, simplified]
  show ?thesis
    unfolding serve_handled [OF p ws] H Let_def i
    using i(2) err f f2 by (simp add: expected_response_def error_response_def enc as_api_error_def Let_def split: prod.split)
qed

section \<open>Concrete requests\<close>

definition demo_rest_lib :: rest_lib where
  "demo_rest_lib = \<lparr>rl_encode = (\<lambda>v. Inr (case v of VError c d \<Rightarrow> [1, of_nat c] | _ \<Rightarrow> [0])), rl_text = (\<lambda>e. [])\<rparr>"

definition demo_put :: "string \<Rightarrow> rest_request" where
  "demo_put i = \<lparr>rr_Method = ''PUT'', rr_RequestURI = ''/api/v2/client/action/'' @ i, rr_Vars = (\<lambda>k. i), rr_Connection = [],
     rr_Upgrade = [], rr_Body = []\<rparr>"

definition demo_router :: rest_router where
  "demo_router = NewRouter demo_srv_json (\<lambda>m b. Inr demo_request) (Config_Default zero_Config) \<lparr>BuildVersion = [], BuildType = [], BuildDate = []\<rparr>"

definition demo_state :: "(nat, nat) rest_state" where
  "demo_state = \<lparr>re_agent = demo_srv None, re_action = \<lparr>ac_syncronizer = \<lparr>sa_ShouldHandleAction = (\<lambda>i n. (True, n)),
       sa_AcquireLock = (\<lambda>n. (Ret None, n)), sa_Release = (\<lambda>i n. (Ret None, n))\<rparr>, ac_loadBalancingEnabled = False,
     ac_messageCache = None, ac_signer = sv_signer (demo_srv None)\<rparr>, re_world = 0\<rparr>"

lemma demo_put_plain: "\<not> is_websocket (demo_put i)"
  by (simp add: is_websocket_def demo_put_def bytes_of_def string_of_def)

lemma trim_a: "TrimSpace ''  a '' = ''a''"
  by code_simp

lemma demo_enc: "rl_encode demo_rest_lib v = Inr (case v of VError c d \<Rightarrow> [1, of_nat c] | _ \<Rightarrow> [0])"
  by (simp add: demo_rest_lib_def)

theorem action_endpoints_witness:
  "\<exists>logs rsp s'. serve demo_rest_lib demo_router ''u'' h_ActionApprove (demo_put ''  a '') demo_state = (Ret (logs, rsp), s') \<and>
    rp_status rsp = Some 200 \<and> rp_body rsp = [0]"
  using action_endpoints [OF demo_put_plain [of "''  a ''"] demo_enc, where a = demo_router and uuid = "''u''" and s = demo_state and ap = True]
  by (auto simp: demo_put_def trim_a demo_state_def act_def act_signed_def demo_srv_def split: prod.splits ret.splits)


theorem approve_twice_lies_witness:
  "\<exists>(s :: (nat, (syncronize \<times> srv) \<times> event list) rest_state) logs rsp s1 logs' rsp' s2.
    serve demo_rest_lib demo_router ''u'' h_ActionApprove (demo_put ''  a '') s = (Ret (logs, rsp), s1) \<and> rp_status rsp = Some 500 \<and>
    serve demo_rest_lib demo_router ''v'' h_ActionApprove (demo_put ''  a '') s1 = (Ret (logs', rsp'), s2) \<and> rp_status rsp' = Some 200"
proof -
  let ?w = "\<lparr>sv_locks = (\<lambda>n. None), sv_next = 0, sv_cache = (\<lambda>k. None)\<rparr>"
  have t: "TrimSpace (rr_Vars (demo_put ''  a '') ''action_id'') = ''a''" by (simp add: demo_put_def trim_a)
  have e: "errors_As (ApiError 500 [] None) = Some (ApiError 500 [] None)" by simp
  show ?thesis
    using approve_twice_lies [where r = "demo_put ''  a ''" and lib = demo_rest_lib and i = "''a''" and w = ?w and err = "ApiError 500 [] None"
        and code = 500 and detail = "[]" and wrapped = None and a = demo_router and uuid = "''u''" and uuid' = "''v''" and conf = demo_lb and rm = None,
        OF demo_put_plain demo_enc t _ _ _ e] by simp blast
qed

end
