(* ===== verification/App.thy ===== *)
theory App
  imports Rest SecretStores
begin

text \<open>
  \<open>cmd/app/main.go\<close> and \<open>internal/util/logger.go\<close>: the commands, and how the service is put together.

  A component that was constructed lives in the world from then on; the fields of \<open>app_lib\<close> give the
  interface of each constructed component over that world, and the parameters of the components. The command
  line parser, the signals and the listening socket are not modelled.
\<close>

section \<open>logger.go\<close>

datatype zap_base = ProductionConfig | DevelopmentConfig
datatype zap_level = DebugLevel | InfoLevel | WarnLevel | ErrorLevel

(* internal/util/logger.go:9-37 NewLogger *)
definition NewLogger :: "Logging \<Rightarrow> zap_base \<times> zap_level" where
  "NewLogger cfg =
     ((if log_Format cfg = ''text'' then DevelopmentConfig else ProductionConfig),
      (if log_Level cfg = ''info'' then InfoLevel
       else if log_Level cfg = ''warn'' then WarnLevel
       else if log_Level cfg = ''error'' then ErrorLevel
       else DebugLevel))"

section \<open>The parts\<close>

record ('c, 'w) app_lib =
  li_store :: "any_store \<Rightarrow> 'w kv_api"
  li_json :: json_agent
  li_auth :: "'w auth_lib"
  li_header :: "apiTokenProvider \<Rightarrow> int option \<Rightarrow> 'w header_api"
  li_cache :: "localCache option \<Rightarrow> 'w cacher"
  li_hub :: "'c websocketSource \<Rightarrow> 'w header_api \<Rightarrow> 'w feedHub \<Rightarrow> 'w hub_api"
  li_signer :: "actionSigner \<Rightarrow> 'w header_api \<Rightarrow> 'w signer_api"
  li_sync :: "syncronize \<Rightarrow> 'w sync_api"
  li_approver :: "'w autoActionApprover \<Rightarrow> 'w approver_api"
  li_upgrader :: "int \<Rightarrow> int \<Rightarrow> 'w \<Rightarrow> 'c res \<times> 'w"
  li_htc :: "'w http_api"
  li_genKeys :: "'w \<Rightarrow> (string \<times> string \<times> string \<times> string) res \<times> 'w"
  li_newClientFeed :: "'c \<Rightarrow> (HubFeedClient \<Rightarrow> 'w \<Rightarrow> unit ret \<times> 'w) \<Rightarrow> WebSocketConfig \<Rightarrow> 'w \<Rightarrow> 'w client_api \<times> 'w"
  li_json_srv :: json_agent_srv
  li_decode :: "string \<Rightarrow> bytes \<Rightarrow> AgentRegisterRequest res"

text \<open>What \<open>initRouter\<close> leaves behind: the router with its two services, and the constructed parts they use.\<close>

record ('c, 'w) started =
  st_router :: rest_router
  st_agent :: "('c, 'w) agentSrv"
  st_action :: "'w actionSrv"
  st_store :: any_store
  st_provider :: apiTokenProvider
  st_refresh :: "int option"
  st_cache :: "localCache option option"
  st_source :: "'c websocketSource"
  st_signer :: actionSigner
  st_sync :: syncronize
  st_approver :: "'w autoActionApprover option"

section \<open>main.go\<close>

text \<open>\<open>log.Panicf\<close> panics.\<close>

(* cmd/app/main.go:182-194 genAgentStore *)
definition genAgentStore :: "('c, 'w) app_lib \<Rightarrow> Config \<Rightarrow> 'w \<Rightarrow> any_store res ret \<times> 'w" where
  "genAgentStore lib config w =
     (case CreateStore config of
        None \<Rightarrow> (Panic, w)
      | Some kv \<Rightarrow>
          (case kv_Init (li_store lib kv) w of
             (Panic, w) \<Rightarrow> (Panic, w)
           | (Ret (Some err), w) \<Rightarrow> (Ret (Inl err), w)
           | (Ret None, w) \<Rightarrow> (Ret (Inr kv), w)))"

(* cmd/app/main.go:196-204 genAutoApprover *)
definition genAutoApprover :: "Config \<Rightarrow> 'w signer_api \<Rightarrow> 'w sync_api \<Rightarrow> 'w autoActionApprover option" where
  "genAutoApprover config signer syncronizer =
     (if \<not> aa_Enabled (cfg_AutoApprove config) then None else Some (NewAutoApprover config syncronizer signer))"

text \<open>The result is the provider, the interval of its ticker where it was initiated, and the agent's key.\<close>

(* cmd/app/main.go:206-218 genHeaderProvider *)
definition genHeaderProvider :: "('c, 'w) app_lib \<Rightarrow> Config \<Rightarrow> AgentInfo option \<Rightarrow> 'w
    \<Rightarrow> (apiTokenProvider \<times> int option \<times> string) res ret \<times> 'w" where
  "genHeaderProvider lib config agentInfo w =
     (let provider = NewHeaderProvider (QredoAPI (cfg_Base config)) in
      (case agentInfo of
         None \<Rightarrow> (Ret (Inr (provider, None, EmptyString)), w)
       | Some a \<Rightarrow>
           (case Initiate (li_auth lib) (ag_WorkspaceID a) (ag_APIKeySecret a) (ag_APIKeyID a) (provider, w) of
              (Panic, _, w) \<Rightarrow> (Panic, w)
            | (Ret (Inl err), _, w) \<Rightarrow> (Ret (Inl err), w)
            | (Ret (Inr d), provider, w) \<Rightarrow> (Ret (Inr (provider, Some d, ag_BLSPrivateKey a)), w))))"

(* cmd/app/main.go:136-180 initRouter *)
definition initRouter :: "('c, 'w) app_lib \<Rightarrow> Config \<Rightarrow> Version \<Rightarrow> 'w \<Rightarrow> ('c, 'w) started res ret \<times> 'w" where
  "initRouter lib config version w =
     (case genAgentStore lib config w of
        (Panic, w) \<Rightarrow> (Panic, w)
      | (Ret (Inl err), w) \<Rightarrow> (Ret (Inl (Wrapf ''Failed to initialise the store'' err)), w)
      | (Ret (Inr kv), w) \<Rightarrow>
          (case GetAgentInfo (li_json lib) (li_store lib kv) w of
             (Panic, w) \<Rightarrow> (Panic, w)
           | (Ret got, w) \<Rightarrow>
               (case (case got of Inr agentInfo \<Rightarrow> Inr agentInfo
                        | Inl err \<Rightarrow> if err \<noteq> ErrKVNotFound then Inl err else Inr None) of
                  Inl err \<Rightarrow> (Ret (Inl (Wrapf ''Failed to retrieve registered agent info'' err)), w)
                | Inr agentInfo \<Rightarrow>
                    (case genHeaderProvider lib config agentInfo w of
                       (Panic, w) \<Rightarrow> (Panic, w)
                     | (Ret (Inl err), w) \<Rightarrow> (Ret (Inl (Wrapf ''Failed to initialise the header provider'' err)), w)
                     | (Ret (Inr (p, d, agentKey)), w) \<Rightarrow>
                         let headerProvider = li_header lib p d;
                             messageCache = (if \<not> aa_Enabled (cfg_AutoApprove config)
                               then Some (NewCacher (lb_Enable (cfg_LoadBalancing config))) else None);
                             cacher = map_option (li_cache lib) messageCache;
                             source = NewWebsocketSource (QredoWebsocket (cfg_Websocket config)) (cfg_Websocket config);
                             feedHub = li_hub lib source headerProvider (NewFeedHub cacher) in
                         (case NewSigner (QredoAPI (cfg_Base config)) agentKey of
                            Inl err \<Rightarrow> (Ret (Inl (Wrapf ''Failed to initialise the signer'' err)), w)
                          | Inr sg \<Rightarrow>
                              let signer = li_signer lib sg headerProvider;
                                  sy = NewSyncronizer (cfg_LoadBalancing config);
                                  syncronizer = li_sync lib sy;
                                  autoApprover = genAutoApprover config signer syncronizer;
                                  upgrader = li_upgrader lib (ReadBufferSize (cfg_Websocket config)) (WriteBufferSize (cfg_Websocket config));
                                  agentService = NewAgentService (li_htc lib) (li_genKeys lib) (li_newClientFeed lib) config headerProvider
                                    (SaveAgentInfo (li_json lib) (li_store lib kv)) signer feedHub
                                    (map_option (li_approver lib) autoApprover) upgrader agentInfo;
                                  actionService = NewActionService syncronizer (lb_Enable (cfg_LoadBalancing config))
                                    (map_option ca_RemoveMessage cacher) signer in
                              (Ret (Inr \<lparr>st_router = NewRouter (li_json_srv lib) (li_decode lib) config version,
                                 st_agent = agentService, st_action = actionService, st_store = kv, st_provider = p, st_refresh = d,
                                 st_cache = messageCache, st_source = source, st_signer = sg, st_sync = sy,
                                 st_approver = autoApprover\<rparr>), w))))))"

text \<open>The version is what the linker put into the three variables.\<close>

(* cmd/app/main.go:93-105 startCmd.Execute: the version *)
definition build_version :: "string \<Rightarrow> string \<Rightarrow> string \<Rightarrow> Version" where
  "build_version buildType buildVersion buildDate =
     (let ver = \<lparr>BuildVersion = [], BuildType = ''dev'', BuildDate = []\<rparr>;
          ver = (if length buildType > 0 then ver\<lparr>BuildType := buildType\<rparr> else ver);
          ver = (if length buildVersion > 0 then ver\<lparr>BuildVersion := buildVersion\<rparr> else ver) in
      if length buildDate > 0 then ver\<lparr>BuildDate := buildDate\<rparr> else ver)"

text \<open>The process ends, or listens with the state of the services; when listening ends it exits with 1.\<close>

(* cmd/app/main.go:80-123 startCmd.Execute *)
definition startCmd_Execute :: "('c, 'w) app_lib \<Rightarrow> (string \<Rightarrow> bytes res) \<Rightarrow> (bytes \<Rightarrow> Config \<Rightarrow> Config \<times> gerr option) \<Rightarrow> Version \<Rightarrow> string
    \<Rightarrow> 'w \<Rightarrow> (listening \<times> ('c, 'w) rest_state option) ret \<times> 'w" where
  "startCmd_Execute lib ReadFile unmarshal ver ConfigFile w =
     (case Config_Load ReadFile unmarshal ConfigFile (Config_Default zero_Config) of
        (cfg, Some err) \<Rightarrow> (Ret (Exited 1, None), w)
      | (cfg, None) \<Rightarrow>
          (case initRouter lib cfg ver w of
             (Panic, w) \<Rightarrow> (Panic, w)
           | (Ret (Inl err), w) \<Rightarrow> (Ret (Exited 1, None), w)
           | (Ret (Inr st), w) \<Rightarrow>
               (case StartHTTPListener (st_router st) \<lparr>re_agent = st_agent st, re_action = st_action st, re_world = w\<rparr> of
                  (Panic, s) \<Rightarrow> (Panic, re_world s)
                | (Ret l, s) \<Rightarrow> (Ret (l, Some s), re_world s))))"

(* cmd/app/main.go:66-74 genKeysCmd.Execute *)
definition genKeysCmd_Execute :: "'w \<Rightarrow> ('w \<Rightarrow> (string \<times> string \<times> string \<times> string) res \<times> 'w) \<Rightarrow> (gerr + string) \<times> 'w" where
  "genKeysCmd_Execute w generate =
     (case generate w of
        (Inl err, w) \<Rightarrow> (Inl err, w)
      | (Inr (blsPublic, blsPriv, ecPubS, ecPrivS), w) \<Rightarrow>
          (Inr (''BlsPublic: '' @ blsPublic @ [CHR 0x0A] @ ''BlsPrivate: '' @ blsPriv @ [CHR 0x0A] @
                ''EcPublic: '' @ ecPubS @ [CHR 0x0A] @ ''EcPrivate: '' @ ecPrivS @ [CHR 0x0A]), w))"

(* cmd/app/main.go:224-233 initCmd.Execute *)
definition initCmd_Execute :: "(string \<Rightarrow> bytes \<Rightarrow> gerr option) \<Rightarrow> (Config \<Rightarrow> bytes res) \<Rightarrow> string \<Rightarrow> gerr option" where
  "initCmd_Execute WriteFile marshal FileName = Config_Save WriteFile marshal (Config_Default zero_Config) FileName"

section \<open>Starting\<close>

lemma initRouter_started:
  assumes "initRouter lib config version w = (Ret (Inr st), w')"
  obtains got w1 w2 where "genAgentStore lib config w = (Ret (Inr (st_store st)), w1)"
    "GetAgentInfo (li_json lib) (li_store lib (st_store st)) w1 = (Ret got, w2)"
    "got = Inr (sv_agentInfo (st_agent st)) \<or> got = Inl KVNotFound \<and> sv_agentInfo (st_agent st) = None"
    "\<exists>key. genHeaderProvider lib config (sv_agentInfo (st_agent st)) w2 = (Ret (Inr (st_provider st, st_refresh st, key)), w') \<and>
       NewSigner (QredoAPI (cfg_Base config)) key = Inr (st_signer st)"
  using assms unfolding initRouter_def Let_def
  by (auto simp: NewAgentService_def ErrKVNotFound_def split: prod.splits ret.splits sum.splits if_splits)

lemma initRouter_parts:
  assumes "initRouter lib config version w = (Ret (Inr st), w')"
  defines "signer \<equiv> li_signer lib (st_signer st) (li_header lib (st_provider st) (st_refresh st))"
    and "cache \<equiv> (if aa_Enabled (cfg_AutoApprove config) then None else Some (NewCacher (lb_Enable (cfg_LoadBalancing config))))"
    and "sync \<equiv> li_sync lib (NewSyncronizer (cfg_LoadBalancing config))"
  shows "st_cache st = cache" "sv_signer (st_agent st) = signer" "ac_signer (st_action st) = signer"
    "ac_syncronizer (st_action st) = sync" "st_approver st = genAutoApprover config signer sync"
    "ac_messageCache (st_action st) = map_option (\<lambda>c. ca_RemoveMessage (li_cache lib c)) cache"
    "sv_feedHub (st_agent st) = li_hub lib (st_source st) (li_header lib (st_provider st) (st_refresh st)) (NewFeedHub (map_option (li_cache lib) cache))"
    "sv_autoApprover (st_agent st) = map_option (li_approver lib) (st_approver st)" "sv_config (st_agent st) = config"
    "sv_store (st_agent st) = SaveAgentInfo (li_json lib) (li_store lib (st_store st))"
    "ac_loadBalancingEnabled (st_action st) = lb_Enable (cfg_LoadBalancing config)"
  using assms(1) unfolding initRouter_def Let_def signer_def cache_def sync_def
  by (auto simp: NewAgentService_def NewActionService_def map_option.compositionality comp_def split: prod.splits ret.splits sum.splits if_splits)

lemma genHeaderProvider_agent:
  assumes "genHeaderProvider lib config info w = (Ret (Inr (p, d, key)), w')"
  shows "key = (case info of None \<Rightarrow> [] | Some a \<Rightarrow> ag_BLSPrivateKey a)" "(d = None) = (info = None)"
    "info = Some a \<Longrightarrow> fst (snd (Initiate (li_auth lib) (ag_WorkspaceID a) (ag_APIKeySecret a) (ag_APIKeyID a)
       (NewHeaderProvider (QredoAPI (cfg_Base config)), w))) = p \<and> 0 < the d"
  using assms
  by (auto simp: genHeaderProvider_def Let_def EmptyString_def Initiate_def split: option.splits prod.splits ret.splits sum.splits if_splits)

lemma NewSigner_key:
  "NewSigner url key = Inr s \<Longrightarrow> (if key = [] then as_blsPrivateKey s = [] else std_decode key = (as_blsPrivateKey s, True))"
  by (auto simp: NewSigner_def SetKey_def Let_def split: if_splits prod.splits bool.splits option.splits)

text \<open>
  C26. How the service is wired, whenever the router comes up. Messages are cached, for the feed hub and for the
  action service alike, exactly if actions are not approved automatically; then the cache is the local one
  exactly without load balancing. The auto approver exists exactly if enabled, and it shares the signer and the
  synchronizer with the action service, and the signer with the agent service. The token is refreshed exactly
  if an agent is registered, at a positive interval, and the signer has the registered agent's key, or none.
\<close>

theorem initRouter_wiring:
  assumes "initRouter lib config version w = (Ret (Inr st), w')"
  shows "(case sv_agentInfo (st_agent st) of
      None \<Rightarrow> as_blsPrivateKey (st_signer st) = [] \<and> st_refresh st = None
    | Some a \<Rightarrow> (ag_BLSPrivateKey a = [] \<or> std_decode (ag_BLSPrivateKey a) = (as_blsPrivateKey (st_signer st), True)) \<and>
        (\<exists>d > 0. st_refresh st = Some d)) \<and>
    sv_signer (st_agent st) = ac_signer (st_action st) \<and>
    (if aa_Enabled (cfg_AutoApprove config)
     then st_cache st = None \<and> ac_messageCache (st_action st) = None \<and>
       (\<exists>ap. sv_autoApprover (st_agent st) = Some (li_approver lib ap) \<and>
          ap_signer ap = ac_signer (st_action st) \<and> ap_syncronizer ap = ac_syncronizer (st_action st) \<and>
          ap_loadBalancingEnabled ap = ac_loadBalancingEnabled (st_action st))
     else (let c = (if lb_Enable (cfg_LoadBalancing config) then None else Some \<lparr>lc_messages = []\<rparr>) in
       st_cache st = Some c \<and> sv_autoApprover (st_agent st) = None \<and>
       ac_messageCache (st_action st) = Some (ca_RemoveMessage (li_cache lib c)) \<and>
       sv_feedHub (st_agent st) = li_hub lib (st_source st) (li_header lib (st_provider st) (st_refresh st)) (NewFeedHub (Some (li_cache lib c)))))"
proof -
  note P = initRouter_parts [OF assms]
  obtain w2 key where g: "genHeaderProvider lib config (sv_agentInfo (st_agent st)) w2 = (Ret (Inr (st_provider st, st_refresh st, key)), w')"
    and k: "NewSigner (QredoAPI (cfg_Base config)) key = Inr (st_signer st)"
    using assms by (rule initRouter_started) blast
  note G = genHeaderProvider_agent [OF g] and K = NewSigner_key [OF k]
  have "case sv_agentInfo (st_agent st) of
      None \<Rightarrow> as_blsPrivateKey (st_signer st) = [] \<and> st_refresh st = None
    | Some a \<Rightarrow> (ag_BLSPrivateKey a = [] \<or> std_decode (ag_BLSPrivateKey a) = (as_blsPrivateKey (st_signer st), True)) \<and>
        (\<exists>d > 0. st_refresh st = Some d)"
    using G K by (cases "sv_agentInfo (st_agent st)") (auto split: if_splits)
  then show ?thesis
    by (auto simp: P genAutoApprover_def NewAutoApprover_def NewCacher_def Let_def split: option.splits)
qed

section \<open>Restarting\<close>

lemma GetAgentInfo_error: "GetAgentInfo js kv w = (Ret (Inl e), w') \<Longrightarrow> e \<noteq> KVNotFound"
  by (auto simp: GetAgentInfo_def getSystemAgentID_def ErrKVNotFound_def split: prod.splits ret.splits sum.splits if_splits)

lemma initToken_credentials:
  "initToken lib (p, w) = (r, q, w') \<Longrightarrow> tp_workspaceID q = tp_workspaceID p \<and> tp_apiKeyID q = tp_apiKeyID p \<and> tp_apiKeySecret q = tp_apiKeySecret p"
  by (auto simp: initToken_def Let_def split: prod.splits sum.splits option.splits if_splits)

lemma Initiate_credentials:
  assumes "Initiate lib ws sec kid (p, w) = (r, q, w')"
  shows "tp_workspaceID q = ws" "tp_apiKeyID q = kid" "tp_apiKeySecret q = fst (raw_url_decode sec)"
  using assms initToken_credentials [of lib "p\<lparr>tp_apiKeySecret := fst (raw_url_decode sec), tp_apiKeyID := kid, tp_workspaceID := ws\<rparr>" w]
  by (auto simp: Initiate_def Let_def split: prod.splits option.splits if_splits)


section \<open>A concrete start\<close>

text \<open>The store is a list of entries that any process finds as the last one left it.\<close>

definition demo_kv :: "kvmap kv_api" where
  "demo_kv = \<lparr>kv_Get = (\<lambda>k m. (Ret (case map_of m k of Some v \<Rightarrow> Inr v | None \<Rightarrow> Inl KVNotFound), m)),
     kv_Set = (\<lambda>k v m. (Ret None, map_put k v m)), kv_Del = (\<lambda>k m. (Ret None, map_del k m)), kv_Init = (\<lambda>m. (Ret None, m))\<rparr>"

interpretation demo_kv: kv_store "kv_Get demo_kv" "kv_Set demo_kv" "kv_Del demo_kv" map_of "\<lambda>m. True" "\<lambda>k. True"
  by unfold_locales (auto simp: demo_kv_def split: option.splits)

definition demo_keeper :: AgentInfo where
  "demo_keeper = \<lparr>ag_BLSPrivateKey = ''YWJj'', ag_ECPrivateKey = ''e'', ag_WorkspaceID = ''w'', ag_APIKeyID = ''k'', ag_APIKeySecret = ''AQ''\<rparr>"

definition demo_app :: "(nat, kvmap) app_lib" where
  "demo_app = \<lparr>li_store = (\<lambda>kv. demo_kv), li_json = \<lparr>ja_Marshal = (\<lambda>a. Inr [1]), ja_Unmarshal = (\<lambda>b. Inr demo_keeper)\<rparr>,
     li_auth = \<lparr>au_htc = \<lparr>http_NewRequest = (\<lambda>m u. None), http_Do = (\<lambda>q n. (Inr \<lparr>rs_StatusCode = 200, rs_Body = Inr []\<rparr>, n))\<rparr>,
       au_now = (\<lambda>n. 0), au_token = (\<lambda>b. Inr demo_token), au_claims = (\<lambda>b. Inr (Some 100))\<rparr>,
     li_header = (\<lambda>p d. \<lparr>he_Initiate = (\<lambda>ws s k n. (Ret None, n)), he_GetAuthHeader = (\<lambda>n. []), he_Stop = (\<lambda>n. (Ret (), n))\<rparr>),
     li_cache = (\<lambda>c. \<lparr>ca_RemoveMessage = (\<lambda>i n. n), ca_AddMessage = (\<lambda>m n. n), ca_GetMessages = (\<lambda>n. (Ret [], n))\<rparr>),
     li_hub = (\<lambda>s p h. \<lparr>hu_Run = (\<lambda>n. (True, n)), hu_Stop = (\<lambda>n. (Ret (), n)), hu_RegisterClient = (\<lambda>c n. (Ret (), n)),
       hu_UnregisterClient = (\<lambda>c n. (Ret (), n)), hu_IsRunning = (\<lambda>n. True),
       hu_GetWebsocketStatus = (\<lambda>n. \<lparr>ws_ReadyState = Open, ws_RemoteFeedUrl = [], ws_ConnectedClients = 0\<rparr>)\<rparr>),
     li_signer = (\<lambda>s p. \<lparr>si_SetKey = (\<lambda>k n. (None, n)), si_ActionApprove = (\<lambda>i n. (Ret None, n)),
       si_ActionReject = (\<lambda>i n. (Ret None, n)), si_ApproveActionMessage = (\<lambda>i m n. (Ret None, n))\<rparr>),
     li_sync = (\<lambda>s. \<lparr>sa_ShouldHandleAction = (\<lambda>i n. (True, n)), sa_AcquireLock = (\<lambda>n. (Ret None, n)), sa_Release = (\<lambda>i n. (Ret None, n))\<rparr>),
     li_approver = (\<lambda>a. \<lparr>ao_Listen = id, ao_GetFeedClient = \<lparr>fc_Feed = 0, fc_IsInternal = True\<rparr>, ao_Stop = (\<lambda>n. (Ret (), n))\<rparr>),
     li_upgrader = (\<lambda>r b n. (Inr 0, n)), li_htc = \<lparr>http_NewRequest = (\<lambda>m u. None), http_Do = (\<lambda>q n. (Inl (Foreign 1), n))\<rparr>,
     li_genKeys = (\<lambda>n. (Inl (Foreign 1), n)),
     li_newClientFeed = (\<lambda>conn u conf n. (\<lparr>cf_Start = id, cf_Listen = id, cf_GetFeedClient = \<lparr>fc_Feed = 0, fc_IsInternal = False\<rparr>\<rparr>, n)),
     li_json_srv = demo_srv_json, li_decode = (\<lambda>m b. Inr demo_request)\<rparr>"

definition demo_config :: Config where
  "demo_config = Config_Default zero_Config"

lemma demo_initiate:
  "Initiate (li_auth demo_app) ''w'' ''AQ'' ''k'' (NewHeaderProvider u, n) =
    (Ret (Inr (50 * Second)), (with_credentials ''w'' ''AQ'' ''k'' (NewHeaderProvider u))\<lparr>tp_token := demo_token, tp_tokenTTL := 100 * Second\<rparr>, n)"
proof -
  have a: "answered_token (li_auth demo_app) (Inr \<lparr>rs_StatusCode = 200, rs_Body = Inr []\<rparr>) = Some demo_token"
    by (simp add: answered_token_def response_result_def demo_app_def)
  have c: "au_claims (li_auth demo_app) = au_claims demo_auth" "au_now (li_auth demo_app) m = 0" for m
    by (simp_all add: demo_app_def demo_auth_def)
  have n: "http_NewRequest (au_htc (li_auth demo_app)) me url = None"
    and d: "http_Do (au_htc (li_auth demo_app)) q m = (Inr \<lparr>rs_StatusCode = 200, rs_Body = Inr []\<rparr>, m)" for me url q m
    by (simp_all add: demo_app_def)
  show ?thesis
    by (simp add: Initiate_def Let_def initToken_eq [OF n d] a c demo_duration with_credentials_def Second_def saturate64_def half_def)
qed

lemma demo_start:
  "\<exists>st. initRouter demo_app demo_config v m = (Ret (Inr st), m)" if "map_of m agentIDString = Some (bytes_of ''id'')" "map_of m ''id'' = Some [1]"
proof -
  have k: "std_decode ''YWJj'' = ([97, 98, 99], True)" by code_simp
  have s: "CreateStore demo_config = Some (FileKV (NewFileStore ''ccstore.db''))"
    by (simp add: demo_config_def Config_Default_def zero_Config_def CreateStore_def Let_def)
  have i: "GetAgentInfo (li_json demo_app) demo_kv m = (Ret (Inr (Some demo_keeper)), m)"
    using that by (simp add: GetAgentInfo_def getSystemAgentID_def demo_kv_def demo_app_def)
  have g: "genHeaderProvider demo_app demo_config (Some demo_keeper) m =
      (Ret (Inr ((with_credentials ''w'' ''AQ'' ''k'' (NewHeaderProvider (QredoAPI (cfg_Base demo_config))))\<lparr>tp_token := demo_token, tp_tokenTTL := 100 * Second\<rparr>,
         Some (50 * Second), ''YWJj'')), m)"
    using demo_initiate by (simp add: genHeaderProvider_def demo_keeper_def Let_def)
  have l: "li_store demo_app kv = demo_kv" "kv_Init demo_kv m = (Ret None, m)" for kv by (simp_all add: demo_app_def demo_kv_def)
  show ?thesis
    unfolding initRouter_def genAgentStore_def s by (simp add: l i g NewSigner_def SetKey_def k Let_def)
qed


theorem initRouter_wiring_witness:
  "\<exists>st w. initRouter demo_app demo_config (build_version [] [] []) [(agentIDString, bytes_of ''id''), (''id'', [1])] = (Ret (Inr st), w) \<and>
    st_cache st = Some (Some \<lparr>lc_messages = []\<rparr>) \<and> sv_autoApprover (st_agent st) = None"
proof -
  let ?m = "[(agentIDString, bytes_of ''id''), (''id'', [1 :: byte])]"
  have m: "map_of ?m agentIDString = Some (bytes_of ''id'')" "map_of ?m ''id'' = Some [1]" by (simp_all add: agentIDString_def)
  obtain st where st: "initRouter demo_app demo_config (build_version [] [] []) ?m = (Ret (Inr st), ?m)" using demo_start [OF m] by blast
  have "\<not> aa_Enabled (cfg_AutoApprove demo_config)" "\<not> lb_Enable (cfg_LoadBalancing demo_config)"
    by (simp_all add: demo_config_def Config_Default_def Let_def)
  then show ?thesis using initRouter_wiring [OF st] st by (auto simp: Let_def)
qed

end
